(* ===== verification/PyPrelude.thy ===== *)
theory PyPrelude
  imports Main "HOL-Library.List_Lexorder" "HOL-Library.Char_ord" "HOL-Library.Sublist"
    "HOL-Library.Product_Lexorder"
begin

text \<open>
  The shared vocabulary of the development: the JSON values the Python tools pass around,
  the exceptions they raise, and the few standard-library operations they use (dictionary
  access, truthiness, \<open>==\<close>, \<open>sorted\<close>, \<open>str.split\<close>, \<open>str.partition\<close>,
  \<open>str.isspace\<close>, \<open>str.encode\<close>, decimal printing and reading of integers).

  Strings are \<open>char list\<close>s read as Unicode code points U+0000 to U+00FF: every character
  test of the source distinguishes ASCII characters and a few Latin-1 ones, and on these
  code points the model computes what Python computes.  Bytes are \<open>char list\<close>s as well.
  Floats are not modelled: no modelled function accepts one.  Dictionaries keep their
  insertion order, as association lists whose first binding of a key is the one looked up.
\<close>

named_theorems res_simps \<open>equations of the error monad\<close>
named_theorems py_defs \<open>definitions of the Python primitives\<close>

section \<open>JSON values\<close>

datatype json =
    JNull
  | JBool bool
  | JInt int
  | JStr string
  | JArr "json list"
  | JObj "(string \<times> json) list"

type_synonym dict = "(string \<times> json) list"

abbreviation jtrue :: json where "jtrue \<equiv> JBool True"

abbreviation jfalse :: json where "jfalse \<equiv> JBool False"

text \<open>\<open>d.get(k)\<close>, \<open>d.get(k, default)\<close>, \<open>k in d\<close> and \<open>set(d)\<close>.\<close>

definition jget :: "dict \<Rightarrow> string \<Rightarrow> json" where
  "jget d k = (case map_of d k of None \<Rightarrow> JNull | Some v \<Rightarrow> v)"

definition jget_or :: "json \<Rightarrow> dict \<Rightarrow> string \<Rightarrow> json" where
  "jget_or dflt d k = (case map_of d k of None \<Rightarrow> dflt | Some v \<Rightarrow> v)"

definition jhas :: "dict \<Rightarrow> string \<Rightarrow> bool" where
  "jhas d k = (k \<in> set (map fst d))"

definition same_keys :: "dict \<Rightarrow> string list \<Rightarrow> bool" where
  "same_keys d ks = (set (map fst d) = set ks)"

text \<open>\<open>isinstance\<close> tests.  In Python \<open>bool\<close> is a subclass of \<open>int\<close>.\<close>

fun is_dict :: "json \<Rightarrow> bool" where
  "is_dict (JObj _) = True"
| "is_dict _ = False"

fun is_list :: "json \<Rightarrow> bool" where
  "is_list (JArr _) = True"
| "is_list _ = False"

fun is_str :: "json \<Rightarrow> bool" where
  "is_str (JStr _) = True"
| "is_str _ = False"

fun is_bool :: "json \<Rightarrow> bool" where
  "is_bool (JBool _) = True"
| "is_bool _ = False"

fun is_int :: "json \<Rightarrow> bool" where
  "is_int (JInt _) = True"
| "is_int (JBool _) = True"
| "is_int _ = False"

text \<open>The contents of a value whose type has been tested (an empty default otherwise).\<close>

fun the_dict :: "json \<Rightarrow> dict" where
  "the_dict (JObj d) = d"
| "the_dict _ = []"

fun the_list :: "json \<Rightarrow> json list" where
  "the_list (JArr xs) = xs"
| "the_list _ = []"

fun the_str :: "json \<Rightarrow> string" where
  "the_str (JStr s) = s"
| "the_str _ = []"

fun the_int :: "json \<Rightarrow> int" where
  "the_int (JInt i) = i"
| "the_int (JBool b) = (if b then 1 else 0)"
| "the_int _ = 0"

text \<open>\<open>bool(v)\<close>.\<close>

fun truthy :: "json \<Rightarrow> bool" where
  "truthy JNull = False"
| "truthy (JBool b) = b"
| "truthy (JInt i) = (i \<noteq> 0)"
| "truthy (JStr s) = (s \<noteq> [])"
| "truthy (JArr xs) = (xs \<noteq> [])"
| "truthy (JObj d) = (d \<noteq> [])"

text \<open>
  Python's \<open>==\<close>: numbers and booleans compare by value, dictionaries without regard to
  order, everything else structurally.
\<close>

fun py_eq :: "json \<Rightarrow> json \<Rightarrow> bool"
  and py_eq_list :: "json list \<Rightarrow> json list \<Rightarrow> bool"
  and py_eq_items :: "dict \<Rightarrow> dict \<Rightarrow> bool" where
  "py_eq (JArr xs) (JArr ys) = py_eq_list xs ys"
| "py_eq (JObj d) (JObj e) = (length d = length e \<and> py_eq_items d e)"
| "py_eq (JBool a) (JInt j) = (j = (if a then 1 else 0))"
| "py_eq (JInt i) (JBool b) = (i = (if b then 1 else 0))"
| "py_eq v w = (v = w)"
| "py_eq_list [] [] = True"
| "py_eq_list (x # xs) (y # ys) = (py_eq x y \<and> py_eq_list xs ys)"
| "py_eq_list _ _ = False"
| "py_eq_items [] e = True"
| "py_eq_items ((k, v) # d) e =
     ((case map_of e k of None \<Rightarrow> False | Some w \<Rightarrow> py_eq v w) \<and> py_eq_items d e)"

text \<open>\<open>v in (\<dots>)\<close>.\<close>

definition py_in :: "json \<Rightarrow> json list \<Rightarrow> bool" where
  "py_in v vs = list_ex (\<lambda>w. py_eq v w) vs"

text \<open>\<open>v in {"a", "b"}\<close> for string constants.\<close>

definition str_in :: "json \<Rightarrow> string list \<Rightarrow> bool" where
  "str_in v ss = (case v of JStr s \<Rightarrow> s \<in> set ss | _ \<Rightarrow> False)"

lemma jget_Nil [simp]: "jget [] k = JNull"
  by (simp add: jget_def)

lemma jget_Cons [simp]: "jget ((k', v) # d) k = (if k = k' then v else jget d k)"
  by (simp add: jget_def)

lemma jget_or_Nil [simp]: "jget_or x [] k = x"
  by (simp add: jget_or_def)

lemma jget_or_Cons [simp]: "jget_or x ((k', v) # d) k = (if k = k' then v else jget_or x d k)"
  by (simp add: jget_or_def)

lemma jhas_Nil [simp]: "\<not> jhas [] k"
  by (simp add: jhas_def)

lemma jhas_Cons [simp]: "jhas ((k', v) # d) k = (k = k' \<or> jhas d k)"
  by (auto simp: jhas_def)

lemma jget_not_has: "\<not> jhas d k \<Longrightarrow> jget d k = JNull"
  by (induction d) (auto simp: jget_def jhas_def split: if_splits)

lemma py_eq_refl_str [simp]: "py_eq (JStr s) v = (v = JStr s)" "py_eq v (JStr s) = (v = JStr s)"
  by (cases v; auto)+

lemma py_eq_null [simp]: "py_eq JNull v = (v = JNull)" "py_eq v JNull = (v = JNull)"
  by (cases v; auto)+

lemma str_in_iff: "str_in v ss \<longleftrightarrow> (\<exists>s \<in> set ss. v = JStr s)"
  by (cases v) (auto simp: str_in_def)

lemma str_in_JStr [simp]: "str_in (JStr s) ss = (s \<in> set ss)"
  by (simp add: str_in_def)

lemma str_in_JNull [simp]: "\<not> str_in JNull ss"
  by (simp add: str_in_def)

section \<open>Exceptions as values\<close>

text \<open>
  A raised exception is an \<open>Inl\<close>.  \<open>ValidationFailure\<close>, \<open>ResolutionError\<close>,
  \<open>RangeInvalid\<close> and \<open>Refusal\<close> are the source's own exceptions; the message of a
  \<open>ValidationFailure\<close> is kept without the interpolated case name.  The others are the
  built-in ones a modelled access can raise, and \<open>OutOfFuel\<close> is the one no Python code
  raises: a recursion of the model that was given too few steps.
\<close>

datatype failure =
    ValidationFailure string
  | ResolutionError string json
  | RangeInvalid string
  | Refusal string
  | ContractError string
  | KeyError string
  | ValueError string
  | OutOfFuel
  | TypeError
  | AttributeError
  | IndexError
  | StopIteration
  | OverflowError

type_synonym 'a res = "failure + 'a"

definition and_then :: "'e + 'a \<Rightarrow> ('a \<Rightarrow> 'e + 'b) \<Rightarrow> 'e + 'b" where
  "and_then m f = (case m of Inl e \<Rightarrow> Inl e | Inr x \<Rightarrow> f x)"

definition guard :: "bool \<Rightarrow> 'e \<Rightarrow> 'e + unit" where
  "guard b e = (if b then Inr () else Inl e)"

fun for_each :: "('a \<Rightarrow> 'e + unit) \<Rightarrow> 'a list \<Rightarrow> 'e + unit" where
  "for_each f [] = Inr ()"
| "for_each f (x # xs) = and_then (f x) (\<lambda>_. for_each f xs)"

fun map_res :: "('a \<Rightarrow> 'e + 'b) \<Rightarrow> 'a list \<Rightarrow> 'e + 'b list" where
  "map_res f [] = Inr []"
| "map_res f (x # xs) = and_then (f x) (\<lambda>y. and_then (map_res f xs) (\<lambda>ys. Inr (y # ys)))"

fun fold_res :: "('a \<Rightarrow> 's \<Rightarrow> 'e + 's) \<Rightarrow> 'a list \<Rightarrow> 's \<Rightarrow> 'e + 's" where
  "fold_res f [] s = Inr s"
| "fold_res f (x # xs) s = and_then (f x s) (fold_res f xs)"

lemma and_then_Inl [simp, res_simps]: "and_then (Inl e) f = Inl e"
  by (simp add: and_then_def)

lemma and_then_Inr [simp, res_simps]: "and_then (Inr x) f = f x"
  by (simp add: and_then_def)

lemma and_then_ok_iff [res_simps]: "and_then m f = Inr y \<longleftrightarrow> (\<exists>x. m = Inr x \<and> f x = Inr y)"
  by (cases m) auto

lemma and_then_pair_ok_iff:
  "and_then m (\<lambda>(a, b). f a b) = Inr y \<longleftrightarrow> (\<exists>a b. m = Inr (a, b) \<and> f a b = Inr y)"
  "and_then n (\<lambda>(a, b, c). g a b c) = Inr y \<longleftrightarrow> (\<exists>a b c. n = Inr (a, b, c) \<and> g a b c = Inr y)"
  by (cases m; cases n; auto)+

lemma and_then_err_iff:
  "and_then m f = Inl e \<longleftrightarrow> m = Inl e \<or> (\<exists>x. m = Inr x \<and> f x = Inl e)"
  by (cases m) auto

lemma guard_True [simp]: "guard True e = Inr ()"
  by (simp add: guard_def)

lemma guard_False [simp]: "guard False e = Inl e"
  by (simp add: guard_def)

lemma guard_ok_iff [simp, res_simps]: "guard b e = Inr u \<longleftrightarrow> b"
  by (simp add: guard_def)

lemma guard_err_iff [simp]: "guard b e = Inl e' \<longleftrightarrow> \<not> b \<and> e = e'"
  by (auto simp: guard_def)

lemma for_each_ok_iff [res_simps]: "for_each f xs = Inr u \<longleftrightarrow> (\<forall>x \<in> set xs. f x = Inr ())"
  by (induction xs) (auto simp: and_then_ok_iff)

lemma map_res_ok_set:
  "map_res f xs = Inr ys \<Longrightarrow> list_all2 (\<lambda>x y. f x = Inr y) xs ys"
  by (induction xs arbitrary: ys) (auto simp: and_then_ok_iff)

lemma map_res_last: "map_res f (xs @ [x]) = Inr ys \<Longrightarrow> f x = Inr (last ys)"
proof (induction xs arbitrary: ys)
  case Nil
  then show ?case by (auto simp: and_then_ok_iff)
next
  case (Cons a xs)
  then obtain y zs where "ys = y # zs" "map_res f (xs @ [x]) = Inr zs" by (auto simp: and_then_ok_iff)
  moreover from this(2) have "zs \<noteq> []" by (cases xs) (auto simp: and_then_ok_iff)
  ultimately show ?case using Cons.IH [of zs] by simp
qed

lemma fold_res_invariant:
  assumes "fold_res f xs s = Inr t" and "P s"
    and "\<And>x a b. x \<in> set xs \<Longrightarrow> P a \<Longrightarrow> f x a = Inr b \<Longrightarrow> P b"
  shows "P t"
  using assms
proof (induction xs arbitrary: s)
  case Nil
  then show ?case by simp
next
  case (Cons x xs)
  from Cons.prems(1) obtain u where u: "f x s = Inr u" and t: "fold_res f xs u = Inr t"
    by (auto simp: and_then_ok_iff)
  have "P u" using Cons.prems(2,3) u by (meson list.set_intros(1))
  then show ?case using Cons.IH [OF t] Cons.prems(3) by (meson list.set_intros(2))
qed

section \<open>Subscripts\<close>

text \<open>\<open>v[k]\<close> and \<open>v[k1][k2]...\<close> on a value expected to be a dictionary.\<close>

definition item :: "json \<Rightarrow> string \<Rightarrow> json res" where
  "item v k =
     (case v of JObj d \<Rightarrow> (case map_of d k of None \<Rightarrow> Inl (KeyError k) | Some w \<Rightarrow> Inr w) | _ \<Rightarrow> Inl TypeError)"

fun at_path :: "json \<Rightarrow> string list \<Rightarrow> json res" where
  "at_path v [] = Inr v"
| "at_path v (k # ks) = and_then (item v k) (\<lambda>w. at_path w ks)"

text \<open>
  A value used as a text or iterated as a list.  Where the tools would raise \<open>AttributeError\<close>
  for a method of another type, or iterate a text or a dictionary, the model raises \<open>TypeError\<close>.
\<close>

definition as_text :: "json \<Rightarrow> string res" where
  "as_text v = (case v of JStr s \<Rightarrow> Inr s | _ \<Rightarrow> Inl TypeError)"

definition as_list :: "json \<Rightarrow> json list res" where
  "as_list v = (case v of JArr vs \<Rightarrow> Inr vs | _ \<Rightarrow> Inl TypeError)"

definition text_at :: "json \<Rightarrow> string list \<Rightarrow> string res" where
  "text_at v ks = and_then (at_path v ks) as_text"

definition list_at :: "json \<Rightarrow> string list \<Rightarrow> json list res" where
  "list_at v ks = and_then (at_path v ks) as_list"

text \<open>\<open>v[k] == w\<close>, and conditions joined by \<open>and\<close>, which stop at the first false one.\<close>

definition item_is :: "json \<Rightarrow> string list \<Rightarrow> json \<Rightarrow> bool res" where
  "item_is v ks w = and_then (at_path v ks) (\<lambda>x. Inr (py_eq x w))"

fun both :: "bool res list \<Rightarrow> bool res" where
  "both [] = Inr True"
| "both (c # cs) = and_then c (\<lambda>b. if b then both cs else Inr False)"

text \<open>
  \<open>v[k]\<dots> == w[k']\<dots>\<close>, conditions joined by \<open>or\<close> and \<open>any(\<dots>)\<close>, which stop at the
  first true one.
\<close>

definition same_item :: "json \<Rightarrow> string list \<Rightarrow> json \<Rightarrow> string list \<Rightarrow> bool res" where
  "same_item v ks w ks' = and_then (at_path v ks) (\<lambda>x. and_then (at_path w ks') (\<lambda>y. Inr (py_eq x y)))"

fun any_res :: "('a \<Rightarrow> bool res) \<Rightarrow> 'a list \<Rightarrow> bool res" where
  "any_res f [] = Inr False"
| "any_res f (x # xs) = and_then (f x) (\<lambda>b. if b then Inr True else any_res f xs)"

abbreviation either :: "bool res list \<Rightarrow> bool res" where
  "either \<equiv> any_res (\<lambda>c. c)"

text \<open>\<open>not c\<close>, \<open>v != w\<close> and the truth of \<open>v[k]\<dots>\<close>.\<close>

definition negated :: "bool res \<Rightarrow> bool res" where
  "negated c = and_then c (\<lambda>b. Inr (\<not> b))"

definition truth_at :: "json \<Rightarrow> string list \<Rightarrow> bool res" where
  "truth_at v ks = and_then (at_path v ks) (\<lambda>x. Inr (truthy x))"

lemma any_ok: "any_res f xs = Inr True \<Longrightarrow> \<exists>x \<in> set xs. f x = Inr True"
  by (induction xs) (auto simp: and_then_ok_iff split: if_splits)

lemma any_none: "any_res f xs = Inr False \<longleftrightarrow> (\<forall>x \<in> set xs. f x = Inr False)"
  by (induction xs) (auto simp: and_then_ok_iff split: if_splits)

lemma negated_ok: "negated c = Inr b \<longleftrightarrow> c = Inr (\<not> b)"
  by (cases c) (auto simp: negated_def)

lemma item_ok_iff: "item v k = Inr w \<longleftrightarrow> (\<exists>d. v = JObj d \<and> map_of d k = Some w)"
  by (auto simp: item_def split: json.splits option.splits)

lemma as_text_ok_iff: "as_text v = Inr s \<longleftrightarrow> v = JStr s"
  by (cases v) (auto simp: as_text_def)

lemma as_list_ok_iff: "as_list v = Inr vs \<longleftrightarrow> v = JArr vs"
  by (cases v) (auto simp: as_list_def)

lemma text_at_ok_iff: "text_at v ks = Inr s \<longleftrightarrow> at_path v ks = Inr (JStr s)"
  by (auto simp: text_at_def and_then_ok_iff as_text_ok_iff)

lemma list_at_ok_iff: "list_at v ks = Inr vs \<longleftrightarrow> at_path v ks = Inr (JArr vs)"
  by (auto simp: list_at_def and_then_ok_iff as_list_ok_iff)

lemma item_is_ok_iff: "item_is v ks w = Inr True \<longleftrightarrow> (\<exists>x. at_path v ks = Inr x \<and> py_eq x w)"
  by (auto simp: item_is_def and_then_ok_iff)

lemma both_ok_iff: "both cs = Inr True \<longleftrightarrow> (\<forall>c \<in> set cs. c = Inr True)"
  by (induction cs) (auto simp: and_then_ok_iff split: if_splits)

lemma truth_ok: "truth_at v [k] = Inr True \<longleftrightarrow> (\<exists>x. item v k = Inr x \<and> truthy x)"
  by (auto simp: truth_at_def and_then_ok_iff)

lemma same_item_ok: "same_item v ks w ks' = Inr b \<longleftrightarrow>
    (\<exists>x y. at_path v ks = Inr x \<and> at_path w ks' = Inr y \<and> b = py_eq x y)"
  by (auto simp: same_item_def and_then_ok_iff)

end
