(* ===== verification/PyText.thy ===== *)
theory PyText
  imports PyPrelude
begin

text \<open>
  The string operations of the Python standard library the tools use, each with the facts
  the components need: \<open>split\<close> and \<open>join\<close> on one separator are inverse to each
  other, decimal printing is read back by \<open>int\<close>.  A printer and its reader form a
  \<open>text_codec\<close>; the locale is interpreted for decimals here, and for UTF-8, versions and
  repository addresses in the theories that provide them.
\<close>

section \<open>Characters\<close>

definition ord_of :: "char \<Rightarrow> nat" where
  "ord_of c = of_char c"

definition is_digit :: "char \<Rightarrow> bool" where
  "is_digit c = (48 \<le> ord_of c \<and> ord_of c \<le> 57)"

definition is_lower :: "char \<Rightarrow> bool" where
  "is_lower c = (97 \<le> ord_of c \<and> ord_of c \<le> 122)"

definition is_upper :: "char \<Rightarrow> bool" where
  "is_upper c = (65 \<le> ord_of c \<and> ord_of c \<le> 90)"

definition is_alnum :: "char \<Rightarrow> bool" where
  "is_alnum c = (is_digit c \<or> is_lower c \<or> is_upper c)"

text \<open>\<open>str.isspace\<close> on U+0000 to U+00FF.\<close>

definition is_space :: "char \<Rightarrow> bool" where
  "is_space c = ((9 \<le> ord_of c \<and> ord_of c \<le> 13) \<or> (28 \<le> ord_of c \<and> ord_of c \<le> 32)
     \<or> ord_of c = 133 \<or> ord_of c = 160)"

definition newline :: char where
  "newline = CHR 0x0A"

section \<open>Splitting and joining\<close>

text \<open>\<open>s.split(c)\<close> for a one-character separator.\<close>

fun split_on :: "char \<Rightarrow> string \<Rightarrow> string list" where
  "split_on c [] = [[]]"
| "split_on c (x # xs) =
     (if x = c then [] # split_on c xs
      else (case split_on c xs of [] \<Rightarrow> [[x]] | w # ws \<Rightarrow> (x # w) # ws))"

text \<open>\<open>sep.join(ws)\<close>.\<close>

fun join_with :: "string \<Rightarrow> string list \<Rightarrow> string" where
  "join_with sep [] = []"
| "join_with sep [w] = w"
| "join_with sep (w # v # ws) = w @ sep @ join_with sep (v # ws)"

text \<open>\<open>s.partition(c)\<close>: the part before the first \<open>c\<close>, and the part after it.\<close>

definition before_char :: "char \<Rightarrow> string \<Rightarrow> string" where
  "before_char c s = takeWhile (\<lambda>x. x \<noteq> c) s"

definition after_char :: "char \<Rightarrow> string \<Rightarrow> string" where
  "after_char c s = drop 1 (dropWhile (\<lambda>x. x \<noteq> c) s)"

text \<open>\<open>p in s\<close> for strings.\<close>

fun contains :: "string \<Rightarrow> string \<Rightarrow> bool" where
  "contains p [] = (p = [])"
| "contains p (x # xs) = (prefix p (x # xs) \<or> contains p xs)"

text \<open>\<open>s.strip()\<close> and \<open>s.split()\<close>: on runs of white space.\<close>

definition strip :: "string \<Rightarrow> string" where
  "strip s = rev (dropWhile is_space (rev (dropWhile is_space s)))"

fun words_aux :: "string \<Rightarrow> string \<Rightarrow> string list" where
  "words_aux acc [] = (if acc = [] then [] else [rev acc])"
| "words_aux acc (x # xs) =
     (if is_space x then (if acc = [] then words_aux [] xs else rev acc # words_aux [] xs)
      else words_aux (x # acc) xs)"

definition words :: "string \<Rightarrow> string list" where
  "words s = words_aux [] s"

text \<open>\<open>s.split("||")\<close>: leftmost, non-overlapping.\<close>

fun split_bars :: "string \<Rightarrow> string list" where
  "split_bars [] = [[]]"
| "split_bars [x] = [[x]]"
| "split_bars (x # y # s) =
     (if x = CHR ''|'' \<and> y = CHR ''|'' then [] # split_bars s
      else (case split_bars (y # s) of [] \<Rightarrow> [[x]] | w # ws \<Rightarrow> (x # w) # ws))"

lemma split_on_nonempty [simp]: "split_on c s \<noteq> []"
  by (induction s) (auto split: list.splits)

lemma join_with_Cons: "ws \<noteq> [] \<Longrightarrow> join_with sep (w # ws) = w @ sep @ join_with sep ws"
  by (cases ws) auto

lemma join_split: "join_with [c] (split_on c s) = s"
proof (induction s)
  case (Cons x xs)
  obtain w ws where eq: "split_on c xs = w # ws"
    by (meson list.exhaust split_on_nonempty)
  show ?case
  proof (cases "x = c")
    case True
    then show ?thesis using Cons by (simp add: join_with_Cons)
  next
    case False
    then show ?thesis using Cons eq by (cases ws) auto
  qed
qed simp

lemma split_on_no_sep: "w \<in> set (split_on c s) \<Longrightarrow> c \<notin> set w"
  by (induction s arbitrary: w) (fastforce split: list.splits if_splits)+

lemma split_on_id: "c \<notin> set s \<Longrightarrow> split_on c s = [s]"
  by (induction s) auto

lemma split_on_append: "c \<notin> set w \<Longrightarrow> split_on c (w @ c # s) = w # split_on c s"
  by (induction w) auto

lemma split_join:
  "ws \<noteq> [] \<Longrightarrow> (\<And>w. w \<in> set ws \<Longrightarrow> c \<notin> set w) \<Longrightarrow> split_on c (join_with [c] ws) = ws"
proof (induction ws)
  case (Cons w ws)
  then show ?case
    by (cases "ws = []") (auto simp: split_on_id join_with_Cons split_on_append)
qed simp

lemma before_char_id: "c \<notin> set s \<Longrightarrow> before_char c s = s"
  unfolding before_char_def by (induction s) auto

lemma before_char_append: "c \<notin> set w \<Longrightarrow> before_char c (w @ c # s) = w"
  unfolding before_char_def by (induction w) auto

lemma after_char_append: "c \<notin> set w \<Longrightarrow> after_char c (w @ c # s) = s"
  unfolding after_char_def by (induction w) auto

lemma partition_join: "c \<in> set s \<Longrightarrow> before_char c s @ c # after_char c s = s"
  unfolding before_char_def after_char_def
  by (induction s) auto

lemma before_char_no_sep: "c \<notin> set (before_char c s)"
  unfolding before_char_def by (metis (mono_tags, lifting) set_takeWhileD)

lemma words_aux_nonspace:
  "list_all (\<lambda>c. \<not> is_space c) w \<Longrightarrow> words_aux acc (w @ s) = words_aux (rev w @ acc) s"
  by (induction w arbitrary: acc) auto

lemma words_join:
  "list_all (\<lambda>w. w \<noteq> [] \<and> list_all (\<lambda>c. \<not> is_space c) w) ws \<Longrightarrow> words (join_with '' '' ws) = ws"
proof (induction ws rule: induct_list012)
  case (2 w)
  then show ?case using words_aux_nonspace [of w "[]" "[]"] by (simp add: words_def)
next
  case (3 w v ws)
  have sp: "is_space (CHR '' '')" by (simp add: is_space_def ord_of_def)
  show ?case
    using 3 words_aux_nonspace [of w "[]" "CHR '' '' # join_with '' '' (v # ws)"] sp
    by (simp add: words_def)
qed (simp add: words_def)

lemma strip_id: "s = [] \<or> (\<not> is_space (hd s) \<and> \<not> is_space (last s)) \<Longrightarrow> strip s = s"
proof -
  assume *: "s = [] \<or> (\<not> is_space (hd s) \<and> \<not> is_space (last s))"
  then have "dropWhile is_space s = s" "dropWhile is_space (rev s) = rev s"
    by (auto simp: dropWhile_eq_self_iff hd_rev)
  then show "strip s = s" by (simp add: strip_def)
qed

lemma split_bars_nonempty [simp]: "split_bars s \<noteq> []"
  by (induction s rule: split_bars.induct) (auto split: list.splits)

lemma split_bars_id: "CHR ''|'' \<notin> set s \<Longrightarrow> split_bars s = [s]"
  by (induction s rule: split_bars.induct) auto

lemma split_bars_append: "CHR ''|'' \<notin> set w \<Longrightarrow> split_bars (w @ ''||'' @ s) = w # split_bars s"
proof (induction w)
  case (Cons x w)
  then show ?case by (cases w) auto
qed simp

lemma split_bars_join:
  "ts \<noteq> [] \<Longrightarrow> list_all (\<lambda>t. CHR ''|'' \<notin> set t) ts \<Longrightarrow> split_bars (join_with ''||'' ts) = ts"
proof (induction ts rule: induct_list012)
  case (3 t u ts)
  then show ?case using split_bars_append [of t "join_with ''||'' (u # ts)"] by simp
qed (simp_all add: split_bars_id)

lemma join_with_nonempty: "ws \<noteq> [] \<Longrightarrow> last ws \<noteq> [] \<Longrightarrow> join_with sep ws \<noteq> []"
  by (induction ws rule: induct_list012) auto

lemma join_with_last: "ws \<noteq> [] \<Longrightarrow> last ws \<noteq> [] \<Longrightarrow> last (join_with sep ws) = last (last ws)"
  by (induction ws rule: induct_list012) (auto simp: last_append join_with_nonempty)

lemma join_with_hd: "ws \<noteq> [] \<Longrightarrow> hd ws \<noteq> [] \<Longrightarrow> hd (join_with sep ws) = hd (hd ws)"
  by (induction ws rule: induct_list012) (auto simp: hd_append)

section \<open>Decimal numerals\<close>

definition digit_char :: "nat \<Rightarrow> char" where
  "digit_char d = char_of (48 + d)"

fun nat_text :: "nat \<Rightarrow> string" where
  "nat_text n = (if n < 10 then [digit_char n] else nat_text (n div 10) @ [digit_char (n mod 10)])"

declare nat_text.simps [simp del]

definition int_text :: "int \<Rightarrow> string" where
  "int_text i = (if i < 0 then CHR ''-'' # nat_text (nat (- i)) else nat_text (nat i))"

definition nat_of_digits :: "string \<Rightarrow> nat" where
  "nat_of_digits s = foldl (\<lambda>n c. 10 * n + (ord_of c - 48)) 0 s"

text \<open>The language of \<open>0|[1-9][0-9]*\<close>.\<close>

definition canonical_decimal :: "string \<Rightarrow> bool" where
  "canonical_decimal s = (s \<noteq> [] \<and> list_all is_digit s \<and> (hd s = CHR ''0'' \<longrightarrow> tl s = []))"

definition nat_parse :: "string \<Rightarrow> nat option" where
  "nat_parse s = (if canonical_decimal s then Some (nat_of_digits s) else None)"

lemma ord_of_digit_char: "d < 10 \<Longrightarrow> ord_of (digit_char d) = 48 + d"
  by (simp add: ord_of_def digit_char_def)

lemma is_digit_digit_char: "d < 10 \<Longrightarrow> is_digit (digit_char d)"
  by (simp add: is_digit_def ord_of_digit_char)

lemma digit_char_eq_0: "d < 10 \<Longrightarrow> digit_char d = CHR ''0'' \<longleftrightarrow> d = 0"
proof
  assume "digit_char d = CHR ''0''"
  then have "ord_of (digit_char d) = 48" by (simp add: ord_of_def)
  then show "d = 0" if "d < 10" using that ord_of_digit_char [of d] by simp
next
  have "digit_char 0 = char_of (of_char CHR ''0'' :: nat)" by (simp add: digit_char_def)
  then show "d = 0 \<Longrightarrow> digit_char d = CHR ''0''" by (simp only: char_of_char)
qed

lemma digit_char_ord: "is_digit c \<Longrightarrow> digit_char (ord_of c - 48) = c"
  by (simp add: is_digit_def digit_char_def ord_of_def)

lemma digit_char_is: "ord_of c = 48 + d \<Longrightarrow> digit_char d = c"
  unfolding digit_char_def ord_of_def by (metis char_of_char)

lemma digit_chars:
  "digit_char 0 = CHR ''0''" "digit_char (Suc 0) = CHR ''1''" "digit_char 1 = CHR ''1''"
  "digit_char 2 = CHR ''2''" "digit_char 3 = CHR ''3''" "digit_char 4 = CHR ''4''"
  "digit_char 5 = CHR ''5''" "digit_char 6 = CHR ''6''" "digit_char 7 = CHR ''7''"
  "digit_char 8 = CHR ''8''" "digit_char 9 = CHR ''9''"
  by (rule digit_char_is; simp add: ord_of_def)+

lemma nat_of_digits_snoc: "nat_of_digits (s @ [c]) = 10 * nat_of_digits s + (ord_of c - 48)"
  by (simp add: nat_of_digits_def)

lemma nat_text_digits: "list_all is_digit (nat_text n)"
  by (induction n rule: nat_text.induct) (subst nat_text.simps, auto simp: is_digit_digit_char)

lemma nat_text_nonempty [simp]: "nat_text n \<noteq> []"
  by (subst nat_text.simps) simp

lemma nat_of_digits_nat_text [simp]: "nat_of_digits (nat_text n) = n"
proof (induction n rule: nat_text.induct)
  case (1 n)
  then show ?case
    by (subst nat_text.simps)
      (auto simp: nat_of_digits_snoc ord_of_digit_char nat_of_digits_def [of "[_]"])
qed

lemma hd_nat_text: "hd (nat_text n) = CHR ''0'' \<longleftrightarrow> n = 0"
proof (induction n rule: nat_text.induct)
  case (1 n)
  then show ?case
    by (subst nat_text.simps) (auto simp: digit_char_eq_0)
qed

lemma canonical_nat_text: "canonical_decimal (nat_text n)"
proof -
  have "hd (nat_text n) = CHR ''0'' \<Longrightarrow> tl (nat_text n) = []"
    by (simp add: hd_nat_text) (subst nat_text.simps, simp)
  then show ?thesis by (simp add: canonical_decimal_def nat_text_digits)
qed

lemma nat_of_digits_pos:
  "list_all is_digit s \<Longrightarrow> s \<noteq> [] \<Longrightarrow> hd s \<noteq> CHR ''0'' \<Longrightarrow> 0 < nat_of_digits s"
proof (induction s rule: rev_induct)
  case (snoc c s)
  show ?case
  proof (cases "s = []")
    case True
    have "ord_of c \<noteq> 48"
      using snoc.prems True digit_char_ord [of c] digit_char_eq_0 [of 0] by auto
    then show ?thesis using snoc.prems True
      by (simp add: nat_of_digits_def is_digit_def)
  next
    case False
    then show ?thesis using snoc by (simp add: nat_of_digits_snoc)
  qed
qed simp

lemma nat_text_nat_of_digits: "canonical_decimal s \<Longrightarrow> nat_text (nat_of_digits s) = s"
proof (induction s rule: rev_induct)
  case (snoc c s)
  have c: "is_digit c" "ord_of c - 48 < 10" using snoc.prems
    by (auto simp: canonical_decimal_def is_digit_def)
  show ?case
  proof (cases "s = []")
    case True
    then show ?thesis using c
      by (subst nat_text.simps) (simp add: nat_of_digits_def digit_char_ord)
  next
    case False
    with snoc.prems have can: "canonical_decimal s" and h: "hd s \<noteq> CHR ''0''"
      by (auto simp: canonical_decimal_def hd_append)
    with False have "0 < nat_of_digits s"
      by (simp add: nat_of_digits_pos canonical_decimal_def)
    then show ?thesis using snoc.IH [OF can] c
      by (subst nat_text.simps) (simp add: nat_of_digits_snoc digit_char_ord)
  qed
qed (simp add: canonical_decimal_def)

lemma char_notin_nat_text: "\<not> is_digit c \<Longrightarrow> c \<notin> set (nat_text n)"
  using nat_text_digits [of n] by (auto simp: list_all_iff)

section \<open>Codecs\<close>

text \<open>
  A printer and a reader that undoes it on the values of a domain.  Printing is then injective,
  and a list of printed values joined by a character none of them contains is read back whole.
\<close>

locale text_codec =
  fixes print :: "'a \<Rightarrow> string" and parse :: "string \<Rightarrow> 'a option" and dom :: "'a \<Rightarrow> bool"
  assumes parse_print: "dom x \<Longrightarrow> parse (print x) = Some x"
begin

lemma print_inj: "dom x \<Longrightarrow> dom y \<Longrightarrow> print x = print y \<longleftrightarrow> x = y"
  using parse_print by (metis option.inject)

lemma print_eq_parse: "dom x \<Longrightarrow> print x = s \<Longrightarrow> parse s = Some x"
  using parse_print by blast

lemma parse_all_print: "list_all dom xs \<Longrightarrow> those (map parse (map print xs)) = Some xs"
  by (induction xs) (auto simp: parse_print)

lemma parse_join:
  assumes "xs \<noteq> []" "list_all dom xs" "\<And>x. x \<in> set xs \<Longrightarrow> c \<notin> set (print x)"
  shows "those (map parse (split_on c (join_with [c] (map print xs)))) = Some xs"
  using parse_all_print [OF assms(2)] assms(1,3) by (subst split_join) auto

end

interpretation decimal: text_codec nat_text nat_parse "\<lambda>_. True"
  by unfold_locales (simp add: nat_parse_def canonical_nat_text)

end
