(* ===== verification/Ordering.thy ===== *)
theory Ordering
  imports PyText "HOL-Library.Multiset"
begin

text \<open>
  Three-way comparison functions in the style of \<open>functools.cmp_to_key\<close>, and the stable
  sort Python builds from one.  The locale \<open>three_way\<close> is the contract the sorting and
  candidate-selection code relies on; \<open>total_three_way\<close> adds that equal comparison means
  equality.  The interfaces are interpreted on the version comparison in theory \<open>SemVer\<close>.
\<close>

definition three_way_of :: "'a::linorder \<Rightarrow> 'a \<Rightarrow> int" where
  "three_way_of x y = (if x < y then -1 else if y < x then 1 else 0)"

lemma three_way_of_simps:
  "three_way_of x y \<le> 0 \<longleftrightarrow> x \<le> y" "three_way_of x y < 0 \<longleftrightarrow> x < y"
  "0 < three_way_of x y \<longleftrightarrow> y < x" "0 \<le> three_way_of x y \<longleftrightarrow> y \<le> x"
  "three_way_of x y = 0 \<longleftrightarrow> x = y"
  by (auto simp: three_way_of_def)

lemma three_way_of_flip: "three_way_of y x = - three_way_of x y"
  by (auto simp: three_way_of_def)

text \<open>\<open>sorted(xs, key=cmp_to_key(cmp))\<close>: insertion before the first element not below.\<close>

fun insert_by :: "('a \<Rightarrow> 'a \<Rightarrow> int) \<Rightarrow> 'a \<Rightarrow> 'a list \<Rightarrow> 'a list" where
  "insert_by cmp x [] = [x]"
| "insert_by cmp x (y # ys) = (if cmp x y \<le> 0 then x # y # ys else y # insert_by cmp x ys)"

fun sort_by :: "('a \<Rightarrow> 'a \<Rightarrow> int) \<Rightarrow> 'a list \<Rightarrow> 'a list" where
  "sort_by cmp [] = []"
| "sort_by cmp (x # xs) = insert_by cmp x (sort_by cmp xs)"

lemma mset_insert_by [simp]: "mset (insert_by cmp x xs) = add_mset x (mset xs)"
  by (induction xs) auto

lemma mset_sort_by [simp]: "mset (sort_by cmp xs) = mset xs"
  by (induction xs) auto

lemma set_sort_by [simp]: "set (sort_by cmp xs) = set xs"
  by (metis mset_sort_by set_mset_mset)

lemma set_insert_by [simp]: "set (insert_by cmp x xs) = insert x (set xs)"
  by (induction xs) auto

locale three_way =
  fixes cmp :: "'a \<Rightarrow> 'a \<Rightarrow> int"
  assumes flip: "cmp y x = - cmp x y"
    and le_trans: "cmp x y \<le> 0 \<Longrightarrow> cmp y z \<le> 0 \<Longrightarrow> cmp x z \<le> 0"
begin

lemma self: "cmp x x = 0"
  using flip [of x x] by simp

lemma total: "cmp x y \<le> 0 \<or> cmp y x \<le> 0"
  using flip [of x y] by linarith

lemma le_flip: "\<not> cmp x y \<le> 0 \<Longrightarrow> cmp y x \<le> 0"
  using total by blast

lemma sorted_insert_by:
  "sorted_wrt (\<lambda>x y. cmp x y \<le> 0) xs \<Longrightarrow> sorted_wrt (\<lambda>x y. cmp x y \<le> 0) (insert_by cmp x xs)"
  by (induction xs) (auto intro: le_trans le_flip)

lemma sorted_sort_by: "sorted_wrt (\<lambda>x y. cmp x y \<le> 0) (sort_by cmp xs)"
  by (induction xs) (auto intro: sorted_insert_by)

text \<open>Equal elements keep the order they came in.\<close>

lemma filter_insert_by:
  "filter (\<lambda>y. cmp z y = 0) (insert_by cmp x xs) =
     (if cmp z x = 0 then x # filter (\<lambda>y. cmp z y = 0) xs else filter (\<lambda>y. cmp z y = 0) xs)"
proof (induction xs)
  case (Cons y ys)
  have "cmp x y \<le> 0" if "cmp z x = 0" "cmp z y = 0"
    using that le_trans [of x z y] flip [of x z] by simp
  then show ?case using Cons by auto
qed simp

lemma stable_sort_by: "filter (\<lambda>y. cmp z y = 0) (sort_by cmp xs) = filter (\<lambda>y. cmp z y = 0) xs"
  by (induction xs) (simp_all add: filter_insert_by)

text \<open>The first match of a reversed ascending scan is a greatest match.\<close>

lemma find_rev_greatest:
  assumes "sorted_wrt (\<lambda>x y. cmp x y \<le> 0) xs" "find P (rev xs) = Some m" "x \<in> set xs" "P x"
  shows "cmp x m \<le> 0"
  using assms
proof (induction xs rule: rev_induct)
  case (snoc a xs)
  then show ?case
    by (cases "P a") (auto simp: sorted_wrt_append self)
qed simp

end

locale total_three_way = three_way cmp for cmp :: "'a \<Rightarrow> 'a \<Rightarrow> int" +
  fixes dom :: "'a \<Rightarrow> bool"
  assumes zero_eq: "dom x \<Longrightarrow> dom y \<Longrightarrow> cmp x y = 0 \<Longrightarrow> x = y"
begin

lemma antisym: "dom x \<Longrightarrow> dom y \<Longrightarrow> cmp x y \<le> 0 \<Longrightarrow> cmp y x \<le> 0 \<Longrightarrow> x = y"
  using zero_eq [of x y] flip [of x y] by linarith

text \<open>There is only one way to sort a list without repetition.\<close>

lemma sorted_unique:
  assumes "sorted_wrt (\<lambda>x y. cmp x y \<le> 0) xs" "sorted_wrt (\<lambda>x y. cmp x y \<le> 0) ys"
    "mset xs = mset ys" "\<And>x. x \<in> set xs \<Longrightarrow> dom x"
  shows "xs = ys"
  using assms
proof (induction xs arbitrary: ys)
  case (Cons x xs)
  then obtain y zs where ys: "ys = y # zs" by (cases ys) auto
  have eq: "set (x # xs) = set ys" using Cons.prems(3) by (metis set_mset_mset)
  have "x = y"
  proof (rule ccontr)
    assume "x \<noteq> y"
    with eq ys have "y \<in> set xs" "x \<in> set zs" by auto
    then have "cmp x y \<le> 0" "cmp y x \<le> 0" using Cons.prems ys by auto
    with Cons.prems(4) eq ys \<open>x \<noteq> y\<close> show False by (metis antisym list.set_intros(1))
  qed
  with Cons ys show ?case by auto
qed simp

lemma sort_by_perm: "mset xs = mset ys \<Longrightarrow> (\<And>x. x \<in> set xs \<Longrightarrow> dom x) \<Longrightarrow> sort_by cmp xs = sort_by cmp ys"
  by (rule sorted_unique) (auto intro: sorted_sort_by)

end

end
