(* ===== verification/SemVer.thy ===== *)
theory SemVer
  imports Ordering
begin

text \<open>
  Versions and ranges (\<open>tools/validate.py\<close>, section 1.4 of the environments protocol):
  the strict SemVer parser and printer, precedence, the desugaring of range primitives into
  comparators and the admission test.
\<close>

section \<open>Versions\<close>

datatype version = Ver (major: nat) (minor: nat) (patch: nat) (prerelease: "string list")

text \<open>
  \<open>re.match\<close> of a pattern ending in \<open>$\<close> also succeeds before a final line feed, and
  \<open>int\<close> ignores surrounding white space.
\<close>

definition numeric_part :: "string \<Rightarrow> bool" where
  "numeric_part s = (canonical_decimal s \<or>
     (s \<noteq> [] \<and> last s = newline \<and> canonical_decimal (butlast s)))"

definition ident_char :: "char \<Rightarrow> bool" where
  "ident_char c = (is_alnum c \<or> c = CHR ''-'')"

definition prerelease_part :: "string \<Rightarrow> bool" where
  "prerelease_part s = ((s \<noteq> [] \<and> list_all ident_char s) \<or>
     (s \<noteq> [] \<and> last s = newline \<and> butlast s \<noteq> [] \<and> list_all ident_char (butlast s)))"

definition py_int :: "string \<Rightarrow> nat" where
  "py_int s = nat_of_digits (strip s)"

definition str_isdigit :: "string \<Rightarrow> bool" where
  "str_isdigit s = (s \<noteq> [] \<and> list_all is_digit s)"

definition ident_ok :: "string \<Rightarrow> bool" where
  "ident_ok s = (prerelease_part s \<and> \<not> (str_isdigit s \<and> 1 < length s \<and> hd s = CHR ''0''))"

definition semver_parse :: "string \<Rightarrow> version option" where
  "semver_parse text =
     (let core = before_char (CHR ''-'') text; pre = after_char (CHR ''-'') text in
      case split_on (CHR ''.'') core of
        [a, b, c] \<Rightarrow>
          if \<not> (numeric_part a \<and> numeric_part b \<and> numeric_part c) then None
          else if CHR ''-'' \<in> set text then
            if pre = [] then None
            else (let ids = split_on (CHR ''.'') pre in
                  if list_all ident_ok ids then Some (Ver (py_int a) (py_int b) (py_int c) ids)
                  else None)
          else Some (Ver (py_int a) (py_int b) (py_int c) [])
      | _ \<Rightarrow> None)"

definition semver_parse_tag :: "string \<Rightarrow> version option" where
  "semver_parse_tag tag = (if prefix ''v'' tag then semver_parse (tl tag) else None)"

definition semver_text :: "version \<Rightarrow> string" where
  "semver_text v =
     nat_text (major v) @ ''.'' @ nat_text (minor v) @ ''.'' @ nat_text (patch v) @
     (if prerelease v \<noteq> [] then ''-'' @ join_with ''.'' (prerelease v) else [])"

text \<open>The identifiers the grammar allows, and the versions that carry only those.\<close>

definition valid_ident :: "string \<Rightarrow> bool" where
  "valid_ident s = (s \<noteq> [] \<and> list_all ident_char s \<and>
     \<not> (str_isdigit s \<and> 1 < length s \<and> hd s = CHR ''0''))"

definition valid_version :: "version \<Rightarrow> bool" where
  "valid_version v = list_all valid_ident (prerelease v)"

section \<open>Precedence\<close>

fun compare_ids :: "string list \<Rightarrow> string list \<Rightarrow> int" where
  "compare_ids [] [] = 0"
| "compare_ids [] (_ # _) = -1"
| "compare_ids (_ # _) [] = 1"
| "compare_ids (l # ls) (r # rs) =
     (let ln = str_isdigit l; rn = str_isdigit r in
      if ln \<and> rn then
        (if nat_of_digits l \<noteq> nat_of_digits r
         then (if nat_of_digits l < nat_of_digits r then -1 else 1)
         else compare_ids ls rs)
      else if ln then -1
      else if rn then 1
      else if l \<noteq> r then (if l < r then -1 else 1)
      else compare_ids ls rs)"

definition compare_prerelease :: "string list \<Rightarrow> string list \<Rightarrow> int" where
  "compare_prerelease a b =
     (if a = [] \<and> b = [] then 0 else if a = [] then 1 else if b = [] then -1
      else compare_ids a b)"

definition semver_compare :: "version \<Rightarrow> version \<Rightarrow> int" where
  "semver_compare a b =
     (if major a \<noteq> major b then (if major a < major b then -1 else 1)
      else if minor a \<noteq> minor b then (if minor a < minor b then -1 else 1)
      else if patch a \<noteq> patch b then (if patch a < patch b then -1 else 1)
      else compare_prerelease (prerelease a) (prerelease b))"

section \<open>Ranges\<close>

datatype cop = Eq | Gt | Ge | Lt | Le

datatype comparator = AnyVersion | Cmp cop version

text \<open>
  \<open>_parse_partial\<close>: the numeric parts that are present, at most three; reading stops at the
  first wildcard.
\<close>

fun partial_values :: "string list \<Rightarrow> nat list option" where
  "partial_values [] = Some []"
| "partial_values (part # parts) =
     (if part \<in> set [''x'', ''X'', ''*''] then Some []
      else if \<not> numeric_part part then None
      else map_option (\<lambda>vs. py_int part # vs) (partial_values parts))"

definition parse_partial :: "string \<Rightarrow> (nat list \<times> string list) res" where
  "parse_partial text =
     (if text = [] then Inl (RangeInvalid text)
      else
        let core = before_char (CHR ''-'') text; pre = after_char (CHR ''-'') text;
            parts = split_on (CHR ''.'') core in
        if 3 < length parts then Inl (RangeInvalid text)
        else case partial_values parts of
          None \<Rightarrow> Inl (RangeInvalid text)
        | Some vs \<Rightarrow>
            if CHR ''-'' \<in> set text then
              (if length vs < 3 \<or> pre = [] then Inl (RangeInvalid text)
               else case semver_parse (nat_text (vs ! 0) @ ''.'' @ nat_text (vs ! 1) @ ''.'' @
                                       nat_text (vs ! 2) @ ''-'' @ pre) of
                      None \<Rightarrow> Inl (RangeInvalid text)
                    | Some parsed \<Rightarrow> Inr (vs, prerelease parsed))
            else Inr (vs, []))"

definition lowest :: "nat \<Rightarrow> nat \<Rightarrow> nat \<Rightarrow> version" where
  "lowest M m p = Ver M m p [''0'']"

datatype range_op = OpNone | OpEq | OpGe | OpGt | OpLt | OpLe | OpCaret | OpTilde

text \<open>The operator is the first of \<open>>=, <=, >, <, =, ^, ~\<close> the primitive starts with.\<close>

definition split_op :: "string \<Rightarrow> range_op \<times> string" where
  "split_op s =
     (if prefix ''>='' s then (OpGe, drop 2 s)
      else if prefix ''<='' s then (OpLe, drop 2 s)
      else if prefix ''>'' s then (OpGt, drop 1 s)
      else if prefix ''<'' s then (OpLt, drop 1 s)
      else if prefix ''='' s then (OpEq, drop 1 s)
      else if prefix ''^'' s then (OpCaret, drop 1 s)
      else if prefix ''~'' s then (OpTilde, drop 1 s)
      else (OpNone, s))"

fun desugar_op :: "range_op \<Rightarrow> nat list \<Rightarrow> string list \<Rightarrow> comparator list" where
  "desugar_op OpGe [] pre = [AnyVersion]"
| "desugar_op OpGe [M] pre = [Cmp Ge (Ver M 0 0 pre)]"
| "desugar_op OpGe [M, m] pre = [Cmp Ge (Ver M m 0 pre)]"
| "desugar_op OpGe (M # m # p # _) pre = [Cmp Ge (Ver M m p pre)]"
| "desugar_op OpGt [] pre = [Cmp Lt (lowest 0 0 0)]"
| "desugar_op OpGt [M] pre = [Cmp Ge (Ver (M + 1) 0 0 [])]"
| "desugar_op OpGt [M, m] pre = [Cmp Ge (Ver M (m + 1) 0 [])]"
| "desugar_op OpGt (M # m # p # _) pre = [Cmp Gt (Ver M m p pre)]"
| "desugar_op OpLt [] pre = [Cmp Lt (lowest 0 0 0)]"
| "desugar_op OpLt [M] pre = [Cmp Lt (lowest M 0 0)]"
| "desugar_op OpLt [M, m] pre = [Cmp Lt (lowest M m 0)]"
| "desugar_op OpLt (M # m # p # _) pre = [Cmp Lt (Ver M m p pre)]"
| "desugar_op OpLe [] pre = [AnyVersion]"
| "desugar_op OpLe [M] pre = [Cmp Lt (lowest (M + 1) 0 0)]"
| "desugar_op OpLe [M, m] pre = [Cmp Lt (lowest M (m + 1) 0)]"
| "desugar_op OpLe (M # m # p # _) pre = [Cmp Le (Ver M m p pre)]"
| "desugar_op OpCaret [] pre = [AnyVersion]"
| "desugar_op OpCaret [M] pre = [Cmp Ge (Ver M 0 0 []), Cmp Lt (lowest (M + 1) 0 0)]"
| "desugar_op OpCaret [M, m] pre =
     (if M = 0 then [Cmp Ge (Ver 0 m 0 []), Cmp Lt (lowest 0 (m + 1) 0)]
      else [Cmp Ge (Ver M m 0 []), Cmp Lt (lowest (M + 1) 0 0)])"
| "desugar_op OpCaret (M # m # p # _) pre =
     (if M > 0 then [Cmp Ge (Ver M m p pre), Cmp Lt (lowest (M + 1) 0 0)]
      else if m > 0 then [Cmp Ge (Ver M m p pre), Cmp Lt (lowest 0 (m + 1) 0)]
      else [Cmp Ge (Ver M m p pre), Cmp Lt (lowest 0 0 (p + 1))])"
| "desugar_op OpTilde [] pre = [AnyVersion]"
| "desugar_op OpTilde [M] pre = [Cmp Ge (Ver M 0 0 []), Cmp Lt (lowest (M + 1) 0 0)]"
| "desugar_op OpTilde [M, m] pre = [Cmp Ge (Ver M m 0 []), Cmp Lt (lowest M (m + 1) 0)]"
| "desugar_op OpTilde (M # m # p # _) pre = [Cmp Ge (Ver M m p pre), Cmp Lt (lowest M (m + 1) 0)]"
| "desugar_op _ [] pre = [AnyVersion]"
| "desugar_op _ [M] pre = [Cmp Ge (Ver M 0 0 []), Cmp Lt (lowest (M + 1) 0 0)]"
| "desugar_op _ [M, m] pre = [Cmp Ge (Ver M m 0 []), Cmp Lt (lowest M (m + 1) 0)]"
| "desugar_op _ (M # m # p # _) pre = [Cmp Eq (Ver M m p pre)]"

definition desugar :: "string \<Rightarrow> comparator list res" where
  "desugar primitive =
     (case split_op primitive of (op, rest) \<Rightarrow>
        and_then (parse_partial rest) (\<lambda>(vs, pre). Inr (desugar_op op vs pre)))"

definition range_parse :: "string \<Rightarrow> comparator list list res" where
  "range_parse text0 =
     (let text = (if text0 = ''latest'' then ''*'' else text0) in
      map_res (\<lambda>set_text.
          if strip set_text = [] then Inl (RangeInvalid text)
          else and_then (map_res desugar (words (strip set_text))) (\<lambda>css. Inr (concat css)))
        (split_bars text))"

fun cop_text :: "cop \<Rightarrow> string" where
  "cop_text Eq = ''=''"
| "cop_text Gt = ''>''"
| "cop_text Ge = ''>=''"
| "cop_text Lt = ''<''"
| "cop_text Le = ''<=''"

fun comparator_text :: "comparator \<Rightarrow> string" where
  "comparator_text AnyVersion = ''*''"
| "comparator_text (Cmp op v) = cop_text op @ semver_text v"

fun comparator_matches :: "comparator \<Rightarrow> version \<Rightarrow> bool" where
  "comparator_matches AnyVersion v = True"
| "comparator_matches (Cmp Eq b) v = (semver_compare v b = 0)"
| "comparator_matches (Cmp Gt b) v = (semver_compare v b > 0)"
| "comparator_matches (Cmp Ge b) v = (semver_compare v b \<ge> 0)"
| "comparator_matches (Cmp Lt b) v = (semver_compare v b < 0)"
| "comparator_matches (Cmp Le b) v = (semver_compare v b \<le> 0)"

text \<open>A comparator that lets prereleases of the version's own triple in.\<close>

fun admits_prerelease :: "version \<Rightarrow> comparator \<Rightarrow> bool" where
  "admits_prerelease v AnyVersion = False"
| "admits_prerelease v (Cmp _ b) =
     (prerelease b \<noteq> [] \<and> major b = major v \<and> minor b = minor v \<and> patch b = patch v)"

fun range_satisfies :: "comparator list list \<Rightarrow> version \<Rightarrow> bool" where
  "range_satisfies [] v = False"
| "range_satisfies (cs # sets) v =
     (if \<not> list_all (\<lambda>c. comparator_matches c v) cs then range_satisfies sets v
      else if prerelease v = [] then True
      else if list_ex (admits_prerelease v) cs then True
      else range_satisfies sets v)"

section \<open>Precedence is a lexicographic order\<close>

text \<open>
  Numeric identifiers sort before alphanumeric ones, by value; a version without prerelease
  sorts after its prereleases.  The comparison is the three-way comparison of these keys, so
  every law of an order follows from the library's lexicographic orders.
\<close>

definition ident_key :: "string \<Rightarrow> nat \<times> nat \<times> string" where
  "ident_key s = (if str_isdigit s then (0, nat_of_digits s, []) else (1, 0, s))"

definition version_key :: "version \<Rightarrow> nat \<times> nat \<times> nat \<times> bool \<times> (nat \<times> nat \<times> string) list" where
  "version_key v = (major v, minor v, patch v, prerelease v = [], map ident_key (prerelease v))"

lemma ident_key_less:
  "ident_key l < ident_key r \<longleftrightarrow>
     (if str_isdigit l then (str_isdigit r \<longrightarrow> nat_of_digits l < nat_of_digits r)
      else \<not> str_isdigit r \<and> l < r)"
  by (auto simp: ident_key_def less_prod_def)

lemma ident_key_eq:
  "ident_key l = ident_key r \<longleftrightarrow>
     (if str_isdigit l then str_isdigit r \<and> nat_of_digits l = nat_of_digits r
      else \<not> str_isdigit r \<and> l = r)"
  by (auto simp: ident_key_def)

lemma compare_ids_key: "compare_ids a b = three_way_of (map ident_key a) (map ident_key b)"
proof (induction a b rule: compare_ids.induct)
  case (4 l ls r rs)
  then show ?case
    by (auto simp: three_way_of_def Let_def ident_key_less ident_key_eq split: if_splits)
qed (auto simp: three_way_of_def)

lemma semver_compare_key: "semver_compare a b = three_way_of (version_key a) (version_key b)"
  by (cases "prerelease a = []"; cases "prerelease b = []")
    (auto simp: semver_compare_def compare_prerelease_def compare_ids_key version_key_def
      three_way_of_def less_prod_def)

lemma valid_ident_canonical: "valid_ident s \<Longrightarrow> str_isdigit s \<Longrightarrow> canonical_decimal s"
  by (cases s) (auto simp: valid_ident_def str_isdigit_def canonical_decimal_def)

lemma ident_key_inj: "valid_ident s \<Longrightarrow> valid_ident t \<Longrightarrow> ident_key s = ident_key t \<Longrightarrow> s = t"
  by (metis ident_key_eq nat_text_nat_of_digits valid_ident_canonical)

lemma version_key_inj:
  assumes v: "valid_version v" and w: "valid_version w" and eq: "version_key v = version_key w"
  shows "v = w"
proof -
  have "inj_on ident_key (set (prerelease v) \<union> set (prerelease w))"
  proof (rule inj_onI)
    fix s t
    assume "s \<in> set (prerelease v) \<union> set (prerelease w)" "t \<in> set (prerelease v) \<union> set (prerelease w)"
    with v w have "valid_ident s" "valid_ident t" by (auto simp: valid_version_def list_all_iff)
    then show "ident_key s = ident_key t \<Longrightarrow> s = t" by (rule ident_key_inj)
  qed
  moreover have "map ident_key (prerelease v) = map ident_key (prerelease w)"
    using eq by (simp add: version_key_def)
  ultimately have "prerelease v = prerelease w" by (blast dest: map_inj_on)
  with eq show ?thesis by (intro version.expand) (simp add: version_key_def)
qed

interpretation semver: total_three_way semver_compare valid_version
proof unfold_locales
  show "semver_compare y x = - semver_compare x y" for x y
    unfolding semver_compare_key by (rule three_way_of_flip)
  show "semver_compare x y \<le> 0 \<Longrightarrow> semver_compare y z \<le> 0 \<Longrightarrow> semver_compare x z \<le> 0" for x y z
    by (simp add: semver_compare_key three_way_of_simps)
  show "valid_version x \<Longrightarrow> valid_version y \<Longrightarrow> semver_compare x y = 0 \<Longrightarrow> x = y" for x y
    by (simp add: semver_compare_key three_way_of_simps version_key_inj)
qed

text \<open>The valid versions are a linear order of the library's.\<close>

typedef semver = "{v. valid_version v}"
  by (rule exI [of _ "Ver 0 0 0 []"]) (simp add: valid_version_def)

instantiation semver :: linorder
begin

definition less_eq_semver :: "semver \<Rightarrow> semver \<Rightarrow> bool" where
  "less_eq_semver a b = (semver_compare (Rep_semver a) (Rep_semver b) \<le> 0)"

definition less_semver :: "semver \<Rightarrow> semver \<Rightarrow> bool" where
  "less_semver a b = (semver_compare (Rep_semver a) (Rep_semver b) < 0)"

instance
proof
  fix a b c :: semver
  have v: "valid_version (Rep_semver x)" for x using Rep_semver [of x] by simp
  show "a < b \<longleftrightarrow> a \<le> b \<and> \<not> b \<le> a"
    unfolding less_eq_semver_def less_semver_def
    using semver.flip [of "Rep_semver b" "Rep_semver a"] by linarith
  show "a \<le> a" by (simp add: less_eq_semver_def semver.self)
  show "a \<le> b \<Longrightarrow> b \<le> c \<Longrightarrow> a \<le> c"
    unfolding less_eq_semver_def by (rule semver.le_trans)
  show "a \<le> b \<Longrightarrow> b \<le> a \<Longrightarrow> a = b"
    unfolding less_eq_semver_def using v semver.antisym Rep_semver_inject by blast
  show "a \<le> b \<or> b \<le> a" unfolding less_eq_semver_def by (rule semver.total)
qed

end

section \<open>Printing and parsing are inverse\<close>

lemma digits_no_space: "list_all is_digit s \<Longrightarrow> strip s = s"
proof -
  assume *: "list_all is_digit s"
  have "\<not> is_space c" if "is_digit c" for c using that by (auto simp: is_space_def is_digit_def)
  with * have "list_all (\<lambda>c. \<not> is_space c) s" by (auto simp: list_all_iff)
  then have d: "dropWhile is_space s = s" "dropWhile is_space (rev s) = rev s"
    by (auto simp: dropWhile_eq_self_iff list_all_iff) (metis last_in_set rev.simps(1) hd_rev)
  then show ?thesis by (simp add: strip_def)
qed

lemma py_int_nat_text [simp]: "py_int (nat_text n) = n"
  by (simp add: py_int_def digits_no_space nat_text_digits)

lemma numeric_part_nat_text [simp]: "numeric_part (nat_text n)"
  by (simp add: numeric_part_def canonical_nat_text)

lemma nat_text_no_dot [simp]: "CHR ''.'' \<notin> set (nat_text n)"
  by (rule char_notin_nat_text) (simp add: is_digit_def ord_of_def)

lemma nat_text_no_dash [simp]: "CHR ''-'' \<notin> set (nat_text n)"
  by (rule char_notin_nat_text) (simp add: is_digit_def ord_of_def)

lemma valid_ident_ok: "valid_ident s \<Longrightarrow> ident_ok s"
  by (auto simp: valid_ident_def ident_ok_def prerelease_part_def)

lemma valid_ident_no_dot: "valid_ident s \<Longrightarrow> CHR ''.'' \<notin> set s"
  by (auto simp: valid_ident_def list_all_iff ident_char_def is_alnum_def is_digit_def
      is_lower_def is_upper_def ord_of_def)

lemma triple_split:
  "split_on (CHR ''.'') (nat_text a @ ''.'' @ nat_text b @ ''.'' @ nat_text c) =
     [nat_text a, nat_text b, nat_text c]"
  by (simp add: split_on_append split_on_id)

lemma semver_parse_triple: "semver_parse (nat_text a @ ''.'' @ nat_text b @ ''.'' @ nat_text c) = Some (Ver a b c [])"
proof -
  have no: "CHR ''-'' \<notin> set (nat_text a @ ''.'' @ nat_text b @ ''.'' @ nat_text c)" by simp
  then show ?thesis
    unfolding semver_parse_def Let_def before_char_id [OF no] triple_split list.case
    by (simp del: append.simps)
qed

lemma semver_parse_pre:
  "semver_parse (nat_text a @ ''.'' @ nat_text b @ ''.'' @ nat_text c @ ''-'' @ pre) =
     (if pre \<noteq> [] \<and> list_all ident_ok (split_on (CHR ''.'') pre)
      then Some (Ver a b c (split_on (CHR ''.'') pre)) else None)"
proof -
  let ?t = "nat_text a @ ''.'' @ nat_text b @ ''.'' @ nat_text c"
  have no: "CHR ''-'' \<notin> set ?t" by simp
  have eq: "nat_text a @ ''.'' @ nat_text b @ ''.'' @ nat_text c @ ''-'' @ pre = ?t @ CHR ''-'' # pre"
    by simp
  have h: "CHR ''-'' \<in> set (?t @ CHR ''-'' # pre)" by simp
  show ?thesis
    unfolding eq semver_parse_def Let_def before_char_append [OF no] after_char_append [OF no]
      triple_split list.case using h by simp
qed

lemma join_ident_nonempty: "ids \<noteq> [] \<Longrightarrow> list_all valid_ident ids \<Longrightarrow> join_with ''.'' ids \<noteq> []"
  by (induction ids rule: induct_list012) (auto simp: valid_ident_def)

lemma semver_parse_text: "valid_version v \<Longrightarrow> semver_parse (semver_text v) = Some v"
proof (cases "prerelease v = []")
  case True
  then show ?thesis using semver_parse_triple by (cases v) (simp add: semver_text_def)
next
  case False
  assume v: "valid_version v"
  with False have "split_on (CHR ''.'') (join_with ''.'' (prerelease v)) = prerelease v"
    by (intro split_join) (auto simp: valid_version_def list_all_iff valid_ident_no_dot)
  moreover have "list_all ident_ok (prerelease v)"
    using v by (auto simp: valid_version_def list_all_iff valid_ident_ok)
  moreover have "join_with ''.'' (prerelease v) \<noteq> []"
    using False v join_ident_nonempty by (simp add: valid_version_def)
  ultimately show ?thesis using False
    by (simp only: semver_text_def semver_parse_pre if_True simp_thms) (cases v, simp)
qed

text \<open>Without a line feed in the text the parser accepts exactly the printed forms.\<close>

lemma numeric_part_clean: "numeric_part s \<Longrightarrow> newline \<notin> set s \<Longrightarrow> canonical_decimal s"
  using last_in_set by (fastforce simp: numeric_part_def)

lemma py_int_canonical: "canonical_decimal s \<Longrightarrow> nat_text (py_int s) = s"
  by (simp add: py_int_def digits_no_space nat_text_nat_of_digits canonical_decimal_def)

lemma ident_ok_clean: "ident_ok s \<Longrightarrow> newline \<notin> set s \<Longrightarrow> valid_ident s"
  using last_in_set [of s] by (cases "last s = newline")
    (auto simp: ident_ok_def prerelease_part_def valid_ident_def)

lemma split_on_subset: "w \<in> set (split_on c s) \<Longrightarrow> set w \<subseteq> set s"
  by (induction s arbitrary: w) (fastforce split: list.splits if_splits)+

lemma before_after_subset: "set (before_char c s) \<subseteq> set s" "set (after_char c s) \<subseteq> set s"
  unfolding before_char_def after_char_def
  by (auto dest: set_takeWhileD in_set_dropD set_dropWhileD)

lemma semver_parse_sound:
  assumes p: "semver_parse s = Some v" and nl: "newline \<notin> set s"
  shows "valid_version v \<and> semver_text v = s"
proof -
  let ?core = "before_char (CHR ''-'') s" and ?pre = "after_char (CHR ''-'') s"
  from p obtain a b c where parts: "split_on (CHR ''.'') ?core = [a, b, c]"
    and num: "numeric_part a" "numeric_part b" "numeric_part c"
    by (auto simp: semver_parse_def Let_def split: list.splits if_splits)
  have "set a \<subseteq> set s" "set b \<subseteq> set s" "set c \<subseteq> set s"
    using split_on_subset [of _ "CHR ''.''" ?core] before_after_subset(1) [of "CHR ''-''" s] parts
    by (metis list.set_intros subset_trans)+
  with nl num have can: "canonical_decimal a" "canonical_decimal b" "canonical_decimal c"
    by (auto intro: numeric_part_clean)
  have core: "?core = a @ ''.'' @ b @ ''.'' @ c"
    using join_split [of "CHR ''.''" ?core] parts by simp
  show ?thesis
  proof (cases "CHR ''-'' \<in> set s")
    case False
    with p parts num have "v = Ver (py_int a) (py_int b) (py_int c) []"
      by (auto simp: semver_parse_def)
    with False can core show ?thesis
      by (simp add: valid_version_def semver_text_def py_int_canonical before_char_id)
  next
    case True
    let ?ids = "split_on (CHR ''.'') ?pre"
    from True p parts num have pre: "?pre \<noteq> []" "list_all ident_ok ?ids"
      and v: "v = Ver (py_int a) (py_int b) (py_int c) ?ids"
      by (auto simp: semver_parse_def Let_def split: if_splits)
    have "newline \<notin> set w" if "w \<in> set ?ids" for w
      using split_on_subset [OF that] before_after_subset(2) [of "CHR ''-''" s] nl by blast
    with pre have "list_all valid_ident ?ids" by (auto simp: list_all_iff intro: ident_ok_clean)
    then show ?thesis using v can core partition_join [OF True]
      by (simp add: valid_version_def semver_text_def py_int_canonical join_split)
  qed
qed

section \<open>What the comparators admit\<close>

lemma triple_less_iff:
  "((a, b, c) :: nat \<times> nat \<times> nat) < (a', b', c') \<longleftrightarrow> a < a' \<or> a = a' \<and> (b < b' \<or> b = b' \<and> c < c')"
  by (auto simp: less_prod_def)

text \<open>\<open>M.m.p-0\<close> lies below every version of the triple, its prereleases included.\<close>

lemma below_lowest_iff:
  assumes "valid_version v"
  shows "semver_compare v (lowest M m p) < 0 \<longleftrightarrow> (major v, minor v, patch v) < (M, m, p)"
proof -
  have "\<not> compare_prerelease (prerelease v) [''0''] < 0"
  proof (cases "prerelease v")
    case (Cons i js)
    have z: "nat_of_digits ''0'' = 0" "str_isdigit ''0''"
      by (simp_all add: nat_of_digits_def str_isdigit_def is_digit_def ord_of_def)
    have "compare_ids js [] \<ge> 0" by (cases js) auto
    then show ?thesis using Cons z by (auto simp: compare_prerelease_def Let_def)
  qed (simp add: compare_prerelease_def)
  then show ?thesis by (auto simp: semver_compare_def lowest_def triple_less_iff)
qed

text \<open>A release version compares with a release bound as its triple does.\<close>

lemma release_compare_iff:
  assumes "prerelease v = []"
  shows "semver_compare v (Ver M m p []) \<ge> 0 \<longleftrightarrow> \<not> (major v, minor v, patch v) < (M, m, p)"
    and "semver_compare v (Ver M m p []) = 0 \<longleftrightarrow> v = Ver M m p []"
  using assms by (cases v; auto simp: semver_compare_def compare_prerelease_def triple_less_iff)+

lemma valid_release: "prerelease v = [] \<Longrightarrow> valid_version v"
  by (simp add: valid_version_def)

lemma range_satisfies_single_release:
  "prerelease v = [] \<Longrightarrow> range_satisfies [cs] v = list_all (\<lambda>c. comparator_matches c v) cs"
  by simp

lemma range_satisfies_iff:
  "range_satisfies sets v \<longleftrightarrow>
     (\<exists>cs \<in> set sets. (\<forall>c \<in> set cs. comparator_matches c v) \<and>
        (prerelease v = [] \<or> (\<exists>c \<in> set cs. admits_prerelease v c)))"
  by (induction sets) (auto simp: list_all_iff list_ex_iff)

section \<open>Ranges are read back from their normal form\<close>

fun valid_comparator :: "comparator \<Rightarrow> bool" where
  "valid_comparator AnyVersion = True"
| "valid_comparator (Cmp _ v) = valid_version v"

text \<open>The \<open>comparator_sets\<close> rendering of a parsed range, as one text.\<close>

definition range_text :: "comparator list list \<Rightarrow> string" where
  "range_text sets = join_with ''||'' (map (\<lambda>cs. join_with '' '' (map comparator_text cs)) sets)"

lemma hd_nat_text_digit: "is_digit (hd (nat_text n))"
  using nat_text_digits [of n] by (cases "nat_text n") (auto dest: arg_cong)

lemma hd_semver_text: "semver_text v \<noteq> [] \<and> is_digit (hd (semver_text v))"
  by (simp add: semver_text_def hd_append hd_nat_text_digit)

lemma split_op_text: "split_op (cop_text op @ semver_text v) =
    (case op of Eq \<Rightarrow> OpEq | Gt \<Rightarrow> OpGt | Ge \<Rightarrow> OpGe | Lt \<Rightarrow> OpLt | Le \<Rightarrow> OpLe, semver_text v)"
proof -
  obtain c s where t: "semver_text v = c # s" and c: "is_digit c"
    using hd_semver_text [of v] by (cases "semver_text v") auto
  have "c \<noteq> CHR ''=''" using c by (auto simp: is_digit_def ord_of_def)
  then show ?thesis by (cases op) (simp_all add: split_op_def t)
qed

lemma nat_text_not_wildcard: "nat_text n \<notin> set [''x'', ''X'', ''*'']"
  using hd_nat_text_digit [of n] by (auto simp: is_digit_def ord_of_def)

lemma parse_partial_text:
  assumes "valid_version v"
  shows "parse_partial (semver_text v) = Inr ([major v, minor v, patch v], prerelease v)"
proof -
  let ?t = "nat_text (major v) @ ''.'' @ nat_text (minor v) @ ''.'' @ nat_text (patch v)"
  have no: "CHR ''-'' \<notin> set ?t" by simp
  have vals: "partial_values [nat_text (major v), nat_text (minor v), nat_text (patch v)] =
      Some [major v, minor v, patch v]"
    using nat_text_not_wildcard by simp
  show ?thesis
  proof (cases "prerelease v = []")
    case True
    have "semver_text v = ?t" using True by (simp add: semver_text_def)
    then show ?thesis
      using True no unfolding parse_partial_def Let_def
      by (simp only: before_char_id [OF no] triple_split vals) simp
  next
    case False
    let ?pre = "join_with ''.'' (prerelease v)"
    have pre: "?pre \<noteq> []" using False assms join_ident_nonempty by (simp add: valid_version_def)
    have t: "semver_text v = ?t @ CHR ''-'' # ?pre" using False by (simp add: semver_text_def)
    have again: "semver_parse (nat_text (major v) @ ''.'' @ nat_text (minor v) @ ''.'' @
        nat_text (patch v) @ ''-'' @ ?pre) = Some v"
      using semver_parse_text [OF assms] False by (simp add: semver_text_def)
    have h: "CHR ''-'' \<in> set (?t @ CHR ''-'' # ?pre)" by simp
    show ?thesis
      unfolding parse_partial_def Let_def t before_char_append [OF no] after_char_append [OF no]
        triple_split vals
      using again pre h by simp
  qed
qed

lemma desugar_text: "valid_comparator c \<Longrightarrow> desugar (comparator_text c) = Inr [c]"
proof (cases c)
  case AnyVersion
  then show ?thesis
    by (simp add: desugar_def split_op_def parse_partial_def before_char_def)
next
  case (Cmp op v)
  assume "valid_comparator c"
  with Cmp show ?thesis
    unfolding desugar_def Cmp comparator_text.simps split_op_text
    by (cases op; cases v) (simp_all add: parse_partial_text)
qed

definition comparator_char :: "char \<Rightarrow> bool" where
  "comparator_char c = (ident_char c \<or> c \<in> set ''.<>=*'')"

lemma comparator_char_plain: "comparator_char c \<Longrightarrow> \<not> is_space c \<and> c \<noteq> CHR ''|''"
  by (auto simp: comparator_char_def ident_char_def is_alnum_def is_digit_def is_lower_def
      is_upper_def is_space_def ord_of_def)

lemma digit_comparator_char: "is_digit c \<Longrightarrow> comparator_char c"
  by (simp add: comparator_char_def ident_char_def is_alnum_def)

lemma set_join_with: "set (join_with sep ws) \<subseteq> set sep \<union> (\<Union>w \<in> set ws. set w)"
  by (induction ws rule: induct_list012) auto

lemma nat_text_comparator_char: "c \<in> set (nat_text n) \<Longrightarrow> comparator_char c"
  using nat_text_digits [of n] by (auto simp: list_all_iff digit_comparator_char)

lemma semver_text_chars:
  assumes "valid_version v" "c \<in> set (semver_text v)"
  shows "comparator_char c"
proof -
  have pre: "comparator_char c" if "c \<in> set (join_with ''.'' (prerelease v))"
    using that set_join_with [of "''.''" "prerelease v"] assms(1)
    by (auto simp: valid_version_def valid_ident_def list_all_iff comparator_char_def)
  have fixed: "comparator_char (CHR ''.'')" "comparator_char (CHR ''-'')"
    by (simp_all add: comparator_char_def ident_char_def)
  show ?thesis using assms(2) pre fixed
    by (auto simp: semver_text_def nat_text_comparator_char split: if_splits)
qed

lemma comparator_text_chars:
  assumes "valid_comparator cmp"
  shows "comparator_text cmp \<noteq> [] \<and> list_all comparator_char (comparator_text cmp)"
proof (cases cmp)
  case AnyVersion
  then show ?thesis by (simp add: comparator_char_def)
next
  case (Cmp op v)
  have "list_all comparator_char (cop_text op)" by (cases op) (auto simp: comparator_char_def)
  moreover have "list_all comparator_char (semver_text v)"
    using assms Cmp by (auto simp: list_all_iff semver_text_chars)
  ultimately show ?thesis using Cmp hd_semver_text by auto
qed

lemma set_text_plain:
  assumes "cs \<noteq> []" "list_all valid_comparator cs"
  shows "strip (join_with '' '' (map comparator_text cs)) = join_with '' '' (map comparator_text cs)"
    and "join_with '' '' (map comparator_text cs) \<noteq> []"
    and "words (join_with '' '' (map comparator_text cs)) = map comparator_text cs"
    and "CHR ''|'' \<notin> set (join_with '' '' (map comparator_text cs))"
proof -
  have each: "w \<noteq> [] \<and> list_all (\<lambda>c. \<not> is_space c \<and> c \<noteq> CHR ''|'') w"
    if w: "w \<in> set (map comparator_text cs)" for w
    using w assms(2) comparator_text_chars comparator_char_plain
    by (fastforce simp: list_all_iff)
  let ?j = "join_with '' '' (map comparator_text cs)"
  have ends: "hd (map comparator_text cs) \<noteq> []" "last (map comparator_text cs) \<noteq> []"
    using assms(1) each [OF hd_in_set] each [OF last_in_set] by simp_all
  have chars: "\<not> is_space c" if "w \<in> set (map comparator_text cs)" "c \<in> set w" for w c
    using each [OF that(1)] that(2) by (simp add: list_all_iff)
  have "\<not> is_space (hd ?j)"
    using join_with_hd [of "map comparator_text cs" "'' ''"] ends assms(1)
      chars [OF hd_in_set hd_in_set] by simp
  moreover have "\<not> is_space (last ?j)"
    using join_with_last [of "map comparator_text cs" "'' ''"] ends assms(1)
      chars [OF last_in_set last_in_set] by simp
  ultimately show "strip ?j = ?j" by (simp add: strip_id)
  show "?j \<noteq> []" using join_with_nonempty ends assms(1) by simp
  show "words ?j = map comparator_text cs"
    using each by (intro words_join) (auto simp: list_all_iff)
  show "CHR ''|'' \<notin> set ?j"
  proof -
    have "CHR ''|'' \<notin> set w" if "w \<in> set (map comparator_text cs)" for w
      using each [OF that] by (auto simp: list_all_iff)
    then show ?thesis using set_join_with [of "'' ''" "map comparator_text cs"] by auto
  qed
qed

lemma map_res_desugar_text:
  "list_all valid_comparator cs \<Longrightarrow> map_res desugar (map comparator_text cs) = Inr (map (\<lambda>c. [c]) cs)"
  by (induction cs) (auto simp: desugar_text)

lemma map_res_cong_Inr: "(\<And>x. x \<in> set xs \<Longrightarrow> f (g x) = Inr (h x)) \<Longrightarrow> map_res f (map g xs) = Inr (map h xs)"
  by (induction xs) auto

lemma contains_space_or_op:
  "sets \<noteq> [] \<Longrightarrow> list_all (\<lambda>cs. cs \<noteq> [] \<and> list_all valid_comparator cs) sets \<Longrightarrow> hd (range_text sets) \<noteq> CHR ''l''"
proof -
  assume *: "sets \<noteq> []" "list_all (\<lambda>cs. cs \<noteq> [] \<and> list_all valid_comparator cs) sets"
  then obtain c cs rest where s: "sets = (c # cs) # rest" and c: "valid_comparator c"
    by (cases sets; cases "hd sets") auto
  have ne: "comparator_text c \<noteq> []" using comparator_text_chars [OF c] by simp
  have j: "hd (join_with '' '' (map comparator_text (c # cs))) = hd (comparator_text c)"
    using ne by (intro trans [OF join_with_hd]) simp_all
  have jne: "join_with '' '' (map comparator_text (c # cs)) \<noteq> []"
    using set_text_plain(2) [of "c # cs"] * s by simp
  have "hd (range_text sets) = hd (join_with '' '' (map comparator_text (c # cs)))"
    unfolding range_text_def using jne s by (intro trans [OF join_with_hd]) simp_all
  moreover have "hd (comparator_text c) \<noteq> CHR ''l''"
  proof (cases c)
    case (Cmp op v)
    have "hd (semver_text v) \<noteq> CHR ''l''"
      using hd_semver_text [of v] by (auto simp: is_digit_def ord_of_def)
    with Cmp show ?thesis by (cases op) simp_all
  qed simp
  ultimately show ?thesis using j by simp
qed

lemma nat_text_no_space: "list_all (\<lambda>c. \<not> is_space c) (nat_text n)"
  using nat_text_digits [of n] by (auto simp: list_all_iff is_digit_def is_space_def)

lemma strip_line_feed: "s \<noteq> [] \<Longrightarrow> list_all (\<lambda>c. \<not> is_space c) s \<Longrightarrow> strip (s @ [newline]) = s"
proof -
  assume s: "s \<noteq> []" "list_all (\<lambda>c. \<not> is_space c) s"
  have "dropWhile is_space (s @ [newline]) = s @ [newline]"
    using s by (simp add: dropWhile_eq_self_iff hd_append list_all_iff)
  moreover have "dropWhile is_space (rev s) = rev s"
    using s by (simp add: dropWhile_eq_self_iff hd_rev list_all_iff)
  moreover have "is_space newline" by (simp add: is_space_def newline_def ord_of_def)
  ultimately show "strip (s @ [newline]) = s" by (simp add: strip_def)
qed

interpretation version_codec: text_codec semver_text semver_parse valid_version
  by unfold_locales (rule semver_parse_text)

text \<open>A range of one primitive.\<close>

lemma range_parse_primitive:
  assumes "prim \<noteq> []" "prim \<noteq> ''latest''" "list_all (\<lambda>c. \<not> is_space c \<and> c \<noteq> CHR ''|'') prim"
  shows "range_parse prim = and_then (desugar prim) (\<lambda>cs. Inr [cs])"
proof -
  have sp: "\<not> is_space c" if "c \<in> set prim" for c using assms(3) that by (auto simp: list_all_iff)
  have "CHR ''|'' \<notin> set prim" using assms(3) by (auto simp: list_all_iff)
  moreover have "words prim = [prim]"
    using words_join [of "[prim]"] assms by (simp add: list_all_iff)
  moreover have "strip prim = prim" using sp assms(1) by (simp add: strip_id)
  ultimately show ?thesis using assms(1,2)
    by (cases "desugar prim") (simp_all add: range_parse_def split_bars_id)
qed

lemma version_text_plain:
  "valid_version b \<Longrightarrow> list_all (\<lambda>c. \<not> is_space c \<and> c \<noteq> CHR ''|'') (semver_text b)"
  using semver_text_chars comparator_char_plain by (fastforce simp: list_all_iff)

lemma range_parse_caret_tilde:
  assumes "valid_version b"
  shows "range_parse (CHR ''^'' # semver_text b) =
      Inr [desugar_op OpCaret [major b, minor b, patch b] (prerelease b)]"
    and "range_parse (CHR ''~'' # semver_text b) =
      Inr [desugar_op OpTilde [major b, minor b, patch b] (prerelease b)]"
proof -
  have "\<not> is_space (CHR ''^'')" "\<not> is_space (CHR ''~'')" by (simp_all add: is_space_def ord_of_def)
  with version_text_plain [OF assms]
  have "list_all (\<lambda>c. \<not> is_space c \<and> c \<noteq> CHR ''|'') (CHR ''^'' # semver_text b)"
    "list_all (\<lambda>c. \<not> is_space c \<and> c \<noteq> CHR ''|'') (CHR ''~'' # semver_text b)" by simp_all
  then show "range_parse (CHR ''^'' # semver_text b) =
      Inr [desugar_op OpCaret [major b, minor b, patch b] (prerelease b)]"
    "range_parse (CHR ''~'' # semver_text b) =
      Inr [desugar_op OpTilde [major b, minor b, patch b] (prerelease b)]"
    by (simp_all add: range_parse_primitive desugar_def split_op_def parse_partial_text assms)
qed

text \<open>
  Range normal forms are stable.  The text of a list of non-empty comparator sets, printed
  the way \<open>comparator_sets\<close> of the vectors prints them, parses back to the same sets.
\<close>

theorem range_roundtrip:
  assumes "sets \<noteq> []" and "list_all (\<lambda>cs. cs \<noteq> [] \<and> list_all valid_comparator cs) sets"
  shows "range_parse (range_text sets) = Inr sets"
proof -
  let ?line = "\<lambda>cs. join_with '' '' (map comparator_text cs)"
  have "range_text sets \<noteq> ''latest''" using contains_space_or_op [OF assms] by auto
  moreover have "split_bars (range_text sets) = map ?line sets"
    unfolding range_text_def using assms set_text_plain(4)
    by (intro split_bars_join) (auto simp: list_all_iff)
  moreover have "map_res (\<lambda>set_text. if strip set_text = [] then Inl (RangeInvalid e)
        else and_then (map_res desugar (words (strip set_text))) (\<lambda>css. Inr (concat css)))
      (map ?line sets) = Inr (map (\<lambda>cs. cs) sets)" for e
    using assms(2) by (intro map_res_cong_Inr)
      (auto simp: list_all_iff set_text_plain map_res_desugar_text)
  ultimately show ?thesis by (simp add: range_parse_def)
qed

theorem range_roundtrip_witness:
  "range_parse (range_text [[Cmp Ge (Ver 1 2 0 []), Cmp Lt (Ver 2 0 0 [''0''])], [AnyVersion]]) =
     Inr [[Cmp Ge (Ver 1 2 0 []), Cmp Lt (Ver 2 0 0 [''0''])], [AnyVersion]]"
  by (rule range_roundtrip)
    (simp_all add: valid_version_def valid_ident_def ident_char_def is_alnum_def is_digit_def ord_of_def)

lemma bounded_range_satisfies:
  assumes "valid_version v"
  shows "range_satisfies [[Cmp Ge b, Cmp Lt (lowest M m p)]] v \<longleftrightarrow>
    0 \<le> semver_compare v b \<and> (major v, minor v, patch v) < (M, m, p) \<and>
    (prerelease v = [] \<or> prerelease b \<noteq> [] \<and>
       (major v, minor v, patch v) = (major b, minor b, patch b))"
proof -
  have "\<not> admits_prerelease v (Cmp Lt (lowest M m p))"
    if "(major v, minor v, patch v) < (M, m, p)"
    using that by (auto simp: lowest_def)
  then show ?thesis using below_lowest_iff [OF assms, of M m p] by auto
qed

lemma desugar_op_bounded:
  "desugar_op OpTilde [major b, minor b, patch b] (prerelease b) =
     [Cmp Ge b, Cmp Lt (lowest (major b) (minor b + 1) 0)]"
  "desugar_op OpCaret [major b, minor b, patch b] (prerelease b) =
     (if 0 < major b then [Cmp Ge b, Cmp Lt (lowest (major b + 1) 0 0)]
      else if 0 < minor b then [Cmp Ge b, Cmp Lt (lowest 0 (minor b + 1) 0)]
      else [Cmp Ge b, Cmp Lt (lowest 0 0 (patch b + 1))])"
  by (cases b; simp)+

text \<open>
  C2: a caret range admits exactly the compatible versions: from the bound up to, and excluding,
  the next version that changes the leftmost non-zero part, prereleases of that next version
  excluded as well; a prerelease is admitted only when the bound is itself a prerelease of the
  same triple.
\<close>

theorem caret_range_exact:
  assumes "valid_version b"
  shows "\<exists>sets. range_parse (CHR ''^'' # semver_text b) = Inr sets \<and>
    (\<forall>v. valid_version v \<longrightarrow>
      range_satisfies sets v =
        (0 \<le> semver_compare v b \<and>
         (major v, minor v, patch v) <
           (if 0 < major b then (major b + 1, 0, 0) else if 0 < minor b then (0, minor b + 1, 0)
            else (0, 0, patch b + 1)) \<and>
         (prerelease v = [] \<or> prerelease b \<noteq> [] \<and>
            (major v, minor v, patch v) = (major b, minor b, patch b))))"
  by (intro exI conjI, rule range_parse_caret_tilde(1) [OF assms], intro allI impI)
    (simp add: desugar_op_bounded bounded_range_satisfies del: range_satisfies.simps desugar_op.simps)

theorem caret_range_exact_witness:
  "\<exists>sets. range_parse (CHR ''^'' # semver_text (Ver 0 3 1 [])) = Inr sets \<and>
     range_satisfies sets (Ver 0 3 9 []) \<and> \<not> range_satisfies sets (Ver 0 4 0 [''0''])"
proof -
  have w: "valid_version (Ver 0 3 1 [])" "valid_version (Ver 0 3 9 [])" "valid_version (Ver 0 4 0 [''0''])"
    by (simp_all add: valid_version_def valid_ident_def ident_char_def is_alnum_def is_digit_def ord_of_def)
  show ?thesis
    using caret_range_exact [OF w(1)] w(2,3)
    by (auto simp: semver_compare_def compare_prerelease_def triple_less_iff)
qed

text \<open>
  A tilde range admits exactly the versions from the bound up to, and excluding, the next
  minor version and its prereleases; a prerelease is admitted only when the bound is itself a
  prerelease of the same triple.
\<close>

theorem tilde_range_exact:
  assumes "valid_version b"
  shows "\<exists>sets. range_parse (CHR ''~'' # semver_text b) = Inr sets \<and>
    (\<forall>v. valid_version v \<longrightarrow>
      range_satisfies sets v =
        (0 \<le> semver_compare v b \<and>
         (major v, minor v, patch v) < (major b, minor b + 1, 0) \<and>
         (prerelease v = [] \<or> prerelease b \<noteq> [] \<and>
            (major v, minor v, patch v) = (major b, minor b, patch b))))"
  by (intro exI conjI, rule range_parse_caret_tilde(2) [OF assms], intro allI impI)
    (simp add: desugar_op_bounded bounded_range_satisfies del: range_satisfies.simps desugar_op.simps)

theorem tilde_range_exact_witness:
  "\<exists>sets. range_parse (CHR ''~'' # semver_text (Ver 1 2 3 [])) = Inr sets \<and>
     range_satisfies sets (Ver 1 2 9 []) \<and> \<not> range_satisfies sets (Ver 1 3 0 [])"
proof -
  have w: "valid_version (Ver 1 2 3 [])" "valid_version (Ver 1 2 9 [])" "valid_version (Ver 1 3 0 [])"
    by (simp_all add: valid_version_def)
  show ?thesis
    using tilde_range_exact [OF w(1)] w(2,3)
    by (auto simp: semver_compare_def compare_prerelease_def triple_less_iff)
qed

text \<open>
  C1: the version grammar is exact on single-line texts.  A text without a line feed parses to a
  version precisely when the version is well formed and the text is its printed form: parsing and
  printing are inverse, and no other spelling (leading zeros, missing parts, build metadata) is
  accepted.
\<close>

theorem semver_parse_exact:
  assumes "newline \<notin> set s"
  shows "semver_parse s = Some v \<longleftrightarrow> valid_version v \<and> semver_text v = s"
  using assms semver_parse_sound semver_parse_text by blast

theorem semver_parse_exact_witness:
  "newline \<notin> set ''1.20.3-rc.1'' \<and> semver_parse ''1.20.3-rc.1'' = Some (Ver 1 20 3 [''rc'', ''1''])"
proof -
  have n: "newline \<notin> set ''1.20.3-rc.1''" by (simp add: newline_def)
  have "semver_text (Ver 1 20 3 [''rc'', ''1'']) = ''1.20.3-rc.1''"
    by (simp add: semver_text_def nat_text.simps digit_chars)
  moreover have "valid_version (Ver 1 20 3 [''rc'', ''1''])"
    by (simp add: valid_version_def valid_ident_def ident_char_def is_alnum_def is_digit_def
        is_lower_def ord_of_def)
  ultimately show ?thesis
    using n semver_parse_exact [OF n, of "Ver 1 20 3 [''rc'', ''1'']"] by blast
qed

text \<open>
  The parser is not strict at the end of the text.  Every release version followed by a line
  feed is accepted as that version: \<open>$\<close> matches before a final line feed and \<open>int\<close>
  strips it, so a text that is not a version's spelling is read as one.
\<close>

theorem semver_parse_line_feed:
  "semver_parse (semver_text (Ver M m p []) @ [newline]) = Some (Ver M m p [])"
proof -
  let ?c = "nat_text p @ [newline]"
  have dash: "CHR ''-'' \<notin> set (nat_text M @ ''.'' @ nat_text m @ ''.'' @ ?c)"
    by (simp add: newline_def)
  have split: "split_on (CHR ''.'') (nat_text M @ ''.'' @ nat_text m @ ''.'' @ ?c) =
      [nat_text M, nat_text m, ?c]"
    by (simp add: split_on_append split_on_id newline_def)
  have num: "numeric_part ?c" by (simp add: numeric_part_def canonical_nat_text)
  have "strip ?c = nat_text p" by (rule strip_line_feed) (simp_all add: nat_text_no_space)
  then have int: "py_int ?c = p" by (simp add: py_int_def)
  have t: "semver_text (Ver M m p []) @ [newline] = nat_text M @ ''.'' @ nat_text m @ ''.'' @ ?c"
    by (simp add: semver_text_def)
  show ?thesis
    unfolding t semver_parse_def Let_def before_char_id [OF dash] split list.case
    using dash num int by (simp del: append.simps)
qed

text \<open>
  C3: version precedence is the lexicographic order of the keys (major, minor, patch, release
  after prerelease, identifier keys with numeric ones first), so \<open>semver_compare\<close> is a total
  preorder whatever texts the prerelease lists hold.
\<close>

theorem semver_compare_lexicographic:
  "semver_compare a b = three_way_of (version_key a) (version_key b)"
  by (rule semver_compare_key)

text \<open>
  On well-formed versions precedence is a linear order, so sorting a set of versions has one
  outcome whatever order the tags were listed in.
\<close>

theorem semver_sort_deterministic:
  assumes "mset vs = mset ws" and "\<And>v. v \<in> set vs \<Longrightarrow> valid_version v"
  shows "sort_by semver_compare vs = sort_by semver_compare ws \<and>
    sorted_wrt (\<lambda>x y. semver_compare x y \<le> 0) (sort_by semver_compare vs)"
  using semver.sort_by_perm [OF assms] semver.sorted_sort_by by simp

theorem semver_sort_deterministic_witness:
  "sort_by semver_compare [Ver 1 0 0 [], Ver 1 0 0 [''rc'']] =
     sort_by semver_compare [Ver 1 0 0 [''rc''], Ver 1 0 0 []]"
proof -
  have "valid_version v" if "v \<in> set [Ver 1 0 0 [], Ver 1 0 0 [''rc'']]" for v
    using that by (auto simp: valid_version_def valid_ident_def ident_char_def is_alnum_def
        is_lower_def is_digit_def ord_of_def)
  then show ?thesis
    using semver_sort_deterministic [of "[Ver 1 0 0 [], Ver 1 0 0 [''rc'']]"
        "[Ver 1 0 0 [''rc''], Ver 1 0 0 []]"] by simp
qed

end
