(* ===== verification/Resolver.thy ===== *)
theory Resolver
  imports SemVer "HOL-Library.AList" "HOL-Library.While_Combinator"
begin

text \<open>
  Resolution of a context closure (\<open>resolve_closure\<close> of \<open>tools/validate.py\<close>): the
  work list of names with changed constraints, the selection of one commit per name, the final
  check, and the section 6 weights.  Tables that Python keeps as dictionaries are association
  lists updated with \<open>AList.update\<close>, which keeps the position of a key as Python does.
  Inputs are typed the way the case schema types them.
\<close>

section \<open>Inputs\<close>

datatype form = FRange string | FTag string | FRevision string | FPath

record requirement =
  rq_name :: string
  rq_kind :: string
  rq_range :: "string option"
  rq_tag :: "string option"
  rq_revision :: "string option"
  rq_path :: bool
  rq_weight :: "int option"
  rq_directory :: "string option"

text \<open>\<open>mf_more\<close> tells whether the manifest has keys the resolver does not look at.\<close>

record manifest =
  mf_version :: "string option"
  mf_requires :: "requirement list option"
  mf_weight :: "int option"
  mf_weights :: "(string \<times> int) list option"
  mf_more :: bool

record package =
  pk_tags :: "(string \<times> string) list"
  pk_commits :: "(string \<times> manifest) list"
  pk_source :: string

type_synonym packages = "(string \<times> package) list"

text \<open>An overlay's \<open>path\<close> value holds its manifest and its \<open>state_sha256\<close>.\<close>

record overlay =
  ov_name :: string
  ov_range :: "string option"
  ov_tag :: "string option"
  ov_revision :: "string option"
  ov_path :: "(manifest \<times> string) option"
  ov_directory :: "string option"
  ov_weight :: "int option"

record install =
  in_name :: string
  in_range :: "string option"
  in_tag :: "string option"
  in_revision :: "string option"
  in_path :: bool
  in_directory :: "string option"

definition requirement_form :: "string option \<Rightarrow> string option \<Rightarrow> string option \<Rightarrow> bool \<Rightarrow> form res" where
  "requirement_form rg tag revision path =
     (case rg of Some r \<Rightarrow> Inr (FRange r) | None \<Rightarrow>
      case tag of Some t \<Rightarrow> Inr (FTag t) | None \<Rightarrow>
      case revision of Some r \<Rightarrow> Inr (FRevision r) | None \<Rightarrow>
      if path then Inr FPath else Inl (ValidationFailure ''requirement has no form: ''))"

section \<open>State\<close>

text \<open>\<open>c_of\<close> is the source's \<open>requirer_of\<close>, empty for the machine's own declarations.\<close>

record constraint =
  c_name :: string
  c_kind :: string
  c_requirer :: string
  c_of :: string
  c_form :: form
  c_weight :: "int option"
  c_directory :: "string option"
  c_overlay :: "overlay option"

record selection =
  s_kind :: string
  s_version :: "version option"
  s_commit :: "string option"
  s_state :: "string option"
  s_source :: "string option"
  s_directory :: "string option"
  s_manifest :: "manifest option"
  s_overlay :: "overlay option"

record rstate =
  constraints :: "constraint list"
  selected :: "(string \<times> selection) list"
  ceiling :: "(string \<times> version) list"
  pending :: "string list"

definition add_constraint :: "constraint \<Rightarrow> rstate \<Rightarrow> rstate" where
  "add_constraint c s =
     s\<lparr>constraints := constraints s @ [c], pending := List.insert (c_name c) (pending s)\<rparr>"

definition constraints_on :: "string \<Rightarrow> rstate \<Rightarrow> constraint list" where
  "constraints_on n s = filter (\<lambda>c. c_name c = n) (constraints s)"

text \<open>Constraints attributed to a requirer are removed; the names they were on become pending.\<close>

definition drop_attributed :: "string \<Rightarrow> rstate \<Rightarrow> rstate" where
  "drop_attributed requirer s =
     s\<lparr>constraints := filter (\<lambda>c. c_requirer c \<noteq> requirer) (constraints s),
       pending := fold (\<lambda>c. List.insert (c_name c))
         (filter (\<lambda>c. c_requirer c = requirer) (constraints s)) (pending s)\<rparr>"

fun spelling_form :: "form \<Rightarrow> string" where
  "spelling_form FPath = ''path''"
| "spelling_form (FRange r) = ''range '' @ r"
| "spelling_form (FTag t) = ''tag '' @ t"
| "spelling_form (FRevision r) = ''revision '' @ r"

definition conflict :: "string \<Rightarrow> constraint list \<Rightarrow> string list \<Rightarrow> failure" where
  "conflict n cs candidates = ResolutionError ''context_range_conflict'' (JObj
     [(''name'', JStr n),
      (''requirers'', JArr (map (\<lambda>c. JObj [(''requirer'', JStr (c_requirer c)),
         (''constraint'', JStr (spelling_form (c_form c)))]) cs)),
      (''candidates'', JArr (map JStr candidates))])"

definition label :: "string \<Rightarrow> version option \<Rightarrow> string" where
  "label n v = (case v of None \<Rightarrow> n | Some w \<Rightarrow> n @ ''@'' @ semver_text w)"

section \<open>Selecting one name\<close>

text \<open>
  The loop over a name's constraints: the last path declaration, the exact commits and the
  parsed ranges.
\<close>

fun classify :: "packages \<Rightarrow> string \<Rightarrow> constraint list \<Rightarrow>
    overlay option \<times> string list \<times> comparator list list list \<Rightarrow>
    (overlay option \<times> string list \<times> comparator list list list) res" where
  "classify pkgs n [] acc = Inr acc"
| "classify pkgs n (c # cs) (decl, exact, ranges) =
     (case c_form c of
        FPath \<Rightarrow> classify pkgs n cs (c_overlay c, exact, ranges)
      | FRange r \<Rightarrow>
          (case range_parse r of
             Inl _ \<Rightarrow> Inl (ResolutionError ''profile_source_invalid''
                 (JObj [(''name'', JStr n), (''range'', JStr r)]))
           | Inr parsed \<Rightarrow> classify pkgs n cs (decl, exact, ranges @ [parsed]))
      | FTag t \<Rightarrow>
          (case map_of pkgs n of
             None \<Rightarrow> Inl (KeyError n)
           | Some p \<Rightarrow>
               (case map_of (pk_tags p) t of
                  None \<Rightarrow> Inl (ResolutionError ''profile_source_invalid''
                      (JObj [(''name'', JStr n), (''tag'', JStr t)]))
                | Some commit \<Rightarrow> classify pkgs n cs (decl, exact @ [commit], ranges)))
      | FRevision r \<Rightarrow> classify pkgs n cs (decl, exact @ [r], ranges))"

definition select_path :: "string \<Rightarrow> overlay \<Rightarrow> selection res" where
  "select_path kind decl =
     (case ov_path decl of
        None \<Rightarrow> Inl (KeyError ''path'')
      | Some (manifest, state) \<Rightarrow>
          (case mf_version manifest of
             None \<Rightarrow> Inl (KeyError ''version'')
           | Some v \<Rightarrow> Inr \<lparr>s_kind = kind, s_version = semver_parse v, s_commit = None,
               s_state = Some state, s_source = None, s_directory = None,
               s_manifest = Some manifest, s_overlay = Some decl\<rparr>))"

text \<open>The highest version tag of a skill that peels to the commit.\<close>

fun highest_tag :: "string \<Rightarrow> (string \<times> string) list \<Rightarrow> version option \<Rightarrow> version option" where
  "highest_tag commit [] best = best"
| "highest_tag commit ((tag, tag_commit) # tags) best =
     (if tag_commit \<noteq> commit then highest_tag commit tags best
      else case semver_parse_tag tag of
        None \<Rightarrow> highest_tag commit tags best
      | Some parsed \<Rightarrow>
          (case best of
             None \<Rightarrow> highest_tag commit tags (Some parsed)
           | Some b \<Rightarrow> highest_tag commit tags
               (if semver_compare parsed b > 0 then Some parsed else best)))"

definition manifest_truthy :: "manifest option \<Rightarrow> bool" where
  "manifest_truthy m = (case m of None \<Rightarrow> False
     | Some m \<Rightarrow> mf_version m \<noteq> None \<or> mf_requires m \<noteq> None \<or> mf_weight m \<noteq> None \<or>
         mf_weights m \<noteq> None \<or> mf_more m)"

definition exact_version :: "string \<Rightarrow> string \<Rightarrow> package \<Rightarrow> string \<Rightarrow> manifest option \<Rightarrow> version option res" where
  "exact_version n kind p commit manifest =
     (if kind = ''skill'' then Inr (highest_tag commit (pk_tags p) None)
      else if manifest_truthy manifest then
        (case mf_version (the manifest) of
           None \<Rightarrow> Inl (KeyError ''version'')
         | Some text \<Rightarrow>
             (case semver_parse text of
                None \<Rightarrow> Inl (ResolutionError ''context_manifest_invalid'' (JObj [(''name'', JStr n)]))
              | Some v \<Rightarrow> Inr (Some v)))
      else Inl (ResolutionError ''context_manifest_invalid'' (JObj [(''name'', JStr n)])))"

definition admits :: "comparator list list list \<Rightarrow> version option \<Rightarrow> bool" where
  "admits ranges v = list_all (\<lambda>r. case v of None \<Rightarrow> False | Some w \<Rightarrow> range_satisfies r w) ranges"

definition select_exact :: "packages \<Rightarrow> string \<Rightarrow> string \<Rightarrow> constraint list \<Rightarrow> string list \<Rightarrow>
    comparator list list list \<Rightarrow> selection res" where
  "select_exact pkgs n kind cs exact ranges =
     (if list_ex (\<lambda>commit. commit \<noteq> hd exact) (tl exact) then Inl (conflict n cs [])
      else case map_of pkgs n of
        None \<Rightarrow> Inl (KeyError n)
      | Some p \<Rightarrow>
          (let commit = hd exact; manifest = map_of (pk_commits p) commit in
           and_then (exact_version n kind p commit manifest) (\<lambda>version.
             if \<not> admits ranges version
             then Inl (conflict n cs (case version of None \<Rightarrow> [] | Some v \<Rightarrow> [semver_text v]))
             else Inr \<lparr>s_kind = kind, s_version = version, s_commit = Some commit, s_state = None,
               s_source = Some (pk_source p), s_directory = c_directory (hd cs),
               s_manifest = manifest, s_overlay = None\<rparr>)))"

text \<open>The version tags of a source in ascending order; equal versions in tag order.\<close>

definition candidates_of :: "package \<Rightarrow> (version \<times> string \<times> string) list" where
  "candidates_of p = sort_by (\<lambda>a b. semver_compare (fst a) (fst b))
     (List.map_filter (\<lambda>(tag, commit).
        map_option (\<lambda>v. (v, commit, tag)) (semver_parse_tag tag)) (pk_tags p))"

definition eligible :: "version option \<Rightarrow> comparator list list list \<Rightarrow> version \<Rightarrow> bool" where
  "eligible ceil ranges v =
     ((case ceil of None \<Rightarrow> True | Some c \<Rightarrow> \<not> semver_compare v c > 0) \<and>
      list_all (\<lambda>r. range_satisfies r v) ranges)"

definition select_tag :: "packages \<Rightarrow> string \<Rightarrow> string \<Rightarrow> constraint list \<Rightarrow> version option \<Rightarrow>
    comparator list list list \<Rightarrow> selection res" where
  "select_tag pkgs n kind cs ceil ranges =
     (case map_of pkgs n of
        None \<Rightarrow> Inl (KeyError n)
      | Some p \<Rightarrow>
          (let candidates = candidates_of p in
           case find (\<lambda>(v, _). eligible ceil ranges v) (rev candidates) of
             None \<Rightarrow> Inl (conflict n cs (map (\<lambda>(v, _). semver_text v) candidates))
           | Some (parsed, commit, tag) \<Rightarrow>
               (let manifest = map_of (pk_commits p) commit in
                if kind \<noteq> ''skill'' \<and> (manifest = None \<or>
                     mf_version (the manifest) \<noteq> Some (semver_text parsed))
                then Inl (ResolutionError ''context_version_mismatch'' (JObj
                  [(''name'', JStr n), (''tag'', JStr tag),
                   (''manifest_version'', JStr (case manifest of None \<Rightarrow> []
                      | Some m \<Rightarrow> (case mf_version m of None \<Rightarrow> [] | Some v \<Rightarrow> v)))]))
                else Inr \<lparr>s_kind = kind, s_version = Some parsed, s_commit = Some commit,
                  s_state = None, s_source = Some (pk_source p),
                  s_directory = c_directory (hd cs), s_manifest = manifest, s_overlay = None\<rparr>)))"

text \<open>The last overlay among the constraints is recorded on the selection.\<close>

definition attach_overlay :: "constraint list \<Rightarrow> selection \<Rightarrow> selection" where
  "attach_overlay cs sel =
     fold (\<lambda>c sel. if c_overlay c \<noteq> None then sel\<lparr>s_overlay := c_overlay c\<rparr> else sel) cs sel"

definition select :: "packages \<Rightarrow> string \<Rightarrow> constraint list \<Rightarrow> version option \<Rightarrow> selection res" where
  "select pkgs n cs ceil =
     and_then (classify pkgs n cs (None, [], [])) (\<lambda>(decl, exact, ranges).
     and_then
       (case decl of
          Some d \<Rightarrow> select_path (c_kind (hd cs)) d
        | None \<Rightarrow>
            if exact \<noteq> [] then select_exact pkgs n (c_kind (hd cs)) cs exact ranges
            else select_tag pkgs n (c_kind (hd cs)) cs ceil ranges)
       (\<lambda>sel. Inr (attach_overlay cs sel)))"

section \<open>The work list\<close>

definition manifest_requires :: "manifest \<Rightarrow> requirement list" where
  "manifest_requires m = (case mf_requires m of None \<Rightarrow> [] | Some rs \<Rightarrow> rs)"

definition requirements_of :: "selection \<Rightarrow> requirement list" where
  "requirements_of sel = (case s_manifest sel of None \<Rightarrow> []
     | Some m \<Rightarrow> manifest_requires m)"

definition expand :: "string \<Rightarrow> selection \<Rightarrow> rstate \<Rightarrow> rstate res" where
  "expand n sel s =
     fold_res (\<lambda>rq s.
       and_then (requirement_form (rq_range rq) (rq_tag rq) (rq_revision rq) (rq_path rq)) (\<lambda>f.
         Inr (add_constraint \<lparr>c_name = rq_name rq, c_kind = rq_kind rq,
           c_requirer = label n (s_version sel), c_of = n, c_form = f, c_weight = rq_weight rq,
           c_directory = rq_directory rq, c_overlay = None\<rparr> s)))
       (requirements_of sel) s"

definition commit_selection :: "string \<Rightarrow> selection \<Rightarrow> rstate \<Rightarrow> rstate res" where
  "commit_selection n sel s =
     expand n sel (s\<lparr>selected := AList.update n sel (selected s),
       ceiling := (case s_version sel of None \<Rightarrow> ceiling s
         | Some v \<Rightarrow> AList.update n v (ceiling s))\<rparr>)"

text \<open>One turn of \<open>while pending\<close>.\<close>

definition step :: "packages \<Rightarrow> rstate \<Rightarrow> rstate res" where
  "step pkgs s0 =
     (let n = min_list (pending s0);
          s = s0\<lparr>pending := removeAll n (pending s0)\<rparr>;
          cs = constraints_on n s in
      if cs = [] then
        (case map_of (selected s) n of
           None \<Rightarrow> Inr s
         | Some current \<Rightarrow> Inr (drop_attributed (label n (s_version current))
             (s\<lparr>selected := AList.delete n (selected s)\<rparr>)))
      else
        and_then (select pkgs n cs (map_of (ceiling s) n)) (\<lambda>sel.
          case map_of (selected s) n of
            None \<Rightarrow> commit_selection n sel s
          | Some current \<Rightarrow>
              if s_commit current = s_commit sel \<and> s_state current = s_state sel then Inr s
              else commit_selection n sel (drop_attributed (label n (s_version current)) s)))"

text \<open>The loop, whose value is \<open>None\<close> when it does not end.\<close>

definition running :: "rstate res \<Rightarrow> bool" where
  "running r = (case r of Inl _ \<Rightarrow> False | Inr s \<Rightarrow> pending s \<noteq> [])"

definition step_res :: "packages \<Rightarrow> rstate res \<Rightarrow> rstate res" where
  "step_res pkgs r = and_then r (step pkgs)"

definition drain :: "packages \<Rightarrow> rstate \<Rightarrow> rstate res option" where
  "drain pkgs s = while_option running (step_res pkgs) (Inr s)"

text \<open>The machine's declarations: the root, then the overlays, each name once.\<close>

definition machine_constraint :: "string \<Rightarrow> form \<Rightarrow> string option \<Rightarrow> overlay option \<Rightarrow> constraint" where
  "machine_constraint n f dir ov = \<lparr>c_name = n, c_kind = ''context'', c_requirer = ''machine'',
     c_of = [], c_form = f, c_weight = None, c_directory = dir, c_overlay = ov\<rparr>"

fun seed_overlays :: "string list \<Rightarrow> overlay list \<Rightarrow> rstate \<Rightarrow> rstate res" where
  "seed_overlays seen [] s = Inr s"
| "seed_overlays seen (ov # ovs) s =
     (if ov_name ov \<in> set seen
      then Inl (ResolutionError ''environment_composition_invalid''
        (JObj [(''name'', JStr (ov_name ov))]))
      else and_then (requirement_form (ov_range ov) (ov_tag ov) (ov_revision ov) (ov_path ov \<noteq> None))
        (\<lambda>f. seed_overlays (ov_name ov # seen) ovs
           (add_constraint (machine_constraint (ov_name ov) f (ov_directory ov) (Some ov)) s)))"

definition seed :: "install \<Rightarrow> overlay list \<Rightarrow> rstate res" where
  "seed inst ovs =
     and_then (requirement_form (in_range inst) (in_tag inst) (in_revision inst) (in_path inst))
       (\<lambda>f. seed_overlays [in_name inst] ovs
          (add_constraint (machine_constraint (in_name inst) f (in_directory inst) None)
             \<lparr>constraints = [], selected = [], ceiling = [], pending = []\<rparr>))"

text \<open>After the loop every constraint is checked against what was selected.\<close>

definition check_constraint :: "rstate \<Rightarrow> constraint \<Rightarrow> unit res" where
  "check_constraint s c =
     (case map_of (selected s) (c_name c) of
        None \<Rightarrow> Inl (conflict (c_name c) (constraints_on (c_name c) s) [])
      | Some sel \<Rightarrow>
          (case c_form c of
             FRange r \<Rightarrow>
               (case s_version sel of
                  None \<Rightarrow> Inl (conflict (c_name c) (constraints_on (c_name c) s) [])
                | Some v \<Rightarrow> and_then (range_parse r) (\<lambda>sets.
                    guard (range_satisfies sets v)
                      (conflict (c_name c) (constraints_on (c_name c) s) [])))
           | _ \<Rightarrow> Inr ()))"

definition resolve_state :: "packages \<Rightarrow> install \<Rightarrow> overlay list \<Rightarrow> rstate res option" where
  "resolve_state pkgs inst ovs =
     (case seed inst ovs of
        Inl e \<Rightarrow> Some (Inl e)
      | Inr s0 \<Rightarrow> map_option (\<lambda>r. and_then r (\<lambda>s.
          and_then (for_each (check_constraint s) (constraints s)) (\<lambda>_. Inr s))) (drain pkgs s0))"

section \<open>Weights and the lock\<close>

text \<open>\<open>member\<close> is one entry of the lock; absent keys are \<open>None\<close>.\<close>

record member =
  m_kind :: string
  m_name :: string
  m_weight :: int
  m_required_by :: "string list"
  m_overlay :: bool
  m_state :: "string option"
  m_source :: "string option"
  m_commit :: "string option"
  m_directory :: "string option"
  m_version :: "string option"

definition selection_weights :: "selection \<Rightarrow> (string \<times> int) list" where
  "selection_weights sel = (case s_manifest sel of None \<Rightarrow> []
     | Some m \<Rightarrow> (case mf_weights m of None \<Rightarrow> [] | Some ws \<Rightarrow> ws))"

definition weights_not_root :: "string \<Rightarrow> (string \<times> selection) list \<Rightarrow> string \<Rightarrow> unit res" where
  "weights_not_root root sels n =
     (case map_of sels n of None \<Rightarrow> Inr ()
      | Some sel \<Rightarrow> guard (\<not> (n \<noteq> root \<and> s_kind sel = ''context'' \<and> selection_weights sel \<noteq> []))
          (ResolutionError ''context_weights_not_root'' (JObj [(''name'', JStr n)])))"

text \<open>Edge weights of the root's own requirements join the root's table; a name may not have both.\<close>

fun root_edges :: "string \<Rightarrow> (string \<times> int) list \<Rightarrow> constraint list \<Rightarrow> (string \<times> int) list \<Rightarrow>
    (string \<times> int) list res" where
  "root_edges root table [] acc = Inr acc"
| "root_edges root table (c # cs) acc =
     (case c_weight c of
        Some w \<Rightarrow>
          if c_of c = root then
            (if c_name c \<in> set (map fst table)
             then Inl (ResolutionError ''context_weights_duplicate'' (JObj [(''name'', JStr (c_name c))]))
             else root_edges root table cs (AList.update (c_name c) w acc))
          else root_edges root table cs acc
      | None \<Rightarrow> root_edges root table cs acc)"

definition weight_known :: "(string \<times> selection) list \<Rightarrow> string \<Rightarrow> unit res" where
  "weight_known sels key =
     guard (case map_of sels key of None \<Rightarrow> False | Some sel \<Rightarrow> s_kind sel = ''context'')
       (ResolutionError ''context_weight_unknown'' (JObj [(''name'', JStr key)]))"

definition weight_edges :: "string \<Rightarrow> constraint list \<Rightarrow> string \<Rightarrow> (string \<times> int) list" where
  "weight_edges root cs n = List.map_filter (\<lambda>c.
     case c_weight c of
       Some w \<Rightarrow> if c_name c = n \<and> c_of c \<noteq> [] \<and> c_of c \<noteq> root then Some (c_requirer c, w) else None
     | None \<Rightarrow> None) cs"

definition own_weight :: "selection \<Rightarrow> int" where
  "own_weight sel = (case s_manifest sel of None \<Rightarrow> 0
     | Some m \<Rightarrow> (case mf_weight m of None \<Rightarrow> 0 | Some w \<Rightarrow> w))"

definition edge_detail :: "string \<Rightarrow> (string \<times> int) list \<Rightarrow> dict" where
  "edge_detail n edges = [(''name'', JStr n), (''requirers'', JArr (map (\<lambda>(r, w).
     JObj [(''requirer'', JStr r), (''weight'', JInt w)]) edges))]"

text \<open>
  The agreed weight of a name's edges, its manifest's when there are none; edges that disagree
  are a conflict unless the root's table decides, and then a warning.
\<close>

definition edge_weight :: "string \<Rightarrow> constraint list \<Rightarrow> (string \<times> int) list \<Rightarrow> string \<Rightarrow> selection \<Rightarrow>
    (int \<times> dict list) res" where
  "edge_weight root cs root_map n sel =
     (let edges = weight_edges root cs n in
      if edges = [] then Inr (own_weight sel, [])
      else if list_ex (\<lambda>(_, w). w \<noteq> snd (hd edges)) (tl edges) then
        (if n \<notin> set (map fst root_map)
         then Inl (ResolutionError ''context_weight_conflict'' (JObj (edge_detail n edges)))
         else Inr (own_weight sel,
           [edge_detail n edges @ [(''diagnostic'', JStr ''context_weight_conflict'')]]))
      else Inr (snd (hd edges), []))"

text \<open>An overlay's weight wins over the root's table, which wins over the edges.\<close>

definition name_weight :: "string \<Rightarrow> constraint list \<Rightarrow> (string \<times> int) list \<Rightarrow> int \<Rightarrow> string \<Rightarrow>
    selection \<Rightarrow> (int \<times> dict list) res" where
  "name_weight root cs root_map dflt n sel =
     (if s_kind sel \<noteq> ''context'' then Inr (0, [])
      else
        and_then (edge_weight root cs root_map n sel) (\<lambda>(w, warns).
          let w1 = (case map_of root_map n of None \<Rightarrow> w | Some r \<Rightarrow> r) in
          Inr (case s_overlay sel of None \<Rightarrow> w1
             | Some ov \<Rightarrow> (case ov_weight ov of None \<Rightarrow> dflt | Some x \<Rightarrow> x), warns)))"

text \<open>\<open>sorted({\<dots>})\<close>: the distinct requirers in order.\<close>

definition required_by :: "constraint list \<Rightarrow> string \<Rightarrow> string list" where
  "required_by cs n =
     sort (remdups (map c_of (filter (\<lambda>c. c_name c = n \<and> c_of c \<noteq> []) cs)))"

definition make_member :: "constraint list \<Rightarrow> string \<Rightarrow> selection \<Rightarrow> int \<Rightarrow> member" where
  "make_member cs n sel w =
     \<lparr>m_kind = s_kind sel, m_name = n, m_weight = w, m_required_by = required_by cs n,
      m_overlay = (s_overlay sel \<noteq> None), m_state = s_state sel,
      m_source = (if s_state sel \<noteq> None then None else s_source sel),
      m_commit = (if s_state sel \<noteq> None then None else s_commit sel),
      m_directory = (if s_state sel \<noteq> None then None
        else case s_directory sel of None \<Rightarrow> None | Some d \<Rightarrow> if d = [] then None else Some d),
      m_version = map_option semver_text (s_version sel)\<rparr>"

definition lock_of :: "string \<Rightarrow> int \<Rightarrow> rstate \<Rightarrow> (member list \<times> dict list) res" where
  "lock_of root dflt s =
     (case map_of (selected s) root of
        None \<Rightarrow> Inl (KeyError root)
      | Some root_sel \<Rightarrow>
          (if s_manifest root_sel = None then Inl TypeError
           else
             let root_weights = selection_weights root_sel; names = sort (map fst (selected s)) in
             and_then (for_each (weights_not_root root (selected s)) names) (\<lambda>_.
             and_then (root_edges root root_weights (constraints s) root_weights) (\<lambda>root_map.
             and_then (for_each (weight_known (selected s)) (sort (map fst root_weights))) (\<lambda>_.
             and_then (map_res (\<lambda>n. and_then
                 (name_weight root (constraints s) root_map dflt n (the (map_of (selected s) n)))
                 (\<lambda>(w, warns). Inr (make_member (constraints s) n (the (map_of (selected s) n)) w, warns)))
               names) (\<lambda>rows.
             Inr (sort_key (\<lambda>m. (m_kind m, m_name m)) (map fst rows), concat (map snd rows))))))))"

definition resolve_closure :: "packages \<Rightarrow> install \<Rightarrow> overlay list \<Rightarrow> int option \<Rightarrow>
    (member list \<times> dict list) res option" where
  "resolve_closure pkgs inst ovs dflt =
     map_option (\<lambda>r. and_then r (lock_of (in_name inst)
       (case dflt of None \<Rightarrow> 1000 | Some d \<Rightarrow> d))) (resolve_state pkgs inst ovs)"

section \<open>What changes the pending set\<close>

lemma set_fold_insert: "set (fold (\<lambda>c. List.insert (f c)) cs p) = set p \<union> f ` set cs"
  by (induction cs arbitrary: p) auto

lemma drop_attributed_simps [simp]:
  "selected (drop_attributed r s) = selected s" "ceiling (drop_attributed r s) = ceiling s"
  "set (constraints (drop_attributed r s)) = {c \<in> set (constraints s). c_requirer c \<noteq> r}"
  "set (pending (drop_attributed r s)) =
     set (pending s) \<union> c_name ` {c \<in> set (constraints s). c_requirer c = r}"
  by (auto simp: drop_attributed_def set_fold_insert)

lemma add_constraint_simps [simp]:
  "selected (add_constraint c s) = selected s" "ceiling (add_constraint c s) = ceiling s"
  "constraints (add_constraint c s) = constraints s @ [c]"
  "set (pending (add_constraint c s)) = insert (c_name c) (set (pending s))"
  by (simp_all add: add_constraint_def)

text \<open>A name that is not pending afterwards was not pending before, and kept its constraints.\<close>

definition calm :: "string \<Rightarrow> rstate \<Rightarrow> rstate \<Rightarrow> bool" where
  "calm m s t \<longleftrightarrow> (m \<notin> set (pending t) \<longrightarrow>
     m \<notin> set (pending s) \<and> constraints_on m t = constraints_on m s)"

lemma calm_trans: "calm m s t \<Longrightarrow> calm m t u \<Longrightarrow> calm m s u"
  by (auto simp: calm_def)

lemma calm_drop: "calm m s (drop_attributed r s)"
proof -
  have "filter (\<lambda>c. c_requirer c \<noteq> r \<and> c_name c = m) cs = filter (\<lambda>c. c_name c = m) cs"
    if "m \<notin> c_name ` {c \<in> set cs. c_requirer c = r}" for cs
    using that by (intro filter_cong) auto
  then show ?thesis
    by (auto simp: calm_def constraints_on_def drop_attributed_def set_fold_insert conj_commute)
qed

lemma calm_add: "calm m s (add_constraint c s)"
  by (auto simp: calm_def constraints_on_def)

lemma expand_facts:
  assumes "expand n sel s = Inr t"
  shows "calm m s t" and "selected t = selected s" and "ceiling t = ceiling s"
    and "c \<in> set (constraints t) \<Longrightarrow> c \<notin> set (constraints s) \<Longrightarrow>
      c_of c = n \<and> c_requirer c = label n (s_version sel) \<and> c_overlay c = None \<and>
      c_name c \<in> rq_name ` set (requirements_of sel)"
    and "set (pending t) \<subseteq> set (pending s) \<union> rq_name ` set (requirements_of sel)"
proof -
  let ?P = "\<lambda>u. calm m s u \<and> selected u = selected s \<and> ceiling u = ceiling s \<and>
    set (pending u) \<subseteq> set (pending s) \<union> rq_name ` set (requirements_of sel) \<and>
    (\<forall>c \<in> set (constraints u). c \<in> set (constraints s) \<or>
      c_of c = n \<and> c_requirer c = label n (s_version sel) \<and> c_overlay c = None \<and>
      c_name c \<in> rq_name ` set (requirements_of sel))"
  have "?P t"
    by (rule fold_res_invariant [OF assms [unfolded expand_def], of ?P])
      (auto simp: calm_def and_then_ok_iff constraints_on_def)
  then show "calm m s t" "selected t = selected s" "ceiling t = ceiling s"
    "c \<in> set (constraints t) \<Longrightarrow> c \<notin> set (constraints s) \<Longrightarrow>
      c_of c = n \<and> c_requirer c = label n (s_version sel) \<and> c_overlay c = None \<and>
      c_name c \<in> rq_name ` set (requirements_of sel)"
    "set (pending t) \<subseteq> set (pending s) \<union> rq_name ` set (requirements_of sel)"
    by blast+
qed

text \<open>The three outcomes of a turn.\<close>

lemma step_cases:
  assumes "step pkgs s0 = Inr t"
  obtains
    (idle) n s where "n = min_list (pending s0)" "s = s0\<lparr>pending := removeAll n (pending s0)\<rparr>"
      "constraints_on n s = []" "map_of (selected s) n = None" "t = s"
  | (leave) n s current where "n = min_list (pending s0)" "s = s0\<lparr>pending := removeAll n (pending s0)\<rparr>"
      "constraints_on n s = []" "map_of (selected s) n = Some current"
      "t = drop_attributed (label n (s_version current)) (s\<lparr>selected := AList.delete n (selected s)\<rparr>)"
  | (keep) n s sel current where "n = min_list (pending s0)" "s = s0\<lparr>pending := removeAll n (pending s0)\<rparr>"
      "constraints_on n s \<noteq> []" "select pkgs n (constraints_on n s) (map_of (ceiling s) n) = Inr sel"
      "map_of (selected s) n = Some current" "s_commit current = s_commit sel"
      "s_state current = s_state sel" "t = s"
  | (enter) n s sel where "n = min_list (pending s0)" "s = s0\<lparr>pending := removeAll n (pending s0)\<rparr>"
      "constraints_on n s \<noteq> []" "select pkgs n (constraints_on n s) (map_of (ceiling s) n) = Inr sel"
      "map_of (selected s) n = None" "commit_selection n sel s = Inr t"
  | (reselect) n s sel current where "n = min_list (pending s0)" "s = s0\<lparr>pending := removeAll n (pending s0)\<rparr>"
      "constraints_on n s \<noteq> []" "select pkgs n (constraints_on n s) (map_of (ceiling s) n) = Inr sel"
      "map_of (selected s) n = Some current"
      "commit_selection n sel (drop_attributed (label n (s_version current)) s) = Inr t"
proof -
  define n s where n: "n = min_list (pending s0)" and s: "s = s0\<lparr>pending := removeAll n (pending s0)\<rparr>"
  note eq = assms [unfolded step_def Let_def, folded n, folded s]
  show thesis
  proof (cases "constraints_on n s = []")
    case True
    then show thesis
    proof (cases "map_of (selected s) n")
      case None
      with True eq show thesis by (intro idle [OF n s]) auto
    next
      case (Some current)
      with True eq show thesis by (intro leave [OF n s]) auto
    qed
  next
    case False
    with eq obtain sel where sel: "select pkgs n (constraints_on n s) (map_of (ceiling s) n) = Inr sel"
      by (auto simp: and_then_ok_iff)
    show thesis
    proof (cases "map_of (selected s) n")
      case None
      with False eq sel show thesis by (intro enter [OF n s False sel]) auto
    next
      case (Some current)
      with False eq sel have e: "(if s_commit current = s_commit sel \<and> s_state current = s_state sel
          then Inr s else commit_selection n sel (drop_attributed (label n (s_version current)) s)) = Inr t"
        by simp
      show thesis
      proof (cases "s_commit current = s_commit sel \<and> s_state current = s_state sel")
        case True
        with e have "t = s" by simp
        with True show thesis by (intro keep [OF n s False sel Some]) simp_all
      next
        case out: False
        from e have "commit_selection n sel (drop_attributed (label n (s_version current)) s) = Inr t"
          by (simp only: out if_False)
        then show thesis by (rule reselect [OF n s False sel Some])
      qed
    qed
  qed
qed

section \<open>Settled names\<close>

text \<open>
  A name with no pending change is selected exactly when something constrains it, and its commit
  is the one its current constraints select.
\<close>

definition settled_at :: "packages \<Rightarrow> rstate \<Rightarrow> string \<Rightarrow> bool" where
  "settled_at pkgs s m =
     (case map_of (selected s) m of
        None \<Rightarrow> constraints_on m s = []
      | Some current \<Rightarrow> constraints_on m s \<noteq> [] \<and> (\<exists>ceil sel.
          select pkgs m (constraints_on m s) ceil = Inr sel \<and>
          s_commit current = s_commit sel \<and> s_state current = s_state sel))"

definition settled :: "packages \<Rightarrow> rstate \<Rightarrow> bool" where
  "settled pkgs s \<longleftrightarrow> (\<forall>m. m \<notin> set (pending s) \<longrightarrow> settled_at pkgs s m)"

lemma settled_at_cong:
  "constraints_on m t = constraints_on m s \<Longrightarrow> map_of (selected t) m = map_of (selected s) m \<Longrightarrow>
    settled_at pkgs t m = settled_at pkgs s m"
  by (simp add: settled_at_def split: option.split)

lemma settled_others:
  assumes "settled pkgs s0" "s = s0\<lparr>pending := removeAll n (pending s0)\<rparr>" "calm m s t"
    "m \<noteq> n" "map_of (selected t) m = map_of (selected s) m" "m \<notin> set (pending t)"
  shows "settled_at pkgs t m"
proof -
  have "m \<notin> set (pending s0)" "constraints_on m t = constraints_on m s0"
    "map_of (selected t) m = map_of (selected s0) m"
    using assms by (auto simp: calm_def constraints_on_def)
  then show ?thesis using assms(1) settled_at_cong unfolding settled_def by blast
qed

lemma commit_selection_facts:
  assumes "commit_selection n sel s = Inr t"
  shows "calm m s t" and "map_of (selected t) = (map_of (selected s))(n \<mapsto> sel)"
  using expand_facts(1,2) [OF assms [unfolded commit_selection_def]]
  by (auto simp: calm_def constraints_on_def update_conv')

lemma settled_step:
  assumes inv: "settled pkgs s0" and st: "step pkgs s0 = Inr t"
  shows "settled pkgs t"
  unfolding settled_def
proof (intro allI impI)
  fix m assume m: "m \<notin> set (pending t)"
  from st show "settled_at pkgs t m"
  proof (cases rule: step_cases)
    case (idle n s)
    show ?thesis
    proof (cases "m = n")
      case True
      with idle show ?thesis by (simp add: settled_at_def)
    next
      case False
      show ?thesis by (rule settled_others [OF inv idle(2) _ False _ m]) (simp_all add: idle(5) calm_def)
    qed
  next
    case (leave n s current)
    have calm: "calm k s t" for k
      using calm_drop [of k "s\<lparr>selected := AList.delete n (selected s)\<rparr>"]
      unfolding leave(5) by (simp add: calm_def constraints_on_def)
    show ?thesis
    proof (cases "m = n")
      case True
      have "constraints_on n t = []" "map_of (selected t) n = None"
        using m calm [of n] leave(3) True by (simp_all add: calm_def leave(5) delete_conv')
      with True show ?thesis by (simp add: settled_at_def)
    next
      case False
      show ?thesis by (rule settled_others [OF inv leave(2) calm False _ m])
        (simp add: leave(5) delete_conv' False)
    qed
  next
    case (keep n s sel current)
    show ?thesis
    proof (cases "m = n")
      case True
      with keep show ?thesis by (auto simp: settled_at_def)
    next
      case False
      show ?thesis by (rule settled_others [OF inv keep(2) _ False _ m]) (simp_all add: keep(8) calm_def)
    qed
  next
    case (enter n s sel)
    note facts = commit_selection_facts [OF enter(6)]
    show ?thesis
    proof (cases "m = n")
      case True
      with m enter facts(1) [of n] show ?thesis by (auto simp: settled_at_def calm_def facts(2))
    next
      case False
      show ?thesis by (rule settled_others [OF inv enter(2) facts(1) False _ m]) (simp add: facts(2) False)
    qed
  next
    case (reselect n s sel current)
    note facts = commit_selection_facts [OF reselect(6)]
    have calm: "calm k s t" for k using calm_trans [OF calm_drop facts(1)] .
    show ?thesis
    proof (cases "m = n")
      case True
      with m reselect calm [of n] show ?thesis by (auto simp: settled_at_def calm_def facts(2))
    next
      case False
      show ?thesis by (rule settled_others [OF inv reselect(2) calm False _ m]) (simp add: facts(2) False)
    qed
  qed
qed

text \<open>Invariants of the turns hold when the loop ends.\<close>

lemma drain_invariant:
  assumes "drain pkgs s0 = Some (Inr s)" "P s0"
    and "\<And>a b. P a \<Longrightarrow> pending a \<noteq> [] \<Longrightarrow> step pkgs a = Inr b \<Longrightarrow> P b"
  shows "P s \<and> pending s = []"
proof -
  have "case (Inr s :: rstate res) of Inl e \<Rightarrow> True | Inr s \<Rightarrow> P s"
    by (rule while_option_rule [where P = "\<lambda>r. case r of Inl e \<Rightarrow> True | Inr s \<Rightarrow> P s",
          OF _ assms(1) [unfolded drain_def]])
      (auto simp: running_def step_res_def assms(2) split: sum.splits intro: assms(3))
  moreover have "\<not> running (Inr s)"
    using while_option_stop [OF assms(1) [unfolded drain_def]] by simp
  ultimately show ?thesis by (simp add: running_def)
qed

section \<open>Attribution\<close>

text \<open>
  Every constraint is the machine's own or comes from the manifest of a package that is selected
  at the version the constraint is attributed to.
\<close>

definition machine_owned :: "constraint \<Rightarrow> bool" where
  "machine_owned c \<longleftrightarrow> c_of c = [] \<and> c_requirer c = ''machine''"

definition owned_by :: "rstate \<Rightarrow> constraint \<Rightarrow> bool" where
  "owned_by s c \<longleftrightarrow> (\<exists>sel. map_of (selected s) (c_of c) = Some sel \<and>
     c_requirer c = label (c_of c) (s_version sel) \<and>
     c_name c \<in> rq_name ` set (requirements_of sel))"

definition attributed :: "rstate \<Rightarrow> bool" where
  "attributed s \<longleftrightarrow> (\<forall>c \<in> set (constraints s). machine_owned c \<or> owned_by s c)"

lemma owned_by_simps [simp]:
  "owned_by (s\<lparr>pending := p\<rparr>) c = owned_by s c" "owned_by (drop_attributed r s) c = owned_by s c"
  by (simp_all add: owned_by_def)

lemma owned_dropped:
  "owned_by s c \<Longrightarrow> map_of (selected s) n = Some current \<Longrightarrow>
    c_requirer c \<noteq> label n (s_version current) \<Longrightarrow> c_of c \<noteq> n"
  by (auto simp: owned_by_def)

lemma commit_attributed:
  assumes t: "commit_selection n sel s = Inr t"
    and old: "\<And>c. c \<in> set (constraints s) \<Longrightarrow> machine_owned c \<or> owned_by s c \<and> c_of c \<noteq> n"
  shows "attributed t"
  unfolding attributed_def
proof
  fix c assume c: "c \<in> set (constraints t)"
  note facts = expand_facts [OF t [unfolded commit_selection_def]]
  show "machine_owned c \<or> owned_by t c"
  proof (cases "c \<in> set (constraints s)")
    case True
    then show ?thesis using old [OF True] by (auto simp: owned_by_def facts(2) update_conv')
  next
    case False
    then show ?thesis using facts(4) [OF c] by (simp add: owned_by_def facts(2) update_conv')
  qed
qed

lemma attributed_step:
  assumes inv: "attributed s0" and st: "step pkgs s0 = Inr t"
  shows "attributed t"
  using st
proof (cases rule: step_cases)
  case (idle n s)
  with inv show ?thesis by (simp add: attributed_def)
next
  case (leave n s current)
  have "machine_owned c \<or> owned_by t c" if c: "c \<in> set (constraints t)" for c
  proof -
    have "machine_owned c \<or> owned_by s c" "c_requirer c \<noteq> label n (s_version current)"
      using c inv by (auto simp: leave(2,5) attributed_def)
    then show ?thesis using owned_dropped [OF _ leave(4)]
      by (auto simp: leave(5) owned_by_def delete_conv')
  qed
  then show ?thesis by (simp add: attributed_def)
next
  case (keep n s sel current)
  with inv show ?thesis by (simp add: attributed_def)
next
  case (enter n s sel)
  show ?thesis
    using inv enter(2,5) by (intro commit_attributed [OF enter(6)])
      (auto simp: attributed_def owned_by_def)
next
  case (reselect n s sel current)
  show ?thesis
  proof (rule commit_attributed [OF reselect(6)])
    fix c assume "c \<in> set (constraints (drop_attributed (label n (s_version current)) s))"
    then have "machine_owned c \<or> owned_by s c" "c_requirer c \<noteq> label n (s_version current)"
      using inv by (auto simp: reselect(2) attributed_def)
    then show "machine_owned c \<or>
        owned_by (drop_attributed (label n (s_version current)) s) c \<and> c_of c \<noteq> n"
      using owned_dropped [OF _ reselect(5)] by auto
  qed
qed

section \<open>Inputs with plain names\<close>

text \<open>
  A constraint is attributed by a text, \<open>name\<close> or \<open>name@version\<close>.  Names without
  \<open>@\<close>, other than \<open>machine\<close>, make that text unambiguous.
\<close>

definition plain_name :: "string \<Rightarrow> bool" where
  "plain_name n \<longleftrightarrow> CHR ''@'' \<notin> set n \<and> n \<noteq> ''machine''"

text \<open>The manifests a name can be selected with.\<close>

definition declared :: "packages \<Rightarrow> overlay list \<Rightarrow> (string \<times> manifest) list" where
  "declared pkgs ovs =
     concat (map (\<lambda>(n, p). map (\<lambda>(_, m). (n, m)) (pk_commits p)) pkgs) @
     List.map_filter (\<lambda>ov. map_option (\<lambda>(m, _). (ov_name ov, m)) (ov_path ov)) ovs"

definition plain_input :: "packages \<Rightarrow> install \<Rightarrow> overlay list \<Rightarrow> bool" where
  "plain_input pkgs inst ovs \<longleftrightarrow>
     plain_name (in_name inst) \<and> list_all (\<lambda>ov. plain_name (ov_name ov)) ovs \<and>
     list_all (\<lambda>(n, m). list_all (\<lambda>rq. plain_name (rq_name rq)) (manifest_requires m)) (declared pkgs ovs)"

lemma requirements_of_manifest:
  "rq \<in> set (requirements_of sel) \<Longrightarrow> \<exists>m. s_manifest sel = Some m \<and> rq \<in> set (manifest_requires m)"
  by (cases "s_manifest sel") (auto simp: requirements_of_def)

lemma label_inj:
  assumes "plain_name n" "plain_name m" "label n v = label m w"
  shows "n = m"
proof -
  have "before_char (CHR ''@'') (label k u) = k" if "plain_name k" for k u
    using that before_char_id before_char_append
    by (cases u) (simp_all add: label_def plain_name_def)
  with assms show ?thesis by metis
qed

lemma label_not_machine: "plain_name n \<Longrightarrow> label n v \<noteq> ''machine''"
proof
  assume n: "plain_name n" and eq: "label n v = ''machine''"
  show False
  proof (cases v)
    case None
    with n eq show False by (simp add: label_def plain_name_def)
  next
    case (Some w)
    then have "CHR ''@'' \<in> set (label n v)" by (simp add: label_def)
    then show False unfolding eq by simp
  qed
qed

definition grounded :: "packages \<Rightarrow> overlay list \<Rightarrow> rstate \<Rightarrow> bool" where
  "grounded pkgs ovs s \<longleftrightarrow>
     (\<forall>c \<in> set (constraints s). plain_name (c_name c) \<and>
        (\<forall>ov. c_overlay c = Some ov \<longrightarrow> ov \<in> set ovs \<and> ov_name ov = c_name c)) \<and>
     (\<forall>n sel. map_of (selected s) n = Some sel \<longrightarrow> plain_name n \<and>
        (\<forall>m. s_manifest sel = Some m \<longrightarrow> (n, m) \<in> set (declared pkgs ovs)))"

text \<open>What a selection was built from.\<close>

lemma attach_overlay_simps [simp]:
  "s_manifest (attach_overlay cs sel) = s_manifest sel"
  "s_version (attach_overlay cs sel) = s_version sel"
  "s_commit (attach_overlay cs sel) = s_commit sel" "s_state (attach_overlay cs sel) = s_state sel"
proof -
  have "s_manifest (attach_overlay cs sel) = s_manifest sel \<and>
      s_version (attach_overlay cs sel) = s_version sel \<and>
      s_commit (attach_overlay cs sel) = s_commit sel \<and> s_state (attach_overlay cs sel) = s_state sel"
    unfolding attach_overlay_def by (induction cs arbitrary: sel) auto
  then show "s_manifest (attach_overlay cs sel) = s_manifest sel"
    "s_version (attach_overlay cs sel) = s_version sel"
    "s_commit (attach_overlay cs sel) = s_commit sel" "s_state (attach_overlay cs sel) = s_state sel"
    by simp_all
qed

lemma classify_decl:
  "classify pkgs n cs (d0, e0, r0) = Inr (Some d, e, r) \<Longrightarrow>
    d0 = Some d \<or> (\<exists>c \<in> set cs. c_overlay c = Some d)"
  by (induction cs arbitrary: d0 e0 r0) (auto split: form.splits sum.splits option.splits; blast)+

lemma classify_exact_kept: "classify pkgs n cs (d0, e0, r0) = Inr (d, e, r) \<Longrightarrow> set e0 \<subseteq> set e"
  by (induction cs arbitrary: d0 e0 r0) (fastforce split: form.splits sum.splits option.splits)+

lemma classify_exact:
  "classify pkgs n cs (d0, e0, r0) = Inr (d, e, r) \<Longrightarrow> c \<in> set cs \<Longrightarrow>
    (case c_form c of FRevision k \<Rightarrow> k \<in> set e
     | FTag t \<Rightarrow> \<exists>p k. map_of pkgs n = Some p \<and> map_of (pk_tags p) t = Some k \<and> k \<in> set e
     | _ \<Rightarrow> True)"
proof (induction cs arbitrary: d0 e0 r0)
  case (Cons a cs)
  show ?case
  proof (cases "c = a")
    case True
    with Cons.prems(1) show ?thesis
      by (auto split: form.splits sum.splits option.splits dest!: classify_exact_kept)
  next
    case False
    then have "c \<in> set cs" using Cons.prems(2) by simp
    with Cons show ?thesis by (auto split: form.splits(2) sum.splits(2) option.splits(2))
  qed
qed simp

lemma declared_commit:
  "map_of pkgs n = Some p \<Longrightarrow> map_of (pk_commits p) k = Some m \<Longrightarrow> (n, m) \<in> set (declared pkgs ovs)"
  by (force simp: declared_def dest!: map_of_SomeD)

lemma declared_overlay:
  "ov \<in> set ovs \<Longrightarrow> ov_path ov = Some (m, st) \<Longrightarrow> (ov_name ov, m) \<in> set (declared pkgs ovs)"
  by (force simp: declared_def List.map_filter_def)

lemma select_manifest:
  assumes sel: "select pkgs n cs ceil = Inr sel" and m: "s_manifest sel = Some m"
    and ov: "\<And>c d. c \<in> set cs \<Longrightarrow> c_overlay c = Some d \<Longrightarrow> d \<in> set ovs \<and> ov_name d = n"
  shows "(n, m) \<in> set (declared pkgs ovs)"
proof -
  from sel obtain decl exact ranges sel0 where
    cl: "classify pkgs n cs (None, [], []) = Inr (decl, exact, ranges)"
    and sel0: "(case decl of Some d \<Rightarrow> select_path (c_kind (hd cs)) d
        | None \<Rightarrow> if exact \<noteq> [] then select_exact pkgs n (c_kind (hd cs)) cs exact ranges
            else select_tag pkgs n (c_kind (hd cs)) cs ceil ranges) = Inr sel0"
    and eq: "sel = attach_overlay cs sel0"
    by (auto simp: select_def and_then_ok_iff)
  from m eq have m: "s_manifest sel0 = Some m" by simp
  show ?thesis
  proof (cases decl)
    case (Some d)
    with cl have "d \<in> set ovs" "ov_name d = n" using classify_decl ov by blast+
    then show ?thesis using declared_overlay [of d ovs] sel0 m Some
      by (auto simp: select_path_def split: option.splits)
  next
    case None
    then show ?thesis using sel0 m declared_commit
      by (auto simp: select_exact_def select_tag_def and_then_ok_iff Let_def
          split: if_splits option.splits)
  qed
qed

text \<open>Turns keep the state within the input.\<close>

lemma grounded_cs:
  "grounded pkgs ovs s \<Longrightarrow> c \<in> set (constraints_on n s) \<Longrightarrow>
    plain_name n \<and> (\<forall>d. c_overlay c = Some d \<longrightarrow> d \<in> set ovs \<and> ov_name d = n)"
  by (auto simp: grounded_def constraints_on_def)

lemma grounded_drop [intro]: "grounded pkgs ovs s \<Longrightarrow> grounded pkgs ovs (drop_attributed r s)"
  unfolding grounded_def drop_attributed_simps by blast

lemma grounded_select:
  assumes g: "grounded pkgs ovs s" and sel: "select pkgs n (constraints_on n s) ceil = Inr sel"
  shows "s_manifest sel = Some m \<Longrightarrow> (n, m) \<in> set (declared pkgs ovs)"
  using select_manifest [OF sel] grounded_cs [OF g] by blast

lemma plain_requirement:
  assumes "plain_input pkgs inst ovs" "\<And>m. s_manifest sel = Some m \<Longrightarrow> (n, m) \<in> set (declared pkgs ovs)"
    "rq \<in> set (requirements_of sel)"
  shows "plain_name (rq_name rq)"
proof -
  obtain m where "s_manifest sel = Some m" "rq \<in> set (manifest_requires m)"
    using requirements_of_manifest [OF assms(3)] by blast
  then show ?thesis using assms(1) assms(2) by (fastforce simp: plain_input_def list_all_iff)
qed

lemma grounded_commit:
  assumes p: "plain_input pkgs inst ovs" and g: "grounded pkgs ovs s" and n: "plain_name n"
    and m: "\<And>m. s_manifest sel = Some m \<Longrightarrow> (n, m) \<in> set (declared pkgs ovs)"
    and t: "commit_selection n sel s = Inr t"
  shows "grounded pkgs ovs t"
proof -
  note facts = expand_facts [OF t [unfolded commit_selection_def]]
  have "plain_name (c_name c) \<and> (\<forall>ov. c_overlay c = Some ov \<longrightarrow> ov \<in> set ovs \<and> ov_name ov = c_name c)"
    if c: "c \<in> set (constraints t)" for c
  proof (cases "c \<in> set (constraints s)")
    case True
    with g show ?thesis by (simp add: grounded_def)
  next
    case False
    then show ?thesis using facts(4) [OF c] plain_requirement [OF p m] by auto
  qed
  moreover have "plain_name k \<and> (\<forall>m. s_manifest x = Some m \<longrightarrow> (k, m) \<in> set (declared pkgs ovs))"
    if "map_of (selected t) k = Some x" for k x
    using that g n m by (auto simp: facts(2) update_conv' grounded_def split: if_splits)
  ultimately show ?thesis by (simp add: grounded_def)
qed

lemma grounded_step:
  assumes p: "plain_input pkgs inst ovs" and g: "grounded pkgs ovs s0" and st: "step pkgs s0 = Inr t"
  shows "grounded pkgs ovs t"
proof -
  have g': "grounded pkgs ovs (s0\<lparr>pending := q\<rparr>)" for q using g by (simp add: grounded_def)
  have nm: "plain_name n" if "constraints_on n (s0\<lparr>pending := q\<rparr>) \<noteq> []" for n q
    using that grounded_cs [OF g'] by (meson hd_in_set)
  from st show ?thesis
  proof (cases rule: step_cases)
    case (leave n s current)
    have "grounded pkgs ovs (s\<lparr>selected := AList.delete n (selected s)\<rparr>)"
      using g by (simp add: leave(2) grounded_def delete_conv')
    then show ?thesis unfolding leave(5) by (rule grounded_drop)
  next
    case (enter n s sel)
    then show ?thesis using g' nm grounded_select [OF g'] by (intro grounded_commit [OF p _ _ _ enter(6)]) auto
  next
    case (reselect n s sel current)
    then show ?thesis using g' nm grounded_select [OF g']
      by (intro grounded_commit [OF p _ _ _ reselect(6)]) auto
  qed (use g' in auto)
qed

text \<open>With plain names, only a package's own requirements go when its attribution is dropped.\<close>

lemma dropped_of:
  assumes "attributed s" "grounded pkgs ovs s" "c \<in> set (constraints s)"
    "c_requirer c = label n v" "plain_name n"
  shows "c_of c = n \<and> owned_by s c"
proof -
  have own: "owned_by s c"
    using assms label_not_machine [of n v] by (auto simp: attributed_def machine_owned_def)
  then obtain sel where "map_of (selected s) (c_of c) = Some sel"
    "c_requirer c = label (c_of c) (s_version sel)"
    by (auto simp: owned_by_def)
  with assms(2,4,5) have "c_of c = n" using label_inj by (metis grounded_def)
  with own show ?thesis by simp
qed

section \<open>Acyclic requirements resolve\<close>

text \<open>A rank that every requirement lowers: the requirement graph of the input has no cycle.\<close>

definition acyclic_by :: "(string \<Rightarrow> nat) \<Rightarrow> packages \<Rightarrow> overlay list \<Rightarrow> bool" where
  "acyclic_by rank pkgs ovs \<longleftrightarrow>
     list_all (\<lambda>(n, m). list_all (\<lambda>rq. rank (rq_name rq) < rank n) (manifest_requires m)) (declared pkgs ovs)"

lemma rank_requirement:
  assumes "acyclic_by rank pkgs ovs" "\<And>m. s_manifest sel = Some m \<Longrightarrow> (n, m) \<in> set (declared pkgs ovs)"
    "rq \<in> set (requirements_of sel)"
  shows "rank (rq_name rq) < rank n"
proof -
  obtain m where "s_manifest sel = Some m" "rq \<in> set (manifest_requires m)"
    using requirements_of_manifest [OF assms(3)] by blast
  then show ?thesis using assms(1) assms(2) by (fastforce simp: acyclic_by_def list_all_iff)
qed

lemma rank_dropped:
  assumes a: "attributed s" and g: "grounded pkgs ovs s" and r: "acyclic_by rank pkgs ovs"
    and c: "c \<in> set (constraints s)" and q: "c_requirer c = label n v" and n: "plain_name n"
  shows "rank (c_name c) < rank n"
proof -
  obtain sel where of: "c_of c = n" and sel: "map_of (selected s) n = Some sel"
    and req: "c_name c \<in> rq_name ` set (requirements_of sel)"
    using dropped_of [OF a g c q n] by (auto simp: owned_by_def)
  have m: "s_manifest sel = Some m \<Longrightarrow> (n, m) \<in> set (declared pkgs ovs)" for m
    using g sel by (simp add: grounded_def)
  from req obtain rq where "rq \<in> set (requirements_of sel)" "c_name c = rq_name rq" by blast
  then show ?thesis using rank_requirement [OF r m] by simp
qed

lemma min_list_in: "xs \<noteq> [] \<Longrightarrow> min_list xs \<in> set xs" for xs :: "'a::linorder list"
  by (simp add: min_list_Min)

text \<open>A turn takes one name off the pending set and adds only names of lower rank.\<close>

lemma pending_step:
  assumes a: "attributed s0" and g: "grounded pkgs ovs s0" and r: "acyclic_by rank pkgs ovs"
    and ne: "pending s0 \<noteq> []" and st: "step pkgs s0 = Inr t"
  shows "\<exists>n \<in> set (pending s0). \<exists>A. finite A \<and> (\<forall>x \<in> A. rank x < rank n) \<and>
    set (pending t) \<subseteq> (set (pending s0) - {n}) \<union> A"
proof (rule bexI [OF _ min_list_in [OF ne]])
  let ?n = "min_list (pending s0)" and ?s = "s0\<lparr>pending := removeAll (min_list (pending s0)) (pending s0)\<rparr>"
  have g': "grounded pkgs ovs ?s" and a': "attributed ?s" using g a by (simp_all add: grounded_def attributed_def)
  have drop: "\<exists>B. finite B \<and> (\<forall>x \<in> B. rank x < rank ?n) \<and>
      set (pending (drop_attributed (label ?n v) (?s\<lparr>selected := sl\<rparr>))) = (set (pending s0) - {?n}) \<union> B"
    if "plain_name ?n" for v sl
    using rank_dropped [OF a g r _ _ that]
    by (intro exI [of _ "c_name ` {c \<in> set (constraints s0). c_requirer c = label ?n v}"]) auto
  have plain: "plain_name ?n" if "constraints_on ?n ?s \<noteq> []"
    using that grounded_cs [OF g'] by (meson hd_in_set)
  from st show "\<exists>A. finite A \<and> (\<forall>x \<in> A. rank x < rank ?n) \<and>
    set (pending t) \<subseteq> (set (pending s0) - {?n}) \<union> A"
  proof (cases rule: step_cases)
    case (idle n s)
    then show ?thesis by (intro exI [of _ "{}"]) auto
  next
    case (leave n s current)
    have "plain_name ?n" using g leave(1,2,4) by (auto simp: grounded_def)
    from drop [OF this] show ?thesis unfolding leave(5,1,2) by (metis order_refl)
  next
    case (keep n s sel current)
    then show ?thesis by (intro exI [of _ "{}"]) auto
  next
    case (enter n s sel)
    have "select pkgs ?n (constraints_on ?n ?s) (map_of (ceiling ?s) ?n) = Inr sel"
      using enter(1,2,4) by simp
    note lower = rank_requirement [OF r grounded_select [OF g' this]]
    show ?thesis
      using expand_facts(5) [OF enter(6) [unfolded commit_selection_def]] enter(1,2)
      by (intro exI [of _ "rq_name ` set (requirements_of sel)"]) (auto intro: lower)
  next
    case (reselect n s sel current)
    have "select pkgs ?n (constraints_on ?n ?s) (map_of (ceiling ?s) ?n) = Inr sel"
      using reselect(1,2,4) by simp
    note lower = rank_requirement [OF r grounded_select [OF g' this]]
    have "plain_name ?n" using plain reselect(1,2,3) by simp
    from drop [OF this, of "s_version current" "selected s"] obtain B where B: "finite B"
      "\<forall>x \<in> B. rank x < rank ?n"
      "set (pending (drop_attributed (label n (s_version current)) s)) = (set (pending s0) - {?n}) \<union> B"
      unfolding reselect(1,2) by auto
    show ?thesis
      using expand_facts(5) [OF reselect(6) [unfolded commit_selection_def]] B
      by (intro exI [of _ "B \<union> rq_name ` set (requirements_of sel)"]) (auto intro: lower)
  qed
qed

lemma mult_one_removed:
  fixes rank :: "'a \<Rightarrow> nat"
  assumes "finite S" "finite A" "n \<in> S" "\<forall>x \<in> A. rank x < rank n" "T \<subseteq> (S - {n}) \<union> A"
  shows "(mset_set T, mset_set S) \<in> mult (measure rank)"
proof -
  let ?I = "T \<inter> (S - {n})"
  have fin: "finite T" using assms by (meson finite_Diff finite_UnI finite_subset)
  have T: "mset_set T = mset_set ?I + mset_set (T - ?I)"
    using fin by (subst mset_set_Union [symmetric]) (auto simp: Int_Diff Un_Diff_Int intro: arg_cong [of _ _ mset_set])
  have S: "mset_set S = mset_set ?I + mset_set (S - ?I)"
    using assms(1) by (subst mset_set_Union [symmetric]) (auto intro: arg_cong [of _ _ mset_set])
  have n: "n \<in># mset_set (S - ?I)" using assms(1,3) by simp
  have "\<forall>k \<in># mset_set (T - ?I). rank k < rank n" using assms(4,5) fin by auto
  with n have "\<forall>k \<in># mset_set (T - ?I). \<exists>j \<in># mset_set (S - ?I). (k, j) \<in> measure rank" by auto
  moreover have "mset_set (S - ?I) \<noteq> {#}" using n by (metis empty_not_add_mset mset_add)
  ultimately show ?thesis unfolding T S by (intro one_step_implies_mult)
qed

text \<open>The size of a loop state; a failure has none.\<close>

definition work :: "rstate res \<Rightarrow> string multiset" where
  "work r = (case r of Inl _ \<Rightarrow> {#} | Inr s \<Rightarrow> mset_set (set (pending s)))"

lemma drain_terminates:
  assumes p: "plain_input pkgs inst ovs" and r: "acyclic_by rank pkgs ovs"
    and s0: "attributed s0" "grounded pkgs ovs s0"
  shows "drain pkgs s0 \<noteq> None"
proof -
  let ?P = "\<lambda>r. case r of Inl e \<Rightarrow> True | Inr s \<Rightarrow> attributed s \<and> grounded pkgs ovs s"
  have "\<exists>t. while_option running (step_res pkgs) (Inr s0) = Some t"
  proof (rule wf_while_option_Some [where P = ?P])
    have "(work (step_res pkgs r), work r) \<in> mult (measure rank)" if "?P r" "running r" for r
    proof -
      from that obtain s where s: "r = Inr s" "attributed s" "grounded pkgs ovs s" "pending s \<noteq> []"
        by (cases r) (auto simp: running_def)
      show ?thesis
      proof (cases "step pkgs s")
        case (Inl e)
        have "mset_set (set (pending s)) \<noteq> {#}" using s(4) by (simp add: mset_set_empty_iff)
        then show ?thesis
          using one_step_implies_mult [of "mset_set (set (pending s))" "{#}" "measure rank" "{#}"]
          by (simp add: s(1) Inl step_res_def work_def)
      next
        case (Inr t)
        then obtain n A where "n \<in> set (pending s)" "finite A" "\<forall>x \<in> A. rank x < rank n"
          "set (pending t) \<subseteq> (set (pending s) - {n}) \<union> A"
          using pending_step [OF s(2,3) r s(4)] by blast
        then show ?thesis by (simp add: s(1) Inr step_res_def work_def mult_one_removed)
      qed
    qed
    then have "{(t, s). (?P s \<and> running s) \<and> t = step_res pkgs s} \<subseteq> inv_image (mult (measure rank)) work"
      by (auto simp: inv_image_def)
    then show "wf {(t, s). (?P s \<and> running s) \<and> t = step_res pkgs s}"
      by (rule wf_subset [rotated]) (intro wf_inv_image wf_mult wf_measure)
    show "?P (step_res pkgs r)" if "?P r" "running r" for r
    proof (cases r)
      case (Inr s)
      then show ?thesis
        using that attributed_step [of s pkgs] grounded_step [OF p, of s]
        by (cases "step pkgs s") (simp_all add: step_res_def)
    qed (simp add: step_res_def)
    show "?P (Inr s0)" using s0 by simp
  qed
  then show ?thesis by (auto simp: drain_def)
qed

section \<open>Closed under requirements\<close>

definition closed_state :: "rstate \<Rightarrow> bool" where
  "closed_state s \<longleftrightarrow> (\<forall>n sel. map_of (selected s) n = Some sel \<longrightarrow>
     (\<forall>rq \<in> set (requirements_of sel). \<exists>c \<in> set (constraints s). c_of c = n \<and>
        c_name c = rq_name rq \<and>
        requirement_form (rq_range rq) (rq_tag rq) (rq_revision rq) (rq_path rq) = Inr (c_form c)))"

lemma expand_adds:
  assumes "expand n sel s = Inr t"
  shows "set (constraints s) \<subseteq> set (constraints t)"
    and "rq \<in> set (requirements_of sel) \<Longrightarrow> \<exists>c \<in> set (constraints t). c_of c = n \<and>
        c_name c = rq_name rq \<and>
        requirement_form (rq_range rq) (rq_tag rq) (rq_revision rq) (rq_path rq) = Inr (c_form c)"
proof -
  define f where "f = (\<lambda>(rq :: requirement) s.
       and_then (requirement_form (rq_range rq) (rq_tag rq) (rq_revision rq) (rq_path rq)) (\<lambda>f.
         Inr (add_constraint \<lparr>c_name = rq_name rq, c_kind = rq_kind rq,
           c_requirer = label n (s_version sel), c_of = n, c_form = f, c_weight = rq_weight rq,
           c_directory = rq_directory rq, c_overlay = None\<rparr> s)))"
  have grow: "set (constraints a) \<subseteq> set (constraints b)" if "fold_res f rs a = Inr b" for rs a b
    by (rule fold_res_invariant [OF that, of "\<lambda>u. set (constraints a) \<subseteq> set (constraints u)"])
      (auto simp: f_def and_then_ok_iff)
  have adds: "\<exists>c \<in> set (constraints b). c_of c = n \<and> c_name c = rq_name rq \<and>
        requirement_form (rq_range rq) (rq_tag rq) (rq_revision rq) (rq_path rq) = Inr (c_form c)"
    if "fold_res f rs a = Inr b" "rq \<in> set rs" for rs a b rq
    using that
  proof (induction rs arbitrary: a)
    case (Cons x xs)
    then obtain u where u: "f x a = Inr u" "fold_res f xs u = Inr b" by (auto simp: and_then_ok_iff)
    show ?case
    proof (cases "rq = x")
      case True
      with u(1) have "\<exists>c \<in> set (constraints u). c_of c = n \<and> c_name c = rq_name rq \<and>
        requirement_form (rq_range rq) (rq_tag rq) (rq_revision rq) (rq_path rq) = Inr (c_form c)"
        by (auto simp: f_def and_then_ok_iff)
      then show ?thesis using grow [OF u(2)] by blast
    next
      case False
      with Cons u show ?thesis by simp
    qed
  qed simp
  from assms have "fold_res f (requirements_of sel) s = Inr t" by (simp add: expand_def f_def)
  then show "set (constraints s) \<subseteq> set (constraints t)"
    "rq \<in> set (requirements_of sel) \<Longrightarrow> \<exists>c \<in> set (constraints t). c_of c = n \<and>
        c_name c = rq_name rq \<and>
        requirement_form (rq_range rq) (rq_tag rq) (rq_revision rq) (rq_path rq) = Inr (c_form c)"
    using grow adds by blast+
qed

lemma closed_others:
  assumes "closed_state s" "map_of (selected s) n = Some sel" "rq \<in> set (requirements_of sel)"
    "\<And>c. c \<in> set (constraints s) \<Longrightarrow> c_of c = n \<Longrightarrow> c \<in> set (constraints t)"
  shows "\<exists>c \<in> set (constraints t). c_of c = n \<and> c_name c = rq_name rq \<and>
    requirement_form (rq_range rq) (rq_tag rq) (rq_revision rq) (rq_path rq) = Inr (c_form c)"
  using assms unfolding closed_state_def by blast

lemma closed_commit:
  assumes t: "commit_selection n sel u = Inr t" and c: "closed_state s"
    and keep: "\<And>c m. c \<in> set (constraints s) \<Longrightarrow> c_of c = m \<Longrightarrow> m \<noteq> n \<Longrightarrow> c \<in> set (constraints u)"
    and selu: "selected u = selected s"
  shows "closed_state t"
  unfolding closed_state_def
proof (intro allI impI ballI)
  fix m x rq assume x: "map_of (selected t) m = Some x" and rq: "rq \<in> set (requirements_of x)"
  note e = t [unfolded commit_selection_def]
  show "\<exists>c \<in> set (constraints t). c_of c = m \<and> c_name c = rq_name rq \<and>
    requirement_form (rq_range rq) (rq_tag rq) (rq_revision rq) (rq_path rq) = Inr (c_form c)"
  proof (cases "m = n")
    case True
    with x have "x = sel" by (simp add: expand_facts(2) [OF e] update_conv')
    with rq True expand_adds(2) [OF e] show ?thesis by simp
  next
    case False
    with x have "map_of (selected s) m = Some x"
      by (simp add: expand_facts(2) [OF e] update_conv' selu)
    then show ?thesis
      using keep False expand_adds(1) [OF e] by (intro closed_others [OF c _ rq]) auto
  qed
qed

lemma closed_step:
  assumes c: "closed_state s0" and a: "attributed s0" and g: "grounded pkgs ovs s0"
    and st: "step pkgs s0 = Inr t"
  shows "closed_state t"
  using st
proof (cases rule: step_cases)
  case (idle n s)
  with c show ?thesis by (simp add: closed_state_def)
next
  case (leave n s current)
  have n: "plain_name n" using g leave(2,4) by (auto simp: grounded_def)
  show ?thesis unfolding closed_state_def
  proof (intro allI impI ballI)
    fix m x rq assume x: "map_of (selected t) m = Some x" and rq: "rq \<in> set (requirements_of x)"
    have "m \<noteq> n" and "map_of (selected s0) m = Some x"
      using x by (auto simp: leave(2,5) delete_conv' split: if_splits)
    then show "\<exists>c \<in> set (constraints t). c_of c = m \<and> c_name c = rq_name rq \<and>
      requirement_form (rq_range rq) (rq_tag rq) (rq_revision rq) (rq_path rq) = Inr (c_form c)"
      using dropped_of [OF a g _ _ n] by (intro closed_others [OF c _ rq]) (auto simp: leave(2,5))
  qed
next
  case (keep n s sel current)
  with c show ?thesis by (simp add: closed_state_def)
next
  case (enter n s sel)
  show ?thesis by (rule closed_commit [OF enter(6) c]) (simp_all add: enter(2))
next
  case (reselect n s sel current)
  have n: "plain_name n" using g reselect(2,5) by (auto simp: grounded_def)
  show ?thesis using dropped_of [OF a g _ _ n]
    by (intro closed_commit [OF reselect(6) c]) (auto simp: reselect(2))
qed

section \<open>The result\<close>

text \<open>What it means for a selection to satisfy a constraint; a path form names no version.\<close>

definition satisfied :: "packages \<Rightarrow> constraint \<Rightarrow> selection \<Rightarrow> bool" where
  "satisfied pkgs c sel = (case c_form c of
     FRange r \<Rightarrow> (case (range_parse r, s_version sel) of
        (Inr sets, Some v) \<Rightarrow> range_satisfies sets v | _ \<Rightarrow> False)
   | FTag t \<Rightarrow> (case map_of pkgs (c_name c) of None \<Rightarrow> False
        | Some p \<Rightarrow> s_commit sel \<noteq> None \<and> map_of (pk_tags p) t = s_commit sel)
   | FRevision k \<Rightarrow> s_commit sel = Some k
   | FPath \<Rightarrow> True)"

text \<open>
  The working tree that decides a name: the overlay of the last path constraint on it.  A name
  selected from a working tree has no commit, and the code compares it with no tag and no revision.
\<close>

definition working_tree :: "constraint list \<Rightarrow> overlay option" where
  "working_tree cs = fold (\<lambda>c tree. if c_form c = FPath then c_overlay c else tree) cs None"

definition is_range :: "constraint \<Rightarrow> bool" where
  "is_range c = (case c_form c of FRange _ \<Rightarrow> True | _ \<Rightarrow> False)"

text \<open>
  How the selection of a name answers a constraint on it.  Without a working tree the constraint is
  satisfied.  With one the selection is that tree, and only a range is sure to be satisfied.
\<close>

definition answers :: "packages \<Rightarrow> rstate \<Rightarrow> constraint \<Rightarrow> selection \<Rightarrow> bool" where
  "answers pkgs s c sel = (case working_tree (constraints_on (c_name c) s) of
     None \<Rightarrow> s_state sel = None \<and> satisfied pkgs c sel
   | Some ov \<Rightarrow> s_commit sel = None \<and> s_state sel \<noteq> None \<and> s_state sel = map_option snd (ov_path ov) \<and>
       (is_range c \<longrightarrow> satisfied pkgs c sel))"

lemma seed_facts:
  assumes "seed inst ovs = Inr s"
  shows "selected s = []" and "\<forall>c \<in> set (constraints s). machine_owned c \<and> c_name c \<in> set (pending s) \<and>
      (c_name c = in_name inst \<and> c_overlay c = None \<or>
       (\<exists>ov \<in> set ovs. c_overlay c = Some ov \<and> c_name c = ov_name ov))"
proof -
  have seeds: "selected t = selected u \<and> (\<forall>c \<in> set (constraints t). c \<in> set (constraints u) \<or>
        machine_owned c \<and> c_name c \<in> set (pending t) \<and>
        (\<exists>ov \<in> set os. c_overlay c = Some ov \<and> c_name c = ov_name ov)) \<and>
      set (pending u) \<subseteq> set (pending t)"
    if "seed_overlays seen os u = Inr t" for seen os u t
    using that
  proof (induction os arbitrary: seen u)
    case (Cons ov os)
    then obtain f where t: "seed_overlays (ov_name ov # seen) os
        (add_constraint (machine_constraint (ov_name ov) f (ov_directory ov) (Some ov)) u) = Inr t"
      by (auto simp: and_then_ok_iff split: if_splits)
    show ?case using Cons.IH [OF t]
      by (auto simp: machine_constraint_def machine_owned_def)
  qed simp
  from assms obtain f where "seed_overlays [in_name inst] ovs
      (add_constraint (machine_constraint (in_name inst) f (in_directory inst) None)
         \<lparr>constraints = [], selected = [], ceiling = [], pending = []\<rparr>) = Inr s"
    by (auto simp: seed_def and_then_ok_iff)
  from seeds [OF this]
  show "selected s = []" and "\<forall>c \<in> set (constraints s). machine_owned c \<and> c_name c \<in> set (pending s) \<and>
      (c_name c = in_name inst \<and> c_overlay c = None \<or>
       (\<exists>ov \<in> set ovs. c_overlay c = Some ov \<and> c_name c = ov_name ov))"
    by (auto simp: machine_constraint_def machine_owned_def)
qed

lemma seed_invariants:
  assumes "seed inst ovs = Inr s"
  shows "settled pkgs s" "attributed s" "closed_state s"
    and "plain_input pkgs inst ovs \<Longrightarrow> grounded pkgs ovs s"
  using seed_facts [OF assms]
  by (auto simp: settled_def settled_at_def constraints_on_def filter_empty_conv attributed_def
      closed_state_def grounded_def plain_input_def list_all_iff)

lemma resolve_state_result:
  assumes "resolve_state pkgs inst ovs = Some (Inr s)"
  obtains s0 where "seed inst ovs = Inr s0" "drain pkgs s0 = Some (Inr s)"
    "\<forall>c \<in> set (constraints s). check_constraint s c = Inr ()"
  using assms by (auto simp: resolve_state_def and_then_ok_iff for_each_ok_iff split: sum.splits)

lemma resolve_settled:
  assumes "resolve_state pkgs inst ovs = Some (Inr s)"
  shows "settled_at pkgs s n" and "attributed s"
proof -
  obtain s0 where s0: "seed inst ovs = Inr s0" "drain pkgs s0 = Some (Inr s)"
    using resolve_state_result [OF assms] by blast
  have "(settled pkgs s \<and> attributed s) \<and> pending s = []"
    by (rule drain_invariant [OF s0(2), where P = "\<lambda>s. settled pkgs s \<and> attributed s"])
      (use seed_invariants [OF s0(1)] settled_step attributed_step in blast)+
  then show "settled_at pkgs s n" "attributed s" by (simp_all add: settled_def)
qed

lemma classify_tree:
  "classify pkgs n cs (d0, e0, r0) = Inr (d, e, r) \<Longrightarrow>
    d = fold (\<lambda>c tree. if c_form c = FPath then c_overlay c else tree) cs d0"
  by (induction cs arbitrary: d0 e0 r0) (auto split: form.splits sum.splits option.splits)

text \<open>A working tree is selected as it is; otherwise an exact constraint fixes the commit.\<close>

lemma select_forms:
  assumes sel: "select pkgs n cs ceil = Inr sel"
  shows "case working_tree cs of
      None \<Rightarrow> s_state sel = None \<and> (\<forall>c \<in> set cs. case c_form c of FRevision k \<Rightarrow> s_commit sel = Some k
        | FTag t \<Rightarrow> \<exists>p k. map_of pkgs n = Some p \<and> map_of (pk_tags p) t = Some k \<and> s_commit sel = Some k
        | _ \<Rightarrow> True)
    | Some ov \<Rightarrow> s_commit sel = None \<and> s_state sel \<noteq> None \<and> s_state sel = map_option snd (ov_path ov)"
proof -
  from sel obtain decl exact ranges sel0 where
    cl: "classify pkgs n cs (None, [], []) = Inr (decl, exact, ranges)"
    and sel0: "(case decl of Some d \<Rightarrow> select_path (c_kind (hd cs)) d
        | None \<Rightarrow> if exact \<noteq> [] then select_exact pkgs n (c_kind (hd cs)) cs exact ranges
            else select_tag pkgs n (c_kind (hd cs)) cs ceil ranges) = Inr sel0"
    and eq: "sel = attach_overlay cs sel0"
    by (auto simp: select_def and_then_ok_iff)
  have tree: "working_tree cs = decl" using classify_tree [OF cl] by (simp add: working_tree_def)
  show ?thesis
  proof (cases decl)
    case (Some ov)
    then show ?thesis using sel0 tree eq by (auto simp: select_path_def split: option.splits)
  next
    case None
    have state: "s_state sel0 = None"
      using sel0 None by (auto simp: select_exact_def select_tag_def and_then_ok_iff Let_def
          split: if_splits option.splits prod.splits)
    have commit: "s_commit sel = Some k" if k: "k \<in> set exact" for k
    proof -
      have "exact \<noteq> []" using k by auto
      with sel0 None have ok: "select_exact pkgs n (c_kind (hd cs)) cs exact ranges = Inr sel0" by simp
      then have same: "\<forall>x \<in> set (tl exact). x = hd exact"
        by (auto simp: select_exact_def list_ex_iff split: if_splits)
      have "s_commit sel0 = Some (hd exact)" using ok
        by (auto simp: select_exact_def and_then_ok_iff Let_def split: if_splits option.splits)
      moreover have "k = hd exact" using k same by (cases exact) auto
      ultimately show ?thesis by (simp add: eq)
    qed
    have "case c_form c of FRevision k \<Rightarrow> s_commit sel = Some k
        | FTag t \<Rightarrow> \<exists>p k. map_of pkgs n = Some p \<and> map_of (pk_tags p) t = Some k \<and> s_commit sel = Some k
        | _ \<Rightarrow> True" if "c \<in> set cs" for c
      using classify_exact [OF cl that] commit by (auto split: form.splits)
    then show ?thesis using None tree state eq by simp
  qed
qed

lemma resolve_answers:
  assumes "resolve_state pkgs inst ovs = Some (Inr s)" and "c \<in> set (constraints s)"
  shows "\<exists>sel. map_of (selected s) (c_name c) = Some sel \<and> answers pkgs s c sel"
proof -
  have check: "check_constraint s c = Inr ()"
    using resolve_state_result [OF assms(1)] assms(2) by blast
  then obtain cur where cur: "map_of (selected s) (c_name c) = Some cur"
    by (auto simp: check_constraint_def split: option.splits)
  have cs: "c \<in> set (constraints_on (c_name c) s)" using assms(2) by (simp add: constraints_on_def)
  obtain ceil sel where sel: "select pkgs (c_name c) (constraints_on (c_name c) s) ceil = Inr sel"
    "s_commit cur = s_commit sel" "s_state cur = s_state sel"
    using resolve_settled(1) [OF assms(1), of "c_name c"] cur by (auto simp: settled_at_def)
  have range: "is_range c \<Longrightarrow> satisfied pkgs c cur"
    using check cur by (auto simp: is_range_def satisfied_def check_constraint_def and_then_ok_iff
        split: form.splits option.splits)
  have "answers pkgs s c cur"
  proof (cases "working_tree (constraints_on (c_name c) s)")
    case (Some ov)
    then show ?thesis using select_forms [OF sel(1)] sel(2,3) range by (cases "ov_path ov") (auto simp: answers_def)
  next
    case None
    then show ?thesis using select_forms [OF sel(1)] sel(2,3) range cs
      by (cases "c_form c") (fastforce simp: answers_def satisfied_def is_range_def)+
  qed
  with cur show ?thesis by blast
qed

text \<open>
  C4: a resolution that returns answers every constraint it ends with.  Each constrained name is
  selected, at a version inside every range on it.  Where no working tree decides the name, the
  selection has the commit that every tag and revision on it names.  Where the last path constraint on the
  name is an overlay's, the selection is that overlay's working tree, which has no commit: tags and
  revisions on that name are not compared with it.
\<close>

theorem resolve_sound:
  assumes "resolve_state pkgs inst ovs = Some (Inr s)" and "c \<in> set (constraints s)"
  shows "\<exists>sel. map_of (selected s) (c_name c) = Some sel \<and> answers pkgs s c sel"
  using assms by (rule resolve_answers)

section \<open>An input that never resolves\<close>

text \<open>
  \<open>x\<close> 1.0.0 requires \<open>y\<close>, which requires the tag \<open>foo\<close> of \<open>x\<close>; that commit
  is version 2.0.0 and does not require \<open>y\<close>.  Selecting it removes \<open>y\<close>, which removes
  the tag constraint, which brings \<open>x\<close> back to 1.0.0.
\<close>

definition mf :: "string \<Rightarrow> requirement list \<Rightarrow> manifest" where
  "mf v rs = \<lparr>mf_version = Some v, mf_requires = Some rs, mf_weight = None, mf_weights = None, mf_more = True\<rparr>"

definition need_range :: "string \<Rightarrow> string \<Rightarrow> requirement" where
  "need_range n r = \<lparr>rq_name = n, rq_kind = ''context'', rq_range = Some r, rq_tag = None,
     rq_revision = None, rq_path = False, rq_weight = None, rq_directory = None\<rparr>"

definition need_tag :: "string \<Rightarrow> string \<Rightarrow> requirement" where
  "need_tag n t = \<lparr>rq_name = n, rq_kind = ''context'', rq_range = None, rq_tag = Some t,
     rq_revision = None, rq_path = False, rq_weight = None, rq_directory = None\<rparr>"

definition install_range :: "string \<Rightarrow> string \<Rightarrow> install" where
  "install_range n r = \<lparr>in_name = n, in_range = Some r, in_tag = None, in_revision = None,
     in_path = False, in_directory = None\<rparr>"

definition swing :: packages where
  "swing =
     [(''x'', \<lparr>pk_tags = [(''v1.0.0'', ''c1''), (''foo'', ''c2'')],
        pk_commits = [(''c1'', mf ''1.0.0'' [need_range ''y'' ''*'']), (''c2'', mf ''2.0.0'' [])],
        pk_source = ''sx''\<rparr>),
      (''y'', \<lparr>pk_tags = [(''v1.0.0'', ''d1'')],
        pk_commits = [(''d1'', mf ''1.0.0'' [need_tag ''x'' ''foo''])], pk_source = ''sy''\<rparr>)]"

definition steps :: "packages \<Rightarrow> nat \<Rightarrow> rstate res \<Rightarrow> rstate res" where
  "steps pkgs n = step_res pkgs ^^ n"

lemma swing_period: "steps swing 6 (seed (install_range ''x'' ''*'') []) = steps swing 2 (seed (install_range ''x'' ''*'') [])"
  by code_simp

lemma swing_first: "list_all (\<lambda>k. running (steps swing k (seed (install_range ''x'' ''*'') []))) [0..<6]"
  by code_simp

lemma swing_runs: "running (steps swing k (seed (install_range ''x'' ''*'') []))"
proof (induction k rule: less_induct)
  case (less k)
  show ?case
  proof (cases "k < 6")
    case True
    then show ?thesis using swing_first by (simp add: list_all_iff)
  next
    case False
    then have k: "k = (k - 6) + 6" "k - 4 = (k - 6) + 2" by simp_all
    have "steps swing k (seed (install_range ''x'' ''*'') []) =
        steps swing (k - 4) (seed (install_range ''x'' ''*'') [])"
      by (subst k(1), subst k(2)) (metis swing_period steps_def funpow_add comp_apply)
    then show ?thesis using less [of "k - 4"] False by simp
  qed
qed

text \<open>
  C7: resolution need not end.  On the input above the selection of \<open>x\<close> alternates between
  1.0.0 and 2.0.0 for ever, so \<open>resolve_closure\<close> does not return.
\<close>

theorem resolve_cycle_diverges: "resolve_state swing (install_range ''x'' ''*'') [] = None"
proof -
  obtain s0 where s0: "seed (install_range ''x'' ''*'') [] = Inr s0"
    using swing_runs [of 0] by (cases "seed (install_range ''x'' ''*'') []") (auto simp: steps_def running_def)
  have "running ((step_res swing ^^ k) (Inr s0))" for k
    using swing_runs [of k] by (simp add: steps_def s0)
  then have "drain swing s0 = None" by (simp add: drain_def while_option_def)
  then show ?thesis by (simp add: resolve_state_def s0)
qed

text \<open>
  C6: resolution ends, with a result or a failure, whenever the requirement graph of the input has
  no cycle and its names are plain.
\<close>

theorem resolve_acyclic_terminates:
  assumes "plain_input pkgs inst ovs" and "acyclic_by rank pkgs ovs"
  shows "resolve_state pkgs inst ovs \<noteq> None"
proof (cases "seed inst ovs")
  case (Inr s0)
  have "drain pkgs s0 \<noteq> None"
    using drain_terminates [OF assms] seed_invariants [OF Inr] assms(1) by blast
  then show ?thesis by (auto simp: resolve_state_def Inr)
qed (simp add: resolve_state_def)

text \<open>A closure of three packages: the root's range on \<open>z\<close> is narrowed by \<open>y\<close>.\<close>

definition narrowing :: packages where
  "narrowing =
     [(''x'', \<lparr>pk_tags = [(''v1.0.0'', ''c1'')],
        pk_commits = [(''c1'', mf ''1.0.0'' [need_range ''y'' ''^1'', need_range ''z'' ''*''])], pk_source = ''sx''\<rparr>),
      (''y'', \<lparr>pk_tags = [(''v1.0.0'', ''d1'')],
        pk_commits = [(''d1'', mf ''1.0.0'' [need_range ''z'' ''<2.0.0''])], pk_source = ''sy''\<rparr>),
      (''z'', \<lparr>pk_tags = [(''v1.5.0'', ''e1''), (''v2.0.0'', ''e2'')],
        pk_commits = [(''e1'', mf ''1.5.0'' []), (''e2'', mf ''2.0.0'' [])], pk_source = ''sz''\<rparr>)]"

definition narrowing_rank :: "string \<Rightarrow> nat" where
  "narrowing_rank n = (if n = ''x'' then 2 else if n = ''y'' then 1 else 0)"

definition narrowed :: rstate where
  "narrowed = (case resolve_state narrowing (install_range ''x'' ''^1'') [] of Some (Inr s) \<Rightarrow> s
     | _ \<Rightarrow> \<lparr>constraints = [], selected = [], ceiling = [], pending = []\<rparr>)"

lemma narrowing_plain: "plain_input narrowing (install_range ''x'' ''^1'') []"
  by code_simp

lemma narrowing_acyclic: "acyclic_by narrowing_rank narrowing []"
  by code_simp

lemma narrowing_resolves: "resolve_state narrowing (install_range ''x'' ''^1'') [] = Some (Inr narrowed)"
  by code_simp

theorem resolve_acyclic_terminates_witness:
  "resolve_state narrowing (install_range ''x'' ''^1'') [] \<noteq> None"
  by (rule resolve_acyclic_terminates [OF narrowing_plain narrowing_acyclic])

theorem resolve_sound_witness:
  "\<exists>c sel. c \<in> set (constraints narrowed) \<and> c_form c = FRange ''<2.0.0'' \<and>
     map_of (selected narrowed) ''z'' = Some sel \<and> answers narrowing narrowed c sel"
proof -
  have "list_ex (\<lambda>c. c_form c = FRange ''<2.0.0'' \<and> c_name c = ''z'') (constraints narrowed)" by code_simp
  then obtain c where "c \<in> set (constraints narrowed)" "c_form c = FRange ''<2.0.0''" "c_name c = ''z''"
    by (auto simp: list_ex_iff)
  then show ?thesis using resolve_sound [OF narrowing_resolves] by metis
qed

text \<open>
  The working tree of an overlay stands in for a tag.  \<open>x\<close> requires the tag \<open>v1.0.0\<close> of
  \<open>y\<close>, an overlay declares \<open>y\<close> by path at 2.0.0, and resolution returns the tree with
  the tag constraint still in the final set and not satisfied.
\<close>

definition tagged :: packages where
  "tagged =
     [(''x'', \<lparr>pk_tags = [(''v1.0.0'', ''c1'')],
        pk_commits = [(''c1'', mf ''1.0.0'' [need_tag ''y'' ''v1.0.0''])], pk_source = ''sx''\<rparr>),
      (''y'', \<lparr>pk_tags = [(''v1.0.0'', ''d1'')],
        pk_commits = [(''d1'', mf ''1.0.0'' [])], pk_source = ''sy''\<rparr>)]"

definition path_overlay :: overlay where
  "path_overlay = \<lparr>ov_name = ''y'', ov_range = None, ov_tag = None, ov_revision = None,
     ov_path = Some (mf ''2.0.0'' [], ''state''), ov_directory = None, ov_weight = None\<rparr>"

definition displaced :: rstate where
  "displaced = (case resolve_state tagged (install_range ''x'' ''*'') [path_overlay] of Some (Inr s) \<Rightarrow> s
     | _ \<Rightarrow> \<lparr>constraints = [], selected = [], ceiling = [], pending = []\<rparr>)"

lemma displaced_resolves: "resolve_state tagged (install_range ''x'' ''*'') [path_overlay] = Some (Inr displaced)"
  by code_simp

theorem overlay_displaces_tag:
  "resolve_state tagged (install_range ''x'' ''*'') [path_overlay] = Some (Inr displaced) \<and>
   list_ex (\<lambda>c. c_name c = ''y'' \<and> c_form c = FTag ''v1.0.0'' \<and>
     \<not> satisfied tagged c (the (map_of (selected displaced) ''y''))) (constraints displaced)"
proof (rule conjI [OF displaced_resolves])
  show "list_ex (\<lambda>c. c_name c = ''y'' \<and> c_form c = FTag ''v1.0.0'' \<and>
     \<not> satisfied tagged c (the (map_of (selected displaced) ''y''))) (constraints displaced)" by code_simp
qed

text \<open>
  Nothing is selected without a reason, and no constraint outlives the selection it came from:
  every selected name carries a constraint that is the machine's or stands in the manifest of a
  package selected at the very version it is attributed to.
\<close>

theorem resolve_justified:
  assumes "resolve_state pkgs inst ovs = Some (Inr s)" and "map_of (selected s) n = Some sel"
  shows "(\<exists>c \<in> set (constraints s). c_name c = n) \<and>
    (\<forall>c \<in> set (constraints s). machine_owned c \<or> owned_by s c)"
  using resolve_settled(1) [OF assms(1), of n] resolve_settled(2) [OF assms(1)] assms(2)
  by (auto simp: settled_at_def attributed_def constraints_on_def filter_empty_conv)

theorem resolve_justified_witness:
  "\<exists>c \<in> set (constraints narrowed). c_name c = ''y'' \<and> owned_by narrowed c"
proof -
  have "map_of (selected narrowed) ''y'' = Some (the (map_of (selected narrowed) ''y''))" by code_simp
  from resolve_justified [OF narrowing_resolves this]
  obtain c where c: "c \<in> set (constraints narrowed)" "c_name c = ''y''"
    "machine_owned c \<or> owned_by narrowed c" by blast
  have "list_all (\<lambda>c. c_name c = ''y'' \<longrightarrow> c_requirer c \<noteq> ''machine'') (constraints narrowed)" by code_simp
  with c show ?thesis by (auto simp: list_all_iff machine_owned_def)
qed

text \<open>
  C5: on an input of plain names (none has an at sign and none is \<open>machine\<close>), a resolution that
  returns is closed: every requirement in the manifest of a selected package stands in the final
  constraint set and names a selected package whose selection answers it.  So the range, tag or
  revision of the requirement is satisfied, unless an overlay's working tree was selected for the
  name, where only a range is.
\<close>

theorem resolve_closed:
  assumes "plain_input pkgs inst ovs" and "resolve_state pkgs inst ovs = Some (Inr s)"
    and "map_of (selected s) n = Some sel" and "rq \<in> set (requirements_of sel)"
  shows "\<exists>c \<in> set (constraints s). \<exists>sel'.
    requirement_form (rq_range rq) (rq_tag rq) (rq_revision rq) (rq_path rq) = Inr (c_form c) \<and>
    c_name c = rq_name rq \<and> map_of (selected s) (rq_name rq) = Some sel' \<and> answers pkgs s c sel'"
proof -
  from assms(2) obtain s0 where s0: "seed inst ovs = Inr s0" "drain pkgs s0 = Some (Inr s)"
    using resolve_state_result by blast
  let ?P = "\<lambda>s. (closed_state s \<and> attributed s) \<and> grounded pkgs ovs s"
  have "?P s \<and> pending s = []"
  proof (rule drain_invariant [OF s0(2)])
    show "?P s0" using seed_invariants [OF s0(1)] assms(1) by blast
    show "?P b" if "?P a" "step pkgs a = Inr b" for a b
      using that closed_step attributed_step grounded_step [OF assms(1)] by blast
  qed
  then obtain c where c: "c \<in> set (constraints s)" "c_name c = rq_name rq"
    "requirement_form (rq_range rq) (rq_tag rq) (rq_revision rq) (rq_path rq) = Inr (c_form c)"
    using assms(3,4) unfolding closed_state_def by blast
  then show ?thesis using resolve_answers [OF assms(2) c(1)] by auto
qed

theorem resolve_closed_witness:
  "\<exists>sel' c. map_of (selected narrowed) ''z'' = Some sel' \<and> c_form c = FRange ''<2.0.0'' \<and>
     answers narrowing narrowed c sel'"
proof -
  have sel: "map_of (selected narrowed) ''y'' = Some (the (map_of (selected narrowed) ''y''))" by code_simp
  have rq: "need_range ''z'' ''<2.0.0'' \<in> set (requirements_of (the (map_of (selected narrowed) ''y'')))"
    by code_simp
  show ?thesis
    using resolve_closed [OF narrowing_plain narrowing_resolves sel rq]
    by (auto simp: need_range_def requirement_form_def)
qed

section \<open>The lock\<close>

lemma root_edges_kept:
  "root_edges root table cs acc = Inr acc' \<Longrightarrow> n \<in> set (map fst table) \<Longrightarrow>
    map_of acc' n = map_of acc n"
  by (induction cs arbitrary: acc) (auto simp: update_conv' image_iff split: option.splits if_splits)

lemma root_edges_unweighted:
  "root_edges root table cs acc = Inr acc' \<Longrightarrow> (\<And>c. c \<in> set cs \<Longrightarrow> c_name c = n \<Longrightarrow> c_weight c = None) \<Longrightarrow>
    map_of acc' n = map_of acc n"
proof (induction cs arbitrary: acc)
  case (Cons c cs)
  have IH: "root_edges root table cs a = Inr acc' \<Longrightarrow> map_of acc' n = map_of a n" for a
    using Cons.IH Cons.prems(2) by (meson list.set_intros(2))
  show ?case
    using Cons.prems(1) Cons.prems(2) [of c]
    by (auto simp: update_conv' IH split: option.splits if_splits dest: IH)
qed simp

lemma weight_edges_none:
  "(\<And>c. c \<in> set cs \<Longrightarrow> c_name c = n \<Longrightarrow> c_weight c = None) \<Longrightarrow> weight_edges root cs n = []"
  unfolding weight_edges_def by (induction cs) (auto simp: List.map_filter_simps split: option.split)

lemma map_res_member:
  "map_res f xs = Inr ys \<Longrightarrow> y \<in> set ys \<Longrightarrow> \<exists>x \<in> set xs. f x = Inr y"
  by (induction xs arbitrary: ys) (auto simp: and_then_ok_iff)

lemma map_res_image: "map_res f xs = Inr ys \<Longrightarrow> (\<And>x y. f x = Inr y \<Longrightarrow> g y = x) \<Longrightarrow> map g ys = xs"
  by (induction xs arbitrary: ys) (auto simp: and_then_ok_iff)

lemma lock_rows:
  assumes "lock_of root dflt s = Inr (members, warns)"
  obtains root_sel root_map rows where "map_of (selected s) root = Some root_sel"
    "root_edges root (selection_weights root_sel) (constraints s) (selection_weights root_sel) = Inr root_map"
    "map_res (\<lambda>n. and_then
        (name_weight root (constraints s) root_map dflt n (the (map_of (selected s) n)))
        (\<lambda>(w, warns). Inr (make_member (constraints s) n (the (map_of (selected s) n)) w, warns)))
        (sort (map fst (selected s))) = Inr rows"
    "members = sort_key (\<lambda>m. (m_kind m, m_name m)) (map fst rows)"
  using assms by (auto simp: lock_of_def Let_def and_then_ok_iff split: option.splits if_splits)

lemma lock_order:
  assumes "lock_of root dflt s = Inr (members, warns)"
  shows "sorted (map (\<lambda>m. (m_kind m, m_name m)) members)" and "mset (map m_name members) = mset (map fst (selected s))"
proof -
  from assms obtain root_map rows where
    rows: "map_res (\<lambda>n. and_then
        (name_weight root (constraints s) root_map dflt n (the (map_of (selected s) n)))
        (\<lambda>(w, warns). Inr (make_member (constraints s) n (the (map_of (selected s) n)) w, warns)))
        (sort (map fst (selected s))) = Inr rows"
    and members: "members = sort_key (\<lambda>m. (m_kind m, m_name m)) (map fst rows)"
    by (rule lock_rows)
  have "map (m_name \<circ> fst) rows = sort (map fst (selected s))"
    by (rule map_res_image [OF rows]) (auto simp: and_then_ok_iff make_member_def)
  then have "mset (map m_name (map fst rows)) = mset (map fst (selected s))"
    by (metis map_map mset_sort)
  then show "sorted (map (\<lambda>m. (m_kind m, m_name m)) members)" "mset (map m_name members) = mset (map fst (selected s))"
    by (simp_all add: members multiset.map_comp)
qed

lemma lock_row:
  assumes "lock_of root dflt s = Inr (members, warns)" and "m \<in> set members"
  obtains root_sel root_map sel w warned where "map_of (selected s) root = Some root_sel"
    "root_edges root (selection_weights root_sel) (constraints s) (selection_weights root_sel) = Inr root_map"
    "map_of (selected s) (m_name m) = Some sel" "name_weight root (constraints s) root_map dflt (m_name m) sel = Inr (w, warned)"
    "m = make_member (constraints s) (m_name m) sel w"
proof -
  from assms(1) obtain root_sel root_map rows where root: "map_of (selected s) root = Some root_sel"
    "root_edges root (selection_weights root_sel) (constraints s) (selection_weights root_sel) = Inr root_map"
    and rows: "map_res (\<lambda>n. and_then
        (name_weight root (constraints s) root_map dflt n (the (map_of (selected s) n)))
        (\<lambda>(w, warns). Inr (make_member (constraints s) n (the (map_of (selected s) n)) w, warns)))
        (sort (map fst (selected s))) = Inr rows"
    and members: "members = sort_key (\<lambda>m. (m_kind m, m_name m)) (map fst rows)"
    by (rule lock_rows)
  from assms(2) obtain warned where "(m, warned) \<in> set rows" unfolding members by auto
  then obtain n w where n: "n \<in> fst ` set (selected s)"
    and w: "name_weight root (constraints s) root_map dflt n (the (map_of (selected s) n)) = Inr (w, warned)"
    and m: "m = make_member (constraints s) n (the (map_of (selected s) n)) w"
    using map_res_member [OF rows, of "(m, warned)"] by (fastforce simp: and_then_ok_iff)
  from n obtain sel where sel: "map_of (selected s) n = Some sel" by (metis map_of_eq_None_iff not_None_eq)
  have name: "m_name m = n" using m by (simp add: make_member_def)
  have "map_of (selected s) (m_name m) = Some sel" "name_weight root (constraints s) root_map dflt (m_name m) sel = Inr (w, warned)"
    "m = make_member (constraints s) (m_name m) sel w"
    unfolding name using sel w m by simp_all
  then show thesis by (rule that [OF root])
qed

lemma lock_made:
  assumes "lock_of root dflt s = Inr (members, warns)" and "m \<in> set members"
  obtains sel w where "map_of (selected s) (m_name m) = Some sel" "m = make_member (constraints s) (m_name m) sel w"
  using lock_row [OF assms] that by metis

text \<open>The weight of a context when no overlay decides.\<close>

lemma root_map_weight:
  assumes "root_edges root table cs table = Inr root_map" and "edge_weight root cs root_map n sel = Inr (w0, warned)"
  shows "(case map_of root_map n of None \<Rightarrow> w0 | Some r \<Rightarrow> r) =
    (case map_of table n of
       Some w \<Rightarrow> w
     | None \<Rightarrow> if \<forall>c \<in> set cs. c_name c = n \<longrightarrow> c_weight c = None then own_weight sel
         else (case map_of root_map n of None \<Rightarrow> w0 | Some r \<Rightarrow> r))"
proof -
  have table: "map_of root_map n = Some x" if "map_of table n = Some x" for x
    using root_edges_kept [OF assms(1), of n] that by (force dest: map_of_SomeD)
  have bare: "map_of root_map n = None" "w0 = own_weight sel"
    if "\<forall>c \<in> set cs. c_name c = n \<longrightarrow> c_weight c = None" "map_of table n = None"
    using that root_edges_unweighted [OF assms(1), of n] weight_edges_none [of cs n] assms(2) by (simp_all add: edge_weight_def)
  show ?thesis using table bare by (auto split: option.split)
qed

text \<open>
  The weight of a lock member follows the fixed precedence: zero outside contexts; for a
  context its overlay's weight (or the default), else the weight the root's own table gives it, else,
  when no requirement carries a weight for it, the weight of its own manifest.
\<close>

theorem lock_weight_precedence:
  assumes "lock_of root dflt s = Inr (members, warns)" and "m \<in> set members"
  shows "\<exists>sel. map_of (selected s) (m_name m) = Some sel \<and> m_kind m = s_kind sel \<and>
    m_weight m =
      (if s_kind sel \<noteq> ''context'' then 0
       else case s_overlay sel of
         Some ov \<Rightarrow> (case ov_weight ov of None \<Rightarrow> dflt | Some w \<Rightarrow> w)
       | None \<Rightarrow> (case map_of (selection_weights (the (map_of (selected s) root))) (m_name m) of
           Some w \<Rightarrow> w
         | None \<Rightarrow>
             if \<forall>c \<in> set (constraints s). c_name c = m_name m \<longrightarrow> c_weight c = None
             then own_weight sel else m_weight m))"
proof -
  from assms obtain root_sel root_map sel w warned where root: "map_of (selected s) root = Some root_sel"
    and edges: "root_edges root (selection_weights root_sel) (constraints s) (selection_weights root_sel) = Inr root_map"
    and sel: "map_of (selected s) (m_name m) = Some sel"
    and w: "name_weight root (constraints s) root_map dflt (m_name m) sel = Inr (w, warned)"
    and m: "m = make_member (constraints s) (m_name m) sel w"
    by (rule lock_row)
  have fields: "m_kind m = s_kind sel" "m_weight m = w"
    using arg_cong [OF m, of m_kind] arg_cong [OF m, of m_weight] by (simp_all add: make_member_def)
  show ?thesis
  proof (cases "s_kind sel = ''context''")
    case True
    then obtain w0 where w0: "w = (case s_overlay sel of
          None \<Rightarrow> (case map_of root_map (m_name m) of None \<Rightarrow> w0 | Some r \<Rightarrow> r)
        | Some ov \<Rightarrow> (case ov_weight ov of None \<Rightarrow> dflt | Some x \<Rightarrow> x))"
      "edge_weight root (constraints s) root_map (m_name m) sel = Inr (w0, warned)"
      using w by (auto simp: name_weight_def Let_def and_then_ok_iff)
    show ?thesis
      using root_map_weight [OF edges w0(2)] w0(1) True
      by (intro exI [of _ sel]) (auto simp: sel root fields split: option.splits if_splits)
  next
    case False
    with w show ?thesis by (intro exI [of _ sel]) (simp add: name_weight_def sel fields)
  qed
qed

text \<open>
  The lock lists exactly the selected names, in ascending order of kind and name.
\<close>

theorem lock_members_sorted:
  assumes "lock_of root dflt s = Inr (members, warns)"
  shows "sorted (map (\<lambda>m. (m_kind m, m_name m)) members) \<and>
    mset (map m_name members) = mset (map fst (selected s))"
  using lock_order [OF assms] by simp

definition narrowed_lock :: "member list" where
  "narrowed_lock = (case lock_of ''x'' 1000 narrowed of Inr (ms, _) \<Rightarrow> ms | Inl _ \<Rightarrow> [])"

lemma narrowed_locks: "lock_of ''x'' 1000 narrowed = Inr (narrowed_lock, [])"
  by code_simp

theorem lock_members_sorted_witness: "mset (map m_name narrowed_lock) = mset [''x'', ''y'', ''z'']"
proof -
  have "map fst (selected narrowed) = [''x'', ''y'', ''z'']" by code_simp
  then show ?thesis using lock_members_sorted [OF narrowed_locks] by simp
qed

theorem lock_weight_precedence_witness:
  "\<exists>sel. map_of (selected narrowed) (m_name (hd narrowed_lock)) = Some sel \<and>
     m_kind (hd narrowed_lock) = s_kind sel"
proof -
  have "narrowed_lock \<noteq> []" by code_simp
  then have "hd narrowed_lock \<in> set narrowed_lock" by simp
  then show ?thesis using lock_weight_precedence [OF narrowed_locks] by blast
qed

end
