(* ===== verification/Cases.thy ===== *)
theory Cases
  imports PyText
begin

text \<open>
  The checks every vector gate of \<open>tools/validate.py\<close> starts with: a case list whose cases
  carry unique non-empty names, none of the required ones missing.  A sequence of \<open>if\<close> tests
  that raise is a list of conditions with their failures (\<open>require\<close>).
\<close>

fun require :: "(bool \<times> 'e) list \<Rightarrow> 'e + unit" where
  "require [] = Inr ()"
| "require ((b, e) # checks) = (if b then require checks else Inl e)"

lemma require_ok_iff [simp, res_simps]: "require cs = Inr u \<longleftrightarrow> list_all fst cs"
  by (induction cs rule: require.induct) auto

declare require.simps [simp del]

abbreviation fail :: "string \<Rightarrow> failure" where "fail \<equiv> ValidationFailure"

text \<open>Optional texts as the values \<open>None\<close> and \<open>str\<close>.\<close>

definition jopt :: "string option \<Rightarrow> json" where
  "jopt s = (case s of None \<Rightarrow> JNull | Some t \<Rightarrow> JStr t)"

lemma jopt_simps [simp]: "jopt None = JNull" "jopt (Some t) = JStr t"
  by (simp_all add: jopt_def)

lemma py_eq_jopt [simp]: "py_eq v (jopt s) = (v = jopt s)"
  by (cases s) simp_all

lemma jopt_inject [simp]: "jopt s = jopt t \<longleftrightarrow> s = t"
  by (cases s; cases t) simp_all

lemma py_eq_bool_iff: "py_eq v (JBool b) \<longleftrightarrow> v = JBool b \<or> v = JInt (if b then 1 else 0)"
  by (cases v) auto

text \<open>
  \<open>isinstance(v, int) and not isinstance(v, bool) and v >= 0\<close>.
\<close>

definition natural :: "json \<Rightarrow> bool" where
  "natural v = (case v of JInt i \<Rightarrow> 0 \<le> i | _ \<Rightarrow> False)"

lemma natural_iff: "natural v \<longleftrightarrow> (\<exists>i \<ge> 0. v = JInt i)"
  by (cases v) (auto simp: natural_def)

text \<open>Membership in a \<open>frozenset\<close> of texts; lists and dictionaries cannot be hashed.\<close>

definition in_frozenset :: "json \<Rightarrow> string list \<Rightarrow> bool res" where
  "in_frozenset v ss = (if is_list v \<or> is_dict v then Inl TypeError else Inr (str_in v ss))"

lemma in_frozenset_JStr [simp]: "in_frozenset (JStr s) ss = Inr (s \<in> set ss)"
  by (simp add: in_frozenset_def)

text \<open>\<open>d.get(k, {})\<close> used as a dictionary.\<close>

definition dict_member :: "dict \<Rightarrow> string \<Rightarrow> dict res" where
  "dict_member d k = (case jget_or (JObj []) d k of JObj e \<Rightarrow> Inr e | _ \<Rightarrow> Inl AttributeError)"

lemma dict_member_get: "dict_member d k = Inr e \<Longrightarrow> the_dict (jget d k) = e"
  by (auto simp: dict_member_def jget_def jget_or_def split: option.splits json.splits)

section \<open>Named cases\<close>

definition case_names :: "json list \<Rightarrow> json list" where
  "case_names vs = List.map_filter (\<lambda>v. case v of JObj d \<Rightarrow> Some (jget d ''name'') | _ \<Rightarrow> None) vs"

definition require_named_cases :: "json \<Rightarrow> string \<Rightarrow> string list \<Rightarrow> unit res" where
  "require_named_cases values label required =
     (case values of
        JArr vs \<Rightarrow>
          (let names = case_names vs in
           require
             [(length names = length vs \<and> list_all (\<lambda>n. is_str n \<and> the_str n \<noteq> []) names,
               fail (label @ '' cases require non-empty names'')),
              (distinct names, fail (label @ '' case names must be unique'')),
              (set required \<subseteq> set (map the_str names), fail (label @ '' is missing cases: ''))])
      | _ \<Rightarrow> Inl (fail (label @ '' must be an array'')))"

definition named_cases :: "json \<Rightarrow> string \<Rightarrow> (string \<times> dict) list res" where
  "named_cases values label =
     and_then (require_named_cases values label []) (\<lambda>_.
       Inr (map (\<lambda>v. (the_str (jget (the_dict v) ''name''), the_dict v)) (the_list values)))"

text \<open>What the gates use of it.\<close>

lemma case_names_all:
  "length (case_names vs) = length vs \<longleftrightarrow> list_all is_dict vs"
proof (induction vs)
  case (Cons v vs)
  have "length (case_names vs) \<le> length vs"
    unfolding case_names_def by (induction vs) (auto simp: List.map_filter_simps split: option.split)
  with Cons show ?case
    by (cases v) (auto simp: case_names_def List.map_filter_simps)
qed (simp add: case_names_def List.map_filter_simps)

lemma case_names_map: "list_all is_dict vs \<Longrightarrow> case_names vs = map (\<lambda>v. jget (the_dict v) ''name'') vs"
proof (induction vs)
  case (Cons v vs)
  then show ?case by (cases v) (auto simp: case_names_def List.map_filter_simps)
qed (simp add: case_names_def List.map_filter_simps)

text \<open>The dictionaries of a case list.\<close>

abbreviation cases_of :: "json \<Rightarrow> dict list" where
  "cases_of v \<equiv> map the_dict (the_list v)"

lemma require_named_cases_ok:
  "require_named_cases v label required = Inr u \<longleftrightarrow>
     is_list v \<and> list_all is_dict (the_list v) \<and>
     (\<forall>c \<in> set (cases_of v). \<exists>n. n \<noteq> [] \<and> jget c ''name'' = JStr n) \<and>
     distinct (map (\<lambda>c. jget c ''name'') (cases_of v)) \<and>
     (\<forall>n \<in> set required. \<exists>c \<in> set (cases_of v). jget c ''name'' = JStr n)"
proof (cases v)
  case (JArr vs)
  have strs: "(is_str j \<and> the_str j \<noteq> []) = (\<exists>n. n \<noteq> [] \<and> j = JStr n)" for j
    by (cases j) auto
  show ?thesis
  proof (cases "list_all is_dict vs")
    case True
    have req: "(set required \<subseteq> set (map the_str (case_names vs))) =
        (\<forall>n \<in> set required. \<exists>c \<in> set (cases_of v). jget c ''name'' = JStr n)"
      if all: "\<forall>c \<in> set (cases_of v). \<exists>n. n \<noteq> [] \<and> jget c ''name'' = JStr n"
    proof -
      have "(the_str (jget c ''name'') = n) = (jget c ''name'' = JStr n)" if "c \<in> set (cases_of v)" for c n
        using all that by force
      then show ?thesis
        by (auto simp: case_names_map [OF True] JArr image_iff subset_iff) metis+
    qed
    have named: "list_all (\<lambda>n. is_str n \<and> the_str n \<noteq> []) (case_names vs) =
        (\<forall>c \<in> set (cases_of v). \<exists>n. n \<noteq> [] \<and> jget c ''name'' = JStr n)"
      by (simp add: case_names_map [OF True] JArr list_all_iff strs)
    have names: "case_names vs = map (\<lambda>c. jget c ''name'') (cases_of v)"
      by (simp add: case_names_map [OF True] JArr)
    have eq: "require_named_cases v label required = Inr u \<longleftrightarrow>
        list_all (\<lambda>n. is_str n \<and> the_str n \<noteq> []) (case_names vs) \<and> distinct (case_names vs) \<and>
        set required \<subseteq> set (map the_str (case_names vs))"
      using True by (simp add: require_named_cases_def JArr Let_def case_names_all)
    show ?thesis
      using req True unfolding eq named by (auto simp: JArr case_names_map comp_def)
  next
    case False
    then show ?thesis
      by (simp add: require_named_cases_def JArr Let_def case_names_all)
  qed
qed (simp_all add: require_named_cases_def)

section \<open>The cases of a gate\<close>

text \<open>A member that must be a given list of texts.\<close>

definition texts_are :: "json \<Rightarrow> string list \<Rightarrow> bool" where
  "texts_are v ss = (v = JArr (map JStr ss))"

text \<open>A list of texts, and its texts.\<close>

definition is_text_list :: "json \<Rightarrow> bool" where
  "is_text_list v \<longleftrightarrow> is_list v \<and> list_all is_str (the_list v)"

definition texts_in :: "json \<Rightarrow> string list" where
  "texts_in v = map the_str (the_list v)"

lemma texts_back [simp]: "texts_in (JArr (map JStr ss)) = ss" "is_text_list (JArr (map JStr ss))"
  by (simp_all add: texts_in_def is_text_list_def list_all_iff comp_def)

lemma text_list_iff: "is_text_list v \<longleftrightarrow> v = JArr (map JStr (texts_in v))"
proof (cases v)
  case (JArr vs)
  have "list_all is_str vs \<longleftrightarrow> vs = map (JStr \<circ> the_str) vs"
  proof (induction vs)
    case (Cons w vs)
    then show ?case by (cases w) auto
  qed simp
  then show ?thesis by (simp add: JArr is_text_list_def texts_in_def)
qed (simp_all add: is_text_list_def)

text \<open>A negative carries \<open>conforming=false\<close>, a reason, and an observation that violates the rule.\<close>

definition check_negative :: "dict \<Rightarrow> bool \<Rightarrow> unit res" where
  "check_negative c violated =
     require
       [(jget c ''conforming'' = jfalse \<and> truthy (jget c ''reason''), fail ''a negative needs conforming=false and a reason''),
        (violated, fail ''the observation no longer violates the rule'')]"

lemma not_negative: "check_negative c b = Inr () \<Longrightarrow> jget c ''conforming'' = jfalse"
  by (simp add: check_negative_def)

text \<open>The pinned inputs of a named case.\<close>

definition pinned :: "(string \<times> dict) list \<Rightarrow> string \<Rightarrow> dict res" where
  "pinned table name = (case map_of table name of None \<Rightarrow> Inl (KeyError name) | Some p \<Rightarrow> Inr p)"

text \<open>A case list with an exact inventory, whose cases pass a check.\<close>

definition check_cases :: "(string \<Rightarrow> dict \<Rightarrow> unit res) \<Rightarrow> string list \<Rightarrow> json \<Rightarrow> string \<Rightarrow> unit res" where
  "check_cases check inventory v label =
     and_then (named_cases v label) (\<lambda>cases.
     and_then (guard (set (map fst cases) = set inventory) (fail (label @ '' case inventory is not exact''))) (\<lambda>_.
     for_each (\<lambda>(name, c). check name c) cases))"

lemma checked:
  assumes "check_cases check inventory v label = Inr ()" "JObj c \<in> set (the_list v)"
  obtains name where "jget c ''name'' = JStr name" "name \<in> set inventory" "check name c = Inr ()"
proof -
  from assms(1) obtain cases where cases: "named_cases v label = Inr cases" "set (map fst cases) = set inventory"
      "for_each (\<lambda>(name, c). check name c) cases = Inr ()"
    unfolding check_cases_def and_then_ok_iff by auto
  then have "require_named_cases v label [] = Inr ()" and
    eq: "cases = map (\<lambda>v. (the_str (jget (the_dict v) ''name''), the_dict v)) (the_list v)"
    by (auto simp: named_cases_def and_then_ok_iff)
  then have "\<exists>n. n \<noteq> [] \<and> jget c ''name'' = JStr n" using assms(2) unfolding require_named_cases_ok by force
  then obtain name where n: "jget c ''name'' = JStr name" by blast
  have "(name, c) \<in> set cases" unfolding eq using assms(2) n by force
  with cases n that show ?thesis by (force simp: for_each_ok_iff)
qed

text \<open>Cases built from their names are read back, and pass when each does.\<close>

lemma named_cases_map:
  assumes "distinct ns" "[] \<notin> set ns" "\<And>n. n \<in> set ns \<Longrightarrow> jget (f n) ''name'' = JStr n"
  shows "named_cases (JArr (map (\<lambda>n. JObj (f n)) ns)) label = Inr (map (\<lambda>n. (n, f n)) ns)"
proof -
  have cs: "cases_of (JArr (map (\<lambda>n. JObj (f n)) ns)) = map f ns" by simp
  have names: "map (\<lambda>c. jget c ''name'') (map f ns) = map JStr ns" using assms(3) by simp
  have "distinct (map JStr ns)" using assms(1) by (simp add: distinct_map inj_on_def)
  moreover have "\<forall>c \<in> set (map f ns). \<exists>n. n \<noteq> [] \<and> jget c ''name'' = JStr n" using assms(2,3) by fastforce
  ultimately have "require_named_cases (JArr (map (\<lambda>n. JObj (f n)) ns)) label [] = Inr ()"
    unfolding require_named_cases_ok cs names by (simp add: list_all_iff)
  then show ?thesis using assms(3) by (simp add: named_cases_def)
qed

lemma check_cases_map:
  assumes "distinct ns" "[] \<notin> set ns" "\<And>n. n \<in> set ns \<Longrightarrow> jget (f n) ''name'' = JStr n" "\<And>n. n \<in> set ns \<Longrightarrow> check n (f n) = Inr ()"
  shows "check_cases check ns (JArr (map (\<lambda>n. JObj (f n)) ns)) label = Inr ()"
proof -
  have inventory: "set (map fst (map (\<lambda>n. (n, f n)) ns)) = set ns" by (simp add: image_image)
  have each: "for_each (\<lambda>(name, c). check name c) (map (\<lambda>n. (n, f n)) ns) = Inr ()"
    unfolding for_each_ok_iff using assms(4) by auto
  show ?thesis by (simp only: check_cases_def named_cases_map [OF assms(1-3)] and_then_Inr inventory each guard_True simp_thms)
qed

end
