(* ===== verification/RegistryVectors.thy ===== *)
theory RegistryVectors
  imports PyPrelude
begin

text \<open>
  The parts of the published suite (\<open>conformance/v1/vectors/registry-service.json\<close>,
  \<open>registry-client.json\<close> and \<open>registry-behavior.json\<close>) the registry gates of theory
  \<open>Registry\<close> read, as values: the inputs on which its properties are exercised.
\<close>

definition published_service :: "dict" where
  "published_service =
     [(''checkpoint_cases'', JArr [JObj [(''checkpoint_configured'', jtrue),
     (''checkpoint_version'', JInt 8), (''diagnostic'', JNull), (''live_version'', JInt 10),
     (''name'', JStr ''checkpoint-below-live-consistent''), (''posture'', JNull),
     (''prefix_reproduced'', jtrue), (''ready'', jtrue), (''same_boundary_body'', jfalse),
     (''signature_valid'', jtrue)], JObj [(''checkpoint_configured'', jtrue),
     (''checkpoint_version'', JInt 8), (''diagnostic'', JNull), (''live_version'', JInt 8),
     (''name'', JStr ''checkpoint-equal-consistent''), (''posture'', JNull),
     (''prefix_reproduced'', jtrue), (''ready'', jtrue), (''same_boundary_body'', jtrue),
     (''signature_valid'', jtrue)], JObj [(''checkpoint_configured'', jtrue),
     (''checkpoint_version'', JInt 8), (''diagnostic'', JStr
     ''restore_inconsistent_with_checkpoint''), (''live_version'', JInt 8), (''name'', JStr
     ''checkpoint-equal-inconsistent''), (''posture'', JNull), (''prefix_reproduced'', jtrue),
     (''ready'', jfalse), (''same_boundary_body'', jfalse), (''signature_valid'', jtrue)], JObj
     [(''checkpoint_configured'', jtrue), (''checkpoint_version'', JInt 8), (''diagnostic'', JStr
     ''restore_below_checkpoint''), (''live_version'', JInt 7), (''name'', JStr
     ''live-below-checkpoint''), (''posture'', JNull), (''prefix_reproduced'', jfalse),
     (''ready'', jfalse), (''same_boundary_body'', jfalse), (''signature_valid'', jtrue)], JObj
     [(''checkpoint_configured'', jtrue), (''checkpoint_version'', JInt 8), (''diagnostic'', JStr
     ''restore_inconsistent_with_checkpoint''), (''live_version'', JInt 10), (''name'', JStr
     ''live-above-prefix-mismatch''), (''posture'', JNull), (''prefix_reproduced'', jfalse),
     (''ready'', jfalse), (''same_boundary_body'', jfalse), (''signature_valid'', jtrue)], JObj
     [(''checkpoint_configured'', jtrue), (''checkpoint_version'', JInt 8), (''diagnostic'', JStr
     ''checkpoint_signature_invalid''), (''live_version'', JInt 8), (''name'', JStr
     ''checkpoint-signature-invalid''), (''posture'', JNull), (''prefix_reproduced'', jtrue),
     (''ready'', jfalse), (''same_boundary_body'', jtrue), (''signature_valid'', jfalse)], JObj
     [(''checkpoint_configured'', jfalse), (''checkpoint_version'', JInt 0), (''diagnostic'',
     JNull), (''live_version'', JInt 8), (''name'', JStr ''checkpoint-not-configured''),
     (''posture'', JStr ''checkpoint_not_configured''), (''prefix_reproduced'', jtrue),
     (''ready'', jtrue), (''same_boundary_body'', jtrue), (''signature_valid'', jtrue)]]),
     (''pagination'', JObj [(''boundary_emitted_on_every_page'', jtrue),
     (''chain_boundary_byte_identical'', jtrue), (''cursor_boundary_cases'', JArr [JObj
     [(''error'', JStr ''invalid_cursor''), (''name'', JStr ''cursor-boundary-disagreement''),
     (''reevaluate_at_newer_boundary'', jfalse), (''status'', JInt 404)]])])]"

definition published_client :: "dict" where
  "published_client =
     [(''page_boundary_cases'', JArr [JObj [(''accepted'', jtrue), (''boundary_present'', jtrue),
     (''boundary_version'', JInt 8), (''chain_boundary_equal'', jtrue), (''diagnostic'', JNull),
     (''high_water_advanced'', jtrue), (''name'', JStr ''fresh-boundary-advances-high-water''),
     (''registry_excluded'', jfalse), (''same_body'', jfalse), (''signature_valid'', jtrue),
     (''stored_version'', JInt 7)], JObj [(''accepted'', jtrue), (''boundary_present'', jtrue),
     (''boundary_version'', JInt 8), (''chain_boundary_equal'', jtrue), (''diagnostic'', JNull),
     (''high_water_advanced'', jfalse), (''name'', JStr ''equal-version-same-body-accepted''),
     (''registry_excluded'', jfalse), (''same_body'', jtrue), (''signature_valid'', jtrue),
     (''stored_version'', JInt 8)], JObj [(''accepted'', jfalse), (''boundary_present'', jtrue),
     (''boundary_version'', JInt 8), (''chain_boundary_equal'', jtrue), (''diagnostic'', JStr
     ''registry_page_boundary_stale''), (''high_water_advanced'', jfalse), (''name'', JStr
     ''equal-version-different-body-rejected''), (''registry_excluded'', jtrue), (''same_body'',
     jfalse), (''signature_valid'', jtrue), (''stored_version'', JInt 8)], JObj [(''accepted'',
     jfalse), (''boundary_present'', jtrue), (''boundary_version'', JInt 7),
     (''chain_boundary_equal'', jtrue), (''diagnostic'', JStr ''registry_page_boundary_stale''),
     (''high_water_advanced'', jfalse), (''name'', JStr ''below-high-water-rejected''),
     (''registry_excluded'', jtrue), (''same_body'', jfalse), (''signature_valid'', jtrue),
     (''stored_version'', JInt 8)], JObj [(''accepted'', jfalse), (''boundary_present'', jtrue),
     (''boundary_version'', JInt 8), (''chain_boundary_equal'', jfalse), (''diagnostic'', JStr
     ''registry_page_boundary_mismatch''), (''high_water_advanced'', jfalse), (''name'', JStr
     ''chain-boundary-mismatch-rejected''), (''registry_excluded'', jtrue), (''same_body'',
     jfalse), (''signature_valid'', jtrue), (''stored_version'', JInt 7)], JObj [(''accepted'',
     jfalse), (''boundary_present'', jfalse), (''boundary_version'', JInt 0),
     (''chain_boundary_equal'', jfalse), (''diagnostic'', JStr
     ''registry_page_boundary_missing''), (''high_water_advanced'', jfalse), (''name'', JStr
     ''missing-boundary-excluded''), (''registry_excluded'', jtrue), (''same_body'', jfalse),
     (''signature_valid'', jfalse), (''stored_version'', JInt 7)], JObj [(''accepted'', jfalse),
     (''boundary_present'', jtrue), (''boundary_version'', JInt 8), (''chain_boundary_equal'',
     jtrue), (''diagnostic'', JStr ''registry_page_boundary_missing''), (''high_water_advanced'',
     jfalse), (''name'', JStr ''bad-signature-rejected''), (''registry_excluded'', jtrue),
     (''same_body'', jfalse), (''signature_valid'', jfalse), (''stored_version'', JInt 7)], JObj
     [(''accepted'', jfalse), (''boundary_present'', jtrue), (''boundary_version'', JInt 7),
     (''chain_boundary_equal'', jfalse), (''diagnostic'', JStr
     ''registry_page_boundary_mismatch''), (''high_water_advanced'', jfalse), (''name'', JStr
     ''stale-and-mismatch-reports-mismatch''), (''registry_excluded'', jtrue), (''same_body'',
     jfalse), (''signature_valid'', jtrue), (''stored_version'', JInt 8)], JObj [(''accepted'',
     jfalse), (''boundary_present'', jtrue), (''boundary_version'', JInt 9),
     (''chain_boundary_equal'', jfalse), (''diagnostic'', JStr
     ''registry_page_boundary_mismatch''), (''high_water_advanced'', jfalse), (''name'', JStr
     ''higher-and-mismatch-never-advances''), (''registry_excluded'', jtrue), (''same_body'',
     jfalse), (''signature_valid'', jtrue), (''stored_version'', JInt 7)]]),
     (''bootstrap_cases'', JArr [JObj [(''accepted'', jtrue), (''candidate_same_body'', jfalse),
     (''check_current'', jtrue), (''checkpoint_configured'', jtrue), (''checkpoint_version'',
     JInt 8), (''compared'', jfalse), (''diagnostic'', JNull), (''first_network_version'', JInt
     9), (''group_size'', JInt 0), (''name'', JStr ''checkpoint-first-use-accepted''),
     (''phase'', JStr ''bootstrap''), (''policy'', JStr ''advisory''), (''posture'', JNull),
     (''prior_state'', JStr ''missing''), (''registry_excluded'', jfalse),
     (''resolution_changed'', jfalse), (''roots_equal'', jtrue), (''same_log_size'', jfalse),
     (''severity'', JNull), (''signature_valid'', jtrue), (''state_changed'', jtrue),
     (''stored_version'', JInt 0)], JObj [(''accepted'', jfalse), (''candidate_same_body'',
     jfalse), (''check_current'', jtrue), (''checkpoint_configured'', jtrue),
     (''checkpoint_version'', JInt 8), (''compared'', jfalse), (''diagnostic'', JNull),
     (''first_network_version'', JInt 7), (''group_size'', JInt 0), (''name'', JStr
     ''checkpoint-first-network-below-tampered''), (''phase'', JStr ''bootstrap''), (''policy'',
     JStr ''advisory''), (''posture'', JNull), (''prior_state'', JStr ''missing''),
     (''registry_excluded'', jtrue), (''resolution_changed'', jfalse), (''roots_equal'', jtrue),
     (''same_log_size'', jfalse), (''severity'', JNull), (''signature_valid'', jtrue),
     (''state_changed'', jtrue), (''stored_version'', JInt 0)], JObj [(''accepted'', jfalse),
     (''candidate_same_body'', jfalse), (''check_current'', jtrue), (''checkpoint_configured'',
     jtrue), (''checkpoint_version'', JInt 8), (''compared'', jfalse), (''diagnostic'', JNull),
     (''first_network_version'', JInt 8), (''group_size'', JInt 0), (''name'', JStr
     ''checkpoint-first-network-equal-different-tampered''), (''phase'', JStr ''bootstrap''),
     (''policy'', JStr ''advisory''), (''posture'', JNull), (''prior_state'', JStr ''missing''),
     (''registry_excluded'', jtrue), (''resolution_changed'', jfalse), (''roots_equal'', jtrue),
     (''same_log_size'', jfalse), (''severity'', JNull), (''signature_valid'', jtrue),
     (''state_changed'', jtrue), (''stored_version'', JInt 0)], JObj [(''accepted'', jtrue),
     (''candidate_same_body'', jfalse), (''check_current'', jtrue), (''checkpoint_configured'',
     jfalse), (''checkpoint_version'', JInt 0), (''compared'', jfalse), (''diagnostic'', JNull),
     (''first_network_version'', JInt 5), (''group_size'', JInt 0), (''name'', JStr
     ''no-checkpoint-first-use-tofu''), (''phase'', JStr ''bootstrap''), (''policy'', JStr
     ''advisory''), (''posture'', JStr ''registry_bootstrap_tofu''), (''prior_state'', JStr
     ''missing''), (''registry_excluded'', jfalse), (''resolution_changed'', jfalse),
     (''roots_equal'', jtrue), (''same_log_size'', jfalse), (''severity'', JStr ''warning''),
     (''signature_valid'', jtrue), (''state_changed'', jtrue), (''stored_version'', JInt 0)],
     JObj [(''accepted'', jfalse), (''candidate_same_body'', jtrue), (''check_current'', jfalse),
     (''checkpoint_configured'', jtrue), (''checkpoint_version'', JInt 8), (''compared'',
     jfalse), (''diagnostic'', JNull), (''first_network_version'', JInt 8), (''group_size'', JInt
     0), (''name'', JStr ''checkpoint-signature-invalid-first-use''), (''phase'', JStr
     ''bootstrap''), (''policy'', JStr ''advisory''), (''posture'', JNull), (''prior_state'',
     JStr ''missing''), (''registry_excluded'', jtrue), (''resolution_changed'', jfalse),
     (''roots_equal'', jtrue), (''same_log_size'', jfalse), (''severity'', JNull),
     (''signature_valid'', jfalse), (''state_changed'', jfalse), (''stored_version'', JInt 0)],
     JObj [(''accepted'', jtrue), (''candidate_same_body'', jfalse), (''check_current'', jtrue),
     (''checkpoint_configured'', jtrue), (''checkpoint_version'', JInt 10), (''compared'',
     jfalse), (''diagnostic'', JNull), (''first_network_version'', JInt 0), (''group_size'', JInt
     0), (''name'', JStr ''rebootstrap-advance-accepted''), (''phase'', JStr ''rebootstrap''),
     (''policy'', JStr ''advisory''), (''posture'', JNull), (''prior_state'', JStr ''present''),
     (''registry_excluded'', jfalse), (''resolution_changed'', jfalse), (''roots_equal'', jtrue),
     (''same_log_size'', jfalse), (''severity'', JNull), (''signature_valid'', jtrue),
     (''state_changed'', jtrue), (''stored_version'', JInt 8)], JObj [(''accepted'', jtrue),
     (''candidate_same_body'', jtrue), (''check_current'', jtrue), (''checkpoint_configured'',
     jtrue), (''checkpoint_version'', JInt 8), (''compared'', jfalse), (''diagnostic'', JNull),
     (''first_network_version'', JInt 0), (''group_size'', JInt 0), (''name'', JStr
     ''rebootstrap-equal-consistent-noop''), (''phase'', JStr ''rebootstrap''), (''policy'', JStr
     ''advisory''), (''posture'', JNull), (''prior_state'', JStr ''present''),
     (''registry_excluded'', jfalse), (''resolution_changed'', jfalse), (''roots_equal'', jtrue),
     (''same_log_size'', jfalse), (''severity'', JNull), (''signature_valid'', jtrue),
     (''state_changed'', jfalse), (''stored_version'', JInt 8)], JObj [(''accepted'', jfalse),
     (''candidate_same_body'', jfalse), (''check_current'', jfalse), (''checkpoint_configured'',
     jtrue), (''checkpoint_version'', JInt 7), (''compared'', jfalse), (''diagnostic'', JStr
     ''registry_checkpoint_regression''), (''first_network_version'', JInt 0), (''group_size'',
     JInt 0), (''name'', JStr ''rebootstrap-regression-refused''), (''phase'', JStr
     ''rebootstrap''), (''policy'', JStr ''advisory''), (''posture'', JNull), (''prior_state'',
     JStr ''present''), (''registry_excluded'', jfalse), (''resolution_changed'', jfalse),
     (''roots_equal'', jtrue), (''same_log_size'', jfalse), (''severity'', JStr ''error''),
     (''signature_valid'', jtrue), (''state_changed'', jfalse), (''stored_version'', JInt 8)],
     JObj [(''accepted'', jfalse), (''candidate_same_body'', jfalse), (''check_current'',
     jfalse), (''checkpoint_configured'', jtrue), (''checkpoint_version'', JInt 8),
     (''compared'', jfalse), (''diagnostic'', JStr ''registry_checkpoint_regression''),
     (''first_network_version'', JInt 0), (''group_size'', JInt 0), (''name'', JStr
     ''rebootstrap-equal-inconsistent-refused''), (''phase'', JStr ''rebootstrap''), (''policy'',
     JStr ''advisory''), (''posture'', JNull), (''prior_state'', JStr ''present''),
     (''registry_excluded'', jfalse), (''resolution_changed'', jfalse), (''roots_equal'', jtrue),
     (''same_log_size'', jfalse), (''severity'', JStr ''error''), (''signature_valid'', jtrue),
     (''state_changed'', jfalse), (''stored_version'', JInt 8)], JObj [(''accepted'', jfalse),
     (''candidate_same_body'', jfalse), (''check_current'', jtrue), (''checkpoint_configured'',
     jtrue), (''checkpoint_version'', JInt 10), (''compared'', jfalse), (''diagnostic'', JNull),
     (''first_network_version'', JInt 0), (''group_size'', JInt 0), (''name'', JStr
     ''rebootstrap-signature-invalid-ignored''), (''phase'', JStr ''rebootstrap''), (''policy'',
     JStr ''advisory''), (''posture'', JNull), (''prior_state'', JStr ''present''),
     (''registry_excluded'', jfalse), (''resolution_changed'', jfalse), (''roots_equal'', jtrue),
     (''same_log_size'', jfalse), (''severity'', JNull), (''signature_valid'', jfalse),
     (''state_changed'', jfalse), (''stored_version'', JInt 8)], JObj [(''accepted'', jtrue),
     (''candidate_same_body'', jtrue), (''check_current'', jtrue), (''checkpoint_configured'',
     jfalse), (''checkpoint_version'', JInt 0), (''compared'', jtrue), (''diagnostic'', JStr
     ''registry_view_divergence''), (''first_network_version'', JInt 0), (''group_size'', JInt
     2), (''name'', JStr ''divergence-detected-advisory''), (''phase'', JStr ''compare''),
     (''policy'', JStr ''advisory''), (''posture'', JNull), (''prior_state'', JStr ''present''),
     (''registry_excluded'', jfalse), (''resolution_changed'', jfalse), (''roots_equal'',
     jfalse), (''same_log_size'', jtrue), (''severity'', JStr ''warning''), (''signature_valid'',
     jtrue), (''state_changed'', jfalse), (''stored_version'', JInt 8)], JObj [(''accepted'',
     jtrue), (''candidate_same_body'', jtrue), (''check_current'', jfalse),
     (''checkpoint_configured'', jfalse), (''checkpoint_version'', JInt 0), (''compared'',
     jtrue), (''diagnostic'', JStr ''registry_view_divergence''), (''first_network_version'',
     JInt 0), (''group_size'', JInt 2), (''name'', JStr ''divergence-detected-strict''),
     (''phase'', JStr ''compare''), (''policy'', JStr ''strict''), (''posture'', JNull),
     (''prior_state'', JStr ''present''), (''registry_excluded'', jfalse),
     (''resolution_changed'', jfalse), (''roots_equal'', jfalse), (''same_log_size'', jtrue),
     (''severity'', JStr ''error''), (''signature_valid'', jtrue), (''state_changed'', jfalse),
     (''stored_version'', JInt 8)], JObj [(''accepted'', jtrue), (''candidate_same_body'',
     jtrue), (''check_current'', jtrue), (''checkpoint_configured'', jfalse),
     (''checkpoint_version'', JInt 0), (''compared'', jtrue), (''diagnostic'', JNull),
     (''first_network_version'', JInt 0), (''group_size'', JInt 2), (''name'', JStr
     ''divergence-views-agree''), (''phase'', JStr ''compare''), (''policy'', JStr ''advisory''),
     (''posture'', JNull), (''prior_state'', JStr ''present''), (''registry_excluded'', jfalse),
     (''resolution_changed'', jfalse), (''roots_equal'', jtrue), (''same_log_size'', jtrue),
     (''severity'', JNull), (''signature_valid'', jtrue), (''state_changed'', jfalse),
     (''stored_version'', JInt 8)], JObj [(''accepted'', jtrue), (''candidate_same_body'',
     jtrue), (''check_current'', jtrue), (''checkpoint_configured'', jfalse),
     (''checkpoint_version'', JInt 0), (''compared'', jfalse), (''diagnostic'', JNull),
     (''first_network_version'', JInt 0), (''group_size'', JInt 2), (''name'', JStr
     ''divergence-different-sizes-skipped''), (''phase'', JStr ''compare''), (''policy'', JStr
     ''advisory''), (''posture'', JNull), (''prior_state'', JStr ''present''),
     (''registry_excluded'', jfalse), (''resolution_changed'', jfalse), (''roots_equal'',
     jfalse), (''same_log_size'', jfalse), (''severity'', JNull), (''signature_valid'', jtrue),
     (''state_changed'', jfalse), (''stored_version'', JInt 8)], JObj [(''accepted'', jtrue),
     (''candidate_same_body'', jtrue), (''check_current'', jtrue), (''checkpoint_configured'',
     jfalse), (''checkpoint_version'', JInt 0), (''compared'', jfalse), (''diagnostic'', JNull),
     (''first_network_version'', JInt 0), (''group_size'', JInt 1), (''name'', JStr
     ''divergence-single-registry-skipped''), (''phase'', JStr ''compare''), (''policy'', JStr
     ''advisory''), (''posture'', JNull), (''prior_state'', JStr ''present''),
     (''registry_excluded'', jfalse), (''resolution_changed'', jfalse), (''roots_equal'',
     jfalse), (''same_log_size'', jtrue), (''severity'', JNull), (''signature_valid'', jtrue),
     (''state_changed'', jfalse), (''stored_version'', JInt 8)]])]"

definition published_behavior :: "dict" where
  "published_behavior =
     [(''bootstrap'', JObj [(''checkpoint_form'', JStr ''path''), (''checkpoint_object'', JStr
     ''registry-snapshot-v1''), (''first_fixation_source'', JStr ''checkpoint-or-network-only''),
     (''regression_diagnostic'', JStr ''registry_checkpoint_regression''), (''tofu_posture'',
     JStr ''registry_bootstrap_tofu''), (''verified_before_network'', jtrue)]), (''divergence'',
     JObj [(''compared_at'', JStr ''same_log_size''), (''diagnostic'', JStr
     ''registry_view_divergence''), (''quorum'', jfalse), (''resolution_changed'', jfalse)])]"

end
