(* ===== verification/Registry.thy ===== *)
theory Registry
  imports Cases RegistryVectors
begin

text \<open>
  The registry gates of \<open>tools/validate.py\<close>: the records page boundary (R1/P1), the startup
  checkpoint (R3/P2) and the bootstrap and divergence cases (S2).  Each gate recomputes the
  verdict of every case from the case's inputs, pins the inputs of the required names, and
  refuses a vector whose recorded outcome differs.
\<close>

section \<open>Page boundary\<close>

definition PAGE_BOUNDARY_DIAGNOSTICS :: "string list" where
  "PAGE_BOUNDARY_DIAGNOSTICS =
     [''registry_page_boundary_stale'', ''registry_page_boundary_mismatch'',
      ''registry_page_boundary_missing'']"

definition PAGE_BOUNDARY_CASES :: "string list" where
  "PAGE_BOUNDARY_CASES =
     [''fresh-boundary-advances-high-water'', ''equal-version-same-body-accepted'',
      ''equal-version-different-body-rejected'', ''below-high-water-rejected'',
      ''chain-boundary-mismatch-rejected'', ''missing-boundary-excluded'',
      ''bad-signature-rejected'', ''stale-and-mismatch-reports-mismatch'',
      ''higher-and-mismatch-never-advances'']"

definition expected_page_boundary_verdict :: "dict \<Rightarrow> (bool \<times> string option \<times> bool) res" where
  "expected_page_boundary_verdict c =
     (if \<not> truthy (jget c ''boundary_present'') \<or> \<not> truthy (jget c ''signature_valid'')
      then Inr (False, Some ''registry_page_boundary_missing'', False)
      else if \<not> truthy (jget c ''chain_boundary_equal'')
      then Inr (False, Some ''registry_page_boundary_mismatch'', False)
      else
        let stored = jget c ''stored_version''; boundary = jget c ''boundary_version'' in
        if \<not> natural stored \<or> \<not> natural boundary
        then Inl (fail ''registry-client page boundary case needs non-negative integer stored and boundary versions'')
        else if the_int boundary < the_int stored \<or>
            (the_int boundary = the_int stored \<and> \<not> truthy (jget c ''same_body''))
        then Inr (False, Some ''registry_page_boundary_stale'', False)
        else Inr (True, None, the_int stored < the_int boundary))"

definition check_page_boundary_case :: "dict \<Rightarrow> unit res" where
  "check_page_boundary_case c =
     and_then (expected_page_boundary_verdict c) (\<lambda>(accepted, diagnostic, advanced).
     and_then (require
       [(jget c ''accepted'' = JBool accepted,
         fail (if accepted
           then ''registry-client page boundary case rejects what section 9.3 must accept''
           else ''registry-client page boundary case admits what section 9.3 must reject''))]) (\<lambda>_.
     and_then (if jget c ''diagnostic'' = JNull then Inr True
        else in_frozenset (jget c ''diagnostic'') PAGE_BOUNDARY_DIAGNOSTICS) (\<lambda>closed.
     require
       [(closed, fail ''registry-client page boundary case uses non-closed diagnostic''),
        (py_eq (jget c ''diagnostic'') (jopt diagnostic),
         fail ''registry-client page boundary case carries, expected''),
        (jget c ''high_water_advanced'' = JBool advanced,
         fail ''registry-client page boundary case has the wrong high-water advance''),
        (jget c ''registry_excluded'' = JBool (\<not> accepted),
         fail ''registry-client page boundary case has the wrong registry exclusion'')])))"

definition check_cursor_boundary_case :: "dict \<Rightarrow> unit res" where
  "check_cursor_boundary_case c =
     require
       [(py_eq (jget c ''status'') (JInt 404) \<and> py_eq (jget c ''error'') (JStr ''invalid_cursor'') \<and>
         jget c ''reevaluate_at_newer_boundary'' = jfalse,
         fail ''registry-service cursor boundary case must refuse with 404 invalid_cursor without re-evaluating'')]"

text \<open>The two documents are the client and the service vector.\<close>

definition validate_registry_page_boundary_vectors :: "dict \<Rightarrow> dict \<Rightarrow> unit res" where
  "validate_registry_page_boundary_vectors client service =
     and_then (require_named_cases (jget client ''page_boundary_cases'')
       ''registry-client page boundary'' PAGE_BOUNDARY_CASES) (\<lambda>_.
     and_then (for_each check_page_boundary_case (cases_of (jget client ''page_boundary_cases''))) (\<lambda>_.
     let pagination = jget service ''pagination''; p = the_dict pagination in
     and_then (require
       [(is_dict pagination, fail ''registry-service pagination boundary is incomplete''),
        (jget p ''boundary_emitted_on_every_page'' = jtrue,
         fail ''registry-service must emit the boundary on every page''),
        (jget p ''chain_boundary_byte_identical'' = jtrue,
         fail ''registry-service cursor-chain boundaries must be byte-identical'')]) (\<lambda>_.
     and_then (require_named_cases (jget p ''cursor_boundary_cases'')
       ''registry-service cursor boundary'' [''cursor-boundary-disagreement'']) (\<lambda>_.
     for_each check_cursor_boundary_case (cases_of (jget p ''cursor_boundary_cases''))))))"

section \<open>Startup checkpoint\<close>

definition CHECKPOINT_DIAGNOSTICS :: "string list" where
  "CHECKPOINT_DIAGNOSTICS =
     [''restore_below_checkpoint'', ''restore_inconsistent_with_checkpoint'',
      ''checkpoint_signature_invalid'']"

definition CHECKPOINT_NOT_CONFIGURED :: string where
  "CHECKPOINT_NOT_CONFIGURED = ''checkpoint_not_configured''"

definition CHECKPOINT_CASES :: "string list" where
  "CHECKPOINT_CASES =
     [''checkpoint-below-live-consistent'', ''checkpoint-equal-consistent'',
      ''checkpoint-equal-inconsistent'', ''live-below-checkpoint'', ''live-above-prefix-mismatch'',
      ''checkpoint-signature-invalid'', ''checkpoint-not-configured'']"

definition expected_checkpoint_verdict :: "dict \<Rightarrow> (bool \<times> string option \<times> string option) res" where
  "expected_checkpoint_verdict c =
     (if jget c ''checkpoint_configured'' \<noteq> jtrue then Inr (True, None, Some CHECKPOINT_NOT_CONFIGURED)
      else if jget c ''signature_valid'' \<noteq> jtrue
      then Inr (False, Some ''checkpoint_signature_invalid'', None)
      else
        let live = jget c ''live_version''; checkpoint = jget c ''checkpoint_version'' in
        if \<not> natural live \<or> \<not> natural checkpoint
        then Inl (fail ''registry-service checkpoint case needs non-negative integer live and checkpoint versions'')
        else if the_int live < the_int checkpoint
        then Inr (False, Some ''restore_below_checkpoint'', None)
        else if the_int live = the_int checkpoint then
          (if jget c ''same_boundary_body'' = jtrue then Inr (True, None, None)
           else Inr (False, Some ''restore_inconsistent_with_checkpoint'', None))
        else if jget c ''prefix_reproduced'' = jtrue then Inr (True, None, None)
        else Inr (False, Some ''restore_inconsistent_with_checkpoint'', None))"

text \<open>The version relation and the body or prefix flag each compared name stands for.\<close>

definition require_checkpoint_relation :: "string \<Rightarrow> dict \<Rightarrow> unit res" where
  "require_checkpoint_relation name c =
     (let live = the_int (jget c ''live_version''); checkpoint = the_int (jget c ''checkpoint_version'') in
      if name = ''live-below-checkpoint'' then
        require [(live < checkpoint, fail ''registry-service checkpoint case must place the live version below the checkpoint version'')]
      else if name \<in> set [''checkpoint-equal-consistent'', ''checkpoint-equal-inconsistent''] then
        require
          [(live = checkpoint, fail ''registry-service checkpoint case must hold the live version equal to the checkpoint version''),
           ((jget c ''same_boundary_body'' = jtrue) \<noteq> (name = ''checkpoint-equal-inconsistent''),
            fail (if name = ''checkpoint-equal-inconsistent''
              then ''registry-service checkpoint case must carry a different boundary body''
              else ''registry-service checkpoint case must carry the same boundary body''))]
      else
        require
          [(live > checkpoint, fail ''registry-service checkpoint case must place the live version above the checkpoint version''),
           ((jget c ''prefix_reproduced'' = jtrue) \<noteq> (name = ''live-above-prefix-mismatch''),
            fail (if name = ''live-above-prefix-mismatch''
              then ''registry-service checkpoint case must fail to reproduce the checkpoint boundary at its log size''
              else ''registry-service checkpoint case must reproduce the checkpoint boundary at its log size''))])"

definition require_checkpoint_scenario :: "dict \<Rightarrow> unit res" where
  "require_checkpoint_scenario c =
     (let name = jget c ''name'';
          configured = (jget c ''checkpoint_configured'' = jtrue, fail ''registry-service checkpoint case must configure a checkpoint'') in
      if name = JStr ''checkpoint-not-configured'' then
        require [(jget c ''checkpoint_configured'' \<noteq> jtrue,
          fail ''registry-service checkpoint case must leave the checkpoint unconfigured'')]
      else if name = JStr ''checkpoint-signature-invalid'' then
        require [configured, (jget c ''signature_valid'' \<noteq> jtrue,
          fail ''registry-service checkpoint case must carry an invalid checkpoint signature'')]
      else if \<not> str_in name [''checkpoint-below-live-consistent'', ''checkpoint-equal-consistent'',
          ''checkpoint-equal-inconsistent'', ''live-below-checkpoint'', ''live-above-prefix-mismatch'']
      then Inr ()
      else
        and_then (require
          [configured,
           (jget c ''signature_valid'' = jtrue,
            fail ''registry-service checkpoint case must carry a valid checkpoint signature''),
           (natural (jget c ''live_version'') \<and> natural (jget c ''checkpoint_version''),
            fail ''registry-service checkpoint case needs non-negative integer live and checkpoint versions'')])
        (\<lambda>_. require_checkpoint_relation (the_str name) c))"

definition check_checkpoint_case :: "dict \<Rightarrow> unit res" where
  "check_checkpoint_case c =
     and_then (require_checkpoint_scenario c) (\<lambda>_.
     and_then (expected_checkpoint_verdict c) (\<lambda>(ready, diagnostic, posture).
     and_then (require
       [(jget c ''ready'' = JBool ready,
         fail (if ready then ''registry-service checkpoint case refuses what section 6 must serve''
           else ''registry-service checkpoint case admits what section 6 must refuse''))]) (\<lambda>_.
     and_then (if jget c ''diagnostic'' = JNull then Inr True
        else in_frozenset (jget c ''diagnostic'') CHECKPOINT_DIAGNOSTICS) (\<lambda>closed.
     require
       [(closed, fail ''registry-service checkpoint case uses non-closed diagnostic''),
        (py_eq (jget c ''diagnostic'') (jopt diagnostic),
         fail ''registry-service checkpoint case carries, expected''),
        (py_eq (jget c ''posture'') (jopt posture),
         fail ''registry-service checkpoint case carries posture, expected'')]))))"

definition validate_registry_checkpoint_vectors :: "dict \<Rightarrow> unit res" where
  "validate_registry_checkpoint_vectors service =
     and_then (require_named_cases (jget service ''checkpoint_cases'') ''registry-service checkpoint''
       CHECKPOINT_CASES) (\<lambda>_.
     for_each check_checkpoint_case (cases_of (jget service ''checkpoint_cases'')))"

section \<open>Bootstrap and divergence\<close>

definition BOOTSTRAP_DIAGNOSTICS :: "string list" where
  "BOOTSTRAP_DIAGNOSTICS = [''registry_checkpoint_regression'', ''registry_view_divergence'']"

definition BOOTSTRAP_POSTURE :: string where
  "BOOTSTRAP_POSTURE = ''registry_bootstrap_tofu''"

definition BOOTSTRAP_POLICIES :: "string list" where
  "BOOTSTRAP_POLICIES = [''advisory'', ''strict'']"

definition BOOTSTRAP_SEVERITIES :: "string list" where
  "BOOTSTRAP_SEVERITIES = [''warning'', ''error'']"

definition FIRST_USE_CASES :: "string list" where
  "FIRST_USE_CASES =
     [''checkpoint-first-use-accepted'', ''checkpoint-first-network-below-tampered'',
      ''checkpoint-first-network-equal-different-tampered'', ''no-checkpoint-first-use-tofu'',
      ''checkpoint-signature-invalid-first-use'']"

definition REBOOTSTRAP_CASES :: "string list" where
  "REBOOTSTRAP_CASES =
     [''rebootstrap-advance-accepted'', ''rebootstrap-equal-consistent-noop'',
      ''rebootstrap-regression-refused'', ''rebootstrap-equal-inconsistent-refused'',
      ''rebootstrap-signature-invalid-ignored'']"

definition DIVERGENCE_CASES :: "string list" where
  "DIVERGENCE_CASES =
     [''divergence-detected-advisory'', ''divergence-detected-strict'', ''divergence-views-agree'',
      ''divergence-different-sizes-skipped'', ''divergence-single-registry-skipped'']"

definition BOOTSTRAP_CASES :: "string list" where
  "BOOTSTRAP_CASES = FIRST_USE_CASES @ REBOOTSTRAP_CASES @ DIVERGENCE_CASES"

definition bootstrap_version :: "dict \<Rightarrow> string \<Rightarrow> int res" where
  "bootstrap_version c field =
     (if natural (jget c field) then Inr (the_int (jget c field))
      else Inl (fail (''registry-client bootstrap case needs a non-negative integer '' @ field)))"

definition bootstrap_bool :: "dict \<Rightarrow> string \<Rightarrow> bool res" where
  "bootstrap_bool c field =
     (case jget c field of JBool b \<Rightarrow> Inr b
      | _ \<Rightarrow> Inl (fail (''registry-client bootstrap case needs a boolean '' @ field)))"

text \<open>The nine values of a bootstrap verdict, in the order of the source's tuple.\<close>

datatype verdict = Verdict (v_accepted: bool) (v_state_changed: bool) (v_diagnostic: "string option")
  (v_posture: "string option") (v_severity: "string option") (v_compared: bool)
  (v_excluded: bool) (v_resolution: bool) (v_current: bool)

definition verdict_fields :: "string list" where
  "verdict_fields = [''accepted'', ''state_changed'', ''diagnostic'', ''posture'', ''severity'',
     ''compared'', ''registry_excluded'', ''resolution_changed'', ''check_current'']"

definition verdict_values :: "verdict \<Rightarrow> json list" where
  "verdict_values v = [JBool (v_accepted v), JBool (v_state_changed v), jopt (v_diagnostic v),
     jopt (v_posture v), jopt (v_severity v), JBool (v_compared v), JBool (v_excluded v),
     JBool (v_resolution v), JBool (v_current v)]"

definition compare_verdict :: "dict \<Rightarrow> verdict res" where
  "compare_verdict c =
     and_then (bootstrap_version c ''group_size'') (\<lambda>group.
     and_then (in_frozenset (jget c ''policy'') BOOTSTRAP_POLICIES) (\<lambda>closed.
     and_then (guard closed (fail ''registry-client bootstrap case needs a closed registry policy'')) (\<lambda>_.
     and_then (bootstrap_bool c ''same_log_size'') (\<lambda>same_size.
     and_then (bootstrap_bool c ''roots_equal'') (\<lambda>roots_equal.
       let compared = (2 \<le> group \<and> same_size); strict = (jget c ''policy'' = JStr ''strict'') in
       if compared \<and> \<not> roots_equal
       then Inr (Verdict True False (Some ''registry_view_divergence'') None
         (Some (if strict then ''error'' else ''warning'')) True False False (\<not> strict))
       else Inr (Verdict True False None None None compared False False True))))))"

definition first_use_verdict :: "dict \<Rightarrow> verdict res" where
  "first_use_verdict c =
     and_then (guard (py_eq (jget c ''prior_state'') (JStr ''missing''))
       (fail ''registry-client bootstrap case must start from missing prior state'')) (\<lambda>_.
     and_then (bootstrap_bool c ''checkpoint_configured'') (\<lambda>configured.
     if \<not> configured
     then Inr (Verdict True True None (Some BOOTSTRAP_POSTURE) (Some ''warning'') False False False True)
     else
       and_then (bootstrap_bool c ''signature_valid'') (\<lambda>signature_valid.
       if \<not> signature_valid then Inr (Verdict False False None None None False True False False)
       else
         and_then (bootstrap_version c ''checkpoint_version'') (\<lambda>checkpoint.
         and_then (bootstrap_version c ''first_network_version'') (\<lambda>first.
         and_then (bootstrap_bool c ''candidate_same_body'') (\<lambda>same_body.
           if first < checkpoint \<or> (first = checkpoint \<and> \<not> same_body)
           then Inr (Verdict False True None None None False True False True)
           else Inr (Verdict True True None None None False False False True)))))))"

definition rebootstrap_verdict :: "dict \<Rightarrow> verdict res" where
  "rebootstrap_verdict c =
     and_then (guard (py_eq (jget c ''prior_state'') (JStr ''present''))
       (fail ''registry-client bootstrap case must start from present prior state'')) (\<lambda>_.
     and_then (bootstrap_bool c ''checkpoint_configured'') (\<lambda>configured.
     and_then (guard configured (fail ''registry-client bootstrap case must configure a checkpoint'')) (\<lambda>_.
     and_then (bootstrap_bool c ''signature_valid'') (\<lambda>signature_valid.
     if \<not> signature_valid then Inr (Verdict False False None None None False False False True)
     else
       and_then (bootstrap_version c ''checkpoint_version'') (\<lambda>checkpoint.
       and_then (bootstrap_version c ''stored_version'') (\<lambda>stored.
       and_then (bootstrap_bool c ''candidate_same_body'') (\<lambda>same_body.
         if checkpoint < stored \<or> (checkpoint = stored \<and> \<not> same_body)
         then Inr (Verdict False False (Some ''registry_checkpoint_regression'') None (Some ''error'')
           False False False False)
         else if checkpoint = stored
         then Inr (Verdict True False None None None False False False True)
         else Inr (Verdict True True None None None False False False True))))))))"

definition expected_bootstrap_verdict :: "dict \<Rightarrow> verdict res" where
  "expected_bootstrap_verdict c =
     (let phase = jget c ''phase'' in
      if py_eq phase (JStr ''compare'') then compare_verdict c
      else if py_eq phase (JStr ''bootstrap'') then first_use_verdict c
      else if py_eq phase (JStr ''rebootstrap'') then rebootstrap_verdict c
      else Inl (fail ''registry-client bootstrap case needs a closed phase, got ''))"

text \<open>The three groups of required names and the inputs each name stands for.\<close>

definition require_first_use :: "string \<Rightarrow> dict \<Rightarrow> unit res" where
  "require_first_use name c =
     and_then (require
       [(py_eq (jget c ''phase'') (JStr ''bootstrap''), fail ''registry-client bootstrap case must run the bootstrap phase''),
        (py_eq (jget c ''prior_state'') (JStr ''missing''), fail ''registry-client bootstrap case must start from missing prior state'')])
       (\<lambda>_.
     and_then (bootstrap_bool c ''checkpoint_configured'') (\<lambda>configured.
     if name = ''no-checkpoint-first-use-tofu''
     then guard (\<not> configured) (fail ''registry-client bootstrap case must leave the checkpoint unconfigured'')
     else
       and_then (guard configured (fail ''registry-client bootstrap case must configure a checkpoint'')) (\<lambda>_.
       and_then (bootstrap_bool c ''signature_valid'') (\<lambda>signature_valid.
       if name = ''checkpoint-signature-invalid-first-use''
       then guard (\<not> signature_valid) (fail ''registry-client bootstrap case must carry an invalid checkpoint signature'')
       else
         and_then (guard signature_valid (fail ''registry-client bootstrap case must carry a valid checkpoint signature'')) (\<lambda>_.
         and_then (bootstrap_version c ''checkpoint_version'') (\<lambda>checkpoint.
         and_then (bootstrap_version c ''first_network_version'') (\<lambda>first.
         and_then (bootstrap_bool c ''candidate_same_body'') (\<lambda>same_body.
           if name = ''checkpoint-first-use-accepted''
           then guard (first > checkpoint) (fail ''registry-client bootstrap case must place the first network version above the checkpoint version'')
           else if name = ''checkpoint-first-network-below-tampered''
           then guard (first < checkpoint) (fail ''registry-client bootstrap case must place the first network version below the checkpoint version'')
           else require
             [(first = checkpoint, fail ''registry-client bootstrap case must hold the first network version equal to the checkpoint version''),
              (\<not> same_body, fail ''registry-client bootstrap case must carry a different body'')]))))))))"

definition require_rebootstrap :: "string \<Rightarrow> dict \<Rightarrow> unit res" where
  "require_rebootstrap name c =
     and_then (require
       [(py_eq (jget c ''phase'') (JStr ''rebootstrap''), fail ''registry-client bootstrap case must run the rebootstrap phase''),
        (py_eq (jget c ''prior_state'') (JStr ''present''), fail ''registry-client bootstrap case must start from present prior state'')])
       (\<lambda>_.
     and_then (bootstrap_bool c ''checkpoint_configured'') (\<lambda>configured.
     and_then (guard configured (fail ''registry-client bootstrap case must configure a checkpoint'')) (\<lambda>_.
     and_then (bootstrap_bool c ''signature_valid'') (\<lambda>signature_valid.
     if name = ''rebootstrap-signature-invalid-ignored''
     then guard (\<not> signature_valid) (fail ''registry-client bootstrap case must carry an invalid checkpoint signature'')
     else
       and_then (guard signature_valid (fail ''registry-client bootstrap case must carry a valid checkpoint signature'')) (\<lambda>_.
       and_then (bootstrap_version c ''checkpoint_version'') (\<lambda>checkpoint.
       and_then (bootstrap_version c ''stored_version'') (\<lambda>stored.
       and_then (bootstrap_bool c ''candidate_same_body'') (\<lambda>same_body.
         if name = ''rebootstrap-regression-refused''
         then guard (checkpoint < stored) (fail ''registry-client bootstrap case must place the checkpoint version below the stored version'')
         else if name = ''rebootstrap-advance-accepted''
         then guard (checkpoint > stored) (fail ''registry-client bootstrap case must place the checkpoint version above the stored version'')
         else require
           [(checkpoint = stored, fail ''registry-client bootstrap case must hold the checkpoint version equal to the stored version''),
            (same_body \<noteq> (name = ''rebootstrap-equal-inconsistent-refused''),
             fail (if name = ''rebootstrap-equal-inconsistent-refused''
               then ''registry-client bootstrap case must carry a different body''
               else ''registry-client bootstrap case must carry the same body''))]))))))))"

definition require_divergence :: "string \<Rightarrow> dict \<Rightarrow> unit res" where
  "require_divergence name c =
     and_then (guard (py_eq (jget c ''phase'') (JStr ''compare''))
       (fail ''registry-client bootstrap case must run the compare phase'')) (\<lambda>_.
     and_then (bootstrap_version c ''group_size'') (\<lambda>group.
     and_then (bootstrap_bool c ''same_log_size'') (\<lambda>same_size.
     and_then (bootstrap_bool c ''roots_equal'') (\<lambda>roots_equal.
     if name = ''divergence-single-registry-skipped''
     then guard (\<not> 2 \<le> group) (fail ''registry-client bootstrap case must compare fewer than two registries'')
     else
       and_then (guard (\<not> group < 2) (fail ''registry-client bootstrap case must compare two or more registries'')) (\<lambda>_.
       if name = ''divergence-different-sizes-skipped''
       then guard (\<not> same_size) (fail ''registry-client bootstrap case must expose different log sizes'')
       else
         and_then (guard same_size (fail ''registry-client bootstrap case must expose the same log size'')) (\<lambda>_.
         if name = ''divergence-views-agree''
         then guard roots_equal (fail ''registry-client bootstrap case must carry equal roots'')
         else require
           [(\<not> roots_equal, fail ''registry-client bootstrap case must carry different roots''),
            (py_eq (jget c ''policy'') (JStr (if name = ''divergence-detected-strict'' then ''strict'' else ''advisory'')),
             fail ''registry-client bootstrap case must run under policy'')]))))))"

definition require_bootstrap_scenario :: "dict \<Rightarrow> unit res" where
  "require_bootstrap_scenario c =
     (let name = jget c ''name'' in
      if str_in name FIRST_USE_CASES then require_first_use (the_str name) c
      else if str_in name REBOOTSTRAP_CASES then require_rebootstrap (the_str name) c
      else if str_in name DIVERGENCE_CASES then require_divergence (the_str name) c
      else Inr ())"

text \<open>The recorded values, compared with \<open>==\<close> as one tuple, then field by field.\<close>

definition recorded_as :: "verdict \<Rightarrow> dict \<Rightarrow> unit res" where
  "recorded_as expected c =
     (case find (\<lambda>(field, want). \<not> py_eq want (jget c field))
         (zip verdict_fields (verdict_values expected)) of
        None \<Rightarrow> Inr ()
      | Some (field, _) \<Rightarrow> Inl (fail (''registry-client bootstrap case carries '' @ field)))"

definition check_bootstrap_case :: "dict \<Rightarrow> unit res" where
  "check_bootstrap_case c =
     and_then (require_bootstrap_scenario c) (\<lambda>_.
     and_then (expected_bootstrap_verdict c) (\<lambda>expected.
     and_then (recorded_as expected c) (\<lambda>_.
     and_then (if jget c ''diagnostic'' = JNull then Inr True
        else in_frozenset (jget c ''diagnostic'') BOOTSTRAP_DIAGNOSTICS) (\<lambda>closed.
     and_then (require
       [(closed, fail ''registry-client bootstrap case uses non-closed diagnostic''),
        (jget c ''posture'' = JNull \<or> py_eq (jget c ''posture'') (JStr BOOTSTRAP_POSTURE),
         fail ''registry-client bootstrap case uses non-closed posture'')]) (\<lambda>_.
     and_then (if jget c ''severity'' = JNull then Inr True
        else in_frozenset (jget c ''severity'') BOOTSTRAP_SEVERITIES) (\<lambda>severe.
     require
       [(severe, fail ''registry-client bootstrap case uses non-closed severity''),
        (is_bool (jget c ''check_current''), fail ''registry-client bootstrap case needs a boolean check_current'')]))))))"

definition BOOTSTRAP_BEHAVIOR :: dict where
  "BOOTSTRAP_BEHAVIOR =
     [(''checkpoint_object'', JStr ''registry-snapshot-v1''), (''checkpoint_form'', JStr ''path''),
      (''verified_before_network'', jtrue), (''tofu_posture'', JStr ''registry_bootstrap_tofu''),
      (''regression_diagnostic'', JStr ''registry_checkpoint_regression''),
      (''first_fixation_source'', JStr ''checkpoint-or-network-only'')]"

definition BOOTSTRAP_DIVERGENCE_BEHAVIOR :: dict where
  "BOOTSTRAP_DIVERGENCE_BEHAVIOR =
     [(''compared_at'', JStr ''same_log_size''), (''diagnostic'', JStr ''registry_view_divergence''),
      (''resolution_changed'', jfalse), (''quorum'', jfalse)]"

definition check_summary :: "string \<Rightarrow> dict \<Rightarrow> json \<Rightarrow> unit res" where
  "check_summary label wants summary =
     and_then (guard (is_dict summary) (fail (label @ '' is incomplete''))) (\<lambda>_.
     for_each (\<lambda>(key, want). guard (py_eq (jget (the_dict summary) key) want) (fail (label @ '' carries '' @ key))) wants)"

definition validate_registry_bootstrap_vectors :: "dict \<Rightarrow> dict \<Rightarrow> unit res" where
  "validate_registry_bootstrap_vectors client behavior =
     and_then (require_named_cases (jget client ''bootstrap_cases'') ''registry-client bootstrap'' BOOTSTRAP_CASES) (\<lambda>_.
     and_then (for_each check_bootstrap_case (cases_of (jget client ''bootstrap_cases''))) (\<lambda>_.
     and_then (check_summary ''registry-behavior bootstrap summary'' BOOTSTRAP_BEHAVIOR (jget behavior ''bootstrap'')) (\<lambda>_.
     check_summary ''registry-behavior divergence summary'' BOOTSTRAP_DIVERGENCE_BEHAVIOR (jget behavior ''divergence''))))"

section \<open>What a passing gate guarantees\<close>

lemma boundary_verdict_accepts:
  "expected_page_boundary_verdict c = Inr (accepted, d, adv) \<Longrightarrow>
    (accepted \<longrightarrow> d = None \<and> truthy (jget c ''boundary_present'') \<and> truthy (jget c ''signature_valid'') \<and>
       truthy (jget c ''chain_boundary_equal'') \<and>
       (\<exists>s b. jget c ''stored_version'' = JInt s \<and> jget c ''boundary_version'' = JInt b \<and> 0 \<le> s \<and> s \<le> b \<and>
          (s = b \<longrightarrow> truthy (jget c ''same_body'')) \<and> adv = (s < b))) \<and>
    (\<not> accepted \<longrightarrow> \<not> adv \<and> d \<noteq> None)"
  by (auto simp: expected_page_boundary_verdict_def Let_def natural_iff split: if_splits)

text \<open>
  A page-boundary vector that passes the gate admits no rollback.  Every case it records as
  accepted carries a present, signed boundary equal to the chain's, at or above the stored
  version, with the same body when equal, and advances the high-water exactly when above; every
  other case changes nothing and excludes the registry.
\<close>

theorem page_boundary_gate_sound:
  assumes "validate_registry_page_boundary_vectors client service = Inr ()"
    and "c \<in> set (cases_of (jget client ''page_boundary_cases''))"
  shows "(jget c ''accepted'' = jtrue \<and> jget c ''diagnostic'' = JNull \<and> jget c ''registry_excluded'' = jfalse \<and>
      truthy (jget c ''boundary_present'') \<and> truthy (jget c ''signature_valid'') \<and>
      truthy (jget c ''chain_boundary_equal'') \<and>
      (\<exists>s b. jget c ''stored_version'' = JInt s \<and> jget c ''boundary_version'' = JInt b \<and> 0 \<le> s \<and> s \<le> b \<and>
         (s = b \<longrightarrow> truthy (jget c ''same_body'')) \<and> jget c ''high_water_advanced'' = JBool (s < b))) \<or>
    (jget c ''accepted'' = jfalse \<and> str_in (jget c ''diagnostic'') PAGE_BOUNDARY_DIAGNOSTICS \<and>
      jget c ''registry_excluded'' = jtrue \<and> jget c ''high_water_advanced'' = jfalse)"
proof -
  have "check_page_boundary_case c = Inr ()"
    using assms by (auto simp: validate_registry_page_boundary_vectors_def and_then_ok_iff for_each_ok_iff)
  then obtain accepted d adv closed where v: "expected_page_boundary_verdict c = Inr (accepted, d, adv)"
    and out: "jget c ''accepted'' = JBool accepted" "jget c ''diagnostic'' = jopt d"
      "jget c ''high_water_advanced'' = JBool adv" "jget c ''registry_excluded'' = JBool (\<not> accepted)"
    and closed: "jget c ''diagnostic'' \<noteq> JNull \<Longrightarrow>
      in_frozenset (jget c ''diagnostic'') PAGE_BOUNDARY_DIAGNOSTICS = Inr True"
    by (auto simp: check_page_boundary_case_def and_then_ok_iff split: prod.splits if_splits)
  show ?thesis
  proof (cases accepted)
    case True
    then show ?thesis using boundary_verdict_accepts [OF v] out by auto
  next
    case False
    then obtain t where "d = Some t" using boundary_verdict_accepts [OF v] by auto
    then show ?thesis using boundary_verdict_accepts [OF v] out closed False by simp
  qed
qed

text \<open>The outcome section 6 of the profile gives to each required checkpoint name.\<close>

definition checkpoint_outcomes :: "(string \<times> bool \<times> string option \<times> string option) list" where
  "checkpoint_outcomes =
     [(''checkpoint-below-live-consistent'', True, None, None),
      (''checkpoint-equal-consistent'', True, None, None),
      (''checkpoint-equal-inconsistent'', False, Some ''restore_inconsistent_with_checkpoint'', None),
      (''live-below-checkpoint'', False, Some ''restore_below_checkpoint'', None),
      (''live-above-prefix-mismatch'', False, Some ''restore_inconsistent_with_checkpoint'', None),
      (''checkpoint-signature-invalid'', False, Some ''checkpoint_signature_invalid'', None),
      (''checkpoint-not-configured'', True, None, Some ''checkpoint_not_configured'')]"

lemma checkpoint_case_pinned:
  assumes "check_checkpoint_case c = Inr ()" "jget c ''name'' = JStr n"
    "(n, ready, d, p) \<in> set checkpoint_outcomes"
  shows "jget c ''ready'' = JBool ready \<and> jget c ''diagnostic'' = jopt d \<and> jget c ''posture'' = jopt p"
proof -
  have "require_checkpoint_scenario c = Inr ()"
    using assms(1) by (auto simp: check_checkpoint_case_def and_then_ok_iff)
  then have "expected_checkpoint_verdict c = Inr (ready, d, p)"
    using assms(2,3) unfolding checkpoint_outcomes_def require_checkpoint_scenario_def
      expected_checkpoint_verdict_def list.set insert_iff empty_iff prod.inject
    by (elim disjE conjE; simp add: require_checkpoint_relation_def Let_def and_then_ok_iff
        CHECKPOINT_NOT_CONFIGURED_def)
  with assms(1) show ?thesis
    by (auto simp: check_checkpoint_case_def and_then_ok_iff split: if_splits)
qed

text \<open>
  A checkpoint vector that passes the gate carries, under each of the seven required names, a
  case with that name's own outcome: a negative name cannot be served by a passing scenario.
\<close>

theorem checkpoint_gate_pins:
  assumes "validate_registry_checkpoint_vectors service = Inr ()"
    and "(n, ready, d, p) \<in> set checkpoint_outcomes"
  shows "\<exists>c \<in> set (cases_of (jget service ''checkpoint_cases'')). jget c ''name'' = JStr n \<and>
    jget c ''ready'' = JBool ready \<and> jget c ''diagnostic'' = jopt d \<and> jget c ''posture'' = jopt p"
proof -
  have named: "require_named_cases (jget service ''checkpoint_cases'') ''registry-service checkpoint'' CHECKPOINT_CASES = Inr ()"
    and each: "\<And>c. c \<in> set (cases_of (jget service ''checkpoint_cases'')) \<Longrightarrow> check_checkpoint_case c = Inr ()"
    using assms(1) by (auto simp: validate_registry_checkpoint_vectors_def and_then_ok_iff for_each_ok_iff)
  have "n \<in> set CHECKPOINT_CASES" using assms(2) by (auto simp: checkpoint_outcomes_def CHECKPOINT_CASES_def)
  then obtain c where c: "c \<in> set (cases_of (jget service ''checkpoint_cases''))" "jget c ''name'' = JStr n"
    using named unfolding require_named_cases_ok by blast
  show ?thesis using checkpoint_case_pinned [OF each [OF c(1)] c(2) assms(2)] c by blast
qed

text \<open>The outcome sections 5 and 5.1 give to each required bootstrap name.\<close>

definition bootstrap_outcomes :: "(string \<times> verdict) list" where
  "bootstrap_outcomes =
     [(''checkpoint-first-use-accepted'', Verdict True True None None None False False False True),
      (''checkpoint-first-network-below-tampered'', Verdict False True None None None False True False True),
      (''checkpoint-first-network-equal-different-tampered'', Verdict False True None None None False True False True),
      (''no-checkpoint-first-use-tofu'',
        Verdict True True None (Some ''registry_bootstrap_tofu'') (Some ''warning'') False False False True),
      (''checkpoint-signature-invalid-first-use'', Verdict False False None None None False True False False),
      (''rebootstrap-advance-accepted'', Verdict True True None None None False False False True),
      (''rebootstrap-equal-consistent-noop'', Verdict True False None None None False False False True),
      (''rebootstrap-regression-refused'',
        Verdict False False (Some ''registry_checkpoint_regression'') None (Some ''error'') False False False False),
      (''rebootstrap-equal-inconsistent-refused'',
        Verdict False False (Some ''registry_checkpoint_regression'') None (Some ''error'') False False False False),
      (''rebootstrap-signature-invalid-ignored'', Verdict False False None None None False False False True),
      (''divergence-detected-advisory'',
        Verdict True False (Some ''registry_view_divergence'') None (Some ''warning'') True False False True),
      (''divergence-detected-strict'',
        Verdict True False (Some ''registry_view_divergence'') None (Some ''error'') True False False False),
      (''divergence-views-agree'', Verdict True False None None None True False False True),
      (''divergence-different-sizes-skipped'', Verdict True False None None None False False False True),
      (''divergence-single-registry-skipped'', Verdict True False None None None False False False True)]"

lemmas bootstrap_group_defs = require_first_use_def require_rebootstrap_def require_divergence_def
  compare_verdict_def first_use_verdict_def rebootstrap_verdict_def bootstrap_version_def bootstrap_bool_def

lemma first_use_pinned:
  assumes "require_first_use n c = Inr ()" "(n, v) \<in> set (take 5 bootstrap_outcomes)"
    "expected_bootstrap_verdict c = Inr w"
  shows "w = v"
  using assms unfolding bootstrap_outcomes_def
  by (simp add: eval_nat_numeral;
      elim disjE conjE;
      auto simp: expected_bootstrap_verdict_def and_then_ok_iff bootstrap_group_defs
        BOOTSTRAP_POSTURE_def split: if_splits json.splits)

lemma rebootstrap_pinned:
  assumes "require_rebootstrap n c = Inr ()" "(n, v) \<in> set (take 5 (drop 5 bootstrap_outcomes))"
    "expected_bootstrap_verdict c = Inr w"
  shows "w = v"
  using assms unfolding bootstrap_outcomes_def
  by (simp add: eval_nat_numeral;
      elim disjE conjE;
      auto simp: expected_bootstrap_verdict_def and_then_ok_iff bootstrap_group_defs
        BOOTSTRAP_POSTURE_def split: if_splits json.splits)

lemma divergence_pinned:
  assumes "require_divergence n c = Inr ()" "(n, v) \<in> set (drop 10 bootstrap_outcomes)"
    "expected_bootstrap_verdict c = Inr w"
  shows "w = v"
  using assms unfolding bootstrap_outcomes_def
  by (simp add: eval_nat_numeral;
      elim disjE conjE;
      auto simp: expected_bootstrap_verdict_def and_then_ok_iff bootstrap_group_defs
        BOOTSTRAP_POSTURE_def split: if_splits json.splits)

lemma bootstrap_case_pinned:
  assumes case_ok: "check_bootstrap_case c = Inr ()" and name: "jget c ''name'' = JStr n"
    and out: "(n, v) \<in> set bootstrap_outcomes"
  shows "list_all2 (\<lambda>field want. py_eq want (jget c field)) verdict_fields (verdict_values v)"
proof -
  obtain w where sc: "require_bootstrap_scenario c = Inr ()" and w: "expected_bootstrap_verdict c = Inr w"
    and rec: "recorded_as w c = Inr ()"
    using case_ok by (auto simp: check_bootstrap_case_def and_then_ok_iff)
  then have eq: "find (\<lambda>(field, want). \<not> py_eq want (jget c field)) (zip verdict_fields (verdict_values w)) = None"
    by (auto simp: recorded_as_def split: option.splits)
  have split: "bootstrap_outcomes = take 5 bootstrap_outcomes @ take 5 (drop 5 bootstrap_outcomes) @ drop 10 bootstrap_outcomes"
    by (simp add: bootstrap_outcomes_def)
  have names: "set (map fst (take 5 bootstrap_outcomes)) = set FIRST_USE_CASES"
    "set (map fst (take 5 (drop 5 bootstrap_outcomes))) = set REBOOTSTRAP_CASES"
    "set (map fst (drop 10 bootstrap_outcomes)) = set DIVERGENCE_CASES"
    "set FIRST_USE_CASES \<inter> set REBOOTSTRAP_CASES = {}" "set FIRST_USE_CASES \<inter> set DIVERGENCE_CASES = {}"
    "set REBOOTSTRAP_CASES \<inter> set DIVERGENCE_CASES = {}"
    by (code_simp)+
  have "w = v"
  proof -
    consider "(n, v) \<in> set (take 5 bootstrap_outcomes)" | "(n, v) \<in> set (take 5 (drop 5 bootstrap_outcomes))"
      | "(n, v) \<in> set (drop 10 bootstrap_outcomes)"
      using out by (subst (asm) split) auto
    then show ?thesis
    proof cases
      case 1
      then have "n \<in> set FIRST_USE_CASES" using names(1) by force
      then show ?thesis using first_use_pinned [OF _ 1 w] sc name by (simp add: require_bootstrap_scenario_def)
    next
      case 2
      then have "n \<in> set REBOOTSTRAP_CASES" using names(2) by force
      then show ?thesis using rebootstrap_pinned [OF _ 2 w] sc name names(4)
        by (auto simp: require_bootstrap_scenario_def Let_def split: if_splits)
    next
      case 3
      then have "n \<in> set DIVERGENCE_CASES" using names(3) by force
      then show ?thesis using divergence_pinned [OF _ 3 w] sc name names(5,6)
        by (auto simp: require_bootstrap_scenario_def Let_def split: if_splits)
    qed
  qed
  then show ?thesis using eq
    by (simp add: verdict_fields_def verdict_values_def list_all2_iff split: if_splits)
qed

text \<open>
  A bootstrap vector that passes the gate carries, under each of the fifteen required names, a
  case whose nine recorded values equal that name's own verdict: tampered first networks,
  regressions and divergences are recorded with the refusal, exclusion, severity and currency the
  protocol gives them.
\<close>

theorem bootstrap_gate_pins:
  assumes "validate_registry_bootstrap_vectors client behavior = Inr ()"
    and "(n, v) \<in> set bootstrap_outcomes"
  shows "\<exists>c \<in> set (cases_of (jget client ''bootstrap_cases'')). jget c ''name'' = JStr n \<and>
    list_all2 (\<lambda>field want. py_eq want (jget c field)) verdict_fields (verdict_values v)"
proof -
  have named: "require_named_cases (jget client ''bootstrap_cases'') ''registry-client bootstrap'' BOOTSTRAP_CASES = Inr ()"
    and each: "\<And>c. c \<in> set (cases_of (jget client ''bootstrap_cases'')) \<Longrightarrow> check_bootstrap_case c = Inr ()"
    using assms(1) by (auto simp: validate_registry_bootstrap_vectors_def and_then_ok_iff for_each_ok_iff)
  have "set (map fst bootstrap_outcomes) = set BOOTSTRAP_CASES" by code_simp
  then have "n \<in> set BOOTSTRAP_CASES" using assms(2) by force
  then obtain c where c: "c \<in> set (cases_of (jget client ''bootstrap_cases''))" "jget c ''name'' = JStr n"
    using named unfolding require_named_cases_ok by blast
  show ?thesis using bootstrap_case_pinned [OF each [OF c(1)] c(2) assms(2)] c by blast
qed

text \<open>The published suite passes the three gates.\<close>

lemma published_page_boundary: "validate_registry_page_boundary_vectors published_client published_service = Inr ()"
  by code_simp

lemma published_checkpoint: "validate_registry_checkpoint_vectors published_service = Inr ()"
  by code_simp

lemma published_bootstrap: "validate_registry_bootstrap_vectors published_client published_behavior = Inr ()"
  by code_simp

theorem page_boundary_gate_sound_witness:
  "\<exists>c \<in> set (cases_of (jget published_client ''page_boundary_cases'')). jget c ''accepted'' = jfalse \<and>
     jget c ''high_water_advanced'' = jfalse"
proof -
  have "list_ex (\<lambda>c. jget c ''accepted'' = jfalse) (cases_of (jget published_client ''page_boundary_cases''))"
    by code_simp
  then obtain c where "c \<in> set (cases_of (jget published_client ''page_boundary_cases''))" "jget c ''accepted'' = jfalse"
    unfolding list_ex_iff by blast
  then show ?thesis using page_boundary_gate_sound [OF published_page_boundary] by fastforce
qed

theorem checkpoint_gate_pins_witness:
  "\<exists>c \<in> set (cases_of (jget published_service ''checkpoint_cases'')).
     jget c ''name'' = JStr ''live-below-checkpoint'' \<and> jget c ''ready'' = jfalse"
  using checkpoint_gate_pins [OF published_checkpoint, of "''live-below-checkpoint''" False]
  by (auto simp: checkpoint_outcomes_def)

theorem bootstrap_gate_pins_witness:
  "\<exists>c \<in> set (cases_of (jget published_client ''bootstrap_cases'')).
     jget c ''name'' = JStr ''rebootstrap-regression-refused'' \<and>
     jget c ''diagnostic'' = JStr ''registry_checkpoint_regression''"
  using bootstrap_gate_pins [OF published_bootstrap, of "''rebootstrap-regression-refused''"]
  by (auto simp: bootstrap_outcomes_def verdict_fields_def verdict_values_def)

end
