(* ===== verification/PosturePins.thy ===== *)
theory PosturePins
  imports Cases
begin

text \<open>
  The closed vocabularies of the security-posture vector and the scenario pins of its cases
  (\<open>SECURITY_POSTURE_*\<close> of \<open>tools/validate.py\<close>).  A pin is a dotted input path with
  the value the path must have, or a marker for absence, non-emptiness or a present value.
\<close>

definition SECURITY_POSTURE_REVISION_DEFAULTS :: dict where
  "SECURITY_POSTURE_REVISION_DEFAULTS = [(''A'', JStr ''permissive''), (''B'', JStr ''hardened'')]"

definition SECURITY_POSTURE_DIAGNOSTICS :: "string list" where
  "SECURITY_POSTURE_DIAGNOSTICS =
     [''source_allowlist_empty'', ''passable_env_names_unbounded_refused'',
      ''security_posture_permissive'', ''registry_unreachable_during_install'']"

definition SECURITY_POSTURE_REFERENCED_DIAGNOSTICS :: "string list" where
  "SECURITY_POSTURE_REFERENCED_DIAGNOSTICS = [''mcp_package_allowlist_empty'']"

definition SECURITY_POSTURE_REFUSALS :: "string list" where
  "SECURITY_POSTURE_REFUSALS =
     [''source_allowlist_empty'', ''mcp_package_allowlist_empty'',
      ''passable_env_names_unbounded_refused'']"

definition SECURITY_POSTURE_PROVENANCE :: "string list" where
  "SECURITY_POSTURE_PROVENANCE = [''profile'', ''explicit'', ''lock'', ''shipped'']"

definition SECURITY_POSTURE_STATUS_GATES :: "string list" where
  "SECURITY_POSTURE_STATUS_GATES =
     [''hook-trust'', ''registry-policy'', ''audit-mode'', ''source-allowlist'', ''env-passthrough'',
      ''transitive-system-modules'', ''provider-trust-roots'', ''source-signers'',
      ''update-confirmation'', ''codex-seed'', ''store-boundary'', ''write-discipline'',
      ''mcp-package-allowlist'']"

definition SECURITY_POSTURE_SCHEMA1_GATES :: "string list" where
  "SECURITY_POSTURE_SCHEMA1_GATES =
     [''hook-trust'', ''registry-policy'', ''audit-mode'', ''source-allowlist'']"

definition SECURITY_POSTURE_DEFAULTS :: dict where
  "SECURITY_POSTURE_DEFAULTS =
     [(''permissive'', JObj [(''audit_mode'', JStr ''advisory''), (''audit_registry_policy'', JStr ''advisory''),
        (''transitive_system_modules'', JStr ''drop''), (''require_source_signers'', jfalse)]),
      (''hardened'', JObj [(''audit_mode'', JStr ''strict''), (''audit_registry_policy'', JStr ''strict''),
        (''transitive_system_modules'', JStr ''error''), (''require_source_signers'', jtrue)])]"

definition SECURITY_POSTURE_DIAGNOSTIC_ORDER :: "string list" where
  "SECURITY_POSTURE_DIAGNOSTIC_ORDER =
     [''security_posture_permissive'', ''source_allowlist_empty'', ''mcp_package_allowlist_empty'',
      ''passable_env_names_unbounded_refused'', ''registry_unreachable_during_install'']"

definition SECURITY_POSTURE_CASES :: "string list" where
  "SECURITY_POSTURE_CASES =
     [''revision-A-default-permissive-status'', ''revision-B-default-hardened-flip-install'',
     ''explicit-hardened-effective-defaults'', ''explicit-knob-beats-profile-default'',
     ''locked-value-beats-explicit'', ''locked-posture-beats-explicit-permissive'',
     ''refusal-source-allowlist-empty-explicit'',
     ''refusal-mcp-allowlist-empty-with-declarations'',
     ''hardened-empty-mcp-allowlist-without-declarations-warns'', ''refusal-passable-env-null'',
     ''revision-A-permissive-warning-once-install'', ''unreachable-registry-permissive-warns'',
     ''unreachable-registry-hardened-refuses'', ''schema1-machine-is-permissive'',
     ''hardened-contradiction-status-check-non-current'',
     ''hardened-absent-passthrough-follows-s4-warn'', ''posture-rows-flipped-revisions'']"

definition pins_revision_A_default_permissive_status :: dict where
  "pins_revision_A_default_permissive_status =
     [(''rollout_revision'', JStr ''A''),
      (''machine.schema_version'', JInt 2),
      (''machine.security_posture'', JStr ''<absent>''),
      (''machine.audit'', JStr ''<absent>''),
      (''machine.allowed_sources'', JStr ''<absent>''),
      (''machine.environments'', JStr ''<absent>''),
      (''system.locked'', JStr ''<absent>''),
      (''system.audit'', JStr ''<absent>''),
      (''system.allowed_sources'', JStr ''<absent>''),
      (''system.security_posture'', JStr ''<absent>''),
      (''system.environments'', JStr ''<absent>''),
      (''shipped_revisions.hook_trust'', JStr ''A-warning''),
      (''shipped_revisions.env_passthrough'', JStr ''s4-enforce''),
      (''shipped_revisions.provider_trust_roots'', JStr ''revision-A''),
      (''shipped_revisions.update_confirmation'', JStr ''A-warning''),
      (''shipped_revisions.codex_seed'', JStr ''A''),
      (''operation.kind'', JStr ''status''),
      (''operation.mcp_declarations_present'', jfalse),
      (''operation.unreachable_trusted_registries'', JArr []),
      (''operation.artifacts_without_evidence'', JArr []),
      (''effective.profile'', JStr ''permissive''),
      (''effective.profile_source'', JStr ''profile'')]"

definition pins_revision_B_default_hardened_flip_install :: dict where
  "pins_revision_B_default_hardened_flip_install =
     [(''rollout_revision'', JStr ''B''),
      (''machine.schema_version'', JInt 2),
      (''machine.security_posture'', JStr ''<absent>''),
      (''machine.audit'', JStr ''<absent>''),
      (''machine.allowed_sources'', JObj [(''nonempty'', jtrue)]),
      (''machine.environments.mcp_package_allowlist'', JObj [(''nonempty'', jtrue)]),
      (''machine.environments.passable_env_names'', JStr ''<absent>''),
      (''machine.environments.transitive_system_modules'', JStr ''<absent>''),
      (''machine.environments.require_source_signers'', JStr ''<absent>''),
      (''system.locked'', JStr ''<absent>''),
      (''system.audit'', JStr ''<absent>''),
      (''system.allowed_sources'', JStr ''<absent>''),
      (''system.security_posture'', JStr ''<absent>''),
      (''system.environments'', JStr ''<absent>''),
      (''shipped_revisions.hook_trust'', JStr ''A-warning''),
      (''shipped_revisions.env_passthrough'', JStr ''s4-enforce''),
      (''shipped_revisions.provider_trust_roots'', JStr ''revision-A''),
      (''shipped_revisions.update_confirmation'', JStr ''A-warning''),
      (''shipped_revisions.codex_seed'', JStr ''A''),
      (''operation.kind'', JStr ''install''),
      (''operation.mcp_declarations_present'', jfalse),
      (''operation.unreachable_trusted_registries'', JArr []),
      (''operation.artifacts_without_evidence'', JArr []),
      (''effective.profile'', JStr ''hardened''),
      (''effective.profile_source'', JStr ''profile'')]"

definition pins_explicit_hardened_effective_defaults :: dict where
  "pins_explicit_hardened_effective_defaults =
     [(''rollout_revision'', JStr ''A''),
      (''machine.schema_version'', JInt 2),
      (''machine.security_posture'', JStr ''hardened''),
      (''machine.audit'', JStr ''<absent>''),
      (''machine.allowed_sources'', JStr ''<absent>''),
      (''machine.environments'', JStr ''<absent>''),
      (''system.locked'', JStr ''<absent>''),
      (''system.audit'', JStr ''<absent>''),
      (''system.allowed_sources'', JStr ''<absent>''),
      (''system.security_posture'', JStr ''<absent>''),
      (''system.environments'', JStr ''<absent>''),
      (''shipped_revisions.hook_trust'', JStr ''A-warning''),
      (''shipped_revisions.env_passthrough'', JStr ''s4-enforce''),
      (''shipped_revisions.provider_trust_roots'', JStr ''revision-A''),
      (''shipped_revisions.update_confirmation'', JStr ''A-warning''),
      (''shipped_revisions.codex_seed'', JStr ''A''),
      (''operation.kind'', JStr ''status''),
      (''operation.mcp_declarations_present'', jfalse),
      (''operation.unreachable_trusted_registries'', JArr []),
      (''operation.artifacts_without_evidence'', JArr []),
      (''effective.profile'', JStr ''hardened''),
      (''effective.profile_source'', JStr ''explicit'')]"

definition pins_explicit_knob_beats_profile_default :: dict where
  "pins_explicit_knob_beats_profile_default =
     [(''rollout_revision'', JStr ''A''),
      (''machine.schema_version'', JInt 2),
      (''machine.security_posture'', JStr ''hardened''),
      (''machine.audit.mode'', JStr ''advisory''),
      (''machine.audit.registry_policy'', JStr ''<absent>''),
      (''machine.allowed_sources'', JObj [(''nonempty'', jtrue)]),
      (''machine.environments.mcp_package_allowlist'', JObj [(''nonempty'', jtrue)]),
      (''machine.environments.passable_env_names'', JStr ''<absent>''),
      (''machine.environments.transitive_system_modules'', JStr ''<absent>''),
      (''machine.environments.require_source_signers'', JStr ''<absent>''),
      (''system.locked'', JStr ''<absent>''),
      (''system.audit'', JStr ''<absent>''),
      (''system.allowed_sources'', JStr ''<absent>''),
      (''system.security_posture'', JStr ''<absent>''),
      (''system.environments'', JStr ''<absent>''),
      (''shipped_revisions.hook_trust'', JStr ''A-warning''),
      (''shipped_revisions.env_passthrough'', JStr ''s4-enforce''),
      (''shipped_revisions.provider_trust_roots'', JStr ''revision-A''),
      (''shipped_revisions.update_confirmation'', JStr ''A-warning''),
      (''shipped_revisions.codex_seed'', JStr ''A''),
      (''operation.kind'', JStr ''install''),
      (''operation.mcp_declarations_present'', jfalse),
      (''operation.unreachable_trusted_registries'', JArr []),
      (''operation.artifacts_without_evidence'', JArr []),
      (''effective.profile'', JStr ''hardened''),
      (''effective.profile_source'', JStr ''explicit'')]"

definition pins_locked_value_beats_explicit :: dict where
  "pins_locked_value_beats_explicit =
     [(''rollout_revision'', JStr ''A''),
      (''machine.schema_version'', JInt 2),
      (''machine.security_posture'', JStr ''<absent>''),
      (''machine.audit.mode'', JStr ''advisory''),
      (''machine.audit.registry_policy'', JStr ''advisory''),
      (''machine.allowed_sources'', JStr ''<absent>''),
      (''machine.environments'', JStr ''<absent>''),
      (''system.locked'', JArr [JStr ''audit'']),
      (''system.audit.mode'', JStr ''strict''),
      (''system.audit.registry_policy'', JStr ''strict''),
      (''system.allowed_sources'', JStr ''<absent>''),
      (''system.security_posture'', JStr ''<absent>''),
      (''system.environments'', JStr ''<absent>''),
      (''shipped_revisions.hook_trust'', JStr ''A-warning''),
      (''shipped_revisions.env_passthrough'', JStr ''s4-enforce''),
      (''shipped_revisions.provider_trust_roots'', JStr ''revision-A''),
      (''shipped_revisions.update_confirmation'', JStr ''A-warning''),
      (''shipped_revisions.codex_seed'', JStr ''A''),
      (''operation.kind'', JStr ''status''),
      (''operation.mcp_declarations_present'', jfalse),
      (''operation.unreachable_trusted_registries'', JArr []),
      (''operation.artifacts_without_evidence'', JArr []),
      (''effective.profile'', JStr ''permissive''),
      (''effective.profile_source'', JStr ''profile'')]"

definition pins_locked_posture_beats_explicit_permissive :: dict where
  "pins_locked_posture_beats_explicit_permissive =
     [(''rollout_revision'', JStr ''A''),
      (''machine.schema_version'', JInt 2),
      (''machine.security_posture'', JStr ''permissive''),
      (''machine.audit'', JStr ''<absent>''),
      (''machine.allowed_sources'', JStr ''<absent>''),
      (''machine.environments'', JStr ''<absent>''),
      (''system.locked'', JArr [JStr ''security_posture'']),
      (''system.security_posture'', JStr ''hardened''),
      (''system.audit'', JStr ''<absent>''),
      (''system.allowed_sources'', JStr ''<absent>''),
      (''system.environments'', JStr ''<absent>''),
      (''shipped_revisions.hook_trust'', JStr ''A-warning''),
      (''shipped_revisions.env_passthrough'', JStr ''s4-enforce''),
      (''shipped_revisions.provider_trust_roots'', JStr ''revision-A''),
      (''shipped_revisions.update_confirmation'', JStr ''A-warning''),
      (''shipped_revisions.codex_seed'', JStr ''A''),
      (''operation.kind'', JStr ''status''),
      (''operation.mcp_declarations_present'', jfalse),
      (''operation.unreachable_trusted_registries'', JArr []),
      (''operation.artifacts_without_evidence'', JArr []),
      (''effective.profile'', JStr ''hardened''),
      (''effective.profile_source'', JStr ''lock'')]"

definition pins_refusal_source_allowlist_empty_explicit :: dict where
  "pins_refusal_source_allowlist_empty_explicit =
     [(''rollout_revision'', JStr ''A''),
      (''machine.schema_version'', JInt 2),
      (''machine.security_posture'', JStr ''hardened''),
      (''machine.audit'', JStr ''<absent>''),
      (''machine.allowed_sources'', JArr []),
      (''machine.environments'', JStr ''<absent>''),
      (''system.locked'', JStr ''<absent>''),
      (''system.audit'', JStr ''<absent>''),
      (''system.allowed_sources'', JStr ''<absent>''),
      (''system.security_posture'', JStr ''<absent>''),
      (''system.environments'', JStr ''<absent>''),
      (''shipped_revisions.hook_trust'', JStr ''A-warning''),
      (''shipped_revisions.env_passthrough'', JStr ''s4-enforce''),
      (''shipped_revisions.provider_trust_roots'', JStr ''revision-A''),
      (''shipped_revisions.update_confirmation'', JStr ''A-warning''),
      (''shipped_revisions.codex_seed'', JStr ''A''),
      (''operation.kind'', JStr ''install''),
      (''operation.mcp_declarations_present'', jfalse),
      (''operation.unreachable_trusted_registries'', JArr []),
      (''operation.artifacts_without_evidence'', JArr []),
      (''effective.profile'', JStr ''hardened''),
      (''effective.profile_source'', JStr ''explicit'')]"

definition pins_refusal_mcp_allowlist_empty_with_declarations :: dict where
  "pins_refusal_mcp_allowlist_empty_with_declarations =
     [(''rollout_revision'', JStr ''B''),
      (''machine.schema_version'', JInt 2),
      (''machine.security_posture'', JStr ''<absent>''),
      (''machine.audit'', JStr ''<absent>''),
      (''machine.allowed_sources'', JObj [(''nonempty'', jtrue)]),
      (''machine.environments'', JStr ''<absent>''),
      (''system.locked'', JStr ''<absent>''),
      (''system.audit'', JStr ''<absent>''),
      (''system.allowed_sources'', JStr ''<absent>''),
      (''system.security_posture'', JStr ''<absent>''),
      (''system.environments'', JStr ''<absent>''),
      (''shipped_revisions.hook_trust'', JStr ''A-warning''),
      (''shipped_revisions.env_passthrough'', JStr ''s4-enforce''),
      (''shipped_revisions.provider_trust_roots'', JStr ''revision-A''),
      (''shipped_revisions.update_confirmation'', JStr ''A-warning''),
      (''shipped_revisions.codex_seed'', JStr ''A''),
      (''operation.kind'', JStr ''profile-install''),
      (''operation.mcp_declarations_present'', jtrue),
      (''operation.unreachable_trusted_registries'', JArr []),
      (''operation.artifacts_without_evidence'', JArr []),
      (''effective.profile'', JStr ''hardened''),
      (''effective.profile_source'', JStr ''profile'')]"

definition pins_hardened_empty_mcp_allowlist_without_declarations_warns :: dict where
  "pins_hardened_empty_mcp_allowlist_without_declarations_warns =
     [(''rollout_revision'', JStr ''B''),
      (''machine.schema_version'', JInt 2),
      (''machine.security_posture'', JStr ''hardened''),
      (''machine.audit'', JStr ''<absent>''),
      (''machine.allowed_sources'', JObj [(''nonempty'', jtrue)]),
      (''machine.environments'', JStr ''<absent>''),
      (''system.locked'', JStr ''<absent>''),
      (''system.audit'', JStr ''<absent>''),
      (''system.allowed_sources'', JStr ''<absent>''),
      (''system.security_posture'', JStr ''<absent>''),
      (''system.environments'', JStr ''<absent>''),
      (''shipped_revisions.hook_trust'', JStr ''A-warning''),
      (''shipped_revisions.env_passthrough'', JStr ''s4-enforce''),
      (''shipped_revisions.provider_trust_roots'', JStr ''revision-A''),
      (''shipped_revisions.update_confirmation'', JStr ''A-warning''),
      (''shipped_revisions.codex_seed'', JStr ''A''),
      (''operation.kind'', JStr ''profile-install''),
      (''operation.mcp_declarations_present'', jfalse),
      (''operation.unreachable_trusted_registries'', JArr []),
      (''operation.artifacts_without_evidence'', JArr []),
      (''effective.profile'', JStr ''hardened''),
      (''effective.profile_source'', JStr ''explicit'')]"

definition pins_refusal_passable_env_null :: dict where
  "pins_refusal_passable_env_null =
     [(''rollout_revision'', JStr ''A''),
      (''machine.schema_version'', JInt 2),
      (''machine.security_posture'', JStr ''hardened''),
      (''machine.audit'', JStr ''<absent>''),
      (''machine.allowed_sources'', JObj [(''nonempty'', jtrue)]),
      (''machine.environments.mcp_package_allowlist'', JObj [(''nonempty'', jtrue)]),
      (''machine.environments.passable_env_names'', JObj [(''present'', JNull)]),
      (''machine.environments.transitive_system_modules'', JStr ''<absent>''),
      (''machine.environments.require_source_signers'', JStr ''<absent>''),
      (''system.locked'', JStr ''<absent>''),
      (''system.audit'', JStr ''<absent>''),
      (''system.allowed_sources'', JStr ''<absent>''),
      (''system.security_posture'', JStr ''<absent>''),
      (''system.environments'', JStr ''<absent>''),
      (''shipped_revisions.hook_trust'', JStr ''A-warning''),
      (''shipped_revisions.env_passthrough'', JStr ''s4-enforce''),
      (''shipped_revisions.provider_trust_roots'', JStr ''revision-A''),
      (''shipped_revisions.update_confirmation'', JStr ''A-warning''),
      (''shipped_revisions.codex_seed'', JStr ''A''),
      (''operation.kind'', JStr ''profile-install''),
      (''operation.mcp_declarations_present'', jtrue),
      (''operation.unreachable_trusted_registries'', JArr []),
      (''operation.artifacts_without_evidence'', JArr []),
      (''effective.profile'', JStr ''hardened''),
      (''effective.profile_source'', JStr ''explicit'')]"

definition pins_revision_A_permissive_warning_once_install :: dict where
  "pins_revision_A_permissive_warning_once_install =
     [(''rollout_revision'', JStr ''A''),
      (''machine.schema_version'', JInt 2),
      (''machine.security_posture'', JStr ''<absent>''),
      (''machine.audit'', JStr ''<absent>''),
      (''machine.allowed_sources'', JStr ''<absent>''),
      (''machine.environments'', JStr ''<absent>''),
      (''system.locked'', JStr ''<absent>''),
      (''system.audit'', JStr ''<absent>''),
      (''system.allowed_sources'', JStr ''<absent>''),
      (''system.security_posture'', JStr ''<absent>''),
      (''system.environments'', JStr ''<absent>''),
      (''shipped_revisions.hook_trust'', JStr ''A-warning''),
      (''shipped_revisions.env_passthrough'', JStr ''s4-enforce''),
      (''shipped_revisions.provider_trust_roots'', JStr ''revision-A''),
      (''shipped_revisions.update_confirmation'', JStr ''A-warning''),
      (''shipped_revisions.codex_seed'', JStr ''A''),
      (''operation.kind'', JStr ''install''),
      (''operation.mcp_declarations_present'', jfalse),
      (''operation.unreachable_trusted_registries'', JArr []),
      (''operation.artifacts_without_evidence'', JArr []),
      (''effective.profile'', JStr ''permissive''),
      (''effective.profile_source'', JStr ''profile'')]"

definition pins_unreachable_registry_permissive_warns :: dict where
  "pins_unreachable_registry_permissive_warns =
     [(''rollout_revision'', JStr ''A''),
      (''machine.schema_version'', JInt 2),
      (''machine.security_posture'', JStr ''<absent>''),
      (''machine.audit'', JStr ''<absent>''),
      (''machine.allowed_sources'', JObj [(''nonempty'', jtrue)]),
      (''machine.environments'', JStr ''<absent>''),
      (''system.locked'', JStr ''<absent>''),
      (''system.audit'', JStr ''<absent>''),
      (''system.allowed_sources'', JStr ''<absent>''),
      (''system.security_posture'', JStr ''<absent>''),
      (''system.environments'', JStr ''<absent>''),
      (''shipped_revisions.hook_trust'', JStr ''A-warning''),
      (''shipped_revisions.env_passthrough'', JStr ''s4-enforce''),
      (''shipped_revisions.provider_trust_roots'', JStr ''revision-A''),
      (''shipped_revisions.update_confirmation'', JStr ''A-warning''),
      (''shipped_revisions.codex_seed'', JStr ''A''),
      (''operation.kind'', JStr ''install''),
      (''operation.mcp_declarations_present'', jfalse),
      (''operation.unreachable_trusted_registries'', JObj [(''nonempty'', jtrue)]),
      (''operation.artifacts_without_evidence'', JObj [(''nonempty'', jtrue)]),
      (''effective.profile'', JStr ''permissive''),
      (''effective.profile_source'', JStr ''profile'')]"

definition pins_unreachable_registry_hardened_refuses :: dict where
  "pins_unreachable_registry_hardened_refuses =
     [(''rollout_revision'', JStr ''A''),
      (''machine.schema_version'', JInt 2),
      (''machine.security_posture'', JStr ''hardened''),
      (''machine.audit'', JStr ''<absent>''),
      (''machine.allowed_sources'', JObj [(''nonempty'', jtrue)]),
      (''machine.environments'', JStr ''<absent>''),
      (''system.locked'', JStr ''<absent>''),
      (''system.audit'', JStr ''<absent>''),
      (''system.allowed_sources'', JStr ''<absent>''),
      (''system.security_posture'', JStr ''<absent>''),
      (''system.environments'', JStr ''<absent>''),
      (''shipped_revisions.hook_trust'', JStr ''A-warning''),
      (''shipped_revisions.env_passthrough'', JStr ''s4-enforce''),
      (''shipped_revisions.provider_trust_roots'', JStr ''revision-A''),
      (''shipped_revisions.update_confirmation'', JStr ''A-warning''),
      (''shipped_revisions.codex_seed'', JStr ''A''),
      (''operation.kind'', JStr ''install''),
      (''operation.mcp_declarations_present'', jfalse),
      (''operation.unreachable_trusted_registries'', JObj [(''nonempty'', jtrue)]),
      (''operation.artifacts_without_evidence'', JObj [(''nonempty'', jtrue)]),
      (''effective.profile'', JStr ''hardened''),
      (''effective.profile_source'', JStr ''explicit'')]"

definition pins_schema1_machine_is_permissive :: dict where
  "pins_schema1_machine_is_permissive =
     [(''rollout_revision'', JStr ''B''),
      (''machine.schema_version'', JInt 1),
      (''machine.security_posture'', JStr ''<absent>''),
      (''machine.audit.mode'', JStr ''advisory''),
      (''machine.audit.registry_policy'', JStr ''<absent>''),
      (''machine.allowed_sources'', JStr ''<absent>''),
      (''machine.environments'', JStr ''<absent>''),
      (''system.locked'', JStr ''<absent>''),
      (''system.audit'', JStr ''<absent>''),
      (''system.allowed_sources'', JStr ''<absent>''),
      (''system.security_posture'', JStr ''<absent>''),
      (''system.environments'', JStr ''<absent>''),
      (''shipped_revisions.hook_trust'', JStr ''A-warning''),
      (''shipped_revisions.env_passthrough'', JStr ''s4-enforce''),
      (''shipped_revisions.provider_trust_roots'', JStr ''revision-A''),
      (''shipped_revisions.update_confirmation'', JStr ''A-warning''),
      (''shipped_revisions.codex_seed'', JStr ''A''),
      (''operation.kind'', JStr ''install''),
      (''operation.mcp_declarations_present'', jfalse),
      (''operation.unreachable_trusted_registries'', JArr []),
      (''operation.artifacts_without_evidence'', JArr []),
      (''effective.profile'', JStr ''permissive''),
      (''effective.profile_source'', JStr ''profile'')]"

definition pins_hardened_contradiction_status_check_non_current :: dict where
  "pins_hardened_contradiction_status_check_non_current =
     [(''rollout_revision'', JStr ''B''),
      (''machine.schema_version'', JInt 2),
      (''machine.security_posture'', JStr ''<absent>''),
      (''machine.audit'', JStr ''<absent>''),
      (''machine.allowed_sources'', JStr ''<absent>''),
      (''machine.environments'', JStr ''<absent>''),
      (''system.locked'', JStr ''<absent>''),
      (''system.audit'', JStr ''<absent>''),
      (''system.allowed_sources'', JStr ''<absent>''),
      (''system.security_posture'', JStr ''<absent>''),
      (''system.environments'', JStr ''<absent>''),
      (''shipped_revisions.hook_trust'', JStr ''A-warning''),
      (''shipped_revisions.env_passthrough'', JStr ''s4-enforce''),
      (''shipped_revisions.provider_trust_roots'', JStr ''revision-A''),
      (''shipped_revisions.update_confirmation'', JStr ''A-warning''),
      (''shipped_revisions.codex_seed'', JStr ''A''),
      (''operation.kind'', JStr ''status-check''),
      (''operation.mcp_declarations_present'', jtrue),
      (''operation.unreachable_trusted_registries'', JArr []),
      (''operation.artifacts_without_evidence'', JArr []),
      (''effective.profile'', JStr ''hardened''),
      (''effective.profile_source'', JStr ''profile'')]"

definition pins_hardened_absent_passthrough_follows_s4_warn :: dict where
  "pins_hardened_absent_passthrough_follows_s4_warn =
     [(''rollout_revision'', JStr ''A''),
      (''machine.schema_version'', JInt 2),
      (''machine.security_posture'', JStr ''hardened''),
      (''machine.audit'', JStr ''<absent>''),
      (''machine.allowed_sources'', JObj [(''nonempty'', jtrue)]),
      (''machine.environments.mcp_package_allowlist'', JObj [(''nonempty'', jtrue)]),
      (''machine.environments.passable_env_names'', JStr ''<absent>''),
      (''machine.environments.transitive_system_modules'', JStr ''<absent>''),
      (''machine.environments.require_source_signers'', JStr ''<absent>''),
      (''system.locked'', JStr ''<absent>''),
      (''system.audit'', JStr ''<absent>''),
      (''system.allowed_sources'', JStr ''<absent>''),
      (''system.security_posture'', JStr ''<absent>''),
      (''system.environments'', JStr ''<absent>''),
      (''shipped_revisions.hook_trust'', JStr ''A-warning''),
      (''shipped_revisions.env_passthrough'', JStr ''s4-warn''),
      (''shipped_revisions.provider_trust_roots'', JStr ''revision-A''),
      (''shipped_revisions.update_confirmation'', JStr ''A-warning''),
      (''shipped_revisions.codex_seed'', JStr ''A''),
      (''operation.kind'', JStr ''profile-install''),
      (''operation.mcp_declarations_present'', jtrue),
      (''operation.unreachable_trusted_registries'', JArr []),
      (''operation.artifacts_without_evidence'', JArr []),
      (''effective.profile'', JStr ''hardened''),
      (''effective.profile_source'', JStr ''explicit'')]"

definition pins_posture_rows_flipped_revisions :: dict where
  "pins_posture_rows_flipped_revisions =
     [(''rollout_revision'', JStr ''B''),
      (''machine.schema_version'', JInt 2),
      (''machine.security_posture'', JStr ''hardened''),
      (''machine.audit.mode'', JStr ''strict''),
      (''machine.audit.registry_policy'', JStr ''<absent>''),
      (''machine.allowed_sources'', JObj [(''nonempty'', jtrue)]),
      (''machine.environments.mcp_package_allowlist'', JObj [(''nonempty'', jtrue)]),
      (''machine.environments.passable_env_names'', JStr ''<absent>''),
      (''machine.environments.transitive_system_modules'', JStr ''error''),
      (''machine.environments.require_source_signers'', jtrue),
      (''system.locked'', JStr ''<absent>''),
      (''system.audit'', JStr ''<absent>''),
      (''system.allowed_sources'', JStr ''<absent>''),
      (''system.security_posture'', JStr ''<absent>''),
      (''system.environments'', JStr ''<absent>''),
      (''shipped_revisions.hook_trust'', JStr ''B-enforcing''),
      (''shipped_revisions.env_passthrough'', JStr ''s4-enforce''),
      (''shipped_revisions.provider_trust_roots'', JStr ''revision-B''),
      (''shipped_revisions.update_confirmation'', JStr ''B-flip''),
      (''shipped_revisions.codex_seed'', JStr ''B''),
      (''operation.kind'', JStr ''status''),
      (''operation.mcp_declarations_present'', jtrue),
      (''operation.unreachable_trusted_registries'', JArr []),
      (''operation.artifacts_without_evidence'', JArr []),
      (''effective.profile'', JStr ''hardened''),
      (''effective.profile_source'', JStr ''explicit'')]"

definition SECURITY_POSTURE_SCENARIOS :: "(string \<times> dict) list" where
  "SECURITY_POSTURE_SCENARIOS =
     [(''revision-A-default-permissive-status'', pins_revision_A_default_permissive_status),
      (''revision-B-default-hardened-flip-install'', pins_revision_B_default_hardened_flip_install),
      (''explicit-hardened-effective-defaults'', pins_explicit_hardened_effective_defaults),
      (''explicit-knob-beats-profile-default'', pins_explicit_knob_beats_profile_default),
      (''locked-value-beats-explicit'', pins_locked_value_beats_explicit),
      (''locked-posture-beats-explicit-permissive'', pins_locked_posture_beats_explicit_permissive),
      (''refusal-source-allowlist-empty-explicit'', pins_refusal_source_allowlist_empty_explicit),
      (''refusal-mcp-allowlist-empty-with-declarations'', pins_refusal_mcp_allowlist_empty_with_declarations),
      (''hardened-empty-mcp-allowlist-without-declarations-warns'', pins_hardened_empty_mcp_allowlist_without_declarations_warns),
      (''refusal-passable-env-null'', pins_refusal_passable_env_null),
      (''revision-A-permissive-warning-once-install'', pins_revision_A_permissive_warning_once_install),
      (''unreachable-registry-permissive-warns'', pins_unreachable_registry_permissive_warns),
      (''unreachable-registry-hardened-refuses'', pins_unreachable_registry_hardened_refuses),
      (''schema1-machine-is-permissive'', pins_schema1_machine_is_permissive),
      (''hardened-contradiction-status-check-non-current'', pins_hardened_contradiction_status_check_non_current),
      (''hardened-absent-passthrough-follows-s4-warn'', pins_hardened_absent_passthrough_follows_s4_warn),
      (''posture-rows-flipped-revisions'', pins_posture_rows_flipped_revisions)]"

end
