(* ===== verification/PostureVectors.thy ===== *)
theory PostureVectors
  imports PyPrelude
begin

text \<open>
  Two cases of the published security-posture vector
  (\<open>conformance/v1/vectors/security-posture.json\<close>), inputs of the gate of theory \<open>Posture\<close>.
\<close>

definition case_revision_B_default_hardened_flip_install :: "dict" where
  "case_revision_B_default_hardened_flip_install =
     [(''name'', JStr ''revision-B-default-hardened-flip-install''), (''rollout_revision'', JStr
     ''B''), (''machine'', JObj [(''schema_version'', JInt 2), (''allowed_sources'', JArr [JStr
     ''https://github.com/example/skills'']), (''environments'', JObj
     [(''mcp_package_allowlist'', JArr [JStr ''https://github.com/example/mcp''])])]),
     (''system'', JObj []), (''shipped_revisions'', JObj [(''hook_trust'', JStr ''A-warning''),
     (''env_passthrough'', JStr ''s4-enforce''), (''provider_trust_roots'', JStr ''revision-A''),
     (''update_confirmation'', JStr ''A-warning''), (''codex_seed'', JStr ''A'')]),
     (''operation'', JObj [(''kind'', JStr ''install''), (''mcp_declarations_present'', jfalse),
     (''unreachable_trusted_registries'', JArr []), (''artifacts_without_evidence'', JArr [])]),
     (''expected'', JObj [(''profile'', JStr ''hardened''), (''profile_source'', JStr
     ''profile''), (''effective'', JObj [(''audit_mode'', JStr ''strict''),
     (''audit_registry_policy'', JStr ''strict''), (''allowed_sources'', JArr [JStr
     ''https://github.com/example/skills'']), (''mcp_package_allowlist'', JArr [JStr
     ''https://github.com/example/mcp'']), (''passable_env_names'', JArr []),
     (''transitive_system_modules'', JStr ''error''), (''require_source_signers'', jtrue)]),
     (''sources'', JObj [(''audit_mode'', JStr ''profile''), (''audit_registry_policy'', JStr
     ''profile''), (''allowed_sources'', JStr ''explicit''), (''mcp_package_allowlist'', JStr
     ''explicit''), (''passable_env_names'', JStr ''profile''), (''transitive_system_modules'',
     JStr ''profile''), (''require_source_signers'', JStr ''profile'')]),
     (''passable_env_null_explicit'', jfalse), (''diagnostics'', JArr []), (''outcome'', JStr
     ''proceeds''), (''curator_status_rows'', JArr [JObj [(''gate'', JStr ''security_posture''),
     (''value'', JStr ''hardened''), (''source'', JStr ''profile'')], JObj [(''gate'', JStr
     ''hook-trust''), (''value'', JStr ''A-warning''), (''source'', JStr ''shipped'')], JObj
     [(''gate'', JStr ''registry-policy''), (''value'', JStr ''strict''), (''source'', JStr
     ''profile'')], JObj [(''gate'', JStr ''audit-mode''), (''value'', JStr ''strict''),
     (''source'', JStr ''profile'')], JObj [(''gate'', JStr ''source-allowlist''), (''value'',
     JInt 1), (''source'', JStr ''explicit'')], JObj [(''gate'', JStr ''env-passthrough''),
     (''value'', JStr ''s4-enforce''), (''source'', JStr ''shipped'')], JObj [(''gate'', JStr
     ''transitive-system-modules''), (''value'', JStr ''error''), (''source'', JStr
     ''profile'')], JObj [(''gate'', JStr ''provider-trust-roots''), (''value'', JStr
     ''revision-A''), (''source'', JStr ''shipped'')], JObj [(''gate'', JStr ''source-signers''),
     (''value'', JStr ''true''), (''source'', JStr ''profile'')], JObj [(''gate'', JStr
     ''update-confirmation''), (''value'', JStr ''A-warning''), (''source'', JStr ''shipped'')],
     JObj [(''gate'', JStr ''codex-seed''), (''value'', JStr ''A''), (''source'', JStr
     ''shipped'')], JObj [(''gate'', JStr ''store-boundary''), (''value'', JStr ''enforced''),
     (''source'', JStr ''shipped'')], JObj [(''gate'', JStr ''write-discipline''), (''value'',
     JStr ''enforced''), (''source'', JStr ''shipped'')], JObj [(''gate'', JStr
     ''mcp-package-allowlist''), (''value'', JInt 1), (''source'', JStr ''explicit'')]]),
     (''env_status_rows'', JArr [JObj [(''gate'', JStr ''security_posture''), (''value'', JStr
     ''hardened''), (''source'', JStr ''profile'')], JObj [(''gate'', JStr ''hook-trust''),
     (''value'', JStr ''A-warning''), (''source'', JStr ''shipped'')], JObj [(''gate'', JStr
     ''registry-policy''), (''value'', JStr ''strict''), (''source'', JStr ''profile'')], JObj
     [(''gate'', JStr ''audit-mode''), (''value'', JStr ''strict''), (''source'', JStr
     ''profile'')], JObj [(''gate'', JStr ''source-allowlist''), (''value'', JInt 1),
     (''source'', JStr ''explicit'')], JObj [(''gate'', JStr ''env-passthrough''), (''value'',
     JStr ''s4-enforce''), (''source'', JStr ''shipped'')], JObj [(''gate'', JStr
     ''transitive-system-modules''), (''value'', JStr ''error''), (''source'', JStr
     ''profile'')], JObj [(''gate'', JStr ''provider-trust-roots''), (''value'', JStr
     ''revision-A''), (''source'', JStr ''shipped'')], JObj [(''gate'', JStr ''source-signers''),
     (''value'', JStr ''true''), (''source'', JStr ''profile'')], JObj [(''gate'', JStr
     ''update-confirmation''), (''value'', JStr ''A-warning''), (''source'', JStr ''shipped'')],
     JObj [(''gate'', JStr ''codex-seed''), (''value'', JStr ''A''), (''source'', JStr
     ''shipped'')], JObj [(''gate'', JStr ''store-boundary''), (''value'', JStr ''enforced''),
     (''source'', JStr ''shipped'')], JObj [(''gate'', JStr ''write-discipline''), (''value'',
     JStr ''enforced''), (''source'', JStr ''shipped'')], JObj [(''gate'', JStr
     ''mcp-package-allowlist''), (''value'', JInt 1), (''source'', JStr ''explicit'')]])])]"

definition case_locked_posture_beats_explicit_permissive :: "dict" where
  "case_locked_posture_beats_explicit_permissive =
     [(''name'', JStr ''locked-posture-beats-explicit-permissive''), (''rollout_revision'', JStr
     ''A''), (''machine'', JObj [(''schema_version'', JInt 2), (''security_posture'', JStr
     ''permissive'')]), (''system'', JObj [(''locked'', JArr [JStr ''security_posture'']),
     (''security_posture'', JStr ''hardened'')]), (''shipped_revisions'', JObj [(''hook_trust'',
     JStr ''A-warning''), (''env_passthrough'', JStr ''s4-enforce''), (''provider_trust_roots'',
     JStr ''revision-A''), (''update_confirmation'', JStr ''A-warning''), (''codex_seed'', JStr
     ''A'')]), (''operation'', JObj [(''kind'', JStr ''status''), (''mcp_declarations_present'',
     jfalse), (''unreachable_trusted_registries'', JArr []), (''artifacts_without_evidence'',
     JArr [])]), (''expected'', JObj [(''profile'', JStr ''hardened''), (''profile_source'', JStr
     ''lock''), (''effective'', JObj [(''audit_mode'', JStr ''strict''),
     (''audit_registry_policy'', JStr ''strict''), (''allowed_sources'', JArr []),
     (''mcp_package_allowlist'', JArr []), (''passable_env_names'', JArr []),
     (''transitive_system_modules'', JStr ''error''), (''require_source_signers'', jtrue)]),
     (''sources'', JObj [(''audit_mode'', JStr ''profile''), (''audit_registry_policy'', JStr
     ''profile''), (''allowed_sources'', JStr ''profile''), (''mcp_package_allowlist'', JStr
     ''profile''), (''passable_env_names'', JStr ''profile''), (''transitive_system_modules'',
     JStr ''profile''), (''require_source_signers'', JStr ''profile'')]),
     (''passable_env_null_explicit'', jfalse), (''diagnostics'', JArr []), (''outcome'', JStr
     ''current''), (''curator_status_rows'', JArr [JObj [(''gate'', JStr ''security_posture''),
     (''value'', JStr ''hardened''), (''source'', JStr ''lock'')], JObj [(''gate'', JStr
     ''hook-trust''), (''value'', JStr ''A-warning''), (''source'', JStr ''shipped'')], JObj
     [(''gate'', JStr ''registry-policy''), (''value'', JStr ''strict''), (''source'', JStr
     ''profile'')], JObj [(''gate'', JStr ''audit-mode''), (''value'', JStr ''strict''),
     (''source'', JStr ''profile'')], JObj [(''gate'', JStr ''source-allowlist''), (''value'',
     JInt 0), (''source'', JStr ''profile'')], JObj [(''gate'', JStr ''env-passthrough''),
     (''value'', JStr ''s4-enforce''), (''source'', JStr ''shipped'')], JObj [(''gate'', JStr
     ''transitive-system-modules''), (''value'', JStr ''error''), (''source'', JStr
     ''profile'')], JObj [(''gate'', JStr ''provider-trust-roots''), (''value'', JStr
     ''revision-A''), (''source'', JStr ''shipped'')], JObj [(''gate'', JStr ''source-signers''),
     (''value'', JStr ''true''), (''source'', JStr ''profile'')], JObj [(''gate'', JStr
     ''update-confirmation''), (''value'', JStr ''A-warning''), (''source'', JStr ''shipped'')],
     JObj [(''gate'', JStr ''codex-seed''), (''value'', JStr ''A''), (''source'', JStr
     ''shipped'')], JObj [(''gate'', JStr ''store-boundary''), (''value'', JStr ''enforced''),
     (''source'', JStr ''shipped'')], JObj [(''gate'', JStr ''write-discipline''), (''value'',
     JStr ''enforced''), (''source'', JStr ''shipped'')], JObj [(''gate'', JStr
     ''mcp-package-allowlist''), (''value'', JInt 0), (''source'', JStr ''profile'')]]),
     (''env_status_rows'', JArr [JObj [(''gate'', JStr ''security_posture''), (''value'', JStr
     ''hardened''), (''source'', JStr ''lock'')], JObj [(''gate'', JStr ''hook-trust''),
     (''value'', JStr ''A-warning''), (''source'', JStr ''shipped'')], JObj [(''gate'', JStr
     ''registry-policy''), (''value'', JStr ''strict''), (''source'', JStr ''profile'')], JObj
     [(''gate'', JStr ''audit-mode''), (''value'', JStr ''strict''), (''source'', JStr
     ''profile'')], JObj [(''gate'', JStr ''source-allowlist''), (''value'', JInt 0),
     (''source'', JStr ''profile'')], JObj [(''gate'', JStr ''env-passthrough''), (''value'',
     JStr ''s4-enforce''), (''source'', JStr ''shipped'')], JObj [(''gate'', JStr
     ''transitive-system-modules''), (''value'', JStr ''error''), (''source'', JStr
     ''profile'')], JObj [(''gate'', JStr ''provider-trust-roots''), (''value'', JStr
     ''revision-A''), (''source'', JStr ''shipped'')], JObj [(''gate'', JStr ''source-signers''),
     (''value'', JStr ''true''), (''source'', JStr ''profile'')], JObj [(''gate'', JStr
     ''update-confirmation''), (''value'', JStr ''A-warning''), (''source'', JStr ''shipped'')],
     JObj [(''gate'', JStr ''codex-seed''), (''value'', JStr ''A''), (''source'', JStr
     ''shipped'')], JObj [(''gate'', JStr ''store-boundary''), (''value'', JStr ''enforced''),
     (''source'', JStr ''shipped'')], JObj [(''gate'', JStr ''write-discipline''), (''value'',
     JStr ''enforced''), (''source'', JStr ''shipped'')], JObj [(''gate'', JStr
     ''mcp-package-allowlist''), (''value'', JInt 0), (''source'', JStr ''profile'')]])])]"


end
