(* ===== verification/Posture.thy ===== *)
theory Posture
  imports PosturePins PostureVectors
begin

text \<open>
  The security-posture gate (manager profile sections 1, 7.1 and 10) of \<open>tools/validate.py\<close>:
  the effective posture and values of a machine under lock, explicit and profile sources, the
  diagnostics of an operation, the outcome, and the rows both status commands print.
\<close>

section \<open>Scenario pins\<close>

text \<open>\<open>_posture_lookup\<close> on the segments of a dotted path.\<close>

fun lookup_segments :: "json \<Rightarrow> string list \<Rightarrow> json option" where
  "lookup_segments node [] = Some node"
| "lookup_segments node (seg # segs) =
     (case node of
        JObj d \<Rightarrow> (case map_of d seg of None \<Rightarrow> None | Some v \<Rightarrow> lookup_segments v segs)
      | _ \<Rightarrow> None)"

definition posture_lookup :: "json \<Rightarrow> string \<Rightarrow> json option" where
  "posture_lookup node path = lookup_segments node (split_on (CHR ''.'') path)"

definition check_pin :: "json \<Rightarrow> string \<Rightarrow> json \<Rightarrow> unit res" where
  "check_pin c path want =
     (let found = posture_lookup c path in
      if want = JStr ''<absent>'' then guard (found = None) (fail (''security-posture case must leave absent: '' @ path))
      else if is_dict want \<and> jhas (the_dict want) ''contains'' then
        guard (case found of Some (JArr vs) \<Rightarrow> py_in (jget (the_dict want) ''contains'') vs | _ \<Rightarrow> False)
          (fail (''security-posture case must carry containing: '' @ path))
      else if is_dict want \<and> jget (the_dict want) ''nonempty'' = jtrue then
        guard (case found of Some (JArr vs) \<Rightarrow> vs \<noteq> [] | _ \<Rightarrow> False)
          (fail (''security-posture case must carry a non-empty '' @ path))
      else if is_dict want \<and> jhas (the_dict want) ''present'' then
        guard (case found of Some v \<Rightarrow> py_eq v (jget (the_dict want) ''present'') | None \<Rightarrow> False)
          (fail (''security-posture case must carry present: '' @ path))
      else guard (case found of Some v \<Rightarrow> py_eq v want | None \<Rightarrow> False)
          (fail (''security-posture case must carry '' @ path)))"

definition posture_check_scenario :: "string \<Rightarrow> json \<Rightarrow> string \<Rightarrow> string \<Rightarrow> unit res" where
  "posture_check_scenario name c profile profile_source =
     (case map_of SECURITY_POSTURE_SCENARIOS name of
        None \<Rightarrow> Inl (fail ''security-posture case has no scenario pin'')
      | Some pins \<Rightarrow> for_each (\<lambda>(path, want).
          if path = ''effective.profile'' then
            guard (want = JStr profile) (fail ''security-posture case must resolve effective.profile'')
          else if path = ''effective.profile_source'' then
            guard (want = JStr profile_source) (fail ''security-posture case must resolve effective.profile_source'')
          else check_pin c path want) pins)"

section \<open>Effective posture\<close>

definition known_locks :: "string list" where
  "known_locks = [''audit'', ''allowed_sources'', ''security_posture'',
     ''environments.mcp_package_allowlist'', ''environments.passable_env_names'',
     ''environments.transitive_system_modules'', ''environments.require_source_signers'']"

definition schema2 :: "dict \<Rightarrow> bool" where
  "schema2 machine = py_eq (jget machine ''schema_version'') (JInt 2)"

text \<open>The shapes and closed values of the inputs, in the order they are refused.\<close>

definition posture_inputs :: "dict \<Rightarrow> unit res" where
  "posture_inputs c =
     and_then (in_frozenset (jget c ''rollout_revision'') (map fst SECURITY_POSTURE_REVISION_DEFAULTS)) (\<lambda>known.
     let machine = the_dict (jget c ''machine''); system = the_dict (jget c ''system'');
         locked = jget_or (JArr []) system ''locked'';
         shipped = the_dict (jget c ''shipped_revisions'') in
     require
       [(known, fail ''security-posture case names an unknown rollout revision''),
        (is_dict (jget c ''machine'') \<and> py_in (jget machine ''schema_version'') [JInt 1, JInt 2],
         fail ''security-posture case machine names no known schema_version''),
        (schema2 machine \<or> \<not> jhas machine ''security_posture'',
         fail ''security-posture case schema-1 machine carries a posture knob''),
        (jhas machine ''security_posture'' \<longrightarrow>
           str_in (jget machine ''security_posture'') [''permissive'', ''hardened''],
         fail ''security-posture case machine posture is not a closed value''),
        (is_dict (jget c ''system''), fail ''security-posture case system is not an object''),
        (is_list locked \<and> list_all is_str (the_list locked),
         fail ''security-posture case system locked is not a string list''),
        (list_all (\<lambda>k. str_in k known_locks) (the_list locked),
         fail ''security-posture case system locks an unknown key''),
        (jhas system ''security_posture'' \<longrightarrow> py_eq (jget system ''security_posture'') (JStr ''hardened''),
         fail ''security-posture case system posture is not the hardened direction''),
        (is_dict (jget c ''shipped_revisions'') \<and>
           same_keys shipped [''hook_trust'', ''env_passthrough'', ''provider_trust_roots'', ''update_confirmation'', ''codex_seed''],
         fail ''security-posture case shipped revisions are not the closed five-gate set''),
        (str_in (jget shipped ''hook_trust'') [''A-warning'', ''B-enforcing''],
         fail ''security-posture case hook-trust revision is not closed''),
        (str_in (jget shipped ''env_passthrough'') [''s4-warn'', ''s4-enforce''],
         fail ''security-posture case passthrough profile is not closed''),
        (str_in (jget shipped ''provider_trust_roots'') [''revision-A'', ''revision-B''],
         fail ''security-posture case provider-trust-roots revision is not closed''),
        (str_in (jget shipped ''update_confirmation'') [''A-warning'', ''B-flip''],
         fail ''security-posture case update-confirmation revision is not closed''),
        (str_in (jget shipped ''codex_seed'') [''A'', ''B''],
         fail ''security-posture case codex-seed revision is not closed'')])"

definition locked_keys :: "dict \<Rightarrow> string list" where
  "locked_keys system = map the_str (the_list (jget_or (JArr []) system ''locked''))"

definition posture_profile :: "dict \<Rightarrow> dict \<Rightarrow> json \<Rightarrow> (string \<times> string) res" where
  "posture_profile machine system revision =
     (if \<not> schema2 machine then Inr (''permissive'', ''profile'')
      else if ''security_posture'' \<in> set (locked_keys system) then
        (if \<not> jhas system ''security_posture''
         then Inl (fail ''security-posture case locks security_posture without a system value'')
         else Inr (the_str (jget system ''security_posture''), ''lock''))
      else if jhas machine ''security_posture'' then Inr (the_str (jget machine ''security_posture''), ''explicit'')
      else Inr (the_str (jget SECURITY_POSTURE_REVISION_DEFAULTS (the_str revision)), ''profile''))"

text \<open>One knob: the lock, then the machine's own value, then the default.\<close>

definition resolve_knob :: "string list \<Rightarrow> string \<Rightarrow> string \<Rightarrow> dict \<Rightarrow> dict \<Rightarrow> json \<Rightarrow> (json \<times> string) res" where
  "resolve_knob locked lock_key member machine system dflt =
     (if lock_key \<in> set locked then
        (if \<not> jhas system member
         then Inl (fail (''security-posture case locks without a system value: '' @ lock_key))
         else Inr (jget system member, ''lock''))
      else if jhas machine member then Inr (jget machine member, ''explicit'')
      else Inr (dflt, ''profile''))"

text \<open>The values and their sources, as the two dictionaries the source fills.\<close>

record resolved =
  r_profile :: string
  r_source :: string
  r_effective :: dict
  r_sources :: dict
  r_null_explicit :: bool

definition environment_knobs :: "string list \<Rightarrow> dict \<Rightarrow> dict \<Rightarrow> dict \<Rightarrow> string \<Rightarrow> (dict \<times> dict \<times> bool) res" where
  "environment_knobs locked machine system defaults passthrough =
     (let menv = jget_or (JObj []) machine ''environments''; senv = jget_or (JObj []) system ''environments'';
          me = the_dict menv; se = the_dict senv in
      and_then (guard (is_dict menv \<and> is_dict senv)
        (fail ''security-posture case environments member is not an object'')) (\<lambda>_.
      and_then (resolve_knob locked ''environments.mcp_package_allowlist'' ''mcp_package_allowlist'' me se (JArr [])) (\<lambda>(allow, allow_src).
      and_then (guard (is_list allow) (fail ''security-posture case effective mcp_package_allowlist is not a list'')) (\<lambda>_.
      and_then (resolve_knob locked ''environments.passable_env_names'' ''passable_env_names'' me se
        (if passthrough = ''s4-enforce'' then JArr [] else JNull)) (\<lambda>(names, names_src).
      and_then (guard (names = JNull \<or> is_list names)
        (fail ''security-posture case effective passable_env_names is not a list or null'')) (\<lambda>_.
      and_then (resolve_knob locked ''environments.transitive_system_modules'' ''transitive_system_modules'' me se
        (jget defaults ''transitive_system_modules'')) (\<lambda>(modules, modules_src).
      and_then (resolve_knob locked ''environments.require_source_signers'' ''require_source_signers'' me se
        (jget defaults ''require_source_signers'')) (\<lambda>(signers, signers_src).
      Inr ([(''mcp_package_allowlist'', allow), (''passable_env_names'', names),
            (''transitive_system_modules'', modules), (''require_source_signers'', signers)],
           [(''mcp_package_allowlist'', JStr allow_src), (''passable_env_names'', JStr names_src),
            (''transitive_system_modules'', JStr modules_src), (''require_source_signers'', JStr signers_src)],
           names = JNull \<and> names_src \<in> {''explicit'', ''lock''})))))))))"

definition posture_resolve :: "dict \<Rightarrow> resolved res" where
  "posture_resolve c =
     and_then (posture_inputs c) (\<lambda>_.
     let machine = the_dict (jget c ''machine''); system = the_dict (jget c ''system'');
         locked = locked_keys system;
         maudit = jget_or (JObj []) machine ''audit''; saudit = jget_or (JObj []) system ''audit'' in
     and_then (posture_profile machine system (jget c ''rollout_revision'')) (\<lambda>(profile, profile_source).
     and_then (guard (is_dict maudit \<and> is_dict saudit) (fail ''security-posture case audit member is not an object'')) (\<lambda>_.
     let defaults = the_dict (jget SECURITY_POSTURE_DEFAULTS profile) in
     and_then (resolve_knob locked ''audit'' ''mode'' (the_dict maudit) (the_dict saudit) (jget defaults ''audit_mode'')) (\<lambda>(mode, mode_src).
     and_then (resolve_knob locked ''audit'' ''registry_policy'' (the_dict maudit) (the_dict saudit)
       (jget defaults ''audit_registry_policy'')) (\<lambda>(policy, policy_src).
     and_then (resolve_knob locked ''allowed_sources'' ''allowed_sources'' machine system (JArr [])) (\<lambda>(allowed, allowed_src).
     and_then (guard (is_list allowed) (fail ''security-posture case effective allowed_sources is not a list'')) (\<lambda>_.
     and_then (if schema2 machine
         then environment_knobs locked machine system defaults
           (the_str (jget (the_dict (jget c ''shipped_revisions'')) ''env_passthrough''))
         else Inr ([], [], False)) (\<lambda>(env, env_src, null_explicit).
     Inr \<lparr>r_profile = profile, r_source = profile_source,
       r_effective = [(''audit_mode'', mode), (''audit_registry_policy'', policy), (''allowed_sources'', allowed)] @ env,
       r_sources = [(''audit_mode'', JStr mode_src), (''audit_registry_policy'', JStr policy_src),
         (''allowed_sources'', JStr allowed_src)] @ env_src,
       r_null_explicit = null_explicit\<rparr>))))))))"

section \<open>Diagnostics, outcome and status rows\<close>

definition installing :: "json \<Rightarrow> bool" where
  "installing kind = str_in kind [''install'', ''profile-install'']"

definition operation_shape :: "dict \<Rightarrow> unit res" where
  "operation_shape c =
     (let operation = jget c ''operation''; op = the_dict operation;
          unreachable = jget op ''unreachable_trusted_registries''; artifacts = jget op ''artifacts_without_evidence'' in
      require
       [(is_dict operation \<and> same_keys op [''kind'', ''mcp_declarations_present'', ''unreachable_trusted_registries'', ''artifacts_without_evidence''],
         fail ''security-posture case operation is not the closed four-member shape''),
        (str_in (jget op ''kind'') [''install'', ''profile-install'', ''status'', ''status-check''],
         fail ''security-posture case operation kind is not closed''),
        (is_list unreachable \<and> is_list artifacts,
         fail ''security-posture case unreachable registries and artifacts must be lists''),
        (truthy unreachable = truthy artifacts,
         fail ''security-posture case names unreachable registries without artifacts, or artifacts without a registry''),
        (schema2 (the_dict (jget c ''machine'')) \<or> \<not> truthy (jget op ''mcp_declarations_present''),
         fail ''security-posture case schema-1 machine carries MCP declarations'')])"

text \<open>The entries by code, before they are put in canonical order.\<close>

definition posture_found :: "dict \<Rightarrow> resolved \<Rightarrow> (string \<times> dict) list" where
  "posture_found c r =
     (let op = the_dict (jget c ''operation''); kind = jget op ''kind''; hardened = (r_profile r = ''hardened'');
          two = schema2 (the_dict (jget c ''machine'')); unreachable = jget op ''unreachable_trusted_registries'' in
      (if r_profile r = ''permissive'' then
         [(''security_posture_permissive'', [(''code'', JStr ''security_posture_permissive''), (''severity'', JStr ''warning''),
           (''count'', JInt 1), (''names_knob'', jtrue), (''migration_hint'', jtrue)])] else []) @
      (if hardened \<and> \<not> truthy (jget (r_effective r) ''allowed_sources'') \<and> installing kind then
         [(''source_allowlist_empty'', [(''code'', JStr ''source_allowlist_empty''), (''severity'', JStr ''error'')])] else []) @
      (if two \<and> kind = JStr ''profile-install'' \<and> \<not> truthy (jget (r_effective r) ''mcp_package_allowlist'') then
         [(''mcp_package_allowlist_empty'', [(''code'', JStr ''mcp_package_allowlist_empty''),
           (''severity'', JStr (if hardened \<and> truthy (jget op ''mcp_declarations_present'') then ''error'' else ''warning''))])] else []) @
      (if hardened \<and> r_null_explicit r \<and> kind = JStr ''profile-install'' then
         [(''passable_env_names_unbounded_refused'', [(''code'', JStr ''passable_env_names_unbounded_refused''),
           (''severity'', JStr ''error''), (''names_knob'', jtrue)])] else []) @
      (if truthy unreachable \<and> installing kind then
         [(''registry_unreachable_during_install'', [(''code'', JStr ''registry_unreachable_during_install''),
           (''severity'', JStr (if r_profile r = ''permissive'' then ''warning'' else ''error'')),
           (''registries'', unreachable), (''artifacts'', jget op ''artifacts_without_evidence'')])] else []))"

definition posture_diagnostics :: "dict \<Rightarrow> resolved \<Rightarrow> dict list res" where
  "posture_diagnostics c r =
     and_then (operation_shape c) (\<lambda>_.
       Inr (List.map_filter (map_of (posture_found c r)) SECURITY_POSTURE_DIAGNOSTIC_ORDER))"

definition posture_outcome :: "dict \<Rightarrow> resolved \<Rightarrow> dict list \<Rightarrow> string" where
  "posture_outcome c r diagnostics =
     (let op = the_dict (jget c ''operation''); kind = jget op ''kind''; two = schema2 (the_dict (jget c ''machine'')) in
      if installing kind then
        (if list_ex (\<lambda>e. jget e ''severity'' = JStr ''error'') diagnostics then ''refused'' else ''proceeds'')
      else if kind = JStr ''status'' then ''current''
      else if r_profile r = ''hardened'' \<and>
          (\<not> truthy (jget (r_effective r) ''allowed_sources'') \<or> (two \<and> r_null_explicit r) \<or>
           (two \<and> \<not> truthy (jget (r_effective r) ''mcp_package_allowlist'') \<and> truthy (jget op ''mcp_declarations_present'')))
      then ''non-current'' else ''current'')"

definition status_row :: "string \<Rightarrow> json \<Rightarrow> json \<Rightarrow> dict" where
  "status_row gate v source = [(''gate'', JStr gate), (''value'', v), (''source'', source)]"

definition posture_status_rows :: "dict \<Rightarrow> resolved \<Rightarrow> dict list \<times> dict list option" where
  "posture_status_rows c r =
     (let shipped = the_dict (jget c ''shipped_revisions''); shipped_src = JStr ''shipped'';
          e = jget (r_effective r); s = jget (r_sources r);
          header = status_row ''security_posture'' (JStr (r_profile r)) (JStr (r_source r));
          manager_rows =
           [status_row ''hook-trust'' (jget shipped ''hook_trust'') shipped_src,
            status_row ''registry-policy'' (e ''audit_registry_policy'') (s ''audit_registry_policy''),
            status_row ''audit-mode'' (e ''audit_mode'') (s ''audit_mode''),
            status_row ''source-allowlist'' (JInt (int (length (the_list (e ''allowed_sources''))))) (s ''allowed_sources'')] in
      if py_eq (jget (the_dict (jget c ''machine'')) ''schema_version'') (JInt 1)
      then (header # manager_rows, None)
      else
        let full = header # manager_rows @
           [status_row ''env-passthrough'' (jget shipped ''env_passthrough'') shipped_src,
            status_row ''transitive-system-modules'' (e ''transitive_system_modules'') (s ''transitive_system_modules''),
            status_row ''provider-trust-roots'' (jget shipped ''provider_trust_roots'') shipped_src,
            status_row ''source-signers'' (JStr (if truthy (e ''require_source_signers'') then ''true'' else ''false'')) (s ''require_source_signers''),
            status_row ''update-confirmation'' (jget shipped ''update_confirmation'') shipped_src,
            status_row ''codex-seed'' (jget shipped ''codex_seed'') shipped_src,
            status_row ''store-boundary'' (JStr ''enforced'') shipped_src,
            status_row ''write-discipline'' (JStr ''enforced'') shipped_src,
            status_row ''mcp-package-allowlist'' (JInt (int (length (the_list (e ''mcp_package_allowlist''))))) (s ''mcp_package_allowlist'')]
        in (full, Some full))"

section \<open>The gate on one case\<close>

definition same_rows :: "string \<Rightarrow> json \<Rightarrow> dict list \<Rightarrow> unit res" where
  "same_rows command recorded want =
     and_then (guard (is_list recorded) (fail (''security-posture case rows are not the closed ordered set: '' @ command))) (\<lambda>_.
     and_then (guard (list_all is_dict (the_list recorded)) AttributeError) (\<lambda>_.
     require
      [(py_eq (JArr (map (\<lambda>row. jget (the_dict row) ''gate'') (the_list recorded))) (JArr (map (\<lambda>row. jget row ''gate'') want)),
        fail (''security-posture case rows are not the closed ordered set: '' @ command)),
       (py_eq recorded (JArr (map JObj want)), fail (''security-posture case rows do not follow their inputs: '' @ command))]))"

text \<open>The codes of the accepted case are returned for the coverage check.\<close>

definition check_posture_case :: "string \<Rightarrow> dict \<Rightarrow> string list res" where
  "check_posture_case name c =
     and_then (posture_resolve c) (\<lambda>r.
     and_then (posture_check_scenario name (JObj c) (r_profile r) (r_source r)) (\<lambda>_.
     let expected = jget c ''expected''; ex = the_dict expected in
     and_then (require
       [(is_dict expected, fail ''security-posture case carries no expected block''),
        (py_eq (jget ex ''profile'') (JStr (r_profile r)) \<and> py_eq (jget ex ''profile_source'') (JStr (r_source r)),
         fail ''security-posture case profile does not follow its inputs''),
        (py_eq (jget ex ''effective'') (JObj (r_effective r)) \<and> py_eq (jget ex ''sources'') (JObj (r_sources r)),
         fail ''security-posture case effective values do not follow their inputs''),
        (jget ex ''passable_env_null_explicit'' = JBool (r_null_explicit r),
         fail ''security-posture case null-explicit flag does not follow its inputs'')]) (\<lambda>_.
     and_then (posture_diagnostics c r) (\<lambda>diagnostics.
     and_then (require
       [(py_eq (jget ex ''diagnostics'') (JArr (map JObj diagnostics)),
         fail ''security-posture case diagnostics do not follow their inputs''),
        (py_eq (jget ex ''outcome'') (JStr (posture_outcome c r diagnostics)),
         fail ''security-posture case outcome does not follow its inputs'')]) (\<lambda>_.
     case posture_status_rows c r of (want_curator, want_env) \<Rightarrow>
     and_then (same_rows ''curator'' (jget ex ''curator_status_rows'') want_curator) (\<lambda>_.
     and_then (case want_env of
         None \<Rightarrow> guard (jget ex ''env_status_rows'' = JNull)
           (fail ''security-posture case schema-1 machine carries env status rows'')
       | Some rows \<Rightarrow> same_rows ''env'' (jget ex ''env_status_rows'') rows) (\<lambda>_.
     Inr (map (\<lambda>e. the_str (jget e ''code'')) diagnostics))))))))"

section \<open>The gate\<close>

text \<open>\<open>{entry.get("name"): entry for entry in vector.get("rollout_revisions", [])}\<close>.\<close>

definition revision_table :: "json \<Rightarrow> (string \<times> dict) list res" where
  "revision_table v =
     (case v of
        JArr es \<Rightarrow> map_res (\<lambda>e.
          if \<not> is_dict e then Inl AttributeError
          else case jget (the_dict e) ''name'' of
              JStr n \<Rightarrow> Inr (n, the_dict e)
            | JArr _ \<Rightarrow> Inl TypeError
            | JObj _ \<Rightarrow> Inl TypeError
            | _ \<Rightarrow> Inr ([], the_dict e)) es
      | JObj [] \<Rightarrow> Inr []
      | JStr [] \<Rightarrow> Inr []
      | JObj _ \<Rightarrow> Inl AttributeError
      | JStr _ \<Rightarrow> Inl AttributeError
      | _ \<Rightarrow> Inl TypeError)"

definition posture_identity :: "dict \<Rightarrow> (string \<times> dict) list \<Rightarrow> unit res" where
  "posture_identity vector revisions =
     (let strs = \<lambda>ss. JArr (map JStr ss);
          default_of = \<lambda>n. jget (the (map_of (rev revisions) n)) ''posture_default'';
          notes = jget vector ''scope_notes'' in
      require
       [(set (map fst revisions) = {''A'', ''B''},
         fail ''security-posture rollout revisions are not exactly A and B''),
        (default_of ''A'' = JStr ''permissive'', fail ''security-posture revision A defaults to the wrong posture''),
        (default_of ''B'' = JStr ''hardened'', fail ''security-posture revision B defaults to the wrong posture''),
        (py_eq (jget vector ''postures'') (strs [''permissive'', ''hardened'']),
         fail ''security-posture postures are not the closed two-value set''),
        (py_eq (jget vector ''profile_defaults'') (JObj SECURITY_POSTURE_DEFAULTS),
         fail ''security-posture profile defaults are not the section 7.1 table''),
        (py_eq (jget vector ''profile_refusals'') (strs SECURITY_POSTURE_REFUSALS),
         fail ''security-posture refusals are not the closed three-code set''),
        (py_eq (jget vector ''diagnostics'') (strs SECURITY_POSTURE_DIAGNOSTICS),
         fail ''security-posture diagnostics are not the closed four-code set''),
        (py_eq (jget vector ''referenced_diagnostics'') (strs SECURITY_POSTURE_REFERENCED_DIAGNOSTICS),
         fail ''security-posture referenced diagnostics are not exact''),
        (py_eq (jget vector ''provenance'') (strs SECURITY_POSTURE_PROVENANCE),
         fail ''security-posture provenance is not the closed four-value set''),
        (py_eq (jget vector ''status_gates'') (strs SECURITY_POSTURE_STATUS_GATES),
         fail ''security-posture status gates are not the closed ordered thirteen-gate set''),
        (py_eq (jget vector ''schema1_gates'') (strs SECURITY_POSTURE_SCHEMA1_GATES),
         fail ''security-posture schema-1 gates are not the closed ordered manager subset''),
        (is_dict (jget_or (JObj []) vector ''execution_binding''), AttributeError),
        (py_eq (jget (the_dict (jget_or (JObj []) vector ''execution_binding'')) ''downstream_owner_tasks'') (strs [''TASK-260910-1sapuy'']),
         fail ''security-posture execution binding does not name the downstream owner task''),
        (is_list notes \<and> the_list notes \<noteq> [] \<and> list_all (\<lambda>n. is_str n \<and> the_str n \<noteq> []) (the_list notes),
         fail ''security-posture scope notes are not a non-empty note list'')])"

definition validate_security_posture_vectors :: "dict \<Rightarrow> unit res" where
  "validate_security_posture_vectors vector =
     and_then (require
       [(py_eq (jget vector ''schema_version'') (JInt 1) \<and>
         py_eq (jget vector ''protocol_version'') (JStr ''1.0.0-rc.14'') \<and>
         py_eq (jget vector ''capability'') (JStr ''security-posture'') \<and>
         py_eq (jget vector ''findings'') (JArr [JStr ''S1'', JStr ''S3'']),
         fail ''security-posture vector has the wrong capability identity'')]) (\<lambda>_.
     and_then (revision_table (jget_or (JArr []) vector ''rollout_revisions'')) (\<lambda>revisions.
     and_then (posture_identity vector revisions) (\<lambda>_.
     and_then (named_cases (jget vector ''cases'') ''security posture'') (\<lambda>cases.
     and_then (guard (set (map fst cases) = set SECURITY_POSTURE_CASES)
       (fail ''security-posture case inventory is not exact'')) (\<lambda>_.
     and_then (map_res (\<lambda>(name, c). check_posture_case name c) cases) (\<lambda>seen.
     guard (set (concat seen) = set SECURITY_POSTURE_DIAGNOSTICS \<union> set SECURITY_POSTURE_REFERENCED_DIAGNOSTICS)
       (fail ''security-posture cases cover the wrong codes'')))))))"

section \<open>What the gate guarantees\<close>

text \<open>The merge rule, stated on its own: the lock, then the machine's value, then the default.\<close>

definition merged :: "bool \<Rightarrow> string \<Rightarrow> dict \<Rightarrow> dict \<Rightarrow> json \<Rightarrow> json \<times> string" where
  "merged is_locked member machine system dflt =
     (if is_locked then (jget system member, ''lock'')
      else if jhas machine member then (jget machine member, ''explicit'') else (dflt, ''profile''))"

lemma resolve_knob_ok:
  "resolve_knob locked key member machine system dflt = Inr r \<longleftrightarrow>
     r = merged (key \<in> set locked) member machine system dflt \<and>
     (key \<in> set locked \<longrightarrow> jhas system member)"
  by (auto simp: resolve_knob_def merged_def)

lemma posture_profile_cases:
  assumes inp: "posture_inputs c = Inr ()"
    and p: "posture_profile (the_dict (jget c ''machine'')) (the_dict (jget c ''system'')) (jget c ''rollout_revision'') = Inr (prof, src)"
  shows "prof \<in> {''permissive'', ''hardened''} \<and> (src = ''lock'' \<longrightarrow> prof = ''hardened'') \<and>
    src \<in> {''lock'', ''explicit'', ''profile''}"
proof -
  have i: "str_in (jget c ''rollout_revision'') [''A'', ''B'']"
    "jhas (the_dict (jget c ''machine'')) ''security_posture'' \<longrightarrow>
      str_in (jget (the_dict (jget c ''machine'')) ''security_posture'') [''permissive'', ''hardened'']"
    "jhas (the_dict (jget c ''system'')) ''security_posture'' \<longrightarrow>
      jget (the_dict (jget c ''system'')) ''security_posture'' = JStr ''hardened''"
    using inp by (auto simp: posture_inputs_def Let_def and_then_ok_iff in_frozenset_def
        SECURITY_POSTURE_REVISION_DEFAULTS_def split: if_splits)
  show ?thesis using p i
    by (auto simp: posture_profile_def str_in_iff SECURITY_POSTURE_REVISION_DEFAULTS_def split: if_splits)
qed

lemma posture_resolve_parts:
  assumes "posture_resolve c = Inr r"
  obtains mode mode_src policy policy_src allowed allowed_src env env_src where
    "posture_inputs c = Inr ()"
    "posture_profile (the_dict (jget c ''machine'')) (the_dict (jget c ''system'')) (jget c ''rollout_revision'') =
       Inr (r_profile r, r_source r)"
    "resolve_knob (locked_keys (the_dict (jget c ''system''))) ''audit'' ''mode''
       (the_dict (jget_or (JObj []) (the_dict (jget c ''machine'')) ''audit''))
       (the_dict (jget_or (JObj []) (the_dict (jget c ''system'')) ''audit''))
       (jget (the_dict (jget SECURITY_POSTURE_DEFAULTS (r_profile r))) ''audit_mode'') = Inr (mode, mode_src)"
    "resolve_knob (locked_keys (the_dict (jget c ''system''))) ''audit'' ''registry_policy''
       (the_dict (jget_or (JObj []) (the_dict (jget c ''machine'')) ''audit''))
       (the_dict (jget_or (JObj []) (the_dict (jget c ''system'')) ''audit''))
       (jget (the_dict (jget SECURITY_POSTURE_DEFAULTS (r_profile r))) ''audit_registry_policy'') = Inr (policy, policy_src)"
    "resolve_knob (locked_keys (the_dict (jget c ''system''))) ''allowed_sources'' ''allowed_sources''
       (the_dict (jget c ''machine'')) (the_dict (jget c ''system'')) (JArr []) = Inr (allowed, allowed_src)"
    "r_effective r = [(''audit_mode'', mode), (''audit_registry_policy'', policy), (''allowed_sources'', allowed)] @ env"
    "r_sources r = [(''audit_mode'', JStr mode_src), (''audit_registry_policy'', JStr policy_src),
       (''allowed_sources'', JStr allowed_src)] @ env_src"
  using assms unfolding posture_resolve_def Let_def
  by (auto simp: and_then_ok_iff and_then_pair_ok_iff)

text \<open>
  The effective posture follows its sources.  A locked key takes the system's value with
  source \<open>lock\<close>, else the machine's with source \<open>explicit\<close>, else the default of the
  effective profile; and a locked posture is always the hardened one.
\<close>

theorem posture_precedence:
  assumes "posture_resolve c = Inr r"
  defines "machine \<equiv> the_dict (jget c ''machine'')" and "system \<equiv> the_dict (jget c ''system'')"
  defines "locked \<equiv> locked_keys system"
    and "defaults \<equiv> the_dict (jget SECURITY_POSTURE_DEFAULTS (r_profile r))"
  shows "(r_source r = ''lock'' \<longrightarrow> r_profile r = ''hardened'') \<and>
    (jget (r_effective r) ''audit_mode'', the_str (jget (r_sources r) ''audit_mode'')) =
      merged (''audit'' \<in> set locked) ''mode'' (the_dict (jget_or (JObj []) machine ''audit''))
        (the_dict (jget_or (JObj []) system ''audit'')) (jget defaults ''audit_mode'') \<and>
    (jget (r_effective r) ''audit_registry_policy'', the_str (jget (r_sources r) ''audit_registry_policy'')) =
      merged (''audit'' \<in> set locked) ''registry_policy'' (the_dict (jget_or (JObj []) machine ''audit''))
        (the_dict (jget_or (JObj []) system ''audit'')) (jget defaults ''audit_registry_policy'') \<and>
    (jget (r_effective r) ''allowed_sources'', the_str (jget (r_sources r) ''allowed_sources'')) =
      merged (''allowed_sources'' \<in> set locked) ''allowed_sources'' machine system (JArr [])"
proof -
  note parts = machine_def system_def locked_def defaults_def resolve_knob_ok
  show ?thesis
    using assms(1)
  proof (rule posture_resolve_parts)
    assume i: "posture_inputs c = Inr ()"
      and p: "posture_profile (the_dict (jget c ''machine'')) (the_dict (jget c ''system'')) (jget c ''rollout_revision'') =
       Inr (r_profile r, r_source r)"
    fix mode mode_src policy policy_src allowed allowed_src env env_src
    assume k: "resolve_knob (locked_keys (the_dict (jget c ''system''))) ''audit'' ''mode''
       (the_dict (jget_or (JObj []) (the_dict (jget c ''machine'')) ''audit''))
       (the_dict (jget_or (JObj []) (the_dict (jget c ''system'')) ''audit''))
       (jget (the_dict (jget SECURITY_POSTURE_DEFAULTS (r_profile r))) ''audit_mode'') = Inr (mode, mode_src)"
      "resolve_knob (locked_keys (the_dict (jget c ''system''))) ''audit'' ''registry_policy''
       (the_dict (jget_or (JObj []) (the_dict (jget c ''machine'')) ''audit''))
       (the_dict (jget_or (JObj []) (the_dict (jget c ''system'')) ''audit''))
       (jget (the_dict (jget SECURITY_POSTURE_DEFAULTS (r_profile r))) ''audit_registry_policy'') = Inr (policy, policy_src)"
      "resolve_knob (locked_keys (the_dict (jget c ''system''))) ''allowed_sources'' ''allowed_sources''
       (the_dict (jget c ''machine'')) (the_dict (jget c ''system'')) (JArr []) = Inr (allowed, allowed_src)"
    assume "r_effective r = [(''audit_mode'', mode), (''audit_registry_policy'', policy), (''allowed_sources'', allowed)] @ env"
      "r_sources r = [(''audit_mode'', JStr mode_src), (''audit_registry_policy'', JStr policy_src),
       (''allowed_sources'', JStr allowed_src)] @ env_src"
    then show ?thesis using posture_profile_cases [OF i p] k by (simp add: parts)
  qed
qed

lemma map_of_optional: "map_of ((if b then [(k, v)] else []) @ xs) k' = (if b \<and> k' = k then Some v else map_of xs k')"
  by simp

lemma map_of_optional_last: "map_of (if b then [(k, v)] else []) k' = (if b \<and> k' = k then Some v else None)"
  by simp

lemma found_codes:
  "map_of (posture_found c r) ''source_allowlist_empty'' =
     (if r_profile r = ''hardened'' \<and> \<not> truthy (jget (r_effective r) ''allowed_sources'') \<and>
         installing (jget (the_dict (jget c ''operation'')) ''kind'')
      then Some [(''code'', JStr ''source_allowlist_empty''), (''severity'', JStr ''error'')] else None)"
  "map_of (posture_found c r) ''mcp_package_allowlist_empty'' =
     (if schema2 (the_dict (jget c ''machine'')) \<and> jget (the_dict (jget c ''operation'')) ''kind'' = JStr ''profile-install'' \<and>
         \<not> truthy (jget (r_effective r) ''mcp_package_allowlist'')
      then Some [(''code'', JStr ''mcp_package_allowlist_empty''),
        (''severity'', JStr (if r_profile r = ''hardened'' \<and> truthy (jget (the_dict (jget c ''operation'')) ''mcp_declarations_present'')
           then ''error'' else ''warning''))] else None)"
  "map_of (posture_found c r) ''passable_env_names_unbounded_refused'' =
     (if r_profile r = ''hardened'' \<and> r_null_explicit r \<and> jget (the_dict (jget c ''operation'')) ''kind'' = JStr ''profile-install''
      then Some [(''code'', JStr ''passable_env_names_unbounded_refused''), (''severity'', JStr ''error''), (''names_knob'', jtrue)]
      else None)"
  "map_of (posture_found c r) ''registry_unreachable_during_install'' =
     (if truthy (jget (the_dict (jget c ''operation'')) ''unreachable_trusted_registries'') \<and>
         installing (jget (the_dict (jget c ''operation'')) ''kind'')
      then Some [(''code'', JStr ''registry_unreachable_during_install''),
        (''severity'', JStr (if r_profile r = ''permissive'' then ''warning'' else ''error'')),
        (''registries'', jget (the_dict (jget c ''operation'')) ''unreachable_trusted_registries''),
        (''artifacts'', jget (the_dict (jget c ''operation'')) ''artifacts_without_evidence'')] else None)"
  unfolding posture_found_def Let_def map_of_optional map_of_optional_last by simp_all

lemma proceeds_no_error:
  assumes "posture_diagnostics c r = Inr ds" "posture_outcome c r ds = ''proceeds''"
    "code \<in> set SECURITY_POSTURE_DIAGNOSTIC_ORDER" "map_of (posture_found c r) code = Some e"
  shows "jget e ''severity'' \<noteq> JStr ''error''"
proof -
  have "e \<in> set ds" using assms(1,3,4)
    by (force simp: posture_diagnostics_def and_then_ok_iff List.map_filter_def)
  then show ?thesis using assms(2)
    by (auto simp: posture_outcome_def Let_def list_ex_iff split: if_splits)
qed

lemma posture_case_parts:
  assumes "check_posture_case name c = Inr codes"
  shows "\<exists>r ds. posture_resolve c = Inr r \<and>
    posture_check_scenario name (JObj c) (r_profile r) (r_source r) = Inr () \<and>
    posture_diagnostics c r = Inr ds \<and>
    jget (the_dict (jget c ''expected'')) ''profile'' = JStr (r_profile r) \<and>
    jget (the_dict (jget c ''expected'')) ''profile_source'' = JStr (r_source r) \<and>
    jget (the_dict (jget c ''expected'')) ''outcome'' = JStr (posture_outcome c r ds)"
proof -
  from assms obtain r where r: "posture_resolve c = Inr r"
    by (auto simp: check_posture_case_def and_then_ok_iff)
  with assms obtain ds where ds: "posture_diagnostics c r = Inr ds"
    by (auto simp: check_posture_case_def Let_def and_then_ok_iff)
  show ?thesis using assms r ds
    by (intro exI [of _ r] exI [of _ ds]) (auto simp: check_posture_case_def Let_def and_then_ok_iff)
qed

text \<open>
  C25: the hardened posture fails closed.  A case the gate accepts that records an installation as
  proceeding under the hardened posture has a non-empty source allowlist and no unreachable trusted
  registry; for a profile installation it also has no explicit unbounded environment and, when MCP
  packages are declared, a non-empty package allowlist.
\<close>

theorem posture_hardened_fails_closed:
  assumes "check_posture_case name c = Inr codes"
    and "jget (the_dict (jget c ''expected'')) ''outcome'' = JStr ''proceeds''"
    and "jget (the_dict (jget c ''expected'')) ''profile'' = JStr ''hardened''"
    and "installing (jget (the_dict (jget c ''operation'')) ''kind'')"
  shows "\<exists>r. posture_resolve c = Inr r \<and> r_profile r = ''hardened'' \<and>
    truthy (jget (r_effective r) ''allowed_sources'') \<and>
    \<not> truthy (jget (the_dict (jget c ''operation'')) ''unreachable_trusted_registries'') \<and>
    (jget (the_dict (jget c ''operation'')) ''kind'' = JStr ''profile-install'' \<longrightarrow> \<not> r_null_explicit r \<and>
       (schema2 (the_dict (jget c ''machine'')) \<and> truthy (jget (the_dict (jget c ''operation'')) ''mcp_declarations_present'') \<longrightarrow>
          truthy (jget (r_effective r) ''mcp_package_allowlist'')))"
proof -
  obtain r ds where r: "posture_resolve c = Inr r" and ds: "posture_diagnostics c r = Inr ds"
    and profile: "jget (the_dict (jget c ''expected'')) ''profile'' = JStr (r_profile r)"
    and outcome: "jget (the_dict (jget c ''expected'')) ''outcome'' = JStr (posture_outcome c r ds)"
    using posture_case_parts [OF assms(1)] by (elim exE conjE) (rule that; assumption)
  have h: "r_profile r = ''hardened''" using profile assms(3) by simp
  have "posture_outcome c r ds = ''proceeds''" using outcome assms(2) by simp
  note none = proceeds_no_error [OF ds this]
  have order: "''source_allowlist_empty'' \<in> set SECURITY_POSTURE_DIAGNOSTIC_ORDER"
    "''mcp_package_allowlist_empty'' \<in> set SECURITY_POSTURE_DIAGNOSTIC_ORDER"
    "''passable_env_names_unbounded_refused'' \<in> set SECURITY_POSTURE_DIAGNOSTIC_ORDER"
    "''registry_unreachable_during_install'' \<in> set SECURITY_POSTURE_DIAGNOSTIC_ORDER"
    by (simp_all add: SECURITY_POSTURE_DIAGNOSTIC_ORDER_def)
  have "truthy (jget (r_effective r) ''allowed_sources'')"
    using none [OF order(1)] h assms(4) by (cases "truthy (jget (r_effective r) ''allowed_sources'')") (auto simp: found_codes)
  moreover have "\<not> truthy (jget (the_dict (jget c ''operation'')) ''unreachable_trusted_registries'')"
    using none [OF order(4)] h assms(4)
    by (cases "truthy (jget (the_dict (jget c ''operation'')) ''unreachable_trusted_registries'')") (auto simp: found_codes)
  moreover have "\<not> r_null_explicit r" if "jget (the_dict (jget c ''operation'')) ''kind'' = JStr ''profile-install''"
    using none [OF order(3)] h that by (cases "r_null_explicit r") (auto simp: found_codes)
  moreover have "truthy (jget (r_effective r) ''mcp_package_allowlist'')"
    if "jget (the_dict (jget c ''operation'')) ''kind'' = JStr ''profile-install''"
      "schema2 (the_dict (jget c ''machine''))" "truthy (jget (the_dict (jget c ''operation'')) ''mcp_declarations_present'')"
    using none [OF order(2)] h that by (cases "truthy (jget (r_effective r) ''mcp_package_allowlist'')") (auto simp: found_codes)
  ultimately show ?thesis using r h by blast
qed

text \<open>
  A case accepted under one of the pinned names records the posture and the precedence source
  that name stands for, and leaves absent every input its pins say is absent.
\<close>

theorem posture_case_pins:
  assumes "check_posture_case name c = Inr codes"
    and "map_of SECURITY_POSTURE_SCENARIOS name = Some pins"
    and "(path, want) \<in> set pins"
  shows "(path = ''effective.profile'' \<longrightarrow> jget (the_dict (jget c ''expected'')) ''profile'' = want) \<and>
    (path = ''effective.profile_source'' \<longrightarrow> jget (the_dict (jget c ''expected'')) ''profile_source'' = want) \<and>
    (want = JStr ''<absent>'' \<longrightarrow> path \<notin> {''effective.profile'', ''effective.profile_source''} \<longrightarrow>
       posture_lookup (JObj c) path = None)"
proof -
  obtain r :: resolved where scenario: "posture_check_scenario name (JObj c) (r_profile r) (r_source r) = Inr ()"
    and rec: "jget (the_dict (jget c ''expected'')) ''profile'' = JStr (r_profile r)"
      "jget (the_dict (jget c ''expected'')) ''profile_source'' = JStr (r_source r)"
    using posture_case_parts [OF assms(1)] by (elim exE conjE) (rule that; assumption)
  show ?thesis using scenario assms(2,3) rec
    by (fastforce simp: posture_check_scenario_def for_each_ok_iff check_pin_def Let_def split: if_splits)
qed

lemma flip_install_ok:
  "check_posture_case ''revision-B-default-hardened-flip-install'' case_revision_B_default_hardened_flip_install = Inr []"
  by code_simp

lemma locked_posture_ok:
  "check_posture_case ''locked-posture-beats-explicit-permissive'' case_locked_posture_beats_explicit_permissive = Inr []"
  by code_simp

theorem posture_hardened_fails_closed_witness:
  "\<exists>r. posture_resolve case_revision_B_default_hardened_flip_install = Inr r \<and>
     truthy (jget (r_effective r) ''allowed_sources'')"
proof -
  have "jget (the_dict (jget case_revision_B_default_hardened_flip_install ''expected'')) ''outcome'' = JStr ''proceeds''"
    "jget (the_dict (jget case_revision_B_default_hardened_flip_install ''expected'')) ''profile'' = JStr ''hardened''"
    "installing (jget (the_dict (jget case_revision_B_default_hardened_flip_install ''operation'')) ''kind'')"
    by code_simp+
  from posture_hardened_fails_closed [OF flip_install_ok this] show ?thesis by blast
qed

theorem posture_case_pins_witness:
  "jget (the_dict (jget case_locked_posture_beats_explicit_permissive ''expected'')) ''profile_source'' = JStr ''lock''"
proof -
  have "map_of SECURITY_POSTURE_SCENARIOS ''locked-posture-beats-explicit-permissive'' =
      Some pins_locked_posture_beats_explicit_permissive"
    "(''effective.profile_source'', JStr ''lock'') \<in> set pins_locked_posture_beats_explicit_permissive"
    by (simp add: SECURITY_POSTURE_SCENARIOS_def) (simp add: pins_locked_posture_beats_explicit_permissive_def)
  from posture_case_pins [OF locked_posture_ok this] show ?thesis by simp
qed

theorem posture_precedence_witness:
  "\<exists>r. posture_resolve case_locked_posture_beats_explicit_permissive = Inr r \<and> r_source r = ''lock'' \<and>
     r_profile r = ''hardened'' \<and> the_str (jget (r_sources r) ''audit_mode'') = ''profile''"
proof -
  have "(case posture_resolve case_locked_posture_beats_explicit_permissive of Inr r \<Rightarrow> r_source r = ''lock'' | _ \<Rightarrow> False)"
    by code_simp
  then obtain r where r: "posture_resolve case_locked_posture_beats_explicit_permissive = Inr r" "r_source r = ''lock''"
    by (auto split: sum.splits)
  have "''audit'' \<notin> set (locked_keys (the_dict (jget case_locked_posture_beats_explicit_permissive ''system'')))"
    "\<not> jhas (the_dict (jget_or (JObj []) (the_dict (jget case_locked_posture_beats_explicit_permissive ''machine'')) ''audit'')) ''mode''"
    by code_simp+
  then show ?thesis using posture_precedence [OF r(1)] r by (simp add: merged_def)
qed

end
