(* ===== verification/Machines.thy ===== *)
theory Machines
  imports PyPrelude
begin

text \<open>
  Executable state machines: a step takes a state and an action to a failure or to a new state and
  an observation.  Reachability is inductive; the locales give, once, what an invariant and a
  preserved order on states mean for every reachable state and for whole runs.
\<close>

inductive reachable :: "('s \<Rightarrow> 'a \<Rightarrow> 'e + 's \<times> 'o) \<Rightarrow> 's \<Rightarrow> 's \<Rightarrow> bool" for step s0 where
  start: "reachable step s0 s0"
| turn: "reachable step s0 s \<Longrightarrow> step s a = Inr (t, out) \<Longrightarrow> reachable step s0 t"

fun run :: "('s \<Rightarrow> 'a \<Rightarrow> 'e + 's \<times> 'o) \<Rightarrow> 's \<Rightarrow> 'a list \<Rightarrow> 'e + 's \<times> 'o list" where
  "run step s [] = Inr (s, [])"
| "run step s (a # as) =
     and_then (step s a) (\<lambda>(t, out). and_then (run step t as) (\<lambda>(u, outs). Inr (u, out # outs)))"

inductive_cases reachable_turnE: "reachable step s0 t"

lemma reachable_trans: "reachable step b c \<Longrightarrow> reachable step a b \<Longrightarrow> reachable step a c"
  by (induction rule: reachable.induct) (auto intro: reachable.turn)

lemma run_reachable: "run step s as = Inr (t, outs) \<Longrightarrow> reachable step s t"
proof (induction as arbitrary: s outs)
  case (Cons a as)
  then obtain u out outs' where u: "step s a = Inr (u, out)" "run step u as = Inr (t, outs')"
    by (auto simp: and_then_ok_iff)
  have "reachable step s u" using reachable.start u(1) by (rule reachable.turn)
  then show ?case by (rule reachable_trans [OF Cons.IH [OF u(2)]])
qed (simp add: reachable.start)

lemma reachable_run: "reachable step s t \<Longrightarrow> \<exists>as outs. run step s as = Inr (t, outs)"
proof (induction rule: reachable.induct)
  case start
  show ?case by (rule exI [of _ "[]"]) simp
next
  case (turn u a t out)
  then obtain as outs where "run step s as = Inr (u, outs)" by blast
  moreover have "run step s as = Inr (u, outs) \<Longrightarrow> run step s (as @ [a]) = Inr (t, outs @ [out])" for outs
  proof (induction as arbitrary: s outs)
    case Nil
    then show ?case using turn.hyps by simp
  next
    case (Cons x xs)
    then show ?case by (fastforce simp: and_then_pair_ok_iff)
  qed
  ultimately show ?case by blast
qed

locale invariant_machine =
  fixes step :: "'s \<Rightarrow> 'a \<Rightarrow> 'e + 's \<times> 'o" and good :: "'s \<Rightarrow> bool"
  assumes step_good: "good s \<Longrightarrow> step s a = Inr (t, out) \<Longrightarrow> good t"
begin

lemma reachable_good: "reachable step s t \<Longrightarrow> good s \<Longrightarrow> good t"
  by (induction rule: reachable.induct) (auto intro: step_good)

lemma run_good: "run step s as = Inr (t, outs) \<Longrightarrow> good s \<Longrightarrow> good t"
  by (rule reachable_good [OF run_reachable])

end

text \<open>An order the steps only go up in; every reachable state lies above the start.\<close>

locale rising_machine = invariant_machine step good
  for step :: "'s \<Rightarrow> 'a \<Rightarrow> 'e + 's \<times> 'o" and good +
  fixes below :: "'s \<Rightarrow> 's \<Rightarrow> bool"
  assumes below_refl: "below s s"
    and below_trans: "below s t \<Longrightarrow> below t u \<Longrightarrow> below s u"
    and step_below: "good s \<Longrightarrow> step s a = Inr (t, out) \<Longrightarrow> below s t"
begin

lemma reachable_below: "reachable step s t \<Longrightarrow> good s \<Longrightarrow> below s t"
proof (induction rule: reachable.induct)
  case (turn t a u out)
  then show ?case using below_trans [OF turn.IH] step_below [OF reachable_good] by blast
qed (rule below_refl)

lemma run_below: "run step s as = Inr (t, outs) \<Longrightarrow> good s \<Longrightarrow> below s t"
  by (rule reachable_below [OF run_reachable])

end

end
