(* ===== verification/PurePaths.thy ===== *)
theory PurePaths
  imports PyText
begin

text \<open>
  What the trust ledger uses of \<open>pathlib\<close>'s pure paths and of \<open>urllib.parse\<close> (CPython
  3.13): splitting a path into drive, root and parts, the text of a path, the prefix order, and
  the network location of a URL.
\<close>

datatype flavour = Posix | Windows

datatype pure_path = PurePath (drive: string) (root: string) (parts: "string list")

fun separator :: "flavour \<Rightarrow> char" where
  "separator Posix = CHR ''/''"
| "separator Windows = CHR 0x5C"

text \<open>\<open>re.match("[A-Za-z]:", s)\<close>.\<close>

definition drive_letter :: "string \<Rightarrow> bool" where
  "drive_letter s = (case s of c # d # _ \<Rightarrow> (is_lower c \<or> is_upper c) \<and> d = CHR '':'' | _ \<Rightarrow> False)"

definition flavour_of :: "string \<Rightarrow> flavour" where
  "flavour_of s = (if CHR 0x5C \<in> set s \<or> drive_letter s then Windows else Posix)"

text \<open>The index of the next separator, if there is one.\<close>

definition find_from :: "char \<Rightarrow> nat \<Rightarrow> string \<Rightarrow> nat option" where
  "find_from c n s = (if c \<in> set (drop n s) then Some (n + length (before_char c (drop n s))) else None)"

text \<open>\<open>posixpath.splitroot\<close> and \<open>ntpath.splitroot\<close>; the latter on back slashes.\<close>

definition posix_splitroot :: "string \<Rightarrow> string \<times> string \<times> string" where
  "posix_splitroot s =
     (if take 1 s \<noteq> ''/'' then ([], [], s)
      else if take 1 (drop 1 s) \<noteq> ''/'' \<or> take 1 (drop 2 s) = ''/'' then ([], ''/'', drop 1 s)
      else ([], take 2 s, drop 2 s))"

definition nt_splitroot :: "string \<Rightarrow> string \<times> string \<times> string" where
  "nt_splitroot s =
     (let sep = [CHR 0x5C] in
      if take 1 s = sep then
        (if take 1 (drop 1 s) = sep then
           (case find_from (CHR 0x5C) 2 s of
              None \<Rightarrow> (s, [], [])
            | Some i \<Rightarrow>
                (case find_from (CHR 0x5C) (i + 1) s of
                   None \<Rightarrow> (s, [], [])
                 | Some j \<Rightarrow> (take j s, take 1 (drop j s), drop (j + 1) s)))
         else ([], take 1 s, drop 1 s))
      else if take 1 (drop 1 s) = '':'' then
        (if take 1 (drop 2 s) = sep then (take 2 s, take 1 (drop 2 s), drop 3 s) else (take 2 s, [], drop 2 s))
      else ([], [], s))"

text \<open>A share without a root gets one, as \<open>_parse_path\<close> does.\<close>

definition share_root :: "string \<Rightarrow> string" where
  "share_root drv =
     (if take 1 drv = [CHR 0x5C] \<and> last drv \<noteq> CHR 0x5C then
        (let ds = split_on (CHR 0x5C) drv in
         if (length ds = 4 \<and> \<not> contains (ds ! 2) ''?.'') \<or> length ds = 6 then [CHR 0x5C] else [])
      else [])"

definition parse_path :: "flavour \<Rightarrow> string \<Rightarrow> pure_path" where
  "parse_path fl s =
     (let (drv, rt, rel) = (case fl of
            Posix \<Rightarrow> posix_splitroot s
          | Windows \<Rightarrow> nt_splitroot (map (\<lambda>c. if c = CHR ''/'' then CHR 0x5C else c) s));
          rt = (if rt = [] \<and> drv \<noteq> [] then share_root drv else rt) in
      PurePath drv rt (filter (\<lambda>p. p \<noteq> [] \<and> p \<noteq> ''.'') (split_on (separator fl) rel)))"

definition anchor :: "pure_path \<Rightarrow> string" where
  "anchor p = drive p @ root p"

definition path_text :: "flavour \<Rightarrow> pure_path \<Rightarrow> string" where
  "path_text fl p =
     (if anchor p = [] \<and> parts p = [] then ''.''
      else anchor p @ join_with [separator fl] (parts p))"

definition absolute :: "flavour \<Rightarrow> pure_path \<Rightarrow> bool" where
  "absolute fl p = (root p \<noteq> [] \<and> (fl = Windows \<longrightarrow> drive p \<noteq> []))"

definition lower_char :: "char \<Rightarrow> char" where
  "lower_char c = (if is_upper c \<or> (192 \<le> ord_of c \<and> ord_of c \<le> 222 \<and> ord_of c \<noteq> 215)
     then char_of (ord_of c + 32) else c)"

definition normcase :: "flavour \<Rightarrow> string \<Rightarrow> string" where
  "normcase fl s = (if fl = Windows then map lower_char s else s)"

text \<open>\<open>p == q or q in p.parents\<close>, on the case-normalized texts.\<close>

definition relative_to :: "flavour \<Rightarrow> pure_path \<Rightarrow> pure_path \<Rightarrow> bool" where
  "relative_to fl p q =
     (normcase fl (anchor p) = normcase fl (anchor q) \<and>
      prefix (map (normcase fl) (parts q)) (map (normcase fl) (parts p)))"

lemma relative_to_refl: "relative_to fl p p"
  by (simp add: relative_to_def)

lemma relative_to_trans: "relative_to fl p q \<Longrightarrow> relative_to fl q r \<Longrightarrow> relative_to fl p r"
  by (auto simp: relative_to_def intro: prefix_order.trans)

section \<open>Network locations\<close>

definition scheme_char :: "char \<Rightarrow> bool" where
  "scheme_char c = (is_alnum c \<or> c \<in> set ''+-.'')"

definition lower :: "string \<Rightarrow> string" where
  "lower s = map lower_char s"

text \<open>Scheme, network location and path of a text without white space, \<open>?\<close> and \<open>#\<close>.\<close>

definition urlsplit :: "string \<Rightarrow> string \<times> string \<times> string" where
  "urlsplit s =
     (let pre = before_char (CHR '':'') s;
          has = CHR '':'' \<in> set s \<and> pre \<noteq> [] \<and> (is_lower (hd pre) \<or> is_upper (hd pre)) \<and> list_all scheme_char pre;
          scheme = (if has then lower pre else []); rest = (if has then after_char (CHR '':'') s else s) in
      if prefix ''//'' rest then
        (scheme, before_char (CHR ''/'') (drop 2 rest), dropWhile (\<lambda>c. c \<noteq> CHR ''/'') (drop 2 rest))
      else (scheme, [], rest))"

text \<open>\<open>s.rpartition("@")\<close>: the part before the last \<open>@\<close>, and the part after it.\<close>

definition after_last :: "char \<Rightarrow> string \<Rightarrow> string" where
  "after_last c s = rev (takeWhile (\<lambda>x. x \<noteq> c) (rev s))"

definition before_last :: "char \<Rightarrow> string \<Rightarrow> string" where
  "before_last c s = rev (drop 1 (dropWhile (\<lambda>x. x \<noteq> c) (rev s)))"

definition username :: "string \<Rightarrow> string option" where
  "username netloc =
     (if CHR ''@'' \<in> set netloc then Some (before_char (CHR '':'') (before_last (CHR ''@'') netloc)) else None)"

definition password :: "string \<Rightarrow> string option" where
  "password netloc =
     (if CHR ''@'' \<in> set netloc \<and> CHR '':'' \<in> set (before_last (CHR ''@'') netloc)
      then Some (after_char (CHR '':'') (before_last (CHR ''@'') netloc)) else None)"

definition hostname :: "string \<Rightarrow> string" where
  "hostname netloc =
     (let info = (if CHR ''@'' \<in> set netloc then after_last (CHR ''@'') netloc else netloc) in
      if CHR ''['' \<in> set info then before_char (CHR '']'') (after_char (CHR ''['') info)
      else before_char (CHR '':'') info)"

text \<open>\<open>ipaddress.IPv6Address\<close> accepts the text.\<close>

definition hex_digit :: "char \<Rightarrow> bool" where
  "hex_digit c = (is_digit c \<or> (97 \<le> ord_of c \<and> ord_of c \<le> 102) \<or> (65 \<le> ord_of c \<and> ord_of c \<le> 70))"

definition hextet :: "string \<Rightarrow> bool" where
  "hextet s = (s \<noteq> [] \<and> length s \<le> 4 \<and> list_all hex_digit s)"

definition ipv4_octet :: "string \<Rightarrow> bool" where
  "ipv4_octet s = (canonical_decimal s \<and> length s \<le> 3 \<and> nat_of_digits s \<le> 255)"

definition ipv4 :: "string \<Rightarrow> bool" where
  "ipv4 s = (let os = split_on (CHR ''.'') s in length os = 4 \<and> list_all ipv4_octet os)"

definition ipv6 :: "string \<Rightarrow> bool" where
  "ipv6 s0 =
     (let s = before_char (CHR ''%'') s0; scope = after_char (CHR ''%'') s0;
          ps0 = split_on (CHR '':'') s;
          dotted = (CHR ''.'' \<in> set (last ps0));
          ps = (if dotted then butlast ps0 @ [''0'', ''0''] else ps0);
          gaps = filter (\<lambda>i. ps ! i = []) [1..<length ps - 1] in
      (CHR ''%'' \<in> set s0 \<longrightarrow> scope \<noteq> [] \<and> CHR ''%'' \<notin> set scope) \<and> s \<noteq> [] \<and> CHR ''/'' \<notin> set s0 \<and>
      3 \<le> length ps0 \<and> (dotted \<longrightarrow> ipv4 (last ps0)) \<and> length ps \<le> 9 \<and> length gaps \<le> 1 \<and>
      (case gaps of
         [] \<Rightarrow> length ps = 8 \<and> list_all hextet ps
       | i # _ \<Rightarrow>
           (let hi = take i ps; lo = drop (i + 1) ps;
                hi = (if hd hi = [] then tl hi else hi); lo' = (if last lo = [] then butlast lo else lo) in
            (ps ! 0 = [] \<longrightarrow> hi = []) \<and> (last ps = [] \<longrightarrow> lo' = []) \<and>
            length hi + length lo' < 8 \<and> list_all hextet hi \<and> list_all hextet lo')))"

text \<open>\<open>urlsplit\<close> raises \<open>ValueError\<close> on other bracketed hosts.\<close>

definition netloc_ok :: "string \<Rightarrow> bool" where
  "netloc_ok netloc =
     (let info = (if CHR ''@'' \<in> set netloc then after_last (CHR ''@'') netloc else netloc) in
      if CHR ''['' \<in> set netloc \<or> CHR '']'' \<in> set netloc then
        CHR ''['' \<in> set netloc \<and> CHR '']'' \<in> set netloc \<and>
        (let host = (if CHR ''['' \<in> set info then before_char (CHR '']'') (after_char (CHR ''['') info)
              else before_char (CHR '':'') info);
             port = (if CHR ''['' \<in> set info then after_char (CHR '']'') (after_char (CHR ''['') info) else []) in
         (CHR ''['' \<in> set info \<longrightarrow> hd info = CHR ''['') \<and> (port \<noteq> [] \<longrightarrow> hd port = CHR '':'') \<and>
         (if prefix ''v'' host then
            (let v = before_char (CHR ''.'') (tl host) in
             CHR ''.'' \<in> set host \<and> v \<noteq> [] \<and> list_all hex_digit v \<and> after_char (CHR ''.'') (tl host) \<noteq> [])
          else ipv6 host))
      else True)"

end
