(* ===== verification/WorkspaceTrust.thy ===== *)
theory WorkspaceTrust
  imports Machines PurePaths
begin

text \<open>
  The workspace-trust oracle (\<open>tools/workspace_trust.py\<close>): admission of operator paths,
  discovery of a repository identity from declared facts, and the transition that grants,
  revokes, lapses and lists consent.  Records, actions and facts are records typed as the corpus
  writes them; an absent key is \<open>None\<close>.  The JSON Schema test of a private record is
  not part of a step and is not modelled.
\<close>

section \<open>Data\<close>

record status_entry =
  st_status :: string
  st_time :: string
  st_reason :: string

record identity =
  id_root :: string
  id_remote :: "string option"
  id_commit :: string

record binding =
  bd_id :: string
  bd_profile :: string
  bd_trigger :: string
  bd_source :: string

record trust_record =
  grant_id :: string
  environment :: string
  path :: string
  event :: string
  reason :: string
  state :: status_entry
  state_history :: "status_entry list"
  repository :: "identity option"
  binding :: "binding option"

record trust_state =
  records :: "trust_record list"
  bindings :: "string list"
  transactions :: "string list"
  pending_cleanup :: bool

text \<open>Declared observations of a repository; \<open>f_complete\<close> is \<open>history_complete is True\<close>.\<close>

record facts =
  f_read :: "string option"
  f_complete :: bool
  f_roots :: "string list"
  f_remotes :: "(string \<times> string option) list"
  f_root :: "string option"
  f_components :: "string list option"
  f_kind :: "string option"
  f_path_read :: "string option"

record action =
  a_op :: string
  a_environments :: "string list option"
  a_environment :: "string option"
  a_ledger :: "string option"
  a_transaction_read :: "string option"
  a_commit :: "string option"
  a_binding :: "string option"
  a_grant :: "string option"
  a_path :: "string option"
  a_source :: "string option"
  a_home :: "string option"
  a_components :: "string list"
  a_path_read :: "string option"
  a_kind :: "string option"
  a_cleanup :: "string option"
  a_repository :: "facts option"
  a_selection_ok :: bool
  a_reason :: "string option"
  a_profile :: "string option"
  a_trigger :: "string option"

record observation =
  o_diagnostic :: "string option"
  o_authorized :: bool
  o_active :: "string list"
  o_references :: "string list"
  o_installed :: "string list"
  o_pending :: bool
  o_listed :: "string list option"

definition ENVIRONMENTS :: "string list" where
  "ENVIRONMENTS = [''claude_code'', ''codex_cli'', ''opencode'', ''pi'', ''muse'']"

definition TIME :: string where
  "TIME = ''2026-10-18T00:00:00Z''"

section \<open>Paths and remotes\<close>

definition path_char :: "char \<Rightarrow> bool" where
  "path_char c = (\<not> ord_of c < 32 \<and> c \<notin> set ''*?[]{}'')"

definition exact_path :: "string option \<Rightarrow> bool" where
  "exact_path v =
     (case v of
        None \<Rightarrow> False
      | Some s \<Rightarrow>
          s \<noteq> [] \<and> list_all path_char s \<and>
          (let fl = flavour_of s; p = parse_path fl s in
           absolute fl p \<and> path_text fl p \<noteq> anchor p \<and> ''..'' \<notin> set (parts p) \<and> path_text fl p = s))"

definition within :: "string \<Rightarrow> string \<Rightarrow> bool" where
  "within child dir = (let fl = flavour_of dir in relative_to fl (parse_path fl child) (parse_path fl dir))"

definition remote_char :: "char \<Rightarrow> bool" where
  "remote_char c = (\<not> is_space c \<and> \<not> ord_of c < 32 \<and> c \<notin> set ''?#'')"

text \<open>\<open>(?:[A-Za-z0-9_.-]+@)?[A-Za-z0-9.-]+:[^:@\s?#]+\<close>.\<close>

definition scp_remote :: "string \<Rightarrow> bool" where
  "scp_remote s =
     (let left = before_char (CHR '':'') s; right = after_char (CHR '':'') s;
          user = before_char (CHR ''@'') left;
          host = (if CHR ''@'' \<in> set left then after_char (CHR ''@'') left else left) in
      CHR '':'' \<in> set s \<and> right \<noteq> [] \<and> list_all (\<lambda>c. c \<notin> set '':@?#'' \<and> \<not> is_space c) right \<and>
      host \<noteq> [] \<and> list_all (\<lambda>c. is_alnum c \<or> c \<in> set ''.-'') host \<and>
      (CHR ''@'' \<in> set left \<longrightarrow> user \<noteq> [] \<and> list_all (\<lambda>c. is_alnum c \<or> c \<in> set ''_.-'') user))"

definition remote_safe :: "string option \<Rightarrow> bool" where
  "remote_safe v =
     (case v of
        None \<Rightarrow> True
      | Some s \<Rightarrow>
          s \<noteq> [] \<and> list_all remote_char s \<and>
          (if contains ''://'' s then
             (let (scheme, netloc, upath) = urlsplit s in
              netloc_ok netloc \<and> hostname netloc \<noteq> [] \<and> upath \<noteq> [] \<and> password netloc = None \<and>
              (username netloc = None \<or> scheme = ''ssh''))
           else scp_remote s))"

definition hex_lower :: "char \<Rightarrow> bool" where
  "hex_lower c = (is_digit c \<or> (97 \<le> ord_of c \<and> ord_of c \<le> 102))"

text \<open>The diagnostic is the \<open>Inl\<close>; a known non-repository is \<open>Inr None\<close>.\<close>

definition discover :: "facts option \<Rightarrow> string + identity option" where
  "discover fs =
     (let unverifiable = Inl ''workspace_trust_repository_unverifiable'' in
      case fs of
        None \<Rightarrow> Inr None
      | Some f \<Rightarrow>
          if f_read f \<noteq> Some ''ok'' \<or> \<not> f_complete f then unverifiable
          else if length (f_roots f) \<noteq> 1 \<or>
              \<not> (length (hd (f_roots f)) \<in> {40, 64} \<and> list_all hex_lower (hd (f_roots f))) then unverifiable
          else if \<not> exact_path (f_root f) \<or>
              (1 < length (f_remotes f) \<and> ''origin'' \<notin> set (map fst (f_remotes f))) then unverifiable
          else
            let remote = (case map_of (f_remotes f) ''origin'' of
                  Some r \<Rightarrow> r
                | None \<Rightarrow> (case f_remotes f of [] \<Rightarrow> None | (_, r) # _ \<Rightarrow> r)) in
            if \<not> remote_safe remote then unverifiable
            else Inr (Some \<lparr>id_root = the (f_root f), id_remote = remote, id_commit = hd (f_roots f)\<rparr>))"

section \<open>Admission\<close>

text \<open>\<open>admit\<close> on the fields it reads: the path tested, and the home it must differ from.\<close>

definition admit :: "bool \<Rightarrow> bool \<Rightarrow> string option \<Rightarrow> string option \<Rightarrow> string list \<Rightarrow> string option \<Rightarrow>
    string option \<Rightarrow> string option" where
  "admit remove source p home components path_read kind =
     (if \<not> exact_path p \<or> p = home then Some ''workspace_trust_path_invalid''
      else if ''symlink'' \<in> set components then Some ''workspace_trust_symlink''
      else
        let read = (case path_read of None \<Rightarrow> ''ok'' | Some r \<Rightarrow> r) in
        if read \<noteq> ''ok'' then
          (if read = ''absent'' \<and> \<not> remove then Some ''workspace_trust_path_missing''
           else if read = ''absent'' \<and> remove then None
           else Some ''workspace_trust_ledger_unreadable'')
        else if remove then None
        else
          let k = (case kind of None \<Rightarrow> ''directory'' | Some k \<Rightarrow> k) in
          if k \<notin> set (if source then [''directory'', ''file''] else [''directory''])
          then Some ''workspace_trust_path_kind'' else None)"

definition admit_action :: "action \<Rightarrow> string option" where
  "admit_action a =
     (let source = (a_op a = ''bind'') in
      admit (a_op a = ''remove'') source (if source then a_source a else a_path a) (a_home a)
        (a_components a) (a_path_read a) (a_kind a))"

section \<open>Transitions\<close>

definition status_of :: "trust_record \<Rightarrow> string" where
  "status_of r = st_status (state r)"

definition transition :: "string \<Rightarrow> string \<Rightarrow> trust_record \<Rightarrow> trust_record" where
  "transition status why r =
     (if status_of r = ''active'' \<or> (status = ''revoked'' \<and> status_of r = ''lapsed'')
      then r\<lparr>state_history := state_history r @ [state r],
             state := \<lparr>st_status = status, st_time = TIME, st_reason = why\<rparr>\<rparr>
      else r)"

definition observe :: "trust_state \<Rightarrow> string option \<Rightarrow> bool \<Rightarrow> string list option \<Rightarrow> observation" where
  "observe s diagnostic authorized listed =
     \<lparr>o_diagnostic = diagnostic, o_authorized = authorized,
      o_active = sort (map grant_id (filter (\<lambda>r. status_of r = ''active'') (records s))),
      o_references = sort (map grant_id (filter (\<lambda>r. event r = ''implicit-bind'' \<and> status_of r = ''active'') (records s))),
      o_installed = sort (bindings s), o_pending = pending_cleanup s, o_listed = listed\<rparr>"

type_synonym outcome = "(trust_state \<times> observation) res"

definition refuse :: "trust_state \<Rightarrow> string \<Rightarrow> outcome" where
  "refuse s diagnostic = Inr (s, observe s (Some diagnostic) False None)"

definition need :: "string option \<Rightarrow> string \<Rightarrow> string res" where
  "need v key = (case v of None \<Rightarrow> Inl (KeyError key) | Some x \<Rightarrow> Inr x)"

definition list_step :: "trust_state \<Rightarrow> action \<Rightarrow> outcome" where
  "list_step s a =
     (if records s = [] then Inr (s, observe s None False (Some []))
      else and_then (need (a_environment a) ''environment'') (\<lambda>env.
        Inr (s, observe s None False
          (Some (sort (map grant_id (filter (\<lambda>r. environment r = env) (records s))))))))"

definition binding_remove_step :: "trust_state \<Rightarrow> action \<Rightarrow> outcome" where
  "binding_remove_step s a =
     (if (case a_commit a of None \<Rightarrow> ''ok'' | Some c \<Rightarrow> c) \<noteq> ''ok'' then refuse s ''workspace_trust_binding_failed''
      else and_then (need (a_binding a) ''binding_id'') (\<lambda>b.
        let t = s\<lparr>bindings := filter (\<lambda>x. x \<noteq> b) (bindings s),
              records := map (\<lambda>r. if map_option bd_id (binding r) = Some b
                then transition ''revoked'' ''binding removed'' r else r) (records s)\<rparr> in
        Inr (t, observe t None False None)))"

text \<open>A record of the action's environment and path.\<close>

definition addressed :: "action \<Rightarrow> trust_record \<Rightarrow> bool" where
  "addressed a r = (a_environment a = Some (environment r) \<and> a_path a = Some (path r))"

definition remove_step :: "trust_state \<Rightarrow> action \<Rightarrow> outcome" where
  "remove_step s a =
     (if records s \<noteq> [] \<and> a_environment a = None then Inl (KeyError ''environment'')
      else
        let unreadable = (a_cleanup a = Some ''unreadable'');
            t = s\<lparr>records := map (\<lambda>r. if addressed a r
                then transition ''revoked'' ''operator removed consent'' r else r) (records s),
              pending_cleanup := pending_cleanup s \<or> unreadable\<rparr> in
        Inr (t, observe t (if unreadable then Some ''workspace_trust_ledger_unreadable'' else None) False None))"

text \<open>\<open>resolve\<close>, \<open>repair\<close> and \<open>update\<close>: consent whose recorded identity differs lapses.\<close>

definition resolve_step :: "trust_state \<Rightarrow> action \<Rightarrow> outcome" where
  "resolve_step s a =
     (if records s \<noteq> [] \<and> a_environment a = None then Inl (KeyError ''environment'')
      else case discover (a_repository a) of
        Inl d \<Rightarrow> refuse s d
      | Inr identity \<Rightarrow>
          let live = (\<lambda>r. addressed a r \<and> status_of r = ''active'');
              stale = (\<lambda>r. live r \<and> repository r \<noteq> identity);
              t = s\<lparr>records := map (\<lambda>r. if stale r
                  then transition ''lapsed'' ''repository identity changed'' r else r) (records s),
                pending_cleanup := (if a_op a = ''repair'' \<and> a_cleanup a = Some ''ok'' then False
                  else pending_cleanup s)\<rparr>;
              valid = list_ex (\<lambda>r. live r \<and> repository r = identity) (records s) in
          Inr (t, observe t (if valid then None
              else if list_ex stale (records s) then Some ''workspace_trust_repository_changed''
              else Some ''workspace_untrusted'') valid None))"

text \<open>A bind's own grant path is the repository directory of its facts.\<close>

definition bind_admission :: "action \<Rightarrow> string option" where
  "bind_admission a =
     (case a_repository a of
        None \<Rightarrow> None
      | Some f \<Rightarrow>
          if f_root f = None then Some ''workspace_trust_repository_unverifiable''
          else admit False False (f_root f) (a_home a)
            (case f_components f of None \<Rightarrow> a_components a | Some cs \<Rightarrow> cs) (f_path_read f) (f_kind f))"

definition event_of :: "string \<Rightarrow> string" where
  "event_of op = (if op = ''add'' then ''explicit-grant'' else if op = ''launch'' then ''implicit-launch'' else ''implicit-bind'')"

definition new_record :: "action \<Rightarrow> identity option \<Rightarrow> string \<Rightarrow> string \<Rightarrow> binding option \<Rightarrow> string \<Rightarrow> trust_record" where
  "new_record a ident transaction p bd env =
     \<lparr>grant_id = (if a_op a = ''bind'' then transaction @ '':'' @ env else transaction), environment = env,
      path = (if a_op a = ''bind'' then id_root (the ident) else p), event = event_of (a_op a),
      reason = (case a_reason a of None \<Rightarrow> a_op a @ '' action'' | Some r \<Rightarrow> r),
      state = \<lparr>st_status = ''active'', st_time = TIME, st_reason = ''consent recorded''\<rparr>,
      state_history = [], repository = ident, binding = bd\<rparr>"

definition binding_of :: "action \<Rightarrow> binding option res" where
  "binding_of a =
     (if a_op a = ''bind'' then
        and_then (need (a_binding a) ''binding_id'') (\<lambda>b.
        and_then (need (a_profile a) ''profile'') (\<lambda>p.
        and_then (need (a_trigger a) ''trigger'') (\<lambda>t.
        and_then (need (a_source a) ''source_path'') (\<lambda>src.
        Inr (Some \<lparr>bd_id = b, bd_profile = p, bd_trigger = t, bd_source = src\<rparr>)))))
      else Inr None)"

text \<open>\<open>sorted(set(envs))\<close>.\<close>

definition environments_of :: "action \<Rightarrow> string option list" where
  "environments_of a = (case a_environments a of None \<Rightarrow> [a_environment a] | Some es \<Rightarrow> map Some es)"

definition record_consent :: "trust_state \<Rightarrow> action \<Rightarrow> identity option \<Rightarrow> string \<Rightarrow> outcome" where
  "record_consent s a ident p =
     and_then (need (if a_op a = ''bind'' then a_binding a else a_grant a)
        (if a_op a = ''bind'' then ''binding_id'' else ''grant_id'')) (\<lambda>transaction.
     if transaction \<in> set (transactions s) then Inr (s, observe s None False None)
     else
       and_then (binding_of a) (\<lambda>bd.
       let t = s\<lparr>transactions := transactions s @ [transaction],
             bindings := bindings s @ (if a_op a = ''bind'' then [transaction] else []),
             records := records s @ map (new_record a ident transaction p bd)
               (sort (remdups (map the (environments_of a))))\<rparr> in
       Inr (t, observe t None False None)))"

text \<open>\<open>add\<close>, \<open>launch\<close> and \<open>bind\<close>.\<close>

definition grant_step :: "trust_state \<Rightarrow> action \<Rightarrow> outcome" where
  "grant_step s a =
     (if a_op a = ''launch'' \<and> \<not> a_selection_ok a then refuse s ''workspace_trust_binding_failed''
      else case (if a_op a = ''bind'' then bind_admission a else None) of
        Some d \<Rightarrow> refuse s d
      | None \<Rightarrow>
          (case discover (a_repository a) of
             Inl d \<Rightarrow> refuse s d
           | Inr ident \<Rightarrow>
               if a_op a = ''bind'' \<and> ident = None then refuse s ''workspace_trust_repository_required''
               else
                 and_then (need (if a_op a = ''bind'' then a_source a else a_path a) ''path'') (\<lambda>checked.
                 if (case ident of None \<Rightarrow> False | Some i \<Rightarrow> \<not> within checked (id_root i))
                 then refuse s ''workspace_trust_repository_unverifiable''
                 else if a_op a = ''add'' \<and> strip (case a_reason a of None \<Rightarrow> [] | Some r \<Rightarrow> r) = []
                 then refuse s ''workspace_trust_path_invalid''
                 else if (case a_commit a of None \<Rightarrow> ''ok'' | Some c \<Rightarrow> c) \<noteq> ''ok''
                 then refuse s ''workspace_trust_binding_failed''
                 else record_consent s a ident checked)))"

definition trust_step :: "trust_state \<Rightarrow> action \<Rightarrow> outcome" where
  "trust_step s a =
     (if environments_of a = [] \<or> list_ex (\<lambda>e. case e of None \<Rightarrow> True | Some x \<Rightarrow> x \<notin> set ENVIRONMENTS) (environments_of a)
      then refuse s ''workspace_trust_environment_unsupported''
      else if (case a_ledger a of None \<Rightarrow> ''ok'' | Some l \<Rightarrow> l) \<notin> set [''ok'', ''absent''] \<or>
          (a_ledger a = Some ''absent'' \<and> records s \<noteq> [])
      then refuse s ''workspace_trust_ledger_unreadable''
      else if (case a_transaction_read a of None \<Rightarrow> ''ok'' | Some r \<Rightarrow> r) \<noteq> ''ok''
      then refuse s ''workspace_trust_ledger_unreadable''
      else if a_op a = ''list'' then list_step s a
      else if a_op a = ''binding-remove'' then binding_remove_step s a
      else case admit_action a of
        Some d \<Rightarrow> refuse s d
      | None \<Rightarrow>
          if a_op a = ''remove'' then remove_step s a
          else if a_op a \<in> set [''resolve'', ''repair'', ''update''] then resolve_step s a
          else if a_op a \<notin> set [''add'', ''launch'', ''bind''] then Inl (ContractError ''unknown vector operation'')
          else grant_step s a)"

definition empty_trust :: trust_state where
  "empty_trust = \<lparr>records = [], bindings = [], transactions = [], pending_cleanup = False\<rparr>"

section \<open>Invariants\<close>

definition states :: "trust_record \<Rightarrow> string list" where
  "states r = map st_status (state_history r @ [state r])"

text \<open>The histories \<open>record_error\<close> allows.\<close>

definition allowed_histories :: "string list list" where
  "allowed_histories = [[''active''], [''active'', ''revoked''], [''active'', ''lapsed''],
     [''active'', ''lapsed'', ''revoked'']]"

definition record_good :: "string list \<Rightarrow> trust_record \<Rightarrow> bool" where
  "record_good installed r \<longleftrightarrow>
     states r \<in> set allowed_histories \<and>
     (status_of r = ''active'' \<longrightarrow> (\<forall>b. binding r = Some b \<longrightarrow> bd_id b \<in> set installed)) \<and>
     (\<forall>i. repository r = Some i \<longrightarrow> within (path r) (id_root i))"

definition trust_good :: "trust_state \<Rightarrow> bool" where
  "trust_good s \<longleftrightarrow> (\<forall>r \<in> set (records s). record_good (bindings s) r)"

text \<open>What a record may become: the same consent, with states only appended and never live again.\<close>

definition record_evolves :: "trust_record \<Rightarrow> trust_record \<Rightarrow> bool" where
  "record_evolves r r' \<longleftrightarrow>
     grant_id r' = grant_id r \<and> environment r' = environment r \<and> path r' = path r \<and>
     event r' = event r \<and> repository r' = repository r \<and> binding r' = binding r \<and>
     prefix (states r) (states r') \<and> (status_of r \<noteq> ''active'' \<longrightarrow> status_of r' \<noteq> ''active'')"

definition trust_evolves :: "trust_state \<Rightarrow> trust_state \<Rightarrow> bool" where
  "trust_evolves s t \<longleftrightarrow> length (records s) \<le> length (records t) \<and>
     (\<forall>i < length (records s). record_evolves (records s ! i) (records t ! i)) \<and>
     prefix (transactions s) (transactions t)"

lemma transition_fields [simp]:
  "grant_id (transition st why r) = grant_id r" "environment (transition st why r) = environment r"
  "path (transition st why r) = path r" "event (transition st why r) = event r"
  "repository (transition st why r) = repository r" "binding (transition st why r) = binding r"
  by (simp_all add: transition_def)

lemma transition_states:
  "states (transition st why r) =
     (if status_of r = ''active'' \<or> (st = ''revoked'' \<and> status_of r = ''lapsed'') then states r @ [st] else states r)"
  by (simp add: transition_def states_def)

lemma status_last: "status_of r = last (states r)"
  by (simp add: status_of_def states_def)

lemma transition_status: "st \<in> {''revoked'', ''lapsed''} \<Longrightarrow> status_of (transition st why r) \<noteq> ''active''"
  by (auto simp: status_of_def transition_def)

lemma transition_evolves: "st \<in> {''revoked'', ''lapsed''} \<Longrightarrow> record_evolves r (transition st why r)"
  using transition_status [of st why r] by (auto simp: record_evolves_def transition_states)

lemma transition_allowed:
  "states r \<in> set allowed_histories \<Longrightarrow> st \<in> {''revoked'', ''lapsed''} \<Longrightarrow>
    states (transition st why r) \<in> set allowed_histories"
  unfolding transition_states status_last allowed_histories_def by (elim insertE; simp; elim disjE; simp)

lemma transition_good:
  "record_good bs r \<Longrightarrow> st \<in> {''revoked'', ''lapsed''} \<Longrightarrow> record_good bs' (transition st why r)"
  using transition_status [of st why r] by (auto simp: record_good_def transition_allowed)

lemma record_evolves_refl [simp]: "record_evolves r r"
  by (simp add: record_evolves_def)

lemma record_evolves_trans: "record_evolves p q \<Longrightarrow> record_evolves q r \<Longrightarrow> record_evolves p r"
  by (auto simp: record_evolves_def intro: prefix_order.trans)

lemma trust_evolves_trans: "trust_evolves s t \<Longrightarrow> trust_evolves t u \<Longrightarrow> trust_evolves s u"
  unfolding trust_evolves_def using record_evolves_trans prefix_order.trans
  by (meson order_less_le_trans order_trans)

text \<open>A step that maps some records through a transition keeps both.\<close>

lemma map_transition_good:
  assumes "trust_good s" "st \<in> {''revoked'', ''lapsed''}"
    "records t = map (\<lambda>r. if P r then transition st why r else r) (records s)"
    "\<And>r b. r \<in> set (records s) \<Longrightarrow> \<not> P r \<Longrightarrow> binding r = Some b \<Longrightarrow> bd_id b \<in> set (bindings s) \<Longrightarrow> bd_id b \<in> set (bindings t)"
    "transactions t = transactions s"
  shows "trust_good t \<and> trust_evolves s t"
proof
  show "trust_good t"
    unfolding trust_good_def
  proof
    fix r assume "r \<in> set (records t)"
    then obtain q where q: "q \<in> set (records s)" and r: "r = (if P q then transition st why q else q)"
      unfolding assms(3) by auto
    have good: "record_good (bindings s) q" using assms(1) q by (simp add: trust_good_def)
    show "record_good (bindings t) r"
    proof (cases "P q")
      case True
      with r show ?thesis using transition_good [OF good assms(2)] by simp
    next
      case False
      with r good show ?thesis using assms(4) [OF q False] by (simp add: record_good_def)
    qed
  qed
  show "trust_evolves s t"
    using assms transition_evolves by (auto simp: trust_evolves_def)
qed

lemma unchanged_good: "trust_good s \<Longrightarrow> trust_good s \<and> trust_evolves s s"
  by (simp add: trust_evolves_def)

lemma binding_of_ok:
  "binding_of a = Inr bd \<Longrightarrow> (a_op a = ''bind'' \<longrightarrow> map_option bd_id bd = a_binding a) \<and> (a_op a \<noteq> ''bind'' \<longrightarrow> bd = None)"
  by (auto simp: binding_of_def need_def and_then_ok_iff split: if_splits option.splits)

lemma new_record_good:
  assumes "binding_of a = Inr bd" "a_op a = ''bind'' \<longrightarrow> ident \<noteq> None"
    "a_op a \<noteq> ''bind'' \<longrightarrow> (\<forall>i. ident = Some i \<longrightarrow> within p (id_root i))"
    "a_op a = ''bind'' \<longrightarrow> a_binding a = Some transaction \<and> transaction \<in> set bs"
  shows "record_good bs (new_record a ident transaction p bd env)"
proof -
  have "within q q" for q by (simp add: within_def Let_def relative_to_refl)
  then show ?thesis using assms binding_of_ok [OF assms(1)]
    by (auto simp: record_good_def new_record_def states_def status_of_def allowed_histories_def)
qed

lemma record_consent_good:
  assumes t: "record_consent s a ident p = Inr (t, out)" and g: "trust_good s"
    and id: "a_op a = ''bind'' \<longrightarrow> ident \<noteq> None"
    and p: "\<forall>i. ident = Some i \<longrightarrow> within p (id_root i)"
  shows "trust_good t \<and> trust_evolves s t"
proof -
  from t obtain transaction where tr: "need (if a_op a = ''bind'' then a_binding a else a_grant a)
      (if a_op a = ''bind'' then ''binding_id'' else ''grant_id'') = Inr transaction"
    by (auto simp: record_consent_def and_then_ok_iff)
  show ?thesis
  proof (cases "transaction \<in> set (transactions s)")
    case True
    with t tr g show ?thesis by (simp add: record_consent_def trust_evolves_def)
  next
    case False
    with t tr obtain bd where bd: "binding_of a = Inr bd" and eq:
      "t = s\<lparr>transactions := transactions s @ [transaction],
             bindings := bindings s @ (if a_op a = ''bind'' then [transaction] else []),
             records := records s @ map (new_record a ident transaction p bd)
               (sort (remdups (map the (environments_of a))))\<rparr>"
      by (auto simp: record_consent_def and_then_ok_iff Let_def)
    have bind: "a_op a = ''bind'' \<longrightarrow> a_binding a = Some transaction"
      using tr by (auto simp: need_def split: option.splits)
    have "record_good (bindings t) r" if "r \<in> set (records t)" for r
    proof (cases "r \<in> set (records s)")
      case True
      then show ?thesis using g by (auto simp: trust_good_def record_good_def eq)
    next
      case out: False
      then show ?thesis using that id p bind by (auto simp: eq intro!: new_record_good [OF bd])
    qed
    then show ?thesis by (auto simp: trust_good_def trust_evolves_def eq nth_append)
  qed
qed

lemma grant_step_good:
  assumes t: "grant_step s a = Inr (t, out)" and g: "trust_good s"
  shows "trust_good t \<and> trust_evolves s t"
proof -
  have "t = s \<or> (\<exists>ident p. record_consent s a ident p = Inr (t, out) \<and>
      (a_op a = ''bind'' \<longrightarrow> ident \<noteq> None) \<and> (\<forall>i. ident = Some i \<longrightarrow> within p (id_root i)))"
    using t by (auto simp: grant_step_def refuse_def and_then_ok_iff split: if_splits option.splits sum.splits)
  then show ?thesis using record_consent_good g unchanged_good by blast
qed

lemma trust_step_good:
  assumes g: "trust_good s" and t: "trust_step s a = Inr (t, out)"
  shows "trust_good t \<and> trust_evolves s t"
proof -
  consider "t = s" | "binding_remove_step s a = Inr (t, out)" | "remove_step s a = Inr (t, out)"
    | "resolve_step s a = Inr (t, out)" | "grant_step s a = Inr (t, out)"
    using t by (auto simp: trust_step_def refuse_def list_step_def and_then_ok_iff split: if_splits option.splits)
  then show ?thesis
  proof cases
    case 1
    with g show ?thesis using unchanged_good by simp
  next
    case 2
    show ?thesis
    proof (cases "t = s")
      case False
      with 2 obtain b where "t = s\<lparr>bindings := filter (\<lambda>x. x \<noteq> b) (bindings s),
              records := map (\<lambda>r. if map_option bd_id (binding r) = Some b
                then transition ''revoked'' ''binding removed'' r else r) (records s)\<rparr>"
        by (auto simp: binding_remove_step_def refuse_def and_then_ok_iff Let_def split: if_splits)
      then show ?thesis
        by (intro map_transition_good [OF g, of "''revoked''" t "\<lambda>r. map_option bd_id (binding r) = Some b"]) auto
    qed (use g unchanged_good in simp)
  next
    case 3
    then have recs: "records t = map (\<lambda>r. if addressed a r
          then transition ''revoked'' ''operator removed consent'' r else r) (records s)"
      and same: "bindings t = bindings s" "transactions t = transactions s"
      by (auto simp: remove_step_def Let_def split: if_splits)
    from same show ?thesis by (intro map_transition_good [OF g _ recs]) simp_all
  next
    case 4
    show ?thesis
    proof (cases "discover (a_repository a)")
      case (Inl d)
      with 4 g show ?thesis using unchanged_good by (auto simp: resolve_step_def refuse_def split: if_splits)
    next
      case (Inr ident)
      with 4 have recs: "records t = map (\<lambda>r. if (addressed a r \<and> status_of r = ''active'') \<and> repository r \<noteq> ident
          then transition ''lapsed'' ''repository identity changed'' r else r) (records s)"
        and same: "bindings t = bindings s" "transactions t = transactions s"
        by (auto simp: resolve_step_def Let_def split: if_splits)
      from same show ?thesis by (intro map_transition_good [OF g _ recs]) simp_all
    qed
  next
    case 5
    then show ?thesis using grant_step_good g by blast
  qed
qed

interpretation trust: rising_machine trust_step trust_good trust_evolves
proof
  show "trust_good s \<Longrightarrow> trust_step s a = Inr (t, out) \<Longrightarrow> trust_good t" for s a t out
    using trust_step_good by blast
  show "trust_evolves s s" for s by (simp add: trust_evolves_def)
  show "trust_evolves s t \<Longrightarrow> trust_evolves t u \<Longrightarrow> trust_evolves s u" for s t u
    by (rule trust_evolves_trans)
  show "trust_good s \<Longrightarrow> trust_step s a = Inr (t, out) \<Longrightarrow> trust_evolves s t" for s a t out
    using trust_step_good by blast
qed

text \<open>Only \<open>resolve_step\<close> authorizes, and only on live consent for the identity it discovered.\<close>

lemma observe_unauthorized [simp]: "\<not> o_authorized (observe s d False l)"
  by (simp add: observe_def)

lemma observe_diagnostic [simp]: "o_diagnostic (observe s d b l) = d" "o_authorized (observe s d b l) = b"
  by (simp_all add: observe_def)

lemma refuse_ok [simp]: "refuse s d = Inr (t, out) \<longleftrightarrow> t = s \<and> out = observe s (Some d) False None"
  by (auto simp: refuse_def)

lemma grant_step_cases:
  assumes "grant_step s a = Inr (t, out)"
  shows "(t = s \<and> (\<exists>d. out = observe s (Some d) False None)) \<or> (\<exists>ident p. record_consent s a ident p = Inr (t, out))"
  using assms by (auto simp: grant_step_def and_then_ok_iff split: if_splits option.splits sum.splits)

lemma trust_step_cases:
  assumes "trust_step s a = Inr (t, out)"
  obtains (refused) d where "t = s" "out = observe s (Some d) False None"
    | (listed) "a_op a = ''list''" "list_step s a = Inr (t, out)"
    | (unbound) "a_op a = ''binding-remove''" "binding_remove_step s a = Inr (t, out)"
    | (removed) "a_op a = ''remove''" "remove_step s a = Inr (t, out)"
    | (resolved) "a_op a \<in> {''resolve'', ''repair'', ''update''}" "resolve_step s a = Inr (t, out)"
    | (granted) "a_op a \<in> {''add'', ''launch'', ''bind''}" "grant_step s a = Inr (t, out)"
proof -
  have "(\<exists>d. t = s \<and> out = observe s (Some d) False None) \<or>
      (a_op a = ''list'' \<and> list_step s a = Inr (t, out)) \<or>
      (a_op a = ''binding-remove'' \<and> binding_remove_step s a = Inr (t, out)) \<or>
      (a_op a = ''remove'' \<and> remove_step s a = Inr (t, out)) \<or>
      (a_op a \<in> {''resolve'', ''repair'', ''update''} \<and> resolve_step s a = Inr (t, out)) \<or>
      (a_op a \<in> {''add'', ''launch'', ''bind''} \<and> grant_step s a = Inr (t, out))"
    using assms unfolding trust_step_def by (simp split: if_split_asm option.split_asm; blast)
  then show thesis using that by blast
qed

lemma record_consent_unauthorized: "record_consent s a ident p = Inr (t, out) \<Longrightarrow> \<not> o_authorized out \<and> o_diagnostic out = None"
  by (auto simp: record_consent_def and_then_ok_iff Let_def split: if_splits)

lemma authorized_by_resolve:
  assumes "trust_step s a = Inr (t, out)" and "o_authorized out"
  shows "a_op a \<in> {''resolve'', ''repair'', ''update''} \<and> resolve_step s a = Inr (t, out)"
  using assms(1)
proof (cases rule: trust_step_cases)
  case granted
  then show ?thesis using grant_step_cases [OF granted(2)] record_consent_unauthorized assms(2) by fastforce
qed (use assms(2) in \<open>auto simp: list_step_def binding_remove_step_def remove_step_def and_then_ok_iff Let_def split: if_splits\<close>)

lemma resolve_step_sound:
  assumes "resolve_step s a = Inr (t, out)" and "o_authorized out"
  shows "\<exists>r \<in> set (records t). status_of r = ''active'' \<and> a_environment a = Some (environment r) \<and>
    a_path a = Some (path r) \<and> discover (a_repository a) = Inr (repository r)"
proof -
  from assms obtain ident where d: "discover (a_repository a) = Inr ident"
    by (auto simp: resolve_step_def split: if_splits sum.splits)
  with assms have "list_ex (\<lambda>r. (addressed a r \<and> status_of r = ''active'') \<and> repository r = ident) (records s)"
    by (auto simp: resolve_step_def Let_def split: if_splits)
  then obtain r where r: "r \<in> set (records s)" "addressed a r" "status_of r = ''active''" "repository r = ident"
    by (auto simp: list_ex_iff)
  from assms(1) d have recs: "records t = map (\<lambda>r. if (addressed a r \<and> status_of r = ''active'') \<and> repository r \<noteq> ident
      then transition ''lapsed'' ''repository identity changed'' r else r) (records s)"
    by (auto simp: resolve_step_def Let_def split: if_splits)
  have "r \<in> set (records t)" unfolding recs using r by (auto intro!: image_eqI [of _ _ r])
  then show ?thesis using r d by (auto simp: addressed_def)
qed

lemma record_consent_replay:
  assumes "record_consent s a ident p = Inr (t, out)" and "t \<noteq> s"
  shows "transactions t = transactions s @ [the (if a_op a = ''bind'' then a_binding a else a_grant a)]"
  using assms by (auto simp: record_consent_def and_then_ok_iff Let_def need_def split: if_splits option.splits)

lemma record_consent_done:
  assumes "record_consent s a ident p = Inr (t, out)"
    and "the (if a_op a = ''bind'' then a_binding a else a_grant a) \<in> set (transactions s)"
  shows "t = s"
  using assms by (auto simp: record_consent_def and_then_ok_iff Let_def need_def split: if_splits option.splits)

lemma granting_step:
  assumes "trust_step s a = Inr (t, out)" and "a_op a \<in> {''add'', ''launch'', ''bind''}"
  shows "t = s \<or> (\<exists>ident p. record_consent s a ident p = Inr (t, out))"
  using assms(1)
proof (cases rule: trust_step_cases)
  case granted
  then show ?thesis using grant_step_cases by blast
qed (use assms(2) in auto)

section \<open>Properties\<close>

text \<open>
  C28: every state the oracle can reach from the empty ledger is well formed: each record went
  through one of the four allowed histories, an active record made by a binding names an installed
  binding, and a record's path lies within the root of the repository it was granted for.
\<close>

theorem trust_reachable_good:
  assumes "reachable trust_step empty_trust s" and "r \<in> set (records s)"
  shows "states r \<in> {[''active''], [''active'', ''revoked''], [''active'', ''lapsed''], [''active'', ''lapsed'', ''revoked'']} \<and>
    (\<forall>b. status_of r = ''active'' \<and> binding r = Some b \<longrightarrow> bd_id b \<in> set (bindings s)) \<and>
    (\<forall>i. repository r = Some i \<longrightarrow> within (path r) (id_root i))"
proof -
  have "trust_good s"
    by (rule trust.reachable_good [OF assms(1)]) (simp add: trust_good_def empty_trust_def)
  then show ?thesis using assms(2) by (simp add: trust_good_def record_good_def allowed_histories_def)
qed

text \<open>
  C29: consent is never resurrected.  Whatever actions follow, a record that is no longer active
  stays so, keeps its grant and is not removed from the ledger.
\<close>

theorem trust_no_resurrection:
  assumes "reachable trust_step empty_trust s" and "run trust_step s as = Inr (t, outs)"
    and "i < length (records s)" and "status_of (records s ! i) \<noteq> ''active''"
  shows "i < length (records t) \<and> grant_id (records t ! i) = grant_id (records s ! i) \<and>
    status_of (records t ! i) \<noteq> ''active''"
proof -
  have "trust_good s"
    by (rule trust.reachable_good [OF assms(1)]) (simp add: trust_good_def empty_trust_def)
  from trust.run_below [OF assms(2) this] have "trust_evolves s t" .
  then show ?thesis using assms(3,4) by (auto simp: trust_evolves_def record_evolves_def)
qed

text \<open>
  C30: authorization is never given without live consent for the identity discovered now: the action
  is a resolve, repair or update, its facts were verified, and the ledger holds an active record of
  the same environment and path that was granted for exactly that identity.
\<close>

theorem trust_authorized_sound:
  assumes "trust_step s a = Inr (t, out)" and "o_authorized out"
  shows "a_op a \<in> {''resolve'', ''repair'', ''update''} \<and>
    (\<exists>r \<in> set (records t). status_of r = ''active'' \<and> a_environment a = Some (environment r) \<and>
       a_path a = Some (path r) \<and> discover (a_repository a) = Inr (repository r))"
proof -
  from authorized_by_resolve [OF assms] show ?thesis using resolve_step_sound assms(2) by blast
qed

text \<open>
  A granting action that is refused leaves no trace, and one that is replayed grants nothing
  new: an add, launch or bind that reports a diagnostic does not change the ledger, and after one
  that succeeded the same action changes nothing.
\<close>

theorem trust_grant_atomic:
  assumes "trust_step s a = Inr (t, out)" and "a_op a \<in> {''add'', ''launch'', ''bind''}"
  shows "(o_diagnostic out \<noteq> None \<longrightarrow> t = s) \<and>
    (\<forall>u out'. trust_step t a = Inr (u, out') \<longrightarrow> u = t)"
proof -
  show ?thesis
  proof (cases "t = s")
    case True
    then show ?thesis using assms(1) by auto
  next
    case False
    then obtain ident p where rc: "record_consent s a ident p = Inr (t, out)"
      using granting_step [OF assms] by blast
    have "u = t" if "trust_step t a = Inr (u, out')" for u out'
      using granting_step [OF that assms(2)] record_consent_done record_consent_replay [OF rc False] by auto
    with record_consent_unauthorized [OF rc] show ?thesis by simp
  qed
qed

section \<open>A ledger with one grant\<close>

definition sample_facts :: facts where
  "sample_facts = \<lparr>f_read = Some ''ok'', f_complete = True,
     f_roots = [''0123456789012345678901234567890123456789''],
     f_remotes = [(''origin'', Some ''git@host:team/repo.git'')], f_root = Some ''/work/repo'',
     f_components = None, f_kind = None, f_path_read = None\<rparr>"

definition sample_action :: "string \<Rightarrow> action" where
  "sample_action op = \<lparr>a_op = op, a_environments = None, a_environment = Some ''claude_code'',
     a_ledger = None, a_transaction_read = None, a_commit = None, a_binding = None,
     a_grant = Some ''g1'', a_path = Some ''/work/repo/app'', a_source = None, a_home = Some ''/home/op'',
     a_components = [], a_path_read = None, a_kind = None, a_cleanup = None,
     a_repository = Some sample_facts, a_selection_ok = True, a_reason = Some ''reviewed'',
     a_profile = None, a_trigger = None\<rparr>"

definition after :: "trust_state \<Rightarrow> string \<Rightarrow> trust_state" where
  "after s op = (case trust_step s (sample_action op) of Inr (t, _) \<Rightarrow> t | Inl _ \<Rightarrow> s)"

definition granted :: trust_state where
  "granted = after empty_trust ''add''"

definition removed :: trust_state where
  "removed = after granted ''remove''"

lemma granted_step: "\<exists>out. trust_step empty_trust (sample_action ''add'') = Inr (granted, out)"
proof -
  have "case trust_step empty_trust (sample_action ''add'') of Inr _ \<Rightarrow> True | _ \<Rightarrow> False" by code_simp
  then show ?thesis by (auto simp: granted_def after_def split: sum.splits prod.splits)
qed

lemma removed_step: "\<exists>out. trust_step granted (sample_action ''remove'') = Inr (removed, out)"
proof -
  have "case trust_step granted (sample_action ''remove'') of Inr _ \<Rightarrow> True | _ \<Rightarrow> False" by code_simp
  then show ?thesis by (auto simp: removed_def after_def split: sum.splits prod.splits)
qed

lemma reach_granted: "reachable trust_step empty_trust granted"
  using granted_step reachable.turn [OF reachable.start] by metis

lemma reach_removed: "reachable trust_step empty_trust removed"
  using removed_step reachable.turn [OF reach_granted] by metis

lemma granted_records: "map status_of (records granted) = [''active'']"
  by code_simp

lemma removed_records: "map status_of (records removed) = [''revoked'']"
  by code_simp

theorem trust_reachable_good_witness:
  "\<exists>r \<in> set (records removed). status_of r = ''revoked'' \<and>
     (\<forall>i. repository r = Some i \<longrightarrow> within (path r) (id_root i))"
proof -
  from removed_records obtain r where "r \<in> set (records removed)" "status_of r = ''revoked''"
    by (cases "records removed") auto
  then show ?thesis using trust_reachable_good [OF reach_removed] by blast
qed

theorem trust_no_resurrection_witness:
  "\<exists>t outs. run trust_step removed [sample_action ''resolve''] = Inr (t, outs) \<and>
     status_of (records t ! 0) \<noteq> ''active''"
proof -
  have "case run trust_step removed [sample_action ''resolve''] of Inr _ \<Rightarrow> True | _ \<Rightarrow> False" by code_simp
  then obtain t outs where t: "run trust_step removed [sample_action ''resolve''] = Inr (t, outs)"
    by (auto split: sum.splits)
  have "0 < length (records removed)" "status_of (records removed ! 0) \<noteq> ''active''"
    using removed_records by (cases "records removed"; simp)+
  from trust_no_resurrection [OF reach_removed t this] t show ?thesis by blast
qed

theorem trust_authorized_sound_witness:
  "\<exists>t out. trust_step granted (sample_action ''resolve'') = Inr (t, out) \<and> o_authorized out \<and>
     (\<exists>r \<in> set (records t). discover (Some sample_facts) = Inr (repository r))"
proof -
  have "case trust_step granted (sample_action ''resolve'') of Inr (_, out) \<Rightarrow> o_authorized out | _ \<Rightarrow> False"
    by code_simp
  then obtain t out where t: "trust_step granted (sample_action ''resolve'') = Inr (t, out)" "o_authorized out"
    by (auto split: sum.splits)
  have "a_repository (sample_action ''resolve'') = Some sample_facts" by (simp add: sample_action_def)
  then show ?thesis using trust_authorized_sound [OF t] t by auto
qed

theorem trust_grant_atomic_witness:
  "\<exists>out. trust_step granted (sample_action ''add'') = Inr (granted, out)"
proof -
  have "case trust_step granted (sample_action ''add'') of Inr _ \<Rightarrow> True | _ \<Rightarrow> False" by code_simp
  then obtain u out' where u: "trust_step granted (sample_action ''add'') = Inr (u, out')"
    by (auto split: sum.splits)
  obtain out where g: "trust_step empty_trust (sample_action ''add'') = Inr (granted, out)"
    using granted_step by blast
  have "a_op (sample_action ''add'') \<in> {''add'', ''launch'', ''bind''}" by (simp add: sample_action_def)
  from trust_grant_atomic [OF g this] u show ?thesis by blast
qed

end
