(* ===== verification/JsonText.thy ===== *)
theory JsonText
  imports Cases "HOL-Library.Multiset" "HOL-Library.AList"
begin

text \<open>
  Canonical JSON (CCJ-1) as the tools write and read it: \<open>json.dumps\<close> with sorted keys and
  compact separators, UTF-8, the strict \<open>json.loads\<close> with its hooks, and
  \<open>ccj1_bytes\<close> of \<open>tools/validate.py\<close>, which elides \<open>sig\<close> and bounds
  integers.  Reading gives back what was printed, so canonical bytes identify a document up to
  the order of its keys.
\<close>

section \<open>UTF-8 of the code points of the model\<close>

definition utf8_char :: "char \<Rightarrow> string" where
  "utf8_char c = (if ord_of c < 128 then [c] else [char_of (192 + ord_of c div 64), char_of (128 + ord_of c mod 64)])"

definition utf8 :: "string \<Rightarrow> string" where
  "utf8 s = concat (map utf8_char s)"

text \<open>Strict decoding; a byte sequence that encodes a larger code point is refused too.\<close>

fun utf8_decode :: "string \<Rightarrow> string option" where
  "utf8_decode [] = Some []"
| "utf8_decode (a # s) =
     (if ord_of a < 128 then map_option (Cons a) (utf8_decode s)
      else case s of
        [] \<Rightarrow> None
      | b # s' \<Rightarrow>
          if ord_of a \<in> {194, 195} \<and> 128 \<le> ord_of b \<and> ord_of b < 192
          then map_option (Cons (char_of (64 * (ord_of a - 192) + (ord_of b - 128)))) (utf8_decode s') else None)"

lemma ord_of_char_of [simp]: "n < 256 \<Longrightarrow> ord_of (char_of n) = n"
  by (simp add: ord_of_def)

lemma char_of_ord_of [simp]: "char_of (ord_of c) = c"
  by (simp add: ord_of_def)

lemma ord_of_less [simp]: "ord_of c < 256"
  by (simp add: ord_of_def)

lemma utf8_decode_char: "utf8_decode (utf8_char c @ s) = map_option (Cons c) (utf8_decode s)"
proof (cases "ord_of c < 128")
  case True
  then show ?thesis by (simp add: utf8_char_def)
next
  case False
  define q where "q = ord_of c div 64"
  define m where "m = ord_of c mod 64"
  have "ord_of c < 256" by simp
  then have q: "q = 2 \<or> q = 3" unfolding q_def using False by linarith
  have m: "m < 64" by (simp add: m_def)
  have e: "char_of (64 * q + m) = c" by (simp add: q_def m_def)
  have u: "utf8_char c = [char_of (192 + q), char_of (128 + m)]"
    using False by (simp add: utf8_char_def q_def m_def)
  have "utf8_decode (utf8_char c @ s) = map_option (Cons (char_of (64 * q + m))) (utf8_decode s)"
    unfolding u using q m by auto
  then show ?thesis unfolding e .
qed

interpretation utf8_text: text_codec utf8 utf8_decode "\<lambda>_. True"
proof
  show "utf8_decode (utf8 s) = Some s" for s
    by (induction s) (simp_all add: utf8_def utf8_decode_char)
qed

section \<open>Printing\<close>

definition quote :: char where
  "quote = CHR 0x22"

definition backslash :: char where
  "backslash = CHR 0x5C"

definition hex_digit_char :: "nat \<Rightarrow> char" where
  "hex_digit_char d = char_of (if d < 10 then 48 + d else 87 + d)"

definition escape :: "char \<Rightarrow> string" where
  "escape c =
     (if c = quote \<or> c = backslash then [backslash, c]
      else if ord_of c = 10 then backslash # ''n''
      else if ord_of c = 13 then backslash # ''r''
      else if ord_of c = 9 then backslash # ''t''
      else if ord_of c = 12 then backslash # ''f''
      else if ord_of c = 8 then backslash # ''b''
      else if ord_of c < 32 then
        backslash # ''u00'' @ [hex_digit_char (ord_of c div 16), hex_digit_char (ord_of c mod 16)]
      else [c])"

definition quoted :: "string \<Rightarrow> string" where
  "quoted s = quote # concat (map escape s) @ [quote]"

text \<open>\<open>json.dumps(v, sort_keys=True, separators=(",", ":"), ensure_ascii=False)\<close>.\<close>

fun json_text :: "json \<Rightarrow> string" where
  "json_text JNull = ''null''"
| "json_text (JBool b) = (if b then ''true'' else ''false'')"
| "json_text (JInt i) = int_text i"
| "json_text (JStr s) = quoted s"
| "json_text (JArr vs) = CHR ''['' # join_with '','' (map json_text vs) @ '']''"
| "json_text (JObj d) =
     CHR ''{'' # join_with '','' (map (\<lambda>(k, t). quoted k @ CHR '':'' # t)
       (sort_key fst (map (\<lambda>(k, v). (k, json_text v)) d))) @ ''}''"

section \<open>Reading\<close>

text \<open>The hooks of \<open>json.loads\<close>: integers, objects, and floats and constants.\<close>

record hooks =
  parse_int :: "string \<Rightarrow> json res"
  parse_other :: "string \<Rightarrow> json res"
  parse_pairs :: "dict \<Rightarrow> json res"

definition bad_json :: "'a res" where
  "bad_json = Inl (ValueError ''invalid JSON'')"

definition json_space :: "char \<Rightarrow> bool" where
  "json_space c = (c \<in> {CHR '' '', CHR 0x09, CHR 0x0A, CHR 0x0D})"

definition skip_space :: "string \<Rightarrow> string" where
  "skip_space s = dropWhile json_space s"

definition hex_value :: "char \<Rightarrow> nat option" where
  "hex_value c =
     (if is_digit c then Some (ord_of c - 48)
      else if 97 \<le> ord_of c \<and> ord_of c \<le> 102 then Some (ord_of c - 87)
      else if 65 \<le> ord_of c \<and> ord_of c \<le> 70 then Some (ord_of c - 55) else None)"

definition simple_escape :: "char \<Rightarrow> char option" where
  "simple_escape c =
     map_of [(quote, quote), (backslash, backslash), (CHR ''/'', CHR ''/''), (CHR ''b'', CHR 0x08),
       (CHR ''f'', CHR 0x0C), (CHR ''n'', CHR 0x0A), (CHR ''r'', CHR 0x0D), (CHR ''t'', CHR 0x09)] c"

text \<open>The text after a backslash; escapes above U+00FF are outside the model and refused.\<close>

fun read_escape :: "string \<Rightarrow> (char \<times> string) option" where
  "read_escape [] = None"
| "read_escape (e # s) =
     (if e = CHR ''u'' then
        (case map hex_value (take 4 s) of
           [Some z, Some y, Some a, Some b] \<Rightarrow>
             if z = 0 \<and> y = 0 then Some (char_of (16 * a + b), drop 4 s) else None
         | _ \<Rightarrow> None)
      else map_option (\<lambda>x. (x, s)) (simple_escape e))"

lemma read_escape_shorter: "read_escape s = Some (x, r) \<Longrightarrow> length r < length s"
  by (cases s) (auto split: if_splits list.splits option.splits)

text \<open>The text after an opening quote.\<close>

function scan_string :: "string \<Rightarrow> (string \<times> string) res" where
  "scan_string [] = bad_json"
| "scan_string (c # s) =
     (if c = quote then Inr ([], s)
      else if ord_of c < 32 then bad_json
      else if c \<noteq> backslash then and_then (scan_string s) (\<lambda>(t, r). Inr (c # t, r))
      else case read_escape s of
        None \<Rightarrow> bad_json
      | Some (x, s') \<Rightarrow> and_then (scan_string s') (\<lambda>(t, r). Inr (x # t, r)))"
  by pat_completeness auto
termination
  by (relation "measure length") (auto dest: read_escape_shorter)

text \<open>\<open>(-?(?:0|[1-9]\d*))(\.\d+)?([eE][-+]?\d+)?\<close>: lexeme, whether it is an integer, rest.\<close>

definition fraction_length :: "string \<Rightarrow> nat" where
  "fraction_length s =
     (case s of
        c # r \<Rightarrow> if c = CHR ''.'' \<and> takeWhile is_digit r \<noteq> [] then Suc (length (takeWhile is_digit r)) else 0
      | [] \<Rightarrow> 0)"

definition exponent_length :: "string \<Rightarrow> nat" where
  "exponent_length s =
     (case s of
        c # r \<Rightarrow>
          let sign = (if r \<noteq> [] \<and> hd r \<in> {CHR ''-'', CHR ''+''} then 1 else 0);
              ds = takeWhile is_digit (drop sign r) in
          if c \<in> {CHR ''e'', CHR ''E''} \<and> ds \<noteq> [] then Suc (sign + length ds) else 0
      | [] \<Rightarrow> 0)"

definition whole_length :: "string \<Rightarrow> nat" where
  "whole_length s = (if s \<noteq> [] \<and> hd s = CHR ''0'' then 1 else length (takeWhile is_digit s))"

definition scan_number :: "string \<Rightarrow> (string \<times> bool \<times> string) option" where
  "scan_number s =
     (let sign = (if s \<noteq> [] \<and> hd s = CHR ''-'' then 1 else 0);
          body = drop sign s;
          whole = whole_length body;
          frac = fraction_length (drop whole body);
          expo = exponent_length (drop (whole + frac) body);
          size = sign + whole + frac + expo in
      if whole = 0 then None else Some (take size s, frac + expo = 0, drop size s))"

definition scan_constant :: "string \<Rightarrow> string option" where
  "scan_constant s = List.find (\<lambda>c. prefix c s) [''NaN'', ''Infinity'', ''-Infinity'']"

definition scan_scalar :: "hooks \<Rightarrow> string \<Rightarrow> (json \<times> string) res" where
  "scan_scalar h s =
     (if prefix ''null'' s then Inr (JNull, drop 4 s)
      else if prefix ''true'' s then Inr (JBool True, drop 4 s)
      else if prefix ''false'' s then Inr (JBool False, drop 5 s)
      else case scan_constant s of
        Some c \<Rightarrow> and_then (parse_other h c) (\<lambda>v. Inr (v, drop (length c) s))
      | None \<Rightarrow>
          (case scan_number s of
             None \<Rightarrow> bad_json
           | Some (t, whole, r) \<Rightarrow> and_then ((if whole then parse_int h else parse_other h) t) (\<lambda>v. Inr (v, r))))"

fun json_value :: "nat \<Rightarrow> hooks \<Rightarrow> string \<Rightarrow> (json \<times> string) res"
  and json_elements :: "nat \<Rightarrow> hooks \<Rightarrow> string \<Rightarrow> (json list \<times> string) res"
  and json_members :: "nat \<Rightarrow> hooks \<Rightarrow> string \<Rightarrow> (dict \<times> string) res" where
  "json_value 0 h s = Inl OutOfFuel"
| "json_value (Suc n) h s =
     (case s of
        [] \<Rightarrow> bad_json
      | c # r \<Rightarrow>
          if c = quote then and_then (scan_string r) (\<lambda>(t, r'). Inr (JStr t, r'))
          else if c = CHR ''{'' then
            (if prefix ''}'' (skip_space r)
             then and_then (parse_pairs h []) (\<lambda>v. Inr (v, tl (skip_space r)))
             else and_then (json_members n h (skip_space r)) (\<lambda>(ps, r').
               and_then (parse_pairs h ps) (\<lambda>v. Inr (v, r'))))
          else if c = CHR ''['' then
            (if prefix '']'' (skip_space r) then Inr (JArr [], tl (skip_space r))
             else and_then (json_elements n h (skip_space r)) (\<lambda>(vs, r'). Inr (JArr vs, r')))
          else scan_scalar h s)"
| "json_elements 0 h s = Inl OutOfFuel"
| "json_elements (Suc n) h s =
     and_then (json_value n h s) (\<lambda>(v, r).
       case skip_space r of
         [] \<Rightarrow> bad_json
       | c # r' \<Rightarrow>
           if c = CHR '']'' then Inr ([v], r')
           else if c = CHR '','' then
             and_then (json_elements n h (skip_space r')) (\<lambda>(vs, r''). Inr (v # vs, r''))
           else bad_json)"
| "json_members 0 h s = Inl OutOfFuel"
| "json_members (Suc n) h s =
     (if s = [] \<or> hd s \<noteq> quote then bad_json
      else and_then (scan_string (tl s)) (\<lambda>(k, r).
        if \<not> prefix '':'' (skip_space r) then bad_json
        else and_then (json_value n h (skip_space (tl (skip_space r)))) (\<lambda>(v, r').
          case skip_space r' of
            [] \<Rightarrow> bad_json
          | c # r'' \<Rightarrow>
              if c = CHR ''}'' then Inr ([(k, v)], r'')
              else if c = CHR '','' then
                and_then (json_members n h (skip_space r'')) (\<lambda>(ps, r3). Inr ((k, v) # ps, r3))
              else bad_json)))"

definition json_loads :: "hooks \<Rightarrow> string \<Rightarrow> json res" where
  "json_loads h s =
     and_then (json_value (2 * length s + 1) h (skip_space s)) (\<lambda>(v, r).
       if skip_space r = [] then Inr v else bad_json)"

section \<open>Reading ends within the text\<close>

lemma skip_space_length: "length (skip_space s) \<le> length s"
  by (simp add: skip_space_def length_dropWhile_le)

lemma scan_string_shorter: "scan_string s = Inr (t, r) \<Longrightarrow> length r < length s"
proof (induction s arbitrary: t r rule: scan_string.induct)
  case (2 c s)
  consider (stop) "c = quote" | (plain) "c \<noteq> quote" "\<not> ord_of c < 32" "c \<noteq> backslash"
    | (escaped) "c \<noteq> quote" "\<not> ord_of c < 32" "c = backslash" | (control) "c \<noteq> quote" "ord_of c < 32" by blast
  then show ?case
  proof cases
    case plain
    with "2.prems" obtain t' where "scan_string s = Inr (t', r)" by (auto simp: and_then_pair_ok_iff)
    with "2.IH"(1) [OF plain] show ?thesis by fastforce
  next
    case escaped
    with "2.prems" obtain x s' t' where e: "read_escape s = Some (x, s')" and t: "scan_string s' = Inr (t', r)"
      by (auto simp: and_then_pair_ok_iff bad_json_def split: option.splits)
    have "\<not> c \<noteq> backslash" using escaped by simp
    from "2.IH"(2) [OF escaped(1,2) this e refl t] read_escape_shorter [OF e] show ?thesis by simp
  qed (use "2.prems" in \<open>simp_all add: bad_json_def\<close>)
qed (simp add: bad_json_def)

lemma scan_number_shorter: "scan_number s = Some (t, w, r) \<Longrightarrow> length r < length s"
  by (cases s) (auto simp: scan_number_def whole_length_def Let_def split: if_splits)

lemma scan_scalar_shorter: "scan_scalar h s = Inr (v, r) \<Longrightarrow> length r < length s"
  by (auto simp: scan_scalar_def and_then_ok_iff scan_constant_def bad_json_def find_Some_iff less_Suc_eq
      dest: scan_number_shorter prefix_length_le split: if_splits option.splits
      elim!: prefixE)

lemma read_shorter:
  "json_value n h s = Inr (v, r) \<Longrightarrow> length r < length s"
  "json_elements n h s = Inr (vs, r) \<Longrightarrow> length r < length s"
  "json_members n h s = Inr (ps, r) \<Longrightarrow> length r < length s"
proof (induction n h s and n h s and n h s arbitrary: v r and vs r and ps r
    rule: json_value_json_elements_json_members.induct)
  case (2 n h s)
  show ?case
  proof (cases s)
    case (Cons c q)
    have l: "length (skip_space q) \<le> length q" by (rule skip_space_length)
    consider "c = quote" | "c = CHR ''{''" "c \<noteq> quote" | "c = CHR ''[''" "c \<noteq> quote" "c \<noteq> CHR ''{''"
      | "c \<noteq> quote" "c \<noteq> CHR ''{''" "c \<noteq> CHR ''[''" by blast
    then show ?thesis
    proof cases
      case 1
      with "2.prems" Cons show ?thesis by (auto simp: and_then_pair_ok_iff dest: scan_string_shorter)
    next
      case 2
      show ?thesis
      proof (cases "prefix ''}'' (skip_space q)")
        case True
        with 2 "2.prems" Cons l show ?thesis by (cases "skip_space q") (auto simp: and_then_ok_iff)
      next
        case False
        with 2 "2.prems" Cons obtain ps where "json_members n h (skip_space q) = Inr (ps, r)"
          by (auto simp: and_then_ok_iff and_then_pair_ok_iff)
        with "2.IH"(1) [OF Cons _ _ False] 2 l Cons show ?thesis by fastforce
      qed
    next
      case 3
      show ?thesis
      proof (cases "prefix '']'' (skip_space q)")
        case True
        with 3 "2.prems" Cons l show ?thesis by (cases "skip_space q") auto
      next
        case False
        with 3 "2.prems" Cons obtain vs where "json_elements n h (skip_space q) = Inr (vs, r)"
          by (auto simp: and_then_pair_ok_iff)
        with "2.IH"(2) [OF Cons _ _ _ False] 3 l Cons show ?thesis by fastforce
      qed
    next
      case 4
      with "2.prems" Cons show ?thesis using scan_scalar_shorter [of h "c # q" v r] by simp
    qed
  qed (use "2.prems" in \<open>simp add: bad_json_def\<close>)
next
  case (4 n h s)
  obtain v r1 where v: "json_value n h s = Inr (v, r1)"
    using "4.prems" by (cases "json_value n h s") auto
  obtain c r2 where r1: "skip_space r1 = c # r2"
    using "4.prems" v by (cases "skip_space r1") (auto simp: bad_json_def)
  have rest: "r = r2 \<or> (c \<noteq> CHR '']'' \<and> c = CHR '','' \<and> (\<exists>ws. json_elements n h (skip_space r2) = Inr (ws, r)))"
    using "4.prems" v r1 by (auto simp: and_then_pair_ok_iff bad_json_def split: if_splits)
  have "length r2 < length s"
    using "4.IH"(1) [OF v] skip_space_length [of r1] r1 by simp
  moreover have "length r < length (skip_space r2)" if "c \<noteq> CHR '']'' \<and> c = CHR '','' \<and> json_elements n h (skip_space r2) = Inr (ws, r)" for ws
    using "4.IH"(2) [OF r1] that by simp
  ultimately show ?case using rest skip_space_length [of r2] by fastforce
next
  case (6 n h s)
  have ne: "\<not> (s = [] \<or> hd s \<noteq> quote)" using "6.prems" by (auto simp: bad_json_def split: if_splits)
  obtain k r0 where k: "scan_string (tl s) = Inr (k, r0)"
    using "6.prems" ne by (cases "scan_string (tl s)") auto
  have colon: "\<not> \<not> prefix '':'' (skip_space r0)"
    using "6.prems" ne k by (auto simp: bad_json_def split: if_splits)
  obtain v r1 where v: "json_value n h (skip_space (tl (skip_space r0))) = Inr (v, r1)"
    using "6.prems" ne k colon by (cases "json_value n h (skip_space (tl (skip_space r0)))") auto
  obtain c r2 where r1: "skip_space r1 = c # r2"
    using "6.prems" ne k colon v by (cases "skip_space r1") (auto simp: bad_json_def)
  have rest: "r = r2 \<or> (c \<noteq> CHR ''}'' \<and> c = CHR '','' \<and> (\<exists>ws. json_members n h (skip_space r2) = Inr (ws, r)))"
    using "6.prems" ne k colon v r1 by (auto simp: and_then_pair_ok_iff bad_json_def split: if_splits)
  have "length r1 < length (skip_space (tl (skip_space r0)))" using "6.IH"(1) [OF ne colon v] .
  moreover have "length r0 < length s" using scan_string_shorter [OF k] ne by (cases s) auto
  ultimately have "length r2 < length s"
    using skip_space_length [of r1] skip_space_length [of r0] skip_space_length [of "tl (skip_space r0)"] r1 by simp
  moreover have "length r < length (skip_space r2)" if "c \<noteq> CHR ''}'' \<and> c = CHR '','' \<and> json_members n h (skip_space r2) = Inr (ws, r)" for ws
    using "6.IH"(2) [OF ne colon r1] that by simp
  ultimately show ?case using rest skip_space_length [of r2] by fastforce
qed simp_all

text \<open>
  The fuel of \<open>json_loads\<close> is enough: every two nested calls read at least one character.
  The hooks must not fail for want of fuel themselves.
\<close>

definition fuel_free :: "hooks \<Rightarrow> bool" where
  "fuel_free h \<longleftrightarrow> (\<forall>t. parse_int h t \<noteq> Inl OutOfFuel) \<and> (\<forall>t. parse_other h t \<noteq> Inl OutOfFuel) \<and>
     (\<forall>ps. parse_pairs h ps \<noteq> Inl OutOfFuel)"

lemma scan_string_fuel: "scan_string s \<noteq> Inl OutOfFuel"
  by (induction s rule: scan_string.induct) (auto simp: bad_json_def and_then_err_iff split: option.splits)

lemma scan_scalar_fuel: "fuel_free h \<Longrightarrow> scan_scalar h s \<noteq> Inl OutOfFuel"
  by (auto simp: scan_scalar_def bad_json_def and_then_err_iff fuel_free_def split: option.splits if_splits)

lemma enough_fuel:
  "fuel_free h \<Longrightarrow> 2 * length s < n \<Longrightarrow> json_value n h s \<noteq> Inl OutOfFuel"
  "fuel_free h \<Longrightarrow> 2 * length s + 1 < n \<Longrightarrow> json_elements n h s \<noteq> Inl OutOfFuel"
  "fuel_free h \<Longrightarrow> 2 * length s + 1 < n \<Longrightarrow> json_members n h s \<noteq> Inl OutOfFuel"
proof (induction n h s and n h s and n h s rule: json_value_json_elements_json_members.induct)
  case (2 n h s)
  show ?case
  proof (cases s)
    case (Cons c q)
    have l: "2 * length (skip_space q) + 1 < n" using "2.prems"(2) Cons skip_space_length [of q] by simp
    from Cons show ?thesis using "2.IH" [OF Cons] l "2.prems"(1) scan_scalar_fuel [OF "2.prems"(1)] scan_string_fuel
      by (auto simp: and_then_err_iff fuel_free_def split: if_splits)
  qed (simp add: bad_json_def)
next
  case (4 n h s)
  show ?case
  proof
    assume e: "json_elements (Suc n) h s = Inl OutOfFuel"
    have v0: "json_value n h s \<noteq> Inl OutOfFuel" using "4.IH"(1) "4.prems" by simp
    then obtain v r where v: "json_value n h s = Inr (v, r)"
      using e by (cases "json_value n h s") auto
    with e obtain r2 where r2: "skip_space r = CHR '','' # r2" "json_elements n h (skip_space r2) = Inl OutOfFuel"
      by (auto simp: bad_json_def and_then_err_iff split: list.splits if_splits)
    have "length r2 < length s" using read_shorter(1) [OF v] skip_space_length [of r] r2 by simp
    then have "2 * length (skip_space r2) + 1 < n" using skip_space_length [of r2] "4.prems"(2) by linarith
    with "4.IH"(2) [OF r2(1)] r2 "4.prems" show False by simp
  qed
next
  case (6 n h s)
  show ?case
  proof
    assume e: "json_members (Suc n) h s = Inl OutOfFuel"
    then have ne: "\<not> (s = [] \<or> hd s \<noteq> quote)" by (auto simp: bad_json_def split: if_splits)
    with e obtain k r0 where k: "scan_string (tl s) = Inr (k, r0)"
      using scan_string_fuel by (cases "scan_string (tl s)") auto
    with e ne have colon: "\<not> \<not> prefix '':'' (skip_space r0)" by (auto simp: bad_json_def split: if_splits)
    let ?q = "skip_space (tl (skip_space r0))"
    have q: "length ?q < length s"
      using scan_string_shorter [OF k] ne skip_space_length [of r0] skip_space_length [of "tl (skip_space r0)"]
      by (cases s) auto
    then have v0: "json_value n h ?q \<noteq> Inl OutOfFuel"
      using "6.IH"(1) [OF ne colon] "6.prems" by simp
    then obtain v r where v: "json_value n h ?q = Inr (v, r)"
      using e ne k colon by (cases "json_value n h ?q") auto
    with e ne k colon obtain r2 where r2: "skip_space r = CHR '','' # r2" "json_members n h (skip_space r2) = Inl OutOfFuel"
      by (auto simp: bad_json_def and_then_err_iff split: list.splits if_splits)
    have "length r2 < length s" using read_shorter(1) [OF v] q skip_space_length [of r] r2 by simp
    then have "2 * length (skip_space r2) + 1 < n" using skip_space_length [of r2] "6.prems"(2) by linarith
    with "6.IH"(2) [OF ne colon r2(1)] r2 "6.prems" show False by simp
  qed
qed simp_all

lemma json_loads_fuel: "fuel_free h \<Longrightarrow> json_loads h s \<noteq> Inl OutOfFuel"
proof -
  assume h: "fuel_free h"
  have "2 * length (skip_space s) < 2 * length s + 1" using skip_space_length [of s] by simp
  from enough_fuel(1) [OF h this] show ?thesis
    by (auto simp: json_loads_def and_then_err_iff bad_json_def split: if_splits)
qed

section \<open>Reading back what was printed\<close>

text \<open>Printing without sorting, and the document whose dictionaries are sorted.\<close>

fun plain :: "json \<Rightarrow> string" where
  "plain (JArr vs) = CHR ''['' # join_with '','' (map plain vs) @ '']''"
| "plain (JObj d) = CHR ''{'' # join_with '','' (map (\<lambda>(k, v). quoted k @ CHR '':'' # plain v) d) @ ''}''"
| "plain v = json_text v"

fun canon :: "json \<Rightarrow> json" where
  "canon (JArr vs) = JArr (map canon vs)"
| "canon (JObj d) = JObj (sort_key fst (map (\<lambda>(k, v). (k, canon v)) d))"
| "canon v = v"

text \<open>Every dictionary has each key once, as in Python.\<close>

fun unique_keys :: "json \<Rightarrow> bool" where
  "unique_keys (JArr vs) = list_all unique_keys vs"
| "unique_keys (JObj d) = (distinct (map fst d) \<and> list_all (\<lambda>(k, v). unique_keys v) d)"
| "unique_keys v = True"

lemma map_snd_insort: "insort_key fst (k, f v) (map (\<lambda>(k, v). (k, f v)) d) = map (\<lambda>(k, v). (k, f v)) (insort_key fst (k, v) d)"
  by (induction d) auto

lemma map_snd_sort: "sort_key fst (map (\<lambda>(k, v). (k, f v)) d) = map (\<lambda>(k, v). (k, f v)) (sort_key fst d)"
  by (induction d) (auto simp: map_snd_insort)

lemma plain_canon: "plain (canon v) = json_text v"
proof (induction v)
  case (JArr vs)
  then have "map (plain \<circ> canon) vs = map json_text vs" by simp
  then show ?case by (simp add: list.map_comp del: map_eq_conv)
next
  case (JObj d)
  have texts: "map (\<lambda>(k, v). (k, plain (canon v))) d = map (\<lambda>(k, v). (k, json_text v)) d"
    using JObj by (auto simp: Basic_BNFs.snds.simps)
  have "sort_key fst (map (\<lambda>(k, v). (k, json_text v)) d) = map (\<lambda>(k, v). (k, plain v)) (sort_key fst (map (\<lambda>(k, v). (k, canon v)) d))"
    unfolding texts [symmetric] map_snd_sort [symmetric] by (simp add: comp_def case_prod_unfold)
  then show ?case by (simp add: comp_def case_prod_unfold)
qed simp_all

lemma hex_value_digit: "d < 16 \<Longrightarrow> hex_value (hex_digit_char d) = Some d"
  by (auto simp: hex_value_def hex_digit_char_def is_digit_def)

lemma char_by_code: "ord_of c = ord_of d \<Longrightarrow> c = d"
  by (simp add: ord_of_def)

lemma escape_cases:
  obtains (control) "ord_of c < 32" "c \<noteq> quote" "c \<noteq> backslash"
    "escape c = backslash # ''u00'' @ [hex_digit_char (ord_of c div 16), hex_digit_char (ord_of c mod 16)]"
  | (simple) e where "simple_escape e = Some c" "e \<noteq> CHR ''u''" "escape c = [backslash, e]"
  | (itself) "\<not> ord_of c < 32" "c \<noteq> quote" "c \<noteq> backslash" "escape c = [c]"
proof -
  have codes: "c = CHR 0x0A" if "ord_of c = 10" by (rule char_by_code) (simp add: that, simp add: ord_of_def)
  have codes': "c = CHR 0x0D" if "ord_of c = 13" by (rule char_by_code) (simp add: that, simp add: ord_of_def)
  have codes'': "c = CHR 0x09" if "ord_of c = 9" by (rule char_by_code) (simp add: that, simp add: ord_of_def)
  have codes3: "c = CHR 0x0C" if "ord_of c = 12" by (rule char_by_code) (simp add: that, simp add: ord_of_def)
  have codes4: "c = CHR 0x08" if "ord_of c = 8" by (rule char_by_code) (simp add: that, simp add: ord_of_def)
  consider "c = quote \<or> c = backslash" | "ord_of c = 10" | "ord_of c = 13" | "ord_of c = 9" | "ord_of c = 12" | "ord_of c = 8"
    | "ord_of c < 32" "c \<noteq> quote" "c \<noteq> backslash" "ord_of c \<notin> {8, 9, 10, 12, 13}"
    | "\<not> ord_of c < 32" "c \<noteq> quote" "c \<noteq> backslash" by blast
  then show thesis
  proof cases
    case 1
    then show ?thesis using simple [of c] by (auto simp: escape_def simple_escape_def quote_def backslash_def)
  next
    case 2
    from simple [of "CHR ''n''"] show ?thesis by (simp add: codes [OF 2] escape_def simple_escape_def quote_def backslash_def ord_of_def)
  next
    case 3
    from simple [of "CHR ''r''"] show ?thesis by (simp add: codes' [OF 3] escape_def simple_escape_def quote_def backslash_def ord_of_def)
  next
    case 4
    from simple [of "CHR ''t''"] show ?thesis by (simp add: codes'' [OF 4] escape_def simple_escape_def quote_def backslash_def ord_of_def)
  next
    case 5
    from simple [of "CHR ''f''"] show ?thesis by (simp add: codes3 [OF 5] escape_def simple_escape_def quote_def backslash_def ord_of_def)
  next
    case 6
    from simple [of "CHR ''b''"] show ?thesis by (simp add: codes4 [OF 6] escape_def simple_escape_def quote_def backslash_def ord_of_def)
  next
    case 7
    then show ?thesis using control by (simp add: escape_def)
  next
    case 8
    then show ?thesis using itself by (simp add: escape_def)
  qed
qed

lemma backslash_code: "\<not> ord_of backslash < 32" "backslash \<noteq> quote"
  by (simp_all add: backslash_def quote_def ord_of_def)

lemma scan_string_escape: "scan_string (escape c @ s) = and_then (scan_string s) (\<lambda>(t, r). Inr (c # t, r))"
proof (cases c rule: escape_cases)
  case control
  have d: "ord_of c div 16 < 16" "ord_of c mod 16 < 16" using control(1) by auto
  have "hex_value (CHR ''0'') = Some 0" by (simp add: hex_value_def is_digit_def ord_of_def)
  then have "read_escape (''u00'' @ [hex_digit_char (ord_of c div 16), hex_digit_char (ord_of c mod 16)] @ s) = Some (c, s)"
    using d by (simp add: hex_value_digit)
  then show ?thesis using backslash_code by (simp add: control(4))
next
  case (simple e)
  then show ?thesis using backslash_code by simp
next
  case itself
  then show ?thesis by simp
qed

lemma scan_string_quoted: "scan_string (tl (quoted s @ r)) = Inr (s, r)"
proof -
  have "scan_string (concat (map escape s) @ quote # r) = Inr (s, r)"
    by (induction s) (simp_all add: scan_string_escape)
  then show ?thesis by (simp add: quoted_def)
qed

text \<open>What may follow a value.\<close>

definition closes :: "string \<Rightarrow> bool" where
  "closes r \<longleftrightarrow> r = [] \<or> hd r \<in> {CHR '','', CHR '']'', CHR ''}'', CHR 0x0A}"

lemma closes_Cons [simp]: "closes (c # r) \<longleftrightarrow> c \<in> {CHR '','', CHR '']'', CHR ''}'', CHR 0x0A}" "closes []"
  by (simp_all add: closes_def)

lemma digit_not: "is_digit c \<Longrightarrow> c \<notin> {CHR '','', CHR '']'', CHR ''}'', CHR ''-'', CHR ''n'', CHR ''t'', CHR ''f'', CHR ''N'', CHR ''I'', CHR ''['', CHR ''{'', quote}"
  by (auto simp: is_digit_def ord_of_def quote_def)

lemma takeWhile_digits: "list_all is_digit ds \<Longrightarrow> closes r \<Longrightarrow> takeWhile is_digit (ds @ r) = ds"
proof -
  assume a: "list_all is_digit ds" "closes r"
  then have "takeWhile is_digit r = []"
    by (cases r) (auto simp: is_digit_def ord_of_def)
  then show ?thesis using a by (simp add: takeWhile_append2 list_all_iff)
qed

lemma closes_no_tail: "closes r \<Longrightarrow> fraction_length r = 0 \<and> exponent_length r = 0"
  by (cases r) (auto simp: fraction_length_def exponent_length_def)

lemma scan_number_int: "closes r \<Longrightarrow> scan_number (int_text i @ r) = Some (int_text i, True, r)"
proof -
  assume r: "closes r"
  have body: "whole_length (ds @ r) = length ds" if "canonical_decimal ds" for ds
  proof -
    have ds: "list_all is_digit ds" "ds \<noteq> []" "hd ds = CHR ''0'' \<longrightarrow> tl ds = []"
      using that(1) by (auto simp: canonical_decimal_def)
    then show ?thesis using takeWhile_digits [OF ds(1) r] by (cases ds) (auto simp: whole_length_def)
  qed
  have dig: "scan_number (nat_text n @ r) = Some (nat_text n, True, r)"
    "scan_number (CHR ''-'' # nat_text n @ r) = Some (CHR ''-'' # nat_text n, True, r)" for n
  proof -
    have "hd (nat_text n) \<noteq> CHR ''-''"
      using nat_text_digits [of n] digit_not [of "hd (nat_text n)"] by (cases "nat_text n") auto
    then show "scan_number (nat_text n @ r) = Some (nat_text n, True, r)"
      using closes_no_tail [OF r] unfolding scan_number_def Let_def
      by (simp add: body [OF canonical_nat_text [of n]])
    show "scan_number (CHR ''-'' # nat_text n @ r) = Some (CHR ''-'' # nat_text n, True, r)"
      using closes_no_tail [OF r] unfolding scan_number_def Let_def
      by (simp add: body [OF canonical_nat_text [of n]])
  qed
  show ?thesis by (simp add: int_text_def dig)
qed

lemma int_text_head: "\<exists>c t. int_text i = c # t \<and> (is_digit c \<or> (c = CHR ''-'' \<and> t \<noteq> [] \<and> is_digit (hd t)))"
proof -
  have "\<exists>c t. nat_text n = c # t \<and> is_digit c" for n
    using nat_text_digits [of n] by (cases "nat_text n") auto
  then show ?thesis unfolding int_text_def by (metis list.sel(1) list.simps(3))
qed

lemma scan_scalar_int: "closes r \<Longrightarrow> scan_scalar h (int_text i @ r) = and_then (parse_int h (int_text i)) (\<lambda>v. Inr (v, r))"
proof -
  assume r: "closes r"
  obtain c t where t: "int_text i = c # t" and c: "is_digit c \<or> (c = CHR ''-'' \<and> t \<noteq> [] \<and> is_digit (hd t))"
    using int_text_head by blast
  have n: "c \<notin> {CHR ''n'', CHR ''t'', CHR ''f'', CHR ''N'', CHR ''I''}" using c digit_not [of c] by auto
  have "\<not> prefix ''-Infinity'' (c # t @ r)"
    using c digit_not [of "hd t"] digit_not [of c] by (cases t) auto
  then have "scan_constant (int_text i @ r) = None"
    using n by (auto simp: scan_constant_def t)
  then show ?thesis using n scan_number_int [OF r, of i] by (auto simp: scan_scalar_def t)
qed

text \<open>Hooks that keep what is printed: the integers of a range, and objects without duplicates.\<close>

definition faithful :: "(int \<Rightarrow> bool) \<Rightarrow> hooks \<Rightarrow> bool" where
  "faithful P h \<longleftrightarrow> (\<forall>i. P i \<longrightarrow> parse_int h (int_text i) = Inr (JInt i)) \<and>
     (\<forall>d. distinct (map fst d) \<longrightarrow> parse_pairs h d = Inr (JObj d))"

fun all_ints :: "(int \<Rightarrow> bool) \<Rightarrow> json \<Rightarrow> bool" where
  "all_ints P (JInt i) = P i"
| "all_ints P (JArr vs) = list_all (all_ints P) vs"
| "all_ints P (JObj d) = list_all (\<lambda>(k, v). all_ints P v) d"
| "all_ints P v = True"

lemma plain_head: "\<exists>c t. plain v = c # t \<and> c \<notin> {CHR '','', CHR '']'', CHR ''}''} \<and> \<not> json_space c"
proof (cases v)
  case (JInt i)
  then show ?thesis using int_text_head [of i] by (auto simp: json_space_def is_digit_def ord_of_def)
qed (auto simp: json_space_def quoted_def quote_def)

lemma skip_plain [simp]: "skip_space (plain v @ r) = plain v @ r"
  using plain_head [of v] by (auto simp: skip_space_def)

lemma skip_quoted [simp]: "skip_space (quoted k @ r) = quoted k @ r"
  by (simp add: skip_space_def quoted_def json_space_def quote_def)

lemma skip_closing [simp]:
  "skip_space (CHR '']'' # r) = CHR '']'' # r" "skip_space (CHR ''}'' # r) = CHR ''}'' # r"
  "skip_space (CHR '','' # r) = CHR '','' # r" "skip_space (CHR '':'' # r) = CHR '':'' # r"
  "skip_space [] = []"
  by (simp_all add: skip_space_def json_space_def)

lemma quote_code: "CHR ''{'' \<noteq> quote" "CHR ''['' \<noteq> quote" "CHR ''{'' \<noteq> CHR ''[''"
  by (simp_all add: quote_def)

lemma elements_back:
  assumes "\<And>v r n. v \<in> set vs \<Longrightarrow> closes r \<Longrightarrow> 2 * length (plain v) < n \<Longrightarrow> json_value n h (plain v @ r) = Inr (v, r)"
    and "vs \<noteq> []" and "2 * length (join_with '','' (map plain vs)) + 1 < n"
  shows "json_elements n h (join_with '','' (map plain vs) @ CHR '']'' # r) = Inr (vs, r)"
  using assms
proof (induction vs arbitrary: n)
  case (Cons v vs)
  obtain m where n: "n = Suc m" using Cons.prems(3) by (cases n) auto
  show ?case
  proof (cases vs)
    case Nil
    then show ?thesis using Cons.prems(1) [of v "CHR '']'' # r" m] Cons.prems(3) by (simp add: n)
  next
    case (Cons w ws)
    then have j: "join_with '','' (map plain (v # vs)) = plain v @ '','' @ join_with '','' (map plain vs)" by simp
    have fuel: "2 * length (plain v) < m" "2 * length (join_with '','' (map plain vs)) + 1 < m"
      using Cons.prems(3) unfolding j by (auto simp: n)
    have "json_elements m h (join_with '','' (map plain vs) @ CHR '']'' # r) = Inr (vs, r)"
      using Cons.IH [OF Cons.prems(1) _ fuel(2)] Cons by simp
    moreover have "skip_space (join_with '','' (map plain vs) @ CHR '']'' # r) = join_with '','' (map plain vs) @ CHR '']'' # r"
      by (cases ws) (simp_all add: Cons)
    ultimately show ?thesis using Cons.prems(1) [of v _ m] fuel(1) unfolding j by (simp add: n)
  qed
qed simp

abbreviation member_text :: "string \<times> json \<Rightarrow> string" where
  "member_text p \<equiv> quoted (fst p) @ CHR '':'' # plain (snd p)"

lemma members_back:
  assumes "\<And>p r n. p \<in> set d \<Longrightarrow> closes r \<Longrightarrow> 2 * length (plain (snd p)) < n \<Longrightarrow> json_value n h (plain (snd p) @ r) = Inr (snd p, r)"
    and "d \<noteq> []" and "2 * length (join_with '','' (map member_text d)) + 1 < n"
  shows "json_members n h (join_with '','' (map member_text d) @ CHR ''}'' # r) = Inr (d, r)"
  using assms
proof (induction d arbitrary: n)
  case (Cons p d)
  obtain m where n: "n = Suc m" using Cons.prems(3) by (cases n) auto
  have q: "quoted (fst p) @ s \<noteq> [] \<and> hd (quoted (fst p) @ s) = quote" for s by (simp add: quoted_def)
  have k: "scan_string (tl (quoted (fst p) @ s)) = Inr (fst p, s)" for s by (rule scan_string_quoted)
  show ?case
  proof (cases d)
    case Nil
    then show ?thesis using Cons.prems(1) [of p "CHR ''}'' # r" m] Cons.prems(3) q k by (simp add: n)
  next
    case (Cons p' d')
    then have j: "join_with '','' (map member_text (p # d)) = quoted (fst p) @ CHR '':'' # plain (snd p) @ CHR '','' # join_with '','' (map member_text d)"
      by simp
    have fuel: "2 * length (plain (snd p)) < m" "2 * length (join_with '','' (map member_text d)) + 1 < m"
      using Cons.prems(3) unfolding j by (auto simp: n)
    have "json_members m h (join_with '','' (map member_text d) @ CHR ''}'' # r) = Inr (d, r)"
      using Cons.IH [OF Cons.prems(1) _ fuel(2)] Cons by simp
    moreover have "skip_space (join_with '','' (map member_text d) @ CHR ''}'' # r) = join_with '','' (map member_text d) @ CHR ''}'' # r"
      by (cases d') (simp_all add: Cons)
    ultimately show ?thesis using Cons.prems(1) [of p _ m] fuel(1) q k unfolding j by (simp add: n)
  qed
qed simp

lemma value_back:
  assumes "faithful P h"
  shows "unique_keys v \<Longrightarrow> all_ints P v \<Longrightarrow> closes r \<Longrightarrow> 2 * length (plain v) < n \<Longrightarrow> json_value n h (plain v @ r) = Inr (v, r)"
proof (induction v arbitrary: r n)
  case JNull
  then show ?case by (cases n) (auto simp: scan_scalar_def quote_def)
next
  case (JBool b)
  then show ?case by (cases n) (auto simp: scan_scalar_def quote_def)
next
  case (JInt i)
  obtain m where n: "n = Suc m" using JInt by (cases n) auto
  obtain c t where t: "int_text i = c # t" "c \<notin> {quote, CHR ''{'', CHR ''[''}"
    using int_text_head [of i] digit_not by (fastforce simp: quote_def)
  have "scan_scalar h (int_text i @ r) = Inr (JInt i, r)"
    using scan_scalar_int [OF JInt.prems(3), of h i] JInt.prems assms by (simp add: faithful_def)
  with t show ?case by (simp add: n)
next
  case (JStr s)
  then obtain m where n: "n = Suc m" by (cases n) auto
  have "quoted s @ r = quote # tl (quoted s @ r)" by (simp add: quoted_def)
  then show ?case using scan_string_quoted [of s r] by (simp add: n quoted_def)
next
  case (JArr vs)
  then obtain m where n: "n = Suc m" by (cases n) auto
  show ?case
  proof (cases "vs = []")
    case True
    then show ?thesis using quote_code by (simp add: n)
  next
    case False
    let ?s = "join_with '','' (map plain vs)"
    have "json_elements m h (?s @ CHR '']'' # r) = Inr (vs, r)"
      using JArr False by (intro elements_back) (auto simp: n list_all_iff)
    moreover obtain w ws where "vs = w # ws" using False by (cases vs) auto
    moreover have "\<exists>u. ?s @ CHR '']'' # r = plain w @ u" by (cases ws) (simp_all add: \<open>vs = w # ws\<close>)
    then have "skip_space (?s @ CHR '']'' # r) = ?s @ CHR '']'' # r \<and> \<not> prefix '']'' (?s @ CHR '']'' # r)"
      using plain_head [of w] by (auto simp: skip_space_def)
    ultimately show ?thesis using quote_code by (simp add: n)
  qed
next
  case (JObj d)
  then obtain m where n: "n = Suc m" by (cases n) auto
  have pairs: "parse_pairs h d = Inr (JObj d)" using JObj.prems assms by (simp add: faithful_def)
  show ?case
  proof (cases "d = []")
    case True
    then show ?thesis using quote_code pairs by (simp add: n)
  next
    case False
    let ?s = "join_with '','' (map member_text d)"
    have pl: "plain (JObj d) = CHR ''{'' # ?s @ ''}''" by (simp add: case_prod_unfold)
    have "json_members m h (?s @ CHR ''}'' # r) = Inr (d, r)"
      using JObj.prems False unfolding pl
      by (intro members_back JObj.IH) (auto simp: n list_all_iff intro: Basic_BNFs.snds.intros)
    moreover obtain p d' where "d = p # d'" using False by (cases d) auto
    moreover have "\<exists>u. ?s @ CHR ''}'' # r = quoted (fst p) @ u" by (cases d') (simp_all add: \<open>d = p # d'\<close>)
    then have "skip_space (?s @ CHR ''}'' # r) = ?s @ CHR ''}'' # r \<and> \<not> prefix ''}'' (?s @ CHR ''}'' # r)"
      using skip_quoted [of "fst p"] by (auto simp: quoted_def quote_def)
    ultimately show ?thesis using quote_code pairs unfolding pl by (simp add: n)
  qed
qed

text \<open>An array or an object closes itself, so it can be read back in front of any text.\<close>

lemma array_back:
  assumes "faithful P h" "list_all unique_keys vs" "list_all (all_ints P) vs" "2 * length (plain (JArr vs)) < n"
  shows "json_value n h (plain (JArr vs) @ r) = Inr (JArr vs, r)"
proof -
  obtain m where n: "n = Suc m" using assms(4) by (cases n) auto
  show ?thesis
  proof (cases "vs = []")
    case True
    then show ?thesis using quote_code by (simp add: n)
  next
    case False
    let ?s = "join_with '','' (map plain vs)"
    have "json_elements m h (?s @ CHR '']'' # r) = Inr (vs, r)"
      using assms False value_back [OF assms(1)] by (intro elements_back) (auto simp: n list_all_iff)
    moreover obtain w ws where "vs = w # ws" using False by (cases vs) auto
    moreover have "\<exists>u. ?s @ CHR '']'' # r = plain w @ u" by (cases ws) (simp_all add: \<open>vs = w # ws\<close>)
    then have "skip_space (?s @ CHR '']'' # r) = ?s @ CHR '']'' # r \<and> \<not> prefix '']'' (?s @ CHR '']'' # r)"
      using plain_head [of w] by (auto simp: skip_space_def)
    ultimately show ?thesis using quote_code by (simp add: n)
  qed
qed

lemma all_ints_True: "all_ints (\<lambda>_. True) v"
  by (induction v) (auto simp: list_all_iff Basic_BNFs.snds.simps)

lemma loads_plain:
  assumes "faithful P h" "unique_keys v" "all_ints P v"
  shows "json_loads h (plain v) = Inr v"
  using value_back [OF assms, of "[]" "2 * length (plain v) + 1"] skip_plain [of v "[]"] by (simp add: json_loads_def)

lemma canon_keys: "fst ` set (sort_key fst (map (\<lambda>(k, v). (k, canon v)) d)) = fst ` set d"
  by force

lemma unique_canon [simp]: "unique_keys (canon v) = unique_keys v"
proof (induction v)
  case (JArr vs)
  then show ?case by (simp add: list_all_iff)
next
  case (JObj d)
  have m: "mset (map fst (sort_key fst (map (\<lambda>(k, v). (k, canon v)) d))) = mset (map fst d)"
    by (simp add: multiset.map_comp comp_def case_prod_unfold)
  have "distinct (map fst (sort_key fst (map (\<lambda>(k, v). (k, canon v)) d))) = distinct (map fst d)"
    using mset_eq_imp_distinct_iff [OF m] .
  then show ?case using JObj by (fastforce simp: list_all_iff Basic_BNFs.snds.simps)
qed simp_all

lemma ints_canon [simp]: "all_ints P (canon v) = all_ints P v"
proof (induction v)
  case (JArr vs)
  then show ?case by (simp add: list_all_iff)
next
  case (JObj d)
  then show ?case by (fastforce simp: list_all_iff Basic_BNFs.snds.simps)
qed simp_all

lemma loads_text:
  "faithful P h \<Longrightarrow> unique_keys v \<Longrightarrow> all_ints P v \<Longrightarrow> json_loads h (json_text v) = Inr (canon v)"
  using loads_plain [of P h "canon v"] by (simp add: plain_canon)

text \<open>A bound on the length of a printed document that does not print it.\<close>

fun text_bound :: "json \<Rightarrow> nat" where
  "text_bound (JInt i) = length (int_text i)"
| "text_bound (JStr s) = 6 * length s + 2"
| "text_bound (JArr vs) = 2 + sum_list (map (\<lambda>v. text_bound v + 1) vs)"
| "text_bound (JObj d) = 2 + sum_list (map (\<lambda>(k, v). 6 * length k + 4 + text_bound v) d)"
| "text_bound v = 5"

lemma quoted_bound: "length (quoted s) \<le> 6 * length s + 2"
proof -
  have "length (escape c) \<le> 6" for c by (simp add: escape_def)
  then have "length (concat (map escape s)) \<le> 6 * length s"
    by (induction s) (auto intro: add_mono)
  then show ?thesis by (simp add: quoted_def)
qed

lemma join_bound: "length (join_with [c] ws) \<le> sum_list (map (\<lambda>w. length w + 1) ws)"
  by (induction ws rule: induct_list012) auto

lemma sum_sort: "sum_list (map f (sort_key g xs)) = sum_list (map f xs)" for f :: "'a \<Rightarrow> nat"
  by (metis mset_map mset_sort sum_mset_sum_list)

lemma json_text_bound: "length (json_text v) \<le> text_bound v"
proof (induction v)
  case (JStr s)
  show ?case using quoted_bound [of s] by simp
next
  case (JArr vs)
  have "length (join_with '','' (map json_text vs)) \<le> sum_list (map (\<lambda>v. length (json_text v) + 1) vs)"
    using join_bound [of "CHR '',''" "map json_text vs"] by (simp add: comp_def)
  also have "\<dots> \<le> sum_list (map (\<lambda>v. text_bound v + 1) vs)"
    using JArr by (intro sum_list_mono) auto
  finally show ?case by simp
next
  case (JObj d)
  let ?member = "\<lambda>(k, t). quoted k @ CHR '':'' # t"
  have "length (join_with '','' (map ?member (sort_key fst (map (\<lambda>(k, v). (k, json_text v)) d))))
      \<le> sum_list (map (\<lambda>p. length (?member p) + 1) (sort_key fst (map (\<lambda>(k, v). (k, json_text v)) d)))"
    using join_bound [of "CHR '',''" "map ?member (sort_key fst (map (\<lambda>(k, v). (k, json_text v)) d))"]
    by (simp add: comp_def)
  also have "\<dots> = sum_list (map (\<lambda>(k, v). length (quoted k) + 2 + length (json_text v)) d)"
    unfolding sum_sort by (simp add: comp_def case_prod_unfold)
  also have "\<dots> \<le> sum_list (map (\<lambda>(k, v). 6 * length k + 4 + text_bound v) d)"
  proof (rule sum_list_mono)
    fix p assume p: "p \<in> set d"
    then have "length (json_text (snd p)) \<le> text_bound (snd p)" using JObj [of p "snd p"] by (auto simp: Basic_BNFs.snds.simps)
    then show "(case p of (k, v) \<Rightarrow> length (quoted k) + 2 + length (json_text v)) \<le> (case p of (k, v) \<Rightarrow> 6 * length k + 4 + text_bound v)"
      using quoted_bound [of "fst p"] by (simp add: case_prod_unfold)
  qed
  finally show ?case by simp
qed simp_all

lemma utf8_length: "length (utf8 s) \<le> 2 * length s"
  by (induction s) (auto simp: utf8_def utf8_char_def)

lemma utf8_text_bound: "length (utf8 (json_text v)) \<le> 2 * text_bound v"
  using utf8_length [of "json_text v"] json_text_bound [of v] by simp

section \<open>The documents of the repository\<close>

definition SAFE_INTEGER :: int where
  "SAFE_INTEGER = 9007199254740991"

text \<open>\<open>int(t)\<close> on a JSON integer.\<close>

definition int_of_text :: "string \<Rightarrow> int" where
  "int_of_text t =
     (if t \<noteq> [] \<and> hd t = CHR ''-'' then - int (nat_of_digits (tl t)) else int (nat_of_digits t))"

definition object_pairs :: "failure \<Rightarrow> dict \<Rightarrow> json res" where
  "object_pairs e ps = (if distinct (map fst ps) then Inr (JObj ps) else Inl e)"

definition safe_int :: "string \<Rightarrow> json res" where
  "safe_int t =
     (if abs (int_of_text t) > SAFE_INTEGER then Inl (fail ''integer outside CCJ-1 safe range'')
      else Inr (JInt (int_of_text t)))"

text \<open>Floats are outside the model: a text with a fraction, an exponent or a constant is refused.\<close>

definition load_hooks :: hooks where
  "load_hooks = \<lparr>parse_int = safe_int, parse_other = (\<lambda>_. bad_json),
     parse_pairs = object_pairs (fail ''duplicate JSON key'')\<rparr>"

definition load_json :: "string \<Rightarrow> json res" where
  "load_json raw =
     (case utf8_decode raw of
        None \<Rightarrow> Inl (fail ''invalid JSON'')
      | Some s \<Rightarrow>
          (case json_loads load_hooks s of
             Inl (ValueError _) \<Rightarrow> Inl (fail ''invalid JSON'')
           | r \<Rightarrow> r))"

text \<open>\<open>json.loads\<close> without hooks: a repeated key keeps its place and its last value.\<close>

definition default_hooks :: hooks where
  "default_hooks = \<lparr>parse_int = (\<lambda>t. Inr (JInt (int_of_text t))), parse_other = (\<lambda>_. bad_json),
     parse_pairs = (\<lambda>ps. Inr (JObj (fold (\<lambda>(k, v). AList.update k v) ps [])))\<rparr>"

text \<open>\<open>sig\<close> is elided at the top level only.\<close>

definition unsigned :: "json \<Rightarrow> json" where
  "unsigned v = (case v of JObj d \<Rightarrow> JObj (filter (\<lambda>(k, _). k \<noteq> ''sig'') d) | _ \<Rightarrow> v)"

abbreviation in_safe_range :: "int \<Rightarrow> bool" where
  "in_safe_range i \<equiv> abs i \<le> SAFE_INTEGER"

definition ccj1_bytes :: "json \<Rightarrow> string res" where
  "ccj1_bytes value =
     (if all_ints in_safe_range (unsigned value) then Inr (utf8 (json_text (unsigned value)))
      else Inl (fail ''integer outside CCJ-1 safe range''))"

text \<open>\<open>ccj1_sha256\<close> of \<open>tools/assurance.py\<close>; \<open>sha\<close> is the hexadecimal SHA-256 of a text.\<close>

definition ccj1_sha256 :: "(string \<Rightarrow> string) \<Rightarrow> json \<Rightarrow> string" where
  "ccj1_sha256 sha v = ''sha256:'' @ sha (json_text v)"

lemma int_of_text_int [simp]: "int_of_text (int_text i) = i"
proof -
  have "hd (nat_text n) \<noteq> CHR ''-''" for n
    using nat_text_digits [of n] digit_not [of "hd (nat_text n)"] by (cases "nat_text n") auto
  then show ?thesis by (simp add: int_of_text_def int_text_def)
qed

lemma fold_update: "distinct (map fst (acc @ ps)) \<Longrightarrow> fold (\<lambda>(k, v). AList.update k v) ps acc = acc @ ps"
proof (induction ps arbitrary: acc)
  case (Cons p ps)
  have "k \<notin> fst ` set acc \<Longrightarrow> AList.update k v acc = acc @ [(k, v)]" for k and v :: 'b by (induction acc) auto
  then have "AList.update (fst p) (snd p) acc = acc @ [p]" using Cons.prems by auto
  then show ?case using Cons by (simp add: case_prod_unfold)
qed simp

lemma default_hooks_faithful: "faithful (\<lambda>_. True) default_hooks"
  using fold_update [of "[] :: dict"] by (simp add: faithful_def default_hooks_def)

lemma load_hooks_faithful: "faithful in_safe_range load_hooks"
  by (simp add: faithful_def load_hooks_def safe_int_def object_pairs_def)

lemma load_hooks_fuel: "fuel_free load_hooks"
  by (simp add: fuel_free_def load_hooks_def safe_int_def object_pairs_def bad_json_def)

lemma utf8_decode_utf8 [simp]: "utf8_decode (utf8 s) = Some s"
  by (rule utf8_text.parse_print) simp

lemma unique_unsigned: "unique_keys v \<Longrightarrow> unique_keys (unsigned v)"
proof (cases v)
  case (JObj d)
  have "distinct (map fst d) \<Longrightarrow> distinct (map fst (filter P d))" for P :: "string \<times> json \<Rightarrow> bool"
    by (metis distinct_map_filter)
  then show "unique_keys v \<Longrightarrow> ?thesis" using JObj by (auto simp: unsigned_def list_all_iff)
qed (simp_all add: unsigned_def)

lemma load_ccj1:
  assumes "unique_keys v" "ccj1_bytes v = Inr bs"
  shows "load_json bs = Inr (canon (unsigned v))"
proof -
  have "all_ints in_safe_range (unsigned v)" "bs = utf8 (json_text (unsigned v))"
    using assms(2) by (auto simp: ccj1_bytes_def split: if_splits)
  then show ?thesis
    using loads_text [OF load_hooks_faithful unique_unsigned [OF assms(1)]] by (simp add: load_json_def)
qed

section \<open>What is accepted\<close>
















definition reader_failure :: "failure \<Rightarrow> bool" where
  "reader_failure e \<longleftrightarrow> (\<exists>s. e = ValidationFailure s) \<or> (\<exists>s. e = ValueError s) \<or> e = OutOfFuel"

lemma bad_json_failure [simp]: "bad_json = Inl e \<Longrightarrow> reader_failure e"
  by (auto simp: bad_json_def reader_failure_def)

lemma hooks_failure:
  "parse_int load_hooks t = Inl e \<Longrightarrow> reader_failure e"
  "parse_other load_hooks t = Inl e \<Longrightarrow> reader_failure e"
  "parse_pairs load_hooks ps = Inl e \<Longrightarrow> reader_failure e"
  by (auto simp: load_hooks_def safe_int_def object_pairs_def bad_json_def reader_failure_def split: if_splits)

lemma scan_string_failure: "scan_string s = Inl e \<Longrightarrow> reader_failure e"
  by (induction s arbitrary: e rule: scan_string.induct) (auto simp: and_then_err_iff split: option.splits if_splits)

lemma scan_scalar_failure: "scan_scalar load_hooks s = Inl e \<Longrightarrow> reader_failure e"
  by (auto simp: scan_scalar_def and_then_err_iff hooks_failure split: option.splits if_splits)

lemma read_failure:
  "h = load_hooks \<Longrightarrow> json_value n h s = Inl e \<Longrightarrow> reader_failure e"
  "h = load_hooks \<Longrightarrow> json_elements n h s = Inl e \<Longrightarrow> reader_failure e"
  "h = load_hooks \<Longrightarrow> json_members n h s = Inl e \<Longrightarrow> reader_failure e"
proof (induction n h s and n h s and n h s arbitrary: e and e and e
    rule: json_value_json_elements_json_members.induct)
  case (2 n h s)
  show ?case
  proof (cases s)
    case (Cons c q)
    from Cons show ?thesis using "2.IH" [OF Cons] "2.prems" scan_scalar_failure scan_string_failure hooks_failure
      by (auto simp: and_then_err_iff split: if_splits)
  qed (use "2.prems" in simp)
next
  case (4 n h s)
  show ?case
  proof (cases "json_value n h s")
    case (Inl f)
    then show ?thesis using "4.IH"(1) "4.prems" by simp
  next
    case (Inr p)
    then obtain v r where v: "json_value n h s = Inr (v, r)" by (cases p) simp
    then show ?thesis using "4.prems" "4.IH"(2)
      by (auto simp: and_then_err_iff split: list.splits if_splits)
  qed
next
  case (6 n h s)
  show ?case
  proof (cases "s = [] \<or> hd s \<noteq> quote")
    case False
    show ?thesis
    proof (cases "scan_string (tl s)")
      case (Inl f)
      then show ?thesis using "6.prems" False scan_string_failure by auto
    next
      case (Inr p)
      then obtain k r where k: "scan_string (tl s) = Inr (k, r)" by (cases p) simp
      show ?thesis
      proof (cases "json_value n h (skip_space (tl (skip_space r)))")
        case (Inl f)
        then show ?thesis using "6.prems" "6.IH"(1) [OF False, of r] False k by (auto split: if_splits)
      next
        case (Inr p)
        then obtain v r' where v: "json_value n h (skip_space (tl (skip_space r))) = Inr (v, r')" by (cases p) simp
        then show ?thesis using "6.prems" "6.IH"(2) [OF False, of r r'] False k
          by (auto simp: and_then_err_iff split: list.splits if_splits)
      qed
    qed
  qed (use "6.prems" in auto)
qed (simp_all add: reader_failure_def)

lemma json_loads_failure: "json_loads load_hooks s = Inl e \<Longrightarrow> reader_failure e"
  unfolding json_loads_def and_then_err_iff using read_failure(1) [OF refl] by (auto simp del: json_value.simps split: if_splits)

lemma load_json_fails:
  assumes "load_json raw = Inl e"
  shows "\<exists>s. e = ValidationFailure s"
proof (cases "utf8_decode raw")
  case (Some s)
  show ?thesis
  proof (cases "json_loads load_hooks s")
    case (Inl f)
    then have "reader_failure f" by (rule json_loads_failure)
    moreover have "f \<noteq> OutOfFuel" using json_loads_fuel [OF load_hooks_fuel] Inl by auto
    ultimately show ?thesis using assms Some Inl by (auto simp: load_json_def reader_failure_def)
  qed (use assms Some in \<open>simp add: load_json_def\<close>)
qed (use assms in \<open>auto simp: load_json_def\<close>)

section \<open>Properties\<close>

text \<open>
  C31: canonical bytes are read back.  Loading the CCJ-1 bytes of a document, whose dictionaries
  have each key once, gives that document without its top-level signature, keys in sorted order.
\<close>

theorem ccj1_load_back:
  assumes "unique_keys v" and "ccj1_bytes v = Inr bs"
  shows "load_json bs = Inr (canon (unsigned v))"
  using load_ccj1 [OF assms] .

text \<open>
  Canonical bytes identify the unsigned document.  Two documents have the same CCJ-1 bytes
  exactly when they agree, up to the order of keys, once their top-level signatures are elided.
\<close>

theorem ccj1_identity:
  assumes "unique_keys v" and "unique_keys w" and "ccj1_bytes v = Inr bs" and "ccj1_bytes w = Inr cs"
  shows "bs = cs \<longleftrightarrow> canon (unsigned v) = canon (unsigned w)"
proof
  assume "bs = cs"
  then show "canon (unsigned v) = canon (unsigned w)"
    using load_ccj1 [OF assms(1,3)] load_ccj1 [OF assms(2,4)] by simp
next
  assume "canon (unsigned v) = canon (unsigned w)"
  then have "json_text (unsigned v) = json_text (unsigned w)" by (metis plain_canon)
  then show "bs = cs" using assms(3,4) by (auto simp: ccj1_bytes_def split: if_splits)
qed

text \<open>The reader never runs out of the steps it is given.\<close>

lemma load_json_ends: "load_json raw \<noteq> Inl OutOfFuel"
  using load_json_fails by blast


definition signed_sample :: "string \<Rightarrow> json" where
  "signed_sample s = JObj [(''b'', JArr [JInt (-7), JNull, JStr [quote]]), (''sig'', JStr s), (''a'', JObj [(''k'', JBool True)])]"

theorem ccj1_load_back_witness:
  "load_json (utf8 (json_text (unsigned (signed_sample ''x'')))) =
     Inr (JObj [(''a'', JObj [(''k'', JBool True)]), (''b'', JArr [JInt (-7), JNull, JStr [quote]])])"
proof -
  have c: "ccj1_bytes (signed_sample ''x'') = Inr (utf8 (json_text (unsigned (signed_sample ''x''))))"
    by (simp add: ccj1_bytes_def signed_sample_def unsigned_def SAFE_INTEGER_def)
  have u: "unique_keys (signed_sample ''x'')" by (simp add: signed_sample_def)
  from ccj1_load_back [OF u c] show ?thesis by (simp add: signed_sample_def unsigned_def)
qed

theorem ccj1_identity_witness:
  "ccj1_bytes (signed_sample ''x'') = ccj1_bytes (signed_sample ''y'') \<and>
   (\<exists>bs. ccj1_bytes (signed_sample ''x'') = Inr bs)"
proof -
  have c: "ccj1_bytes (signed_sample s) = Inr (utf8 (json_text (unsigned (signed_sample s))))" for s
    by (simp add: ccj1_bytes_def signed_sample_def unsigned_def SAFE_INTEGER_def)
  have u: "unique_keys (signed_sample s)" for s by (simp add: signed_sample_def)
  have "canon (unsigned (signed_sample ''x'')) = canon (unsigned (signed_sample ''y''))"
    by (simp add: signed_sample_def unsigned_def)
  with ccj1_identity [OF u u c c, of "''x''" "''y''"] c show ?thesis by metis
qed

end
