(* ===== verification/CommandRoots.thy ===== *)
theory CommandRoots
  imports JsonText PurePaths
begin

text \<open>
  The profile command-root oracle (\<open>tools/profile_command_roots.py\<close>): names, paths and the
  whole admission of a command root with its metadata documents and forwarder chains, the checks
  of references, launchers, retention records and session pins, and the pure tables for
  lifecycle, compatibility and transactions.

  Two functions are parameters: \<open>sha\<close>, the hexadecimal SHA-256 of a text, of which nothing
  is assumed, and \<open>valid\<close>, the verdict of the third-party JSON Schema validator for a named
  schema.  The fixture side of a case (what the manager trusts, what is observed) is typed as
  the corpus writes it; fragments, records and metadata are JSON documents.  A check that raises
  \<open>Refusal(reason)\<close> is \<open>Inl (Refusal reason)\<close>.
\<close>

section \<open>Data\<close>

record trusted =
  manager :: string
  profile :: string
  names :: "string list"
  exports :: "string list"
  operator :: string
  platform :: string
  private_dacl :: string
  boundaries :: "string list"
  trusted_binding :: json
  trusted_docs :: "string \<Rightarrow> string"

record artifact =
  art_kind :: string
  art_links :: int
  art_bytes :: string
  art_size :: int
  art_format :: string
  art_owner :: string
  art_filesystem :: string
  art_object :: string
  art_mode :: "int option"
  art_dacl :: "string option"

record observed =
  root_kind :: string
  root_owner :: string
  root_filesystem :: string
  root_object :: string
  root_mode :: "int option"
  root_dacl :: "string option"
  files :: "(string \<times> artifact) list"
  observed_docs :: "string \<Rightarrow> string"

record root_state =
  fragment :: json
  trust :: trusted
  observation :: observed

abbreviation demand :: "bool \<Rightarrow> string \<Rightarrow> unit res" where
  "demand b reason \<equiv> guard b (Refusal reason)"

abbreviation demand_res :: "bool res \<Rightarrow> string \<Rightarrow> unit res" where
  "demand_res c reason \<equiv> and_then c (\<lambda>b. demand b reason)"

section \<open>Names and paths\<close>

definition DEVICES :: "string list" where
  "DEVICES = [''con'', ''prn'', ''aux'', ''nul''] @
     map (\<lambda>c. ''com'' @ [c]) ''123456789'' @ map (\<lambda>c. ''lpt'' @ [c]) ''123456789''"

definition device :: "string \<Rightarrow> bool" where
  "device name = (before_char (CHR ''.'') (lower name) \<in> set DEVICES)"

definition valid_name :: "string \<Rightarrow> bool" where
  "valid_name name =
     (name \<noteq> [] \<and> is_lower (hd name) \<and> length name \<le> 63 \<and>
      list_all (\<lambda>c. is_lower c \<or> is_digit c \<or> c = CHR ''-'') (tl name) \<and>
      \<not> prefix ''curator-'' name \<and> \<not> device name)"

text \<open>\<open>[A-Za-z0-9](?:[A-Za-z0-9._-]{0,62}[A-Za-z0-9_-])?\<close>.\<close>

definition profile_grammar :: "string \<Rightarrow> bool" where
  "profile_grammar s =
     (s \<noteq> [] \<and> length s \<le> 64 \<and> is_alnum (hd s) \<and> list_all (\<lambda>c. is_alnum c \<or> c \<in> set ''._-'') s \<and>
      last s \<noteq> CHR ''.'')"

definition path_piece_char :: "char \<Rightarrow> bool" where
  "path_piece_char c = (c \<noteq> CHR '':'' \<and> c \<noteq> CHR '';'' \<and> c \<noteq> backslash \<and> \<not> ord_of c < 32 \<and> ord_of c \<noteq> 127)"

definition absolute_path :: "bool \<Rightarrow> string \<Rightarrow> bool" where
  "absolute_path windows p =
     (let body = (if windows then drop 2 p else p) in
      (windows \<longrightarrow> 2 \<le> length p \<and> (is_lower (hd p) \<or> is_upper (hd p)) \<and> p ! 1 = CHR '':'') \<and>
      prefix ''/'' body \<and> tl body \<noteq> [] \<and> list_all path_piece_char (tl body) \<and>
      list_all (\<lambda>c. c \<notin> {''.'', ''..'', []} \<and> last c \<notin> {CHR ''.'', CHR '' ''} \<and> \<not> device c)
        (tl (split_on (CHR ''/'') p)))"

definition bounded_path :: "bool \<Rightarrow> string \<Rightarrow> bool" where
  "bounded_path windows p =
     (absolute_path windows p \<and> length (utf8 p) \<le> 240 \<and> (windows \<longrightarrow> length p \<le> 240) \<and>
      list_all (\<lambda>c. length (utf8 c) \<le> 255) (split_on (CHR ''/'') p))"

definition root_path :: "root_state \<Rightarrow> string res" where
  "root_path s =
     and_then (text_at (fragment s) [''command_root'', ''generation'']) (\<lambda>g.
     and_then (text_at (fragment s) [''command_root'', ''platform'']) (\<lambda>p.
     Inr (manager (trust s) @ ''/environments/'' @ profile (trust s) @ ''/commands/'' @ g @ ''/'' @ p @ ''/bin'')))"

definition json_of :: "('a \<Rightarrow> json) \<Rightarrow> 'a option \<Rightarrow> json" where
  "json_of f v = (case v of None \<Rightarrow> JNull | Some x \<Rightarrow> f x)"

definition metadata :: "bool \<Rightarrow> string \<Rightarrow> string \<Rightarrow> string \<Rightarrow> json \<Rightarrow> json \<Rightarrow> json" where
  "metadata windows owner fs obj dacl mode =
     JObj ([(''platform'', JStr (if windows then ''windows'' else ''posix'')), (''owner'', JStr owner),
        (''filesystem_id'', JStr fs), (''object_id'', JStr obj)] @
       (if windows then [(''security_descriptor_sha256'', dacl)] else [(''mode'', mode)]))"

section \<open>Metadata documents\<close>

definition strict_pairs :: "dict \<Rightarrow> json res" where
  "strict_pairs ps = object_pairs (ValueError ''duplicate metadata key'') ps"

definition metadata_hooks :: hooks where
  "metadata_hooks = \<lparr>parse_int = (\<lambda>t. Inr (JInt (int_of_text t))), parse_other = (\<lambda>_. bad_json), parse_pairs = strict_pairs\<rparr>"

definition parse_metadata :: "string \<Rightarrow> json res" where
  "parse_metadata text =
     (case json_loads metadata_hooks text of Inl _ \<Rightarrow> Inl (Refusal ''metadata-json'') | Inr v \<Rightarrow> Inr v)"

definition METADATA_KEYS :: "string list" where
  "METADATA_KEYS = [''marker'', ''receipt'', ''inventory'']"

definition check_pin :: "(string \<Rightarrow> string) \<Rightarrow> root_state \<Rightarrow> string \<Rightarrow> unit res" where
  "check_pin sha s key =
     and_then (demand (length (utf8 (trusted_docs (trust s) key)) \<le> 1048576) ''metadata-cap'') (\<lambda>_.
     demand_res
       (if observed_docs (observation s) key = trusted_docs (trust s) key
        then item_is (fragment s) [''command_root'', key @ ''_sha256''] (JStr (sha (trusted_docs (trust s) key)))
        else Inr False) (key @ ''-pin''))"

definition base_binding :: "json \<Rightarrow> json res" where
  "base_binding b =
     (case b of
        JObj d \<Rightarrow> Inr (JObj (filter (\<lambda>(k, _). k \<noteq> ''receipt_sha256'' \<and> k \<noteq> ''marker_sha256'') d))
      | _ \<Rightarrow> Inl AttributeError)"

text \<open>\<open>[c['name'] for c in doc['commands']] == names\<close>.\<close>

definition command_names :: "json \<Rightarrow> json list res" where
  "command_names doc = and_then (list_at doc [''commands'']) (map_res (\<lambda>c. item c ''name''))"

section \<open>Forwarder chains\<close>

definition forwarder_bytes :: "string \<Rightarrow> string" where
  "forwarder_bytes target = ''FIXTURE-FORWARD/1'' @ [newline] @ target @ [newline]"

definition the_file :: "root_state \<Rightarrow> string \<Rightarrow> artifact res" where
  "the_file s p = (case map_of (files (observation s)) p of None \<Rightarrow> Inl (KeyError p) | Some a \<Rightarrow> Inr a)"

definition present :: "'a option \<Rightarrow> string \<Rightarrow> 'a res" where
  "present v k = (case v of None \<Rightarrow> Inl (KeyError k) | Some x \<Rightarrow> Inr x)"

definition artifact_metadata :: "bool \<Rightarrow> artifact \<Rightarrow> json res" where
  "artifact_metadata windows a =
     (if windows then and_then (present (art_dacl a) ''security_descriptor_sha256'') (\<lambda>d.
        Inr (metadata windows (art_owner a) (art_filesystem a) (art_object a) (JStr d) JNull))
      else and_then (present (art_mode a) ''mode'') (\<lambda>m.
        Inr (metadata windows (art_owner a) (art_filesystem a) (art_object a) JNull (JInt m))))"

definition protected_file :: "bool \<Rightarrow> root_state \<Rightarrow> artifact \<Rightarrow> bool res" where
  "protected_file windows s a =
     (if windows then and_then (present (art_dacl a) ''security_descriptor_sha256'') (\<lambda>d. Inr (d = private_dacl (trust s)))
      else and_then (present (art_mode a) ''mode'') (\<lambda>m. Inr (m = 320)))"

definition next_path :: "json list \<Rightarrow> string option res" where
  "next_path later = (case later of [] \<Rightarrow> Inr None | h # _ \<Rightarrow> and_then (text_at h [''path'']) (\<lambda>p. Inr (Some p)))"

text \<open>One hop of a chain, and the hops after it.\<close>

definition check_hop :: "(string \<Rightarrow> string) \<Rightarrow> bool \<Rightarrow> root_state \<Rightarrow> json \<Rightarrow> json list \<Rightarrow> unit res" where
  "check_hop sha windows s hop later =
     and_then (text_at hop [''path'']) (\<lambda>p.
     and_then (demand (list_ex (\<lambda>b. prefix (b @ ''/'') p) (boundaries (trust s))) ''chain-confinement'') (\<lambda>_.
     and_then (the_file s p) (\<lambda>a.
     and_then (demand (art_kind a = ''regular'' \<and> art_links a = 1) ''file-kind'') (\<lambda>_.
     and_then (demand (art_owner a = operator (trust s)) ''file-owner'') (\<lambda>_.
     and_then (demand_res (protected_file windows s a) ''file-protection'') (\<lambda>_.
     and_then (demand_res (and_then (item hop ''metadata'') (\<lambda>m.
       and_then (artifact_metadata windows a) (\<lambda>w. Inr (py_eq m w)))) ''file-object'') (\<lambda>_.
     and_then (demand (art_size a = int (length (utf8 (art_bytes a)))) ''file-size'') (\<lambda>_.
     and_then (demand_res (item_is hop [''sha256''] (JStr (''sha256:'' @ sha (art_bytes a)))) ''file-digest'') (\<lambda>_.
     and_then (demand_res (item_is hop [''kind''] (JStr (if later = [] then ''executable'' else ''forwarder''))) ''chain-kind'') (\<lambda>_.
     and_then (next_path later) (\<lambda>target.
     and_then (demand_res (item_is hop [''target''] (jopt target)) ''chain-target'') (\<lambda>_.
     demand (case target of None \<Rightarrow> True | Some q \<Rightarrow> art_bytes a = forwarder_bytes q) ''forwarder-bytes''))))))))))))"

fun check_hops :: "(string \<Rightarrow> string) \<Rightarrow> bool \<Rightarrow> root_state \<Rightarrow> json list \<Rightarrow> unit res" where
  "check_hops sha windows s [] = Inr ()"
| "check_hops sha windows s (hop # later) =
     and_then (check_hop sha windows s hop later) (\<lambda>_. check_hops sha windows s later)"

text \<open>\<open>s.removeprefix(p)\<close>.\<close>

definition remove_prefix :: "string \<Rightarrow> string \<Rightarrow> string" where
  "remove_prefix p s = (if prefix p s then drop (length p) s else s)"

text \<open>One command: its chain, and the executable its receipt pins.\<close>

definition check_chain :: "(string \<Rightarrow> string) \<Rightarrow> bool \<Rightarrow> root_state \<Rightarrow> string \<Rightarrow> json \<Rightarrow> string \<Rightarrow> json list \<Rightarrow> unit res" where
  "check_chain sha windows s dir command name chain =
     and_then (map_res (\<lambda>h. text_at h [''path'']) chain) (\<lambda>ps.
     and_then (demand (distinct ps) ''chain-cycle'') (\<lambda>_.
     and_then (if ps = [] then Inl IndexError else Inr (hd ps)) (\<lambda>first.
     and_then (demand (first = dir @ ''/'' @ name @ (if windows then ''.cmd'' else [])) ''chain-entry'') (\<lambda>_.
     and_then (check_hops sha windows s chain) (\<lambda>_.
     and_then (text_at (last chain) [''sha256'']) (\<lambda>digest.
     demand_res (item_is command [''executable_sha256''] (JStr (remove_prefix ''sha256:'' digest))) ''executable-pin''))))))"

section \<open>Admission of a root\<close>

definition check_fragment :: "(string \<Rightarrow> json \<Rightarrow> bool) \<Rightarrow> root_state \<Rightarrow> unit res" where
  "check_fragment valid s =
     (let t = trust s; f = fragment s in
     and_then (demand (\<not> device (profile t)) ''profile-device'') (\<lambda>_.
     and_then (demand (profile_grammar (profile t)) ''profile-grammar'') (\<lambda>_.
     and_then (demand (valid ''launch-fragment-model'' f) ''fragment-schema'') (\<lambda>_.
     and_then (item f ''command_root'') (\<lambda>b.
     and_then (text_at b [''platform'']) (\<lambda>pl.
     and_then (demand_res (and_then (item f ''profile'') (\<lambda>p. and_then (item b ''lock_sha256'') (\<lambda>l.
       Inr (py_eq p (JObj [(''name'', JStr (profile t)), (''lock_sha256'', l)]) \<and> py_eq b (trusted_binding t)))))
       ''fragment-binding'') (\<lambda>_.
     and_then (demand (pl = platform t) ''platform'') (\<lambda>_.
     and_then (demand (1 \<le> length (names t) \<and> length (names t) \<le> 256 \<and> names t = sort (remdups (names t)) \<and>
       list_all valid_name (names t)) ''export-names'') (\<lambda>_.
     and_then (demand (distinct (exports t)) ''collision'') (\<lambda>_.
     demand (sort (exports t) = names t) ''plan-union''))))))))))"

definition check_root_object :: "bool \<Rightarrow> string \<Rightarrow> root_state \<Rightarrow> unit res" where
  "check_root_object windows dir s =
     (let t = trust s; obs = observation s in
     and_then (demand_res (item_is (fragment s) [''path_prepend''] (JStr dir)) ''root-path'') (\<lambda>_.
     and_then (demand (root_kind obs = ''directory'') ''root-kind'') (\<lambda>_.
     and_then (demand (root_owner obs = operator t) ''root-owner'') (\<lambda>_.
     demand_res
       (if windows then and_then (present (root_dacl obs) ''root_security_descriptor_sha256'') (\<lambda>d. Inr (d = private_dacl t))
        else and_then (present (root_mode obs) ''root_mode'') (\<lambda>m. Inr (m = 448))) ''root-protection''))))"

record root_documents =
  doc_marker :: json
  doc_receipt :: json
  doc_inventory :: json

definition read_documents :: "(string \<Rightarrow> json \<Rightarrow> bool) \<Rightarrow> root_state \<Rightarrow> root_documents res" where
  "read_documents valid s =
     and_then (map_res (\<lambda>k. parse_metadata (observed_docs (observation s) k)) METADATA_KEYS) (\<lambda>docs.
     let marker = docs ! 0; receipt = docs ! 1; inventory = docs ! 2 in
     and_then (require
       [(valid ''generation-marker.schema.json'' marker, Refusal ''marker-schema''),
        (valid ''root-receipt.schema.json'' receipt, Refusal ''receipt-schema''),
        (valid ''inventory.schema.json'' inventory, Refusal ''inventory-schema'')]) (\<lambda>_.
     Inr \<lparr>doc_marker = marker, doc_receipt = receipt, doc_inventory = inventory\<rparr>))"

definition check_documents :: "bool \<Rightarrow> string \<Rightarrow> root_state \<Rightarrow> root_documents \<Rightarrow> unit res" where
  "check_documents windows dir s docs =
     (let t = trust s; obs = observation s in
     and_then (item (fragment s) ''command_root'') (\<lambda>b.
     and_then (base_binding b) (\<lambda>base.
     and_then (demand_res (both
       [item_is (doc_marker docs) [''binding''] base,
        item_is (doc_marker docs) [''profile''] (JStr (profile t)),
        and_then (item (doc_marker docs) ''receipt_sha256'') (\<lambda>r. item_is b [''receipt_sha256''] r)])
       ''marker-binding'') (\<lambda>_.
     and_then (demand_res (both
       [item_is (doc_receipt docs) [''binding''] base,
        item_is (doc_receipt docs) [''profile''] (JStr (profile t))]) ''receipt-binding'') (\<lambda>_.
     and_then (demand_res (item_is (doc_inventory docs) [''root'']
       (JObj [(''path'', JStr dir), (''metadata'', metadata windows (root_owner obs) (root_filesystem obs) (root_object obs)
          (json_of JStr (root_dacl obs)) (json_of JInt (root_mode obs)))])) ''root-object'') (\<lambda>_.
     and_then (demand_res (and_then (command_names (doc_receipt docs)) (\<lambda>ns.
       Inr (py_eq (JArr ns) (JArr (map JStr (names t)))))) ''receipt-commands'') (\<lambda>_.
     demand_res (and_then (command_names (doc_inventory docs)) (\<lambda>ns.
       Inr (py_eq (JArr ns) (JArr (map JStr (names t)))))) ''inventory-commands'')))))))"

text \<open>The chains of the inventory, and every path they name.\<close>

definition inventory_chains :: "root_documents \<Rightarrow> json list list res" where
  "inventory_chains docs = and_then (list_at (doc_inventory docs) [''commands'']) (map_res (\<lambda>c. list_at c [''chain'']))"

definition chain_paths :: "json list list \<Rightarrow> string list res" where
  "chain_paths hops = map_res (\<lambda>h. text_at h [''path'']) (concat hops)"

text \<open>\<open>root.rsplit("/", 1)[0]\<close>.\<close>

definition parent :: "string \<Rightarrow> string" where
  "parent p = (if CHR ''/'' \<in> set p then before_last (CHR ''/'') p else p)"

definition total_size :: "root_state \<Rightarrow> (artifact \<Rightarrow> bool) \<Rightarrow> int" where
  "total_size s P = sum_list (map art_size (filter P (map snd (files (observation s)))))"

definition check_files :: "bool \<Rightarrow> string \<Rightarrow> root_state \<Rightarrow> string list \<Rightarrow> unit res" where
  "check_files windows dir s paths =
     require
       [(set (map fst (files (observation s))) = set paths, Refusal ''file-inventory''),
        (list_all (bounded_path windows)
          ([dir @ ''/.curator-profile-command-root.json'', parent dir @ ''/generation.json''] @ paths), Refusal ''path-limit''),
        (length (remdups paths) \<le> 1024, Refusal ''file-cap''),
        (total_size s (\<lambda>a. art_format a = ''native'') \<le> 1073741824, Refusal ''native-cap''),
        (total_size s (\<lambda>a. art_format a \<noteq> ''native'') \<le> 67108864, Refusal ''script-cap'')]"

definition root_check :: "(string \<Rightarrow> string) \<Rightarrow> (string \<Rightarrow> json \<Rightarrow> bool) \<Rightarrow> string option \<Rightarrow> root_state \<Rightarrow> unit res" where
  "root_check sha valid selected s =
     and_then (check_fragment valid s) (\<lambda>_.
     let windows = prefix ''windows-'' (platform (trust s)) in
     and_then (root_path s) (\<lambda>dir.
     and_then (check_root_object windows dir s) (\<lambda>_.
     and_then (for_each (check_pin sha s) METADATA_KEYS) (\<lambda>_.
     and_then (read_documents valid s) (\<lambda>docs.
     and_then (check_documents windows dir s docs) (\<lambda>_.
     and_then (list_at (doc_receipt docs) [''commands'']) (\<lambda>commands.
     and_then (inventory_chains docs) (\<lambda>hops.
     and_then (chain_paths hops) (\<lambda>paths.
     and_then (check_files windows dir s paths) (\<lambda>_.
     for_each (\<lambda>(name, command, chain).
         if selected \<noteq> None \<and> selected \<noteq> Some name then Inr () else check_chain sha windows s dir command name chain)
       (zip (names (trust s)) (zip commands hops))))))))))))"

definition hook_check :: "(string \<Rightarrow> string) \<Rightarrow> (string \<Rightarrow> json \<Rightarrow> bool) \<Rightarrow> string \<Rightarrow> root_state \<Rightarrow> unit res" where
  "hook_check sha valid command s =
     and_then (demand (command \<in> set (names (trust s))) ''hook-command'') (\<lambda>_. root_check sha valid (Some command) s)"

section \<open>Verdicts\<close>

text \<open>\<open>decision\<close>: other exceptions than a refusal propagate.\<close>

definition refusal_code :: "string \<Rightarrow> string" where
  "refusal_code reason =
     (if reason \<in> {''reference-cap'', ''retention-cap''} then ''profile_command_reference_limit''
      else if reason = ''reference-owner'' then ''profile_command_reference_authority''
      else if reason \<in> {''reference-id'', ''reference-settings'', ''reference-revision'', ''session-request''}
        then ''profile_command_reference_conflict''
      else if reason \<in> {''session-unconfirmed'', ''session-break-unconfirmed''} then ''profile_command_reference_unconfirmed''
      else ''profile_command_root_invalid'')"

definition decision :: "unit res \<Rightarrow> (string \<times> string) res" where
  "decision checked =
     (case checked of
        Inr _ \<Rightarrow> Inr (''accept'', ''verified'')
      | Inl (Refusal reason) \<Rightarrow> Inr (refusal_code reason, reason)
      | Inl e \<Rightarrow> Inl e)"

section \<open>References, launchers, retention and sessions\<close>

definition is_windows :: "root_state \<Rightarrow> bool" where
  "is_windows s = prefix ''windows-'' (platform (trust s))"

definition gateway_path :: "(string \<Rightarrow> string) \<Rightarrow> root_state \<Rightarrow> string \<Rightarrow> string \<Rightarrow> string" where
  "gateway_path sha s command resource =
     manager (trust s) @ ''/command-gateways/'' @ profile (trust s) @ ''/'' @ sha resource @ ''/bin/'' @ command @
     (if is_windows s then ''.cmd'' else [])"

record reference_case =
  ref_root :: root_state
  ref_record :: json
  id_authority :: json
  caller :: string
  settings_authority :: json
  distribution_authority :: json
  gateway_bytes :: string
  revision_authority :: json
  reference_count :: int
  root_count :: int
  externally_verified :: bool
  signature_verified :: bool

definition reference_check :: "(string \<Rightarrow> string) \<Rightarrow> (string \<Rightarrow> json \<Rightarrow> bool) \<Rightarrow> reference_case \<Rightarrow> unit res" where
  "reference_check sha valid c =
     (let s = ref_root c; r = ref_record c; t = trust s in
     and_then (item (fragment s) ''command_root'') (\<lambda>b.
     and_then (demand (valid ''persistent-reference.schema.json'' r) ''reference-schema'') (\<lambda>_.
     and_then (demand_res (item_is r [''id''] (id_authority c)) ''reference-id'') (\<lambda>_.
     and_then (demand_res (both [item_is r [''profile''] (JStr (profile t)), item_is r [''binding''] b]) ''reference-binding'') (\<lambda>_.
     and_then (demand_res (and_then (text_at r [''command'']) (\<lambda>n. Inr (n \<in> set (names t)))) ''reference-command'') (\<lambda>_.
     and_then (demand_res (both [item_is r [''owner''] (JStr (operator t)), Inr (operator t = caller c)]) ''reference-owner'') (\<lambda>_.
     and_then (demand_res (both [item_is r [''settings_resource''] (settings_authority c),
       and_then (text_at r [''settings_resource'']) (\<lambda>p. Inr (bounded_path (is_windows s) p))]) ''reference-settings'') (\<lambda>_.
     and_then (demand_res (and_then (text_at r [''command'']) (\<lambda>n. and_then (text_at r [''settings_resource'']) (\<lambda>p.
       both [item_is r [''gateway''] (JStr (gateway_path sha s n p)),
         and_then (text_at r [''gateway'']) (\<lambda>g. Inr (bounded_path (is_windows s) g))]))) ''reference-gateway'') (\<lambda>_.
     and_then (demand_res (item_is r [''distribution_sha256''] (distribution_authority c)) ''reference-distribution'') (\<lambda>_.
     and_then (demand_res (item_is r [''gateway_sha256''] (JStr (sha (gateway_bytes c)))) ''reference-digest'') (\<lambda>_.
     and_then (demand_res (item_is r [''revision''] (revision_authority c)) ''reference-revision'') (\<lambda>_.
     and_then (demand (reference_count c \<le> 256 \<and> root_count c \<le> 256) ''reference-cap'') (\<lambda>_.
     and_then (demand (externally_verified c) ''reference-external'') (\<lambda>_.
     and_then (demand (signature_verified c) ''reference-signature'') (\<lambda>_.
     root_check sha valid None s)))))))))))))))"

text \<open>\<open>pin[field] == authority[field]\<close> for each field, in order.\<close>

definition PIN_FIELDS :: "(string \<times> string) list" where
  "PIN_FIELDS = [(''lease_id'', ''lease''), (''request_id'', ''request''), (''revision'', ''revision''),
     (''supervisor_instance'', ''supervisor''), (''boot_id'', ''boot''), (''process_domain'', ''domain''),
     (''process_started_at'', ''start''), (''phase'', ''phase'')]"

definition pin_authority :: "json \<Rightarrow> json \<Rightarrow> string \<Rightarrow> unit res" where
  "pin_authority pin authority pre =
     for_each (\<lambda>(field, reason).
       demand_res (and_then (item pin field) (\<lambda>v. item_is authority [field] v)) (pre @ ''-'' @ reason)) PIN_FIELDS"

record launcher_case =
  launch_root :: root_state
  launch_record :: json
  session_pin :: json
  lease_authority :: json
  launch_pin_authority :: json
  protected_tools :: "string list"
  base_path :: "string list"

definition launcher_check :: "(string \<Rightarrow> string) \<Rightarrow> (string \<Rightarrow> json \<Rightarrow> bool) \<Rightarrow> launcher_case \<Rightarrow> unit res" where
  "launcher_check sha valid c =
     (let s = launch_root c; r = launch_record c; pin = session_pin c; t = trust s in
     and_then (item (fragment s) ''command_root'') (\<lambda>b.
     and_then (demand (valid ''launcher-state.schema.json'' r) ''launcher-schema'') (\<lambda>_.
     and_then (demand_res (item_is r [''command_root''] b) ''launcher-binding'') (\<lambda>_.
     and_then (at_path r [''prior_state'', ''binding'']) (\<lambda>pb.
     and_then (demand_res (both [item_is pb [''profile''] (JStr (profile t)),
       and_then (text_at b [''lock_sha256'']) (\<lambda>l. item_is pb [''lock_sha256''] (JStr (''sha256:'' @ l))),
       and_then (text_at b [''plan_sha256'']) (\<lambda>l. item_is pb [''plan_sha256''] (JStr (''sha256:'' @ l)))]) ''launcher-prior'') (\<lambda>_.
     and_then (demand (valid ''session-pin.schema.json'' pin) ''launcher-session-schema'') (\<lambda>_.
     and_then (demand_res (both [item_is r [''lease_id''] (lease_authority c),
       and_then (item pin ''lease_id'') (\<lambda>l. Inr (py_eq (lease_authority c) l)),
       item_is pin [''profile''] (JStr (profile t)), item_is pin [''binding''] b,
       item_is pin [''phase''] (JStr ''active'')]) ''launcher-lease'') (\<lambda>_.
     and_then (pin_authority pin (launch_pin_authority c) ''launcher-session'') (\<lambda>_.
     and_then (text_at (fragment s) [''path_prepend'']) (\<lambda>pre.
     let expected = protected_tools c @ [pre] @ base_path c in
     and_then (demand_res (item_is r [''effective_path''] (JArr (map JStr expected))) ''launcher-order'') (\<lambda>_.
     and_then (text_at b [''platform'']) (\<lambda>pl.
     and_then (demand_res (item_is r [''path_value'']
       (JStr (join_with (if prefix ''windows-'' pl then '';'' else '':'') expected))) ''launcher-path-value'') (\<lambda>_.
     root_check sha valid None s)))))))))))))"

record retention_case =
  ret_record :: json
  ret_descriptor :: string
  roots_authority :: json
  references_authority :: json
  available_roots :: "json list"
  available_references :: "json list"

definition retention_check :: "(string \<Rightarrow> string) \<Rightarrow> (string \<Rightarrow> json \<Rightarrow> bool) \<Rightarrow> retention_case \<Rightarrow> unit res" where
  "retention_check sha valid c =
     (let r = ret_record c in
     and_then (list_at r [''roots'']) (\<lambda>rts. and_then (list_at r [''references'']) (\<lambda>refs.
     and_then (demand (length rts \<le> 256 \<and> length refs \<le> 256) ''retention-cap'') (\<lambda>_.
     and_then (demand (valid ''snapshot-retention.schema.json'' r) ''retention-schema'') (\<lambda>_.
     and_then (demand_res (item_is r [''descriptor_sha256''] (JStr (sha (ret_descriptor c)))) ''retention-descriptor'') (\<lambda>_.
     and_then (demand (py_eq (JArr rts) (roots_authority c)) ''retention-roots'') (\<lambda>_.
     and_then (demand (py_eq (JArr refs) (references_authority c)) ''retention-references'') (\<lambda>_.
     demand (list_all (\<lambda>p. py_in p (available_roots c)) rts \<and> list_all (\<lambda>i. py_in i (available_references c)) refs)
       ''retention-missing''))))))))"

record session_case =
  ses_record :: json
  profile_authority :: json
  binding_authority :: json
  request_authority :: json
  incarnation_authority :: "json list"
  ses_pin_authority :: json
  ses_operation :: string
  observer_confirmed :: bool
  descendants_quiescent :: bool
  ses_operator :: bool
  fenced :: bool
  ses_revision :: json
  ses_reason :: string
  audit_durable :: bool

definition session_check :: "(string \<Rightarrow> json \<Rightarrow> bool) \<Rightarrow> session_case \<Rightarrow> unit res" where
  "session_check valid c =
     (let r = ses_record c in
     and_then (demand (valid ''session-pin.schema.json'' r) ''session-schema'') (\<lambda>_.
     and_then (demand_res (both [item_is r [''profile''] (profile_authority c), item_is r [''binding''] (binding_authority c)]) ''session-binding'') (\<lambda>_.
     and_then (demand_res (item_is r [''request_id''] (request_authority c)) ''session-request'') (\<lambda>_.
     and_then (demand_res (and_then (map_res (item r) [''boot_id'', ''process_domain'', ''process_started_at'']) (\<lambda>vs.
       Inr (py_eq (JArr vs) (JArr (incarnation_authority c))))) ''session-incarnation'') (\<lambda>_.
     and_then (pin_authority r (ses_pin_authority c) ''session'') (\<lambda>_.
     and_then (demand (ses_operation c = ''release'' \<longrightarrow> observer_confirmed c \<and> descendants_quiescent c) ''session-unconfirmed'') (\<lambda>_.
     if ses_operation c = ''break'' then
       demand_res (both [Inr (ses_operator c), Inr (fenced c),
         and_then (item r ''revision'') (\<lambda>v. Inr (py_eq (ses_revision c) v)), Inr (ses_reason c \<noteq> []), Inr (audit_durable c)])
         ''session-break-unconfirmed''
     else Inr ())))))))"

section \<open>Lifecycle, compatibility and transactions\<close>

definition truth_at :: "json \<Rightarrow> string \<Rightarrow> bool res" where
  "truth_at v k = and_then (item v k) (\<lambda>x. Inr (truthy x))"

fun any_true :: "json \<Rightarrow> string list \<Rightarrow> bool res" where
  "any_true v [] = Inr False"
| "any_true v (k # ks) = and_then (truth_at v k) (\<lambda>b. if b then Inr True else any_true v ks)"

definition lifecycle :: "json \<Rightarrow> string res" where
  "lifecycle st =
     and_then (any_true st [''reference'', ''session'', ''snapshot'', ''rollback'', ''journal'', ''descendant'', ''unknown'', ''installed'']) (\<lambda>live.
     and_then (item st ''operation'') (\<lambda>op.
     if py_eq op (JStr ''purge'') then Inr (if live then ''profile_command_root_in_use'' else ''collect'')
     else and_then (truth_at st ''reference'') (\<lambda>referenced.
       if referenced then and_then (truth_at st ''missing'') (\<lambda>missing.
         Inr (if missing then ''profile_command_root_invalid'' else ''accept''))
       else Inr (if live then ''retain'' else ''collect''))))"

definition compatibility :: "json \<Rightarrow> string res" where
  "compatibility st =
     and_then (truth_at st ''commands'') (\<lambda>commands.
     if \<not> commands then Inr ''legacy-no-prepend''
     else and_then (both [truth_at st ''fenced'', truth_at st ''manager_new'']) (\<lambda>ready.
     if \<not> ready then Inr ''refuse-before-resolve''
     else and_then (item_is st [''fragment''] (JInt 5)) (\<lambda>five.
     if \<not> five then Inr ''refuse-before-start''
     else and_then (truth_at st ''launcher_new'') (\<lambda>new.
     Inr (if new then ''verify-v5'' else ''reject-v5'')))))"

record transaction_result =
  refusal :: string
  tx_outcome :: string
  live :: json
  retained_edge :: json
  preserved_old :: json
  pending_journal :: bool
  evidence_generations :: "json list"

definition REPAIR_INPUTS :: "string list" where
  "REPAIR_INPUTS = [''lock'', ''source'', ''plan'', ''executable'', ''build_receipt'', ''unrelated'']"

definition RECOVERY :: "(string \<times> string) list" where
  "RECOVERY = [(''preparing'', ''all-preimages-old''), (''prepared'', ''complete-new''),
     (''committing'', ''complete-new''), (''cleanup'', ''complete-new''),
     (''rolling_back'', ''all-preimages-old''), (''rollback_cleanup'', ''all-preimages-old'')]"

definition recovery_outcome :: "json \<Rightarrow> string res" where
  "recovery_outcome phase =
     (if is_list phase \<or> is_dict phase then Inl TypeError
      else case (if is_str phase then map_of RECOVERY (the_str phase) else None) of
        None \<Rightarrow> Inr ''refuse-preserve-journal'' | Some out \<Rightarrow> Inr out)"

definition same_inputs :: "json \<Rightarrow> json \<Rightarrow> bool res" where
  "same_inputs staged old =
     both (map (\<lambda>k. and_then (item staged k) (\<lambda>x. and_then (item old k) (\<lambda>y. Inr (py_eq x y)))) REPAIR_INPUTS)"

definition first_outcome :: "json \<Rightarrow> string \<Rightarrow> json \<Rightarrow> json \<Rightarrow> string res" where
  "first_outcome st op old staged =
     (if op = ''resolve-repair'' then
        and_then (truth_at st ''valid'') (\<lambda>v. Inr (if v then ''unchanged'' else ''refuse-unchanged''))
      else if op = ''explicit-repair'' then
        and_then (same_inputs staged old) (\<lambda>same.
        and_then (both [truth_at st ''inputs'', Inr same,
          and_then (item st ''new_generation'') (\<lambda>n. and_then (item st ''old_generation'') (\<lambda>g. Inr (\<not> py_eq n g)))]) (\<lambda>fresh.
        Inr (if fresh then ''fresh-generation-preserve-old'' else ''refuse-unchanged'')))
      else if op = ''refused-update'' then Inr ''all-preimages-old''
      else and_then (item st ''phase'') recovery_outcome)"

text \<open>A stale session is confirmed by an observer, or broken by an operator under a fence.\<close>

definition session_settled :: "json \<Rightarrow> json \<Rightarrow> bool res" where
  "session_settled st edge =
     and_then (both [truth_at st ''observer_confirmed'', truth_at st ''descendants_quiescent'']) (\<lambda>seen.
     if seen then Inr True
     else both [truth_at st ''operator'', truth_at st ''fenced'', truth_at st ''audit_durable'', truth_at st ''reason'',
       and_then (item st ''if_revision'') (\<lambda>r. and_then (item edge ''revision'') (\<lambda>e. Inr (py_eq r e)))])"

definition repair_outcome :: "json \<Rightarrow> string \<Rightarrow> (string \<times> string) res" where
  "repair_outcome st out =
     and_then (item st ''retained_edge'') (\<lambda>edge.
     and_then (item_is edge [''kind''] (JStr ''unknown-session'')) (\<lambda>unknown.
     and_then (if unknown then session_settled st edge else Inr True) (\<lambda>settled.
     and_then (item st ''staged_edge'') (\<lambda>staged.
     Inr (if \<not> py_eq staged edge then (''refuse-unchanged'', ''repair-edge-changed'')
          else if \<not> settled then (''refuse-unchanged'', ''repair-session-unconfirmed'')
          else (out, if out = ''refuse-unchanged'' then ''repair-inputs-or-generation'' else []))))))"

definition transaction :: "json \<Rightarrow> transaction_result res" where
  "transaction st =
     and_then (item st ''operation'') (\<lambda>operation. let op = the_str operation in
     and_then (item st ''before'') (\<lambda>old.
     and_then (item st ''staged'') (\<lambda>staged.
     and_then (first_outcome st op old staged) (\<lambda>out.
     and_then (if op = ''explicit-repair'' then repair_outcome st out else Inr (out, [])) (\<lambda>(out, refused).
     let publish = (out \<in> {''complete-new'', ''fresh-generation-preserve-old''}); pending = (out = ''refuse-preserve-journal'') in
     and_then (item st ''retained_edge'') (\<lambda>edge.
     and_then (item st ''old_generation'') (\<lambda>old_gen.
     and_then (if publish \<or> pending then and_then (item st ''new_generation'') (\<lambda>new_gen. Inr [old_gen, new_gen]) else Inr [old_gen]) (\<lambda>gens.
     Inr \<lparr>refusal = refused, tx_outcome = out, live = (if publish then staged else old), retained_edge = edge,
       preserved_old = old, pending_journal = pending, evidence_generations = gens\<rparr>))))))))"

section \<open>What acceptance means\<close>

definition guarded :: "root_state \<Rightarrow> string \<Rightarrow> artifact \<Rightarrow> bool" where
  "guarded s p a \<longleftrightarrow> map_of (files (observation s)) p = Some a \<and>
     list_ex (\<lambda>b. prefix (b @ ''/'') p) (boundaries (trust s)) \<and>
     art_kind a = ''regular'' \<and> art_links a = 1 \<and> art_owner a = operator (trust s) \<and>
     (if is_windows s then art_dacl a = Some (private_dacl (trust s)) else art_mode a = Some 320)"

text \<open>Running a path: each guarded file but the last is a forwarder to the next.\<close>

fun runs :: "root_state \<Rightarrow> string list \<Rightarrow> artifact \<Rightarrow> bool" where
  "runs s [] a = False"
| "runs s [p] a = guarded s p a"
| "runs s (p # q # ps) a = ((\<exists>f. guarded s p f \<and> art_bytes f = forwarder_bytes q) \<and> runs s (q # ps) a)"

lemma check_hop_ok:
  assumes "check_hop sha (is_windows s) s hop later = Inr u"
  obtains p a target where "text_at hop [''path''] = Inr p" "guarded s p a" "next_path later = Inr target"
    "item hop ''sha256'' = Inr (JStr (''sha256:'' @ sha (art_bytes a)))"
    "case target of None \<Rightarrow> True | Some q \<Rightarrow> art_bytes a = forwarder_bytes q"
proof -
  have prot: "guarded s p a" if "protected_file (is_windows s) s a = Inr True" "the_file s p = Inr a"
    "list_ex (\<lambda>b. prefix (b @ ''/'') p) (boundaries (trust s))" "art_kind a = ''regular''" "art_links a = 1"
    "art_owner a = operator (trust s)" for p a
    using that by (auto simp: guarded_def protected_file_def present_def the_file_def and_then_ok_iff split: if_splits option.splits)
  from assms obtain p where p: "text_at hop [''path''] = Inr p" unfolding check_hop_def by (auto simp: and_then_ok_iff)
  with assms obtain a where a: "the_file s p = Inr a" unfolding check_hop_def by (auto simp: and_then_ok_iff)
  with assms p obtain target where target: "next_path later = Inr target" unfolding check_hop_def by (auto simp: and_then_ok_iff)
  from assms p a target have all: "list_ex (\<lambda>b. prefix (b @ ''/'') p) (boundaries (trust s))" "art_kind a = ''regular''"
    "art_links a = 1" "art_owner a = operator (trust s)" "protected_file (is_windows s) s a = Inr True"
    "item_is hop [''sha256''] (JStr (''sha256:'' @ sha (art_bytes a))) = Inr True"
    "case target of None \<Rightarrow> True | Some q \<Rightarrow> art_bytes a = forwarder_bytes q"
    unfolding check_hop_def by (auto simp: and_then_ok_iff)
  have "item hop ''sha256'' = Inr (JStr (''sha256:'' @ sha (art_bytes a)))"
    using all(6) by (auto simp: item_is_ok_iff and_then_ok_iff)
  with that p prot [OF all(5) a all(1-4)] target all(7) show thesis by blast
qed

lemma check_hops_ok:
  "check_hops sha (is_windows s) s hops = Inr u \<Longrightarrow> map_res (\<lambda>h. text_at h [''path'']) hops = Inr ps \<Longrightarrow> hops \<noteq> [] \<Longrightarrow>
     \<exists>a. runs s ps a \<and> item (last hops) ''sha256'' = Inr (JStr (''sha256:'' @ sha (art_bytes a)))"
proof (induction hops arbitrary: ps)
  case (Cons hop later)
  from Cons.prems(1) have hop: "check_hop sha (is_windows s) s hop later = Inr ()" and rest: "check_hops sha (is_windows s) s later = Inr u"
    by (auto simp: and_then_ok_iff)
  from Cons.prems(2) obtain p ps' where p: "text_at hop [''path''] = Inr p" and ps': "map_res (\<lambda>h. text_at h [''path'']) later = Inr ps'"
    and ps: "ps = p # ps'" by (auto simp: and_then_ok_iff)
  from hop p obtain a target where a: "guarded s p a" "next_path later = Inr target"
    "item hop ''sha256'' = Inr (JStr (''sha256:'' @ sha (art_bytes a)))"
    "case target of None \<Rightarrow> True | Some q \<Rightarrow> art_bytes a = forwarder_bytes q"
    by (elim check_hop_ok) auto
  show ?case
  proof (cases later)
    case Nil
    with a ps ps' show ?thesis by auto
  next
    case (Cons h hs)
    with ps' obtain q qs where q: "text_at h [''path''] = Inr q" "ps' = q # qs" by (auto simp: and_then_ok_iff)
    with a Cons have "art_bytes a = forwarder_bytes q" by (auto simp: next_path_def)
    with Cons.IH [OF rest ps'] a(1) Cons q ps show ?thesis by auto
  qed
qed simp

lemma check_chain_ok:
  assumes "check_chain sha (is_windows s) s dir command name chain = Inr u"
  shows "\<exists>ps a. distinct ps \<and> hd ps = dir @ ''/'' @ name @ (if is_windows s then ''.cmd'' else []) \<and> runs s ps a \<and>
     item command ''executable_sha256'' = Inr (JStr (sha (art_bytes a)))"
proof -
  from assms obtain ps where ps: "map_res (\<lambda>h. text_at h [''path'']) chain = Inr ps" and d: "distinct ps"
    unfolding check_chain_def by (auto simp: and_then_ok_iff)
  with assms have ne: "ps \<noteq> []" unfolding check_chain_def by (auto simp: and_then_ok_iff)
  from assms ps ne have hd: "hd ps = dir @ ''/'' @ name @ (if is_windows s then ''.cmd'' else [])"
    and hops: "check_hops sha (is_windows s) s chain = Inr ()"
    unfolding check_chain_def by (auto simp: and_then_ok_iff)
  from assms ps ne obtain digest where digest: "text_at (last chain) [''sha256''] = Inr digest"
    "item_is command [''executable_sha256''] (JStr (remove_prefix ''sha256:'' digest)) = Inr True"
    unfolding check_chain_def by (auto simp: and_then_ok_iff)
  have "chain \<noteq> []" using ps ne by auto
  from check_hops_ok [OF hops ps this] obtain a where a: "runs s ps a"
    "item (last chain) ''sha256'' = Inr (JStr (''sha256:'' @ sha (art_bytes a)))" by blast
  with digest have "item command ''executable_sha256'' = Inr (JStr (sha (art_bytes a)))"
    by (auto simp: text_at_ok_iff item_is_ok_iff and_then_ok_iff remove_prefix_def)
  with d hd a show ?thesis by blast
qed

lemma py_eq_strs: "py_eq_list vs (map JStr ss) \<longleftrightarrow> vs = map JStr ss"
proof (induction vs arbitrary: ss)
  case Nil
  show ?case by (cases ss) auto
next
  case (Cons v vs)
  then show ?case by (cases ss) auto
qed

lemma command_names_are:
  assumes "and_then (command_names doc) (\<lambda>ns. Inr (py_eq (JArr ns) (JArr (map JStr ss)))) = Inr True"
  obtains cs where "list_at doc [''commands''] = Inr cs" "list_all2 (\<lambda>c n. item c ''name'' = Inr (JStr n)) cs ss"
proof -
  from assms obtain cs where cs: "list_at doc [''commands''] = Inr cs" "map_res (\<lambda>c. item c ''name'') cs = Inr (map JStr ss)"
    by (auto simp: command_names_def and_then_ok_iff py_eq_strs)
  from map_res_ok_set [OF cs(2)] have "list_all2 (\<lambda>c n. item c ''name'' = Inr (JStr n)) cs ss"
    by (simp add: list.rel_map)
  with cs(1) that show thesis by blast
qed

lemma root_check_ok:
  assumes "root_check sha valid selected s = Inr u"
  obtains dir docs cs hops paths where "check_fragment valid s = Inr ()" "root_path s = Inr dir"
    "for_each (check_pin sha s) METADATA_KEYS = Inr ()"
    "read_documents valid s = Inr docs" "check_documents (is_windows s) dir s docs = Inr ()"
    "list_at (doc_receipt docs) [''commands''] = Inr cs" "inventory_chains docs = Inr hops"
    "chain_paths hops = Inr paths" "check_files (is_windows s) dir s paths = Inr ()"
    "for_each (\<lambda>(name, command, chain).
         if selected \<noteq> None \<and> selected \<noteq> Some name then Inr () else check_chain sha (is_windows s) s dir command name chain)
       (zip (names (trust s)) (zip cs hops)) = Inr ()"
proof -
  note w = is_windows_def [symmetric]
  from assms have frag: "check_fragment valid s = Inr ()" unfolding root_check_def Let_def by (auto simp: and_then_ok_iff)
  from assms obtain dir where dir: "root_path s = Inr dir" unfolding root_check_def Let_def by (auto simp: and_then_ok_iff)
  from assms dir have pins: "for_each (check_pin sha s) METADATA_KEYS = Inr ()" unfolding root_check_def Let_def
    by (auto simp only: and_then_ok_iff unit_eq)
  from assms obtain docs where docs: "read_documents valid s = Inr docs" unfolding root_check_def Let_def by (auto simp: and_then_ok_iff)
  from assms dir docs have cd: "check_documents (is_windows s) dir s docs = Inr ()" unfolding root_check_def Let_def w by (auto simp: and_then_ok_iff)
  from assms dir docs obtain cs where cs: "list_at (doc_receipt docs) [''commands''] = Inr cs" unfolding root_check_def Let_def by (auto simp: and_then_ok_iff)
  from assms dir docs obtain hops where hops: "inventory_chains docs = Inr hops" unfolding root_check_def Let_def by (auto simp: and_then_ok_iff)
  from assms dir docs hops obtain paths where paths: "chain_paths hops = Inr paths" unfolding root_check_def Let_def by (auto simp: and_then_ok_iff)
  from assms dir docs cs hops paths have last: "check_files (is_windows s) dir s paths = Inr ()"
    "for_each (\<lambda>(name, command, chain).
         if selected \<noteq> None \<and> selected \<noteq> Some name then Inr () else check_chain sha (is_windows s) s dir command name chain)
       (zip (names (trust s)) (zip cs hops)) = Inr ()"
    unfolding root_check_def Let_def w by (auto simp: and_then_ok_iff simp del: for_each_ok_iff)
  from that [OF frag dir pins docs cd cs hops paths last] show thesis .
qed

lemma root_check_names:
  assumes "check_documents w dir s docs = Inr u" "inventory_chains docs = Inr hops"
    "list_at (doc_receipt docs) [''commands''] = Inr cs"
  shows "list_all2 (\<lambda>c n. item c ''name'' = Inr (JStr n)) cs (names (trust s)) \<and> length hops = length (names (trust s))"
proof -
  from assms(1) have r: "and_then (command_names (doc_receipt docs)) (\<lambda>ns. Inr (py_eq (JArr ns) (JArr (map JStr (names (trust s)))))) = Inr True"
    and i: "and_then (command_names (doc_inventory docs)) (\<lambda>ns. Inr (py_eq (JArr ns) (JArr (map JStr (names (trust s)))))) = Inr True"
    unfolding check_documents_def Let_def by (auto simp only: and_then_ok_iff guard_ok_iff)
  from r assms(3) have "list_all2 (\<lambda>c n. item c ''name'' = Inr (JStr n)) cs (names (trust s))"
    by (elim command_names_are) simp
  moreover from i assms(2) have "length hops = length (names (trust s))"
    by (elim command_names_are) (auto simp: inventory_chains_def and_then_ok_iff dest!: map_res_ok_set list_all2_lengthD)
  ultimately show ?thesis by blast
qed

text \<open>A root that is accepted whole is accepted for each command.\<close>

lemma root_check_selected:
  assumes "root_check sha valid None s = Inr ()"
  shows "root_check sha valid (Some n) s = Inr ()"
proof -
  from assms show ?thesis
    unfolding root_check_def Let_def by (auto simp: and_then_ok_iff for_each_ok_iff) fastforce
qed

section \<open>Properties\<close>

text \<open>
  C33: an accepted command root runs what its receipt pins.  For each exported name, the receipt has
  a command of that name, and running its entry in the root follows forwarders through pairwise
  different files, each a single-linked regular file of the operator with owner-only protection
  under a trusted boundary, and ends at a file whose SHA-256 is the one the receipt pins.
\<close>

theorem root_accept_runs:
  assumes "root_check sha valid None s = Inr ()" and "n \<in> set (names (trust s))"
  shows "\<exists>dir docs cs c ps a. root_path s = Inr dir \<and> read_documents valid s = Inr docs \<and>
    list_at (doc_receipt docs) [''commands''] = Inr cs \<and> c \<in> set cs \<and> item c ''name'' = Inr (JStr n) \<and>
    distinct ps \<and> hd ps = dir @ ''/'' @ n @ (if is_windows s then ''.cmd'' else []) \<and> runs s ps a \<and>
    item c ''executable_sha256'' = Inr (JStr (sha (art_bytes a)))"
proof -
  obtain dir docs cs hops paths where d: "root_path s = Inr dir" "read_documents valid s = Inr docs"
    "check_documents (is_windows s) dir s docs = Inr ()" "list_at (doc_receipt docs) [''commands''] = Inr cs"
    "inventory_chains docs = Inr hops"
    and each: "for_each (\<lambda>(name, command, chain). if (None :: string option) \<noteq> None \<and> None \<noteq> Some name then Inr ()
         else check_chain sha (is_windows s) s dir command name chain) (zip (names (trust s)) (zip cs hops)) = Inr ()"
    using assms(1) by (rule root_check_ok) blast
  have len: "list_all2 (\<lambda>c n. item c ''name'' = Inr (JStr n)) cs (names (trust s))" "length hops = length (names (trust s))"
    using root_check_names [OF d(3,5,4)] by blast+
  from assms(2) obtain i where i: "i < length (names (trust s))" "names (trust s) ! i = n" by (auto simp: in_set_conv_nth)
  have lc: "length cs = length (names (trust s))" using len(1) by (rule list_all2_lengthD)
  have "(n, cs ! i, hops ! i) \<in> set (zip (names (trust s)) (zip cs hops))"
    using i lc len(2) by (auto simp: in_set_zip intro!: exI [of _ i])
  with each have "check_chain sha (is_windows s) s dir (cs ! i) n (hops ! i) = Inr ()"
    unfolding for_each_ok_iff by fastforce
  from check_chain_ok [OF this] obtain ps a where "distinct ps" "hd ps = dir @ ''/'' @ n @ (if is_windows s then ''.cmd'' else [])"
    "runs s ps a" "item (cs ! i) ''executable_sha256'' = Inr (JStr (sha (art_bytes a)))" by blast
  moreover have "item (cs ! i) ''name'' = Inr (JStr n)" "cs ! i \<in> set cs"
    using len(1) lc i list_all2_nthD [OF len(1), of i] by auto
  ultimately show ?thesis using d by blast
qed

text \<open>
  A transaction publishes all or nothing.  What is live afterwards is the staged state or the
  old one; an explicit repair goes live only with its inputs complete and unchanged, a new
  generation, the retained edge unchanged, and no unsettled session; the old state is preserved and
  the old generation stays as evidence.
\<close>

theorem transaction_all_or_nothing:
  assumes "transaction st = Inr r"
  shows "\<exists>old staged. item st ''before'' = Inr old \<and> item st ''staged'' = Inr staged \<and> preserved_old r = old \<and>
    live r = (if tx_outcome r \<in> {''complete-new'', ''fresh-generation-preserve-old''} then staged else old) \<and>
    (\<exists>g gs. item st ''old_generation'' = Inr g \<and> evidence_generations r = g # gs) \<and>
    (item st ''operation'' = Inr (JStr ''explicit-repair'') \<and> live r \<noteq> old \<longrightarrow>
       same_inputs staged old = Inr True \<and> truth_at st ''inputs'' = Inr True \<and>
       (\<exists>n g. item st ''new_generation'' = Inr n \<and> item st ''old_generation'' = Inr g \<and> \<not> py_eq n g) \<and>
       (\<exists>edge staged_edge. item st ''retained_edge'' = Inr edge \<and> item st ''staged_edge'' = Inr staged_edge \<and> py_eq staged_edge edge \<and>
         (item_is edge [''kind''] (JStr ''unknown-session'') = Inr True \<longrightarrow> session_settled st edge = Inr True)))"
proof -
  from assms obtain op old staged out0 where op: "item st ''operation'' = Inr op" and old: "item st ''before'' = Inr old"
    and staged: "item st ''staged'' = Inr staged" and out0: "first_outcome st (the_str op) old staged = Inr out0"
    unfolding transaction_def Let_def by (auto simp: and_then_ok_iff)
  with assms obtain out refused where out: "(if the_str op = ''explicit-repair'' then repair_outcome st out0 else Inr (out0, [])) = Inr (out, refused)"
    unfolding transaction_def Let_def by (auto simp: and_then_ok_iff)
  with assms op old staged out0 obtain edge g gens where r: "r = \<lparr>refusal = refused, tx_outcome = out,
      live = (if out \<in> {''complete-new'', ''fresh-generation-preserve-old''} then staged else old), retained_edge = edge,
      preserved_old = old, pending_journal = (out = ''refuse-preserve-journal''), evidence_generations = gens\<rparr>"
    and g: "item st ''old_generation'' = Inr g" and gens: "\<exists>gs. gens = g # gs"
    unfolding transaction_def Let_def by (auto simp: and_then_ok_iff split: if_splits)
  have repair: "same_inputs staged old = Inr True \<and> truth_at st ''inputs'' = Inr True \<and>
       (\<exists>n g. item st ''new_generation'' = Inr n \<and> item st ''old_generation'' = Inr g \<and> \<not> py_eq n g) \<and>
       (\<exists>edge staged_edge. item st ''retained_edge'' = Inr edge \<and> item st ''staged_edge'' = Inr staged_edge \<and> py_eq staged_edge edge \<and>
         (item_is edge [''kind''] (JStr ''unknown-session'') = Inr True \<longrightarrow> session_settled st edge = Inr True))"
    if e: "op = JStr ''explicit-repair''" and l: "live r \<noteq> old"
  proof -
    from l r have o: "out \<in> {''complete-new'', ''fresh-generation-preserve-old''}" by (auto split: if_splits)
    from e out0 have out0: "and_then (same_inputs staged old) (\<lambda>same.
        and_then (both [truth_at st ''inputs'', Inr same,
          and_then (item st ''new_generation'') (\<lambda>n. and_then (item st ''old_generation'') (\<lambda>g. Inr (\<not> py_eq n g)))]) (\<lambda>fresh.
        Inr (if fresh then ''fresh-generation-preserve-old'' else ''refuse-unchanged''))) = Inr out0"
      by (simp add: first_outcome_def)
    from e out o have rep: "repair_outcome st out0 = Inr (out, refused)" by simp
    with o have "out = out0" and edges: "\<exists>edge staged_edge. item st ''retained_edge'' = Inr edge \<and>
         item st ''staged_edge'' = Inr staged_edge \<and> py_eq staged_edge edge \<and>
         (item_is edge [''kind''] (JStr ''unknown-session'') = Inr True \<longrightarrow> session_settled st edge = Inr True)"
      unfolding repair_outcome_def by (auto simp: and_then_ok_iff split: if_splits)
    with o out0 have "same_inputs staged old = Inr True" "both [truth_at st ''inputs'', Inr True,
          and_then (item st ''new_generation'') (\<lambda>n. and_then (item st ''old_generation'') (\<lambda>g. Inr (\<not> py_eq n g)))] = Inr True"
      by (auto simp: and_then_ok_iff simp del: both.simps split: if_splits)
        (auto split: if_splits simp: and_then_ok_iff)
    then show ?thesis using edges unfolding both_ok_iff by (auto simp: and_then_ok_iff)
  qed
  have "preserved_old r = old" "live r = (if tx_outcome r \<in> {''complete-new'', ''fresh-generation-preserve-old''} then staged else old)"
    "evidence_generations r = gens" by (simp_all add: r)
  then show ?thesis using old staged g gens repair op by auto
qed

section \<open>Two accepted roots\<close>

text \<open>
  A digest and a schema verdict for the examples: three digests, and every document valid.  The two
  roots have a generation, a program text and its digest each.
\<close>

definition sample_sha :: "string \<Rightarrow> string" where
  "sample_sha t = (if t = ''new'' then ''e'' else if t = ''2'' then ''f'' else ''d'')"

definition any_valid :: "string \<Rightarrow> json \<Rightarrow> bool" where
  "any_valid _ _ = True"

definition sample_dir :: "string \<Rightarrow> string" where
  "sample_dir g = ''/m/environments/w/commands/'' @ g @ ''/linux-amd64/bin''"

definition sample_base :: "string \<Rightarrow> dict" where
  "sample_base g = [(''lock_sha256'', JStr ''d''), (''plan_sha256'', JStr ''d''), (''generation'', JStr g),
     (''platform'', JStr ''linux-amd64''), (''inventory_sha256'', JStr ''d'')]"

definition sample_hop :: "string \<Rightarrow> string \<Rightarrow> json \<Rightarrow> string \<Rightarrow> json" where
  "sample_hop p kind target digest = JObj [(''path'', JStr p), (''kind'', JStr kind), (''target'', target),
     (''sha256'', JStr (''sha256:'' @ digest)), (''metadata'', metadata False ''u'' ''fs'' ''o'' JNull (JInt 320))]"

definition sample_command :: "string \<Rightarrow> json" where
  "sample_command digest = JObj [(''name'', JStr ''a2a''), (''executable_sha256'', JStr digest)]"

definition sample_chain :: "string \<Rightarrow> string \<Rightarrow> json list" where
  "sample_chain g digest = [sample_hop (sample_dir g @ ''/a2a'') ''forwarder'' (JStr ''/m/tools/run'') ''d'',
     sample_hop ''/m/tools/run'' ''executable'' JNull digest]"

definition sample_doc :: "string \<Rightarrow> string \<Rightarrow> string \<Rightarrow> json" where
  "sample_doc g digest k =
     (if k = ''marker'' then JObj [(''binding'', JObj (sample_base g)), (''profile'', JStr ''w''), (''receipt_sha256'', JStr ''d'')]
      else if k = ''receipt'' then JObj [(''binding'', JObj (sample_base g)), (''profile'', JStr ''w''),
        (''commands'', JArr [sample_command digest])]
      else JObj [(''root'', JObj [(''path'', JStr (sample_dir g)), (''metadata'', metadata False ''u'' ''fs'' ''r'' JNull (JInt 448))]),
        (''commands'', JArr [JObj [(''name'', JStr ''a2a''), (''chain'', JArr (sample_chain g digest))]])])"

definition sample_docs :: "string \<Rightarrow> string \<Rightarrow> string \<Rightarrow> string" where
  "sample_docs g digest k = json_text (sample_doc g digest k)"

definition sample_file :: "string \<Rightarrow> artifact" where
  "sample_file bytes = \<lparr>art_kind = ''regular'', art_links = 1, art_bytes = bytes, art_size = int (length bytes), art_format = ''script'',
     art_owner = ''u'', art_filesystem = ''fs'', art_object = ''o'', art_mode = Some 320, art_dacl = None\<rparr>"

definition sample_state :: "string \<Rightarrow> string \<Rightarrow> string \<Rightarrow> root_state" where
  "sample_state g digest bytes =
     (let b = JObj (sample_base g @ [(''receipt_sha256'', JStr ''d''), (''marker_sha256'', JStr ''d'')]) in
     \<lparr>fragment = JObj [(''profile'', JObj [(''name'', JStr ''w''), (''lock_sha256'', JStr ''d'')]),
        (''path_prepend'', JStr (sample_dir g)), (''command_root'', b)],
      trust = \<lparr>manager = ''/m'', profile = ''w'', names = [''a2a''], exports = [''a2a''], operator = ''u'', platform = ''linux-amd64'',
        private_dacl = [], boundaries = [''/m/tools'', sample_dir g], trusted_binding = b, trusted_docs = sample_docs g digest\<rparr>,
      observation = \<lparr>root_kind = ''directory'', root_owner = ''u'', root_filesystem = ''fs'', root_object = ''r'', root_mode = Some 448,
        root_dacl = None, files = [(sample_dir g @ ''/a2a'', sample_file (forwarder_bytes ''/m/tools/run'')), (''/m/tools/run'', sample_file bytes)],
        observed_docs = sample_docs g digest\<rparr>\<rparr>)"

lemma sample_unique: "unique_keys (sample_doc g digest k)"
  by (simp add: sample_doc_def sample_base_def sample_hop_def sample_chain_def sample_command_def metadata_def)

lemma parse_metadata_text: "unique_keys v \<Longrightarrow> parse_metadata (json_text v) = Inr (canon v)"
proof -
  have f: "faithful (\<lambda>_. True) metadata_hooks"
    by (simp add: faithful_def metadata_hooks_def strict_pairs_def object_pairs_def)
  show "unique_keys v \<Longrightarrow> ?thesis" using loads_text [OF f] by (simp add: parse_metadata_def all_ints_True)
qed

definition sample_read :: "string \<Rightarrow> string \<Rightarrow> root_documents" where
  "sample_read g digest = \<lparr>doc_marker = canon (sample_doc g digest ''marker''), doc_receipt = canon (sample_doc g digest ''receipt''),
     doc_inventory = canon (sample_doc g digest ''inventory'')\<rparr>"

lemma sample_read: "read_documents any_valid (sample_state g digest bytes) = Inr (sample_read g digest)"
  by (simp add: read_documents_def METADATA_KEYS_def sample_state_def any_valid_def require.simps sample_read_def Let_def
      sample_docs_def parse_metadata_text sample_unique)

lemma sample_doc_sizes:
  assumes "length g \<le> 9" "length digest \<le> 9"
  shows "length (utf8 (sample_docs g digest k)) \<le> 1048576"
proof -
  have "length (int_text 448) = 3" "length (int_text 320) = 3" by code_simp+
  then have "text_bound (sample_doc g digest k) \<le> 524288"
    using assms by (simp add: sample_doc_def sample_base_def sample_hop_def sample_chain_def sample_command_def metadata_def sample_dir_def)
  with utf8_text_bound [of "sample_doc g digest k"] show ?thesis by (simp add: sample_docs_def)
qed

text \<open>No document of the examples has the text of a program or a number.\<close>

lemma sample_docs_digest: "sample_sha (sample_docs g digest k) = ''d''"
  by (simp add: sample_sha_def sample_docs_def sample_doc_def)

lemma sample_pins:
  assumes "length g \<le> 9" "length digest \<le> 9"
  shows "for_each (check_pin sample_sha (sample_state g digest bytes)) METADATA_KEYS = Inr ()"
  using sample_doc_sizes [OF assms] sample_docs_digest
  by (simp add: check_pin_def METADATA_KEYS_def sample_state_def Let_def item_is_def item_def sample_base_def)

definition sample_root :: root_state where
  "sample_root = sample_state ''g'' ''d'' ''native''"

definition sample_next :: root_state where
  "sample_next = sample_state ''h'' ''e'' ''new''"

lemma sample_root_names: "names (trust sample_root) = [''a2a'']" "names (trust sample_next) = [''a2a'']"
  by (simp_all add: sample_root_def sample_next_def sample_state_def Let_def)

text \<open>A root is accepted when the parts that do not read texts are.\<close>

lemma sample_accepted:
  assumes "length g \<le> 9" "length digest \<le> 9" "check_fragment any_valid (sample_state g digest bytes) = Inr ()"
    and "root_path (sample_state g digest bytes) = Inr (sample_dir g)"
    and "check_root_object False (sample_dir g) (sample_state g digest bytes) = Inr ()"
    and "check_documents False (sample_dir g) (sample_state g digest bytes) (sample_read g digest) = Inr ()"
    and "check_files False (sample_dir g) (sample_state g digest bytes) [sample_dir g @ ''/a2a'', ''/m/tools/run''] = Inr ()"
    and "list_at (doc_receipt (sample_read g digest)) [''commands''] = Inr [canon (sample_command digest)]"
    and "inventory_chains (sample_read g digest) = Inr [map canon (sample_chain g digest)]"
    and "chain_paths [map canon (sample_chain g digest)] = Inr [sample_dir g @ ''/a2a'', ''/m/tools/run'']"
    and "check_chain sample_sha False (sample_state g digest bytes) (sample_dir g) (canon (sample_command digest)) ''a2a''
      (map canon (sample_chain g digest)) = Inr ()"
  shows "root_check sample_sha any_valid None (sample_state g digest bytes) = Inr ()"
proof -
  have "prefix ''windows-'' (platform (trust (sample_state g digest bytes))) = False" "names (trust (sample_state g digest bytes)) = [''a2a'']"
    by (simp_all add: sample_state_def Let_def)
  then show ?thesis
    unfolding root_check_def Let_def
    using assms by (simp add: sample_pins sample_read del: for_each_ok_iff map_res.simps list.map canon.simps)
qed

lemma sample_root_accepted: "root_check sample_sha any_valid None sample_root = Inr ()"
  unfolding sample_root_def by (rule sample_accepted; code_simp)

lemma sample_next_accepted: "root_check sample_sha any_valid None sample_next = Inr ()"
  unfolding sample_next_def by (rule sample_accepted; code_simp)

theorem root_accept_runs_witness:
  "\<exists>ps a. hd ps = ''/m/environments/w/commands/g/linux-amd64/bin/a2a'' \<and> distinct ps \<and> runs sample_root ps a"
proof -
  have "''a2a'' \<in> set (names (trust sample_root))" by (simp add: sample_root_names)
  from root_accept_runs [OF sample_root_accepted this] obtain dir ps a where d: "root_path sample_root = Inr dir"
    and ps: "hd ps = dir @ ''/'' @ ''a2a'' @ (if is_windows sample_root then ''.cmd'' else [])" "distinct ps" "runs sample_root ps a"
    by blast
  have "root_path sample_root = Inr (sample_dir ''g'')" "\<not> is_windows sample_root" by code_simp+
  with d ps show ?thesis by (auto simp: sample_dir_def)
qed

definition sample_repair :: json where
  "sample_repair = JObj [(''operation'', JStr ''explicit-repair''), (''inputs'', JBool True),
     (''before'', JObj (map (\<lambda>k. (k, JStr ''x'')) (''root'' # REPAIR_INPUTS))),
     (''staged'', JObj ((''root'', JStr ''fresh'') # map (\<lambda>k. (k, JStr ''x'')) REPAIR_INPUTS)),
     (''old_generation'', JStr ''g1''), (''new_generation'', JStr ''g2''),
     (''retained_edge'', JObj [(''kind'', JStr ''unknown-session''), (''revision'', JInt 3)]),
     (''staged_edge'', JObj [(''kind'', JStr ''unknown-session''), (''revision'', JInt 3)]),
     (''observer_confirmed'', JBool True), (''descendants_quiescent'', JBool True)]"

theorem transaction_all_or_nothing_witness:
  "\<exists>r old. transaction sample_repair = Inr r \<and> live r \<noteq> old \<and> preserved_old r = old \<and>
     session_settled sample_repair (retained_edge r) = Inr True"
proof -
  have "case transaction sample_repair of Inr r \<Rightarrow> live r \<noteq> preserved_old r \<and>
      session_settled sample_repair (retained_edge r) = Inr True | _ \<Rightarrow> False" by code_simp
  then obtain r where r: "transaction sample_repair = Inr r" "live r \<noteq> preserved_old r"
    "session_settled sample_repair (retained_edge r) = Inr True" by (auto split: sum.splits)
  from transaction_all_or_nothing [OF r(1)] r show ?thesis by blast
qed

end
