(* ===== verification/HookModel.thy ===== *)
theory HookModel
  imports CommandRoots Machines "HOL-Library.AList"
begin

text \<open>
  The hook reference machine (\<open>HookModel\<close> and \<open>hook_upgrade\<close> of
  \<open>tools/profile_command_roots.py\<close>): roots by generation, references retained for a settings
  resource and a generation, their activation, rollback, release and collection.  Each method is a
  definition on the state record; a method that raises leaves the caller with the failure, and the
  Python object is not used after one.  Dictionaries are association lists in insertion order.
\<close>

section \<open>State\<close>

record hook_state =
  roots :: "(string \<times> root_state) list"
  current :: string
  refs :: "(string \<times> string \<times> string) list"
  requests :: "(string \<times> (string \<times> string) \<times> string) list"
  terminal :: "string list"
  active :: "(string \<times> string) list"
  rollback :: "string list"
  serial :: nat
  revisions :: "(string \<times> int) list"
  release_revisions :: "(string \<times> int) list"

text \<open>The keys and the values of a dictionary.\<close>

definition keys :: "('k \<times> 'v) list \<Rightarrow> 'k set" where
  "keys d = fst ` set d"

definition vals :: "('k \<times> 'v) list \<Rightarrow> 'v set" where
  "vals d = snd ` set d"

definition generation_of :: "root_state \<Rightarrow> string res" where
  "generation_of rt = text_at (fragment rt) [''command_root'', ''generation'']"

definition hook_init :: "root_state \<Rightarrow> hook_state res" where
  "hook_init rt =
     and_then (generation_of rt) (\<lambda>g.
     Inr \<lparr>roots = [(g, rt)], current = g, refs = [], requests = [], terminal = [], active = [], rollback = [],
       serial = 0, revisions = [], release_revisions = []\<rparr>)"

text \<open>\<open>decision(...)[0] == 'accept'\<close>.\<close>

definition accepted :: "unit res \<Rightarrow> bool res" where
  "accepted checked = and_then (decision checked) (\<lambda>(code, _). Inr (code = ''accept''))"

section \<open>Methods\<close>

definition hook_install :: "(string \<Rightarrow> string) \<Rightarrow> (string \<Rightarrow> json \<Rightarrow> bool) \<Rightarrow> root_state \<Rightarrow> hook_state \<Rightarrow> hook_state res" where
  "hook_install sha valid rt s =
     and_then (demand_res (accepted (root_check sha valid None rt)) ''hook-root'') (\<lambda>_.
     and_then (generation_of rt) (\<lambda>g.
     Inr (s\<lparr>current := g, roots := AList.update g rt (roots s)\<rparr>)))"

definition hook_retain :: "(string \<Rightarrow> string) \<Rightarrow> string \<Rightarrow> string \<Rightarrow> hook_state \<Rightarrow> (hook_state \<times> string) res" where
  "hook_retain sha resource request s =
     (let key = (resource, current s) in
      case map_of (requests s) request of
        Some (k, i) \<Rightarrow> and_then (demand (k = key) ''request-conflict'') (\<lambda>_. Inr (s, i))
      | None \<Rightarrow>
          and_then (demand (length (requests s) < 4096) ''reference-cap'') (\<lambda>_.
          let existing = map_option fst (List.find (\<lambda>(_, r). r = key) (refs s)) in
          and_then (demand (existing \<noteq> None \<or> length (refs s) < 256) ''reference-cap'') (\<lambda>_.
          case existing of
            Some i \<Rightarrow> Inr (s\<lparr>requests := AList.update request (key, i) (requests s)\<rparr>, i)
          | None \<Rightarrow>
              let n = serial s + 1; i = sha (nat_text n) in
              Inr (s\<lparr>serial := n, refs := AList.update i key (refs s), revisions := AList.update i 1 (revisions s),
                requests := AList.update request (key, i) (requests s)\<rparr>, i))))"

definition hook_list :: "hook_state \<Rightarrow> string list" where
  "hook_list s = sort (remdups (map fst (refs s) @ terminal s))"

text \<open>\<open>self.revisions[i] += 1\<close>.\<close>

definition bump :: "string \<Rightarrow> hook_state \<Rightarrow> hook_state res" where
  "bump i s = and_then (present (map_of (revisions s) i) i) (\<lambda>r. Inr (s\<lparr>revisions := AList.update i (r + 1) (revisions s)\<rparr>))"

definition hook_activate :: "string \<Rightarrow> bool \<Rightarrow> int \<Rightarrow> hook_state \<Rightarrow> hook_state res" where
  "hook_activate i settings_proved if_revision s =
     (case map_of (refs s) i of
        None \<Rightarrow> Inl (Refusal ''settings-unconfirmed'')
      | Some (resource, _) \<Rightarrow>
          and_then (demand settings_proved ''settings-unconfirmed'') (\<lambda>_.
          and_then (present (map_of (revisions s) i) i) (\<lambda>r.
          and_then (demand (r = if_revision) ''revision-conflict'') (\<lambda>_.
          and_then
            (case map_of (active s) resource of
               None \<Rightarrow> Inr s
             | Some previous \<Rightarrow>
                 if previous = i then Inr s else bump previous (s\<lparr>rollback := List.insert previous (rollback s)\<rparr>)) (\<lambda>t.
          bump i (t\<lparr>rollback := filter (\<lambda>x. x \<noteq> i) (rollback t), active := AList.update resource i (active t)\<rparr>))))))"

definition hook_release :: "string \<Rightarrow> bool \<Rightarrow> int \<Rightarrow> hook_state \<Rightarrow> hook_state res" where
  "hook_release i settings_removed if_revision s =
     and_then (demand (settings_removed \<and> i \<notin> vals (active s)) ''settings-unconfirmed'') (\<lambda>_.
     if i \<in> set (terminal s) then
       and_then (present (map_of (release_revisions s) i) i) (\<lambda>r.
       and_then (demand (r = if_revision) ''revision-conflict'') (\<lambda>_. Inr s))
     else
       and_then (demand (map_of (revisions s) i = Some if_revision) ''revision-conflict'') (\<lambda>_.
       let t = s\<lparr>rollback := filter (\<lambda>x. x \<noteq> i) (rollback s)\<rparr> in
       if i \<in> keys (refs s) then
         bump i (t\<lparr>release_revisions := AList.update i if_revision (release_revisions s),
           terminal := List.insert i (terminal s), refs := filter (\<lambda>(x, _). x \<noteq> i) (refs s)\<rparr>)
       else Inr t))"

definition hook_restore :: "string \<Rightarrow> bool \<Rightarrow> int \<Rightarrow> hook_state \<Rightarrow> hook_state res" where
  "hook_restore i settings_proved if_revision s =
     and_then (demand (i \<in> set (rollback s)) ''rollback-missing'') (\<lambda>_. hook_activate i settings_proved if_revision s)"

definition hook_gc :: "hook_state \<Rightarrow> hook_state" where
  "hook_gc s = s\<lparr>roots := filter (\<lambda>(g, _). g = current s \<or> list_ex (\<lambda>(_, _, h). h = g) (refs s)) (roots s)\<rparr>"

definition hook_invoke :: "(string \<Rightarrow> string) \<Rightarrow> (string \<Rightarrow> json \<Rightarrow> bool) \<Rightarrow> string \<Rightarrow> hook_state \<Rightarrow> string res" where
  "hook_invoke sha valid resource s =
     (case map_of (active s) resource of
        None \<Rightarrow> Inl (Refusal ''reference-missing'')
      | Some i \<Rightarrow>
          (case map_of (refs s) i of
             None \<Rightarrow> Inl (Refusal ''reference-missing'')
           | Some (_, g) \<Rightarrow>
               (case map_of (roots s) g of
                  None \<Rightarrow> Inl (Refusal ''root-missing'')
                | Some rt \<Rightarrow>
                    and_then (demand_res (accepted (hook_check sha valid ''a2a'' rt)) ''hook-root'') (\<lambda>_. Inr g))))"

section \<open>The machine\<close>

datatype hook_action =
    Install root_state
  | Retain string string
  | ListAll
  | Activate string bool int
  | Release string bool int
  | Restore string bool int
  | Collect
  | Invoke string

datatype hook_answer = Done | Reference string | Listed "string list" | Generation string

fun hook_step :: "(string \<Rightarrow> string) \<Rightarrow> (string \<Rightarrow> json \<Rightarrow> bool) \<Rightarrow> hook_state \<Rightarrow> hook_action \<Rightarrow> (hook_state \<times> hook_answer) res" where
  "hook_step sha valid s (Install rt) = and_then (hook_install sha valid rt s) (\<lambda>t. Inr (t, Done))"
| "hook_step sha valid s (Retain resource request) = and_then (hook_retain sha resource request s) (\<lambda>(t, i). Inr (t, Reference i))"
| "hook_step sha valid s ListAll = Inr (s, Listed (hook_list s))"
| "hook_step sha valid s (Activate i proved r) = and_then (hook_activate i proved r s) (\<lambda>t. Inr (t, Done))"
| "hook_step sha valid s (Release i removed r) = and_then (hook_release i removed r s) (\<lambda>t. Inr (t, Done))"
| "hook_step sha valid s (Restore i proved r) = and_then (hook_restore i proved r s) (\<lambda>t. Inr (t, Done))"
| "hook_step sha valid s Collect = Inr (hook_gc s, Done)"
| "hook_step sha valid s (Invoke resource) = and_then (hook_invoke sha valid resource s) (\<lambda>g. Inr (s, Generation g))"

section \<open>Invariant\<close>

definition hook_good :: "(string \<Rightarrow> string) \<Rightarrow> (string \<Rightarrow> json \<Rightarrow> bool) \<Rightarrow> hook_state \<Rightarrow> bool" where
  "hook_good sha valid s \<longleftrightarrow>
     current s \<in> keys (roots s) \<and> (\<forall>(i, r, g) \<in> set (refs s). g \<in> keys (roots s)) \<and>
     (\<forall>(g, rt) \<in> set (roots s). root_check sha valid None rt = Inr ()) \<and>
     keys (refs s) \<subseteq> keys (revisions s) \<and> vals (active s) \<subseteq> keys (refs s) \<and>
     set (rollback s) \<subseteq> keys (refs s) \<and> set (terminal s) \<subseteq> keys (release_revisions s) \<and>
     length (refs s) \<le> 256 \<and> length (requests s) \<le> 4096"

text \<open>Requests keep their answer, released references stay listed, serial numbers grow.\<close>

definition hook_grows :: "hook_state \<Rightarrow> hook_state \<Rightarrow> bool" where
  "hook_grows s t \<longleftrightarrow> (\<forall>q a. map_of (requests s) q = Some a \<longrightarrow> map_of (requests t) q = Some a) \<and>
     set (terminal s) \<subseteq> set (terminal t) \<and> serial s \<le> serial t"

lemma set_update_subset: "p \<in> set (AList.update k v al) \<Longrightarrow> p = (k, v) \<or> p \<in> set al"
  by (induction al) (auto split: if_splits)

lemma keys_update [simp]: "keys (AList.update k v al) = insert k (keys al)"
  using dom_update [of k v al] by (simp add: keys_def)

lemma vals_update: "vals (AList.update k v al) \<subseteq> insert v (vals al)"
  by (force simp: vals_def dest!: set_update_subset)

lemma keys_filter [simp]: "keys (filter (\<lambda>(x, _). P x) al) = {x \<in> keys al. P x}"
  by (force simp: keys_def)

lemma map_of_keys: "map_of al k = Some v \<Longrightarrow> k \<in> keys al \<and> v \<in> vals al"
  by (force simp: keys_def vals_def dest: map_of_SomeD)

lemma keys_map_of: "k \<in> keys al \<Longrightarrow> \<exists>v. map_of al k = Some v"
  by (simp add: keys_def weak_map_of_SomeI image_iff map_of_eq_None_iff flip: not_None_eq)

lemma length_update: "length (AList.update k v al) \<le> Suc (length al)"
  by (induction al) auto

lemma accepted_ok: "accepted c = Inr True \<longleftrightarrow> c = Inr ()"
  by (cases c) (auto simp: accepted_def decision_def refusal_code_def split: failure.splits if_splits)

lemma bump_ok: "bump i s = Inr t \<longleftrightarrow> (\<exists>r. map_of (revisions s) i = Some r \<and> t = s\<lparr>revisions := AList.update i (r + 1) (revisions s)\<rparr>)"
  by (auto simp: bump_def present_def and_then_ok_iff split: option.splits)

lemma install_good:
  assumes "hook_good sha valid s" "hook_install sha valid rt s = Inr t"
  shows "hook_good sha valid t \<and> hook_grows s t"
proof -
  from assms(2) obtain g where ok: "root_check sha valid None rt = Inr ()"
    and t: "t = s\<lparr>current := g, roots := AList.update g rt (roots s)\<rparr>"
    by (auto simp: hook_install_def and_then_ok_iff accepted_ok)
  have "\<forall>(g', r) \<in> set (AList.update g rt (roots s)). root_check sha valid None r = Inr ()"
    using assms(1) ok by (auto simp: hook_good_def dest!: set_update_subset)
  then show ?thesis using assms(1) by (auto simp: t hook_good_def hook_grows_def keys_update)
qed

lemma retain_good:
  assumes "hook_good sha valid s" "hook_retain sha resource request s = Inr (t, i)"
  shows "hook_good sha valid t \<and> hook_grows s t \<and> map_of (requests t) request = Some ((resource, current s), i)"
proof (cases "map_of (requests s) request")
  case (Some a)
  with assms show ?thesis by (cases a) (auto simp: hook_retain_def Let_def and_then_ok_iff hook_grows_def)
next
  case None
  with assms(2) have few: "length (requests s) < 4096" by (auto simp: hook_retain_def Let_def and_then_ok_iff)
  have grow: "map_of (AList.update request a (requests s)) q = Some b" if "map_of (requests s) q = Some b" for a b q
    using that None by (auto simp: update_conv')
  have req: "length (AList.update request a (requests s)) \<le> 4096" for a
    using length_update [of request a "requests s"] few by simp
  show ?thesis
  proof (cases "List.find (\<lambda>(_, r). r = (resource, current s)) (refs s)")
    case (Some p)
    with None assms(2) have t: "t = s\<lparr>requests := AList.update request ((resource, current s), i) (requests s)\<rparr>"
      by (auto simp: hook_retain_def Let_def and_then_ok_iff)
    show ?thesis using assms(1) grow req by (auto simp: t hook_good_def hook_grows_def update_conv')
  next
    case new: None
    with None assms(2) have t: "t = s\<lparr>serial := serial s + 1, refs := AList.update i (resource, current s) (refs s),
        revisions := AList.update i 1 (revisions s), requests := AList.update request ((resource, current s), i) (requests s)\<rparr>"
      and few: "length (refs s) < 256"
      by (auto simp: hook_retain_def Let_def and_then_ok_iff)
    have "length (AList.update i (resource, current s) (refs s)) \<le> 256"
      using length_update [of i "(resource, current s)" "refs s"] few by simp
    moreover have "\<forall>(j, r, g) \<in> set (AList.update i (resource, current s) (refs s)). g \<in> keys (roots s)"
      using assms(1) by (auto simp: hook_good_def dest!: set_update_subset)
    ultimately show ?thesis using assms(1) grow req
      by (auto simp: t hook_good_def hook_grows_def update_conv' keys_update)
  qed
qed

lemma bump_good:
  "hook_good sha valid s \<Longrightarrow> bump i s = Inr t \<Longrightarrow> hook_good sha valid t \<and> hook_grows s t"
  by (auto simp: bump_ok hook_good_def hook_grows_def keys_update)

lemma hook_grows_refl [simp]: "hook_grows s s"
  by (simp add: hook_grows_def)

lemma hook_grows_trans: "hook_grows s t \<Longrightarrow> hook_grows t u \<Longrightarrow> hook_grows s u"
  unfolding hook_grows_def by (meson order_trans)

lemma activate_good:
  assumes good: "hook_good sha valid s" and "hook_activate i proved r s = Inr t"
  shows "hook_good sha valid t \<and> hook_grows s t"
proof -
  from assms(2) obtain resource g where ref: "map_of (refs s) i = Some (resource, g)"
    by (auto simp: hook_activate_def split: option.splits)
  let ?switch = "case map_of (active s) resource of None \<Rightarrow> Inr s
     | Some previous \<Rightarrow> if previous = i then Inr s else bump previous (s\<lparr>rollback := List.insert previous (rollback s)\<rparr>)"
  from assms(2) ref obtain u where u: "?switch = Inr u"
    and t: "bump i (u\<lparr>rollback := filter (\<lambda>x. x \<noteq> i) (rollback u), active := AList.update resource i (active u)\<rparr>) = Inr t"
    by (auto simp: hook_activate_def and_then_ok_iff)
  have prev: "hook_good sha valid (s\<lparr>rollback := List.insert p (rollback s)\<rparr>)" if "map_of (active s) resource = Some p" for p
    using good map_of_keys [OF that] by (auto simp: hook_good_def)
  have grow: "hook_grows s (s\<lparr>rollback := List.insert p (rollback s)\<rparr>)" for p by (simp add: hook_grows_def)
  have u_good: "hook_good sha valid u \<and> hook_grows s u"
  proof (cases "map_of (active s) resource")
    case None
    with u good show ?thesis by simp
  next
    case (Some p)
    show ?thesis
    proof (cases "p = i")
      case True
      with u Some good show ?thesis by simp
    next
      case False
      with u Some have "bump p (s\<lparr>rollback := List.insert p (rollback s)\<rparr>) = Inr u" by simp
      then show ?thesis using bump_good [OF prev [OF Some]] grow hook_grows_trans by blast
    qed
  qed
  have same: "refs u = refs s"
  proof -
    have "bump p v = Inr w \<Longrightarrow> refs w = refs v" for p v w by (auto simp: bump_ok)
    then show ?thesis using u by (fastforce split: option.splits if_splits)
  qed
  have "i \<in> keys (refs u)" unfolding same using map_of_keys [OF ref] by blast
  then have "hook_good sha valid (u\<lparr>rollback := filter (\<lambda>x. x \<noteq> i) (rollback u), active := AList.update resource i (active u)\<rparr>)"
    using u_good vals_update [of resource i "active u"] by (auto simp: hook_good_def)
  moreover have "hook_grows u (u\<lparr>rollback := filter (\<lambda>x. x \<noteq> i) (rollback u), active := AList.update resource i (active u)\<rparr>)"
    by (simp add: hook_grows_def)
  ultimately show ?thesis using bump_good t u_good hook_grows_trans by blast
qed

lemma release_good:
  assumes good: "hook_good sha valid s" and "hook_release i removed r s = Inr t"
  shows "hook_good sha valid t \<and> hook_grows s t"
proof (cases "i \<in> set (terminal s) \<or> i \<notin> keys (refs s)")
  case True
  with assms show ?thesis
    by (auto simp: hook_release_def and_then_ok_iff Let_def hook_good_def hook_grows_def present_def split: if_splits option.splits)
next
  case False
  let ?u = "s\<lparr>rollback := filter (\<lambda>x. x \<noteq> i) (rollback s), release_revisions := AList.update i r (release_revisions s),
      terminal := List.insert i (terminal s), refs := filter (\<lambda>(x, _). x \<noteq> i) (refs s)\<rparr>"
  from False assms(2) have b: "bump i ?u = Inr t" and na: "i \<notin> vals (active s)"
    by (auto simp: hook_release_def and_then_ok_iff Let_def)
  have "hook_good sha valid ?u"
    unfolding hook_good_def
  proof (intro conjI)
    show "vals (active ?u) \<subseteq> keys (refs ?u)"
      using good na by (auto simp: hook_good_def)
    show "set (rollback ?u) \<subseteq> keys (refs ?u)"
      using good by (auto simp: hook_good_def)
    show "length (refs ?u) \<le> 256"
      using good le_trans [OF length_filter_le] by (auto simp: hook_good_def)
  qed (use good in \<open>auto simp: hook_good_def\<close>)
  moreover have "hook_grows s ?u" by (auto simp: hook_grows_def)
  ultimately show ?thesis using bump_good b hook_grows_trans by blast
qed

lemma gc_good: "hook_good sha valid s \<Longrightarrow> hook_good sha valid (hook_gc s) \<and> hook_grows s (hook_gc s)"
  by (fastforce simp: hook_good_def hook_gc_def hook_grows_def list_ex_iff)

lemma hook_step_good:
  "hook_good sha valid s \<Longrightarrow> hook_step sha valid s a = Inr (t, out) \<Longrightarrow> hook_good sha valid t \<and> hook_grows s t"
proof (cases a)
  case (Restore i proved r)
  then show "hook_good sha valid s \<Longrightarrow> hook_step sha valid s a = Inr (t, out) \<Longrightarrow> ?thesis"
    using activate_good by (auto simp: hook_restore_def and_then_ok_iff)
next
  case (Retain resource request)
  then show "hook_good sha valid s \<Longrightarrow> hook_step sha valid s a = Inr (t, out) \<Longrightarrow> ?thesis"
    using retain_good by (auto simp: and_then_pair_ok_iff)
qed (auto simp: and_then_ok_iff gc_good dest: install_good activate_good release_good)

interpretation hooks: rising_machine "hook_step sha valid" "hook_good sha valid" hook_grows for sha valid
proof
  show "hook_good sha valid s \<Longrightarrow> hook_step sha valid s a = Inr (t, out) \<Longrightarrow> hook_good sha valid t" for s a t out
    using hook_step_good by blast
  show "hook_grows s s" for s by simp
  show "hook_grows s t \<Longrightarrow> hook_grows t u \<Longrightarrow> hook_grows s u" for s t u by (rule hook_grows_trans)
  show "hook_good sha valid s \<Longrightarrow> hook_step sha valid s a = Inr (t, out) \<Longrightarrow> hook_grows s t" for s a t out
    using hook_step_good by blast
qed

section \<open>The upgrade scenario\<close>

definition first_executable :: "root_state \<Rightarrow> json res" where
  "first_executable s =
     and_then (json_loads default_hooks (trusted_docs (trust s) ''receipt'')) (\<lambda>receipt.
     and_then (list_at receipt [''commands'']) (\<lambda>cs.
     if cs = [] then Inl IndexError else item (hd cs) ''executable_sha256''))"

text \<open>The requirements on the pair of states, before the machine runs.\<close>

definition upgrade_pair :: "(string \<Rightarrow> string) \<Rightarrow> (string \<Rightarrow> json \<Rightarrow> bool) \<Rightarrow> root_state list \<Rightarrow> (string \<times> string) res" where
  "upgrade_pair sha valid states =
     and_then (demand (length states = 2) ''hook-pair'') (\<lambda>_.
     and_then (for_each (\<lambda>s. demand_res (accepted (root_check sha valid None s)) ''hook-root'') states) (\<lambda>_.
     let old = states ! 0; new = states ! 1 in
     and_then (demand (profile (trust old) = profile (trust new)) ''hook-profile'') (\<lambda>_.
     and_then (generation_of old) (\<lambda>g. and_then (generation_of new) (\<lambda>h.
     and_then (demand (g \<noteq> h) ''hook-generation'') (\<lambda>_.
     and_then (first_executable old) (\<lambda>x. and_then (first_executable new) (\<lambda>y.
     and_then (demand (\<not> py_eq x y) ''hook-version'') (\<lambda>_.
     and_then (demand (gateway_path sha old ''a2a'' ''/settings/hooks'' = gateway_path sha new ''a2a'' ''/settings/hooks'')
       ''hook-stable-path'') (\<lambda>_.
     Inr (g, h)))))))))))"

definition revision_at :: "string \<Rightarrow> hook_state \<Rightarrow> int res" where
  "revision_at i s = present (map_of (revisions s) i) i"

definition settings :: string where
  "settings = ''/settings/hooks''"

definition upgrade_first :: "(string \<Rightarrow> string) \<Rightarrow> (string \<Rightarrow> json \<Rightarrow> bool) \<Rightarrow> root_state \<Rightarrow> root_state \<Rightarrow> string \<Rightarrow> (hook_state \<times> string) res" where
  "upgrade_first sha valid old new old_gen =
     and_then (hook_init old) (\<lambda>m.
     and_then (hook_retain sha settings ''first'' m) (\<lambda>(m, i).
     and_then (hook_retain sha settings ''retry'' m) (\<lambda>(m, again).
     and_then (demand (again = i) ''hook-idempotency'') (\<lambda>_.
     and_then (revision_at i m) (\<lambda>r. and_then (hook_activate i True r m) (\<lambda>m.
     and_then (hook_install sha valid new m) (\<lambda>m. let m = hook_gc m in
     and_then (hook_invoke sha valid settings m) (\<lambda>g.
     and_then (demand (g = old_gen) ''hook-old-retention'') (\<lambda>_. Inr (m, i))))))))))"

definition upgrade_second :: "(string \<Rightarrow> string) \<Rightarrow> (string \<Rightarrow> json \<Rightarrow> bool) \<Rightarrow> hook_state \<Rightarrow> string \<Rightarrow> string \<Rightarrow> string \<Rightarrow> unit res" where
  "upgrade_second sha valid m i old_gen new_gen =
     and_then (hook_retain sha settings ''second'' m) (\<lambda>(m, j).
     and_then (demand (set (hook_list m) = {i, j}) ''hook-list'') (\<lambda>_.
     and_then (revision_at j m) (\<lambda>r. and_then (hook_activate j True r m) (\<lambda>m. let m = hook_gc m in
     and_then (demand_res (both [Inr (old_gen \<in> keys (roots m)), and_then (hook_invoke sha valid settings m) (\<lambda>g. Inr (g = new_gen))])
       ''hook-rollback-retention'') (\<lambda>_.
     and_then (revision_at i m) (\<lambda>r. and_then (hook_release i True r m) (\<lambda>m. let m = hook_gc m in
     demand_res (both [Inr (old_gen \<notin> keys (roots m)), and_then (hook_invoke sha valid settings m) (\<lambda>g. Inr (g = new_gen))])
       ''hook-final-release'')))))))"

definition hook_upgrade :: "(string \<Rightarrow> string) \<Rightarrow> (string \<Rightarrow> json \<Rightarrow> bool) \<Rightarrow> root_state list \<Rightarrow> unit res" where
  "hook_upgrade sha valid states =
     and_then (upgrade_pair sha valid states) (\<lambda>(g, h).
     and_then (upgrade_first sha valid (states ! 0) (states ! 1) g) (\<lambda>(m, i).
     upgrade_second sha valid m i g h))"

lemma hook_check_accepted:
  assumes "root_check sha valid None s = Inr ()"
  shows "accepted (hook_check sha valid c s) = Inr (c \<in> set (names (trust s)))"
  using root_check_selected [OF assms, of c]
  by (cases "c \<in> set (names (trust s))") (simp_all add: hook_check_def accepted_def decision_def refusal_code_def)

lemma settled_upgrade:
  assumes "root_check sha valid None old = Inr ()" "root_check sha valid None new = Inr ()"
    and "''a2a'' \<in> set (names (trust old))" "''a2a'' \<in> set (names (trust new))"
    and "generation_of old = Inr g" "generation_of new = Inr h" "g \<noteq> h" "sha ''1'' \<noteq> sha ''2''"
  shows "and_then (upgrade_first sha valid old new g) (\<lambda>(m, i). upgrade_second sha valid m i g h) = Inr ()"
proof -
  have n: "nat_text (Suc 0) = ''1''" "nat_text (Suc (Suc 0)) = ''2''" by code_simp+
  have k: "keys [] = {}" "keys ((x, y) # d) = insert x (keys d)" for x :: string and y :: root_state and d by (simp_all add: keys_def)
  have k': "keys [] = {}" "keys ((x, y) # d) = insert x (keys d)" for x :: string and y :: "string \<times> string" and d by (simp_all add: keys_def)
  have acc: "accepted (root_check sha valid None new) = Inr True" by (simp add: accepted_ok assms(2))
  note defs = hook_init_def hook_retain_def hook_activate_def hook_install_def hook_gc_def hook_invoke_def hook_list_def
    revision_at_def present_def bump_def hook_release_def Let_def
  have first: "upgrade_first sha valid old new g = Inr
     (\<lparr>roots = [(g, old), (h, new)], current = h, refs = [(sha ''1'', settings, g)],
       requests = [(''first'', (settings, g), sha ''1''), (''retry'', (settings, g), sha ''1'')], terminal = [],
       active = [(settings, sha ''1'')], rollback = [], serial = 1, revisions = [(sha ''1'', 2)], release_revisions = []\<rparr>, sha ''1'')"
    using assms acc hook_check_accepted [OF assms(1)] by (simp add: upgrade_first_def defs n)
  show ?thesis unfolding first
    using assms hook_check_accepted [OF assms(2)] by (simp add: upgrade_second_def defs n k k' vals_def del: keys_filter)
qed

section \<open>Properties\<close>

lemma hook_init_good:
  "hook_init rt = Inr s \<Longrightarrow> root_check sha valid None rt = Inr () \<Longrightarrow> hook_good sha valid s"
  by (auto simp: hook_init_def and_then_ok_iff hook_good_def keys_def vals_def)

lemma hook_reachable_good:
  "hook_init rt = Inr s0 \<Longrightarrow> root_check sha valid None rt = Inr () \<Longrightarrow> reachable (hook_step sha valid) s0 s \<Longrightarrow> hook_good sha valid s"
  using hooks.reachable_good hook_init_good by blast

lemma good_root:
  assumes "hook_good sha valid s" "g \<in> keys (roots s)"
  shows "\<exists>rt. map_of (roots s) g = Some rt \<and> root_check sha valid None rt = Inr ()"
proof -
  from keys_map_of [OF assms(2)] obtain rt where "map_of (roots s) g = Some rt" by blast
  then show ?thesis using assms(1) by (fastforce simp: hook_good_def dest: map_of_SomeD)
qed

text \<open>
  C34: the reference tables stay within their caps, and collection never takes a root that is still
  referenced: in every reachable state there are at most 256 references and 4096 requests, and each
  reference's generation, and the current one, has a root that passes the whole admission.
\<close>

theorem hook_references_held:
  assumes "hook_init rt = Inr s0" and "root_check sha valid None rt = Inr ()" and "reachable (hook_step sha valid) s0 s"
  shows "length (refs s) \<le> 256 \<and> length (requests s) \<le> 4096 \<and>
    (\<forall>g \<in> insert (current s) (snd ` vals (refs s)). \<exists>root. map_of (roots s) g = Some root \<and> root_check sha valid None root = Inr ())"
proof -
  have good: "hook_good sha valid s" using hook_reachable_good assms by blast
  then have "insert (current s) (snd ` vals (refs s)) \<subseteq> keys (roots s)"
    by (fastforce simp: hook_good_def vals_def)
  then show ?thesis using good good_root [OF good] by (auto simp: hook_good_def)
qed

text \<open>
  C35: an activated resource always finds its root.  In every reachable state, invoking a resource
  with an active reference finds the reference and its root, whatever was installed, released or
  collected since.  If that root exports the command \<open>a2a\<close> the reference's generation runs; if it does
  not, the call is refused as \<open>hook-root\<close>.
\<close>

theorem hook_invoke_available:
  assumes "hook_init rt = Inr s0" and "root_check sha valid None rt = Inr ()" and "reachable (hook_step sha valid) s0 s"
    and "map_of (active s) resource = Some i"
  shows "\<exists>r g root. map_of (refs s) i = Some (r, g) \<and> map_of (roots s) g = Some root \<and>
    hook_invoke sha valid resource s =
      (if ''a2a'' \<in> set (names (trust root)) then Inr g else Inl (Refusal ''hook-root''))"
proof -
  have good: "hook_good sha valid s" using hook_reachable_good assms by blast
  then have "i \<in> keys (refs s)" using map_of_keys [OF assms(4)] by (auto simp: hook_good_def)
  from keys_map_of [OF this] obtain p where "map_of (refs s) i = Some p" by blast
  then obtain r g where ref: "map_of (refs s) i = Some (r, g)" by (cases p) simp
  then have "g \<in> keys (roots s)" using good map_of_SomeD [OF ref] by (auto simp: hook_good_def)
  from good_root [OF good this] obtain root where root: "map_of (roots s) g = Some root" "root_check sha valid None root = Inr ()" by blast
  then show ?thesis using ref assms(4) hook_check_accepted [OF root(2)] by (simp add: hook_invoke_def)
qed

text \<open>
  Retaining is idempotent for good.  Once a request was answered, the same request for the same
  resource gives the same reference and changes nothing, after any further actions, as long as the
  same generation is current; after an upgrade it is refused as a conflict, never answered anew.
\<close>

theorem hook_retry_stable:
  assumes "hook_init rt = Inr s0" and "root_check sha valid None rt = Inr ()" and "reachable (hook_step sha valid) s0 s"
    and "hook_retain sha resource request s = Inr (t, i)" and "run (hook_step sha valid) t as = Inr (u, outs)"
  shows "hook_retain sha resource request u =
    (if current u = current s then Inr (u, i) else Inl (Refusal ''request-conflict''))"
proof -
  have good: "hook_good sha valid s" using hook_reachable_good assms(1-3) by blast
  from retain_good [OF this assms(4)] have t: "hook_good sha valid t" "map_of (requests t) request = Some ((resource, current s), i)"
    by blast+
  from hooks.run_below [OF assms(5) t(1)] t(2) have "map_of (requests u) request = Some ((resource, current s), i)"
    by (auto simp: hook_grows_def)
  then show ?thesis by (auto simp: hook_retain_def Let_def)
qed

text \<open>
  The upgrade scenario succeeds for every pair of roots that meets its requirements, exports the
  hook command in both, and whose first two reference numbers have different digests: the old root
  serves until the new one is activated, is held for rollback, and goes with its last reference.
\<close>

theorem hook_upgrade_succeeds:
  assumes "upgrade_pair sha valid [old, new] = Inr (g, h)" and "sha ''1'' \<noteq> sha ''2''"
    and "''a2a'' \<in> set (names (trust old))" and "''a2a'' \<in> set (names (trust new))"
  shows "hook_upgrade sha valid [old, new] = Inr ()"
proof -
  from assms(1) have "root_check sha valid None old = Inr ()" "root_check sha valid None new = Inr ()"
    "generation_of old = Inr g" "generation_of new = Inr h" "g \<noteq> h"
    by (auto simp: upgrade_pair_def Let_def and_then_ok_iff accepted_ok)
  from settled_upgrade [OF this(1,2) assms(3,4) this(3-5) assms(2)] show ?thesis
    by (simp add: hook_upgrade_def assms(1))
qed

section \<open>Witnesses\<close>

definition sample_start :: hook_state where
  "sample_start = \<lparr>roots = [(''g'', sample_root)], current = ''g'', refs = [], requests = [], terminal = [], active = [],
     rollback = [], serial = 0, revisions = [], release_revisions = []\<rparr>"

definition sample_held :: hook_state where
  "sample_held = sample_start\<lparr>refs := [(''d'', settings, ''g'')], requests := [(''q'', (settings, ''g''), ''d'')], serial := 1,
     revisions := [(''d'', 2)], active := [(settings, ''d'')]\<rparr>"

lemma sample_executable: "first_executable (sample_state g digest bytes) = Inr (JStr digest)"
proof -
  have l: "json_loads default_hooks (json_text (sample_doc g digest ''receipt'')) = Inr (canon (sample_doc g digest ''receipt''))"
    by (rule loads_text [OF default_hooks_faithful sample_unique all_ints_True])
  have "list_at (canon (sample_doc g digest ''receipt'')) [''commands''] = Inr [canon (sample_command digest)]"
    "item (canon (sample_command digest)) ''executable_sha256'' = Inr (JStr digest)"
    by code_simp+
  with l show ?thesis by (simp add: first_executable_def sample_state_def Let_def sample_docs_def)
qed

theorem hook_upgrade_succeeds_witness: "hook_upgrade sample_sha any_valid [sample_root, sample_next] = Inr ()"
proof -
  have g: "generation_of sample_root = Inr ''g''" "generation_of sample_next = Inr ''h''" by code_simp+
  have x: "first_executable sample_root = Inr (JStr ''d'')" "first_executable sample_next = Inr (JStr ''e'')"
    by (simp_all add: sample_root_def sample_next_def sample_executable)
  have p: "profile (trust sample_root) = profile (trust sample_next)"
    "gateway_path sample_sha sample_root c r = gateway_path sample_sha sample_next c r" for c r
    by (simp_all add: sample_root_def sample_next_def sample_state_def gateway_path_def is_windows_def Let_def)
  have "accepted (root_check sample_sha any_valid None sample_root) = Inr True"
    "accepted (root_check sample_sha any_valid None sample_next) = Inr True"
    by (simp_all add: accepted_ok sample_root_accepted sample_next_accepted)
  then have "upgrade_pair sample_sha any_valid [sample_root, sample_next] = Inr (''g'', ''h'')"
    using g x p by (simp add: upgrade_pair_def Let_def)
  then show ?thesis
    by (rule hook_upgrade_succeeds) (simp_all add: sample_sha_def sample_root_names)
qed

lemma sample_start: "hook_init sample_root = Inr sample_start"
proof -
  have "generation_of sample_root = Inr ''g''" by code_simp
  then show ?thesis by (simp add: hook_init_def sample_start_def)
qed

lemma sample_retain: "hook_retain sample_sha settings ''q'' sample_start =
    Inr (sample_held\<lparr>revisions := [(''d'', 1)], active := []\<rparr>, ''d'')"
proof -
  have "nat_text (Suc 0) = ''1''" by code_simp
  then show ?thesis
    by (simp add: hook_retain_def sample_start_def sample_held_def sample_sha_def Let_def)
qed

lemma sample_activate: "hook_activate ''d'' True 1 (sample_held\<lparr>revisions := [(''d'', 1)], active := []\<rparr>) = Inr sample_held"
  by (simp add: hook_activate_def sample_start_def sample_held_def bump_def present_def)

lemma sample_reach: "reachable (hook_step sample_sha any_valid) sample_start sample_held"
proof (rule reachable.turn)
  show "reachable (hook_step sample_sha any_valid) sample_start (sample_held\<lparr>revisions := [(''d'', 1)], active := []\<rparr>)"
    by (rule reachable.turn [OF reachable.start, of _ _ "Retain settings ''q''" _ "Reference ''d''"]) (simp add: sample_retain)
  show "hook_step sample_sha any_valid (sample_held\<lparr>revisions := [(''d'', 1)], active := []\<rparr>) (Activate ''d'' True 1) = Inr (sample_held, Done)"
    by (simp add: sample_activate)
qed

theorem hook_references_held_witness:
  "length (refs sample_held) \<le> 256 \<and> (\<exists>root. map_of (roots sample_held) ''g'' = Some root \<and> root_check sample_sha any_valid None root = Inr ())"
proof -
  have "current sample_held = ''g''" by (simp add: sample_held_def sample_start_def)
  then show ?thesis using hook_references_held [OF sample_start sample_root_accepted sample_reach] by auto
qed

theorem hook_invoke_available_witness: "hook_invoke sample_sha any_valid settings sample_held = Inr ''g''"
proof -
  have a: "map_of (active sample_held) settings = Some ''d''" by (simp add: sample_held_def)
  have r: "map_of (refs sample_held) ''d'' = Some (settings, ''g'')" "map_of (roots sample_held) ''g'' = Some sample_root"
    by (simp_all add: sample_held_def sample_start_def)
  from hook_invoke_available [OF sample_start sample_root_accepted sample_reach a] r show ?thesis
    by (auto simp: sample_root_names)
qed

theorem hook_retry_stable_witness:
  "hook_retain sample_sha settings ''q'' (hook_gc sample_held) = Inr (hook_gc sample_held, ''d'')"
proof -
  let ?t = "sample_held\<lparr>revisions := [(''d'', 1)], active := []\<rparr>"
  have run: "run (hook_step sample_sha any_valid) ?t [Activate ''d'' True 1, Collect] = Inr (hook_gc sample_held, [Done, Done])"
    by (simp add: sample_activate)
  have c: "current (hook_gc sample_held) = current sample_start" by (simp add: hook_gc_def sample_held_def)
  from hook_retry_stable [OF sample_start sample_root_accepted reachable.start sample_retain run] c show ?thesis by simp
qed

end
