(* ===== verification/SkillPlan.thy ===== *)
theory SkillPlan
  imports CommandRoots
begin

text \<open>
  The profile skill-plan oracle (\<open>tools/profile_skill_plan.py\<close>): the admission of a locked
  plan against the observed packages (\<open>plan_error\<close>, with its depth-first visit of the
  requirements), the activation of contexts and commands, drift of direct declarations, and the
  outcome of an operation.  A lock and the observed facts are records typed as the corpus writes
  them, an absent key is \<open>None\<close>; \<open>sha\<close> is the hexadecimal SHA-256 of a text and
  \<open>valid_lock\<close> the verdict of the third-party JSON Schema validator on the lock.  A returned
  diagnostic is \<open>Inl (Refusal code)\<close>.
\<close>

section \<open>Data\<close>

type_synonym pin = "string \<times> string \<times> string"

record ref =
  ref_kind :: string
  ref_value :: string

record requirement =
  req_provider :: string
  req_pin :: pin
  req_ref :: ref
  req_mode :: "string option"
  req_commands :: "string list option"

record package =
  pkg_kind :: string
  pkg_name :: string
  pkg_source :: "string option"
  pkg_commit :: "string option"
  pkg_directory :: "string option"
  pkg_version :: "string option"
  pkg_state :: "string option"
  pkg_content :: "string option"
  pkg_requirements :: "requirement list"
  pkg_commands :: "(string \<times> string) list option"
  pkg_admitted_tags :: "(string \<times> string) list"
  pkg_observed_tags :: "(string \<times> string) list option"

record member =
  mem_kind :: string
  mem_name :: string
  mem_source :: "string option"
  mem_commit :: "string option"
  mem_directory :: "string option"
  mem_version :: "string option"
  mem_state :: "string option"
  mem_required_by :: "string list"
  mem_rest :: dict

record node =
  node_name :: string
  node_pin :: pin
  node_content :: string
  node_rest :: dict

record edge =
  edge_consumer :: "string \<times> string"
  edge_provider :: string
  edge_ref :: ref
  edge_mode :: string
  edge_commands :: "string list option"

record constraint =
  con_name :: string
  con_pin :: pin
  con_ref :: ref
  con_declaration :: string

record plan =
  plan_nodes :: "node list"
  plan_edges :: "edge list"
  plan_directs :: "constraint list"
  plan_rest :: dict

record lock =
  lock_version :: "int option"
  lock_plan_sha256 :: "string option"
  lock_plan :: "plan option"
  lock_members :: "member list"
  lock_rest :: dict

record direct =
  dir_name :: string
  dir_pin :: pin
  dir_ref :: ref
  dir_declaration :: json
  dir_observed :: string

record stale_entry =
  stale_name :: string
  stale_owners :: "string list option"

record data =
  d_lock :: lock
  d_runtime_sha256 :: string
  d_reader :: int
  d_operation :: string
  d_packages :: "package list"
  d_direct :: "direct list"
  d_retained_members :: "member list"
  d_retained_commands :: "(string \<times> string) list"
  d_stale :: "stale_entry list"
  d_unmanaged :: "string list"
  d_case_insensitive :: bool
  d_routing :: string
  d_phase :: string
  d_fault :: "string option"
  d_requested :: "string option"
  d_companions :: "(string \<times> string) list"

section \<open>Digests\<close>

text \<open>The documents of the records, for \<open>ccj1_sha256\<close> of \<open>tools/assurance.py\<close>.\<close>

definition opt_member :: "string \<Rightarrow> ('a \<Rightarrow> json) \<Rightarrow> 'a option \<Rightarrow> dict" where
  "opt_member k f v = (case v of None \<Rightarrow> [] | Some x \<Rightarrow> [(k, f x)])"

definition texts :: "string list \<Rightarrow> json" where
  "texts ss = JArr (map JStr ss)"

definition pin_json :: "pin \<Rightarrow> dict" where
  "pin_json p = (case p of (s, c, d) \<Rightarrow> [(''source'', JStr s), (''commit'', JStr c), (''directory'', JStr d)])"

definition ref_json :: "ref \<Rightarrow> json" where
  "ref_json r = JObj [(''kind'', JStr (ref_kind r)), (''value'', JStr (ref_value r))]"

definition node_json :: "node \<Rightarrow> json" where
  "node_json n = JObj ([(''name'', JStr (node_name n))] @ pin_json (node_pin n) @
     [(''content_sha256'', JStr (node_content n))] @ node_rest n)"

definition edge_json :: "edge \<Rightarrow> json" where
  "edge_json e = JObj ([(''consumer'', JObj [(''kind'', JStr (fst (edge_consumer e))), (''name'', JStr (snd (edge_consumer e)))]),
     (''provider'', JStr (edge_provider e)), (''ref'', ref_json (edge_ref e)), (''mode'', JStr (edge_mode e))] @
     opt_member ''commands'' texts (edge_commands e))"

definition constraint_json :: "constraint \<Rightarrow> json" where
  "constraint_json c = JObj ([(''name'', JStr (con_name c))] @ pin_json (con_pin c) @
     [(''ref'', ref_json (con_ref c)), (''declaration_sha256'', JStr (con_declaration c))])"

definition plan_json :: "plan \<Rightarrow> json" where
  "plan_json p = JObj ([(''nodes'', JArr (map node_json (plan_nodes p))), (''edges'', JArr (map edge_json (plan_edges p))),
     (''direct_constraints'', JArr (map constraint_json (plan_directs p)))] @ plan_rest p)"

definition member_json :: "member \<Rightarrow> json" where
  "member_json m = JObj ([(''kind'', JStr (mem_kind m)), (''name'', JStr (mem_name m))] @
     opt_member ''source'' JStr (mem_source m) @ opt_member ''commit'' JStr (mem_commit m) @
     opt_member ''directory'' JStr (mem_directory m) @ opt_member ''version'' JStr (mem_version m) @
     opt_member ''state_sha256'' JStr (mem_state m) @ [(''required_by'', texts (mem_required_by m))] @ mem_rest m)"

definition lock_json :: "lock \<Rightarrow> json" where
  "lock_json l = JObj (opt_member ''schema_version'' JInt (lock_version l) @
     opt_member ''skill_plan_sha256'' JStr (lock_plan_sha256 l) @ opt_member ''skill_plan'' plan_json (lock_plan l) @
     [(''members'', JArr (map member_json (lock_members l)))] @ lock_rest l)"

section \<open>Packages and identities\<close>

type_synonym key = "string \<times> string"

definition package_of :: "data \<Rightarrow> key \<Rightarrow> package option" where
  "package_of d k = map_of (map (\<lambda>p. ((pkg_kind p, pkg_name p), p)) (d_packages d)) k"

definition pkg_pin :: "package \<Rightarrow> pin res" where
  "pkg_pin p =
     and_then (present (pkg_source p) ''source'') (\<lambda>s. and_then (present (pkg_commit p) ''commit'') (\<lambda>c.
     and_then (present (pkg_directory p) ''directory'') (\<lambda>d. Inr (s, c, d))))"

definition mem_pin :: "member \<Rightarrow> pin res" where
  "mem_pin m =
     and_then (present (mem_source m) ''source'') (\<lambda>s. and_then (present (mem_commit m) ''commit'') (\<lambda>c.
     and_then (present (mem_directory m) ''directory'') (\<lambda>d. Inr (s, c, d))))"

definition default_dot :: "string option \<Rightarrow> string" where
  "default_dot v = (case v of None \<Rightarrow> ''.'' | Some s \<Rightarrow> s)"

definition context_identity_agrees :: "member \<Rightarrow> package option \<Rightarrow> bool res" where
  "context_identity_agrees m package =
     (case package of
        None \<Rightarrow> Inr False
      | Some p \<Rightarrow>
          and_then (present (mem_version m) ''version'') (\<lambda>v.
          if pkg_version p \<noteq> Some v then Inr False
          else if mem_state m \<noteq> None then
            Inr (pkg_state p = mem_state m \<and> pkg_source p = None \<and> pkg_commit p = None \<and> pkg_directory p = None)
          else if pkg_state p \<noteq> None then Inr False
          else
            and_then (present (mem_source m) ''source'') (\<lambda>s.
            if pkg_source p \<noteq> Some s then Inr False
            else
              and_then (present (mem_commit m) ''commit'') (\<lambda>c.
              Inr (pkg_commit p = Some c \<and> default_dot (pkg_directory p) = default_dot (mem_directory m))))))"

section \<open>The visit of requirements\<close>

definition node_of :: "plan \<Rightarrow> string \<Rightarrow> node option" where
  "node_of p name = map_of (map (\<lambda>n. (node_name n, n)) (plan_nodes p)) name"

definition requirement_edge :: "key \<Rightarrow> requirement \<Rightarrow> edge" where
  "requirement_edge consumer r =
     \<lparr>edge_consumer = consumer, edge_provider = req_provider r, edge_ref = req_ref r,
      edge_mode = (case req_mode r of None \<Rightarrow> ''full'' | Some m \<Rightarrow> m), edge_commands = req_commands r\<rparr>"

text \<open>
  \<open>visit\<close>: the keys under way are a parameter, since a visit that returns removes its own
  again; the edges found and the keys done, in order, are the state.  The fuel bounds the depth.
\<close>

type_synonym found = "edge list \<times> key list"

fun visit :: "data \<Rightarrow> plan \<Rightarrow> nat \<Rightarrow> key list \<Rightarrow> key \<Rightarrow> found \<Rightarrow> found res" where
  "visit d pl 0 visiting k st = Inl OutOfFuel"
| "visit d pl (Suc n) visiting k st =
     (if k \<in> set visiting then Inl (ValueError ''missing package or cycle'')
      else case package_of d k of
        None \<Rightarrow> Inl (ValueError ''missing package or cycle'')
      | Some p \<Rightarrow>
          if k \<in> set (snd st) then Inr st
          else
            and_then (fold_res (\<lambda>r (es, done).
              if map_option node_pin (node_of pl (req_provider r)) \<noteq> Some (req_pin r)
              then Inl (ValueError ''requirement pin disagreement'')
              else visit d pl n (k # visiting) (''skill'', req_provider r) (es @ [requirement_edge k r], done))
              (pkg_requirements p) st) (\<lambda>(es, done).
            Inr (es, done @ [k])))"

definition visit_member :: "data \<Rightarrow> plan \<Rightarrow> member \<Rightarrow> found \<Rightarrow> found res" where
  "visit_member d pl m st =
     (if mem_kind m \<noteq> ''context'' then Inr st
      else
        and_then (context_identity_agrees m (package_of d (''context'', mem_name m))) (\<lambda>agrees.
        if \<not> agrees then Inl (ValueError ''context identity disagreement'')
        else visit d pl (Suc (length (d_packages d))) [] (''context'', mem_name m) st))"

text \<open>The \<open>try\<close> block: a \<open>ValueError\<close> is an invalid plan.\<close>

definition visit_all :: "data \<Rightarrow> plan \<Rightarrow> found res" where
  "visit_all d pl =
     (case fold_res (visit_member d pl) (lock_members (d_lock d)) ([], []) of
        Inl (ValueError _) \<Rightarrow> Inl (Refusal ''profile_skill_plan_invalid'')
      | r \<Rightarrow> r)"

section \<open>Admission of a plan\<close>

text \<open>\<open>keys != sorted(set(keys))\<close>.\<close>

definition in_order :: "'a::linorder list \<Rightarrow> bool" where
  "in_order ks = (ks = sort (remdups ks))"

definition edge_key :: "edge \<Rightarrow> string \<times> string \<times> string" where
  "edge_key e = (fst (edge_consumer e), snd (edge_consumer e), edge_provider e)"

abbreviation invalid :: failure where "invalid \<equiv> Refusal ''profile_skill_plan_invalid''"

definition check_binding :: "(string \<Rightarrow> string) \<Rightarrow> (json \<Rightarrow> bool) \<Rightarrow> data \<Rightarrow> plan res" where
  "check_binding sha valid_lock d =
     (let l = d_lock d in
     and_then (guard (lock_version l = Some 5 \<and> d_reader d = 5) (Refusal ''profile_skill_plan_required'')) (\<lambda>_.
     and_then (guard (valid_lock (lock_json l)) invalid) (\<lambda>_.
     and_then (present (lock_plan l) ''skill_plan'') (\<lambda>pl.
     and_then (present (lock_plan_sha256 l) ''skill_plan_sha256'') (\<lambda>digest.
     and_then (guard (digest = ccj1_sha256 sha (plan_json pl) \<and> d_runtime_sha256 d = ccj1_sha256 sha (lock_json l))
       (Refusal ''profile_skill_plan_binding_invalid'')) (\<lambda>_.
     and_then (guard (in_order (map node_name (plan_nodes pl)) \<and> in_order (map edge_key (plan_edges pl)) \<and>
       in_order (map con_name (plan_directs pl)) \<and>
       in_order (map (\<lambda>m. (mem_kind m, mem_name m)) (lock_members l))) invalid) (\<lambda>_.
     Inr pl)))))))"

text \<open>The direct declarations of skills the plan selects.\<close>

definition overlaps :: "data \<Rightarrow> plan \<Rightarrow> direct list" where
  "overlaps d pl = filter (\<lambda>c. node_of pl (dir_name c) \<noteq> None) (d_direct d)"

definition constraint_of :: "(string \<Rightarrow> string) \<Rightarrow> direct \<Rightarrow> constraint" where
  "constraint_of sha c =
     \<lparr>con_name = dir_name c, con_pin = dir_pin c, con_ref = dir_ref c, con_declaration = ccj1_sha256 sha (dir_declaration c)\<rparr>"

definition check_directs :: "(string \<Rightarrow> string) \<Rightarrow> data \<Rightarrow> plan \<Rightarrow> unit res" where
  "check_directs sha d pl =
     and_then (guard (list_all (\<lambda>c. map_option node_pin (node_of pl (dir_name c)) = Some (dir_pin c)) (overlaps d pl))
       (Refusal ''profile_skill_pin_conflict'')) (\<lambda>_.
     guard (plan_directs pl = sort_key con_name (map (constraint_of sha) (overlaps d pl))) invalid)"

definition direct_edge :: "direct \<Rightarrow> edge" where
  "direct_edge c = \<lparr>edge_consumer = (''machine'', dir_name c), edge_provider = dir_name c, edge_ref = dir_ref c,
     edge_mode = ''full'', edge_commands = None\<rparr>"

definition check_graph :: "data \<Rightarrow> plan \<Rightarrow> found \<Rightarrow> unit res" where
  "check_graph d pl fd =
     and_then (guard (set (map node_name (plan_nodes pl)) = set (map snd (filter (\<lambda>k. fst k = ''skill'') (snd fd)))) invalid) (\<lambda>_.
     guard (plan_edges pl = sort_key edge_key (fst fd @ map direct_edge (overlaps d pl))) invalid)"

text \<open>Members: the skills of the lock are the nodes and the retained members, as they were.\<close>

definition skill_member :: "data \<Rightarrow> string \<Rightarrow> member option" where
  "skill_member d name = map_of (map (\<lambda>m. (mem_name m, m)) (filter (\<lambda>m. mem_kind m = ''skill'') (lock_members (d_lock d)))) name"

definition retained :: "data \<Rightarrow> (string \<times> member) list" where
  "retained d = rev (map (\<lambda>m. (mem_name m, m\<lparr>mem_directory := Some (default_dot (mem_directory m))\<rparr>)) (d_retained_members d))"

definition same_member :: "member \<Rightarrow> member \<Rightarrow> bool" where
  "same_member a b = py_eq (member_json a) (member_json b)"

definition check_members :: "data \<Rightarrow> plan \<Rightarrow> unit res" where
  "check_members d pl =
     (let ns = map node_name (plan_nodes pl);
          ms = map mem_name (filter (\<lambda>m. mem_kind m = ''skill'') (lock_members (d_lock d)));
          rs = map fst (retained d) in
     guard (set ns \<inter> set rs = {} \<and> set ms = set ns \<union> set rs \<and>
       list_all (\<lambda>name. case (skill_member d name, map_of (retained d) name) of
         (Some m, Some r) \<Rightarrow> same_member m r | _ \<Rightarrow> False) rs) invalid)"

definition requirers :: "plan \<Rightarrow> string \<Rightarrow> string list" where
  "requirers pl name =
     sort (remdups (map (\<lambda>e. snd (edge_consumer e))
       (filter (\<lambda>e. edge_provider e = name \<and> fst (edge_consumer e) \<noteq> ''machine'') (plan_edges pl))))"

definition check_node :: "data \<Rightarrow> plan \<Rightarrow> node \<Rightarrow> unit res" where
  "check_node d pl n =
     and_then (present (package_of d (''skill'', node_name n)) (node_name n)) (\<lambda>p.
     and_then (pkg_pin p) (\<lambda>pp.
     and_then (guard (node_pin n = pp) invalid) (\<lambda>_.
     and_then (present (pkg_content p) ''content_sha256'') (\<lambda>c.
     and_then (guard (node_content n = c) invalid) (\<lambda>_.
     and_then (present (skill_member d (node_name n)) (node_name n)) (\<lambda>m.
     and_then (mem_pin m) (\<lambda>mp.
     guard (mp = node_pin n \<and> mem_required_by m = requirers pl (node_name n)) invalid)))))))"

definition check_ref :: "package \<Rightarrow> ref \<Rightarrow> unit res" where
  "check_ref p r =
     (if ref_kind r = ''revision'' then
        and_then (present (pkg_commit p) ''commit'') (\<lambda>c. guard (ref_value r = c) invalid)
      else if ref_kind r = ''tag'' then
        and_then (present (pkg_commit p) ''commit'') (\<lambda>c.
        and_then (guard (map_of (pkg_admitted_tags p) (ref_value r) = Some c) invalid) (\<lambda>_.
        let tags = (case pkg_observed_tags p of None \<Rightarrow> [] | Some ts \<Rightarrow> ts);
            seen = (case map_of tags (ref_value r) of None \<Rightarrow> c | Some t \<Rightarrow> t) in
        guard (seen = c) (Refusal ''profile_skill_pin_changed'')))
      else Inr ())"

definition exported :: "(string \<times> string) list \<Rightarrow> string \<Rightarrow> bool" where
  "exported cs c = (map_of cs c = Some ''script'' \<or> map_of cs c = Some ''build'')"

definition check_commands :: "package \<Rightarrow> string list \<Rightarrow> unit res" where
  "check_commands p commands =
     and_then (guard (commands = sort commands) invalid) (\<lambda>_.
     if commands = [] then Inr ()
     else and_then (present (pkg_commands p) ''commands'') (\<lambda>cs.
       guard (list_all (exported cs) commands) (Refusal ''profile_skill_command_invalid'')))"

definition check_edge :: "data \<Rightarrow> edge \<Rightarrow> unit res" where
  "check_edge d e =
     and_then (present (package_of d (''skill'', edge_provider e)) (edge_provider e)) (\<lambda>p.
     and_then (check_ref p (edge_ref e)) (\<lambda>_.
     case edge_commands e of None \<Rightarrow> Inr () | Some commands \<Rightarrow> check_commands p commands))"

text \<open>The whole of \<open>plan_error\<close>; the value is what the visit found.\<close>

definition plan_check :: "(string \<Rightarrow> string) \<Rightarrow> (json \<Rightarrow> bool) \<Rightarrow> data \<Rightarrow> (plan \<times> found) res" where
  "plan_check sha valid_lock d =
     and_then (check_binding sha valid_lock d) (\<lambda>pl.
     and_then (check_directs sha d pl) (\<lambda>_.
     and_then (guard (distinct (map (\<lambda>p. (pkg_kind p, pkg_name p)) (d_packages d))) invalid) (\<lambda>_.
     and_then (visit_all d pl) (\<lambda>fd.
     and_then (check_graph d pl fd) (\<lambda>_.
     and_then (check_members d pl) (\<lambda>_.
     and_then (for_each (check_node d pl) (plan_nodes pl)) (\<lambda>_.
     and_then (for_each (check_edge d) (plan_edges pl)) (\<lambda>_.
     Inr (pl, fd)))))))))"

definition plan_error :: "(string \<Rightarrow> string) \<Rightarrow> (json \<Rightarrow> bool) \<Rightarrow> data \<Rightarrow> string option res" where
  "plan_error sha valid_lock d =
     (case plan_check sha valid_lock d of
        Inl (Refusal code) \<Rightarrow> Inr (Some code)
      | Inl e \<Rightarrow> Inl e
      | Inr _ \<Rightarrow> Inr None)"

section \<open>Activation and drift\<close>

text \<open>
  \<open>str.casefold\<close>: the micro sign, whose fold lies outside the alphabet of the model, is kept;
  nothing else in the alphabet has that fold.
\<close>

definition casefold :: "string \<Rightarrow> string" where
  "casefold s = concat (map (\<lambda>c. if ord_of c = 223 then ''ss'' else [lower_char c]) s)"

definition fold_name :: "bool \<Rightarrow> string \<Rightarrow> string" where
  "fold_name case_insensitive c = (if case_insensitive then casefold c else c)"

definition reserved_command :: "string \<Rightarrow> bool \<Rightarrow> bool" where
  "reserved_command command case_insensitive = prefix ''curator-'' (fold_name case_insensitive command)"

record surfaces =
  sur_name :: string
  sur_context :: bool
  sur_commands :: "string list"

fun activate :: "string list \<Rightarrow> edge list \<Rightarrow> bool \<times> string list \<Rightarrow> bool \<times> string list" where
  "activate offered [] s = s"
| "activate offered (e # es) (ctx, cs) =
     activate offered es
       (ctx \<or> edge_mode e \<in> {''full'', ''context''},
        if edge_mode e = ''full'' then offered @ cs
        else if edge_mode e = ''runtime'' then
          (case edge_commands e of None \<Rightarrow> offered @ cs | Some commands \<Rightarrow> commands @ cs)
        else cs)"

definition activation_of :: "data \<Rightarrow> plan \<Rightarrow> node \<Rightarrow> surfaces res" where
  "activation_of d pl n =
     (case find (\<lambda>p. pkg_kind p = ''skill'' \<and> pkg_name p = node_name n) (d_packages d) of
        None \<Rightarrow> Inl StopIteration
      | Some p \<Rightarrow>
          and_then (present (pkg_commands p) ''commands'') (\<lambda>cs.
          let offered = filter (exported cs) (map fst cs);
              (ctx, commands) = activate offered (filter (\<lambda>e. edge_provider e = node_name n) (plan_edges pl)) (False, []) in
          Inr \<lparr>sur_name = node_name n, sur_context = ctx, sur_commands = sort (remdups commands)\<rparr>))"

text \<open>Called on admitted plans only, whose node names are distinct.\<close>

definition activation :: "data \<Rightarrow> surfaces list res" where
  "activation d =
     and_then (present (lock_plan (d_lock d)) ''skill_plan'') (\<lambda>pl. map_res (activation_of d pl) (plan_nodes pl))"

record drift_entry =
  dr_name :: string
  dr_declared :: ref
  dr_observed :: string
  dr_state :: string

definition drift_of :: "direct \<Rightarrow> drift_entry" where
  "drift_of c =
     \<lparr>dr_name = dir_name c, dr_declared = dir_ref c, dr_observed = dir_observed c,
      dr_state = (if dir_observed c = ''unreadable'' then ''unknown''
                  else if dir_observed c = fst (snd (dir_pin c)) then ''in-sync'' else ''drift'')\<rparr>"

definition drift :: "data \<Rightarrow> drift_entry list" where
  "drift d =
     (let selected = (case lock_plan (d_lock d) of None \<Rightarrow> [] | Some pl \<Rightarrow> map node_name (plan_nodes pl)) in
     sort_key dr_name (map drift_of (filter (\<lambda>c. dir_name c \<notin> set selected) (d_direct d))))"

section \<open>Outcome of an operation\<close>

record states =
  st_records :: string
  st_runtime :: string
  st_routing :: string
  st_surfaces :: string

record result =
  r_diagnostic :: "string option"
  r_activation :: "surfaces list"
  r_drift :: "drift_entry list"
  r_state :: states
  r_effects :: "string list"
  r_removed :: "string list"
  r_domain :: string
  r_unrelated :: string
  r_manifest :: string
  r_unrelated_calls :: "string list"
  r_convergence :: string

definition old_states :: states where
  "old_states = \<lparr>st_records = ''old'', st_runtime = ''old'', st_routing = ''old'', st_surfaces = ''old''\<rparr>"

definition untouched :: "data \<Rightarrow> result" where
  "untouched d =
     \<lparr>r_diagnostic = None, r_activation = [], r_drift = drift d, r_state = old_states, r_effects = [], r_removed = [],
      r_domain = ''open'', r_unrelated = ''preserved'', r_manifest = ''preserved'', r_unrelated_calls = [],
      r_convergence = ''selected-only''\<rparr>"

definition required_companions :: "string \<Rightarrow> string list option" where
  "required_companions requested = map_of
     [(''protected-command-adoption'', [''profile-command-admission'']),
      (''managed-session-adoption'', [''managed-session-skill-cli'']),
      (''owner-two-requirement-delivery'', [''profile-command-admission'', ''managed-session-skill-cli''])] requested"

definition companions_qualified :: "data \<Rightarrow> bool" where
  "companions_qualified d =
     (case d_requested d of
        None \<Rightarrow> True
      | Some requested \<Rightarrow>
          requested = ''slice-a-model'' \<or>
          (case required_companions requested of
             None \<Rightarrow> False
           | Some needed \<Rightarrow> list_all (\<lambda>c. map_of (d_companions d) c = Some ''qualified'') needed))"

definition is_live :: "data \<Rightarrow> bool" where
  "is_live d = (d_operation d \<notin> {''inactive'', ''scoped-use''})"

definition KNOWN_PHASES :: "string list" where
  "KNOWN_PHASES = [''absent'', ''preparing'', ''prepared'', ''committing'', ''cleanup'', ''rolling_back'', ''rollback_cleanup'']"

definition FAULTS :: "(string \<times> string) list" where
  "FAULTS = [(''signer'', ''context_source_signer_rejected''), (''audit'', ''audit.capability.network-undeclared''),
     (''driver'', ''unsupported_build_driver''), (''compile'', ''profile_skill_compile_failed''),
     (''receipt'', ''profile_skill_plan_binding_invalid'')]"

text \<open>The owner of each admitted command name, folded where the file system folds case.\<close>

definition claim_name :: "bool \<Rightarrow> string \<Rightarrow> string \<Rightarrow> (string \<times> string) list \<Rightarrow> (string \<times> string) list res" where
  "claim_name ci provider command owners =
     (let name = fold_name ci command in
      if reserved_command command ci then Inl (Refusal ''environment_reserved_command_name'')
      else if name \<in> set (map fst owners) \<and> map_of owners name \<noteq> Some provider
      then Inl (Refusal ''profile_skill_command_conflict'')
      else Inr ((name, provider) # owners))"

definition claim_names :: "bool \<Rightarrow> surfaces list \<Rightarrow> (string \<times> string) list res" where
  "claim_names ci active =
     fold_res (\<lambda>s. fold_res (claim_name ci (sur_name s)) (sur_commands s)) active []"

definition check_names :: "data \<Rightarrow> surfaces list \<Rightarrow> unit res" where
  "check_names d active =
     and_then (claim_names (d_case_insensitive d) active) (\<lambda>owners.
     and_then (for_each (\<lambda>(command, provider).
       let name = fold_name (d_case_insensitive d) command in
       guard (\<not> (name \<in> set (map fst owners) \<and> map_of owners name \<noteq> Some provider)) (Refusal ''profile_skill_command_conflict''))
       (d_retained_commands d)) (\<lambda>_.
     for_each (\<lambda>destination.
       guard (fold_name (d_case_insensitive d) destination \<notin> set (map fst owners)) (Refusal ''environment_surface_unmanaged_conflict''))
       (d_unmanaged d)))"

text \<open>The refusals after the status branch, in the order of the code; a refused phase also closes the domain.\<close>

definition admit :: "data \<Rightarrow> surfaces list \<Rightarrow> unit res" where
  "admit d active =
     and_then (guard (\<not> (is_live d \<and> d_routing d \<noteq> ''exclusive'')) (Refusal ''profile_skill_routing_unproven'')) (\<lambda>_.
     and_then (guard (d_phase d \<in> set KNOWN_PHASES) (Refusal ''profile_skill_recovery_failed'')) (\<lambda>_.
     and_then (guard (list_all (\<lambda>s. stale_owners s \<noteq> None) (d_stale d)) (Refusal ''profile_skill_ownership_unknown'')) (\<lambda>_.
     and_then (check_names d active) (\<lambda>_.
     if d_operation d = ''recover'' then Inr ()
     else case Option.bind (d_fault d) (map_of FAULTS) of None \<Rightarrow> Inr () | Some code \<Rightarrow> Inl (Refusal code)))))"

definition removed_names :: "data \<Rightarrow> string list" where
  "removed_names d = sort (map stale_name (filter (\<lambda>s. stale_owners s = Some [''profile'']) (d_stale d)))"

definition published :: "data \<Rightarrow> surfaces list \<Rightarrow> result" where
  "published d active =
     (let new = \<lparr>st_records = ''new'', st_runtime = ''new'', st_routing = (if is_live d then ''new'' else ''old''),
            st_surfaces = (if d_operation d \<noteq> ''inactive'' then ''new'' else ''old'')\<rparr>;
          done = (if d_operation d = ''recover'' then [''recover-new'']
            else [''audit-selected'', ''compile-selected'', ''verify-receipts'', ''journal-prepare'', ''publish-lock-and-generation'']);
          r = (untouched d)\<lparr>r_activation := active, r_removed := removed_names d, r_state := new, r_effects := done\<rparr> in
      if d_fault d = Some ''handled-adapter-conflict'' then
        r\<lparr>r_diagnostic := Some ''environment_surface_unmanaged_conflict'',
          r_state := new\<lparr>st_routing := ''old'', st_surfaces := ''old''\<rparr>,
          r_effects := done @ [''restore-in-place-preimages'']\<rparr>
      else if d_fault d = Some ''partial-adapter'' then
        r\<lparr>r_diagnostic := Some ''profile_use_partial'', r_state := new\<lparr>st_routing := ''old'', st_surfaces := ''per-entry''\<rparr>\<rparr>
      else r)"

definition refused_with :: "data \<Rightarrow> failure \<Rightarrow> result res" where
  "refused_with d e =
     (case e of
        Refusal code \<Rightarrow>
          Inr ((untouched d)\<lparr>r_diagnostic := Some code,
            r_domain := (if code = ''profile_skill_recovery_failed'' then ''closed'' else ''open'')\<rparr>)
      | _ \<Rightarrow> Inl e)"

definition outcome :: "(string \<Rightarrow> string) \<Rightarrow> (json \<Rightarrow> bool) \<Rightarrow> data \<Rightarrow> result res" where
  "outcome sha valid_lock d =
     and_then (plan_error sha valid_lock d) (\<lambda>err.
     case err of
       Some code \<Rightarrow> refused_with d (Refusal code)
     | None \<Rightarrow>
         if \<not> companions_qualified d then refused_with d (Refusal ''profile_skill_companion_required'')
         else
           and_then (activation d) (\<lambda>active.
           if d_operation d = ''status'' then
             Inr ((untouched d)\<lparr>r_activation := active,
               r_diagnostic := (if d_phase d \<noteq> ''absent'' then Some ''profile_skill_recovery_pending'' else None)\<rparr>)
           else case admit d active of
             Inl e \<Rightarrow> refused_with d e
           | Inr _ \<Rightarrow>
               if d_operation d = ''recover'' \<and> d_phase d \<in> {''absent'', ''preparing'', ''rolling_back'', ''rollback_cleanup''}
               then Inr ((untouched d)\<lparr>r_effects := [''recover-old'']\<rparr>)
               else Inr (published d active)))"

section \<open>The visit ends\<close>

lemma and_then_fuel: "m \<noteq> Inl OutOfFuel \<Longrightarrow> (\<And>x. m = Inr x \<Longrightarrow> f x \<noteq> Inl OutOfFuel) \<Longrightarrow> and_then m f \<noteq> Inl OutOfFuel"
  by (cases m) auto

lemma fold_fuel: "(\<And>x s. x \<in> set xs \<Longrightarrow> f x s \<noteq> Inl OutOfFuel) \<Longrightarrow> fold_res f xs s \<noteq> Inl OutOfFuel"
  by (induction xs arbitrary: s) (simp, simp add: and_then_fuel)

lemma for_each_fuel: "(\<And>x. x \<in> set xs \<Longrightarrow> f x \<noteq> Inl OutOfFuel) \<Longrightarrow> for_each f xs \<noteq> Inl OutOfFuel"
  by (induction xs) (simp, simp add: and_then_fuel)

lemma map_fuel: "(\<And>x. x \<in> set xs \<Longrightarrow> f x \<noteq> Inl OutOfFuel) \<Longrightarrow> map_res f xs \<noteq> Inl OutOfFuel"
  by (induction xs) (simp, simp add: and_then_fuel)

lemma present_fuel [simp]: "present v k = Inl OutOfFuel \<longleftrightarrow> False"
  by (simp add: present_def split: option.split)

lemmas fuel_simps = and_then_err_iff Let_def

lemmas fuel_intros = and_then_fuel fold_fuel for_each_fuel map_fuel

abbreviation package_keys :: "data \<Rightarrow> key set" where
  "package_keys d \<equiv> set (map (\<lambda>p. (pkg_kind p, pkg_name p)) (d_packages d))"

lemma package_of_key: "package_of d k = Some p \<Longrightarrow> k \<in> package_keys d"
  by (auto simp: package_of_def dest!: map_of_SomeD)

lemma visit_fuel:
  assumes "distinct visiting" "set visiting \<subseteq> package_keys d" "length visiting + n = Suc (length (d_packages d))"
  shows "visit d pl n visiting k st \<noteq> Inl OutOfFuel"
  using assms
proof (induction n arbitrary: visiting k st)
  case 0
  have "length visiting = card (set visiting)" using 0 by (simp add: distinct_card)
  also have "\<dots> \<le> card (package_keys d)" using 0 by (intro card_mono) auto
  also have "\<dots> \<le> length (d_packages d)" by (metis card_length length_map)
  finally show ?case using 0 by simp
next
  case (Suc n)
  show ?case
  proof (cases "k \<in> set visiting \<or> package_of d k = None \<or> k \<in> set (snd st)")
    case True
    then show ?thesis by (auto split: option.split)
  next
    case False
    then obtain p where p: "package_of d k = Some p" by auto
    have "visit d pl n (k # visiting) j s \<noteq> Inl OutOfFuel" for j s
      using Suc False package_of_key [OF p] by auto
    then have "fold_res (\<lambda>r (es, done).
        if map_option node_pin (node_of pl (req_provider r)) \<noteq> Some (req_pin r)
        then Inl (ValueError ''requirement pin disagreement'')
        else visit d pl n (k # visiting) (''skill'', req_provider r) (es @ [requirement_edge k r], done))
        (pkg_requirements p) st \<noteq> Inl OutOfFuel"
      by (intro fold_fuel) (auto split: prod.split)
    with False p show ?thesis by (auto simp: and_then_err_iff)
  qed
qed

lemma visit_all_fuel: "visit_all d pl \<noteq> Inl OutOfFuel"
proof -
  have "context_identity_agrees m p \<noteq> Inl OutOfFuel" for m p
    by (auto simp: context_identity_agrees_def fuel_simps split: option.split if_splits)
  then have "visit_member d pl m s \<noteq> Inl OutOfFuel" for m s
    using visit_fuel [of "[]" d "Suc (length (d_packages d))"]
    by (auto simp: visit_member_def and_then_err_iff simp del: visit.simps split: if_splits)
  then have "fold_res (visit_member d pl) ms s \<noteq> Inl OutOfFuel" for ms s by (rule fold_fuel)
  then show ?thesis by (auto simp: visit_all_def split: sum.splits failure.splits)
qed

lemma plan_check_fuel: "plan_check sha valid_lock d \<noteq> Inl OutOfFuel"
proof -
  have "check_node d pl n \<noteq> Inl OutOfFuel" "check_edge d e \<noteq> Inl OutOfFuel" for pl n e
    by (auto simp: check_node_def pkg_pin_def mem_pin_def check_edge_def check_ref_def check_commands_def fuel_simps
        split: option.splits if_splits)
  moreover have "check_binding sha valid_lock d \<noteq> Inl OutOfFuel" "check_directs sha d pl \<noteq> Inl OutOfFuel"
    "check_graph d pl fd \<noteq> Inl OutOfFuel" "check_members d pl \<noteq> Inl OutOfFuel" for pl fd
    by (auto simp: check_binding_def check_directs_def check_graph_def check_members_def fuel_simps)
  ultimately show ?thesis unfolding plan_check_def using visit_all_fuel by (intro fuel_intros) auto
qed

section \<open>What the visit finds\<close>

text \<open>
  A package is settled after the keys \<open>before\<close> when each of its requirements names a skill
  among them, pinned as the plan pins that skill.  The needed keys are those the contexts of the
  lock require, directly or not.
\<close>

definition settled :: "data \<Rightarrow> plan \<Rightarrow> key list \<Rightarrow> key \<Rightarrow> bool" where
  "settled d pl before k =
     (case package_of d k of
        None \<Rightarrow> False
      | Some p \<Rightarrow> list_all (\<lambda>r. (''skill'', req_provider r) \<in> set before \<and>
          map_option node_pin (node_of pl (req_provider r)) = Some (req_pin r)) (pkg_requirements p))"

fun settled_list :: "data \<Rightarrow> plan \<Rightarrow> key list \<Rightarrow> key list \<Rightarrow> bool" where
  "settled_list d pl before [] = True"
| "settled_list d pl before (k # ks) = (settled d pl before k \<and> settled_list d pl (before @ [k]) ks)"

inductive needed :: "data \<Rightarrow> key \<Rightarrow> bool" for d where
  listed: "m \<in> set (lock_members (d_lock d)) \<Longrightarrow> mem_kind m = ''context'' \<Longrightarrow> needed d (''context'', mem_name m)"
| requirement: "needed d k \<Longrightarrow> package_of d k = Some p \<Longrightarrow> r \<in> set (pkg_requirements p) \<Longrightarrow>
    needed d (''skill'', req_provider r)"

text \<open>The edges the packages of some keys ask for.\<close>

definition edges_of :: "data \<Rightarrow> key set \<Rightarrow> edge set" where
  "edges_of d ks =
     (\<Union>k \<in> ks. case package_of d k of None \<Rightarrow> {} | Some p \<Rightarrow> requirement_edge k ` set (pkg_requirements p))"

lemma settled_snoc: "settled_list d pl before (ks @ [k]) \<longleftrightarrow> settled_list d pl before ks \<and> settled d pl (before @ ks) k"
  by (induction ks arbitrary: before) auto

lemma settled_mono: "settled d pl before k \<Longrightarrow> set before \<subseteq> set later \<Longrightarrow> settled d pl later k"
  by (auto simp: settled_def list_all_iff split: option.splits)

lemma settled_nth: "settled_list d pl before ks \<Longrightarrow> i < length ks \<Longrightarrow> settled d pl (before @ take i ks) (ks ! i)"
proof (induction ks arbitrary: before i)
  case (Cons k ks)
  then show ?case using Cons.IH [of "before @ [k]" "i - 1"] by (cases i) auto
qed simp

lemma edges_of_Un: "edges_of d (a \<union> b) = edges_of d a \<union> edges_of d b"
  by (simp add: edges_of_def)

lemma edges_of_insert:
  "package_of d k = Some p \<Longrightarrow> edges_of d (insert k ks) = requirement_edge k ` set (pkg_requirements p) \<union> edges_of d ks"
  by (simp add: edges_of_def)

text \<open>The state of the visit: what is kept while keys \<open>visiting\<close> are under way, and the progress made.\<close>

definition sound :: "data \<Rightarrow> plan \<Rightarrow> key list \<Rightarrow> key list \<Rightarrow> bool" where
  "sound d pl visiting ks =
     (distinct ks \<and> settled_list d pl [] ks \<and> set visiting \<inter> set ks = {} \<and> (\<forall>k \<in> set ks. needed d k))"

definition grown :: "data \<Rightarrow> found \<Rightarrow> found \<Rightarrow> edge set \<Rightarrow> bool" where
  "grown d st st' extra =
     (\<exists>ks. snd st' = snd st @ ks \<and> set (fst st') = set (fst st) \<union> edges_of d (set ks) \<union> extra)"

lemma grown_trans: "grown d a b x \<Longrightarrow> grown d b c y \<Longrightarrow> grown d a c (x \<union> y)"
  unfolding grown_def by (auto simp: edges_of_Un)

lemma grown_set: "grown d a b x \<Longrightarrow> set (snd a) \<subseteq> set (snd b)"
  by (auto simp: grown_def)

definition step_requirement :: "data \<Rightarrow> plan \<Rightarrow> nat \<Rightarrow> key list \<Rightarrow> key \<Rightarrow> requirement \<Rightarrow> found \<Rightarrow> found res" where
  "step_requirement d pl n visiting k r st =
     (if map_option node_pin (node_of pl (req_provider r)) \<noteq> Some (req_pin r)
      then Inl (ValueError ''requirement pin disagreement'')
      else visit d pl n (k # visiting) (''skill'', req_provider r) (fst st @ [requirement_edge k r], snd st))"

lemma visit_Suc:
  "visit d pl (Suc n) visiting k st = Inr st' \<longleftrightarrow>
     k \<notin> set visiting \<and> (\<exists>p. package_of d k = Some p \<and>
       (if k \<in> set (snd st) then st' = st
        else \<exists>es ks. fold_res (step_requirement d pl n visiting k) (pkg_requirements p) st = Inr (es, ks) \<and> st' = (es, ks @ [k])))"
proof -
  have "(\<lambda>r (es, done). if map_option node_pin (node_of pl (req_provider r)) \<noteq> Some (req_pin r)
      then Inl (ValueError ''requirement pin disagreement'')
      else visit d pl n (k # visiting) (''skill'', req_provider r) (es @ [requirement_edge k r], done))
    = step_requirement d pl n visiting k"
    by (auto simp: step_requirement_def fun_eq_iff)
  then show ?thesis by (auto simp: and_then_pair_ok_iff split: option.split)
qed

definition visits :: "data \<Rightarrow> plan \<Rightarrow> nat \<Rightarrow> bool" where
  "visits d pl n = (\<forall>visiting k st st'. visit d pl n visiting k st = Inr st' \<longrightarrow> sound d pl visiting (snd st) \<longrightarrow> needed d k \<longrightarrow>
     sound d pl visiting (snd st') \<and> grown d st st' {} \<and> k \<in> set (snd st'))"

lemma fold_requirements:
  assumes "visits d pl n" "needed d k" "package_of d k = Some p" "set rs \<subseteq> set (pkg_requirements p)"
    and "fold_res (step_requirement d pl n visiting k) rs st = Inr st'" "sound d pl (k # visiting) (snd st)"
  shows "sound d pl (k # visiting) (snd st') \<and> grown d st st' (requirement_edge k ` set rs) \<and>
    (\<forall>r \<in> set rs. (''skill'', req_provider r) \<in> set (snd st') \<and>
      map_option node_pin (node_of pl (req_provider r)) = Some (req_pin r))"
  using assms(4-)
proof (induction rs arbitrary: st)
  case Nil
  then show ?case by (auto simp: grown_def edges_of_def)
next
  case (Cons r rs)
  then obtain u where u: "step_requirement d pl n visiting k r st = Inr u"
    and rest: "fold_res (step_requirement d pl n visiting k) rs u = Inr st'" by (auto simp: and_then_ok_iff)
  from u have pin: "map_option node_pin (node_of pl (req_provider r)) = Some (req_pin r)"
    and v: "visit d pl n (k # visiting) (''skill'', req_provider r) (fst st @ [requirement_edge k r], snd st) = Inr u"
    by (auto simp: step_requirement_def split: if_splits)
  have "needed d (''skill'', req_provider r)" using assms(2,3) Cons.prems(1) by (auto intro: needed.requirement)
  with v assms(1) Cons.prems(3) have s: "sound d pl (k # visiting) (snd u)"
    and g: "grown d (fst st @ [requirement_edge k r], snd st) u {}" and m: "(''skill'', req_provider r) \<in> set (snd u)"
    unfolding visits_def by (metis snd_conv)+
  have "grown d st u {requirement_edge k r}" using g by (auto simp: grown_def)
  moreover note IH = Cons.IH [OF _ rest s]
  ultimately show ?case using Cons.prems(1) m pin grown_trans [of d st u "{requirement_edge k r}" st'] grown_set [of d u st'] by auto
qed

lemma visits: "visits d pl n"
proof (induction n)
  case 0
  then show ?case by (simp add: visits_def)
next
  case (Suc n)
  show ?case unfolding visits_def
  proof (intro allI impI)
    fix visiting k st st'
    assume v: "visit d pl (Suc n) visiting k st = Inr st'" and s: "sound d pl visiting (snd st)" and nk: "needed d k"
    then obtain p where k: "k \<notin> set visiting" and p: "package_of d k = Some p"
      and cases: "if k \<in> set (snd st) then st' = st
        else \<exists>es ks. fold_res (step_requirement d pl n visiting k) (pkg_requirements p) st = Inr (es, ks) \<and> st' = (es, ks @ [k])"
      unfolding visit_Suc by blast
    show "sound d pl visiting (snd st') \<and> grown d st st' {} \<and> k \<in> set (snd st')"
    proof (cases "k \<in> set (snd st)")
      case True
      with cases s show ?thesis by (auto simp: grown_def edges_of_def)
    next
      case False
      with cases obtain es ks where f: "fold_res (step_requirement d pl n visiting k) (pkg_requirements p) st = Inr (es, ks)"
        and st': "st' = (es, ks @ [k])" by auto
      have "sound d pl (k # visiting) (snd st)" using s False by (auto simp: sound_def)
      from fold_requirements [OF Suc nk p _ f this] have s': "sound d pl (k # visiting) ks"
        and g: "grown d st (es, ks) (requirement_edge k ` set (pkg_requirements p))"
        and "settled d pl ks k"
        by (auto simp: settled_def p list_all_iff)
      then have "sound d pl visiting (ks @ [k])" using nk k by (auto simp: sound_def settled_snoc)
      moreover have "grown d st st' {}"
        using g edges_of_insert [OF p] unfolding grown_def st' by auto
      ultimately show ?thesis by (simp add: st')
    qed
  qed
qed

lemma visit_member_found:
  assumes "visit_member d pl m st = Inr st'" "m \<in> set (lock_members (d_lock d))" "sound d pl [] (snd st)"
  shows "sound d pl [] (snd st') \<and> grown d st st' {} \<and> (mem_kind m = ''context'' \<longrightarrow> (''context'', mem_name m) \<in> set (snd st'))"
proof (cases "mem_kind m = ''context''")
  case True
  with assms(1) have "visit d pl (Suc (length (d_packages d))) [] (''context'', mem_name m) st = Inr st'"
    by (auto simp: visit_member_def and_then_ok_iff simp del: visit.simps split: if_splits)
  with visits [of d pl "Suc (length (d_packages d))"] assms(3) needed.listed [OF assms(2) True] show ?thesis
    unfolding visits_def by blast
next
  case False
  with assms show ?thesis by (auto simp: visit_member_def grown_def edges_of_def)
qed

lemma fold_members:
  assumes "fold_res (visit_member d pl) ms st = Inr st'" "set ms \<subseteq> set (lock_members (d_lock d))" "sound d pl [] (snd st)"
  shows "sound d pl [] (snd st') \<and> grown d st st' {} \<and>
    (\<forall>m \<in> set ms. mem_kind m = ''context'' \<longrightarrow> (''context'', mem_name m) \<in> set (snd st'))"
  using assms
proof (induction ms arbitrary: st)
  case Nil
  then show ?case by (auto simp: grown_def edges_of_def)
next
  case (Cons m ms)
  then obtain u where u: "visit_member d pl m st = Inr u" and rest: "fold_res (visit_member d pl) ms u = Inr st'"
    by (auto simp: and_then_ok_iff)
  have m: "m \<in> set (lock_members (d_lock d))" and ms: "set ms \<subseteq> set (lock_members (d_lock d))" using Cons.prems(2) by auto
  note here = visit_member_found [OF u m Cons.prems(3)]
  then have "sound d pl [] (snd u)" by blast
  note later = Cons.IH [OF rest ms this]
  have "grown d st st' {}" using here later grown_trans [of d st u "{}" st' "{}"] by simp
  moreover have "set (snd u) \<subseteq> set (snd st')" using later grown_set by blast
  ultimately show ?case using here later by auto
qed

lemma visit_all_found:
  assumes "visit_all d pl = Inr (es, ks)"
  shows "distinct ks" "settled_list d pl [] ks" "set ks = {k. needed d k}" "set es = edges_of d {k. needed d k}"
proof -
  have "fold_res (visit_member d pl) (lock_members (d_lock d)) ([], []) = Inr (es, ks)"
    using assms by (auto simp: visit_all_def split: sum.splits failure.splits)
  from fold_members [OF this] have s: "sound d pl [] ks" and g: "grown d ([], []) (es, ks) {}"
    and ctx: "\<forall>m \<in> set (lock_members (d_lock d)). mem_kind m = ''context'' \<longrightarrow> (''context'', mem_name m) \<in> set ks"
    by (auto simp: sound_def)
  show "distinct ks" "settled_list d pl [] ks" using s by (simp_all add: sound_def)
  have closed: "(''skill'', req_provider r) \<in> set ks" if "k \<in> set ks" "package_of d k = Some p" "r \<in> set (pkg_requirements p)" for k p r
  proof -
    from that(1) obtain i where i: "i < length ks" "k = ks ! i" by (metis in_set_conv_nth)
    with settled_nth [OF \<open>settled_list d pl [] ks\<close> i(1)] that(2,3) show ?thesis
      by (auto simp: settled_def list_all_iff dest: in_set_takeD)
  qed
  have "k \<in> set ks" if "needed d k" for k using that by (induction rule: needed.induct) (use ctx closed in auto)
  then show ks: "set ks = {k. needed d k}" using s by (auto simp: sound_def)
  show "set es = edges_of d {k. needed d k}" using g by (auto simp: grown_def ks [symmetric])
qed

lemma plan_error_none:
  assumes "plan_error sha valid_lock d = Inr None"
  obtains pl es ks where "check_binding sha valid_lock d = Inr pl" "check_directs sha d pl = Inr ()" "visit_all d pl = Inr (es, ks)"
    "check_graph d pl (es, ks) = Inr ()" "for_each (check_node d pl) (plan_nodes pl) = Inr ()"
    "for_each (check_edge d) (plan_edges pl) = Inr ()" "distinct (map (\<lambda>p. (pkg_kind p, pkg_name p)) (d_packages d))"
proof -
  have "\<exists>x. plan_check sha valid_lock d = Inr x" using assms by (auto simp: plan_error_def split: sum.splits failure.splits)
  then show thesis using that unfolding plan_check_def by (auto simp: and_then_ok_iff simp del: for_each_ok_iff)
qed

lemma check_binding_plan: "check_binding sha valid_lock d = Inr pl \<Longrightarrow>
    lock_plan (d_lock d) = Some pl \<and> in_order (map node_name (plan_nodes pl)) \<and> in_order (map edge_key (plan_edges pl))"
  by (auto simp: check_binding_def Let_def and_then_ok_iff present_def split: option.splits)

lemma present_ok_iff: "present v k = Inr x \<longleftrightarrow> v = Some x"
  by (simp add: present_def split: option.split)

section \<open>Properties of admission\<close>

text \<open>
  The check of a plan ends.  Whatever the lock and the packages are, the depth-first visit of
  the requirements never runs out of the depth it is given, one more than there are packages.
\<close>

theorem outcome_ends: "outcome sha valid_lock d \<noteq> Inl OutOfFuel"
proof -
  have "plan_error sha valid_lock d \<noteq> Inl OutOfFuel"
    using plan_check_fuel [of sha valid_lock d] by (auto simp: plan_error_def split: sum.splits failure.splits)
  moreover have "activation_of d pl n \<noteq> Inl OutOfFuel" for pl n
    by (auto simp: activation_of_def fuel_simps split: option.splits prod.splits)
  then have "map_res (activation_of d pl) ns \<noteq> Inl OutOfFuel" for pl ns by (rule map_fuel)
  then have "activation d \<noteq> Inl OutOfFuel" by (auto simp: activation_def and_then_err_iff)
  moreover have "refused_with d e = Inl OutOfFuel \<longleftrightarrow> e = OutOfFuel" for e
    by (auto simp: refused_with_def split: failure.splits)
  moreover have "admit d active \<noteq> Inl OutOfFuel" for active
  proof -
    have "claim_names ci active \<noteq> Inl OutOfFuel" for ci
      by (auto simp: claim_names_def claim_name_def Let_def intro!: fold_fuel split: if_splits)
    then have "check_names d active \<noteq> Inl OutOfFuel"
      unfolding check_names_def by (intro fuel_intros) (auto simp: Let_def)
    then show ?thesis by (auto simp: admit_def fuel_simps split: option.splits if_splits)
  qed
  ultimately show ?thesis
    unfolding outcome_def by (intro fuel_intros) (auto simp: and_then_err_iff split: option.splits sum.splits)
qed

text \<open>
  An accepted plan is a closed, acyclic order of installation.  The contexts of the lock and all
  they require, directly or not, are exactly the keys of one list without repetition, in which the
  providers of every package come before it, pinned as the package asks; the skills among them are
  exactly the nodes of the plan.
\<close>

theorem plan_accept_closure:
  assumes "plan_error sha valid_lock d = Inr None"
  shows "\<exists>pl order. lock_plan (d_lock d) = Some pl \<and> distinct order \<and> set order = {k. needed d k} \<and>
    (\<forall>i < length order. settled d pl (take i order) (order ! i)) \<and>
    set (map node_name (plan_nodes pl)) = {name. needed d (''skill'', name)}"
proof -
  from assms obtain pl es ks where c: "check_binding sha valid_lock d = Inr pl" "visit_all d pl = Inr (es, ks)"
    "check_graph d pl (es, ks) = Inr ()" by (rule plan_error_none)
  note found = visit_all_found [OF c(2)]
  have "set (map node_name (plan_nodes pl)) = set (map snd (filter (\<lambda>k. fst k = ''skill'') ks))"
    using c(3) by (auto simp: check_graph_def and_then_ok_iff)
  also have "\<dots> = {name. needed d (''skill'', name)}" using found(3) by force
  finally show ?thesis
    using check_binding_plan [OF c(1)] found(1,3) settled_nth [OF found(2)] by auto
qed

text \<open>
  An accepted plan says what the packages say.  Its edges are exactly the requirements of the
  needed packages and the direct declarations of its skills; every node carries the pin and the
  content of its package, and every command an edge names is one its provider exports.
\<close>

theorem plan_accept_facts:
  assumes "plan_error sha valid_lock d = Inr None"
  shows "\<exists>pl. lock_plan (d_lock d) = Some pl \<and>
    set (plan_edges pl) = edges_of d {k. needed d k} \<union> direct_edge ` set (overlaps d pl) \<and>
    (\<forall>n \<in> set (plan_nodes pl). \<exists>p. package_of d (''skill'', node_name n) = Some p \<and> pkg_pin p = Inr (node_pin n) \<and>
      pkg_content p = Some (node_content n)) \<and>
    (\<forall>e \<in> set (plan_edges pl). \<forall>cs. edge_commands e = Some cs \<longrightarrow> cs \<noteq> [] \<longrightarrow>
      (\<exists>p offered. package_of d (''skill'', edge_provider e) = Some p \<and> pkg_commands p = Some offered \<and> list_all (exported offered) cs))"
proof -
  from assms obtain pl es ks where c: "check_binding sha valid_lock d = Inr pl" "visit_all d pl = Inr (es, ks)"
    "check_graph d pl (es, ks) = Inr ()" "for_each (check_node d pl) (plan_nodes pl) = Inr ()"
    "for_each (check_edge d) (plan_edges pl) = Inr ()" by (rule plan_error_none)
  have "set (plan_edges pl) = set es \<union> direct_edge ` set (overlaps d pl)"
    using c(3) by (auto simp: check_graph_def and_then_ok_iff)
  moreover have "\<exists>p. package_of d (''skill'', node_name n) = Some p \<and> pkg_pin p = Inr (node_pin n) \<and>
      pkg_content p = Some (node_content n)" if "n \<in> set (plan_nodes pl)" for n
    using c(4) that by (fastforce simp: for_each_ok_iff check_node_def and_then_ok_iff present_ok_iff)
  moreover have "\<exists>p offered. package_of d (''skill'', edge_provider e) = Some p \<and> pkg_commands p = Some offered \<and> list_all (exported offered) cs"
    if "e \<in> set (plan_edges pl)" "edge_commands e = Some cs" "cs \<noteq> []" for e cs
    using c(5) that by (fastforce simp: for_each_ok_iff check_edge_def check_commands_def and_then_ok_iff present_ok_iff)
  ultimately show ?thesis using check_binding_plan [OF c(1)] visit_all_found(4) [OF c(2)] by auto
qed

section \<open>Properties of the outcome\<close>

lemma map_of_key: "map_of xs k = Some v \<Longrightarrow> k \<in> set (map fst xs)"
  by (metis domI dom_map_of_conv_image_fst list.set_map)

text \<open>A name once claimed keeps its owner.\<close>

lemma claim_name_ok:
  "claim_name ci provider c owners = Inr owners' \<Longrightarrow>
     map_of owners \<subseteq>\<^sub>m map_of owners' \<and> map_of owners' (fold_name ci c) = Some provider \<and> \<not> reserved_command c ci"
  using map_of_key [of owners "fold_name ci c"] by (auto simp: claim_name_def Let_def map_le_def split: if_splits)

lemma claim_commands_ok:
  "fold_res (claim_name ci provider) cs owners = Inr owners' \<Longrightarrow>
     map_of owners \<subseteq>\<^sub>m map_of owners' \<and>
     (\<forall>c \<in> set cs. map_of owners' (fold_name ci c) = Some provider \<and> \<not> reserved_command c ci)"
proof (induction cs arbitrary: owners)
  case (Cons c cs)
  then obtain u where u: "claim_name ci provider c owners = Inr u" and r: "fold_res (claim_name ci provider) cs u = Inr owners'"
    by (auto simp: and_then_ok_iff)
  show ?case using claim_name_ok [OF u] Cons.IH [OF r] by (auto intro: map_le_trans) (auto simp: map_le_def dom_def)
qed simp

lemma claim_names_ok:
  assumes "claim_names ci active = Inr owners"
  shows "\<forall>s \<in> set active. \<forall>c \<in> set (sur_commands s). map_of owners (fold_name ci c) = Some (sur_name s) \<and> \<not> reserved_command c ci"
proof -
  have "fold_res (\<lambda>s. fold_res (claim_name ci (sur_name s)) (sur_commands s)) as before = Inr owners \<Longrightarrow>
     map_of before \<subseteq>\<^sub>m map_of owners \<and>
     (\<forall>s \<in> set as. \<forall>c \<in> set (sur_commands s). map_of owners (fold_name ci c) = Some (sur_name s) \<and> \<not> reserved_command c ci)"
    for as before
  proof (induction as arbitrary: before)
    case (Cons s as)
    then obtain u where u: "fold_res (claim_name ci (sur_name s)) (sur_commands s) before = Inr u"
      and r: "fold_res (\<lambda>s. fold_res (claim_name ci (sur_name s)) (sur_commands s)) as u = Inr owners" by (auto simp: and_then_ok_iff)
    show ?case using claim_commands_ok [OF u] Cons.IH [OF r] by (auto intro: map_le_trans) (auto simp: map_le_def dom_def)
  qed simp
  from this [OF assms [unfolded claim_names_def]] show ?thesis by blast
qed

lemma check_names_ok:
  assumes "check_names d active = Inr ()" "s \<in> set active" "c \<in> set (sur_commands s)"
  shows "\<not> reserved_command c (d_case_insensitive d)"
    and "\<forall>t \<in> set active. \<forall>e \<in> set (sur_commands t). fold_name (d_case_insensitive d) e = fold_name (d_case_insensitive d) c \<longrightarrow> sur_name t = sur_name s"
    and "\<forall>(e, provider) \<in> set (d_retained_commands d). fold_name (d_case_insensitive d) e = fold_name (d_case_insensitive d) c \<longrightarrow> provider = sur_name s"
    and "\<forall>e \<in> set (d_unmanaged d). fold_name (d_case_insensitive d) e \<noteq> fold_name (d_case_insensitive d) c"
proof -
  let ?fold = "fold_name (d_case_insensitive d)"
  obtain owners where o: "claim_names (d_case_insensitive d) active = Inr owners"
    and r': "\<forall>x \<in> set (d_retained_commands d). (case x of (command, provider) \<Rightarrow>
       let name = ?fold command in
       guard (\<not> (name \<in> set (map fst owners) \<and> map_of owners name \<noteq> Some provider)) (Refusal ''profile_skill_command_conflict'')) = Inr ()"
    and u': "\<forall>x \<in> set (d_unmanaged d). guard (?fold x \<notin> set (map fst owners)) (Refusal ''environment_surface_unmanaged_conflict'') = Inr ()"
    using assms(1) unfolding check_names_def and_then_ok_iff for_each_ok_iff by blast
  have r: "\<forall>(e, provider) \<in> set (d_retained_commands d). ?fold e \<in> set (map fst owners) \<longrightarrow> map_of owners (?fold e) = Some provider"
    using r' by (simp add: Let_def split_beta del: set_map)
  have u: "\<forall>e \<in> set (d_unmanaged d). ?fold e \<notin> set (map fst owners)" using u' by (simp del: set_map)
  note own = claim_names_ok [OF o]
  have c: "map_of owners (fold_name (d_case_insensitive d) c) = Some (sur_name s)" using own assms(2,3) by blast
  show "\<not> reserved_command c (d_case_insensitive d)" using own assms(2,3) by blast
  show "\<forall>t \<in> set active. \<forall>e \<in> set (sur_commands t). fold_name (d_case_insensitive d) e = fold_name (d_case_insensitive d) c \<longrightarrow> sur_name t = sur_name s"
    using own c by force
  show "\<forall>(e, provider) \<in> set (d_retained_commands d). fold_name (d_case_insensitive d) e = fold_name (d_case_insensitive d) c \<longrightarrow> provider = sur_name s"
    using r c map_of_key [OF c] by fastforce
  show "\<forall>e \<in> set (d_unmanaged d). fold_name (d_case_insensitive d) e \<noteq> fold_name (d_case_insensitive d) c"
    using u map_of_key [OF c] by metis
qed

text \<open>The ways an operation ends.\<close>

lemma refused_with_ok: "refused_with d e = Inr r \<Longrightarrow> r_state r = old_states \<and> r_effects r = [] \<and> r_removed r = [] \<and> r_activation r = []"
  by (auto simp: refused_with_def untouched_def split: failure.splits)

lemma published_state: "st_records (r_state (published d active)) = ''new'' \<and> st_runtime (r_state (published d active)) = ''new''
    \<and> r_activation (published d active) = active \<and> r_removed (published d active) = removed_names d"
  by (simp add: published_def Let_def untouched_def)

lemma outcome_cases:
  assumes "outcome sha valid_lock d = Inr r"
  obtains "r_state r = old_states" "set (r_effects r) \<subseteq> {''recover-old''}" "r_removed r = []"
  | active where "plan_error sha valid_lock d = Inr None" "companions_qualified d" "activation d = Inr active" "d_operation d \<noteq> ''status''"
      "admit d active = Inr ()" "r = published d active"
proof -
  obtain err where err: "plan_error sha valid_lock d = Inr err" using assms by (auto simp: outcome_def and_then_ok_iff)
  consider (refused) e where "refused_with d e = Inr r" | (ok) active where "err = None" "companions_qualified d" "activation d = Inr active"
      "(if d_operation d = ''status'' then Inr ((untouched d)\<lparr>r_activation := active,
          r_diagnostic := (if d_phase d \<noteq> ''absent'' then Some ''profile_skill_recovery_pending'' else None)\<rparr>)
        else case admit d active of Inl e \<Rightarrow> refused_with d e
          | Inr _ \<Rightarrow> if d_operation d = ''recover'' \<and> d_phase d \<in> {''absent'', ''preparing'', ''rolling_back'', ''rollback_cleanup''}
               then Inr ((untouched d)\<lparr>r_effects := [''recover-old'']\<rparr>) else Inr (published d active)) = Inr r"
    using assms err by (cases err) (auto simp: outcome_def and_then_ok_iff simp del: if_split_asm split: if_splits)
  then show thesis
  proof cases
    case refused
    with refused_with_ok [of d e r] that(1) show thesis by simp
  next
    case ok
    consider (early) "r_state r = old_states" "set (r_effects r) \<subseteq> {''recover-old''}" "r_removed r = []"
      | (publish) "d_operation d \<noteq> ''status''" "admit d active = Inr ()" "r = published d active"
      using ok(4) refused_with_ok [of d _ r] by (auto simp: untouched_def split: if_splits sum.splits)
    then show thesis using that ok err by cases auto
  qed
qed

text \<open>
  C40: an operation changes everything or nothing.  Either every surface keeps its old state, nothing
  is removed, and at most the old generation is recovered; or the plan was accepted, its companions
  are qualified, records and runtime are new together, exactly the stale names owned by the profile
  alone are removed, and the routing was exclusive if the operation is live: one that is not live
  publishes under any routing.
\<close>

theorem outcome_all_or_nothing:
  assumes "outcome sha valid_lock d = Inr r"
  shows "(r_state r = old_states \<and> set (r_effects r) \<subseteq> {''recover-old''} \<and> r_removed r = []) \<or>
    (plan_error sha valid_lock d = Inr None \<and> companions_qualified d \<and> (is_live d \<longrightarrow> d_routing d = ''exclusive'') \<and>
     st_records (r_state r) = ''new'' \<and> st_runtime (r_state r) = ''new'' \<and>
     set (r_removed r) = {stale_name s | s. s \<in> set (d_stale d) \<and> stale_owners s = Some [''profile'']} \<and>
     (\<forall>s \<in> set (d_stale d). stale_owners s \<noteq> None))"
  using assms
proof (cases rule: outcome_cases)
  case (2 active)
  have "is_live d \<longrightarrow> d_routing d = ''exclusive''" "\<forall>s \<in> set (d_stale d). stale_owners s \<noteq> None"
    using 2(5) by (auto simp: admit_def and_then_ok_iff list_all_iff)
  moreover have "set (removed_names d) = {stale_name s | s. s \<in> set (d_stale d) \<and> stale_owners s = Some [''profile'']}"
    by (auto simp: removed_names_def)
  ultimately show ?thesis using 2 published_state [of d active] by simp
qed simp

text \<open>
  A published command has one owner.  When an operation publishes, no activated command has a
  reserved name or the name of an unmanaged file, and two activated or retained commands whose names
  the file system identifies have the same provider.
\<close>

theorem published_commands_owned:
  assumes "outcome sha valid_lock d = Inr r" and "r_state r \<noteq> old_states"
    and "s \<in> set (r_activation r)" and "c \<in> set (sur_commands s)"
  shows "\<not> reserved_command c (d_case_insensitive d) \<and>
    (\<forall>t \<in> set (r_activation r). \<forall>e \<in> set (sur_commands t).
       fold_name (d_case_insensitive d) e = fold_name (d_case_insensitive d) c \<longrightarrow> sur_name t = sur_name s) \<and>
    (\<forall>(e, provider) \<in> set (d_retained_commands d).
       fold_name (d_case_insensitive d) e = fold_name (d_case_insensitive d) c \<longrightarrow> provider = sur_name s) \<and>
    (\<forall>e \<in> set (d_unmanaged d). fold_name (d_case_insensitive d) e \<noteq> fold_name (d_case_insensitive d) c)"
  using assms(1)
proof (cases rule: outcome_cases)
  case 1
  with assms(2) show ?thesis by simp
next
  case (2 active)
  have "check_names d active = Inr ()" using 2(5) by (auto simp: admit_def and_then_ok_iff)
  moreover have "r_activation r = active" using 2(6) published_state by simp
  ultimately show ?thesis using check_names_ok [of d active s c] assms(3,4) by blast
qed

section \<open>An accepted plan\<close>

text \<open>A profile that requires \<open>memory\<close>, which requires \<open>helper\<close>; \<open>memory\<close> is declared directly too.\<close>

definition flat_sha :: "string \<Rightarrow> string" where
  "flat_sha _ = ''d''"

definition lock_ok :: "json \<Rightarrow> bool" where
  "lock_ok _ = True"

definition ex_pin :: "string \<Rightarrow> pin" where
  "ex_pin name = (''h/'' @ name, ''1'', ''.'')"

definition ex_ref :: ref where
  "ex_ref = \<lparr>ref_kind = ''revision'', ref_value = ''1''\<rparr>"

definition ex_skill :: "string \<Rightarrow> requirement list \<Rightarrow> (string \<times> string) list \<Rightarrow> package" where
  "ex_skill name rs cs =
     \<lparr>pkg_kind = ''skill'', pkg_name = name, pkg_source = Some (''h/'' @ name), pkg_commit = Some ''1'', pkg_directory = Some ''.'',
      pkg_version = None, pkg_state = None, pkg_content = Some ''a'', pkg_requirements = rs, pkg_commands = Some cs,
      pkg_admitted_tags = [], pkg_observed_tags = None\<rparr>"

definition ex_requires :: "string \<Rightarrow> string \<Rightarrow> string list option \<Rightarrow> requirement" where
  "ex_requires name mode cs =
     \<lparr>req_provider = name, req_pin = ex_pin name, req_ref = ex_ref, req_mode = Some mode, req_commands = cs\<rparr>"

definition ex_member :: "string \<Rightarrow> string \<Rightarrow> string list \<Rightarrow> member" where
  "ex_member kind name by =
     \<lparr>mem_kind = kind, mem_name = name, mem_source = Some (''h/'' @ name), mem_commit = Some ''1'', mem_directory = Some ''.'',
      mem_version = (if kind = ''context'' then Some ''1.0.0'' else None), mem_state = None, mem_required_by = by, mem_rest = []\<rparr>"

definition ex_node :: "string \<Rightarrow> node" where
  "ex_node name = \<lparr>node_name = name, node_pin = ex_pin name, node_content = ''a'', node_rest = []\<rparr>"

definition ex_edge :: "key \<Rightarrow> string \<Rightarrow> string \<Rightarrow> string list option \<Rightarrow> edge" where
  "ex_edge consumer provider mode cs =
     \<lparr>edge_consumer = consumer, edge_provider = provider, edge_ref = ex_ref, edge_mode = mode, edge_commands = cs\<rparr>"

definition ex_plan :: plan where
  "ex_plan = \<lparr>plan_nodes = [ex_node ''helper'', ex_node ''memory''],
     plan_edges = [ex_edge (''context'', ''work'') ''memory'' ''runtime'' (Some [''memory'']),
       ex_edge (''machine'', ''memory'') ''memory'' ''full'' None, ex_edge (''skill'', ''memory'') ''helper'' ''context'' None],
     plan_directs = [\<lparr>con_name = ''memory'', con_pin = ex_pin ''memory'', con_ref = ex_ref, con_declaration = ''sha256:d''\<rparr>],
     plan_rest = []\<rparr>"

definition ex_data :: data where
  "ex_data = \<lparr>
     d_lock = \<lparr>lock_version = Some 5, lock_plan_sha256 = Some ''sha256:d'', lock_plan = Some ex_plan,
       lock_members = [ex_member ''context'' ''work'' [], ex_member ''skill'' ''helper'' [''memory''], ex_member ''skill'' ''memory'' [''work'']],
       lock_rest = []\<rparr>,
     d_runtime_sha256 = ''sha256:d'', d_reader = 5, d_operation = ''install'',
     d_packages = [
       (ex_skill ''work'' [ex_requires ''memory'' ''runtime'' (Some [''memory''])] [])
         \<lparr>pkg_kind := ''context'', pkg_version := Some ''1.0.0''\<rparr>,
       ex_skill ''helper'' [] [(''helper'', ''script'')],
       ex_skill ''memory'' [ex_requires ''helper'' ''context'' None] [(''doctor'', ''script''), (''memory'', ''build''), (''git'', ''system'')]],
     d_direct = [\<lparr>dir_name = ''memory'', dir_pin = ex_pin ''memory'', dir_ref = ex_ref, dir_declaration = JNull, dir_observed = ''1''\<rparr>],
     d_retained_members = [], d_retained_commands = [(''task-board'', ''task-board'')],
     d_stale = [\<lparr>stale_name = ''gone'', stale_owners = Some [''profile'']\<rparr>], d_unmanaged = [''make''], d_case_insensitive = True,
     d_routing = ''exclusive'', d_phase = ''absent'', d_fault = None, d_requested = None, d_companions = []\<rparr>"

lemma ex_binding: "check_binding flat_sha lock_ok ex_data = Inr ex_plan"
proof -
  have "in_order (map node_name (plan_nodes ex_plan)) \<and> in_order (map edge_key (plan_edges ex_plan)) \<and>
    in_order (map con_name (plan_directs ex_plan)) \<and> in_order (map (\<lambda>m. (mem_kind m, mem_name m)) (lock_members (d_lock ex_data)))"
    by code_simp
  moreover have "lock_version (d_lock ex_data) = Some 5" "d_reader ex_data = 5" "lock_plan (d_lock ex_data) = Some ex_plan"
    "lock_plan_sha256 (d_lock ex_data) = Some ''sha256:d''" "d_runtime_sha256 ex_data = ''sha256:d''" by (simp_all add: ex_data_def)
  ultimately show ?thesis
    by (simp add: check_binding_def ccj1_sha256_def flat_sha_def lock_ok_def present_def)
qed

lemma ex_accepted: "plan_error flat_sha lock_ok ex_data = Inr None"
proof -
  have "and_then (check_directs flat_sha ex_data ex_plan) (\<lambda>_. guard (distinct (map (\<lambda>p. (pkg_kind p, pkg_name p)) (d_packages ex_data))) invalid) = Inr ()"
    by code_simp
  moreover have "and_then (visit_all ex_data ex_plan) (\<lambda>fd.
       and_then (check_graph ex_data ex_plan fd) (\<lambda>_.
       and_then (check_members ex_data ex_plan) (\<lambda>_.
       and_then (for_each (check_node ex_data ex_plan) (plan_nodes ex_plan)) (\<lambda>_.
       for_each (check_edge ex_data) (plan_edges ex_plan))))) = Inr ()"
    by code_simp
  ultimately have "\<exists>x. plan_check flat_sha lock_ok ex_data = Inr x"
    unfolding plan_check_def ex_binding and_then_Inr by (auto simp: and_then_ok_iff simp del: for_each_ok_iff)
  then show ?thesis by (auto simp: plan_error_def)
qed

definition ex_active :: "surfaces list" where
  "ex_active = [\<lparr>sur_name = ''helper'', sur_context = True, sur_commands = []\<rparr>,
     \<lparr>sur_name = ''memory'', sur_context = True, sur_commands = [''doctor'', ''memory'']\<rparr>]"

lemma ex_outcome: "outcome flat_sha lock_ok ex_data = Inr (published ex_data ex_active)"
proof -
  have "activation ex_data = Inr ex_active" "admit ex_data ex_active = Inr ()" "companions_qualified ex_data"
    "d_operation ex_data \<noteq> ''status''" "d_operation ex_data \<noteq> ''recover''" by code_simp+
  then show ?thesis by (simp add: outcome_def ex_accepted)
qed

theorem plan_accept_closure_witness:
  "\<exists>pl order. lock_plan (d_lock ex_data) = Some pl \<and> distinct order \<and> set order = {k. needed ex_data k} \<and>
     {name. needed ex_data (''skill'', name)} = {''helper'', ''memory''}"
proof -
  from plan_accept_closure [OF ex_accepted] obtain pl order where p: "lock_plan (d_lock ex_data) = Some pl" "distinct order"
    "set order = {k. needed ex_data k}" "set (map node_name (plan_nodes pl)) = {name. needed ex_data (''skill'', name)}" by blast
  moreover have "pl = ex_plan" using p(1) by (simp add: ex_data_def)
  moreover have "set (map node_name (plan_nodes ex_plan)) = {''helper'', ''memory''}" by (simp add: ex_plan_def ex_node_def)
  ultimately show ?thesis by blast
qed

theorem plan_accept_facts_witness:
  "\<exists>pl. lock_plan (d_lock ex_data) = Some pl \<and>
     set (plan_edges pl) = edges_of ex_data {k. needed ex_data k} \<union> direct_edge ` set (overlaps ex_data pl) \<and> overlaps ex_data pl \<noteq> []"
proof -
  from plan_accept_facts [OF ex_accepted] obtain pl where p: "lock_plan (d_lock ex_data) = Some pl"
    "set (plan_edges pl) = edges_of ex_data {k. needed ex_data k} \<union> direct_edge ` set (overlaps ex_data pl)" by blast
  moreover have "pl = ex_plan" using p(1) by (simp add: ex_data_def)
  moreover have "overlaps ex_data ex_plan \<noteq> []" by code_simp
  ultimately show ?thesis by blast
qed

theorem outcome_all_or_nothing_witness:
  "\<exists>r. outcome flat_sha lock_ok ex_data = Inr r \<and> st_records (r_state r) = ''new'' \<and> set (r_removed r) = {''gone''}"
proof -
  have n: "r_state (published ex_data ex_active) \<noteq> old_states" using published_state [of ex_data ex_active] by (auto simp: old_states_def)
  have "{stale_name s | s. s \<in> set (d_stale ex_data) \<and> stale_owners s = Some [''profile'']} = {''gone''}" by (auto simp: ex_data_def)
  with n outcome_all_or_nothing [OF ex_outcome] ex_outcome show ?thesis by auto
qed

theorem published_commands_owned_witness:
  "\<exists>r s. outcome flat_sha lock_ok ex_data = Inr r \<and> s \<in> set (r_activation r) \<and> ''doctor'' \<in> set (sur_commands s) \<and>
     \<not> reserved_command ''doctor'' (d_case_insensitive ex_data)"
proof -
  have n: "r_state (published ex_data ex_active) \<noteq> old_states" "r_activation (published ex_data ex_active) = ex_active"
    using published_state [of ex_data ex_active] by (auto simp: old_states_def)
  let ?s = "\<lparr>sur_name = ''memory'', sur_context = True, sur_commands = [''doctor'', ''memory'']\<rparr>"
  have s: "?s \<in> set (r_activation (published ex_data ex_active))" "''doctor'' \<in> set (sur_commands ?s)" unfolding n(2) by (simp_all add: ex_active_def)
  from published_commands_owned [OF ex_outcome n(1) s] ex_outcome s show ?thesis by blast
qed

end
