(* ===== verification/WireSources.thy ===== *)
theory WireSources
  imports JsonText
begin

text \<open>
  The source identities of the wire documents (\<open>tools/validate.py\<close>, from
  \<open>is_below_or_equal\<close> to \<open>validate_effective_source\<close>): repository addresses in their
  three forms, canonical network identities, tag and branch names, structured references, and the
  effective source of a locked build.  A verdict is \<open>None\<close> for an accepted value and the
  message otherwise.  Encoding a text of the model as UTF-8 never fails, so the messages about
  invalid Unicode have no counterpart.
\<close>

section \<open>Repository addresses\<close>

definition is_below_or_equal :: "string \<Rightarrow> string \<Rightarrow> bool" where
  "is_below_or_equal path base = (base = ''.'' \<or> path = base \<or> prefix (base @ ''/'') path)"

text \<open>
  The regular expressions, matched in full.  No part before the path can contain the character
  that ends it, so each match is found by cutting at the first such character; \<open>.\<close> matches
  everything but a line feed.
\<close>

definition host_text :: "string \<Rightarrow> bool" where
  "host_text s = (s \<noteq> [] \<and> is_alnum (hd s) \<and> list_all (\<lambda>c. is_alnum c \<or> c \<in> set ''.-'') (tl s))"

definition user_text :: "string \<Rightarrow> bool" where
  "user_text s = (s \<noteq> [] \<and> length s \<le> 64 \<and> is_alnum (hd s) \<and> list_all (\<lambda>c. is_alnum c \<or> c \<in> set ''._-'') (tl s))"

definition line_text :: "string \<Rightarrow> bool" where
  "line_text s = (s \<noteq> [] \<and> newline \<notin> set s)"

text \<open>A host, after an optional user.\<close>

definition authority :: "string \<Rightarrow> bool" where
  "authority s =
     (if CHR ''@'' \<in> set s then user_text (before_char (CHR ''@'') s) \<and> host_text (after_char (CHR ''@'') s)
      else host_text s)"

definition cut_path :: "(string \<Rightarrow> bool) \<Rightarrow> char \<Rightarrow> string \<Rightarrow> string option" where
  "cut_path front c s =
     (if c \<in> set s \<and> front (before_char c s) \<and> line_text (after_char c s) then Some (after_char c s) else None)"

definition match_https :: "string \<Rightarrow> string option" where
  "match_https v = (if prefix ''https://'' v then cut_path host_text (CHR ''/'') (drop 8 v) else None)"

definition match_ssh_uri :: "string \<Rightarrow> string option" where
  "match_ssh_uri v = (if prefix ''ssh://'' v then cut_path authority (CHR ''/'') (drop 6 v) else None)"

definition match_scp :: "string \<Rightarrow> string option" where
  "match_scp v = cut_path authority (CHR '':'') v"

definition ssh_path :: "string \<Rightarrow> bool" where
  "ssh_path s = (s \<noteq> [] \<and> list_all (\<lambda>c. is_alnum c \<or> c \<in> set ''._/-'') s)"

definition lowercase_host :: "string \<Rightarrow> bool" where
  "lowercase_host s =
     (s \<noteq> [] \<and> (is_lower (hd s) \<or> is_digit (hd s)) \<and> list_all (\<lambda>c. is_lower c \<or> is_digit c \<or> c \<in> set ''.-'') (tl s))"

definition forbidden_char :: "char \<Rightarrow> bool" where
  "forbidden_char c =
     (is_space c \<or> c \<in> set ''%?#:'' \<or> c = backslash \<or> ord_of c < 32 \<or> (127 \<le> ord_of c \<and> ord_of c \<le> 159))"

definition validate_repository_path :: "string \<Rightarrow> bool \<Rightarrow> string option" where
  "validate_repository_path path ssh =
     (if ssh \<and> \<not> ssh_path path
      then Some ''SSH repository path must contain only ASCII letters, digits, dot, underscore, hyphen, and slash''
      else if path = [] \<or> prefix ''/'' path \<or> suffix ''/'' path \<or>
        list_ex (\<lambda>w. w \<in> {[], ''.'', ''..''}) (split_on (CHR ''/'') path)
      then Some ''repository path must have non-empty components other than dot or dot-dot''
      else if list_ex forbidden_char path then Some ''repository path contains a forbidden character''
      else None)"

definition repository_git :: "string \<Rightarrow> string option" where
  "repository_git v =
     (if 4096 < length v then Some ''repository Git source exceeds 4096 Unicode scalar values''
      else case match_https v of
        Some path \<Rightarrow> validate_repository_path path False
      | None \<Rightarrow>
          (case match_ssh_uri v of
             Some path \<Rightarrow> validate_repository_path path True
           | None \<Rightarrow>
               (case match_scp v of
                  Some path \<Rightarrow> validate_repository_path path True
                | None \<Rightarrow> Some ''repository Git source must be exact HTTPS, SSH URI, or SSH SCP form'')))"

definition validate_repository_git :: "json \<Rightarrow> string option" where
  "validate_repository_git value = (case value of JStr v \<Rightarrow> repository_git v | _ \<Rightarrow> None)"

section \<open>Network identities\<close>

definition network_value :: "string \<Rightarrow> bool \<Rightarrow> string option" where
  "network_value v ssh =
     (if 4096 < length v \<or> CHR ''/'' \<notin> set v
      then Some ''network source identity must be canonical host/path of at most 4096 Unicode scalar values''
      else if \<not> lowercase_host (before_char (CHR ''/'') v)
      then Some ''network source identity host must use canonical lowercase ASCII spelling''
      else case validate_repository_path (after_char (CHR ''/'') v) ssh of
        Some e \<Rightarrow> Some (''network source identity is not canonical: '' @ e)
      | None \<Rightarrow>
          if suffix ''.git'' (after_char (CHR ''/'') v) then Some ''network source identity must remove one trailing lowercase .git''
          else None)"

definition validate_network_identity :: "json \<Rightarrow> json \<Rightarrow> string option" where
  "validate_network_identity identity transport =
     (case identity of
        JObj d \<Rightarrow>
          (if jget d ''kind'' \<noteq> JStr ''network-git'' then None
           else case jget d ''value'' of JStr v \<Rightarrow> network_value v (transport = JStr ''ssh'') | _ \<Rightarrow> None)
      | _ \<Rightarrow> None)"

section \<open>References\<close>

definition ref_char :: "char \<Rightarrow> bool" where
  "ref_char c = (\<not> (ord_of c \<le> 32 \<or> ord_of c = 127 \<or> c \<in> set ''~^:?*['' \<or> c = backslash))"

definition ref_component :: "string \<Rightarrow> bool" where
  "ref_component w = (w \<noteq> [] \<and> \<not> prefix ''.'' w \<and> \<not> suffix ''.lock'' w)"

definition ref_name :: "string \<Rightarrow> string option" where
  "ref_name v =
     (if \<not> (1 \<le> length (utf8 v) \<and> length (utf8 v) \<le> 255) then Some ''Git ref name must encode to 1 through 255 UTF-8 bytes''
      else if prefix ''/'' v \<or> suffix ''/'' v \<or> suffix ''.'' v \<or> \<not> list_all ref_component (split_on (CHR ''/'') v) \<or>
        contains ''..'' v \<or> contains [CHR ''@'', CHR ''{''] v \<or> v = ''@'' \<or> \<not> list_all ref_char v
      then Some ''Git ref name is not a safe exact tag or branch name''
      else None)"

definition validate_git_ref_name :: "json \<Rightarrow> string option" where
  "validate_git_ref_name value = (case value of JStr v \<Rightarrow> ref_name v | _ \<Rightarrow> None)"

text \<open>The object formats and their widths in hexadecimal digits.\<close>

definition object_width :: "json \<Rightarrow> int" where
  "object_width fmt = (if fmt = JStr ''sha1'' then 40 else 64)"

definition validate_structured_ref :: "json \<Rightarrow> json \<Rightarrow> string option res" where
  "validate_structured_ref r fmt =
     (case r of
        JObj d \<Rightarrow>
          and_then (in_frozenset (jget d ''kind'') [''tag'', ''branch'']) (\<lambda>named.
          if named then Inr (validate_git_ref_name (jget d ''value''))
          else case (jget d ''kind'', jget d ''value'') of
            (JStr k, JStr v) \<Rightarrow>
              (if k \<noteq> ''revision'' then Inr None
               else and_then (in_frozenset fmt [''sha1'', ''sha256'']) (\<lambda>known.
                 if known \<and> int (length v) \<noteq> object_width fmt
                 then Inr (Some (''structured revision width must match effective '' @ the_str fmt @ '' object format''))
                 else Inr None))
          | _ \<Rightarrow> Inr None)
      | _ \<Rightarrow> Inr None)"

section \<open>Effective sources\<close>

text \<open>Checks that return the first message, in order.\<close>

fun first_message :: "string option res list \<Rightarrow> string option res" where
  "first_message [] = Inr None"
| "first_message (c # cs) = and_then c (\<lambda>e. case e of Some m \<Rightarrow> Inr (Some m) | None \<Rightarrow> first_message cs)"

definition refuse_when :: "bool \<Rightarrow> string \<Rightarrow> string option res" where
  "refuse_when b m = Inr (if b then Some m else None)"

definition refuse_res :: "bool res \<Rightarrow> string \<Rightarrow> string option res" where
  "refuse_res c m = and_then c (\<lambda>b. refuse_when b m)"

lemma refuse_ok_none: "refuse_when b m = Inr None \<longleftrightarrow> \<not> b" "refuse_res c m = Inr None \<longleftrightarrow> c = Inr False"
  by (auto simp: refuse_when_def refuse_res_def and_then_ok_iff)

definition commit_width :: "dict \<Rightarrow> string option res" where
  "commit_width effective =
     (let fmt = jget effective ''object_format'' in
      and_then (in_frozenset fmt [''sha1'', ''sha256'']) (\<lambda>known.
      case jget effective ''commit'' of
        JStr c \<Rightarrow> refuse_when (known \<and> int (length c) \<noteq> object_width fmt)
          (''effective commit width must match '' @ the_str fmt @ '' object format'')
      | _ \<Rightarrow> Inr None))"

definition same_source :: "dict \<Rightarrow> dict \<Rightarrow> bool" where
  "same_source declared effective =
     (case jget_or (JObj []) declared ''locked_commit'' of
        JObj locked \<Rightarrow>
          py_eq (jget effective ''identity'') (jget declared ''identity'') \<and>
          py_eq (jget effective ''transport'') (jget declared ''transport'') \<and>
          py_eq (jget effective ''object_format'') (jget locked ''object_format'') \<and>
          py_eq (jget effective ''commit'') (jget locked ''hex'')
      | _ \<Rightarrow> False)"

definition substitution_kind :: "dict \<Rightarrow> string option" where
  "substitution_kind effective =
     (if jget effective ''substituted'' = JBool False then None
      else case (jget_or (JObj []) effective ''substitution'', jget_or (JObj []) effective ''identity'') of
        (JObj s, JObj i) \<Rightarrow>
          (if jget s ''type'' = JStr ''local-path'' \<and> jget i ''kind'' \<noteq> JStr ''operator-local-git''
           then Some ''local substitution requires operator-local-git effective identity''
           else if jget s ''type'' = JStr ''network-git'' \<and> jget i ''kind'' \<noteq> JStr ''network-git''
           then Some ''network substitution requires network-git effective identity''
           else None)
      | _ \<Rightarrow> None)"

definition validate_effective_source :: "dict \<Rightarrow> dict \<Rightarrow> string option res" where
  "validate_effective_source declared effective = first_message
     [Inr (validate_network_identity (jget declared ''identity'') (jget declared ''transport'')),
      Inr (validate_network_identity (jget_or (JObj []) effective ''identity'') (jget effective ''transport'')),
      Inr (validate_git_ref_name (jget declared ''tag'')),
      commit_width effective,
      validate_structured_ref
        (case jget_or (JObj []) effective ''substitution'' of JObj s \<Rightarrow> jget s ''ref'' | _ \<Rightarrow> JNull)
        (jget effective ''object_format''),
      refuse_when (jget effective ''substituted'' = JBool False \<and> \<not> same_source declared effective)
        ''unsubstituted effective source must equal declared source and lock'',
      Inr (substitution_kind effective)]"

section \<open>The grammar of addresses\<close>

text \<open>
  An address as a value, its text, and the reading of a text by cutting at the first separator.
  The grammar is stated on the components of the path, apart from the order of the code's tests.
\<close>

datatype form = Https | SshUri | Scp

record address =
  adr_form :: form
  adr_user :: "string option"
  adr_host :: string
  adr_path :: "string list"

definition who :: "string option \<Rightarrow> string" where
  "who u = (case u of None \<Rightarrow> [] | Some s \<Rightarrow> s @ ''@'')"

definition scheme :: "form \<Rightarrow> string" where
  "scheme f = (case f of Https \<Rightarrow> ''https://'' | SshUri \<Rightarrow> ''ssh://'' | Scp \<Rightarrow> [])"

definition separator :: "form \<Rightarrow> char" where
  "separator f = (if f = Scp then CHR '':'' else CHR ''/'')"

definition address_text :: "address \<Rightarrow> string" where
  "address_text a =
     scheme (adr_form a) @ who (adr_user a) @ adr_host a @ separator (adr_form a) # join_with ''/'' (adr_path a)"

definition component_ok :: "bool \<Rightarrow> string \<Rightarrow> bool" where
  "component_ok ssh w =
     (w \<notin> {[], ''.'', ''..''} \<and>
      list_all (\<lambda>c. c \<noteq> CHR ''/'' \<and> \<not> forbidden_char c \<and> (ssh \<longrightarrow> is_alnum c \<or> c \<in> set ''._-'')) w)"

definition address_ok :: "address \<Rightarrow> bool" where
  "address_ok a =
     (host_text (adr_host a) \<and>
      (case adr_user a of None \<Rightarrow> True | Some u \<Rightarrow> user_text u \<and> adr_form a \<noteq> Https) \<and>
      adr_path a \<noteq> [] \<and> list_all (component_ok (adr_form a \<noteq> Https)) (adr_path a))"

definition read_after :: "form \<Rightarrow> string \<Rightarrow> address option" where
  "read_after f s =
     (let c = separator f; front = before_char c s in
      if c \<in> set s then
        Some \<lparr>adr_form = f,
          adr_user = (if CHR ''@'' \<in> set front then Some (before_char (CHR ''@'') front) else None),
          adr_host = (if CHR ''@'' \<in> set front then after_char (CHR ''@'') front else front),
          adr_path = split_on (CHR ''/'') (after_char c s)\<rparr>
      else None)"

definition read_address :: "string \<Rightarrow> address option" where
  "read_address v =
     (if prefix ''https://'' v then read_after Https (drop 8 v)
      else if prefix ''ssh://'' v then read_after SshUri (drop 6 v)
      else read_after Scp v)"

lemma not_alnum: "\<not> is_alnum (CHR ''/'')" "\<not> is_alnum (CHR '':'')" "\<not> is_alnum (CHR ''@'')"
  by code_simp+

lemma host_chars: "host_text h \<Longrightarrow> c \<in> set h \<Longrightarrow> is_alnum c \<or> c \<in> set ''.-''"
  by (cases h) (auto simp: host_text_def list_all_iff)

lemma user_chars: "user_text u \<Longrightarrow> c \<in> set u \<Longrightarrow> is_alnum c \<or> c \<in> set ''._-''"
  by (cases u) (auto simp: user_text_def list_all_iff)

lemma host_free: "host_text h \<Longrightarrow> set h \<inter> {CHR ''/'', CHR '':'', CHR ''@''} = {}"
  using host_chars not_alnum by fastforce

lemma user_free: "user_text u \<Longrightarrow> set u \<inter> {CHR ''/'', CHR '':'', CHR ''@''} = {}"
  using user_chars not_alnum by fastforce

lemma cut_path_iff: "cut_path front c s = Some p \<longleftrightarrow> (\<exists>f. s = f @ c # p \<and> c \<notin> set f \<and> front f \<and> line_text p)"
  using partition_join [of c s]
  by (auto simp: cut_path_def before_char_append after_char_append before_char_no_sep split: if_splits) (metis before_char_no_sep)

lemma authority_iff: "authority f \<longleftrightarrow> (\<exists>u h. f = who u @ h \<and> host_text h \<and> (case u of None \<Rightarrow> True | Some x \<Rightarrow> user_text x))"
proof (cases "CHR ''@'' \<in> set f")
  case True
  let ?u = "before_char (CHR ''@'') f" and ?h = "after_char (CHR ''@'') f"
  have cut: "f = ?u @ CHR ''@'' # ?h" using partition_join [OF True] by simp
  show ?thesis
  proof
    assume "authority f"
    with True have "host_text ?h" "user_text ?u" by (auto simp: authority_def)
    with cut show "\<exists>u h. f = who u @ h \<and> host_text h \<and> (case u of None \<Rightarrow> True | Some x \<Rightarrow> user_text x)"
      by (intro exI [of _ "Some ?u"] exI [of _ ?h]) (simp add: who_def)
  next
    assume "\<exists>u h. f = who u @ h \<and> host_text h \<and> (case u of None \<Rightarrow> True | Some x \<Rightarrow> user_text x)"
    then obtain u h where f: "f = who u @ h" and h: "host_text h" and u: "case u of None \<Rightarrow> True | Some x \<Rightarrow> user_text x" by blast
    with True host_free [OF h] obtain x where x: "u = Some x" by (cases u) (auto simp: who_def)
    with u have "user_text x" by simp
    from user_free [OF this] have "CHR ''@'' \<notin> set x" by simp
    with True h \<open>user_text x\<close> show "authority f"
      using before_char_append [of "CHR ''@''" x h] after_char_append [of "CHR ''@''" x h] by (simp add: authority_def f x who_def)
  qed
next
  case False
  then show ?thesis by (auto simp: authority_def who_def split: option.splits)
qed

lemma list_all_split: "P c \<Longrightarrow> list_all P s \<longleftrightarrow> list_all (list_all P) (split_on c s)"
  by (induction s) (auto split: list.split)

lemma split_on_snoc: "split_on c (t @ [c]) = split_on c t @ [[]]"
proof (induction t)
  case (Cons x t)
  then show ?case by (cases "split_on c t") auto
qed simp

lemma split_ends: "s = [] \<or> prefix [c] s \<or> suffix [c] s \<Longrightarrow> [] \<in> set (split_on c s)"
  by (auto simp: prefix_def suffix_def split_on_snoc)

lemma path_iff: "validate_repository_path p ssh = None \<longleftrightarrow> list_all (component_ok ssh) (split_on (CHR ''/'') p)"
proof -
  let ?ws = "split_on (CHR ''/'') p"
  have slash: "\<not> forbidden_char (CHR ''/'')" by code_simp
  have ends: "p = [] \<or> prefix ''/'' p \<or> suffix ''/'' p \<Longrightarrow> [] \<in> set ?ws" using split_ends [of p "CHR ''/''"] by simp
  have chars: "list_all (\<lambda>c. \<not> forbidden_char c) p \<longleftrightarrow> list_all (list_all (\<lambda>c. \<not> forbidden_char c)) ?ws"
    using list_all_split [of "\<lambda>c. \<not> forbidden_char c"] slash by blast
  have ssh_chars: "list_all (\<lambda>c. is_alnum c \<or> c \<in> set ''._/-'') p \<longleftrightarrow>
      list_all (list_all (\<lambda>c. is_alnum c \<or> c \<in> set ''._/-'')) ?ws"
    by (rule list_all_split) simp
  have no: "w \<in> set ?ws \<Longrightarrow> CHR ''/'' \<notin> set w" for w by (rule split_on_no_sep)
  have "validate_repository_path p ssh = None \<longleftrightarrow>
      (ssh \<longrightarrow> ssh_path p) \<and> \<not> (p = [] \<or> prefix ''/'' p \<or> suffix ''/'' p) \<and>
      list_all (\<lambda>w. w \<notin> {[], ''.'', ''..''}) ?ws \<and> list_all (\<lambda>c. \<not> forbidden_char c) p"
    by (auto simp: validate_repository_path_def list_all_iff list_ex_iff)
  also have "\<dots> \<longleftrightarrow> list_all (\<lambda>w. w \<notin> {[], ''.'', ''..''}) ?ws \<and> list_all (list_all (\<lambda>c. \<not> forbidden_char c)) ?ws \<and>
      (ssh \<longrightarrow> list_all (list_all (\<lambda>c. is_alnum c \<or> c \<in> set ''._/-'')) ?ws)"
    using ends unfolding chars ssh_chars [symmetric] ssh_path_def by (auto simp: list_all_iff)
  also have "\<dots> \<longleftrightarrow> list_all (component_ok ssh) ?ws"
    using no by (fastforce simp: component_ok_def list_all_iff)
  finally show ?thesis .
qed

lemma first_message_ok: "first_message cs = Inr None \<longleftrightarrow> list_all (\<lambda>c. c = Inr None) cs"
  by (induction cs) (auto simp: and_then_ok_iff split: option.splits)

lemma component_free: "component_ok ssh w \<Longrightarrow> w \<noteq> [] \<and> CHR ''/'' \<notin> set w \<and> newline \<notin> set w"
proof -
  have "forbidden_char newline" by code_simp
  then show "component_ok ssh w \<Longrightarrow> ?thesis" by (auto simp: component_ok_def list_all_iff)
qed

lemma split_path: "ws \<noteq> [] \<Longrightarrow> list_all (component_ok ssh) ws \<Longrightarrow> split_on (CHR ''/'') (join_with ''/'' ws) = ws"
  by (rule split_join) (use component_free in \<open>auto simp: list_all_iff\<close>)

lemma path_text:
  assumes "list_all (component_ok ssh) (split_on (CHR ''/'') p)"
  shows "line_text p \<and> hd p \<noteq> CHR ''/''"
proof -
  have n: "newline \<noteq> CHR ''/''" by code_simp
  have "list_all (\<lambda>c. c \<noteq> newline) p \<longleftrightarrow> list_all (list_all (\<lambda>c. c \<noteq> newline)) (split_on (CHR ''/'') p)"
    by (rule list_all_split) (use n in simp)
  moreover have "list_all (list_all (\<lambda>c. c \<noteq> newline)) (split_on (CHR ''/'') p)"
    using assms component_free by (auto simp: list_all_iff)
  ultimately have "newline \<notin> set p" by (auto simp: list_all_iff)
  moreover have "p \<noteq> [] \<and> hd p \<noteq> CHR ''/''" using assms by (cases p) (auto simp: component_ok_def)
  ultimately show ?thesis by (simp add: line_text_def)
qed

text \<open>A text that begins like a URI but is not one is read as a path that begins with a slash.\<close>

lemma scp_of_uri:
  assumes "prefix ''https://'' v \<or> prefix ''ssh://'' v" "v = f @ CHR '':'' # p" "CHR '':'' \<notin> set f"
  shows "p \<noteq> [] \<and> hd p = CHR ''/''"
proof -
  have p: "after_char (CHR '':'') v = p" using assms(2,3) by (simp add: after_char_append)
  from assms(1) obtain w where "v = ''https'' @ CHR '':'' # ''//'' @ w \<or> v = ''ssh'' @ CHR '':'' # ''//'' @ w" by (auto simp: prefix_def)
  then have "after_char (CHR '':'') v = ''//'' @ w"
    using after_char_append [of "CHR '':''" "''https''" "''//'' @ w"] after_char_append [of "CHR '':''" "''ssh''" "''//'' @ w"] by auto
  with p show ?thesis by auto
qed

lemma front_free:
  assumes "address_ok a"
  shows "separator (adr_form a) \<notin> set (who (adr_user a) @ adr_host a)"
proof -
  have h: "set (adr_host a) \<inter> {CHR ''/'', CHR '':'', CHR ''@''} = {}" using assms host_free by (auto simp: address_ok_def)
  have "set u \<inter> {CHR ''/'', CHR '':'', CHR ''@''} = {}" if "adr_user a = Some u" for u
    using assms that user_free by (auto simp: address_ok_def)
  with h show ?thesis by (auto simp: separator_def who_def split: option.splits)
qed

lemma address_body:
  assumes "address_ok a"
  shows "read_after (adr_form a) (who (adr_user a) @ adr_host a @ separator (adr_form a) # join_with ''/'' (adr_path a)) = Some a"
proof -
  let ?f = "who (adr_user a) @ adr_host a" and ?c = "separator (adr_form a)"
  note free = front_free [OF assms]
  have cut: "before_char ?c (?f @ ?c # join_with ''/'' (adr_path a)) = ?f"
    "after_char ?c (?f @ ?c # join_with ''/'' (adr_path a)) = join_with ''/'' (adr_path a)"
    using free by (rule before_char_append, intro after_char_append)
  have path: "split_on (CHR ''/'') (join_with ''/'' (adr_path a)) = adr_path a"
    using assms by (intro split_path) (auto simp: address_ok_def)
  have h: "CHR ''@'' \<notin> set (adr_host a)" using assms host_free by (auto simp: address_ok_def)
  have u: "CHR ''@'' \<notin> set x" if "adr_user a = Some x" for x using assms user_free that by (auto simp: address_ok_def)
  show ?thesis
    using cut path h u
    by (cases a; cases "adr_user a") (auto simp: read_after_def Let_def who_def before_char_append after_char_append)
qed

lemma address_no_uri:
  assumes "address_ok a" "adr_form a = Scp"
  shows "\<not> prefix ''https://'' (address_text a)" "\<not> prefix ''ssh://'' (address_text a)"
proof -
  have t: "address_text a = (who (adr_user a) @ adr_host a) @ CHR '':'' # join_with ''/'' (adr_path a)"
    using assms(2) by (simp add: address_text_def scheme_def separator_def)
  have "hd (join_with ''/'' (adr_path a)) \<noteq> CHR ''/''"
    using assms(1) path_text [of True "join_with ''/'' (adr_path a)"] split_path [of "adr_path a" True] assms(2) by (simp add: address_ok_def)
  with scp_of_uri [OF _ t] front_free [OF assms(1)] assms(2)
  show "\<not> prefix ''https://'' (address_text a)" "\<not> prefix ''ssh://'' (address_text a)" by (auto simp: separator_def)
qed

interpretation addresses: text_codec address_text read_address address_ok
proof
  fix a assume ok: "address_ok a"
  show "read_address (address_text a) = Some a"
  proof (cases "adr_form a")
    case Https
    then show ?thesis using address_body [OF ok] by (simp add: read_address_def address_text_def scheme_def)
  next
    case SshUri
    then show ?thesis using address_body [OF ok] by (simp add: read_address_def address_text_def scheme_def)
  next
    case Scp
    then show ?thesis using address_body [OF ok] address_no_uri [OF ok Scp] by (simp add: read_address_def address_text_def scheme_def)
  qed
qed

lemma cut_address:
  assumes "cut_path (if f = Https then host_text else authority) (separator f) s = Some p"
    and "validate_repository_path p (f \<noteq> Https) = None"
  shows "\<exists>a. address_ok a \<and> adr_form a = f \<and> scheme f @ s = address_text a"
proof -
  from assms(1) obtain front where s: "s = front @ separator f # p" and fr: "(if f = Https then host_text else authority) front"
    unfolding cut_path_iff by blast
  obtain u h where w: "front = who u @ h" "host_text h" "case u of None \<Rightarrow> True | Some x \<Rightarrow> user_text x \<and> f \<noteq> Https"
  proof (cases "f = Https")
    case True
    with fr that [of None front] show thesis by (simp add: who_def)
  next
    case False
    with fr authority_iff [of front] obtain u h where "front = who u @ h" "host_text h" "case u of None \<Rightarrow> True | Some x \<Rightarrow> user_text x"
      by auto
    with False that [of u h] show thesis by (cases u) auto
  qed
  let ?a = "\<lparr>adr_form = f, adr_user = u, adr_host = h, adr_path = split_on (CHR ''/'') p\<rparr>"
  have "list_all (component_ok (f \<noteq> Https)) (split_on (CHR ''/'') p)" using assms(2) by (simp add: path_iff)
  with w have "address_ok ?a" by (cases u) (simp_all add: address_ok_def)
  moreover have "scheme f @ s = address_text ?a" using s w by (simp add: address_text_def join_split)
  ultimately show ?thesis by (intro exI [of _ ?a]) simp
qed

lemma authorityI: "host_text h \<Longrightarrow> (case u of None \<Rightarrow> True | Some x \<Rightarrow> user_text x) \<Longrightarrow> authority (who u @ h)"
  using authority_iff by blast

lemma address_cut:
  assumes "address_ok a"
  shows "\<exists>p. cut_path (if adr_form a = Https then host_text else authority) (separator (adr_form a))
      (drop (length (scheme (adr_form a))) (address_text a)) = Some p \<and> validate_repository_path p (adr_form a \<noteq> Https) = None"
proof -
  let ?p = "join_with ''/'' (adr_path a)"
  have path: "list_all (component_ok (adr_form a \<noteq> Https)) (split_on (CHR ''/'') ?p)"
    using assms split_path [of "adr_path a"] by (auto simp: address_ok_def)
  have "(if adr_form a = Https then host_text else authority) (who (adr_user a) @ adr_host a)"
    using assms authorityI [of "adr_host a" "adr_user a"] by (cases "adr_user a") (auto simp: address_ok_def who_def)
  with path path_text [OF path] front_free [OF assms] show ?thesis
    by (intro exI [of _ ?p]) (auto simp: cut_path_iff path_iff address_text_def)
qed

lemma repository_git_iff:
  "validate_repository_git (JStr v) = None \<longleftrightarrow> length v \<le> 4096 \<and> (\<exists>!a. address_ok a \<and> address_text a = v)"
proof -
  have unique: "(\<exists>!a. address_ok a \<and> address_text a = v) \<longleftrightarrow> (\<exists>a. address_ok a \<and> address_text a = v)"
    using addresses.print_inj by blast
  have accepted: "\<exists>a. address_ok a \<and> address_text a = v" if ok: "validate_repository_git (JStr v) = None"
  proof -
    consider p where "match_https v = Some p" "validate_repository_path p False = None"
      | p where "match_ssh_uri v = Some p" "validate_repository_path p True = None"
      | p where "match_scp v = Some p" "validate_repository_path p True = None"
      using ok by (auto simp: validate_repository_git_def repository_git_def split: option.splits if_splits)
    then show ?thesis
    proof cases
      case 1
      then obtain s where s: "v = ''https://'' @ s" by (auto simp: match_https_def prefix_def split: if_splits)
      with 1 cut_address [of Https s p] show ?thesis by (auto simp: match_https_def separator_def scheme_def)
    next
      case 2
      then obtain s where s: "v = ''ssh://'' @ s" by (auto simp: match_ssh_uri_def prefix_def split: if_splits)
      with 2 cut_address [of SshUri s p] show ?thesis by (auto simp: match_ssh_uri_def separator_def scheme_def)
    next
      case 3
      then show ?thesis using cut_address [of Scp v p] by (auto simp: match_scp_def separator_def scheme_def)
    qed
  qed
  have accepts: "validate_repository_git (JStr v) = None" if a: "address_ok a" "address_text a = v" "length v \<le> 4096" for a
  proof -
    from address_cut [OF a(1)] obtain p where p: "cut_path (if adr_form a = Https then host_text else authority) (separator (adr_form a))
        (drop (length (scheme (adr_form a))) (address_text a)) = Some p" "validate_repository_path p (adr_form a \<noteq> Https) = None" by blast
    have scp: "adr_form a = Scp \<Longrightarrow> \<not> prefix ''https://'' v \<and> \<not> prefix ''ssh://'' v" using address_no_uri [OF a(1)] a(2) by simp
    have uri: "prefix (scheme (adr_form a)) v" using a(2) by (auto simp: address_text_def)
    show ?thesis
    proof (cases "adr_form a")
      case Https
      then show ?thesis using p uri a by (simp add: validate_repository_git_def repository_git_def match_https_def scheme_def separator_def eval_nat_numeral)
    next
      case SshUri
      then have "\<not> prefix ''https://'' v" using uri by (auto simp: scheme_def prefix_def)
      then show ?thesis using p uri a SshUri
        by (simp add: validate_repository_git_def repository_git_def match_https_def match_ssh_uri_def scheme_def separator_def eval_nat_numeral)
    next
      case Scp
      then show ?thesis using p scp a
        by (simp add: validate_repository_git_def repository_git_def match_https_def match_ssh_uri_def match_scp_def scheme_def separator_def)
    qed
  qed
  have short: "length v \<le> 4096" if "validate_repository_git (JStr v) = None"
    using that by (auto simp: validate_repository_git_def repository_git_def split: if_splits)
  show ?thesis unfolding unique
  proof
    assume ok: "validate_repository_git (JStr v) = None"
    show "length v \<le> 4096 \<and> (\<exists>a. address_ok a \<and> address_text a = v)" using accepted [OF ok] short [OF ok] by (rule conjI [rotated])
  next
    assume "length v \<le> 4096 \<and> (\<exists>a. address_ok a \<and> address_text a = v)"
    then obtain a where "address_ok a" "address_text a = v" "length v \<le> 4096" by (elim conjE exE)
    then show "validate_repository_git (JStr v) = None" by (rule accepts)
  qed
qed

text \<open>
  When an effective source is accepted and says it is not substituted, its identity and transport
  are the declared ones, its object format and commit are those of the lock, and the commit has the
  width of its format.
\<close>

lemma effective_source_locked:
  assumes "validate_effective_source declared effective = Inr None" and "jget effective ''substituted'' = JBool False"
  shows "\<exists>locked. jget_or (JObj []) declared ''locked_commit'' = JObj locked \<and>
    py_eq (jget effective ''identity'') (jget declared ''identity'') \<and>
    py_eq (jget effective ''transport'') (jget declared ''transport'') \<and>
    py_eq (jget effective ''object_format'') (jget locked ''object_format'') \<and>
    py_eq (jget effective ''commit'') (jget locked ''hex'') \<and>
    (\<forall>f c. jget effective ''object_format'' = JStr f \<longrightarrow> jget effective ''commit'' = JStr c \<longrightarrow> f \<in> {''sha1'', ''sha256''} \<longrightarrow>
      length c = (if f = ''sha1'' then 40 else 64))"
proof -
  note checks = assms(1) [unfolded validate_effective_source_def first_message_ok list.pred_inject]
  have "commit_width effective = Inr None" using checks by (elim conjE)
  moreover have "refuse_when (jget effective ''substituted'' = JBool False \<and> \<not> same_source declared effective)
      ''unsubstituted effective source must equal declared source and lock'' = Inr None" using checks by (elim conjE)
  then have "same_source declared effective" by (simp add: refuse_when_def assms(2) split: if_splits)
  moreover obtain locked where l: "jget_or (JObj []) declared ''locked_commit'' = JObj locked"
    using \<open>same_source declared effective\<close> by (auto simp: same_source_def split: json.splits)
  moreover have "length c = (if f = ''sha1'' then 40 else 64)"
    if "jget effective ''object_format'' = JStr f" "jget effective ''commit'' = JStr c" "f \<in> {''sha1'', ''sha256''}" for f c
    using \<open>commit_width effective = Inr None\<close> that by (auto simp: commit_width_def Let_def refuse_when_def object_width_def split: if_splits)
  ultimately show ?thesis by (simp add: same_source_def)
qed

section \<open>Properties\<close>

text \<open>
  C36: the accepted repository addresses are the texts of a grammar.  A text of at most 4096
  characters is accepted exactly when it is the text of an address: HTTPS without a user, an SSH
  URI or the SCP form with an optional user, a host that starts with a letter or digit, and a path
  of one or more components, none of them empty, dot or dot-dot, without white space, control
  characters, percent signs, colons, backslashes, queries or fragments.  The address is unique.
\<close>

theorem repository_git_grammar:
  "validate_repository_git (JStr v) = None \<longleftrightarrow> length v \<le> 4096 \<and> (\<exists>!a. address_ok a \<and> address_text a = v)"
  by (rule repository_git_iff)

end
