(* ===== verification/WireSemantics.thy ===== *)
theory WireSemantics
  imports WireSources
begin

text \<open>
  \<open>validate_wire_semantics\<close> of \<open>tools/validate.py\<close>: what the schemas cannot say about the
  wire documents.  One definition per family of schema names, joined by the dispatch on the name.
  The function is called on documents their schema accepts.  Parameters: \<open>sha\<close>, the hexadecimal
  SHA-256 of bytes, and \<open>fromiso\<close>, \<open>datetime.fromisoformat\<close>: whether the instant of a text
  carries an offset, and the instant.

  The schemas admit only texts in the lists that are sorted here; a list of two or more values that
  has others raises \<open>TypeError\<close>, as Python does where they cannot be compared.  The message about a stray copy is kept without the copy's path.
\<close>

section \<open>Lists of values\<close>

text \<open>
  \<open>vs != sorted(vs) or len(vs) != len(set(vs))\<close>, negated, and \<open>vs != sorted(vs)\<close>, negated.
  One value is in order, but a list or a dictionary cannot be in a set.
\<close>

definition hashable :: "json \<Rightarrow> bool" where
  "hashable v = (\<not> is_list v \<and> \<not> is_dict v)"

definition strictly_sorted :: "json list \<Rightarrow> bool res" where
  "strictly_sorted vs =
     (case vs of
        [] \<Rightarrow> Inr True
      | [v] \<Rightarrow> if hashable v then Inr True else Inl TypeError
      | _ \<Rightarrow> and_then (map_res as_text vs) (\<lambda>ts. Inr (sorted_wrt (<) ts)))"

definition weakly_sorted :: "json list \<Rightarrow> bool res" where
  "weakly_sorted vs =
     (case vs of [] \<Rightarrow> Inr True | [v] \<Rightarrow> Inr True | _ \<Rightarrow> and_then (map_res as_text vs) (\<lambda>ts. Inr (sorted ts)))"

text \<open>\<open>set(vs)\<close>, and \<open>len(vs) != len(set(vs))\<close>, negated.\<close>

definition as_set :: "json list \<Rightarrow> json list res" where
  "as_set vs = (if list_all hashable vs then Inr vs else Inl TypeError)"

fun no_repeats :: "json list \<Rightarrow> bool" where
  "no_repeats [] = True"
| "no_repeats (v # vs) = (\<not> py_in v vs \<and> no_repeats vs)"

definition unique_values :: "json list \<Rightarrow> bool res" where
  "unique_values vs = and_then (as_set vs) (\<lambda>s. Inr (no_repeats s))"

text \<open>\<open>for x in values\<close>, where a value that is not a dictionary is skipped.\<close>

definition each_dict :: "(dict \<Rightarrow> string option res) \<Rightarrow> json list \<Rightarrow> string option res" where
  "each_dict f vs = first_message (map (\<lambda>v. case v of JObj d \<Rightarrow> f d | _ \<Rightarrow> Inr None) vs)"

text \<open>\<open>d.get(k, {}).values()\<close> inside \<open>isinstance(\<dots>, dict)\<close>: nothing for another type.\<close>

definition dict_values :: "dict \<Rightarrow> string \<Rightarrow> json list" where
  "dict_values d k = map snd (the_dict (jget_or (JObj []) d k))"

section \<open>Manifests\<close>

definition SCRIPT_EXECUTION_FIELDS :: "string list" where
  "SCRIPT_EXECUTION_FIELDS = [''execution_policy'', ''interpreter'']"

definition MODULE_ROOT_FIELDS :: "string list" where
  "MODULE_ROOT_FIELDS = [''modules'']"

text \<open>\<open>(?:agent-skill|csk-skill)-v([1-n]).schema.json\<close>.\<close>

definition manifest_schema :: "nat \<Rightarrow> string \<Rightarrow> bool" where
  "manifest_schema n name =
     list_ex (\<lambda>v. name = ''agent-skill-v'' @ nat_text v @ ''.schema.json'' \<or> name = ''csk-skill-v'' @ nat_text v @ ''.schema.json'')
       [1..<Suc n]"

definition before_schema8 :: "dict \<Rightarrow> string option res" where
  "before_schema8 instance =
     (let fields = SCRIPT_EXECUTION_FIELDS @ MODULE_ROOT_FIELDS in
      first_message
        (map (\<lambda>f. refuse_when (jhas instance f) (f @ '' is legal only in manifest schema 8'')) fields @
         [each_dict (\<lambda>command. first_message
            (map (\<lambda>f. refuse_when (jhas command f) (''command '' @ f @ '' is legal only in manifest schema 8'')) fields))
            (dict_values instance ''commands'')]))"

definition repository_driver :: "dict \<Rightarrow> bool" where
  "repository_driver d = (jget d ''driver'' = JStr ''go-repository-v1'')"

definition before_schema7 :: "dict \<Rightarrow> string option res" where
  "before_schema7 instance = first_message
     (map (\<lambda>f. refuse_when (jhas instance f) (f @ '' is legal only in manifest schema 7''))
        [''build_repositories'', ''repository'', ''target''] @
      [refuse_when (repository_driver instance) ''go-repository-v1 is legal only in manifest schema 7'',
       each_dict (\<lambda>command. first_message
         (map (\<lambda>f. refuse_when (jhas command f) (''command '' @ f @ '' is legal only in manifest schema 7''))
            [''repository'', ''target''] @
          [refuse_when (repository_driver command) ''go-repository-v1 is legal only in manifest schema 7'']))
         (dict_values instance ''commands'')])"

text \<open>The repositories the commands select; a list or a dictionary cannot be in the set.\<close>

definition selected_repositories :: "json list \<Rightarrow> json list res" where
  "selected_repositories commands =
     as_set (List.map_filter (\<lambda>c. case c of
         JObj d \<Rightarrow> if repository_driver d then Some (jget d ''repository'') else None | _ \<Rightarrow> None) commands)"

definition check_repositories :: "dict \<Rightarrow> string option res" where
  "check_repositories instance =
     (case (jget_or (JObj []) instance ''build_repositories'', jget_or (JObj []) instance ''commands'') of
        (JObj repositories, JObj commands) \<Rightarrow> first_message
          [each_dict (\<lambda>repository. first_message
             [Inr (validate_repository_git (jget repository ''git'')), Inr (validate_git_ref_name (jget repository ''tag''))])
             (map snd repositories),
           and_then (selected_repositories (map snd commands)) (\<lambda>selected. first_message
             [refuse_when (\<not> list_all (\<lambda>v. py_in v (map (\<lambda>(k, _). JStr k) repositories)) selected)
                ''repository command selects an undeclared build repository'',
              refuse_when (\<not> list_all (\<lambda>(k, _). py_in (JStr k) selected) repositories)
                ''every build repository declaration must be selected by a command''])]
      | _ \<Rightarrow> Inr None)"

definition check_substitutions :: "dict \<Rightarrow> string option res" where
  "check_substitutions instance =
     each_dict (\<lambda>repositories. each_dict (\<lambda>substitution.
       if \<not> jhas substitution ''git'' then Inr None
       else first_message [Inr (validate_repository_git (jget substitution ''git'')),
         validate_structured_ref (jget substitution ''ref'') JNull]) (map snd repositories))
       (dict_values instance ''build_repository_substitutions'')"

section \<open>Builds\<close>

definition below_root :: "dict \<Rightarrow> string \<Rightarrow> string option res" where
  "below_root d message =
     (case (jget d ''build_root'', jget d ''source_dir'') of
        (JStr base, JStr source) \<Rightarrow> refuse_when (\<not> is_below_or_equal source base) message
      | _ \<Rightarrow> Inr None)"

definition check_targets :: "dict \<Rightarrow> string option res" where
  "check_targets instance =
     (case jget_or (JObj []) instance ''targets'' of
        JObj targets \<Rightarrow> each_dict (\<lambda>t. below_root t ''source_dir must equal or be below build_root'') (map snd targets)
      | _ \<Rightarrow> Inl AttributeError)"

text \<open>\<open>ccj1_sha256\<close> of \<open>tools/validate.py\<close>, over the canonical bytes.\<close>

definition digest_of :: "(string \<Rightarrow> string) \<Rightarrow> json \<Rightarrow> string res" where
  "digest_of sha v = and_then (ccj1_bytes v) (\<lambda>bs. Inr (''sha256:'' @ sha bs))"

definition check_cache_key :: "(string \<Rightarrow> string) \<Rightarrow> dict \<Rightarrow> json \<Rightarrow> string option res" where
  "check_cache_key sha instance build_input =
     (if \<not> jhas instance ''cache_key'' then Inr None
      else and_then (digest_of sha build_input) (\<lambda>digest.
        refuse_when (jget instance ''cache_key'' \<noteq> JStr digest) ''receipt cache_key must equal SHA-256(CCJ-1(input))''))"

definition PORTABLE_EXECUTION_POLICY :: string where
  "PORTABLE_EXECUTION_POLICY = ''manager-worker-v1''"

definition check_receipt_v1 :: "(string \<Rightarrow> string) \<Rightarrow> dict \<Rightarrow> string option res" where
  "check_receipt_v1 sha instance =
     (case jget_or (JObj []) instance ''input'' of
        JObj inp \<Rightarrow> first_message
          [check_cache_key sha instance (JObj inp),
           (case jget_or (JObj []) inp ''policy'' of
              JObj policy \<Rightarrow> refuse_when (jget policy ''execution_policy'' \<noteq> JStr PORTABLE_EXECUTION_POLICY)
                (''go-v1 policy must declare the portable '' @ PORTABLE_EXECUTION_POLICY @ '' execution policy'')
            | _ \<Rightarrow> Inr None)]
      | _ \<Rightarrow> Inr None)"

definition check_receipt_v2 :: "(string \<Rightarrow> string) \<Rightarrow> dict \<Rightarrow> string option res" where
  "check_receipt_v2 sha instance =
     (case jget_or (JObj []) instance ''input'' of
        JObj inp \<Rightarrow> first_message
          [check_cache_key sha instance (JObj inp),
           below_root inp ''receipt source_dir must equal or be below build_root'',
           (case jget_or (JObj []) inp ''source'' of
              JObj source \<Rightarrow>
                (case (jget_or (JObj []) source ''declared'', jget_or (JObj []) source ''effective'') of
                   (JObj declared, JObj effective) \<Rightarrow> validate_effective_source declared effective
                 | _ \<Rightarrow> Inr None)
            | _ \<Rightarrow> Inr None)]
      | _ \<Rightarrow> Inr None)"

text \<open>The declared and the effective source of a marker's build record.\<close>

definition record_declared :: "dict \<Rightarrow> dict" where
  "record_declared r =
     [(''identity'', jget r ''declared_identity''), (''locked_commit'', jget r ''declared_locked_commit'')] @
     (if jhas r ''declared_tag'' then [(''tag'', jget r ''declared_tag'')] else [])"

definition record_effective :: "dict \<Rightarrow> dict" where
  "record_effective r =
     [(''identity'', jget r ''effective_identity''), (''object_format'', jget r ''object_format''),
      (''commit'', jget r ''commit''), (''substituted'', jget r ''substituted'')] @
     (if jhas r ''substitution'' then [(''substitution'', jget r ''substitution'')] else [])"

definition check_marker_builds :: "dict \<Rightarrow> string option res" where
  "check_marker_builds instance =
     (case jget_or (JObj []) instance ''builds'' of
        JObj builds \<Rightarrow> first_message
          [refuse_when
             (list_ex (\<lambda>v. case v of JObj r \<Rightarrow> jget r ''driver'' = JStr ''go-v1'' | _ \<Rightarrow> False) (map snd builds)
               \<noteq> jhas instance ''build_source'')
             ''marker build_source is present exactly when a local go-v1 build is active'',
           each_dict (\<lambda>r. if \<not> repository_driver r then Inr None
             else validate_effective_source (record_declared r) (record_effective r)) (map snd builds)]
      | _ \<Rightarrow> Inr None)"

section \<open>Receipts, checkpoints and modules\<close>

definition parse_timestamp :: "(string \<Rightarrow> (bool \<times> int) option) \<Rightarrow> json \<Rightarrow> int option" where
  "parse_timestamp fromiso v =
     (case v of
        JStr s \<Rightarrow>
          (case fromiso (concat (map (\<lambda>c. if c = CHR ''Z'' then ''+00:00'' else [c]) s)) of
             Some (True, t) \<Rightarrow> Some t
           | _ \<Rightarrow> None)
      | _ \<Rightarrow> None)"

definition check_capability_receipt :: "(string \<Rightarrow> (bool \<times> int) option) \<Rightarrow> dict \<Rightarrow> string option res" where
  "check_capability_receipt fromiso instance =
     refuse_when
       (case (parse_timestamp fromiso (jget instance ''observed_at''), parse_timestamp fromiso (jget instance ''expires_at'')) of
          (Some a, Some b) \<Rightarrow> b \<le> a | _ \<Rightarrow> True)
       ''capability receipt observed_at must precede expires_at''"

definition check_execution_receipt :: "(string \<Rightarrow> (bool \<times> int) option) \<Rightarrow> dict \<Rightarrow> string option res" where
  "check_execution_receipt fromiso instance =
     refuse_when
       (case (parse_timestamp fromiso (jget instance ''started_at''), parse_timestamp fromiso (jget instance ''completed_at'')) of
          (Some a, Some b) \<Rightarrow> b < a | _ \<Rightarrow> True)
       ''execution receipt started_at must be at or before completed_at''"

definition check_checkpoint :: "dict \<Rightarrow> string option res" where
  "check_checkpoint instance =
     (let phase = jget instance ''phase''; previous = jget instance ''previous_checkpoint_sha256'' in
      first_message
        [refuse_when (phase = JStr ''permit-issued'' \<and> previous \<noteq> JNull) ''permit-issued checkpoint must have a null predecessor'',
         and_then (in_frozenset phase [''execution-started'', ''execution-succeeded'']) (\<lambda>later.
           refuse_when (later \<and> previous = JNull) (the_str phase @ '' checkpoint must have a digest predecessor''))])"

definition check_modules :: "dict \<Rightarrow> string option res" where
  "check_modules instance =
     (case jget instance ''context'' of
        JObj ctx \<Rightarrow>
          (case jget ctx ''modules'' of
             JArr modules \<Rightarrow>
               refuse_when (\<not> distinct (List.map_filter (\<lambda>m. case m of
                   JObj d \<Rightarrow> (case jget d ''path'' of JStr p \<Rightarrow> Some p | _ \<Rightarrow> None) | _ \<Rightarrow> None) modules))
                 ''module paths must be unique across the manifest''
           | _ \<Rightarrow> Inr None)
      | _ \<Rightarrow> Inr None)"

section \<open>Context locks\<close>

text \<open>The dictionaries of a list, when all its values are.\<close>

definition all_dicts :: "json \<Rightarrow> dict list option" where
  "all_dicts v = (case v of JArr vs \<Rightarrow> if list_all is_dict vs then Some (map the_dict vs) else None | _ \<Rightarrow> None)"

text \<open>The keys \<open>(kind, name)\<close> sorted without duplicates.\<close>

definition member_keys_sorted :: "dict list \<Rightarrow> bool res" where
  "member_keys_sorted members =
     (case members of
        [] \<Rightarrow> Inr True
      | [m] \<Rightarrow> if hashable (jget m ''kind'') \<and> hashable (jget m ''name'') then Inr True else Inl TypeError
      | _ \<Rightarrow>
          and_then (map_res (\<lambda>m. and_then (as_text (jget m ''kind'')) (\<lambda>k.
            and_then (as_text (jget m ''name'')) (\<lambda>n. Inr (k, n)))) members) (\<lambda>keys. Inr (sorted_wrt (<) keys)))"

definition check_requirers :: "json list \<Rightarrow> dict \<Rightarrow> string option res" where
  "check_requirers member_names m =
     (case jget m ''required_by'' of
        JArr rs \<Rightarrow>
          first_message
            [and_then (strictly_sorted rs) (\<lambda>b. refuse_when (\<not> b) ''required_by must be sorted and unique''),
             and_then (as_set rs) (\<lambda>s. refuse_when (\<not> list_all (\<lambda>r. py_in r member_names) s) ''required_by names a package outside the lock''),
             refuse_when (py_in (jget m ''name'') rs) ''required_by names the member itself'']
      | _ \<Rightarrow> Inr None)"

definition check_lock :: "dict \<Rightarrow> string option res" where
  "check_lock instance =
     (case all_dicts (jget instance ''members'') of
        None \<Rightarrow> Inr None
      | Some members \<Rightarrow>
          first_message
            [and_then (member_keys_sorted members) (\<lambda>b.
               refuse_when (\<not> b) ''lock members must be sorted by (kind, name) without duplicates''),
             (case find (\<lambda>m. jget m ''kind'' = JStr ''context'' \<and> py_eq (jget m ''name'') (jget instance ''root'')) members of
                None \<Rightarrow> Inr (Some ''the lock root must be a context member'')
              | Some m \<Rightarrow>
                  refuse_when (\<not> py_eq (jget m ''required_by'') (JArr []) \<or> jget m ''overlay'' \<noteq> JBool False)
                    ''the lock root has no requirers and is not an overlay''),
             first_message (map (check_requirers (map (\<lambda>m. jget m ''name'') members)) members)])"

section \<open>Environment markers\<close>

definition check_copies :: "string \<times> json \<Rightarrow> string option res" where
  "check_copies entry =
     (case snd entry of
        JObj d \<Rightarrow>
          (case (jget d ''paths'', jget d ''copies'') of
             (JArr paths, JArr copies) \<Rightarrow>
               refuse_when (list_ex (\<lambda>c. case c of JObj e \<Rightarrow> \<not> py_in (jget e ''path'') paths | _ \<Rightarrow> False) copies)
                 (''surface '' @ fst entry @ '' records a copy outside its paths'')
           | _ \<Rightarrow> Inr None)
      | _ \<Rightarrow> Inr None)"

definition check_environment_marker :: "dict \<Rightarrow> string option res" where
  "check_environment_marker instance = first_message
     [(case jget instance ''surfaces'' of
         JObj surfaces \<Rightarrow> first_message
           (refuse_when (\<not> sorted (map fst surfaces)) ''environment marker surface keys must be sorted'' #
            map check_copies surfaces)
       | _ \<Rightarrow> Inr None),
      (case all_dicts (jget instance ''members'') of
         None \<Rightarrow> Inr None
       | Some members \<Rightarrow> first_message
           [and_then (unique_values (map (\<lambda>m. jget m ''name'') members)) (\<lambda>b.
              refuse_when (\<not> b) ''environment marker members must be unique''),
            (case jget instance ''profile'' of
               JObj profile \<Rightarrow>
                 (case find (\<lambda>m. py_eq (jget m ''name'') (jget profile ''root'')) members of
                    None \<Rightarrow> Inr (Some ''environment marker members must include the root'')
                  | Some m \<Rightarrow> refuse_when (jget m ''overlay'' \<noteq> JBool False) ''the root member is not an overlay'')
             | _ \<Rightarrow> Inr None)]),
      (case jget instance ''seeded_projects'' of
         JArr seeded \<Rightarrow> and_then (weakly_sorted seeded) (\<lambda>b. refuse_when (\<not> b) ''seeded_projects must be sorted'')
       | _ \<Rightarrow> Inr None)]"

section \<open>Launch fragments\<close>

definition channel :: "(string \<times> string) list \<Rightarrow> json" where
  "channel d = JObj (map (\<lambda>(k, v). (k, JStr v)) d)"

definition SYSTEM_PROMPT_CHANNELS :: "(string \<times> json) list" where
  "SYSTEM_PROMPT_CHANNELS =
     [(''claude_code'', JArr
        [channel [(''kind'', ''flag''), (''semantics'', ''append''), (''flag'', ''--append-system-prompt-file''), (''argument'', ''path'')],
         channel [(''kind'', ''flag''), (''semantics'', ''replace''), (''flag'', ''--system-prompt-file''), (''argument'', ''path'')]]),
      (''codex_cli'', JArr [channel [(''kind'', ''config-key''), (''semantics'', ''replace''), (''key'', ''model_instructions_file'')]]),
      (''opencode'', JArr []),
      (''pi'', JArr
        [channel [(''kind'', ''flag''), (''semantics'', ''append''), (''flag'', ''--append-system-prompt''), (''argument'', ''path'')],
         channel [(''kind'', ''file''), (''semantics'', ''append''), (''filename'', ''APPEND_SYSTEM.md'')],
         channel [(''kind'', ''file''), (''semantics'', ''replace''), (''filename'', ''SYSTEM.md'')]])]"

definition MCP_CHANNELS :: "(string \<times> json) list" where
  "MCP_CHANNELS =
     [(''claude_code'', JArr [JObj [(''kind'', JStr ''flag''), (''flag'', JStr ''--mcp-config''), (''argument'', JStr ''path''),
        (''with'', JArr [JStr ''--strict-mcp-config''])]]),
      (''codex_cli'', JArr [channel [(''kind'', ''flag''), (''flag'', ''-p''), (''argument'', ''name''), (''name'', ''curator-mcp'')]]),
      (''opencode'', JArr [channel [(''kind'', ''variable''), (''variable'', ''OPENCODE_CONFIG'')]])]"

text \<open>\<open>table[key]\<close> when \<open>key in table\<close>.\<close>

definition table_entry :: "(string \<times> json) list \<Rightarrow> json \<Rightarrow> json option res" where
  "table_entry table key =
     and_then (in_frozenset key (map fst table)) (\<lambda>known. Inr (if known then map_of table (the_str key) else None))"

definition check_muse :: "string \<Rightarrow> dict \<Rightarrow> string option res" where
  "check_muse schema_name instance =
     (case jget_or (JObj []) instance ''env'' of
        JObj parents \<Rightarrow>
          (case jget_or (JStr []) parents ''XDG_CONFIG_HOME'' of
             JStr config \<Rightarrow>
               (let home = (if suffix ''/config'' config then take (length config - 7) config else config);
                    expected = [(''XDG_CONFIG_HOME'', JStr (home @ ''/config'')), (''XDG_DATA_HOME'', JStr (home @ ''/data'')),
                      (''XDG_STATE_HOME'', JStr (home @ ''/state'')), (''XDG_CACHE_HOME'', JStr (home @ ''/cache''))] @
                      (if schema_name = ''launch-env-fragment-v4.schema.json'' then [(''TBH_CREDENTIAL_BACKEND'', JStr ''file'')] else []) in
                refuse_when (home = [] \<or> \<not> py_eq (JObj parents) (JObj expected))
                  ''Muse XDG variables must name one home's config/data/state/cache parents; HOME is forbidden'')
           | _ \<Rightarrow> Inl AttributeError)
      | _ \<Rightarrow> Inl AttributeError)"

definition check_fragment_channels :: "dict \<Rightarrow> string option res" where
  "check_fragment_channels instance = first_message
     [(case jget instance ''system_prompt'' of
         JObj d \<Rightarrow> and_then (table_entry SYSTEM_PROMPT_CHANNELS (jget instance ''environment'')) (\<lambda>e.
           case e of None \<Rightarrow> Inr None
           | Some cs \<Rightarrow> refuse_when (\<not> py_eq (jget d ''channels'') cs)
               ''system_prompt.channels must reproduce the adapter's section 7.3 descriptors'')
       | _ \<Rightarrow> Inr None),
      (case jget instance ''mcp'' of
         JObj d \<Rightarrow> and_then (table_entry MCP_CHANNELS (jget instance ''environment'')) (\<lambda>e.
           case e of None \<Rightarrow> Inr None
           | Some cs \<Rightarrow> first_message
               [refuse_when (\<not> py_eq (jget d ''channels'') cs) ''mcp.channels must reproduce the adapter's section 7.8 descriptor'',
                (case jget d ''env_names'' of
                   JArr ns \<Rightarrow> and_then (strictly_sorted ns) (\<lambda>b. refuse_when (\<not> b) ''mcp.env_names must be the sorted union'')
                 | _ \<Rightarrow> Inr None)])
       | _ \<Rightarrow> Inr None),
      (case jget instance ''path_prepend'' of
         JStr p \<Rightarrow> refuse_when (\<not> prefix ''/manager/environments/'' p) ''path_prepend must stay below the manager-owned environments root''
       | _ \<Rightarrow> Inr None)]"

definition check_fragment :: "string \<Rightarrow> dict \<Rightarrow> string option res" where
  "check_fragment schema_name instance = first_message
     [if jget instance ''environment'' = JStr ''muse'' then check_muse schema_name instance else Inr None,
      check_fragment_channels instance]"

section \<open>Conformance claims\<close>

definition set_at :: "dict \<Rightarrow> string \<Rightarrow> json list res" where
  "set_at d k = and_then (as_list (jget_or (JArr []) d k)) as_set"

definition check_claim :: "dict \<Rightarrow> string option res" where
  "check_claim instance =
     and_then (set_at instance ''operating_systems'') (\<lambda>systems. first_message
       [refuse_when (py_in (JStr ''linux'') systems) ''Linux claim-v3 qualification is excluded until TASK-260728-1skseh passes'',
        (case jget_or (JArr []) instance ''build_drivers'' of
           JArr claims \<Rightarrow> first_message
             [and_then (unique_values (List.map_filter (\<lambda>c. case c of JObj d \<Rightarrow> Some (jget d ''driver'') | _ \<Rightarrow> None) claims)) (\<lambda>b.
                refuse_when (\<not> b) ''build driver assertions must be unique''),
              each_dict (\<lambda>d. and_then (set_at d ''operating_systems'') (\<lambda>own.
                refuse_when (\<not> list_all (\<lambda>v. py_in v systems) own)
                  ''build driver platforms must be a subset of the top-level evidenced platforms'')) claims]
         | _ \<Rightarrow> Inr None)])"

section \<open>The dispatch on the schema\<close>

definition by_schema :: "(string \<Rightarrow> string) \<Rightarrow> (string \<Rightarrow> (bool \<times> int) option) \<Rightarrow> string \<Rightarrow> dict \<Rightarrow> string option res" where
  "by_schema sha fromiso name instance =
     (if name \<in> {''agent-skill-v7.schema.json'', ''csk-skill-v7.schema.json'', ''agent-skill-v8.schema.json'', ''csk-skill-v8.schema.json''}
      then check_repositories instance
      else if name = ''skillfile-dev-v2.schema.json'' then check_substitutions instance
      else if name = ''skill-build-v1.schema.json'' then check_targets instance
      else if name = ''build-receipt-v1.schema.json'' then check_receipt_v1 sha instance
      else if name = ''build-receipt-v2.schema.json'' then check_receipt_v2 sha instance
      else if name \<in> {''install-marker-v3.schema.json'', ''install-marker-v4.schema.json'', ''install-marker-v5.schema.json''}
      then check_marker_builds instance
      else if name = ''provider-capability-receipt-v1.schema.json'' then check_capability_receipt fromiso instance
      else if name = ''execution-receipt-v1.schema.json'' then check_execution_receipt fromiso instance
      else if name = ''execution-checkpoint-v1.schema.json'' then check_checkpoint instance
      else if name = ''agent-context-v1.schema.json'' then check_modules instance
      else if name \<in> {''context-lock-v1.schema.json'', ''context-lock-v2.schema.json''} then check_lock instance
      else if name \<in> {''agent-environment-marker-v1.schema.json'', ''agent-environment-marker-v2.schema.json'',
        ''agent-environment-marker-v3.schema.json''} then check_environment_marker instance
      else if name \<in> {''launch-env-fragment-v1.schema.json'', ''launch-env-fragment-v2.schema.json'',
        ''launch-env-fragment-v3.schema.json'', ''launch-env-fragment-v4.schema.json''} then check_fragment name instance
      else if name = ''conformance-claim-v3.schema.json'' then check_claim instance
      else Inr None)"

definition validate_wire_semantics ::
  "(string \<Rightarrow> string) \<Rightarrow> (string \<Rightarrow> (bool \<times> int) option) \<Rightarrow> string \<Rightarrow> json \<Rightarrow> string option res" where
  "validate_wire_semantics sha fromiso name value =
     (case value of
        JObj instance \<Rightarrow> first_message
          [if manifest_schema 7 name then before_schema8 instance else Inr None,
           if manifest_schema 6 name then before_schema7 instance else Inr None,
           by_schema sha fromiso name instance]
      | _ \<Rightarrow> Inr None)"

section \<open>What an accepted document guarantees\<close>

lemma py_in_texts: "py_in v (map JStr ks) \<longleftrightarrow> (\<exists>k \<in> set ks. v = JStr k)"
  by (auto simp: py_in_def list_ex_iff)

lemma py_in_text: "py_in (JStr k) vs \<longleftrightarrow> JStr k \<in> set vs"
  by (auto simp: py_in_def list_ex_iff)

lemma each_dict_ok: "each_dict f vs = Inr None \<longleftrightarrow> (\<forall>d. JObj d \<in> set vs \<longrightarrow> f d = Inr None)"
  by (auto simp: each_dict_def first_message_ok list_all_iff split: json.splits)

lemma refuse_when_ok: "refuse_when b m = Inr None \<longleftrightarrow> \<not> b"
  by (simp add: refuse_when_def)

lemma validate_by_schema:
  "validate_wire_semantics sha fromiso name (JObj instance) = Inr None \<Longrightarrow> by_schema sha fromiso name instance = Inr None"
  unfolding validate_wire_semantics_def json.case first_message_ok list.pred_inject by (elim conjE)

lemma in_map_filter: "y \<in> set (List.map_filter f xs) \<longleftrightarrow> (\<exists>x \<in> set xs. f x = Some y)"
  by (induction xs) (auto simp: List.map_filter_simps split: option.split)

lemma selected_repositories_ok:
  assumes "selected_repositories vs = Inr selected"
  shows "set selected = {jget c ''repository'' | c. JObj c \<in> set vs \<and> repository_driver c}"
proof -
  let ?f = "\<lambda>c. case c of JObj d \<Rightarrow> if repository_driver d then Some (jget d ''repository'') else None | _ \<Rightarrow> None"
  have f: "?f x = Some y \<longleftrightarrow> (\<exists>d. x = JObj d \<and> repository_driver d \<and> y = jget d ''repository'')" for x y
    by (cases x) auto
  have "selected = List.map_filter ?f vs" using assms by (simp add: selected_repositories_def as_set_def split: if_splits)
  then have "y \<in> set selected \<longleftrightarrow> (\<exists>x \<in> set vs. \<exists>d. x = JObj d \<and> repository_driver d \<and> y = jget d ''repository'')" for y
    by (simp only: in_map_filter f)
  then show ?thesis by blast
qed

section \<open>Properties\<close>

text \<open>
  C37: an accepted manifest builds from declared sources only, and from all of them.  In a manifest of
  schema 7 or 8 the repositories its commands select are exactly the declared ones, and every declared
  address is the text of the address grammar.
\<close>

theorem manifest_repositories_closed:
  assumes "validate_wire_semantics sha fromiso name (JObj instance) = Inr None"
    and "name \<in> {''agent-skill-v7.schema.json'', ''csk-skill-v7.schema.json'', ''agent-skill-v8.schema.json'', ''csk-skill-v8.schema.json''}"
    and "jget_or (JObj []) instance ''build_repositories'' = JObj repositories"
    and "jget_or (JObj []) instance ''commands'' = JObj commands"
  shows "{JStr k | k. k \<in> set (map fst repositories)} =
      {jget c ''repository'' | c. JObj c \<in> set (map snd commands) \<and> repository_driver c} \<and>
    (\<forall>r v. JObj r \<in> set (map snd repositories) \<longrightarrow> jget r ''git'' = JStr v \<longrightarrow> (\<exists>a. address_ok a \<and> address_text a = v))"
proof -
  have "check_repositories instance = Inr None"
    using validate_by_schema [OF assms(1)] assms(2) by (auto simp: by_schema_def)
  then have reps: "\<forall>r. JObj r \<in> set (map snd repositories) \<longrightarrow> validate_repository_git (jget r ''git'') = None"
    and sel: "and_then (selected_repositories (map snd commands)) (\<lambda>selected. first_message
             [refuse_when (\<not> list_all (\<lambda>v. py_in v (map (\<lambda>(k, _). JStr k) repositories)) selected)
                ''repository command selects an undeclared build repository'',
              refuse_when (\<not> list_all (\<lambda>(k, _). py_in (JStr k) selected) repositories)
                ''every build repository declaration must be selected by a command'']) = Inr None"
    unfolding check_repositories_def assms(3,4) prod.case json.case first_message_ok list.pred_inject each_dict_ok
    by blast+
  from sel obtain selected where s: "selected_repositories (map snd commands) = Inr selected"
    and sub: "list_all (\<lambda>v. py_in v (map (\<lambda>(k, _). JStr k) repositories)) selected"
    and sup: "list_all (\<lambda>(k, _). py_in (JStr k) selected) repositories"
    unfolding and_then_ok_iff first_message_ok list.pred_inject refuse_when_ok by blast
  have keys: "map (\<lambda>(k, _). JStr k) repositories = map JStr (map fst repositories)" by (simp add: case_prod_unfold)
  have "{JStr k | k. k \<in> set (map fst repositories)} = set selected"
    using sub sup unfolding keys py_in_texts by (fastforce simp: list_all_iff py_in_text)
  moreover have "set selected = {jget c ''repository'' | c. JObj c \<in> set (map snd commands) \<and> repository_driver c}"
    using selected_repositories_ok [OF s] .
  moreover have "\<exists>a. address_ok a \<and> address_text a = v" if "JObj r \<in> set (map snd repositories)" "jget r ''git'' = JStr v" for r v
  proof -
    from reps that have "validate_repository_git (JStr v) = None" by metis
    then show ?thesis unfolding repository_git_iff by blast
  qed
  ultimately show ?thesis by simp
qed

text \<open>
  C38: an accepted build receipt of schema \<open>build-receipt-v2\<close>, whose input, source, declared and effective
  members are objects, is bound to its input.  Its cache key, when it has one, is the digest of the canonical
  input; its source directory, when both are texts, lies at or below its build root; and a source that is
  not substituted has the identity, commit and format its lock names.
\<close>

theorem receipt_bound:
  assumes "validate_wire_semantics sha fromiso ''build-receipt-v2.schema.json'' (JObj instance) = Inr None"
    and "jget_or (JObj []) instance ''input'' = JObj inp"
    and "jget_or (JObj []) inp ''source'' = JObj source" and "jget_or (JObj []) source ''declared'' = JObj declared"
    and "jget_or (JObj []) source ''effective'' = JObj effective"
  shows "(jhas instance ''cache_key'' \<longrightarrow> (\<exists>digest. digest_of sha (JObj inp) = Inr digest \<and> jget instance ''cache_key'' = JStr digest)) \<and>
    (\<forall>base dir. jget inp ''build_root'' = JStr base \<longrightarrow> jget inp ''source_dir'' = JStr dir \<longrightarrow> is_below_or_equal dir base) \<and>
    (jget effective ''substituted'' = JBool False \<longrightarrow>
      (\<exists>locked. jget_or (JObj []) declared ''locked_commit'' = JObj locked \<and>
        py_eq (jget effective ''identity'') (jget declared ''identity'') \<and>
        py_eq (jget effective ''object_format'') (jget locked ''object_format'') \<and>
        py_eq (jget effective ''commit'') (jget locked ''hex'')))"
proof -
  have "check_receipt_v2 sha instance = Inr None"
    using validate_by_schema [OF assms(1)] by (simp add: by_schema_def)
  then have c: "check_cache_key sha instance (JObj inp) = Inr None" "below_root inp ''receipt source_dir must equal or be below build_root'' = Inr None"
    "validate_effective_source declared effective = Inr None"
    unfolding check_receipt_v2_def assms(2-5) prod.case json.case first_message_ok list.pred_inject by blast+
  have "jhas instance ''cache_key'' \<longrightarrow> (\<exists>digest. digest_of sha (JObj inp) = Inr digest \<and> jget instance ''cache_key'' = JStr digest)"
    using c(1) by (auto simp: check_cache_key_def and_then_ok_iff refuse_when_ok split: if_splits)
  moreover have "is_below_or_equal dir base" if "jget inp ''build_root'' = JStr base" "jget inp ''source_dir'' = JStr dir" for base dir
    using c(2) that by (simp add: below_root_def refuse_when_ok)
  ultimately show ?thesis using effective_source_locked [OF c(3)] by blast
qed

definition sample_manifest :: dict where
  "sample_manifest =
     [(''build_repositories'', JObj [(''tool'', JObj [(''git'', JStr ''git@example.org:a/b.git''), (''tag'', JStr ''v1.0.0'')])]),
      (''commands'', JObj [(''run'', JObj [(''driver'', JStr ''go-repository-v1''), (''repository'', JStr ''tool'')]),
         (''help'', JObj [(''path'', JStr ''help.sh'')])])]"

definition flat :: "string \<Rightarrow> string" where
  "flat _ = ''00''"

definition no_clock :: "string \<Rightarrow> (bool \<times> int) option" where
  "no_clock _ = None"

theorem manifest_repositories_closed_witness:
  "\<exists>a. address_ok a \<and> address_text a = ''git@example.org:a/b.git''"
proof -
  have v: "validate_wire_semantics flat no_clock ''agent-skill-v8.schema.json'' (JObj sample_manifest) = Inr None" by code_simp
  have r: "jget_or (JObj []) sample_manifest ''build_repositories'' =
      JObj [(''tool'', JObj [(''git'', JStr ''git@example.org:a/b.git''), (''tag'', JStr ''v1.0.0'')])]"
    "jget_or (JObj []) sample_manifest ''commands'' =
      JObj [(''run'', JObj [(''driver'', JStr ''go-repository-v1''), (''repository'', JStr ''tool'')]), (''help'', JObj [(''path'', JStr ''help.sh'')])]"
    by code_simp+
  from manifest_repositories_closed [OF v _ r] show ?thesis by force
qed

definition sample_input :: dict where
  "sample_input = [(''build_root'', JStr ''src''), (''source_dir'', JStr ''src/cmd''),
     (''source'', JObj [
       (''declared'', JObj [(''identity'', JNull), (''locked_commit'', JObj [(''object_format'', JStr ''other''), (''hex'', JStr ''ab'')])]),
       (''effective'', JObj [(''identity'', JNull), (''object_format'', JStr ''other''), (''commit'', JStr ''ab''), (''substituted'', JBool False)])])]"

theorem receipt_bound_witness:
  "(\<exists>digest. digest_of flat (JObj sample_input) = Inr digest \<and> digest = ''sha256:00'') \<and> is_below_or_equal ''src/cmd'' ''src''"
proof -
  let ?receipt = "[(''cache_key'', JStr ''sha256:00''), (''input'', JObj sample_input)]"
  have d: "digest_of flat (JObj sample_input) = Inr ''sha256:00''"
    by (simp add: digest_of_def ccj1_bytes_def unsigned_def sample_input_def flat_def)
  have e: "validate_effective_source [(''identity'', JNull), (''locked_commit'', JObj [(''object_format'', JStr ''other''), (''hex'', JStr ''ab'')])]
      [(''identity'', JNull), (''object_format'', JStr ''other''), (''commit'', JStr ''ab''), (''substituted'', JBool False)] = Inr None"
    by code_simp
  have b: "below_root sample_input ''receipt source_dir must equal or be below build_root'' = Inr None" by code_simp
  have c: "check_receipt_v2 flat ?receipt = Inr None"
    using d e b by (simp add: check_receipt_v2_def check_cache_key_def refuse_when_def) (simp add: sample_input_def)
  have "\<not> manifest_schema 7 ''build-receipt-v2.schema.json'' \<and> \<not> manifest_schema 6 ''build-receipt-v2.schema.json''" by code_simp
  with c have v: "validate_wire_semantics flat no_clock ''build-receipt-v2.schema.json'' (JObj ?receipt) = Inr None"
    by (simp add: validate_wire_semantics_def by_schema_def)
  have i: "jget_or (JObj []) ?receipt ''input'' = JObj sample_input" by simp
  obtain source declared effective where src: "jget_or (JObj []) sample_input ''source'' = JObj source"
    "jget_or (JObj []) source ''declared'' = JObj declared" "jget_or (JObj []) source ''effective'' = JObj effective"
    by (simp add: sample_input_def)
  have t: "jget sample_input ''build_root'' = JStr ''src''" "jget sample_input ''source_dir'' = JStr ''src/cmd''"
    by (simp_all add: sample_input_def)
  have "is_below_or_equal ''src/cmd'' ''src''" "\<exists>digest. digest_of flat (JObj sample_input) = Inr digest \<and> jget ?receipt ''cache_key'' = JStr digest"
    using receipt_bound [OF v i src] t by auto
  then show ?thesis by simp
qed

end
