(* ===== verification/LockWire.thy ===== *)
theory LockWire
  imports Resolver WireSemantics
begin

text \<open>
  Where resolution meets the wire checks (\<open>tools/validate.py\<close>, \<open>resolve_closure\<close> and
  \<open>check_lock\<close> of the version vectors): the lock document built from a resolution, and what
  it takes for \<open>validate_wire_semantics\<close> to accept it.
\<close>

section \<open>The lock document\<close>

definition member_document :: "member \<Rightarrow> dict" where
  "member_document m =
     [(''kind'', JStr (m_kind m)), (''name'', JStr (m_name m)), (''weight'', JInt (m_weight m)),
      (''required_by'', JArr (map JStr (m_required_by m))), (''overlay'', JBool (m_overlay m))] @
     (case m_state m of
        Some st \<Rightarrow> [(''state_sha256'', JStr st)]
      | None \<Rightarrow> [(''source'', jopt (m_source m)), (''commit'', jopt (m_commit m))] @
          (case m_directory m of None \<Rightarrow> [] | Some d \<Rightarrow> [(''directory'', JStr d)])) @
     (case m_version m of None \<Rightarrow> [] | Some v \<Rightarrow> [(''version'', JStr v)])"

definition lock_document :: "string \<Rightarrow> member list \<Rightarrow> dict" where
  "lock_document main members =
     [(''schema_version'', JInt 2), (''hash_version'', JInt 2), (''root'', JStr main),
      (''members'', JArr (map (\<lambda>m. JObj (member_document m)) members))]"

lemma member_document_simps [simp]:
  "jget (member_document m) ''kind'' = JStr (m_kind m)" "jget (member_document m) ''name'' = JStr (m_name m)"
  "jget (member_document m) ''required_by'' = JArr (map JStr (m_required_by m))"
  "jget (member_document m) ''overlay'' = JBool (m_overlay m)"
  by (simp_all add: member_document_def)

lemma lock_members: "all_dicts (jget (lock_document main ms) ''members'') = Some (map member_document ms)"
  by (simp add: all_dicts_def lock_document_def list_all_iff)

lemma lock_root: "jget (lock_document main ms) ''root'' = JStr main"
  by (simp add: lock_document_def)

section \<open>The check on typed members\<close>

lemma as_texts_back: "map_res as_text (map JStr ts) = Inr ts"
  by (induction ts) (simp_all add: as_text_def)

lemma strictly_sorted_texts: "strictly_sorted (map JStr ts) = Inr (sorted_wrt (<) ts)"
proof -
  consider "ts = []" | t where "ts = [t]" | t u us where "ts = t # u # us"
    by (metis list.exhaust)
  then show ?thesis
  proof cases
    case 3
    then show ?thesis using as_texts_back [of ts] by (simp add: strictly_sorted_def)
  qed (simp_all add: strictly_sorted_def hashable_def)
qed

lemma member_keys: "member_keys_sorted (map member_document ms) = Inr (sorted_wrt (<) (map (\<lambda>m. (m_kind m, m_name m)) ms))"
proof -
  have keys: "map_res (\<lambda>m. and_then (as_text (jget m ''kind'')) (\<lambda>k. and_then (as_text (jget m ''name'')) (\<lambda>n. Inr (k, n))))
      (map member_document ms) = Inr (map (\<lambda>m. (m_kind m, m_name m)) ms)"
    by (induction ms) (simp_all add: as_text_def)
  consider "ms = []" | m where "ms = [m]" | m m' ms' where "ms = m # m' # ms'"
    by (metis list.exhaust)
  then show ?thesis
  proof cases
    case 3
    then show ?thesis using keys by (simp add: member_keys_sorted_def)
  qed (simp_all add: member_keys_sorted_def hashable_def)
qed

lemma member_names: "map (\<lambda>m. jget m ''name'') (map member_document ms) = map (\<lambda>m. JStr (m_name m)) ms"
  by simp

lemma requirers_ok:
  "check_requirers (map (\<lambda>m. JStr (m_name m)) ms) (member_document m) = Inr None \<longleftrightarrow>
     sorted_wrt (<) (m_required_by m) \<and> set (m_required_by m) \<subseteq> m_name ` set ms \<and> m_name m \<notin> set (m_required_by m)"
proof -
  have "as_set (map JStr rs) = Inr (map JStr rs)" for rs by (simp add: as_set_def hashable_def list_all_iff)
  moreover have "py_in (JStr r) (map (\<lambda>m. JStr (m_name m)) ms) \<longleftrightarrow> r \<in> m_name ` set ms" for r
    by (auto simp: py_in_text)
  ultimately show ?thesis
    unfolding check_requirers_def member_document_simps json.case strictly_sorted_texts first_message_ok list.pred_inject
    by (auto simp: refuse_when_ok list_all_iff py_in_texts)
qed

lemma check_lock_ok:
  "check_lock (lock_document main ms) = Inr None \<longleftrightarrow>
     sorted_wrt (<) (map (\<lambda>m. (m_kind m, m_name m)) ms) \<and>
     (\<exists>m. find (\<lambda>m. m_kind m = ''context'' \<and> m_name m = main) ms = Some m \<and> m_required_by m = [] \<and> \<not> m_overlay m) \<and>
     (\<forall>m \<in> set ms. sorted_wrt (<) (m_required_by m) \<and> set (m_required_by m) \<subseteq> m_name ` set ms \<and> m_name m \<notin> set (m_required_by m))"
    (is "_ \<longleftrightarrow> ?keys \<and> ?found \<and> ?each")
proof -
  have found: "find (\<lambda>m. jget m ''kind'' = JStr ''context'' \<and> py_eq (jget m ''name'') (JStr main)) (map member_document ms) =
      map_option member_document (find (\<lambda>m. m_kind m = ''context'' \<and> m_name m = main) ms)"
    by (induction ms) auto
  have empty: "py_eq (JArr (map JStr rs)) (JArr []) \<longleftrightarrow> rs = []" for rs by (cases rs) simp_all
  have main: "(case map_option member_document (find (\<lambda>m. m_kind m = ''context'' \<and> m_name m = main) ms) of
        None \<Rightarrow> Inr (Some ''the lock root must be a context member'')
      | Some m \<Rightarrow> refuse_when (\<not> py_eq (jget m ''required_by'') (JArr []) \<or> jget m ''overlay'' \<noteq> JBool False)
          ''the lock root has no requirers and is not an overlay'') = Inr None \<longleftrightarrow> ?found"
    by (cases "find (\<lambda>m. m_kind m = ''context'' \<and> m_name m = main) ms")
      (simp_all only: option.map option.case member_document_simps empty refuse_when_ok, auto)
  show ?thesis
    unfolding check_lock_def lock_members lock_root option.case member_keys found member_names first_message_ok list.pred_inject main
    by (simp add: refuse_when_ok list_all_iff requirers_ok)
qed

section \<open>The members of a resolution\<close>

lemma selected_distinct:
  assumes "resolve_state pkgs inst ovs = Some (Inr s)"
  shows "distinct (map fst (selected s))"
proof -
  obtain s0 where s0: "seed inst ovs = Inr s0" "drain pkgs s0 = Some (Inr s)"
    using resolve_state_result [OF assms] by blast
  have "distinct (map fst (selected s)) \<and> pending s = []"
  proof (rule drain_invariant [OF s0(2)])
    show "distinct (map fst (selected s0))" using seed_facts [OF s0(1)] by simp
    show "distinct (map fst (selected b))" if d: "distinct (map fst (selected a))" and st: "step pkgs a = Inr b" for a b
      using st
    proof (cases rule: step_cases)
      case (enter n s sel)
      then show ?thesis using d expand_facts(2) [OF enter(6) [unfolded commit_selection_def]] by (simp add: distinct_update)
    next
      case (reselect n s sel current)
      then show ?thesis using d expand_facts(2) [OF reselect(6) [unfolded commit_selection_def]] by (simp add: distinct_update)
    next
      case (leave n s current)
      then show ?thesis using d by (simp add: distinct_delete)
    qed (use d in simp_all)
  qed
  then show ?thesis by blast
qed

lemma find_unique:
  assumes "distinct (map f xs)" "x \<in> set xs" "P x" "\<And>y. P y \<Longrightarrow> f y = f x"
  shows "find P xs = Some x"
  using assms
proof (induction xs)
  case (Cons y ys)
  show ?case
  proof (cases "P y")
    case True
    then have "f y = f x" by (rule Cons.prems(4))
    with Cons.prems(1,2) have "y = x" by auto
    with True show ?thesis by simp
  next
    case False
    with Cons.prems(2,3) have "x \<in> set ys" by auto
    moreover have "distinct (map f ys)" using Cons.prems(1) by simp
    ultimately have "find P ys = Some x" using Cons.IH Cons.prems(3,4) by blast
    with False show ?thesis by simp
  qed
qed simp

lemma lock_fields:
  assumes "lock_of main dflt s = Inr (members, warns)" and "m \<in> set members"
  obtains sel where "map_of (selected s) (m_name m) = Some sel" "m_kind m = s_kind sel"
    "m_overlay m = (s_overlay sel \<noteq> None)" "m_required_by m = required_by (constraints s) (m_name m)"
proof -
  from assms obtain sel w where sel: "map_of (selected s) (m_name m) = Some sel"
    and m: "m = make_member (constraints s) (m_name m) sel w" by (rule lock_made)
  have "m_kind m = s_kind sel" using arg_cong [OF m, of m_kind] by (simp add: make_member_def)
  moreover have "m_overlay m = (s_overlay sel \<noteq> None)" using arg_cong [OF m, of m_overlay] by (simp add: make_member_def)
  moreover have "m_required_by m = required_by (constraints s) (m_name m)"
    using arg_cong [OF m, of m_required_by] by (simp add: make_member_def)
  ultimately show thesis using that sel by blast
qed

lemma required_by_order: "sorted_wrt (<) (required_by cs n)"
  by (simp add: required_by_def strict_sorted_iff)

lemma required_by_set: "set (required_by cs n) = {c_of c | c. c \<in> set cs \<and> c_name c = n \<and> c_of c \<noteq> []}"
  by (auto simp: required_by_def)

section \<open>A resolution and its lock\<close>

lemma lock_names:
  assumes "lock_of main dflt s = Inr (members, warns)"
  shows "m_name ` set members = fst ` set (selected s)"
  using lock_order(2) [OF assms] by (metis mset_eq_setD list.set_map)

lemma lock_distinct:
  assumes "resolve_state pkgs inst ovs = Some (Inr s)" and "lock_of main dflt s = Inr (members, warns)"
  shows "distinct (map m_name members)" and "sorted_wrt (<) (map (\<lambda>m. (m_kind m, m_name m)) members)"
proof -
  show dist: "distinct (map m_name members)"
    using lock_order(2) [OF assms(2)] selected_distinct [OF assms(1)] mset_eq_imp_distinct_iff by blast
  have "distinct (map (\<lambda>m. (m_kind m, m_name m)) members)"
    using dist by (metis (mono_tags, lifting) comp_apply distinct_map inj_on_def prod.inject)
  with lock_order(1) [OF assms(2)] show "sorted_wrt (<) (map (\<lambda>m. (m_kind m, m_name m)) members)"
    by (simp add: strict_sorted_iff)
qed

lemma requirers_inside:
  assumes "resolve_state pkgs inst ovs = Some (Inr s)"
  shows "set (required_by (constraints s) n) \<subseteq> fst ` set (selected s)"
proof
  fix r assume "r \<in> set (required_by (constraints s) n)"
  then obtain c where c: "c \<in> set (constraints s)" "r = c_of c" "c_of c \<noteq> []" unfolding required_by_set by blast
  have "machine_owned c \<or> owned_by s c" using resolve_settled(2) [OF assms] c(1) by (simp add: attributed_def)
  with c have "\<exists>sel. map_of (selected s) r = Some sel" by (auto simp: machine_owned_def owned_by_def)
  then show "r \<in> fst ` set (selected s)" by (force dest: map_of_SomeD)
qed

lemma lock_root_found:
  assumes "lock_of main dflt s = Inr (members, warns)" and "distinct (map m_name members)"
  shows "(\<exists>m. find (\<lambda>m. m_kind m = ''context'' \<and> m_name m = main) members = Some m \<and> m_required_by m = [] \<and> \<not> m_overlay m) \<longleftrightarrow>
    (\<exists>sel. map_of (selected s) main = Some sel \<and> s_kind sel = ''context'' \<and> s_overlay sel = None) \<and>
    required_by (constraints s) main = []" (is "?found \<longleftrightarrow> ?selected")
proof
  note made = lock_fields [OF assms(1)]
  assume ?found
  then obtain m where m: "m \<in> set members" "m_kind m = ''context''" "m_name m = main" "m_required_by m = []" "\<not> m_overlay m"
    unfolding find_Some_iff by (metis nth_mem)
  from m(1) obtain sel where "map_of (selected s) (m_name m) = Some sel" "m_kind m = s_kind sel" "m_overlay m = (s_overlay sel \<noteq> None)"
    "m_required_by m = required_by (constraints s) (m_name m)" by (rule made)
  with m show ?selected by auto
next
  note made = lock_fields [OF assms(1)]
  assume sel: ?selected
  then obtain sel where s: "map_of (selected s) main = Some sel" "s_kind sel = ''context''" "s_overlay sel = None" by blast
  then have "main \<in> m_name ` set members" unfolding lock_names [OF assms(1)] by (force dest: map_of_SomeD)
  then obtain m where m: "m \<in> set members" "m_name m = main" by blast
  from m(1) obtain sel' where f: "map_of (selected s) (m_name m) = Some sel'" "m_kind m = s_kind sel'" "m_overlay m = (s_overlay sel' \<noteq> None)"
    "m_required_by m = required_by (constraints s) (m_name m)" by (rule made)
  with s m(2) have k: "m_kind m = ''context''" "\<not> m_overlay m" by auto
  have "find (\<lambda>m. m_kind m = ''context'' \<and> m_name m = main) members = Some m"
    by (rule find_unique [OF assms(2) m(1)]) (use m k in simp_all)
  with k sel f(4) m(2) show ?found by auto
qed

lemma no_self_requirer:
  assumes "resolve_state pkgs inst ovs = Some (Inr s)"
  shows "(\<forall>n \<in> fst ` set (selected s). n \<notin> set (required_by (constraints s) n)) \<longleftrightarrow>
    (\<forall>c \<in> set (constraints s). c_of c \<noteq> [] \<longrightarrow> c_name c \<noteq> c_of c)"
proof -
  have "c_name c \<in> fst ` set (selected s)" if "c \<in> set (constraints s)" for c
    using resolve_answers [OF assms that] by (force dest: map_of_SomeD)
  then show ?thesis unfolding required_by_set by force
qed

lemma lock_schema_check:
  "validate_wire_semantics sha fromiso ''context-lock-v2.schema.json'' (JObj d) = Inr None \<longleftrightarrow> check_lock d = Inr None"
proof -
  have "\<not> manifest_schema 7 ''context-lock-v2.schema.json'' \<and> \<not> manifest_schema 6 ''context-lock-v2.schema.json''" by code_simp
  then show ?thesis by (simp add: validate_wire_semantics_def by_schema_def and_then_ok_iff split: option.splits)
qed

section \<open>Property\<close>

text \<open>
  C39: what a resolution needs for its lock to be accepted.  The lock document of a resolution that
  returns always has its members sorted without duplicates, its requirers sorted and all in the lock;
  the wire check accepts it exactly when the root was selected as a context that is no overlay, and no
  package requires the root or itself.
\<close>

theorem resolved_lock_accepted:
  assumes "resolve_state pkgs inst ovs = Some (Inr s)" and "lock_of main dflt s = Inr (members, warns)"
  shows "validate_wire_semantics sha fromiso ''context-lock-v2.schema.json'' (JObj (lock_document main members)) = Inr None \<longleftrightarrow>
    (\<exists>sel. map_of (selected s) main = Some sel \<and> s_kind sel = ''context'' \<and> s_overlay sel = None) \<and>
    (\<forall>c \<in> set (constraints s). c_of c \<noteq> [] \<longrightarrow> c_name c \<noteq> main \<and> c_name c \<noteq> c_of c)"
proof -
  note dist = lock_distinct [OF assms] and names = lock_names [OF assms(2)]
  have fields: "m_required_by m = required_by (constraints s) (m_name m)" if "m \<in> set members" for m
    using lock_fields [OF assms(2) that] by blast
  have "(\<forall>m \<in> set members. sorted_wrt (<) (m_required_by m) \<and> set (m_required_by m) \<subseteq> m_name ` set members \<and>
        m_name m \<notin> set (m_required_by m)) \<longleftrightarrow>
      (\<forall>n \<in> m_name ` set members. n \<notin> set (required_by (constraints s) n))"
    using fields requirers_inside [OF assms(1), folded names] required_by_order by auto
  moreover have "required_by (constraints s) main = [] \<longleftrightarrow> (\<forall>c \<in> set (constraints s). c_of c \<noteq> [] \<longrightarrow> c_name c \<noteq> main)"
    using required_by_set [of "constraints s" main] by (auto simp: set_empty [symmetric] simp del: set_empty)
  ultimately show ?thesis
    unfolding lock_schema_check check_lock_ok lock_root_found [OF assms(2) dist(1)]
    using dist(2) no_self_requirer [OF assms(1), folded names] by blast
qed

theorem resolved_lock_accepted_witness:
  "validate_wire_semantics flat no_clock ''context-lock-v2.schema.json'' (JObj (lock_document ''x'' narrowed_lock)) = Inr None"
proof -
  have "case map_of (selected narrowed) ''x'' of Some sel \<Rightarrow> s_kind sel = ''context'' \<and> s_overlay sel = None | None \<Rightarrow> False" by code_simp
  then have "\<exists>sel. map_of (selected narrowed) ''x'' = Some sel \<and> s_kind sel = ''context'' \<and> s_overlay sel = None"
    by (auto split: option.splits)
  moreover have "list_all (\<lambda>c. c_of c \<noteq> [] \<longrightarrow> c_name c \<noteq> ''x'' \<and> c_name c \<noteq> c_of c) (constraints narrowed)" by code_simp
  ultimately show ?thesis
    unfolding resolved_lock_accepted [OF narrowing_resolves narrowed_locks] by (auto simp: list_all_iff)
qed

end
