(* ===== verification/Emission.thy ===== *)
theory Emission
  imports LockWire
begin

text \<open>
  The emitted order of a composed environment (\<open>tools/validate.py\<close>, section 5 of
  environments.md): Kahn's algorithm over the context members of a lock, which takes the least
  name whose requirements are all emitted, and a stable sort by weight in the direction the
  precedence policy asks for.  The order, the case where there is none, and the header that
  lists it.

  A lock is typed the way its schema types it (\<open>member\<close> is the resolver's record); the
  policy, which the code checks, is a JSON value.
\<close>

section \<open>Locks and policies\<close>

record lock =
  lk_root :: string
  lk_members :: "member list"

definition ENVIRONMENT_WINNERS :: "string list" where
  "ENVIRONMENT_WINNERS = [''higher-weight'', ''lower-weight'']"

definition ENVIRONMENT_PLACEMENTS :: "string list" where
  "ENVIRONMENT_PLACEMENTS = [''winner-last'', ''winner-first'']"

definition bad_precedence :: "'a res" where
  "bad_precedence = Inl (fail ''environment case declares an invalid precedence policy: '')"

definition environment_precedence :: "json \<Rightarrow> (string \<times> string) res" where
  "environment_precedence precedence =
     (case precedence of
        JObj d \<Rightarrow>
          if \<not> same_keys d [''winner'', ''placement''] then bad_precedence
          else and_then (in_frozenset (jget d ''winner'') ENVIRONMENT_WINNERS) (\<lambda>w.
            if \<not> w then bad_precedence
            else and_then (in_frozenset (jget d ''placement'') ENVIRONMENT_PLACEMENTS) (\<lambda>p.
              if \<not> p then bad_precedence
              else Inr (the_str (jget d ''winner''), the_str (jget d ''placement''))))
      | _ \<Rightarrow> bad_precedence)"

section \<open>The order\<close>

text \<open>\<open>{member["name"]: member for member in \<dots>}\<close>: a later member of a name replaces the earlier.\<close>

definition contexts_of :: "member list \<Rightarrow> (string \<times> member) list" where
  "contexts_of ms = fold (\<lambda>m. AList.update (m_name m) m) (filter (\<lambda>m. m_kind m = ''context'') ms) []"

text \<open>\<open>requires[requirer]\<close>: the contexts a context requires.\<close>

definition requires_of :: "(string \<times> member) list \<Rightarrow> string \<Rightarrow> string list" where
  "requires_of cs requirer = map fst (filter (\<lambda>(_, m). requirer \<in> set (m_required_by m)) cs)"

definition ready_names :: "(string \<times> member) list \<Rightarrow> string list \<Rightarrow> string list" where
  "ready_names cs emitted =
     sort (filter (\<lambda>n. n \<notin> set emitted \<and> set (requires_of cs n) \<subseteq> set emitted) (map fst cs))"

function kahn :: "(string \<times> member) list \<Rightarrow> string list \<Rightarrow> string list res" where
  "kahn cs emitted =
     (if length emitted < length cs then
        (case ready_names cs emitted of
           [] \<Rightarrow> Inl (fail ''environment lock has a context cycle'')
         | n # _ \<Rightarrow> kahn cs (emitted @ [n]))
      else Inr emitted)"
  by pat_completeness auto
termination
  by (relation "measure (\<lambda>(cs, emitted). length cs - length emitted)") auto

declare kahn.simps [simp del]

definition weight_key :: "string \<Rightarrow> string \<Rightarrow> member \<Rightarrow> int" where
  "weight_key winner placement m =
     (if (winner = ''higher-weight'') = (placement = ''winner-last'') then m_weight m else - m_weight m)"

definition environment_emitted_order :: "lock \<Rightarrow> json \<Rightarrow> member list res" where
  "environment_emitted_order lk precedence =
     and_then (environment_precedence precedence) (\<lambda>(winner, placement).
     let cs = contexts_of (lk_members lk) in
     and_then (kahn cs []) (\<lambda>emitted.
     Inr (sort_key (weight_key winner placement) (map (\<lambda>n. the (map_of cs n)) emitted))))"

section \<open>Contexts\<close>

lemma contexts_distinct: "distinct (map fst (contexts_of ms))"
proof -
  have "distinct (map fst xs) \<Longrightarrow> distinct (map fst (fold (\<lambda>m. AList.update (m_name m) m) ks xs))" for xs and ks :: "member list"
    by (induction ks arbitrary: xs) (simp_all add: distinct_update)
  then show ?thesis by (simp add: contexts_of_def)
qed

lemma update_subset: "set (AList.update k v xs) \<subseteq> insert (k, v) (set xs)"
  by (induction xs) auto

lemma contexts_named: "(n, m) \<in> set (contexts_of ms) \<Longrightarrow> m_name m = n \<and> m \<in> set ms \<and> m_kind m = ''context''"
proof -
  let ?P = "\<lambda>p. m_name (snd p) = fst p \<and> snd p \<in> set ms \<and> m_kind (snd p) = ''context''"
  have "\<forall>p \<in> set (fold (\<lambda>m. AList.update (m_name m) m) (filter (\<lambda>m. m_kind m = ''context'') ms) []). ?P p"
  proof (rule fold_invariant [where Q = "\<lambda>m. m \<in> set ms \<and> m_kind m = ''context''"])
    fix m xs
    assume m: "m \<in> set ms \<and> m_kind m = ''context''" and xs: "\<forall>p \<in> set xs. ?P p"
    show "\<forall>p \<in> set (AList.update (m_name m) m xs). ?P p"
    proof
      fix p assume "p \<in> set (AList.update (m_name m) m xs)"
      then have "p = (m_name m, m) \<or> p \<in> set xs" using update_subset [of "m_name m" m xs] by blast
      then show "?P p" using m xs by (elim disjE) simp_all
    qed
  qed simp_all
  then show "(n, m) \<in> set (contexts_of ms) \<Longrightarrow> ?thesis" by (auto simp: contexts_of_def)
qed

lemma update_new: "k \<notin> fst ` set xs \<Longrightarrow> AList.update k v xs = xs @ [(k, v)]"
  by (induction xs) auto

lemma contexts_of_distinct:
  assumes "distinct (map m_name (filter (\<lambda>m. m_kind m = ''context'') ms))"
  shows "contexts_of ms = map (\<lambda>m. (m_name m, m)) (filter (\<lambda>m. m_kind m = ''context'') ms)"
proof -
  have "fold (\<lambda>m. AList.update (m_name m) m) ks xs = xs @ map (\<lambda>m. (m_name m, m)) ks"
    if "distinct (map fst xs @ map m_name ks)" for xs and ks :: "member list"
    using that by (induction ks arbitrary: xs) (auto simp: update_new)
  then show ?thesis using assms by (simp add: contexts_of_def)
qed

section \<open>Kahn's algorithm\<close>

text \<open>The edges: a context and a context it requires.\<close>

definition context_edges :: "(string \<times> member) list \<Rightarrow> (string \<times> string) set" where
  "context_edges cs = {(b, a). a \<in> fst ` set cs \<and> b \<in> set (requires_of cs a)}"

text \<open>A list of names in which every name comes after what it requires.\<close>

definition in_order :: "(string \<times> member) list \<Rightarrow> string list \<Rightarrow> bool" where
  "in_order cs out \<longleftrightarrow> distinct out \<and> set out \<subseteq> fst ` set cs \<and>
     (\<forall>xs n ys. out = xs @ n # ys \<longrightarrow> set (requires_of cs n) \<subseteq> set xs)"

lemma in_order_Nil: "in_order cs []"
  by (simp add: in_order_def)

lemma ready_in_order:
  assumes "ready_names cs out = n # rest" "in_order cs out"
  shows "in_order cs (out @ [n])"
proof -
  have "n \<in> set (ready_names cs out)" using assms(1) by simp
  then have n: "n \<in> fst ` set cs" "n \<notin> set out" "set (requires_of cs n) \<subseteq> set out"
    by (auto simp: ready_names_def)
  have "set (requires_of cs m) \<subseteq> set xs" if e: "out @ [n] = xs @ m # ys" for xs m ys
  proof (cases ys rule: rev_cases)
    case Nil
    then show ?thesis using e n(3) by simp
  next
    case (snoc zs z)
    then have "out = xs @ m # zs" using e by simp
    then show ?thesis using assms(2) by (simp add: in_order_def)
  qed
  then show ?thesis using n assms(2) by (auto simp: in_order_def)
qed

lemma kahn_in_order: "kahn cs out = Inr res \<Longrightarrow> in_order cs out \<Longrightarrow> in_order cs res \<and> length cs \<le> length res"
proof (induction cs out rule: kahn.induct)
  case (1 cs out)
  show ?case
  proof (cases "length out < length cs")
    case True
    then obtain n rest where n: "ready_names cs out = n # rest" "kahn cs (out @ [n]) = Inr res"
      using "1.prems"(1) by (subst (asm) kahn.simps) (auto split: list.splits)
    show ?thesis using "1.IH" [OF True n] ready_in_order [OF n(1) "1.prems"(2)] by blast
  next
    case False
    then show ?thesis using "1.prems" by (subst (asm) kahn.simps) simp
  qed
qed

lemma kahn_all:
  assumes "kahn cs [] = Inr res" "distinct (map fst cs)"
  shows "mset res = mset (map fst cs)" "in_order cs res"
proof -
  have o: "in_order cs res" "length cs \<le> length res" using kahn_in_order [OF assms(1) in_order_Nil] by auto
  then have "card (set res) = length res" "set res \<subseteq> set (map fst cs)" "distinct res"
    by (auto simp: in_order_def distinct_card)
  moreover have "card (set (map fst cs)) = length cs" using assms(2) distinct_card [OF assms(2)] by simp
  ultimately have "set res = set (map fst cs)" using o(2) by (intro card_seteq) auto
  then show "mset res = mset (map fst cs)" using set_eq_iff_mset_eq_distinct [OF \<open>distinct res\<close> assms(2)] by simp
qed (use kahn_in_order [OF assms(1) in_order_Nil] in auto)

lemma kahn_stuck:
  assumes "kahn cs out = Inl e" "in_order cs out" "distinct (map fst cs)"
  shows "\<exists>R. R \<noteq> {} \<and> (\<forall>n \<in> R. \<exists>b \<in> R. (b, n) \<in> context_edges cs)"
  using assms
proof (induction cs out rule: kahn.induct)
  case (1 cs out)
  have less: "length out < length cs" using "1.prems"(1) by (subst (asm) kahn.simps) (auto split: if_splits)
  show ?case
  proof (cases "ready_names cs out")
    case Nil
    let ?R = "fst ` set cs - set out"
    have "card (set out) < card (fst ` set cs)"
      using less "1.prems"(2) distinct_card [OF "1.prems"(3)] by (simp add: in_order_def distinct_card)
    then have "?R \<noteq> {}" by (metis Diff_eq_empty_iff List.finite_set card_mono not_le)
    moreover have "\<exists>b \<in> ?R. (b, n) \<in> context_edges cs" if "n \<in> ?R" for n
    proof -
      have "\<not> set (requires_of cs n) \<subseteq> set out"
      proof
        assume "set (requires_of cs n) \<subseteq> set out"
        with that have "n \<in> set (ready_names cs out)"
          unfolding ready_names_def set_sort set_filter set_map by (intro CollectI conjI) (elim DiffE, assumption)+
        then show False using Nil by simp
      qed
      then obtain b where b: "b \<in> set (requires_of cs n)" "b \<notin> set out" by blast
      then have "b \<in> fst ` set cs" by (auto simp: requires_of_def)
      then show ?thesis using b that by (auto simp: context_edges_def)
    qed
    ultimately show ?thesis by (intro exI [of _ ?R] conjI ballI)
  next
    case (Cons n rest)
    then have "kahn cs (out @ [n]) = Inl e" using "1.prems"(1) less by (subst (asm) kahn.simps) simp
    from "1.IH" [OF less Cons this ready_in_order [OF Cons "1.prems"(2)] "1.prems"(3)] show ?thesis .
  qed
qed

lemma edges_finite: "finite (context_edges cs)"
proof -
  have "context_edges cs \<subseteq> (fst ` set cs) \<times> (fst ` set cs)" by (auto simp: context_edges_def requires_of_def)
  then show ?thesis by (rule finite_subset) simp
qed

lemma takeWhile_shorter: "b \<in> set xs \<Longrightarrow> length (takeWhile (\<lambda>m. m \<noteq> b) xs) < length xs"
  by (induction xs) auto

lemma in_order_acyclic:
  assumes "in_order cs res" "set res = fst ` set cs"
  shows "acyclic (context_edges cs)"
proof -
  let ?pos = "\<lambda>n. length (takeWhile (\<lambda>m. m \<noteq> n) res)"
  have "?pos b < ?pos a" if "(b, a) \<in> context_edges cs" for a b
  proof -
    from that have a: "a \<in> set res" and b: "b \<in> set (requires_of cs a)"
      using assms(2) by (auto simp: context_edges_def)
    obtain xs ys where r: "res = xs @ a # ys" "a \<notin> set xs" using split_list_first [OF a] by blast
    have "set (requires_of cs a) \<subseteq> set xs" using assms(1) r(1) unfolding in_order_def by blast
    then have "b \<in> set xs" using b by blast
    then have "?pos b < length xs" using r(1)
      by (simp add: takeWhile_append1 takeWhile_shorter)
    moreover have "takeWhile (\<lambda>m. m \<noteq> a) (xs @ a # ys) = xs" using r(2) by (subst takeWhile_append2) auto
    then have "?pos a = length xs" using r(1) by simp
    ultimately show ?thesis by simp
  qed
  then have "context_edges cs \<subseteq> measure ?pos" by auto
  then show ?thesis by (meson wf_measure wf_acyclic acyclic_subset)
qed

lemma kahn_ends_iff:
  assumes "distinct (map fst cs)"
  shows "(\<exists>res. kahn cs [] = Inr res) \<longleftrightarrow> acyclic (context_edges cs)"
proof
  assume "\<exists>res. kahn cs [] = Inr res"
  then obtain res where r: "kahn cs [] = Inr res" by blast
  have "set res = fst ` set cs" using kahn_all(1) [OF r assms] by (metis list.set_map set_mset_mset)
  then show "acyclic (context_edges cs)" using in_order_acyclic kahn_all(2) [OF r assms] by blast
next
  assume "acyclic (context_edges cs)"
  then have wf: "wf (context_edges cs)" by (rule finite_acyclic_wf [OF edges_finite])
  show "\<exists>res. kahn cs [] = Inr res"
  proof (rule ccontr)
    assume "\<nexists>res. kahn cs [] = Inr res"
    then obtain e where e: "kahn cs [] = Inl e" by (cases "kahn cs []") auto
    obtain R where R: "R \<noteq> {}" "\<forall>n \<in> R. \<exists>b \<in> R. (b, n) \<in> context_edges cs"
      using kahn_stuck [OF e in_order_Nil assms] by (elim exE conjE) (rule that)
    obtain z where "z \<in> R" "\<And>y. (y, z) \<in> context_edges cs \<Longrightarrow> y \<notin> R"
      using wfE_min' [OF wf R(1)] by blast
    then show False using R(2) by blast
  qed
qed

section \<open>The emitted members\<close>

lemma emitted_cases:
  assumes "environment_emitted_order lk prec = Inr out"
  obtains w p names where "environment_precedence prec = Inr (w, p)"
    "kahn (contexts_of (lk_members lk)) [] = Inr names"
    "out = sort_key (weight_key w p) (map (\<lambda>n. the (map_of (contexts_of (lk_members lk)) n)) names)"
  using assms by (auto simp: environment_emitted_order_def Let_def and_then_ok_iff)

lemma looked_up:
  assumes "n \<in> fst ` set (contexts_of ms)"
  shows "(n, the (map_of (contexts_of ms) n)) \<in> set (contexts_of ms)"
    "m_name (the (map_of (contexts_of ms) n)) = n"
proof -
  from assms obtain m where m: "(n, m) \<in> set (contexts_of ms)" by auto
  then have "map_of (contexts_of ms) n = Some m" using contexts_distinct by simp
  then show "(n, the (map_of (contexts_of ms) n)) \<in> set (contexts_of ms)"
    "m_name (the (map_of (contexts_of ms) n)) = n"
    using m contexts_named [OF m] by simp_all
qed

lemma looked_up_all:
  assumes "mset names = mset (map fst (contexts_of ms))"
  shows "mset (map (\<lambda>n. the (map_of (contexts_of ms) n)) names) = mset (map snd (contexts_of ms))"
proof -
  have "map (\<lambda>n. the (map_of (contexts_of ms) n)) (map fst (contexts_of ms)) = map snd (contexts_of ms)"
    using contexts_distinct [of ms] by (auto simp: map_of_is_SomeI)
  then show ?thesis using assms by (metis mset_map)
qed

text \<open>A stable sort keeps the order of equal keys.\<close>

lemma filter_order:
  assumes "filter P xs = us @ y # ys" shows "\<exists>as bs. xs = as @ y # bs \<and> filter P as = us \<and> filter P bs = ys"
  using assms
proof (induction xs arbitrary: us)
  case (Cons x xs)
  show ?case
  proof (cases "P x")
    case True
    show ?thesis
    proof (cases us)
      case Nil
      then have "x # xs = [] @ y # xs \<and> filter P [] = us \<and> filter P xs = ys" using Cons.prems True by simp
      then show ?thesis by blast
    next
      case (Cons u vs)
      then have "filter P xs = vs @ y # ys" "u = x" using Cons.prems True by simp_all
      from Cons.IH [OF this(1)] obtain ks ls where "xs = ks @ y # ls" "filter P ks = vs" "filter P ls = ys" by blast
      then have "x # xs = (x # ks) @ y # ls \<and> filter P (x # ks) = us \<and> filter P ls = ys"
        using True Cons \<open>u = x\<close> by simp
      then show ?thesis by blast
    qed
  next
    case False
    with Cons.prems have "filter P xs = us @ y # ys" by simp
    from Cons.IH [OF this] obtain ks ls where "xs = ks @ y # ls" "filter P ks = us" "filter P ls = ys" by blast
    then have "x # xs = (x # ks) @ y # ls \<and> filter P (x # ks) = us \<and> filter P ls = ys" using False by simp
    then show ?thesis by blast
  qed
qed simp

lemma sort_keeps_order:
  assumes "xs = as @ b # bs" "a \<in> set bs" "f a = f b"
  shows "\<exists>us ys. sort_key f xs = us @ b # ys \<and> a \<in> set ys"
proof -
  have "filter (\<lambda>x. f x = f b) (sort_key f xs) = filter (\<lambda>x. f x = f b) as @ b # filter (\<lambda>x. f x = f b) bs"
    using assms(1) by (simp add: sort_key_stable)
  from filter_order [OF this] obtain us ys where "sort_key f xs = us @ b # ys" "filter (\<lambda>x. f x = f b) ys = filter (\<lambda>x. f x = f b) bs" by blast
  moreover have "a \<in> set (filter (\<lambda>x. f x = f b) bs)" using assms(2,3) by simp
  then have "a \<in> set ys" unfolding \<open>filter (\<lambda>x. f x = f b) ys = _\<close> [symmetric] by simp
  ultimately show ?thesis by blast
qed

text \<open>What the order says, in terms of the policy: \<open>beats w a b\<close> is that \<open>a\<close> wins over \<open>b\<close>.\<close>

definition beats :: "string \<Rightarrow> member \<Rightarrow> member \<Rightarrow> bool" where
  "beats winner a b = (if winner = ''higher-weight'' then m_weight b < m_weight a else m_weight a < m_weight b)"

definition requires :: "member \<Rightarrow> member \<Rightarrow> bool" where
  "requires a b = (m_name a \<in> set (m_required_by b))"

lemma weight_key_beats:
  assumes "environment_precedence prec = Inr (w, p)"
  shows "weight_key w p a \<le> weight_key w p b \<longleftrightarrow> (if p = ''winner-last'' then \<not> beats w a b else \<not> beats w b a)"
  by (auto simp: weight_key_def beats_def)

lemma emitted_members:
  assumes "environment_emitted_order lk prec = Inr out"
  shows "mset out = mset (map snd (contexts_of (lk_members lk)))"
proof -
  obtain w p names where k: "kahn (contexts_of (lk_members lk)) [] = Inr names"
    "out = sort_key (weight_key w p) (map (\<lambda>n. the (map_of (contexts_of (lk_members lk)) n)) names)"
    using emitted_cases [OF assms] .
  show ?thesis unfolding k(2) mset_sort by (rule looked_up_all [OF kahn_all(1) [OF k(1) contexts_distinct]])
qed

lemma emitted_requirement:
  assumes "environment_emitted_order lk prec = Inr out"
    and "a \<in> set out" "b \<in> set out" "requires a b" "m_weight a = m_weight b"
  shows "\<exists>us ys. out = us @ b # ys \<and> a \<in> set ys"
proof -
  let ?cs = "contexts_of (lk_members lk)"
  let ?get = "\<lambda>n. the (map_of ?cs n)"
  obtain w p names where k: "kahn ?cs [] = Inr names" "out = sort_key (weight_key w p) (map ?get names)"
    using emitted_cases [OF assms(1)] .
  have all: "set names = fst ` set ?cs" and ord: "in_order ?cs names"
    using kahn_all [OF k(1) contexts_distinct] by (metis list.set_map set_mset_mset)+
  have named: "?get (m_name m) = m \<and> m_name m \<in> set names \<and> (m_name m, m) \<in> set ?cs" if "m \<in> set out" for m
  proof -
    from that k(2) obtain n where n: "n \<in> set names" "m = ?get n" by auto
    then have "n \<in> fst ` set ?cs" using all by simp
    from looked_up [OF this] n show ?thesis by simp
  qed
  from named [OF assms(2)] obtain xs ys where r: "names = xs @ m_name a # ys" by (meson split_list)
  have "m_name b \<in> set (requires_of ?cs (m_name a))"
    using named [OF assms(3)] assms(4) unfolding requires_of_def requires_def by force
  then have "m_name b \<in> set xs" using ord r unfolding in_order_def by blast
  then obtain as bs where "names = as @ m_name b # bs" "m_name a \<in> set bs"
    using r by (metis (no_types, lifting) append_Cons append_assoc in_set_conv_decomp)
  then have "map ?get names = map ?get as @ b # map ?get bs" "a \<in> set (map ?get bs)"
    using named [OF assms(2)] named [OF assms(3)] by (auto intro: rev_image_eqI)
  from sort_keeps_order [OF this, of "weight_key w p"] show ?thesis
    using assms(5) unfolding k(2) by (simp add: weight_key_def)
qed

lemma emitted_sorted:
  assumes "environment_emitted_order lk prec = Inr out" "environment_precedence prec = Inr (w, p)"
  shows "sorted_wrt (\<lambda>a b. if p = ''winner-last'' then \<not> beats w a b else \<not> beats w b a) out"
proof -
  obtain names where k: "out = sort_key (weight_key w p) (map (\<lambda>n. the (map_of (contexts_of (lk_members lk)) n)) names)"
    using emitted_cases [OF assms(1)] assms(2) by (metis Pair_inject sum.inject(2))
  have "sorted (map (weight_key w p) out)" unfolding k by simp
  then show ?thesis unfolding sorted_map weight_key_beats [OF assms(2)] .
qed

section \<open>Independence of the order of the lock\<close>

lemma requires_of_perm: "mset cs = mset ds \<Longrightarrow> set (requires_of cs n) = set (requires_of ds n)"
  by (rule mset_eq_setD) (simp add: requires_of_def)

lemma sort_mset: "mset xs = mset ys \<Longrightarrow> sort xs = sort ys" for xs :: "'a::linorder list"
  by (metis mset_sort properties_for_sort sorted_sort)

lemma ready_perm: "mset cs = mset ds \<Longrightarrow> ready_names cs out = ready_names ds out"
proof -
  assume m: "mset cs = mset ds"
  have "mset (filter P (map fst cs)) = mset (filter P (map fst ds))" for P
    unfolding mset_filter mset_map m ..
  then show ?thesis unfolding ready_names_def requires_of_perm [OF m] by (rule sort_mset)
qed

lemma kahn_perm: "mset cs = mset ds \<Longrightarrow> kahn cs out = kahn ds out"
proof (induction cs out rule: kahn.induct)
  case (1 cs out)
  have l: "length cs = length ds" using "1.prems" by (rule mset_eq_length)
  show ?case
  proof (cases "length out < length cs")
    case True
    show ?thesis
    proof (cases "ready_names cs out")
      case Nil
      then show ?thesis using True l ready_perm [OF "1.prems"] by (subst (1 2) kahn.simps) simp
    next
      case (Cons n rest)
      from "1.IH" [OF True Cons "1.prems"] show ?thesis
        using True l ready_perm [OF "1.prems"] Cons by (subst (1 2) kahn.simps) simp
    qed
  next
    case False
    then show ?thesis using l by (subst (1 2) kahn.simps) simp
  qed
qed

lemma emitted_perm:
  assumes "distinct (map m_name (filter (\<lambda>m. m_kind m = ''context'') ms))" "mset ms = mset ns"
  shows "environment_emitted_order \<lparr>lk_root = r, lk_members = ms\<rparr> prec = environment_emitted_order \<lparr>lk_root = q, lk_members = ns\<rparr> prec"
proof -
  let ?ctx = "\<lambda>m. m_kind m = ''context''"
  have f: "mset (filter ?ctx ms) = mset (filter ?ctx ns)" unfolding mset_filter assms(2) ..
  then have n: "mset (map m_name (filter ?ctx ms)) = mset (map m_name (filter ?ctx ns))" unfolding mset_map by simp
  have d: "distinct (map m_name (filter ?ctx ns))" using mset_eq_imp_distinct_iff [OF n] assms(1) by simp
  have m: "mset (contexts_of ms) = mset (contexts_of ns)"
    unfolding contexts_of_distinct [OF assms(1)] contexts_of_distinct [OF d] mset_map f ..
  have "map_of (contexts_of ms) = map_of (contexts_of ns)"
    using m by (intro map_of_inject_set [THEN iffD2] contexts_distinct mset_eq_setD)
  then show ?thesis
    unfolding environment_emitted_order_def using kahn_perm [OF m] by (simp add: Let_def)
qed

section \<open>The lock of a resolution\<close>

lemma emitted_iff:
  assumes "environment_precedence prec = Inr wp"
  shows "(\<exists>out. environment_emitted_order lk prec = Inr out) \<longleftrightarrow> acyclic (context_edges (contexts_of (lk_members lk)))"
proof -
  have "(\<exists>out. environment_emitted_order lk prec = Inr out) \<longleftrightarrow> (\<exists>res. kahn (contexts_of (lk_members lk)) [] = Inr res)"
    by (cases wp; cases "kahn (contexts_of (lk_members lk)) []") (simp_all add: environment_emitted_order_def assms Let_def)
  then show ?thesis using kahn_ends_iff [OF contexts_distinct] by simp
qed

lemma resolve_grounded:
  assumes "plain_input pkgs inst ovs" and "resolve_state pkgs inst ovs = Some (Inr s)"
  shows "grounded pkgs ovs s"
proof -
  from assms(2) obtain s0 where s0: "seed inst ovs = Inr s0" "drain pkgs s0 = Some (Inr s)"
    using resolve_state_result by blast
  let ?P = "\<lambda>s. attributed s \<and> grounded pkgs ovs s"
  have "?P s \<and> pending s = []"
  proof (rule drain_invariant [OF s0(2)])
    show "?P s0" using seed_invariants [OF s0(1)] assms(1) by blast
    show "?P b" if "?P a" "step pkgs a = Inr b" for a b
      using that attributed_step grounded_step [OF assms(1)] by blast
  qed
  then show ?thesis by blast
qed

lemma resolved_edges:
  assumes "plain_input pkgs inst ovs" and "acyclic_by rank pkgs ovs" and "resolve_state pkgs inst ovs = Some (Inr s)"
    and "lock_of main dflt s = Inr (members, warns)"
  shows "acyclic (context_edges (contexts_of members))"
proof -
  have "rank b < rank a" if "(b, a) \<in> context_edges (contexts_of members)" for a b
  proof -
    from that obtain m where m: "(b, m) \<in> set (contexts_of members)" "a \<in> set (m_required_by m)"
      by (auto simp: context_edges_def requires_of_def)
    have "m \<in> set members" "m_name m = b" using contexts_named [OF m(1)] by simp_all
    then have "m_required_by m = required_by (constraints s) b" using lock_fields [OF assms(4)] by metis
    then have "a \<in> set (required_by (constraints s) b)" using m(2) by simp
    then obtain c where c: "c \<in> set (constraints s)" "c_name c = b" "c_of c = a" "c_of c \<noteq> []"
      unfolding required_by_set by blast
    then have "owned_by s c" using resolve_settled(2) [OF assms(3)] by (auto simp: attributed_def machine_owned_def)
    then obtain sel where sel: "map_of (selected s) a = Some sel" "b \<in> rq_name ` set (requirements_of sel)"
      using c by (auto simp: owned_by_def)
    then obtain rq where "rq \<in> set (requirements_of sel)" "b = rq_name rq" by blast
    moreover have "s_manifest sel = Some x \<Longrightarrow> (a, x) \<in> set (declared pkgs ovs)" for x
      using resolve_grounded [OF assms(1,3)] sel(1) by (simp add: grounded_def)
    ultimately show ?thesis using rank_requirement [OF assms(2)] by blast
  qed
  then have "context_edges (contexts_of members) \<subseteq> measure rank" by auto
  then show ?thesis by (meson wf_measure wf_acyclic acyclic_subset)
qed

section \<open>Properties\<close>

text \<open>
  C8: the emitted order respects the section 5 rules.  It lists each context of the lock once; between
  any two of them the one that wins comes where the policy places winners; and of two contexts of equal
  weight the required one comes before the one that requires it.  Contexts of equal weight with no
  requirement between them are not ordered by this statement.
\<close>

theorem emitted_order_correct:
  assumes "environment_emitted_order lk prec = Inr out" and "environment_precedence prec = Inr (w, p)"
  shows "mset out = mset (map snd (contexts_of (lk_members lk))) \<and>
    sorted_wrt (\<lambda>a b. if p = ''winner-last'' then \<not> beats w a b else \<not> beats w b a) out \<and>
    (\<forall>a b. a \<in> set out \<and> b \<in> set out \<and> requires a b \<and> m_weight a = m_weight b \<longrightarrow> (\<exists>us ys. out = us @ b # ys \<and> a \<in> set ys))"
  by (intro conjI allI impI emitted_members [OF assms(1)] emitted_sorted [OF assms] emitted_requirement [OF assms(1)]; elim conjE; assumption)

text \<open>
  There is an emitted order exactly when no context requires itself through others.  The loop
  always ends, and its only failure is a cycle.
\<close>

theorem emitted_order_exists:
  assumes "environment_precedence prec = Inr wp"
  shows "(\<exists>out. environment_emitted_order lk prec = Inr out) \<longleftrightarrow> acyclic (context_edges (contexts_of (lk_members lk)))"
  by (rule emitted_iff [OF assms])

text \<open>
  The emitted order depends on the members of the lock, not on the order the lock lists them in.
\<close>

theorem emitted_order_deterministic:
  assumes "distinct (map m_name (filter (\<lambda>m. m_kind m = ''context'') ms))" and "mset ms = mset ns"
  shows "environment_emitted_order \<lparr>lk_root = r, lk_members = ms\<rparr> prec = environment_emitted_order \<lparr>lk_root = r, lk_members = ns\<rparr> prec"
  by (rule emitted_perm [OF assms])

text \<open>
  C9: what resolution accepts can be emitted.  On an input of plain names whose requirement graph has
  no cycle, the lock of a resolution that returns has an emitted order under every precedence that
  \<open>environment_precedence\<close> accepts.
\<close>

theorem resolved_lock_emitted:
  assumes "plain_input pkgs inst ovs" and "acyclic_by rank pkgs ovs" and "resolve_state pkgs inst ovs = Some (Inr s)"
    and "lock_of main dflt s = Inr (members, warns)" and "environment_precedence prec = Inr wp"
  shows "\<exists>out. environment_emitted_order \<lparr>lk_root = main, lk_members = members\<rparr> prec = Inr out"
  unfolding emitted_iff [OF assms(5)] lock.simps by (rule resolved_edges [OF assms(1-4)])

section \<open>Witnesses\<close>

definition sample_policy :: "string \<Rightarrow> string \<Rightarrow> json" where
  "sample_policy w p = JObj [(''winner'', JStr w), (''placement'', JStr p)]"

definition context_member :: "string \<Rightarrow> int \<Rightarrow> string list \<Rightarrow> member" where
  "context_member n weight by =
     \<lparr>m_kind = ''context'', m_name = n, m_weight = weight, m_required_by = by, m_overlay = False, m_state = None,
      m_source = Some ''s'', m_commit = Some ''c'', m_directory = None, m_version = Some ''1.0.0''\<rparr>"

definition sample_lock :: lock where
  "sample_lock = \<lparr>lk_root = ''a'', lk_members = [context_member ''a'' 5 [], context_member ''b'' 5 [''a''], context_member ''c'' 1 [''a'', ''b'']]\<rparr>"

lemma sample_policy_ok: "environment_precedence (sample_policy ''higher-weight'' ''winner-last'') = Inr (''higher-weight'', ''winner-last'')"
  by code_simp

theorem emitted_order_correct_witness:
  "\<exists>out us ys. environment_emitted_order sample_lock (sample_policy ''higher-weight'' ''winner-last'') = Inr out \<and>
     out = us @ context_member ''b'' 5 [''a''] # ys \<and> context_member ''a'' 5 [] \<in> set ys"
proof -
  have o: "environment_emitted_order sample_lock (sample_policy ''higher-weight'' ''winner-last'') =
      Inr [context_member ''c'' 1 [''a'', ''b''], context_member ''b'' 5 [''a''], context_member ''a'' 5 []]" by code_simp
  have "requires (context_member ''a'' 5 []) (context_member ''b'' 5 [''a''])" by (simp add: requires_def context_member_def)
  with emitted_order_correct [OF o sample_policy_ok]
  have "\<exists>us ys. [context_member ''c'' 1 [''a'', ''b''], context_member ''b'' 5 [''a''], context_member ''a'' 5 []] =
      us @ context_member ''b'' 5 [''a''] # ys \<and> context_member ''a'' 5 [] \<in> set ys"
    by (simp add: context_member_def)
  then show ?thesis unfolding o by blast
qed

theorem emitted_order_exists_witness:
  "\<not> acyclic (context_edges (contexts_of [context_member ''a'' 0 [''b''], context_member ''b'' 0 [''a'']]))"
proof -
  have "environment_emitted_order \<lparr>lk_root = ''a'', lk_members = [context_member ''a'' 0 [''b''], context_member ''b'' 0 [''a'']]\<rparr>
      (sample_policy ''higher-weight'' ''winner-last'') = Inl (fail ''environment lock has a context cycle'')" by code_simp
  with emitted_order_exists [OF sample_policy_ok, of "\<lparr>lk_root = ''a'', lk_members = [context_member ''a'' 0 [''b''], context_member ''b'' 0 [''a'']]\<rparr>"]
  show ?thesis by simp
qed

theorem emitted_order_deterministic_witness:
  "environment_emitted_order \<lparr>lk_root = ''a'', lk_members = [context_member ''b'' 5 [''a''], context_member ''a'' 5 []]\<rparr> (sample_policy ''lower-weight'' ''winner-last'') =
   environment_emitted_order \<lparr>lk_root = ''a'', lk_members = [context_member ''a'' 5 [], context_member ''b'' 5 [''a'']]\<rparr> (sample_policy ''lower-weight'' ''winner-last'')"
  by (rule emitted_order_deterministic) (simp_all add: context_member_def)

theorem resolved_lock_emitted_witness:
  "\<exists>out. environment_emitted_order \<lparr>lk_root = ''x'', lk_members = narrowed_lock\<rparr> (sample_policy ''higher-weight'' ''winner-last'') = Inr out"
  by (rule resolved_lock_emitted [OF narrowing_plain narrowing_acyclic narrowing_resolves narrowed_locks sample_policy_ok])

end
