(* ===== verification/Materialize.thy ===== *)
theory Materialize
  imports Emission
begin

text \<open>
  The files an environment case materializes to (\<open>tools/validate.py\<close>, sections 2 and 5 of
  environments.md): the generation header, the root context file in its two forms, the system
  prompt with the admission policy of section 12.1, and the MCP configuration of each adapter.
  Files are a dictionary from paths to bytes.

  The parts of a case the corpus schema types are records; what the code itself checks (the
  policies and module contents) are JSON values.  \<open>sha\<close> is the hexadecimal SHA-256 of bytes.
\<close>

section \<open>Cases\<close>

record context_module =
  cm_path :: string
  cm_content :: "json option"
  cm_class :: "string option"
  cm_environments :: "string list option"

record context_package =
  cp_has_context :: bool
  cp_modules :: "context_module list"

datatype transport = Stdio string "string list" | Http string

record mcp_server =
  sv_transport :: transport
  sv_environments :: "string list option"

record environment_case =
  ec_lock :: lock
  ec_packages :: "(string \<times> context_package) list"
  ec_environment :: string
  ec_precedence :: json
  ec_surface :: string
  ec_form :: "string option"
  ec_servers :: "(string \<times> mcp_server) list"
  ec_policy :: dict

definition package_of :: "environment_case \<Rightarrow> string \<Rightarrow> context_package res" where
  "package_of c n = (case map_of (ec_packages c) n of None \<Rightarrow> Inl (KeyError n) | Some p \<Rightarrow> Inr p)"

definition server_of :: "environment_case \<Rightarrow> string \<Rightarrow> mcp_server res" where
  "server_of c n = (case map_of (ec_servers c) n of None \<Rightarrow> Inl (KeyError n) | Some s \<Rightarrow> Inr s)"

definition present_text :: "string option \<Rightarrow> string \<Rightarrow> string res" where
  "present_text v k = (case v of None \<Rightarrow> Inl (KeyError k) | Some t \<Rightarrow> Inr t)"

section \<open>The header\<close>

definition ENVIRONMENT_HEADER_MARKER :: string where
  "ENVIRONMENT_HEADER_MARKER = ''curator-root-context-v2''"

definition ENVIRONMENT_GENERATED_LINE :: string where
  "ENVIRONMENT_GENERATED_LINE = ''generated: Curator Protocol environments revision 1 (https://github.com/relux-works/curator-spec)''"

definition ENVIRONMENT_NOTICE_LINE :: string where
  "ENVIRONMENT_NOTICE_LINE =
     ''notice: generated file; direct edits are unsupported and are detected as '' @
     ''drift; update the source profile repository or its composed profiles instead''"

definition environment_member_pin :: "member \<Rightarrow> string res" where
  "environment_member_pin m =
     (case m_state m of
        Some st \<Rightarrow> Inr (''state sha256:'' @ st)
      | None \<Rightarrow> and_then (present_text (m_commit m) ''commit'') (\<lambda>k. Inr (''commit '' @ k)))"

text \<open>The header as text; the code returns its UTF-8 bytes and decodes them where it joins parts.\<close>

definition member_line :: "member \<Rightarrow> string res" where
  "member_line m =
     and_then (present_text (m_version m) ''version'') (\<lambda>v.
     and_then (environment_member_pin m) (\<lambda>pin.
     Inr (''member: '' @ m_name m @ '' '' @ v @ '' '' @ pin @ '' weight '' @ int_text (m_weight m) @
       (if m_overlay m then '' overlay'' else []))))"

definition header_text :: "(string \<Rightarrow> string) \<Rightarrow> lock \<Rightarrow> json \<Rightarrow> string res" where
  "header_text sha lk precedence =
     (case find (\<lambda>m. m_name m = lk_root lk) (lk_members lk) of
        None \<Rightarrow> Inl StopIteration
      | Some main \<Rightarrow>
          and_then (present_text (m_version main) ''version'') (\<lambda>v.
          and_then (environment_member_pin main) (\<lambda>pin.
          and_then (environment_emitted_order lk precedence) (\<lambda>order.
          and_then (map_res member_line order) (\<lambda>members.
          and_then (environment_precedence precedence) (\<lambda>(winner, placement).
          and_then (digest_of sha (JObj (lock_document (lk_root lk) (lk_members lk)))) (\<lambda>digest.
          Inr (join_with [newline]
            ([''<!--'', ENVIRONMENT_HEADER_MARKER, ''root: '' @ m_name main @ '' '' @ v @ '' '' @ pin] @ members @
             [''precedence: winner='' @ winner @ '' placement='' @ placement, ''lock: '' @ digest,
              ENVIRONMENT_GENERATED_LINE, ENVIRONMENT_NOTICE_LINE, ''-->'']) @ [newline]))))))))"

definition environment_header_bytes :: "(string \<Rightarrow> string) \<Rightarrow> lock \<Rightarrow> json \<Rightarrow> string res" where
  "environment_header_bytes sha lk precedence = and_then (header_text sha lk precedence) (\<lambda>t. Inr (utf8 t))"

section \<open>Modules\<close>

definition environment_module_error :: "json \<Rightarrow> string option" where
  "environment_module_error content =
     (case content of
        JStr s \<Rightarrow>
          if CHR 0x0D \<in> set s then Some ''module carries a non-LF line ending''
          else if \<not> suffix [newline] s \<or> suffix [newline, newline] s then Some ''module must end with exactly one trailing LF''
          else None
      | _ \<Rightarrow> Some ''module content must be UTF-8 text'')"

definition module_text :: "context_module \<Rightarrow> string res" where
  "module_text md = (case cm_content md of None \<Rightarrow> Inl (KeyError ''content'') | Some v \<Rightarrow> as_text v)"

definition selected_for :: "string list option \<Rightarrow> string \<Rightarrow> bool" where
  "selected_for selector environment = (case selector of None \<Rightarrow> True | Some es \<Rightarrow> environment \<in> set es)"

definition environment_applicable :: "context_package \<Rightarrow> string \<Rightarrow> string \<Rightarrow> context_module list" where
  "environment_applicable p environment module_class =
     filter (\<lambda>md. (case cm_class md of None \<Rightarrow> ''root'' | Some k \<Rightarrow> k) = module_class \<and>
       selected_for (cm_environments md) environment) (cp_modules p)"

section \<open>MCP servers\<close>

definition ENVIRONMENT_MCP_TARGETS :: "(string \<times> string) list" where
  "ENVIRONMENT_MCP_TARGETS =
     [(''claude_code'', ''.agent-context/mcp/claude_code.json''), (''codex_cli'', ''curator-mcp.config.toml''),
      (''opencode'', ''.agent-context/mcp/opencode.json'')]"

definition environment_mcp_set :: "environment_case \<Rightarrow> string list res" where
  "environment_mcp_set c =
     and_then (map_res (\<lambda>m. and_then (server_of c (m_name m)) (\<lambda>s. Inr (m_name m, s)))
       (filter (\<lambda>m. m_kind m = ''mcp'') (lk_members (ec_lock c)))) (\<lambda>rows.
     Inr (sort (map fst (filter (\<lambda>(_, s). selected_for (sv_environments s) (ec_environment c)) rows))))"

definition upper_hex :: "nat \<Rightarrow> char" where
  "upper_hex d = char_of (if d < 10 then 48 + d else 55 + d)"

definition toml_char :: "char \<Rightarrow> string" where
  "toml_char c =
     (if c = quote then [backslash, quote]
      else if c = backslash then [backslash, backslash]
      else if ord_of c = 10 then backslash # ''n''
      else if ord_of c = 13 then backslash # ''r''
      else if ord_of c = 9 then backslash # ''t''
      else if ord_of c < 32 \<or> ord_of c = 127 then
        backslash # ''u00'' @ [upper_hex (ord_of c div 16), upper_hex (ord_of c mod 16)]
      else [c])"

definition toml_basic_string :: "string \<Rightarrow> string" where
  "toml_basic_string s = quote # concat (map toml_char s) @ [quote]"

fun claude_server :: "transport \<Rightarrow> json" where
  "claude_server (Stdio command args) =
     JObj [(''args'', JArr (map JStr args)), (''command'', JStr command), (''type'', JStr ''stdio'')]"
| "claude_server (Http url) = JObj [(''type'', JStr ''http''), (''url'', JStr url)]"

fun opencode_server :: "transport \<Rightarrow> json" where
  "opencode_server (Stdio command args) = JObj [(''command'', JArr (map JStr (command # args))), (''type'', JStr ''local'')]"
| "opencode_server (Http url) = JObj [(''type'', JStr ''remote''), (''url'', JStr url)]"

fun codex_lines :: "transport \<Rightarrow> string list" where
  "codex_lines (Stdio command args) =
     [''command = '' @ toml_basic_string command, ''args = ['' @ join_with '', '' (map toml_basic_string args) @ '']'']"
| "codex_lines (Http url) = [''url = '' @ toml_basic_string url]"

text \<open>The \<open>body\<close> of a JSON configuration: \<open>body[name] = \<dots>\<close> for each server.\<close>

definition server_body :: "(transport \<Rightarrow> json) \<Rightarrow> (string \<times> mcp_server) list \<Rightarrow> dict" where
  "server_body f rows = fold (\<lambda>(n, s). AList.update n (f (sv_transport s))) rows []"

definition mcp_document :: "string \<Rightarrow> string \<Rightarrow> (string \<times> mcp_server) list \<Rightarrow> (string \<times> string) list res" where
  "mcp_document environment target rows =
     (if environment = ''claude_code'' then
        and_then (ccj1_bytes (JObj [(''mcpServers'', JObj (server_body claude_server rows))])) (\<lambda>bs.
        Inr [(target, bs @ [newline])])
      else if environment = ''opencode'' then
        and_then (ccj1_bytes (JObj [(''mcp'', JObj (server_body opencode_server rows))])) (\<lambda>bs.
        Inr [(target, bs @ [newline])])
      else
        Inr [(target, utf8 (join_with [newline]
          (concat (map (\<lambda>(n, s). (''[mcp_servers.'' @ n @ '']'') # codex_lines (sv_transport s)) rows)) @ [newline]))])"

definition environment_mcp_files :: "environment_case \<Rightarrow> (string \<times> string) list res" where
  "environment_mcp_files c =
     and_then (environment_mcp_set c) (\<lambda>names.
     case map_of ENVIRONMENT_MCP_TARGETS (ec_environment c) of
       None \<Rightarrow> Inr []
     | Some target \<Rightarrow>
         if names = [] then Inr []
         else and_then (map_res (\<lambda>n. and_then (server_of c n) (\<lambda>s. Inr (n, s))) names)
           (mcp_document (ec_environment c) target))"

section \<open>Admission of system modules\<close>

text \<open>The mode and the waived packages.  A set holds no list and no dictionary.\<close>

definition environment_machine_policy :: "environment_case \<Rightarrow> (string \<times> json list) res" where
  "environment_machine_policy c =
     (let mode = jget_or (JStr ''drop'') (ec_policy c) ''transitive_system_modules'';
          waivers = jget_or (JArr []) (ec_policy c) ''system_module_waivers'' in
      if \<not> str_in mode [''drop'', ''error''] then Inl (fail ''unknown admission mode'')
      else case waivers of
        JArr entries \<Rightarrow>
          if list_ex (\<lambda>e. \<not> is_dict e \<or> \<not> truthy (jget (the_dict e) ''package'') \<or> \<not> truthy (jget (the_dict e) ''reason'')) entries
          then Inl (fail ''malformed system_module_waivers'')
          else and_then (as_set (map (\<lambda>e. jget (the_dict e) ''package'') entries)) (\<lambda>waived. Inr (the_str mode, waived))
      | _ \<Rightarrow> Inl (fail ''malformed system_module_waivers''))"

definition environment_direct_packages :: "lock \<Rightarrow> string list" where
  "environment_direct_packages lk =
     (let cs = contexts_of (lk_members lk);
          overlays = map fst (filter (\<lambda>(_, m). m_overlay m) cs) in
      lk_root lk # overlays @
      map fst (filter (\<lambda>(_, m). list_ex (\<lambda>r. r = lk_root lk \<or> r \<in> set overlays) (m_required_by m)) cs))"

text \<open>The applicable modules of a class, by package in the order of the members.\<close>

definition applicable_rows :: "environment_case \<Rightarrow> string \<Rightarrow> member list \<Rightarrow> (member \<times> context_module list) list res" where
  "applicable_rows c module_class order =
     map_res (\<lambda>m. and_then (package_of c (m_name m)) (\<lambda>p.
       Inr (m, environment_applicable p (ec_environment c) module_class))) order"

definition row_entries :: "(member \<times> context_module list) list \<Rightarrow> (string \<times> string) list" where
  "row_entries rows = concat (map (\<lambda>(m, mds). map (\<lambda>md. (m_name m, cm_path md)) mds) rows)"

text \<open>Mode, admitted and dropped modules as pairs of a package and a path.\<close>

definition environment_system_prompt_admission ::
    "environment_case \<Rightarrow> (string \<times> (string \<times> string) list \<times> (string \<times> string) list) res" where
  "environment_system_prompt_admission c =
     and_then (environment_machine_policy c) (\<lambda>(mode, waived).
     and_then (environment_emitted_order (ec_lock c) (ec_precedence c)) (\<lambda>order.
     let direct = environment_direct_packages (ec_lock c);
         admits = (\<lambda>(n, path). n \<in> set direct \<or> JStr n \<in> set waived) in
     and_then (applicable_rows c ''system'' order) (\<lambda>rows.
     Inr (mode, filter admits (row_entries rows), filter (\<lambda>e. \<not> admits e) (row_entries rows)))))"

section \<open>The files of a case\<close>

definition ENVIRONMENT_ROOT_TARGETS :: "(string \<times> string) list" where
  "ENVIRONMENT_ROOT_TARGETS =
     [(''claude_code'', ''CLAUDE.md''), (''codex_cli'', ''AGENTS.md''), (''opencode'', ''AGENTS.md''), (''pi'', ''AGENTS.md'')]"

definition ENVIRONMENT_SYSTEM_PROMPT_PATH :: string where
  "ENVIRONMENT_SYSTEM_PROMPT_PATH = ''.agent-context/system-prompt.md''"

definition check_contents :: "environment_case \<Rightarrow> unit res" where
  "check_contents c =
     for_each (\<lambda>(_, p). if \<not> cp_has_context p then Inr () else
       for_each (\<lambda>md.
         case environment_module_error (case cm_content md of None \<Rightarrow> JNull | Some v \<Rightarrow> v) of
           None \<Rightarrow> Inr ()
         | Some e \<Rightarrow> Inl (fail e)) (cp_modules p)) (ec_packages c)"

definition system_prompt_files :: "environment_case \<Rightarrow> member list \<Rightarrow> (string \<times> string) list res" where
  "system_prompt_files c order =
     and_then (environment_system_prompt_admission c) (\<lambda>(mode, admitted, dropped).
     if mode = ''error'' \<and> dropped \<noteq> [] then Inr []
     else
       and_then (applicable_rows c ''system'' order) (\<lambda>rows.
       and_then (map_res module_text (concat (map (\<lambda>(m, mds).
         filter (\<lambda>md. (m_name m, cm_path md) \<in> set admitted) mds) rows))) (\<lambda>contents.
       if contents = [] then Inr []
       else Inr [(ENVIRONMENT_SYSTEM_PROMPT_PATH, utf8 (join_with [newline] contents))])))"

record rendering =
  rd_files :: "(string \<times> string) list"
  rd_instructions :: "string list"
  rd_parts :: "string list"

definition reference_path :: "string \<Rightarrow> string \<Rightarrow> string" where
  "reference_path name path = ''.agent-context/modules/'' @ name @ ''/'' @ path"

definition render_module :: "string \<Rightarrow> string \<Rightarrow> string \<Rightarrow> context_module \<Rightarrow> rendering \<Rightarrow> rendering res" where
  "render_module environment form name md r =
     (if form = ''monolithic'' then
        and_then (module_text md) (\<lambda>t. Inr (r\<lparr>rd_parts := rd_parts r @ [t]\<rparr>))
      else if form = ''referenced'' then
        (let reference = reference_path name (cm_path md) in
         and_then (module_text md) (\<lambda>t.
         Inr (r\<lparr>rd_files := AList.update reference (utf8 t) (rd_files r),
                rd_instructions := rd_instructions r @ [reference],
                rd_parts := rd_parts r @
                  (if environment = ''opencode'' then [] else [CHR ''@'' # reference @ [newline]])\<rparr>)))
      else Inl (fail ''unsupported form''))"

definition chapter_part :: "string \<Rightarrow> string \<Rightarrow> string" where
  "chapter_part name version = ''---'' @ [newline, newline] @ ''## Context: '' @ name @ '' '' @ version @ [newline]"

definition render_member :: "environment_case \<Rightarrow> string \<Rightarrow> member \<Rightarrow> rendering \<Rightarrow> rendering res" where
  "render_member c form m r =
     and_then (package_of c (m_name m)) (\<lambda>p.
     let modules = environment_applicable p (ec_environment c) ''root'' in
     if modules = [] then Inr r
     else
       and_then
         (if ec_environment c = ''opencode'' \<and> form = ''referenced'' then Inr r
          else and_then (present_text (m_version m) ''version'') (\<lambda>v.
            Inr (r\<lparr>rd_parts := rd_parts r @ [chapter_part (m_name m) v]\<rparr>)))
         (fold_res (render_module (ec_environment c) form (m_name m)) modules))"

text \<open>The files once every part is rendered.\<close>

definition finish_files :: "environment_case \<Rightarrow> string \<Rightarrow> string \<Rightarrow> rendering \<Rightarrow> (string \<times> string) list res" where
  "finish_files c form header r =
     and_then (present_text (map_of ENVIRONMENT_ROOT_TARGETS (ec_environment c)) (ec_environment c)) (\<lambda>target.
     if ec_environment c = ''opencode'' \<and> form = ''referenced'' then
       and_then (ccj1_bytes (JObj [(''instructions'', JArr (map JStr (rd_instructions r)))])) (\<lambda>bs.
       Inr (AList.update ''opencode.json'' (bs @ [newline]) (AList.update target (utf8 header) (rd_files r))))
     else Inr (AList.update target (utf8 (join_with [newline] (rd_parts r))) (rd_files r)))"

definition start :: "string \<Rightarrow> rendering" where
  "start header = \<lparr>rd_files = [], rd_instructions = [], rd_parts = [header]\<rparr>"

definition rendered_files :: "(string \<Rightarrow> string) \<Rightarrow> environment_case \<Rightarrow> member list \<Rightarrow> string \<Rightarrow> (string \<times> string) list res" where
  "rendered_files sha c order form =
     and_then (header_text sha (ec_lock c) (ec_precedence c)) (\<lambda>header.
     and_then (fold_res (render_member c form) order (start header)) (finish_files c form header))"

definition root_context_files :: "(string \<Rightarrow> string) \<Rightarrow> environment_case \<Rightarrow> member list \<Rightarrow> (string \<times> string) list res" where
  "root_context_files sha c order =
     and_then (package_of c (lk_root (ec_lock c))) (\<lambda>main.
     if \<not> cp_has_context main then Inr []
     else and_then (present_text (ec_form c) ''form'') (rendered_files sha c order))"

definition environment_case_files :: "(string \<Rightarrow> string) \<Rightarrow> environment_case \<Rightarrow> (string \<times> string) list res" where
  "environment_case_files sha c =
     (if ec_surface c = ''mcp'' then environment_mcp_files c
      else
        and_then (check_contents c) (\<lambda>_.
        and_then (environment_emitted_order (ec_lock c) (ec_precedence c)) (\<lambda>order.
        if ec_surface c = ''system-prompt'' then system_prompt_files c order
        else root_context_files sha c order)))"

section \<open>Quoted texts are read back\<close>

text \<open>A basic string as TOML defines it, from after its opening quote; escapes above U+00FF are not read.\<close>

definition toml_simple :: "char \<Rightarrow> char option" where
  "toml_simple c =
     map_of [(quote, quote), (backslash, backslash), (CHR ''b'', CHR 0x08), (CHR ''t'', CHR 0x09),
       (CHR ''n'', CHR 0x0A), (CHR ''f'', CHR 0x0C), (CHR ''r'', CHR 0x0D)] c"

definition toml_escape :: "string \<Rightarrow> (char \<times> string) option" where
  "toml_escape s =
     (case s of
        [] \<Rightarrow> None
      | e # r \<Rightarrow>
          if e = CHR ''u'' then
            (case map hex_value (take 4 r) of
               [Some z, Some y, Some a, Some b] \<Rightarrow> if z = 0 \<and> y = 0 then Some (char_of (16 * a + b), drop 4 r) else None
             | _ \<Rightarrow> None)
          else map_option (\<lambda>x. (x, r)) (toml_simple e))"

lemma toml_escape_shorter: "toml_escape s = Some (x, r) \<Longrightarrow> length r < length s"
  by (cases s) (auto simp: toml_escape_def split: if_splits list.splits option.splits)

function toml_scan :: "string \<Rightarrow> (string \<times> string) option" where
  "toml_scan [] = None"
| "toml_scan (c # s) =
     (if c = quote then Some ([], s)
      else if c = backslash then
        (case toml_escape s of
           None \<Rightarrow> None
         | Some (x, r) \<Rightarrow> map_option (\<lambda>(t, r'). (x # t, r')) (toml_scan r))
      else if ord_of c < 32 \<and> ord_of c \<noteq> 9 \<or> ord_of c = 127 then None
      else map_option (\<lambda>(t, r). (c # t, r)) (toml_scan s))"
  by pat_completeness auto
termination
  by (relation "measure length") (auto dest: toml_escape_shorter)

definition toml_read :: "string \<Rightarrow> string option" where
  "toml_read s =
     (if s = [] \<or> hd s \<noteq> quote then None
      else case toml_scan (tl s) of Some (t, []) \<Rightarrow> Some t | _ \<Rightarrow> None)"

lemma upper_hex_value: "d < 16 \<Longrightarrow> hex_value (upper_hex d) = Some d"
proof -
  assume d: "d < 16"
  show ?thesis
  proof (cases "d < 10")
    case True
    then show ?thesis by (simp add: upper_hex_def hex_value_def is_digit_def)
  next
    case False
    then have "ord_of (upper_hex d) = 55 + d" using d by (simp add: upper_hex_def)
    then show ?thesis using d False by (simp add: hex_value_def is_digit_def)
  qed
qed

lemma special_codes: "ord_of quote = 34" "ord_of backslash = 92"
  by (simp_all add: quote_def backslash_def ord_of_def)

lemma char_code: "ord_of c = 10 \<Longrightarrow> c = CHR 0x0A" "ord_of c = 13 \<Longrightarrow> c = CHR 0x0D" "ord_of c = 9 \<Longrightarrow> c = CHR 0x09"
proof -
  have i: "ord_of a = ord_of b \<Longrightarrow> a = b" for a b by (metis char_of_ord_of)
  have "ord_of CHR 0x0A = 10" "ord_of CHR 0x0D = 13" "ord_of CHR 0x09 = 9" by (simp_all add: ord_of_def)
  then show "ord_of c = 10 \<Longrightarrow> c = CHR 0x0A" "ord_of c = 13 \<Longrightarrow> c = CHR 0x0D" "ord_of c = 9 \<Longrightarrow> c = CHR 0x09"
    by (metis i)+
qed

lemma toml_escapes:
  "toml_escape (quote # r) = Some (quote, r)" "toml_escape (backslash # r) = Some (backslash, r)"
  "toml_escape (CHR ''n'' # r) = Some (CHR 0x0A, r)" "toml_escape (CHR ''r'' # r) = Some (CHR 0x0D, r)"
  "toml_escape (CHR ''t'' # r) = Some (CHR 0x09, r)"
  by (simp_all add: toml_escape_def toml_simple_def quote_def backslash_def)

lemma toml_escape_code:
  assumes "n < 256"
  shows "toml_escape (''u00'' @ upper_hex (n div 16) # upper_hex (n mod 16) # r) = Some (char_of n, r)"
proof -
  have "hex_value (upper_hex (n div 16)) = Some (n div 16)" "hex_value (upper_hex (n mod 16)) = Some (n mod 16)"
    "hex_value (CHR ''0'') = Some 0"
    using assms by (simp_all add: upper_hex_value) (simp add: hex_value_def is_digit_def ord_of_def)
  moreover have "16 * (n div 16) + n mod 16 = n" by simp
  ultimately show ?thesis by (simp add: toml_escape_def)
qed

lemma toml_scan_char: "toml_scan (toml_char c @ s) = map_option (\<lambda>(t, r). (c # t, r)) (toml_scan s)"
proof -
  have q: "backslash \<noteq> quote" by (simp add: quote_def backslash_def)
  consider "c = quote" | "c = backslash" | "ord_of c = 10" | "ord_of c = 13" | "ord_of c = 9"
    | "c \<noteq> quote" "c \<noteq> backslash" "ord_of c \<noteq> 10" "ord_of c \<noteq> 13" "ord_of c \<noteq> 9" "ord_of c < 32 \<or> ord_of c = 127"
    | "c \<noteq> quote" "c \<noteq> backslash" "\<not> ord_of c < 32" "ord_of c \<noteq> 127" by blast
  then show ?thesis
  proof cases
    case 6
    have e: "toml_escape (''u00'' @ upper_hex (ord_of c div 16) # upper_hex (ord_of c mod 16) # s) = Some (c, s)"
      using toml_escape_code [OF ord_of_less] by simp
    show ?thesis using 6 q e by (simp add: toml_char_def)
  next
    case 7
    then show ?thesis by (simp add: toml_char_def)
  qed (use q in \<open>auto simp: toml_char_def toml_escapes special_codes dest!: char_code\<close>)
qed

lemma toml_scan_text: "toml_scan (concat (map toml_char s) @ quote # r) = Some (s, r)"
  by (induction s) (simp_all add: toml_scan_char)

lemma toml_back: "toml_read (toml_basic_string s) = Some s"
  using toml_scan_text [of s "[]"] by (simp add: toml_read_def toml_basic_string_def)

interpretation toml: text_codec toml_basic_string toml_read "\<lambda>_. True"
  by unfold_locales (rule toml_back)

lemma upper_hex_plain: "d < 16 \<Longrightarrow> 32 \<le> ord_of (upper_hex d) \<and> ord_of (upper_hex d) < 127"
  by (simp add: upper_hex_def)

lemma toml_char_plain: "x \<in> set (toml_char c) \<Longrightarrow> 32 \<le> ord_of x \<and> ord_of x \<noteq> 127"
proof -
  assume x: "x \<in> set (toml_char c)"
  have "ord_of c div 16 < 16" "ord_of c mod 16 < 16" using ord_of_less [of c] by linarith+
  note h = upper_hex_plain [OF this(1)] upper_hex_plain [OF this(2)]
  have "ord_of CHR ''n'' = 110" "ord_of CHR ''r'' = 114" "ord_of CHR ''t'' = 116" "ord_of CHR ''u'' = 117" "ord_of CHR ''0'' = 48"
    by (simp_all add: ord_of_def)
  then show ?thesis using x h special_codes by (auto simp: toml_char_def split: if_splits)
qed

section \<open>Who may speak in the system prompt\<close>

text \<open>
  A package is entitled when it is the root, an active overlay, required by the root or by an
  active overlay, or waived by name and with a reason in the machine's policy.
\<close>

definition overlay_of :: "lock \<Rightarrow> string \<Rightarrow> bool" where
  "overlay_of lk n = list_ex (\<lambda>m. m_kind m = ''context'' \<and> m_overlay m \<and> m_name m = n) (lk_members lk)"

definition waived_by :: "dict \<Rightarrow> string \<Rightarrow> bool" where
  "waived_by policy n =
     list_ex (\<lambda>e. jget (the_dict e) ''package'' = JStr n \<and> truthy (jget (the_dict e) ''reason''))
       (the_list (jget_or (JArr []) policy ''system_module_waivers''))"

definition entitled :: "environment_case \<Rightarrow> string \<Rightarrow> bool" where
  "entitled c n =
     (n = lk_root (ec_lock c) \<or> overlay_of (ec_lock c) n \<or>
      list_ex (\<lambda>m. m_name m = n \<and> list_ex (\<lambda>r. r = lk_root (ec_lock c) \<or> overlay_of (ec_lock c) r) (m_required_by m))
        (lk_members (ec_lock c)) \<or>
      waived_by (ec_policy c) n)"

lemma overlays_found:
  "r \<in> set (map fst (filter (\<lambda>(_, m). m_overlay m) (contexts_of (lk_members lk)))) \<Longrightarrow> overlay_of lk r"
  by (auto simp: overlay_of_def list_ex_iff dest!: contexts_named)

lemma direct_entitled: "n \<in> set (environment_direct_packages (ec_lock c)) \<Longrightarrow> entitled c n"
proof -
  let ?cs = "contexts_of (lk_members (ec_lock c))"
  assume n: "n \<in> set (environment_direct_packages (ec_lock c))"
  then consider "n = lk_root (ec_lock c)" | "n \<in> set (map fst (filter (\<lambda>(_, m). m_overlay m) ?cs))"
    | m r where "(n, m) \<in> set ?cs" "r \<in> set (m_required_by m)"
        "r = lk_root (ec_lock c) \<or> r \<in> set (map fst (filter (\<lambda>(_, m). m_overlay m) ?cs))"
    unfolding environment_direct_packages_def Let_def list_ex_iff by fastforce
  then show ?thesis
  proof cases
    case 2
    then show ?thesis using overlays_found by (simp add: entitled_def)
  next
    case 3
    have "m \<in> set (lk_members (ec_lock c))" "m_name m = n" using contexts_named [OF 3(1)] by simp_all
    moreover have "r = lk_root (ec_lock c) \<or> overlay_of (ec_lock c) r" using 3(3) overlays_found by blast
    ultimately show ?thesis using 3(2) unfolding entitled_def list_ex_iff by blast
  qed (simp add: entitled_def)
qed

lemma policy_cases:
  assumes "environment_machine_policy c = Inr (mode, waived)"
  shows "mode = the_str (jget_or (JStr ''drop'') (ec_policy c) ''transitive_system_modules'')"
    and "JStr n \<in> set waived \<Longrightarrow> waived_by (ec_policy c) n"
proof -
  let ?ws = "jget_or (JArr []) (ec_policy c) ''system_module_waivers''"
  have "is_list ?ws" using assms by (cases ?ws) (simp_all add: environment_machine_policy_def Let_def split: if_splits)
  then obtain es where es: "?ws = JArr es" by (cases ?ws) simp_all
  from assms es show "mode = the_str (jget_or (JStr ''drop'') (ec_policy c) ''transitive_system_modules'')"
    by (auto simp: environment_machine_policy_def Let_def and_then_ok_iff split: if_splits)
  from assms es have w: "waived = map (\<lambda>e. jget (the_dict e) ''package'') es"
    "\<forall>e \<in> set es. truthy (jget (the_dict e) ''reason'')"
    by (auto simp: environment_machine_policy_def Let_def and_then_ok_iff as_set_def list_ex_iff split: if_splits)
  show "JStr n \<in> set waived \<Longrightarrow> waived_by (ec_policy c) n"
    using w by (auto simp: waived_by_def es list_ex_iff)
qed

lemma admission_cases:
  assumes "environment_system_prompt_admission c = Inr (mode, admitted, dropped)"
  obtains waived order rows where "environment_machine_policy c = Inr (mode, waived)"
    "environment_emitted_order (ec_lock c) (ec_precedence c) = Inr order" "applicable_rows c ''system'' order = Inr rows"
    "admitted = filter (\<lambda>(n, path). n \<in> set (environment_direct_packages (ec_lock c)) \<or> JStr n \<in> set waived) (row_entries rows)"
    "dropped = filter (\<lambda>e. \<not> (case e of (n, path) \<Rightarrow> n \<in> set (environment_direct_packages (ec_lock c)) \<or> JStr n \<in> set waived)) (row_entries rows)"
  using assms by (auto simp: environment_system_prompt_admission_def Let_def and_then_ok_iff and_then_pair_ok_iff)

lemma admitted_entitled:
  assumes "environment_system_prompt_admission c = Inr (mode, admitted, dropped)" and "(n, path) \<in> set admitted"
  shows "entitled c n"
proof -
  from assms(1) obtain waived rows where w: "environment_machine_policy c = Inr (mode, waived)"
    "admitted = filter (\<lambda>(n, path). n \<in> set (environment_direct_packages (ec_lock c)) \<or> JStr n \<in> set waived) (row_entries rows)"
    by (rule admission_cases)
  then have "n \<in> set (environment_direct_packages (ec_lock c)) \<or> JStr n \<in> set waived" using assms(2) by simp
  then show ?thesis using direct_entitled policy_cases(2) [OF w(1)] by (auto simp: entitled_def)
qed

lemma applicable_member:
  "applicable_rows c k order = Inr rows \<Longrightarrow> (m, mds) \<in> set rows \<Longrightarrow>
    m \<in> set order \<and> (\<exists>p. package_of c (m_name m) = Inr p \<and> mds = environment_applicable p (ec_environment c) k)"
proof -
  assume a: "applicable_rows c k order = Inr rows" "(m, mds) \<in> set rows"
  from map_res_member [OF a(1) [unfolded applicable_rows_def] a(2)] show ?thesis by (auto simp: and_then_ok_iff)
qed

lemma module_text_ok: "module_text md = Inr t \<longleftrightarrow> cm_content md = Some (JStr t)"
  by (auto simp: module_text_def as_text_ok_iff split: option.splits)

lemma package_of_ok: "package_of c n = Inr p \<longleftrightarrow> map_of (ec_packages c) n = Some p"
  by (auto simp: package_of_def split: option.splits)

text \<open>The system modules of a member for the environment of the case, with their texts.\<close>

definition system_modules :: "environment_case \<Rightarrow> member \<Rightarrow> context_module list" where
  "system_modules c m = (case map_of (ec_packages c) (m_name m) of None \<Rightarrow> []
     | Some p \<Rightarrow> environment_applicable p (ec_environment c) ''system'')"

definition text_of :: "context_module \<Rightarrow> string" where
  "text_of md = the_str (the (cm_content md))"

text \<open>The packages that are direct or waived, by name.\<close>

definition speaks :: "environment_case \<Rightarrow> json list \<Rightarrow> member \<Rightarrow> bool" where
  "speaks c waived m \<longleftrightarrow> m_name m \<in> set (environment_direct_packages (ec_lock c)) \<or> JStr (m_name m) \<in> set waived"

lemma speaks_entitled:
  "environment_machine_policy c = Inr (mode, waived) \<Longrightarrow> speaks c waived m \<Longrightarrow> entitled c (m_name m)"
  using direct_entitled policy_cases(2) by (auto simp: speaks_def entitled_def)

lemma applicable_rows_ok:
  "applicable_rows c ''system'' order = Inr rows \<Longrightarrow> rows = map (\<lambda>m. (m, system_modules c m)) order"
  by (induction order arbitrary: rows) (auto simp: applicable_rows_def and_then_ok_iff package_of_ok system_modules_def)

lemma module_texts_ok: "map_res module_text mds = Inr ts \<Longrightarrow> ts = map text_of mds"
  by (induction mds arbitrary: ts) (auto simp: and_then_ok_iff module_text_ok text_of_def)

lemma concat_conditional: "concat (map (\<lambda>x. if P x then f x else []) xs) = concat (map f (filter P xs))"
  by (induction xs) simp_all

lemma entry_listed:
  "m \<in> set order \<Longrightarrow> md \<in> set (mods m) \<Longrightarrow> (m_name m, cm_path md) \<in> set (row_entries (map (\<lambda>m. (m, mods m)) order))"
  by (force simp: row_entries_def)

lemma entries_filtered:
  fixes speak
  assumes "rows = map (\<lambda>m. (m, mods m)) order" and "admitted = filter (\<lambda>(n, path). speak n) (row_entries rows)"
  shows "concat (map (\<lambda>(m, mds). filter (\<lambda>md. (m_name m, cm_path md) \<in> set admitted) mds) rows) =
    concat (map mods (filter (\<lambda>m. speak (m_name m)) order))"
proof -
  have member: "(m_name m, cm_path md) \<in> set admitted \<longleftrightarrow> speak (m_name m)" if "m \<in> set order" "md \<in> set (mods m)" for m md
    using entry_listed [of m order md mods] that by (simp add: assms)
  have each: "filter (\<lambda>md. (m_name m, cm_path md) \<in> set admitted) (mods m) = (if speak (m_name m) then mods m else [])"
    if "m \<in> set order" for m
    using member [OF that] by (simp cong: filter_cong)
  have "map (\<lambda>(m, mds). filter (\<lambda>md. (m_name m, cm_path md) \<in> set admitted) mds) rows =
      map (\<lambda>m. if speak (m_name m) then mods m else []) order"
    unfolding assms(1) map_map comp_def prod.case by (rule map_cong [OF refl each])
  then show ?thesis by (simp only: concat_conditional)
qed

lemma entries_dropped:
  assumes "rows = map (\<lambda>m. (m, mods m)) order"
  shows "filter (\<lambda>e. \<not> (case e of (n, path) \<Rightarrow> speak n)) (row_entries rows) = [] \<longleftrightarrow>
    list_all (\<lambda>m. speak (m_name m) \<or> mods m = []) order"
proof -
  have "set (row_entries rows) = (\<Union>m \<in> set order. (\<lambda>md. (m_name m, cm_path md)) ` set (mods m))"
    by (simp add: row_entries_def assms comp_def)
  then have "(\<forall>x \<in> set (row_entries rows). case x of (n, path) \<Rightarrow> speak n) \<longleftrightarrow>
      (\<forall>m \<in> set order. \<forall>md \<in> set (mods m). speak (m_name m))"
    by simp
  moreover have "(\<forall>md \<in> set (mods m). speak (m_name m)) \<longleftrightarrow> speak (m_name m) \<or> mods m = []" for m
    by (cases "mods m") auto
  ultimately show ?thesis by (simp add: filter_empty_conv list_all_iff)
qed

text \<open>What a system prompt case writes, given its emitted order and its machine policy.\<close>

definition prompt_spec :: "environment_case \<Rightarrow> member list \<Rightarrow> string \<Rightarrow> json list \<Rightarrow> (string \<times> string) list" where
  "prompt_spec c order mode waived =
     (let texts = map text_of (concat (map (system_modules c) (filter (speaks c waived) order))) in
      if texts = [] \<or> mode = ''error'' \<and> list_ex (\<lambda>m. \<not> speaks c waived m \<and> system_modules c m \<noteq> []) order then []
      else [(ENVIRONMENT_SYSTEM_PROMPT_PATH, utf8 (join_with [newline] texts))])"

lemma prompt_files:
  assumes "system_prompt_files c order = Inr files" and "environment_emitted_order (ec_lock c) (ec_precedence c) = Inr order"
  shows "\<exists>mode waived. environment_machine_policy c = Inr (mode, waived) \<and> files = prompt_spec c order mode waived"
proof -
  from assms(1) obtain mode admitted dropped where a: "environment_system_prompt_admission c = Inr (mode, admitted, dropped)"
    and f: "(if mode = ''error'' \<and> dropped \<noteq> [] then Inr []
     else
       and_then (applicable_rows c ''system'' order) (\<lambda>rows.
       and_then (map_res module_text (concat (map (\<lambda>(m, mds).
         filter (\<lambda>md. (m_name m, cm_path md) \<in> set admitted) mds) rows))) (\<lambda>contents.
       if contents = [] then Inr []
       else Inr [(ENVIRONMENT_SYSTEM_PROMPT_PATH, utf8 (join_with [newline] contents))]))) = Inr files"
    by (auto simp: system_prompt_files_def and_then_pair_ok_iff)
  from a obtain waived order' rows where w: "environment_machine_policy c = Inr (mode, waived)"
    and o: "environment_emitted_order (ec_lock c) (ec_precedence c) = Inr order'"
    and r: "applicable_rows c ''system'' order' = Inr rows"
    and ad: "admitted = filter (\<lambda>(n, path). n \<in> set (environment_direct_packages (ec_lock c)) \<or> JStr n \<in> set waived) (row_entries rows)"
    and dr: "dropped = filter (\<lambda>e. \<not> (case e of (n, path) \<Rightarrow> n \<in> set (environment_direct_packages (ec_lock c)) \<or> JStr n \<in> set waived)) (row_entries rows)"
    by (rule admission_cases)
  have [simp]: "order' = order" using o assms(2) by simp
  note rows = applicable_rows_ok [OF r, simplified]
  have dropped: "dropped = [] \<longleftrightarrow> \<not> list_ex (\<lambda>m. \<not> speaks c waived m \<and> system_modules c m \<noteq> []) order"
    unfolding dr entries_dropped [OF rows] by (auto simp: list_all_iff list_ex_iff speaks_def)
  have said: "concat (map (\<lambda>(m, mds). filter (\<lambda>md. (m_name m, cm_path md) \<in> set admitted) mds) rows) =
      concat (map (system_modules c) (filter (speaks c waived) order))"
    unfolding entries_filtered [OF rows ad] speaks_def [abs_def] by (rule refl)
  from f r have "files = prompt_spec c order mode waived"
    by (auto simp: said dropped prompt_spec_def Let_def and_then_ok_iff dest!: module_texts_ok split: if_splits)
  with w show ?thesis by blast
qed

text \<open>Under the error mode one module of a package that is not entitled is enough to write nothing.\<close>

lemma prompt_error_mode:
  assumes "environment_system_prompt_admission c = Inr (''error'', admitted, dropped)" and "dropped \<noteq> []"
  shows "system_prompt_files c order = Inr []"
  using assms by (simp add: system_prompt_files_def)

section \<open>Files end with one line feed\<close>

text \<open>A text that ends with exactly one LF and is not that LF alone.\<close>

definition part_ok :: "string \<Rightarrow> bool" where
  "part_ok s = (suffix [newline] s \<and> butlast s \<noteq> [] \<and> last (butlast s) \<noteq> newline)"

lemma part_ok_snoc: "part_ok (u @ [newline]) \<longleftrightarrow> u \<noteq> [] \<and> last u \<noteq> newline"
  by (simp add: part_ok_def)

lemma part_okE: "part_ok s \<Longrightarrow> (\<And>u. s = u @ [newline] \<Longrightarrow> u \<noteq> [] \<Longrightarrow> last u \<noteq> newline \<Longrightarrow> P) \<Longrightarrow> P"
  by (auto simp: part_ok_def suffix_def)

lemma part_ok_one: "part_ok s \<Longrightarrow> suffix [newline] s \<and> \<not> suffix [newline, newline] s"
proof (erule part_okE)
  fix u assume u: "s = u @ [newline]" "u \<noteq> []" "last u \<noteq> newline"
  have "last u = newline" if "suffix [newline, newline] s"
    using that u(1) by (auto simp: suffix_def)
  with u show ?thesis by auto
qed

lemma part_ok_append: "part_ok t \<Longrightarrow> part_ok (s @ t)"
  by (erule part_okE) (simp add: part_ok_snoc flip: append_assoc)

lemma part_ok_join: "ws \<noteq> [] \<Longrightarrow> part_ok (last ws) \<Longrightarrow> part_ok (join_with sep ws)"
  by (induction ws rule: induct_list012) (auto intro: part_ok_append)

lemma utf8_append: "utf8 (s @ t) = utf8 s @ utf8 t"
  by (simp add: utf8_def)

lemma newline_code: "ord_of newline = 10"
  by (simp add: newline_def ord_of_def)

lemma utf8_last: "s \<noteq> [] \<Longrightarrow> utf8 s \<noteq> [] \<and> (last (utf8 s) = newline \<longrightarrow> last s = newline)"
proof (induction s rule: rev_induct)
  case (snoc c s)
  have n: "utf8_char c \<noteq> []" by (simp add: utf8_char_def)
  have "ord_of (char_of (128 + ord_of c mod 64)) = 128 + ord_of c mod 64"
    using mod_less_divisor [of 64 "ord_of c"] by (intro ord_of_char_of) linarith
  moreover have "128 + ord_of c mod 64 \<noteq> ord_of newline" unfolding newline_code by linarith
  ultimately have "char_of (128 + ord_of c mod 64) \<noteq> newline" by (intro notI) (erule (1) notE [OF _ trans [OF sym arg_cong [where f = ord_of]]])
  then have "last (utf8_char c) = newline \<longrightarrow> c = newline" by (simp add: utf8_char_def)
  then show ?case using n by (simp add: utf8_append) (simp add: utf8_def)
qed simp

lemma utf8_newline: "utf8 [newline] = [newline]"
  by (simp add: utf8_def utf8_char_def newline_code)

lemma part_ok_utf8: "part_ok s \<Longrightarrow> part_ok (utf8 s)"
  by (erule part_okE) (use utf8_last in \<open>auto simp: utf8_append utf8_newline part_ok_snoc\<close>)

lemma object_bytes_end:
  assumes "ccj1_bytes (JObj d) = Inr bs"
  shows "part_ok (bs @ [newline])"
proof -
  obtain t where "bs = utf8 (t @ ''}'')"
    using assms by (auto simp: ccj1_bytes_def unsigned_def simp flip: append_Cons append_assoc split: if_splits)
  then have b: "bs = utf8 t @ ''}''" by (simp add: utf8_append) (simp add: utf8_def utf8_char_def ord_of_def)
  have "CHR ''}'' \<noteq> newline" by (simp add: newline_def)
  then show ?thesis unfolding part_ok_snoc b by simp
qed

lemma module_part:
  assumes "environment_module_error (JStr s) = None" "s \<noteq> [newline]"
  shows "part_ok s"
proof -
  from assms(1) have e: "suffix [newline] s" "\<not> suffix [newline, newline] s"
    by (auto simp: environment_module_error_def split: if_splits)
  then obtain u where u: "s = u @ [newline]" by (auto simp: suffix_def)
  then have "u \<noteq> []" using assms(2) by auto
  moreover have "last u \<noteq> newline"
  proof
    assume "last u = newline"
    then have "s = butlast u @ [newline, newline]" using u append_butlast_last_id [OF \<open>u \<noteq> []\<close>] by (metis append.assoc append_Cons append_Nil)
    then show False using e(2) by (auto simp: suffix_def)
  qed
  ultimately show ?thesis by (simp add: u part_ok_snoc)
qed

text \<open>
  The cases in which every package has its modules checked, no module is a lone LF, and no module
  path contains one.
\<close>

definition clean_modules :: "environment_case \<Rightarrow> bool" where
  "clean_modules c =
     list_all (\<lambda>(n, p). cp_has_context p \<and>
       list_all (\<lambda>md. cm_content md \<noteq> Some (JStr [newline]) \<and> newline \<notin> set (cm_path md)) (cp_modules p)) (ec_packages c)"

lemma checked_module:
  assumes "check_contents c = Inr ()" "clean_modules c" "package_of c n = Inr p" "md \<in> set (environment_applicable p e k)"
    "module_text md = Inr t"
  shows "part_ok t" "newline \<notin> set (cm_path md)"
proof -
  have p: "(n, p) \<in> set (ec_packages c)" using assms(3) by (simp add: package_of_ok map_of_SomeD)
  have md: "md \<in> set (cp_modules p)" using assms(4) by (simp add: environment_applicable_def)
  from assms(2) p md have c: "cp_has_context p" "cm_content md \<noteq> Some (JStr [newline])" and path: "newline \<notin> set (cm_path md)"
    unfolding clean_modules_def list_all_iff by auto
  have t: "cm_content md = Some (JStr t)" using assms(5) by (simp add: module_text_ok)
  from assms(1) p c(1) md have "environment_module_error (JStr t) = None"
    by (fastforce simp: check_contents_def for_each_ok_iff t split: option.splits)
  then show "part_ok t" using c(2) t by (intro module_part) auto
  show "newline \<notin> set (cm_path md)" by (rule path)
qed

definition rendered_ok :: "rendering \<Rightarrow> bool" where
  "rendered_ok r = (rd_parts r \<noteq> [] \<and> part_ok (last (rd_parts r)) \<and> list_all (\<lambda>(_, t). part_ok t) (rd_files r))"

lemma update_all: "list_all P xs \<Longrightarrow> P (k, v) \<Longrightarrow> list_all P (AList.update k v xs)"
  using update_subset [of k v xs] by (auto simp: list_all_iff)

lemma render_module_ok:
  assumes "render_module e form n md r = Inr r'" "\<And>t. module_text md = Inr t \<Longrightarrow> part_ok t \<and> newline \<notin> set (cm_path md)"
    "rendered_ok r \<or> rd_parts r \<noteq> [] \<and> list_all (\<lambda>(_, t). part_ok t) (rd_files r) \<and> \<not> (e = ''opencode'' \<and> form = ''referenced'')"
  shows "rendered_ok r'"
proof -
  have ref: "last (reference_path n (cm_path md)) \<noteq> newline" if "newline \<notin> set (cm_path md)"
  proof (cases "cm_path md = []")
    case True
    have "CHR ''/'' \<noteq> newline" by (simp add: newline_def)
    then show ?thesis using True by (simp add: reference_path_def)
  next
    case False
    then have "last (cm_path md) \<noteq> newline" using that last_in_set [OF False] by metis
    then show ?thesis using False by (simp add: reference_path_def)
  qed
  from assms(1) consider (mono) t where "form = ''monolithic''" "module_text md = Inr t" "r' = r\<lparr>rd_parts := rd_parts r @ [t]\<rparr>"
    | (refd) t where "form = ''referenced''" "module_text md = Inr t"
        "r' = r\<lparr>rd_files := AList.update (reference_path n (cm_path md)) (utf8 t) (rd_files r),
          rd_instructions := rd_instructions r @ [reference_path n (cm_path md)],
          rd_parts := rd_parts r @ (if e = ''opencode'' then [] else [CHR ''@'' # reference_path n (cm_path md) @ [newline]])\<rparr>"
    by (auto simp: render_module_def Let_def and_then_ok_iff split: if_splits)
  then show ?thesis
  proof cases
    case mono
    have "part_ok t" using assms(2) [OF mono(2)] by simp
    then show ?thesis using mono(1,3) assms(3) by (auto simp: rendered_ok_def)
  next
    case refd
    have "part_ok (CHR ''@'' # reference_path n (cm_path md) @ [newline])"
      using ref assms(2) [OF refd(2)] part_ok_snoc [of "CHR ''@'' # reference_path n (cm_path md)"] by (simp add: reference_path_def)
    then show ?thesis using refd assms(2) [OF refd(2)] assms(3)
      by (auto simp: rendered_ok_def intro!: update_all part_ok_utf8)
  qed
qed

lemma render_modules_ok:
  assumes "fold_res (render_module e form n) mds r = Inr r'" "mds \<noteq> []"
    "\<And>md t. md \<in> set mds \<Longrightarrow> module_text md = Inr t \<Longrightarrow> part_ok t \<and> newline \<notin> set (cm_path md)"
    "rendered_ok r \<or> rd_parts r \<noteq> [] \<and> list_all (\<lambda>(_, t). part_ok t) (rd_files r) \<and> \<not> (e = ''opencode'' \<and> form = ''referenced'')"
  shows "rendered_ok r'"
proof -
  obtain md rest where mds: "mds = md # rest" using assms(2) by (cases mds) auto
  with assms(1) obtain r1 where r1: "render_module e form n md r = Inr r1" "fold_res (render_module e form n) rest r1 = Inr r'"
    by (auto simp: and_then_ok_iff)
  have "rendered_ok r1" by (rule render_module_ok [OF r1(1) _ assms(4)], rule assms(3) [of md]) (simp_all add: mds)
  with r1(2) show ?thesis
  proof (rule fold_res_invariant)
    fix x a b assume "x \<in> set rest" "rendered_ok a" "render_module e form n x a = Inr b"
    then show "rendered_ok b" using assms(3) [of x] mds by (intro render_module_ok [of e form n x a b]) auto
  qed
qed

lemma render_member_ok:
  assumes "render_member c form m r = Inr r'" "check_contents c = Inr ()" "clean_modules c" "rendered_ok r"
  shows "rendered_ok r'"
proof -
  from assms(1) obtain p where p: "package_of c (m_name m) = Inr p" by (auto simp: render_member_def and_then_ok_iff)
  let ?mds = "environment_applicable p (ec_environment c) ''root''"
  note clean = checked_module [OF assms(2,3) p]
  show ?thesis
  proof (cases "?mds = []")
    case True
    then show ?thesis using assms(1,4) p by (simp add: render_member_def)
  next
    case False
    from assms(1) p False obtain r0 where r0: "(if ec_environment c = ''opencode'' \<and> form = ''referenced'' then Inr r
          else and_then (present_text (m_version m) ''version'') (\<lambda>v.
            Inr (r\<lparr>rd_parts := rd_parts r @ [chapter_part (m_name m) v]\<rparr>))) = Inr r0"
      and f: "fold_res (render_module (ec_environment c) form (m_name m)) ?mds r0 = Inr r'"
      by (auto simp: render_member_def and_then_ok_iff)
    have "rendered_ok r0 \<or> rd_parts r0 \<noteq> [] \<and> list_all (\<lambda>(_, t). part_ok t) (rd_files r0) \<and> \<not> (ec_environment c = ''opencode'' \<and> form = ''referenced'')"
      using r0 assms(4) by (auto simp: rendered_ok_def and_then_ok_iff split: if_splits)
    from render_modules_ok [OF f False _ this] clean show ?thesis by blast
  qed
qed

lemma header_part: "header_text sha lk prec = Inr t \<Longrightarrow> part_ok t"
proof -
  assume h: "header_text sha lk prec = Inr t"
  have gt: "CHR ''>'' \<noteq> newline" by (simp add: newline_def)
  have "part_ok (join_with [newline] (xs @ [''-->'']) @ [newline])" for xs
  proof -
    have "xs @ [''-->''] \<noteq> []" "last (xs @ [''-->'']) = ''-->''" by simp_all
    then have "last (join_with [newline] (xs @ [''-->''])) = CHR ''>''" "join_with [newline] (xs @ [''-->'']) \<noteq> []"
      by (simp_all add: join_with_last join_with_nonempty)
    then show ?thesis using gt by (simp add: part_ok_snoc)
  qed
  note end_mark = this
  from h obtain xs where "t = join_with [newline] (xs @ [''-->'']) @ [newline]"
    unfolding header_text_def and_then_ok_iff and_then_pair_ok_iff
    by (auto simp: and_then_ok_iff simp flip: append_Cons split: option.splits)
      (metis append_Cons append_Nil append_assoc)
  then show ?thesis using end_mark by simp
qed

lemma rendered_cases:
  assumes "root_context_files sha c order = Inr fs" "fs \<noteq> []"
  obtains form header r where "ec_form c = Some form" "header_text sha (ec_lock c) (ec_precedence c) = Inr header"
    "fold_res (render_member c form) order (start header) = Inr r" "finish_files c form header r = Inr fs"
proof -
  from assms obtain form where f: "present_text (ec_form c) ''form'' = Inr form" "rendered_files sha c order form = Inr fs"
    by (auto simp: root_context_files_def and_then_ok_iff split: if_splits)
  from f(2) obtain header r where "header_text sha (ec_lock c) (ec_precedence c) = Inr header"
    "fold_res (render_member c form) order (start header) = Inr r" "finish_files c form header r = Inr fs"
    by (auto simp: rendered_files_def and_then_ok_iff)
  moreover have "ec_form c = Some form" using f(1) by (auto simp: present_text_def split: option.splits)
  ultimately show thesis using that by blast
qed

lemma finish_ok:
  assumes "finish_files c form header r = Inr fs" "part_ok header" "rendered_ok r"
  shows "list_all (\<lambda>(_, t). part_ok t) fs"
proof -
  have ok: "list_all (\<lambda>(_, t). part_ok t) (rd_files r)" "part_ok (join_with [newline] (rd_parts r))"
    using assms(3) by (auto simp: rendered_ok_def intro: part_ok_join)
  with assms(1,2) show ?thesis
    by (auto simp: finish_files_def and_then_ok_iff intro!: update_all part_ok_utf8 object_bytes_end split: if_splits)
qed

lemma root_context_lf:
  assumes "root_context_files sha c order = Inr fs" "check_contents c = Inr ()" "clean_modules c"
  shows "list_all (\<lambda>(_, t). part_ok t) fs"
proof (cases "fs = []")
  case False
  with assms(1) obtain form header r where h: "header_text sha (ec_lock c) (ec_precedence c) = Inr header"
    and r: "fold_res (render_member c form) order (start header) = Inr r" and f: "finish_files c form header r = Inr fs"
    by (rule rendered_cases)
  have hp: "part_ok header" using header_part [OF h] .
  have "rendered_ok r"
    by (rule fold_res_invariant [OF r]) (use hp in \<open>simp add: rendered_ok_def start_def\<close>, rule render_member_ok [OF _ assms(2,3)])
  with f hp show ?thesis by (rule finish_ok)
qed simp

lemma system_prompt_lf:
  assumes "system_prompt_files c order = Inr fs" "check_contents c = Inr ()" "clean_modules c"
  shows "list_all (\<lambda>(_, t). part_ok t) fs"
proof (cases "fs = []")
  case False
  obtain mode admitted dropped where "environment_system_prompt_admission c = Inr (mode, admitted, dropped)"
    using assms(1) by (auto simp: system_prompt_files_def and_then_pair_ok_iff)
  with assms(1) False obtain rows ts where r: "applicable_rows c ''system'' order = Inr rows"
    and t: "map_res module_text (concat (map (\<lambda>(m, mds). filter (\<lambda>md. (m_name m, cm_path md) \<in> set admitted) mds) rows)) = Inr ts"
    and fs: "ts \<noteq> []" "fs = [(ENVIRONMENT_SYSTEM_PROMPT_PATH, utf8 (join_with [newline] ts))]"
    by (auto simp: system_prompt_files_def and_then_ok_iff split: if_splits)
  from map_res_member [OF t last_in_set [OF fs(1)]] obtain m mds md where
    m: "(m, mds) \<in> set rows" "md \<in> set mds" "module_text md = Inr (last ts)" by auto
  from applicable_member [OF r m(1)] obtain p where p: "package_of c (m_name m) = Inr p"
    "mds = environment_applicable p (ec_environment c) ''system''" by blast
  have "part_ok (last ts)" using checked_module(1) [OF assms(2,3) p(1) m(2) [unfolded p(2)] m(3)] .
  then show ?thesis using fs by (simp add: part_ok_utf8 part_ok_join)
qed simp

lemma codex_lines_end: "codex_lines t \<noteq> [] \<and> last (codex_lines t) \<noteq> [] \<and> last (last (codex_lines t)) \<noteq> newline"
  by (cases t) (simp_all add: toml_basic_string_def quote_def newline_def)

lemma toml_file_end:
  assumes "rows \<noteq> []"
  shows "part_ok (join_with [newline] (concat (map (\<lambda>(n, s). (''[mcp_servers.'' @ n @ '']'') # codex_lines (sv_transport s)) rows)) @ [newline])"
proof -
  let ?ls = "concat (map (\<lambda>(n, s). (''[mcp_servers.'' @ n @ '']'') # codex_lines (sv_transport s)) rows)"
  obtain xs n s where rows: "rows = xs @ [(n, s)]" using assms by (metis rev_exhaust surj_pair)
  have "last ?ls = last (codex_lines (sv_transport s))" "?ls \<noteq> []"
    using codex_lines_end [of "sv_transport s"] by (simp_all add: rows last_append)
  then have "join_with [newline] ?ls \<noteq> []" "last (join_with [newline] ?ls) \<noteq> newline"
    using codex_lines_end [of "sv_transport s"] by (simp_all add: join_with_nonempty join_with_last)
  then show ?thesis by (simp add: part_ok_snoc)
qed

lemma mcp_files_lf:
  assumes "environment_mcp_files c = Inr fs"
  shows "list_all (\<lambda>(_, t). part_ok t) fs"
proof (cases "fs = []")
  case False
  with assms obtain names target rows where n: "names \<noteq> []"
    and rows: "map_res (\<lambda>n. and_then (server_of c n) (\<lambda>s. Inr (n, s))) names = Inr rows"
    and f: "mcp_document (ec_environment c) target rows = Inr fs"
    by (auto simp: environment_mcp_files_def and_then_ok_iff split: option.splits if_splits)
  from rows have "length rows = length names" using map_res_ok_set list_all2_lengthD by fastforce
  then have ne: "rows \<noteq> []" using n by auto
  from f toml_file_end [OF ne] show ?thesis
    by (auto simp: mcp_document_def and_then_ok_iff intro: object_bytes_end part_ok_utf8 split: if_splits)
qed simp

lemma case_files_lf:
  assumes "environment_case_files sha c = Inr fs" "clean_modules c"
  shows "list_all (\<lambda>(_, t). part_ok t) fs"
proof (cases "ec_surface c = ''mcp''")
  case True
  then show ?thesis using assms(1) by (intro mcp_files_lf) (simp add: environment_case_files_def)
next
  case False
  with assms(1) obtain order where "check_contents c = Inr ()"
    "(if ec_surface c = ''system-prompt'' then system_prompt_files c order else root_context_files sha c order) = Inr fs"
    by (auto simp: environment_case_files_def and_then_ok_iff)
  then show ?thesis using system_prompt_lf root_context_lf assms(2) by (auto split: if_splits)
qed

section \<open>The managed opencode files\<close>

text \<open>A file of the referenced layout: a module's text under its reference path.\<close>

definition module_file :: "environment_case \<Rightarrow> string \<times> string \<Rightarrow> bool" where
  "module_file c f =
     list_ex (\<lambda>(n, p). list_ex (\<lambda>md. fst f = reference_path n (cm_path md) \<and>
         (case cm_content md of Some (JStr t) \<Rightarrow> snd f = utf8 t | _ \<Rightarrow> False))
       (environment_applicable p (ec_environment c) ''root'')) (ec_packages c)"

text \<open>The references of the root modules, in emitted order and manifest order within a package.\<close>

definition references :: "environment_case \<Rightarrow> member \<Rightarrow> string list" where
  "references c m =
     (case package_of c (m_name m) of
        Inl _ \<Rightarrow> []
      | Inr p \<Rightarrow> map (\<lambda>md. reference_path (m_name m) (cm_path md)) (environment_applicable p (ec_environment c) ''root''))"

definition inventory :: "environment_case \<Rightarrow> string list \<Rightarrow> rendering \<Rightarrow> bool" where
  "inventory c refs r = (rd_instructions r = refs \<and> fst ` set (rd_files r) = set refs \<and> list_all (module_file c) (rd_files r))"

lemma update_keys: "fst ` set (AList.update k v xs) = insert k (fst ` set xs)"
  by (induction xs) auto

lemma modules_inventory:
  assumes "fold_res (render_module (ec_environment c) ''referenced'' n) mds r = Inr r'"
    "inventory c refs r" "(n, p) \<in> set (ec_packages c)" "set mds \<subseteq> set (environment_applicable p (ec_environment c) ''root'')"
  shows "inventory c (refs @ map (\<lambda>md. reference_path n (cm_path md)) mds) r'"
  using assms
proof (induction mds arbitrary: r refs)
  case (Cons md mds)
  from Cons.prems(1) obtain r1 where m: "render_module (ec_environment c) ''referenced'' n md r = Inr r1"
    and rest: "fold_res (render_module (ec_environment c) ''referenced'' n) mds r1 = Inr r'"
    by (auto simp: and_then_ok_iff)
  from m obtain t where t: "module_text md = Inr t"
    and r1: "rd_files r1 = AList.update (reference_path n (cm_path md)) (utf8 t) (rd_files r)"
      "rd_instructions r1 = rd_instructions r @ [reference_path n (cm_path md)]"
    by (auto simp: render_module_def Let_def and_then_ok_iff)
  have "md \<in> set (environment_applicable p (ec_environment c) ''root'')" using Cons.prems(4) by simp
  then have "module_file c (reference_path n (cm_path md), utf8 t)"
    using Cons.prems(3) t unfolding module_file_def list_ex_iff module_text_ok by fastforce
  then have "inventory c (refs @ [reference_path n (cm_path md)]) r1"
    using Cons.prems(2) by (auto simp: inventory_def r1 update_keys intro!: update_all)
  from Cons.IH [OF rest this Cons.prems(3)] Cons.prems(4) show ?case by simp
qed simp

lemma member_inventory:
  assumes "render_member c ''referenced'' m r = Inr r'" "inventory c refs r" "ec_environment c = ''opencode''"
  shows "inventory c (refs @ references c m) r'"
proof -
  from assms(1) obtain p where p: "package_of c (m_name m) = Inr p" by (auto simp: render_member_def and_then_ok_iff)
  let ?mds = "environment_applicable p (ec_environment c) ''root''"
  have "fold_res (render_module (ec_environment c) ''referenced'' (m_name m)) ?mds r = Inr r'"
    using assms(1) p by (cases "?mds = []") (simp_all add: render_member_def Let_def assms(3))
  moreover have "(m_name m, p) \<in> set (ec_packages c)" using p by (simp add: package_of_ok map_of_SomeD)
  ultimately have "inventory c (refs @ map (\<lambda>md. reference_path (m_name m) (cm_path md)) ?mds) r'"
    using modules_inventory assms(2) by blast
  then show ?thesis using p by (simp add: references_def)
qed

lemma order_inventory:
  assumes "fold_res (render_member c ''referenced'') order r = Inr r'" "inventory c refs r" "ec_environment c = ''opencode''"
  shows "inventory c (refs @ concat (map (references c) order)) r'"
  using assms
proof (induction order arbitrary: r refs)
  case (Cons m order)
  then obtain r1 where r1: "render_member c ''referenced'' m r = Inr r1" "fold_res (render_member c ''referenced'') order r1 = Inr r'"
    by (auto simp: and_then_ok_iff)
  from Cons.IH [OF r1(2) member_inventory [OF r1(1) Cons.prems(2,3)] Cons.prems(3)] show ?case by simp
qed simp

text \<open>Canonical bytes with a line feed after them are read back too.\<close>

lemma load_ccj1_line:
  assumes "unique_keys v" "ccj1_bytes v = Inr bs"
  shows "load_json (bs @ [newline]) = Inr (canon (unsigned v))"
proof -
  let ?v = "canon (unsigned v)"
  have s: "all_ints in_safe_range (unsigned v)" "bs = utf8 (json_text (unsigned v))"
    using assms(2) by (auto simp: ccj1_bytes_def split: if_splits)
  have u: "unique_keys ?v" "all_ints in_safe_range ?v" using unique_unsigned [OF assms(1)] s(1) by simp_all
  have c: "closes [newline]" by (simp add: closes_def json_space_def newline_def)
  have "json_loads load_hooks (plain ?v @ [newline]) = Inr ?v"
    using value_back [OF load_hooks_faithful u c, of "2 * length (plain ?v @ [newline]) + 1"] skip_plain [of ?v "[newline]"]
    by (simp add: json_loads_def skip_space_def json_space_def newline_def)
  moreover have "bs @ [newline] = utf8 (plain ?v @ [newline])"
    by (simp add: s(2) utf8_append utf8_newline plain_canon)
  ultimately show ?thesis by (simp add: load_json_def)
qed

lemma reference_not: "reference_path n p \<noteq> ''AGENTS.md'' \<and> reference_path n p \<noteq> ''opencode.json''"
  by (simp add: reference_path_def)

lemma lookup_update: "map_of (AList.update k v xs) k' = (if k' = k then Some v else map_of xs k')"
  by (simp add: update_conv')

lemma opencode_files:
  assumes "root_context_files sha c order = Inr fs" "fs \<noteq> []" "ec_environment c = ''opencode''" "ec_form c = Some ''referenced''"
  shows "\<exists>bs. map_of fs ''opencode.json'' = Some bs \<and>
      load_json bs = Inr (JObj [(''instructions'', JArr (map JStr (concat (map (references c) order))))]) \<and>
      fst ` set fs = {''AGENTS.md'', ''opencode.json''} \<union> set (concat (map (references c) order)) \<and>
      (\<forall>f \<in> set fs. fst f \<noteq> ''AGENTS.md'' \<and> fst f \<noteq> ''opencode.json'' \<longrightarrow> module_file c f)"
proof -
  obtain header r where r: "fold_res (render_member c ''referenced'') order (start header) = Inr r"
    and f: "finish_files c ''referenced'' header r = Inr fs"
    using rendered_cases [OF assms(1,2)] assms(4) by (metis option.inject)
  let ?refs = "concat (map (references c) order)"
  have "inventory c [] (start header)" by (simp add: inventory_def start_def)
  from order_inventory [OF r this assms(3)] have inv: "rd_instructions r = ?refs" "fst ` set (rd_files r) = set ?refs"
    "list_all (module_file c) (rd_files r)" by (simp_all add: inventory_def)
  let ?doc = "JObj [(''instructions'', JArr (map JStr ?refs))]"
  from f assms(3) inv(1) obtain bs where bs: "ccj1_bytes ?doc = Inr bs"
    and fs: "fs = AList.update ''opencode.json'' (bs @ [newline]) (AList.update ''AGENTS.md'' (utf8 header) (rd_files r))"
    by (auto simp: finish_files_def ENVIRONMENT_ROOT_TARGETS_def present_text_def and_then_ok_iff)
  have u: "unique_keys ?doc" by (simp add: list_all_iff)
  have doc: "canon (unsigned ?doc) = ?doc" by (simp add: unsigned_def comp_def)
  have files: "module_file c x" if "x \<in> set fs" "fst x \<noteq> ''AGENTS.md''" "fst x \<noteq> ''opencode.json''" for x
  proof -
    have "x \<in> insert (''opencode.json'', bs @ [newline]) (insert (''AGENTS.md'', utf8 header) (set (rd_files r)))"
      using that(1) update_subset [of "''opencode.json''" "bs @ [newline]" "AList.update ''AGENTS.md'' (utf8 header) (rd_files r)"]
        update_subset [of "''AGENTS.md''" "utf8 header" "rd_files r"] unfolding fs by blast
    then show ?thesis using that inv(3) by (auto simp: list_all_iff)
  qed
  show ?thesis
    using load_ccj1_line [OF u bs] files unfolding doc
    by (intro exI [of _ "bs @ [newline]"] conjI) (auto simp: fs lookup_update update_keys inv(2))
qed

section \<open>No exception but the gate's own\<close>

definition only_fails :: "'a res \<Rightarrow> bool" where
  "only_fails m = (case m of Inl (ValidationFailure _) \<Rightarrow> True | Inl _ \<Rightarrow> False | Inr _ \<Rightarrow> True)"

named_theorems only_fails \<open>rules for failures of the gate\<close>

lemma only_fails_simps [simp]: "only_fails (Inr x)" "only_fails (Inl (fail s))"
  by (simp_all add: only_fails_def)

lemma only_fails_then [only_fails]: "only_fails m \<Longrightarrow> (\<And>x. m = Inr x \<Longrightarrow> only_fails (f x)) \<Longrightarrow> only_fails (and_then m f)"
  by (cases m) (auto simp: only_fails_def)

lemma only_fails_map [only_fails]: "(\<And>x. x \<in> set xs \<Longrightarrow> only_fails (f x)) \<Longrightarrow> only_fails (map_res f xs)"
  by (induction xs) (auto intro!: only_fails_then)

lemma only_fails_each [only_fails]: "(\<And>x. x \<in> set xs \<Longrightarrow> only_fails (f x)) \<Longrightarrow> only_fails (for_each f xs)"
  by (induction xs) (auto intro!: only_fails_then)

lemma only_fails_fold [only_fails]: "(\<And>x s. x \<in> set xs \<Longrightarrow> only_fails (f x s)) \<Longrightarrow> only_fails (fold_res f xs s)"
  by (induction xs arbitrary: s) (auto intro!: only_fails_then)

lemma only_fails_bytes [only_fails]: "only_fails (ccj1_bytes v)" "only_fails (digest_of sha v)"
  by (auto simp: ccj1_bytes_def digest_of_def intro!: only_fails_then)

text \<open>
  What the schema and the wire check of the lock, and the corpus schema of a case, leave to hold: the
  root is a member with a version, contexts have versions, pins and packages, MCP members have
  servers, and texts are texts where the gate does not look.
\<close>

definition typed_member :: "environment_case \<Rightarrow> member \<Rightarrow> bool" where
  "typed_member c m =
     (m_version m \<noteq> None \<and> (m_state m \<noteq> None \<or> m_commit m \<noteq> None) \<and> map_of (ec_packages c) (m_name m) \<noteq> None)"

definition typed_case :: "environment_case \<Rightarrow> bool" where
  "typed_case c =
     (list_all (\<lambda>m. (m_kind m = ''context'' \<longrightarrow> typed_member c m) \<and>
        (m_kind m = ''mcp'' \<longrightarrow> map_of (ec_servers c) (m_name m) \<noteq> None)) (lk_members (ec_lock c)) \<and>
      (case find (\<lambda>m. m_name m = lk_root (ec_lock c)) (lk_members (ec_lock c)) of None \<Rightarrow> False | Some m \<Rightarrow> typed_member c m) \<and>
      list_all (\<lambda>(n, p). list_all (\<lambda>md. case cm_content md of Some (JStr t) \<Rightarrow> True | _ \<Rightarrow> False) (cp_modules p)) (ec_packages c) \<and>
      list_all hashable (map snd (the_dict (ec_precedence c))) \<and>
      list_all (\<lambda>e. hashable (jget (the_dict e) ''package'')) (the_list (jget_or (JArr []) (ec_policy c) ''system_module_waivers'')) \<and>
      ec_form c \<noteq> None \<and> ec_environment c \<in> fst ` set ENVIRONMENT_ROOT_TARGETS)"

lemma hashable_get: "list_all hashable (map snd d) \<Longrightarrow> hashable (jget d k)"
  by (induction d) (auto simp: hashable_def split: if_splits)

lemma only_fails_frozen: "hashable v \<Longrightarrow> only_fails (in_frozenset v ss)"
  by (simp add: in_frozenset_def hashable_def)

lemma only_fails_precedence: "list_all hashable (map snd (the_dict v)) \<Longrightarrow> only_fails (environment_precedence v)"
proof (cases v)
  case (JObj d)
  assume "list_all hashable (map snd (the_dict v))"
  then have "hashable (jget d k)" for k using JObj hashable_get by simp
  then show ?thesis
    by (auto simp: environment_precedence_def JObj bad_precedence_def intro!: only_fails_then only_fails_frozen)
qed (simp_all add: environment_precedence_def bad_precedence_def)

lemma only_fails_kahn: "only_fails (kahn cs out)"
proof (induction cs out rule: kahn.induct)
  case (1 cs out)
  then show ?case by (subst kahn.simps) (auto split: list.split)
qed

lemma only_fails_order: "list_all hashable (map snd (the_dict v)) \<Longrightarrow> only_fails (environment_emitted_order lk v)"
  unfolding environment_emitted_order_def
  by (auto simp: Let_def intro!: only_fails_then only_fails_precedence only_fails_kahn)

lemma order_members:
  assumes "environment_emitted_order lk v = Inr out" "m \<in> set out"
  shows "m \<in> set (lk_members lk) \<and> m_kind m = ''context''"
proof -
  have "m \<in> set (map snd (contexts_of (lk_members lk)))"
    using mset_eq_setD [OF emitted_members [OF assms(1)]] assms(2) by simp
  then obtain n where "(n, m) \<in> set (contexts_of (lk_members lk))" by auto
  then show ?thesis using contexts_named by blast
qed

lemma only_fails_pin: "m_state m \<noteq> None \<or> m_commit m \<noteq> None \<Longrightarrow> only_fails (environment_member_pin m)"
  by (auto simp: environment_member_pin_def present_text_def split: option.split)

lemma only_fails_present: "v \<noteq> None \<Longrightarrow> only_fails (present_text v k)"
  by (auto simp: present_text_def)

lemma typed_context:
  assumes "typed_case c" "environment_emitted_order (ec_lock c) (ec_precedence c) = Inr order" "m \<in> set order"
  shows "typed_member c m"
  using assms(1) order_members [OF assms(2,3)] by (auto simp: typed_case_def list_all_iff)

lemma typed_parts:
  assumes "typed_case c"
  shows "list_all hashable (map snd (the_dict (ec_precedence c)))" "ec_form c \<noteq> None"
    "map_of ENVIRONMENT_ROOT_TARGETS (ec_environment c) \<noteq> None" "map_of (ec_packages c) (lk_root (ec_lock c)) \<noteq> None"
    "\<exists>m. find (\<lambda>m. m_name m = lk_root (ec_lock c)) (lk_members (ec_lock c)) = Some m \<and> typed_member c m"
proof -
  obtain m where m: "find (\<lambda>m. m_name m = lk_root (ec_lock c)) (lk_members (ec_lock c)) = Some m" "typed_member c m"
    using assms by (auto simp: typed_case_def split: option.splits)
  then show "\<exists>m. find (\<lambda>m. m_name m = lk_root (ec_lock c)) (lk_members (ec_lock c)) = Some m \<and> typed_member c m" by blast
  from m(1) have "m_name m = lk_root (ec_lock c)" by (auto simp: find_Some_iff)
  with m(2) show "map_of (ec_packages c) (lk_root (ec_lock c)) \<noteq> None" by (simp add: typed_member_def)
  show "list_all hashable (map snd (the_dict (ec_precedence c)))" "ec_form c \<noteq> None"
    "map_of ENVIRONMENT_ROOT_TARGETS (ec_environment c) \<noteq> None"
    using assms unfolding typed_case_def map_of_eq_None_iff by blast+
qed

lemma only_fails_header: "typed_case c \<Longrightarrow> only_fails (header_text sha (ec_lock c) (ec_precedence c))"
proof -
  assume t: "typed_case c"
  obtain m where m: "find (\<lambda>m. m_name m = lk_root (ec_lock c)) (lk_members (ec_lock c)) = Some m" "typed_member c m"
    using typed_parts(5) [OF t] by blast
  have line: "only_fails (member_line x)" if "typed_member c x" for x
    using that unfolding member_line_def typed_member_def
    by (intro only_fails_then only_fails_present only_fails_pin) auto
  show ?thesis
    unfolding header_text_def m(1) option.case
    by (intro only_fails_then only_fails_map only_fails_order only_fails_present only_fails_pin only_fails_precedence
        only_fails_bytes typed_parts [OF t] line typed_context [OF t])
      (use m(2) in \<open>auto simp: typed_member_def intro!: only_fails_bytes only_fails_then split: prod.split\<close>)
qed

lemma only_fails_package: "map_of (ec_packages c) n \<noteq> None \<Longrightarrow> only_fails (package_of c n)"
  by (auto simp: package_of_def)

lemma typed_text:
  assumes "typed_case c" "package_of c n = Inr p" "md \<in> set (cp_modules p)"
  shows "only_fails (module_text md)"
proof -
  have "(n, p) \<in> set (ec_packages c)" using assms(2) by (simp add: package_of_ok map_of_SomeD)
  then have "case cm_content md of Some (JStr t) \<Rightarrow> True | _ \<Rightarrow> False"
    using assms(1,3) by (fastforce simp: typed_case_def list_all_iff)
  then show ?thesis by (auto simp: module_text_def as_text_def split: option.splits json.splits)
qed

lemma only_fails_member:
  assumes "typed_case c" "typed_member c m"
  shows "only_fails (render_member c form m r)"
proof -
  have module: "only_fails (render_module e f n md r)" if "only_fails (module_text md)" for e f n md r
    using that by (auto simp: render_module_def Let_def intro!: only_fails_then)
  have readable: "only_fails (module_text md)"
    if "package_of c (m_name m) = Inr p" "md \<in> set (environment_applicable p e k)" for p md e k
    using typed_text [OF assms(1) that(1)] that(2) by (simp add: environment_applicable_def)
  show ?thesis
    unfolding render_member_def Let_def
    using assms(2) by (auto simp: typed_member_def intro!: only_fails_then only_fails_package only_fails_fold only_fails_present intro: module [OF readable])
qed

lemma only_fails_root_context:
  assumes "typed_case c" "environment_emitted_order (ec_lock c) (ec_precedence c) = Inr order"
  shows "only_fails (root_context_files sha c order)"
proof -
  have finish: "only_fails (finish_files c form header r)" for form header r
    using typed_parts(3) [OF assms(1)]
    by (auto simp: finish_files_def intro!: only_fails_then only_fails_present only_fails_bytes)
  have "only_fails (rendered_files sha c order form)" for form
    unfolding rendered_files_def
    by (intro only_fails_then only_fails_header [OF assms(1)] only_fails_fold only_fails_member [OF assms(1)]
        typed_context [OF assms] finish)
  then show ?thesis
    unfolding root_context_files_def using typed_parts(2,4) [OF assms(1)]
    by (auto intro!: only_fails_then only_fails_package only_fails_present)
qed

lemma only_fails_policy: "typed_case c \<Longrightarrow> only_fails (environment_machine_policy c)"
proof -
  assume "typed_case c"
  then have h: "list_all (\<lambda>e. hashable (jget (the_dict e) ''package'')) (the_list (jget_or (JArr []) (ec_policy c) ''system_module_waivers''))"
    by (simp add: typed_case_def)
  show ?thesis
  proof (cases "jget_or (JArr []) (ec_policy c) ''system_module_waivers''")
    case (JArr es)
    with h have "as_set (map (\<lambda>e. jget (the_dict e) ''package'') es) = Inr (map (\<lambda>e. jget (the_dict e) ''package'') es)"
      by (simp add: as_set_def list.pred_map comp_def)
    then show ?thesis by (simp add: environment_machine_policy_def Let_def JArr)
  qed (simp_all add: environment_machine_policy_def Let_def)
qed

lemma only_fails_rows:
  assumes "typed_case c" "environment_emitted_order (ec_lock c) (ec_precedence c) = Inr order"
  shows "only_fails (applicable_rows c k order)"
proof -
  have "only_fails (package_of c (m_name m))" if "m \<in> set order" for m
    using typed_context [OF assms that] by (intro only_fails_package) (simp add: typed_member_def)
  then show ?thesis unfolding applicable_rows_def by (intro only_fails_map only_fails_then) auto
qed

lemma only_fails_prompt:
  assumes "typed_case c" "environment_emitted_order (ec_lock c) (ec_precedence c) = Inr order"
  shows "only_fails (system_prompt_files c order)"
proof -
  have admission: "only_fails (environment_system_prompt_admission c)"
    unfolding environment_system_prompt_admission_def Let_def
    by (auto simp: assms(2) intro!: only_fails_then only_fails_policy [OF assms(1)] only_fails_rows [OF assms])
  have contents: "only_fails (map_res module_text (concat (map (\<lambda>(m, mds). filter (\<lambda>md. (m_name m, cm_path md) \<in> set admitted) mds) rows)))"
    if rows: "applicable_rows c ''system'' order = Inr rows" for rows and admitted :: "(string \<times> string) list"
  proof (rule only_fails_map)
    fix md assume "md \<in> set (concat (map (\<lambda>(m, mds). filter (\<lambda>md. (m_name m, cm_path md) \<in> set admitted) mds) rows))"
    then obtain m mds where m: "(m, mds) \<in> set rows" "md \<in> set mds" by auto
    from applicable_member [OF rows m(1)] obtain p where "package_of c (m_name m) = Inr p" "md \<in> set (cp_modules p)"
      using m(2) by (auto simp: environment_applicable_def)
    then show "only_fails (module_text md)" by (rule typed_text [OF assms(1)])
  qed
  show ?thesis
    unfolding system_prompt_files_def
    by (auto intro!: only_fails_then admission only_fails_rows [OF assms] contents)
qed

lemma only_fails_mcp: "typed_case c \<Longrightarrow> only_fails (environment_mcp_files c)"
proof -
  assume t: "typed_case c"
  have server: "only_fails (server_of c (m_name m))" if "m \<in> set (lk_members (ec_lock c))" "m_kind m = ''mcp''" for m
    using t that by (auto simp: typed_case_def list_all_iff server_of_def)
  have set: "only_fails (environment_mcp_set c)"
    unfolding environment_mcp_set_def by (auto intro!: only_fails_then only_fails_map server)
  have known: "only_fails (server_of c n)" if "environment_mcp_set c = Inr names" "n \<in> set names" for n names
  proof -
    from that obtain rows s where rows: "map_res (\<lambda>m. and_then (server_of c (m_name m)) (\<lambda>s. Inr (m_name m, s)))
        (filter (\<lambda>m. m_kind m = ''mcp'') (lk_members (ec_lock c))) = Inr rows" "(n, s) \<in> set rows"
      by (auto simp: environment_mcp_set_def and_then_ok_iff)
    from map_res_member [OF this] have "server_of c n = Inr s" by (auto simp: and_then_ok_iff)
    then show ?thesis by simp
  qed
  show ?thesis
    unfolding environment_mcp_files_def
  proof (rule only_fails_then [OF set])
    fix names assume names: "environment_mcp_set c = Inr names"
    have "only_fails (map_res (\<lambda>n. and_then (server_of c n) (\<lambda>s. Inr (n, s))) names)"
      by (intro only_fails_map only_fails_then known [OF names]) auto
    moreover have "only_fails (mcp_document e target rows)" for e target rows
      by (auto simp: mcp_document_def intro!: only_fails_then only_fails_bytes)
    ultimately show "only_fails (case map_of ENVIRONMENT_MCP_TARGETS (ec_environment c) of
         None \<Rightarrow> Inr []
       | Some target \<Rightarrow>
           if names = [] then Inr []
           else and_then (map_res (\<lambda>n. and_then (server_of c n) (\<lambda>s. Inr (n, s))) names) (mcp_document (ec_environment c) target))"
      by (auto intro!: only_fails_then split: option.split)
  qed
qed

lemma only_fails_contents: "only_fails (check_contents c)"
  unfolding check_contents_def by (auto intro!: only_fails_each split: option.split)

lemma only_fails_case:
  assumes "typed_case c"
  shows "only_fails (environment_case_files sha c)"
  unfolding environment_case_files_def using assms
  by (auto intro!: only_fails_then only_fails_contents only_fails_mcp only_fails_order typed_parts only_fails_prompt only_fails_root_context)

section \<open>Properties\<close>

text \<open>
  C11: only entitled packages speak in the system prompt.  A system prompt case writes exactly what
  \<open>prompt_spec\<close> says: the texts of the applicable system modules of the packages that speak, in emitted
  order and in manifest order within a package, or nothing when there is no text or when the error mode
  meets a module of a package that does not speak.  Each package that speaks is the root, an overlay,
  required by one of these, or waived with a reason.
\<close>

theorem system_prompt_entitled:
  assumes "environment_case_files sha c = Inr files" and "ec_surface c = ''system-prompt''"
  shows "\<exists>order mode waived. environment_emitted_order (ec_lock c) (ec_precedence c) = Inr order \<and>
    environment_machine_policy c = Inr (mode, waived) \<and> files = prompt_spec c order mode waived \<and>
    (\<forall>m. speaks c waived m \<longrightarrow> entitled c (m_name m))"
proof -
  from assms obtain order where o: "environment_emitted_order (ec_lock c) (ec_precedence c) = Inr order"
    "system_prompt_files c order = Inr files"
    by (auto simp: environment_case_files_def and_then_ok_iff)
  from prompt_files [OF o(2,1)] o(1) speaks_entitled show ?thesis by blast
qed

text \<open>
  Every file a case materializes to ends with exactly one LF, on every surface and in every form,
  provided no module is an LF alone and no module path contains one.
\<close>

theorem case_files_line_feed:
  assumes "environment_case_files sha c = Inr files" and "clean_modules c" and "(path, bytes) \<in> set files"
  shows "suffix [newline] bytes \<and> \<not> suffix [newline, newline] bytes"
proof -
  have "part_ok bytes" using case_files_lf [OF assms(1,2)] assms(3) by (fastforce simp: list_all_iff)
  then show ?thesis by (rule part_ok_one)
qed

text \<open>
  The managed opencode files agree with one another.  In the referenced form the written
  \<open>opencode.json\<close> reads back as the references of the root modules in emitted order, and besides it and
  \<open>AGENTS.md\<close> exactly the referenced files are written, each with the text of a module of that path.
\<close>

theorem opencode_files_agree:
  assumes "environment_case_files sha c = Inr files" and "files \<noteq> []" and "ec_surface c = ''root-context''"
    and "ec_environment c = ''opencode''" and "ec_form c = Some ''referenced''"
  shows "\<exists>order bs. environment_emitted_order (ec_lock c) (ec_precedence c) = Inr order \<and> map_of files ''opencode.json'' = Some bs \<and>
      load_json bs = Inr (JObj [(''instructions'', JArr (map JStr (concat (map (references c) order))))]) \<and>
      fst ` set files = {''AGENTS.md'', ''opencode.json''} \<union> set (concat (map (references c) order)) \<and>
      (\<forall>f \<in> set files. fst f \<noteq> ''AGENTS.md'' \<and> fst f \<noteq> ''opencode.json'' \<longrightarrow> module_file c f)"
proof -
  from assms(1,3) obtain order where "environment_emitted_order (ec_lock c) (ec_precedence c) = Inr order"
    "root_context_files sha c order = Inr files" by (auto simp: environment_case_files_def and_then_ok_iff)
  from opencode_files [OF this(2) assms(2,4,5)] this(1) show ?thesis by (elim exE) (intro exI conjI; assumption?; elim conjE; assumption)
qed

text \<open>
  C12: no text escapes its quotes.  What \<open>toml_basic_string\<close> writes is read back by TOML's rules as the
  same text, whatever follows it, and contains no control character, so no line break.
\<close>

theorem toml_text_back:
  "toml_read (toml_basic_string s) = Some s \<and> toml_scan (tl (toml_basic_string s @ r)) = Some (s, r) \<and>
   list_all (\<lambda>c. 32 \<le> ord_of c \<and> ord_of c \<noteq> 127) (toml_basic_string s)"
  using toml_back [of s] toml_scan_text [of s r] toml_char_plain special_codes
  by (auto simp: toml_basic_string_def list_all_iff)

text \<open>
  C10: a case of the right shape raises no exception but the gate's own failure: materializing it ends
  with files or with a \<open>ValidationFailure\<close>, never with a missing key or a value of the wrong type.
\<close>

theorem case_files_typed:
  assumes "typed_case c"
  shows "(\<exists>files. environment_case_files sha c = Inr files) \<or> (\<exists>s. environment_case_files sha c = Inl (ValidationFailure s))"
  using only_fails_case [OF assms, of sha]
  by (cases "environment_case_files sha c") (auto simp: only_fails_def split: failure.splits)

section \<open>Witnesses\<close>

definition sample_module :: "string \<Rightarrow> string \<Rightarrow> string option \<Rightarrow> context_module" where
  "sample_module path t k = \<lparr>cm_path = path, cm_content = Some (JStr (t @ [newline])), cm_class = k, cm_environments = None\<rparr>"

definition sample_package :: "string \<Rightarrow> context_package" where
  "sample_package t = \<lparr>cp_has_context = True, cp_modules = [sample_module ''m'' t None, sample_module ''s'' t (Some ''system'')]\<rparr>"

definition sample_case :: "string \<Rightarrow> string \<Rightarrow> environment_case" where
  "sample_case surface environment =
     \<lparr>ec_lock = \<lparr>lk_root = ''a'', lk_members = [context_member ''a'' 5 [], context_member ''b'' 5 [''a''], context_member ''c'' 1 [''b'']]\<rparr>,
      ec_packages = [(''a'', sample_package ''A''), (''b'', sample_package ''B''), (''c'', sample_package ''C'')],
      ec_environment = environment, ec_precedence = sample_policy ''higher-weight'' ''winner-last'', ec_surface = surface,
      ec_form = Some ''referenced'', ec_servers = [], ec_policy = []\<rparr>"

lemma sample_prompt:
  "environment_case_files flat (sample_case ''system-prompt'' ''pi'') = Inr [(ENVIRONMENT_SYSTEM_PROMPT_PATH, ''B'' @ [newline, newline] @ ''A'' @ [newline])]"
  by code_simp

theorem system_prompt_entitled_witness:
  "\<exists>order mode waived. prompt_spec (sample_case ''system-prompt'' ''pi'') order mode waived =
     [(ENVIRONMENT_SYSTEM_PROMPT_PATH, ''B'' @ [newline, newline] @ ''A'' @ [newline])] \<and>
     environment_machine_policy (sample_case ''system-prompt'' ''pi'') = Inr (mode, waived)"
proof -
  have "ec_surface (sample_case ''system-prompt'' ''pi'') = ''system-prompt''" by (simp add: sample_case_def)
  from system_prompt_entitled [OF sample_prompt this] show ?thesis by metis
qed

lemma sample_clean: "clean_modules (sample_case surface environment)"
  by (simp add: clean_modules_def sample_case_def sample_package_def sample_module_def newline_def)

theorem case_files_line_feed_witness: "\<not> suffix [newline, newline] (''B'' @ [newline, newline] @ ''A'' @ [newline])"
  using case_files_line_feed [OF sample_prompt sample_clean] by simp

theorem case_files_typed_witness:
  "\<exists>r. environment_case_files flat (sample_case ''system-prompt'' ''pi'') = r \<and> r \<noteq> Inl (KeyError ''a'')"
proof -
  have "typed_case (sample_case ''system-prompt'' ''pi'')" by code_simp
  from case_files_typed [OF this, of flat] show ?thesis by auto
qed

lemma digest_exists: "all_ints in_safe_range (unsigned v) \<Longrightarrow> \<exists>d. digest_of sha v = Inr d"
  by (simp add: digest_of_def ccj1_bytes_def)

lemma header_exists:
  assumes "find (\<lambda>m. m_name m = lk_root lk) (lk_members lk) = Some main" "m_version main \<noteq> None" "m_commit main \<noteq> None" "m_state main = None"
    "environment_emitted_order lk prec = Inr order" "map_res member_line order = Inr ls" "environment_precedence prec = Inr wp"
    "all_ints in_safe_range (unsigned (JObj (lock_document (lk_root lk) (lk_members lk))))"
  shows "\<exists>h. header_text sha lk prec = Inr h"
proof -
  obtain d where "digest_of sha (JObj (lock_document (lk_root lk) (lk_members lk))) = Inr d" using digest_exists [OF assms(8)] by blast
  then show ?thesis
    using assms(1-7) by (cases wp) (auto simp: header_text_def environment_member_pin_def present_text_def split: option.splits)
qed

lemma sample_order:
  "environment_emitted_order (ec_lock (sample_case s e)) (ec_precedence (sample_case s e)) =
     Inr [context_member ''c'' 1 [''b''], context_member ''b'' 5 [''a''], context_member ''a'' 5 []]"
proof -
  have "environment_emitted_order (ec_lock (sample_case [] [])) (ec_precedence (sample_case [] [])) =
     Inr [context_member ''c'' 1 [''b''], context_member ''b'' 5 [''a''], context_member ''a'' 5 []]" by code_simp
  then show ?thesis by (simp add: sample_case_def)
qed

lemma sample_header: "\<exists>h. header_text sha (ec_lock (sample_case s e)) (ec_precedence (sample_case s e)) = Inr h"
proof (rule header_exists [where main = "context_member ''a'' 5 []", OF _ _ _ _ sample_order])
  show "map_res member_line [context_member ''c'' 1 [''b''], context_member ''b'' 5 [''a''], context_member ''a'' 5 []] =
      Inr (map (\<lambda>m. ''member: '' @ m_name m @ '' '' @ ''1.0.0'' @ '' '' @ ''commit c'' @ '' weight '' @ int_text (m_weight m))
        [context_member ''c'' 1 [''b''], context_member ''b'' 5 [''a''], context_member ''a'' 5 []])"
    by (simp add: member_line_def context_member_def present_text_def environment_member_pin_def)
  show "environment_precedence (ec_precedence (sample_case s e)) = Inr (''higher-weight'', ''winner-last'')"
    using sample_policy_ok by (simp add: sample_case_def)
qed (simp_all add: sample_case_def context_member_def lock_document_def member_document_def unsigned_def SAFE_INTEGER_def)

lemma sample_rendering:
  "\<exists>r. fold_res (render_member (sample_case s ''opencode'') ''referenced'')
      [context_member ''c'' 1 [''b''], context_member ''b'' 5 [''a''], context_member ''a'' 5 []] (start h) = Inr r"
  by (simp add: render_member_def package_of_def sample_case_def context_member_def sample_package_def sample_module_def
      environment_applicable_def selected_for_def render_module_def module_text_def as_text_def Let_def)

lemma update_some: "AList.update k v xs \<noteq> []"
  by (cases xs) auto

lemma finish_exists:
  assumes "map_of ENVIRONMENT_ROOT_TARGETS (ec_environment c) \<noteq> None"
  shows "\<exists>fs. finish_files c form h r = Inr fs \<and> fs \<noteq> []"
proof -
  have "\<exists>bs. ccj1_bytes (JObj [(''instructions'', JArr (map JStr ks))]) = Inr bs" for ks
    by (simp add: ccj1_bytes_def unsigned_def list_all_iff)
  then obtain bs where "ccj1_bytes (JObj [(''instructions'', JArr (map JStr (rd_instructions r)))]) = Inr bs" by blast
  then show ?thesis using assms update_some by (auto simp: finish_files_def present_text_def)
qed

lemma sample_opencode:
  "\<exists>fs. environment_case_files sha (sample_case ''root-context'' ''opencode'') = Inr fs \<and> fs \<noteq> []"
proof -
  let ?c = "sample_case ''root-context'' ''opencode''"
  obtain h where h: "header_text sha (ec_lock ?c) (ec_precedence ?c) = Inr h" using sample_header by blast
  obtain r where r: "fold_res (render_member ?c ''referenced'')
      [context_member ''c'' 1 [''b''], context_member ''b'' 5 [''a''], context_member ''a'' 5 []] (start h) = Inr r"
    using sample_rendering by blast
  have e: "check_contents ?c = Inr ()" by code_simp
  have p: "package_of ?c (lk_root (ec_lock ?c)) = Inr (sample_package ''A'')" by (simp add: package_of_def sample_case_def)
  obtain fs where f: "finish_files ?c ''referenced'' h r = Inr fs" "fs \<noteq> []"
    using finish_exists [of ?c "''referenced''" h r] by (auto simp: sample_case_def ENVIRONMENT_ROOT_TARGETS_def)
  have "ec_surface ?c = ''root-context''" "ec_form ?c = Some ''referenced''" "cp_has_context (sample_package ''A'')"
    by (simp_all add: sample_case_def sample_package_def)
  then have "environment_case_files sha ?c = Inr fs"
    by (simp add: environment_case_files_def e sample_order root_context_files_def p present_text_def rendered_files_def h r f
        del: fold_res.simps)
  with f(2) show ?thesis by blast
qed

theorem opencode_files_agree_witness:
  "\<exists>files bs. map_of files ''opencode.json'' = Some bs \<and>
     load_json bs = Inr (JObj [(''instructions'', JArr [JStr ''.agent-context/modules/c/m'', JStr ''.agent-context/modules/b/m'', JStr ''.agent-context/modules/a/m''])])"
proof -
  let ?c = "sample_case ''root-context'' ''opencode''"
  obtain fs where fs: "environment_case_files flat ?c = Inr fs" "fs \<noteq> []" using sample_opencode by blast
  have c: "ec_surface ?c = ''root-context''" "ec_environment ?c = ''opencode''" "ec_form ?c = Some ''referenced''"
    by (simp_all add: sample_case_def)
  have refs: "concat (map (references ?c) [context_member ''c'' 1 [''b''], context_member ''b'' 5 [''a''], context_member ''a'' 5 []]) =
      [''.agent-context/modules/c/m'', ''.agent-context/modules/b/m'', ''.agent-context/modules/a/m'']" by code_simp
  from opencode_files_agree [OF fs c] sample_order refs show ?thesis by (smt (verit) list.simps(8,9) sum.inject(2))
qed

text \<open>
  A module that is an LF alone passes the check of its content, and a document that ends with it ends
  with two LFs: section 5 of environments.md derives the opposite from the same check.
\<close>

lemma lone_line_feed:
  "environment_module_error (JStr [newline]) = None \<and>
   suffix [newline, newline] (join_with [newline] [header, chapter_part name version, [newline]])"
proof
  show "environment_module_error (JStr [newline]) = None" by code_simp
  have "join_with [newline] [header, chapter_part name version, [newline]] = (header @ [newline] @ chapter_part name version) @ [newline, newline]" by simp
  then show "suffix [newline, newline] (join_with [newline] [header, chapter_part name version, [newline]])"
    unfolding suffix_def by blast
qed

end
