(* ===== verification/ContentHash.thy ===== *)
theory ContentHash
  imports JsonText
begin

text \<open>
  Content hashes of a file tree (\<open>tools/validate.py\<close>, core section 8): the version 1 and
  version 2 framings, and the gate of their vectors.  A tree is a dictionary from paths to bytes.
  \<open>sha\<close>, the hexadecimal SHA-256 of bytes, is a parameter of which nothing is assumed: what
  identifies a tree is the text that is hashed.
\<close>

section \<open>Framing\<close>

definition nul :: char where
  "nul = CHR 0x00"

text \<open>\<open>n.to_bytes(k, "big")\<close>, which raises \<open>OverflowError\<close> when \<open>n\<close> does not fit.\<close>

fun be_bytes :: "nat \<Rightarrow> nat \<Rightarrow> string" where
  "be_bytes 0 n = []"
| "be_bytes (Suc k) n = be_bytes k (n div 256) @ [char_of (n mod 256)]"

definition to_bytes8 :: "nat \<Rightarrow> string res" where
  "to_bytes8 n = (if n < 2 ^ 64 then Inr (be_bytes 8 n) else Inl OverflowError)"

type_synonym tree = "(string \<times> string) list"

definition sorted_paths :: "tree \<Rightarrow> string list" where
  "sorted_paths files = sort_key utf8 (map fst files)"

definition payload_of :: "tree \<Rightarrow> string \<Rightarrow> string" where
  "payload_of files path = the (map_of files path)"

definition file_record :: "tree \<Rightarrow> string \<Rightarrow> string res" where
  "file_record files path =
     and_then (to_bytes8 (length (utf8 path))) (\<lambda>n.
     and_then (to_bytes8 (length (payload_of files path))) (\<lambda>k.
     Inr (''F'' @ n @ utf8 path @ k @ payload_of files path)))"

definition framed :: "tree \<Rightarrow> string res" where
  "framed files =
     and_then (map_res (file_record files) (sorted_paths files)) (\<lambda>rs.
     Inr (''curator-content-v2'' @ [nul] @ concat rs))"

definition environment_content_hash :: "(string \<Rightarrow> string) \<Rightarrow> tree \<Rightarrow> string res" where
  "environment_content_hash sha files = and_then (framed files) (\<lambda>bs. Inr (''sha256:'' @ sha bs))"

definition legacy_preimage :: "tree \<Rightarrow> string" where
  "legacy_preimage files = join_with [nul] (map (\<lambda>p. utf8 p @ [nul] @ payload_of files p) (sorted_paths files))"

definition content_hash_v1 :: "(string \<Rightarrow> string) \<Rightarrow> tree \<Rightarrow> string" where
  "content_hash_v1 sha files = ''sha256:'' @ sha (legacy_preimage files)"

section \<open>Frames identify trees\<close>

fun be_value :: "string \<Rightarrow> nat" where
  "be_value [] = 0"
| "be_value (c # cs) = ord_of c * 256 ^ length cs + be_value cs"

lemma be_length [simp]: "length (be_bytes k n) = k"
  by (induction k arbitrary: n) simp_all

lemma be_value_snoc: "be_value (cs @ [c]) = 256 * be_value cs + ord_of c"
  by (induction cs) (simp_all add: algebra_simps)

lemma ord_of_mod: "ord_of (char_of n) = n mod 256"
  by (simp add: ord_of_def)

lemma be_back: "n < 256 ^ k \<Longrightarrow> be_value (be_bytes k n) = n"
proof (induction k arbitrary: n)
  case (Suc k)
  then have "n div 256 < 256 ^ k" by (simp add: less_mult_imp_div_less mult.commute)
  with Suc.IH show ?case by (simp add: be_value_snoc ord_of_mod)
qed simp

lemma be_inj: "n < 2 ^ 64 \<Longrightarrow> m < 2 ^ 64 \<Longrightarrow> be_bytes 8 n = be_bytes 8 m \<Longrightarrow> n = m"
proof -
  assume n: "n < 2 ^ 64" "m < 2 ^ 64" and e: "be_bytes 8 n = be_bytes 8 m"
  have "be_value (be_bytes 8 n) = n" by (rule be_back) (use n in simp)
  moreover have "be_value (be_bytes 8 m) = m" by (rule be_back) (use n in simp)
  ultimately show "n = m" unfolding e by simp
qed

lemma utf8_inj: "utf8 s = utf8 t \<Longrightarrow> s = t"
  by (simp add: utf8_text.print_inj)

text \<open>A record is read off the front of any text in one way only.\<close>

lemma record_prefix:
  assumes "file_record f p = Inr a" "file_record g q = Inr b" "a @ xs = b @ ys"
  shows "p = q \<and> payload_of f p = payload_of g q \<and> xs = ys"
proof -
  let ?n = "\<lambda>p. length (utf8 p)" and ?k = "\<lambda>f p. length (payload_of f p)"
  have fit: "?n p < 2 ^ 64" "?n q < 2 ^ 64" "?k f p < 2 ^ 64" "?k g q < 2 ^ 64"
    and a: "a = ''F'' @ be_bytes 8 (?n p) @ utf8 p @ be_bytes 8 (?k f p) @ payload_of f p"
    and b: "b = ''F'' @ be_bytes 8 (?n q) @ utf8 q @ be_bytes 8 (?k g q) @ payload_of g q"
    using assms(1,2) by (auto simp: file_record_def to_bytes8_def and_then_ok_iff split: if_splits)
  from assms(3) have e: "be_bytes 8 (?n p) @ utf8 p @ be_bytes 8 (?k f p) @ payload_of f p @ xs =
      be_bytes 8 (?n q) @ utf8 q @ be_bytes 8 (?k g q) @ payload_of g q @ ys"
    by (simp add: a b)
  then have "be_bytes 8 (?n p) = be_bytes 8 (?n q)" by (rule append_eq_append_conv [THEN iffD1, THEN conjunct1, rotated]) simp
  then have n: "?n p = ?n q" using fit by (intro be_inj)
  with e have "utf8 p = utf8 q \<and> be_bytes 8 (?k f p) @ payload_of f p @ xs = be_bytes 8 (?k g q) @ payload_of g q @ ys"
    by (simp add: append_eq_append_conv)
  then have p: "p = q" and e2: "be_bytes 8 (?k f p) @ payload_of f p @ xs = be_bytes 8 (?k g q) @ payload_of g q @ ys"
    using utf8_inj by auto
  from e2 have "be_bytes 8 (?k f p) = be_bytes 8 (?k g q)" by (rule append_eq_append_conv [THEN iffD1, THEN conjunct1, rotated]) simp
  then have "?k f p = ?k g q" using fit by (intro be_inj)
  with e2 show ?thesis using p by (simp add: append_eq_append_conv)
qed

lemma records_inj:
  assumes "map_res (file_record f) ps = Inr as" "map_res (file_record g) qs = Inr bs" "concat as = concat bs"
  shows "ps = qs \<and> (\<forall>p \<in> set ps. payload_of f p = payload_of g p)"
  using assms
proof (induction ps arbitrary: qs as bs)
  case Nil
  have "b \<noteq> []" if "file_record g q = Inr b" for q b using that by (auto simp: file_record_def and_then_ok_iff)
  then show ?case using Nil by (cases qs) (auto simp: and_then_ok_iff)
next
  case (Cons p ps)
  from Cons.prems(1) obtain a as' where a: "as = a # as'" "file_record f p = Inr a" "map_res (file_record f) ps = Inr as'"
    by (auto simp: and_then_ok_iff)
  have "a \<noteq> []" using a(2) by (auto simp: file_record_def and_then_ok_iff)
  then have "qs \<noteq> []" using Cons.prems(2,3) a(1) by auto
  then obtain q qs' where qs: "qs = q # qs'" by (cases qs) auto
  with Cons.prems(2) obtain b bs' where b: "bs = b # bs'" "file_record g q = Inr b" "map_res (file_record g) qs' = Inr bs'"
    by (auto simp: and_then_ok_iff)
  have "a @ concat as' = b @ concat bs'" using Cons.prems(3) a(1) b(1) by simp
  from record_prefix [OF a(2) b(2) this] Cons.IH [OF a(3) b(3)] show ?case by (auto simp: qs)
qed

lemma sorted_paths_set [simp]: "set (sorted_paths f) = fst ` set f"
  by (simp add: sorted_paths_def)

lemma tree_eq:
  assumes "sorted_paths f = sorted_paths g" "\<forall>p \<in> set (sorted_paths f). payload_of f p = payload_of g p"
  shows "map_of f = map_of g"
proof
  fix p
  have same: "fst ` set f = fst ` set g" using arg_cong [OF assms(1), of set] by simp
  show "map_of f p = map_of g p"
  proof (cases "p \<in> fst ` set f")
    case True
    then have "map_of f p \<noteq> None" "map_of g p \<noteq> None" using same by (simp_all add: map_of_eq_None_iff)
    moreover have "p \<in> set (sorted_paths f)" using True by simp
    then have "payload_of f p = payload_of g p" using assms(2) by blast
    ultimately show ?thesis unfolding payload_of_def by auto
  next
    case False
    then show ?thesis using same by (metis map_of_eq_None_iff)
  qed
qed

lemma sorted_paths_eq:
  assumes "distinct (map fst f)" "distinct (map fst g)" "map_of f = map_of g"
  shows "sorted_paths f = sorted_paths g"
proof -
  have "set (map fst f) = set (map fst g)" using assms(3) by (metis dom_map_of_conv_image_fst list.set_map)
  then have "mset (map fst f) = mset (map fst g)" using assms(1,2) by (simp only: set_eq_iff_mset_eq_distinct)
  then show ?thesis unfolding sorted_paths_def by (rule sort_key_eq_sort_key) (auto intro: inj_onI utf8_inj)
qed

lemma framed_iff:
  assumes "distinct (map fst f)" "distinct (map fst g)" "framed f = Inr a" "framed g = Inr b"
  shows "a = b \<longleftrightarrow> map_of f = map_of g"
proof
  assume e: "a = b"
  from assms(3) obtain as where as: "map_res (file_record f) (sorted_paths f) = Inr as" "a = ''curator-content-v2'' @ [nul] @ concat as"
    by (auto simp: framed_def and_then_ok_iff)
  from assms(4) obtain bs where bs: "map_res (file_record g) (sorted_paths g) = Inr bs" "b = ''curator-content-v2'' @ [nul] @ concat bs"
    by (auto simp: framed_def and_then_ok_iff)
  have "concat as = concat bs" using e as(2) bs(2) by simp
  from records_inj [OF as(1) bs(1) this] show "map_of f = map_of g" by (elim conjE) (rule tree_eq)
next
  assume e: "map_of f = map_of g"
  have "file_record f = file_record g" by (rule ext) (simp add: file_record_def payload_of_def e)
  then have "framed f = framed g" using sorted_paths_eq [OF assms(1,2) e] by (simp add: framed_def)
  then show "a = b" using assms(3,4) by simp
qed

section \<open>The first framing\<close>

text \<open>It identifies a tree only among those whose paths and payloads have no NUL.\<close>

definition nul_free :: "tree \<Rightarrow> bool" where
  "nul_free f = list_all (\<lambda>(p, d). nul \<notin> set p \<and> nul \<notin> set d) f"

definition pieces :: "tree \<Rightarrow> string list" where
  "pieces f = concat (map (\<lambda>p. [utf8 p, payload_of f p]) (sorted_paths f))"

lemma join_pairs: "join_with s (map (\<lambda>p. a p @ s @ b p) ps) = join_with s (concat (map (\<lambda>p. [a p, b p]) ps))"
proof (induction ps)
  case (Cons p ps)
  then show ?case by (cases ps) simp_all
qed simp

lemma legacy_pieces: "legacy_preimage f = join_with [nul] (pieces f)"
  unfolding legacy_preimage_def pieces_def by (rule join_pairs)

lemma char_not_nul: "0 < n \<Longrightarrow> n < 256 \<Longrightarrow> char_of (n::nat) \<noteq> nul"
proof
  assume n: "0 < n" "n < 256" "char_of n = nul"
  have "ord_of nul = 0" by (simp add: nul_def ord_of_def)
  then show False using n ord_of_char_of [of n] by simp
qed

lemma utf8_no_nul: "nul \<notin> set p \<Longrightarrow> nul \<notin> set (utf8 p)"
proof -
  have "nul \<notin> set (utf8_char c)" if "c \<noteq> nul" for c
  proof -
    have "192 + ord_of c div 64 < 256" "128 + ord_of c mod 64 < 256" using ord_of_less [of c] by linarith+
    then have "char_of (192 + ord_of c div 64) \<noteq> nul" "char_of (128 + ord_of c mod 64) \<noteq> nul" by (intro char_not_nul; simp)+
    then show ?thesis using that by (auto simp: utf8_char_def)
  qed
  then show "nul \<notin> set p \<Longrightarrow> ?thesis" by (induction p) (auto simp: utf8_def)
qed

lemma pieces_no_nul: "nul_free f \<Longrightarrow> w \<in> set (pieces f) \<Longrightarrow> nul \<notin> set w"
proof -
  assume f: "nul_free f" and "w \<in> set (pieces f)"
  then obtain p where p: "p \<in> fst ` set f" "w = utf8 p \<or> w = payload_of f p" by (auto simp: pieces_def)
  then obtain d where d: "map_of f p = Some d" by (metis map_of_eq_None_iff not_None_eq)
  then have "(p, d) \<in> set f" by (rule map_of_SomeD)
  then have "nul \<notin> set p" "nul \<notin> set d" using f by (auto simp: nul_free_def list_all_iff)
  then show "nul \<notin> set w" using p(2) d utf8_no_nul by (auto simp: payload_of_def)
qed

lemma pieces_inj:
  "concat (map (\<lambda>p. [utf8 p, d p]) ps) = concat (map (\<lambda>p. [utf8 p, e p]) qs) \<Longrightarrow> ps = qs \<and> (\<forall>p \<in> set ps. d p = e p)"
proof (induction ps arbitrary: qs)
  case (Cons p ps)
  then show ?case by (cases qs) (auto dest: utf8_inj)
qed (auto simp: concat_eq_Nil_conv)

lemma legacy_iff:
  assumes "distinct (map fst f)" "distinct (map fst g)" "nul_free f" "nul_free g"
  shows "legacy_preimage f = legacy_preimage g \<longleftrightarrow> map_of f = map_of g"
proof
  assume e: "legacy_preimage f = legacy_preimage g"
  have split: "split_on nul (join_with [nul] (pieces h)) = pieces h" if "nul_free h" "pieces h \<noteq> []" for h
    using split_join [OF that(2)] pieces_no_nul [OF that(1)] by blast
  have one: "nul \<in> set (join_with [nul] (pieces h))" if ne: "pieces h \<noteq> []" for h
  proof -
    obtain p ps where "sorted_paths h = p # ps" using ne by (cases "sorted_paths h") (auto simp: pieces_def)
    then show ?thesis by (cases ps) (simp_all add: pieces_def)
  qed
  have "pieces f = pieces g"
  proof (cases "pieces f = []")
    case True
    then show ?thesis using e one [of g] unfolding legacy_pieces by force
  next
    case False
    then have "pieces g \<noteq> []" using e one [of f] unfolding legacy_pieces by force
    with split [OF assms(3) False] split [OF assms(4)] e show ?thesis unfolding legacy_pieces by metis
  qed
  from pieces_inj [OF this [unfolded pieces_def]] show "map_of f = map_of g" by (elim conjE) (rule tree_eq)
next
  assume e: "map_of f = map_of g"
  have "payload_of f = payload_of g" by (rule ext) (simp add: payload_of_def e)
  then show "legacy_preimage f = legacy_preimage g" using sorted_paths_eq [OF assms(1,2) e] by (simp add: legacy_preimage_def)
qed

section \<open>The vectors\<close>

definition FRAMING :: json where
  "FRAMING = JObj
     [(''domain_prefix_utf8'', JStr ''curator-content-v2''), (''domain_terminator_hex'', JStr ''00''),
      (''file_record_tag_hex'', JStr ''46''), (''path_length'', JStr ''uint64be-octets''), (''bytes_length'', JStr ''uint64be-octets'')]"

definition add_file :: "json \<Rightarrow> tree \<Rightarrow> tree res" where
  "add_file entry files =
     (case entry of
        JObj d \<Rightarrow>
          (case (jget d ''path'', jget d ''bytes_utf8'') of
             (JStr path, JStr content) \<Rightarrow>
               if path \<in> set (map fst files) then Inl (fail ''repeats path'') else Inr (files @ [(path, utf8 content)])
           | _ \<Rightarrow> Inl (fail ''malformed file entry''))
      | _ \<Rightarrow> Inl (fail ''malformed file entry''))"

definition files_for :: "json \<Rightarrow> tree res" where
  "files_for entries =
     (case entries of
        JArr es \<Rightarrow>
          and_then (fold_res add_file es []) (\<lambda>files.
          if map fst files \<noteq> sorted_paths files then Inl (fail ''paths are not in canonical UTF-8 byte order'')
          else Inr files)
      | _ \<Rightarrow> Inl (fail ''files must be a list''))"

definition is_hash :: "json \<Rightarrow> string res \<Rightarrow> string \<Rightarrow> unit res" where
  "is_hash v h message = and_then h (\<lambda>t. guard (v = JStr t) (fail message))"

definition read_collision :: "(string \<Rightarrow> string) \<Rightarrow> json \<Rightarrow> tree res" where
  "read_collision sha tree =
     (case tree of
        JObj d \<Rightarrow>
          and_then (files_for (jget d ''files'')) (\<lambda>files.
          and_then (guard (jget d ''v1_sha256'' = JStr (content_hash_v1 sha files)) (fail ''stale v1 digest'')) (\<lambda>_.
          and_then (is_hash (jget d ''v2_sha256'') (environment_content_hash sha files) ''stale v2 digest'') (\<lambda>_.
          Inr files)))
      | _ \<Rightarrow> Inl (fail ''collision tree is malformed''))"

definition check_collisions :: "(string \<Rightarrow> string) \<Rightarrow> json \<Rightarrow> unit res" where
  "check_collisions sha collisions =
     (case collisions of
        JObj d \<Rightarrow>
          (case jget d ''trees'' of
             JArr [first, second] \<Rightarrow>
               and_then (read_collision sha first) (\<lambda>f.
               and_then (read_collision sha second) (\<lambda>g.
               and_then (guard (legacy_preimage f = legacy_preimage g \<and> content_hash_v1 sha f = content_hash_v1 sha g)
                 (fail ''the documented pair does not collide under v1 framing'')) (\<lambda>_.
               and_then (environment_content_hash sha f) (\<lambda>h.
               and_then (environment_content_hash sha g) (\<lambda>k.
               require
                 [(h \<noteq> k, fail ''the colliding v1 pair aliases under v2 framing''),
                  (jget d ''v1_hashes_equal'' = JBool True \<and> jget d ''v2_hashes_differ'' = JBool True,
                   fail ''collision outcomes are not asserted'')])))))
           | _ \<Rightarrow> Inl (fail ''must carry exactly the colliding v1 pair''))
      | _ \<Rightarrow> Inl (fail ''must carry exactly the colliding v1 pair''))"

definition check_empty :: "(string \<Rightarrow> string) \<Rightarrow> json \<Rightarrow> unit res" where
  "check_empty sha v =
     (case v of
        JObj d \<Rightarrow>
          if jget d ''files'' \<noteq> JArr [] then Inl (fail ''empty-tree digest is stale'')
          else is_hash (jget d ''v2_sha256'') (environment_content_hash sha []) ''empty-tree digest is stale''
      | _ \<Rightarrow> Inl (fail ''empty-tree digest is stale''))"

definition check_ordinary :: "(string \<Rightarrow> string) \<Rightarrow> json \<Rightarrow> unit res" where
  "check_ordinary sha v =
     (case v of
        JObj d \<Rightarrow>
          and_then (files_for (jget d ''files'')) (\<lambda>files.
          and_then (guard (files \<noteq> [] \<and> jget d ''v1_sha256'' = JStr (content_hash_v1 sha files)) (fail ''ordinary v1 digest is stale'')) (\<lambda>_.
          is_hash (jget d ''v2_sha256'') (environment_content_hash sha files) ''ordinary v2 digest is stale''))
      | _ \<Rightarrow> Inl (fail ''ordinary tree is missing''))"

text \<open>Two registry records match when their framing versions and their digests are equal.\<close>

definition records_match :: "dict \<Rightarrow> dict \<Rightarrow> bool" where
  "records_match r s =
     (py_eq (jget r ''hash_version'') (jget s ''hash_version'') \<and> py_eq (jget r ''content_sha256'') (jget s ''content_sha256''))"

definition check_mismatch :: "json \<Rightarrow> unit res" where
  "check_mismatch v =
     (case v of
        JObj d \<Rightarrow>
          (case (jget d ''record'', jget d ''computed'') of
             (JObj r, JObj s) \<Rightarrow>
               require
                 [(py_eq (jget r ''hash_version'') (JInt 1) \<and> py_eq (jget s ''hash_version'') (JInt 2) \<and>
                   py_eq (jget r ''content_sha256'') (jget s ''content_sha256''),
                   fail ''registry mismatch case must isolate unequal versions with equal digest text''),
                  (jget d ''matches'' = JBool (records_match r s) \<and> \<not> records_match r s,
                   fail ''registry records must match only with an equal framing version and digest'')]
           | _ \<Rightarrow> Inl (fail ''registry mismatch identities are malformed''))
      | _ \<Rightarrow> Inl (fail ''registry mismatch case is missing''))"

definition check_nested :: "(string \<Rightarrow> string) \<Rightarrow> json \<Rightarrow> unit res" where
  "check_nested sha v =
     (case v of
        JObj d \<Rightarrow>
          (case jget d ''file'' of
             JObj file \<Rightarrow>
               and_then (files_for (JArr [JObj file])) (\<lambda>files.
               let path = the_str (jget file ''path''); payload = payload_of files path in
               and_then (require
                 [(nul \<in> set payload \<and> py_eq (JInt (int (length (filter (\<lambda>c. c = CHR ''/'') path)))) (jget d ''directory_depth''),
                   fail ''nested NUL case does not place NUL data at the asserted directory depth''),
                  (jget d ''v1_reader'' = JStr ''blocking-opaque-finding'' \<and> jget d ''v2_treatment'' = JStr ''ordinary-file-byte'',
                   fail ''nested NUL case does not state the v1 reader block and v2 byte rule'')]) (\<lambda>_.
               is_hash (jget d ''v2_sha256'') (environment_content_hash sha files) ''nested NUL case has a stale v2 digest''))
           | _ \<Rightarrow> Inl (fail ''nested NUL case is missing''))
      | _ \<Rightarrow> Inl (fail ''nested NUL case is missing''))"

definition validate_content_hash_v2_vectors :: "(string \<Rightarrow> string) \<Rightarrow> dict \<Rightarrow> unit res" where
  "validate_content_hash_v2_vectors sha vector =
     and_then (require
       [(py_eq (jget vector ''schema_version'') (JInt 1), fail ''wrong schema version''),
        (py_eq (jget vector ''framing'') FRAMING, fail ''framing description is stale'')]) (\<lambda>_.
     and_then (check_collisions sha (jget vector ''colliding_v1_pair'')) (\<lambda>_.
     and_then (check_empty sha (jget vector ''empty_tree'')) (\<lambda>_.
     and_then (check_ordinary sha (jget vector ''ordinary_tree'')) (\<lambda>_.
     and_then (check_mismatch (jget vector ''registry_version_mismatch'')) (\<lambda>_.
     check_nested sha (jget vector ''nested_nul''))))))"

section \<open>What acceptance shows\<close>

lemma add_file_distinct: "add_file e files = Inr files' \<Longrightarrow> distinct (map fst files) \<Longrightarrow> distinct (map fst files')"
  by (auto simp: add_file_def split: json.splits if_splits)

lemma files_for_distinct: "files_for v = Inr files \<Longrightarrow> distinct (map fst files)"
proof -
  assume "files_for v = Inr files"
  then obtain es where "fold_res add_file es [] = Inr files"
    by (auto simp: files_for_def and_then_ok_iff split: json.splits if_splits)
  then show ?thesis by (rule fold_res_invariant) (auto intro: add_file_distinct)
qed

lemma read_collision_files: "read_collision sha v = Inr files \<Longrightarrow> \<exists>w. files_for w = Inr files"
  by (cases v) (auto simp: read_collision_def and_then_ok_iff)

lemma collisions_ok:
  assumes "check_collisions sha v = Inr ()"
  obtains u w f g where "files_for u = Inr f" "files_for w = Inr g" "legacy_preimage f = legacy_preimage g" "framed f \<noteq> framed g"
    "\<exists>a. framed f = Inr a" "\<exists>b. framed g = Inr b"
proof -
  from assms obtain x y f g h k where r: "read_collision sha x = Inr f" "read_collision sha y = Inr g"
    and l: "legacy_preimage f = legacy_preimage g"
    and e: "environment_content_hash sha f = Inr h" "environment_content_hash sha g = Inr k" "h \<noteq> k"
    by (auto simp: check_collisions_def and_then_ok_iff split: json.splits list.splits)
  have "framed f \<noteq> framed g" using e by (auto simp: environment_content_hash_def)
  moreover have "\<exists>a. framed f = Inr a" "\<exists>b. framed g = Inr b" using e by (auto simp: environment_content_hash_def and_then_ok_iff)
  ultimately show thesis using that read_collision_files [OF r(1)] read_collision_files [OF r(2)] l by blast
qed

lemma vectors_collide:
  assumes "validate_content_hash_v2_vectors sha vector = Inr ()"
  shows "\<exists>u w f g. files_for u = Inr f \<and> files_for w = Inr g \<and> legacy_preimage f = legacy_preimage g \<and>
    map_of f \<noteq> map_of g \<and> \<not> (nul_free f \<and> nul_free g)"
proof -
  have "check_collisions sha (jget vector ''colliding_v1_pair'') = Inr ()"
    using assms by (auto simp: validate_content_hash_v2_vectors_def and_then_ok_iff)
  then obtain u w f g where f: "files_for u = Inr f" "files_for w = Inr g" "legacy_preimage f = legacy_preimage g" "framed f \<noteq> framed g"
    "\<exists>a. framed f = Inr a" "\<exists>b. framed g = Inr b" by (rule collisions_ok)
  note d = files_for_distinct [OF f(1)] files_for_distinct [OF f(2)]
  have "map_of f \<noteq> map_of g" using f(4,5,6) framed_iff [OF d] by auto
  moreover have "\<not> (nul_free f \<and> nul_free g)" using legacy_iff [OF d] f(3) calculation by blast
  ultimately show ?thesis using f(1-3) by blast
qed

section \<open>Properties\<close>

text \<open>
  C13: the second framing identifies the tree.  Whenever two trees can be framed, the framed texts, of
  which the content hash is taken, are equal exactly when the trees have the same paths with the same bytes.
\<close>

theorem framing_identifies:
  assumes "distinct (map fst f)" and "distinct (map fst g)" and "framed f = Inr a" and "framed g = Inr b"
  shows "a = b \<longleftrightarrow> map_of f = map_of g"
  by (rule framed_iff [OF assms])

text \<open>
  The first framing identifies the tree only among trees without NUL in a path or a payload; there
  it does so completely.
\<close>

theorem legacy_framing_identifies:
  assumes "distinct (map fst f)" and "distinct (map fst g)" and "nul_free f" and "nul_free g"
  shows "legacy_preimage f = legacy_preimage g \<longleftrightarrow> map_of f = map_of g"
  by (rule legacy_iff [OF assms])

text \<open>
  An accepted vector demonstrates the collision.  It holds two different trees of one first
  framing, and one of them contains a NUL.
\<close>

theorem vectors_show_collision:
  assumes "validate_content_hash_v2_vectors sha vector = Inr ()"
  shows "\<exists>u w f g. files_for u = Inr f \<and> files_for w = Inr g \<and> legacy_preimage f = legacy_preimage g \<and>
    map_of f \<noteq> map_of g \<and> \<not> (nul_free f \<and> nul_free g)"
  by (rule vectors_collide [OF assms])

section \<open>Witnesses\<close>

definition one_file :: tree where
  "one_file = [(''a'', ''x'' @ [nul] @ ''b'' @ [nul] @ ''y'')]"

definition two_files :: tree where
  "two_files = [(''a'', ''x''), (''b'', ''y'')]"

definition tree_json :: "tree \<Rightarrow> json" where
  "tree_json f = JArr (map (\<lambda>(p, d). JObj [(''path'', JStr p), (''bytes_utf8'', JStr d)]) f)"

definition the_hash :: "tree \<Rightarrow> json" where
  "the_hash f = (case environment_content_hash id f of Inr h \<Rightarrow> JStr h | _ \<Rightarrow> JNull)"

definition hashed :: "tree \<Rightarrow> dict" where
  "hashed f = [(''files'', tree_json f), (''v1_sha256'', JStr (content_hash_v1 id f)), (''v2_sha256'', the_hash f)]"

definition sample_vector :: dict where
  "sample_vector =
     [(''schema_version'', JInt 1), (''framing'', FRAMING),
      (''colliding_v1_pair'', JObj [(''trees'', JArr [JObj (hashed one_file), JObj (hashed two_files)]),
         (''v1_hashes_equal'', JBool True), (''v2_hashes_differ'', JBool True)]),
      (''empty_tree'', JObj [(''files'', JArr []), (''v2_sha256'', the_hash [])]),
      (''ordinary_tree'', JObj (hashed two_files)),
      (''registry_version_mismatch'', JObj [(''record'', JObj [(''hash_version'', JInt 1), (''content_sha256'', JStr ''d'')]),
         (''computed'', JObj [(''hash_version'', JInt 2), (''content_sha256'', JStr ''d'')]), (''matches'', JBool False)]),
      (''nested_nul'', JObj [(''file'', JObj [(''path'', JStr ''a''), (''bytes_utf8'', JStr (''x'' @ [nul] @ ''b'' @ [nul] @ ''y''))]),
         (''directory_depth'', JInt 0), (''v1_reader'', JStr ''blocking-opaque-finding''), (''v2_treatment'', JStr ''ordinary-file-byte''),
         (''v2_sha256'', the_hash one_file)])]"

text \<open>Small trees can be framed.\<close>

definition small :: "tree \<Rightarrow> bool" where
  "small f = list_all (\<lambda>(p, d). length (utf8 p) < 2 ^ 64 \<and> length d < 2 ^ 64) f"

lemma small_framed: "small f \<Longrightarrow> \<exists>a. framed f = Inr a"
proof -
  assume s: "small f"
  have each: "\<exists>r. file_record f p = Inr r" if "p \<in> set (sorted_paths f)" for p
  proof -
    from that obtain d where d: "map_of f p = Some d" by (metis map_of_eq_None_iff not_None_eq sorted_paths_set)
    then have "(p, d) \<in> set f" by (rule map_of_SomeD)
    then have "length (utf8 p) < 2 ^ 64" "length d < 2 ^ 64" using s unfolding small_def list_all_iff by blast+
    then show ?thesis using d by (simp add: file_record_def to_bytes8_def payload_of_def)
  qed
  have "\<exists>rs. map_res (file_record f) ps = Inr rs" if "set ps \<subseteq> set (sorted_paths f)" for ps
    using that
  proof (induction ps)
    case (Cons p ps)
    then obtain rs where "map_res (file_record f) ps = Inr rs" by auto
    moreover have "p \<in> set (sorted_paths f)" using Cons.prems by simp
    then obtain q where "file_record f p = Inr q" using each by blast
    ultimately show ?case by simp
  qed simp
  then have "\<exists>rs. map_res (file_record f) (sorted_paths f) = Inr rs" by blast
  then show ?thesis by (auto simp: framed_def and_then_ok_iff)
qed

lemma small_hash: "small f \<Longrightarrow> environment_content_hash sha f = Inr (''sha256:'' @ sha (projr (framed f)))"
  using small_framed [of f] by (auto simp: environment_content_hash_def)

lemma sample_trees: "small one_file" "small two_files" "small []" "sorted_paths one_file = [''a'']" "sorted_paths two_files = [''a'', ''b'']"
  by (simp_all add: small_def one_file_def two_files_def sorted_paths_def utf8_def utf8_char_def ord_of_def less_list_code)

lemma sample_trees_read: "files_for (tree_json one_file) = Inr one_file" "files_for (tree_json two_files) = Inr two_files"
  by (simp_all add: files_for_def tree_json_def add_file_def one_file_def two_files_def sorted_paths_def utf8_def utf8_char_def ord_of_def nul_def)

lemma sample_differ: "projr (framed one_file) \<noteq> projr (framed two_files)"
proof -
  obtain a b where f: "framed one_file = Inr a" "framed two_files = Inr b" using small_framed sample_trees by blast
  have d: "distinct (map fst one_file)" "distinct (map fst two_files)" by (simp_all add: one_file_def two_files_def)
  have "map_of one_file ''b'' \<noteq> map_of two_files ''b''" by (simp add: one_file_def two_files_def)
  then show ?thesis using framed_iff [OF d f] f by auto
qed

lemma sample_collide: "legacy_preimage one_file = legacy_preimage two_files"
  unfolding legacy_preimage_def sample_trees
  by (simp add: payload_of_def one_file_def two_files_def utf8_def utf8_char_def ord_of_def)

lemma sample_collisions:
  "read_collision id (JObj (hashed one_file)) = Inr one_file" "read_collision id (JObj (hashed two_files)) = Inr two_files"
  by (simp_all add: read_collision_def hashed_def sample_trees_read is_hash_def the_hash_def small_hash sample_trees)

lemma sample_vector_accepted: "validate_content_hash_v2_vectors id sample_vector = Inr ()"
proof -
  have "check_collisions id (JObj [(''trees'', JArr [JObj (hashed one_file), JObj (hashed two_files)]),
      (''v1_hashes_equal'', JBool True), (''v2_hashes_differ'', JBool True)]) = Inr ()"
    by (simp add: check_collisions_def sample_collisions sample_collide content_hash_v1_def small_hash sample_trees sample_differ)
  moreover have "check_empty id (JObj [(''files'', JArr []), (''v2_sha256'', the_hash [])]) = Inr ()"
    by (simp add: check_empty_def is_hash_def the_hash_def small_hash sample_trees)
  moreover have "check_ordinary id (JObj (hashed two_files)) = Inr ()"
    by (simp add: check_ordinary_def hashed_def sample_trees_read is_hash_def the_hash_def small_hash sample_trees) (simp add: two_files_def)
  moreover have "check_nested id (JObj [(''file'', JObj [(''path'', JStr ''a''), (''bytes_utf8'', JStr (''x'' @ [nul] @ ''b'' @ [nul] @ ''y''))]),
      (''directory_depth'', JInt 0), (''v1_reader'', JStr ''blocking-opaque-finding''), (''v2_treatment'', JStr ''ordinary-file-byte''),
      (''v2_sha256'', the_hash one_file)]) = Inr ()"
  proof -
    have "files_for (JArr [JObj [(''path'', JStr ''a''), (''bytes_utf8'', JStr (''x'' @ [nul] @ ''b'' @ [nul] @ ''y''))]]) = Inr one_file"
      using sample_trees_read(1) by (simp add: tree_json_def one_file_def)
    moreover have "nul \<in> set (payload_of one_file ''a'')" by (simp add: payload_of_def one_file_def)
    ultimately show ?thesis
      by (simp add: check_nested_def Let_def is_hash_def the_hash_def small_hash sample_trees require.simps)
  qed
  moreover have "check_mismatch (JObj [(''record'', JObj [(''hash_version'', JInt 1), (''content_sha256'', JStr ''d'')]),
      (''computed'', JObj [(''hash_version'', JInt 2), (''content_sha256'', JStr ''d'')]), (''matches'', JBool False)]) = Inr ()" by code_simp
  moreover have "py_eq FRAMING FRAMING" by code_simp
  ultimately show ?thesis by (simp add: validate_content_hash_v2_vectors_def sample_vector_def require.simps)
qed

theorem vectors_show_collision_witness:
  "\<exists>f g. legacy_preimage f = legacy_preimage g \<and> map_of f \<noteq> map_of g \<and> \<not> (nul_free f \<and> nul_free g)"
  using vectors_show_collision [OF sample_vector_accepted] by blast

theorem legacy_framing_identifies_witness: "legacy_preimage two_files \<noteq> legacy_preimage [(''a'', ''x''), (''b'', ''z'')]"
proof -
  have "map_of two_files ''b'' \<noteq> map_of [(''a'', ''x''), (''b'', ''z'')] ''b''" by (simp add: two_files_def)
  then have "map_of two_files \<noteq> map_of [(''a'', ''x''), (''b'', ''z'')]" by metis
  moreover have "distinct (map fst two_files)" "nul_free two_files" by (simp_all add: two_files_def nul_free_def nul_def)
  moreover have "distinct (map fst [(''a'', ''x''), (''b'', ''z'')])" "nul_free [(''a'', ''x''), (''b'', ''z'')]" by (simp_all add: nul_free_def nul_def)
  ultimately show ?thesis using legacy_framing_identifies by blast
qed

theorem framing_identifies_witness: "\<exists>a b. framed one_file = Inr a \<and> framed two_files = Inr b \<and> a \<noteq> b"
proof -
  obtain a b where f: "framed one_file = Inr a" "framed two_files = Inr b" using small_framed sample_trees by blast
  have d: "distinct (map fst one_file)" "distinct (map fst two_files)" by (simp_all add: one_file_def two_files_def)
  have "map_of one_file ''b'' \<noteq> map_of two_files ''b''" by (simp add: one_file_def two_files_def)
  then have "map_of one_file \<noteq> map_of two_files" by metis
  then show ?thesis using framing_identifies [OF d f] f by blast
qed

end
