(* ===== verification/NativeAdmission.thy ===== *)
theory NativeAdmission
  imports CommandRoots "HOL-Library.AList"
begin

text \<open>
  The native admission proposals (\<open>tools/native_root_admission.py\<close>): the routing of the
  explicit home, the check of a candidate against what the operator observes, the
  compare-and-set update of the policy, the PATH observations of a provider, the acquisition of a
  session, and the environment of a launch.  A refused requirement is \<open>Inl (Refusal reason)\<close>.

  \<open>valid\<close> is the verdict of the third-party schema validator for a named schema.  Proposals
  and records are JSON documents; environments are dictionaries of texts.
\<close>

section \<open>Routes of the home\<close>

type_synonym env = "(string \<times> string) list"

definition home_route :: "string option \<Rightarrow> bool \<Rightarrow> bool \<Rightarrow> string option \<Rightarrow> string option res" where
  "home_route home has_pair has_policy inherited =
     (case home of
        None \<Rightarrow> and_then (demand (\<not> has_pair) ''native-home-required'') (\<lambda>_. Inr None)
      | Some h \<Rightarrow>
          and_then (demand has_policy ''native-policy-required'') (\<lambda>_.
          let config = h @ ''/config.json'' in
          and_then (demand (inherited \<in> {None, Some [], Some config}) ''native-home-conflict'') (\<lambda>_. Inr (Some config))))"

definition home_delivery :: "string option \<Rightarrow> env \<Rightarrow> env \<Rightarrow> unit res" where
  "home_delivery config planning tool =
     and_then (demand (map_of planning ''CURATOR_CONFIG'' = config) ''native-home-plan-delivery'') (\<lambda>_.
     demand (map_of tool ''CURATOR_CONFIG'' = config) ''native-home-tool-delivery'')"

definition native_route :: "bool \<Rightarrow> bool \<Rightarrow> bool \<Rightarrow> bool \<Rightarrow> string res" where
  "native_route hosted gateway has_pair identity_flags =
     and_then (demand (\<not> (hosted \<and> has_pair)) ''fragment_version_unsupported'') (\<lambda>_.
     and_then (demand (\<not> (gateway \<and> (has_pair \<or> identity_flags))) ''native_root_gateway_unsupported'') (\<lambda>_.
     Inr ''admitted-route''))"

section \<open>The provider on the admitted path\<close>

text \<open>What the three stages of a launch have in their environment, and what they select.\<close>

record 'a stages =
  at_resolve :: 'a
  at_probe :: 'a
  at_plan :: 'a

definition all_stages :: "('a \<Rightarrow> bool) \<Rightarrow> 'a stages \<Rightarrow> bool" where
  "all_stages P s = (P (at_resolve s) \<and> P (at_probe s) \<and> P (at_plan s))"

definition managed_package :: "string \<Rightarrow> env \<Rightarrow> env \<Rightarrow> string option" where
  "managed_package provider managed e =
     (if provider = ''codex'' then
        (case map_of e ''CODEX_MANAGED_PACKAGE_ROOT'' of None \<Rightarrow> None | Some r \<Rightarrow> map_of managed r)
      else None)"

definition on_path :: "string \<Rightarrow> string list \<Rightarrow> string list \<Rightarrow> string option" where
  "on_path provider executables dirs =
     map_option (\<lambda>d. d @ ''/'' @ provider) (find (\<lambda>d. d @ ''/'' @ provider \<in> set executables) dirs)"

definition selected_provider :: "string \<Rightarrow> string list \<Rightarrow> env \<Rightarrow> env \<Rightarrow> string option res" where
  "selected_provider provider executables managed e =
     (case managed_package provider managed e of
        Some p \<Rightarrow>
          if p \<in> set executables then Inr (Some p)
          else and_then (present (map_of e ''PATH'') ''PATH'') (\<lambda>path. Inr (on_path provider executables (split_on (CHR '':'') path)))
      | None \<Rightarrow> and_then (present (map_of e ''PATH'') ''PATH'') (\<lambda>path. Inr (on_path provider executables (split_on (CHR '':'') path))))"

definition provider_path_observations ::
    "string \<Rightarrow> string list \<Rightarrow> env stages \<Rightarrow> string list \<Rightarrow> env \<Rightarrow> string option stages res" where
  "provider_path_observations provider admitted envs executables managed =
     and_then (demand (all_stages (\<lambda>e. map_of e ''PATH'' = Some (join_with '':'' admitted)) envs) ''native-provider-admitted-path'') (\<lambda>_.
     and_then (demand (all_stages (\<lambda>e. map_of e ''CODEX_MANAGED_PACKAGE_ROOT'' = None) envs) ''native-provider-managed-package-root'') (\<lambda>_.
     and_then (selected_provider provider executables managed (at_resolve envs)) (\<lambda>r.
     and_then (selected_provider provider executables managed (at_probe envs)) (\<lambda>b.
     and_then (selected_provider provider executables managed (at_plan envs)) (\<lambda>p.
     Inr \<lparr>at_resolve = r, at_probe = b, at_plan = p\<rparr>)))))"

section \<open>Locations\<close>

definition locations :: "string \<Rightarrow> string \<Rightarrow> string \<Rightarrow> string \<Rightarrow> string option \<Rightarrow> (string \<times> string) list" where
  "locations home prof generation pl session =
     (let tree = home @ ''/environments/'' @ prof @ ''/commands/'' @ generation @ ''/'' @ pl;
          state = home @ ''/state/command-roots'' in
      [(''root'', tree @ ''/bin''), (''inventory'', tree @ ''/inventory.json''),
       (''receipt'', tree @ ''/bin/.curator-profile-command-root.json''), (''marker'', tree @ ''/generation.json''),
       (''selected'', state @ ''/selected/'' @ prof @ ''.json''), (''policy'', state @ ''/admission.json'')] @
      (case session of None \<Rightarrow> [] | Some s \<Rightarrow> [(''session'', state @ ''/sessions/'' @ s @ ''.json'')]))"

section \<open>The candidate\<close>

definition opt_text :: "json \<Rightarrow> string option res" where
  "opt_text v = (case v of JNull \<Rightarrow> Inr None | JStr s \<Rightarrow> Inr (Some s) | _ \<Rightarrow> Inl TypeError)"

definition PROPOSAL :: string where
  "PROPOSAL = ''native-admission-proposal.schema.json''"

definition check_authority :: "json \<Rightarrow> json \<Rightarrow> unit res" where
  "check_authority policy observed =
     and_then (demand_res (both
       [same_item policy [''manager_home''] observed [''home''], same_item policy [''uid''] observed [''uid''],
        same_item policy [''revision''] observed [''policy_revision'']]) ''candidate-policy-authority'') (\<lambda>_.
     for_each (\<lambda>name. demand_res (both
       [and_then (text_at policy [name, ''path'']) (\<lambda>p. Inr (absolute_path False p)), same_item policy [name] observed [name]])
       (''candidate-'' @ name)) [''manager'', ''launcher''])"

definition check_selected :: "json \<Rightarrow> json \<Rightarrow> json \<Rightarrow> unit res" where
  "check_selected policy selection observed =
     and_then (list_at policy [''profiles'']) (\<lambda>profiles.
     and_then (map_res (\<lambda>p. text_at p [''profile'']) profiles) (\<lambda>ns.
     and_then (demand (distinct ns) ''candidate-profile-duplicate'') (\<lambda>_.
     and_then (demand_res (any_res (\<lambda>p. both
       [same_item p [''profile''] selection [''profile''], same_item p [''lock_sha256''] selection [''binding'', ''lock_sha256'']])
       profiles) ''candidate-selected-lock'') (\<lambda>_.
     and_then (demand_res (and_then (text_at selection [''binding'', ''platform'']) (\<lambda>p. Inr (prefix ''linux-'' p))) ''candidate-native-linux'') (\<lambda>_.
     demand_res (and_then (item observed ''selected'') (\<lambda>o'. Inr (py_eq selection o'))) ''candidate-selection'')))))"

definition PIN_KEYS :: "string list" where
  "PIN_KEYS = [''request_id'', ''profile'', ''binding'', ''supervisor_instance'', ''boot_id'', ''process_domain'', ''process_started_at'']"

text \<open>The pins variant: the identifier of its session.\<close>

definition check_session :: "json \<Rightarrow> json \<Rightarrow> json \<Rightarrow> string res" where
  "check_session session selection observed =
     and_then (item session ''request'') (\<lambda>req.
     and_then (item session ''pin'') (\<lambda>pin.
     and_then (demand_res (both [same_item req [''profile''] selection [''profile''], same_item req [''binding''] selection [''binding'']])
       ''candidate-request-binding'') (\<lambda>_.
     and_then (for_each (\<lambda>k. demand_res (same_item req [k] pin [k]) (''candidate-issued-'' @ k)) PIN_KEYS) (\<lambda>_.
     and_then (demand_res (both [item_is pin [''phase''] (JStr ''active''), item_is pin [''revision''] (JInt 1)]) ''candidate-issued-phase'') (\<lambda>_.
     and_then (demand_res (same_item pin [''lease_id''] req [''request_id'']) ''candidate-session-key'') (\<lambda>_.
     and_then (demand_res (and_then (item observed ''request'') (\<lambda>o'. Inr (py_eq req o'))) ''candidate-request-authority'') (\<lambda>_.
     text_at req [''request_id''])))))))"

definition check_candidate :: "(string \<Rightarrow> json \<Rightarrow> bool) \<Rightarrow> json \<Rightarrow> json \<Rightarrow> (string \<times> string) list res" where
  "check_candidate valid case' observed =
     and_then (demand (valid PROPOSAL case') ''candidate-schema'') (\<lambda>_.
     and_then (and_then (item observed ''home'') opt_text) (\<lambda>home.
     and_then (item case' ''policy'') (\<lambda>policy.
     and_then (opt_text (jget (the_dict observed) ''config'')) (\<lambda>config.
     and_then (home_route home True (policy \<noteq> JNull) config) (\<lambda>_.
     and_then (item case' ''selected'') (\<lambda>selection.
     and_then (item selection ''binding'') (\<lambda>binding.
     and_then (check_authority policy observed) (\<lambda>_.
     and_then (check_selected policy selection observed) (\<lambda>_.
     and_then (item_is case' [''variant''] (JStr ''pins'')) (\<lambda>pins.
     and_then (if pins then and_then (item case' ''session'') (\<lambda>s. and_then (check_session s selection observed) (\<lambda>i. Inr (Some i)))
       else Inr None) (\<lambda>sid.
     and_then (text_at policy [''manager_home'']) (\<lambda>h.
     and_then (text_at selection [''profile'']) (\<lambda>p.
     and_then (text_at binding [''generation'']) (\<lambda>g.
     and_then (text_at binding [''platform'']) (\<lambda>pl.
     let paths = locations h p g pl sid in
     and_then (demand (list_all (\<lambda>(_, q). bounded_path False q) paths) ''candidate-path-limit'') (\<lambda>_.
     Inr paths))))))))))))))))"

section \<open>Policy, prune and acquisition\<close>

definition as_int :: "json \<Rightarrow> int res" where
  "as_int v = (if is_int v then Inr (the_int v) else Inl TypeError)"

text \<open>\<open>current\<close> is falsy when there is no policy yet.\<close>

definition policy_update :: "(string \<Rightarrow> json \<Rightarrow> bool) \<Rightarrow> json \<Rightarrow> json \<Rightarrow> int \<Rightarrow> dict \<Rightarrow> json res" where
  "policy_update valid current proposed if_revision selected =
     and_then (demand (valid ''policy'' proposed) ''policy-update-schema'') (\<lambda>_.
     and_then (if truthy current then and_then (item current ''revision'') as_int else Inr 0) (\<lambda>revision.
     and_then (demand (if_revision = revision) ''policy-update-cas'') (\<lambda>_.
     and_then (demand_res (item_is proposed [''revision''] (JInt (revision + 1))) ''policy-update-revision'') (\<lambda>_.
     and_then (list_at proposed [''profiles'']) (\<lambda>profiles.
     and_then (for_each (\<lambda>p. demand_res (and_then (text_at p [''profile'']) (\<lambda>n.
       and_then (item p ''lock_sha256'') (\<lambda>l. Inr (py_eq (jget selected n) l)))) ''policy-update-lock'') profiles) (\<lambda>_.
     Inr proposed))))))"

definition prune_candidate :: "bool \<Rightarrow> bool \<Rightarrow> bool \<Rightarrow> string res" where
  "prune_candidate automatic operator_stopped retained =
     and_then (demand (\<not> automatic) ''prune-automatic'') (\<lambda>_.
     and_then (demand operator_stopped ''prune-attestation'') (\<lambda>_.
     and_then (demand (\<not> retained) ''prune-retained'') (\<lambda>_. Inr ''operator-prune'')))"

definition decode_acquire :: "(string \<Rightarrow> json \<Rightarrow> bool) \<Rightarrow> string \<Rightarrow> json res" where
  "decode_acquire valid raw =
     (case json_loads metadata_hooks raw of
        Inl _ \<Rightarrow> Inl (Refusal ''candidate-request-json'')
      | Inr request \<Rightarrow> and_then (demand (valid ''acquire'' request) ''candidate-acquire-schema'') (\<lambda>_. Inr request))"

definition replay_acquire :: "json \<Rightarrow> json \<Rightarrow> json res" where
  "replay_acquire saved request =
     and_then (demand_res (item_is saved [''request''] request) ''session-request-conflict'') (\<lambda>_. item saved ''pin'')"

definition spawn_recheck :: "json \<Rightarrow> json \<Rightarrow> json \<Rightarrow> unit res" where
  "spawn_recheck policy_revision selection_revision observed =
     and_then (demand_res (and_then (item observed ''policy_revision'') (\<lambda>r. Inr (py_eq policy_revision r))) ''native-spawn-policy-revision'') (\<lambda>_.
     demand_res (and_then (item observed ''selection_revision'') (\<lambda>r. Inr (py_eq selection_revision r))) ''native-spawn-selection-revision'')"

section \<open>Launch records\<close>

definition base_path_recheck :: "(string \<Rightarrow> json \<Rightarrow> bool) \<Rightarrow> json \<Rightarrow> json \<Rightarrow> json \<Rightarrow> json \<Rightarrow> json res" where
  "base_path_recheck valid rec policy pl retained =
     and_then (demand (valid ''base_path_evidence'' rec) ''native-base-path-schema'') (\<lambda>_.
     and_then (map_res (item rec) [''manager_home'', ''uid'', ''policy_revision'', ''platform'']) (\<lambda>vs.
     and_then (map_res (item policy) [''manager_home'', ''uid'', ''revision'']) (\<lambda>ws.
     and_then (demand (py_eq (JArr vs) (JArr (ws @ [pl]))) ''native-base-path-binding'') (\<lambda>_.
     and_then (demand_res (item_is rec [''retained''] retained) ''native-base-path-difference'') (\<lambda>_. Inr retained)))))"

definition unpinned_launch ::
    "(string \<Rightarrow> json \<Rightarrow> bool) \<Rightarrow> json \<Rightarrow> string \<Rightarrow> json \<Rightarrow> json \<Rightarrow> json \<Rightarrow> json \<Rightarrow> string list \<Rightarrow> json res" where
  "unpinned_launch valid rec prof binding policy_revision selection_revision evidence effective_path =
     and_then (demand (valid ''unpinned_launch'' rec) ''native-unpinned-schema'') (\<lambda>_.
     and_then (demand_res (item_is rec [''command_root''] binding) ''native-unpinned-binding'') (\<lambda>_.
     and_then (item rec ''prior_state'') (\<lambda>prior.
     and_then (item prior ''binding'') (\<lambda>pb.
     and_then (text_at binding [''lock_sha256'']) (\<lambda>l.
     and_then (text_at binding [''plan_sha256'']) (\<lambda>pl.
     and_then (item binding ''generation'') (\<lambda>g.
     and_then (demand (py_eq pb (JObj [(''profile'', JStr prof), (''lock_sha256'', JStr (''sha256:'' @ l)),
       (''plan_sha256'', JStr (''sha256:'' @ pl)), (''generation'', g)])) ''native-unpinned-prior'') (\<lambda>_.
     and_then (demand_res (both [item_is rec [''policy_revision''] policy_revision, item_is rec [''selection_revision''] selection_revision,
       item_is rec [''base_path_sha256''] evidence]) ''native-unpinned-observation'') (\<lambda>_.
     and_then (demand_res (both
       [item_is rec [''effective_path''] (JArr (map JStr effective_path)), item_is rec [''path_value''] (JStr (join_with '':'' effective_path)),
        item_is prior [''path''] (JArr (map JStr effective_path)), same_item prior [''path_value''] rec [''path_value'']])
       ''native-unpinned-path'') (\<lambda>_.
     Inr rec))))))))))"

definition SESSION_KEYS :: "string list" where
  "SESSION_KEYS = [''A2A_SESSION_ID'', ''CODEX_THREAD_ID'', ''CLAUDE_CODE_SESSION_ID'']"

definition REGISTRATION_KEYS :: "string list" where
  "REGISTRATION_KEYS = [''A2A_MATRIX_URL'', ''A2A_MATRIX_SERVER_NAME'', ''A2A_SECRET_STORE'', ''A2A_MATRIX_REGISTRATION_TOKEN'']"

definition without :: "string list \<Rightarrow> env \<Rightarrow> env" where
  "without ks e = filter (\<lambda>(k, _). k \<notin> set ks) e"

definition identity_environment :: "string option \<Rightarrow> string option \<Rightarrow> env \<Rightarrow> env res" where
  "identity_environment identity directory inherited =
     (case (identity, directory) of
        (None, None) \<Rightarrow> Inr (without SESSION_KEYS inherited)
      | (Some i, Some d) \<Rightarrow>
          and_then (demand (i \<noteq> []) ''native-identity-pair'') (\<lambda>_.
          and_then (demand (absolute_path False d) ''native-identity-directory'') (\<lambda>_.
          and_then (for_each (\<lambda>(k, v). demand (map_of inherited k \<in> {None, Some [], Some v}) ''native-identity-conflict'')
            [(''A2A_AGENT'', i), (''A2A_CONFIG_DIR'', d)]) (\<lambda>_.
          Inr (AList.update ''A2A_CONFIG_DIR'' d (AList.update ''A2A_AGENT'' i
            (without REGISTRATION_KEYS (without SESSION_KEYS inherited)))))))
      | _ \<Rightarrow> Inl (Refusal ''native-identity-pair''))"

definition a2a_published_name :: "string \<Rightarrow> unit res" where
  "a2a_published_name name = demand (prefix ''a2a'' name) ''native-a2a-published-prefix''"

definition a2a_upgrade_observation :: "json \<Rightarrow> json \<Rightarrow> json \<Rightarrow> json res" where
  "a2a_upgrade_observation selected_image hook_image consumer_image =
     and_then (demand (py_eq hook_image selected_image \<and> py_eq consumer_image selected_image) ''native-a2a-upgrade-image'') (\<lambda>_.
     Inr consumer_image)"

section \<open>Facts about the operations\<close>

lemma selected_plain:
  assumes "map_of e ''CODEX_MANAGED_PACKAGE_ROOT'' = None" "map_of e ''PATH'' = Some path"
  shows "selected_provider provider executables managed e = Inr (on_path provider executables (split_on (CHR '':'') path))"
  using assms by (simp add: selected_provider_def managed_package_def present_def)

lemma observations_same:
  assumes "provider_path_observations provider admitted envs executables managed = Inr s"
  shows "s = \<lparr>at_resolve = on_path provider executables (split_on (CHR '':'') (join_with '':'' admitted)),
      at_probe = on_path provider executables (split_on (CHR '':'') (join_with '':'' admitted)),
      at_plan = on_path provider executables (split_on (CHR '':'') (join_with '':'' admitted))\<rparr>"
proof -
  from assms have p: "all_stages (\<lambda>e. map_of e ''PATH'' = Some (join_with '':'' admitted)) envs"
    "all_stages (\<lambda>e. map_of e ''CODEX_MANAGED_PACKAGE_ROOT'' = None) envs"
    unfolding provider_path_observations_def and_then_ok_iff guard_ok_iff by blast+
  from assms obtain r b q where s: "selected_provider provider executables managed (at_resolve envs) = Inr r"
    "selected_provider provider executables managed (at_probe envs) = Inr b"
    "selected_provider provider executables managed (at_plan envs) = Inr q" "s = \<lparr>at_resolve = r, at_probe = b, at_plan = q\<rparr>"
    unfolding provider_path_observations_def by (auto simp: and_then_ok_iff)
  show ?thesis using p s selected_plain unfolding all_stages_def by (metis sum.inject(2))
qed

lemma without_lookup: "map_of (without ks e) k = (if k \<in> set ks then None else map_of e k)"
  by (induction e) (auto simp: without_def)

lemma identity_lookup:
  assumes "identity_environment identity directory inherited = Inr e"
  shows "map_of e k =
    (if k \<in> set SESSION_KEYS then None
     else if identity = None then map_of inherited k
     else if k = ''A2A_AGENT'' then identity
     else if k = ''A2A_CONFIG_DIR'' then directory
     else if k \<in> set REGISTRATION_KEYS then None else map_of inherited k)"
proof -
  consider "identity = None" "directory = None" "e = without SESSION_KEYS inherited"
    | i d where "identity = Some i" "directory = Some d"
        "e = AList.update ''A2A_CONFIG_DIR'' d (AList.update ''A2A_AGENT'' i (without REGISTRATION_KEYS (without SESSION_KEYS inherited)))"
    using assms by (auto simp: identity_environment_def and_then_ok_iff split: option.splits)
  then show ?thesis
  proof cases
    case 2
    then show ?thesis by (auto simp: update_conv' without_lookup SESSION_KEYS_def)
  qed (simp add: without_lookup)
qed

text \<open>The revision of the policy in force.\<close>

definition revision_of :: "json \<Rightarrow> int" where
  "revision_of current = (if truthy current then the_int (jget (the_dict current) ''revision'') else 0)"

lemma int_eq_iff: "py_eq v (JInt i) \<longleftrightarrow> is_int v \<and> the_int v = i"
  by (cases v) auto

lemma demanded: "and_then (and_then c (\<lambda>b. guard b e)) f = Inr x \<longleftrightarrow> c = Inr True \<and> f () = Inr x"
  "and_then c (\<lambda>b. guard b e) = Inr u \<longleftrightarrow> c = Inr True"
  by (cases c; auto simp: guard_def)+

lemma update_ok:
  assumes "policy_update valid current proposed r selected = Inr after"
  shows "after = proposed \<and> r = revision_of current \<and> revision_of proposed = r + 1 \<and>
    (\<forall>p \<in> set (the_list (jget (the_dict proposed) ''profiles'')).
       \<exists>n. text_at p [''profile''] = Inr n \<and> py_eq (jget selected n) (jget (the_dict p) ''lock_sha256''))"
proof -
  have cur: "r = revision_of current"
  proof (cases "truthy current")
    case True
    from assms True obtain v where "item current ''revision'' = Inr v" "as_int v = Inr r"
      by (auto simp: policy_update_def and_then_ok_iff)
    then show ?thesis using True
      by (auto simp: item_ok_iff as_int_def revision_of_def jget_def split: if_splits)
  next
    case False
    then show ?thesis using assms by (auto simp: policy_update_def revision_of_def and_then_ok_iff)
  qed
  from assms obtain profiles where p: "item_is proposed [''revision''] (JInt (revision_of current + 1)) = Inr True" "list_at proposed [''profiles''] = Inr profiles"
    and each: "\<forall>p \<in> set profiles. and_then (text_at p [''profile'']) (\<lambda>n.
       and_then (item p ''lock_sha256'') (\<lambda>l. Inr (py_eq (jget selected n) l))) = Inr True" and n: "after = proposed"
    unfolding policy_update_def cur by (auto simp: and_then_ok_iff [of "if truthy current then _ else _"] and_then_ok_iff [of "guard _ _"]
      and_then_ok_iff [of "list_at _ _"] and_then_ok_iff [of "for_each _ _"] for_each_ok_iff demanded)
  from p(1) obtain d v where d: "proposed = JObj d" "map_of d ''revision'' = Some v" "py_eq v (JInt (r + 1))"
    by (auto simp: item_is_ok_iff and_then_ok_iff item_ok_iff cur)
  then have "truthy proposed" by (cases d) auto
  then have rev: "revision_of proposed = r + 1" using d by (simp add: revision_of_def jget_def int_eq_iff)
  have profiles: "profiles = the_list (jget (the_dict proposed) ''profiles'')"
    using p(2) d(1) by (auto simp: list_at_ok_iff and_then_ok_iff item_ok_iff jget_def)
  have "\<exists>n. text_at p [''profile''] = Inr n \<and> py_eq (jget selected n) (jget (the_dict p) ''lock_sha256'')" if "p \<in> set profiles" for p
    using each that by (fastforce simp: and_then_ok_iff item_ok_iff jget_def)
  then show ?thesis using n cur rev profiles by blast
qed

text \<open>A history of attempts: a refused one changes nothing.\<close>

type_synonym attempt = "json \<times> int \<times> dict"

fun attempts :: "(string \<Rightarrow> json \<Rightarrow> bool) \<Rightarrow> attempt list \<Rightarrow> json \<Rightarrow> json \<times> attempt list" where
  "attempts valid [] current = (current, [])"
| "attempts valid ((proposed, r, selected) # rest) current =
     (case policy_update valid current proposed r selected of
        Inl _ \<Rightarrow> attempts valid rest current
      | Inr after \<Rightarrow> (case attempts valid rest after of (final, done') \<Rightarrow> (final, (proposed, r, selected) # done')))"

lemma attempts_serial:
  "attempts valid ts current = (final, oks) \<Longrightarrow>
    revision_of final = revision_of current + int (length oks) \<and>
    (\<forall>i < length oks. fst (snd (oks ! i)) = revision_of current + int i) \<and>
    final = (if oks = [] then current else fst (last oks))"
proof (induction ts arbitrary: current final oks)
  case (Cons a ts)
  obtain proposed r selected where a: "a = (proposed, r, selected)" by (cases a) auto
  show ?case
  proof (cases "policy_update valid current proposed r selected")
    case (Inl e)
    then show ?thesis using Cons by (simp add: a)
  next
    case (Inr after)
    obtain f oks' where rest: "attempts valid ts after = (f, oks')" by (cases "attempts valid ts after") auto
    have fin: "final = f" "oks = (proposed, r, selected) # oks'" using Cons.prems rest Inr by (simp_all add: a)
    note up = update_ok [OF Inr]
    from Cons.IH [OF rest] up fin show ?thesis by (auto simp: nth_Cons split: nat.split)
  qed
qed simp

text \<open>The paths of a candidate are different files below its home.\<close>

lemma locations_below: "(k, q) \<in> set (locations h p g pl s) \<Longrightarrow> prefix (h @ ''/'') q"
  by (cases s) (auto simp: locations_def Let_def prefix_def)

lemma locations_distinct: "distinct (map snd (locations h p g pl s))"
  by (cases s) (simp_all add: locations_def Let_def)

lemma locations_session: "''session'' \<in> fst ` set (locations h p g pl s) \<longleftrightarrow> s \<noteq> None"
  by (cases s) (simp_all add: locations_def Let_def)

lemma candidate_parts:
  assumes "check_candidate valid case' observed = Inr paths"
  obtains policy selection u v pins sid h p g pl where "item case' ''policy'' = Inr policy" "item case' ''selected'' = Inr selection"
    "check_authority policy observed = Inr u" "check_selected policy selection observed = Inr v"
    "item_is case' [''variant''] (JStr ''pins'') = Inr pins"
    "(if pins then and_then (item case' ''session'') (\<lambda>s. and_then (check_session s selection observed) (\<lambda>i. Inr (Some i))) else Inr None) = Inr sid"
    "text_at policy [''manager_home''] = Inr h" "locations h p g pl sid = paths" "list_all (\<lambda>(_, q). bounded_path False q) (locations h p g pl sid)"
  using assms unfolding check_candidate_def Let_def and_then_ok_iff guard_ok_iff sum.inject
  by (elim exE conjE) (rule that; assumption)

lemma candidate_home:
  assumes "check_authority policy observed = Inr ()" "text_at policy [''manager_home''] = Inr h"
  shows "item observed ''home'' = Inr (JStr h)"
proof -
  have "same_item policy [''manager_home''] observed [''home''] = Inr True"
    using assms(1) by (simp add: check_authority_def demanded both_ok_iff del: both.simps)
  then show ?thesis using assms(2) by (auto simp: same_item_def and_then_ok_iff text_at_ok_iff)
qed

lemma selected_lock:
  assumes "check_selected policy selection observed = Inr ()"
  shows "\<exists>p \<in> set (the_list (jget (the_dict policy) ''profiles'')). same_item p [''profile''] selection [''profile''] = Inr True \<and>
    same_item p [''lock_sha256''] selection [''binding'', ''lock_sha256''] = Inr True"
proof -
  from assms obtain profiles where p: "list_at policy [''profiles''] = Inr profiles"
    and a: "any_res (\<lambda>p. both [same_item p [''profile''] selection [''profile''],
       same_item p [''lock_sha256''] selection [''binding'', ''lock_sha256'']]) profiles = Inr True"
    unfolding check_selected_def and_then_ok_iff [of "list_at _ _"] and_then_ok_iff [of "map_res _ _"] and_then_ok_iff [of "guard _ _"] demanded
    by blast
  have "profiles = the_list (jget (the_dict policy) ''profiles'')"
    using p by (auto simp: list_at_ok_iff and_then_ok_iff item_ok_iff jget_def)
  with any_ok [OF a] show ?thesis unfolding both_ok_iff by auto
qed

text \<open>What makes a session the one that was asked for: pin and request agree.\<close>

definition issued_for :: "json \<Rightarrow> json \<Rightarrow> json \<Rightarrow> bool" where
  "issued_for session selection observed \<longleftrightarrow>
     (\<exists>req pin. item session ''request'' = Inr req \<and> item session ''pin'' = Inr pin \<and>
        (\<forall>k \<in> set PIN_KEYS. same_item req [k] pin [k] = Inr True) \<and>
        same_item pin [''lease_id''] req [''request_id''] = Inr True \<and>
        same_item req [''binding''] selection [''binding''] = Inr True \<and>
        item_is pin [''phase''] (JStr ''active'') = Inr True \<and>
        (\<exists>o'. item observed ''request'' = Inr o' \<and> py_eq req o'))"

lemma session_issued:
  assumes "check_session session selection observed = Inr i"
  shows "issued_for session selection observed"
proof -
  from assms obtain req pin where p: "item session ''request'' = Inr req" "item session ''pin'' = Inr pin"
    unfolding check_session_def and_then_ok_iff [of "item _ _"] by blast
  have "both [same_item req [''profile''] selection [''profile''], same_item req [''binding''] selection [''binding'']] = Inr True"
    "for_each (\<lambda>k. demand_res (same_item req [k] pin [k]) (''candidate-issued-'' @ k)) PIN_KEYS = Inr ()"
    "both [item_is pin [''phase''] (JStr ''active''), item_is pin [''revision''] (JInt 1)] = Inr True"
    "same_item pin [''lease_id''] req [''request_id''] = Inr True"
    "and_then (item observed ''request'') (\<lambda>o'. Inr (py_eq req o')) = Inr True"
    using assms by (simp_all add: check_session_def p demanded and_then_ok_iff [of "for_each _ _"] del: both.simps)
  then show ?thesis
    unfolding issued_for_def both_ok_iff for_each_ok_iff demanded using p by (auto simp: and_then_ok_iff)
qed

section \<open>Properties\<close>

text \<open>
  An accepted candidate names different files below the observed home, each within the path
  limits; its profile is listed in the policy with the lock of its binding; and it names a session file
  exactly in the pins variant, and then the session is the one issued for the observed request.
\<close>

theorem candidate_sound:
  assumes "check_candidate valid case' observed = Inr paths"
  shows "\<exists>policy selection h. item case' ''policy'' = Inr policy \<and> item case' ''selected'' = Inr selection \<and>
    item observed ''home'' = Inr (JStr h) \<and> distinct (map snd paths) \<and>
    (\<forall>(k, q) \<in> set paths. prefix (h @ ''/'') q \<and> bounded_path False q) \<and>
    (\<exists>p \<in> set (the_list (jget (the_dict policy) ''profiles'')).
       same_item p [''profile''] selection [''profile''] = Inr True \<and> same_item p [''lock_sha256''] selection [''binding'', ''lock_sha256''] = Inr True) \<and>
    (''session'' \<in> fst ` set paths \<longleftrightarrow> item_is case' [''variant''] (JStr ''pins'') = Inr True) \<and>
    (''session'' \<in> fst ` set paths \<longrightarrow> (\<exists>s. item case' ''session'' = Inr s \<and> issued_for s selection observed))"
proof -
  obtain policy selection u v pins sid h p g pl where c: "item case' ''policy'' = Inr policy" "item case' ''selected'' = Inr selection"
    "check_authority policy observed = Inr u" "check_selected policy selection observed = Inr v"
    "item_is case' [''variant''] (JStr ''pins'') = Inr pins"
    "(if pins then and_then (item case' ''session'') (\<lambda>s. and_then (check_session s selection observed) (\<lambda>i. Inr (Some i))) else Inr None) = Inr sid"
    "text_at policy [''manager_home''] = Inr h" "locations h p g pl sid = paths" "list_all (\<lambda>(_, q). bounded_path False q) (locations h p g pl sid)"
    using candidate_parts [OF assms] .
  have home: "item observed ''home'' = Inr (JStr h)" using candidate_home c(3,7) by simp
  have sess: "''session'' \<in> fst ` set paths \<longleftrightarrow> pins" "pins \<longrightarrow> (\<exists>s. item case' ''session'' = Inr s \<and> issued_for s selection observed)"
    using c(6) session_issued locations_session [of h p g pl sid] unfolding c(8) by (auto simp: and_then_ok_iff split: if_splits)
  have lock: "\<exists>p \<in> set (the_list (jget (the_dict policy) ''profiles'')). same_item p [''profile''] selection [''profile''] = Inr True \<and>
      same_item p [''lock_sha256''] selection [''binding'', ''lock_sha256''] = Inr True"
    by (rule selected_lock) (use c(4) in simp)
  have paths: "distinct (map snd paths)" "\<forall>(k, q) \<in> set paths. prefix (h @ ''/'') q \<and> bounded_path False q"
    using locations_distinct [of h p g pl sid] locations_below [of _ _ h p g pl sid] c(9) unfolding c(8) by (auto simp: list_all_iff)
  have "''session'' \<in> fst ` set paths \<longleftrightarrow> item_is case' [''variant''] (JStr ''pins'') = Inr True" using sess(1) c(5) by simp
  then show ?thesis using c(1,2) home sess lock paths by blast
qed

text \<open>
  Policy updates lose nothing.  Whatever attempts are made on the policy, the revision in force is the
  number of accepted ones, each accepted attempt was made against the revision the one before it left,
  and the policy in force is the last accepted proposal.
\<close>

theorem policy_updates_serial:
  assumes "attempts valid ts JNull = (final, oks)"
  shows "revision_of final = int (length oks) \<and> (\<forall>i < length oks. fst (snd (oks ! i)) = int i) \<and>
    final = (if oks = [] then JNull else fst (last oks))"
proof -
  have zero: "revision_of JNull = 0" by (simp add: revision_of_def)
  show ?thesis using attempts_serial [OF assms] unfolding zero add_0 .
qed

text \<open>
  Resolving, probing and planning select the same provider: the first executable of that name on the
  admitted path.
\<close>

theorem provider_stages_agree:
  assumes "provider_path_observations provider admitted envs executables managed = Inr s"
    and "admitted \<noteq> []" and "list_all (\<lambda>d. CHR '':'' \<notin> set d) admitted"
  shows "all_stages (\<lambda>r. r = map_option (\<lambda>d. d @ ''/'' @ provider) (find (\<lambda>d. d @ ''/'' @ provider \<in> set executables) admitted)) s"
proof -
  have "split_on (CHR '':'') (join_with '':'' admitted) = admitted" using assms(2,3) by (intro split_join) (auto simp: list_all_iff)
  with observations_same [OF assms(1)] show ?thesis by (simp add: all_stages_def on_path_def)
qed

text \<open>
  The environment of a launch, key by key.  The parent's session keys never pass; without an identity
  everything else does; with one, the identity and its directory are set, the registration keys do not
  pass, and everything else does.
\<close>

theorem identity_environment_exact:
  assumes "identity_environment identity directory inherited = Inr e"
  shows "map_of e k =
    (if k \<in> set SESSION_KEYS then None
     else if identity = None then map_of inherited k
     else if k = ''A2A_AGENT'' then identity
     else if k = ''A2A_CONFIG_DIR'' then directory
     else if k \<in> set REGISTRATION_KEYS then None else map_of inherited k)"
  by (rule identity_lookup [OF assms])

section \<open>Witnesses\<close>

definition sample_binding :: json where
  "sample_binding = JObj [(''lock_sha256'', JStr ''l''), (''generation'', JStr ''g''), (''platform'', JStr ''linux-amd64'')]"

definition sample_selected :: json where
  "sample_selected = JObj [(''profile'', JStr ''work''), (''binding'', sample_binding)]"

definition sample_tool :: "string \<Rightarrow> json" where
  "sample_tool n = JObj [(''path'', JStr (''/opt/'' @ n))]"

definition sample_request :: json where
  "sample_request = JObj [(''request_id'', JStr ''r1''), (''profile'', JStr ''work''), (''binding'', sample_binding),
     (''supervisor_instance'', JStr ''i''), (''boot_id'', JStr ''b''), (''process_domain'', JStr ''d''), (''process_started_at'', JInt 7)]"

definition sample_proposal :: json where
  "sample_proposal = JObj
     [(''variant'', JStr ''pins''),
      (''policy'', JObj [(''manager_home'', JStr ''/h''), (''uid'', JInt 1000), (''revision'', JInt 1),
         (''manager'', sample_tool ''manager''), (''launcher'', sample_tool ''launcher''),
         (''profiles'', JArr [JObj [(''profile'', JStr ''work''), (''lock_sha256'', JStr ''l'')]])]),
      (''selected'', sample_selected),
      (''session'', JObj [(''request'', sample_request),
         (''pin'', JObj (the_dict sample_request @ [(''phase'', JStr ''active''), (''revision'', JInt 1), (''lease_id'', JStr ''r1'')]))])]"

definition sample_observed :: json where
  "sample_observed = JObj
     [(''home'', JStr ''/h''), (''uid'', JInt 1000), (''policy_revision'', JInt 1), (''selected'', sample_selected),
      (''manager'', sample_tool ''manager''), (''launcher'', sample_tool ''launcher''), (''request'', sample_request)]"

theorem candidate_sound_witness:
  "\<exists>paths s. check_candidate any_valid sample_proposal sample_observed = Inr paths \<and> distinct (map snd paths) \<and>
     item sample_proposal ''session'' = Inr s \<and> issued_for s sample_selected sample_observed"
proof -
  have run: "check_candidate any_valid sample_proposal sample_observed = Inr (locations ''/h'' ''work'' ''g'' ''linux-amd64'' (Some ''r1''))"
    by code_simp
  have "item sample_proposal ''selected'' = Inr sample_selected" by (simp add: item_def sample_proposal_def)
  with candidate_sound [OF run] run show ?thesis
    by (auto simp: locations_def Let_def)
qed

definition sample_policy_at :: "int \<Rightarrow> json" where
  "sample_policy_at r = JObj [(''revision'', JInt r), (''profiles'', JArr [])]"

theorem policy_updates_serial_witness:
  "\<exists>final oks. attempts any_valid [(sample_policy_at 1, 0, []), (sample_policy_at 1, 0, []), (sample_policy_at 2, 1, [])] JNull = (final, oks) \<and>
     revision_of final = 2 \<and> length oks = 2"
proof -
  have run: "attempts any_valid [(sample_policy_at 1, 0, []), (sample_policy_at 1, 0, []), (sample_policy_at 2, 1, [])] JNull =
      (sample_policy_at 2, [(sample_policy_at 1, 0, []), (sample_policy_at 2, 1, [])])" by code_simp
  from policy_updates_serial [OF run] run show ?thesis by simp
qed

theorem provider_stages_agree_witness:
  "\<exists>s. provider_path_observations ''codex'' [''/a'', ''/b'']
     \<lparr>at_resolve = [(''PATH'', ''/a:/b'')], at_probe = [(''PATH'', ''/a:/b'')], at_plan = [(''PATH'', ''/a:/b'')]\<rparr> [''/b/codex''] [] = Inr s \<and>
     at_plan s = Some ''/b/codex''"
proof -
  let ?e = "\<lparr>at_resolve = [(''PATH'', ''/a:/b'')], at_probe = [(''PATH'', ''/a:/b'')], at_plan = [(''PATH'', ''/a:/b'')]\<rparr> :: env stages"
  have run: "provider_path_observations ''codex'' [''/a'', ''/b''] ?e [''/b/codex''] [] =
      Inr \<lparr>at_resolve = Some ''/b/codex'', at_probe = Some ''/b/codex'', at_plan = Some ''/b/codex''\<rparr>" by code_simp
  have "all_stages (\<lambda>r. r = map_option (\<lambda>d. d @ ''/'' @ ''codex'') (find (\<lambda>d. d @ ''/'' @ ''codex'' \<in> set [''/b/codex'']) [''/a'', ''/b'']))
      \<lparr>at_resolve = Some ''/b/codex'', at_probe = Some ''/b/codex'', at_plan = Some ''/b/codex''\<rparr>"
    by (rule provider_stages_agree [OF run]) simp_all
  then show ?thesis using run by simp
qed

theorem identity_environment_exact_witness:
  "\<exists>e. identity_environment (Some ''agent'') (Some ''/etc/a2a'') [(''CODEX_THREAD_ID'', ''t''), (''A2A_MATRIX_URL'', ''u''), (''TERM'', ''x'')] = Inr e \<and>
     map_of e ''CODEX_THREAD_ID'' = None \<and> map_of e ''A2A_AGENT'' = Some ''agent'' \<and> map_of e ''TERM'' = Some ''x''"
proof -
  have run: "identity_environment (Some ''agent'') (Some ''/etc/a2a'') [(''CODEX_THREAD_ID'', ''t''), (''A2A_MATRIX_URL'', ''u''), (''TERM'', ''x'')] =
      Inr [(''TERM'', ''x''), (''A2A_AGENT'', ''agent''), (''A2A_CONFIG_DIR'', ''/etc/a2a'')]" by code_simp
  then show ?thesis
    using identity_environment_exact [OF run, of "''CODEX_THREAD_ID''"] identity_environment_exact [OF run, of "''A2A_AGENT''"]
      identity_environment_exact [OF run, of "''TERM''"] by (simp add: SESSION_KEYS_def REGISTRATION_KEYS_def)
qed

end
