(* ===== verification/PolicyGrant.thy ===== *)
theory PolicyGrant
  imports WorkspaceTrust WireSemantics
begin

text \<open>
  The policy-grant oracle (\<open>tools/workspace_policy_grant.py\<close>): the canonical spelling of a
  remote, the checks of a stored grant, the decision whether a grant admits a launch, and the
  revocation of a policy entry.

  Parameters: \<open>valid\<close>, the verdict of the third-party schema validator on a grant record;
  \<open>clock\<close>, \<open>datetime.fromisoformat\<close>, as the instant of a text (\<open>None\<close> where it raises;
  comparing instants with and without offsets is not modelled, the schema requires offsets); and
  \<open>sha\<close>, the hexadecimal SHA-256 of bytes.  Records and facts are JSON documents.
\<close>

section \<open>Remotes and instants\<close>

definition timestamp :: "(string \<Rightarrow> int option) \<Rightarrow> json \<Rightarrow> int res" where
  "timestamp clock v =
     and_then (as_text v) (\<lambda>s. case clock s of None \<Rightarrow> Inl (ValueError ''Invalid isoformat string'') | Some t \<Rightarrow> Inr t)"

definition bad_repository_path :: "string \<Rightarrow> bool" where
  "bad_repository_path p =
     (\<not> prefix ''/'' p \<or> list_ex (\<lambda>w. w \<in> {[], ''.'', ''..''}) (split_on (CHR ''/'') (drop 1 p)) \<or>
      list_ex (\<lambda>c. c \<in> {CHR ''%'', CHR ''?'', CHR ''#'', backslash}) p \<or> list_ex (\<lambda>c. is_space c \<or> ord_of c < 32) p)"

text \<open>A port is an integer; \<open>None\<close> for a path that has no canonical spelling.\<close>

definition canonical_remote :: "json \<Rightarrow> json res" where
  "canonical_remote destination =
     and_then (text_at destination [''repository_path'']) (\<lambda>p.
     if bad_repository_path p then Inr JNull
     else
       and_then (text_at destination [''transport'']) (\<lambda>transport.
       and_then (if transport = ''ssh'' then and_then (text_at destination [''user'']) (\<lambda>u. Inr (u @ ''@'')) else Inr []) (\<lambda>user.
       and_then (text_at destination [''host'']) (\<lambda>host.
       and_then (item destination ''port'') (\<lambda>port.
       case port of
         JInt n \<Rightarrow> Inr (JStr (transport @ ''://'' @ user @ host @
           (if n \<noteq> (if transport = ''ssh'' then 22 else 443) then '':'' @ int_text n else []) @ p))
       | _ \<Rightarrow> Inl TypeError)))))"

section \<open>A stored grant\<close>

definition UNREADABLE :: string where
  "UNREADABLE = ''workspace_trust_ledger_unreadable''"

definition STATUS_PATHS :: "string list list" where
  "STATUS_PATHS = [[''active''], [''active'', ''revoked''], [''active'', ''lapsed''], [''active'', ''lapsed'', ''revoked'']]"

definition remote_is :: "json \<Rightarrow> json \<Rightarrow> bool res" where
  "remote_is destination v = and_then (canonical_remote destination) (\<lambda>c. Inr (py_eq v c))"

definition bad_subject :: "json \<Rightarrow> bool res" where
  "bad_subject subject = either
     [and_then (item subject ''path'') (\<lambda>v. Inr (\<not> exact_path (case v of JStr s \<Rightarrow> Some s | _ \<Rightarrow> None))),
      negated (same_item subject [''path''] subject [''repository'', ''root'']),
      and_then (at_path subject [''repository'', ''primary_remote'']) (\<lambda>v.
        and_then (item subject ''canonical_destination'') (\<lambda>d. negated (remote_is d v))),
      and_then (text_at subject [''path'']) (\<lambda>s. Inr (length (utf8 s) > 4096))]"

definition bad_hooks :: "json \<Rightarrow> bool res" where
  "bad_hooks rec =
     and_then (list_at rec [''surfaces'', ''hooks'']) (\<lambda>hooks.
     and_then (map_res (\<lambda>h. item h ''hook_id'') hooks) (\<lambda>ids. negated (unique_values ids)))"

definition bad_states :: "(string \<Rightarrow> int option) \<Rightarrow> json \<Rightarrow> json list \<Rightarrow> int list \<Rightarrow> bool res" where
  "bad_states clock rec xs ts = either
     [and_then (map_res (\<lambda>s. item s ''status'') xs) (\<lambda>ss. Inr (ss \<notin> set (map (map JStr) STATUS_PATHS))),
      Inr (\<not> sorted ts),
      negated (same_item (hd xs) [''time''] rec [''time'']),
      negated (same_item (hd xs) [''by''] rec [''issuer'']),
      and_then (and_then (item rec ''review_by'') (timestamp clock)) (\<lambda>r.
        and_then (and_then (item rec ''time'') (timestamp clock)) (\<lambda>t. Inr (r \<le> t))),
      any_res (\<lambda>s. and_then (item s ''by'') (\<lambda>by. and_then (item s ''status'') (\<lambda>st.
        Inr ((by = JNull) \<noteq> (st = JStr ''lapsed''))))) xs]"

definition record_error :: "(json \<Rightarrow> bool) \<Rightarrow> (string \<Rightarrow> int option) \<Rightarrow> json \<Rightarrow> string option res" where
  "record_error valid clock rec = first_message
     [refuse_when (\<not> valid rec) UNREADABLE,
      and_then (item rec ''subject'') (\<lambda>subject. refuse_res (bad_subject subject) UNREADABLE),
      refuse_res (bad_hooks rec) UNREADABLE,
      and_then (list_at rec [''state_history'']) (\<lambda>history.
        and_then (item rec ''state'') (\<lambda>st.
        and_then (map_res (\<lambda>s. and_then (item s ''time'') (timestamp clock)) (history @ [st])) (\<lambda>times.
        refuse_res (bad_states clock rec (history @ [st]) times) UNREADABLE)))]"

section \<open>The decision\<close>

record grant_decision =
  dg_diagnostic :: "string option"
  dg_admitted :: bool
  dg_event :: "string option"
  dg_surfaces :: json

definition refusal :: "string \<Rightarrow> grant_decision" where
  "refusal code = \<lparr>dg_diagnostic = Some code, dg_admitted = False, dg_event = None, dg_surfaces = JNull\<rparr>"

text \<open>\<open>v[k] in w[k']\<close> for a list, and comparisons of instants.\<close>

definition item_in :: "json \<Rightarrow> string list \<Rightarrow> json \<Rightarrow> string list \<Rightarrow> bool res" where
  "item_in v ks w ks' = and_then (at_path v ks) (\<lambda>x. and_then (list_at w ks') (\<lambda>ys. Inr (py_in x ys)))"

definition instants :: "(string \<Rightarrow> int option) \<Rightarrow> (int \<Rightarrow> int \<Rightarrow> bool) \<Rightarrow> json \<Rightarrow> string list \<Rightarrow> json \<Rightarrow> string list \<Rightarrow> bool res" where
  "instants clock R v ks w ks' =
     and_then (and_then (at_path v ks) (timestamp clock)) (\<lambda>s.
     and_then (and_then (at_path w ks') (timestamp clock)) (\<lambda>t. Inr (R s t)))"

definition no_authority :: "json \<Rightarrow> json \<Rightarrow> json \<Rightarrow> bool res" where
  "no_authority rec facts issuer = either
     [and_then (item facts ''approval_source'') (\<lambda>s. and_then (in_frozenset s [''operator-command'', ''keeper-command'']) (\<lambda>b. Inr (\<not> b))),
      negated (truth_at facts [''authenticated_approval'']),
      and_then (item facts ''approved_issuer'') (\<lambda>i. Inr (\<not> py_eq i issuer)),
      and_then (text_at issuer [''actor'', ''kind'']) (\<lambda>k. negated (item_is facts [''approval_source''] (JStr (k @ ''-command''))))]"

definition policy_changed :: "(string \<Rightarrow> string) \<Rightarrow> json \<Rightarrow> json \<Rightarrow> bool res" where
  "policy_changed sha rec policy =
     and_then (item rec ''policy'') (\<lambda>bound.
     and_then (item policy ''entry_id'') (\<lambda>entry.
     and_then (digest_of sha policy) (\<lambda>digest.
     Inr (\<not> py_eq bound (JObj [(''entry_id'', entry), (''sha256'', JStr (drop 7 digest))])))))"

definition revoked_grant :: "json \<Rightarrow> json \<Rightarrow> bool res" where
  "revoked_grant rec facts = either
     [item_is rec [''state'', ''status''] (JStr ''revoked''), item_in rec [''grant_id''] facts [''revoked_ids'']]"

definition out_of_date :: "(string \<Rightarrow> int option) \<Rightarrow> json \<Rightarrow> json \<Rightarrow> json \<Rightarrow> bool res" where
  "out_of_date clock rec facts policy = either
     [item_is rec [''state'', ''status''] (JStr ''lapsed''),
      negated (same_item rec [''review_by''] policy [''review_by'']),
      instants clock (\<ge>) facts [''now''] rec [''review_by''],
      instants clock (<) rec [''time''] policy [''time''],
      instants clock (>) rec [''time''] facts [''now''],
      instants clock (>) rec [''state'', ''time''] facts [''now'']]"

definition repository_changed :: "json \<Rightarrow> json \<Rightarrow> json \<Rightarrow> json \<Rightarrow> bool res" where
  "repository_changed rec facts policy registration = either
     [negated (same_item rec [''subject'', ''checkout_id''] registration [''checkout_id'']),
      negated (same_item rec [''subject'', ''registration_sha256''] registration [''sha256'']),
      negated (same_item rec [''subject'', ''path''] registration [''path'']),
      negated (same_item rec [''identity'', ''root_identity''] registration [''root_identity'']),
      negated (same_item rec [''subject'', ''repository''] facts [''repository'']),
      negated (truth_at facts [''nofollow_identity_matches'']),
      negated (same_item rec [''subject'', ''repository'', ''root_commit''] policy [''root_commit''])]"

definition destination_mismatch :: "json \<Rightarrow> json \<Rightarrow> json \<Rightarrow> bool res" where
  "destination_mismatch rec facts policy = either
     [negated (same_item rec [''subject'', ''canonical_destination''] policy [''canonical_destination'']),
      negated (truth_at facts [''destination_verified'']), negated (truth_at facts [''ssh_pins_match'']),
      negated (truth_at facts [''command_free_routing'']),
      and_then (item facts ''remote_spelling'') (\<lambda>v. and_then (at_path rec [''subject'', ''canonical_destination'']) (\<lambda>d. negated (remote_is d v))),
      negated (item_in facts [''remote_spelling''] policy [''remote_spellings''])]"

definition out_of_lane :: "json \<Rightarrow> json \<Rightarrow> json \<Rightarrow> json \<Rightarrow> bool res" where
  "out_of_lane rec facts policy issuer = either
     [negated (same_item rec [''identity'', ''environment''] facts [''environment'']),
      negated (same_item rec [''identity'', ''lane_id''] facts [''lane_id'']),
      negated (item_in rec [''identity'', ''environment''] policy [''environments'']),
      negated (item_in rec [''identity'', ''lane_id''] policy [''lanes'']),
      negated (item_is policy [''issuer''] issuer),
      both [truth_at rec [''surfaces'', ''project_trust''], negated (truth_at policy [''project_trust''])]]"

definition hooks_differ :: "json \<Rightarrow> json \<Rightarrow> json list \<Rightarrow> json list \<Rightarrow> bool res" where
  "hooks_differ rec facts allowed given = either
     [negated (truth_at facts [''hook_state_readable'']),
      Inr (list_ex (\<lambda>h. \<not> py_in h allowed) given),
      and_then (list_at facts [''effective_hooks'']) (\<lambda>es. and_then (list_at facts [''native_hook_approvals'']) (\<lambda>ns.
        Inr (list_ex (\<lambda>h. \<not> py_in h given) (es @ ns))))]"

definition hook_check :: "json \<Rightarrow> json \<Rightarrow> json \<Rightarrow> string option res" where
  "hook_check rec facts policy =
     and_then (list_at policy [''hooks'']) (\<lambda>allowed.
     and_then (list_at rec [''surfaces'', ''hooks'']) (\<lambda>given.
     refuse_res (hooks_differ rec facts allowed given) ''workspace_trust_hook_digest''))"

definition launch_refusal ::
    "(string \<Rightarrow> int option) \<Rightarrow> (string \<Rightarrow> string) \<Rightarrow> json \<Rightarrow> json \<Rightarrow> json \<Rightarrow> json \<Rightarrow> json \<Rightarrow> string option res" where
  "launch_refusal clock sha rec facts issuer policy registration = first_message
     [refuse_when (policy = JNull \<or> registration = JNull) ''workspace_untrusted'',
      refuse_res (policy_changed sha rec policy) ''workspace_trust_policy_digest'',
      refuse_res (revoked_grant rec facts) ''workspace_trust_grant_revoked'',
      refuse_res (out_of_date clock rec facts policy) ''workspace_untrusted'',
      refuse_res (repository_changed rec facts policy registration) ''workspace_trust_repository_changed'',
      refuse_res (destination_mismatch rec facts policy) ''workspace_trust_destination_mismatch'',
      refuse_res (out_of_lane rec facts policy issuer) ''workspace_untrusted'',
      refuse_res (negated (truth_at facts [''adapter_qualified''])) ''workspace_trust_adapter_unqualified'',
      hook_check rec facts policy]"

definition grant_refusal ::
    "(json \<Rightarrow> bool) \<Rightarrow> (string \<Rightarrow> int option) \<Rightarrow> (string \<Rightarrow> string) \<Rightarrow> json \<Rightarrow> json \<Rightarrow> string option res" where
  "grant_refusal valid clock sha rec facts = first_message
     [record_error valid clock rec,
      refuse_res (negated (both (map (\<lambda>k. truth_at facts [k]) [''policy_readable'', ''ledger_readable'', ''journal_readable''])))
        UNREADABLE,
      and_then (item rec ''issuer'') (\<lambda>issuer. first_message
        [refuse_res (no_authority rec facts issuer) ''workspace_trust_policy_authority'',
         and_then (item facts ''policy'') (\<lambda>policy.
         and_then (item facts ''registration'') (\<lambda>registration.
           launch_refusal clock sha rec facts issuer policy registration))])]"

definition decision ::
    "(json \<Rightarrow> bool) \<Rightarrow> (string \<Rightarrow> int option) \<Rightarrow> (string \<Rightarrow> string) \<Rightarrow> json \<Rightarrow> json \<Rightarrow> grant_decision res" where
  "decision valid clock sha rec facts =
     and_then (grant_refusal valid clock sha rec facts) (\<lambda>e.
     case e of
       Some code \<Rightarrow> Inr (refusal code)
     | None \<Rightarrow> and_then (item rec ''surfaces'') (\<lambda>s.
         Inr \<lparr>dg_diagnostic = None, dg_admitted = True, dg_event = Some ''policy-grant'', dg_surfaces = s\<rparr>))"

section \<open>Revocation\<close>

text \<open>
  The stored grants and the journal of owned keys, as far as a revocation reads or writes them;
  \<open>gr_rest\<close> is the rest of a record.
\<close>

record grant_state =
  gs_status :: string
  gs_time :: string
  gs_reason :: string
  gs_by :: json

record grant_row =
  gr_id :: string
  gr_entry :: string
  gr_state :: grant_state
  gr_history :: "grant_state list"
  gr_rest :: dict

record journal_key =
  jk_ids :: "string list"
  jk_owned_unchanged :: bool
  jk_readable :: bool
  jk_present :: bool
  jk_pending :: bool

definition revoke_row :: "string \<Rightarrow> grant_state \<Rightarrow> grant_row \<Rightarrow> grant_row" where
  "revoke_row entry new r =
     (if gr_entry r = entry \<and> gs_status (gr_state r) \<noteq> ''revoked''
      then r\<lparr>gr_history := gr_history r @ [gr_state r], gr_state := new\<rparr> else r)"

definition clean_key :: "string list \<Rightarrow> string list \<Rightarrow> journal_key \<Rightarrow> journal_key" where
  "clean_key affected active k =
     (if \<not> list_ex (\<lambda>i. i \<in> set affected) (jk_ids k) then k
      else if list_ex (\<lambda>i. i \<in> set active) (jk_ids k) then k
      else if jk_owned_unchanged k \<and> jk_readable k then k\<lparr>jk_present := False, jk_pending := False\<rparr>
      else k\<lparr>jk_pending := True\<rparr>)"

definition revoke ::
    "grant_row list \<Rightarrow> journal_key list \<Rightarrow> string \<Rightarrow> json \<Rightarrow> string \<Rightarrow> string \<Rightarrow> grant_row list \<times> journal_key list" where
  "revoke rows journal entry issuer time why =
     (let new = \<lparr>gs_status = ''revoked'', gs_time = time, gs_reason = why, gs_by = issuer\<rparr>;
          rows' = map (revoke_row entry new) rows;
          affected = map gr_id (filter (\<lambda>r. gr_entry r = entry) rows);
          active = map gr_id (filter (\<lambda>r. gs_status (gr_state r) = ''active'') rows') in
      (rows', map (clean_key affected active) journal))"

section \<open>Facts about decisions\<close>

lemma admitted_passes:
  assumes "decision valid clock sha rec facts = Inr d" "dg_admitted d"
  shows "grant_refusal valid clock sha rec facts = Inr None \<and> item rec ''surfaces'' = Inr (dg_surfaces d) \<and>
    dg_diagnostic d = None \<and> dg_event d = Some ''policy-grant''"
  using assms by (auto simp: decision_def and_then_ok_iff refusal_def split: option.splits)

text \<open>What a grant that is not refused has passed.\<close>

lemma not_refused:
  assumes "grant_refusal valid clock sha rec facts = Inr None"
  obtains issuer policy registration where
    "record_error valid clock rec = Inr None" "item rec ''issuer'' = Inr issuer"
    "no_authority rec facts issuer = Inr False" "item facts ''policy'' = Inr policy"
    "item facts ''registration'' = Inr registration" "policy_changed sha rec policy = Inr False"
    "revoked_grant rec facts = Inr False" "out_of_date clock rec facts policy = Inr False"
    "repository_changed rec facts policy registration = Inr False"
    "destination_mismatch rec facts policy = Inr False" "out_of_lane rec facts policy issuer = Inr False"
    "hook_check rec facts policy = Inr None"
proof -
  from assms obtain issuer where error: "record_error valid clock rec = Inr None" and issuer: "item rec ''issuer'' = Inr issuer"
    and m: "first_message
        [refuse_res (no_authority rec facts issuer) ''workspace_trust_policy_authority'',
         and_then (item facts ''policy'') (\<lambda>policy.
         and_then (item facts ''registration'') (\<lambda>registration.
           launch_refusal clock sha rec facts issuer policy registration))] = Inr None"
    unfolding grant_refusal_def first_message_ok list.pred_inject and_then_ok_iff [of "item rec ''issuer''"] by blast
  from m obtain policy registration where inner: "no_authority rec facts issuer = Inr False"
      "item facts ''policy'' = Inr policy" "item facts ''registration'' = Inr registration"
    and launch: "launch_refusal clock sha rec facts issuer policy registration = Inr None"
    unfolding first_message_ok list.pred_inject and_then_ok_iff [of "item facts _"] refuse_ok_none by blast
  from launch show ?thesis
    unfolding launch_refusal_def first_message_ok list.pred_inject refuse_ok_none
    by (intro that [OF error issuer inner]) simp_all
qed

lemma item_in_ok: "item_in v ks w ks' = Inr b \<longleftrightarrow>
    (\<exists>x ys. at_path v ks = Inr x \<and> list_at w ks' = Inr ys \<and> b = py_in x ys)"
  by (auto simp: item_in_def and_then_ok_iff)

lemma timestamp_ok: "and_then (at_path v ks) (timestamp clock) = Inr s \<longleftrightarrow> (\<exists>p. text_at v ks = Inr p \<and> clock p = Some s)"
proof -
  have "timestamp clock w = Inr s \<longleftrightarrow> (\<exists>p. as_text w = Inr p \<and> clock p = Some s)" for w
    by (cases "as_text w") (auto simp: timestamp_def split: option.splits)
  then show ?thesis by (auto simp: text_at_def and_then_ok_iff)
qed

lemma instants_ok: "instants clock R v ks w ks' = Inr b \<longleftrightarrow>
    (\<exists>p q s t. text_at v ks = Inr p \<and> text_at w ks' = Inr q \<and> clock p = Some s \<and> clock q = Some t \<and> b = R s t)"
  unfolding instants_def and_then_ok_iff [of "and_then _ _"] timestamp_ok by blast

lemma state_active:
  assumes "record_error valid clock rec = Inr None" "revoked_grant rec facts = Inr False"
    and "out_of_date clock rec facts policy = Inr False"
  shows "text_at rec [''state'', ''status''] = Inr ''active''"
proof -
  from assms(1) obtain history st ts where st: "item rec ''state'' = Inr st"
    and "bad_states clock rec (history @ [st]) ts = Inr False"
    unfolding record_error_def first_message_ok list.pred_inject and_then_ok_iff [of "list_at rec _"]
      and_then_ok_iff [of "item rec ''state''"] and_then_ok_iff [of "map_res _ _"] refuse_ok_none by blast
  then obtain ss where "map_res (\<lambda>s. item s ''status'') (history @ [st]) = Inr ss"
    and paths: "ss \<in> set (map (map JStr) STATUS_PATHS)"
    unfolding bad_states_def any_none by (auto simp: and_then_ok_iff)
  from map_res_last [OF this(1)] have "item st ''status'' = Inr (last ss)" .
  moreover have "last ss \<in> {JStr ''active'', JStr ''revoked'', JStr ''lapsed''}"
    using paths by (auto simp: STATUS_PATHS_def)
  ultimately show ?thesis using assms(2,3) st
    by (auto simp: revoked_grant_def out_of_date_def any_none item_is_def and_then_ok_iff text_at_ok_iff)
qed

lemma in_time:
  assumes "out_of_date clock rec facts policy = Inr False"
  obtains n r t now review time where
    "text_at facts [''now''] = Inr n" "text_at rec [''review_by''] = Inr r" "text_at rec [''time''] = Inr t"
    "clock n = Some now" "clock r = Some review" "clock t = Some time" "time \<le> now" "now < review"
proof -
  have "instants clock (\<ge>) facts [''now''] rec [''review_by''] = Inr False" "instants clock (>) rec [''time''] facts [''now''] = Inr False"
    using assms unfolding out_of_date_def any_none by auto
  then show ?thesis by (auto simp: instants_ok not_le not_less intro: that)
qed

lemma hooks_agree:
  assumes "hook_check rec facts policy = Inr None"
  obtains allowed given effective approved where
    "list_at policy [''hooks''] = Inr allowed" "list_at rec [''surfaces'', ''hooks''] = Inr given"
    "list_at facts [''effective_hooks''] = Inr effective" "list_at facts [''native_hook_approvals''] = Inr approved"
    "\<forall>h \<in> set given. py_in h allowed" "\<forall>h \<in> set (effective @ approved). py_in h given"
proof -
  from assms obtain allowed given where "list_at policy [''hooks''] = Inr allowed" "list_at rec [''surfaces'', ''hooks''] = Inr given"
    and differ: "hooks_differ rec facts allowed given = Inr False"
    unfolding hook_check_def and_then_ok_iff [of "list_at _ _"] refuse_ok_none by blast
  moreover from differ obtain effective approved where
    "list_at facts [''effective_hooks''] = Inr effective" "list_at facts [''native_hook_approvals''] = Inr approved"
    "\<not> list_ex (\<lambda>h. \<not> py_in h allowed) given" "\<not> list_ex (\<lambda>h. \<not> py_in h given) (effective @ approved)"
    unfolding hooks_differ_def any_none by (auto simp: and_then_ok_iff)
  ultimately show ?thesis by (intro that) (auto simp: list_ex_iff)
qed

lemma not_listed:
  assumes "revoked_grant rec facts = Inr False"
  obtains g ids where "item rec ''grant_id'' = Inr g" "list_at facts [''revoked_ids''] = Inr ids" "\<not> py_in g ids"
  using assms unfolding revoked_grant_def any_none by (auto simp: item_in_ok and_then_ok_iff)

lemma approval_facts:
  assumes "no_authority rec facts issuer = Inr False"
  obtains k i v where "text_at issuer [''actor'', ''kind''] = Inr k" "k \<in> {''operator'', ''keeper''}"
    "item facts ''approval_source'' = Inr (JStr (k @ ''-command''))" "item facts ''approved_issuer'' = Inr i" "py_eq i issuer"
    "item facts ''authenticated_approval'' = Inr v" "truthy v"
proof -
  from assms obtain s i v k where parts: "item facts ''approval_source'' = Inr s" "in_frozenset s [''operator-command'', ''keeper-command''] = Inr True"
    "item facts ''approved_issuer'' = Inr i" "py_eq i issuer" "item facts ''authenticated_approval'' = Inr v" "truthy v"
    "text_at issuer [''actor'', ''kind''] = Inr k" "s = JStr (k @ ''-command'')"
    unfolding no_authority_def any_none by (auto simp: and_then_ok_iff negated_ok truth_ok item_is_def)
  then have "k @ ''-command'' \<in> {''operator'' @ ''-command'', ''keeper'' @ ''-command''}" by auto
  then have "k \<in> {''operator'', ''keeper''}" by (simp only: insert_iff append_same_eq empty_iff)
  then show ?thesis using parts by (intro that) auto
qed

lemma destination_facts:
  assumes "destination_mismatch rec facts policy = Inr False"
  obtains d v where "at_path rec [''subject'', ''canonical_destination''] = Inr d" "item facts ''remote_spelling'' = Inr v"
    "remote_is d v = Inr True" "item_in facts [''remote_spelling''] policy [''remote_spellings''] = Inr True"
    "truth_at facts [''destination_verified''] = Inr True"
  using assms unfolding destination_mismatch_def any_none
  by (auto simp: and_then_ok_iff [of "item facts _"] and_then_ok_iff [of "at_path _ _"] negated_ok simp del: at_path.simps intro: that)

section \<open>Facts about revocations\<close>

lemma revoke_row_id [simp]: "gr_id (revoke_row e new r) = gr_id r" "gr_entry (revoke_row e new r) = gr_entry r"
    "gr_rest (revoke_row e new r) = gr_rest r"
  by (simp_all add: revoke_row_def)

lemma revoke_row_done: "gs_status new = ''revoked'' \<Longrightarrow> gr_entry r = e \<Longrightarrow> gs_status (gr_state (revoke_row e new r)) = ''revoked''"
  by (simp add: revoke_row_def)

lemma revoke_row_again: "gs_status new = ''revoked'' \<Longrightarrow> revoke_row e new' (revoke_row e new r) = revoke_row e new r"
  by (simp add: revoke_row_def)

lemma clean_key_again: "clean_key affected active (clean_key affected active k) = clean_key affected active k"
  by (simp add: clean_key_def)

section \<open>Properties\<close>

lemma admitted_in_force:
  assumes "decision valid clock sha rec facts = Inr d" "dg_admitted d"
  shows "text_at rec [''state'', ''status''] = Inr ''active'' \<and>
    (\<exists>g ids. item rec ''grant_id'' = Inr g \<and> list_at facts [''revoked_ids''] = Inr ids \<and> \<not> py_in g ids) \<and>
    (\<exists>n r t now review time. text_at facts [''now''] = Inr n \<and> text_at rec [''review_by''] = Inr r \<and>
       text_at rec [''time''] = Inr t \<and> clock n = Some now \<and> clock r = Some review \<and> clock t = Some time \<and>
       time \<le> now \<and> now < review)"
proof -
  obtain policy where parts: "record_error valid clock rec = Inr None" "revoked_grant rec facts = Inr False"
      "out_of_date clock rec facts policy = Inr False"
    using admitted_passes [OF assms] by (elim conjE not_refused) blast
  show ?thesis
  proof (intro conjI)
    show "text_at rec [''state'', ''status''] = Inr ''active''" by (rule state_active [OF parts])
    show "\<exists>g ids. item rec ''grant_id'' = Inr g \<and> list_at facts [''revoked_ids''] = Inr ids \<and> \<not> py_in g ids"
      using not_listed [OF parts(2)] by metis
    show "\<exists>n r t now review time. text_at facts [''now''] = Inr n \<and> text_at rec [''review_by''] = Inr r \<and>
       text_at rec [''time''] = Inr t \<and> clock n = Some now \<and> clock r = Some review \<and> clock t = Some time \<and>
       time \<le> now \<and> now < review"
      using in_time [OF parts(3)] by metis
  qed
qed

lemma admitted_authority:
  assumes "decision valid clock sha rec facts = Inr d" "dg_admitted d"
  shows "(\<exists>issuer approver k v. item rec ''issuer'' = Inr issuer \<and> item facts ''approved_issuer'' = Inr approver \<and> py_eq approver issuer \<and>
       text_at issuer [''actor'', ''kind''] = Inr k \<and> k \<in> {''operator'', ''keeper''} \<and>
       item facts ''approval_source'' = Inr (JStr (k @ ''-command'')) \<and>
       item facts ''authenticated_approval'' = Inr v \<and> truthy v) \<and>
    (\<exists>policy allowed given effective approved. item facts ''policy'' = Inr policy \<and> policy_changed sha rec policy = Inr False \<and>
       list_at policy [''hooks''] = Inr allowed \<and> list_at (dg_surfaces d) [''hooks''] = Inr given \<and>
       list_at facts [''effective_hooks''] = Inr effective \<and> list_at facts [''native_hook_approvals''] = Inr approved \<and>
       (\<forall>h \<in> set given. py_in h allowed) \<and> (\<forall>h \<in> set (effective @ approved). py_in h given))"
proof -
  have passed: "grant_refusal valid clock sha rec facts = Inr None" and "item rec ''surfaces'' = Inr (dg_surfaces d)"
    using admitted_passes [OF assms] by auto
  then have surfaces: "list_at rec [''surfaces'', ''hooks''] = list_at (dg_surfaces d) [''hooks'']" by (simp add: list_at_def)
  obtain issuer policy registration where parts: "item rec ''issuer'' = Inr issuer" "no_authority rec facts issuer = Inr False"
      "item facts ''policy'' = Inr policy" "policy_changed sha rec policy = Inr False" "hook_check rec facts policy = Inr None"
    using not_refused [OF passed] by blast
  obtain k i v where approval: "text_at issuer [''actor'', ''kind''] = Inr k" "k \<in> {''operator'', ''keeper''}"
      "item facts ''approval_source'' = Inr (JStr (k @ ''-command''))" "item facts ''approved_issuer'' = Inr i" "py_eq i issuer"
      "item facts ''authenticated_approval'' = Inr v" "truthy v"
    by (rule approval_facts [OF parts(2)])
  obtain allowed given effective approved where hooks:
      "list_at policy [''hooks''] = Inr allowed" "list_at (dg_surfaces d) [''hooks''] = Inr given"
      "list_at facts [''effective_hooks''] = Inr effective" "list_at facts [''native_hook_approvals''] = Inr approved"
      "\<forall>h \<in> set given. py_in h allowed" "\<forall>h \<in> set (effective @ approved). py_in h given"
    unfolding surfaces [symmetric] by (rule hooks_agree [OF parts(5)])
  show ?thesis
    by (intro conjI [OF exI [of _ issuer] exI [of _ policy]] exI [of _ i] exI [of _ k] exI [of _ v]
      exI [of _ allowed] exI [of _ given] exI [of _ effective] exI [of _ approved] conjI parts approval hooks)
qed

text \<open>
  C14: an admitted launch rests on a live, approved grant.  Whatever the validator, the clock and the
  digest, when the oracle admits a launch then the grant's last state is active and its id is not
  revoked; its time has come and its review is still ahead; the approval was authenticated for the
  record's issuer by the command of the issuer's kind; the bound policy is the current one; every
  granted hook is allowed by that policy, and every effective or natively approved hook is granted.
\<close>

theorem policy_grant_safe:
  assumes "decision valid clock sha rec facts = Inr d" and "dg_admitted d"
  shows "text_at rec [''state'', ''status''] = Inr ''active'' \<and>
    (\<exists>g ids. item rec ''grant_id'' = Inr g \<and> list_at facts [''revoked_ids''] = Inr ids \<and> \<not> py_in g ids) \<and>
    (\<exists>n r t now review time. text_at facts [''now''] = Inr n \<and> text_at rec [''review_by''] = Inr r \<and>
       text_at rec [''time''] = Inr t \<and> clock n = Some now \<and> clock r = Some review \<and> clock t = Some time \<and>
       time \<le> now \<and> now < review) \<and>
    (\<exists>issuer approver k v. item rec ''issuer'' = Inr issuer \<and> item facts ''approved_issuer'' = Inr approver \<and> py_eq approver issuer \<and>
       text_at issuer [''actor'', ''kind''] = Inr k \<and> k \<in> {''operator'', ''keeper''} \<and>
       item facts ''approval_source'' = Inr (JStr (k @ ''-command'')) \<and>
       item facts ''authenticated_approval'' = Inr v \<and> truthy v) \<and>
    (\<exists>policy allowed given effective approved. item facts ''policy'' = Inr policy \<and> policy_changed sha rec policy = Inr False \<and>
       list_at policy [''hooks''] = Inr allowed \<and> list_at (dg_surfaces d) [''hooks''] = Inr given \<and>
       list_at facts [''effective_hooks''] = Inr effective \<and> list_at facts [''native_hook_approvals''] = Inr approved \<and>
       (\<forall>h \<in> set given. py_in h allowed) \<and> (\<forall>h \<in> set (effective @ approved). py_in h given))"
  using admitted_in_force [OF assms] admitted_authority [OF assms] by blast

text \<open>
  Revocation is complete, conservative and final.  After it every grant of the entry is revoked,
  with its former states kept as history, and every other grant is as it was.  A journal key changes
  only when a grant of the entry used it and no grant still active does, and is removed only when it
  is unchanged and readable.  Revoking the entry again, for whatever reason, changes nothing.
\<close>

theorem revoke_correct:
  assumes "revoke rows journal entry issuer time why = (rows', journal')"
  shows "list_all2 (\<lambda>r r'. gr_id r' = gr_id r \<and> gr_rest r' = gr_rest r \<and>
       (if gr_entry r = entry then gs_status (gr_state r') = ''revoked'' \<and> prefix (gr_history r) (gr_history r') else r' = r)) rows rows' \<and>
    list_all2 (\<lambda>k k'. jk_ids k' = jk_ids k \<and>
       (k' = k \<or> (\<exists>r \<in> set rows. gr_entry r = entry \<and> gr_id r \<in> set (jk_ids k)) \<and>
                 \<not> (\<exists>r \<in> set rows'. gs_status (gr_state r) = ''active'' \<and> gr_id r \<in> set (jk_ids k))) \<and>
       (jk_present k' \<or> \<not> jk_present k \<or> jk_owned_unchanged k \<and> jk_readable k)) journal journal' \<and>
    revoke rows' journal' entry issuer' time' why' = (rows', journal')"
proof -
  let ?new = "\<lparr>gs_status = ''revoked'', gs_time = time, gs_reason = why, gs_by = issuer\<rparr>"
  let ?affected = "map gr_id (filter (\<lambda>r. gr_entry r = entry) rows)"
  let ?active = "map gr_id (filter (\<lambda>r. gs_status (gr_state r) = ''active'') rows')"
  have rows': "rows' = map (revoke_row entry ?new) rows" and journal': "journal' = map (clean_key ?affected ?active) journal"
    using assms by (auto simp: revoke_def Let_def)
  have same: "map gr_id (filter (\<lambda>r. gr_entry r = entry) rows') = ?affected"
    by (simp add: rows' filter_map comp_def)
  have again: "map (revoke_row entry new) rows' = rows'" for new
    by (simp add: rows' revoke_row_again)
  show ?thesis
  proof (intro conjI)
    show "list_all2 (\<lambda>r r'. gr_id r' = gr_id r \<and> gr_rest r' = gr_rest r \<and>
       (if gr_entry r = entry then gs_status (gr_state r') = ''revoked'' \<and> prefix (gr_history r) (gr_history r') else r' = r)) rows rows'"
      by (auto simp: rows' list_all2_conv_all_nth revoke_row_def)
    show "list_all2 (\<lambda>k k'. jk_ids k' = jk_ids k \<and>
       (k' = k \<or> (\<exists>r \<in> set rows. gr_entry r = entry \<and> gr_id r \<in> set (jk_ids k)) \<and>
                 \<not> (\<exists>r \<in> set rows'. gs_status (gr_state r) = ''active'' \<and> gr_id r \<in> set (jk_ids k))) \<and>
       (jk_present k' \<or> \<not> jk_present k \<or> jk_owned_unchanged k \<and> jk_readable k)) journal journal'"
      unfolding journal' list_all2_conv_all_nth by (auto simp: clean_key_def list_ex_iff)
    show "revoke rows' journal' entry issuer' time' why' = (rows', journal')"
      by (simp add: revoke_def Let_def same again journal' clean_key_again)
  qed
qed

section \<open>The properties on samples\<close>

definition sample_issuer :: json where
  "sample_issuer = JObj [(''actor'', JObj [(''kind'', JStr ''keeper'')])]"

definition sample_destination :: json where
  "sample_destination = JObj [(''transport'', JStr ''ssh''), (''host'', JStr ''h''), (''port'', JInt 22),
     (''repository_path'', JStr ''/t''), (''user'', JStr ''g'')]"

definition sample_hooks :: json where
  "sample_hooks = JArr [JObj [(''hook_id'', JStr ''pre'')]]"

definition sample_grant_policy :: json where
  "sample_grant_policy = JObj [(''entry_id'', JStr ''e''), (''root_commit'', JStr ''c''),
     (''canonical_destination'', sample_destination), (''remote_spellings'', JArr [JStr ''ssh://g@h/t'']),
     (''environments'', JArr [JStr ''cli'']), (''lanes'', JArr [JStr ''lane'']), (''project_trust'', JBool True),
     (''hooks'', sample_hooks), (''issuer'', sample_issuer), (''time'', JStr ''t''), (''review_by'', JStr ''ttt'')]"

definition sample_repository :: json where
  "sample_repository = JObj [(''root'', JStr ''/w''), (''primary_remote'', JStr ''ssh://g@h/t''), (''root_commit'', JStr ''c'')]"

definition sample_grant :: json where
  "sample_grant = JObj [(''grant_id'', JStr ''g''),
     (''policy'', JObj [(''entry_id'', JStr ''e''), (''sha256'', JStr ''d'')]),
     (''subject'', JObj [(''checkout_id'', JStr ''k''), (''registration_sha256'', JStr ''r''), (''path'', JStr ''/w''),
        (''repository'', sample_repository), (''canonical_destination'', sample_destination)]),
     (''identity'', JObj [(''root_identity'', JStr ''i''), (''environment'', JStr ''cli''), (''lane_id'', JStr ''lane'')]),
     (''surfaces'', JObj [(''project_trust'', JBool True), (''hooks'', sample_hooks)]),
     (''issuer'', sample_issuer), (''time'', JStr ''t''), (''review_by'', JStr ''ttt''),
     (''state'', JObj [(''status'', JStr ''active''), (''time'', JStr ''t''), (''by'', sample_issuer)]),
     (''state_history'', JArr [])]"

definition sample_facts :: json where
  "sample_facts = JObj [(''approval_source'', JStr ''keeper-command''), (''authenticated_approval'', JBool True),
     (''approved_issuer'', sample_issuer), (''policy'', sample_grant_policy),
     (''registration'', JObj [(''checkout_id'', JStr ''k''), (''sha256'', JStr ''r''), (''path'', JStr ''/w''), (''root_identity'', JStr ''i'')]),
     (''repository'', sample_repository), (''nofollow_identity_matches'', JBool True), (''remote_spelling'', JStr ''ssh://g@h/t''),
     (''destination_verified'', JBool True), (''ssh_pins_match'', JBool True), (''command_free_routing'', JBool True),
     (''environment'', JStr ''cli''), (''lane_id'', JStr ''lane''), (''now'', JStr ''tt''), (''revoked_ids'', JArr []),
     (''adapter_qualified'', JBool True), (''hook_state_readable'', JBool True), (''effective_hooks'', sample_hooks),
     (''native_hook_approvals'', sample_hooks), (''policy_readable'', JBool True), (''ledger_readable'', JBool True),
     (''journal_readable'', JBool True)]"

definition sample_clock :: "string \<Rightarrow> int option" where
  "sample_clock s = (if set s = {CHR ''t''} then Some (int (length s)) else None)"

abbreviation sample_decision :: "grant_decision res" where
  "sample_decision \<equiv> decision (\<lambda>r. r \<noteq> JNull) sample_clock (\<lambda>_. ''d'') sample_grant sample_facts"

lemma sample_admitted: "map_sum (\<lambda>e. e) dg_admitted sample_decision = Inr True"
  by code_simp

theorem policy_grant_safe_witness:
  "\<exists>d. sample_decision = Inr d \<and> dg_admitted d \<and> text_at sample_grant [''state'', ''status''] = Inr ''active'' \<and>
    (\<exists>policy allowed given. item sample_facts ''policy'' = Inr policy \<and> list_at policy [''hooks''] = Inr allowed \<and>
       list_at (dg_surfaces d) [''hooks''] = Inr given)"
proof -
  obtain d where d: "sample_decision = Inr d" "dg_admitted d"
    using sample_admitted by (cases sample_decision) auto
  with policy_grant_safe [OF d] show ?thesis by blast
qed

definition sample_rows :: "grant_row list" where
  "sample_rows =
     (let fresh = \<lparr>gs_status = ''active'', gs_time = ''t'', gs_reason = ''r'', gs_by = JStr ''o''\<rparr> in
     [\<lparr>gr_id = ''g1'', gr_entry = ''e'', gr_state = fresh, gr_history = [], gr_rest = []\<rparr>,
      \<lparr>gr_id = ''g2'', gr_entry = ''f'', gr_state = fresh, gr_history = [], gr_rest = []\<rparr>])"

definition sample_journal :: "journal_key list" where
  "sample_journal =
     [\<lparr>jk_ids = [''g1''], jk_owned_unchanged = True, jk_readable = True, jk_present = True, jk_pending = True\<rparr>,
      \<lparr>jk_ids = [''g1'', ''g2''], jk_owned_unchanged = True, jk_readable = True, jk_present = True, jk_pending = False\<rparr>]"

theorem revoke_correct_witness:
  "map jk_present (snd (revoke sample_rows sample_journal ''e'' JNull ''u'' ''why'')) = [False, True] \<and>
   (case revoke sample_rows sample_journal ''e'' JNull ''u'' ''why'' of (rows', journal') \<Rightarrow>
      revoke rows' journal' ''e'' JNull ''v'' ''again'' = (rows', journal'))"
proof -
  obtain rows' journal' where r: "revoke sample_rows sample_journal ''e'' JNull ''u'' ''why'' = (rows', journal')"
    by (cases "revoke sample_rows sample_journal ''e'' JNull ''u'' ''why''")
  have "map jk_present (snd (revoke sample_rows sample_journal ''e'' JNull ''u'' ''why'')) = [False, True]" by code_simp
  moreover have "revoke rows' journal' ''e'' JNull ''v'' ''again'' = (rows', journal')"
    using revoke_correct [OF r, of JNull "''v''" "''again''"] by blast
  ultimately show ?thesis using r by simp
qed

end
