(* ===== verification/EffectivePosture.thy ===== *)
theory EffectivePosture
  imports WireSources "HOL-Library.AList"
begin

text \<open>
  The effective-posture oracle (\<open>tools/effective_posture.py\<close>): reading a canonical record,
  the verdict of the named relation, and the gate over the paired cases of the corpus, together with
  the CCJ-1 integer hook of \<open>tools/ccj1_grammar.py\<close>.

  Parameters: \<open>valid\<close>, the verdict of the third-party schema validator on a record, and
  \<open>sha\<close>, the hexadecimal SHA-256 of bytes.  A schema violation is modelled as the failure
  \<open>ValueError\<close>: the only caller treats the two alike.  Fixture paths are texts into dictionaries.
\<close>

section \<open>Records\<close>

definition LIMIT :: nat where
  "LIMIT = 65536"

definition REQUIRED_PAIRS :: "string list" where
  "REQUIRED_PAIRS =
     [''EP01-missing'', ''EP02-unknown'', ''EP03-unqualified'', ''EP04-suffix-policy'',
      ''EP05-strict-unsupported'', ''EP06-no-tools-unsupported'', ''EP07-stale-lock'',
      ''EP08-stale-plan'', ''EP09-strict-downgrade'', ''EP10-permission-downgrade'',
      ''EP11-tool-downgrade'', ''EP12-incomplete-policy'', ''EP13-relaxed-policy'',
      ''EP14-lane-approval'', ''EP15-state-substitution'', ''EP16-terminal-lease'',
      ''EP17-hosted-missing-lease'', ''EP18-qualification-provider'', ''EP19-suffix-digest'',
      ''EP20-policy-digest'', ''EP21-source-spoof'', ''EP22-unknown-qualification'',
      ''EP23-default-not-native'', ''EP24-isolation-bypass'',
      ''EP25-yolo-incomplete-honesty'', ''EP26-generation-moved'']"

definition ccj :: "json \<Rightarrow> string" where
  "ccj v = utf8 (json_text v)"

definition posture_digest :: "(string \<Rightarrow> string) \<Rightarrow> json \<Rightarrow> string" where
  "posture_digest sha v = ''sha256:'' @ sha (ccj v)"

text \<open>\<open>integer\<close>: the spelling of an integer is bounded before it is read.\<close>

definition ccj_integer :: "string \<Rightarrow> json res" where
  "ccj_integer t =
     (let digits = if prefix ''-'' t then drop 1 t else t in
      if length digits > 16 then Inl (ValueError ''CCJ-1 integer length'')
      else if t = ''-0'' then Inl (ValueError ''CCJ-1 integer spelling'')
      else Inr (JInt (int_of_text t)))"

definition record_hooks :: hooks where
  "record_hooks = \<lparr>parse_int = ccj_integer, parse_other = (\<lambda>_. Inl (ValueError ''non-CCJ-1 number'')),
     parse_pairs = object_pairs (ValueError ''duplicate member'')\<rparr>"

text \<open>\<open>_walk\<close>: at most twelve levels, and integers a double holds.\<close>

lemma for_each_cong [fundef_cong]:
  "xs = ys \<Longrightarrow> (\<And>x. x \<in> set ys \<Longrightarrow> f x = g x) \<Longrightarrow> for_each f xs = for_each g ys"
  by (induction xs arbitrary: ys) auto

fun walk :: "nat \<Rightarrow> json \<Rightarrow> unit res" where
  "walk depth v =
     and_then (guard (depth \<le> 12) (ValueError ''record depth'')) (\<lambda>_.
     case v of
       JInt i \<Rightarrow> guard (abs i \<le> SAFE_INTEGER) (ValueError ''unsafe integer'')
     | JObj d \<Rightarrow> for_each (\<lambda>(k, w). and_then (guard (depth + 1 \<le> 12) (ValueError ''record depth'')) (\<lambda>_. walk (depth + 1) w)) d
     | JArr vs \<Rightarrow> for_each (walk (depth + 1)) vs
     | _ \<Rightarrow> Inr ())"

declare walk.simps [simp del]

definition decode_record :: "(json \<Rightarrow> bool) \<Rightarrow> string \<Rightarrow> json res" where
  "decode_record valid raw =
     (if length raw > LIMIT then Inl (ValueError ''record size'')
      else case utf8_decode raw of
        None \<Rightarrow> Inl (ValueError ''utf-8'')
      | Some s \<Rightarrow>
          and_then (json_loads record_hooks s) (\<lambda>v.
          and_then (walk 0 v) (\<lambda>_.
          and_then (guard (ccj v = raw) (ValueError ''noncanonical record'')) (\<lambda>_.
          and_then (guard (valid v) (ValueError ''schema'')) (\<lambda>_. Inr v)))))"

section \<open>The verdict\<close>

definition as_dict :: "json \<Rightarrow> dict res" where
  "as_dict v = (case v of JObj d \<Rightarrow> Inr d | _ \<Rightarrow> Inl TypeError)"

definition mode_of :: "json \<Rightarrow> string res" where
  "mode_of requested =
     and_then (truth_at requested [''strict'']) (\<lambda>strict.
     if strict then Inr ''strict''
     else and_then (truth_at requested [''native_project'']) (\<lambda>native.
       Inr (if native then ''native-project'' else ''none'')))"

definition downgrade :: "json \<Rightarrow> json \<Rightarrow> string \<Rightarrow> bool res" where
  "downgrade p c mode = either
     [negated (item_is p [''project'', ''mode''] (JStr mode)),
      negated (same_item p [''project'', ''no_tools''] p [''project'', ''requested'', ''no_tools'']),
      negated (same_item p [''project''] c [''resolved_project'']),
      negated (same_item p [''permission''] c [''resolved_permission''])]"

definition native_mode :: "json \<Rightarrow> bool res" where
  "native_mode p = item_is p [''permission'', ''mode''] (JStr ''native'')"

definition complete_inspection :: "json \<Rightarrow> bool res" where
  "complete_inspection p = item_is p [''native_policy'', ''inspection''] (JStr ''complete'')"

definition uninspected :: "json \<Rightarrow> bool res" where
  "uninspected p = either
     [item_is p [''native_policy'', ''inspection''] (JStr ''unsupported''),
      both [complete_inspection p, truth_at p [''native_policy'', ''uninspected_sources'']],
      both [native_mode p, either [negated (complete_inspection p), truth_at p [''native_policy'', ''uninspected_sources'']]]]"

definition digest_is :: "(string \<Rightarrow> string) \<Rightarrow> json \<Rightarrow> string list \<Rightarrow> json \<Rightarrow> bool res" where
  "digest_is sha p ks v = item_is p ks (JStr (posture_digest sha v))"

definition qualification_mismatch :: "(string \<Rightarrow> string) \<Rightarrow> json \<Rightarrow> json \<Rightarrow> json \<Rightarrow> bool res" where
  "qualification_mismatch sha p c q = either
     [negated (same_item p [''qualification'', ''id''] q [''id'']),
      negated (digest_is sha p [''qualification'', ''sha256''] q),
      negated (same_item p [''provider''] c [''provider'']), negated (same_item p [''provider''] q [''provider''])]"

definition in_list :: "json \<Rightarrow> json \<Rightarrow> string list \<Rightarrow> bool res" where
  "in_list x w ks = and_then (list_at w ks) (\<lambda>ys. Inr (py_in x ys))"

definition state_mismatch :: "(string \<Rightarrow> string) \<Rightarrow> json \<Rightarrow> json \<Rightarrow> bool res" where
  "state_mismatch sha p st = either
     [negated (item_is st [''record''] (JStr ''launcher-path-state/1'')),
      negated (same_item st [''launch_id''] p [''provenance'', ''launch_id'']),
      negated (same_item st [''binding''] p [''binding'']),
      negated (digest_is sha p [''provenance'', ''launcher_state'', ''sha256''] st)]"

definition lease_unavailable :: "json \<Rightarrow> bool res" where
  "lease_unavailable lease = either
     [Inr (lease = JNull), negated (item_is lease [''phase''] (JStr ''prepared'')),
      negated (item_is lease [''holder'', ''kind''] (JStr ''prepared''))]"

definition lease_mismatch :: "(string \<Rightarrow> string) \<Rightarrow> json \<Rightarrow> json \<Rightarrow> json \<Rightarrow> bool res" where
  "lease_mismatch sha p ref lease = either
     ([negated (same_item lease [''kind''] ref [''record'']), negated (digest_is sha ref [''record_sha256''] lease)] @
      map (\<lambda>k. negated (same_item lease [k] ref [k])) [''lease_id'', ''revision'', ''manager_root_id'', ''home_id''] @
      map (\<lambda>k. negated (same_item lease [''holder'', k] ref [k])) [''request_id'', ''manager_id'', ''manager_registered_at''] @
      [negated (same_item lease [''profile''] p [''binding'', ''profile'']),
       and_then (text_at lease [''lock_sha256'']) (\<lambda>s. negated (item_is p [''binding'', ''lock_sha256''] (JStr (''sha256:'' @ s)))),
       negated (same_item lease [''environment''] p [''provider'', ''environment''])])"

definition lease_refusal :: "(string \<Rightarrow> string) \<Rightarrow> json \<Rightarrow> json \<Rightarrow> string option res" where
  "lease_refusal sha p lease =
     and_then (at_path p [''provenance'', ''home_lease'']) (\<lambda>ref.
     and_then (item_is p [''provenance'', ''route''] (JStr ''native'')) (\<lambda>native.
     if native then refuse_when (lease \<noteq> JNull) ''posture_provenance_mismatch''
     else first_message
       [refuse_res (lease_unavailable lease) ''posture_lease_unavailable'',
        refuse_res (lease_mismatch sha p ref lease) ''posture_provenance_mismatch'']))"

text \<open>The refusals of a record that decoded, in the order of \<open>relation_verdict\<close>.\<close>

definition mode_refusal :: "json \<Rightarrow> json \<Rightarrow> json \<Rightarrow> string \<Rightarrow> string option res" where
  "mode_refusal p c q mode = first_message
     [refuse_res (negated (in_list (JStr mode) q [''project_modes'']))
        (if mode = ''strict'' then ''posture_strict_unsupported'' else ''posture_mode_unsupported''),
      refuse_res (both [truth_at p [''project'', ''no_tools''], negated (truth_at q [''no_tools''])]) ''posture_no_tools_unsupported'',
      refuse_res (uninspected p) ''posture_policy_uninspected'',
      refuse_res (both [native_mode p, truth_at p [''native_policy'', ''relaxations'']]) ''posture_policy_relaxed'',
      refuse_res (either [negated (truth_at c [''lane'', ''approved'']),
         negated (same_item c [''lane'', ''permissions''] p [''permission'', ''mode''])]) ''posture_lane_unapproved'',
      and_then (at_path p [''native_suffix'', ''argv'']) (\<lambda>argv.
        refuse_res (negated (in_list argv q [''policy_free_suffixes''])) ''posture_suffix_conflict'')]"

definition posture_refusal :: "(string \<Rightarrow> string) \<Rightarrow> json \<Rightarrow> json \<Rightarrow> string \<Rightarrow> string option res" where
  "posture_refusal sha p c mode = first_message
     [refuse_res (downgrade p c mode) ''posture_downgrade'',
      refuse_res (both [item_is p [''permission'', ''source''] (JStr ''default''),
         negated (item_is p [''permission'', ''mode''] (JStr ''yolo''))]) ''posture_default_conflict'',
      refuse_res (both [Inr (mode \<noteq> ''none''), item_is p [''permission'', ''mode''] (JStr ''yolo'')]) ''posture_isolation_bypass'',
      refuse_res (negated (same_item p [''binding''] c [''current_binding''])) ''posture_binding_stale'',
      and_then (at_path p [''native_suffix'', ''argv'']) (\<lambda>argv.
        refuse_res (negated (digest_is sha p [''native_suffix'', ''sha256''] argv)) ''posture_suffix_changed''),
      refuse_res (negated (same_item p [''native_policy''] c [''native_policy''])) ''posture_policy_changed'',
      and_then (item c ''qualification'') (\<lambda>q. first_message
        [refuse_res (either [negated (item_is p [''qualification'', ''state''] (JStr ''qualified'')),
           negated (item_is q [''state''] (JStr ''qualified''))]) ''posture_unqualified'',
         refuse_res (qualification_mismatch sha p c q) ''posture_qualification_mismatch'',
         mode_refusal p c q mode]),
      and_then (item c ''launcher_state'') (\<lambda>st. refuse_res (state_mismatch sha p st) ''posture_provenance_mismatch''),
      and_then (item c ''home_lease'') (\<lambda>lease. lease_refusal sha p lease)]"

definition record_verdict :: "(string \<Rightarrow> string) \<Rightarrow> json \<Rightarrow> json \<Rightarrow> string res" where
  "record_verdict sha p c =
     and_then (item c ''context'') (\<lambda>ctx.
     and_then (at_path p [''project'', ''requested'']) (\<lambda>requested.
     and_then (mode_of requested) (\<lambda>mode.
     and_then (posture_refusal sha p ctx mode) (\<lambda>e.
     Inr (case e of None \<Rightarrow> ''admit'' | Some code \<Rightarrow> code)))))"

definition relation_verdict :: "(json \<Rightarrow> bool) \<Rightarrow> (string \<Rightarrow> string) \<Rightarrow> json \<Rightarrow> string res" where
  "relation_verdict valid sha c =
     and_then (as_dict c) (\<lambda>d.
     case map_of d ''posture'' of
       None \<Rightarrow> Inr ''posture_missing''
     | Some posture \<Rightarrow>
         (case decode_record valid (ccj posture) of
            Inl (ValueError _) \<Rightarrow> Inr ''posture_invalid''
          | Inl e \<Rightarrow> Inl e
          | Inr p \<Rightarrow> record_verdict sha p c))"

section \<open>The paired cases\<close>

fun change_at :: "(dict \<Rightarrow> string \<Rightarrow> dict res) \<Rightarrow> string list \<Rightarrow> json \<Rightarrow> json res" where
  "change_at f [] v = Inl IndexError"
| "change_at f [k] v = and_then (as_dict v) (\<lambda>d. and_then (f d k) (\<lambda>d'. Inr (JObj d')))"
| "change_at f (k # ks) v =
     and_then (item v k) (\<lambda>w. and_then (change_at f ks w) (\<lambda>w'. Inr (JObj (AList.update k w' (the_dict v)))))"

definition fixture_change :: "json \<Rightarrow> dict \<Rightarrow> string \<Rightarrow> dict res" where
  "fixture_change change d k =
     and_then (item_is change [''op''] (JStr ''remove'')) (\<lambda>remove.
     if remove then (if k \<in> fst ` set d then Inr (AList.delete k d) else Inl (KeyError k))
     else and_then (item_is change [''op''] (JStr ''replace'')) (\<lambda>replace.
       if \<not> replace then Inl (ValueError ''unknown fixture mutation'')
       else if k \<notin> fst ` set d then Inl (ValueError ''replacement target absent'')
       else and_then (item change ''value'') (\<lambda>w. Inr (AList.update k w d))))"

definition materialize :: "json \<Rightarrow> json \<Rightarrow> json res" where
  "materialize fixtures branch =
     and_then (text_at branch [''fixture'']) (\<lambda>name.
     and_then (item fixtures name) (\<lambda>v.
     and_then (list_at branch [''changes'']) (\<lambda>changes.
     fold_res (\<lambda>change v.
       and_then (list_at change [''path'']) (\<lambda>path.
       and_then (map_res as_text path) (\<lambda>ks. change_at (fixture_change change) ks v))) changes v)))"

definition check_branch :: "(json \<Rightarrow> bool) \<Rightarrow> (string \<Rightarrow> string) \<Rightarrow> json \<Rightarrow> string \<Rightarrow> string \<Rightarrow> json \<Rightarrow> unit res" where
  "check_branch valid sha fixtures name side branch =
     and_then (text_at branch [''expected'']) (\<lambda>expected.
     and_then (guard (side = ''admit'' \<longrightarrow> expected = ''admit'') (ValueError ''positive must admit'')) (\<lambda>_.
     and_then (guard (side = ''refuse'' \<longrightarrow> prefix ''posture_'' expected) (ValueError ''negative must name refusal'')) (\<lambda>_.
     and_then (materialize fixtures branch) (\<lambda>c.
     and_then (relation_verdict valid sha c) (\<lambda>observed.
     guard (observed = expected)
       (ValueError (side @ '' mismatch '' @ name @ '': '' @ observed @ '', expected '' @ expected)))))))"

definition check_side :: "(json \<Rightarrow> bool) \<Rightarrow> (string \<Rightarrow> string) \<Rightarrow> json \<Rightarrow> json \<Rightarrow> string \<Rightarrow> unit res" where
  "check_side valid sha fixtures pair side =
     and_then (text_at pair [''id'']) (\<lambda>name.
     case map_of (the_dict pair) side of
       None \<Rightarrow> Inl (ValueError (''missing paired control: '' @ name))
     | Some branch \<Rightarrow> check_branch valid sha fixtures name side branch)"

definition check_pairs :: "(json \<Rightarrow> bool) \<Rightarrow> (string \<Rightarrow> string) \<Rightarrow> json \<Rightarrow> json list \<Rightarrow> unit res" where
  "check_pairs valid sha fixtures pairs =
     and_then (map_res (\<lambda>p. item p ''id'') pairs) (\<lambda>ids.
     and_then (guard (set ids = JStr ` set REQUIRED_PAIRS \<and> length ids = length REQUIRED_PAIRS) (ValueError ''pair coverage mismatch'')) (\<lambda>_.
     and_then (map_res (\<lambda>p. item p ''requirement'') pairs) (\<lambda>reqs.
     and_then (guard (set reqs = JStr ` {''EPA01'', ''EPA02'', ''EPA03'', ''EPA04'', ''EPA05'', ''EPA06'', ''EPA-C1''})
       (ValueError ''obligation coverage mismatch'')) (\<lambda>_.
     for_each (\<lambda>pair. for_each (check_side valid sha fixtures pair) [''admit'', ''refuse'']) pairs))))"

section \<open>Canonical records\<close>

fun json_depth :: "json \<Rightarrow> nat" where
  "json_depth (JArr vs) = Max (insert 0 (set (map (\<lambda>v. json_depth v + 1) vs)))"
| "json_depth (JObj d) = Max (insert 0 (set (map (\<lambda>(k, v). json_depth v + 1) d)))"
| "json_depth v = 0"

lemma max_bound: "finite S \<Longrightarrow> n + Max (insert 0 S) \<le> b \<longleftrightarrow> n \<le> b \<and> (\<forall>x \<in> S. n + x \<le> (b::nat))"
proof -
  assume "finite S"
  have "n + m \<le> b \<longleftrightarrow> n \<le> b \<and> m \<le> b - n" for m by arith
  then show ?thesis using \<open>finite S\<close> by (simp only: Max_le_iff finite_insert insert_not_empty not_False_eq_True) auto
qed

lemma walk_iff: "walk n v = Inr () \<longleftrightarrow> n + json_depth v \<le> 12 \<and> all_ints in_safe_range v"
proof (induction v arbitrary: n)
  case (JArr vs)
  have "n + json_depth (JArr vs) \<le> 12 \<longleftrightarrow> n \<le> 12 \<and> (\<forall>v \<in> set vs. n + 1 + json_depth v \<le> 12)"
    unfolding json_depth.simps by (subst max_bound) auto
  then show ?case using JArr by (subst walk.simps) (auto simp: and_then_ok_iff for_each_ok_iff list_all_iff)
next
  case (JObj d)
  have "n + json_depth (JObj d) \<le> 12 \<longleftrightarrow> n \<le> 12 \<and> (\<forall>(k, v) \<in> set d. n + 1 + json_depth v \<le> 12)"
    unfolding json_depth.simps by (subst max_bound) auto
  then show ?case using JObj by (subst walk.simps) (fastforce simp: and_then_ok_iff for_each_ok_iff list_all_iff)
qed (subst walk.simps; auto simp: and_then_ok_iff)+

lemma depth_canon [simp]: "json_depth (canon v) = json_depth v"
proof (induction v)
  case (JArr vs)
  then have "set (map (\<lambda>v. json_depth (canon v) + 1) vs) = set (map (\<lambda>v. json_depth v + 1) vs)" by force
  then show ?case by (simp add: comp_def image_image)
next
  case (JObj d)
  then have "(\<lambda>(k, v). json_depth (canon v) + 1) ` set d = (\<lambda>(k, v). json_depth v + 1) ` set d" by (fastforce intro!: image_cong)
  then show ?case by (simp add: image_image case_prod_unfold)
qed simp_all

lemma canon_canon [simp]: "canon (canon v) = canon v"
proof (induction v)
  case (JObj d)
  have idem: "map (\<lambda>(k, v). (k, canon v)) (map (\<lambda>(k, v). (k, canon v)) xs) = map (\<lambda>(k, v). (k, canon v)) xs"
    if "set xs \<subseteq> set d" for xs
    using JObj that by (fastforce simp: Basic_BNFs.snds.simps)
  have "sort_key fst (sort_key fst xs) = sort_key fst xs" for xs :: "(string \<times> json) list"
    by (rule sort_key_id_if_sorted) simp
  then show ?case using idem [of "sort_key fst d"] by (simp only: canon.simps map_snd_sort set_sort order_refl)
qed simp_all

lemma ccj_canon [simp]: "ccj (canon v) = ccj v"
  by (simp add: ccj_def flip: plain_canon)

lemma nat_text_length: "n < 10 ^ Suc k \<Longrightarrow> length (nat_text n) \<le> Suc k"
proof (induction k arbitrary: n)
  case 0
  then show ?case by (subst nat_text.simps) simp
next
  case (Suc k)
  have "n \<ge> 10 \<Longrightarrow> length (nat_text (n div 10)) \<le> Suc k" using Suc by (intro Suc.IH) auto
  then show ?case by (subst nat_text.simps) auto
qed

lemma ccj_integer_text: "in_safe_range i \<Longrightarrow> ccj_integer (int_text i) = Inr (JInt i)"
proof -
  assume i: "in_safe_range i"
  have len: "length (nat_text (nat (abs i))) \<le> 16"
    using i nat_text_length [of "nat (abs i)" 15] by (simp add: SAFE_INTEGER_def)
  have "int_text i \<noteq> ''-0''"
  proof
    assume t: "int_text i = ''-0''"
    have "i = 0" using int_of_text_int [of i] by (simp add: t int_of_text_def nat_of_digits_def ord_of_def)
    then show False using t by (simp add: int_text_def nat_text.simps digit_char_def)
  qed
  moreover have "\<not> prefix ''-'' (nat_text n)" for n
    using nat_text_digits [of n] by (cases "nat_text n") (auto simp: is_digit_def ord_of_def)
  ultimately show "ccj_integer (int_text i) = Inr (JInt i)"
    using len int_of_text_int [of i] by (auto simp: ccj_integer_def int_text_def Let_def split: if_splits)
qed

lemma record_hooks_faithful: "faithful in_safe_range record_hooks"
  by (simp add: faithful_def record_hooks_def ccj_integer_text object_pairs_def)

lemma decoded:
  assumes "decode_record valid raw = Inr v"
  shows "raw = ccj v \<and> length raw \<le> LIMIT \<and> json_depth v \<le> 12 \<and> all_ints in_safe_range v \<and> valid v"
  using assms by (auto simp: decode_record_def and_then_ok_iff walk_iff split: if_splits option.splits)

lemma decodes:
  assumes "unique_keys v" "length (ccj v) \<le> LIMIT" "json_depth v \<le> 12" "all_ints in_safe_range v" "valid (canon v)"
  shows "decode_record valid (ccj v) = Inr (canon v)"
proof -
  have "json_loads record_hooks (json_text v) = Inr (canon v)"
    using loads_text [OF record_hooks_faithful assms(1,4)] .
  moreover have "utf8_decode (ccj v) = Some (json_text v)" by (simp add: ccj_def)
  moreover have "walk 0 (canon v) = Inr ()" using assms by (simp add: walk_iff)
  ultimately show ?thesis using assms by (simp add: decode_record_def)
qed

section \<open>Facts about verdicts\<close>

text \<open>Every refusal has a code of the posture family, so that no refusal reads as an admission.\<close>

definition coded :: "string option res \<Rightarrow> bool" where
  "coded c \<longleftrightarrow> (\<forall>m. c = Inr (Some m) \<longrightarrow> prefix ''posture_'' m)"

lemma coded_first: "list_all coded cs \<Longrightarrow> coded (first_message cs)"
  by (induction cs) (fastforce simp: coded_def and_then_ok_iff split: option.splits)+

lemma coded_then: "(\<And>x. coded (f x)) \<Longrightarrow> coded (and_then m f)"
  by (auto simp: coded_def and_then_ok_iff)

lemma coded_refuse: "prefix ''posture_'' k \<Longrightarrow> coded (refuse_res b k)" "prefix ''posture_'' k \<Longrightarrow> coded (refuse_when x k)"
  by (auto simp: coded_def refuse_res_def refuse_when_def and_then_ok_iff)

lemma coded_refusal: "coded (posture_refusal sha p c mode)"
proof -
  have "coded (mode_refusal p c q mode)" for q
    unfolding mode_refusal_def by (intro coded_first) (simp add: coded_then coded_refuse)
  moreover have "coded (lease_refusal sha p lease)" for lease
    unfolding lease_refusal_def by (intro coded_then) (simp add: coded_first coded_refuse del: first_message.simps)
  ultimately show ?thesis
    unfolding posture_refusal_def
    by (intro coded_first) (simp add: coded_first coded_then coded_refuse del: first_message.simps)
qed

lemma verdict_parts:
  assumes "relation_verdict valid sha c = Inr r" "r \<notin> {''posture_missing'', ''posture_invalid''}"
  obtains posture p ctx requested mode e where "item c ''posture'' = Inr posture" "decode_record valid (ccj posture) = Inr p"
    "item c ''context'' = Inr ctx" "at_path p [''project'', ''requested''] = Inr requested" "mode_of requested = Inr mode"
    "posture_refusal sha p ctx mode = Inr e" "r = (case e of None \<Rightarrow> ''admit'' | Some code \<Rightarrow> code)"
proof -
  from assms(1) obtain d where d: "c = JObj d" by (cases c) (auto simp: relation_verdict_def as_dict_def)
  with assms obtain posture where c: "c = JObj d" "map_of d ''posture'' = Some posture"
    by (cases "map_of d ''posture''") (auto simp: relation_verdict_def as_dict_def)
  obtain p where p: "decode_record valid (ccj posture) = Inr p"
  proof (cases "decode_record valid (ccj posture)")
    case (Inl e)
    with assms(1) c have "r = ''posture_invalid''"
      by (cases e) (simp_all add: relation_verdict_def as_dict_def)
    then show ?thesis using assms(2) by blast
  qed
  have "item c ''posture'' = Inr posture" using c by (simp add: item_def)
  moreover have "record_verdict sha p c = Inr r" using assms(1) c p by (simp add: relation_verdict_def as_dict_def)
  then obtain ctx requested mode e where "item c ''context'' = Inr ctx" "at_path p [''project'', ''requested''] = Inr requested"
    "mode_of requested = Inr mode" "posture_refusal sha p ctx mode = Inr e" "r = (case e of None \<Rightarrow> ''admit'' | Some code \<Rightarrow> code)"
    unfolding record_verdict_def and_then_ok_iff by blast
  ultimately show ?thesis using p that by blast
qed

lemma verdict_code:
  assumes "relation_verdict valid sha c = Inr r"
  shows "r = ''admit'' \<or> prefix ''posture_'' r"
proof (cases "r \<in> {''posture_missing'', ''posture_invalid''}")
  case True
  then show ?thesis by auto
next
  case False
  obtain p ctx mode e where e: "posture_refusal sha p ctx mode = Inr e" "r = (case e of None \<Rightarrow> ''admit'' | Some code \<Rightarrow> code)"
    by (rule verdict_parts [OF assms False])
  then show ?thesis using coded_refusal [of sha p ctx mode] by (cases e) (simp_all add: coded_def)
qed

text \<open>What a record that is not refused has passed.\<close>

lemma admits:
  assumes "relation_verdict valid sha c = Inr ''admit''"
  obtains posture p ctx requested mode where "item c ''posture'' = Inr posture" "decode_record valid (ccj posture) = Inr p"
    "item c ''context'' = Inr ctx" "at_path p [''project'', ''requested''] = Inr requested" "mode_of requested = Inr mode"
    "posture_refusal sha p ctx mode = Inr None"
proof -
  obtain posture p ctx requested mode e where parts: "item c ''posture'' = Inr posture" "decode_record valid (ccj posture) = Inr p"
    "item c ''context'' = Inr ctx" "at_path p [''project'', ''requested''] = Inr requested" "mode_of requested = Inr mode"
    "posture_refusal sha p ctx mode = Inr e" "''admit'' = (case e of None \<Rightarrow> ''admit'' | Some code \<Rightarrow> code)"
    by (rule verdict_parts [OF assms]) simp
  have "e = None" using parts(6,7) coded_refusal [of sha p ctx mode] by (cases e) (auto simp: coded_def)
  with parts that show ?thesis by blast
qed

lemma not_downgraded:
  assumes "downgrade p c mode = Inr False"
  shows "same_item p [''project''] c [''resolved_project''] = Inr True \<and> same_item p [''permission''] c [''resolved_permission''] = Inr True"
  using assms unfolding downgrade_def any_none by (simp add: negated_ok)

lemma posture_passed:
  assumes "posture_refusal sha p c mode = Inr None"
  obtains q lease argv where
    "downgrade p c mode = Inr False"
    "both [Inr (mode \<noteq> ''none''), item_is p [''permission'', ''mode''] (JStr ''yolo'')] = Inr False"
    "at_path p [''native_suffix'', ''argv''] = Inr argv" "digest_is sha p [''native_suffix'', ''sha256''] argv = Inr True"
    "item c ''qualification'' = Inr q" "item_is q [''state''] (JStr ''qualified'') = Inr True"
    "qualification_mismatch sha p c q = Inr False" "mode_refusal p c q mode = Inr None"
    "item c ''home_lease'' = Inr lease" "lease_refusal sha p lease = Inr None"
proof -
  from assms obtain argv q lease where "downgrade p c mode = Inr False"
      "both [Inr (mode \<noteq> ''none''), item_is p [''permission'', ''mode''] (JStr ''yolo'')] = Inr False"
      "at_path p [''native_suffix'', ''argv''] = Inr argv" "negated (digest_is sha p [''native_suffix'', ''sha256''] argv) = Inr False"
      "item c ''qualification'' = Inr q"
    and q: "first_message
        [refuse_res (either [negated (item_is p [''qualification'', ''state''] (JStr ''qualified'')),
           negated (item_is q [''state''] (JStr ''qualified''))]) ''posture_unqualified'',
         refuse_res (qualification_mismatch sha p c q) ''posture_qualification_mismatch'',
         mode_refusal p c q mode] = Inr None"
    and "item c ''home_lease'' = Inr lease" "lease_refusal sha p lease = Inr None"
    unfolding posture_refusal_def first_message_ok list.pred_inject and_then_ok_iff [of "item c _"]
      and_then_ok_iff [of "at_path p _"] refuse_ok_none by blast
  moreover from q have "item_is q [''state''] (JStr ''qualified'') = Inr True" "qualification_mismatch sha p c q = Inr False"
      "mode_refusal p c q mode = Inr None"
    unfolding first_message_ok list.pred_inject refuse_ok_none any_none by (simp_all add: negated_ok)
  ultimately show ?thesis by (intro that) (simp_all add: negated_ok)
qed

lemma mode_isolated:
  assumes "mode_of requested = Inr mode" "truth_at requested [''strict''] = Inr True \<or> truth_at requested [''native_project''] = Inr True"
  shows "mode \<noteq> ''none''"
  using assms by (auto simp: mode_of_def and_then_ok_iff split: if_splits)

lemma both_false: "both [Inr b, c] = Inr False \<Longrightarrow> b \<Longrightarrow> c = Inr False"
  by (auto simp: and_then_ok_iff split: if_splits)

lemma lease_passed:
  assumes "lease_refusal sha p lease = Inr None"
  shows "(item_is p [''provenance'', ''route''] (JStr ''native'') = Inr True \<and> lease = JNull) \<or>
    (item_is lease [''phase''] (JStr ''prepared'') = Inr True \<and> item_is lease [''holder'', ''kind''] (JStr ''prepared'') = Inr True \<and>
     (\<exists>ref. at_path p [''provenance'', ''home_lease''] = Inr ref \<and> digest_is sha ref [''record_sha256''] lease = Inr True \<and>
       same_item lease [''lease_id''] ref [''lease_id''] = Inr True \<and>
       same_item lease [''profile''] p [''binding'', ''profile''] = Inr True))"
proof -
  from assms obtain ref native where ref: "at_path p [''provenance'', ''home_lease''] = Inr ref"
    and native: "item_is p [''provenance'', ''route''] (JStr ''native'') = Inr native"
    and rest: "(if native then refuse_when (lease \<noteq> JNull) ''posture_provenance_mismatch''
     else first_message
       [refuse_res (lease_unavailable lease) ''posture_lease_unavailable'',
        refuse_res (lease_mismatch sha p ref lease) ''posture_provenance_mismatch'']) = Inr None"
    unfolding lease_refusal_def and_then_ok_iff by blast
  show ?thesis
  proof (cases native)
    case True
    with native rest show ?thesis by (simp add: refuse_ok_none)
  next
    case False
    with rest have "lease_unavailable lease = Inr False" "lease_mismatch sha p ref lease = Inr False"
      by (simp_all add: first_message_ok refuse_ok_none del: first_message.simps)
    then show ?thesis using ref
      unfolding lease_unavailable_def lease_mismatch_def any_none by (simp add: negated_ok)
  qed
qed

section \<open>Properties\<close>

text \<open>
  Accepted records are canonical.  A text that decodes is, byte for byte, the canonical printing
  of the record it decodes to, of at most 64 KiB and twelve levels with integers a double holds, and
  the schema admits it; and every document with distinct keys within these bounds decodes from its
  canonical bytes to itself with its keys sorted.
\<close>

theorem decode_record_canonical:
  "(decode_record valid raw = Inr w \<longrightarrow>
      raw = ccj w \<and> length raw \<le> LIMIT \<and> json_depth w \<le> 12 \<and> all_ints in_safe_range w \<and> valid w) \<and>
   (unique_keys v \<and> length (ccj v) \<le> LIMIT \<and> json_depth v \<le> 12 \<and> all_ints in_safe_range v \<and> valid (canon v) \<longrightarrow>
      decode_record valid (ccj v) = Inr (canon v))"
  using decoded decodes by blast

text \<open>
  C15: an admitted launch keeps its posture.  Whatever the validator and the digest, a verdict is
  \<open>admit\<close> or a posture code, and when it is \<open>admit\<close> the record is canonical and has the resolved
  project and permission; a strict or native project never runs with the permission \<open>yolo\<close>; the
  native suffix and a qualified qualification have the recorded digests; and a native route has no
  home lease, while any other has a prepared one with the recorded digest, lease id and profile.
\<close>

theorem posture_admitted:
  assumes "relation_verdict valid sha c = Inr r"
  shows "(r = ''admit'' \<or> prefix ''posture_'' r) \<and>
    (r = ''admit'' \<longrightarrow>
    (\<exists>posture p ctx requested argv q lease.
       item c ''posture'' = Inr posture \<and> decode_record valid (ccj posture) = Inr p \<and> item c ''context'' = Inr ctx \<and>
       same_item p [''project''] ctx [''resolved_project''] = Inr True \<and>
       same_item p [''permission''] ctx [''resolved_permission''] = Inr True \<and>
       at_path p [''project'', ''requested''] = Inr requested \<and>
       (truth_at requested [''strict''] = Inr True \<or> truth_at requested [''native_project''] = Inr True \<longrightarrow>
          item_is p [''permission'', ''mode''] (JStr ''yolo'') = Inr False) \<and>
       at_path p [''native_suffix'', ''argv''] = Inr argv \<and> digest_is sha p [''native_suffix'', ''sha256''] argv = Inr True \<and>
       item ctx ''qualification'' = Inr q \<and> item_is q [''state''] (JStr ''qualified'') = Inr True \<and>
       digest_is sha p [''qualification'', ''sha256''] q = Inr True \<and>
       item ctx ''home_lease'' = Inr lease \<and>
       ((item_is p [''provenance'', ''route''] (JStr ''native'') = Inr True \<and> lease = JNull) \<or>
        (item_is lease [''phase''] (JStr ''prepared'') = Inr True \<and> item_is lease [''holder'', ''kind''] (JStr ''prepared'') = Inr True \<and>
         (\<exists>ref. at_path p [''provenance'', ''home_lease''] = Inr ref \<and> digest_is sha ref [''record_sha256''] lease = Inr True \<and>
           same_item lease [''lease_id''] ref [''lease_id''] = Inr True \<and>
           same_item lease [''profile''] p [''binding'', ''profile''] = Inr True)))))"
proof (intro conjI impI)
  show "r = ''admit'' \<or> prefix ''posture_'' r" by (rule verdict_code [OF assms])
next
  assume "r = ''admit''"
  with assms have admit: "relation_verdict valid sha c = Inr ''admit''" by simp
  obtain posture p ctx requested mode where parts: "item c ''posture'' = Inr posture" "decode_record valid (ccj posture) = Inr p"
      "item c ''context'' = Inr ctx" "at_path p [''project'', ''requested''] = Inr requested" "mode_of requested = Inr mode"
      "posture_refusal sha p ctx mode = Inr None"
    by (rule admits [OF admit])
  obtain q lease argv where passed: "downgrade p ctx mode = Inr False"
      "both [Inr (mode \<noteq> ''none''), item_is p [''permission'', ''mode''] (JStr ''yolo'')] = Inr False"
      "at_path p [''native_suffix'', ''argv''] = Inr argv" "digest_is sha p [''native_suffix'', ''sha256''] argv = Inr True"
      "item ctx ''qualification'' = Inr q" "item_is q [''state''] (JStr ''qualified'') = Inr True"
      "qualification_mismatch sha p ctx q = Inr False"
      "item ctx ''home_lease'' = Inr lease" "lease_refusal sha p lease = Inr None"
    by (rule posture_passed [OF parts(6)])
  have "digest_is sha p [''qualification'', ''sha256''] q = Inr True"
    using passed(7) unfolding qualification_mismatch_def any_none by (simp add: negated_ok)
  moreover have "truth_at requested [''strict''] = Inr True \<or> truth_at requested [''native_project''] = Inr True \<longrightarrow>
      item_is p [''permission'', ''mode''] (JStr ''yolo'') = Inr False"
    using mode_isolated [OF parts(5)] both_false [OF passed(2)] by blast
  moreover note not_downgraded [OF passed(1)] lease_passed [OF passed(9)]
  ultimately show "\<exists>posture p ctx requested argv q lease.
     item c ''posture'' = Inr posture \<and> decode_record valid (ccj posture) = Inr p \<and> item c ''context'' = Inr ctx \<and>
     same_item p [''project''] ctx [''resolved_project''] = Inr True \<and>
     same_item p [''permission''] ctx [''resolved_permission''] = Inr True \<and>
     at_path p [''project'', ''requested''] = Inr requested \<and>
     (truth_at requested [''strict''] = Inr True \<or> truth_at requested [''native_project''] = Inr True \<longrightarrow>
        item_is p [''permission'', ''mode''] (JStr ''yolo'') = Inr False) \<and>
     at_path p [''native_suffix'', ''argv''] = Inr argv \<and> digest_is sha p [''native_suffix'', ''sha256''] argv = Inr True \<and>
     item ctx ''qualification'' = Inr q \<and> item_is q [''state''] (JStr ''qualified'') = Inr True \<and>
     digest_is sha p [''qualification'', ''sha256''] q = Inr True \<and>
     item ctx ''home_lease'' = Inr lease \<and>
     ((item_is p [''provenance'', ''route''] (JStr ''native'') = Inr True \<and> lease = JNull) \<or>
      (item_is lease [''phase''] (JStr ''prepared'') = Inr True \<and> item_is lease [''holder'', ''kind''] (JStr ''prepared'') = Inr True \<and>
       (\<exists>ref. at_path p [''provenance'', ''home_lease''] = Inr ref \<and> digest_is sha ref [''record_sha256''] lease = Inr True \<and>
         same_item lease [''lease_id''] ref [''lease_id''] = Inr True \<and>
         same_item lease [''profile''] p [''binding'', ''profile''] = Inr True)))" using parts passed by blast
qed

text \<open>What the gate over the paired cases establishes: each required pair has both controls.\<close>

lemma side_shown:
  assumes "check_side valid sha fixtures pair side = Inr ()"
  obtains branch c r where "map_of (the_dict pair) side = Some branch" "materialize fixtures branch = Inr c"
    "relation_verdict valid sha c = Inr r" "side = ''admit'' \<longrightarrow> r = ''admit''" "side = ''refuse'' \<longrightarrow> prefix ''posture_'' r"
proof -
  from assms obtain branch name where "map_of (the_dict pair) side = Some branch"
    and "check_branch valid sha fixtures name side branch = Inr ()"
    by (cases "map_of (the_dict pair) side") (auto simp: check_side_def and_then_ok_iff)
  with that show ?thesis unfolding check_branch_def and_then_ok_iff guard_ok_iff by blast
qed

lemma pairs_shown:
  assumes "check_pairs valid sha fixtures pairs = Inr ()"
  shows "list_all (\<lambda>n. \<exists>pair \<in> set pairs. item pair ''id'' = Inr (JStr n) \<and>
    (\<exists>c. relation_verdict valid sha c = Inr ''admit'') \<and> (\<exists>c r. relation_verdict valid sha c = Inr r \<and> prefix ''posture_'' r)) REQUIRED_PAIRS"
proof -
  from assms obtain ids where ids: "map_res (\<lambda>p. item p ''id'') pairs = Inr ids" "set ids = JStr ` set REQUIRED_PAIRS"
    and each: "for_each (\<lambda>pair. for_each (check_side valid sha fixtures pair) [''admit'', ''refuse'']) pairs = Inr ()"
    unfolding check_pairs_def and_then_ok_iff by auto
  show ?thesis unfolding list_all_iff
  proof
    fix n assume "n \<in> set REQUIRED_PAIRS"
    then have "JStr n \<in> set ids" using ids(2) by blast
    then obtain i where "i < length ids" "ids ! i = JStr n" by (metis in_set_conv_nth)
    with map_res_ok_set [OF ids(1)] have "pairs ! i \<in> set pairs" "item (pairs ! i) ''id'' = Inr (JStr n)"
      by (auto simp: list_all2_conv_all_nth)
    then obtain pair where pair: "pair \<in> set pairs" "item pair ''id'' = Inr (JStr n)" by blast
    with each have "check_side valid sha fixtures pair ''admit'' = Inr ()" "check_side valid sha fixtures pair ''refuse'' = Inr ()"
      by (simp_all add: for_each_ok_iff del: for_each.simps)
    from side_shown [OF this(1)] side_shown [OF this(2)] pair
    show "\<exists>pair \<in> set pairs. item pair ''id'' = Inr (JStr n) \<and>
      (\<exists>c. relation_verdict valid sha c = Inr ''admit'') \<and> (\<exists>c r. relation_verdict valid sha c = Inr r \<and> prefix ''posture_'' r)"
      by metis
  qed
qed

section \<open>The properties on samples\<close>

definition sample_small :: json where
  "sample_small = JObj [(''b'', JStr ''y''), (''a'', JArr [JNull])]"

theorem decode_record_canonical_witness:
  "decode_record (\<lambda>v. v \<noteq> JNull) (ccj sample_small) = Inr (JObj [(''a'', JArr [JNull]), (''b'', JStr ''y'')]) \<and>
   ccj sample_small = ccj (JObj [(''a'', JArr [JNull]), (''b'', JStr ''y'')])"
proof -
  have "length (ccj sample_small) \<le> LIMIT"
    using utf8_text_bound [of sample_small] by (simp add: ccj_def sample_small_def LIMIT_def)
  then have "decode_record (\<lambda>v. v \<noteq> JNull) (ccj sample_small) = Inr (canon sample_small)"
    using decode_record_canonical [of "\<lambda>v. v \<noteq> JNull" "[]" JNull sample_small] by (simp add: sample_small_def)
  then show ?thesis
    using decode_record_canonical [of "\<lambda>v. v \<noteq> JNull" "ccj sample_small" "canon sample_small" JNull]
    by (simp add: sample_small_def)
qed

definition sample_provider :: json where
  "sample_provider = JObj [(''environment'', JStr ''cli'')]"

definition sample_binding :: json where
  "sample_binding = JObj [(''lock_sha256'', JStr ''sha256:l''), (''profile'', JStr ''p'')]"

definition sample_project :: json where
  "sample_project = JObj [(''mode'', JStr ''strict''), (''no_tools'', JBool False),
     (''requested'', JObj [(''native_project'', JBool False), (''no_tools'', JBool False), (''strict'', JBool True)])]"

definition sample_permission :: json where
  "sample_permission = JObj [(''mode'', JStr ''native''), (''source'', JStr ''lane'')]"

definition sample_native_policy :: json where
  "sample_native_policy = JObj [(''inspection'', JStr ''complete''), (''relaxations'', JArr []), (''uninspected_sources'', JArr [])]"

definition sample_posture :: json where
  "sample_posture = JObj
     [(''binding'', sample_binding), (''native_policy'', sample_native_policy),
      (''native_suffix'', JObj [(''argv'', JArr []), (''sha256'', JStr ''sha256:d'')]),
      (''permission'', sample_permission), (''project'', sample_project),
      (''provenance'', JObj [(''home_lease'', JNull), (''launch_id'', JStr ''1''),
         (''launcher_state'', JObj [(''sha256'', JStr ''sha256:d'')]), (''route'', JStr ''native'')]),
      (''provider'', sample_provider),
      (''qualification'', JObj [(''id'', JStr ''q''), (''sha256'', JStr ''sha256:d''), (''state'', JStr ''qualified'')])]"

definition sample_context :: json where
  "sample_context = JObj
     [(''current_binding'', sample_binding), (''resolved_permission'', sample_permission), (''resolved_project'', sample_project),
      (''provider'', sample_provider), (''native_policy'', sample_native_policy),
      (''qualification'', JObj [(''id'', JStr ''q''), (''state'', JStr ''qualified''), (''provider'', sample_provider),
         (''project_modes'', JArr [JStr ''strict'']), (''no_tools'', JBool True), (''policy_free_suffixes'', JArr [JArr []])]),
      (''lane'', JObj [(''approved'', JBool True), (''permissions'', JStr ''native'')]),
      (''launcher_state'', JObj [(''record'', JStr ''launcher-path-state/1''), (''launch_id'', JStr ''1''), (''binding'', sample_binding)]),
      (''home_lease'', JNull)]"

lemmas sample_posture_defs = sample_provider_def sample_binding_def sample_project_def sample_permission_def
  sample_native_policy_def sample_posture_def

abbreviation sample_case :: json where
  "sample_case \<equiv> JObj [(''posture'', sample_posture), (''context'', sample_context)]"

lemma sample_decodes: "decode_record (\<lambda>v. v \<noteq> JNull) (ccj sample_posture) = Inr sample_posture"
proof -
  have "canon sample_posture = sample_posture" by (simp add: sample_posture_defs)
  moreover have "length (ccj sample_posture) \<le> LIMIT"
    using utf8_text_bound [of sample_posture] by (simp add: ccj_def sample_posture_defs LIMIT_def)
  moreover have "unique_keys sample_posture" "json_depth sample_posture \<le> 12" "all_ints in_safe_range sample_posture"
    "sample_posture \<noteq> JNull"
    by (simp_all add: sample_posture_defs)
  ultimately show ?thesis using decodes [of sample_posture "\<lambda>v. v \<noteq> JNull"] by simp
qed

lemma sample_verdict: "record_verdict (\<lambda>_. ''d'') sample_posture sample_case = Inr ''admit''"
  by code_simp

theorem posture_admitted_witness:
  "relation_verdict (\<lambda>v. v \<noteq> JNull) (\<lambda>_. ''d'') sample_case = Inr ''admit'' \<and>
   item_is sample_posture [''permission'', ''mode''] (JStr ''yolo'') = Inr False"
proof -
  have admit: "relation_verdict (\<lambda>v. v \<noteq> JNull) (\<lambda>_. ''d'') sample_case = Inr ''admit''"
    using sample_decodes sample_verdict by (simp add: relation_verdict_def as_dict_def)
  from posture_admitted [OF this] obtain posture p requested where
    "item sample_case ''posture'' = Inr posture" "decode_record (\<lambda>v. v \<noteq> JNull) (ccj posture) = Inr p"
    "at_path p [''project'', ''requested''] = Inr requested"
    "truth_at requested [''strict''] = Inr True \<longrightarrow> item_is p [''permission'', ''mode''] (JStr ''yolo'') = Inr False"
    by blast
  then have "item_is sample_posture [''permission'', ''mode''] (JStr ''yolo'') = Inr False"
    using sample_decodes by (simp add: item_def) (auto simp: sample_posture_defs item_def truth_at_def)
  with admit show ?thesis by blast
qed

end
