(* ===== verification/Umbrella.thy ===== *)
theory Umbrella
  imports Cases PurePaths
begin

text \<open>
  Resolution of umbrella subcommand providers (\<open>validate_umbrella_provider_vectors\<close> of
  \<open>tools/validate.py\<close>, environments.md section 11): the reference model of the two rollout
  revisions and the gate over the published cases.

  A case is the dictionary the vector holds.  Messages are kept without the names and values the code
  interpolates.  A subcommand that is neither a text, an integer, a boolean nor \<open>None\<close> is
  refused as a misnamed executable, where the code compares with its printed form.
\<close>

section \<open>The cases\<close>

definition UMBRELLA_PROVIDER_DIAGNOSTICS :: "string list" where
  "UMBRELLA_PROVIDER_DIAGNOSTICS =
     [''subcommand_provider_missing'', ''subcommand_provider_untrusted'',
      ''subcommand_provider_outside_trust_roots'', ''subcommand_provider_root_unreadable'']"

definition UMBRELLA_PROVIDER_CASES :: "string list" where
  "UMBRELLA_PROVIDER_CASES =
     [''install-dir-provider-missing-then-resolved'', ''install-dir-beats-listed-directory'',
      ''listed-directory-provider-resolved'', ''listed-order-first-match-wins'',
      ''s6-planted-path-provider-warns-then-refuses'', ''non-executable-in-trust-root-skipped'',
      ''manager-published-directory-refused'', ''listed-but-published-directory-still-refused'',
      ''managed-directory-refused'', ''unreadable-listed-directory-fails'',
      ''unreadable-install-directory-fails'', ''path-selects-different-provider-while-trusted-exists'',
      ''trusted-provider-on-path-resolves-silently'', ''provider-missing'']"

section \<open>Paths\<close>

definition umbrella_dirname :: "string \<Rightarrow> string" where
  "umbrella_dirname path =
     (if CHR ''/'' \<notin> set path then ''.''
      else let head = before_last (CHR ''/'') path in if head \<noteq> [] then head else ''/'')"

text \<open>\<open>entry.rstrip("/")\<close>, and the file of a name in a directory.\<close>

definition rstrip_slashes :: "string \<Rightarrow> string" where
  "rstrip_slashes s = rev (dropWhile (\<lambda>c. c = CHR ''/'') (rev s))"

definition file_in :: "string \<Rightarrow> string \<Rightarrow> string" where
  "file_in entry name = rstrip_slashes entry @ ''/'' @ name"

definition umbrella_inside_forbidden :: "string \<Rightarrow> json list \<Rightarrow> bool res" where
  "umbrella_inside_forbidden path forbidden =
     any_res (\<lambda>v. case v of JStr entry \<Rightarrow> Inr (prefix (rstrip_slashes entry @ ''/'') path) | _ \<Rightarrow> Inl AttributeError) forbidden"

text \<open>\<open>str(v)\<close> for the scalars.\<close>

definition scalar_text :: "json \<Rightarrow> string option" where
  "scalar_text v =
     (case v of JStr s \<Rightarrow> Some s | JInt i \<Rightarrow> Some (int_text i) | JBool b \<Rightarrow> Some (if b then ''True'' else ''False'')
      | JNull \<Rightarrow> Some ''None'' | _ \<Rightarrow> None)"

definition umbrella_executables :: "dict \<Rightarrow> string list" where
  "umbrella_executables c =
     List.map_filter (\<lambda>v.
       case v of
         JObj d \<Rightarrow>
           (case jget d ''path'' of
              JStr path \<Rightarrow>
                if jget d ''executable'' = JBool True \<and> jget c ''executable_name'' = JStr (after_last (CHR ''/'') path)
                then Some path else None
            | _ \<Rightarrow> None)
       | _ \<Rightarrow> None) (the_list (jget c ''present''))"

definition umbrella_path_search :: "dict \<Rightarrow> string \<Rightarrow> string list \<Rightarrow> string option" where
  "umbrella_path_search c name executables =
     find (\<lambda>q. q \<in> set executables)
       (List.map_filter (\<lambda>v. case v of JStr entry \<Rightarrow> Some (file_in entry name) | _ \<Rightarrow> None) (the_list (jget c ''path_entries'')))"

definition umbrella_trust_roots :: "dict \<Rightarrow> string list" where
  "umbrella_trust_roots c =
     List.map_filter (\<lambda>v. case v of JStr s \<Rightarrow> Some s | _ \<Rightarrow> None)
       (jget c ''install_dir'' # the_list (jget c ''provider_directories''))"

section \<open>The required outcomes\<close>

record outcome =
  uo_resolved :: "string option"
  uo_diagnostic :: "string option"
  uo_hint :: "string option"
  uo_untrusted :: "string option"
  uo_unreadable :: "string option"
  uo_roots :: "string list option"

definition resolved_to :: "string \<Rightarrow> outcome" where
  "resolved_to p = \<lparr>uo_resolved = Some p, uo_diagnostic = None, uo_hint = None, uo_untrusted = None, uo_unreadable = None, uo_roots = None\<rparr>"

definition missing_in :: "string list \<Rightarrow> outcome" where
  "missing_in rs = \<lparr>uo_resolved = None, uo_diagnostic = Some ''subcommand_provider_missing'', uo_hint = None, uo_untrusted = None,
     uo_unreadable = None, uo_roots = Some rs\<rparr>"

definition untrusted_at :: "string \<Rightarrow> string list \<Rightarrow> outcome" where
  "untrusted_at p rs = (missing_in rs)\<lparr>uo_diagnostic := Some ''subcommand_provider_untrusted'', uo_untrusted := Some p\<rparr>"

definition unreadable_at :: "string \<Rightarrow> string list \<Rightarrow> outcome" where
  "unreadable_at r rs = (missing_in rs)\<lparr>uo_diagnostic := Some ''subcommand_provider_root_unreadable'', uo_unreadable := Some r\<rparr>"

definition warned_at :: "string \<Rightarrow> string list \<Rightarrow> outcome" where
  "warned_at p rs = (missing_in rs)\<lparr>uo_resolved := Some p, uo_diagnostic := Some ''subcommand_provider_outside_trust_roots'',
     uo_hint := Some (umbrella_dirname p)\<rparr>"

text \<open>Revision A keeps the selection of the ambient search path and only warns.\<close>

definition umbrella_revision_a :: "string list \<Rightarrow> string list \<Rightarrow> json list \<Rightarrow> string option \<Rightarrow> outcome res" where
  "umbrella_revision_a rs unreadable forbidden path_match =
     and_then (case path_match of None \<Rightarrow> Inr False | Some p \<Rightarrow> umbrella_inside_forbidden p forbidden) (\<lambda>inside.
     Inr (case (path_match, find (\<lambda>r. r \<in> set unreadable) rs) of
       (Some p, failed) \<Rightarrow>
         if inside then untrusted_at p rs
         else (case failed of
           Some r \<Rightarrow> unreadable_at r rs
         | None \<Rightarrow> if umbrella_dirname p \<in> set rs then resolved_to p else warned_at p rs)
     | (None, Some r) \<Rightarrow> unreadable_at r rs
     | (None, None) \<Rightarrow> missing_in rs))"

text \<open>The trust roots in order: the first unreadable one, or the first executable, whichever is met first.\<close>

fun search_roots :: "string list \<Rightarrow> string \<Rightarrow> string list \<Rightarrow> string list \<Rightarrow> (string + string) option" where
  "search_roots unreadable name executables [] = None"
| "search_roots unreadable name executables (r # rs) =
     (if r \<in> set unreadable then Some (Inl r)
      else if file_in r name \<in> set executables then Some (Inr (file_in r name))
      else search_roots unreadable name executables rs)"

definition umbrella_revision_b ::
    "string list \<Rightarrow> string list \<Rightarrow> json list \<Rightarrow> string option \<Rightarrow> string \<Rightarrow> string list \<Rightarrow> outcome res" where
  "umbrella_revision_b rs unreadable forbidden path_match name executables =
     (case search_roots unreadable name executables rs of
        Some (Inl r) \<Rightarrow> Inr (unreadable_at r rs)
      | Some (Inr p) \<Rightarrow>
          and_then (umbrella_inside_forbidden p forbidden) (\<lambda>inside.
          Inr (if inside then untrusted_at p rs else resolved_to p))
      | None \<Rightarrow> Inr (case path_match of Some p \<Rightarrow> untrusted_at p rs | None \<Rightarrow> missing_in rs))"

definition unreadable_roots :: "dict \<Rightarrow> string list \<Rightarrow> string list res" where
  "unreadable_roots c rs =
     map_res (\<lambda>v. if is_list v \<or> is_dict v then Inl TypeError
       else case v of JStr s \<Rightarrow> if s \<in> set rs then Inr s else Inl (fail ''umbrella provider case marks non-root unreadable'')
       | _ \<Rightarrow> Inl (fail ''umbrella provider case marks non-root unreadable'')) (the_list (jget c ''unreadable_dirs''))"

definition umbrella_expected :: "dict \<Rightarrow> (outcome \<times> outcome) res" where
  "umbrella_expected c =
     (let rs = umbrella_trust_roots c; executables = umbrella_executables c in
      and_then (unreadable_roots c rs) (\<lambda>unreadable.
      and_then (as_list (jget_or (JArr []) c ''published_dirs'')) (\<lambda>published.
      and_then (as_list (jget_or (JArr []) c ''managed_dirs'')) (\<lambda>managed.
      and_then (case scalar_text (jget c ''executable_name'') of Some s \<Rightarrow> Inr s | None \<Rightarrow> Inl TypeError) (\<lambda>name.
      let forbidden = published @ managed; path_match = umbrella_path_search c name executables in
      and_then (umbrella_revision_a rs unreadable forbidden path_match) (\<lambda>a.
      and_then (umbrella_revision_b rs unreadable forbidden path_match name executables) (\<lambda>b.
      Inr (a, b))))))))"

section \<open>The gate\<close>

definition UMBRELLA_MEMBERS :: "string list" where
  "UMBRELLA_MEMBERS =
     [''subcommand'', ''executable_name'', ''install_dir'', ''provider_directories'', ''path_entries'', ''published_dirs'',
      ''managed_dirs'', ''present'', ''unreadable_dirs'', ''revision_a'', ''revision_b'']"

definition UMBRELLA_LISTS :: "string list" where
  "UMBRELLA_LISTS = [''provider_directories'', ''path_entries'', ''published_dirs'', ''managed_dirs'', ''present'', ''unreadable_dirs'']"

definition umbrella_shape :: "dict \<Rightarrow> unit res" where
  "umbrella_shape c =
     require
       [(list_all (jhas c) UMBRELLA_MEMBERS, fail ''umbrella provider case lacks a member''),
        ((case scalar_text (jget c ''subcommand'') of None \<Rightarrow> False | Some s \<Rightarrow> jget c ''executable_name'' = JStr (''curator-'' @ s)),
         fail ''umbrella provider case misnames its executable''),
        (list_all (\<lambda>k. is_list (jget c k)) UMBRELLA_LISTS, fail ''umbrella provider case has a non-list member'')]"

definition named_text :: "json \<Rightarrow> bool" where
  "named_text v = (is_str v \<and> the_str v \<noteq> [])"

definition named_list :: "json \<Rightarrow> bool" where
  "named_list v = (is_list v \<and> the_list v \<noteq> [])"

text \<open>The details an outcome of a profile carries with its diagnostic.\<close>

definition umbrella_details :: "string \<Rightarrow> dict \<Rightarrow> unit res" where
  "umbrella_details prof o' =
     (let d = jget o' ''diagnostic''; hint = jget o' ''migration_hint_directory''; untrusted = jget o' ''untrusted_path'';
          unreadable = jget o' ''unreadable_directory''; consulted = jget o' ''trust_roots_consulted'' in
      if d = JStr ''subcommand_provider_outside_trust_roots'' then require
        [(prof = ''revision_a'', fail ''warns outside revision A''), (named_text hint, fail ''warning names no migration-hint directory''),
         (named_list consulted, fail ''warning names no trust-roots-consulted list''),
         (untrusted = JNull \<and> unreadable = JNull, fail ''warning carries a refusal detail'')]
      else if d = JStr ''subcommand_provider_untrusted'' then require
        [(named_text untrusted, fail ''names no untrusted_path''), (named_list consulted, fail ''names no trust-roots-consulted list''),
         (hint = JNull \<and> unreadable = JNull, fail ''refusal carries a foreign detail'')]
      else if d = JStr ''subcommand_provider_missing'' then require
        [(named_list consulted, fail ''names no trust-roots-consulted list''),
         (hint = JNull \<and> untrusted = JNull \<and> unreadable = JNull, fail ''missing outcome carries a refusal detail'')]
      else if d = JStr ''subcommand_provider_root_unreadable'' then require
        [(named_text unreadable, fail ''names no unreadable_directory''), (named_list consulted, fail ''names no trust-roots-consulted list''),
         (hint = JNull \<and> untrusted = JNull, fail ''unreadable failure carries a foreign detail'')]
      else require [(hint = JNull \<and> untrusted = JNull \<and> unreadable = JNull \<and> consulted = JNull, fail ''success carries a diagnostic detail'')])"

definition umbrella_outcome :: "string \<Rightarrow> dict \<Rightarrow> unit res" where
  "umbrella_outcome prof c =
     (case jget c prof of
        JObj o' \<Rightarrow>
          (let d = jget o' ''diagnostic''; resolved = jget o' ''resolved'' in
           and_then (if d = JNull then Inr True else in_frozenset d UMBRELLA_PROVIDER_DIAGNOSTICS) (\<lambda>known.
           and_then (require
             [(known, fail ''uses unknown diagnostic''), (\<not> (d = JNull \<and> resolved = JNull), fail ''neither resolves nor diagnoses''),
              (d = JNull \<or> d = JStr ''subcommand_provider_outside_trust_roots'' \<or> resolved = JNull, fail ''both resolves and refuses'')]) (\<lambda>_.
           and_then (umbrella_details prof o') (\<lambda>_.
           guard (jget o' ''migration_hint_directory'' = JNull \<or> d = JStr ''subcommand_provider_outside_trust_roots'')
             (fail ''carries a hint without the warning'')))))
      | _ \<Rightarrow> Inl (fail ''umbrella provider case lacks a revision''))"

definition umbrella_agrees :: "string \<Rightarrow> dict \<Rightarrow> outcome \<Rightarrow> unit res" where
  "umbrella_agrees prof c want =
     (let o' = the_dict (jget c prof); texts = (\<lambda>ss. JArr (map JStr ss)) in
      require
        [(jget o' ''resolved'' = jopt (uo_resolved want), fail ''resolves otherwise than the model''),
         (jget o' ''diagnostic'' = jopt (uo_diagnostic want), fail ''diagnoses otherwise than the model''),
         (uo_hint want \<noteq> None \<longrightarrow> jget o' ''migration_hint_directory'' = jopt (uo_hint want), fail ''mismatches the model''),
         (uo_untrusted want \<noteq> None \<longrightarrow> jget o' ''untrusted_path'' = jopt (uo_untrusted want), fail ''mismatches the model''),
         (uo_unreadable want \<noteq> None \<longrightarrow> jget o' ''unreadable_directory'' = jopt (uo_unreadable want), fail ''mismatches the model''),
         (case uo_roots want of None \<Rightarrow> True | Some rs \<Rightarrow> jget o' ''trust_roots_consulted'' = texts rs, fail ''mismatches the model'')])"

definition check_umbrella_case :: "dict \<Rightarrow> unit res" where
  "check_umbrella_case c =
     and_then (umbrella_shape c) (\<lambda>_.
     and_then (umbrella_outcome ''revision_a'' c) (\<lambda>_.
     and_then (umbrella_outcome ''revision_b'' c) (\<lambda>_.
     and_then (umbrella_expected c) (\<lambda>(a, b).
     and_then (umbrella_agrees ''revision_a'' c a) (\<lambda>_.
     umbrella_agrees ''revision_b'' c b)))))"

definition diagnosed :: "string list \<Rightarrow> string \<Rightarrow> dict \<Rightarrow> bool" where
  "diagnosed ds prof c = str_in (jget (the_dict (jget c prof)) ''diagnostic'') ds"

definition validate_umbrella_provider_vectors :: "dict \<Rightarrow> unit res" where
  "validate_umbrella_provider_vectors vector =
     and_then (require
       [(py_eq (jget vector ''schema_version'') (JInt 1) \<and> jget vector ''protocol_version'' = JStr ''1.0.0-rc.14'' \<and>
         jget vector ''capability'' = JStr ''agent-environments'' \<and> py_eq (jget vector ''capability_revision'') (JInt 1),
         fail ''umbrella-provider-resolution vector has the wrong capability identity'')]) (\<lambda>_.
     and_then (named_cases (jget vector ''cases'') ''umbrella provider resolution'') (\<lambda>cases.
     and_then (guard (set (map fst cases) = set UMBRELLA_PROVIDER_CASES) (fail ''umbrella provider case inventory is not exact'')) (\<lambda>_.
     and_then (for_each (\<lambda>(_, c). check_umbrella_case c) cases) (\<lambda>_.
     let cs = map snd cases; somewhere = (\<lambda>ds. list_ex (\<lambda>c. diagnosed ds ''revision_a'' c \<or> diagnosed ds ''revision_b'' c) cs) in
     require
       [(somewhere [''subcommand_provider_outside_trust_roots''], fail ''umbrella provider vectors warn under no revision-A case''),
        (somewhere [''subcommand_provider_untrusted'', ''subcommand_provider_missing''], fail ''umbrella provider vectors refuse under no case''),
        (somewhere [''subcommand_provider_root_unreadable''], fail ''umbrella provider vectors fail unreadable under no case'')]))))"

section \<open>Facts about the model\<close>

lemma inside_iff:
  "umbrella_inside_forbidden p forbidden = Inr True \<Longrightarrow> \<exists>e. JStr e \<in> set forbidden \<and> prefix (rstrip_slashes e @ ''/'') p"
  "umbrella_inside_forbidden p forbidden = Inr False \<Longrightarrow> \<forall>v \<in> set forbidden. \<exists>e. v = JStr e \<and> \<not> prefix (rstrip_slashes e @ ''/'') p"
  unfolding umbrella_inside_forbidden_def
  by (auto dest!: any_ok simp: any_none split: json.splits) (metis (no_types, lifting) json.exhaust)

lemma search_sound:
  "search_roots unreadable name executables rs = Some (Inr p) \<Longrightarrow>
     \<exists>before r after. rs = before @ r # after \<and> p = file_in r name \<and> p \<in> set executables \<and> r \<notin> set unreadable \<and>
       (\<forall>q \<in> set before. q \<notin> set unreadable \<and> file_in q name \<notin> set executables)"
proof (induction rs)
  case (Cons r rs)
  show ?case
  proof (cases "r \<notin> set unreadable \<and> file_in r name \<notin> set executables")
    case True
    with Cons obtain before q after where "rs = before @ q # after" "p = file_in q name" "p \<in> set executables" "q \<notin> set unreadable"
      "\<forall>q \<in> set before. q \<notin> set unreadable \<and> file_in q name \<notin> set executables" by auto
    with True show ?thesis by (intro exI [of _ "r # before"] exI [of _ q] exI [of _ after]) auto
  next
    case False
    with Cons.prems show ?thesis by (intro exI [of _ "[]"] exI [of _ r] exI [of _ rs]) (auto split: if_splits)
  qed
qed simp

lemma rstrip_idem [simp]: "rstrip_slashes (rstrip_slashes s) = rstrip_slashes s"
  by (simp add: rstrip_slashes_def dropWhile_dropWhile1)

lemma after_last_free: "CHR ''/'' \<notin> set (after_last (CHR ''/'') s)"
  by (auto simp: after_last_def dest: set_takeWhileD)

lemma map_filter_iff: "y \<in> set (List.map_filter f xs) \<longleftrightarrow> (\<exists>x \<in> set xs. f x = Some y)"
  by (induction xs) (auto simp: List.map_filter_simps split: option.split)

lemma executables_named:
  assumes "p \<in> set (umbrella_executables c)" "jget c ''executable_name'' = JStr n"
  shows "n = after_last (CHR ''/'') p"
proof -
  from assms(1) obtain v where
    "(case v of JObj d \<Rightarrow> (case jget d ''path'' of
         JStr path \<Rightarrow>
           if jget d ''executable'' = JBool True \<and> jget c ''executable_name'' = JStr (after_last (CHR ''/'') path) then Some path else None
       | _ \<Rightarrow> None)
     | _ \<Rightarrow> None) = Some p"
    by (auto simp: umbrella_executables_def map_filter_iff)
  then show ?thesis using assms(2) by (cases v) (auto split: json.split_asm if_split_asm)
qed

lemma before_last_slash: "c \<notin> set n \<Longrightarrow> before_last c (h @ c # n) = h"
  by (simp add: before_last_def dropWhile_append2 dropWhile_append)

lemma dirname_file:
  assumes "CHR ''/'' \<notin> set n"
  shows "file_in (umbrella_dirname (file_in entry n)) n = file_in entry n"
proof -
  have "umbrella_dirname (file_in entry n) = (if rstrip_slashes entry \<noteq> [] then rstrip_slashes entry else ''/'')"
    using before_last_slash [OF assms, of "rstrip_slashes entry"] by (simp add: umbrella_dirname_def file_in_def Let_def)
  then show ?thesis by (auto simp: file_in_def) (simp add: rstrip_slashes_def)
qed

lemma path_search_sound:
  assumes "umbrella_path_search c n executables = Some p"
  shows "p \<in> set executables \<and> (\<exists>entry. p = file_in entry n)"
proof -
  from assms have "p \<in> set executables"
    and "p \<in> set (List.map_filter (\<lambda>v. case v of JStr entry \<Rightarrow> Some (file_in entry n) | _ \<Rightarrow> None) (the_list (jget c ''path_entries'')))"
    unfolding umbrella_path_search_def by (auto simp: find_Some_iff)
  moreover from this(2) obtain v where "(case v of JStr entry \<Rightarrow> Some (file_in entry n) | _ \<Rightarrow> None) = Some p"
    by (auto simp: map_filter_iff)
  ultimately show ?thesis by (cases v) auto
qed

lemma search_finds:
  "r \<in> set rs \<Longrightarrow> \<forall>q \<in> set rs. q \<notin> set unreadable \<Longrightarrow> file_in r n \<in> set executables \<Longrightarrow>
     \<exists>p. search_roots unreadable n executables rs = Some (Inr p)"
  by (induction rs) auto

text \<open>The parts of an expectation.\<close>

lemma expected_parts:
  assumes "umbrella_expected c = Inr (a, b)" "jget c ''executable_name'' = JStr n"
  obtains unreadable forbidden where
    "unreadable_roots c (umbrella_trust_roots c) = Inr unreadable"
    "forbidden = the_list (jget_or (JArr []) c ''published_dirs'') @ the_list (jget_or (JArr []) c ''managed_dirs'')"
    "umbrella_revision_a (umbrella_trust_roots c) unreadable forbidden (umbrella_path_search c n (umbrella_executables c)) = Inr a"
    "umbrella_revision_b (umbrella_trust_roots c) unreadable forbidden (umbrella_path_search c n (umbrella_executables c)) n
       (umbrella_executables c) = Inr b"
  using assms unfolding umbrella_expected_def Let_def
  by (auto simp: and_then_ok_iff scalar_text_def as_list_ok_iff)

lemma outcome_fields [simp]:
  "uo_resolved (resolved_to p) = Some p" "uo_diagnostic (resolved_to p) = None"
  "uo_resolved (missing_in rs) = None" "uo_resolved (untrusted_at p rs) = None" "uo_resolved (unreadable_at r rs) = None"
  "uo_diagnostic (missing_in rs) \<noteq> None" "uo_diagnostic (untrusted_at p rs) = Some ''subcommand_provider_untrusted''"
  "uo_diagnostic (unreadable_at r rs) \<noteq> None" "uo_diagnostic (warned_at p rs) \<noteq> None" "uo_resolved (warned_at p rs) = Some p"
  "untrusted_at p rs \<noteq> resolved_to q"
  by (simp_all add: resolved_to_def missing_in_def untrusted_at_def unreadable_at_def warned_at_def)

lemma revision_b_resolved:
  assumes "umbrella_revision_b rs unreadable forbidden path_match n executables = Inr b" "uo_resolved b = Some p"
  shows "search_roots unreadable n executables rs = Some (Inr p) \<and> umbrella_inside_forbidden p forbidden = Inr False"
  using assms by (auto simp: umbrella_revision_b_def and_then_ok_iff split: option.splits sum.splits if_splits)

text \<open>What revision B resolves to does not depend on the search path.\<close>

lemma revision_b_path:
  assumes "umbrella_revision_b rs unreadable forbidden m n executables = Inr b"
    and "umbrella_revision_b rs unreadable forbidden m' n executables = Inr b'"
  shows "uo_resolved b = uo_resolved b'"
  using assms by (auto simp: umbrella_revision_b_def and_then_ok_iff split: option.splits sum.splits if_splits)

lemma revision_a_silent:
  assumes "umbrella_revision_a rs unreadable forbidden m = Inr a" "uo_diagnostic a = None"
  obtains p where "m = Some p" "uo_resolved a = Some p" "umbrella_dirname p \<in> set rs" "\<forall>q \<in> set rs. q \<notin> set unreadable"
  using assms by (auto simp: umbrella_revision_a_def and_then_ok_iff find_None_iff split: option.splits if_splits)

section \<open>Properties\<close>

lemma unreadable_listed:
  assumes "unreadable_roots c rs = Inr us" "JStr r \<in> set (the_list (jget c ''unreadable_dirs''))"
  shows "r \<in> set us"
proof -
  from map_res_ok_set [OF assms(1) [unfolded unreadable_roots_def]] assms(2)
  obtain i where "i < length us" "(if r \<in> set rs then Inr r else Inl (fail ''umbrella provider case marks non-root unreadable'')) = Inr (us ! i)"
    by (auto simp: list_all2_conv_all_nth in_set_conv_nth)
  then show ?thesis by (auto split: if_splits)
qed

text \<open>A provider of a name found in a trust root, before which no root was unreadable or held one.\<close>

definition trusted_provider :: "dict \<Rightarrow> string \<Rightarrow> bool" where
  "trusted_provider c p \<longleftrightarrow>
     (\<exists>n before r after. jget c ''executable_name'' = JStr n \<and> umbrella_trust_roots c = before @ r # after \<and> p = file_in r n \<and>
        p \<in> set (umbrella_executables c) \<and>
        (\<forall>q \<in> set (before @ [r]). JStr q \<notin> set (the_list (jget c ''unreadable_dirs''))) \<and>
        (\<forall>q \<in> set before. file_in q n \<notin> set (umbrella_executables c)) \<and>
        (\<forall>e. JStr e \<in> set (the_list (jget_or (JArr []) c ''published_dirs'') @ the_list (jget_or (JArr []) c ''managed_dirs'')) \<longrightarrow>
           \<not> prefix (rstrip_slashes e @ ''/'') p))"

lemma resolved_trusted:
  assumes "umbrella_expected c = Inr (a, b)" "jget c ''executable_name'' = JStr n" "uo_resolved b = Some p"
  shows "trusted_provider c p"
proof -
  obtain us forbidden where u: "unreadable_roots c (umbrella_trust_roots c) = Inr us"
    and f: "forbidden = the_list (jget_or (JArr []) c ''published_dirs'') @ the_list (jget_or (JArr []) c ''managed_dirs'')"
    and b: "umbrella_revision_b (umbrella_trust_roots c) us forbidden (umbrella_path_search c n (umbrella_executables c)) n
       (umbrella_executables c) = Inr b"
    by (rule expected_parts [OF assms(1,2)])
  have found: "search_roots us n (umbrella_executables c) (umbrella_trust_roots c) = Some (Inr p)"
    and clear: "umbrella_inside_forbidden p forbidden = Inr False"
    using revision_b_resolved [OF b assms(3)] by auto
  obtain before r after where parts: "umbrella_trust_roots c = before @ r # after" "p = file_in r n" "p \<in> set (umbrella_executables c)"
      "r \<notin> set us" "\<forall>q \<in> set before. q \<notin> set us \<and> file_in q n \<notin> set (umbrella_executables c)"
    using search_sound [OF found] by blast
  have "\<forall>q \<in> set (before @ [r]). JStr q \<notin> set (the_list (jget c ''unreadable_dirs''))"
    using parts(4,5) unreadable_listed [OF u] by auto
  moreover have "\<forall>e. JStr e \<in> set forbidden \<longrightarrow> \<not> prefix (rstrip_slashes e @ ''/'') p"
    using inside_iff(2) [OF clear] by fastforce
  ultimately show ?thesis unfolding trusted_provider_def f [symmetric] using parts assms(2) by blast
qed

lemma gate_case:
  assumes "validate_umbrella_provider_vectors vector = Inr ()" "JObj c \<in> set (the_list (jget vector ''cases''))"
  shows "check_umbrella_case c = Inr ()"
proof -
  from assms(1) obtain cases where "named_cases (jget vector ''cases'') ''umbrella provider resolution'' = Inr cases"
    and each: "for_each (\<lambda>(_, c). check_umbrella_case c) cases = Inr ()"
    unfolding validate_umbrella_provider_vectors_def and_then_ok_iff by auto
  then have "cases = map (\<lambda>v. (the_str (jget (the_dict v) ''name''), the_dict v)) (the_list (jget vector ''cases''))"
    by (auto simp: named_cases_def and_then_ok_iff)
  with each assms(2) show ?thesis by (force simp: for_each_ok_iff)
qed

text \<open>
  C26: an accepted vector never records a provider from outside the trust roots under revision B.  In
  every case of a vector the gate accepts, a provider recorded as resolved by revision B is an
  executable present in a trust root, with no unreadable root up to it and no provider in the roots
  before it, and lies in no directory the manager publishes or manages.
\<close>

theorem umbrella_gate_trusted:
  assumes "validate_umbrella_provider_vectors vector = Inr ()" and "JObj c \<in> set (the_list (jget vector ''cases''))"
    and "jget (the_dict (jget c ''revision_b'')) ''resolved'' = JStr p"
  shows "trusted_provider c p"
proof -
  obtain a b where shape: "umbrella_shape c = Inr ()" and e: "umbrella_expected c = Inr (a, b)" and "umbrella_agrees ''revision_b'' c b = Inr ()"
    using gate_case [OF assms(1,2)] unfolding check_umbrella_case_def and_then_ok_iff by (auto simp: and_then_ok_iff)
  then have "jopt (uo_resolved b) = JStr p" using assms(3) by (simp add: umbrella_agrees_def Let_def)
  then have "uo_resolved b = Some p" by (cases "uo_resolved b") simp_all
  moreover obtain n where "jget c ''executable_name'' = JStr n"
    using shape by (auto simp: umbrella_shape_def split: option.splits)
  ultimately show ?thesis using resolved_trusted [OF e] by blast
qed

lemma expected_paths:
  assumes "umbrella_expected c = Inr (a, b)" "umbrella_expected ((''path_entries'', v) # c) = Inr (a', b')"
  shows "uo_resolved b' = uo_resolved b"
proof -
  let ?c = "(''path_entries'', v) # c"
  have keys: "jget ?c ''executable_name'' = jget c ''executable_name''" "jget ?c ''present'' = jget c ''present''" by simp_all
  have same: "umbrella_trust_roots ?c = umbrella_trust_roots c" "umbrella_executables ?c = umbrella_executables c"
    "unreadable_roots ?c rs = unreadable_roots c rs" for rs
    by (simp add: umbrella_trust_roots_def, simp only: umbrella_executables_def keys, simp add: unreadable_roots_def)
  obtain us p m n where b: "unreadable_roots c (umbrella_trust_roots c) = Inr us" "as_list (jget_or (JArr []) c ''published_dirs'') = Inr p"
      "as_list (jget_or (JArr []) c ''managed_dirs'') = Inr m"
      "(case scalar_text (jget c ''executable_name'') of Some s \<Rightarrow> Inr s | None \<Rightarrow> Inl TypeError) = Inr n"
      "umbrella_revision_b (umbrella_trust_roots c) us (p @ m) (umbrella_path_search c n (umbrella_executables c)) n (umbrella_executables c) = Inr b"
    using assms(1) unfolding umbrella_expected_def Let_def and_then_ok_iff by blast
  have "umbrella_revision_b (umbrella_trust_roots c) us (p @ m) (umbrella_path_search ?c n (umbrella_executables c)) n (umbrella_executables c) = Inr b'"
    using assms(2) b(1-4) unfolding umbrella_expected_def Let_def same by (auto simp: and_then_ok_iff)
  from revision_b_path [OF this b(5)] show ?thesis .
qed

lemma silent_kept:
  assumes "umbrella_expected c = Inr (a, b)" "jget c ''executable_name'' = JStr n" "uo_diagnostic a = None"
  shows "uo_resolved b \<noteq> None \<or> uo_diagnostic b = Some ''subcommand_provider_untrusted''"
proof -
  obtain us forbidden where a: "umbrella_revision_a (umbrella_trust_roots c) us forbidden (umbrella_path_search c n (umbrella_executables c)) = Inr a"
    and b: "umbrella_revision_b (umbrella_trust_roots c) us forbidden (umbrella_path_search c n (umbrella_executables c)) n
       (umbrella_executables c) = Inr b"
    by (rule expected_parts [OF assms(1,2)])
  obtain p where p: "umbrella_path_search c n (umbrella_executables c) = Some p" "umbrella_dirname p \<in> set (umbrella_trust_roots c)"
      "\<forall>q \<in> set (umbrella_trust_roots c). q \<notin> set us"
    by (rule revision_a_silent [OF a assms(3)])
  obtain entry where "p \<in> set (umbrella_executables c)" "p = file_in entry n" using path_search_sound [OF p(1)] by blast
  moreover have "CHR ''/'' \<notin> set n" using executables_named [OF _ assms(2)] calculation(1) after_last_free by metis
  ultimately have "file_in (umbrella_dirname p) n \<in> set (umbrella_executables c)" by (simp add: dirname_file)
  from search_finds [OF p(2,3) this] b show ?thesis
    by (auto simp: umbrella_revision_b_def and_then_ok_iff split: if_splits)
qed

text \<open>
  A planted search path changes nothing under revision B.  Whatever search path replaces the
  one of a case, revision B resolves to the same provider or to none as before; and where revision A
  resolves without a warning, revision B resolves too, or refuses a provider the manager publishes.
\<close>

theorem umbrella_path_ignored:
  assumes "umbrella_expected c = Inr (a, b)"
  shows "(umbrella_expected ((''path_entries'', v) # c) = Inr (a', b') \<longrightarrow> uo_resolved b' = uo_resolved b) \<and>
    (jget c ''executable_name'' = JStr n \<and> uo_diagnostic a = None \<longrightarrow>
       uo_resolved b \<noteq> None \<or> uo_diagnostic b = Some ''subcommand_provider_untrusted'')"
  using expected_paths [OF assms] silent_kept [OF assms] by blast

section \<open>The properties on samples\<close>

definition sample_umbrella :: "string \<Rightarrow> string \<Rightarrow> json list \<Rightarrow> dict \<Rightarrow> dict \<Rightarrow> dict" where
  "sample_umbrella name entry unreadable a b =
     [(''name'', JStr name), (''subcommand'', JStr ''x''), (''executable_name'', JStr ''curator-x''), (''install_dir'', JStr ''/b''),
      (''provider_directories'', JArr []), (''path_entries'', JArr [JStr entry]), (''published_dirs'', JArr [JStr ''/m'']),
      (''managed_dirs'', JArr []), (''present'', JArr [JObj [(''path'', JStr (entry @ ''/curator-x'')), (''executable'', JBool True)]]),
      (''unreadable_dirs'', JArr unreadable), (''revision_a'', JObj a), (''revision_b'', JObj b)]"

definition sample_planted :: dict where
  "sample_planted = sample_umbrella ''s6-planted-path-provider-warns-then-refuses'' ''/p'' []
     [(''diagnostic'', JStr ''subcommand_provider_outside_trust_roots''), (''resolved'', JStr ''/p/curator-x''),
      (''migration_hint_directory'', JStr ''/p''), (''trust_roots_consulted'', JArr [JStr ''/b''])]
     [(''diagnostic'', JStr ''subcommand_provider_untrusted''), (''untrusted_path'', JStr ''/p/curator-x''),
      (''trust_roots_consulted'', JArr [JStr ''/b''])]"

definition sample_unreadable :: dict where
  "sample_unreadable =
     (let o' = [(''diagnostic'', JStr ''subcommand_provider_root_unreadable''), (''unreadable_directory'', JStr ''/b''),
        (''trust_roots_consulted'', JArr [JStr ''/b''])]
      in sample_umbrella ''unreadable-install-directory-fails'' ''/b'' [JStr ''/b''] o' o')"

definition sample_trusted :: "string \<Rightarrow> dict" where
  "sample_trusted name = sample_umbrella name ''/b'' [] [(''resolved'', JStr ''/b/curator-x'')] [(''resolved'', JStr ''/b/curator-x'')]"

definition sample_umbrella_vector :: dict where
  "sample_umbrella_vector =
     [(''schema_version'', JInt 1), (''protocol_version'', JStr ''1.0.0-rc.14''), (''capability'', JStr ''agent-environments''),
      (''capability_revision'', JInt 1),
      (''cases'', JArr (JObj sample_planted # JObj sample_unreadable # map (\<lambda>n. JObj (sample_trusted n))
         (filter (\<lambda>n. n \<notin> {''s6-planted-path-provider-warns-then-refuses'', ''unreadable-install-directory-fails''})
            UMBRELLA_PROVIDER_CASES)))]"

lemma sample_umbrella_accepted: "validate_umbrella_provider_vectors sample_umbrella_vector = Inr ()"
  by code_simp

theorem umbrella_gate_trusted_witness:
  "validate_umbrella_provider_vectors sample_umbrella_vector = Inr () \<and>
   trusted_provider (sample_trusted ''provider-missing'') ''/b/curator-x''"
proof -
  have "JObj (sample_trusted ''provider-missing'') \<in> set (the_list (jget sample_umbrella_vector ''cases''))"
    by (simp add: sample_umbrella_vector_def UMBRELLA_PROVIDER_CASES_def)
  moreover have "jget (the_dict (jget (sample_trusted ''provider-missing'') ''revision_b'')) ''resolved'' = JStr ''/b/curator-x''"
    by (simp add: sample_trusted_def sample_umbrella_def)
  ultimately show ?thesis using umbrella_gate_trusted [OF sample_umbrella_accepted] sample_umbrella_accepted by blast
qed

lemma sample_expected:
  "map_sum id (\<lambda>(a, b). (uo_resolved a, uo_resolved b)) (umbrella_expected sample_planted) = Inr (Some ''/p/curator-x'', None)"
  "map_sum id (\<lambda>(a, b). (uo_resolved a, uo_resolved b)) (umbrella_expected ((''path_entries'', JArr []) # sample_planted)) = Inr (None, None)"
  by code_simp+

theorem umbrella_path_ignored_witness:
  "\<exists>a b a' b'. umbrella_expected sample_planted = Inr (a, b) \<and>
     umbrella_expected ((''path_entries'', JArr []) # sample_planted) = Inr (a', b') \<and>
     uo_resolved a \<noteq> uo_resolved a' \<and> uo_resolved b' = uo_resolved b"
proof -
  obtain a b a' b' where e: "umbrella_expected sample_planted = Inr (a, b)"
      "umbrella_expected ((''path_entries'', JArr []) # sample_planted) = Inr (a', b')"
      "uo_resolved a = Some ''/p/curator-x''" "uo_resolved a' = None"
    using sample_expected by (cases "umbrella_expected sample_planted"; cases "umbrella_expected ((''path_entries'', JArr []) # sample_planted)") auto
  with umbrella_path_ignored [OF e(1), of "JArr []" a' b'] show ?thesis by auto
qed

end
