(* ===== verification/WriteNofollow.thy ===== *)
theory WriteNofollow
  imports Cases
begin

text \<open>
  Writes that follow no links (\<open>validate_environments_write_nofollow_vectors\<close> of
  \<open>tools/validate.py\<close>, environments.md section 8.3.1): the pinned scenarios, the disposition of a
  write, the checks of a case and the gate, with \<open>decode_base64\<close>.

  A case is the dictionary the vector holds; \<open>sha\<close> is the hexadecimal SHA-256 of bytes.  Messages
  are kept without the names the code interpolates.
\<close>

section \<open>Base64\<close>

definition b64_value :: "char \<Rightarrow> nat option" where
  "b64_value c =
     (if is_upper c then Some (ord_of c - 65) else if is_lower c then Some (ord_of c - 71)
      else if is_digit c then Some (ord_of c + 4) else if c = CHR ''+'' then Some 62
      else if c = CHR ''/'' then Some 63 else None)"

text \<open>The bytes of groups of four characters, as \<open>base64.b64decode(value, validate=True)\<close> reads them.\<close>

fun b64_decode :: "string \<Rightarrow> string option" where
  "b64_decode [] = Some []"
| "b64_decode [a, b, c, d] =
     (case (b64_value a, b64_value b) of
        (Some x, Some y) \<Rightarrow>
          let first = char_of (4 * x + y div 16) in
          (case b64_value c of
             None \<Rightarrow> if c = CHR ''='' \<and> d = CHR ''='' then Some [first] else None
           | Some z \<Rightarrow>
               let second = char_of (16 * (y mod 16) + z div 4) in
               (case b64_value d of
                  None \<Rightarrow> if d = CHR ''='' then Some [first, second] else None
                | Some w \<Rightarrow> Some [first, second, char_of (64 * (z mod 4) + w)]))
      | _ \<Rightarrow> None)"
| "b64_decode (a # b # c # d # s) =
     (case (b64_value a, b64_value b, b64_value c, b64_value d, b64_decode s) of
        (Some x, Some y, Some z, Some w, Some bs) \<Rightarrow>
          Some (char_of (4 * x + y div 16) # char_of (16 * (y mod 16) + z div 4) # char_of (64 * (z mod 4) + w) # bs)
      | _ \<Rightarrow> None)"
| "b64_decode _ = None"

definition decode_base64 :: "json \<Rightarrow> string res" where
  "decode_base64 v =
     (case v of
        JStr s \<Rightarrow> (case b64_decode s of None \<Rightarrow> Inl (fail ''is not canonical base64'') | Some bs \<Rightarrow> Inr bs)
      | _ \<Rightarrow> Inl (fail ''must be base64 text''))"

section \<open>The scenarios\<close>

definition WRITE_NOFOLLOW_WRITE_CLASSES :: "string list" where
  "WRITE_NOFOLLOW_WRITE_CLASSES = [''materialize'', ''takeover'', ''repair'', ''backup'']"

definition WRITE_NOFOLLOW_MODES :: "string list" where
  "WRITE_NOFOLLOW_MODES = [''linked'', ''copied'', ''managed-home'']"

definition WRITE_NOFOLLOW_OUTCOMES :: "string list" where
  "WRITE_NOFOLLOW_OUTCOMES = [''written'', ''replaced'', ''refused'']"

definition WRITE_NOFOLLOW_DIAGNOSTICS :: "string list" where
  "WRITE_NOFOLLOW_DIAGNOSTICS = [''environment_write_would_follow_link'', ''environment_foreign_manager_detected'', ''environment_surface_unmanaged_conflict'']"

definition WRITE_NOFOLLOW_TARGET_KINDS :: "string list" where
  "WRITE_NOFOLLOW_TARGET_KINDS = [''absent'', ''file'', ''symlink'']"

definition WRITE_NOFOLLOW_LINK_POINTS :: "string list" where
  "WRITE_NOFOLLOW_LINK_POINTS = [''outside'', ''store'']"

definition WRITE_NOFOLLOW_ENTRY_STATES :: "string list" where
  "WRITE_NOFOLLOW_ENTRY_STATES = [''managed-file'', ''managed-link'', ''unchanged'']"

definition WRITE_NOFOLLOW_FIXTURES :: "string list" where
  "WRITE_NOFOLLOW_FIXTURES = [''foreign-notes'', ''managed-root-context'']"

definition WRITE_NOFOLLOW_SCENARIOS :: "(string \<times> dict) list" where
  "WRITE_NOFOLLOW_SCENARIOS =
     [(''takeover-symlinked-target-authorized-replaced'', [(''operation'', JStr ''takeover''), (''mode'', JStr ''linked''), (''takeover_authorized'', jtrue), (''marker_records_target'', jfalse), (''target_kind'', JStr ''symlink''), (''link_owner'', JStr ''foreign''), (''link_points'', JStr ''outside''), (''parent_link_points'', JNull), (''foreign_target_fixture'', JStr ''foreign-notes'')]),
      (''takeover-symlinked-target-unauthorized-stopped'', [(''operation'', JStr ''takeover''), (''mode'', JStr ''linked''), (''takeover_authorized'', jfalse), (''marker_records_target'', jfalse), (''target_kind'', JStr ''symlink''), (''link_owner'', JStr ''foreign''), (''link_points'', JStr ''outside''), (''parent_link_points'', JNull), (''foreign_target_fixture'', JStr ''foreign-notes'')]),
      (''materialize-symlinked-parent-refused'', [(''operation'', JStr ''materialize''), (''mode'', JStr ''managed-home''), (''takeover_authorized'', jfalse), (''marker_records_target'', jfalse), (''target_kind'', JStr ''absent''), (''link_owner'', JNull), (''link_points'', JNull), (''parent_link_points'', JStr ''outside''), (''foreign_target_fixture'', JStr ''foreign-notes'')]),
      (''takeover-symlinked-parent-authorized-still-refused'', [(''operation'', JStr ''takeover''), (''mode'', JStr ''linked''), (''takeover_authorized'', jtrue), (''marker_records_target'', jfalse), (''target_kind'', JStr ''symlink''), (''link_owner'', JStr ''foreign''), (''link_points'', JStr ''outside''), (''parent_link_points'', JStr ''outside''), (''foreign_target_fixture'', JStr ''foreign-notes'')]),
      (''repair-planted-link-replaced'', [(''operation'', JStr ''repair''), (''mode'', JStr ''copied''), (''takeover_authorized'', jfalse), (''marker_records_target'', jtrue), (''target_kind'', JStr ''symlink''), (''link_owner'', JStr ''foreign''), (''link_points'', JStr ''outside''), (''parent_link_points'', JNull), (''foreign_target_fixture'', JStr ''foreign-notes'')]),
      (''repair-manager-owned-link-replaced'', [(''operation'', JStr ''repair''), (''mode'', JStr ''linked''), (''takeover_authorized'', jfalse), (''marker_records_target'', jtrue), (''target_kind'', JStr ''symlink''), (''link_owner'', JStr ''manager''), (''link_points'', JStr ''store''), (''parent_link_points'', JNull), (''foreign_target_fixture'', JNull)]),
      (''backup-symlinked-destination-refused'', [(''operation'', JStr ''backup''), (''mode'', JStr ''copied''), (''takeover_authorized'', jfalse), (''marker_records_target'', jfalse), (''target_kind'', JStr ''absent''), (''link_owner'', JNull), (''link_points'', JNull), (''parent_link_points'', JStr ''outside''), (''foreign_target_fixture'', JStr ''foreign-notes'')]),
      (''backup-symlinked-target-refused'', [(''operation'', JStr ''backup''), (''mode'', JStr ''copied''), (''takeover_authorized'', jfalse), (''marker_records_target'', jfalse), (''target_kind'', JStr ''symlink''), (''link_owner'', JStr ''foreign''), (''link_points'', JStr ''outside''), (''parent_link_points'', JNull), (''foreign_target_fixture'', JStr ''foreign-notes'')]),
      (''materialize-clean-path-written'', [(''operation'', JStr ''materialize''), (''mode'', JStr ''managed-home''), (''takeover_authorized'', jfalse), (''marker_records_target'', jfalse), (''target_kind'', JStr ''absent''), (''link_owner'', JNull), (''link_points'', JNull), (''parent_link_points'', JNull), (''foreign_target_fixture'', JNull)]),
      (''takeover-inside-link-unauthorized-unmanaged-conflict'', [(''operation'', JStr ''takeover''), (''mode'', JStr ''linked''), (''takeover_authorized'', jfalse), (''marker_records_target'', jfalse), (''target_kind'', JStr ''symlink''), (''link_owner'', JStr ''foreign''), (''link_points'', JStr ''store''), (''parent_link_points'', JNull), (''foreign_target_fixture'', JStr ''foreign-notes'')]),
      (''materialize-recorded-file-replaced'', [(''operation'', JStr ''materialize''), (''mode'', JStr ''copied''), (''takeover_authorized'', jfalse), (''marker_records_target'', jtrue), (''target_kind'', JStr ''file''), (''link_owner'', JNull), (''link_points'', JNull), (''parent_link_points'', JNull), (''foreign_target_fixture'', JNull)])]"

section \<open>One case\<close>

definition target_of :: "dict \<Rightarrow> dict" where
  "target_of c = the_dict (jget_or (JObj []) c ''target'')"

definition write_shape :: "dict \<Rightarrow> unit res" where
  "write_shape c =
     (let kind = jget (target_of c) ''kind''; points = jget (target_of c) ''link_points''; owner = jget (target_of c) ''link_owner'';
          recorded = jget c ''marker_records_target''; up = jget c ''parent_link'' in
      require
        [(str_in (jget c ''operation'') WRITE_NOFOLLOW_WRITE_CLASSES, fail ''names an unknown write class''),
         (str_in (jget c ''mode'') WRITE_NOFOLLOW_MODES, fail ''names an unknown mode''),
         (py_in (jget c ''takeover_authorized'') [jtrue, jfalse] \<and> py_in recorded [jtrue, jfalse],
          fail ''authorization and marker flags must be booleans''),
         (is_dict (jget_or (JObj []) c ''target''), fail ''target is not an object''),
         (str_in kind WRITE_NOFOLLOW_TARGET_KINDS, fail ''names an unknown target kind''),
         (kind = JStr ''symlink'' \<longrightarrow> str_in points WRITE_NOFOLLOW_LINK_POINTS,
          fail ''symlink target must point outside or to the store''),
         (kind = JStr ''symlink'' \<longrightarrow> str_in owner [''manager'', ''foreign''],
          fail ''symlink target must be manager- or foreign-owned''),
         (kind = JStr ''symlink'' \<and> owner = JStr ''manager'' \<longrightarrow> truthy recorded,
          fail ''manager-owned link must be a recorded entry''),
         (kind \<noteq> JStr ''symlink'' \<longrightarrow> points = JNull \<and> owner = JNull, fail ''non-link target must not carry link fields''),
         (up = JNull \<or> is_dict up \<and> str_in (jget (the_dict up) ''link_points'') WRITE_NOFOLLOW_LINK_POINTS,
          fail ''parent link must point outside or to the store''),
         (jget c ''managed_fixture'' = JStr ''managed-root-context'', fail ''managed fixture is not managed-root-context'')])"

definition write_inputs :: "dict \<Rightarrow> dict" where
  "write_inputs c =
     [(''operation'', jget c ''operation''), (''mode'', jget c ''mode''), (''takeover_authorized'', jget c ''takeover_authorized''),
      (''marker_records_target'', jget c ''marker_records_target''), (''target_kind'', jget (target_of c) ''kind''),
      (''link_owner'', jget (target_of c) ''link_owner''), (''link_points'', jget (target_of c) ''link_points''),
      (''parent_link_points'', jget (the_dict (jget c ''parent_link'')) ''link_points''),
      (''foreign_target_fixture'', jget c ''foreign_target_fixture'')]"

definition write_pinned :: "string \<Rightarrow> dict \<Rightarrow> bool" where
  "write_pinned name c =
     (case map_of WRITE_NOFOLLOW_SCENARIOS name of None \<Rightarrow> False | Some p \<Rightarrow> py_eq (JObj (write_inputs c)) (JObj p))"

text \<open>The disposition of section 8.3.1: outcome and diagnostic.\<close>

definition write_disposition ::
    "json \<Rightarrow> json \<Rightarrow> json \<Rightarrow> json \<Rightarrow> bool \<Rightarrow> bool \<Rightarrow> json \<Rightarrow> (string \<times> string option) res" where
  "write_disposition operation kind owner points recorded authorized up =
     (if up \<noteq> JNull then Inr (''refused'', Some ''environment_write_would_follow_link'')
      else if operation = JStr ''backup'' \<and> kind = JStr ''symlink'' then Inr (''refused'', Some ''environment_write_would_follow_link'')
      else if kind = JStr ''symlink'' then
        (if recorded \<or> owner = JStr ''manager'' then Inr (''replaced'', None)
         else if points = JStr ''outside'' then
           (if operation = JStr ''takeover'' \<and> authorized then Inr (''replaced'', None)
            else Inr (''refused'', Some ''environment_foreign_manager_detected''))
         else if operation = JStr ''takeover'' \<and> authorized then Inr (''replaced'', None)
         else Inr (''refused'', Some ''environment_surface_unmanaged_conflict''))
      else if kind = JStr ''absent'' then Inr (''written'', None)
      else if recorded then Inr (''replaced'', None)
      else Inl (fail ''unrecorded regular file is outside this vector scope''))"

definition holds_link :: "dict \<Rightarrow> string \<Rightarrow> bool" where
  "holds_link c outcome =
     (jget (target_of c) ''kind'' = JStr ''symlink'' \<and> outcome = ''replaced'' \<and>
      \<not> (truthy (jget c ''marker_records_target'') \<or> jget (target_of c) ''link_owner'' = JStr ''manager''))"

definition entry_after :: "dict \<Rightarrow> string \<Rightarrow> string" where
  "entry_after c outcome =
     (if outcome = ''refused'' then ''unchanged''
      else if jget (target_of c) ''kind'' = JStr ''symlink'' \<and> truthy (jget c ''marker_records_target'') \<and> jget c ''mode'' = JStr ''linked''
      then ''managed-link'' else ''managed-file'')"

definition foreign_link :: "dict \<Rightarrow> bool" where
  "foreign_link c =
     (jget (target_of c) ''kind'' = JStr ''symlink'' \<and> jget (target_of c) ''link_owner'' = JStr ''foreign'' \<or> jget c ''parent_link'' \<noteq> JNull)"

definition check_foreign :: "dict \<Rightarrow> dict \<Rightarrow> dict \<Rightarrow> unit res" where
  "check_foreign fixtures c expected =
     (let after = jget expected ''foreign_target_sha256_after''; fixture = jget c ''foreign_target_fixture'' in
      if foreign_link c then
        (case fixture of
           JStr f \<Rightarrow>
             (case map_of fixtures f of
                None \<Rightarrow> Inl (fail ''names an unknown foreign-target fixture'')
              | Some fx \<Rightarrow> and_then (item fx ''sha256'') (\<lambda>h. guard (py_eq after h) (fail ''foreign target is not byte-identical afterwards'')))
         | _ \<Rightarrow> Inl (fail ''names an unknown foreign-target fixture''))
      else guard (fixture = JNull \<and> after = JNull) (fail ''carries a foreign target without a foreign link''))"

definition validate_write_nofollow_case :: "dict \<Rightarrow> string \<Rightarrow> dict \<Rightarrow> unit res" where
  "validate_write_nofollow_case fixtures name c =
     and_then (write_shape c) (\<lambda>_.
     and_then (guard (write_pinned name c) (fail ''inputs do not match its pinned scenario'')) (\<lambda>_.
     and_then (write_disposition (jget c ''operation'') (jget (target_of c) ''kind'') (jget (target_of c) ''link_owner'')
       (jget (target_of c) ''link_points'') (truthy (jget c ''marker_records_target'')) (truthy (jget c ''takeover_authorized''))
       (jget c ''parent_link'')) (\<lambda>(outcome, diagnostic).
     case jget_or (JObj []) c ''expected'' of
       JObj expected \<Rightarrow>
         and_then (require
           [(jget expected ''outcome'' = JStr outcome, fail ''outcome does not follow the section 8.3.1 disposition''),
            (jget expected ''diagnostic'' = jopt diagnostic, fail ''diagnostic does not follow the section 8.3.1 disposition''),
            (jget expected ''backup_holds_link'' = JBool (holds_link c outcome), fail ''backup expectation does not follow its disposition''),
            (jget expected ''entry_after'' = JStr (entry_after c outcome), fail ''entry state does not follow its disposition'')]) (\<lambda>_.
         check_foreign fixtures c expected)
     | _ \<Rightarrow> Inl AttributeError)))"

section \<open>The gate\<close>

definition check_fixture :: "(string \<Rightarrow> string) \<Rightarrow> json \<Rightarrow> unit res" where
  "check_fixture sha fixture =
     (case fixture of
        JObj d \<Rightarrow>
          and_then (decode_base64 (jget d ''bytes_base64'')) (\<lambda>raw.
          guard (jget d ''sha256'' = JStr (sha raw)) (fail ''fixture sha256 does not match its bytes''))
      | _ \<Rightarrow> Inl AttributeError)"

definition validate_environments_write_nofollow_vectors :: "(string \<Rightarrow> string) \<Rightarrow> dict \<Rightarrow> unit res" where
  "validate_environments_write_nofollow_vectors sha vector =
     and_then (require
       [(py_eq (jget vector ''schema_version'') (JInt 1) \<and> jget vector ''protocol_version'' = JStr ''1.0.0-rc.14'' \<and>
         jget vector ''capability'' = JStr ''agent-environments'' \<and> py_eq (jget vector ''capability_revision'') (JInt 1) \<and>
         jget vector ''finding'' = JStr ''E5'', fail ''wrong capability identity''),
        (texts_are (jget vector ''write_classes'') WRITE_NOFOLLOW_WRITE_CLASSES, fail ''write classes are not the closed set''),
        (texts_are (jget vector ''modes'') WRITE_NOFOLLOW_MODES, fail ''modes are not the closed set''),
        (texts_are (jget vector ''outcomes'') WRITE_NOFOLLOW_OUTCOMES, fail ''outcomes are not the closed set''),
        (texts_are (jget vector ''diagnostics'') WRITE_NOFOLLOW_DIAGNOSTICS, fail ''diagnostics are not the closed set''),
        (texts_are (jget vector ''target_kinds'') WRITE_NOFOLLOW_TARGET_KINDS, fail ''target kinds are not the closed set''),
        (texts_are (jget vector ''link_points_values'') WRITE_NOFOLLOW_LINK_POINTS, fail ''link-points values are not the closed set''),
        (texts_are (jget vector ''entry_states'') WRITE_NOFOLLOW_ENTRY_STATES, fail ''entry states are not the closed set'')]) (\<lambda>_.
     case jget_or (JObj []) vector ''fixtures'' of
       JObj fixtures \<Rightarrow>
         and_then (guard (fst ` set fixtures = set WRITE_NOFOLLOW_FIXTURES) (fail ''fixture inventory is not exact'')) (\<lambda>_.
         and_then (for_each (\<lambda>(_, fixture). check_fixture sha fixture) fixtures) (\<lambda>_.
         and_then (named_cases (jget vector ''cases'') ''environments write-nofollow'') (\<lambda>cases.
         and_then (guard (set (map fst cases) = set (map fst WRITE_NOFOLLOW_SCENARIOS)) (fail ''case inventory is not exact'')) (\<lambda>_.
         for_each (\<lambda>(name, c). validate_write_nofollow_case fixtures name c) cases))))
     | _ \<Rightarrow> Inl AttributeError)"

section \<open>What acceptance shows\<close>

text \<open>The expectation a case records.\<close>

abbreviation expected_of :: "dict \<Rightarrow> dict" where
  "expected_of c \<equiv> the_dict (jget_or (JObj []) c ''expected'')"

lemma case_parts:
  assumes "validate_write_nofollow_case fixtures name c = Inr ()"
  obtains outcome diagnostic where
    "write_shape c = Inr ()"
    "write_disposition (jget c ''operation'') (jget (target_of c) ''kind'') (jget (target_of c) ''link_owner'')
       (jget (target_of c) ''link_points'') (truthy (jget c ''marker_records_target'')) (truthy (jget c ''takeover_authorized''))
       (jget c ''parent_link'') = Inr (outcome, diagnostic)"
    "jget (expected_of c) ''outcome'' = JStr outcome" "jget (expected_of c) ''diagnostic'' = jopt diagnostic"
    "jget (expected_of c) ''backup_holds_link'' = JBool (holds_link c outcome)"
    "jget (expected_of c) ''entry_after'' = JStr (entry_after c outcome)"
    "check_foreign fixtures c (expected_of c) = Inr ()"
proof -
  from assms obtain outcome diagnostic where shape: "write_shape c = Inr ()"
    and d: "write_disposition (jget c ''operation'') (jget (target_of c) ''kind'') (jget (target_of c) ''link_owner'')
       (jget (target_of c) ''link_points'') (truthy (jget c ''marker_records_target'')) (truthy (jget c ''takeover_authorized''))
       (jget c ''parent_link'') = Inr (outcome, diagnostic)"
    and rest: "(case jget_or (JObj []) c ''expected'' of
       JObj expected \<Rightarrow>
         and_then (require
           [(jget expected ''outcome'' = JStr outcome, fail ''outcome does not follow the section 8.3.1 disposition''),
            (jget expected ''diagnostic'' = jopt diagnostic, fail ''diagnostic does not follow the section 8.3.1 disposition''),
            (jget expected ''backup_holds_link'' = JBool (holds_link c outcome), fail ''backup expectation does not follow its disposition''),
            (jget expected ''entry_after'' = JStr (entry_after c outcome), fail ''entry state does not follow its disposition'')]) (\<lambda>_.
         check_foreign fixtures c expected)
     | _ \<Rightarrow> Inl AttributeError) = Inr ()"
    unfolding validate_write_nofollow_case_def and_then_ok_iff by auto
  from rest obtain expected where e: "jget_or (JObj []) c ''expected'' = JObj expected"
    by (cases "jget_or (JObj []) c ''expected''") auto
  with rest show ?thesis by (intro that [OF shape d]) (simp_all add: and_then_ok_iff)
qed

text \<open>
  What a disposition promises: a write that would go through a link of its parent is refused, and a
  link is replaced only when it is recorded or the takeover is authorized, never for a backup.
\<close>

definition disposition_safe :: "json \<Rightarrow> json \<Rightarrow> bool \<Rightarrow> bool \<Rightarrow> json \<Rightarrow> string \<Rightarrow> bool" where
  "disposition_safe operation kind recorded authorized up outcome \<longleftrightarrow>
     outcome \<in> {''written'', ''replaced'', ''refused''} \<and> (up \<noteq> JNull \<longrightarrow> outcome = ''refused'') \<and>
     (kind = JStr ''symlink'' \<longrightarrow> outcome \<noteq> ''written'' \<and>
        (outcome = ''replaced'' \<longrightarrow> operation \<noteq> JStr ''backup'' \<and> (recorded \<or> operation = JStr ''takeover'' \<and> authorized)))"

lemma disposition_is_safe:
  assumes "write_disposition operation kind owner points recorded authorized up = Inr (outcome, diagnostic)"
    and "kind = JStr ''symlink'' \<and> owner = JStr ''manager'' \<longrightarrow> recorded"
  shows "disposition_safe operation kind recorded authorized up outcome \<and> (diagnostic = None \<longleftrightarrow> outcome \<noteq> ''refused'')"
  using assms unfolding write_disposition_def disposition_safe_def by (auto split: if_splits)

lemma gate_write_case:
  assumes "validate_environments_write_nofollow_vectors sha vector = Inr ()" "JObj c \<in> set (the_list (jget vector ''cases''))"
  obtains fixtures name where "jget_or (JObj []) vector ''fixtures'' = JObj fixtures"
    "\<forall>(f, fixture) \<in> set fixtures. check_fixture sha fixture = Inr ()" "validate_write_nofollow_case fixtures name c = Inr ()"
proof -
  from assms(1) obtain fixtures where f: "jget_or (JObj []) vector ''fixtures'' = JObj fixtures"
    unfolding validate_environments_write_nofollow_vectors_def and_then_ok_iff
    by (cases "jget_or (JObj []) vector ''fixtures''") auto
  with assms(1) obtain cases where "for_each (\<lambda>(_, fixture). check_fixture sha fixture) fixtures = Inr ()"
      and cases: "named_cases (jget vector ''cases'') ''environments write-nofollow'' = Inr cases"
      "for_each (\<lambda>(name, c). validate_write_nofollow_case fixtures name c) cases = Inr ()"
    unfolding validate_environments_write_nofollow_vectors_def and_then_ok_iff by (auto simp: and_then_ok_iff)
  moreover from cases assms(2) obtain name where "validate_write_nofollow_case fixtures name c = Inr ()"
    by (force simp: named_cases_def and_then_ok_iff for_each_ok_iff)
  ultimately show ?thesis by (intro that [OF f]) (auto simp: for_each_ok_iff)
qed

lemma foreign_untouched:
  assumes "check_foreign fixtures c expected = Inr ()" "\<forall>(f, fixture) \<in> set fixtures. check_fixture sha fixture = Inr ()" "foreign_link c"
  shows "\<exists>raw. jget expected ''foreign_target_sha256_after'' = JStr (sha raw)"
proof -
  from assms(1,3) obtain f fx h where fx: "map_of fixtures f = Some fx" "item fx ''sha256'' = Inr h"
      "py_eq (jget expected ''foreign_target_sha256_after'') h"
    by (auto simp: check_foreign_def Let_def and_then_ok_iff split: json.splits option.splits)
  with assms(2) have "check_fixture sha fx = Inr ()" using map_of_SomeD [OF fx(1)] by auto
  then obtain raw where "h = JStr (sha raw)" using fx(2)
    by (auto simp: check_fixture_def item_ok_iff jget_def and_then_ok_iff split: json.splits)
  with fx(3) show ?thesis by auto
qed

section \<open>Properties\<close>

text \<open>
  No accepted case writes through a link.  In every case of a vector the gate accepts, the recorded
  outcome is written, replaced or refused; it is refused when a parent of the target is a link; a link
  at the target is replaced only when the marker records it or the takeover is authorized, never for a
  backup, and then the backup holds a link that was not recorded; a refused write leaves the entry
  unchanged; and the target of a foreign link keeps the digest of its fixture's bytes.
\<close>

theorem write_nofollow_safe:
  assumes "validate_environments_write_nofollow_vectors sha vector = Inr ()" and "JObj c \<in> set (the_list (jget vector ''cases''))"
  shows "\<exists>outcome. jget (expected_of c) ''outcome'' = JStr outcome \<and>
    disposition_safe (jget c ''operation'') (jget (target_of c) ''kind'') (truthy (jget c ''marker_records_target''))
      (truthy (jget c ''takeover_authorized'')) (jget c ''parent_link'') outcome \<and>
    (jget (expected_of c) ''diagnostic'' = JNull \<longleftrightarrow> outcome \<noteq> ''refused'') \<and>
    (outcome = ''refused'' \<longrightarrow> jget (expected_of c) ''entry_after'' = JStr ''unchanged'') \<and>
    (jget (expected_of c) ''backup_holds_link'' = jtrue \<longleftrightarrow> holds_link c outcome) \<and>
    (foreign_link c \<longrightarrow> (\<exists>raw. jget (expected_of c) ''foreign_target_sha256_after'' = JStr (sha raw)))"
proof -
  obtain fixtures name where fixtures: "\<forall>(f, fixture) \<in> set fixtures. check_fixture sha fixture = Inr ()"
    and c: "validate_write_nofollow_case fixtures name c = Inr ()"
    by (rule gate_write_case [OF assms])
  obtain outcome diagnostic where parts: "write_shape c = Inr ()"
    "write_disposition (jget c ''operation'') (jget (target_of c) ''kind'') (jget (target_of c) ''link_owner'')
       (jget (target_of c) ''link_points'') (truthy (jget c ''marker_records_target'')) (truthy (jget c ''takeover_authorized''))
       (jget c ''parent_link'') = Inr (outcome, diagnostic)"
    "jget (expected_of c) ''outcome'' = JStr outcome" "jget (expected_of c) ''diagnostic'' = jopt diagnostic"
    "jget (expected_of c) ''backup_holds_link'' = JBool (holds_link c outcome)"
    "jget (expected_of c) ''entry_after'' = JStr (entry_after c outcome)"
    "check_foreign fixtures c (expected_of c) = Inr ()"
    by (rule case_parts [OF c])
  have owned: "jget (target_of c) ''kind'' = JStr ''symlink'' \<and> jget (target_of c) ''link_owner'' = JStr ''manager'' \<longrightarrow>
      truthy (jget c ''marker_records_target'')"
    using parts(1) by (simp add: write_shape_def Let_def)
  note safe = disposition_is_safe [OF parts(2) owned]
  show ?thesis
  proof (intro exI [of _ outcome] conjI)
    show "jget (expected_of c) ''diagnostic'' = JNull \<longleftrightarrow> outcome \<noteq> ''refused''"
      using parts(4) safe by (cases diagnostic) auto
    show "outcome = ''refused'' \<longrightarrow> jget (expected_of c) ''entry_after'' = JStr ''unchanged''"
      using parts(6) by (simp add: entry_after_def)
    show "foreign_link c \<longrightarrow> (\<exists>raw. jget (expected_of c) ''foreign_target_sha256_after'' = JStr (sha raw))"
      using foreign_untouched [OF parts(7) fixtures] by blast
  qed (use parts(3,5) safe in simp_all)
qed

section \<open>The property on a sample\<close>

text \<open>A case with the inputs of a scenario and the expectation the disposition asks for.\<close>

definition sample_inputs :: "string \<Rightarrow> dict \<Rightarrow> dict" where
  "sample_inputs name p =
     [(''name'', JStr name), (''operation'', jget p ''operation''), (''mode'', jget p ''mode''),
      (''takeover_authorized'', jget p ''takeover_authorized''), (''marker_records_target'', jget p ''marker_records_target''),
      (''target'', JObj [(''kind'', jget p ''target_kind''), (''link_owner'', jget p ''link_owner''), (''link_points'', jget p ''link_points'')]),
      (''parent_link'', if jget p ''parent_link_points'' = JNull then JNull else JObj [(''link_points'', jget p ''parent_link_points'')]),
      (''managed_fixture'', JStr ''managed-root-context''), (''foreign_target_fixture'', jget p ''foreign_target_fixture'')]"

definition sample_write :: "string \<Rightarrow> dict \<Rightarrow> dict" where
  "sample_write name p =
     (let c = sample_inputs name p in
      case write_disposition (jget p ''operation'') (jget p ''target_kind'') (jget p ''link_owner'') (jget p ''link_points'')
        (truthy (jget p ''marker_records_target'')) (truthy (jget p ''takeover_authorized'')) (jget c ''parent_link'') of
        Inl _ \<Rightarrow> []
      | Inr (outcome, diagnostic) \<Rightarrow>
          c @ [(''expected'', JObj [(''outcome'', JStr outcome), (''diagnostic'', jopt diagnostic),
            (''backup_holds_link'', JBool (holds_link c outcome)), (''entry_after'', JStr (entry_after c outcome)),
            (''foreign_target_sha256_after'', if foreign_link c then JStr ''d'' else JNull)])])"

definition sample_write_vector :: dict where
  "sample_write_vector =
     [(''schema_version'', JInt 1), (''protocol_version'', JStr ''1.0.0-rc.14''), (''capability'', JStr ''agent-environments''),
      (''capability_revision'', JInt 1), (''finding'', JStr ''E5''),
      (''write_classes'', JArr (map JStr WRITE_NOFOLLOW_WRITE_CLASSES)), (''modes'', JArr (map JStr WRITE_NOFOLLOW_MODES)),
      (''outcomes'', JArr (map JStr WRITE_NOFOLLOW_OUTCOMES)), (''diagnostics'', JArr (map JStr WRITE_NOFOLLOW_DIAGNOSTICS)),
      (''target_kinds'', JArr (map JStr WRITE_NOFOLLOW_TARGET_KINDS)), (''link_points_values'', JArr (map JStr WRITE_NOFOLLOW_LINK_POINTS)),
      (''entry_states'', JArr (map JStr WRITE_NOFOLLOW_ENTRY_STATES)),
      (''fixtures'', JObj (map (\<lambda>f. (f, JObj [(''bytes_base64'', JStr ''QUI=''), (''sha256'', JStr ''d'')])) WRITE_NOFOLLOW_FIXTURES)),
      (''cases'', JArr (map (\<lambda>(name, p). JObj (sample_write name p)) WRITE_NOFOLLOW_SCENARIOS))]"

lemma sample_write_accepted: "validate_environments_write_nofollow_vectors (\<lambda>_. ''d'') sample_write_vector = Inr ()"
  by code_simp

lemma sample_write_case: "\<exists>c. JObj c \<in> set (the_list (jget sample_write_vector ''cases'')) \<and> foreign_link c \<and>
    jget c ''parent_link'' \<noteq> JNull \<and> truthy (jget c ''takeover_authorized'')"
proof -
  have "list_ex (\<lambda>v. is_dict v \<and> foreign_link (the_dict v) \<and> jget (the_dict v) ''parent_link'' \<noteq> JNull \<and>
      truthy (jget (the_dict v) ''takeover_authorized'')) (the_list (jget sample_write_vector ''cases''))"
    by code_simp
  then obtain v where v: "v \<in> set (the_list (jget sample_write_vector ''cases''))" "is_dict v" "foreign_link (the_dict v)"
      "jget (the_dict v) ''parent_link'' \<noteq> JNull" "truthy (jget (the_dict v) ''takeover_authorized'')"
    by (auto simp: list_ex_iff)
  have "JObj (the_dict v) = v" using v(2) by (cases v) simp_all
  with v show ?thesis by metis
qed

theorem write_nofollow_safe_witness:
  "\<exists>c. JObj c \<in> set (the_list (jget sample_write_vector ''cases'')) \<and> truthy (jget c ''takeover_authorized'') \<and>
     jget (expected_of c) ''outcome'' = JStr ''refused'' \<and> jget (expected_of c) ''entry_after'' = JStr ''unchanged'' \<and>
     jget (expected_of c) ''foreign_target_sha256_after'' = JStr ''d''"
proof -
  obtain c where c: "JObj c \<in> set (the_list (jget sample_write_vector ''cases''))" "foreign_link c" "jget c ''parent_link'' \<noteq> JNull"
      "truthy (jget c ''takeover_authorized'')"
    using sample_write_case by blast
  from write_nofollow_safe [OF sample_write_accepted c(1)] c(2,3)
  have "jget (expected_of c) ''outcome'' = JStr ''refused''" "jget (expected_of c) ''entry_after'' = JStr ''unchanged''"
    "jget (expected_of c) ''foreign_target_sha256_after'' = JStr ''d''"
    by (auto simp: disposition_safe_def)
  with c show ?thesis by blast
qed

end
