(* ===== verification/PathKind.thy ===== *)
theory PathKind
  imports Cases
begin

text \<open>
  Admission of path sources (\<open>validate_environments_path_kind_admission_vectors\<close> of
  \<open>tools/validate.py\<close>): MCP declarations resolve only from git sources, a path directory passes
  five boundary checks at every resolve, and a dry run plans no rebuild of one.

  A case is the dictionary the vector holds.  Messages are kept without the names the code
  interpolates.
\<close>

section \<open>The closed sets and the pins\<close>

definition E6_BOUNDARY_CHECKS :: "string list" where
  "E6_BOUNDARY_CHECKS = [''ownership'', ''permissions'', ''containment'', ''regular_types'', ''link_safety'']"

definition E6_SOURCE_KINDS :: "string list" where
  "E6_SOURCE_KINDS = [''git'', ''path'']"

definition E6_PIN_KINDS :: "string list" where
  "E6_PIN_KINDS = [''commit'', ''state_sha256'']"

definition E6_MCP_ORIGINS :: "string list" where
  "E6_MCP_ORIGINS = [''requires-edge'', ''root'', ''overlay'', ''onboarding-import'']"

definition E6_ROLES :: "string list" where
  "E6_ROLES = [''root'', ''overlay'', ''member'']"

definition E6_ORIGINS :: "string list" where
  "E6_ORIGINS = [''operator'', ''onboarding-import'']"

definition E6_POLICIES :: "string list" where
  "E6_POLICIES = [''drop'', ''error'']"

definition E6_MCP_NEGATIVE_CASES :: "string list" where
  "E6_MCP_NEGATIVE_CASES = [''path-mcp-declaration-admitted'']"

definition E6_BOUNDARY_NEGATIVE_CASES :: "string list" where
  "E6_BOUNDARY_NEGATIVE_CASES = [''path-overlay-untrusted-rebuilds'', ''path-overlay-untrusted-reported-current'']"

definition E6_DRY_RUN_NEGATIVE_CASES :: "string list" where
  "E6_DRY_RUN_NEGATIVE_CASES = [''path-overlay-dry-run-reports-would-rebuild'']"

definition E6_MCP_PIN :: "(string \<times> dict) list" where
  "E6_MCP_PIN =
     [(''git-mcp-declaration-admitted'', [(''source_kind'', JStr ''git''), (''pin_kind'', JStr ''commit''), (''origin'', JStr ''requires-edge'')]),
      (''path-overlay-mcp-declaration-refused'', [(''source_kind'', JStr ''path''), (''pin_kind'', JStr ''state_sha256''), (''origin'', JStr ''overlay'')]),
      (''path-root-mcp-declaration-refused'', [(''source_kind'', JStr ''path''), (''pin_kind'', JStr ''state_sha256''), (''origin'', JStr ''root'')]),
      (''path-import-mcp-declaration-refused'', [(''source_kind'', JStr ''path''), (''pin_kind'', JStr ''state_sha256''), (''origin'', JStr ''onboarding-import'')]),
      (''path-mcp-declaration-admitted'', [(''source_kind'', JStr ''path''), (''pin_kind'', JStr ''state_sha256''), (''origin'', JStr ''overlay'')])]"

definition E6_BOUNDARY_PIN :: "(string \<times> dict) list" where
  "E6_BOUNDARY_PIN =
     [(''path-overlay-system-module-admitted'', [(''check'', JNull), (''direct'', jtrue), (''carries'', jtrue), (''policy'', JStr ''drop''), (''role'', JStr ''overlay''), (''origin'', JStr ''operator'')]),
      (''path-root-no-system-modules-admitted'', [(''check'', JNull), (''direct'', jtrue), (''carries'', jfalse), (''policy'', JStr ''drop''), (''role'', JStr ''root''), (''origin'', JStr ''operator'')]),
      (''path-import-no-system-modules-admitted'', [(''check'', JNull), (''direct'', jtrue), (''carries'', jfalse), (''policy'', JStr ''drop''), (''role'', JStr ''root''), (''origin'', JStr ''onboarding-import'')]),
      (''path-overlay-no-system-modules-admitted'', [(''check'', JNull), (''direct'', jtrue), (''carries'', jfalse), (''policy'', JStr ''drop''), (''role'', JStr ''overlay''), (''origin'', JStr ''operator'')]),
      (''path-overlay-world-writable-untrusted'', [(''check'', JStr ''permissions''), (''direct'', jtrue), (''carries'', jtrue), (''policy'', JStr ''drop''), (''role'', JStr ''overlay''), (''origin'', JStr ''operator'')]),
      (''path-overlay-symlinked-component-untrusted'', [(''check'', JStr ''link_safety''), (''direct'', jtrue), (''carries'', jtrue), (''policy'', JStr ''drop''), (''role'', JStr ''overlay''), (''origin'', JStr ''operator'')]),
      (''path-overlay-wrong-ownership-untrusted'', [(''check'', JStr ''ownership''), (''direct'', jtrue), (''carries'', jtrue), (''policy'', JStr ''drop''), (''role'', JStr ''overlay''), (''origin'', JStr ''operator'')]),
      (''path-overlay-containment-escape-untrusted'', [(''check'', JStr ''containment''), (''direct'', jtrue), (''carries'', jtrue), (''policy'', JStr ''drop''), (''role'', JStr ''overlay''), (''origin'', JStr ''operator'')]),
      (''path-overlay-non-regular-component-untrusted'', [(''check'', JStr ''regular_types''), (''direct'', jtrue), (''carries'', jtrue), (''policy'', JStr ''drop''), (''role'', JStr ''overlay''), (''origin'', JStr ''operator'')]),
      (''path-overlay-no-system-world-writable-untrusted'', [(''check'', JStr ''permissions''), (''direct'', jtrue), (''carries'', jfalse), (''policy'', JStr ''drop''), (''role'', JStr ''overlay''), (''origin'', JStr ''operator'')]),
      (''path-import-no-system-wrong-ownership-untrusted'', [(''check'', JStr ''ownership''), (''direct'', jtrue), (''carries'', jfalse), (''policy'', JStr ''drop''), (''role'', JStr ''root''), (''origin'', JStr ''onboarding-import'')]),
      (''path-transitive-system-module-refused'', [(''check'', JNull), (''direct'', jfalse), (''carries'', jtrue), (''policy'', JStr ''error''), (''role'', JStr ''member''), (''origin'', JStr ''operator'')]),
      (''path-overlay-untrusted-reported-current'', [(''check'', JStr ''permissions''), (''direct'', jtrue), (''carries'', jtrue), (''policy'', JStr ''drop''), (''role'', JStr ''overlay''), (''origin'', JStr ''operator'')]),
      (''path-overlay-untrusted-rebuilds'', [(''check'', JStr ''ownership''), (''direct'', jtrue), (''carries'', jtrue), (''policy'', JStr ''drop''), (''role'', JStr ''overlay''), (''origin'', JStr ''operator'')])]"

definition E6_DRY_RUN_PIN :: "(string \<times> dict) list" where
  "E6_DRY_RUN_PIN =
     [(''path-overlay-dry-run-untrusted-no-rebuild'', [(''check'', JStr ''permissions''), (''direct'', jtrue), (''carries'', jtrue), (''policy'', JStr ''drop''), (''role'', JStr ''overlay''), (''origin'', JStr ''operator'')]),
      (''path-overlay-dry-run-intact-plans-nothing'', [(''check'', JNull), (''direct'', jtrue), (''carries'', jtrue), (''policy'', JStr ''drop''), (''role'', JStr ''overlay''), (''origin'', JStr ''operator'')]),
      (''path-overlay-dry-run-reports-would-rebuild'', [(''check'', JStr ''permissions''), (''direct'', jtrue), (''carries'', jtrue), (''policy'', JStr ''drop''), (''role'', JStr ''overlay''), (''origin'', JStr ''operator'')])]"
section \<open>MCP declarations\<close>

definition mcp_diagnostic :: "dict \<Rightarrow> string option" where
  "mcp_diagnostic c = (if jget c ''source_kind'' = JStr ''git'' then None else Some ''mcp_declaration_path_source_refused'')"

definition mcp_admitted :: "dict \<Rightarrow> bool" where
  "mcp_admitted c \<longleftrightarrow> jget c ''source_kind'' = JStr ''git''"

definition mcp_shape :: "dict \<Rightarrow> unit res" where
  "mcp_shape c =
     (let git = (jget c ''source_kind'' = JStr ''git'') in
      require
        [(str_in (jget c ''source_kind'') E6_SOURCE_KINDS, fail ''source_kind must be git or path''),
         (str_in (jget c ''pin_kind'') E6_PIN_KINDS, fail ''pin_kind must be commit or state_sha256''),
         (str_in (jget c ''origin'') E6_MCP_ORIGINS, fail ''origin must be one of''),
         (truthy (jget c ''package'') \<and> truthy (jget c ''declaration''), fail ''package and declaration must be named''),
         (git \<longrightarrow> truthy (jget c ''source'') \<and> jget c ''pin_kind'' = JStr ''commit'',
          fail ''a git declaration carries a canonical source and a commit pin''),
         (\<not> git \<longrightarrow> jget c ''source'' = JNull \<and> jget c ''pin_kind'' = JStr ''state_sha256'',
          fail ''a path declaration carries no source and a state pin'')])"

definition e6_check_mcp_pin :: "dict \<Rightarrow> dict \<Rightarrow> unit res" where
  "e6_check_mcp_pin pin c =
     require (map (\<lambda>k. (py_eq (jget c k) (jget pin k), fail (k @ '' is not the one of this branch''))) [''source_kind'', ''pin_kind'', ''origin''])"

definition check_mcp_case :: "string \<Rightarrow> dict \<Rightarrow> unit res" where
  "check_mcp_case name c =
     and_then (mcp_shape c) (\<lambda>_.
     and_then (pinned E6_MCP_PIN name) (\<lambda>pin.
     and_then (e6_check_mcp_pin pin c) (\<lambda>_.
     let admitted = mcp_admitted c; diagnostic = jopt (mcp_diagnostic c) in
     if name \<in> set E6_MCP_NEGATIVE_CASES then
       check_negative c (\<not> (jget c ''admitted'' = JBool admitted \<and> jget c ''diagnostic'' = diagnostic))
     else require
       [(jget c ''conforming'' \<noteq> jfalse, fail ''a positive case must not carry conforming=false''),
        (jget c ''admitted'' = JBool admitted, fail ''admission is not the 2.2 rule''),
        (jget c ''diagnostic'' = diagnostic, fail ''diagnostic is not the 2.1 rule''),
        (admitted \<longrightarrow> jget c ''names_package'' = JNull \<and> jget c ''names_declaration'' = JNull, fail ''an admitted declaration names nothing''),
        (\<not> admitted \<longrightarrow> py_eq (jget c ''names_package'') (jget c ''package'') \<and> py_eq (jget c ''names_declaration'') (jget c ''declaration''),
         fail ''the refusal names the package and the declaration'')])))"

section \<open>Path directories\<close>

definition policy_of :: "dict \<Rightarrow> json res" where
  "policy_of c = (case jget_or (JObj []) c ''machine_policy'' of JObj d \<Rightarrow> Inr (jget d ''transitive_system_modules'') | _ \<Rightarrow> Inl AttributeError)"

definition carries :: "dict \<Rightarrow> bool" where
  "carries c \<longleftrightarrow> truthy (jget c ''carries_system_modules'')"

definition path_shape :: "dict \<Rightarrow> json res" where
  "path_shape c =
     and_then (require
       [(str_in (jget c ''role'') E6_ROLES, fail ''role must be one of''),
        (str_in (jget c ''origin'') E6_ORIGINS, fail ''origin must be operator or onboarding-import''),
        (is_bool (jget c ''direct'') \<and> is_bool (jget c ''carries_system_modules''), fail ''direct and carries_system_modules must be booleans'')]) (\<lambda>_.
     and_then (policy_of c) (\<lambda>policy.
     and_then (require
       [(str_in policy E6_POLICIES, fail ''policy must be drop or error''),
        (is_str (jget c ''path'') \<and> prefix ''/'' (the_str (jget c ''path'')), fail ''path must be an absolute directory''),
        (truthy (jget c ''package''), fail ''package must be named''),
        (carries c \<longrightarrow> truthy (jget c ''module''), fail ''a system-module carrier names its module''),
        (\<not> carries c \<longrightarrow> jget c ''module'' = JNull, fail ''no module without system modules'')]) (\<lambda>_.
     Inr policy)))"

text \<open>The checks that fail, in order (\<open>e6_check_boundary_inputs\<close>, \<open>e6_boundary_trusted\<close>).\<close>

definition e6_boundary_failing :: "dict \<Rightarrow> string list res" where
  "e6_boundary_failing c =
     and_then (require ((\<not> jhas c ''pin_hash_match'', fail ''no pin is recomputed against the live directory'') #
       map (\<lambda>k. (is_bool (jget c k), fail (k @ '' must be a boolean''))) E6_BOUNDARY_CHECKS)) (\<lambda>_.
     Inr (filter (\<lambda>k. \<not> truthy (jget c k)) E6_BOUNDARY_CHECKS))"

definition e6_check_boundary_pin :: "dict \<Rightarrow> dict \<Rightarrow> string list \<Rightarrow> unit res" where
  "e6_check_boundary_pin pin c failing =
     and_then (require
       [(jget c ''direct'' = jget pin ''direct'', fail ''direct is not the one of this branch''),
        (jget c ''carries_system_modules'' = jget pin ''carries'', fail ''carries_system_modules is not the one of this branch'')]) (\<lambda>_.
     and_then (policy_of c) (\<lambda>policy.
     require
       [(py_eq policy (jget pin ''policy''), fail ''policy is not the one of this branch''),
        (py_eq (jget c ''role'') (jget pin ''role''), fail ''role is not the one of this branch''),
        (py_eq (jget c ''origin'') (jget pin ''origin''), fail ''origin is not the one of this branch''),
        (jget pin ''check'' = JNull \<longrightarrow> failing = [], fail ''this branch models no failing boundary check''),
        (jget pin ''check'' \<noteq> JNull \<longrightarrow> str_in (jget pin ''check'') failing, fail ''this branch must fail its check''),
        (jget pin ''check'' \<noteq> JNull \<longrightarrow> length failing = 1, fail ''this branch isolates exactly its failing check'')]))"

definition boundary_diagnostic :: "dict \<Rightarrow> json \<Rightarrow> string list \<Rightarrow> string option" where
  "boundary_diagnostic c policy failing =
     (if failing \<noteq> [] then Some ''environment_store_untrusted''
      else if carries c \<and> \<not> truthy (jget c ''direct'') \<and> policy = JStr ''error'' then Some ''context_system_module_transitive''
      else None)"

definition e6_expected_names :: "dict \<Rightarrow> string option \<Rightarrow> string list \<Rightarrow> dict" where
  "e6_expected_names c diagnostic failing =
     (if diagnostic = Some ''environment_store_untrusted'' then
        [(''names_path'', jget c ''path''), (''names_check'', JStr (hd failing)), (''names_package'', JNull), (''names_module'', JNull)]
      else if diagnostic = Some ''context_system_module_transitive'' then
        [(''names_path'', JNull), (''names_check'', JNull), (''names_package'', jget c ''package''), (''names_module'', jget c ''module'')]
      else [(''names_path'', JNull), (''names_check'', JNull), (''names_package'', JNull), (''names_module'', JNull)])"

definition first_failing :: "string list \<Rightarrow> json" where
  "first_failing failing = (if failing = [] then JNull else JStr (hd failing))"

definition check_boundary_case :: "string \<Rightarrow> dict \<Rightarrow> unit res" where
  "check_boundary_case name c =
     and_then (path_shape c) (\<lambda>policy.
     and_then (e6_boundary_failing c) (\<lambda>failing.
     and_then (pinned E6_BOUNDARY_PIN name) (\<lambda>pin.
     and_then (e6_check_boundary_pin pin c failing) (\<lambda>_.
     let diagnostic = boundary_diagnostic c policy failing; named = e6_expected_names c diagnostic failing in
     if name \<in> set E6_BOUNDARY_NEGATIVE_CASES then
       check_negative c (\<not> (jget c ''diagnostic'' = jopt diagnostic \<and> jget c ''fragment_emitted'' = JBool (diagnostic = None) \<and>
         jget c ''row_current'' = JBool (diagnostic = None) \<and> jget c ''rebuild_planned'' = jfalse \<and>
         list_all (\<lambda>(k, v). py_eq (jget c k) v) named))
     else require
       [(jget c ''conforming'' \<noteq> jfalse, fail ''a positive case must not carry conforming=false''),
        (jget c ''diagnostic'' = jopt diagnostic, fail ''diagnostic is not the rule''),
        (jget c ''fragment_emitted'' = JBool (diagnostic = None), fail ''fragment verdict is not the rule''),
        (jget c ''row_current'' = JBool (diagnostic = None), fail ''currency is not the rule''),
        (jget c ''rebuild_planned'' = jfalse, fail ''a path source is never rebuilt''),
        (jget c ''failing_check'' = first_failing failing, fail ''failing_check is not the rule''),
        (list_all (\<lambda>(k, v). py_eq (jget c k) v) named, fail ''naming is not the rule'')]))))"

section \<open>Dry runs\<close>

definition check_dry_run_case :: "string \<Rightarrow> dict \<Rightarrow> unit res" where
  "check_dry_run_case name c =
     and_then (path_shape c) (\<lambda>_.
     and_then (e6_boundary_failing c) (\<lambda>failing.
     and_then (pinned E6_DRY_RUN_PIN name) (\<lambda>pin.
     and_then (e6_check_boundary_pin pin c failing) (\<lambda>_.
     let diagnostic = (if failing \<noteq> [] then JStr ''environment_store_untrusted'' else JNull);
         names_path = (if failing \<noteq> [] then jget c ''path'' else JNull); check = first_failing failing in
     if name \<in> set E6_DRY_RUN_NEGATIVE_CASES then require
       [(jget c ''conforming'' = jfalse \<and> truthy (jget c ''reason''), fail ''a negative needs conforming=false and a reason''),
        (jget c ''outcome'' = JStr ''would-rebuild-untrusted-store'', fail ''this branch must report would-rebuild-untrusted-store''),
        (jget c ''diagnostic'' = diagnostic \<and> jget c ''mutated'' = jfalse \<and> jget c ''rebuild_planned'' = jfalse \<and>
         jget c ''failing_check'' = check \<and> py_eq (jget c ''names_path'') names_path \<and> jget c ''names_check'' = check,
         fail ''only the reported outcome violates the rule'')]
     else require
       [(jget c ''conforming'' \<noteq> jfalse, fail ''a positive case must not carry conforming=false''),
        (jget c ''diagnostic'' = diagnostic, fail ''diagnostic is not the rule''),
        (jget c ''outcome'' = JNull, fail ''a path directory dry-run never plans a rebuild''),
        (jget c ''mutated'' = jfalse, fail ''dry-run evaluation mutates nothing''),
        (jget c ''rebuild_planned'' = jfalse, fail ''a path source is never rebuilt''),
        (jget c ''failing_check'' = check, fail ''failing_check is not the rule''),
        (py_eq (jget c ''names_path'') names_path \<and> jget c ''names_check'' = check, fail ''posture naming is not the rule'')]))))"

section \<open>The gate\<close>

definition validate_environments_path_kind_admission_vectors :: "dict \<Rightarrow> unit res" where
  "validate_environments_path_kind_admission_vectors vector =
     (let ds = jget vector ''diagnostics'' in
      and_then (require
        [(jget vector ''capability'' = JStr ''agent-environments'' \<and> py_eq (jget vector ''capability_revision'') (JInt 1),
          fail ''path-kind vector has the wrong capability identity''),
         (is_dict ds \<and> jget (the_dict ds) ''mcp_path_source_refused'' = JStr ''mcp_declaration_path_source_refused'' \<and>
          jget (the_dict ds) ''store_untrusted'' = JStr ''environment_store_untrusted'' \<and>
          jget (the_dict ds) ''system_module_transitive'' = JStr ''context_system_module_transitive'',
          fail ''path-kind diagnostics must pin the three codes'')]) (\<lambda>_.
      and_then (check_cases check_mcp_case (map fst E6_MCP_PIN) (jget vector ''mcp_kind_cases'') ''path-kind mcp'') (\<lambda>_.
      and_then (check_cases check_boundary_case (map fst E6_BOUNDARY_PIN) (jget vector ''path_boundary_cases'') ''path-kind boundary'') (\<lambda>_.
      check_cases check_dry_run_case (map fst E6_DRY_RUN_PIN) (jget vector ''dry_run_cases'') ''path-kind dry-run''))))"

section \<open>What acceptance shows\<close>

lemma failing_iff:
  assumes "e6_boundary_failing c = Inr failing"
  shows "failing = [] \<longleftrightarrow> list_all (\<lambda>k. jget c k = jtrue) E6_BOUNDARY_CHECKS"
proof -
  from assms have bools: "\<forall>k \<in> set E6_BOUNDARY_CHECKS. is_bool (jget c k)" and f: "failing = filter (\<lambda>k. \<not> truthy (jget c k)) E6_BOUNDARY_CHECKS"
    by (auto simp: e6_boundary_failing_def and_then_ok_iff list_all_iff)
  have "is_bool v \<Longrightarrow> truthy v \<longleftrightarrow> v = jtrue" for v by (cases v) auto
  with bools show ?thesis unfolding f by (auto simp: filter_empty_conv list_all_iff)
qed

lemma mcp_conforms:
  assumes "check_mcp_case name c = Inr ()" "jget c ''conforming'' \<noteq> jfalse"
  shows "(jget c ''admitted'' = jtrue \<longleftrightarrow> jget c ''source_kind'' = JStr ''git'' \<and> jget c ''pin_kind'' = JStr ''commit'') \<and>
    (jget c ''admitted'' \<noteq> jtrue \<longrightarrow> jget c ''diagnostic'' = JStr ''mcp_declaration_path_source_refused'' \<and>
       py_eq (jget c ''names_package'') (jget c ''package'') \<and> py_eq (jget c ''names_declaration'') (jget c ''declaration''))"
proof -
  from assms(1) have shape: "mcp_shape c = Inr ()" by (auto simp: check_mcp_case_def and_then_ok_iff)
  have "name \<notin> set E6_MCP_NEGATIVE_CASES"
    using assms not_negative by (auto simp: check_mcp_case_def and_then_ok_iff Let_def)
  with assms(1) have "jget c ''admitted'' = JBool (mcp_admitted c)" "jget c ''diagnostic'' = jopt (mcp_diagnostic c)"
    "\<not> mcp_admitted c \<longrightarrow> py_eq (jget c ''names_package'') (jget c ''package'') \<and> py_eq (jget c ''names_declaration'') (jget c ''declaration'')"
    by (auto simp: check_mcp_case_def and_then_ok_iff Let_def)
  then show ?thesis using shape by (auto simp: mcp_shape_def mcp_admitted_def mcp_diagnostic_def Let_def)
qed

lemma boundary_conforms:
  assumes "check_boundary_case name c = Inr ()" "jget c ''conforming'' \<noteq> jfalse"
  shows "jget c ''rebuild_planned'' = jfalse \<and> jget c ''row_current'' = jget c ''fragment_emitted'' \<and>
    (jget c ''fragment_emitted'' = jtrue \<longleftrightarrow> jget c ''diagnostic'' = JNull) \<and>
    (jget c ''diagnostic'' = JStr ''environment_store_untrusted'' \<longleftrightarrow> \<not> list_all (\<lambda>k. jget c k = jtrue) E6_BOUNDARY_CHECKS) \<and>
    (jget c ''fragment_emitted'' = jtrue \<and> carries c \<and> policy_of c = Inr (JStr ''error'') \<longrightarrow> jget c ''direct'' = jtrue)"
proof -
  from assms(1) obtain policy failing where parts: "path_shape c = Inr policy" "e6_boundary_failing c = Inr failing"
    by (auto simp: check_boundary_case_def and_then_ok_iff)
  have "name \<notin> set E6_BOUNDARY_NEGATIVE_CASES"
    using assms not_negative by (auto simp: check_boundary_case_def and_then_ok_iff Let_def)
  with assms(1) parts have out: "jget c ''diagnostic'' = jopt (boundary_diagnostic c policy failing)"
    "jget c ''fragment_emitted'' = JBool (boundary_diagnostic c policy failing = None)"
    "jget c ''row_current'' = JBool (boundary_diagnostic c policy failing = None)" "jget c ''rebuild_planned'' = jfalse"
    by (auto simp: check_boundary_case_def and_then_ok_iff Let_def)
  have direct: "is_bool (jget c ''direct'')" and policy: "policy_of c = Inr policy"
    using parts(1) by (auto simp: path_shape_def and_then_ok_iff)
  have "is_bool v \<Longrightarrow> truthy v \<longleftrightarrow> v = jtrue" for v by (cases v) auto
  with out direct policy failing_iff [OF parts(2)] show ?thesis by (auto simp: boundary_diagnostic_def split: if_splits)
qed

lemma dry_run_conforms:
  assumes "check_dry_run_case name c = Inr ()" "jget c ''conforming'' \<noteq> jfalse"
  shows "jget c ''outcome'' = JNull \<and> jget c ''mutated'' = jfalse \<and> jget c ''rebuild_planned'' = jfalse \<and>
    (jget c ''diagnostic'' = JNull \<longleftrightarrow> list_all (\<lambda>k. jget c k = jtrue) E6_BOUNDARY_CHECKS)"
proof -
  from assms(1) obtain failing where f: "e6_boundary_failing c = Inr failing"
    by (auto simp: check_dry_run_case_def and_then_ok_iff)
  have "name \<notin> set E6_DRY_RUN_NEGATIVE_CASES"
    using assms by (auto simp: check_dry_run_case_def and_then_ok_iff Let_def)
  with assms(1) f have "jget c ''outcome'' = JNull" "jget c ''mutated'' = jfalse" "jget c ''rebuild_planned'' = jfalse"
    "jget c ''diagnostic'' = (if failing \<noteq> [] then JStr ''environment_store_untrusted'' else JNull)"
    by (auto simp: check_dry_run_case_def and_then_ok_iff Let_def)
  with failing_iff [OF f] show ?thesis by auto
qed

section \<open>Properties\<close>

text \<open>
  Accepted path-kind vectors trust no path they should not.  Among the conforming cases of a vector
  the gate accepts, an MCP declaration is admitted exactly when it comes from a git source with a
  commit pin; a path directory yields a fragment, and counts as current, exactly when it has no
  diagnostic, is untrusted exactly when one of the five checks fails, is never rebuilt, and carries
  system modules under the policy \<open>error\<close> only when directly named; and a dry run plans nothing,
  mutates nothing and diagnoses exactly the failing directories.
\<close>

theorem path_kind_sound:
  assumes "validate_environments_path_kind_admission_vectors vector = Inr ()"
  shows "(\<forall>c. JObj c \<in> set (the_list (jget vector ''mcp_kind_cases'')) \<and> jget c ''conforming'' \<noteq> jfalse \<longrightarrow>
       (jget c ''admitted'' = jtrue \<longleftrightarrow> jget c ''source_kind'' = JStr ''git'' \<and> jget c ''pin_kind'' = JStr ''commit'')) \<and>
    (\<forall>c. JObj c \<in> set (the_list (jget vector ''path_boundary_cases'')) \<and> jget c ''conforming'' \<noteq> jfalse \<longrightarrow>
       jget c ''rebuild_planned'' = jfalse \<and> jget c ''row_current'' = jget c ''fragment_emitted'' \<and>
       (jget c ''fragment_emitted'' = jtrue \<longleftrightarrow> jget c ''diagnostic'' = JNull) \<and>
       (jget c ''diagnostic'' = JStr ''environment_store_untrusted'' \<longleftrightarrow> \<not> list_all (\<lambda>k. jget c k = jtrue) E6_BOUNDARY_CHECKS) \<and>
       (jget c ''fragment_emitted'' = jtrue \<and> carries c \<and> policy_of c = Inr (JStr ''error'') \<longrightarrow> jget c ''direct'' = jtrue)) \<and>
    (\<forall>c. JObj c \<in> set (the_list (jget vector ''dry_run_cases'')) \<and> jget c ''conforming'' \<noteq> jfalse \<longrightarrow>
       jget c ''outcome'' = JNull \<and> jget c ''mutated'' = jfalse \<and> jget c ''rebuild_planned'' = jfalse \<and>
       (jget c ''diagnostic'' = JNull \<longleftrightarrow> list_all (\<lambda>k. jget c k = jtrue) E6_BOUNDARY_CHECKS))"
proof -
  have m: "check_cases check_mcp_case (map fst E6_MCP_PIN) (jget vector ''mcp_kind_cases'') ''path-kind mcp'' = Inr ()"
    and b: "check_cases check_boundary_case (map fst E6_BOUNDARY_PIN) (jget vector ''path_boundary_cases'') ''path-kind boundary'' = Inr ()"
    and d: "check_cases check_dry_run_case (map fst E6_DRY_RUN_PIN) (jget vector ''dry_run_cases'') ''path-kind dry-run'' = Inr ()"
    using assms unfolding validate_environments_path_kind_admission_vectors_def Let_def and_then_ok_iff by auto
  from checked [OF m] mcp_conforms checked [OF b] boundary_conforms checked [OF d] dry_run_conforms
  show ?thesis by meson
qed

section \<open>The property on a sample\<close>

definition sample_mcp :: "string \<Rightarrow> dict \<Rightarrow> dict" where
  "sample_mcp name pin =
     (let git = (jget pin ''source_kind'' = JStr ''git''); bad = name \<in> set E6_MCP_NEGATIVE_CASES in
      pin @ [(''name'', JStr name), (''package'', JStr ''p''), (''declaration'', JStr ''d''),
        (''source'', if git then JStr ''s'' else JNull), (''conforming'', JBool (\<not> bad)), (''reason'', JStr ''r''),
        (''admitted'', JBool (git \<or> bad)),
        (''diagnostic'', if git then JNull else JStr ''mcp_declaration_path_source_refused''),
        (''names_package'', if git then JNull else JStr ''p''), (''names_declaration'', if git then JNull else JStr ''d'')])"

definition sample_directory :: "string \<Rightarrow> dict \<Rightarrow> dict" where
  "sample_directory name pin =
     [(''name'', JStr name), (''role'', jget pin ''role''), (''origin'', jget pin ''origin''), (''direct'', jget pin ''direct''),
      (''carries_system_modules'', jget pin ''carries''), (''machine_policy'', JObj [(''transitive_system_modules'', jget pin ''policy'')]),
      (''path'', JStr ''/d''), (''package'', JStr ''p''), (''module'', if jget pin ''carries'' = jtrue then JStr ''m'' else JNull),
      (''reason'', JStr ''r''), (''failing_check'', jget pin ''check'')] @
     map (\<lambda>k. (k, JBool (jget pin ''check'' \<noteq> JStr k))) E6_BOUNDARY_CHECKS"

definition sample_boundary :: "string \<Rightarrow> dict \<Rightarrow> dict" where
  "sample_boundary name pin =
     (let c = sample_directory name pin; failing = filter (\<lambda>k. jget pin ''check'' = JStr k) E6_BOUNDARY_CHECKS;
          diagnostic = boundary_diagnostic c (jget pin ''policy'') failing; bad = name \<in> set E6_BOUNDARY_NEGATIVE_CASES in
      c @ [(''conforming'', JBool (\<not> bad)), (''diagnostic'', jopt diagnostic), (''fragment_emitted'', JBool (diagnostic = None)),
        (''row_current'', JBool (diagnostic = None)), (''rebuild_planned'', JBool bad)] @
      e6_expected_names c diagnostic failing)"

definition sample_dry_run :: "string \<Rightarrow> dict \<Rightarrow> dict" where
  "sample_dry_run name pin =
     (let bad = name \<in> set E6_DRY_RUN_NEGATIVE_CASES; fails = jget pin ''check'' \<noteq> JNull in
      sample_directory name pin @
      [(''conforming'', JBool (\<not> bad)), (''diagnostic'', if fails then JStr ''environment_store_untrusted'' else JNull),
       (''outcome'', if bad then JStr ''would-rebuild-untrusted-store'' else JNull), (''mutated'', jfalse), (''rebuild_planned'', jfalse),
       (''names_path'', if fails then JStr ''/d'' else JNull), (''names_check'', jget pin ''check'')])"

definition sample_path_vector :: dict where
  "sample_path_vector =
     [(''capability'', JStr ''agent-environments''), (''capability_revision'', JInt 1),
      (''diagnostics'', JObj [(''mcp_path_source_refused'', JStr ''mcp_declaration_path_source_refused''),
         (''store_untrusted'', JStr ''environment_store_untrusted''), (''system_module_transitive'', JStr ''context_system_module_transitive'')]),
      (''mcp_kind_cases'', JArr (map (\<lambda>(n, p). JObj (sample_mcp n p)) E6_MCP_PIN)),
      (''path_boundary_cases'', JArr (map (\<lambda>(n, p). JObj (sample_boundary n p)) E6_BOUNDARY_PIN)),
      (''dry_run_cases'', JArr (map (\<lambda>(n, p). JObj (sample_dry_run n p)) E6_DRY_RUN_PIN))]"

lemma sample_path_accepted: "validate_environments_path_kind_admission_vectors sample_path_vector = Inr ()"
  by code_simp

lemma sample_paths:
  "list_ex (\<lambda>v. is_dict v \<and> jget (the_dict v) ''conforming'' \<noteq> jfalse \<and> jget (the_dict v) ''fragment_emitted'' = jtrue)
     (the_list (jget sample_path_vector ''path_boundary_cases''))"
  by code_simp

theorem path_kind_sound_witness:
  "validate_environments_path_kind_admission_vectors sample_path_vector = Inr () \<and>
   (\<exists>c. JObj c \<in> set (the_list (jget sample_path_vector ''path_boundary_cases'')) \<and> jget c ''fragment_emitted'' = jtrue \<and>
      jget c ''rebuild_planned'' = jfalse \<and> jget c ''diagnostic'' = JNull)"
proof -
  obtain v where v: "v \<in> set (the_list (jget sample_path_vector ''path_boundary_cases''))" "is_dict v"
      "jget (the_dict v) ''conforming'' \<noteq> jfalse" "jget (the_dict v) ''fragment_emitted'' = jtrue"
    using sample_paths by (auto simp: list_ex_iff)
  moreover have "JObj (the_dict v) = v" using v(2) by (cases v) simp_all
  ultimately show ?thesis using path_kind_sound [OF sample_path_accepted] sample_path_accepted by metis
qed

end
