(* ===== verification/ReadFailure.thy ===== *)
theory ReadFailure
  imports Cases
begin

text \<open>
  Absence and read failures (\<open>validate_environments_read_failure_vectors\<close> of
  \<open>tools/validate.py\<close>, environments.md section 8.4.1): the disposition of a file that is absent or
  cannot be read, the checks of a case, the pinned scenarios and negatives, and the gate.

  A case is the dictionary the vector holds.  Messages are kept without the names the code
  interpolates.
\<close>

section \<open>The closed sets, scenarios and negatives\<close>

definition READ_FAILURE_DIAGNOSTICS :: "string list" where
  "READ_FAILURE_DIAGNOSTICS =
     [''environment_backup_record_unreadable'', ''environment_home_stale'',
     ''environment_marker_unreadable'', ''environment_passthrough_detached'',
     ''environment_passthrough_unreadable'', ''environment_seed_unreadable'',
     ''environment_store_untrusted'', ''profile_unknown'']"

definition READ_FAILURE_FILE_CLASSES :: "string list" where
  "READ_FAILURE_FILE_CLASSES =
     [''backup-record'', ''lock'', ''marker'', ''passthrough'', ''seed'']"

definition READ_FAILURE_OPERATIONS :: "string list" where
  "READ_FAILURE_OPERATIONS =
     [''env-resolve'', ''env-status'', ''provision'', ''repair'', ''restore'', ''update'']"

definition READ_FAILURE_PRESENCE_VALUES :: "string list" where
  "READ_FAILURE_PRESENCE_VALUES =
     [''absent'', ''present'']"

definition READ_FAILURE_ENTRY_KINDS :: "string list" where
  "READ_FAILURE_ENTRY_KINDS =
     [''directory'', ''file'', ''missing'', ''symlink'']"

definition READ_FAILURE_FAILURE_CLASSES :: "string list" where
  "READ_FAILURE_FAILURE_CLASSES =
     [''directory-where-file-expected'', ''io-error'', ''parent-not-directory'',
     ''permission-denied'', ''schema-invalid-content'', ''symlink-where-regular-required'',
     ''unparseable-content'']"

definition READ_FAILURE_CURRENCIES :: "string list" where
  "READ_FAILURE_CURRENCIES =
     [''known'', ''unknown'']"

definition READ_FAILURE_APPLICABLE :: "(string \<times> string list) list" where
  "READ_FAILURE_APPLICABLE =
     [(''backup-record'', [''io-error'', ''parent-not-directory'', ''permission-denied'']),
      (''marker'', [''io-error'', ''permission-denied'', ''schema-invalid-content'', ''unparseable-content'']),
      (''lock'', READ_FAILURE_FAILURE_CLASSES),
      (''seed'', [''directory-where-file-expected'', ''io-error'', ''parent-not-directory'', ''permission-denied'', ''symlink-where-regular-required'', ''unparseable-content'']),
      (''passthrough'', [''io-error'', ''parent-not-directory'', ''permission-denied''])]"

definition READ_FAILURE_SCENARIOS :: "(string \<times> dict) list" where
  "READ_FAILURE_SCENARIOS =
     [(''marker-open-permission-denied-unreadable'', [(''file_class'', JStr ''marker''), (''operation'', JStr ''env-resolve''), (''presence'', JStr ''present''), (''entry_kind'', JStr ''file''), (''failure_class'', JStr ''permission-denied'')]),
      (''marker-read-io-error-unreadable'', [(''file_class'', JStr ''marker''), (''operation'', JStr ''env-resolve''), (''presence'', JStr ''present''), (''entry_kind'', JStr ''file''), (''failure_class'', JStr ''io-error'')]),
      (''marker-unparseable-content-unreadable'', [(''file_class'', JStr ''marker''), (''operation'', JStr ''env-resolve''), (''presence'', JStr ''present''), (''entry_kind'', JStr ''file''), (''failure_class'', JStr ''unparseable-content'')]),
      (''marker-schema-invalid-content-unreadable'', [(''file_class'', JStr ''marker''), (''operation'', JStr ''env-resolve''), (''presence'', JStr ''present''), (''entry_kind'', JStr ''file''), (''failure_class'', JStr ''schema-invalid-content'')]),
      (''marker-absent-unprovisioned-stale'', [(''file_class'', JStr ''marker''), (''operation'', JStr ''env-resolve''), (''presence'', JStr ''absent''), (''entry_kind'', JStr ''missing''), (''failure_class'', JNull)]),
      (''marker-unreadable-reported-stale'', [(''file_class'', JStr ''marker''), (''operation'', JStr ''env-resolve''), (''presence'', JStr ''present''), (''entry_kind'', JStr ''file''), (''failure_class'', JStr ''permission-denied'')]),
      (''lock-open-permission-denied-untrusted'', [(''file_class'', JStr ''lock''), (''operation'', JStr ''env-resolve''), (''presence'', JStr ''present''), (''entry_kind'', JStr ''file''), (''failure_class'', JStr ''permission-denied'')]),
      (''lock-read-io-error-untrusted'', [(''file_class'', JStr ''lock''), (''operation'', JStr ''env-resolve''), (''presence'', JStr ''present''), (''entry_kind'', JStr ''file''), (''failure_class'', JStr ''io-error'')]),
      (''lock-unparseable-content-untrusted'', [(''file_class'', JStr ''lock''), (''operation'', JStr ''env-resolve''), (''presence'', JStr ''present''), (''entry_kind'', JStr ''file''), (''failure_class'', JStr ''unparseable-content'')]),
      (''lock-schema-invalid-content-untrusted'', [(''file_class'', JStr ''lock''), (''operation'', JStr ''env-resolve''), (''presence'', JStr ''present''), (''entry_kind'', JStr ''file''), (''failure_class'', JStr ''schema-invalid-content'')]),
      (''lock-symlink-where-regular-required-untrusted'', [(''file_class'', JStr ''lock''), (''operation'', JStr ''env-resolve''), (''presence'', JStr ''present''), (''entry_kind'', JStr ''symlink''), (''failure_class'', JStr ''symlink-where-regular-required'')]),
      (''lock-directory-where-file-expected-untrusted'', [(''file_class'', JStr ''lock''), (''operation'', JStr ''env-resolve''), (''presence'', JStr ''present''), (''entry_kind'', JStr ''directory''), (''failure_class'', JStr ''directory-where-file-expected'')]),
      (''lock-parent-not-directory-untrusted'', [(''file_class'', JStr ''lock''), (''operation'', JStr ''env-resolve''), (''presence'', JStr ''present''), (''entry_kind'', JStr ''file''), (''failure_class'', JStr ''parent-not-directory'')]),
      (''lock-absent-profile-unknown'', [(''file_class'', JStr ''lock''), (''operation'', JStr ''env-resolve''), (''presence'', JStr ''absent''), (''entry_kind'', JStr ''missing''), (''failure_class'', JNull)]),
      (''lock-unreadable-reported-unknown'', [(''file_class'', JStr ''lock''), (''operation'', JStr ''env-resolve''), (''presence'', JStr ''present''), (''entry_kind'', JStr ''file''), (''failure_class'', JStr ''permission-denied'')]),
      (''lock-unreadable-repair-refused-no-rebuild'', [(''file_class'', JStr ''lock''), (''operation'', JStr ''repair''), (''presence'', JStr ''present''), (''entry_kind'', JStr ''file''), (''failure_class'', JStr ''permission-denied'')]),
      (''lock-unreadable-update-refused-no-rebuild'', [(''file_class'', JStr ''lock''), (''operation'', JStr ''update''), (''presence'', JStr ''present''), (''entry_kind'', JStr ''file''), (''failure_class'', JStr ''unparseable-content'')]),
      (''lock-unreadable-repair-rebuilt'', [(''file_class'', JStr ''lock''), (''operation'', JStr ''repair''), (''presence'', JStr ''present''), (''entry_kind'', JStr ''file''), (''failure_class'', JStr ''permission-denied'')]),
      (''seed-open-permission-denied-unreadable'', [(''file_class'', JStr ''seed''), (''operation'', JStr ''provision''), (''presence'', JStr ''present''), (''entry_kind'', JStr ''file''), (''failure_class'', JStr ''permission-denied'')]),
      (''seed-read-io-error-unreadable'', [(''file_class'', JStr ''seed''), (''operation'', JStr ''provision''), (''presence'', JStr ''present''), (''entry_kind'', JStr ''file''), (''failure_class'', JStr ''io-error'')]),
      (''seed-unparseable-content-unreadable'', [(''file_class'', JStr ''seed''), (''operation'', JStr ''provision''), (''presence'', JStr ''present''), (''entry_kind'', JStr ''file''), (''failure_class'', JStr ''unparseable-content'')]),
      (''seed-symlink-where-regular-required-unreadable'', [(''file_class'', JStr ''seed''), (''operation'', JStr ''provision''), (''presence'', JStr ''present''), (''entry_kind'', JStr ''symlink''), (''failure_class'', JStr ''symlink-where-regular-required'')]),
      (''seed-directory-where-file-expected-unreadable'', [(''file_class'', JStr ''seed''), (''operation'', JStr ''provision''), (''presence'', JStr ''present''), (''entry_kind'', JStr ''directory''), (''failure_class'', JStr ''directory-where-file-expected'')]),
      (''seed-parent-not-directory-unreadable'', [(''file_class'', JStr ''seed''), (''operation'', JStr ''provision''), (''presence'', JStr ''present''), (''entry_kind'', JStr ''file''), (''failure_class'', JStr ''parent-not-directory'')]),
      (''seed-absent-not-seeded-provisioned'', [(''file_class'', JStr ''seed''), (''operation'', JStr ''provision''), (''presence'', JStr ''absent''), (''entry_kind'', JStr ''missing''), (''failure_class'', JNull)]),
      (''seed-unreadable-skipped-as-absent'', [(''file_class'', JStr ''seed''), (''operation'', JStr ''provision''), (''presence'', JStr ''present''), (''entry_kind'', JStr ''file''), (''failure_class'', JStr ''permission-denied'')]),
      (''passthrough-lstat-permission-denied-unreadable'', [(''file_class'', JStr ''passthrough''), (''operation'', JStr ''env-status''), (''presence'', JStr ''present''), (''entry_kind'', JStr ''symlink''), (''failure_class'', JStr ''permission-denied'')]),
      (''passthrough-readlink-io-error-unreadable'', [(''file_class'', JStr ''passthrough''), (''operation'', JStr ''env-status''), (''presence'', JStr ''present''), (''entry_kind'', JStr ''symlink''), (''failure_class'', JStr ''io-error'')]),
      (''passthrough-parent-not-directory-unreadable'', [(''file_class'', JStr ''passthrough''), (''operation'', JStr ''env-status''), (''presence'', JStr ''present''), (''entry_kind'', JStr ''symlink''), (''failure_class'', JStr ''parent-not-directory'')]),
      (''passthrough-unreadable-resolve-no-fragment'', [(''file_class'', JStr ''passthrough''), (''operation'', JStr ''env-resolve''), (''presence'', JStr ''present''), (''entry_kind'', JStr ''symlink''), (''failure_class'', JStr ''permission-denied'')]),
      (''passthrough-link-missing-detached'', [(''file_class'', JStr ''passthrough''), (''operation'', JStr ''env-status''), (''presence'', JStr ''absent''), (''entry_kind'', JStr ''missing''), (''failure_class'', JNull)]),
      (''passthrough-directory-at-entry-detached'', [(''file_class'', JStr ''passthrough''), (''operation'', JStr ''env-status''), (''presence'', JStr ''present''), (''entry_kind'', JStr ''directory''), (''failure_class'', JNull)]),
      (''passthrough-detached-resolve-stale'', [(''file_class'', JStr ''passthrough''), (''operation'', JStr ''env-resolve''), (''presence'', JStr ''absent''), (''entry_kind'', JStr ''missing''), (''failure_class'', JNull)]),
      (''passthrough-unreadable-reported-detached'', [(''file_class'', JStr ''passthrough''), (''operation'', JStr ''env-status''), (''presence'', JStr ''present''), (''entry_kind'', JStr ''symlink''), (''failure_class'', JStr ''permission-denied'')]),
      (''backup-record-unreadable-status-unknown'', [(''file_class'', JStr ''backup-record''), (''operation'', JStr ''env-status''), (''presence'', JStr ''present''), (''entry_kind'', JStr ''directory''), (''failure_class'', JStr ''permission-denied'')]),
      (''backup-record-unreadable-restore-stops'', [(''file_class'', JStr ''backup-record''), (''operation'', JStr ''restore''), (''presence'', JStr ''present''), (''entry_kind'', JStr ''directory''), (''failure_class'', JStr ''io-error'')]),
      (''backup-record-absent-status-zero'', [(''file_class'', JStr ''backup-record''), (''operation'', JStr ''env-status''), (''presence'', JStr ''absent''), (''entry_kind'', JStr ''missing''), (''failure_class'', JNull)]),
      (''backup-record-absent-restore-nothing'', [(''file_class'', JStr ''backup-record''), (''operation'', JStr ''restore''), (''presence'', JStr ''absent''), (''entry_kind'', JStr ''missing''), (''failure_class'', JNull)]),
      (''backup-record-unreadable-reported-empty'', [(''file_class'', JStr ''backup-record''), (''operation'', JStr ''env-status''), (''presence'', JStr ''present''), (''entry_kind'', JStr ''directory''), (''failure_class'', JStr ''permission-denied'')])]"

definition READ_FAILURE_NEGATIVES :: "(string \<times> dict) list" where
  "READ_FAILURE_NEGATIVES =
     [(''marker-unreadable-reported-stale'', [(''diagnostic'', JStr ''environment_home_stale''), (''fragment_emitted'', jfalse), (''row_current'', jfalse), (''currency'', JStr ''known'')]),
      (''lock-unreadable-reported-unknown'', [(''diagnostic'', JStr ''profile_unknown''), (''fragment_emitted'', jfalse), (''row_current'', jfalse), (''currency'', JStr ''known'')]),
      (''seed-unreadable-skipped-as-absent'', [(''diagnostic'', JNull), (''provisioning_continues'', jtrue), (''currency'', JStr ''known'')]),
      (''passthrough-unreadable-reported-detached'', [(''diagnostic'', JStr ''environment_passthrough_detached''), (''row_current'', jfalse), (''currency'', JStr ''known''), (''repair_relinks'', jtrue)]),
      (''lock-unreadable-repair-rebuilt'', [(''diagnostic'', JStr ''environment_store_untrusted''), (''fragment_emitted'', jfalse), (''row_current'', jfalse), (''currency'', JStr ''unknown''), (''rebuilt'', jtrue), (''written'', jtrue)]),
      (''backup-record-unreadable-reported-empty'', [(''diagnostic'', JNull), (''row_current'', jtrue), (''currency'', JStr ''known'')])]"
section \<open>The disposition\<close>

definition known_stale :: dict where
  "known_stale = [(''diagnostic'', JStr ''environment_home_stale''), (''fragment_emitted'', jfalse), (''row_current'', jfalse),
     (''currency'', JStr ''known'')]"

definition absent_expected :: "string \<Rightarrow> string \<Rightarrow> dict" where
  "absent_expected file_class operation =
     (if file_class = ''marker'' then known_stale
      else if file_class = ''lock'' then
        [(''diagnostic'', JStr ''profile_unknown''), (''fragment_emitted'', jfalse), (''row_current'', jfalse), (''currency'', JStr ''known'')]
      else if file_class = ''seed'' then
        [(''diagnostic'', JNull), (''provisioning_continues'', jtrue), (''currency'', JStr ''known'')]
      else if file_class = ''backup-record'' then
        (if operation = ''restore'' then [(''diagnostic'', JNull), (''currency'', JStr ''known''), (''written'', jfalse)]
         else [(''diagnostic'', JNull), (''row_current'', jtrue), (''currency'', JStr ''known'')])
      else if operation = ''env-resolve'' then known_stale
      else [(''diagnostic'', JStr ''environment_passthrough_detached''), (''row_current'', jfalse), (''currency'', JStr ''known''),
        (''repair_relinks'', jtrue)])"

definition unreadable_expected :: "string \<Rightarrow> string \<Rightarrow> dict" where
  "unreadable_expected file_class operation =
     (if file_class = ''marker'' then
        [(''diagnostic'', JStr ''environment_marker_unreadable''), (''fragment_emitted'', jfalse), (''row_current'', jfalse),
         (''currency'', JStr ''unknown'')]
      else if file_class = ''lock'' then
        (if operation = ''repair'' then
           [(''diagnostic'', JStr ''environment_store_untrusted''), (''fragment_emitted'', jfalse), (''row_current'', jfalse),
            (''currency'', JStr ''unknown''), (''rebuilt'', jfalse), (''written'', jfalse)]
         else if operation = ''update'' then
           [(''diagnostic'', JStr ''environment_store_untrusted''), (''row_current'', jfalse), (''currency'', JStr ''unknown''),
            (''rebuilt'', jfalse), (''written'', jfalse)]
         else
           [(''diagnostic'', JStr ''environment_store_untrusted''), (''fragment_emitted'', jfalse), (''row_current'', jfalse),
            (''currency'', JStr ''unknown'')])
      else if file_class = ''seed'' then
        [(''diagnostic'', JStr ''environment_seed_unreadable''), (''provisioning_continues'', jfalse), (''currency'', JStr ''unknown'')]
      else if file_class = ''backup-record'' then
        (if operation = ''restore'' then
           [(''diagnostic'', JStr ''environment_backup_record_unreadable''), (''currency'', JStr ''unknown''), (''written'', jfalse)]
         else [(''diagnostic'', JStr ''environment_backup_record_unreadable''), (''row_current'', jfalse), (''currency'', JStr ''unknown'')])
      else if operation = ''env-resolve'' then
        [(''diagnostic'', JStr ''environment_passthrough_unreadable''), (''fragment_emitted'', jfalse), (''row_current'', jfalse),
         (''currency'', JStr ''unknown'')]
      else [(''diagnostic'', JStr ''environment_passthrough_unreadable''), (''row_current'', jfalse), (''currency'', JStr ''unknown''),
        (''repair_relinks'', jfalse)])"

definition read_failure_expected :: "string \<Rightarrow> string \<Rightarrow> json \<Rightarrow> dict" where
  "read_failure_expected file_class operation failure_class =
     (if failure_class = JNull then absent_expected file_class operation else unreadable_expected file_class operation)"

section \<open>One case\<close>

text \<open>The operations a file class takes part in.\<close>

definition operations_of :: "string \<Rightarrow> string list" where
  "operations_of file_class =
     (if file_class = ''marker'' then [''env-resolve'']
      else if file_class = ''lock'' then [''env-resolve'', ''repair'', ''update'']
      else if file_class = ''seed'' then [''provision'']
      else if file_class = ''passthrough'' then [''env-resolve'', ''env-status'']
      else [''env-status'', ''restore''])"

definition content_kind :: "string \<Rightarrow> string" where
  "content_kind file_class =
     (if file_class = ''passthrough'' then ''symlink'' else if file_class = ''backup-record'' then ''directory'' else ''file'')"

definition failure_fits :: "string \<Rightarrow> string \<Rightarrow> json \<Rightarrow> unit res" where
  "failure_fits file_class failure entry_kind =
     require
       [((case map_of READ_FAILURE_APPLICABLE file_class of None \<Rightarrow> False | Some fs \<Rightarrow> failure \<in> set fs),
         fail ''failure class does not apply to its file class''),
        (failure = ''symlink-where-regular-required'' \<longrightarrow> entry_kind = JStr ''symlink'', fail ''symlink failure needs a symlink entry''),
        (failure = ''directory-where-file-expected'' \<longrightarrow> entry_kind = JStr ''directory'', fail ''directory failure needs a directory entry''),
        (failure = ''parent-not-directory'' \<longrightarrow> str_in entry_kind [''file'', ''symlink''], fail ''parent failure needs an entry beyond the bad component''),
        (failure \<in> {''permission-denied'', ''io-error'', ''unparseable-content'', ''schema-invalid-content''} \<longrightarrow>
           entry_kind = JStr (content_kind file_class), fail ''content failure needs its file-class entry shape'')]"

definition read_failure_shape :: "dict \<Rightarrow> unit res" where
  "read_failure_shape c =
     (let file_class = jget c ''file_class''; operation = jget c ''operation''; presence = jget c ''presence'';
          entry_kind = jget c ''entry_kind''; failure = jget c ''failure_class'' in
      and_then (require
        [(str_in file_class READ_FAILURE_FILE_CLASSES, fail ''names an unknown file class''),
         (str_in operation READ_FAILURE_OPERATIONS, fail ''names an unknown operation''),
         (str_in operation (operations_of (the_str file_class)), fail ''scenarios of the file class take another operation''),
         (str_in presence READ_FAILURE_PRESENCE_VALUES, fail ''presence is not absent or present''),
         (str_in entry_kind READ_FAILURE_ENTRY_KINDS, fail ''names an unknown entry kind''),
         (failure = JNull \<or> str_in failure READ_FAILURE_FAILURE_CLASSES, fail ''names an unknown failure class'')]) (\<lambda>_.
      if presence = JStr ''absent'' then
        guard (entry_kind = JStr ''missing'' \<and> failure = JNull) (fail ''an absent entry carries no kind or failure'')
      else if failure = JNull then
        guard (file_class = JStr ''passthrough'' \<and> entry_kind = JStr ''directory'' \<and> operation = JStr ''env-status'')
          (fail ''a present entry with no failure is outside this family'')
      else failure_fits (the_str file_class) (the_str failure) entry_kind))"

definition read_failure_inputs :: "dict \<Rightarrow> dict" where
  "read_failure_inputs c =
     map (\<lambda>k. (k, jget c k)) [''file_class'', ''operation'', ''presence'', ''entry_kind'', ''failure_class'']"

definition validate_read_failure_case :: "string \<Rightarrow> dict \<Rightarrow> unit res" where
  "validate_read_failure_case name c =
     and_then (read_failure_shape c) (\<lambda>_.
     and_then (require
       [((case map_of READ_FAILURE_SCENARIOS name of None \<Rightarrow> False | Some p \<Rightarrow> py_eq (JObj (read_failure_inputs c)) (JObj p)),
         fail ''inputs do not match its pinned scenario''),
        (is_dict (jget c ''expected''), fail ''expected is not an object'')]) (\<lambda>_.
     case map_of READ_FAILURE_NEGATIVES name of
       Some refused \<Rightarrow> require
         [(jget c ''conforming'' = jfalse \<and> truthy (jget c ''reason''), fail ''a negative needs conforming=false and a reason''),
          (py_eq (jget c ''expected'') (JObj refused), fail ''observation is not its pinned absence-shaped refusal'')]
     | None \<Rightarrow> require
         [(jget c ''conforming'' \<noteq> jfalse \<and> \<not> jhas c ''reason'', fail ''a positive case must not carry a negative verdict''),
          (py_eq (jget c ''expected'') (JObj (read_failure_expected (the_str (jget c ''file_class'')) (the_str (jget c ''operation''))
             (jget c ''failure_class''))), fail ''observation does not follow the section 8.4.1 disposition'')]))"

section \<open>The gate\<close>

definition validate_environments_read_failure_vectors :: "dict \<Rightarrow> unit res" where
  "validate_environments_read_failure_vectors vector =
     and_then (require
       [(py_eq (jget vector ''schema_version'') (JInt 1) \<and> jget vector ''protocol_version'' = JStr ''1.0.0-rc.14'' \<and>
         jget vector ''capability'' = JStr ''agent-environments'' \<and> py_eq (jget vector ''capability_revision'') (JInt 1) \<and>
         jget vector ''story'' = JStr ''STORY-260916-1ll22r'', fail ''wrong capability identity''),
        (texts_are (jget vector ''file_classes'') READ_FAILURE_FILE_CLASSES, fail ''file classes are not the closed set''),
        (texts_are (jget vector ''operations'') READ_FAILURE_OPERATIONS, fail ''operations are not the closed set''),
        (texts_are (jget vector ''presence_values'') READ_FAILURE_PRESENCE_VALUES, fail ''presence values are not the closed set''),
        (texts_are (jget vector ''entry_kinds'') READ_FAILURE_ENTRY_KINDS, fail ''entry kinds are not the closed set''),
        (texts_are (jget vector ''failure_classes'') READ_FAILURE_FAILURE_CLASSES, fail ''failure classes are not the closed set''),
        (texts_are (jget vector ''diagnostics'') READ_FAILURE_DIAGNOSTICS, fail ''diagnostics are not the closed set''),
        (texts_are (jget vector ''currencies'') READ_FAILURE_CURRENCIES, fail ''currencies are not the closed set''),
        (is_str (jget vector ''rule'') \<and> truthy (jget vector ''rule''), fail ''rule text is missing'')]) (\<lambda>_.
     and_then (named_cases (jget vector ''cases'') ''environments read-failure'') (\<lambda>cases.
     and_then (guard (set (map fst cases) = set (map fst READ_FAILURE_SCENARIOS)) (fail ''case inventory is not exact'')) (\<lambda>_.
     for_each (\<lambda>(name, c). validate_read_failure_case name c) cases)))"

section \<open>Equality of dictionaries\<close>

lemma py_eq_items_lookup: "py_eq_items d e \<Longrightarrow> map_of d k = Some v \<Longrightarrow> \<exists>w. map_of e k = Some w \<and> py_eq v w"
  by (induction d) (auto split: if_splits option.splits)

lemma py_eq_keys:
  assumes "py_eq (JObj d) (JObj e)" "distinct (map fst d)"
  shows "fst ` set d = fst ` set e"
proof (rule card_seteq)
  show "fst ` set d \<subseteq> fst ` set e"
  proof
    fix k assume "k \<in> fst ` set d"
    then obtain v where "map_of d k = Some v" by (metis map_of_eq_None_iff not_None_eq)
    then obtain w where "map_of e k = Some w" using py_eq_items_lookup assms(1) by fastforce
    then show "k \<in> fst ` set e" by (metis map_of_eq_None_iff not_None_eq option.discI)
  qed
  have "card (fst ` set e) \<le> length e" by (metis card_length length_map list.set_map)
  also have "length e = card (fst ` set d)" using assms distinct_card [of "map fst d"] by simp
  finally show "card (fst ` set e) \<le> card (fst ` set d)" .
qed simp

lemma py_eq_lookup:
  assumes "py_eq (JObj d) (JObj e)" "distinct (map fst d)"
  shows "py_eq (jget d k) (jget e k)"
proof (cases "map_of d k")
  case None
  then have "map_of e k = None" using py_eq_keys [OF assms] by (simp add: map_of_eq_None_iff)
  with None show ?thesis by (simp add: jget_def)
next
  case (Some v)
  then obtain w where "map_of e k = Some w" "py_eq v w" using py_eq_items_lookup assms(1) by fastforce
  with Some show ?thesis by (simp add: jget_def)
qed

section \<open>Facts about the disposition\<close>

text \<open>The members of an observation that say that something was taken, written or let go on.\<close>

definition ACTIONS :: "string list" where
  "ACTIONS = [''fragment_emitted'', ''row_current'', ''provisioning_continues'', ''repair_relinks'', ''rebuilt'', ''written'']"

definition READ_DIAGNOSTICS :: "string list" where
  "READ_DIAGNOSTICS =
     [''environment_marker_unreadable'', ''environment_store_untrusted'', ''environment_seed_unreadable'',
      ''environment_backup_record_unreadable'', ''environment_passthrough_unreadable'']"

lemma unreadable_stops:
  "jget (unreadable_expected f oper) ''currency'' = JStr ''unknown'' \<and>
   str_in (jget (unreadable_expected f oper) ''diagnostic'') READ_DIAGNOSTICS \<and>
   list_all (\<lambda>k. \<not> truthy (jget (unreadable_expected f oper) k)) ACTIONS"
  by (simp add: unreadable_expected_def READ_DIAGNOSTICS_def ACTIONS_def)

lemma absent_known:
  "jget (absent_expected f oper) ''currency'' = JStr ''known'' \<and>
   \<not> str_in (jget (absent_expected f oper) ''diagnostic'') READ_DIAGNOSTICS"
  by (simp add: absent_expected_def known_stale_def READ_DIAGNOSTICS_def str_in_def)

text \<open>Every pinned negative is an observation the disposition of its scenario forbids.\<close>

lemma negatives_violate:
  "list_all (\<lambda>(name, refused). case map_of READ_FAILURE_SCENARIOS name of None \<Rightarrow> False | Some p \<Rightarrow>
     \<not> py_eq (JObj refused) (JObj (read_failure_expected (the_str (jget p ''file_class'')) (the_str (jget p ''operation''))
        (jget p ''failure_class''))) \<and>
     jget p ''failure_class'' \<noteq> JNull) READ_FAILURE_NEGATIVES"
  by code_simp

lemma unreadable_values: "k \<in> set ACTIONS \<Longrightarrow> jget (unreadable_expected f oper) k \<in> {JNull, jfalse}"
  by (auto simp: unreadable_expected_def ACTIONS_def)

lemma falsy_eq: "py_eq v w \<Longrightarrow> w \<in> {JNull, jfalse} \<Longrightarrow> \<not> truthy v"
  by (cases v) auto

lemma str_in_eq: "py_eq v w \<Longrightarrow> str_in v ss \<longleftrightarrow> str_in w ss"
  by (cases v; cases w) (auto simp: str_in_def)

lemma gate_read_case:
  assumes "validate_environments_read_failure_vectors vector = Inr ()" "JObj c \<in> set (the_list (jget vector ''cases''))"
  obtains name where "validate_read_failure_case name c = Inr ()"
proof -
  from assms(1) obtain cases where "named_cases (jget vector ''cases'') ''environments read-failure'' = Inr cases"
      "for_each (\<lambda>(name, c). validate_read_failure_case name c) cases = Inr ()"
    unfolding validate_environments_read_failure_vectors_def and_then_ok_iff by auto
  with assms(2) that show ?thesis by (force simp: named_cases_def and_then_ok_iff for_each_ok_iff)
qed

lemma positive_case:
  assumes "validate_read_failure_case name c = Inr ()" "jget c ''conforming'' \<noteq> jfalse"
  shows "py_eq (jget c ''expected'') (JObj (read_failure_expected (the_str (jget c ''file_class'')) (the_str (jget c ''operation''))
    (jget c ''failure_class'')))"
  using assms by (cases "map_of READ_FAILURE_NEGATIVES name") (auto simp: validate_read_failure_case_def and_then_ok_iff)

section \<open>Properties\<close>

text \<open>
  C27: a read failure is never taken for absence.  In every conforming case of a vector the gate
  accepts, a file that could not be read has unknown currency and one of the five read-failure
  diagnostics, and nothing is emitted, reported current, continued, relinked, rebuilt or written for
  it; a file that is absent has known currency and none of these diagnostics.
\<close>

theorem read_failure_not_absence:
  assumes "validate_environments_read_failure_vectors vector = Inr ()" and "JObj c \<in> set (the_list (jget vector ''cases''))"
    and "jget c ''conforming'' \<noteq> jfalse" and "jget c ''expected'' = JObj e" and "distinct (map fst e)"
  shows "(jget c ''failure_class'' \<noteq> JNull \<longrightarrow> jget e ''currency'' = JStr ''unknown'' \<and>
       str_in (jget e ''diagnostic'') READ_DIAGNOSTICS \<and> list_all (\<lambda>k. \<not> truthy (jget e k)) ACTIONS) \<and>
    (jget c ''failure_class'' = JNull \<longrightarrow> jget e ''currency'' = JStr ''known'' \<and> \<not> str_in (jget e ''diagnostic'') READ_DIAGNOSTICS)"
proof -
  let ?f = "the_str (jget c ''file_class'')" and ?o = "the_str (jget c ''operation'')"
  obtain name where c: "validate_read_failure_case name c = Inr ()" by (rule gate_read_case [OF assms(1,2)])
  have "py_eq (JObj e) (JObj (read_failure_expected ?f ?o (jget c ''failure_class'')))"
    using positive_case [OF c assms(3)] assms(4) by simp
  from py_eq_lookup [OF this assms(5)]
  have same: "py_eq (jget e k) (jget (read_failure_expected ?f ?o (jget c ''failure_class'')) k)" for k .
  show ?thesis
  proof (cases "jget c ''failure_class'' = JNull")
    case True
    have w: "py_eq (jget e k) (jget (absent_expected ?f ?o) k)" for k using same [of k] True by (simp add: read_failure_expected_def)
    have "jget e ''currency'' = JStr ''known''" using w [of "''currency''"] absent_known [of ?f ?o] by simp
    moreover have "\<not> str_in (jget e ''diagnostic'') READ_DIAGNOSTICS"
      using str_in_eq [OF w [of "''diagnostic''"]] absent_known [of ?f ?o] by simp
    ultimately show ?thesis using True by simp
  next
    case False
    have w: "py_eq (jget e k) (jget (unreadable_expected ?f ?o) k)" for k using same [of k] False by (simp add: read_failure_expected_def)
    have "jget e ''currency'' = JStr ''unknown''" using w [of "''currency''"] unreadable_stops [of ?f ?o] by simp
    moreover have "str_in (jget e ''diagnostic'') READ_DIAGNOSTICS"
      using str_in_eq [OF w [of "''diagnostic''"]] unreadable_stops [of ?f ?o] by simp
    moreover have "list_all (\<lambda>k. \<not> truthy (jget e k)) ACTIONS"
      unfolding list_all_iff using falsy_eq [OF w unreadable_values] by blast
    ultimately show ?thesis using False by simp
  qed
qed

section \<open>The property on a sample\<close>

definition sample_read :: "string \<Rightarrow> dict \<Rightarrow> dict" where
  "sample_read name p =
     (''name'', JStr name) # p @
     (case map_of READ_FAILURE_NEGATIVES name of
        Some refused \<Rightarrow> [(''conforming'', jfalse), (''reason'', JStr ''r''), (''expected'', JObj refused)]
      | None \<Rightarrow> [(''expected'', JObj (read_failure_expected (the_str (jget p ''file_class'')) (the_str (jget p ''operation''))
          (jget p ''failure_class'')))])"

definition sample_read_vector :: dict where
  "sample_read_vector =
     [(''schema_version'', JInt 1), (''protocol_version'', JStr ''1.0.0-rc.14''), (''capability'', JStr ''agent-environments''),
      (''capability_revision'', JInt 1), (''story'', JStr ''STORY-260916-1ll22r''),
      (''file_classes'', JArr (map JStr READ_FAILURE_FILE_CLASSES)), (''operations'', JArr (map JStr READ_FAILURE_OPERATIONS)),
      (''presence_values'', JArr (map JStr READ_FAILURE_PRESENCE_VALUES)), (''entry_kinds'', JArr (map JStr READ_FAILURE_ENTRY_KINDS)),
      (''failure_classes'', JArr (map JStr READ_FAILURE_FAILURE_CLASSES)), (''diagnostics'', JArr (map JStr READ_FAILURE_DIAGNOSTICS)),
      (''currencies'', JArr (map JStr READ_FAILURE_CURRENCIES)), (''rule'', JStr ''r''),
      (''cases'', JArr (map (\<lambda>(n, p). JObj (sample_read n p)) READ_FAILURE_SCENARIOS))]"

lemma sample_read_accepted: "validate_environments_read_failure_vectors sample_read_vector = Inr ()"
  by code_simp

lemma sample_read_case:
  "let c = sample_read ''marker-open-permission-denied-unreadable'' (the (map_of READ_FAILURE_SCENARIOS ''marker-open-permission-denied-unreadable'')) in
   JObj c \<in> set (the_list (jget sample_read_vector ''cases'')) \<and> jget c ''conforming'' = JNull \<and>
   jget c ''failure_class'' = JStr ''permission-denied'' \<and> jget c ''expected'' = JObj (unreadable_expected ''marker'' ''env-resolve'')"
  by code_simp

theorem read_failure_not_absence_witness:
  "\<exists>c e. JObj c \<in> set (the_list (jget sample_read_vector ''cases'')) \<and> jget c ''failure_class'' = JStr ''permission-denied'' \<and>
     jget c ''expected'' = JObj e \<and> jget e ''currency'' = JStr ''unknown'' \<and> str_in (jget e ''diagnostic'') READ_DIAGNOSTICS"
proof -
  obtain c where c: "JObj c \<in> set (the_list (jget sample_read_vector ''cases''))" "jget c ''conforming'' = JNull"
      "jget c ''failure_class'' = JStr ''permission-denied''" "jget c ''expected'' = JObj (unreadable_expected ''marker'' ''env-resolve'')"
    using sample_read_case unfolding Let_def by blast
  moreover have "jget c ''conforming'' \<noteq> jfalse" using c(2) by simp
  moreover have "distinct (map fst (unreadable_expected ''marker'' ''env-resolve''))" by (simp add: unreadable_expected_def)
  ultimately show ?thesis using read_failure_not_absence [OF sample_read_accepted c(1) _ c(4)] by auto
qed

end
