(* ===== verification/Dotfiles.thy ===== *)
theory Dotfiles
  imports JsonText Cases
begin

text \<open>
  Dotfile managers (\<open>validate_environments_dotfile_managers_vectors\<close> of \<open>tools/validate.py\<close>,
  environments.md section 9.5): where each manager keeps its state, which one a notice names, the
  checks of a case, the pinned scenarios, and the gate.

  A case is the dictionary the vector holds.  Messages are kept without the names the code
  interpolates.
\<close>

section \<open>The table and the scenarios\<close>

definition DOTFILE_MANAGERS :: "string list" where
  "DOTFILE_MANAGERS = [''chezmoi'', ''home-manager'', ''yadm'', ''stow'', ''dotbot'']"

definition DOTFILE_PLATFORMS :: "string list" where
  "DOTFILE_PLATFORMS = [''macos'', ''linux'', ''windows'']"

definition DOTFILE_LOCATION_STATES :: "string list" where
  "DOTFILE_LOCATION_STATES = [''directory'', ''absent'', ''symlink'', ''file'', ''unreadable'']"

definition DOTFILE_ENV_KEYS :: "string list" where
  "DOTFILE_ENV_KEYS = [''XDG_DATA_HOME'', ''XDG_CONFIG_HOME'']"

definition DOTFILE_DIAGNOSTIC :: string where
  "DOTFILE_DIAGNOSTIC = ''environment_foreign_manager_suspected''"

definition DOTFILE_RULE :: string where
  "DOTFILE_RULE = ''environments section 9.5 dotfile-manager state table''"

definition DOTFILE_TABLE :: "(string \<times> (string \<times> (string \<times> string) option) list) list" where
  "DOTFILE_TABLE =
     [(''chezmoi'', [(''macos'', Some (''XDG_DATA_HOME'', ''chezmoi'')), (''linux'', Some (''XDG_DATA_HOME'', ''chezmoi'')), (''windows'', Some (''XDG_DATA_HOME'', ''chezmoi''))]),
      (''home-manager'', [(''macos'', Some (''XDG_CONFIG_HOME'', ''home-manager'')), (''linux'', Some (''XDG_CONFIG_HOME'', ''home-manager'')), (''windows'', None)]),
      (''yadm'', [(''macos'', Some (''XDG_DATA_HOME'', ''yadm'')), (''linux'', Some (''XDG_DATA_HOME'', ''yadm'')), (''windows'', None)]),
      (''stow'', [(''macos'', None), (''linux'', None), (''windows'', None)]),
      (''dotbot'', [(''macos'', None), (''linux'', None), (''windows'', None)])]"

definition DOTFILE_CASE_KEYS :: "string list" where
  "DOTFILE_CASE_KEYS = [''name'', ''platform'', ''home'', ''env'', ''states'', ''expected'']"

definition DOTFILE_EXPECTED_KEYS :: "string list" where
  "DOTFILE_EXPECTED_KEYS = [''notice'', ''names_manager'', ''resolved_path'', ''blocks'']"

definition DOTFILE_SCENARIOS :: "(string \<times> json) list" where
  "DOTFILE_SCENARIOS =
     [(''chezmoi-linux-present-suspected'', JObj [(''platform'', JStr ''linux''), (''home'', JStr ''/home/operator''), (''env'', JObj []), (''states'', JObj [(''chezmoi'', JStr ''directory''), (''dotbot'', JNull), (''home-manager'', JStr ''absent''), (''stow'', JNull), (''yadm'', JStr ''absent'')])]),
      (''chezmoi-macos-present-suspected'', JObj [(''platform'', JStr ''macos''), (''home'', JStr ''/Users/operator''), (''env'', JObj []), (''states'', JObj [(''chezmoi'', JStr ''directory''), (''dotbot'', JNull), (''home-manager'', JStr ''absent''), (''stow'', JNull), (''yadm'', JStr ''absent'')])]),
      (''chezmoi-windows-present-suspected'', JObj [(''platform'', JStr ''windows''), (''home'', JStr (''C:'' @ backslash # ''Users'' @ backslash # ''operator'')), (''env'', JObj []), (''states'', JObj [(''chezmoi'', JStr ''directory''), (''dotbot'', JNull), (''home-manager'', JNull), (''stow'', JNull), (''yadm'', JNull)])]),
      (''home-manager-linux-present-suspected'', JObj [(''platform'', JStr ''linux''), (''home'', JStr ''/home/operator''), (''env'', JObj []), (''states'', JObj [(''chezmoi'', JStr ''absent''), (''dotbot'', JNull), (''home-manager'', JStr ''directory''), (''stow'', JNull), (''yadm'', JStr ''absent'')])]),
      (''home-manager-macos-present-suspected'', JObj [(''platform'', JStr ''macos''), (''home'', JStr ''/Users/operator''), (''env'', JObj []), (''states'', JObj [(''chezmoi'', JStr ''absent''), (''dotbot'', JNull), (''home-manager'', JStr ''directory''), (''stow'', JNull), (''yadm'', JStr ''absent'')])]),
      (''yadm-linux-present-suspected'', JObj [(''platform'', JStr ''linux''), (''home'', JStr ''/home/operator''), (''env'', JObj []), (''states'', JObj [(''chezmoi'', JStr ''absent''), (''dotbot'', JNull), (''home-manager'', JStr ''absent''), (''stow'', JNull), (''yadm'', JStr ''directory'')])]),
      (''yadm-macos-present-suspected'', JObj [(''platform'', JStr ''macos''), (''home'', JStr ''/Users/operator''), (''env'', JObj []), (''states'', JObj [(''chezmoi'', JStr ''absent''), (''dotbot'', JNull), (''home-manager'', JStr ''absent''), (''stow'', JNull), (''yadm'', JStr ''directory'')])]),
      (''linux-all-absent-quiet'', JObj [(''platform'', JStr ''linux''), (''home'', JStr ''/home/operator''), (''env'', JObj []), (''states'', JObj [(''chezmoi'', JStr ''absent''), (''dotbot'', JNull), (''home-manager'', JStr ''absent''), (''stow'', JNull), (''yadm'', JStr ''absent'')])]),
      (''macos-all-absent-quiet'', JObj [(''platform'', JStr ''macos''), (''home'', JStr ''/Users/operator''), (''env'', JObj []), (''states'', JObj [(''chezmoi'', JStr ''absent''), (''dotbot'', JNull), (''home-manager'', JStr ''absent''), (''stow'', JNull), (''yadm'', JStr ''absent'')])]),
      (''windows-all-absent-quiet'', JObj [(''platform'', JStr ''windows''), (''home'', JStr (''C:'' @ backslash # ''Users'' @ backslash # ''operator'')), (''env'', JObj []), (''states'', JObj [(''chezmoi'', JStr ''absent''), (''dotbot'', JNull), (''home-manager'', JNull), (''stow'', JNull), (''yadm'', JNull)])]),
      (''chezmoi-linux-xdg-data-home-relocated'', JObj [(''platform'', JStr ''linux''), (''home'', JStr ''/home/operator''), (''env'', JObj [(''XDG_DATA_HOME'', JStr ''/data'')]), (''states'', JObj [(''chezmoi'', JStr ''directory''), (''dotbot'', JNull), (''home-manager'', JStr ''absent''), (''stow'', JNull), (''yadm'', JStr ''absent'')])]),
      (''chezmoi-linux-xdg-data-home-empty-uses-default'', JObj [(''platform'', JStr ''linux''), (''home'', JStr ''/home/operator''), (''env'', JObj [(''XDG_DATA_HOME'', JStr [])]), (''states'', JObj [(''chezmoi'', JStr ''directory''), (''dotbot'', JNull), (''home-manager'', JStr ''absent''), (''stow'', JNull), (''yadm'', JStr ''absent'')])]),
      (''chezmoi-linux-xdg-data-home-relative-uses-default'', JObj [(''platform'', JStr ''linux''), (''home'', JStr ''/home/operator''), (''env'', JObj [(''XDG_DATA_HOME'', JStr ''rel/path'')]), (''states'', JObj [(''chezmoi'', JStr ''directory''), (''dotbot'', JNull), (''home-manager'', JStr ''absent''), (''stow'', JNull), (''yadm'', JStr ''absent'')])]),
      (''home-manager-linux-xdg-config-home-relocated'', JObj [(''platform'', JStr ''linux''), (''home'', JStr ''/home/operator''), (''env'', JObj [(''XDG_CONFIG_HOME'', JStr ''/cfg'')]), (''states'', JObj [(''chezmoi'', JStr ''absent''), (''dotbot'', JNull), (''home-manager'', JStr ''directory''), (''stow'', JNull), (''yadm'', JStr ''absent'')])]),
      (''home-manager-linux-xdg-config-home-relative-uses-default'', JObj [(''platform'', JStr ''linux''), (''home'', JStr ''/home/operator''), (''env'', JObj [(''XDG_CONFIG_HOME'', JStr ''rel/cfg'')]), (''states'', JObj [(''chezmoi'', JStr ''absent''), (''dotbot'', JNull), (''home-manager'', JStr ''directory''), (''stow'', JNull), (''yadm'', JStr ''absent'')])]),
      (''yadm-macos-xdg-data-home-relocated'', JObj [(''platform'', JStr ''macos''), (''home'', JStr ''/Users/operator''), (''env'', JObj [(''XDG_DATA_HOME'', JStr ''/Volumes/data'')]), (''states'', JObj [(''chezmoi'', JStr ''absent''), (''dotbot'', JNull), (''home-manager'', JStr ''absent''), (''stow'', JNull), (''yadm'', JStr ''directory'')])]),
      (''chezmoi-windows-xdg-data-home-relocated'', JObj [(''platform'', JStr ''windows''), (''home'', JStr (''C:'' @ backslash # ''Users'' @ backslash # ''operator'')), (''env'', JObj [(''XDG_DATA_HOME'', JStr (''D:'' @ backslash # ''data''))]), (''states'', JObj [(''chezmoi'', JStr ''directory''), (''dotbot'', JNull), (''home-manager'', JNull), (''stow'', JNull), (''yadm'', JNull)])]),
      (''chezmoi-linux-symlink-quiet'', JObj [(''platform'', JStr ''linux''), (''home'', JStr ''/home/operator''), (''env'', JObj []), (''states'', JObj [(''chezmoi'', JStr ''symlink''), (''dotbot'', JNull), (''home-manager'', JStr ''absent''), (''stow'', JNull), (''yadm'', JStr ''absent'')])]),
      (''yadm-linux-regular-file-quiet'', JObj [(''platform'', JStr ''linux''), (''home'', JStr ''/home/operator''), (''env'', JObj []), (''states'', JObj [(''chezmoi'', JStr ''absent''), (''dotbot'', JNull), (''home-manager'', JStr ''absent''), (''stow'', JNull), (''yadm'', JStr ''file'')])]),
      (''home-manager-linux-unreadable-quiet'', JObj [(''platform'', JStr ''linux''), (''home'', JStr ''/home/operator''), (''env'', JObj []), (''states'', JObj [(''chezmoi'', JStr ''absent''), (''dotbot'', JNull), (''home-manager'', JStr ''unreadable''), (''stow'', JNull), (''yadm'', JStr ''absent'')])]),
      (''linux-chezmoi-and-yadm-names-chezmoi'', JObj [(''platform'', JStr ''linux''), (''home'', JStr ''/home/operator''), (''env'', JObj []), (''states'', JObj [(''chezmoi'', JStr ''directory''), (''dotbot'', JNull), (''home-manager'', JStr ''absent''), (''stow'', JNull), (''yadm'', JStr ''directory'')])]),
      (''macos-home-manager-and-yadm-names-home-manager'', JObj [(''platform'', JStr ''macos''), (''home'', JStr ''/Users/operator''), (''env'', JObj []), (''states'', JObj [(''chezmoi'', JStr ''absent''), (''dotbot'', JNull), (''home-manager'', JStr ''directory''), (''stow'', JNull), (''yadm'', JStr ''directory'')])])]"
section \<open>Locations\<close>

definition ascii_letter :: "char \<Rightarrow> bool" where
  "ascii_letter c \<longleftrightarrow> is_upper c \<or> is_lower c"

text \<open>\<open>_dotfile_is_absolute\<close>: a drive with a slash, a doubled backslash, or a leading slash.\<close>

definition dotfile_is_absolute :: "string \<Rightarrow> string \<Rightarrow> bool" where
  "dotfile_is_absolute platform v =
     (if platform = ''windows'' then
        prefix [backslash, backslash] v \<or>
        (case v of a # b # c # _ \<Rightarrow> ascii_letter a \<and> b = CHR '':'' \<and> c \<in> {backslash, CHR ''/''} | _ \<Rightarrow> False)
      else prefix ''/'' v)"

definition dotfile_join :: "string \<Rightarrow> string \<Rightarrow> string list \<Rightarrow> string" where
  "dotfile_join platform base rest =
     base @ concat (map (\<lambda>part. (if platform = ''windows'' then backslash else CHR ''/'') # part) rest)"

definition dotfile_base :: "string \<Rightarrow> string \<Rightarrow> dict \<Rightarrow> string \<Rightarrow> string" where
  "dotfile_base platform home e base =
     (let override = jget e base in
      if is_str override \<and> the_str override \<noteq> [] \<and> dotfile_is_absolute platform (the_str override) then the_str override
      else if base = ''XDG_DATA_HOME'' then dotfile_join platform home [''.local'', ''share'']
      else dotfile_join platform home [''.config''])"

definition dotfile_resolve :: "string \<Rightarrow> string \<Rightarrow> dict \<Rightarrow> (string \<times> string) option \<Rightarrow> string option" where
  "dotfile_resolve platform home e cell =
     (case cell of
        None \<Rightarrow> None
      | Some (base, leaf) \<Rightarrow> Some (dotfile_join platform (dotfile_base platform home e base) [leaf]))"

definition dotfile_cell :: "string \<Rightarrow> string \<Rightarrow> (string \<times> string) option" where
  "dotfile_cell m platform =
     (case map_of DOTFILE_TABLE m of None \<Rightarrow> None | Some row \<Rightarrow> (case map_of row platform of None \<Rightarrow> None | Some cell \<Rightarrow> cell))"

text \<open>The first manager, in table order, whose location is a directory.\<close>

definition dotfile_winner :: "dict \<Rightarrow> string option" where
  "dotfile_winner sts = find (\<lambda>m. jget sts m = JStr ''directory'') DOTFILE_MANAGERS"

section \<open>One case\<close>

definition dotfile_env_ok :: "dict \<Rightarrow> bool" where
  "dotfile_env_ok e =
     list_all (\<lambda>(_, v). is_str v \<and> \<not> (the_str v \<noteq> [] \<and> last (the_str v) \<in> {CHR ''/'', backslash})) e"

definition dotfile_shape :: "dict \<Rightarrow> unit res" where
  "dotfile_shape c =
     (let platform = the_str (jget c ''platform''); home = jget c ''home''; e = jget c ''env''; sts = jget c ''states'' in
      require
        [(fst ` set c = set DOTFILE_CASE_KEYS, fail ''is not exactly { name, platform, home, env, states, expected }''),
         (str_in (jget c ''platform'') DOTFILE_PLATFORMS, fail ''names an unknown platform''),
         (is_str home \<and> the_str home \<noteq> [] \<and> dotfile_is_absolute platform (the_str home), fail ''home is not a non-empty absolute path''),
         (is_dict e \<and> fst ` set (the_dict e) \<subseteq> set DOTFILE_ENV_KEYS, fail ''env carries a variable outside the closed XDG pair''),
         (dotfile_env_ok (the_dict e), fail ''env is not a string without a trailing separator''),
         (is_dict sts \<and> fst ` set (the_dict sts) = set DOTFILE_MANAGERS, fail ''states do not cover exactly the five managers''),
         (list_all (\<lambda>m. case dotfile_cell m platform of
              None \<Rightarrow> jget (the_dict sts) m = JNull
            | Some _ \<Rightarrow> str_in (jget (the_dict sts) m) DOTFILE_LOCATION_STATES) DOTFILE_MANAGERS,
          fail ''inspects a none cell, or a state is outside the closed five-state set'')])"

definition dotfile_inputs :: "dict \<Rightarrow> json" where
  "dotfile_inputs c = JObj (map (\<lambda>k. (k, jget c k)) [''platform'', ''home'', ''env'', ''states''])"

definition dotfile_notice :: "dict \<Rightarrow> string option \<times> string option \<times> string option" where
  "dotfile_notice c =
     (case dotfile_winner (the_dict (jget c ''states'')) of
        None \<Rightarrow> (None, None, None)
      | Some m \<Rightarrow>
          (Some DOTFILE_DIAGNOSTIC, Some m,
           dotfile_resolve (the_str (jget c ''platform'')) (the_str (jget c ''home'')) (the_dict (jget c ''env''))
             (dotfile_cell m (the_str (jget c ''platform'')))))"

definition validate_dotfile_case :: "string \<Rightarrow> dict \<Rightarrow> unit res" where
  "validate_dotfile_case name c =
     and_then (dotfile_shape c) (\<lambda>_.
     let expected = jget c ''expected''; ed = the_dict expected; (notice, named, path) = dotfile_notice c in
     require
       [((case map_of DOTFILE_SCENARIOS name of None \<Rightarrow> False | Some p \<Rightarrow> py_eq (dotfile_inputs c) p),
         fail ''inputs do not match its pinned scenario''),
        (is_dict expected \<and> fst ` set ed = set DOTFILE_EXPECTED_KEYS, fail ''expected is not the closed four-field set''),
        (jget ed ''blocks'' = jfalse, fail ''heuristic blocks''),
        (jget ed ''notice'' = jopt notice \<and> jget ed ''names_manager'' = jopt named \<and> jget ed ''resolved_path'' = jopt path,
         fail ''notice does not follow the table-order first-present rule'')])"

section \<open>The gate\<close>

definition dotfile_row :: "json \<Rightarrow> unit res" where
  "dotfile_row row =
     and_then (text_at row [''manager'']) (\<lambda>m.
     let d = the_dict row in
     require ((fst ` set d = set [''manager'', ''macos'', ''linux'', ''windows''], fail ''is not exactly one cell per platform'') #
       map (\<lambda>platform.
         let cell = jget d platform in
         (case dotfile_cell m platform of
            None \<Rightarrow> (cell = JNull, fail ''is not the pinned none'')
          | Some (base, leaf) \<Rightarrow>
              (is_dict cell \<and> fst ` set (the_dict cell) = set [''base'', ''leaf''] \<and>
               jget (the_dict cell) ''base'' = JStr base \<and> jget (the_dict cell) ''leaf'' = JStr leaf,
               fail ''is not the pinned location''))) DOTFILE_PLATFORMS))"

definition validate_environments_dotfile_managers_vectors :: "dict \<Rightarrow> unit res" where
  "validate_environments_dotfile_managers_vectors vector =
     and_then (require
       [(py_eq (jget vector ''schema_version'') (JInt 1) \<and> jget vector ''protocol_version'' = JStr ''1.0.0-rc.14'' \<and>
         jget vector ''capability'' = JStr ''agent-environments'' \<and> py_eq (jget vector ''capability_revision'') (JInt 1) \<and>
         jget vector ''rule'' = JStr DOTFILE_RULE, fail ''wrong capability identity''),
        (jget vector ''managers'' = JArr (map JStr DOTFILE_MANAGERS), fail ''managers are not the closed ordered set''),
        (jget vector ''platforms'' = JArr (map JStr DOTFILE_PLATFORMS), fail ''platforms are not the closed set''),
        (jget vector ''location_states'' = JArr (map JStr DOTFILE_LOCATION_STATES), fail ''location states are not the closed set''),
        (jget vector ''diagnostic'' = JStr DOTFILE_DIAGNOSTIC, fail ''diagnostic is not environment_foreign_manager_suspected''),
        (is_list (jget vector ''table'') \<and>
         map (\<lambda>row. jget (the_dict row) ''manager'') (filter is_dict (the_list (jget vector ''table''))) = map JStr DOTFILE_MANAGERS,
         fail ''table rows are not the closed ordered set'')]) (\<lambda>_.
     and_then (for_each dotfile_row (the_list (jget vector ''table''))) (\<lambda>_.
     and_then (named_cases (jget vector ''cases'') ''environments dotfile managers'') (\<lambda>cases.
     and_then (guard (set (map fst cases) = set (map fst DOTFILE_SCENARIOS)) (fail ''case inventory is not exact'')) (\<lambda>_.
     for_each (\<lambda>(name, c). validate_dotfile_case name c) cases))))"

section \<open>Facts about locations\<close>

lemma absolute_append: "dotfile_is_absolute platform v \<Longrightarrow> dotfile_is_absolute platform (v @ w)"
  by (auto simp: dotfile_is_absolute_def split: list.splits)

lemma base_absolute: "dotfile_is_absolute platform home \<Longrightarrow> dotfile_is_absolute platform (dotfile_base platform home e base)"
  by (simp add: dotfile_base_def dotfile_join_def absolute_append Let_def)

definition separator_of :: "string \<Rightarrow> char" where
  "separator_of platform = (if platform = ''windows'' then backslash else CHR ''/'')"

lemma resolve_absolute:
  assumes "dotfile_resolve platform home e cell = Some p" "dotfile_is_absolute platform home"
  obtains base leaf where "cell = Some (base, leaf)" "dotfile_is_absolute platform p" "suffix (separator_of platform # leaf) p"
proof -
  from assms(1) obtain base leaf where cell: "cell = Some (base, leaf)"
    and p: "p = dotfile_base platform home e base @ separator_of platform # leaf"
    by (auto simp: dotfile_resolve_def dotfile_join_def separator_of_def split: option.splits)
  show ?thesis
    using that [OF cell] p absolute_append [OF base_absolute [OF assms(2)]] by (auto simp: suffix_def)
qed

lemma winner_first:
  assumes "dotfile_winner sts = Some m"
  obtains before after where "DOTFILE_MANAGERS = before @ m # after" "jget sts m = JStr ''directory''"
    "\<forall>q \<in> set before. jget sts q \<noteq> JStr ''directory''"
proof -
  from assms obtain i where i: "i < length DOTFILE_MANAGERS" "m = DOTFILE_MANAGERS ! i" "jget sts m = JStr ''directory''"
      "\<forall>j < i. jget sts (DOTFILE_MANAGERS ! j) \<noteq> JStr ''directory''"
    unfolding dotfile_winner_def find_Some_iff by auto
  have "DOTFILE_MANAGERS = take i DOTFILE_MANAGERS @ m # drop (Suc i) DOTFILE_MANAGERS"
    using i(1,2) by (simp add: id_take_nth_drop)
  moreover have "\<forall>q \<in> set (take i DOTFILE_MANAGERS). jget sts q \<noteq> JStr ''directory''"
    using i(1,4) by (auto simp: in_set_conv_nth)
  ultimately show ?thesis using i(3) that by blast
qed

lemma gate_dotfile_case:
  assumes "validate_environments_dotfile_managers_vectors vector = Inr ()" "JObj c \<in> set (the_list (jget vector ''cases''))"
  obtains name where "validate_dotfile_case name c = Inr ()"
proof -
  from assms(1) obtain cases where "named_cases (jget vector ''cases'') ''environments dotfile managers'' = Inr cases"
      "for_each (\<lambda>(name, c). validate_dotfile_case name c) cases = Inr ()"
    unfolding validate_environments_dotfile_managers_vectors_def and_then_ok_iff by auto
  with assms(2) that show ?thesis by (force simp: named_cases_def and_then_ok_iff for_each_ok_iff)
qed

lemma dotfile_case_parts:
  assumes "validate_dotfile_case name c = Inr ()" "dotfile_notice c = (notice, named, path)"
  shows "dotfile_shape c = Inr () \<and> jget (the_dict (jget c ''expected'')) ''blocks'' = jfalse \<and>
    jget (the_dict (jget c ''expected'')) ''notice'' = jopt notice \<and>
    jget (the_dict (jget c ''expected'')) ''names_manager'' = jopt named \<and>
    jget (the_dict (jget c ''expected'')) ''resolved_path'' = jopt path"
  using assms by (simp add: validate_dotfile_case_def and_then_ok_iff Let_def)

lemma located:
  assumes "dotfile_shape c = Inr ()" "jget (the_dict (jget c ''states'')) m = JStr ''directory''" "m \<in> set DOTFILE_MANAGERS"
  obtains cell where "dotfile_cell m (the_str (jget c ''platform'')) = Some cell" "dotfile_is_absolute (the_str (jget c ''platform'')) (the_str (jget c ''home''))"
proof -
  have "case dotfile_cell m (the_str (jget c ''platform'')) of
      None \<Rightarrow> jget (the_dict (jget c ''states'')) m = JNull
    | Some _ \<Rightarrow> str_in (jget (the_dict (jget c ''states'')) m) DOTFILE_LOCATION_STATES"
    using assms(1,3) by (simp add: dotfile_shape_def Let_def list_all_iff)
  moreover have "dotfile_is_absolute (the_str (jget c ''platform'')) (the_str (jget c ''home''))"
    using assms(1) by (simp add: dotfile_shape_def Let_def)
  ultimately show ?thesis using assms(2) that by (auto split: option.splits)
qed

section \<open>Properties\<close>

text \<open>
  A notice names the first manager found, and where.  In every case of a vector the gate accepts
  the heuristic never blocks; there is a notice exactly when the state of some manager is a directory;
  and the manager it names is the first such in table order, with an absolute path that ends in the
  leaf of its table cell for the platform.
\<close>

theorem dotfile_notice_exact:
  assumes "validate_environments_dotfile_managers_vectors vector = Inr ()" and "JObj c \<in> set (the_list (jget vector ''cases''))"
    and "expected = the_dict (jget c ''expected'')" and "sts = the_dict (jget c ''states'')"
  shows "jget expected ''blocks'' = jfalse \<and>
    (jget expected ''notice'' = JNull \<longleftrightarrow> list_all (\<lambda>m. jget sts m \<noteq> JStr ''directory'') DOTFILE_MANAGERS) \<and>
    (jget expected ''notice'' \<noteq> JNull \<longrightarrow>
       (\<exists>before m after base leaf p. DOTFILE_MANAGERS = before @ m # after \<and> jget expected ''names_manager'' = JStr m \<and>
          jget sts m = JStr ''directory'' \<and> (\<forall>q \<in> set before. jget sts q \<noteq> JStr ''directory'') \<and>
          dotfile_cell m (the_str (jget c ''platform'')) = Some (base, leaf) \<and> jget expected ''resolved_path'' = JStr p \<and>
          dotfile_is_absolute (the_str (jget c ''platform'')) p \<and> suffix (separator_of (the_str (jget c ''platform'')) # leaf) p))"
proof -
  let ?platform = "the_str (jget c ''platform'')"
  obtain name where c: "validate_dotfile_case name c = Inr ()" by (rule gate_dotfile_case [OF assms(1,2)])
  show ?thesis
  proof (cases "dotfile_winner sts")
    case None
    then have "dotfile_notice c = (None, None, None)" using assms(4) by (simp add: dotfile_notice_def)
    from dotfile_case_parts [OF c this] None show ?thesis
      using assms(3) by (auto simp: dotfile_winner_def find_None_iff list_all_iff)
  next
    case (Some m)
    obtain before after where first: "DOTFILE_MANAGERS = before @ m # after" "jget sts m = JStr ''directory''"
        "\<forall>q \<in> set before. jget sts q \<noteq> JStr ''directory''"
      by (rule winner_first [OF Some])
    have m: "m \<in> set DOTFILE_MANAGERS" unfolding first(1) by simp
    obtain notice where n: "dotfile_notice c = (Some DOTFILE_DIAGNOSTIC, Some m, notice)"
      and path: "notice = dotfile_resolve ?platform (the_str (jget c ''home'')) (the_dict (jget c ''env'')) (dotfile_cell m ?platform)"
      using Some assms(4) by (simp add: dotfile_notice_def)
    note parts = dotfile_case_parts [OF c n]
    obtain cell where cell: "dotfile_cell m ?platform = Some cell" and home: "dotfile_is_absolute ?platform (the_str (jget c ''home''))"
      by (rule located [of c m]) (use parts first m assms(4) in auto)
    then obtain p where p: "notice = Some p" using path by (cases cell) (simp add: dotfile_resolve_def)
    have "dotfile_resolve ?platform (the_str (jget c ''home'')) (the_dict (jget c ''env'')) (dotfile_cell m ?platform) = Some p"
      using path p by simp
    then obtain base leaf where "dotfile_cell m ?platform = Some (base, leaf)" "dotfile_is_absolute ?platform p"
        "suffix (separator_of ?platform # leaf) p"
      by (rule resolve_absolute [OF _ home])
    moreover have "\<not> list_all (\<lambda>m. jget sts m \<noteq> JStr ''directory'') DOTFILE_MANAGERS"
      using first(2) m by (auto simp: list_all_iff)
    ultimately show ?thesis using parts p first assms(3) by auto
  qed
qed

section \<open>The property on a sample\<close>

definition sample_dotfile :: "string \<Rightarrow> json \<Rightarrow> dict" where
  "sample_dotfile name p =
     (let c = map (\<lambda>k. (k, jget (the_dict p) k)) [''platform'', ''home'', ''env'', ''states'']; (notice, named, path) = dotfile_notice c in
      (''name'', JStr name) # c @
      [(''expected'', JObj [(''notice'', jopt notice), (''names_manager'', jopt named), (''resolved_path'', jopt path), (''blocks'', jfalse)])])"

definition sample_dotfile_vector :: dict where
  "sample_dotfile_vector =
     [(''schema_version'', JInt 1), (''protocol_version'', JStr ''1.0.0-rc.14''), (''capability'', JStr ''agent-environments''),
      (''capability_revision'', JInt 1), (''rule'', JStr DOTFILE_RULE), (''managers'', JArr (map JStr DOTFILE_MANAGERS)),
      (''platforms'', JArr (map JStr DOTFILE_PLATFORMS)), (''location_states'', JArr (map JStr DOTFILE_LOCATION_STATES)),
      (''diagnostic'', JStr DOTFILE_DIAGNOSTIC),
      (''table'', JArr (map (\<lambda>(m, row). JObj ((''manager'', JStr m) # map (\<lambda>(pl, cell).
         (pl, case cell of None \<Rightarrow> JNull | Some (base, leaf) \<Rightarrow> JObj [(''base'', JStr base), (''leaf'', JStr leaf)])) row)) DOTFILE_TABLE)),
      (''cases'', JArr (map (\<lambda>(n, p). JObj (sample_dotfile n p)) DOTFILE_SCENARIOS))]"

lemma sample_dotfile_accepted: "validate_environments_dotfile_managers_vectors sample_dotfile_vector = Inr ()"
  by code_simp

lemma sample_dotfile_case:
  "let c = sample_dotfile ''chezmoi-linux-present-suspected'' (the (map_of DOTFILE_SCENARIOS ''chezmoi-linux-present-suspected'')) in
   JObj c \<in> set (the_list (jget sample_dotfile_vector ''cases'')) \<and> jget (the_dict (jget c ''expected'')) ''notice'' = JStr DOTFILE_DIAGNOSTIC"
  by code_simp

theorem dotfile_notice_exact_witness:
  "\<exists>c m p. JObj c \<in> set (the_list (jget sample_dotfile_vector ''cases'')) \<and>
     jget (the_dict (jget c ''expected'')) ''names_manager'' = JStr m \<and> jget (the_dict (jget c ''states'')) m = JStr ''directory'' \<and>
     jget (the_dict (jget c ''expected'')) ''resolved_path'' = JStr p \<and> dotfile_is_absolute (the_str (jget c ''platform'')) p"
proof -
  obtain c where c: "JObj c \<in> set (the_list (jget sample_dotfile_vector ''cases''))"
      "jget (the_dict (jget c ''expected'')) ''notice'' = JStr DOTFILE_DIAGNOSTIC"
    using sample_dotfile_case unfolding Let_def by blast
  then show ?thesis using dotfile_notice_exact [OF sample_dotfile_accepted c(1) refl refl] by fastforce
qed

end
