(* ===== verification/Passthrough.thy ===== *)
theory Passthrough
  imports JsonText Cases "HOL-Library.Multiset"
begin

text \<open>
  What a launch passes through to MCP servers (environments.md sections 2.2, 2.3, 9.1, 10.3, 12):
  \<open>s4_effective_passable\<close>, \<open>s4_expected_passthrough\<close>, the surfacing row of a declaration
  with its reader (\<open>s4_surfacing_row\<close>, \<open>s4_parse_surfacing_row\<close>), and the gate
  \<open>validate_environments_env_passthrough_vectors\<close>.  A knob is the JSON value of the case; a
  missing one is the text \<open>absent\<close>, as in the code.  The verdict of the manager schema and its
  default are parameters.
\<close>

section \<open>The closed sets\<close>

definition S4_PROFILES :: "string list" where
  "S4_PROFILES = [''s4-enforce'', ''s4-warn'']"

definition S4_SURFACING_ORDER :: "string list" where
  "S4_SURFACING_ORDER = [''audit-gate'', ''surfacing'', ''lock-published'', ''materialization'']"

definition S4_SURFACING_TRANSPORTS :: "string list" where
  "S4_SURFACING_TRANSPORTS = [''stdio'', ''http'']"

definition S4_DEFAULT_RESOLUTION_CASES :: "string list" where
  "S4_DEFAULT_RESOLUTION_CASES =
     [''s4-warn-absent-warns-every-passed'', ''s4-enforce-absent-drops-all'', ''explicit-null-unbounded'',
      ''s4-warn-explicit-list-bounds-silently'', ''s4-enforce-explicit-list-drops-with-diagnostic'',
      ''s4-enforce-absent-passes-unlisted'', ''explicit-null-treated-as-empty'']"

definition S4_DEFAULT_NEGATIVE_CASES :: "string list" where
  "S4_DEFAULT_NEGATIVE_CASES = [''s4-enforce-absent-passes-unlisted'', ''explicit-null-treated-as-empty'']"

definition S4_ALLOWLIST_CASES :: "string list" where
  "S4_ALLOWLIST_CASES =
     [''empty-allowlist-install-warns'', ''empty-allowlist-update-warns'', ''empty-allowlist-status-posture'',
      ''non-empty-allowlist-silent'', ''non-empty-allowlist-warns'', ''outside-non-empty-allowlist-refused'']"

definition S4_ALLOWLIST_NEGATIVE_CASES :: "string list" where
  "S4_ALLOWLIST_NEGATIVE_CASES = [''non-empty-allowlist-warns'']"

definition S4_SURFACING_CASES :: "string list" where
  "S4_SURFACING_CASES =
     [''single-stdio-declaration'', ''stdio-and-http-ordering'', ''args-with-space'', ''args-with-escaped-quote'',
      ''row-missing-env-names'', ''row-wrong-column-order'']"

definition S4_SURFACING_NEGATIVE_CASES :: "string list" where
  "S4_SURFACING_NEGATIVE_CASES = [''row-missing-env-names'', ''row-wrong-column-order'']"

definition S4_SURFACING_ORDER_CASES :: "(string \<times> string) list" where
  "S4_SURFACING_ORDER_CASES =
     [(''install-surfacing-before-publish'', ''profile-install''), (''update-surfacing-before-publish'', ''profile-update'')]"

definition S4_SCHEMA_CASES :: "string list" where
  "S4_SCHEMA_CASES = [''knob-absent-defaults-empty'', ''knob-explicit-null-unbounded'', ''knob-explicit-list'', ''knob-invalid-name'']"

section \<open>The names a launch passes\<close>

definition s4_effective_passable :: "json \<Rightarrow> string \<Rightarrow> json" where
  "s4_effective_passable knob prof =
     (if knob = JStr ''absent'' then (if prof = ''s4-warn'' then JStr ''unbounded'' else JArr [])
      else if knob = JNull then JStr ''unbounded'' else knob)"

definition s4_expected_passthrough :: "json \<Rightarrow> string \<Rightarrow> string list \<Rightarrow> string list \<times> string list \<times> string option" where
  "s4_expected_passthrough knob prof requested =
     (let effective = s4_effective_passable knob prof;
          listed = (\<lambda>n. effective = JStr ''unbounded'' \<or> JStr n \<in> set (the_list effective));
          passed = filter listed requested; dropped = filter (\<lambda>n. \<not> listed n) requested in
      (passed, dropped,
       if prof = ''s4-warn'' then
         (if knob = JStr ''absent'' then (if passed \<noteq> [] then Some ''mcp_env_passthrough_unlisted'' else None) else None)
       else if dropped \<noteq> [] then Some ''mcp_env_passthrough_dropped'' else None))"

section \<open>Surfacing rows\<close>

text \<open>\<open>json.dumps(value, separators=(",", ":"), ensure_ascii=False)\<close> of a list of texts.\<close>

definition s4_compact_json :: "string list \<Rightarrow> string" where
  "s4_compact_json ss = plain (JArr (map JStr ss))"

definition row_text :: "string \<Rightarrow> string \<Rightarrow> string \<Rightarrow> string \<Rightarrow> string list \<Rightarrow> string list \<Rightarrow> string" where
  "row_text package version transport command args env_names =
     ''mcp-declaration '' @ package @ '' '' @ version @ '' '' @ transport @ '' command='' @ command @
     '' args='' @ s4_compact_json args @ '' env_names='' @ s4_compact_json env_names"

definition s4_surfacing_row :: "json \<Rightarrow> string res" where
  "s4_surfacing_row decl =
     (case decl of
        JObj d \<Rightarrow>
          (let package = jget d ''package''; version = jget d ''version''; transport = jget d ''transport'';
               env_names = jget d ''env_names''; command = jget d ''command''; args = jget d ''args'' in
           and_then (require
             [(is_str package \<and> the_str package \<noteq> [], fail ''surfacing declaration needs a package name''),
              (is_str version \<and> the_str version \<noteq> [], fail ''surfacing declaration needs a version''),
              (str_in transport S4_SURFACING_TRANSPORTS, fail ''transport must be stdio or http''),
              (is_text_list env_names, fail ''env_names must be a string array''),
              (transport = JStr ''http'' \<and> jhas d ''command'' \<longrightarrow> command = JStr ''-'', fail ''http rows carry command=-''),
              (transport = JStr ''http'' \<and> jhas d ''args'' \<longrightarrow> args = JArr [], fail ''http rows carry args=[]''),
              (transport \<noteq> JStr ''http'' \<longrightarrow> is_str command \<and> the_str command \<noteq> [], fail ''stdio needs a command''),
              (transport \<noteq> JStr ''http'' \<longrightarrow> is_text_list args, fail ''stdio args must be a string array'')]) (\<lambda>_.
           Inr (row_text (the_str package) (the_str version) (the_str transport)
             (if transport = JStr ''http'' then ''-'' else the_str command)
             (if transport = JStr ''http'' then [] else texts_in args) (texts_in env_names))))
      | _ \<Rightarrow> Inl (fail ''surfacing declaration must be an object''))"

text \<open>\<open>s.split(c, n)\<close>, and \<open>JSONDecoder().raw_decode(s, i)\<close>: the value and the index after it.\<close>

fun split_most :: "nat \<Rightarrow> char \<Rightarrow> string \<Rightarrow> string list" where
  "split_most 0 c s = [s]"
| "split_most (Suc n) c s = (if c \<in> set s then before_char c s # split_most n c (after_char c s) else [s])"

definition decoder_hooks :: hooks where
  "decoder_hooks = \<lparr>parse_int = (\<lambda>t. Inr (JInt (int_of_text t))), parse_other = (\<lambda>_. bad_json), parse_pairs = (\<lambda>ps. Inr (JObj ps))\<rparr>"

definition raw_decode :: "string \<Rightarrow> nat \<Rightarrow> (json \<times> nat) option" where
  "raw_decode s i =
     (case json_value (2 * length s + 1) decoder_hooks (drop i s) of Inl _ \<Rightarrow> None | Inr (v, r) \<Rightarrow> Some (v, length s - length r))"

text \<open>A labelled column: a compact array of texts, and the text after it.\<close>

definition read_column :: "string \<Rightarrow> string \<Rightarrow> (string list \<times> string) option" where
  "read_column label s =
     (if \<not> prefix label s then None
      else case raw_decode s (length label) of
        None \<Rightarrow> None
      | Some (v, e) \<Rightarrow>
          if is_text_list v \<and> s4_compact_json (texts_in v) = take (e - length label) (drop (length label) s)
          then Some (texts_in v, drop e s) else None)"

definition surfaced :: "string \<Rightarrow> string \<Rightarrow> string \<Rightarrow> string \<Rightarrow> string list \<Rightarrow> string list \<Rightarrow> dict" where
  "surfaced package version transport command args env_names =
     [(''package'', JStr package), (''version'', JStr version), (''transport'', JStr transport), (''command'', JStr command),
      (''args'', JArr (map JStr args)), (''env_names'', JArr (map JStr env_names))]"

definition read_columns :: "string \<Rightarrow> string \<Rightarrow> string \<Rightarrow> string \<Rightarrow> dict option" where
  "read_columns package version transport rest =
     (if \<not> prefix ''command='' rest \<or> CHR '' '' \<notin> set rest then None
      else
        let command = drop 8 (before_char (CHR '' '') rest) in
        if command = [] \<or> (transport = ''http'' \<and> command \<noteq> ''-'') then None
        else case read_column ''args='' (after_char (CHR '' '') rest) of
          None \<Rightarrow> None
        | Some (args, after_args) \<Rightarrow>
            (case read_column '' env_names='' after_args of
               None \<Rightarrow> None
             | Some (env_names, r) \<Rightarrow>
                 if r \<noteq> [] \<or> (transport = ''http'' \<and> args \<noteq> []) then None
                 else Some (surfaced package version transport command args env_names)))"

definition s4_parse_surfacing_row :: "json \<Rightarrow> dict option" where
  "s4_parse_surfacing_row row =
     (case row of
        JStr s \<Rightarrow>
          if CHR 0x0A \<in> set s \<or> CHR 0x0D \<in> set s then None
          else (case split_most 4 (CHR '' '') s of
            [marker, package, version, transport, rest] \<Rightarrow>
              if marker \<noteq> ''mcp-declaration'' \<or> package = [] \<or> version = [] \<or> transport \<notin> set S4_SURFACING_TRANSPORTS then None
              else read_columns package version transport rest
          | _ \<Rightarrow> None)
      | _ \<Rightarrow> None)"

section \<open>The gate\<close>

definition check_default_profile :: "dict \<Rightarrow> json \<Rightarrow> string list \<Rightarrow> string \<Rightarrow> unit res" where
  "check_default_profile c knob requested prof =
     (let (passed, dropped, diagnostic) = s4_expected_passthrough knob prof requested in
      require
        [(texts_are (jget c ''passed'') passed \<and> texts_are (jget c ''dropped'') dropped, fail ''passed/dropped are not the rule''),
         (jget c ''diagnostic'' = jopt diagnostic, fail ''diagnostic is not the rule''),
         (py_eq (jget c ''effective'') (s4_effective_passable knob prof), fail ''effective is not the rule'')])"

definition check_hints :: "dict \<Rightarrow> unit res" where
  "check_hints c =
     (let variables = jget c ''migration_hint_names_variables'' = jtrue; named = jget c ''migration_hint_names_knob'' = jtrue in
      if jget c ''diagnostic'' = JStr ''mcp_env_passthrough_unlisted''
      then guard (variables \<and> named) (fail ''the unlisted warning must name the variables and the knob'')
      else guard (\<not> variables \<and> \<not> named) (fail ''a migration hint without the unlisted warning is stale''))"

definition profiles_of :: "dict \<Rightarrow> json" where
  "profiles_of c = jget_or (JArr [jget c ''profile'']) c ''profiles''"

definition knob_of :: "dict \<Rightarrow> json" where
  "knob_of c = jget_or (JStr ''absent'') c ''knob''"

definition check_default_case :: "string \<Rightarrow> dict \<Rightarrow> unit res" where
  "check_default_case name c =
     (let profiles = profiles_of c; knob = knob_of c; requested = texts_in (jget c ''requested'') in
      and_then (require
        [(is_list profiles \<and> the_list profiles \<noteq> [] \<and> list_all (\<lambda>p. str_in p S4_PROFILES) (the_list profiles),
          fail ''profile must be s4-warn or s4-enforce''),
         (knob = JStr ''absent'' \<or> knob = JNull \<or> is_list knob, fail ''knob must be absent, null, or a list''),
         (is_text_list (jget c ''requested''), fail ''requested must be a string array'')]) (\<lambda>_.
      if name \<in> set S4_DEFAULT_NEGATIVE_CASES then
        and_then (require
          [(jget c ''conforming'' = jfalse \<and> truthy (jget c ''reason''), fail ''a negative needs conforming=false and a reason''),
           (is_list (jget c ''passed''), fail ''a negative needs its observed passed set'')]) (\<lambda>_.
        for_each (\<lambda>p. guard (\<not> texts_are (jget c ''passed'') (fst (s4_expected_passthrough knob p requested)))
          (fail ''the observation no longer violates the rule'')) (texts_in profiles))
      else
        and_then (guard (jget c ''conforming'' \<noteq> jfalse) (fail ''a positive case must not carry conforming=false'')) (\<lambda>_.
        and_then (for_each (check_default_profile c knob requested) (texts_in profiles)) (\<lambda>_.
        check_hints c))))"

definition check_allowlist_case :: "string \<Rightarrow> dict \<Rightarrow> unit res" where
  "check_allowlist_case name c =
     (let operation = jget c ''operation''; allowed = jget c ''mcp_package_allowlist''; entries = texts_in allowed;
          empty = (entries = []); want = (if empty then JStr ''mcp_package_allowlist_empty'' else JNull) in
      and_then (in_frozenset operation [''profile-install'', ''profile-update'', ''env-status'']) (\<lambda>known.
      and_then (require
        [(known, fail ''operation must be install, update, or status''),
         (is_text_list allowed, fail ''mcp_package_allowlist must be a string array'')]) (\<lambda>_.
      if name \<in> set S4_ALLOWLIST_NEGATIVE_CASES then check_negative c (jget c ''diagnostic'' \<noteq> want)
      else
        and_then (require
          [(jget c ''conforming'' \<noteq> jfalse, fail ''a positive case must not carry conforming=false''),
           (jget c ''diagnostic'' = want \<or> jhas c ''package'', fail ''diagnostic is not the allowlist rule'')]) (\<lambda>_.
        if jhas c ''package'' then require
          [(\<not> empty \<and> \<not> str_in (jget c ''package'') entries, fail ''the refused package must sit outside a non-empty allowlist''),
           (jget c ''diagnostic'' = JStr ''mcp_package_not_allowed'' \<and> jget c ''fails_operation'' = jtrue,
            fail ''an outside package is refused with mcp_package_not_allowed'')]
        else if empty then require
          [(jget c ''admitted'' = JStr ''every declaration package in the closure'', fail ''an empty allowlist admits every package''),
           (operation = JStr ''env-status'' \<longrightarrow> jget c ''row_current'' = jtrue, fail ''the warning row stays current''),
           (operation \<noteq> JStr ''env-status'' \<longrightarrow> jget c ''fails_operation'' = jfalse, fail ''the warning never fails the operation'')]
        else require
          [(jget c ''admitted'' = JStr ''only listed declaration packages'', fail ''a non-empty allowlist admits only listed packages''),
           (jget c ''fails_operation'' = jfalse, fail ''silence never fails the operation'')]))))"

text \<open>The rows of a case in the order of their second word, and the bytes they print.\<close>

definition row_key :: "string \<Rightarrow> string" where
  "row_key row = utf8 (split_most 2 (CHR '' '') row ! 1)"

definition surfacing_bytes :: "string list \<Rightarrow> string" where
  "surfacing_bytes rs = utf8 (concat (map (\<lambda>row. row @ [CHR 0x0A]) (sort_key row_key rs)))"

definition check_surfacing_case :: "(string \<Rightarrow> string) \<Rightarrow> string \<Rightarrow> dict \<Rightarrow> unit res" where
  "check_surfacing_case sha name c =
     (if name \<in> set S4_SURFACING_NEGATIVE_CASES then
        check_negative c (s4_parse_surfacing_row (jget c ''row'') = None)
      else
        let decls = jget c ''declarations'' in
        and_then (require
          [(jget c ''conforming'' \<noteq> jfalse, fail ''a positive case must not carry conforming=false''),
           (is_list decls \<and> the_list decls \<noteq> [], fail ''declarations must be a non-empty array'')]) (\<lambda>_.
        and_then (map_res s4_surfacing_row (the_list decls)) (\<lambda>rs.
        let expected = surfacing_bytes rs in
        require
          [(list_all (\<lambda>row. s4_parse_surfacing_row (JStr row) \<noteq> None) rs, fail ''recomputed row violates the closed columns''),
           (is_str (jget c ''expected_bytes'') \<and> utf8 (the_str (jget c ''expected_bytes'')) = expected, fail ''expected_bytes are stale''),
           (py_eq (jget c ''expected_byte_length'') (JInt (int (length expected))), fail ''expected_byte_length is false''),
           (jget c ''expected_sha256'' = JStr (''sha256:'' @ sha expected), fail ''expected_sha256 is stale'')])))"

definition check_order_case :: "string \<Rightarrow> dict \<Rightarrow> unit res" where
  "check_order_case name c =
     (case map_of S4_SURFACING_ORDER_CASES name of
        None \<Rightarrow> Inl (KeyError name)
      | Some operation \<Rightarrow> require
          [(jget c ''operation'' = JStr operation, fail ''operation does not match the pinned one''),
           (texts_are (jget c ''order'') S4_SURFACING_ORDER, fail ''surfacing must print after the audit gate'')])"

text \<open>
  The instance a knob is tested in carries no registries, so \<open>manager_config_semantic_error\<close> says
  nothing of it and the verdict is that of the schema alone.
\<close>

definition knob_instance :: "json \<Rightarrow> json" where
  "knob_instance knob =
     JObj [(''schema_version'', JInt 2), (''skills_root'', JStr ''./skills''), (''projects'', JObj []),
       (''environments'', JObj (if knob = JStr ''absent'' then [] else [(''passable_env_names'', knob)]))]"

definition check_schema_case :: "(json \<Rightarrow> bool) \<Rightarrow> string \<Rightarrow> dict \<Rightarrow> unit res" where
  "check_schema_case valid name c =
     (let knob = knob_of c; ok = truthy (jget c ''valid'') in
      require
        [(valid (knob_instance knob) = ok, fail ''valid flag contradicts the manager-config-v2 grammar''),
         (ok \<longrightarrow> py_eq (jget c ''effective'') (s4_effective_passable knob ''s4-enforce''), fail ''effective is not the knob default rule''),
         (\<not> ok \<longrightarrow> \<not> jhas c ''effective'', fail ''an invalid knob binds no effective value'')])"

definition validate_environments_env_passthrough_vectors ::
    "(string \<Rightarrow> string) \<Rightarrow> (json \<Rightarrow> bool) \<Rightarrow> json \<Rightarrow> dict \<Rightarrow> unit res" where
  "validate_environments_env_passthrough_vectors sha valid knob_default vector =
     and_then (require
       [(py_eq (jget vector ''schema_version'') (JInt 1) \<and> jget vector ''protocol_version'' = JStr ''1.0.0-rc.14'' \<and>
         jget vector ''capability'' = JStr ''agent-environments'' \<and> py_eq (jget vector ''capability_revision'') (JInt 1),
         fail ''env-passthrough vector has the wrong capability identity''),
        (texts_are (jget vector ''s4_profiles'') S4_PROFILES, fail ''env-passthrough s4_profiles must pin exactly s4-enforce and s4-warn'')]) (\<lambda>_.
     and_then (check_cases check_default_case S4_DEFAULT_RESOLUTION_CASES (jget vector ''default_resolution_cases'')
       ''env-passthrough default resolution'') (\<lambda>_.
     and_then (check_cases check_allowlist_case S4_ALLOWLIST_CASES (jget vector ''allowlist_empty_cases'') ''env-passthrough allowlist'') (\<lambda>_.
     and_then (check_cases (check_surfacing_case sha) S4_SURFACING_CASES (jget vector ''surfacing_cases'') ''env-passthrough surfacing'') (\<lambda>_.
     and_then (check_cases check_order_case (map fst S4_SURFACING_ORDER_CASES) (jget vector ''surfacing_order_cases'')
       ''env-passthrough surfacing order'') (\<lambda>_.
     and_then (guard (knob_default = JArr []) (fail ''the passable_env_names schema default must be []'')) (\<lambda>_.
     check_cases (check_schema_case valid) S4_SCHEMA_CASES (jget vector ''schema_cases'') ''env-passthrough schema''))))))"

section \<open>Rows and their reader\<close>

lemma decoder_faithful: "faithful (\<lambda>_. True) decoder_hooks"
  by (simp add: faithful_def decoder_hooks_def)

lemma compact_back: "json_value n decoder_hooks (s4_compact_json ss @ r) = Inr (JArr (map JStr ss), r)"
  if "2 * length (s4_compact_json ss) < n"
  using that array_back [OF decoder_faithful, of "map JStr ss" n r] by (simp add: s4_compact_json_def list_all_iff)

lemma read_column_iff: "read_column label s = Some (ss, r) \<longleftrightarrow> s = label @ s4_compact_json ss @ r"
proof
  assume a: "read_column label s = Some (ss, r)"
  then obtain u where s: "s = label @ u" by (auto simp: read_column_def prefix_def split: if_splits)
  from a s obtain v e where d: "raw_decode s (length label) = Some (v, e)" "s4_compact_json ss = take (e - length label) u" "r = drop e s"
    by (auto simp: read_column_def split: if_splits option.splits)
  from d(1) s obtain q where q: "json_value (2 * length s + 1) decoder_hooks u = Inr (v, q)" "e = length s - length q"
    by (auto simp: raw_decode_def split: sum.splits)
  have "length q < length u" using read_shorter(1) [OF q(1)] .
  then have "e - length label = length u - length q" "drop e s = drop (length u - length q) u" using q(2) s by auto
  with d(2,3) s show "s = label @ s4_compact_json ss @ r" by simp
next
  assume s: "s = label @ s4_compact_json ss @ r"
  have "json_value (2 * length s + 1) decoder_hooks (s4_compact_json ss @ r) = Inr (JArr (map JStr ss), r)"
    by (rule compact_back) (simp add: s)
  then show "read_column label s = Some (ss, r)" by (simp add: read_column_def raw_decode_def s)
qed

lemma split_most_join:
  assumes "c \<notin> set w"
  shows "split_most (Suc n) c (w @ c # s) = w # split_most n c s"
  using assms by (simp add: before_char_append after_char_append)

lemma split_most_cut:
  assumes "split_most (Suc n) c s = w # ws" "ws \<noteq> []"
  shows "s = w @ c # after_char c s" "c \<notin> set w" "split_most n c (after_char c s) = ws"
  using assms partition_join [of c s] before_char_no_sep [of c s] by (auto split: if_splits)

lemma split_five: "split_most 4 (CHR '' '') s = [m, p, v, t, rest] \<longleftrightarrow>
    s = m @ '' '' @ p @ '' '' @ v @ '' '' @ t @ '' '' @ rest \<and> (\<forall>w \<in> {m, p, v, t}. CHR '' '' \<notin> set w)"
proof
  assume "split_most 4 (CHR '' '') s = [m, p, v, t, rest]"
  then have a: "split_most (Suc 3) (CHR '' '') s = m # [p, v, t, rest]" by simp
  note 1 = split_most_cut [OF a]
  then have b: "split_most (Suc 2) (CHR '' '') (after_char (CHR '' '') s) = p # [v, t, rest]" by (simp add: eval_nat_numeral)
  note 2 = split_most_cut [OF b]
  then have c: "split_most (Suc 1) (CHR '' '') (after_char (CHR '' '') (after_char (CHR '' '') s)) = v # [t, rest]" by (simp add: eval_nat_numeral)
  note 3 = split_most_cut [OF c]
  then have d: "split_most (Suc 0) (CHR '' '') (after_char (CHR '' '') (after_char (CHR '' '') (after_char (CHR '' '') s))) = t # [rest]" by simp
  note 4 = split_most_cut [OF d]
  from 1 2 3 4 show "s = m @ '' '' @ p @ '' '' @ v @ '' '' @ t @ '' '' @ rest \<and> (\<forall>w \<in> {m, p, v, t}. CHR '' '' \<notin> set w)"
    by (metis append_Cons append_Nil empty_iff insert_iff list.discI split_most.simps(1) list.inject)
next
  assume "s = m @ '' '' @ p @ '' '' @ v @ '' '' @ t @ '' '' @ rest \<and> (\<forall>w \<in> {m, p, v, t}. CHR '' '' \<notin> set w)"
  then show "split_most 4 (CHR '' '') s = [m, p, v, t, rest]" by (simp add: eval_nat_numeral before_char_append after_char_append)
qed

lemma read_columns_iff:
  "read_columns p v t rest = Some d \<longleftrightarrow>
     (\<exists>c args env_names. d = surfaced p v t c args env_names \<and>
        rest = ''command='' @ c @ '' args='' @ s4_compact_json args @ '' env_names='' @ s4_compact_json env_names \<and>
        c \<noteq> [] \<and> CHR '' '' \<notin> set c \<and> (t = ''http'' \<longrightarrow> c = ''-'' \<and> args = []))"
proof
  assume a: "read_columns p v t rest = Some d"
  then obtain c where space: "CHR '' '' \<in> set rest" and c: "before_char (CHR '' '') rest = ''command='' @ c" "c \<noteq> []"
    and more: "(case read_column ''args='' (after_char (CHR '' '') rest) of None \<Rightarrow> None
        | Some (args, after_args) \<Rightarrow> (case read_column '' env_names='' after_args of None \<Rightarrow> None
           | Some (env_names, r) \<Rightarrow> if r \<noteq> [] \<or> (t = ''http'' \<and> args \<noteq> []) then None else Some (surfaced p v t c args env_names))) = Some d"
    and http: "t = ''http'' \<longrightarrow> c = ''-''"
  proof -
    from a have pre: "prefix ''command='' rest" "CHR '' '' \<in> set rest" by (auto simp: read_columns_def split: if_splits)
    then have "prefix ''command='' (before_char (CHR '' '') rest)" by (auto simp: prefix_def before_char_def)
    then obtain c where "before_char (CHR '' '') rest = ''command='' @ c" by (auto simp: prefix_def)
    with a pre that show ?thesis by (auto simp: read_columns_def Let_def split: if_splits)
  qed
  from more obtain args env_names r where "read_column ''args='' (after_char (CHR '' '') rest) = Some (args, r)"
      "read_column '' env_names='' r = Some (env_names, [])" "t = ''http'' \<longrightarrow> args = []" "d = surfaced p v t c args env_names"
    by (auto split: option.splits if_splits)
  then have "after_char (CHR '' '') rest = ''args='' @ s4_compact_json args @ '' env_names='' @ s4_compact_json env_names"
    by (simp add: read_column_iff)
  moreover have "rest = ''command='' @ c @ '' '' @ after_char (CHR '' '') rest" using partition_join [OF space] c(1) by simp
  moreover have "CHR '' '' \<notin> set c" using before_char_no_sep [of "CHR '' ''" rest] c(1) by simp
  ultimately show "\<exists>c args env_names. d = surfaced p v t c args env_names \<and>
        rest = ''command='' @ c @ '' args='' @ s4_compact_json args @ '' env_names='' @ s4_compact_json env_names \<and>
        c \<noteq> [] \<and> CHR '' '' \<notin> set c \<and> (t = ''http'' \<longrightarrow> c = ''-'' \<and> args = [])"
    using c(2) http \<open>t = ''http'' \<longrightarrow> args = []\<close> \<open>d = surfaced p v t c args env_names\<close>
    by (intro exI [of _ c] exI [of _ args] exI [of _ env_names]) simp
next
  assume "\<exists>c args env_names. d = surfaced p v t c args env_names \<and>
        rest = ''command='' @ c @ '' args='' @ s4_compact_json args @ '' env_names='' @ s4_compact_json env_names \<and>
        c \<noteq> [] \<and> CHR '' '' \<notin> set c \<and> (t = ''http'' \<longrightarrow> c = ''-'' \<and> args = [])"
  then obtain c args env_names where w: "d = surfaced p v t c args env_names" "c \<noteq> []" "CHR '' '' \<notin> set c" "t = ''http'' \<longrightarrow> c = ''-'' \<and> args = []"
    and rest: "rest = (''command='' @ c) @ CHR '' '' # ''args='' @ s4_compact_json args @ '' env_names='' @ s4_compact_json env_names"
    by auto
  have "CHR '' '' \<notin> set (''command='' @ c)" using w(3) by simp
  note cut = before_char_append [OF this] after_char_append [OF this]
  have 1: "read_column ''args='' (''args='' @ s4_compact_json args @ '' env_names='' @ s4_compact_json env_names) =
      Some (args, '' env_names='' @ s4_compact_json env_names)"
    unfolding read_column_iff by simp
  have 2: "read_column '' env_names='' ('' env_names='' @ s4_compact_json env_names) = Some (env_names, [])"
    unfolding read_column_iff by simp
  show "read_columns p v t rest = Some d"
    unfolding read_columns_def rest cut 1 using w 2 by (auto simp: prefix_def)
qed

lemma escape_printable:
  assumes "x \<in> set (escape c)"
  shows "32 \<le> ord_of x"
proof -
  have hex: "32 \<le> ord_of (hex_digit_char d)" if "d < 16" for d using that by (simp add: hex_digit_char_def)
  have letters: "32 \<le> ord_of y" if "y \<in> set (backslash # quote # ''u0nrtfb'')" for y
    using that by (auto simp: quote_def backslash_def ord_of_def)
  have "ord_of c div 16 < 16" by (rule less_mult_imp_div_less) simp
  then show ?thesis
    using assms hex [of "ord_of c div 16"] hex [of "ord_of c mod 16"] letters
    by (auto simp: escape_def split: if_splits)
qed

lemma compact_printable:
  assumes "x \<in> set (s4_compact_json ss)"
  shows "32 \<le> ord_of x"
proof -
  have quoted: "32 \<le> ord_of y" if "y \<in> set (quoted s)" for y s
    using that escape_printable by (auto simp: quoted_def) (simp_all add: quote_def ord_of_def)
  have "x \<in> set (join_with '','' (map quoted ss)) \<or> x \<in> {CHR ''['', CHR '']''}"
    using assms by (auto simp: s4_compact_json_def comp_def)
  moreover have "32 \<le> ord_of x" if "x \<in> set (join_with '','' (map quoted ts))" for ts
    using that by (induction ts rule: induct_list012) (auto dest: quoted simp: ord_of_def [of "CHR '',''"])
  ultimately show ?thesis by (auto simp: ord_of_def)
qed

lemma compact_one_line: "CHR 0x0A \<notin> set (s4_compact_json ss)" "CHR 0x0D \<notin> set (s4_compact_json ss)"
  using compact_printable [of "CHR 0x0A" ss] compact_printable [of "CHR 0x0D" ss] by (auto simp: ord_of_def)

text \<open>A declaration in the closed columns: no spaces and no line breaks in its words.\<close>

definition one_word :: "string \<Rightarrow> bool" where
  "one_word w \<longleftrightarrow> w \<noteq> [] \<and> CHR '' '' \<notin> set w \<and> CHR 0x0A \<notin> set w \<and> CHR 0x0D \<notin> set w"

definition closed_columns :: "dict \<Rightarrow> bool" where
  "closed_columns d \<longleftrightarrow>
     (let w = (\<lambda>k. the_str (jget d k)); ss = (\<lambda>k. texts_in (jget d k)) in
      d = surfaced (w ''package'') (w ''version'') (w ''transport'') (w ''command'') (ss ''args'') (ss ''env_names'') \<and>
      one_word (w ''package'') \<and> one_word (w ''version'') \<and> one_word (w ''command''))"

lemma surfaced_closed: "closed_columns (surfaced p v t c args env_names) \<longleftrightarrow> one_word p \<and> one_word v \<and> one_word c"
  by (simp add: closed_columns_def surfaced_def)

lemma surfaced_row:
  "s4_surfacing_row (JObj (surfaced p v t c args env_names)) = Inr row \<longleftrightarrow>
     p \<noteq> [] \<and> v \<noteq> [] \<and> t \<in> set S4_SURFACING_TRANSPORTS \<and> c \<noteq> [] \<and> (t = ''http'' \<longrightarrow> c = ''-'' \<and> args = []) \<and>
     row = row_text p v t c args env_names"
  by (cases "t = ''http''") (auto simp: s4_surfacing_row_def surfaced_def Let_def and_then_ok_iff)

lemma row_read:
  assumes "s4_parse_surfacing_row (JStr row) = Some d"
  shows "closed_columns d \<and> s4_surfacing_row (JObj d) = Inr row"
proof -
  from assms obtain p v t rest where line: "CHR 0x0A \<notin> set row" "CHR 0x0D \<notin> set row"
    and five: "split_most 4 (CHR '' '') row = [''mcp-declaration'', p, v, t, rest]"
    and words: "p \<noteq> []" "v \<noteq> []" "t \<in> set S4_SURFACING_TRANSPORTS" and columns: "read_columns p v t rest = Some d"
    by (auto simp: s4_parse_surfacing_row_def split: if_splits list.splits)
  from columns obtain c args env_names where d: "d = surfaced p v t c args env_names" "c \<noteq> []" "CHR '' '' \<notin> set c"
      "t = ''http'' \<longrightarrow> c = ''-'' \<and> args = []"
    and rest: "rest = ''command='' @ c @ '' args='' @ s4_compact_json args @ '' env_names='' @ s4_compact_json env_names"
    unfolding read_columns_iff by blast
  from five [unfolded split_five] have row: "row = row_text p v t c args env_names" and "CHR '' '' \<notin> set p" "CHR '' '' \<notin> set v"
    by (auto simp: row_text_def rest)
  with line d words have "one_word p" "one_word v" "one_word c" by (auto simp: one_word_def row_text_def)
  with row words d show "closed_columns d \<and> s4_surfacing_row (JObj d) = Inr row" by (simp add: surfaced_closed surfaced_row)
qed

lemma row_read_back:
  assumes "closed_columns d" "s4_surfacing_row (JObj d) = Inr row"
  shows "s4_parse_surfacing_row (JStr row) = Some d"
proof -
  from assms obtain p v t c args env_names where d: "d = surfaced p v t c args env_names"
    unfolding closed_columns_def Let_def by blast
  with assms have words: "one_word p" "one_word v" "one_word c" and t: "t \<in> set S4_SURFACING_TRANSPORTS" "t = ''http'' \<longrightarrow> c = ''-'' \<and> args = []"
    and row: "row = row_text p v t c args env_names"
    by (simp_all add: surfaced_closed surfaced_row)
  let ?rest = "''command='' @ c @ '' args='' @ s4_compact_json args @ '' env_names='' @ s4_compact_json env_names"
  have five: "split_most 4 (CHR '' '') row = [''mcp-declaration'', p, v, t, ?rest]"
    unfolding split_five using words t(1) by (auto simp: row row_text_def one_word_def S4_SURFACING_TRANSPORTS_def)
  have "read_columns p v t ?rest = Some d"
    unfolding read_columns_iff d using words t(2) by (auto simp: one_word_def)
  moreover have "CHR 0x0A \<notin> set row" "CHR 0x0D \<notin> set row"
    using words t(1) compact_one_line by (auto simp: row row_text_def one_word_def S4_SURFACING_TRANSPORTS_def)
  ultimately show "s4_parse_surfacing_row (JStr row) = Some d"
    using five words t(1) by (simp add: s4_parse_surfacing_row_def one_word_def)
qed

text \<open>
  C16: the surfacing rows are exactly the printed declarations.  The reader of a row returns a
  declaration just when that declaration is in the closed columns (package, version and command are
  single words on one line) and printing it gives the row back; so no row has two readings, reordered,
  padded, missing or extra columns are refused, and every printed declaration is read back.
\<close>

theorem surfacing_row_exact:
  "s4_parse_surfacing_row (JStr row) = Some d \<longleftrightarrow> closed_columns d \<and> s4_surfacing_row (JObj d) = Inr row"
  using row_read row_read_back by blast

section \<open>What acceptance shows of a launch\<close>

lemma expected_split:
  assumes "s4_expected_passthrough knob prof requested = (passed, dropped, diagnostic)"
  shows "mset passed + mset dropped = mset requested" "set passed \<inter> set dropped = {}"
  using assms by (auto simp: s4_expected_passthrough_def Let_def mset_filter multiset_partition [symmetric])

lemma expected_listed:
  assumes "s4_expected_passthrough knob ''s4-enforce'' requested = (passed, dropped, diagnostic)" "knob \<noteq> JNull" "knob \<noteq> JStr ''unbounded''"
  shows "JStr ` set passed \<subseteq> set (the_list knob)"
  using assms by (auto simp: s4_expected_passthrough_def s4_effective_passable_def Let_def split: if_splits)

lemma gate_default_case:
  assumes "validate_environments_env_passthrough_vectors sha valid knob_default vector = Inr ()"
    and "JObj c \<in> set (the_list (jget vector ''default_resolution_cases''))" and "jget c ''conforming'' \<noteq> jfalse"
  obtains "knob_of c = JStr ''absent'' \<or> knob_of c = JNull \<or> is_list (knob_of c)" "check_hints c = Inr ()"
    "\<forall>p \<in> set (texts_in (profiles_of c)). check_default_profile c (knob_of c) (texts_in (jget c ''requested'')) p = Inr ()"
proof -
  from assms(1) have "check_cases check_default_case S4_DEFAULT_RESOLUTION_CASES (jget vector ''default_resolution_cases'')
       ''env-passthrough default resolution'' = Inr ()"
    unfolding validate_environments_env_passthrough_vectors_def and_then_ok_iff by auto
  then obtain name where c: "check_default_case name c = Inr ()" using assms(2) by (rule checked)
  then have "name \<notin> set S4_DEFAULT_NEGATIVE_CASES"
    using assms(3) by (auto simp: check_default_case_def Let_def and_then_ok_iff)
  with c that show ?thesis by (auto simp: check_default_case_def Let_def and_then_ok_iff for_each_ok_iff)
qed

text \<open>
  An accepted vector lets no unlisted name through.  In every conforming case and each profile of
  it, the passed and the dropped names are the requested ones, divided; with enforcement every passed
  name is on the list of the knob unless the knob is an explicit null, and the dropped diagnostic is
  recorded exactly when something was dropped; under the warning profile an absent knob that lets
  names through is reported, with the hint that names the variables and the knob.
\<close>

theorem passthrough_bounded:
  assumes "validate_environments_env_passthrough_vectors sha valid knob_default vector = Inr ()"
    and "JObj c \<in> set (the_list (jget vector ''default_resolution_cases''))" and "jget c ''conforming'' \<noteq> jfalse"
    and "prof \<in> set (texts_in (profiles_of c))"
  shows "\<exists>passed dropped. jget c ''passed'' = JArr (map JStr passed) \<and> jget c ''dropped'' = JArr (map JStr dropped) \<and>
    mset passed + mset dropped = mset (texts_in (jget c ''requested'')) \<and> set passed \<inter> set dropped = {} \<and>
    (prof = ''s4-enforce'' \<and> knob_of c \<noteq> JNull \<longrightarrow> JStr ` set passed \<subseteq> set (the_list (knob_of c))) \<and>
    (prof = ''s4-enforce'' \<longrightarrow> (jget c ''diagnostic'' = JStr ''mcp_env_passthrough_dropped'' \<longleftrightarrow> dropped \<noteq> [])) \<and>
    (prof = ''s4-warn'' \<and> knob_of c = JStr ''absent'' \<and> passed \<noteq> [] \<longrightarrow>
       jget c ''diagnostic'' = JStr ''mcp_env_passthrough_unlisted'' \<and>
       jget c ''migration_hint_names_variables'' = jtrue \<and> jget c ''migration_hint_names_knob'' = jtrue)"
proof -
  obtain knob: "knob_of c = JStr ''absent'' \<or> knob_of c = JNull \<or> is_list (knob_of c)" and hints: "check_hints c = Inr ()"
    and p: "check_default_profile c (knob_of c) (texts_in (jget c ''requested'')) prof = Inr ()"
    by (rule gate_default_case [OF assms(1-3)]) (use assms(4) in blast)
  obtain passed dropped diagnostic where e: "s4_expected_passthrough (knob_of c) prof (texts_in (jget c ''requested'')) = (passed, dropped, diagnostic)"
    by (metis prod_cases3)
  from p have r: "jget c ''passed'' = JArr (map JStr passed)" "jget c ''dropped'' = JArr (map JStr dropped)" "jget c ''diagnostic'' = jopt diagnostic"
    by (simp_all add: check_default_profile_def e texts_are_def)
  have "knob_of c \<noteq> JStr ''unbounded''" using knob by auto
  then have listed: "prof = ''s4-enforce'' \<and> knob_of c \<noteq> JNull \<longrightarrow> JStr ` set passed \<subseteq> set (the_list (knob_of c))"
    using expected_listed e by blast
  have d: "diagnostic = (if prof = ''s4-warn'' then (if knob_of c = JStr ''absent'' then (if passed \<noteq> [] then Some ''mcp_env_passthrough_unlisted'' else None) else None)
       else if dropped \<noteq> [] then Some ''mcp_env_passthrough_dropped'' else None)"
    using e by (auto simp: s4_expected_passthrough_def Let_def)
  have diagnosed: "prof = ''s4-enforce'' \<longrightarrow> (jget c ''diagnostic'' = JStr ''mcp_env_passthrough_dropped'' \<longleftrightarrow> dropped \<noteq> [])"
    using r(3) d by simp
  have "jget c ''diagnostic'' = JStr ''mcp_env_passthrough_unlisted'' \<longrightarrow>
      jget c ''migration_hint_names_variables'' = jtrue \<and> jget c ''migration_hint_names_knob'' = jtrue"
    using hints by (simp add: check_hints_def Let_def split: if_splits)
  moreover have "prof = ''s4-warn'' \<and> knob_of c = JStr ''absent'' \<and> passed \<noteq> [] \<longrightarrow> jget c ''diagnostic'' = JStr ''mcp_env_passthrough_unlisted''"
    using r(3) d by simp
  ultimately show ?thesis using r(1,2) listed diagnosed expected_split [OF e] by blast
qed

section \<open>The properties on a sample\<close>

definition sample_default :: "string \<times> string \<times> json \<Rightarrow> dict" where
  "sample_default = (\<lambda>(name, prof, knob).
     let (passed, dropped, diagnostic) = s4_expected_passthrough knob prof [''TOKEN'', ''HOME''];
         hint = JBool (diagnostic = Some ''mcp_env_passthrough_unlisted'') in
     [(''name'', JStr name), (''profile'', JStr prof), (''knob'', knob), (''requested'', JArr [JStr ''TOKEN'', JStr ''HOME'']),
      (''passed'', JArr (map JStr passed)), (''dropped'', JArr (map JStr dropped)), (''diagnostic'', jopt diagnostic),
      (''effective'', s4_effective_passable knob prof), (''migration_hint_names_variables'', hint), (''migration_hint_names_knob'', hint)])"

definition sample_bad_default :: "string \<Rightarrow> json \<Rightarrow> string list \<Rightarrow> dict" where
  "sample_bad_default name knob passed =
     [(''name'', JStr name), (''profile'', JStr ''s4-enforce''), (''knob'', knob), (''requested'', JArr [JStr ''TOKEN'']),
      (''passed'', JArr (map JStr passed)), (''conforming'', jfalse), (''reason'', JStr ''r'')]"

definition sample_allowlist :: "string \<Rightarrow> string \<Rightarrow> string list \<Rightarrow> json" where
  "sample_allowlist name operation entries =
     JObj [(''name'', JStr name), (''operation'', JStr operation), (''mcp_package_allowlist'', JArr (map JStr entries)),
       (''diagnostic'', if entries = [] then JStr ''mcp_package_allowlist_empty'' else JNull), (''fails_operation'', jfalse),
       (''row_current'', jtrue),
       (''admitted'', JStr (if entries = [] then ''every declaration package in the closure'' else ''only listed declaration packages''))]"

definition sample_stdio :: dict where
  "sample_stdio = surfaced ''beta'' ''1.0.0'' ''stdio'' ''run'' [''a b'', [quote]] [''TOKEN'']"

definition sample_http :: dict where
  "sample_http = surfaced ''alpha'' ''2.0.0'' ''http'' ''-'' [] []"

definition sample_surfacing :: "string \<Rightarrow> dict list \<Rightarrow> json" where
  "sample_surfacing name ds =
     (let bytes = surfacing_bytes (map (\<lambda>d. case s4_surfacing_row (JObj d) of Inr row \<Rightarrow> row | Inl _ \<Rightarrow> []) ds) in
      JObj [(''name'', JStr name), (''declarations'', JArr (map JObj ds)), (''expected_bytes'', JStr bytes),
        (''expected_byte_length'', JInt (int (length bytes))), (''expected_sha256'', JStr ''sha256:d'')])"

definition sample_bad_row :: "string \<Rightarrow> string \<Rightarrow> json" where
  "sample_bad_row name row = JObj [(''name'', JStr name), (''row'', JStr row), (''conforming'', jfalse), (''reason'', JStr ''r'')]"

definition sample_schema :: "string \<Rightarrow> json \<Rightarrow> json" where
  "sample_schema name knob =
     JObj [(''name'', JStr name), (''knob'', knob), (''valid'', jtrue), (''effective'', s4_effective_passable knob ''s4-enforce'')]"

definition sample_config :: "json \<Rightarrow> bool" where
  "sample_config v \<longleftrightarrow> v \<noteq> knob_instance (JArr [JStr ''9''])"

definition sample_passthrough :: dict where
  "sample_passthrough =
     [(''schema_version'', JInt 1), (''protocol_version'', JStr ''1.0.0-rc.14''), (''capability'', JStr ''agent-environments''),
      (''capability_revision'', JInt 1), (''s4_profiles'', JArr (map JStr S4_PROFILES)),
      (''default_resolution_cases'', JArr (map (JObj \<circ> sample_default)
         [(''s4-warn-absent-warns-every-passed'', ''s4-warn'', JStr ''absent''), (''s4-enforce-absent-drops-all'', ''s4-enforce'', JStr ''absent''),
          (''explicit-null-unbounded'', ''s4-enforce'', JNull), (''s4-warn-explicit-list-bounds-silently'', ''s4-warn'', JArr [JStr ''HOME'']),
          (''s4-enforce-explicit-list-drops-with-diagnostic'', ''s4-enforce'', JArr [JStr ''HOME''])] @
         [JObj (sample_bad_default ''s4-enforce-absent-passes-unlisted'' (JStr ''absent'') [''TOKEN'']),
          JObj (sample_bad_default ''explicit-null-treated-as-empty'' JNull [])])),
      (''allowlist_empty_cases'', JArr
         [sample_allowlist ''empty-allowlist-install-warns'' ''profile-install'' [], sample_allowlist ''empty-allowlist-update-warns'' ''profile-update'' [],
          sample_allowlist ''empty-allowlist-status-posture'' ''env-status'' [], sample_allowlist ''non-empty-allowlist-silent'' ''profile-install'' [''p''],
          JObj [(''name'', JStr ''non-empty-allowlist-warns''), (''operation'', JStr ''env-status''), (''mcp_package_allowlist'', JArr [JStr ''p'']),
            (''diagnostic'', JStr ''mcp_package_allowlist_empty''), (''conforming'', jfalse), (''reason'', JStr ''r'')],
          JObj [(''name'', JStr ''outside-non-empty-allowlist-refused''), (''operation'', JStr ''profile-install''), (''mcp_package_allowlist'', JArr [JStr ''p'']),
            (''package'', JStr ''q''), (''diagnostic'', JStr ''mcp_package_not_allowed''), (''fails_operation'', jtrue)]]),
      (''surfacing_cases'', JArr
         [sample_surfacing ''single-stdio-declaration'' [sample_stdio], sample_surfacing ''stdio-and-http-ordering'' [sample_stdio, sample_http],
          sample_surfacing ''args-with-space'' [sample_stdio], sample_surfacing ''args-with-escaped-quote'' [sample_stdio],
          sample_bad_row ''row-missing-env-names'' ''mcp-declaration p 1 http command=- args=[]'',
          sample_bad_row ''row-wrong-column-order'' ''mcp-declaration p 1 http args=[] command=- env_names=[]'']),
      (''surfacing_order_cases'', JArr (map (\<lambda>(n, oper). JObj [(''name'', JStr n), (''operation'', JStr oper),
         (''order'', JArr (map JStr S4_SURFACING_ORDER))]) S4_SURFACING_ORDER_CASES)),
      (''schema_cases'', JArr [sample_schema ''knob-absent-defaults-empty'' (JStr ''absent''), sample_schema ''knob-explicit-null-unbounded'' JNull,
         sample_schema ''knob-explicit-list'' (JArr [JStr ''HOME'']),
         JObj [(''name'', JStr ''knob-invalid-name''), (''knob'', JArr [JStr ''9'']), (''valid'', jfalse)]])]"

lemma sample_passthrough_accepted:
  "validate_environments_env_passthrough_vectors (\<lambda>_. ''d'') sample_config (JArr []) sample_passthrough = Inr ()"
  by code_simp

theorem passthrough_bounded_witness:
  "let c = sample_default (''s4-enforce-explicit-list-drops-with-diagnostic'', ''s4-enforce'', JArr [JStr ''HOME'']) in
   jget c ''passed'' = JArr [JStr ''HOME''] \<and> JStr ` {''HOME''} \<subseteq> set (the_list (knob_of c)) \<and>
   jget c ''diagnostic'' = JStr ''mcp_env_passthrough_dropped''"
proof -
  let ?c = "sample_default (''s4-enforce-explicit-list-drops-with-diagnostic'', ''s4-enforce'', JArr [JStr ''HOME''])"
  have c: "JObj ?c \<in> set (the_list (jget sample_passthrough ''default_resolution_cases''))"
    "jget ?c ''conforming'' \<noteq> jfalse" "''s4-enforce'' \<in> set (texts_in (profiles_of ?c))"
    by (simp add: sample_passthrough_def) code_simp+
  have v: "jget ?c ''passed'' = JArr [JStr ''HOME'']" "jget ?c ''dropped'' = JArr [JStr ''TOKEN'']" "knob_of ?c \<noteq> JNull"
    by code_simp+
  show ?thesis
    using passthrough_bounded [OF sample_passthrough_accepted c] v by (auto simp: Let_def map_eq_Cons_conv)
qed

end
