(* ===== verification/SourceSigners.thy ===== *)
theory SourceSigners
  imports Cases
begin

text \<open>
  Signers of context sources (environments.md sections 1.4, 12, 12.1, 12.2; \<open>e1_*\<close> in
  \<open>tools/validate.py\<close>): the shape and identity of a signer, the verification of a resolved
  source against its allowlist, the merge of the system's and the machine's allowlists, the status
  rows, and the first three case lists of \<open>validate_environments_source_signers_vectors\<close>.
  \<open>valid\<close> is the verdict of the manager schema on a configuration, together with that of
  \<open>manager_config_semantic_error\<close>, which has nothing to say of one without registries.
\<close>

section \<open>Signers\<close>

definition e1_check_signer_shape :: "json \<Rightarrow> (string \<times> string) res" where
  "e1_check_signer_shape signer =
     (case signer of
        JObj d \<Rightarrow>
          if jget d ''type'' = JStr ''ssh'' then
            and_then (guard (is_str (jget d ''key'') \<and> fst ` set d = set [''type'', ''key'']) (fail ''an ssh signer is exactly { type, key }'')) (\<lambda>_.
            Inr (''ssh'', the_str (jget d ''key'')))
          else if jget d ''type'' = JStr ''gpg'' then
            and_then (guard (is_str (jget d ''fingerprint'') \<and> fst ` set d = set [''type'', ''fingerprint''])
              (fail ''a gpg signer is exactly { type, fingerprint }'')) (\<lambda>_.
            Inr (''gpg'', the_str (jget d ''fingerprint'')))
          else Inl (fail ''a signer type must be ssh or gpg'')
      | _ \<Rightarrow> Inl (fail ''a signer must be an object''))"

text \<open>The identity of a signer that has the shape: the comment of an OpenSSH key is not part of it.\<close>

definition e1_signer_identity :: "json \<Rightarrow> string \<times> string" where
  "e1_signer_identity signer =
     (let d = the_dict signer; key = the_str (jget d ''key'') in
      if jget d ''type'' = JStr ''ssh'' then
        (''ssh'', case words key of kind # material # _ \<Rightarrow> kind @ '' '' @ material | _ \<Rightarrow> key)
      else (''gpg'', the_str (jget d ''fingerprint'')))"

definition e1_check_signer_map :: "(json \<Rightarrow> bool) \<Rightarrow> json \<Rightarrow> unit res" where
  "e1_check_signer_map valid v =
     require
       [(is_dict v, fail ''a signer map must be an object''),
        (valid (JObj [(''schema_version'', JInt 2), (''skills_root'', JStr ''./skills''), (''projects'', JObj []),
           (''environments'', JObj [(''source_signers'', v)])]), fail ''source_signers map violates the manager-config-v2 grammar'')]"

definition e1_check_signature :: "json \<Rightarrow> unit res" where
  "e1_check_signature v =
     (if v = JNull then Inr ()
      else and_then (require
        [(is_dict v, fail ''a signature must be an object or null''),
         (fst ` set (the_dict v) = set [''signer'', ''valid''], fail ''a signature is exactly { signer, valid }'')]) (\<lambda>_.
      and_then (e1_check_signer_shape (jget (the_dict v) ''signer'')) (\<lambda>_.
      guard (is_bool (jget (the_dict v) ''valid'')) (fail ''a signature valid flag must be a boolean''))))"

section \<open>Verification\<close>

definition candidate_shape :: "json \<Rightarrow> unit res" where
  "candidate_shape v =
     (let d = the_dict v; form = jget d ''form''; tag = jget d ''tag''; commit = jget d ''commit'' in
      and_then (require
        [(is_dict v \<and> is_str (jget d ''version''), fail ''a candidate carries a version string''),
         (str_in form [''range'', ''tag'', ''revision'', ''path''], fail ''a candidate form must be range, tag, revision, or path''),
         (form = JStr ''path'' \<longrightarrow> tag = JNull \<and> commit = JNull, fail ''a path candidate carries no tag or commit''),
         (form = JStr ''revision'' \<longrightarrow> tag = JNull \<and> is_str commit, fail ''a revision candidate carries a commit and no tag''),
         (form = JStr ''revision'' \<longrightarrow> jget d ''tag_signature'' = JNull, fail ''tag-only signature evidence cannot satisfy the check''),
         (str_in form [''range'', ''tag''] \<longrightarrow> is_str tag \<and> is_str commit, fail ''a range or tag candidate carries a tag and a commit'')]) (\<lambda>_.
      and_then (e1_check_signature (jget d ''tag_signature'')) (\<lambda>_.
      e1_check_signature (jget d ''commit_signature''))))"

record verification =
  v_diagnostic :: "string option"
  v_selected :: "string option"
  v_seen :: "(string \<times> string) list"

definition accepted :: "verification \<Rightarrow> bool" where
  "accepted v \<longleftrightarrow> v_selected v \<noteq> None"

definition signatures_of :: "json \<Rightarrow> json list" where
  "signatures_of candidate =
     filter (\<lambda>s. s \<noteq> JNull) [jget (the_dict candidate) ''tag_signature'', jget (the_dict candidate) ''commit_signature'']"

definition signer_of :: "json \<Rightarrow> json" where
  "signer_of signature = jget (the_dict signature) ''signer''"

definition allowed_signature :: "json list \<Rightarrow> json \<Rightarrow> bool" where
  "allowed_signature allowed s \<longleftrightarrow>
     truthy (jget (the_dict s) ''valid'') \<and> e1_signer_identity (signer_of s) \<in> e1_signer_identity ` set allowed"

definition verify_top :: "json \<Rightarrow> json \<Rightarrow> bool \<Rightarrow> verification res" where
  "verify_top allowlist candidate needed =
     (let sigs = signatures_of candidate; seen = sort (remdups (map (e1_signer_identity \<circ> signer_of) sigs));
          version = the_str (jget (the_dict candidate) ''version'');
          refused = (\<lambda>diag. \<lparr>v_diagnostic = Some diag, v_selected = None, v_seen = seen\<rparr>);
          chosen = \<lparr>v_diagnostic = None, v_selected = Some version, v_seen = seen\<rparr> in
      if allowlist = JNull then Inr (if needed then refused ''context_source_signers_missing'' else chosen)
      else
        and_then (for_each (\<lambda>e. and_then (e1_check_signer_shape e) (\<lambda>_. Inr ())) (the_list allowlist)) (\<lambda>_.
        Inr (if sigs = [] then refused ''context_source_unsigned''
             else if list_ex (allowed_signature (the_list allowlist)) sigs then chosen
             else refused ''context_source_signer_rejected'')))"

definition e1_expected_verification :: "dict \<Rightarrow> verification res" where
  "e1_expected_verification c =
     (let kind = jget c ''source_kind''; allowlist = jget c ''allowlist''; candidates = jget c ''candidates'';
          top1 = hd (the_list candidates) in
      and_then (require
        [(str_in kind [''git'', ''path''], fail ''source_kind must be git or path''),
         (allowlist = JNull \<or> is_list allowlist, fail ''allowlist must be an array or null''),
         (is_bool (jget c ''require_source_signers''), fail ''require_source_signers must be a boolean''),
         (is_list candidates \<and> the_list candidates \<noteq> [], fail ''candidates must be a non-empty array'')]) (\<lambda>_.
      and_then (for_each candidate_shape (the_list candidates)) (\<lambda>_.
      if kind = JStr ''path'' then
        and_then (guard (jget c ''source'' = JNull \<and> allowlist = JNull) (fail ''a path source carries no source identity and no allowlist'')) (\<lambda>_.
        Inr \<lparr>v_diagnostic = None, v_selected = Some (the_str (jget (the_dict top1) ''version'')), v_seen = []\<rparr>)
      else verify_top allowlist top1 (truthy (jget c ''require_source_signers'')))))"

section \<open>Merging allowlists\<close>

definition locked_merge :: "dict \<Rightarrow> dict \<Rightarrow> dict" where
  "locked_merge system machine = system @ filter (\<lambda>(s, _). s \<notin> fst ` set system) machine"

definition e1_expected_merge :: "dict \<Rightarrow> (dict \<times> string list) res" where
  "e1_expected_merge c =
     (let system = jget c ''system''; machine = jget c ''machine'' in
      and_then (require
        [(is_bool (jget c ''locked''), fail ''locked must be a boolean''),
         (is_dict system \<and> (machine = JNull \<or> is_dict machine), fail ''system must be an object and machine an object or null'')]) (\<lambda>_.
      Inr (if truthy (jget c ''locked'') then
             (locked_merge (the_dict system) (the_dict machine),
              filter (\<lambda>s. s \<in> fst ` set (the_dict system)) (sort (map fst (the_dict machine))))
           else (the_dict (if machine \<noteq> JNull then machine else system), []))))"

section \<open>Status rows\<close>

definition E1_MEMBER_KINDS :: "string list" where
  "E1_MEMBER_KINDS = [''context'', ''mcp'', ''skill'']"

definition posture_member :: "json \<Rightarrow> unit res" where
  "posture_member m =
     (let d = the_dict m; source = jget d ''source'' in
      require
        [(is_dict m \<and> str_in (jget d ''kind'') E1_MEMBER_KINDS, fail ''a member carries a kind of context, mcp, or skill''),
         (is_str (jget d ''name''), fail ''a member carries a name''),
         (source = JNull \<or> is_str source, fail ''a member source must be a string or null'')])"

definition posture_sources :: "json list \<Rightarrow> string list" where
  "posture_sources members =
     sort (remdups (map the_str (filter (\<lambda>s. s \<noteq> JNull) (map (\<lambda>m. jget (the_dict m) ''source'') members))))"

definition posture_row :: "string \<Rightarrow> string \<Rightarrow> json \<Rightarrow> bool \<Rightarrow> json" where
  "posture_row source state signer current =
     JObj [(''source'', JStr source), (''state'', JStr state), (''signer'', signer), (''current'', JBool current)]"

definition enforced_row :: "string \<Rightarrow> json \<Rightarrow> json \<Rightarrow> json res" where
  "enforced_row source allowlist observed =
     (let verdict = jget (the_dict observed) ''verdict''; signer = jget (the_dict observed) ''signer'' in
      if verdict = JStr ''verified'' then
        and_then (e1_check_signer_shape signer) (\<lambda>_.
        and_then (as_list allowlist) (\<lambda>entries.
        and_then (for_each (\<lambda>e. and_then (e1_check_signer_shape e) (\<lambda>_. Inr ())) entries) (\<lambda>_.
        and_then (guard (e1_signer_identity signer \<in> e1_signer_identity ` set entries)
          (fail ''the verified signer must sit in the source allowlist'')) (\<lambda>_.
        Inr (posture_row source ''enforced'' signer True)))))
      else if verdict = JStr ''unknown'' then Inr (posture_row source ''enforced'' (JStr ''unknown'') True)
      else if verdict = JStr ''fails'' then Inr (posture_row source ''enforced'' (JStr ''unknown'') False)
      else Inl (fail ''a local verdict must be verified, unknown, or fails''))"

definition source_row :: "dict \<Rightarrow> dict \<Rightarrow> bool \<Rightarrow> string \<Rightarrow> json res" where
  "source_row allowlists local needed source =
     (case map_of allowlists source of
        Some allowlist \<Rightarrow>
          (case map_of local source of
             None \<Rightarrow> Inl (fail ''an enforced source needs its local re-verification'')
           | Some observed \<Rightarrow> enforced_row source allowlist observed)
      | None \<Rightarrow> Inr (posture_row source (if needed then ''required-missing'' else ''unconfigured'') JNull True))"

definition e1_expected_posture :: "dict \<Rightarrow> (json list \<times> json) res" where
  "e1_expected_posture c =
     (let members = jget c ''members''; allowlists = jget c ''allowlists''; needed = jget c ''require_source_signers'';
          local = jget c ''local''; sources = posture_sources (the_list members) in
      and_then (guard (is_list members \<and> the_list members \<noteq> []) (fail ''members must be a non-empty array'')) (\<lambda>_.
      and_then (for_each posture_member (the_list members)) (\<lambda>_.
      and_then (require
        [(is_dict allowlists, fail ''allowlists must be an object''), (is_bool needed, fail ''require_source_signers must be a boolean''),
         (is_dict local, fail ''local must be an object'')]) (\<lambda>_.
      and_then (map_res (source_row (the_dict allowlists) (the_dict local) (truthy needed)) sources) (\<lambda>rs.
      and_then (guard (fst ` set (the_dict local) = {s \<in> set sources. s \<in> fst ` set (the_dict allowlists)})
        (fail ''local covers exactly the enforced sources'')) (\<lambda>_.
      Inr (rs, needed)))))))"

section \<open>The cases\<close>

definition E1_VERIFICATION_CASES :: "string list" where
  "E1_VERIFICATION_CASES =
     [''ssh-tag-signature-accepted'', ''gpg-commit-signature-accepted'', ''either-signature-suffices'', ''unsigned-refused'',
      ''wrong-signer-refused'', ''invalid-signature-refused'', ''no-allowlist-accepted'', ''require-without-allowlist-refused'',
      ''require-with-allowlist-accepted'', ''path-source-never-verified'', ''no-silent-fallback-to-lower-candidate'',
      ''empty-allowlist-signed-refused'', ''empty-allowlist-unsigned-refused'', ''exact-tag-selection-verified'',
      ''revision-selection-verifies-commit'', ''ssh-same-key-different-comment-accepted'', ''ssh-different-material-rejected'',
      ''unsigned-accepted'', ''fallback-selection'']"

definition E1_VERIFICATION_NEGATIVE_CASES :: "string list" where
  "E1_VERIFICATION_NEGATIVE_CASES = [''unsigned-accepted'', ''fallback-selection'']"

definition E1_MERGE_CASES :: "string list" where
  "E1_MERGE_CASES =
     [''locked-overlap-system-wins-with-warning'', ''locked-disjoint-machine-addition'', ''locked-machine-absent'',
      ''locked-empty-system-machine-adds'', ''unlocked-machine-replaces-whole'', ''unlocked-absent-machine-falls-back'']"

definition E1_POSTURE_CASES :: "string list" where
  "E1_POSTURE_CASES =
     [''enforced-names-verified-signer'', ''enforced-unknown-without-local-material'', ''enforced-pin-fails-non-current'',
      ''unconfigured'', ''required-missing'']"

text \<open>The recorded outcome of a verification, and the signers it names.\<close>

definition seen_json :: "(string \<times> string) list \<Rightarrow> json" where
  "seen_json seen =
     JArr (map (\<lambda>(kind, identity). JObj [(''type'', JStr kind), (if kind = ''ssh'' then ''key'' else ''fingerprint'', JStr identity)]) seen)"

definition records :: "dict \<Rightarrow> verification \<Rightarrow> bool" where
  "records o' v \<longleftrightarrow>
     jget o' ''verdict'' = JStr (if accepted v then ''accepted'' else ''refused'') \<and> jget o' ''diagnostic'' = jopt (v_diagnostic v) \<and>
     jget o' ''selected'' = jopt (v_selected v) \<and> py_eq (jget o' ''lock_written'') (JBool (accepted v))"

definition check_verification_case :: "(json \<Rightarrow> bool) \<Rightarrow> string \<Rightarrow> dict \<Rightarrow> unit res" where
  "check_verification_case valid name c =
     and_then (if jget c ''allowlist'' = JNull then Inr () else e1_check_signer_map valid (JObj [(''vector'', jget c ''allowlist'')])) (\<lambda>_.
     and_then (e1_expected_verification c) (\<lambda>v.
     if name \<in> set E1_VERIFICATION_NEGATIVE_CASES then require
       [(jget c ''conforming'' = jfalse \<and> truthy (jget c ''reason''), fail ''a negative needs conforming=false and a reason''),
        (is_dict (jget c ''observed''), fail ''a negative needs its observed outcome''),
        (\<not> records (the_dict (jget c ''observed'')) v, fail ''the observation no longer violates the verification rule'')]
     else require
       [(jget c ''conforming'' \<noteq> jfalse, fail ''a positive case must not carry conforming=false''),
        (is_dict (jget c ''expected''), fail ''a positive case needs its expected outcome''),
        (records (the_dict (jget c ''expected'')) v \<and> py_eq (jget (the_dict (jget c ''expected'')) ''signers_seen'') (seen_json (v_seen v)),
         fail ''expected is not the verification rule'')]))"

definition check_merge_case :: "(json \<Rightarrow> bool) \<Rightarrow> string \<Rightarrow> dict \<Rightarrow> unit res" where
  "check_merge_case valid name c =
     and_then (e1_check_signer_map valid (jget c ''system'')) (\<lambda>_.
     and_then (if jget c ''machine'' = JNull then Inr () else e1_check_signer_map valid (jget c ''machine'')) (\<lambda>_.
     and_then (e1_expected_merge c) (\<lambda>(effective, warnings).
     let expected = jget c ''expected'' in
     require
       [(is_dict expected, fail ''a merge case needs its expected outcome''),
        (py_eq (jget (the_dict expected) ''effective'') (JObj effective) \<and> texts_are (jget (the_dict expected) ''warnings'') warnings,
         fail ''expected is not the section 12.2 merge rule'')])))"

definition check_signer_posture_case :: "(json \<Rightarrow> bool) \<Rightarrow> string \<Rightarrow> dict \<Rightarrow> unit res" where
  "check_signer_posture_case valid name c =
     and_then (e1_check_signer_map valid (jget c ''allowlists'')) (\<lambda>_.
     and_then (e1_expected_posture c) (\<lambda>(rs, needed).
     let expected = jget c ''expected'' in
     require
       [(is_dict expected, fail ''a posture case needs its expected outcome''),
        (py_eq (jget (the_dict expected) ''rows'') (JArr rs) \<and> py_eq (jget (the_dict expected) ''require_source_signers'') needed,
         fail ''expected is not the section 12 posture rule'')]))"

section \<open>What a verification decides\<close>

text \<open>A source may be used: nothing is asked of it, or a valid signature of an allowed signer is on its top candidate.\<close>

definition source_admitted :: "dict \<Rightarrow> bool" where
  "source_admitted c \<longleftrightarrow>
     (let allowlist = jget c ''allowlist'' in
      if allowlist = JNull then \<not> truthy (jget c ''require_source_signers'')
      else list_ex (allowed_signature (the_list allowlist)) (signatures_of (hd (the_list (jget c ''candidates'')))))"

lemma git_verified:
  assumes "e1_expected_verification c = Inr v" "jget c ''source_kind'' = JStr ''git''"
  shows "v_selected v = (if source_admitted c then Some (the_str (jget (the_dict (hd (the_list (jget c ''candidates'')))) ''version'')) else None) \<and>
    (v_diagnostic v = None \<longleftrightarrow> source_admitted c)"
proof -
  from assms have top1: "verify_top (jget c ''allowlist'') (hd (the_list (jget c ''candidates''))) (truthy (jget c ''require_source_signers'')) = Inr v"
    unfolding e1_expected_verification_def Let_def and_then_ok_iff by simp
  show ?thesis
  proof (cases "jget c ''allowlist'' = JNull")
    case True
    with top1 show ?thesis by (auto simp: verify_top_def Let_def source_admitted_def split: if_splits)
  next
    case False
    with top1 show ?thesis
      by (auto simp: verify_top_def Let_def source_admitted_def and_then_ok_iff list_ex_iff split: if_splits)
  qed
qed

lemma locked_merge_wins: "map_of (locked_merge system machine) = map_of machine ++ map_of system"
proof
  fix s
  have f: "map_of (filter (\<lambda>(s, _). P s) machine) s = (if P s then map_of machine s else None)" for P
    by (induction machine) (auto split: if_splits)
  show "map_of (locked_merge system machine) s = (map_of machine ++ map_of system) s"
  proof (cases "map_of system s")
    case None
    then have "s \<notin> fst ` set system" by (simp add: map_of_eq_None_iff)
    with None show ?thesis by (simp add: locked_merge_def map_add_def f)
  next
    case (Some v)
    then have "s \<in> fst ` set system" by (metis map_of_eq_None_iff option.distinct(1))
    with Some show ?thesis by (simp add: locked_merge_def map_add_def f)
  qed
qed

end
