(* ===== verification/UpdateDelta.thy ===== *)
theory UpdateDelta
  imports SourceSigners JsonText
begin

text \<open>
  The delta of an update and its confirmation (environments.md section 9.2): the pins of lock members,
  their snapshots, the delta lines and the members that trigger a confirmation, the outcomes of both
  rollout revisions, and \<open>validate_environments_source_signers_vectors\<close>, whose first three case
  lists are those of \<open>SourceSigners\<close>.  \<open>arrow\<close> is the text of the code point U+2192, which
  the alphabet of the model lacks; \<open>valid\<close> and \<open>valid_mcp\<close> are schema verdicts.
\<close>

section \<open>Lock members\<close>

type_synonym member_key = "string \<times> string"
type_synonym lock_members = "(member_key \<times> dict) list"

definition lower_hex :: "nat \<Rightarrow> string \<Rightarrow> bool" where
  "lower_hex n s \<longleftrightarrow> length s = n \<and> list_all (\<lambda>c. is_digit c \<or> (97 \<le> ord_of c \<and> ord_of c \<le> 102)) s"

definition e1_member_pin :: "dict \<Rightarrow> (string \<times> string) res" where
  "e1_member_pin m =
     (let commit = jget m ''commit''; state = jget m ''state_sha256'' in
      if is_str commit = is_str state then Inl (fail ''a member carries exactly one of commit or state_sha256'')
      else if is_str commit then
        and_then (guard (lower_hex 40 (the_str commit)) (fail ''a commit pin is 40 lowercase hex'')) (\<lambda>_.
        Inr (the_str commit, ''commit:'' @ the_str commit))
      else
        and_then (guard (lower_hex 64 (the_str state)) (fail ''a state pin is 64 lowercase hex'')) (\<lambda>_.
        Inr (the_str state, ''state:'' @ the_str state)))"

definition add_member :: "json \<Rightarrow> lock_members \<Rightarrow> lock_members res" where
  "add_member m ms =
     (let d = the_dict m; key = (the_str (jget d ''kind''), the_str (jget d ''name'')) in
      and_then (require
        [(is_dict m \<and> str_in (jget d ''kind'') E1_MEMBER_KINDS, fail ''a member carries a kind of context, mcp, or skill''),
         (is_str (jget d ''name''), fail ''a member carries a name''),
         (jget d ''version'' = JNull \<or> is_str (jget d ''version''), fail ''a member version must be a string or null'')]) (\<lambda>_.
      and_then (e1_member_pin d) (\<lambda>_.
      and_then (guard (key \<notin> fst ` set ms) (fail ''a lock names one member per kind and name'')) (\<lambda>_.
      Inr (ms @ [(key, d)])))))"

definition e1_check_lock_members :: "json \<Rightarrow> lock_members res" where
  "e1_check_lock_members v =
     (if is_list v then fold_res add_member (the_list v) [] else Inl (fail ''lock members must be an array''))"

section \<open>Snapshots\<close>

definition system_module :: "json \<Rightarrow> bool" where
  "system_module m \<longleftrightarrow> is_dict m \<and> is_str (jget (the_dict m) ''path'') \<and> is_text_list (jget (the_dict m) ''environments'') \<and>
     is_str (jget (the_dict m) ''bytes'')"

definition mcp_snapshot :: "(json \<Rightarrow> bool) \<Rightarrow> json \<Rightarrow> unit res" where
  "mcp_snapshot valid_mcp mcp =
     (let d = the_dict mcp; transport = jget d ''transport'' in
      if mcp = JNull then Inr () else require
        [(is_dict mcp, fail ''an mcp snapshot is a declaration object''),
         (str_in transport [''stdio'', ''http''], fail ''a declaration transport is stdio or http''),
         (transport = JStr ''stdio'' \<longrightarrow> \<not> jhas d ''url'', fail ''a stdio declaration carries no url''),
         (transport = JStr ''stdio'' \<longrightarrow> is_str (jget d ''command''), fail ''a stdio declaration carries its command''),
         (transport = JStr ''stdio'' \<longrightarrow> is_text_list (jget d ''args''), fail ''a stdio declaration carries its args array''),
         (transport = JStr ''http'' \<longrightarrow> \<not> jhas d ''command'' \<and> \<not> jhas d ''args'', fail ''an http declaration carries no command or args''),
         (transport = JStr ''http'' \<longrightarrow> is_str (jget d ''url''), fail ''an http declaration carries its url''),
         (jhas d ''env_names'' \<longrightarrow> is_text_list (jget d ''env_names''), fail ''a declaration env_names, when present, is an array of names''),
         (jhas d ''environments'' \<longrightarrow> is_text_list (jget d ''environments''), fail ''a declaration environments, when present, is a selector array''),
         (valid_mcp (JObj [(''schema_version'', JInt 1), (''name'', JStr ''e1-fixture''), (''version'', JStr ''1.0.0''), (''server'', mcp)]),
          fail ''an mcp snapshot is a declaration valid under agent-mcp-v1'')])"

definition snapshot_shape :: "(json \<Rightarrow> bool) \<Rightarrow> json \<Rightarrow> unit res" where
  "snapshot_shape valid_mcp s =
     and_then (require
       [(is_dict s, fail ''a snapshot must be an object''),
        (is_list (jget (the_dict s) ''system_modules''), fail ''snapshot system_modules must be an array''),
        (list_all system_module (the_list (jget (the_dict s) ''system_modules'')), fail ''a system module is { path, environments, bytes }'')]) (\<lambda>_.
     mcp_snapshot valid_mcp (jget (the_dict s) ''mcp''))"

text \<open>The kind of the last member with a pin decides what its snapshot may carry.\<close>

definition snapshot_fits :: "(string \<times> string) list \<Rightarrow> string \<times> json \<Rightarrow> unit res" where
  "snapshot_fits kinds = (\<lambda>(pin, s).
     and_then (item s ''mcp'') (\<lambda>mcp.
     and_then (item s ''system_modules'') (\<lambda>modules.
     require
       [(map_of kinds pin = Some ''mcp'' \<longrightarrow> mcp \<noteq> JNull \<and> \<not> truthy modules,
         fail ''an mcp member snapshot carries its declaration and no system module''),
        (map_of kinds pin \<noteq> Some ''mcp'' \<longrightarrow> mcp = JNull, fail ''only an mcp member snapshot carries a declaration'')])))"

definition e1_check_snapshots :: "(json \<Rightarrow> bool) \<Rightarrow> json \<Rightarrow> lock_members \<Rightarrow> lock_members \<Rightarrow> dict res" where
  "e1_check_snapshots valid_mcp v old new =
     and_then (guard (is_dict v) (fail ''snapshots must be an object'')) (\<lambda>_.
     and_then (for_each (\<lambda>(_, s). snapshot_shape valid_mcp s) (the_dict v)) (\<lambda>_.
     and_then (map_res (\<lambda>(key, m). and_then (e1_member_pin m) (\<lambda>(pin, _). Inr (pin, fst key))) (old @ new)) (\<lambda>pins.
     and_then (guard (fst ` set (the_dict v) = fst ` set pins) (fail ''snapshots cover exactly the old and new member pins'')) (\<lambda>_.
     and_then (for_each (snapshot_fits (rev pins)) (the_dict v)) (\<lambda>_.
     Inr (the_dict v))))))"

section \<open>The delta\<close>

definition e1_system_inventory :: "dict \<Rightarrow> (string \<times> string list \<times> string) list" where
  "e1_system_inventory snapshot =
     sort (map (\<lambda>m. (the_str (jget (the_dict m) ''path''), sort (map the_str (the_list (jget (the_dict m) ''environments''))),
       the_str (jget (the_dict m) ''bytes''))) (the_list (jget snapshot ''system_modules'')))"

definition e1_mcp_changed :: "dict \<Rightarrow> dict \<Rightarrow> bool res" where
  "e1_mcp_changed before after =
     and_then (ccj1_bytes (jget before ''mcp'')) (\<lambda>x. and_then (ccj1_bytes (jget after ''mcp'')) (\<lambda>y. Inr (x \<noteq> y)))"

definition version_text :: "dict \<Rightarrow> string" where
  "version_text m = (if is_str (jget m ''version'') then the_str (jget m ''version'') else ''-'')"

definition unmoved :: "dict \<Rightarrow> dict \<Rightarrow> bool res" where
  "unmoved before after =
     and_then (e1_member_pin before) (\<lambda>p. and_then (e1_member_pin after) (\<lambda>q.
     Inr (py_eq (jget before ''version'') (jget after ''version'') \<and> p = q)))"

definition delta_line :: "string \<Rightarrow> lock_members \<Rightarrow> lock_members \<Rightarrow> member_key \<Rightarrow> string option res" where
  "delta_line arrow old new = (\<lambda>(kind, name).
     let one = (\<lambda>label m. and_then (e1_member_pin m) (\<lambda>(_, p).
           Inr (Some (''lock-delta '' @ label @ '' '' @ kind @ '' '' @ name @ '' '' @ version_text m @ '' '' @ p)))) in
     case (map_of old (kind, name), map_of new (kind, name)) of
       (None, Some m) \<Rightarrow> one ''added'' m
     | (Some m, None) \<Rightarrow> one ''removed'' m
     | (Some before, Some after) \<Rightarrow>
         and_then (unmoved before after) (\<lambda>same.
         if same then Inr None
         else and_then (e1_member_pin before) (\<lambda>(_, p). and_then (e1_member_pin after) (\<lambda>(_, q).
           Inr (Some (''lock-delta moved '' @ kind @ '' '' @ name @ '' '' @ version_text before @ '' '' @ arrow @ '' '' @ version_text after @
             '' '' @ p @ '' '' @ arrow @ '' '' @ q)))))
     | (None, None) \<Rightarrow> Inr None)"

definition snapshot_of :: "dict \<Rightarrow> dict \<Rightarrow> dict res" where
  "snapshot_of snapshots m = and_then (e1_member_pin m) (\<lambda>(pin, _). and_then (item (JObj snapshots) pin) (\<lambda>s. Inr (the_dict s)))"

definition triggers :: "dict \<Rightarrow> lock_members \<Rightarrow> member_key \<times> dict \<Rightarrow> bool res" where
  "triggers snapshots old = (\<lambda>(key, m).
     case map_of old key of
       None \<Rightarrow>
         and_then (snapshot_of snapshots m) (\<lambda>s.
         Inr (fst key = ''context'' \<and> truthy (jget s ''system_modules'') \<or> fst key = ''mcp''))
     | Some before \<Rightarrow>
         and_then (unmoved before m) (\<lambda>same.
         if same then Inr False
         else and_then (snapshot_of snapshots before) (\<lambda>x. and_then (snapshot_of snapshots m) (\<lambda>y.
           if fst key = ''context'' then Inr (e1_system_inventory x \<noteq> e1_system_inventory y)
           else if fst key = ''mcp'' then e1_mcp_changed x y else Inr False))))"

definition e1_expected_delta :: "string \<Rightarrow> lock_members \<Rightarrow> lock_members \<Rightarrow> dict \<Rightarrow> (string list \<times> string list) res" where
  "e1_expected_delta arrow old new snapshots =
     and_then (map_res (delta_line arrow old new) (sort (remdups (map fst old @ map fst new)))) (\<lambda>lines.
     and_then (map_res (\<lambda>p. and_then (triggers snapshots old p) (\<lambda>b. Inr (b, fst p))) new) (\<lambda>hits.
     Inr (List.map_filter (\<lambda>x. x) lines, map snd (sort (map snd (filter fst hits))))))"

section \<open>The outcomes\<close>

definition E1_HINT_DELTA :: string where
  "E1_HINT_DELTA = ''revision B refuses with profile_update_confirmation_required unless --confirm-system-delta is given''"

definition e1_revision_outcomes :: "string list \<Rightarrow> bool \<Rightarrow> dict \<times> dict" where
  "e1_revision_outcomes trigger flag =
     ([(''diagnostic'', if trigger \<noteq> [] then JStr ''profile_update_system_delta'' else JNull),
       (''hint'', if trigger \<noteq> [] then JStr E1_HINT_DELTA else JNull), (''proceeds'', jtrue), (''lock_published'', jtrue)],
      if trigger \<noteq> [] \<and> \<not> flag
      then [(''diagnostic'', JStr ''profile_update_confirmation_required''), (''proceeds'', jfalse), (''lock_published'', jfalse)]
      else [(''diagnostic'', JNull), (''proceeds'', jtrue), (''lock_published'', jtrue)])"

definition E1_CONFIRMATION_BEHAVIOR :: "(string \<times> string) list" where
  "E1_CONFIRMATION_BEHAVIOR =
     [(''A-warning'', ''a triggered update delta warns profile_update_system_delta and proceeds''),
      (''B-flip'', ''a triggered update delta refuses profile_update_confirmation_required unless --confirm-system-delta is given'')]"

definition e1_expected_confirmation_posture :: "json \<Rightarrow> dict res" where
  "e1_expected_confirmation_posture revision =
     and_then (in_frozenset revision (map fst E1_CONFIRMATION_BEHAVIOR)) (\<lambda>known.
     and_then (guard known (fail ''update_confirmation_revision must be A-warning or B-flip'')) (\<lambda>_.
     Inr [(''revision'', revision), (''behavior'', jopt (map_of E1_CONFIRMATION_BEHAVIOR (the_str revision)))]))"

section \<open>The gate\<close>

definition delta_of :: "(json \<Rightarrow> bool) \<Rightarrow> string \<Rightarrow> dict \<Rightarrow> (string list \<times> string list) res" where
  "delta_of valid_mcp arrow c =
     and_then (e1_check_lock_members (jget c ''old_members'')) (\<lambda>old.
     and_then (e1_check_lock_members (jget c ''new_members'')) (\<lambda>new.
     and_then (e1_check_snapshots valid_mcp (jget c ''snapshots'') old new) (\<lambda>snapshots.
     e1_expected_delta arrow old new snapshots)))"

definition delta_recorded :: "dict \<Rightarrow> string list \<Rightarrow> string list \<Rightarrow> bool" where
  "delta_recorded expected lines trigger \<longleftrightarrow>
     texts_are (jget expected ''lines'') lines \<and> texts_are (jget expected ''trigger'') trigger"

definition outcome_recorded :: "dict \<Rightarrow> string list \<Rightarrow> string list \<Rightarrow> bool \<Rightarrow> bool" where
  "outcome_recorded expected lines trigger flag \<longleftrightarrow>
     delta_recorded expected lines trigger \<and>
     py_eq (jget expected ''revision_a'') (JObj (fst (e1_revision_outcomes trigger flag))) \<and>
     py_eq (jget expected ''revision_b'') (JObj (snd (e1_revision_outcomes trigger flag)))"

definition claim_matches :: "dict \<Rightarrow> string list \<Rightarrow> bool \<Rightarrow> bool" where
  "claim_matches claimed trigger flag \<longleftrightarrow>
     (let a = (jget claimed ''revision'' = JStr ''revision-a'');
          ruled = (if a then fst else snd) (e1_revision_outcomes trigger flag) in
      py_eq (jget claimed ''diagnostic'') (jget ruled ''diagnostic'') \<and> py_eq (jget claimed ''proceeds'') (jget ruled ''proceeds'') \<and>
      py_eq (jget claimed ''lock_published'') (jget ruled ''lock_published'') \<and>
      (a \<longrightarrow> py_eq (jget claimed ''hint'') (jget ruled ''hint'')))"

definition E1_DELTA_NEGATIVE_CASES :: "string list" where
  "E1_DELTA_NEGATIVE_CASES = [''config-preconfirm-claim'', ''silent-system-introduction'']"

definition check_delta_case :: "(json \<Rightarrow> bool) \<Rightarrow> string \<Rightarrow> string \<Rightarrow> dict \<Rightarrow> unit res" where
  "check_delta_case valid_mcp arrow name c =
     (let flag = truthy (jget c ''flag''); claimed = jget c ''claimed''; expected = jget c ''expected'' in
      and_then (guard (is_bool (jget c ''flag'')) (fail ''flag must be a boolean'')) (\<lambda>_.
      and_then (delta_of valid_mcp arrow c) (\<lambda>(lines, trigger).
      if name \<in> set E1_DELTA_NEGATIVE_CASES then require
        [(jget c ''conforming'' = jfalse \<and> truthy (jget c ''reason''), fail ''a negative needs conforming=false and a reason''),
         (is_dict claimed \<and> str_in (jget (the_dict claimed) ''revision'') [''revision-a'', ''revision-b''],
          fail ''a negative claims one revision outcome''),
         (\<not> claim_matches (the_dict claimed) trigger flag, fail ''the claimed outcome no longer violates the confirmation rule'')]
      else require
        [(jget c ''conforming'' \<noteq> jfalse, fail ''a positive case must not carry conforming=false''),
         (is_dict expected, fail ''a positive case needs its expected outcome''),
         (outcome_recorded (the_dict expected) lines trigger flag, fail ''expected is not the section 9.2 delta rule'')])))"

definition check_reinstall_case :: "(json \<Rightarrow> bool) \<Rightarrow> string \<Rightarrow> string \<Rightarrow> dict \<Rightarrow> unit res" where
  "check_reinstall_case valid_mcp arrow name c =
     (let expected = jget c ''expected'' in
      and_then (require
        [(jget c ''operation'' = JStr ''profile install'', fail ''a reinstall case runs the profile install path''),
         (is_bool (jget c ''flag''), fail ''flag must be a boolean'')]) (\<lambda>_.
      and_then (delta_of valid_mcp arrow c) (\<lambda>(lines, trigger).
      require
        [(is_dict expected, fail ''a reinstall case needs its expected outcome''),
         (outcome_recorded (the_dict expected) lines trigger (truthy (jget c ''flag'')), fail ''expected is not the section 9.2 reinstall rule'')])))"

text \<open>
  One run over all profiles, in order: past the first profile that revision B refuses, the others stay
  untouched.  The state of the loop is the name of the profile that stopped the run, or \<open>None\<close>.
\<close>

definition check_profile :: "(json \<Rightarrow> bool) \<Rightarrow> string \<Rightarrow> bool \<Rightarrow> json \<times> json \<Rightarrow> json \<Rightarrow> json res" where
  "check_profile valid_mcp arrow flag = (\<lambda>(entry, want) stopped.
     let p = the_dict entry; w = the_dict want in
     and_then (delta_of valid_mcp arrow p) (\<lambda>(lines, trigger).
     let a = fst (e1_revision_outcomes trigger flag); b = snd (e1_revision_outcomes trigger flag) in
     and_then (require
       [(is_dict want \<and> py_eq (jget w ''profile'') (jget p ''profile''), fail ''the expected outcome names its profile''),
        (delta_recorded w lines trigger, fail ''expected is not the section 9.2 delta rule''),
        (py_eq (jget w ''revision_a'') (JObj a), fail ''revision A always proceeds''),
        (stopped \<noteq> JNull \<longrightarrow> jget w ''revision_b'' = JStr ''untouched'', fail ''a profile past the refusal stays untouched''),
        (stopped = JNull \<longrightarrow> py_eq (jget w ''revision_b'') (JObj b), fail ''expected is not the revision B rule'')]) (\<lambda>_.
     Inr (if stopped = JNull \<and> \<not> truthy (jget b ''proceeds'') then jget p ''profile'' else stopped))))"

definition check_all_case :: "(json \<Rightarrow> bool) \<Rightarrow> string \<Rightarrow> string \<Rightarrow> dict \<Rightarrow> unit res" where
  "check_all_case valid_mcp arrow name c =
     (let profiles = jget c ''profiles''; expected = the_dict (jget c ''expected''); wants = jget expected ''profiles'';
          stop = jget expected ''stopped''; named = map (\<lambda>v. jget (the_dict v) ''profile'') (filter is_dict (the_list profiles)) in
      and_then (require
        [(is_bool (jget c ''flag''), fail ''flag must be a boolean''),
         (is_list profiles \<and> length (the_list profiles) \<ge> 2, fail ''an --all case runs at least two profiles'')]) (\<lambda>_.
      and_then (guard (\<not> list_ex (\<lambda>v. is_list v \<or> is_dict v) named) TypeError) (\<lambda>_.
      and_then (require
        [(list_all is_dict (the_list profiles) \<and> sorted_wrt (\<lambda>v w. \<not> py_eq v w) named, fail ''an --all case names every profile once''),
         (is_dict (jget c ''expected''), fail ''an --all case needs its expected outcome''),
         (is_list wants \<and> length (the_list wants) = length (the_list profiles), fail ''an --all case expects one outcome per profile'')]) (\<lambda>_.
      and_then (fold_res (check_profile valid_mcp arrow (truthy (jget c ''flag''))) (zip (the_list profiles) (the_list wants)) JNull) (\<lambda>stopped.
      guard (is_dict stop \<and> jget (the_dict stop) ''revision_a'' = JNull \<and> py_eq (jget (the_dict stop) ''revision_b'') stopped)
        (fail ''stopped names the first refusing profile per revision''))))))"

definition check_confirmation_case :: "string \<Rightarrow> dict \<Rightarrow> unit res" where
  "check_confirmation_case name c =
     and_then (e1_expected_confirmation_posture (jget c ''update_confirmation_revision'')) (\<lambda>row.
     require
       [(is_dict (jget c ''expected''), fail ''a confirmation-posture case needs its expected outcome''),
        (py_eq (jget (the_dict (jget c ''expected'')) ''row'') (JObj row), fail ''expected is not the section 12 update-confirmation row'')])"

definition E1_DELTA_CASES :: "string list" where
  "E1_DELTA_CASES =
     [''plain-version-bump-no-confirmation'', ''empty-delta-identical-lock'', ''new-system-module'', ''changed-system-bytes'',
      ''changed-system-module-set'', ''changed-system-selector'', ''new-mcp-member'', ''changed-mcp-command'', ''changed-mcp-args'',
      ''changed-mcp-env-names'', ''changed-mcp-url'', ''changed-mcp-url-confirmed'', ''changed-mcp-selector'',
      ''changed-mcp-selector-confirmed'', ''mcp-env-names-reorder-triggers'', ''absent-selector-to-present'',
      ''absent-selector-to-present-confirmed'', ''present-selector-to-absent'', ''present-selector-to-absent-confirmed'',
      ''absent-env-names-to-empty'', ''absent-env-names-to-empty-confirmed'', ''empty-env-names-to-absent'',
      ''empty-env-names-to-absent-confirmed'', ''removed-system-member-silent'', ''confirmed-flag-proceeds'', ''added-skill-silent'',
      ''moved-skill-without-version'', ''config-preconfirm-claim'', ''silent-system-introduction'']"

definition E1_ALL_CASES :: "string list" where
  "E1_ALL_CASES = [''all-with-flag-confirms-every-profile'', ''all-without-flag-stops-at-first-refusal'']"

definition E1_REINSTALL_CASES :: "string list" where
  "E1_REINSTALL_CASES = [''reinstall-with-flag-proceeds'', ''reinstall-without-flag-refuses-under-b'']"

definition E1_CONFIRMATION_POSTURE_CASES :: "string list" where
  "E1_CONFIRMATION_POSTURE_CASES = [''update-confirmation-revision-a-warning'', ''update-confirmation-revision-b-flip'']"

definition validate_environments_source_signers_vectors ::
    "(json \<Rightarrow> bool) \<Rightarrow> (json \<Rightarrow> bool) \<Rightarrow> string \<Rightarrow> dict \<Rightarrow> unit res" where
  "validate_environments_source_signers_vectors valid valid_mcp arrow vector =
     and_then (require
       [(py_eq (jget vector ''schema_version'') (JInt 1) \<and> jget vector ''protocol_version'' = JStr ''1.0.0-rc.14'' \<and>
         jget vector ''capability'' = JStr ''agent-environments'' \<and> py_eq (jget vector ''capability_revision'') (JInt 1),
         fail ''source-signers vector has the wrong capability identity''),
        (jget vector ''revision_a'' = JStr ''warning release: a triggered update delta warns profile_update_system_delta and proceeds'' \<and>
         jget vector ''revision_b'' = JStr ''flip release: a triggered update delta refuses profile_update_confirmation_required unless --confirm-system-delta is given'',
         fail ''source-signers revisions must pin exactly the warning and flip releases'')]) (\<lambda>_.
     and_then (check_cases (check_verification_case valid) E1_VERIFICATION_CASES (jget vector ''verification_cases'') ''source-signers verification'') (\<lambda>_.
     and_then (check_cases (check_merge_case valid) E1_MERGE_CASES (jget vector ''merge_cases'') ''source-signers merge'') (\<lambda>_.
     and_then (check_cases (check_signer_posture_case valid) E1_POSTURE_CASES (jget vector ''posture_cases'') ''source-signers posture'') (\<lambda>_.
     and_then (check_cases (check_delta_case valid_mcp arrow) E1_DELTA_CASES (jget vector ''delta_cases'') ''source-signers delta'') (\<lambda>_.
     and_then (check_cases (check_all_case valid_mcp arrow) E1_ALL_CASES (jget vector ''all_cases'') ''source-signers all'') (\<lambda>_.
     and_then (check_cases (check_reinstall_case valid_mcp arrow) E1_REINSTALL_CASES (jget vector ''reinstall_cases'') ''source-signers reinstall'') (\<lambda>_.
     check_cases check_confirmation_case E1_CONFIRMATION_POSTURE_CASES (jget vector ''confirmation_posture_cases'')
       ''source-signers confirmation posture'')))))))"

section \<open>What triggers a confirmation\<close>

definition pin_of :: "dict \<Rightarrow> string" where
  "pin_of m = (if is_str (jget m ''commit'') then the_str (jget m ''commit'') else the_str (jget m ''state_sha256''))"

definition pinned_snapshot :: "dict \<Rightarrow> dict \<Rightarrow> dict" where
  "pinned_snapshot snapshots m = the_dict (jget snapshots (pin_of m))"

text \<open>
  A member of the new lock that brings nothing to confirm: a context with the system modules it had,
  or none; an MCP member that was there with the same canonical declaration; any skill.
\<close>

definition member_quiet :: "dict \<Rightarrow> lock_members \<Rightarrow> member_key \<times> dict \<Rightarrow> bool" where
  "member_quiet snapshots old = (\<lambda>(key, m).
     (fst key = ''context'' \<longrightarrow> e1_system_inventory (pinned_snapshot snapshots m) =
        (case map_of old key of None \<Rightarrow> [] | Some before \<Rightarrow> e1_system_inventory (pinned_snapshot snapshots before))) \<and>
     (fst key = ''mcp'' \<longrightarrow>
        (case map_of old key of
           None \<Rightarrow> False
         | Some before \<Rightarrow> ccj1_bytes (jget (pinned_snapshot snapshots before) ''mcp'') = ccj1_bytes (jget (pinned_snapshot snapshots m) ''mcp''))))"

lemma member_pin: "e1_member_pin m = Inr (p, q) \<Longrightarrow> p = pin_of m"
  by (auto simp: e1_member_pin_def pin_of_def Let_def and_then_ok_iff split: if_splits)

lemma snapshot_pinned:
  assumes "snapshot_of snapshots m = Inr s"
  shows "s = pinned_snapshot snapshots m" "map_of snapshots (pin_of m) \<noteq> None"
proof -
  from assms obtain p q w where w: "e1_member_pin m = Inr (p, q)" "map_of snapshots p = Some w" "s = the_dict w"
    by (auto simp: snapshot_of_def and_then_ok_iff item_ok_iff)
  have "p = pin_of m" by (rule member_pin [OF w(1)])
  with w show "s = pinned_snapshot snapshots m" "map_of snapshots (pin_of m) \<noteq> None"
    by (simp_all add: pinned_snapshot_def jget_def)
qed

lemma unmoved_same: "unmoved before m = Inr True \<Longrightarrow> pin_of before = pin_of m"
  by (auto simp: unmoved_def and_then_ok_iff) (metis member_pin)

lemma inventory_empty: "e1_system_inventory s = [] \<longleftrightarrow> the_list (jget s ''system_modules'') = []"
  unfolding e1_system_inventory_def length_0_conv [symmetric] by (simp del: length_0_conv)

lemma triggers_exact:
  assumes "triggers snapshots old (key, m) = Inr b" and "\<forall>s \<in> snd ` set snapshots. is_list (jget (the_dict s) ''system_modules'')"
  shows "b \<longleftrightarrow> \<not> member_quiet snapshots old (key, m)"
proof (cases "map_of old key")
  case None
  then obtain s where s: "snapshot_of snapshots m = Inr s" "b \<longleftrightarrow> fst key = ''context'' \<and> truthy (jget s ''system_modules'') \<or> fst key = ''mcp''"
    using assms(1) by (auto simp: triggers_def and_then_ok_iff)
  then have p: "s = pinned_snapshot snapshots m" "map_of snapshots (pin_of m) \<noteq> None" using snapshot_pinned by blast+
  then obtain w where w: "map_of snapshots (pin_of m) = Some w" "w \<in> snd ` set snapshots"
    by (force dest: map_of_SomeD)
  then have "s = the_dict w" using p(1) by (simp add: pinned_snapshot_def jget_def)
  then have "is_list (jget s ''system_modules'')" using w(2) assms(2) by blast
  then have "truthy (jget s ''system_modules'') \<longleftrightarrow> the_list (jget s ''system_modules'') \<noteq> []"
    by (cases "jget s ''system_modules''") auto
  with None s(2) p(1) show ?thesis by (auto simp: member_quiet_def inventory_empty)
next
  case (Some before)
  then obtain same where same: "unmoved before m = Inr same" using assms(1) by (auto simp: triggers_def and_then_ok_iff)
  show ?thesis
  proof (cases same)
    case True
    then have "pin_of before = pin_of m" using same unmoved_same by simp
    moreover have "\<not> b" using assms(1) Some same True by (simp add: triggers_def)
    ultimately show ?thesis using Some by (simp add: member_quiet_def pinned_snapshot_def)
  next
    case False
    then obtain x y where x: "snapshot_of snapshots before = Inr x" "snapshot_of snapshots m = Inr y"
      and b: "(if fst key = ''context'' then Inr (e1_system_inventory x \<noteq> e1_system_inventory y)
           else if fst key = ''mcp'' then e1_mcp_changed x y else Inr False) = Inr b"
      using assms(1) Some same by (auto simp: triggers_def and_then_ok_iff)
    have "x = pinned_snapshot snapshots before" "y = pinned_snapshot snapshots m" using snapshot_pinned x by blast+
    with b Some show ?thesis by (auto simp: member_quiet_def e1_mcp_changed_def and_then_ok_iff split: if_splits)
  qed
qed

lemma delta_trigger:
  assumes "e1_expected_delta arrow old new snapshots = Inr (lines, trigger)"
    and "\<forall>s \<in> snd ` set snapshots. is_list (jget (the_dict s) ''system_modules'')"
  shows "set trigger = {name. \<exists>kind m. ((kind, name), m) \<in> set new \<and> \<not> member_quiet snapshots old ((kind, name), m)}"
proof -
  from assms(1) obtain hits where h: "map_res (\<lambda>p. and_then (triggers snapshots old p) (\<lambda>b. Inr (b, fst p))) new = Inr hits"
    and t: "trigger = map snd (sort (map snd (filter fst hits)))"
    by (auto simp: e1_expected_delta_def and_then_ok_iff)
  from h have "set hits = (\<lambda>p. (\<not> member_quiet snapshots old p, fst p)) ` set new"
  proof (induction new arbitrary: hits)
    case (Cons p new)
    then obtain b hs where b: "triggers snapshots old p = Inr b" "map_res (\<lambda>p. and_then (triggers snapshots old p) (\<lambda>b. Inr (b, fst p))) new = Inr hs"
      "hits = (b, fst p) # hs" by (auto simp: and_then_ok_iff)
    moreover have "b \<longleftrightarrow> \<not> member_quiet snapshots old p" using triggers_exact [OF _ assms(2)] b(1) by (cases p) blast
    ultimately show ?case using Cons.IH [OF b(2)] by auto
  qed simp
  then show ?thesis by (force simp: t image_iff)
qed

section \<open>What acceptance shows\<close>

lemma snapshots_checked:
  assumes "e1_check_snapshots valid_mcp v old new = Inr snapshots"
  shows "v = JObj snapshots" "\<forall>s \<in> snd ` set snapshots. is_list (jget (the_dict s) ''system_modules'')"
proof -
  from assms have v: "is_dict v" "snapshots = the_dict v" and shape: "\<forall>p \<in> set (the_dict v). snapshot_shape valid_mcp (snd p) = Inr ()"
    by (auto simp: e1_check_snapshots_def and_then_ok_iff for_each_ok_iff)
  then show "v = JObj snapshots" by (cases v) simp_all
  show "\<forall>s \<in> snd ` set snapshots. is_list (jget (the_dict s) ''system_modules'')"
    using shape v(2) by (auto simp: snapshot_shape_def and_then_ok_iff)
qed

text \<open>The members of the new lock of a case that are not quiet.\<close>

definition loud_members :: "dict \<Rightarrow> lock_members \<Rightarrow> lock_members \<Rightarrow> string set" where
  "loud_members snapshots old new = (\<lambda>p. snd (fst p)) ` {p \<in> set new. \<not> member_quiet snapshots old p}"

definition locks_of :: "dict \<Rightarrow> lock_members \<Rightarrow> lock_members \<Rightarrow> dict \<Rightarrow> bool" where
  "locks_of c old new snapshots \<longleftrightarrow> e1_check_lock_members (jget c ''old_members'') = Inr old \<and>
     e1_check_lock_members (jget c ''new_members'') = Inr new \<and> jget c ''snapshots'' = JObj snapshots"

lemma delta_parts:
  assumes "delta_of valid_mcp arrow c = Inr (lines, trigger)"
  obtains old new snapshots where "locks_of c old new snapshots" "set trigger = loud_members snapshots old new"
proof -
  from assms obtain old new snapshots where locks: "e1_check_lock_members (jget c ''old_members'') = Inr old"
      "e1_check_lock_members (jget c ''new_members'') = Inr new" and s: "e1_check_snapshots valid_mcp (jget c ''snapshots'') old new = Inr snapshots"
    and d: "e1_expected_delta arrow old new snapshots = Inr (lines, trigger)"
    unfolding delta_of_def and_then_ok_iff by blast
  note checked = snapshots_checked [OF s]
  have "set trigger = loud_members snapshots old new"
    unfolding delta_trigger [OF d checked(2)] loud_members_def by force
  with locks checked(1) that show ?thesis by (auto simp: locks_of_def)
qed

lemma gate_delta_case:
  assumes "validate_environments_source_signers_vectors valid valid_mcp arrow vector = Inr ()"
    and "JObj c \<in> set (the_list (jget vector ''delta_cases''))" and "jget c ''conforming'' \<noteq> jfalse"
  obtains lines trigger where "delta_of valid_mcp arrow c = Inr (lines, trigger)"
    "outcome_recorded (the_dict (jget c ''expected'')) lines trigger (truthy (jget c ''flag''))"
proof -
  have "check_cases (check_delta_case valid_mcp arrow) E1_DELTA_CASES (jget vector ''delta_cases'') ''source-signers delta'' = Inr ()"
    using assms(1) unfolding validate_environments_source_signers_vectors_def and_then_ok_iff by auto
  then obtain name where c: "check_delta_case valid_mcp arrow name c = Inr ()" using assms(2) by (rule checked)
  have "name \<notin> set E1_DELTA_NEGATIVE_CASES"
    using c assms(3) by (auto simp: check_delta_case_def Let_def and_then_ok_iff)
  with c that show ?thesis by (auto simp: check_delta_case_def Let_def and_then_ok_iff)
qed

text \<open>
  C17: nothing new reaches the model without confirmation.  In every conforming delta case of an accepted
  vector the recorded trigger names exactly the members of the new lock that are not quiet: the contexts
  whose system modules differ from those they had, and the MCP members that are new or whose canonical
  declaration changed.  Revision B publishes the lock exactly when the confirmation flag is given or
  every member is quiet, and refuses with the confirmation diagnostic otherwise; revision A always
  proceeds and warns exactly when some member is not quiet.
\<close>

theorem delta_confirmed:
  assumes "validate_environments_source_signers_vectors valid valid_mcp arrow vector = Inr ()"
    and "JObj c \<in> set (the_list (jget vector ''delta_cases''))" and "jget c ''conforming'' \<noteq> jfalse"
    and "expected = the_dict (jget c ''expected'')"
  shows "\<exists>old new snapshots. locks_of c old new snapshots \<and> set (texts_in (jget expected ''trigger'')) = loud_members snapshots old new \<and>
    py_eq (jget expected ''revision_b'') (JObj
      (if truthy (jget c ''flag'') \<or> list_all (member_quiet snapshots old) new
       then [(''diagnostic'', JNull), (''proceeds'', jtrue), (''lock_published'', jtrue)]
       else [(''diagnostic'', JStr ''profile_update_confirmation_required''), (''proceeds'', jfalse), (''lock_published'', jfalse)])) \<and>
    py_eq (jget expected ''revision_a'') (JObj
      (if list_all (member_quiet snapshots old) new
       then [(''diagnostic'', JNull), (''hint'', JNull), (''proceeds'', jtrue), (''lock_published'', jtrue)]
       else [(''diagnostic'', JStr ''profile_update_system_delta''), (''hint'', JStr E1_HINT_DELTA), (''proceeds'', jtrue), (''lock_published'', jtrue)]))"
proof -
  obtain lines trigger where d: "delta_of valid_mcp arrow c = Inr (lines, trigger)"
    and o': "outcome_recorded expected lines trigger (truthy (jget c ''flag''))"
    by (rule gate_delta_case [OF assms(1-3)]) (use assms(4) in simp)
  obtain old new snapshots where locks: "locks_of c old new snapshots" and t: "set trigger = loud_members snapshots old new"
    by (rule delta_parts [OF d])
  have "trigger = [] \<longleftrightarrow> set trigger = {}" by simp
  also have "\<dots> \<longleftrightarrow> list_all (member_quiet snapshots old) new" unfolding t by (auto simp: loud_members_def list_all_iff)
  finally have q: "trigger = [] \<longleftrightarrow> list_all (member_quiet snapshots old) new" .
  have "texts_in (jget expected ''trigger'') = trigger"
    using o' by (simp add: outcome_recorded_def delta_recorded_def texts_are_def)
  with t locks o' q show ?thesis
    by (intro exI [of _ old] exI [of _ new] exI [of _ snapshots]) (simp add: outcome_recorded_def e1_revision_outcomes_def split: if_splits)
qed

text \<open>Past a refusal the loop keeps its state.\<close>

lemma stopped_stays:
  assumes "fold_res (check_profile valid_mcp arrow flag) zs stopped = Inr stopped'" "stopped \<noteq> JNull"
  shows "stopped' = stopped \<and> (\<forall>z \<in> set zs. jget (the_dict (snd z)) ''revision_b'' = JStr ''untouched'')"
  using assms(1)
proof (induction zs)
  case (Cons z zs)
  from Cons.prems obtain s where s: "check_profile valid_mcp arrow flag z stopped = Inr s"
      "fold_res (check_profile valid_mcp arrow flag) zs s = Inr stopped'"
    by (auto simp: and_then_ok_iff)
  from s(1) assms(2) have "s = stopped" "jget (the_dict (snd z)) ''revision_b'' = JStr ''untouched''"
    by (auto simp: check_profile_def and_then_ok_iff Let_def split: prod.splits)
  with s(2) Cons.IH show ?case by simp
qed simp

lemma fold_res_append: "fold_res f (xs @ ys) s = and_then (fold_res f xs s) (fold_res f ys)"
proof (induction xs arbitrary: s)
  case (Cons x xs)
  then show ?case by (cases "f x s") simp_all
qed simp

lemma stops_here:
  assumes "check_profile valid_mcp arrow False (entry, want) JNull = Inr s" "locks_of (the_dict entry) old new snapshots"
    and "\<not> list_all (member_quiet snapshots old) new"
  shows "s = jget (the_dict entry) ''profile''"
proof -
  from assms(1) obtain lines trigger where d: "delta_of valid_mcp arrow (the_dict entry) = Inr (lines, trigger)"
    and s: "s = (if trigger \<noteq> [] then jget (the_dict entry) ''profile'' else JNull)"
    by (fastforce simp: check_profile_def and_then_ok_iff Let_def e1_revision_outcomes_def split: if_splits)
  obtain old' new' snapshots' where l: "locks_of (the_dict entry) old' new' snapshots'" "set trigger = loud_members snapshots' old' new'"
    by (rule delta_parts [OF d])
  have "old' = old" "new' = new" "snapshots' = snapshots" using l(1) assms(2) by (simp_all add: locks_of_def)
  then have "trigger \<noteq> []" using l(2) assms(3) by (auto simp: loud_members_def list_all_iff)
  with s show ?thesis by simp
qed

text \<open>
  An unconfirmed run over all profiles stops at the first refusal.  In every accepted case of a run
  without the confirmation flag, past a named profile whose new lock has a member that is not quiet
  every profile is recorded as untouched under revision B, and the name recorded as where the run
  stopped is that of a profile.
\<close>

theorem update_all_stops:
  assumes "validate_environments_source_signers_vectors valid valid_mcp arrow vector = Inr ()"
    and "JObj c \<in> set (the_list (jget vector ''all_cases''))" and "jget c ''flag'' = jfalse"
    and "zip (the_list (jget c ''profiles'')) (the_list (jget (the_dict (jget c ''expected'')) ''profiles'')) = before @ (entry, want) # after"
    and "jget (the_dict entry) ''profile'' \<noteq> JNull" and "locks_of (the_dict entry) old new snapshots"
    and "\<not> list_all (member_quiet snapshots old) new"
  shows "(\<forall>z \<in> set after. jget (the_dict (snd z)) ''revision_b'' = JStr ''untouched'') \<and>
    jget (the_dict (jget (the_dict (jget c ''expected'')) ''stopped'')) ''revision_b'' \<noteq> JNull"
proof -
  have "check_cases (check_all_case valid_mcp arrow) E1_ALL_CASES (jget vector ''all_cases'') ''source-signers all'' = Inr ()"
    using assms(1) unfolding validate_environments_source_signers_vectors_def and_then_ok_iff by auto
  then obtain name where "check_all_case valid_mcp arrow name c = Inr ()" using assms(2) by (rule checked)
  then obtain stopped where f: "fold_res (check_profile valid_mcp arrow False) (before @ (entry, want) # after) JNull = Inr stopped"
    and stop: "py_eq (jget (the_dict (jget (the_dict (jget c ''expected'')) ''stopped'')) ''revision_b'') stopped"
    unfolding check_all_case_def Let_def and_then_ok_iff assms(3,4) by auto
  from f obtain s1 s2 where s: "fold_res (check_profile valid_mcp arrow False) before JNull = Inr s1"
      "check_profile valid_mcp arrow False (entry, want) s1 = Inr s2" "fold_res (check_profile valid_mcp arrow False) after s2 = Inr stopped"
    unfolding fold_res_append and_then_ok_iff fold_res.simps by blast
  have "s2 \<noteq> JNull"
  proof (cases "s1 = JNull")
    case True
    then have "s2 = jget (the_dict entry) ''profile''" using stops_here [OF _ assms(6,7)] s(2) by simp
    then show ?thesis using assms(5) by simp
  next
    case False
    then show ?thesis using s(2) stopped_stays [of valid_mcp arrow False "[(entry, want)]" s1 s2] by simp
  qed
  with stopped_stays [OF s(3)] stop show ?thesis by auto
qed

text \<open>
  C18: only admitted sources are used.  In every conforming verification case of an accepted vector about
  a git source, the recorded selection is the first candidate exactly when the source is admitted (no
  allowlist and none required, or a valid signature on the tag or the commit of that candidate by a
  signer of the allowlist, up to the comment of its key); otherwise nothing is selected, whatever the
  other candidates are, no lock is written, and a diagnostic says why.
\<close>

theorem signers_verified:
  assumes "validate_environments_source_signers_vectors valid valid_mcp arrow vector = Inr ()"
    and "JObj c \<in> set (the_list (jget vector ''verification_cases''))" and "jget c ''conforming'' \<noteq> jfalse"
    and "jget c ''source_kind'' = JStr ''git''" and "expected = the_dict (jget c ''expected'')"
  shows "jget expected ''selected'' =
      (if source_admitted c then JStr (the_str (jget (the_dict (hd (the_list (jget c ''candidates'')))) ''version'')) else JNull) \<and>
    jget expected ''verdict'' = JStr (if source_admitted c then ''accepted'' else ''refused'') \<and>
    py_eq (jget expected ''lock_written'') (JBool (source_admitted c)) \<and>
    (jget expected ''diagnostic'' = JNull \<longleftrightarrow> source_admitted c)"
proof -
  have "check_cases (check_verification_case valid) E1_VERIFICATION_CASES (jget vector ''verification_cases'') ''source-signers verification'' = Inr ()"
    using assms(1) unfolding validate_environments_source_signers_vectors_def and_then_ok_iff by auto
  then obtain name where c: "check_verification_case valid name c = Inr ()" using assms(2) by (rule checked)
  have "name \<notin> set E1_VERIFICATION_NEGATIVE_CASES"
    using c assms(3) by (auto simp: check_verification_case_def and_then_ok_iff)
  with c obtain v where v: "e1_expected_verification c = Inr v" "records expected v"
    using assms(5) by (auto simp: check_verification_case_def and_then_ok_iff)
  show ?thesis using git_verified [OF v(1) assms(4)] v(2) by (cases "v_diagnostic v") (auto simp: records_def accepted_def)
qed

section \<open>The properties on a sample\<close>

definition any_config :: "json \<Rightarrow> bool" where
  "any_config v \<longleftrightarrow> is_dict v"

definition sample_signer :: "string \<Rightarrow> json" where
  "sample_signer comment = JObj [(''type'', JStr ''ssh''), (''key'', JStr (''ssh-ed25519 AAAA '' @ comment))]"

definition sample_candidate :: "string \<Rightarrow> json \<Rightarrow> json" where
  "sample_candidate version signature =
     JObj [(''version'', JStr version), (''form'', JStr ''tag''), (''tag'', JStr version), (''commit'', JStr ''c''), (''tag_signature'', signature)]"

text \<open>The upper candidate carries the given signature, the lower one a good one.\<close>

definition sample_source :: "string \<Rightarrow> json \<Rightarrow> dict" where
  "sample_source name signature =
     [(''name'', JStr name), (''source_kind'', JStr ''git''), (''source'', JStr ''s''), (''allowlist'', JArr [sample_signer ''desk'']),
      (''require_source_signers'', jfalse),
      (''candidates'', JArr [sample_candidate ''2.0.0'' signature,
         sample_candidate ''1.0.0'' (JObj [(''signer'', sample_signer ''laptop''), (''valid'', jtrue)])])]"

definition sample_refused :: dict where
  "sample_refused = [(''verdict'', JStr ''refused''), (''diagnostic'', JStr ''context_source_unsigned''), (''selected'', JNull),
     (''lock_written'', jfalse), (''signers_seen'', JArr [])]"

definition sample_verification :: "string \<Rightarrow> dict" where
  "sample_verification name =
     sample_source name JNull @
     (if name \<in> set E1_VERIFICATION_NEGATIVE_CASES
      then [(''conforming'', jfalse), (''reason'', JStr ''r''), (''observed'', JObj [(''verdict'', JStr ''accepted''), (''selected'', JStr ''1.0.0'')])]
      else [(''expected'', JObj sample_refused)])"

definition sample_merge :: "string \<Rightarrow> dict" where
  "sample_merge name =
     [(''name'', JStr name), (''locked'', jtrue), (''system'', JObj [(''s'', JArr [sample_signer ''desk''])]), (''machine'', JNull),
       (''expected'', JObj [(''effective'', JObj [(''s'', JArr [sample_signer ''desk''])]), (''warnings'', JArr [])])]"

definition sample_signer_posture :: "string \<Rightarrow> dict" where
  "sample_signer_posture name =
     [(''name'', JStr name), (''members'', JArr [JObj [(''kind'', JStr ''skill''), (''name'', JStr ''k''), (''source'', JStr ''s'')]]),
       (''allowlists'', JObj []), (''require_source_signers'', jfalse), (''local'', JObj []),
       (''expected'', JObj [(''rows'', JArr [posture_row ''s'' ''unconfigured'' JNull True]), (''require_source_signers'', jfalse)])]"

text \<open>An update that adds an MCP member to an empty lock.\<close>

definition sample_pin :: string where
  "sample_pin = replicate 40 (CHR ''a'')"

definition sample_member :: json where
  "sample_member = JObj [(''kind'', JStr ''mcp''), (''name'', JStr ''search''), (''version'', JStr ''1.0.0''), (''commit'', JStr sample_pin)]"

definition sample_server :: json where
  "sample_server = JObj [(''transport'', JStr ''stdio''), (''command'', JStr ''run''), (''args'', JArr [])]"

definition sample_locks :: dict where
  "sample_locks =
     [(''old_members'', JArr []), (''new_members'', JArr [sample_member]),
      (''snapshots'', JObj [(sample_pin, JObj [(''system_modules'', JArr []), (''mcp'', sample_server)])])]"

definition sample_recorded :: "bool \<Rightarrow> dict" where
  "sample_recorded flag =
     (let (lines, trigger) = (case delta_of any_config ''to'' sample_locks of Inr x \<Rightarrow> x | Inl _ \<Rightarrow> ([], []));
          (a, b) = e1_revision_outcomes trigger flag in
      [(''lines'', JArr (map JStr lines)), (''trigger'', JArr (map JStr trigger)), (''revision_a'', JObj a), (''revision_b'', JObj b)])"

definition sample_delta :: "string \<Rightarrow> bool \<Rightarrow> dict" where
  "sample_delta name flag =
     [(''name'', JStr name), (''flag'', JBool flag), (''operation'', JStr ''profile install'')] @ sample_locks @
     (if name \<in> set E1_DELTA_NEGATIVE_CASES
      then [(''conforming'', jfalse), (''reason'', JStr ''r''), (''claimed'', JObj [(''revision'', JStr ''revision-b''), (''proceeds'', JBool (\<not> flag))])]
      else [(''expected'', JObj (sample_recorded flag))])"

definition sample_all :: "string \<Rightarrow> bool \<Rightarrow> dict" where
  "sample_all name flag =
     (let want = (\<lambda>p. JObj ((''profile'', JStr p) # (if flag \<or> p = ''first'' then [] else [(''revision_b'', JStr ''untouched'')]) @ sample_recorded flag)) in
      [(''name'', JStr name), (''flag'', JBool flag),
       (''profiles'', JArr (map (\<lambda>p. JObj ((''profile'', JStr p) # sample_locks)) [''first'', ''second''])),
       (''expected'', JObj [(''profiles'', JArr (map want [''first'', ''second''])),
          (''stopped'', JObj [(''revision_a'', JNull), (''revision_b'', if flag then JNull else JStr ''first'')])])])"

definition sample_confirmation :: "string \<Rightarrow> dict" where
  "sample_confirmation name =
     (let r = (if name = ''update-confirmation-revision-a-warning'' then ''A-warning'' else ''B-flip'') in
      [(''name'', JStr name), (''update_confirmation_revision'', JStr r),
       (''expected'', JObj [(''row'', JObj [(''revision'', JStr r), (''behavior'', jopt (map_of E1_CONFIRMATION_BEHAVIOR r))])])])"

definition sample_flag :: "string \<Rightarrow> bool" where
  "sample_flag name = (name \<in> {''all-with-flag-confirms-every-profile'', ''reinstall-with-flag-proceeds''})"

definition sample_signers :: dict where
  "sample_signers =
     [(''schema_version'', JInt 1), (''protocol_version'', JStr ''1.0.0-rc.14''), (''capability'', JStr ''agent-environments''),
      (''capability_revision'', JInt 1),
      (''revision_a'', JStr ''warning release: a triggered update delta warns profile_update_system_delta and proceeds''),
      (''revision_b'', JStr ''flip release: a triggered update delta refuses profile_update_confirmation_required unless --confirm-system-delta is given''),
      (''verification_cases'', JArr (map (\<lambda>n. JObj (sample_verification n)) E1_VERIFICATION_CASES)),
      (''merge_cases'', JArr (map (\<lambda>n. JObj (sample_merge n)) E1_MERGE_CASES)),
      (''posture_cases'', JArr (map (\<lambda>n. JObj (sample_signer_posture n)) E1_POSTURE_CASES)),
      (''delta_cases'', JArr (map (\<lambda>n. JObj (sample_delta n False)) E1_DELTA_CASES)),
      (''all_cases'', JArr (map (\<lambda>n. JObj (sample_all n (sample_flag n))) E1_ALL_CASES)),
      (''reinstall_cases'', JArr (map (\<lambda>n. JObj (sample_delta n (sample_flag n))) E1_REINSTALL_CASES)),
      (''confirmation_posture_cases'', JArr (map (\<lambda>n. JObj (sample_confirmation n)) E1_CONFIRMATION_POSTURE_CASES))]"

definition sample_lines :: "string list" where
  "sample_lines = [''lock-delta added mcp search 1.0.0 commit:'' @ sample_pin]"

lemma sample_delta_of: "delta_of any_config ''to'' sample_locks = Inr (sample_lines, [''search''])"
  by code_simp

lemma delta_of_sample [simp]:
  "delta_of v arrow (sample_delta name flag) = delta_of v arrow sample_locks"
  "delta_of v arrow ((''profile'', p) # sample_locks) = delta_of v arrow sample_locks"
  by (simp_all add: delta_of_def sample_delta_def sample_locks_def)

lemma sample_outcome: "outcome_recorded (sample_recorded flag) sample_lines [''search''] flag"
  by (simp add: outcome_recorded_def delta_recorded_def texts_are_def sample_recorded_def sample_delta_of e1_revision_outcomes_def)

lemma sample_delta_passes: "check_delta_case any_config ''to'' name (sample_delta name False) = Inr ()"
  using sample_outcome [of False] unfolding check_delta_case_def Let_def delta_of_sample sample_delta_of
  by (simp add: sample_delta_def sample_locks_def claim_matches_def e1_revision_outcomes_def Let_def)

lemma sample_reinstall_passes:
  "name \<notin> set E1_DELTA_NEGATIVE_CASES \<Longrightarrow> check_reinstall_case any_config ''to'' name (sample_delta name flag) = Inr ()"
  using sample_outcome [of flag] unfolding check_reinstall_case_def Let_def delta_of_sample sample_delta_of
  by (simp add: sample_delta_def sample_locks_def require.simps)

lemma sample_all_passes: "check_all_case any_config ''to'' name (sample_all name flag) = Inr ()"
  unfolding check_all_case_def
  by (cases flag) (simp_all add: sample_all_def Let_def check_profile_def sample_delta_of sample_recorded_def e1_revision_outcomes_def
      delta_recorded_def texts_are_def require.simps)

lemma sample_verified: "e1_expected_verification (sample_verification name) = Inr \<lparr>v_diagnostic = Some ''context_source_unsigned'', v_selected = None, v_seen = []\<rparr>"
proof -
  have s: "e1_check_signer_shape (sample_signer cmt) = Inr (''ssh'', ''ssh-ed25519 AAAA '' @ cmt)" for cmt
    by (simp add: e1_check_signer_shape_def sample_signer_def insert_commute)
  have g: "e1_check_signature (JObj [(''signer'', sample_signer cmt), (''valid'', jtrue)]) = Inr ()" for cmt
    by (simp add: e1_check_signature_def s require.simps insert_commute)
  show ?thesis
    by (simp add: e1_expected_verification_def Let_def sample_verification_def sample_source_def sample_candidate_def candidate_shape_def require.simps g
        verify_top_def signatures_of_def s e1_check_signature_def [of JNull])
qed

lemma sample_verification_passes: "check_verification_case any_config name (sample_verification name) = Inr ()"
  unfolding check_verification_case_def sample_verified
  by (simp add: sample_verification_def sample_source_def sample_refused_def e1_check_signer_map_def any_config_def require.simps records_def
      accepted_def seen_json_def)

lemma sample_merge_passes: "check_merge_case any_config name (sample_merge name) = Inr ()"
  by (simp add: check_merge_case_def sample_merge_def e1_check_signer_map_def any_config_def require.simps e1_expected_merge_def locked_merge_def
      texts_are_def sample_signer_def)

lemma sample_posture_passes: "check_signer_posture_case any_config name (sample_signer_posture name) = Inr ()"
  by (simp add: check_signer_posture_case_def sample_signer_posture_def e1_check_signer_map_def any_config_def require.simps e1_expected_posture_def
      posture_member_def E1_MEMBER_KINDS_def posture_sources_def source_row_def posture_row_def Let_def)

lemma sample_confirmation_passes: "check_confirmation_case name (sample_confirmation name) = Inr ()"
  unfolding check_confirmation_case_def sample_confirmation_def Let_def
  by (cases "name = ''update-confirmation-revision-a-warning''")
    (simp_all add: e1_expected_confirmation_posture_def E1_CONFIRMATION_BEHAVIOR_def require.simps)

lemma sample_signers_accepted:
  "validate_environments_source_signers_vectors any_config any_config ''to'' sample_signers = Inr ()"
proof -
  have 1: "check_cases (check_verification_case any_config) E1_VERIFICATION_CASES
      (JArr (map (\<lambda>n. JObj (sample_verification n)) E1_VERIFICATION_CASES)) l = Inr ()" for l
    using sample_verification_passes by (intro check_cases_map) (simp_all add: E1_VERIFICATION_CASES_def sample_verification_def sample_source_def)
  have 2: "check_cases (check_merge_case any_config) E1_MERGE_CASES (JArr (map (\<lambda>n. JObj (sample_merge n)) E1_MERGE_CASES)) l = Inr ()" for l
    using sample_merge_passes by (intro check_cases_map) (simp_all add: E1_MERGE_CASES_def sample_merge_def)
  have 3: "check_cases (check_signer_posture_case any_config) E1_POSTURE_CASES
      (JArr (map (\<lambda>n. JObj (sample_signer_posture n)) E1_POSTURE_CASES)) l = Inr ()" for l
    using sample_posture_passes by (intro check_cases_map) (simp_all add: E1_POSTURE_CASES_def sample_signer_posture_def)
  have 4: "check_cases (check_delta_case any_config ''to'') E1_DELTA_CASES (JArr (map (\<lambda>n. JObj (sample_delta n False)) E1_DELTA_CASES)) l = Inr ()" for l
    using sample_delta_passes by (intro check_cases_map) (simp_all add: E1_DELTA_CASES_def sample_delta_def)
  have 5: "check_cases (check_all_case any_config ''to'') E1_ALL_CASES (JArr (map (\<lambda>n. JObj (sample_all n (sample_flag n))) E1_ALL_CASES)) l = Inr ()" for l
    using sample_all_passes by (intro check_cases_map) (simp_all add: E1_ALL_CASES_def sample_all_def Let_def)
  have 6: "check_cases (check_reinstall_case any_config ''to'') E1_REINSTALL_CASES
      (JArr (map (\<lambda>n. JObj (sample_delta n (sample_flag n))) E1_REINSTALL_CASES)) l = Inr ()" for l
  proof (intro check_cases_map)
    fix n assume "n \<in> set E1_REINSTALL_CASES"
    then have "n \<notin> set E1_DELTA_NEGATIVE_CASES" by (auto simp: E1_REINSTALL_CASES_def E1_DELTA_NEGATIVE_CASES_def)
    then show "check_reinstall_case any_config ''to'' n (sample_delta n (sample_flag n)) = Inr ()" by (rule sample_reinstall_passes)
  qed (simp_all add: E1_REINSTALL_CASES_def sample_delta_def)
  have 7: "check_cases check_confirmation_case E1_CONFIRMATION_POSTURE_CASES
      (JArr (map (\<lambda>n. JObj (sample_confirmation n)) E1_CONFIRMATION_POSTURE_CASES)) l = Inr ()" for l
    using sample_confirmation_passes by (intro check_cases_map) (simp_all add: E1_CONFIRMATION_POSTURE_CASES_def sample_confirmation_def Let_def)
  show ?thesis
    unfolding validate_environments_source_signers_vectors_def
    by (simp add: sample_signers_def 1 2 3 4 5 6 7 require.simps)
qed

lemma sample_new_lock:
  "locks_of sample_locks [] [((''mcp'', ''search''), the_dict sample_member)]
     [(sample_pin, JObj [(''system_modules'', JArr []), (''mcp'', sample_server)])]"
  unfolding locks_of_def by code_simp

theorem signers_verified_witness:
  "let c = sample_verification ''no-silent-fallback-to-lower-candidate'' in
   \<not> source_admitted c \<and> jget (the_dict (jget c ''expected'')) ''selected'' = JNull"
proof -
  let ?c = "sample_verification ''no-silent-fallback-to-lower-candidate''"
  have c: "JObj ?c \<in> set (the_list (jget sample_signers ''verification_cases''))"
    by (simp add: sample_signers_def E1_VERIFICATION_CASES_def)
  have "jget ?c ''conforming'' \<noteq> jfalse" "jget ?c ''source_kind'' = JStr ''git''" "\<not> source_admitted ?c" by code_simp+
  with signers_verified [OF sample_signers_accepted c _ _ refl] show ?thesis by (simp add: Let_def)
qed

theorem delta_confirmed_witness:
  "let c = sample_delta ''new-mcp-member'' False in
   texts_in (jget (the_dict (jget c ''expected'')) ''trigger'') = [''search''] \<and>
   (\<exists>old new snapshots. locks_of c old new snapshots \<and> loud_members snapshots old new = {''search''})"
proof -
  let ?c = "sample_delta ''new-mcp-member'' False"
  have c: "JObj ?c \<in> set (the_list (jget sample_signers ''delta_cases''))"
    by (simp add: sample_signers_def E1_DELTA_CASES_def)
  have v: "jget ?c ''conforming'' \<noteq> jfalse" "texts_in (jget (the_dict (jget ?c ''expected'')) ''trigger'') = [''search'']" by code_simp+
  from delta_confirmed [OF sample_signers_accepted c v(1) refl] obtain old new snapshots where
    "locks_of ?c old new snapshots" "set (texts_in (jget (the_dict (jget ?c ''expected'')) ''trigger'')) = loud_members snapshots old new"
    by blast
  with v(2) show ?thesis unfolding Let_def by (metis list.set(1,2))
qed

theorem update_all_stops_witness:
  "let c = sample_all ''all-without-flag-stops-at-first-refusal'' False; wants = the_list (jget (the_dict (jget c ''expected'')) ''profiles'') in
   length wants = 2 \<and> jget (the_dict (last wants)) ''revision_b'' = JStr ''untouched''"
proof -
  let ?c = "sample_all ''all-without-flag-stops-at-first-refusal'' False"
  let ?ps = "the_list (jget ?c ''profiles'')" and ?ws = "the_list (jget (the_dict (jget ?c ''expected'')) ''profiles'')"
  have c: "JObj ?c \<in> set (the_list (jget sample_signers ''all_cases''))"
    by (simp add: sample_signers_def E1_ALL_CASES_def sample_flag_def)
  have flag: "jget ?c ''flag'' = jfalse" and len: "length ?ws = 2" and name: "jget (the_dict (hd ?ps)) ''profile'' \<noteq> JNull" by code_simp+
  have z: "zip ?ps ?ws = [] @ (hd ?ps, hd ?ws) # [(last ?ps, last ?ws)]" by (simp add: sample_all_def Let_def)
  have locks: "locks_of (the_dict (hd ?ps)) [] [((''mcp'', ''search''), the_dict sample_member)]
     [(sample_pin, JObj [(''system_modules'', JArr []), (''mcp'', sample_server)])]"
    using sample_new_lock by (simp add: sample_all_def Let_def locks_of_def sample_locks_def)
  have loud: "\<not> list_all (member_quiet [(sample_pin, JObj [(''system_modules'', JArr []), (''mcp'', sample_server)])] [])
      [((''mcp'', ''search''), the_dict sample_member)]"
    by (simp add: member_quiet_def)
  show ?thesis
    using update_all_stops [OF sample_signers_accepted c flag z name locks loud] len unfolding Let_def by simp
qed

end
