(* ===== verification/StoreBoundary.thy ===== *)
theory StoreBoundary
  imports Cases
begin

text \<open>
  The protected boundary of the environment store (environments.md sections 4, 8.4, 10.1, 10.4, 12;
  \<open>s5_*\<close> and \<open>validate_environments_store_boundary_vectors\<close> in
  \<open>tools/validate.py\<close>): the checks an object of the store passes, the order of the verdicts,
  the pins of the named cases, and what resolve, dry run, repair and status may do on an untrusted
  store.
\<close>

section \<open>The closed sets\<close>

definition S5_BOUNDARY_CHECKS :: "string list" where
  "S5_BOUNDARY_CHECKS = [''ownership'', ''permissions'', ''containment'', ''regular_types'', ''link_safety'']"

definition S5_OBJECTS :: "string list" where
  "S5_OBJECTS = [''environments-root'', ''store-root'', ''lock-file'', ''marker-file'', ''store-entry'']"

definition S5_ENCLOSING_OBJECTS :: "string list" where
  "S5_ENCLOSING_OBJECTS = [''environments-root'', ''store-root'']"

definition S5_SURFACES :: "string list" where
  "S5_SURFACES = [''system-prompt'', ''root-context'']"

definition S5_ENTRY_KINDS :: "string list" where
  "S5_ENTRY_KINDS = [''git'', ''path'', ''local'']"

definition S5_HOME_STATES :: "string list" where
  "S5_HOME_STATES = [''current'', ''stale-old-marker'', ''unprovisioned'', ''unreadable-marker'']"

definition S5_RESOLVE_NEGATIVE_CASES :: "string list" where
  "S5_RESOLVE_NEGATIVE_CASES = [''swapped-bytes-emits-fragment'', ''untrusted-reported-current'', ''untrusted-without-diagnostic'']"

definition S5_DRY_RUN_NEGATIVE_CASES :: "string list" where
  "S5_DRY_RUN_NEGATIVE_CASES = [''dry-run-mutates'']"

definition S5_REPAIR_NEGATIVE_CASES :: "string list" where
  "S5_REPAIR_NEGATIVE_CASES = [''repair-reapplies-untrusted'']"

definition S5_STATUS_NEGATIVE_CASES :: "string list" where
  "S5_STATUS_NEGATIVE_CASES = [''status-hides-failing-check'']"

text \<open>Each named case is pinned to the object and the check that fail, the home and the surface.\<close>

definition S5_RESOLVE_PIN :: "(string \<times> dict) list" where
  "S5_RESOLVE_PIN =
     [(''intact-resolve-emits-fragment'', [(''object'', JStr ''store-entry''), (''check'', JNull), (''home'', JStr ''current''), (''surface'', JNull)]),
      (''swapped-system-prompt-bytes-untrusted'', [(''object'', JStr ''store-entry''), (''check'', JStr ''pin_hash''), (''home'', JStr ''current''), (''surface'', JStr ''system-prompt'')]),
      (''swapped-root-context-bytes-untrusted'', [(''object'', JStr ''store-entry''), (''check'', JStr ''pin_hash''), (''home'', JStr ''current''), (''surface'', JStr ''root-context'')]),
      (''symlinked-entry-root-untrusted'', [(''object'', JStr ''store-entry''), (''check'', JStr ''link_safety''), (''home'', JStr ''current''), (''surface'', JNull)]),
      (''wrong-ownership-untrusted'', [(''object'', JStr ''store-entry''), (''check'', JStr ''ownership''), (''home'', JStr ''current''), (''surface'', JNull)]),
      (''wrong-permissions-untrusted'', [(''object'', JStr ''store-entry''), (''check'', JStr ''permissions''), (''home'', JStr ''current''), (''surface'', JNull)]),
      (''containment-escape-untrusted'', [(''object'', JStr ''store-entry''), (''check'', JStr ''containment''), (''home'', JStr ''current''), (''surface'', JNull)]),
      (''non-regular-component-untrusted'', [(''object'', JStr ''store-entry''), (''check'', JStr ''regular_types''), (''home'', JStr ''current''), (''surface'', JNull)]),
      (''lock-file-wrong-owner-untrusted'', [(''object'', JStr ''lock-file''), (''check'', JStr ''ownership''), (''home'', JStr ''current''), (''surface'', JNull)]),
      (''marker-symlink-untrusted'', [(''object'', JStr ''marker-file''), (''check'', JStr ''link_safety''), (''home'', JStr ''current''), (''surface'', JNull)]),
      (''environments-root-wrong-owner-untrusted'', [(''object'', JStr ''environments-root''), (''check'', JStr ''ownership''), (''home'', JStr ''current''), (''surface'', JNull)]),
      (''store-root-symlinked-untrusted'', [(''object'', JStr ''store-root''), (''check'', JStr ''link_safety''), (''home'', JStr ''current''), (''surface'', JNull)]),
      (''intact-updated-store-old-marker-stale'', [(''object'', JStr ''store-entry''), (''check'', JStr ''home_currency''), (''home'', JStr ''stale-old-marker''), (''surface'', JNull)]),
      (''swapped-updated-store-old-marker-untrusted'', [(''object'', JStr ''store-entry''), (''check'', JStr ''pin_hash''), (''home'', JStr ''stale-old-marker''), (''surface'', JStr ''system-prompt'')]),
      (''unprovisioned-intact-stale'', [(''object'', JStr ''store-entry''), (''check'', JNull), (''home'', JStr ''unprovisioned''), (''surface'', JNull)]),
      (''unprovisioned-swapped-untrusted'', [(''object'', JStr ''store-entry''), (''check'', JStr ''pin_hash''), (''home'', JStr ''unprovisioned''), (''surface'', JStr ''root-context'')]),
      (''unreadable-marker-non-current'', [(''object'', JStr ''marker-file''), (''check'', JNull), (''home'', JStr ''unreadable-marker''), (''surface'', JNull)]),
      (''swapped-bytes-emits-fragment'', [(''object'', JStr ''store-entry''), (''check'', JStr ''pin_hash''), (''home'', JStr ''current''), (''surface'', JStr ''system-prompt'')]),
      (''untrusted-reported-current'', [(''object'', JStr ''store-entry''), (''check'', JStr ''ownership''), (''home'', JStr ''current''), (''surface'', JNull)]),
      (''untrusted-without-diagnostic'', [(''object'', JStr ''store-entry''), (''check'', JStr ''link_safety''), (''home'', JStr ''current''), (''surface'', JNull)])]"

definition S5_DRY_RUN_PIN :: "(string \<times> dict) list" where
  "S5_DRY_RUN_PIN =
     [(''dry-run-untrusted-reports-would-rebuild'', [(''object'', JStr ''store-entry''), (''check'', JStr ''ownership''), (''home'', JStr ''current''), (''surface'', JNull)]),
      (''dry-run-intact-plans-nothing'', [(''object'', JStr ''store-entry''), (''check'', JNull), (''home'', JStr ''current''), (''surface'', JNull)]),
      (''dry-run-enclosing-no-rebuild'', [(''object'', JStr ''store-root''), (''check'', JStr ''ownership''), (''home'', JStr ''current''), (''surface'', JNull)]),
      (''dry-run-mutates'', [(''object'', JStr ''store-entry''), (''check'', JStr ''ownership''), (''home'', JStr ''current''), (''surface'', JNull)])]"

definition S5_REPAIR_PIN :: "(string \<times> dict) list" where
  "S5_REPAIR_PIN =
     [(''repair-rebuilds-git-entry-from-snapshot'', [(''object'', JStr ''store-entry''), (''check'', JStr ''pin_hash''), (''kind'', JStr ''git''), (''home'', JStr ''current''), (''surface'', JStr ''system-prompt'')]),
      (''repair-path-entry-cannot-rebuild'', [(''object'', JStr ''store-entry''), (''check'', JStr ''ownership''), (''kind'', JStr ''path''), (''home'', JStr ''current''), (''surface'', JNull)]),
      (''repair-local-entry-cannot-rebuild'', [(''object'', JStr ''store-entry''), (''check'', JStr ''permissions''), (''kind'', JStr ''local''), (''home'', JStr ''current''), (''surface'', JNull)]),
      (''repair-rebuilds-entry-boundary-failure'', [(''object'', JStr ''store-entry''), (''check'', JStr ''ownership''), (''kind'', JStr ''git''), (''home'', JStr ''current''), (''surface'', JNull)]),
      (''repair-enclosing-refuses-no-rebuild'', [(''object'', JStr ''store-root''), (''check'', JStr ''ownership''), (''kind'', JStr ''git''), (''home'', JStr ''current''), (''surface'', JNull)]),
      (''repair-stale-old-marker-succeeds'', [(''object'', JStr ''store-entry''), (''check'', JNull), (''kind'', JStr ''git''), (''home'', JStr ''stale-old-marker''), (''surface'', JNull)]),
      (''repair-swapped-old-marker-never-adopted'', [(''object'', JStr ''store-entry''), (''check'', JStr ''pin_hash''), (''kind'', JStr ''git''), (''home'', JStr ''stale-old-marker''), (''surface'', JStr ''system-prompt'')]),
      (''repair-unprovisioned-intact-provisions'', [(''object'', JStr ''store-entry''), (''check'', JNull), (''kind'', JStr ''git''), (''home'', JStr ''unprovisioned''), (''surface'', JNull)]),
      (''repair-unprovisioned-swapped-rebuilds'', [(''object'', JStr ''store-entry''), (''check'', JStr ''pin_hash''), (''kind'', JStr ''git''), (''home'', JStr ''unprovisioned''), (''surface'', JStr ''root-context'')]),
      (''repair-reapplies-untrusted'', [(''object'', JStr ''store-entry''), (''check'', JStr ''ownership''), (''kind'', JStr ''git''), (''home'', JStr ''current''), (''surface'', JNull)])]"

definition S5_STATUS_PIN :: "(string \<times> dict) list" where
  "S5_STATUS_PIN =
     [(''status-intact-current'', [(''object'', JStr ''store-entry''), (''check'', JNull), (''home'', JStr ''current''), (''surface'', JNull)]),
      (''status-names-failing-check'', [(''object'', JStr ''store-entry''), (''check'', JStr ''ownership''), (''home'', JStr ''current''), (''surface'', JNull)]),
      (''status-enclosing-names-boundary'', [(''object'', JStr ''store-root''), (''check'', JStr ''ownership''), (''home'', JStr ''current''), (''surface'', JNull)]),
      (''status-hides-failing-check'', [(''object'', JStr ''store-entry''), (''check'', JStr ''ownership''), (''home'', JStr ''current''), (''surface'', JNull)])]"

section \<open>Reading a case\<close>

definition s5_check_inputs :: "dict \<Rightarrow> unit res" where
  "s5_check_inputs c = require (map (\<lambda>k. (is_bool (jget c k), fail (k @ '' must be a boolean''))) (S5_BOUNDARY_CHECKS @ [''pin_hash_match'']))"

definition s5_check_home :: "dict \<Rightarrow> unit res" where
  "s5_check_home c = guard (str_in (jget c ''home'') S5_HOME_STATES) (fail ''home must be one of'')"

text \<open>The checks that fail, in order, the pin hash last; the store is trusted when there are none.\<close>

definition s5_store_trusted :: "dict \<Rightarrow> string list" where
  "s5_store_trusted c =
     filter (\<lambda>k. jget c k \<noteq> jtrue) S5_BOUNDARY_CHECKS @ (if jget c ''pin_hash_match'' \<noteq> jtrue then [''pin_hash''] else [])"

text \<open>A modelled swap breaks the pin hash of a store entry, and only a swap does.\<close>

definition s5_check_swap_shape :: "dict \<Rightarrow> unit res" where
  "s5_check_swap_shape c =
     (let surface = jget c ''surface''; intact = (jget c ''pin_hash_match'' = jtrue); entry = (jget c ''object'' = JStr ''store-entry'') in
      require
        [(surface = JNull \<longrightarrow> intact, fail ''a pin mismatch without a swap needs its surface''),
         (surface \<noteq> JNull \<longrightarrow> str_in surface S5_SURFACES, fail ''surface must be system-prompt, root-context, or null''),
         (surface \<noteq> JNull \<longrightarrow> \<not> intact, fail ''a modeled swap breaks the pin hash''),
         (surface \<noteq> JNull \<longrightarrow> entry, fail ''a modeled swap lives on a store entry''),
         (\<not> entry \<longrightarrow> intact, fail ''only a store entry carries a pin hash'')])"

definition s5_check_pin :: "dict \<Rightarrow> dict \<Rightarrow> string list \<Rightarrow> unit res" where
  "s5_check_pin pin c failing =
     (let want = jget pin ''check''; home = jget c ''home'' in
      require
        [(py_eq (jget c ''object'') (jget pin ''object''), fail ''object is not the one of this branch''),
         (py_eq home (jget pin ''home''), fail ''home is not the one of this branch''),
         (py_eq (jget c ''surface'') (jget pin ''surface''), fail ''surface is not the one of this branch''),
         (want = JNull \<longrightarrow> failing = [], fail ''this branch models no failing store check''),
         (want = JStr ''home_currency'' \<longrightarrow> failing = [], fail ''this branch models intact store with a stale marker''),
         (want = JStr ''home_currency'' \<longrightarrow> home = JStr ''stale-old-marker'', fail ''home currency fails only for a stale old marker''),
         (want \<notin> {JNull, JStr ''home_currency''} \<longrightarrow> str_in want failing, fail ''this branch must fail its check''),
         (want \<notin> {JNull, JStr ''home_currency''} \<longrightarrow> length failing = 1, fail ''this branch isolates exactly its failing check'')])"

text \<open>What every case list reads first; the result is the list of failing checks.\<close>

definition s5_read :: "(string \<times> dict) list \<Rightarrow> string \<Rightarrow> dict \<Rightarrow> string list res" where
  "s5_read table name c =
     and_then (guard (str_in (jget c ''object'') S5_OBJECTS) (fail ''object must be one of'')) (\<lambda>_.
     and_then (s5_check_inputs c) (\<lambda>_.
     and_then (s5_check_home c) (\<lambda>_.
     and_then (s5_check_swap_shape c) (\<lambda>_.
     and_then (pinned table name) (\<lambda>pin.
     and_then (s5_check_pin pin c (s5_store_trusted c)) (\<lambda>_.
     Inr (s5_store_trusted c)))))))"

definition enclosing :: "dict \<Rightarrow> bool" where
  "enclosing c \<longleftrightarrow> str_in (jget c ''object'') S5_ENCLOSING_OBJECTS"

section \<open>Resolve\<close>

text \<open>Diagnostic and named check; a case without a diagnostic emits its fragment and is current.\<close>

definition resolve_verdict :: "string list \<Rightarrow> json \<Rightarrow> string option \<times> string option" where
  "resolve_verdict failing home =
     (if failing \<noteq> [] then (Some ''environment_store_untrusted'', if length failing = 1 then Some (hd failing) else None)
      else if home = JStr ''stale-old-marker'' then (Some ''environment_home_stale'', Some ''home_currency'')
      else if home = JStr ''unprovisioned'' then (Some ''environment_home_stale'', None)
      else if home = JStr ''unreadable-marker'' then (Some ''environment_marker_unreadable'', None)
      else (None, None))"

definition check_resolve_case :: "string \<Rightarrow> dict \<Rightarrow> unit res" where
  "check_resolve_case name c =
     and_then (s5_read S5_RESOLVE_PIN name c) (\<lambda>failing.
     let (diagnostic, check) = resolve_verdict failing (jget c ''home'');
         says = (jget c ''diagnostic'' = jopt diagnostic); emits = (jget c ''fragment_emitted'' = JBool (diagnostic = None));
         current = (jget c ''row_current'' = JBool (diagnostic = None)) in
     if name \<in> set S5_RESOLVE_NEGATIVE_CASES then check_negative c (\<not> (says \<and> emits \<and> current))
     else require
       [(jget c ''conforming'' \<noteq> jfalse, fail ''a positive case must not carry conforming=false''),
        (says, fail ''diagnostic is not the 10.1 rule''), (emits, fail ''fragment verdict is not the 10.1 rule''),
        (current, fail ''currency is not the 10.1 rule''),
        (jget c ''failing_check'' = jopt check, fail ''failing_check is not the 10.1 rule'')])"

section \<open>Dry run\<close>

definition dry_run_outcome :: "dict \<Rightarrow> string list \<Rightarrow> string option" where
  "dry_run_outcome c failing = (if failing = [] \<or> enclosing c then None else Some ''would-rebuild-untrusted-store'')"

definition check_dry_run_store_case :: "string \<Rightarrow> dict \<Rightarrow> unit res" where
  "check_dry_run_store_case name c =
     and_then (s5_read S5_DRY_RUN_PIN name c) (\<lambda>failing.
     let says = (jget c ''outcome'' = jopt (dry_run_outcome c failing)) in
     if name \<in> set S5_DRY_RUN_NEGATIVE_CASES then check_negative c (\<not> (jget c ''mutated'' \<noteq> jtrue \<and> says))
     else require
       [(jget c ''conforming'' \<noteq> jfalse, fail ''a positive case must not carry conforming=false''),
        (says, fail ''outcome is not the section 4 dry-run rule''),
        (jget c ''mutated'' = jfalse, fail ''dry-run evaluation mutates nothing'')])"

section \<open>Repair\<close>

definition check_enclosing_repair :: "dict \<Rightarrow> string list \<Rightarrow> unit res" where
  "check_enclosing_repair c failing =
     require
       [(failing \<noteq> [], fail ''an enclosing repair case starts from an unproven boundary''),
        (jget c ''rebuilt_from_snapshot'' = jfalse, fail ''an enclosing failure is never rebuilt''),
        (jget c ''diagnostic'' = JStr ''environment_store_untrusted'' \<and> jget c ''fragment_emitted'' = jfalse,
         fail ''an enclosing failure refuses with no fragment'')]"

definition check_entry_repair :: "dict \<Rightarrow> unit res" where
  "check_entry_repair c =
     (let git = (jget c ''entry_kind'' = JStr ''git'') in
      require
        [((jget c ''rebuilt_from_snapshot'' = jtrue) = git, fail ''only a git entry rebuilds from the revalidated snapshot''),
         (git \<longrightarrow> jget c ''diagnostic'' = JNull \<and> jget c ''fragment_emitted'' = jtrue, fail ''a rebuilt git entry resolves''),
         (\<not> git \<longrightarrow> jget c ''diagnostic'' = JStr ''environment_repair_failed'' \<and> jget c ''fragment_emitted'' = jfalse,
          fail ''an unrebuildable entry fails repair without a fragment'')])"

definition check_trusted_repair :: "dict \<Rightarrow> unit res" where
  "check_trusted_repair c =
     require
       [(str_in (jget c ''home'') [''stale-old-marker'', ''unprovisioned''], fail ''a trusted-store repair starts from a stale or unprovisioned home''),
        (jget c ''rebuilt_from_snapshot'' = jfalse, fail ''a verified store needs no rebuild''),
        (jget c ''diagnostic'' = JNull \<and> jget c ''fragment_emitted'' = jtrue, fail ''repair from a verified store resolves'')]"

definition check_repair_case :: "string \<Rightarrow> dict \<Rightarrow> unit res" where
  "check_repair_case name c =
     and_then (guard (str_in (jget c ''entry_kind'') S5_ENTRY_KINDS) (fail ''entry_kind must be git, path, or local'')) (\<lambda>_.
     and_then (pinned S5_REPAIR_PIN name) (\<lambda>pin.
     and_then (guard (py_eq (jget c ''entry_kind'') (jget pin ''kind'')) (fail ''entry_kind is not the one of this branch'')) (\<lambda>_.
     and_then (s5_read S5_REPAIR_PIN name c) (\<lambda>failing.
     if name \<in> set S5_REPAIR_NEGATIVE_CASES then check_negative c (\<not> (failing = [] \<or> jget c ''reapplied_before_trust'' \<noteq> jtrue))
     else
       and_then (require
         [(jget c ''conforming'' \<noteq> jfalse, fail ''a positive case must not carry conforming=false''),
          (jget c ''reapplied_before_trust'' = jfalse, fail ''a non-trusted entry is never re-applied'')]) (\<lambda>_.
       if enclosing c then check_enclosing_repair c failing
       else if failing \<noteq> [] then check_entry_repair c else check_trusted_repair c)))))"

section \<open>Status\<close>

definition check_status_case :: "string \<Rightarrow> dict \<Rightarrow> unit res" where
  "check_status_case name c =
     and_then (s5_read S5_STATUS_PIN name c) (\<lambda>failing.
     let trusted = (failing = []); names = jget c ''names_failing_check'';
         says = (jget c ''diagnostic'' = (if trusted then JNull else JStr ''environment_store_untrusted''));
         current = (jget c ''row_current'' = JBool trusted) in
     if name \<in> set S5_STATUS_NEGATIVE_CASES then check_negative c (\<not> (says \<and> current \<and> (str_in names failing \<or> trusted)))
     else require
       [(jget c ''conforming'' \<noteq> jfalse, fail ''a positive case must not carry conforming=false''),
        (says, fail ''diagnostic is not the section 12 rule''), (current, fail ''an untrusted profile is non-current''),
        (trusted \<longrightarrow> names = JNull, fail ''a trusted row names no failing check''),
        (\<not> trusted \<longrightarrow> str_in names failing, fail ''the status row names the failing check'')])"

section \<open>The gate\<close>

definition validate_environments_store_boundary_vectors :: "dict \<Rightarrow> unit res" where
  "validate_environments_store_boundary_vectors vector =
     (let ds = jget vector ''diagnostics''; code = jget (the_dict ds) in
      and_then (require
        [(jget vector ''capability'' = JStr ''agent-environments'' \<and> py_eq (jget vector ''capability_revision'') (JInt 1),
          fail ''store-boundary vector has the wrong capability identity''),
         (is_dict ds \<and> code ''store_untrusted'' = JStr ''environment_store_untrusted'' \<and>
          code ''dry_run_outcome'' = JStr ''would-rebuild-untrusted-store'' \<and> code ''repair_failed'' = JStr ''environment_repair_failed'' \<and>
          code ''home_stale'' = JStr ''environment_home_stale'' \<and> code ''marker_unreadable'' = JStr ''environment_marker_unreadable'',
          fail ''store-boundary diagnostics must pin the five codes'')]) (\<lambda>_.
      and_then (check_cases check_resolve_case (map fst S5_RESOLVE_PIN) (jget vector ''resolve_cases'') ''store-boundary resolve'') (\<lambda>_.
      and_then (check_cases check_dry_run_store_case (map fst S5_DRY_RUN_PIN) (jget vector ''dry_run_cases'') ''store-boundary dry-run'') (\<lambda>_.
      and_then (check_cases check_repair_case (map fst S5_REPAIR_PIN) (jget vector ''repair_cases'') ''store-boundary repair'') (\<lambda>_.
      check_cases check_status_case (map fst S5_STATUS_PIN) (jget vector ''status_cases'') ''store-boundary status'')))))"

section \<open>What acceptance shows\<close>

text \<open>The store of a case is trusted: every boundary check and the pin hash pass.\<close>

definition store_intact :: "dict \<Rightarrow> bool" where
  "store_intact c \<longleftrightarrow> list_all (\<lambda>k. jget c k = jtrue) (S5_BOUNDARY_CHECKS @ [''pin_hash_match''])"

lemma failing_exact: "s5_check_inputs c = Inr () \<Longrightarrow> s5_store_trusted c = [] \<longleftrightarrow> store_intact c"
  by (auto simp: s5_check_inputs_def s5_store_trusted_def store_intact_def filter_empty_conv list_all_iff)

lemma read_failing:
  assumes "s5_read table name c = Inr failing"
  shows "failing = [] \<longleftrightarrow> store_intact c" "str_in (jget c ''home'') S5_HOME_STATES"
  using assms failing_exact by (auto simp: s5_read_def s5_check_home_def and_then_ok_iff)

lemma store_resolve_sound:
  assumes "check_resolve_case name c = Inr ()" "jget c ''conforming'' \<noteq> jfalse"
  shows "(jget c ''fragment_emitted'' = jtrue \<longleftrightarrow> store_intact c \<and> jget c ''home'' = JStr ''current'') \<and>
    jget c ''row_current'' = jget c ''fragment_emitted'' \<and>
    (jget c ''diagnostic'' = JStr ''environment_store_untrusted'' \<longleftrightarrow> \<not> store_intact c) \<and>
    (jget c ''diagnostic'' = JNull \<longleftrightarrow> jget c ''fragment_emitted'' = jtrue)"
proof -
  obtain failing where r: "s5_read S5_RESOLVE_PIN name c = Inr failing"
    using assms(1) by (auto simp: check_resolve_case_def and_then_ok_iff)
  obtain diagnostic check where v: "resolve_verdict failing (jget c ''home'') = (diagnostic, check)" by fastforce
  have "name \<notin> set S5_RESOLVE_NEGATIVE_CASES"
    using assms not_negative by (auto simp: check_resolve_case_def r v)
  with assms(1) have o': "jget c ''diagnostic'' = jopt diagnostic" "jget c ''fragment_emitted'' = JBool (diagnostic = None)"
    "jget c ''row_current'' = JBool (diagnostic = None)"
    by (auto simp: check_resolve_case_def r v)
  have "diagnostic = None \<longleftrightarrow> store_intact c \<and> jget c ''home'' = JStr ''current''"
    using v read_failing(1,2) [OF r] by (auto simp: resolve_verdict_def S5_HOME_STATES_def str_in_iff split: if_splits)
  moreover have "diagnostic = Some ''environment_store_untrusted'' \<longleftrightarrow> \<not> store_intact c"
    using v read_failing(1) [OF r] by (auto simp: resolve_verdict_def split: if_splits)
  ultimately show ?thesis using o' by (cases diagnostic) auto
qed

lemma dry_run_sound:
  assumes "check_dry_run_store_case name c = Inr ()" "jget c ''conforming'' \<noteq> jfalse"
  shows "jget c ''mutated'' = jfalse \<and> (jget c ''outcome'' = JStr ''would-rebuild-untrusted-store'' \<longleftrightarrow> \<not> store_intact c \<and> \<not> enclosing c)"
proof -
  obtain failing where r: "s5_read S5_DRY_RUN_PIN name c = Inr failing"
    using assms(1) by (auto simp: check_dry_run_store_case_def and_then_ok_iff)
  have "name \<notin> set S5_DRY_RUN_NEGATIVE_CASES"
    using assms not_negative by (auto simp: check_dry_run_store_case_def r)
  with assms(1) have "jget c ''outcome'' = jopt (dry_run_outcome c failing)" "jget c ''mutated'' = jfalse"
    by (auto simp: check_dry_run_store_case_def r)
  with read_failing(1) [OF r] show ?thesis by (auto simp: dry_run_outcome_def)
qed

lemma repair_sound:
  assumes "check_repair_case name c = Inr ()" "jget c ''conforming'' \<noteq> jfalse"
  shows "jget c ''reapplied_before_trust'' = jfalse \<and>
    (jget c ''rebuilt_from_snapshot'' = jtrue \<longleftrightarrow> \<not> store_intact c \<and> \<not> enclosing c \<and> jget c ''entry_kind'' = JStr ''git'') \<and>
    (jget c ''fragment_emitted'' = jtrue \<longleftrightarrow> store_intact c \<or> jget c ''rebuilt_from_snapshot'' = jtrue)"
proof -
  obtain failing where r: "s5_read S5_REPAIR_PIN name c = Inr failing"
    using assms(1) by (auto simp: check_repair_case_def and_then_ok_iff)
  have "name \<notin> set S5_REPAIR_NEGATIVE_CASES"
    using assms not_negative by (auto simp: check_repair_case_def r and_then_ok_iff)
  with assms(1) have "jget c ''reapplied_before_trust'' = jfalse"
    and k: "(if enclosing c then check_enclosing_repair c failing else if failing \<noteq> [] then check_entry_repair c else check_trusted_repair c) = Inr ()"
    by (auto simp: check_repair_case_def r and_then_ok_iff)
  then show ?thesis using read_failing(1) [OF r]
    by (auto simp: check_enclosing_repair_def check_entry_repair_def check_trusted_repair_def Let_def split: if_splits)
qed

lemma status_sound:
  assumes "check_status_case name c = Inr ()" "jget c ''conforming'' \<noteq> jfalse"
  shows "(jget c ''row_current'' = jtrue \<longleftrightarrow> store_intact c) \<and> (jget c ''diagnostic'' = JNull \<longleftrightarrow> store_intact c) \<and>
    (jget c ''names_failing_check'' = JNull \<longleftrightarrow> store_intact c)"
proof -
  obtain failing where r: "s5_read S5_STATUS_PIN name c = Inr failing"
    using assms(1) by (auto simp: check_status_case_def and_then_ok_iff)
  have "name \<notin> set S5_STATUS_NEGATIVE_CASES"
    using assms not_negative by (auto simp: check_status_case_def r Let_def)
  with assms(1) read_failing(1) [OF r] show ?thesis
    by (auto simp: check_status_case_def r Let_def)
qed

text \<open>
  C19: an untrusted store is never used.  Among the conforming cases of a vector the gate accepts, a
  resolve emits a fragment, and counts as current, exactly when every boundary check and the pin hash
  pass and the home is current, and an untrusted store outranks any state of the home; a dry run
  mutates nothing and would rebuild exactly an untrusted object below the enclosing roots; a repair
  applies nothing before trust, rebuilds exactly the untrusted git entries outside the enclosing objects,
  and emits a fragment exactly from an intact store, whatever the state of its home, or after a rebuild;
  and the status is current exactly for an intact store.
\<close>

theorem store_boundary_sound:
  assumes "validate_environments_store_boundary_vectors vector = Inr ()"
  shows "(\<forall>c. JObj c \<in> set (the_list (jget vector ''resolve_cases'')) \<and> jget c ''conforming'' \<noteq> jfalse \<longrightarrow>
       (jget c ''fragment_emitted'' = jtrue \<longleftrightarrow> store_intact c \<and> jget c ''home'' = JStr ''current'') \<and>
       jget c ''row_current'' = jget c ''fragment_emitted'' \<and>
       (jget c ''diagnostic'' = JStr ''environment_store_untrusted'' \<longleftrightarrow> \<not> store_intact c) \<and>
       (jget c ''diagnostic'' = JNull \<longleftrightarrow> jget c ''fragment_emitted'' = jtrue)) \<and>
    (\<forall>c. JObj c \<in> set (the_list (jget vector ''dry_run_cases'')) \<and> jget c ''conforming'' \<noteq> jfalse \<longrightarrow>
       jget c ''mutated'' = jfalse \<and> (jget c ''outcome'' = JStr ''would-rebuild-untrusted-store'' \<longleftrightarrow> \<not> store_intact c \<and> \<not> enclosing c)) \<and>
    (\<forall>c. JObj c \<in> set (the_list (jget vector ''repair_cases'')) \<and> jget c ''conforming'' \<noteq> jfalse \<longrightarrow>
       jget c ''reapplied_before_trust'' = jfalse \<and>
       (jget c ''rebuilt_from_snapshot'' = jtrue \<longleftrightarrow> \<not> store_intact c \<and> \<not> enclosing c \<and> jget c ''entry_kind'' = JStr ''git'') \<and>
       (jget c ''fragment_emitted'' = jtrue \<longleftrightarrow> store_intact c \<or> jget c ''rebuilt_from_snapshot'' = jtrue)) \<and>
    (\<forall>c. JObj c \<in> set (the_list (jget vector ''status_cases'')) \<and> jget c ''conforming'' \<noteq> jfalse \<longrightarrow>
       (jget c ''row_current'' = jtrue \<longleftrightarrow> store_intact c) \<and> (jget c ''diagnostic'' = JNull \<longleftrightarrow> store_intact c) \<and>
       (jget c ''names_failing_check'' = JNull \<longleftrightarrow> store_intact c))"
proof -
  have r: "check_cases check_resolve_case (map fst S5_RESOLVE_PIN) (jget vector ''resolve_cases'') ''store-boundary resolve'' = Inr ()"
    and d: "check_cases check_dry_run_store_case (map fst S5_DRY_RUN_PIN) (jget vector ''dry_run_cases'') ''store-boundary dry-run'' = Inr ()"
    and p: "check_cases check_repair_case (map fst S5_REPAIR_PIN) (jget vector ''repair_cases'') ''store-boundary repair'' = Inr ()"
    and s: "check_cases check_status_case (map fst S5_STATUS_PIN) (jget vector ''status_cases'') ''store-boundary status'' = Inr ()"
    using assms unfolding validate_environments_store_boundary_vectors_def Let_def and_then_ok_iff by auto
  show ?thesis
    by (intro conjI allI impI; elim conjE)
      (meson checked [OF r] store_resolve_sound checked [OF d] dry_run_sound checked [OF p] repair_sound checked [OF s] status_sound)+
qed

section \<open>A vector the gate accepts\<close>

text \<open>The inputs a pin asks for, and the observations of the model's own verdicts; the negatives claim the opposite.\<close>

definition sample_s5_inputs :: "string \<Rightarrow> dict \<Rightarrow> dict" where
  "sample_s5_inputs n pin =
     [(''name'', JStr n), (''object'', jget pin ''object''), (''home'', jget pin ''home''), (''surface'', jget pin ''surface''),
      (''entry_kind'', jget pin ''kind'')] @
     map (\<lambda>k. (k, JBool (jget pin ''check'' \<noteq> JStr k))) S5_BOUNDARY_CHECKS @
     [(''pin_hash_match'', JBool (jget pin ''check'' \<noteq> JStr ''pin_hash''))]"

definition sample_s5_negative :: "dict" where
  "sample_s5_negative = [(''conforming'', jfalse), (''reason'', JStr ''observed'')]"

definition sample_s5_failing :: "dict \<Rightarrow> string list" where
  "sample_s5_failing pin = (if jget pin ''check'' \<in> {JNull, JStr ''home_currency''} then [] else [the_str (jget pin ''check'')])"

definition sample_s5_resolve :: "string \<times> dict \<Rightarrow> json" where
  "sample_s5_resolve np =
     (let v = resolve_verdict (sample_s5_failing (snd np)) (jget (snd np) ''home''); d = fst v in
      JObj (sample_s5_inputs (fst np) (snd np) @
        (if fst np \<in> set S5_RESOLVE_NEGATIVE_CASES
         then sample_s5_negative @ [(''diagnostic'', JNull), (''fragment_emitted'', jtrue), (''row_current'', jtrue)]
         else [(''diagnostic'', jopt d), (''fragment_emitted'', JBool (d = None)), (''row_current'', JBool (d = None)),
               (''failing_check'', jopt (snd v))])))"

definition sample_s5_dry_run :: "string \<times> dict \<Rightarrow> json" where
  "sample_s5_dry_run np =
     (let c = sample_s5_inputs (fst np) (snd np) in
      JObj (c @ (''outcome'', jopt (dry_run_outcome c (sample_s5_failing (snd np)))) #
        (if fst np \<in> set S5_DRY_RUN_NEGATIVE_CASES then sample_s5_negative @ [(''mutated'', jtrue)] else [(''mutated'', jfalse)])))"

definition sample_s5_repair :: "string \<times> dict \<Rightarrow> json" where
  "sample_s5_repair np =
     (let c = sample_s5_inputs (fst np) (snd np); failing = sample_s5_failing (snd np); git = (jget c ''entry_kind'' = JStr ''git'');
          rebuilt = (failing \<noteq> [] \<and> \<not> enclosing c \<and> git); emits = (failing = [] \<or> rebuilt) in
      JObj (c @ [(''rebuilt_from_snapshot'', JBool rebuilt), (''fragment_emitted'', JBool emits),
        (''diagnostic'', if emits then JNull else JStr (if enclosing c then ''environment_store_untrusted'' else ''environment_repair_failed''))] @
        (if fst np \<in> set S5_REPAIR_NEGATIVE_CASES then sample_s5_negative @ [(''reapplied_before_trust'', jtrue)]
         else [(''reapplied_before_trust'', jfalse)])))"

definition sample_s5_status :: "string \<times> dict \<Rightarrow> json" where
  "sample_s5_status np =
     (let failing = sample_s5_failing (snd np) in
      JObj (sample_s5_inputs (fst np) (snd np) @
        [(''diagnostic'', if failing = [] then JNull else JStr ''environment_store_untrusted''), (''row_current'', JBool (failing = []))] @
        (if fst np \<in> set S5_STATUS_NEGATIVE_CASES then sample_s5_negative @ [(''names_failing_check'', JNull)]
         else [(''names_failing_check'', if failing = [] then JNull else JStr (hd failing))])))"

definition sample_store_vector :: "dict" where
  "sample_store_vector =
     [(''capability'', JStr ''agent-environments''), (''capability_revision'', JInt 1),
      (''diagnostics'', JObj
        [(''store_untrusted'', JStr ''environment_store_untrusted''), (''dry_run_outcome'', JStr ''would-rebuild-untrusted-store''),
         (''repair_failed'', JStr ''environment_repair_failed''), (''home_stale'', JStr ''environment_home_stale''),
         (''marker_unreadable'', JStr ''environment_marker_unreadable'')]),
      (''resolve_cases'', JArr (map sample_s5_resolve S5_RESOLVE_PIN)), (''dry_run_cases'', JArr (map sample_s5_dry_run S5_DRY_RUN_PIN)),
      (''repair_cases'', JArr (map sample_s5_repair S5_REPAIR_PIN)), (''status_cases'', JArr (map sample_s5_status S5_STATUS_PIN))]"

text \<open>Cases built from the pins pass when each does.\<close>

lemma check_pinned_cases:
  assumes "distinct (map fst table)" "[] \<notin> set (map fst table)"
    "list_all (\<lambda>np. is_dict (f np) \<and> jget (the_dict (f np)) ''name'' = JStr (fst np) \<and> check (fst np) (the_dict (f np)) = Inr ()) table"
  shows "check_cases check (map fst table) (JArr (map f table)) label = Inr ()"
proof -
  let ?g = "\<lambda>n. the_dict (f (n, the (map_of table n)))"
  have g: "f np = JObj (?g (fst np))" if "np \<in> set table" for np
  proof -
    have "map_of table (fst np) = Some (snd np)" using assms(1) that by simp
    moreover have "is_dict (f np)" using assms(3) that by (auto simp: list_all_iff)
    ultimately show ?thesis by (cases "f np") auto
  qed
  then have "map f table = map (\<lambda>n. JObj (?g n)) (map fst table)" by simp
  moreover have "check_cases check (map fst table) (JArr (map (\<lambda>n. JObj (?g n)) (map fst table))) label = Inr ()"
  proof (rule check_cases_map [OF assms(1,2)])
    fix n assume "n \<in> set (map fst table)"
    then obtain np where np: "np \<in> set table" "n = fst np" by auto
    with g have "the_dict (f np) = ?g n" by simp
    with assms(3) np show "jget (?g n) ''name'' = JStr n" "check n (?g n) = Inr ()" by (auto simp: list_all_iff)
  qed
  ultimately show ?thesis by (simp only:)
qed

text \<open>The inputs a pin can ask for.\<close>

definition pin_ok :: "dict \<Rightarrow> bool" where
  "pin_ok pin \<longleftrightarrow> str_in (jget pin ''object'') S5_OBJECTS \<and> str_in (jget pin ''home'') S5_HOME_STATES \<and>
     (jget pin ''check'' = JNull \<or> jget pin ''check'' = JStr ''home_currency'' \<and> jget pin ''home'' = JStr ''stale-old-marker'' \<or>
      str_in (jget pin ''check'') (S5_BOUNDARY_CHECKS @ [''pin_hash''])) \<and>
     (if jget pin ''check'' = JStr ''pin_hash'' then str_in (jget pin ''surface'') S5_SURFACES \<and> jget pin ''object'' = JStr ''store-entry''
      else jget pin ''surface'' = JNull)"

lemma py_eq_str_in: "str_in v ss \<Longrightarrow> py_eq v v"
  by (auto simp: str_in_iff)

lemma sample_s5_read:
  assumes pin: "map_of table n = Some pin" and ok: "pin_ok pin"
  shows "s5_read table n (sample_s5_inputs n pin @ more) = Inr (sample_s5_failing pin)"
proof -
  let ?c = "sample_s5_inputs n pin @ more"
  have get: "jget ?c ''object'' = jget pin ''object''" "jget ?c ''home'' = jget pin ''home''" "jget ?c ''surface'' = jget pin ''surface''"
      "jget ?c ''pin_hash_match'' = JBool (jget pin ''check'' \<noteq> JStr ''pin_hash'')"
    and checks: "\<And>k. k \<in> set S5_BOUNDARY_CHECKS \<Longrightarrow> jget ?c k = JBool (jget pin ''check'' \<noteq> JStr k)"
    by (auto simp: sample_s5_inputs_def S5_BOUNDARY_CHECKS_def)
  have "filter (\<lambda>k. jget ?c k \<noteq> jtrue) S5_BOUNDARY_CHECKS = filter (\<lambda>k. jget pin ''check'' = JStr k) S5_BOUNDARY_CHECKS"
    using checks by (intro filter_cong) auto
  moreover have "filter (\<lambda>k. jget pin ''check'' = JStr k) S5_BOUNDARY_CHECKS @ (if jget pin ''check'' = JStr ''pin_hash'' then [''pin_hash''] else [])
      = sample_s5_failing pin"
    using ok by (auto simp: pin_ok_def sample_s5_failing_def S5_BOUNDARY_CHECKS_def str_in_iff)
  ultimately have failing: "s5_store_trusted ?c = sample_s5_failing pin"
    by (simp add: s5_store_trusted_def get)
  have "s5_check_inputs ?c = Inr ()"
    using checks by (simp add: s5_check_inputs_def get list_all_iff)
  moreover have "s5_check_swap_shape ?c = Inr ()"
    using ok by (auto simp: s5_check_swap_shape_def Let_def get pin_ok_def str_in_iff split: if_splits)
  moreover have "s5_check_pin pin ?c (sample_s5_failing pin) = Inr ()"
    using ok by (auto simp: s5_check_pin_def Let_def get pin_ok_def sample_s5_failing_def py_eq_str_in split: if_splits)
      (auto simp: str_in_iff S5_BOUNDARY_CHECKS_def)
  ultimately show ?thesis
    using ok by (simp add: s5_read_def s5_check_home_def failing get pin pinned_def pin_ok_def)
qed

text \<open>Every pin of the four tables is such, the negatives start from a failing check, and the names are distinct.\<close>

definition table_ok :: "string list \<Rightarrow> (string \<times> dict) list \<Rightarrow> bool" where
  "table_ok negatives table \<longleftrightarrow> distinct (map fst table) \<and> [] \<notin> set (map fst table) \<and>
     list_all (\<lambda>np. pin_ok (snd np) \<and> (fst np \<in> set negatives \<longrightarrow> sample_s5_failing (snd np) \<noteq> [])) table"

lemma check_table:
  assumes "table_ok negatives table"
    "\<And>n pin. map_of table n = Some pin \<Longrightarrow> pin_ok pin \<Longrightarrow> (n \<in> set negatives \<Longrightarrow> sample_s5_failing pin \<noteq> []) \<Longrightarrow> n \<in> set (map fst table) \<Longrightarrow>
       \<exists>c. f (n, pin) = JObj c \<and> jget c ''name'' = JStr n \<and> check n c = Inr ()"
  shows "check_cases check (map fst table) (JArr (map f table)) label = Inr ()"
proof (rule check_pinned_cases)
  show "list_all (\<lambda>np. is_dict (f np) \<and> jget (the_dict (f np)) ''name'' = JStr (fst np) \<and> check (fst np) (the_dict (f np)) = Inr ()) table"
    unfolding list_all_iff
  proof
    fix np assume np: "np \<in> set table"
    obtain n pin where eq: "np = (n, pin)" by fastforce
    have "map_of table n = Some pin" "n \<in> set (map fst table)" using assms(1) np eq by (auto simp: table_ok_def intro: rev_image_eqI)
    moreover have "pin_ok pin" "n \<in> set negatives \<Longrightarrow> sample_s5_failing pin \<noteq> []"
      using assms(1) np eq by (auto simp: table_ok_def list_all_iff)
    ultimately obtain c where "f (n, pin) = JObj c" "jget c ''name'' = JStr n" "check n c = Inr ()" using assms(2) by blast
    then show "is_dict (f np) \<and> jget (the_dict (f np)) ''name'' = JStr (fst np) \<and> check (fst np) (the_dict (f np)) = Inr ()"
      by (simp add: eq)
  qed
qed (use assms(1) in \<open>simp_all add: table_ok_def\<close>)

lemma sample_s5_tables:
  "table_ok S5_RESOLVE_NEGATIVE_CASES S5_RESOLVE_PIN" "table_ok S5_DRY_RUN_NEGATIVE_CASES S5_DRY_RUN_PIN"
  "table_ok S5_REPAIR_NEGATIVE_CASES S5_REPAIR_PIN" "table_ok S5_STATUS_NEGATIVE_CASES S5_STATUS_PIN"
  by code_simp+

lemma sample_s5_name: "jget (sample_s5_inputs n pin @ more) ''name'' = JStr n"
  "jget (sample_s5_inputs n pin @ more) ''object'' = jget pin ''object''"
  "jget (sample_s5_inputs n pin @ more) ''home'' = jget pin ''home''"
  "jget (sample_s5_inputs n pin @ more) ''entry_kind'' = jget pin ''kind''"
  by (simp_all add: sample_s5_inputs_def)

lemma sample_s5_rest:
  "k \<notin> set (map fst (sample_s5_inputs n pin)) \<Longrightarrow> jget (sample_s5_inputs n pin @ more) k = jget more k"
  by (simp add: jget_def map_add_def map_of_eq_None_iff [THEN iffD2])

lemma sample_s5_keys:
  "set (map fst (sample_s5_inputs n pin)) =
     {''name'', ''object'', ''home'', ''surface'', ''entry_kind'', ''ownership'', ''permissions'', ''containment'', ''regular_types'', ''link_safety'', ''pin_hash_match''}"
  by (auto simp: sample_s5_inputs_def S5_BOUNDARY_CHECKS_def)

lemmas sample_s5_gets = sample_s5_name sample_s5_rest [unfolded sample_s5_keys]

lemma sample_s5_resolve_cases: "check_cases check_resolve_case (map fst S5_RESOLVE_PIN) (JArr (map sample_s5_resolve S5_RESOLVE_PIN)) l = Inr ()"
proof (rule check_table [OF sample_s5_tables(1)])
  fix n pin assume a: "map_of S5_RESOLVE_PIN n = Some pin" "pin_ok pin" "n \<in> set S5_RESOLVE_NEGATIVE_CASES \<Longrightarrow> sample_s5_failing pin \<noteq> []"
  obtain d k where v: "resolve_verdict (sample_s5_failing pin) (jget pin ''home'') = (d, k)" by fastforce
  have "n \<in> set S5_RESOLVE_NEGATIVE_CASES \<Longrightarrow> d \<noteq> None" using v a(3) by (auto simp: resolve_verdict_def)
  then show "\<exists>c. sample_s5_resolve (n, pin) = JObj c \<and> jget c ''name'' = JStr n \<and> check_resolve_case n c = Inr ()"
    by (auto simp: sample_s5_resolve_def Let_def v check_resolve_case_def sample_s5_read [OF a(1,2)] sample_s5_gets sample_s5_negative_def
        check_negative_def require.simps)
qed

lemma sample_s5_enclosing: "enclosing (sample_s5_inputs n pin @ more) = enclosing pin"
  by (simp only: enclosing_def sample_s5_gets)

lemma sample_s5_dry_run_cases: "check_cases check_dry_run_store_case (map fst S5_DRY_RUN_PIN) (JArr (map sample_s5_dry_run S5_DRY_RUN_PIN)) l = Inr ()"
proof (rule check_table [OF sample_s5_tables(2)])
  fix n pin assume a: "map_of S5_DRY_RUN_PIN n = Some pin" "pin_ok pin"
  show "\<exists>c. sample_s5_dry_run (n, pin) = JObj c \<and> jget c ''name'' = JStr n \<and> check_dry_run_store_case n c = Inr ()"
    using sample_s5_enclosing [of n pin "[]"]
    by (auto simp: sample_s5_dry_run_def Let_def check_dry_run_store_case_def sample_s5_read [OF a(1,2)] sample_s5_gets sample_s5_negative_def
        check_negative_def dry_run_outcome_def sample_s5_enclosing require.simps)
qed

lemma sample_repair_pins:
  "list_all (\<lambda>np. str_in (jget (snd np) ''kind'') S5_ENTRY_KINDS \<and> (enclosing (snd np) \<longrightarrow> sample_s5_failing (snd np) \<noteq> []) \<and>
     (sample_s5_failing (snd np) = [] \<longrightarrow> str_in (jget (snd np) ''home'') [''stale-old-marker'', ''unprovisioned''])) S5_REPAIR_PIN"
  by code_simp

lemma sample_s5_repair_cases: "check_cases check_repair_case (map fst S5_REPAIR_PIN) (JArr (map sample_s5_repair S5_REPAIR_PIN)) l = Inr ()"
proof (rule check_table [OF sample_s5_tables(3)])
  fix n pin assume a: "map_of S5_REPAIR_PIN n = Some pin" "pin_ok pin" "n \<in> set S5_REPAIR_NEGATIVE_CASES \<Longrightarrow> sample_s5_failing pin \<noteq> []"
  have pins: "str_in (jget pin ''kind'') S5_ENTRY_KINDS" "enclosing pin \<Longrightarrow> sample_s5_failing pin \<noteq> []"
      "sample_s5_failing pin = [] \<Longrightarrow> str_in (jget pin ''home'') [''stale-old-marker'', ''unprovisioned'']"
    using sample_repair_pins map_of_SomeD [OF a(1)] by (auto simp: list_all_iff)
  have enc: "enclosing (sample_s5_inputs n pin) = enclosing pin" "jget (sample_s5_inputs n pin) ''entry_kind'' = jget pin ''kind''"
    using sample_s5_enclosing [of n pin "[]"] sample_s5_name(4) [of n pin "[]"] by simp_all
  show "\<exists>c. sample_s5_repair (n, pin) = JObj c \<and> jget c ''name'' = JStr n \<and> check_repair_case n c = Inr ()"
    using a(3) pins
    by (cases "n \<in> set S5_REPAIR_NEGATIVE_CASES"; cases "enclosing pin"; cases "sample_s5_failing pin = []"; cases "jget pin ''kind'' = JStr ''git''")
      (simp_all add: sample_s5_repair_def Let_def check_repair_case_def sample_s5_read [OF a(1,2)] sample_s5_gets sample_s5_negative_def
        check_negative_def require.simps enc sample_s5_enclosing pinned_def a(1) py_eq_str_in [OF pins(1)] check_enclosing_repair_def
        check_entry_repair_def check_trusted_repair_def)
qed

lemma sample_s5_status_cases: "check_cases check_status_case (map fst S5_STATUS_PIN) (JArr (map sample_s5_status S5_STATUS_PIN)) l = Inr ()"
proof (rule check_table [OF sample_s5_tables(4)])
  fix n pin assume a: "map_of S5_STATUS_PIN n = Some pin" "pin_ok pin" "n \<in> set S5_STATUS_NEGATIVE_CASES \<Longrightarrow> sample_s5_failing pin \<noteq> []"
  have "str_in (JStr (hd fs)) fs" if "fs \<noteq> []" for fs using that by (auto simp: str_in_iff)
  moreover have "\<not> str_in JNull fs" for fs by (auto simp: str_in_iff)
  ultimately show "\<exists>c. sample_s5_status (n, pin) = JObj c \<and> jget c ''name'' = JStr n \<and> check_status_case n c = Inr ()"
    using a(3) by (auto simp: sample_s5_status_def Let_def check_status_case_def sample_s5_read [OF a(1,2)] sample_s5_gets sample_s5_negative_def
        check_negative_def require.simps)
qed

lemma sample_store_accepted: "validate_environments_store_boundary_vectors sample_store_vector = Inr ()"
  unfolding validate_environments_store_boundary_vectors_def
  by (simp add: sample_store_vector_def Let_def require.simps sample_s5_resolve_cases sample_s5_dry_run_cases sample_s5_repair_cases sample_s5_status_cases)

theorem store_boundary_sound_witness:
  "let c = the_dict (sample_s5_resolve (hd S5_RESOLVE_PIN)) in
   store_intact c \<and> jget c ''home'' = JStr ''current'' \<and> jget c ''fragment_emitted'' = jtrue"
proof -
  let ?c = "the_dict (sample_s5_resolve (hd S5_RESOLVE_PIN))"
  have c: "JObj ?c \<in> set (the_list (jget sample_store_vector ''resolve_cases''))"
    by (simp add: sample_store_vector_def S5_RESOLVE_PIN_def sample_s5_resolve_def Let_def)
  have v: "jget ?c ''conforming'' \<noteq> jfalse" "store_intact ?c" "jget ?c ''home'' = JStr ''current''" by code_simp+
  have "jget ?c ''fragment_emitted'' = jtrue \<longleftrightarrow> store_intact ?c \<and> jget ?c ''home'' = JStr ''current''"
    using store_boundary_sound [OF sample_store_accepted] c v(1) by blast
  with v show ?thesis unfolding Let_def by simp
qed

end
