(* ===== verification/ShellHook.thy ===== *)
theory ShellHook
  imports Cases
begin

text \<open>
  The trust gate of the shell hook (manager profile section 8;
  \<open>check_shell_hook_approval_record\<close> and \<open>validate_shell_hook_trust_vectors\<close> in
  \<open>tools/validate.py\<close>): when a project's environment file may be sourced, and what is said about
  it.  \<open>sha\<close> is the hexadecimal SHA-256 of bytes.
\<close>

section \<open>The closed sets\<close>

definition SHELL_HOOK_TRUST_FILES :: "string list" where
  "SHELL_HOOK_TRUST_FILES = [''.agents/env.sh'', ''.agents/env.ps1'']"

definition SHELL_HOOK_TRUST_DIAGNOSTICS :: "string list" where
  "SHELL_HOOK_TRUST_DIAGNOSTICS = [''shell_hook_env_unapproved'', ''shell_hook_env_changed'']"

definition SHELL_HOOK_TRUST_PROFILES :: "string list" where
  "SHELL_HOOK_TRUST_PROFILES = [''A-warning'', ''B-enforcing'']"

definition SHELL_HOOK_TRUST_APPROVERS :: "string list" where
  "SHELL_HOOK_TRUST_APPROVERS = [''manager'', ''operator'']"

definition SHELL_HOOK_TRUST_FIXTURES :: "string list" where
  "SHELL_HOOK_TRUST_FIXTURES = [''env-sh-v1'', ''env-sh-v2-changed'', ''env-ps1-v1'', ''env-ps1-v2-changed'']"

definition SHELL_HOOK_TRUST_CASES :: "string list" where
  "SHELL_HOOK_TRUST_CASES =
     [''approved-env-sh-A-warning-sourced'', ''approved-env-sh-B-enforcing-sourced'',
      ''unapproved-env-sh-A-warning-sourced-with-warning'', ''unapproved-env-sh-B-enforcing-not-sourced'',
      ''changed-env-sh-A-warning-sourced-with-warning'', ''changed-env-sh-B-enforcing-not-sourced'',
      ''approved-env-ps1-A-warning-sourced'', ''approved-env-ps1-B-enforcing-sourced'',
      ''unapproved-env-ps1-A-warning-sourced-with-warning'', ''unapproved-env-ps1-B-enforcing-not-sourced'',
      ''changed-env-ps1-A-warning-sourced-with-warning'', ''changed-env-ps1-B-enforcing-not-sourced'',
      ''forged-project-record-env-sh-A-warning-sourced-with-warning'', ''forged-project-record-env-sh-B-enforcing-not-sourced'']"

definition SHELL_HOOK_TRUST_DOWNSTREAM_OWNERS :: "string list" where
  "SHELL_HOOK_TRUST_DOWNSTREAM_OWNERS = [''TASK-260910-1952mz'', ''TASK-260910-3ungjy'']"

text \<open>The patterns \<open>SHELL_HOOK_SHA256\<close> and \<open>SHELL_HOOK_RFC3339\<close>; \<open>d\<close> stands for a digit.\<close>

definition hook_sha256 :: "string \<Rightarrow> bool" where
  "hook_sha256 s \<longleftrightarrow> length s = 64 \<and> list_all (\<lambda>c. is_digit c \<or> c \<in> set ''abcdef'') s"

definition hook_rfc3339 :: "string \<Rightarrow> bool" where
  "hook_rfc3339 s \<longleftrightarrow> list_all2 (\<lambda>p c. if p = CHR ''d'' then is_digit c else c = p) ''dddd-dd-ddTdd:dd:ddZ'' s"

section \<open>Strict base64\<close>

text \<open>
  \<open>base64.b64decode(s, validate=True)\<close> of Python 3.12: digits of the alphabet and padding after
  them; the padding must complete the last group, and is ignored after a complete one.
\<close>

definition b64_digit :: "char \<Rightarrow> nat option" where
  "b64_digit c =
     (let n = ord_of c in
      if is_upper c then Some (n - 65) else if is_lower c then Some (n - 71) else if is_digit c then Some (n + 4)
      else if c = CHR ''+'' then Some 62 else if c = CHR ''/'' then Some 63 else None)"

fun b64_groups :: "nat list \<Rightarrow> string" where
  "b64_groups (a # b # c # d # ds) =
     [char_of (a * 4 + b div 16), char_of (b mod 16 * 16 + c div 4), char_of (c mod 4 * 64 + d)] @ b64_groups ds"
| "b64_groups [a, b, c] = [char_of (a * 4 + b div 16), char_of (b mod 16 * 16 + c div 4)]"
| "b64_groups [a, b] = [char_of (a * 4 + b div 16)]"
| "b64_groups _ = []"

definition b64decode :: "string \<Rightarrow> string option" where
  "b64decode s =
     (let body = takeWhile (\<lambda>c. b64_digit c \<noteq> None) s; pads = dropWhile (\<lambda>c. b64_digit c \<noteq> None) s; k = length body mod 4 in
      if list_all (\<lambda>c. c = CHR ''='') pads \<and>
         (if k = 0 then body \<noteq> [] \<or> pads = [] else k \<noteq> 1 \<and> k + length pads = 4)
      then Some (b64_groups (map (the \<circ> b64_digit) body)) else None)"

section \<open>Approval records\<close>

definition check_shell_hook_approval_record :: "json \<Rightarrow> string \<Rightarrow> unit res" where
  "check_shell_hook_approval_record record label =
     (let r = the_dict record in
      require
        [(is_dict record \<and> same_keys r [''path'', ''sha256'', ''approved_by'', ''approved_at''],
          fail (label @ '' is not the closed four-member approval record'')),
         (is_str (jget r ''path'') \<and> prefix ''/'' (the_str (jget r ''path'')), fail (label @ '' path is not absolute'')),
         (is_str (jget r ''sha256'') \<and> hook_sha256 (the_str (jget r ''sha256'')), fail (label @ '' sha256 is not lowercase hex without prefix'')),
         (str_in (jget r ''approved_by'') SHELL_HOOK_TRUST_APPROVERS, fail (label @ '' approved_by is not manager or operator'')),
         (is_str (jget r ''approved_at'') \<and> hook_rfc3339 (the_str (jget r ''approved_at'')), fail (label @ '' approved_at is not an RFC 3339 timestamp''))])"

section \<open>The head of the vector\<close>

definition profile_entry :: "json \<Rightarrow> (string \<times> dict) res" where
  "profile_entry v =
     (case v of
        JObj e \<Rightarrow>
          (case jget e ''name'' of JStr n \<Rightarrow> Inr (n, e) | JArr _ \<Rightarrow> Inl TypeError | JObj _ \<Rightarrow> Inl TypeError
           | _ \<Rightarrow> Inl (fail ''shell-hook-trust rollout profiles are not exactly A-warning and B-enforcing''))
      | _ \<Rightarrow> Inl AttributeError)"

definition check_rollout_profiles :: "json \<Rightarrow> unit res" where
  "check_rollout_profiles v =
     and_then (as_list v) (\<lambda>vs.
     and_then (map_res profile_entry vs) (\<lambda>entries.
     let profiles = rev entries; says = (\<lambda>p k. jget (the (map_of profiles p)) k) in
     and_then (guard (set (map fst profiles) = set SHELL_HOOK_TRUST_PROFILES)
       (fail ''shell-hook-trust rollout profiles are not exactly A-warning and B-enforcing'')) (\<lambda>_.
     require
       [(says ''A-warning'' ''sources_unapproved'' = jtrue \<and> says ''A-warning'' ''sources_changed'' = jtrue,
         fail ''shell-hook-trust Revision A must keep sourcing unapproved and changed files''),
        (says ''B-enforcing'' ''sources_unapproved'' = jfalse \<and> says ''B-enforcing'' ''sources_changed'' = jfalse,
         fail ''shell-hook-trust Revision B must not source unapproved or changed files'')])))"

definition check_hook_fixture :: "(string \<Rightarrow> string) \<Rightarrow> string \<times> json \<Rightarrow> unit res" where
  "check_hook_fixture sha f =
     (case snd f of
        JObj e \<Rightarrow>
          and_then (guard (str_in (jget e ''file'') SHELL_HOOK_TRUST_FILES) (fail ''shell-hook-trust fixture names a file outside the closed set'')) (\<lambda>_.
          case jget_or (JStr []) e ''bytes_base64'' of
            JStr text \<Rightarrow>
              (case b64decode text of
                 None \<Rightarrow> Inl (fail ''shell-hook-trust fixture bytes are not valid base64'')
               | Some raw \<Rightarrow> guard (jget e ''sha256'' = JStr (sha raw)) (fail ''shell-hook-trust fixture sha256 does not match its bytes''))
          | _ \<Rightarrow> Inl TypeError)
      | _ \<Rightarrow> Inl AttributeError)"

definition check_hook_binding :: "dict \<Rightarrow> unit res" where
  "check_hook_binding vector =
     and_then (dict_member vector ''execution_binding'') (\<lambda>binding.
     and_then (guard (texts_are (jget binding ''downstream_owner_tasks'') SHELL_HOOK_TRUST_DOWNSTREAM_OWNERS)
       (fail ''shell-hook-trust execution binding does not name the downstream owner tasks'')) (\<lambda>_.
     let recipe = jget vector ''execution_recipe'' in
     and_then (guard (is_list recipe \<and> the_list recipe \<noteq> [] \<and> list_all (\<lambda>s. is_str s \<and> the_str s \<noteq> []) (the_list recipe))
       (fail ''shell-hook-trust execution recipe is not a non-empty step list'')) (\<lambda>_.
     and_then (dict_member vector ''activation_sequence'') (\<lambda>sequence.
     guard (texts_are (jget sequence ''activations'')
         [''first activation in a fresh shell session'', ''second activation in the same shell session''])
       (fail ''shell-hook-trust activation sequence is not the two-activation session pair'')))))"

section \<open>A case\<close>

definition fixture_of :: "dict \<Rightarrow> json \<Rightarrow> dict res" where
  "fixture_of fixtures fid =
     (case fid of
        JStr s \<Rightarrow> (case map_of fixtures s of Some f \<Rightarrow> Inr (the_dict f) | None \<Rightarrow> Inl (fail ''shell-hook-trust case names an unknown fixture''))
      | JArr _ \<Rightarrow> Inl TypeError | JObj _ \<Rightarrow> Inl TypeError
      | _ \<Rightarrow> Inl (fail ''shell-hook-trust case names an unknown fixture''))"

definition check_approval :: "dict \<Rightarrow> unit res" where
  "check_approval c =
     (let approval = jget c ''approval''; record = jget c ''manager_approval_record''; r = the_dict record in
      if approval = JStr ''absent'' then
        require
          [(record = JNull \<and> jget c ''recorded_sha256'' = JNull, fail ''shell-hook-trust case is absent yet carries a record''),
           (\<not> jhas c ''approved_by'', fail ''shell-hook-trust case is absent yet names an approver'')]
      else if str_in approval [''present-match'', ''present-mismatch''] then
        and_then (check_shell_hook_approval_record record ''shell-hook-trust case manager record'') (\<lambda>_.
        require
          [(jget r ''path'' = jget c ''candidate_path'', fail ''shell-hook-trust case record path is not the candidate path''),
           (jget c ''recorded_sha256'' = jget r ''sha256'', fail ''shell-hook-trust case recorded digest is not its record digest''),
           (jget c ''approved_by'' = jget r ''approved_by'', fail ''shell-hook-trust case approver is not its record approver''),
           ((approval = JStr ''present-match'') = (jget r ''sha256'' = jget c ''observed_sha256''),
            fail ''shell-hook-trust case approval state contradicts its digests'')])
      else Inl (fail ''shell-hook-trust case has an unknown approval state''))"

definition check_forged :: "string \<Rightarrow> dict \<Rightarrow> unit res" where
  "check_forged name c =
     (let forged = jget c ''project_supplied_record''; f = the_dict forged; source = jget f ''source'' in
      if prefix ''forged-project-record-'' name then
        and_then (guard (is_dict forged \<and> is_str source \<and> prefix ''project:'' (the_str source))
          (fail ''shell-hook-trust case must carry a project-sourced forged record'')) (\<lambda>_.
        and_then (check_shell_hook_approval_record (jget f ''record'') ''shell-hook-trust case forged record'') (\<lambda>_.
        guard (jget (the_dict (jget f ''record'')) ''sha256'' = jget c ''observed_sha256'')
          (fail ''shell-hook-trust case forged record must match the observed bytes'')))
      else guard (forged = JNull) (fail ''shell-hook-trust case carries a forged record outside the forged family''))"

text \<open>The trust state: a record of the manager whose digest is the observed one.\<close>

definition hook_trusted :: "dict \<Rightarrow> bool" where
  "hook_trusted c \<longleftrightarrow> jget c ''manager_approval_record'' \<noteq> JNull \<and>
     jget (the_dict (jget c ''manager_approval_record'')) ''sha256'' = jget c ''observed_sha256''"

definition hook_diagnostic :: "dict \<Rightarrow> string option" where
  "hook_diagnostic c =
     (if hook_trusted c then None
      else if jget c ''manager_approval_record'' = JNull then Some ''shell_hook_env_unapproved'' else Some ''shell_hook_env_changed'')"

definition warning_checks :: "bool \<Rightarrow> (string \<times> json) list" where
  "warning_checks warned =
     [(''warns_once_per_shell_session'', JBool warned), (''warning_first_activation'', JBool warned),
      (''warning_second_activation_same_session'', jfalse), (''warnings_total_across_two_activations'', JInt (if warned then 1 else 0)),
      (''warning_names_path'', JBool warned), (''warning_names_approval_command'', JBool warned),
      (''migration_hint_names_approval_command'', JBool warned)]"

definition check_hook_case :: "dict \<Rightarrow> string \<Rightarrow> dict \<Rightarrow> unit res" where
  "check_hook_case fixtures name c =
     and_then (fixture_of fixtures (jget c ''candidate_fixture'')) (\<lambda>fixture.
     and_then (require
       [(jget c ''file'' = jget fixture ''file'', fail ''shell-hook-trust case file does not match its fixture''),
        (is_str (jget c ''candidate_path'') \<and> suffix (''/'' @ the_str (jget c ''file'')) (the_str (jget c ''candidate_path'')),
         fail ''shell-hook-trust case candidate path does not name the fixture file''),
        (jget c ''observed_sha256'' = jget fixture ''sha256'', fail ''shell-hook-trust case observed digest is not its fixture digest''),
        (str_in (jget c ''rollout_profile'') SHELL_HOOK_TRUST_PROFILES, fail ''shell-hook-trust case names an unknown rollout profile'')]) (\<lambda>_.
     and_then (check_approval c) (\<lambda>_.
     and_then (check_forged name c) (\<lambda>_.
     require
       ([(jget c ''diagnostic'' = jopt (hook_diagnostic c), fail ''shell-hook-trust case diagnostic does not follow its trust state''),
         (jget c ''sourced'' = JBool (hook_trusted c \<or> jget c ''rollout_profile'' = JStr ''A-warning''),
          fail ''shell-hook-trust case sourcing does not follow its trust state and profile'')] @
        map (\<lambda>(field, v). (jget c field = v, fail (''shell-hook-trust case field '' @ field @ '' does not follow its trust state'')))
          (warning_checks (\<not> hook_trusted c)))))))"

section \<open>The gate\<close>

definition validate_shell_hook_trust_vectors :: "(string \<Rightarrow> string) \<Rightarrow> dict \<Rightarrow> unit res" where
  "validate_shell_hook_trust_vectors sha vector =
     and_then (require
       [(py_eq (jget vector ''schema_version'') (JInt 1) \<and> jget vector ''protocol_version'' = JStr ''1.0.0-rc.14'' \<and>
         jget vector ''capability'' = JStr ''shell-hook-trust'' \<and> jget vector ''finding'' = JStr ''S6'',
         fail ''shell-hook-trust vector has the wrong capability identity''),
        (texts_are (jget vector ''files'') SHELL_HOOK_TRUST_FILES, fail ''shell-hook-trust files are not the closed two-file set''),
        (texts_are (jget vector ''diagnostics'') SHELL_HOOK_TRUST_DIAGNOSTICS, fail ''shell-hook-trust diagnostics are not the closed two-code set'')]) (\<lambda>_.
     and_then (check_rollout_profiles (jget_or (JArr []) vector ''rollout_profiles'')) (\<lambda>_.
     and_then (dict_member vector ''approval_record_shape'') (\<lambda>shape.
     and_then (guard (texts_are (jget shape ''members'') [''path'', ''sha256'', ''approved_by'', ''approved_at''] \<and>
         texts_are (jget shape ''approved_by'') SHELL_HOOK_TRUST_APPROVERS)
       (fail ''shell-hook-trust approval record shape is not the closed four-member shape'')) (\<lambda>_.
     and_then (check_shell_hook_approval_record (jget vector ''example_record'') ''shell-hook-trust example_record'') (\<lambda>_.
     and_then (dict_member vector ''fixtures'') (\<lambda>fixtures.
     and_then (guard (set (map fst fixtures) = set SHELL_HOOK_TRUST_FIXTURES) (fail ''shell-hook-trust fixture inventory is not exact'')) (\<lambda>_.
     and_then (for_each (check_hook_fixture sha) fixtures) (\<lambda>_.
     and_then (check_hook_binding vector) (\<lambda>_.
     check_cases (check_hook_case fixtures) SHELL_HOOK_TRUST_CASES (jget vector ''cases'') ''shell-hook trust'')))))))))"

section \<open>What acceptance shows\<close>

text \<open>The digest of a case is that of the bytes its fixture encodes.\<close>

definition observed_bytes :: "(string \<Rightarrow> string) \<Rightarrow> dict \<Rightarrow> dict \<Rightarrow> string \<Rightarrow> bool" where
  "observed_bytes sha fixtures c raw \<longleftrightarrow>
     (\<exists>n f. jget c ''candidate_fixture'' = JStr n \<and> map_of fixtures n = Some (JObj f) \<and>
        b64decode (the_str (jget_or (JStr []) f ''bytes_base64'')) = Some raw \<and> jget c ''observed_sha256'' = JStr (sha raw))"

lemma fixture_bytes:
  assumes "for_each (check_hook_fixture sha) fixtures = Inr ()" "fixture_of fixtures (jget c ''candidate_fixture'') = Inr fixture"
    "jget c ''observed_sha256'' = jget fixture ''sha256''"
  shows "\<exists>raw. observed_bytes sha fixtures c raw"
proof -
  from assms(2) obtain n v where n: "jget c ''candidate_fixture'' = JStr n" "map_of fixtures n = Some v" "fixture = the_dict v"
    by (auto simp: fixture_of_def split: json.splits option.splits)
  with assms(1) have "check_hook_fixture sha (n, v) = Inr ()" by (auto simp: for_each_ok_iff dest: map_of_SomeD)
  then obtain f t raw where "v = JObj f" "jget_or (JStr []) f ''bytes_base64'' = JStr t" "b64decode t = Some raw"
      "jget f ''sha256'' = JStr (sha raw)"
    by (auto simp: check_hook_fixture_def and_then_ok_iff split: json.splits option.splits)
  with n assms(3) show ?thesis by (auto simp: observed_bytes_def)
qed

lemma approval_recorded:
  assumes "check_approval c = Inr ()" "jget c ''manager_approval_record'' \<noteq> JNull"
  shows "jget (the_dict (jget c ''manager_approval_record'')) ''path'' = jget c ''candidate_path''"
    "str_in (jget (the_dict (jget c ''manager_approval_record'')) ''approved_by'') SHELL_HOOK_TRUST_APPROVERS"
  using assms by (auto simp: check_approval_def check_shell_hook_approval_record_def Let_def and_then_ok_iff split: if_splits)

text \<open>
  C24: nothing but the manager's record makes a hook trusted.  In a vector the gate accepts, a case is
  sourced exactly when the rollout only warns or the manager's store holds a record, approved by the
  manager or the operator, of that path with the digest of the very bytes its fixture encodes in
  base64; it warns, once in two activations, exactly when there is no such record; and a record the
  project supplies, though its digest matches, changes neither.
\<close>

theorem shell_hook_trust_exact:
  assumes "validate_shell_hook_trust_vectors sha vector = Inr ()"
    and "JObj c \<in> set (the_list (jget vector ''cases''))"
  shows "\<exists>raw. observed_bytes sha (the_dict (jget vector ''fixtures'')) c raw \<and>
    (let r = the_dict (jget c ''manager_approval_record'');
         approved = (jget c ''manager_approval_record'' \<noteq> JNull \<and> jget r ''path'' = jget c ''candidate_path'' \<and>
           str_in (jget r ''approved_by'') [''manager'', ''operator''] \<and> jget r ''sha256'' = JStr (sha raw)) in
     (jget c ''sourced'' = jtrue \<longleftrightarrow> approved \<or> jget c ''rollout_profile'' = JStr ''A-warning'') \<and>
     (jget c ''diagnostic'' = JNull \<longleftrightarrow> approved) \<and>
     jget c ''warnings_total_across_two_activations'' = JInt (if approved then 0 else 1) \<and>
     jget c ''warning_second_activation_same_session'' = jfalse)"
proof -
  from assms(1) obtain fixtures where f: "dict_member vector ''fixtures'' = Inr fixtures" "for_each (check_hook_fixture sha) fixtures = Inr ()"
    and k: "check_cases (check_hook_case fixtures) SHELL_HOOK_TRUST_CASES (jget vector ''cases'') ''shell-hook trust'' = Inr ()"
    unfolding validate_shell_hook_trust_vectors_def by (auto simp: and_then_ok_iff)
  have fx: "the_dict (jget vector ''fixtures'') = fixtures"
    using f(1) by (rule dict_member_get)
  from checked [OF k assms(2)] obtain name where "check_hook_case fixtures name c = Inr ()" by blast
  then obtain fixture where fixture: "fixture_of fixtures (jget c ''candidate_fixture'') = Inr fixture"
      "jget c ''observed_sha256'' = jget fixture ''sha256''" "check_approval c = Inr ()"
      "jget c ''diagnostic'' = jopt (hook_diagnostic c)"
      "jget c ''sourced'' = JBool (hook_trusted c \<or> jget c ''rollout_profile'' = JStr ''A-warning'')"
    and warns: "list_all (\<lambda>(k, v). jget c k = v) (warning_checks (\<not> hook_trusted c))"
    by (auto simp: check_hook_case_def and_then_ok_iff list_all_iff case_prod_beta)
  from fixture_bytes [OF f(2) fixture(1,2)] obtain raw where raw: "observed_bytes sha fixtures c raw" by blast
  then have "jget c ''observed_sha256'' = JStr (sha raw)" by (auto simp: observed_bytes_def)
  then have trusted: "hook_trusted c \<longleftrightarrow> jget c ''manager_approval_record'' \<noteq> JNull \<and>
      jget (the_dict (jget c ''manager_approval_record'')) ''path'' = jget c ''candidate_path'' \<and>
      str_in (jget (the_dict (jget c ''manager_approval_record'')) ''approved_by'') [''manager'', ''operator''] \<and>
      jget (the_dict (jget c ''manager_approval_record'')) ''sha256'' = JStr (sha raw)"
    using approval_recorded [OF fixture(3)] by (auto simp: hook_trusted_def SHELL_HOOK_TRUST_APPROVERS_def)
  have "jget c ''diagnostic'' = JNull \<longleftrightarrow> hook_trusted c" using fixture(4) by (auto simp: hook_diagnostic_def)
  with raw fixture(5) warns show ?thesis
    by (intro exI [of _ raw]) (auto simp: fx Let_def trusted [symmetric] warning_checks_def)
qed

section \<open>A vector the gate accepts\<close>

abbreviation zero_digest :: "string \<Rightarrow> string" where "zero_digest \<equiv> \<lambda>_. replicate 64 (CHR ''0'')"

definition sample_approval :: "char \<Rightarrow> json" where
  "sample_approval digit = JObj
     [(''path'', JStr ''/p/.agents/env.sh''), (''sha256'', JStr (replicate 64 digit)), (''approved_by'', JStr ''operator''),
      (''approved_at'', JStr ''2026-08-01T00:00:00Z'')]"

text \<open>The state of a case is read off its name; every case is about the same file.\<close>

definition sample_hook_record :: "string \<Rightarrow> json" where
  "sample_hook_record n =
     (if prefix ''approved-'' n then sample_approval (CHR ''0'') else if prefix ''changed-'' n then sample_approval (CHR ''1'') else JNull)"

definition sample_hook_case :: "string \<Rightarrow> dict" where
  "sample_hook_case n =
     (let record = sample_hook_record n; r = the_dict record; a = prefix ''approved-'' n; b = contains ''B-enforcing'' n in
      [(''name'', JStr n), (''candidate_fixture'', JStr ''env-sh-v1''), (''file'', JStr ''.agents/env.sh''),
       (''candidate_path'', JStr ''/p/.agents/env.sh''), (''observed_sha256'', JStr (replicate 64 (CHR ''0''))),
       (''rollout_profile'', JStr (if b then ''B-enforcing'' else ''A-warning'')),
       (''approval'', JStr (if record = JNull then ''absent'' else if a then ''present-match'' else ''present-mismatch'')),
       (''manager_approval_record'', record), (''recorded_sha256'', jget r ''sha256''),
       (''diagnostic'', if a then JNull else if record = JNull then JStr ''shell_hook_env_unapproved'' else JStr ''shell_hook_env_changed''),
       (''sourced'', JBool (a \<or> \<not> b))] @
      (if record = JNull then [] else [(''approved_by'', JStr ''operator'')]) @
      (if prefix ''forged-project-record-'' n
       then [(''project_supplied_record'', JObj [(''source'', JStr ''project:env''), (''record'', sample_approval (CHR ''0''))])] else []) @
      warning_checks (\<not> a))"

definition sample_hook_fixture :: json where
  "sample_hook_fixture = JObj [(''file'', JStr ''.agents/env.sh''), (''bytes_base64'', JStr ''TFM=''), (''sha256'', JStr (replicate 64 (CHR ''0'')))]"

definition sample_hook_vector :: dict where
  "sample_hook_vector =
     [(''schema_version'', JInt 1), (''protocol_version'', JStr ''1.0.0-rc.14''), (''capability'', JStr ''shell-hook-trust''), (''finding'', JStr ''S6''),
      (''files'', JArr (map JStr SHELL_HOOK_TRUST_FILES)), (''diagnostics'', JArr (map JStr SHELL_HOOK_TRUST_DIAGNOSTICS)),
      (''rollout_profiles'', JArr
        [JObj [(''name'', JStr ''A-warning''), (''sources_unapproved'', jtrue), (''sources_changed'', jtrue)],
         JObj [(''name'', JStr ''B-enforcing''), (''sources_unapproved'', jfalse), (''sources_changed'', jfalse)]]),
      (''approval_record_shape'', JObj
        [(''members'', JArr [JStr ''path'', JStr ''sha256'', JStr ''approved_by'', JStr ''approved_at'']), (''approved_by'', JArr [JStr ''manager'', JStr ''operator''])]),
      (''example_record'', sample_approval (CHR ''0'')),
      (''fixtures'', JObj (map (\<lambda>n. (n, sample_hook_fixture)) SHELL_HOOK_TRUST_FIXTURES)),
      (''execution_binding'', JObj [(''downstream_owner_tasks'', JArr (map JStr SHELL_HOOK_TRUST_DOWNSTREAM_OWNERS))]),
      (''execution_recipe'', JArr [JStr ''source the hook'']),
      (''activation_sequence'', JObj [(''activations'', JArr [JStr ''first activation in a fresh shell session'', JStr ''second activation in the same shell session''])]),
      (''cases'', JArr (map (\<lambda>n. JObj (sample_hook_case n)) SHELL_HOOK_TRUST_CASES))]"

lemma sample_digests: "hook_sha256 (replicate 64 (CHR ''0''))" "hook_sha256 (replicate 64 (CHR ''1''))"
  by (simp_all add: hook_sha256_def list_all_iff is_digit_def ord_of_def del: replicate.simps)

lemma sample_time: "hook_rfc3339 ''2026-08-01T00:00:00Z''"
  by code_simp

lemma sample_approval_ok: "d \<in> {CHR ''0'', CHR ''1''} \<Longrightarrow> check_shell_hook_approval_record (sample_approval d) l = Inr ()"
  using sample_digests sample_time
  by (auto simp: check_shell_hook_approval_record_def sample_approval_def Let_def SHELL_HOOK_TRUST_APPROVERS_def same_keys_def insert_commute)

lemma sample_hook_fixtures: "for_each (check_hook_fixture zero_digest) (map (\<lambda>n. (n, sample_hook_fixture)) SHELL_HOOK_TRUST_FIXTURES) = Inr ()"
proof -
  have "b64decode ''TFM='' = Some ''LS''" by code_simp
  then show ?thesis by (simp add: for_each_ok_iff check_hook_fixture_def sample_hook_fixture_def SHELL_HOOK_TRUST_FILES_def)
qed

lemma sample_hook_fields:
  fixes n defines "c \<equiv> sample_hook_case n"
  shows "jget c ''candidate_fixture'' = JStr ''env-sh-v1''" "jget c ''file'' = JStr ''.agents/env.sh''"
    "jget c ''candidate_path'' = JStr ''/p/.agents/env.sh''" "jget c ''observed_sha256'' = JStr (replicate 64 (CHR ''0''))"
    "jget c ''rollout_profile'' = JStr (if contains ''B-enforcing'' n then ''B-enforcing'' else ''A-warning'')"
    "jget c ''approval'' = JStr (if sample_hook_record n = JNull then ''absent'' else if prefix ''approved-'' n then ''present-match'' else ''present-mismatch'')"
    "jget c ''manager_approval_record'' = sample_hook_record n" "jget c ''recorded_sha256'' = jget (the_dict (sample_hook_record n)) ''sha256''"
    "jget c ''diagnostic'' = (if prefix ''approved-'' n then JNull else if sample_hook_record n = JNull then JStr ''shell_hook_env_unapproved'' else JStr ''shell_hook_env_changed'')"
    "jget c ''sourced'' = JBool (prefix ''approved-'' n \<or> \<not> contains ''B-enforcing'' n)"
  by (simp_all add: c_def sample_hook_case_def Let_def del: replicate.simps)

lemma sample_hook_later_fields:
  fixes n defines "c \<equiv> sample_hook_case n"
  shows "jhas c ''approved_by'' \<longleftrightarrow> sample_hook_record n \<noteq> JNull"
    "sample_hook_record n \<noteq> JNull \<Longrightarrow> jget c ''approved_by'' = JStr ''operator''"
    "jget c ''project_supplied_record'' =
       (if prefix ''forged-project-record-'' n then JObj [(''source'', JStr ''project:env''), (''record'', sample_approval (CHR ''0''))] else JNull)"
    "list_all (\<lambda>(k, v). jget c k = v) (warning_checks (\<not> prefix ''approved-'' n))"
  unfolding c_def sample_hook_case_def Let_def warning_checks_def
  by (cases "sample_hook_record n = JNull"; cases "prefix ''forged-project-record-'' n"; simp del: replicate.simps)+

lemma sample_hook_passes:
  "check_hook_case (map (\<lambda>n. (n, sample_hook_fixture)) SHELL_HOOK_TRUST_FIXTURES) n (sample_hook_case n) = Inr ()"
proof -
  let ?c = "sample_hook_case n"
  have digests: "replicate 64 (CHR ''1'') \<noteq> replicate 64 (CHR ''0'')" by (simp del: replicate.simps)
  have trusted: "hook_trusted ?c = prefix ''approved-'' n"
    using digests by (simp add: hook_trusted_def sample_hook_fields sample_hook_record_def sample_approval_def del: replicate.simps)
  have "check_approval ?c = Inr ()"
    using sample_approval_ok digests
    by (cases "prefix ''approved-'' n"; cases "prefix ''changed-'' n")
      (simp_all add: check_approval_def Let_def sample_hook_fields sample_hook_later_fields sample_hook_record_def sample_approval_def
        del: replicate.simps)
  moreover have "check_forged n ?c = Inr ()"
    using sample_approval_ok
    by (simp add: check_forged_def Let_def sample_hook_fields sample_hook_later_fields) (simp add: sample_approval_def)
  moreover have "suffix ''/.agents/env.sh'' ''/p/.agents/env.sh''" by (simp add: suffix_def)
  ultimately show ?thesis
    using sample_hook_later_fields(4) [of n]
    by (simp add: check_hook_case_def sample_hook_fields trusted hook_diagnostic_def fixture_of_def SHELL_HOOK_TRUST_FIXTURES_def
        sample_hook_fixture_def SHELL_HOOK_TRUST_PROFILES_def list_all_iff case_prod_beta and_then_ok_iff del: replicate.simps)
qed

lemma sample_hook_accepted: "validate_shell_hook_trust_vectors zero_digest sample_hook_vector = Inr ()"
proof -
  have cases: "check_cases (check_hook_case (map (\<lambda>n. (n, sample_hook_fixture)) SHELL_HOOK_TRUST_FIXTURES)) SHELL_HOOK_TRUST_CASES
      (JArr (map (\<lambda>n. JObj (sample_hook_case n)) SHELL_HOOK_TRUST_CASES)) l = Inr ()" for l
    using sample_hook_passes by (intro check_cases_map) (simp_all add: SHELL_HOOK_TRUST_CASES_def sample_hook_case_def Let_def)
  have profiles: "check_rollout_profiles (jget_or (JArr []) sample_hook_vector ''rollout_profiles'') = Inr ()"
    by (auto simp: sample_hook_vector_def check_rollout_profiles_def profile_entry_def as_list_def SHELL_HOOK_TRUST_PROFILES_def require.simps)
  show ?thesis
    unfolding validate_shell_hook_trust_vectors_def profiles
    by (simp add: sample_hook_vector_def require.simps dict_member_def texts_are_def SHELL_HOOK_TRUST_APPROVERS_def sample_approval_ok
        sample_hook_fixtures check_hook_binding_def cases image_image)
qed

theorem shell_hook_trust_exact_witness:
  "let c = sample_hook_case ''forged-project-record-env-sh-B-enforcing-not-sourced'' in
   jget c ''project_supplied_record'' \<noteq> JNull \<and> jget c ''sourced'' \<noteq> jtrue \<and> jget c ''diagnostic'' \<noteq> JNull"
proof -
  let ?c = "sample_hook_case ''forged-project-record-env-sh-B-enforcing-not-sourced''"
  have c: "JObj ?c \<in> set (the_list (jget sample_hook_vector ''cases''))"
    by (simp add: sample_hook_vector_def SHELL_HOOK_TRUST_CASES_def)
  have v: "jget ?c ''project_supplied_record'' \<noteq> JNull" "jget ?c ''manager_approval_record'' = JNull"
      "jget ?c ''rollout_profile'' = JStr ''B-enforcing''"
    by code_simp+
  from shell_hook_trust_exact [OF sample_hook_accepted c] v show ?thesis by (auto simp: Let_def)
qed

end
