(* ===== verification/Regexes.thy ===== *)
theory Regexes
  imports JsonText
begin

text \<open>
  The regular expressions of Python's \<open>re\<close> that patterns read from data files use: characters,
  classes, anchors, groups, alternation and greedy repetition, with the backtracking order of the
  engine.  \<open>re_compile\<close> reads the concrete syntax; a construct outside this fragment (lazy or
  possessive repetition, look-around, back references, class escapes) is refused, as a malformed
  pattern is.
  What the engine finds is what \<open>reaches\<close> says, apart from its order (\<open>runs_find\<close>,
  \<open>finditer_none\<close>), and the reader has steps enough (\<open>parse_steps\<close>).
\<close>

section \<open>Expressions and their matches\<close>

datatype rx =
    Empty
  | Class bool "(char \<times> char) list"
  | Bol
  | Eol
  | Seq rx rx
  | Alt rx rx
  | Rep nat "nat option" rx
  | Group nat rx

text \<open>A position and the spans captured so far, the latest capture of a group first.\<close>

type_synonym mark = "nat \<times> (nat \<times> nat \<times> nat) list"

definition in_class :: "bool \<Rightarrow> (char \<times> char) list \<Rightarrow> char \<Rightarrow> bool" where
  "in_class inverted ranges c = (list_ex (\<lambda>(a, b). a \<le> c \<and> c \<le> b) ranges \<noteq> inverted)"

text \<open>Greedy repetition: one more round first; a round that consumes nothing is not repeated.\<close>

fun rounds :: "nat \<Rightarrow> (mark \<Rightarrow> mark list) \<Rightarrow> nat \<Rightarrow> nat option \<Rightarrow> mark \<Rightarrow> mark list" where
  "rounds 0 f lo hi m = (if lo = 0 then [m] else [])"
| "rounds (Suc k) f lo hi m =
     (if hi = Some 0 then []
      else concat (map (\<lambda>n. if lo = 0 \<and> fst n = fst m then [] else rounds k f (lo - 1) (map_option (\<lambda>h. h - 1) hi) n) (f m))) @
     (if lo = 0 then [m] else [])"

text \<open>All ways to match, in the order the engine tries them.\<close>

primrec runs :: "rx \<Rightarrow> string \<Rightarrow> mark \<Rightarrow> mark list" where
  "runs Empty s = (\<lambda>m. [m])"
| "runs (Class inverted ranges) s =
     (\<lambda>m. if fst m < length s \<and> in_class inverted ranges (s ! fst m) then [(Suc (fst m), snd m)] else [])"
| "runs Bol s = (\<lambda>m. if fst m = 0 then [m] else [])"
| "runs Eol s = (\<lambda>m. if fst m = length s \<or> Suc (fst m) = length s \<and> s ! fst m = newline then [m] else [])"
| "runs (Seq a b) s = (\<lambda>m. concat (map (runs b s) (runs a s m)))"
| "runs (Alt a b) s = (\<lambda>m. runs a s m @ runs b s m)"
| "runs (Rep lo hi a) s = (\<lambda>m. rounds (length s + lo - fst m + 1) (runs a s) lo hi m)"
| "runs (Group n a) s = (\<lambda>m. map (\<lambda>e. (fst e, (n, fst m, fst e) # snd e)) (runs a s m))"

text \<open>Matching only moves forward, inside the text, and captures what it passes.\<close>

definition forward :: "string \<Rightarrow> mark \<Rightarrow> mark \<Rightarrow> bool" where
  "forward s m e \<longleftrightarrow> fst m \<le> fst e \<and> fst e \<le> length s \<and>
     (\<forall>(n, i, j) \<in> set (snd e). (n, i, j) \<in> set (snd m) \<or> fst m \<le> i \<and> i \<le> j \<and> j \<le> fst e)"

lemma forward_trans: "forward s m e \<Longrightarrow> forward s e f \<Longrightarrow> forward s m f"
  unfolding forward_def by fastforce

lemma forward_refl: "fst m \<le> length s \<Longrightarrow> forward s m m"
  by (auto simp: forward_def)

lemma rounds_forward:
  assumes "\<And>m e. e \<in> set (f m) \<Longrightarrow> fst m \<le> length s \<Longrightarrow> forward s m e" "e \<in> set (rounds k f lo hi m)" "fst m \<le> length s"
  shows "forward s m e"
  using assms(2,3)
proof (induction k arbitrary: lo hi m)
  case 0
  then show ?case by (auto simp: forward_refl split: if_splits)
next
  case (Suc k)
  then consider "e = m" | n lo' hi' where "n \<in> set (f m)" "e \<in> set (rounds k f lo' hi' n)"
    by (auto split: if_splits)
  then show ?case
  proof cases
    case 2
    have n: "forward s m n" using assms(1) [OF 2(1)] Suc.prems(2) .
    then have "fst n \<le> length s" by (simp add: forward_def)
    from forward_trans [OF n Suc.IH [OF 2(2) this]] show ?thesis .
  qed (simp add: forward_refl Suc.prems)
qed

lemma runs_forward: "e \<in> set (runs r s m) \<Longrightarrow> fst m \<le> length s \<Longrightarrow> forward s m e"
proof (induction r arbitrary: m e)
  case (Seq a b)
  from Seq.prems obtain n where n: "n \<in> set (runs a s m)" "e \<in> set (runs b s n)" by auto
  have "forward s m n" using Seq.IH(1) [OF n(1) Seq.prems(2)] .
  moreover from this have "forward s n e" using Seq.IH(2) [OF n(2)] by (simp add: forward_def)
  ultimately show ?case by (rule forward_trans)
next
  case (Alt a b)
  from Alt.prems(1) have "e \<in> set (runs a s m) \<or> e \<in> set (runs b s m)" by simp
  then show ?case using Alt.IH Alt.prems(2) by blast
next
  case (Rep lo hi a)
  from Rep.prems(1) have "e \<in> set (rounds (length s + lo - fst m + 1) (runs a s) lo hi m)" by (simp only: runs.simps)
  then show ?case using rounds_forward [of "runs a s" s e, OF Rep.IH] Rep.prems(2) by blast
next
  case (Group n a)
  then obtain d where d: "d \<in> set (runs a s m)" "e = (fst d, (n, fst m, fst d) # snd d)" by auto
  have "forward s m d" using Group.IH [OF d(1) Group.prems(2)] .
  with d(2) show ?case by (auto simp: forward_def)
qed (auto simp: forward_def split: if_splits)

section \<open>Scanning a text\<close>

text \<open>
  The first match from \<open>p\<close> on: its start and its mark.  After an empty match, the next one must
  not be empty where it stands (\<open>advance\<close>).
\<close>

definition match_at :: "rx \<Rightarrow> string \<Rightarrow> nat \<Rightarrow> bool \<Rightarrow> mark option" where
  "match_at r s p advance = find (\<lambda>e. \<not> (advance \<and> fst e = p)) (runs r s (p, []))"

definition search :: "rx \<Rightarrow> string \<Rightarrow> nat \<Rightarrow> bool \<Rightarrow> (nat \<times> mark) option" where
  "search r s p advance =
     (case List.map_filter (\<lambda>q. map_option (Pair q) (match_at r s q (advance \<and> q = p))) [p ..< Suc (length s)] of
        [] \<Rightarrow> None | m # _ \<Rightarrow> Some m)"

lemma search_found:
  assumes "search r s p advance = Some (q, e)"
  shows "p \<le> q" "q \<le> fst e" "fst e \<le> length s" "advance \<Longrightarrow> q = p \<Longrightarrow> fst e \<noteq> p" "e \<in> set (runs r s (q, []))"
proof -
  have "(q, e) \<in> set (List.map_filter (\<lambda>q. map_option (Pair q) (match_at r s q (advance \<and> q = p))) [p ..< Suc (length s)])"
    using assms by (auto simp: search_def simp del: upt_Suc split: list.splits)
  then have q: "p \<le> q" "q \<le> length s" "match_at r s q (advance \<and> q = p) = Some e"
    by (auto simp: List.map_filter_def simp del: upt_Suc)
  then show "p \<le> q" "e \<in> set (runs r s (q, []))" "advance \<Longrightarrow> q = p \<Longrightarrow> fst e \<noteq> p"
    by (auto simp: match_at_def find_Some_iff)
  then have "forward s (q, []) e" using q(2) runs_forward by fastforce
  then show "q \<le> fst e" "fst e \<le> length s" by (auto simp: forward_def)
qed

text \<open>\<open>finditer\<close>.\<close>

function finditer :: "rx \<Rightarrow> string \<Rightarrow> nat \<Rightarrow> bool \<Rightarrow> (nat \<times> mark) list" where
  "finditer r s p advance =
     (case search r s p advance of
        None \<Rightarrow> []
      | Some (q, e) \<Rightarrow> (q, e) # finditer r s (fst e) (fst e = q))"
  by pat_completeness auto

termination
proof (relation "measure (\<lambda>(r, s, p, advance). 2 * (Suc (length s) - p) - (if advance then 1 else 0))", goal_cases)
  case (2 r s p advance qe q e)
  then have s: "search r s p advance = Some (q, e)" by simp
  from search_found [OF this] show ?case by (cases "fst e = q"; cases advance; cases "q = p") auto
qed simp

declare finditer.simps [simp del]

text \<open>\<open>m.span(g)\<close>: the whole match for 0, the last capture of a group, or nothing.\<close>

definition span_of :: "nat \<times> mark \<Rightarrow> nat \<Rightarrow> (nat \<times> nat) option" where
  "span_of m g = (if g = 0 then Some (fst m, fst (snd m)) else map_of (snd (snd m)) g)"

lemma finditer_inside: "m \<in> set (finditer r s p advance) \<Longrightarrow> fst m \<le> fst (snd m) \<and> forward s (fst m, []) (snd m)"
proof (induction r s p advance rule: finditer.induct)
  case (1 r s p advance)
  show ?case
  proof (cases "search r s p advance")
    case None
    with 1(2) show ?thesis by (simp add: finditer.simps [of r s p advance])
  next
    case (Some qe)
    obtain q e where qe: "qe = (q, e)" by (cases qe)
    have "m = (q, e) \<or> m \<in> set (finditer r s (fst e) (fst e = q))"
      using 1(2) Some by (simp add: finditer.simps [of r s p advance] qe)
    then show ?thesis
    proof
      assume m: "m = (q, e)"
      have "forward s (q, []) e" using search_found [OF Some [unfolded qe]] runs_forward by fastforce
      with m show ?thesis by (simp add: forward_def)
    next
      assume "m \<in> set (finditer r s (fst e) (fst e = q))"
      with 1(1) [OF Some qe [symmetric]] show ?thesis .
    qed
  qed
qed

lemma span_inside:
  assumes "m \<in> set (finditer r s 0 False)" "span_of m g = Some (i, j)"
  shows "i \<le> j" "j \<le> length s"
proof -
  have f: "fst m \<le> fst (snd m)" "forward s (fst m, []) (snd m)" using finditer_inside [OF assms(1)] by auto
  have "i \<le> j \<and> j \<le> fst (snd m)"
    using assms(2) f by (auto simp: span_of_def forward_def split: if_splits dest!: map_of_SomeD)
  with f(2) show "i \<le> j" "j \<le> length s" by (auto simp: forward_def)
qed

section \<open>What the engine finds, without its order\<close>

text \<open>The positions an expression leads from and to; a repetition is a number of rounds in its bounds.\<close>

inductive reaches :: "string \<Rightarrow> rx \<Rightarrow> nat \<Rightarrow> nat \<Rightarrow> bool" for s where
  reaches_empty: "reaches s Empty i i"
| reaches_class: "i < length s \<Longrightarrow> in_class inverted ranges (s ! i) \<Longrightarrow> reaches s (Class inverted ranges) i (Suc i)"
| reaches_bol: "reaches s Bol 0 0"
| reaches_eol: "i = length s \<or> Suc i = length s \<and> s ! i = newline \<Longrightarrow> reaches s Eol i i"
| reaches_seq: "reaches s a i j \<Longrightarrow> reaches s b j k \<Longrightarrow> reaches s (Seq a b) i k"
| reaches_left: "reaches s a i j \<Longrightarrow> reaches s (Alt a b) i j"
| reaches_right: "reaches s b i j \<Longrightarrow> reaches s (Alt a b) i j"
| reaches_stop: "reaches s (Rep 0 hi a) i i"
| reaches_round: "hi \<noteq> Some 0 \<Longrightarrow> reaches s a i j \<Longrightarrow> reaches s (Rep (lo - 1) (map_option (\<lambda>h. h - 1) hi) a) j k \<Longrightarrow> reaches s (Rep lo hi a) i k"
| reaches_group: "reaches s a i j \<Longrightarrow> reaches s (Group n a) i j"

inductive_simps reaches_simps [simp]:
  "reaches s Empty i j" "reaches s (Class inverted ranges) i j" "reaches s Bol i j" "reaches s Eol i j"
  "reaches s (Seq a b) i j" "reaches s (Alt a b) i j" "reaches s (Group n a) i j"

text \<open>A function from marks finds what an expression reaches.\<close>

definition finds :: "string \<Rightarrow> (mark \<Rightarrow> mark list) \<Rightarrow> rx \<Rightarrow> bool" where
  "finds s f r \<longleftrightarrow> (\<forall>m. fst m \<le> length s \<longrightarrow> fst ` set (f m) = {j. reaches s r (fst m) j}) "

lemma finds_iff: "finds s f r \<Longrightarrow> fst m \<le> length s \<Longrightarrow> (\<exists>e \<in> set (f m). fst e = j) \<longleftrightarrow> reaches s r (fst m) j"
  unfolding finds_def by (metis (mono_tags, lifting) imageE image_eqI mem_Collect_eq)

lemma rounds_sound:
  assumes f: "finds s f a" "\<And>m e. e \<in> set (f m) \<Longrightarrow> fst m \<le> length s \<Longrightarrow> forward s m e"
  shows "e \<in> set (rounds k f lo hi m) \<Longrightarrow> fst m \<le> length s \<Longrightarrow> reaches s (Rep lo hi a) (fst m) (fst e)"
proof (induction k arbitrary: lo hi m)
  case 0
  then show ?case by (auto intro: reaches_stop split: if_splits)
next
  case (Suc k)
  then consider "e = m" "lo = 0" | n where "hi \<noteq> Some 0" "n \<in> set (f m)" "e \<in> set (rounds k f (lo - 1) (map_option (\<lambda>h. h - 1) hi) n)"
    by (auto split: if_splits)
  then show ?case
  proof cases
    case 2
    have "fst n \<le> length s" using f(2) [OF 2(2) Suc.prems(2)] by (simp add: forward_def)
    from Suc.IH [OF 2(3) this] have "reaches s (Rep (lo - 1) (map_option (\<lambda>h. h - 1) hi) a) (fst n) (fst e)" .
    moreover have "reaches s a (fst m) (fst n)" using finds_iff [OF f(1) Suc.prems(2)] 2(2) by blast
    ultimately show ?thesis using reaches_round [OF 2(1)] by blast
  qed (simp add: reaches_stop)
qed

definition wider :: "nat option \<Rightarrow> nat option \<Rightarrow> bool" where
  "wider hi hi' \<longleftrightarrow> (\<forall>h'. hi' = Some h' \<longrightarrow> (\<exists>h. hi = Some h \<and> h \<le> h'))"

lemma wider_pred: "wider hi hi' \<Longrightarrow> wider (map_option (\<lambda>h. h - 1) hi) (map_option (\<lambda>h. h - 1) hi')"
  "wider hi hi' \<Longrightarrow> wider (map_option (\<lambda>h. h - 1) hi) hi'" "wider hi hi' \<Longrightarrow> hi \<noteq> Some 0 \<Longrightarrow> hi' \<noteq> Some 0"
  by (auto simp: wider_def intro: diff_le_mono order_trans [OF diff_le_self])

lemma rounds_complete:
  assumes f: "finds s f a" "\<And>m e. e \<in> set (f m) \<Longrightarrow> fst m \<le> length s \<Longrightarrow> forward s m e"
    and "reaches s (Rep lo hi a) (fst m) j" "fst m \<le> length s" "wider hi hi'" "length s + lo - fst m < k"
  shows "\<exists>e \<in> set (rounds k f lo hi' m). fst e = j"
  using assms(3-)
proof (induction "Rep lo hi a" "fst m" j arbitrary: lo hi m hi' k rule: reaches.induct)
  case (reaches_stop hi)
  then show ?case by (cases k) auto
next
  case (reaches_round hi i lo j)
  obtain k' where k: "k = Suc k'" using reaches_round.prems by (cases k) auto
  obtain n where n: "n \<in> set (f m)" "fst n = i"
    using finds_iff [OF f(1), of m i] reaches_round by auto
  have le: "fst m \<le> i" "i \<le> length s" using f(2) [OF n(1)] n(2) reaches_round.prems by (auto simp: forward_def)
  show ?case
  proof (cases "lo = 0 \<and> i = fst m")
    case True
    then show ?thesis
      using reaches_round.hyps(5) [of m hi' k] reaches_round.prems wider_pred(2) by simp
  next
    case False
    have "\<exists>e \<in> set (rounds k' f (lo - 1) (map_option (\<lambda>h. h - 1) hi') n). fst e = j"
      using reaches_round.prems le False n(2) k by (intro reaches_round.hyps(5)) (auto dest: wider_pred(1))
    then show ?thesis
      using n False wider_pred(3) [OF reaches_round.prems(2) reaches_round.hyps(1)] unfolding k by auto
  qed
qed

lemma runs_find: "finds s (runs r s) r"
proof (induction r)
  case (Rep lo hi a)
  show ?case
    unfolding finds_def
  proof (intro allI impI set_eqI iffI)
    fix m :: mark and j assume m: "fst m \<le> length s"
    assume "j \<in> fst ` set (runs (Rep lo hi a) s m)"
    then obtain e where e: "e \<in> set (rounds (length s + lo - fst m + 1) (runs a s) lo hi m)" "fst e = j" unfolding runs.simps by blast
    have "reaches s (Rep lo hi a) (fst m) (fst e)"
      by (rule rounds_sound [OF Rep _ e(1) m]) (rule runs_forward)
    with e(2) show "j \<in> {j. reaches s (Rep lo hi a) (fst m) j}" by simp
  next
    fix m :: mark and j assume m: "fst m \<le> length s" and "j \<in> {j. reaches s (Rep lo hi a) (fst m) j}"
    then have j: "reaches s (Rep lo hi a) (fst m) j" by simp
    have "\<exists>e \<in> set (rounds (length s + lo - fst m + 1) (runs a s) lo hi m). fst e = j"
      by (rule rounds_complete [OF Rep _ j m]) (rule runs_forward, simp_all add: wider_def)
    then show "j \<in> fst ` set (runs (Rep lo hi a) s m)" by (force simp del: rounds.simps)
  qed
next
  case (Seq a b)
  show ?case
    unfolding finds_def
  proof (intro allI impI)
    fix m :: mark assume m: "fst m \<le> length s"
    have "fst ` set (runs (Seq a b) s m) = (\<Union>n \<in> set (runs a s m). fst ` set (runs b s n))" by auto
    also have "\<dots> = (\<Union>n \<in> set (runs a s m). {j. reaches s b (fst n) j})"
    proof (rule SUP_cong [OF refl])
      fix n assume "n \<in> set (runs a s m)"
      from runs_forward [OF this m] have "fst n \<le> length s" by (simp add: forward_def)
      with Seq.IH(2) show "fst ` set (runs b s n) = {j. reaches s b (fst n) j}" unfolding finds_def by blast
    qed
    also have "\<dots> = (\<Union>i \<in> fst ` set (runs a s m). {j. reaches s b i j})" by simp
    also have "\<dots> = (\<Union>i \<in> {i. reaches s a (fst m) i}. {j. reaches s b i j})"
      using Seq.IH(1) [unfolded finds_def, rule_format, OF m] by (simp only:)
    also have "\<dots> = {j. reaches s (Seq a b) (fst m) j}" by auto
    finally show "fst ` set (runs (Seq a b) s m) = {j. reaches s (Seq a b) (fst m) j}" .
  qed
next
  case (Alt a b)
  then show ?case by (auto simp: finds_def image_Un)
next
  case (Group n a)
  then show ?case by (simp add: finds_def image_image)
qed (auto simp: finds_def)

text \<open>Nothing is found exactly where nothing matches.\<close>

lemma finditer_none: "finditer r s 0 False = [] \<longleftrightarrow> (\<forall>i \<le> length s. \<forall>j. \<not> reaches s r i j)"
proof -
  have "runs r s (i, []) = [] \<longleftrightarrow> (\<forall>j. \<not> reaches s r i j)" if "i \<le> length s" for i
    using runs_find [of s r] that unfolding finds_def by (metis Collect_empty_eq fst_conv image_is_empty set_empty)
  then have "match_at r s i False = None \<longleftrightarrow> (\<forall>j. \<not> reaches s r i j)" if "i \<le> length s" for i
    using that by (simp add: match_at_def find_None_iff) (metis list.set_intros(1) list.exhaust empty_iff empty_set surj_pair)
  moreover have "search r s 0 False = None \<longleftrightarrow> (\<forall>i \<le> length s. match_at r s i False = None)"
  proof -
    have "List.map_filter f xs = [] \<longleftrightarrow> (\<forall>x \<in> set xs. f x = None)" for f :: "nat \<Rightarrow> (nat \<times> mark) option" and xs
      unfolding List.map_filter_def by (induction xs) (auto simp del: not_None_eq)
    moreover have "search r s 0 False = None \<longleftrightarrow> List.map_filter (\<lambda>q. map_option (Pair q) (match_at r s q False)) [0 ..< Suc (length s)] = []"
      by (simp add: search_def del: upt_Suc split: list.splits)
    ultimately show ?thesis by (auto simp: less_Suc_eq_le simp del: upt_Suc)
  qed
  ultimately show ?thesis by (auto simp: finditer.simps [of r s 0 False] split: option.splits)
qed

section \<open>The concrete syntax\<close>

definition escaped :: "char \<Rightarrow> char option" where
  "escaped c =
     (if c = CHR ''n'' then Some newline else if c = CHR ''t'' then Some (CHR 0x09) else if c = CHR ''r'' then Some (CHR 0x0D)
      else if is_alnum c then None else Some c)"

text \<open>The members of a class up to its bracket.\<close>

fun class_ranges :: "string \<Rightarrow> ((char \<times> char) list \<times> string) option" where
  "class_ranges [] = None"
| "class_ranges (a # s) =
     (if a = CHR '']'' then Some ([], s)
      else if a = backslash then
        (case s of
           [] \<Rightarrow> None
         | e # t \<Rightarrow>
             (case escaped e of
                None \<Rightarrow> None
              | Some c \<Rightarrow> map_option (\<lambda>(rs, u). ((c, c) # rs, u)) (class_ranges t)))
      else
        (case s of
           d # b # t \<Rightarrow>
             (if d = CHR ''-'' \<and> b \<noteq> CHR '']'' then
                if b = backslash \<or> b < a then None else map_option (\<lambda>(rs, u). ((a, b) # rs, u)) (class_ranges t)
              else map_option (\<lambda>(rs, u). ((a, a) # rs, u)) (class_ranges s))
         | _ \<Rightarrow> map_option (\<lambda>(rs, u). ((a, a) # rs, u)) (class_ranges s)))"

definition class_body :: "string \<Rightarrow> (rx \<times> string) option" where
  "class_body s =
     (let inverted = prefix ''^'' s; body = (if inverted then tl s else s) in
      if prefix '']'' body then None else map_option (\<lambda>(rs, u). (Class inverted rs, u)) (class_ranges body))"

text \<open>A quantifier: its bounds and what follows; a lazy or possessive one is refused.\<close>

definition counts :: "string \<Rightarrow> (nat \<times> nat option) option" where
  "counts t =
     (case split_on (CHR '','') t of
        [n] \<Rightarrow> if n \<noteq> [] \<and> list_all is_digit n then Some (nat_of_digits n, Some (nat_of_digits n)) else None
      | [m, n] \<Rightarrow>
          (if list_all is_digit (m @ n) \<and> (n \<noteq> [] \<longrightarrow> nat_of_digits m \<le> nat_of_digits n)
           then Some (nat_of_digits m, if n = [] then None else Some (nat_of_digits n)) else None)
      | _ \<Rightarrow> None)"

definition quantifier :: "string \<Rightarrow> ((nat \<times> nat option) option \<times> string) option" where
  "quantifier s =
     (let q =
        (case s of
           [] \<Rightarrow> Some (None, s)
         | c # t \<Rightarrow>
             (if c = CHR ''*'' then Some (Some (0, None), t) else if c = CHR ''+'' then Some (Some (1, None), t)
              else if c = CHR ''?'' then Some (Some (0, Some 1), t)
              else if c = CHR ''{'' then
                (if CHR ''}'' \<in> set t \<and> t \<noteq> [] then map_option (\<lambda>b. (Some b, after_char (CHR ''}'') t)) (counts (before_char (CHR ''}'') t)) else None)
              else Some (None, s)))
      in case q of
           Some (Some b, u) \<Rightarrow> if u \<noteq> [] \<and> hd u \<in> set ''?+*{'' then None else q
         | _ \<Rightarrow> q)"

definition quantified :: "rx \<Rightarrow> (nat \<times> nat option) option \<Rightarrow> rx" where
  "quantified r q = (case q of None \<Rightarrow> r | Some (lo, hi) \<Rightarrow> Rep lo hi r)"

text \<open>
  Alternatives of sequences of quantified atoms; \<open>n\<close> counts the groups opened so far.  A pattern
  nests no deeper than it is long, which is the fuel \<open>re_compile\<close> passes.
\<close>

fun parse_alternatives :: "nat \<Rightarrow> nat \<Rightarrow> string \<Rightarrow> (rx \<times> nat \<times> string) option"
  and parse_sequence :: "nat \<Rightarrow> nat \<Rightarrow> string \<Rightarrow> (rx \<times> nat \<times> string) option"
  and parse_atom :: "nat \<Rightarrow> nat \<Rightarrow> string \<Rightarrow> (rx \<times> nat \<times> string) option" where
  "parse_alternatives 0 n s = None"
| "parse_alternatives (Suc k) n s =
     (case parse_sequence k n s of
        None \<Rightarrow> None
      | Some (a, n', t) \<Rightarrow>
          (if prefix ''|'' t then map_option (\<lambda>(b, m, u). (Alt a b, m, u)) (parse_alternatives k n' (tl t)) else Some (a, n', t)))"
| "parse_sequence 0 n s = None"
| "parse_sequence (Suc k) n s =
     (if s = [] \<or> hd s \<in> set ''|)'' then Some (Empty, n, s)
      else
        (case parse_atom k n s of
           None \<Rightarrow> None
         | Some (a, n', t) \<Rightarrow>
             (case quantifier t of
                None \<Rightarrow> None
              | Some (q, u) \<Rightarrow> map_option (\<lambda>(b, m, v). (Seq (quantified a q) b, m, v)) (parse_sequence k n' u))))"
| "parse_atom 0 n s = None"
| "parse_atom (Suc k) n s =
     (if prefix ''(?:'' s then
        (case parse_alternatives k n (drop 3 s) of
           Some (a, m, t) \<Rightarrow> if prefix '')'' t then Some (a, m, tl t) else None
         | None \<Rightarrow> None)
      else if prefix ''(?'' s then None
      else if prefix ''('' s then
        (case parse_alternatives k (Suc n) (tl s) of
           Some (a, m, t) \<Rightarrow> if prefix '')'' t then Some (Group (Suc n) a, m, tl t) else None
         | None \<Rightarrow> None)
      else if prefix ''['' s then map_option (\<lambda>(a, t). (a, n, t)) (class_body (tl s))
      else if prefix ''^'' s then Some (Bol, n, tl s)
      else if prefix ''$'' s then Some (Eol, n, tl s)
      else if prefix ''.'' s then Some (Class True [(newline, newline)], n, tl s)
      else
        (case s of
           [] \<Rightarrow> None
         | c # t \<Rightarrow>
             (if c = backslash then
                (case t of [] \<Rightarrow> None | e # u \<Rightarrow> map_option (\<lambda>d. (Class False [(d, d)], n, u)) (escaped e))
              else if c \<in> set ''*+?{'' then None
              else Some (Class False [(c, c)], n, t))))"

text \<open>The expression and the number of its groups.\<close>

definition re_compile :: "string \<Rightarrow> (rx \<times> nat) res" where
  "re_compile s =
     (case parse_alternatives (3 * length s + 3) 0 s of
        Some (r, n, []) \<Rightarrow> Inr (r, n)
      | _ \<Rightarrow> Inl (ValueError ''regular expression''))"

section \<open>The steps of the reader\<close>

text \<open>What is left of a text is never longer than it was, and shorter after an atom.\<close>

lemma class_ranges_length: "class_ranges s = Some (rs, t) \<Longrightarrow> length t < length s"
proof (induction s arbitrary: rs t rule: class_ranges.induct)
  case (2 a s)
  note step = "2.prems" and later = "2.IH"
  note unfolded = class_ranges.simps(2) [of a]
  consider "s = []" | d where "s = [d]" | d b u where "s = d # b # u" by (metis list.exhaust)
  then show ?case
  proof cases
    case 1
    with step show ?thesis by (auto split: if_splits)
  next
    case 2
    with step show ?thesis by (auto split: if_splits option.splits)
  next
    case 3
    with step later show ?thesis
      by (auto simp del: class_ranges.simps simp: unfolded less_SucI split: if_splits option.splits)
  qed
qed simp

lemma class_body_length: "class_body s = Some (a, t) \<Longrightarrow> length t \<le> length s"
  by (cases s) (auto simp: class_body_def Let_def simp del: class_ranges.simps split: if_splits dest!: class_ranges_length)

lemma quantifier_length: "quantifier s = Some (q, t) \<Longrightarrow> length t \<le> length s"
proof -
  assume q: "quantifier s = Some (q, t)"
  have "length (after_char c u) \<le> length u" for c u
    using length_dropWhile_le [of "\<lambda>x. x \<noteq> c" u] by (simp add: after_char_def del: length_dropWhile_le)
  with q show ?thesis
    by (cases s) (auto simp: quantifier_def Let_def le_SucI split: if_splits option.splits)
qed

lemma parse_length:
  "parse_alternatives k n s = Some (a, m, t) \<Longrightarrow> length t \<le> length s"
  "parse_sequence k n s = Some (a, m, t) \<Longrightarrow> length t \<le> length s"
  "parse_atom k n s = Some (a, m, t) \<Longrightarrow> length t < length s"
proof (induction k n s and k n s and k n s arbitrary: a m t and a m t and a m t rule: parse_alternatives_parse_sequence_parse_atom.induct)
  case (2 k n s)
  then show ?case by (fastforce split: option.splits if_splits)
next
  case (4 k n s)
  then show ?case by (fastforce split: option.splits if_splits dest: quantifier_length)
next
  case (6 k n s)
  then show ?case
    by (fastforce split: option.splits if_splits list.splits simp: prefix_def dest!: class_body_length)
qed simp_all

text \<open>The steps \<open>re_compile\<close> takes are enough: more of them give the same.\<close>

lemma parse_steps:
  "3 * length s + 3 \<le> k \<Longrightarrow> k \<le> k' \<Longrightarrow> parse_alternatives k' n s = parse_alternatives k n s"
  "3 * length s + 2 \<le> k \<Longrightarrow> k \<le> k' \<Longrightarrow> parse_sequence k' n s = parse_sequence k n s"
  "3 * length s + 1 \<le> k \<Longrightarrow> k \<le> k' \<Longrightarrow> parse_atom k' n s = parse_atom k n s"
proof (induction k arbitrary: k' n s)
  case (Suc k)
  {
    case 1
    then obtain j where j: "k' = Suc j" "k \<le> j" by (cases k') auto
    have "parse_sequence j n s = parse_sequence k n s" using 1 j by (intro Suc.IH(2)) simp_all
    moreover have "parse_alternatives j m (tl t) = parse_alternatives k m (tl t)" if "parse_sequence k n s = Some (a, m, t)" "prefix ''|'' t" for a m t
      using parse_length(2) [OF that(1)] that(2) 1 j by (intro Suc.IH(1); cases t) auto
    ultimately show ?case unfolding j(1) by (auto split: option.splits)
  next
    case 2
    then obtain j where j: "k' = Suc j" "k \<le> j" by (cases k') auto
    have "parse_atom j n s = parse_atom k n s" using 2 j by (intro Suc.IH(3)) simp_all
    moreover have "parse_sequence j m u = parse_sequence k m u" if "parse_atom k n s = Some (a, m, t)" "quantifier t = Some (q, u)" for a m t q u
      using parse_length(3) [OF that(1)] quantifier_length [OF that(2)] 2 j by (intro Suc.IH(2)) simp_all
    ultimately show ?case unfolding j(1) by (auto split: option.splits)
  next
    case 3
    then obtain j where j: "k' = Suc j" "k \<le> j" by (cases k') auto
    have "parse_alternatives j n (drop 3 s) = parse_alternatives k n (drop 3 s)" if "prefix ''(?:'' s"
      using that 3 j by (intro Suc.IH(1)) (auto simp: prefix_def)
    moreover have "parse_alternatives j (Suc n) (tl s) = parse_alternatives k (Suc n) (tl s)" if "prefix ''('' s"
      using that 3 j by (intro Suc.IH(1)) (auto simp: prefix_def)
    ultimately show ?case unfolding j(1) by simp
  }
qed simp_all

end
