(* ===== verification/SkillfileMcp.thy ===== *)
theory SkillfileMcp
  imports Detectors EffectivePosture SemVer PurePaths
begin

text \<open>
  The oracle of MCP declarations in a Skillfile (\<open>tools/skillfile_mcp.py\<close>), with
  \<open>tools/mcp_url_grammar.py\<close> and \<open>portable_path\<close> and \<open>exact_patterns\<close> of
  \<open>tools/ccj1_grammar.py\<close>: the admission of declared servers, the plan over observed facts, and the
  checks of lock, plan and approval carriers.

  Parameters, in the record \<open>mcp_env\<close>: \<open>or_schema\<close>, the schema documents on disk;
  \<open>or_valid\<close>, the third-party validator; \<open>or_detectors\<close>, the published pattern classes;
  \<open>or_digest\<close>, the hexadecimal SHA-256 of bytes.
\<close>

record mcp_env =
  or_schema :: "string \<Rightarrow> json"
  or_valid :: "json \<Rightarrow> json \<Rightarrow> bool"
  or_detectors :: "json list"
  or_digest :: "string \<Rightarrow> string"

section \<open>Grammars\<close>

text \<open>\<open>exact_patterns\<close>: an anchored pattern must consume the whole text.\<close>

fun exact_patterns :: "json \<Rightarrow> json" where
  "exact_patterns (JObj d) = JObj (map (\<lambda>(k, v).
     (k, case v of
           JStr s \<Rightarrow> if k = ''pattern'' \<and> prefix ''^'' s \<and> suffix ''$'' s then JStr (s @ ''(?!['' @ [backslash] @ ''s'' @ [backslash] @ ''S])'') else v
         | _ \<Rightarrow> exact_patterns v)) d)"
| "exact_patterns (JArr vs) = JArr (map exact_patterns vs)"
| "exact_patterns v = v"

definition schema_valid :: "mcp_env \<Rightarrow> string \<Rightarrow> json \<Rightarrow> bool" where
  "schema_valid orc name v = or_valid orc (exact_patterns (or_schema orc name)) v"

definition is_control :: "char \<Rightarrow> bool" where
  "is_control c \<longleftrightarrow> ord_of c < 32 \<or> 127 \<le> ord_of c \<and> ord_of c < 160"

text \<open>\<open>url_valid\<close>; U+00AD is the one format character of the alphabet.\<close>

definition url_char :: "char \<Rightarrow> bool" where
  "url_char c \<longleftrightarrow> \<not> is_space c \<and> \<not> is_control c \<and> ord_of c \<noteq> 173 \<and> c \<notin> set ''${}'' \<and> c \<noteq> backslash"

definition url_tail :: "string \<Rightarrow> bool" where
  "url_tail s \<longleftrightarrow>
     (let digits = takeWhile is_digit (tl s); path = (if prefix '':'' s then dropWhile is_digit (tl s) else s) in
      (prefix '':'' s \<longrightarrow> digits \<noteq> [] \<and> length digits \<le> 5) \<and>
      (path = [] \<or> hd path = CHR ''/'' \<and> list_all (\<lambda>c. \<not> is_space c \<and> c \<notin> set ''?#@'') path))"

definition url_valid :: "json \<Rightarrow> bool" where
  "url_valid v =
     (case v of
        JStr url \<Rightarrow>
          (let host_char = (\<lambda>c. is_alnum c \<or> c \<in> set ''.-''); rest = drop 8 url; host = takeWhile host_char rest in
           9 \<le> length url \<and> length url \<le> 4096 \<and> list_all url_char url \<and> prefix ''https://'' url \<and>
           host \<noteq> [] \<and> is_alnum (hd host) \<and> url_tail (dropWhile host_char rest))
      | _ \<Rightarrow> False)"

text \<open>\<open>portable_path\<close>; no character of the alphabet outside ASCII has a reserved upper case.\<close>

definition upper_ascii :: "string \<Rightarrow> string" where
  "upper_ascii s = map (\<lambda>c. if is_lower c then char_of (ord_of c - 32) else c) s"

definition reserved_names :: "string list" where
  "reserved_names = [''CON'', ''PRN'', ''AUX'', ''NUL''] @ map (\<lambda>n. ''COM'' @ nat_text n) [1 ..< 10] @ map (\<lambda>n. ''LPT'' @ nat_text n) [1 ..< 10]"

definition portable_component :: "string \<Rightarrow> bool" where
  "portable_component w \<longleftrightarrow> w \<notin> {[], ''.'', ''..''} \<and> last w \<notin> set ''. '' \<and> upper_ascii (before_char (CHR ''.'') w) \<notin> set reserved_names"

definition portable_path :: "json \<Rightarrow> bool" where
  "portable_path v =
     (case v of
        JStr s \<Rightarrow> s \<noteq> [] \<and> list_all (\<lambda>c. c \<noteq> backslash \<and> c \<noteq> CHR '':'' \<and> \<not> is_control c) s \<and>
          list_all portable_component (split_on (CHR ''/'') s)
      | _ \<Rightarrow> False)"

section \<open>Strict documents\<close>

definition invalid :: "'a res" where
  "invalid = Inl (Refusal ''mcp_declaration_invalid'')"

fun scalar_tree :: "json \<Rightarrow> unit res" where
  "scalar_tree (JInt i) = (if abs i > SAFE_INTEGER then invalid else Inr ())"
| "scalar_tree (JArr vs) = for_each scalar_tree vs"
| "scalar_tree (JObj d) = for_each (\<lambda>(k, v). scalar_tree v) d"
| "scalar_tree _ = Inr ()"

definition mcp_hooks :: hooks where
  "mcp_hooks = \<lparr>parse_int = ccj_integer, parse_other = (\<lambda>_. invalid), parse_pairs = object_pairs (Refusal ''mcp_declaration_invalid'')\<rparr>"

text \<open>\<open>strict_load\<close>: everything that goes wrong, in bytes or text, is one refusal.\<close>

datatype raw = Text string | Bytes string

definition strict_load :: "raw \<Rightarrow> json res" where
  "strict_load r =
     (case (case r of Text s \<Rightarrow> Some s | Bytes b \<Rightarrow> utf8_decode b) of
        None \<Rightarrow> invalid
      | Some s \<Rightarrow>
          (case and_then (json_loads mcp_hooks s) (\<lambda>v. and_then (scalar_tree v) (\<lambda>_. Inr v)) of
             Inr v \<Rightarrow> Inr v
           | Inl _ \<Rightarrow> invalid))"

definition canonical :: "json \<Rightarrow> string res" where
  "canonical v = and_then (scalar_tree v) (\<lambda>_. Inr (utf8 (json_text v)))"

definition digest :: "mcp_env \<Rightarrow> json \<Rightarrow> string res" where
  "digest orc v = and_then (canonical v) (\<lambda>b. Inr (''sha256:'' @ or_digest orc b))"

section \<open>Servers\<close>

text \<open>\<open>VERSION\<close>, \<open>NPM_NAME\<close> and \<open>DIST\<close>, matched in full.\<close>

definition exact_version_text :: "string \<Rightarrow> bool" where
  "exact_version_text s = (case split_on (CHR ''.'') s of [a, b, c] \<Rightarrow> list_all canonical_decimal [a, b, c] | _ \<Rightarrow> False)"

definition low_alnum :: "char \<Rightarrow> bool" where
  "low_alnum c \<longleftrightarrow> is_lower c \<or> is_digit c"

definition npm_name :: "string \<Rightarrow> bool" where
  "npm_name s \<longleftrightarrow> s \<noteq> [] \<and> length s \<le> 214 \<and> low_alnum (hd s) \<and> list_all (\<lambda>c. low_alnum c \<or> c \<in> set ''._-'') s"

definition dist_name :: "string \<Rightarrow> bool" where
  "dist_name s \<longleftrightarrow> npm_name s \<and> low_alnum (last s)"

definition npm_pin :: "string \<Rightarrow> bool" where
  "npm_pin s \<longleftrightarrow>
     (let scope = before_char (CHR ''/'') (tl s); rest = (if prefix ''@'' s then after_char (CHR ''/'') (tl s) else s) in
      (prefix ''@'' s \<longrightarrow> CHR ''/'' \<in> set s \<and> npm_name scope) \<and>
      CHR ''@'' \<in> set rest \<and> npm_name (before_char (CHR ''@'') rest) \<and> exact_version_text (after_char (CHR ''@'') rest))"

definition dist_pin :: "string \<Rightarrow> string \<Rightarrow> bool" where
  "dist_pin sep s \<longleftrightarrow>
     (let name = before_char (hd sep) s; rest = drop (length name) s in
      prefix sep rest \<and> dist_name name \<and> exact_version_text (drop (length sep) rest))"

text \<open>A command: no separators, white space or controls, and not a directory.\<close>

definition command_text :: "string \<Rightarrow> bool" where
  "command_text s \<longleftrightarrow> s \<noteq> [] \<and> length s \<le> 255 \<and> s \<notin> {''.'', ''..''} \<and>
     list_all (\<lambda>c. c \<noteq> CHR ''/'' \<and> c \<noteq> backslash \<and> \<not> is_space c \<and> \<not> (ord_of c < 32 \<or> ord_of c = 127)) s"

definition runtime_pin :: "string \<Rightarrow> json list \<Rightarrow> bool res" where
  "runtime_pin command args =
     (if before_char (CHR ''.'') (lower command) \<in> {''npx'', ''uvx''} \<and> command \<notin> {''npx'', ''uvx''} then Inr False
      else if command = ''npx'' then
        (let rest = (if args \<noteq> [] \<and> str_in (hd args) [''-y'', ''--yes''] then tl args else args) in
         if rest = [] then Inr False else and_then (as_text (hd rest)) (\<lambda>s. Inr (npm_pin s)))
      else if command = ''uvx'' then
        (if args \<noteq> [] \<and> hd args = JStr ''--from'' then
           if length args < 3 then Inr False
           else and_then (as_text (args ! 1)) (\<lambda>s. if \<not> dist_pin ''=='' s then Inr False
             else and_then (as_text (args ! 2)) (\<lambda>t. Inr (command_text t \<and> \<not> prefix ''-'' t)))
         else if args = [] then Inr False else and_then (as_text (hd args)) (\<lambda>s. Inr (dist_pin ''@'' s)))
      else Inr True)"

text \<open>No finding of the published detectors in the canonical text.\<close>

definition audit_clear :: "mcp_env \<Rightarrow> json \<Rightarrow> bool res" where
  "audit_clear orc v =
     and_then (canonical v) (\<lambda>_.
     and_then (detector_findings (or_detectors orc) (JStr ''synthetic-snapshot'') [(''agent-mcp.json'', json_text v)] []) (\<lambda>(findings, _).
     Inr (findings = [])))"

definition sorted_texts :: "json \<Rightarrow> json res" where
  "sorted_texts v = and_then (as_list v) (\<lambda>vs. and_then (map_res as_text vs) (\<lambda>ts. Inr (JArr (map JStr (sort ts)))))"

definition normalize_server :: "json \<Rightarrow> json res" where
  "normalize_server server =
     (case server of
        JObj d \<Rightarrow>
          and_then (sorted_texts (jget_or (JArr []) d ''env_names'')) (\<lambda>env_names.
          let d1 = AList.update ''env_names'' env_names d in
          if jhas d1 ''environments'' then
            and_then (sorted_texts (jget d1 ''environments'')) (\<lambda>environments. Inr (JObj (AList.update ''environments'' environments d1)))
          else Inr (JObj d1))
      | _ \<Rightarrow> Inl AttributeError)"

definition normalize_declaration :: "json \<Rightarrow> json res" where
  "normalize_declaration decl =
     (case (case decl of JStr url \<Rightarrow> JObj [(''server'', JObj [(''transport'', JStr ''http''), (''url'', JStr url)])] | _ \<Rightarrow> decl) of
        JObj d \<Rightarrow>
          and_then (if jhas d ''server'' then and_then (normalize_server (jget d ''server'')) (\<lambda>s. Inr (AList.update ''server'' s d)) else Inr d) (\<lambda>r.
          Inr (JObj (if jhas r ''install'' then r else r @ [(''install'', JObj [])])))
      | _ \<Rightarrow> Inl TypeError)"

definition env_name :: "string \<Rightarrow> bool" where
  "env_name s \<longleftrightarrow> s \<noteq> [] \<and> is_alnum (hd s) \<and> list_all (\<lambda>c. is_alnum c \<or> c \<in> set ''._-'') s \<and> last s \<noteq> CHR ''.''"

definition server_valid :: "mcp_env \<Rightarrow> json \<Rightarrow> bool res" where
  "server_valid orc server =
     both
       [Inr (schema_valid orc ''declaration-v1'' (JObj [(''server'', server)])),
        and_then (as_dict server) (\<lambda>d.
        and_then (as_list (jget_or (JArr []) d ''env_names'')) (\<lambda>names.
        and_then (any_res (\<lambda>n. and_then (as_text n) (\<lambda>s. Inr (\<not> env_name s))) names) (\<lambda>bad. Inr (\<not> bad)))),
        and_then (item_is server [''transport''] (JStr ''http'')) (\<lambda>http.
        if http then and_then (item server ''url'') (\<lambda>url. Inr (url_valid url))
        else and_then (text_at server [''command'']) (\<lambda>command.
          if \<not> command_text command then Inr False
          else and_then (list_at server [''args'']) (\<lambda>args. runtime_pin command args)))]"

definition package_byte_bounds :: "json \<Rightarrow> bool res" where
  "package_byte_bounds server =
     and_then (item_is server [''transport''] (JStr ''http'')) (\<lambda>http.
     if http then and_then (text_at server [''url'']) (\<lambda>url. Inr (length (utf8 url) \<le> 4096))
     else and_then (text_at server [''command'']) (\<lambda>command.
       if length (utf8 command) > 255 then Inr False
       else and_then (list_at server [''args'']) (\<lambda>args.
         and_then (any_res (\<lambda>a. and_then (as_text a) (\<lambda>s. Inr (length (utf8 s) > 8192))) args) (\<lambda>long. Inr (\<not> long)))))"

section \<open>Packages and declarations\<close>

text \<open>\<open>selection_matches\<close>: the internal facts of a resolution; a tag is attested elsewhere.\<close>

definition selection_matches :: "json \<Rightarrow> json \<Rightarrow> bool res" where
  "selection_matches selector resolved =
     and_then (as_dict selector) (\<lambda>d.
     and_then (if jhas d ''revision'' then same_item selector [''revision''] resolved [''commit''] else Inr True) (\<lambda>same.
     if \<not> same then Inr False
     else if jhas d ''range'' then
       and_then (item resolved ''version'') (\<lambda>v.
       case (case v of JStr s \<Rightarrow> semver_parse s | _ \<Rightarrow> None) of
         None \<Rightarrow> Inr False
       | Some version \<Rightarrow>
           and_then (as_text (jget d ''range'')) (\<lambda>r.
           and_then (range_parse r) (\<lambda>sets. Inr (range_satisfies sets version))))
     else Inr True))"

definition package_valid :: "json \<Rightarrow> bool res" where
  "package_valid package =
     and_then (item package ''git'') (\<lambda>git.
     if validate_repository_git git \<noteq> None then Inr False
     else
       let d = the_dict package in
       if jhas d ''directory'' \<and> \<not> portable_path (jget d ''directory'') then Inr False
       else if jhas d ''tag'' \<and> validate_git_ref_name (jget d ''tag'') \<noteq> None then Inr False
       else
         and_then (if jhas d ''revision'' then and_then (as_text (jget d ''revision'')) (\<lambda>s.
             Inr ((length s = 40 \<or> length s = 64) \<and> list_all (\<lambda>c. is_digit c \<or> c \<in> set ''abcdef'') s)) else Inr True) (\<lambda>revision.
         if \<not> revision then Inr False
         else if jhas d ''range'' then
           and_then (as_text (jget d ''range'')) (\<lambda>r.
           case range_parse r of Inr _ \<Rightarrow> Inr True | Inl (RangeInvalid _) \<Rightarrow> Inr False | Inl e \<Rightarrow> Inl e)
         else Inr True))"

definition declaration_valid :: "mcp_env \<Rightarrow> json \<Rightarrow> bool res" where
  "declaration_valid orc decl =
     (if \<not> schema_valid orc ''declaration-v1'' decl then Inr False
      else
        and_then (normalize_declaration decl) (\<lambda>model.
        if jhas (the_dict model) ''server'' then server_valid orc (jget (the_dict model) ''server'')
        else and_then (item model ''package'') package_valid))"

definition stage_a :: "json \<Rightarrow> bool" where
  "stage_a decl \<longleftrightarrow> is_dict decl \<and> jhas (the_dict decl) ''package''"

text \<open>\<open>identity\<close>: the host in lower case, and the path without \<open>.git\<close>.\<close>

definition address_host :: "string \<Rightarrow> string" where
  "address_host front = (if CHR ''@'' \<in> set front then after_char (CHR ''@'') front else front)"

definition identity_text :: "string \<Rightarrow> string \<Rightarrow> string" where
  "identity_text front path = lower (address_host front) @ ''/'' @ (if suffix ''.git'' path then take (length path - 4) path else path)"

definition mcp_identity :: "json \<Rightarrow> string res" where
  "mcp_identity git =
     and_then (as_text git) (\<lambda>v.
     case match_https v of
       Some path \<Rightarrow> Inr (identity_text (before_char (CHR ''/'') (drop 8 v)) path)
     | None \<Rightarrow>
         (case match_ssh_uri v of
            Some path \<Rightarrow> Inr (identity_text (before_char (CHR ''/'') (drop 6 v)) path)
          | None \<Rightarrow>
              (case match_scp v of
                 Some path \<Rightarrow> Inr (identity_text (before_char (CHR '':'') v) path)
               | None \<Rightarrow> Inl AttributeError)))"

definition source_allowed :: "string \<Rightarrow> json \<Rightarrow> bool res" where
  "source_allowed source allowlist =
     (if \<not> truthy allowlist then Inr True
      else
        and_then (as_list allowlist) (\<lambda>ps.
        any_res (\<lambda>p. if p = JStr source then Inr True else and_then (as_text p) (\<lambda>t. Inr (prefix (t @ ''/'') source))) ps))"

text \<open>The environments a server is planned for, in order.\<close>

definition targets :: "json \<Rightarrow> json \<Rightarrow> string list res" where
  "targets server writable =
     and_then (as_dict server) (\<lambda>d.
     and_then (sorted_texts (jget_or writable d ''environments'')) (\<lambda>v. Inr (texts_in v)))"

definition ownership_allowed :: "dict \<Rightarrow> bool" where
  "ownership_allowed facts \<longleftrightarrow> \<not> truthy (jget_or jfalse facts ''foreign'')"

text \<open>A carrier that is an approval needs only its shape.\<close>

definition approval_valid :: "mcp_env \<Rightarrow> json \<Rightarrow> bool" where
  "approval_valid orc v \<longleftrightarrow> scalar_tree v = Inr () \<and> schema_valid orc ''mcp-approval-v1'' v"

definition policy_allowed :: "mcp_env \<Rightarrow> dict \<Rightarrow> string \<Rightarrow> string \<Rightarrow> json \<Rightarrow> bool res" where
  "policy_allowed orc facts name server_sha256 content_sha256 =
     (let action = jget_or (JStr ''none'') facts ''ownership_action''; record = jget facts ''action_record'' in
      if action = JStr ''none'' then Inr True
      else both
        [Inr (jget facts ''record_protected'' = jtrue), Inr (jget facts ''policy_allows_action'' = jtrue),
         Inr (is_dict record), Inr (approval_valid orc record),
         item_is record [''state''] (JStr ''active''), item_is record [''project_id''] (jget facts ''project_id''),
         item_is record [''name''] (JStr name), item_is record [''server_sha256''] (JStr server_sha256),
         item_is record [''content_sha256''] content_sha256, item_is record [''operation''] action,
         item_is record [''policy_sha256''] (jget facts ''policy_sha256'')])"

section \<open>The plan\<close>

definition ENVIRONMENTS :: "string list" where
  "ENVIRONMENTS = [''claude_code'', ''codex_cli'', ''opencode'', ''pi'', ''muse'']"

record mcp_row =
  row_name :: string
  row_environment :: string
  row_path :: json
  row_outcome :: string
  row_code :: "string option"

record mcp_plan =
  plan_code :: "string option"
  plan_warnings :: "string list"
  plan_rows :: "mcp_row list"
  plan_entries :: "json list"
  plan_options :: "(string \<times> string) list"

abbreviation refuse :: "string \<Rightarrow> 'a res" where "refuse code \<equiv> Inl (Refusal code)"

definition default_writable :: json where
  "default_writable = JArr (map JStr [''claude_code'', ''codex_cli'', ''muse''])"

text \<open>\<open>facts.get("packages", {}).get(name)\<close> and \<open>facts.get("paths", {}).get(environment)\<close>.\<close>

definition fact_of :: "dict \<Rightarrow> string \<Rightarrow> string \<Rightarrow> json res" where
  "fact_of facts table k = and_then (dict_member facts table) (\<lambda>d. Inr (jget d k))"

definition check_resolved :: "dict \<Rightarrow> dict \<Rightarrow> unit res" where
  "check_resolved facts resolved =
     (let components = jget_or (JArr []) resolved ''directory_components''; says = (\<lambda>k. jget_or jtrue resolved k = jtrue) in
      and_then (guard (says ''snapshot_matches'') (Refusal ''source_snapshot_changed'')) (\<lambda>_.
      and_then (if truthy components then as_list components else Inr []) (\<lambda>cs.
      require
        [(list_all (\<lambda>c. c = JStr ''directory'') cs, Refusal ''profile_source_invalid''),
         (\<not> truthy (jget_or jfalse facts ''source_allowlist_empty''), Refusal ''source_allowlist_empty''),
         (says ''signed'', Refusal ''context_source_unsigned''), (says ''signers_present'', Refusal ''context_source_signers_missing''),
         (says ''version_matches'', Refusal ''context_version_mismatch''), (says ''signer_allowed'', Refusal ''context_source_signer_rejected'')])))"

text \<open>The package manifest a declaration resolved to, as the refusals allow it; the result is its normalized server.\<close>

definition check_package :: "mcp_env \<Rightarrow> string \<Rightarrow> json \<Rightarrow> json res" where
  "check_package orc name package =
     and_then (both
       [Inr (or_valid orc (exact_patterns (or_schema orc ''agent-mcp-v1'')) package), item_is package [''name''] (JStr name),
        and_then (item package ''server'') (server_valid orc), and_then (item package ''server'') package_byte_bounds]) (\<lambda>shaped.
     and_then (guard shaped (Refusal ''mcp_declaration_invalid'')) (\<lambda>_.
     and_then (audit_clear orc package) (\<lambda>clear.
     and_then (guard clear (Refusal ''context-secret-material'')) (\<lambda>_.
     and_then (item package ''server'') normalize_server))))"

definition outcome_of :: "json \<Rightarrow> string res" where
  "outcome_of action =
     (case action of
        JStr a \<Rightarrow>
          (case map_of [(''none'', ''added''), (''restore'', ''restored''), (''remove'', ''removed''), (''release'', ''released''), (''replace'', ''updated'')] a of
             Some w \<Rightarrow> Inr w | None \<Rightarrow> Inl (KeyError a))
      | JArr _ \<Rightarrow> Inl TypeError | JObj _ \<Rightarrow> Inl TypeError
      | _ \<Rightarrow> Inl (KeyError []))"

definition plan_row :: "dict \<Rightarrow> string \<Rightarrow> json \<Rightarrow> string \<Rightarrow> mcp_row res" where
  "plan_row facts name writable environment =
     and_then (as_list writable) (\<lambda>ws.
     let supported = (JStr environment \<in> set ws) in
     and_then (if supported then fact_of facts ''paths'' environment else Inr JNull) (\<lambda>path.
     and_then (guard (supported \<longrightarrow> path \<noteq> JNull) (Refusal ''mcp_contribution_policy_refused'')) (\<lambda>_.
     and_then (outcome_of (jget_or (JStr ''none'') facts ''ownership_action'')) (\<lambda>outcome.
     Inr \<lparr>row_name = name, row_environment = environment, row_path = path,
       row_outcome = (if supported then outcome else ''skipped: unsupported''), row_code = None\<rparr>))))"

definition writable_ok :: "json \<Rightarrow> bool res" where
  "writable_ok writable =
     and_then (as_list writable) (\<lambda>ws.
     and_then (guard (\<not> list_ex (\<lambda>w. is_list w \<or> is_dict w) ws) TypeError) (\<lambda>_.
     Inr (list_all (\<lambda>w. str_in w ENVIRONMENTS) ws)))"

text \<open>One declaration of the plan: its warnings, rows, lock entry and ignored install options.\<close>

definition plan_declaration ::
    "mcp_env \<Rightarrow> dict \<Rightarrow> string \<Rightarrow> json \<Rightarrow> (string list \<times> mcp_row list \<times> json \<times> (string \<times> string) list) res" where
  "plan_declaration orc facts name model =
     and_then (item model ''package'') (\<lambda>selector.
     and_then (and_then (item selector ''git'') mcp_identity) (\<lambda>source.
     let policy = jget_or (JArr []) facts ''mcp_allowlist'' in
     and_then (guard (truthy policy \<or> \<not> truthy (jget_or jfalse facts ''hardened'')) (Refusal ''mcp_package_allowlist_empty'')) (\<lambda>_.
     and_then (source_allowed source policy) (\<lambda>ok.
     and_then (guard ok (Refusal ''mcp_package_not_allowed'')) (\<lambda>_.
     and_then (fact_of facts ''packages'' name) (\<lambda>resolved.
     and_then (guard (resolved \<noteq> JNull) (Refusal ''source_snapshot_unavailable'')) (\<lambda>_.
     and_then (as_dict resolved) (\<lambda>r.
     and_then (check_resolved facts r) (\<lambda>_.
     and_then (check_package orc name (jget r ''manifest'')) (\<lambda>server.
     and_then (guard (jget_or (JStr ''ok'') facts ''preimage_read'' = JStr ''ok'') (Refusal ''environment_surface_unreadable'')) (\<lambda>_.
     and_then (guard (ownership_allowed facts) (Refusal ''mcp_native_entry_conflict'')) (\<lambda>_.
     and_then (digest orc server) (\<lambda>server_sha256.
     and_then (policy_allowed orc facts name server_sha256 (jget r ''content_sha256'')) (\<lambda>may.
     and_then (guard may (Refusal ''mcp_contribution_policy_refused'')) (\<lambda>_.
     let writable = jget_or default_writable facts ''writable'' in
     and_then (writable_ok writable) (\<lambda>known.
     and_then (guard known (Refusal ''mcp_declaration_invalid'')) (\<lambda>_.
     and_then (targets server writable) (\<lambda>environments.
     and_then (map_res (plan_row facts name writable) environments) (\<lambda>rows.
     and_then (digest orc model) (\<lambda>declaration_sha256.
     and_then (and_then (item model ''install'') as_dict) (\<lambda>install.
     Inr (if truthy policy then [] else [''mcp_package_allowlist_empty''], rows,
       JObj [(''name'', JStr name), (''declaration_sha256'', JStr declaration_sha256), (''server_sha256'', JStr server_sha256),
         (''normalized_server'', server)],
       map (Pair name) (sort (map fst install))))))))))))))))))))))))"

section \<open>The verdict on a manifest\<close>

type_synonym models = "(string \<times> json) list"

definition sorted_items :: "dict \<Rightarrow> dict" where
  "sorted_items d = sort_key fst d"

definition check_manifest :: "mcp_env \<Rightarrow> dict \<Rightarrow> json \<Rightarrow> dict res" where
  "check_manifest orc facts manifest =
     (let m = the_dict manifest; version = jget m ''schema_version'' in
      and_then (require
        [(is_dict manifest \<and> is_int version \<and> \<not> is_bool version, Refusal ''mcp_declaration_invalid''),
         (version = JInt 3 \<and> jget_or (JStr ''project'') facts ''scope'' = JStr ''project'' \<and> jget_or jtrue facts ''schema3_supported'' = jtrue,
          Refusal ''upgrade_required''),
         (schema_valid orc ''skillfile-v3'' manifest, Refusal ''mcp_declaration_invalid'')]) (\<lambda>_.
      dict_member m ''mcp_servers''))"

definition admit_declaration :: "mcp_env \<Rightarrow> json \<Rightarrow> json res" where
  "admit_declaration orc decl =
     and_then (declaration_valid orc decl) (\<lambda>ok.
     and_then (guard ok (Refusal ''mcp_declaration_invalid'')) (\<lambda>_.
     and_then (audit_clear orc decl) (\<lambda>clear.
     and_then (guard clear (Refusal ''context-secret-material'')) (\<lambda>_.
     normalize_declaration decl))))"

text \<open>The models admitted before the first refusal are kept for the report.\<close>

fun collect :: "mcp_env \<Rightarrow> dict \<Rightarrow> models \<Rightarrow> models \<times> unit res" where
  "collect orc [] ms = (ms, Inr ())"
| "collect orc ((name, decl) # ds) ms =
     (case admit_declaration orc decl of Inl e \<Rightarrow> (ms, Inl e) | Inr m \<Rightarrow> collect orc ds (ms @ [(name, m)]))"

definition plan_all :: "mcp_env \<Rightarrow> dict \<Rightarrow> models \<Rightarrow> mcp_plan res" where
  "plan_all orc facts models =
     and_then (map_res (\<lambda>(name, model). plan_declaration orc facts name model) models) (\<lambda>parts.
     Inr \<lparr>plan_code = None,
       plan_warnings = remdups (concat (map fst parts)),
       plan_rows = concat (map (fst \<circ> snd) parts),
       plan_entries = map (fst \<circ> snd \<circ> snd) parts,
       plan_options = concat (map (snd \<circ> snd \<circ> snd) parts)\<rparr>)"

definition server_name :: "string \<Rightarrow> bool" where
  "server_name s \<longleftrightarrow> s \<noteq> [] \<and> length s \<le> 128 \<and> is_alnum (hd s) \<and> list_all (\<lambda>c. is_alnum c \<or> c \<in> set ''_-'') s"

fun readmit :: "mcp_env \<Rightarrow> dict \<Rightarrow> models \<Rightarrow> models res" where
  "readmit orc [] ms = Inr ms"
| "readmit orc ((name, decl) # ds) ms =
     and_then (if server_name name then declaration_valid orc decl else Inr False) (\<lambda>ok.
     if ok then and_then (normalize_declaration decl) (\<lambda>m. readmit orc ds (AList.update name m ms)) else readmit orc ds ms)"

definition refused_row :: "dict \<Rightarrow> string \<Rightarrow> string \<Rightarrow> json \<Rightarrow> string \<Rightarrow> mcp_row res" where
  "refused_row facts code name writable environment =
     and_then (as_list writable) (\<lambda>ws.
     let supported = (JStr environment \<in> set ws) in
     and_then (if supported then fact_of facts ''paths'' environment else Inr JNull) (\<lambda>path.
     Inr \<lparr>row_name = name, row_environment = environment, row_path = path,
       row_outcome = (if supported then ''refused'' else ''skipped: unsupported''), row_code = (if supported then Some code else None)\<rparr>))"

definition refused_rows :: "mcp_env \<Rightarrow> dict \<Rightarrow> string \<Rightarrow> string \<times> json \<Rightarrow> mcp_row list res" where
  "refused_rows orc facts code nm =
     and_then (dict_member facts ''packages'') (\<lambda>packages.
     and_then (dict_member packages (fst nm)) (\<lambda>package.
     and_then (as_dict (snd nm)) (\<lambda>model.
     let manifest = jget package ''manifest'';
         server = (if truthy (jget model ''server'') then jget model ''server'' else if is_dict manifest then jget (the_dict manifest) ''server'' else JNull) in
     and_then (if server = JNull then Inr False else server_valid orc server) (\<lambda>ok.
     if \<not> ok then Inr []
     else
       let writable = jget_or default_writable facts ''writable'' in
       and_then (targets server writable) (\<lambda>environments. map_res (refused_row facts code (fst nm) writable) environments)))))"

definition refused_plan :: "mcp_env \<Rightarrow> dict \<Rightarrow> string \<Rightarrow> models \<Rightarrow> json \<Rightarrow> mcp_plan res" where
  "refused_plan orc facts code models manifest =
     (let declarations = (case manifest of JObj m \<Rightarrow> the_dict (jget m ''mcp_servers'') | _ \<Rightarrow> []) in
      and_then (readmit orc (sorted_items declarations) models) (\<lambda>ms.
      and_then (map_res (refused_rows orc facts code) (sort_key fst ms)) (\<lambda>rows.
      Inr \<lparr>plan_code = Some code, plan_warnings = [], plan_rows = concat rows, plan_entries = [], plan_options = []\<rparr>)))"

text \<open>Only a refusal becomes a verdict; any other exception leaves the function.\<close>

definition refused_with :: "mcp_env \<Rightarrow> dict \<Rightarrow> models \<Rightarrow> json \<Rightarrow> failure \<Rightarrow> mcp_plan res" where
  "refused_with orc facts models manifest e =
     (case e of Refusal code \<Rightarrow> refused_plan orc facts code models manifest | _ \<Rightarrow> Inl e)"

definition evaluate :: "mcp_env \<Rightarrow> raw \<Rightarrow> dict \<Rightarrow> mcp_plan res" where
  "evaluate orc r facts =
     (case strict_load r of
        Inl e \<Rightarrow> refused_with orc facts [] (JObj []) e
      | Inr manifest \<Rightarrow>
          (case check_manifest orc facts manifest of
             Inl e \<Rightarrow> refused_with orc facts [] manifest e
           | Inr declarations \<Rightarrow>
               (let (models, collected) = collect orc (sorted_items declarations) [] in
                case and_then collected (\<lambda>_.
                     and_then (guard (list_all stage_a (map snd declarations)) (Refusal ''mcp_inline_approval_unsupported'')) (\<lambda>_.
                     plan_all orc facts models)) of
                  Inl e \<Rightarrow> refused_with orc facts models manifest e
                | Inr plan \<Rightarrow> Inr plan)))"

section \<open>Carriers\<close>

definition without_key :: "string \<Rightarrow> json \<Rightarrow> json" where
  "without_key k v = JObj (filter (\<lambda>(k', _). k' \<noteq> k) (the_dict v))"

definition digest_matches :: "mcp_env \<Rightarrow> json \<Rightarrow> string \<Rightarrow> json \<Rightarrow> bool res" where
  "digest_matches orc v field w = and_then (digest orc w) (\<lambda>h. item_is v [field] (JStr h))"

definition increasing :: "'a::linorder list \<Rightarrow> bool" where
  "increasing xs \<longleftrightarrow> xs = sorted_list_of_set (set xs)"

definition lock_entry_valid :: "mcp_env \<Rightarrow> json \<Rightarrow> bool res" where
  "lock_entry_valid orc entry =
     and_then (and_then (item entry ''declaration'') normalize_declaration) (\<lambda>model.
     and_then (item entry ''resolved'') (\<lambda>resolved.
     both
       [declaration_valid orc model, item_is entry [''declaration''] model,
        digest_matches orc entry ''declaration_sha256'' model, audit_clear orc model,
        and_then (item resolved ''server'') (audit_clear orc),
        and_then (item resolved ''server'') (server_valid orc),
        and_then (item resolved ''server'') package_byte_bounds,
        and_then (item model ''package'') (\<lambda>selector. selection_matches selector resolved),
        and_then (item resolved ''server'') (\<lambda>server. and_then (normalize_server server) (\<lambda>n. Inr (py_eq server n))),
        and_then (item resolved ''server'') (digest_matches orc resolved ''server_sha256''),
        and_then (at_path model [''package'', ''git'']) (\<lambda>git. and_then (mcp_identity git) (\<lambda>source. item_is resolved [''source''] (JStr source))),
        and_then (and_then (item model ''package'') as_dict) (\<lambda>package. item_is resolved [''directory''] (jget package ''directory''))]))"

definition all_res :: "('a \<Rightarrow> bool res) \<Rightarrow> 'a list \<Rightarrow> bool res" where
  "all_res f xs = negated (any_res (\<lambda>x. negated (f x)) xs)"

definition lock_valid :: "mcp_env \<Rightarrow> json \<Rightarrow> bool res" where
  "lock_valid orc v =
     both
       [same_item v [''skills_lock'', ''manifest_sha256''] v [''manifest_sha256''],
        and_then (item v ''skills_lock'') (\<lambda>s. digest_matches orc s ''lock_sha256'' (without_key ''lock_sha256'' s)),
        and_then (list_at v [''entries'']) (\<lambda>es. and_then (map_res (\<lambda>e. text_at e [''name'']) es) (\<lambda>ns. Inr (increasing ns))),
        and_then (list_at v [''entries'']) (all_res (lock_entry_valid orc))]"

definition success_outcomes :: "string list" where
  "success_outcomes = [''added'', ''updated'', ''unchanged'', ''restored'', ''removed'', ''released'']"

definition is_refusal :: "json \<Rightarrow> bool res" where
  "is_refusal row = and_then (item row ''outcome'') (\<lambda>w. in_frozenset w [''refused'', ''conflict: foreign entry''])"

definition plan_row_valid :: "bool \<Rightarrow> json \<Rightarrow> bool res" where
  "plan_row_valid refusals row =
     and_then (item row ''path'') (\<lambda>path.
     and_then (item row ''outcome'') (\<lambda>outcome.
     and_then (item row ''code'') (\<lambda>code.
     and_then (in_frozenset outcome success_outcomes) (\<lambda>success.
     Inr ((path = JNull \<or> portable_path path) \<and> ((outcome = JStr ''refused'') = (code \<noteq> JNull)) \<and>
       (outcome = JStr ''skipped: unsupported'' \<longrightarrow> path = JNull) \<and>
       (success \<longrightarrow> path \<noteq> JNull) \<and> (refusals \<longrightarrow> \<not> success))))))"

definition pair_at :: "string \<Rightarrow> string \<Rightarrow> json \<Rightarrow> (string \<times> string) res" where
  "pair_at a b v = and_then (text_at v [a]) (\<lambda>x. and_then (text_at v [b]) (\<lambda>y. Inr (x, y)))"

definition plan_valid :: "json \<Rightarrow> bool res" where
  "plan_valid v =
     and_then (list_at v [''rows'']) (\<lambda>rows.
     and_then (map_res (pair_at ''name'' ''environment'') rows) (\<lambda>keys.
     if \<not> increasing keys then Inr False
     else
       and_then (any_res is_refusal rows) (\<lambda>refusals.
       both
         [if rows = [] \<or> refusals then Inr True else and_then (item v ''lock_sha256'') (\<lambda>l. Inr (l \<noteq> JNull)),
          all_res (plan_row_valid refusals) rows,
          and_then (list_at v [''install_options'']) (\<lambda>os. and_then (map_res (pair_at ''name'' ''option'') os) (\<lambda>ks. Inr (increasing ks)))])))"

definition carrier_valid :: "mcp_env \<Rightarrow> string \<Rightarrow> json \<Rightarrow> bool res" where
  "carrier_valid orc name v =
     (if scalar_tree v \<noteq> Inr () \<or> \<not> schema_valid orc name v then Inr False
      else if name = ''mcp-approval-v1'' then Inr True
      else
        let field = (if name = ''mcp-lock-v1'' then ''lock_sha256'' else ''plan_sha256'') in
        both [digest_matches orc v field (without_key field v), if name = ''mcp-lock-v1'' then lock_valid orc v else plan_valid v])"

section \<open>The corpus\<close>

definition row_json :: "mcp_row \<Rightarrow> json" where
  "row_json r = JObj [(''name'', JStr (row_name r)), (''environment'', JStr (row_environment r)), (''path'', row_path r),
     (''outcome'', JStr (row_outcome r)), (''code'', jopt (row_code r))]"

text \<open>The dictionary \<open>evaluate\<close> returns; a refusal carries no warnings, entries or options.\<close>

definition plan_json :: "mcp_plan \<Rightarrow> dict" where
  "plan_json p =
     [(''code'', jopt (plan_code p)), (''rows'', JArr (map row_json (plan_rows p))), (''mutated'', jfalse)] @
     (if plan_code p \<noteq> None then []
      else [(''warnings'', JArr (map JStr (plan_warnings p))), (''entries'', JArr (plan_entries p)),
        (''install_options'', JArr (map (\<lambda>(n, opt). JObj [(''name'', JStr n), (''option'', JStr opt), (''handling'', JStr ''ignored'')]) (plan_options p)))])"

definition mismatch :: "'a res" where
  "mismatch = Inl (ValueError ''MCP verdict mismatch'')"

definition check_planning :: "mcp_env \<Rightarrow> json \<Rightarrow> bool res" where
  "check_planning orc c =
     and_then (text_at c [''raw'']) (\<lambda>s.
     and_then (and_then (item c ''facts'') as_dict) (\<lambda>facts.
     and_then (evaluate orc (if truthy (jget_or jfalse (the_dict c) ''raw_bytes'') then Bytes (utf8 s) else Text s) facts) (\<lambda>plan.
     and_then (and_then (item c ''expected'') as_dict) (\<lambda>expected.
     and_then (guard (py_eq (JObj (map (\<lambda>(k, _). (k, jget (plan_json plan) k)) expected)) (JObj expected)) (ValueError ''MCP verdict mismatch'')) (\<lambda>_.
     and_then (item (JObj expected) ''code'') (\<lambda>code. Inr (code \<noteq> JNull)))))))"

definition check_mcp_case :: "mcp_env \<Rightarrow> json \<Rightarrow> bool res" where
  "check_mcp_case orc c =
     and_then (as_dict c) (\<lambda>d.
     and_then (guard (truthy (jget d ''claim'')) (ValueError ''MCP case claim missing'')) (\<lambda>_.
     and_then (item c ''kind'') (\<lambda>kind.
     if kind = JStr ''admission'' then
       and_then (item c ''declaration'') (\<lambda>decl.
       and_then (item c ''allowed'') (\<lambda>may.
       if py_eq (JBool (stage_a decl)) may then Inr (\<not> truthy may) else mismatch))
     else if kind = JStr ''normalization'' then
       and_then (and_then (item c ''declaration'') normalize_declaration) (\<lambda>model.
       and_then (item_is c [''normalized''] model) (\<lambda>same.
       and_then (digest_matches orc c ''digest'' model) (\<lambda>digests.
       if same \<and> digests then Inr False else mismatch)))
     else if kind = JStr ''planning'' then check_planning orc c
     else
       and_then (text_at c [''schema'']) (\<lambda>name.
       and_then (and_then (item c ''instance'') (carrier_valid orc name)) (\<lambda>verdict.
       and_then (item c ''valid'') (\<lambda>want.
       if py_eq (JBool verdict) want then Inr (\<not> truthy want) else Inl (ValueError ''MCP carrier mismatch'')))))))"

definition REQUIRED_REFUSALS :: "string list" where
  "REQUIRED_REFUSALS =
     [''upgrade_required'', ''mcp_declaration_invalid'', ''mcp_package_not_allowed'', ''mcp_package_allowlist_empty'',
      ''mcp_inline_approval_unsupported'', ''mcp_contribution_policy_refused'', ''mcp_native_entry_conflict'', ''context-secret-material'']"

definition of_kind :: "string \<Rightarrow> json list \<Rightarrow> json list" where
  "of_kind kind cs = filter (\<lambda>c. jget (the_dict c) ''kind'' = JStr kind) cs"

text \<open>\<open>check_corpus\<close>, given the bytes of its two files: the numbers of cases and of negative ones.\<close>

definition mcp_check_corpus :: "mcp_env \<Rightarrow> string \<Rightarrow> string \<Rightarrow> (nat \<times> nat) res" where
  "mcp_check_corpus orc case_bytes coverage_bytes =
     and_then (and_then (strict_load (Bytes case_bytes)) as_list) (\<lambda>cs.
     and_then (strict_load (Bytes coverage_bytes)) (\<lambda>inventory.
     and_then (map_res (\<lambda>c. item c ''id'') cs) (\<lambda>ids.
     and_then (list_at inventory [''cases'']) (\<lambda>names.
     and_then (guard (py_eq (JArr ids) (JArr names) \<and> length (remdups names) = length cs) (ValueError ''MCP case inventory mismatch'')) (\<lambda>_.
     and_then (map_res (\<lambda>c. at_path c [''expected'', ''code'']) (of_kind ''planning'' cs)) (\<lambda>codes.
     and_then (guard (JStr ` set REQUIRED_REFUSALS \<subseteq> set codes \<and> JNull \<in> set codes) (ValueError ''MCP refusal coverage mismatch'')) (\<lambda>_.
     and_then (for_each (\<lambda>schema.
         and_then (map_res (\<lambda>c. item c ''valid'') (filter (\<lambda>c. jget (the_dict c) ''schema'' = JStr schema) (of_kind ''carrier'' cs))) (\<lambda>verdicts.
         guard (set verdicts = {jtrue, jfalse}) (ValueError ''MCP carrier coverage mismatch'')))
       [''mcp-lock-v1'', ''mcp-plan-v1'', ''mcp-approval-v1'']) (\<lambda>_.
     and_then (map_res (check_mcp_case orc) cs) (\<lambda>negatives.
     Inr (length cs, length (filter id negatives)))))))))))"

section \<open>What a plan rests on\<close>

text \<open>A refused plan writes nothing: its rows are refused or skipped, under the one code.\<close>

definition inert :: "string \<Rightarrow> mcp_row \<Rightarrow> bool" where
  "inert code row \<longleftrightarrow>
     row_outcome row = ''refused'' \<and> row_code row = Some code \<or> row_outcome row = ''skipped: unsupported'' \<and> row_code row = None"

lemma map_res_elem: "map_res f xs = Inr ys \<Longrightarrow> y \<in> set ys \<Longrightarrow> \<exists>x \<in> set xs. f x = Inr y"
  by (rule list_all2_sides(1) [OF map_res_ok_set])

lemma refused_row_inert: "refused_row facts code name writable environment = Inr row \<Longrightarrow> inert code row"
  by (auto simp: refused_row_def and_then_ok_iff Let_def inert_def split: if_splits)

lemma refused_rows_inert: "refused_rows orc facts code nm = Inr rows \<Longrightarrow> row \<in> set rows \<Longrightarrow> inert code row"
proof -
  assume r: "refused_rows orc facts code nm = Inr rows" and row: "row \<in> set rows"
  from r obtain ok server where k: "(if \<not> ok then Inr [] else and_then (targets server (jget_or default_writable facts ''writable''))
      (map_res (refused_row facts code (fst nm) (jget_or default_writable facts ''writable'')))) = Inr rows"
    unfolding refused_rows_def Let_def and_then_ok_iff by (elim exE conjE) (rule that)
  then obtain writable environments where "rows = [] \<or> map_res (refused_row facts code (fst nm) writable) environments = Inr rows"
    by (cases ok) (auto simp: and_then_ok_iff)
  with row obtain environment where "refused_row facts code (fst nm) writable environment = Inr row"
    using map_res_elem [of _ environments rows row] by auto
  then show "inert code row" by (rule refused_row_inert)
qed

lemma refused_inert:
  assumes "refused_with orc facts models manifest e = Inr plan"
  shows "\<exists>code. e = Refusal code \<and> plan_code plan = Some code \<and> list_all (inert code) (plan_rows plan) \<and> plan_entries plan = []"
proof -
  from assms obtain code where c: "e = Refusal code" "refused_plan orc facts code models manifest = Inr plan"
    by (auto simp: refused_with_def split: failure.splits)
  then obtain ms rows where r: "map_res (refused_rows orc facts code) (sort_key fst ms) = Inr rows"
      "plan = \<lparr>plan_code = Some code, plan_warnings = [], plan_rows = concat rows, plan_entries = [], plan_options = []\<rparr>"
    by (auto simp: refused_plan_def and_then_ok_iff Let_def)
  have "inert code row" if "row \<in> set (concat rows)" for row
    using that map_res_elem [OF r(1)] refused_rows_inert by fastforce
  with c(1) r(2) show ?thesis by (auto simp: list_all_iff)
qed

text \<open>The two ways \<open>evaluate\<close> returns.\<close>

lemma evaluate_cases:
  assumes "evaluate orc r facts = Inr plan"
  obtains (refused) models manifest e where "refused_with orc facts models manifest e = Inr plan"
  | (planned) manifest declarations models where "strict_load r = Inr manifest" "check_manifest orc facts manifest = Inr declarations"
      "collect orc (sorted_items declarations) [] = (models, Inr ())" "list_all stage_a (map snd declarations)"
      "plan_all orc facts models = Inr plan"
proof (cases "strict_load r")
  case (Inl e)
  with assms refused show ?thesis by (simp add: evaluate_def)
next
  case (Inr manifest)
  note load = Inr
  show ?thesis
  proof (cases "check_manifest orc facts manifest")
    case (Inl e)
    with assms load refused show ?thesis by (simp add: evaluate_def)
  next
    case (Inr declarations)
    obtain models collected where c: "collect orc (sorted_items declarations) [] = (models, collected)" by fastforce
    show ?thesis
    proof (cases "and_then collected (\<lambda>_.
                     and_then (guard (list_all stage_a (map snd declarations)) (Refusal ''mcp_inline_approval_unsupported'')) (\<lambda>_.
                     plan_all orc facts models))")
      case (Inl e)
      with assms load Inr c refused show ?thesis by (simp add: evaluate_def)
    next
      case (Inr p)
      with assms load \<open>check_manifest orc facts manifest = Inr declarations\<close> c have "p = plan" by (simp add: evaluate_def)
      with Inr load \<open>check_manifest orc facts manifest = Inr declarations\<close> c planned show ?thesis
        by (auto simp: and_then_ok_iff)
    qed
  qed
qed

lemma collect_admits:
  "collect orc ds ms = (models, Inr ()) \<Longrightarrow> (n, m) \<in> set models \<Longrightarrow> (n, m) \<in> set ms \<or> (\<exists>d. (n, d) \<in> set ds \<and> admit_declaration orc d = Inr m)"
  by (induction orc ds ms rule: collect.induct) (auto split: sum.splits)

lemma sorted_items_set [simp]: "set (sorted_items d) = set d"
  by (simp add: sorted_items_def)

text \<open>Normalizing keeps every member but the server and the install options.\<close>

lemma normalized_member:
  assumes "normalize_declaration (JObj d) = Inr m" "k \<noteq> ''server''" "k \<noteq> ''install''"
  shows "item m k = item (JObj d) k"
proof -
  from assms(1) obtain r where r': "(if jhas d ''server'' then and_then (normalize_server (jget d ''server'')) (\<lambda>s. Inr (AList.update ''server'' s d)) else Inr d) = Inr r"
      and m: "m = JObj (if jhas r ''install'' then r else r @ [(''install'', JObj [])])"
    unfolding normalize_declaration_def by (simp only: json.case and_then_ok_iff) blast
  have r: "r = d \<or> (\<exists>s. r = AList.update ''server'' s d)"
    using r' by (auto simp: and_then_ok_iff split: if_splits)
  have "map_of r k = map_of d k" using r assms(2) by (auto simp: update_conv')
  then show ?thesis using m assms(3) by (auto simp: item_def map_add_def split: option.splits)
qed

text \<open>What the plan of one declaration has checked of the package it resolved to.\<close>

lemma planned_package:
  assumes "plan_declaration orc facts name model = Inr (ws, rows, entry, opts)"
  obtains git source r package server where
    "at_path model [''package'', ''git''] = Inr git" "mcp_identity git = Inr source"
    "source_allowed source (jget_or (JArr []) facts ''mcp_allowlist'') = Inr True"
    "fact_of facts ''packages'' name = Inr (JObj r)" "package = jget r ''manifest''"
    "item_is package [''name''] (JStr name) = Inr True" "item package ''server'' = Inr server"
    "server_valid orc server = Inr True" "package_byte_bounds server = Inr True" "audit_clear orc package = Inr True"
    "check_resolved facts r = Inr ()" "ownership_allowed facts"
    "\<forall>row \<in> set rows. row_name row = name \<and> (row_outcome row = ''skipped: unsupported'' \<or> row_path row \<noteq> JNull)"
proof -
  from assms obtain selector git source resolved r server writable environments where
    s: "item model ''package'' = Inr selector" "item selector ''git'' = Inr git" "mcp_identity git = Inr source"
      "source_allowed source (jget_or (JArr []) facts ''mcp_allowlist'') = Inr True"
      "fact_of facts ''packages'' name = Inr resolved" "as_dict resolved = Inr r" "check_resolved facts r = Inr ()"
      "check_package orc name (jget r ''manifest'') = Inr server" "ownership_allowed facts"
      "map_res (plan_row facts name writable) environments = Inr rows"
    by (auto simp: plan_declaration_def Let_def and_then_ok_iff)
  from s(8) have "both [Inr (or_valid orc (exact_patterns (or_schema orc ''agent-mcp-v1'')) (jget r ''manifest'')),
      item_is (jget r ''manifest'') [''name''] (JStr name), and_then (item (jget r ''manifest'') ''server'') (server_valid orc),
      and_then (item (jget r ''manifest'') ''server'') package_byte_bounds] = Inr True" and "audit_clear orc (jget r ''manifest'') = Inr True"
    by (auto simp: check_package_def and_then_ok_iff simp del: both.simps)
  then have q: "item_is (jget r ''manifest'') [''name''] (JStr name) = Inr True"
      "and_then (item (jget r ''manifest'') ''server'') (server_valid orc) = Inr True"
      "and_then (item (jget r ''manifest'') ''server'') package_byte_bounds = Inr True" "audit_clear orc (jget r ''manifest'') = Inr True"
    unfolding both_ok_iff by simp_all
  then obtain raw where p: "item_is (jget r ''manifest'') [''name''] (JStr name) = Inr True" "item (jget r ''manifest'') ''server'' = Inr raw"
      "server_valid orc raw = Inr True" "package_byte_bounds raw = Inr True" "audit_clear orc (jget r ''manifest'') = Inr True"
    unfolding and_then_ok_iff by auto
  have resolved: "resolved = JObj r" using s(6) by (auto simp: as_dict_def split: json.splits)
  have rows: "row_name row = name \<and> (row_outcome row = ''skipped: unsupported'' \<or> row_path row \<noteq> JNull)" if "row \<in> set rows" for row
    using map_res_elem [OF s(10) that] by (auto simp: plan_row_def and_then_ok_iff Let_def split: if_splits)
  have "at_path model [''package'', ''git''] = Inr git" using s(1,2) by simp
  then show thesis using that [OF _ s(3,4) s(5) [unfolded resolved] refl p s(7,9)] rows by blast
qed

text \<open>The server of a package is a valid URL, or a command whose runtime, if it is a package runner, is pinned.\<close>

definition server_sound :: "json \<Rightarrow> bool" where
  "server_sound server \<longleftrightarrow>
     (if item_is server [''transport''] (JStr ''http'') = Inr True then \<exists>url. item server ''url'' = Inr url \<and> url_valid url
      else \<exists>command args. text_at server [''command''] = Inr command \<and> command_text command \<and>
        list_at server [''args''] = Inr args \<and> runtime_pin command args = Inr True)"

lemma server_valid_sound: "server_valid orc server = Inr True \<Longrightarrow> server_sound server"
proof -
  assume "server_valid orc server = Inr True"
  then have "and_then (item_is server [''transport''] (JStr ''http'')) (\<lambda>http.
        if http then and_then (item server ''url'') (\<lambda>url. Inr (url_valid url))
        else and_then (text_at server [''command'']) (\<lambda>command.
          if \<not> command_text command then Inr False
          else and_then (list_at server [''args'']) (\<lambda>args. runtime_pin command args))) = Inr True"
    unfolding server_valid_def both_ok_iff by simp
  then obtain http where h: "item_is server [''transport''] (JStr ''http'') = Inr http"
      "(if http then and_then (item server ''url'') (\<lambda>url. Inr (url_valid url))
        else and_then (text_at server [''command'']) (\<lambda>command.
          if \<not> command_text command then Inr False
          else and_then (list_at server [''args'']) (\<lambda>args. runtime_pin command args))) = Inr True"
    unfolding and_then_ok_iff by blast
  show ?thesis
    using h(2) unfolding server_sound_def h(1) by (cases http) (auto simp: and_then_ok_iff split: if_splits)
qed

text \<open>
  C20: nothing is planned for a server that was not admitted.  Every row of a plan without a refusal is
  of a declaration of the manifest that names a package and holds no secret; the source of the package
  is on the allowlist, unless that is empty; the package that was resolved carries the declared name,
  is signed by an allowed signer, holds no secret, and its server is a valid URL or a command that, when
  it is one of the package runners \<open>npx\<close> and \<open>uvx\<close>, is pinned to an exact version; no foreign entry
  is in the way; and the row has a path unless it is skipped.
\<close>

theorem mcp_plan_admitted:
  assumes "evaluate orc r facts = Inr plan" "plan_code plan = None" "row \<in> set (plan_rows plan)"
  shows "\<exists>manifest decl git source resolved server.
    strict_load r = Inr manifest \<and> schema_valid orc ''skillfile-v3'' manifest \<and>
    (row_name row, decl) \<in> set (the_dict (jget (the_dict manifest) ''mcp_servers'')) \<and>
    stage_a decl \<and> declaration_valid orc decl = Inr True \<and> audit_clear orc decl = Inr True \<and>
    at_path decl [''package'', ''git''] = Inr git \<and> mcp_identity git = Inr source \<and>
    source_allowed source (jget_or (JArr []) facts ''mcp_allowlist'') = Inr True \<and>
    fact_of facts ''packages'' (row_name row) = Inr (JObj resolved) \<and> check_resolved facts resolved = Inr () \<and>
    audit_clear orc (jget resolved ''manifest'') = Inr True \<and> item_is (jget resolved ''manifest'') [''name''] (JStr (row_name row)) = Inr True \<and>
    item (jget resolved ''manifest'') ''server'' = Inr server \<and> server_sound server \<and> \<not> truthy (jget_or jfalse facts ''foreign'') \<and>
    (row_outcome row = ''skipped: unsupported'' \<or> row_path row \<noteq> JNull)"
  using assms(1)
proof (cases rule: evaluate_cases)
  case (refused models manifest e)
  from refused_inert [OF this] assms(2) show ?thesis by auto
next
  case (planned manifest declarations models)
  from planned(2) have m: "schema_valid orc ''skillfile-v3'' manifest" "dict_member (the_dict manifest) ''mcp_servers'' = Inr declarations"
    by (auto simp: check_manifest_def Let_def and_then_ok_iff)
  from planned(5) obtain parts where parts: "map_res (\<lambda>(name, model). plan_declaration orc facts name model) models = Inr parts"
      "plan_rows plan = concat (map (fst \<circ> snd) parts)"
    by (auto simp: plan_all_def and_then_ok_iff)
  then obtain ws rows entry opts where part: "(ws, rows, entry, opts) \<in> set parts" "row \<in> set rows" using assms(3) by auto
  from map_res_elem [OF parts(1) part(1)] obtain name model where nm: "(name, model) \<in> set models"
      "plan_declaration orc facts name model = Inr (ws, rows, entry, opts)" by auto
  from collect_admits [OF planned(3) nm(1)] obtain decl where decl: "(name, decl) \<in> set declarations" "admit_declaration orc decl = Inr model"
    by auto
  from decl(2) have d: "declaration_valid orc decl = Inr True" "audit_clear orc decl = Inr True" "normalize_declaration decl = Inr model"
    by (auto simp: admit_declaration_def and_then_ok_iff)
  have a: "stage_a decl" using planned(4) decl(1) by (auto simp: list_all_iff)
  then obtain dd where dd: "decl = JObj dd" by (cases decl) (auto simp: stage_a_def)
  from nm(2) show ?thesis
  proof (cases rule: planned_package)
    case (1 git source resolved package server)
    have "at_path decl [''package'', ''git''] = Inr git"
      using 1(1) normalized_member [OF d(3) [unfolded dd], of "''package''"] by (simp add: dd)
    note git = this
    have row: "row_name row = name" "row_outcome row = ''skipped: unsupported'' \<or> row_path row \<noteq> JNull" using 1(13) part(2) by auto
    have "server_sound server" using server_valid_sound [OF 1(8)] .
    then show ?thesis
      using planned(1) m(1) decl(1) a d(1,2) git 1(2-4,6,7,10,11) 1(12) [unfolded ownership_allowed_def] row(2)
      unfolding row(1) dict_member_get [OF m(2)] 1(5)
      by - (rule exI [of _ manifest], rule exI [of _ decl], rule exI [of _ git], rule exI [of _ source], rule exI [of _ resolved],
        rule exI [of _ server], simp only: simp_thms dict_member_get [OF m(2)])
  qed
qed

text \<open>
  C22: a refusal writes nothing.  When \<open>evaluate\<close> returns a code, every row is refused under that
  code or skipped as unsupported, and there is no lock entry; and a manifest with one declaration that
  carries its server inline never gets a plan.
\<close>

theorem mcp_refusal_inert:
  assumes "evaluate orc r facts = Inr plan"
  shows "(\<forall>code. plan_code plan = Some code \<longrightarrow> list_all (inert code) (plan_rows plan) \<and> plan_entries plan = []) \<and>
    (\<forall>manifest name decl. strict_load r = Inr manifest \<and> (name, decl) \<in> set (the_dict (jget (the_dict manifest) ''mcp_servers'')) \<and>
       \<not> stage_a decl \<longrightarrow> plan_code plan \<noteq> None)"
  using assms
proof (cases rule: evaluate_cases)
  case (refused models manifest e)
  from refused_inert [OF this] show ?thesis by auto
next
  case (planned manifest declarations models)
  from planned(5) have "plan_code plan = None" by (auto simp: plan_all_def and_then_ok_iff)
  moreover from planned(2) have "the_dict (jget (the_dict manifest) ''mcp_servers'') = declarations"
    by (auto simp: check_manifest_def Let_def and_then_ok_iff dict_member_get)
  ultimately show ?thesis using planned(1,4) by (auto simp: list_all_iff)
qed

section \<open>Canonical documents are read back\<close>

lemma scalar_tree_iff: "scalar_tree v = Inr () \<longleftrightarrow> all_ints in_safe_range v"
  by (induction v rule: scalar_tree.induct)
    (auto simp: invalid_def for_each_ok_iff list_all_iff split: if_splits)

lemma mcp_hooks_faithful: "faithful in_safe_range mcp_hooks"
  by (simp add: faithful_def mcp_hooks_def ccj_integer_text object_pairs_def)

lemma strict_load_text: "all_ints in_safe_range v \<Longrightarrow> unique_keys v \<Longrightarrow> strict_load (Text (json_text v)) = Inr (canon v)"
proof -
  assume v: "all_ints in_safe_range v" "unique_keys v"
  then have "scalar_tree (canon v) = Inr ()" by (simp add: scalar_tree_iff)
  then show ?thesis using loads_text [OF mcp_hooks_faithful v(2,1)] by (simp add: strict_load_def)
qed

text \<open>
  \<open>strict_load\<close> reads back the bytes \<open>canonical\<close> writes: the same document, its keys in
  order, in bytes and as text.
\<close>

theorem strict_load_canonical:
  assumes "canonical v = Inr b" "unique_keys v"
  shows "strict_load (Bytes b) = Inr (canon v) \<and> strict_load (Text (json_text v)) = Inr (canon v)"
  using assms strict_load_text [of v] by (auto simp: canonical_def and_then_ok_iff scalar_tree_iff strict_load_def)

section \<open>Normal forms\<close>

lemma sorted_texts_idem: "sorted_texts v = Inr w \<Longrightarrow> sorted_texts w = Inr w"
proof -
  assume "sorted_texts v = Inr w"
  then obtain ts where "w = JArr (map JStr (sort ts))" by (auto simp: sorted_texts_def and_then_ok_iff)
  moreover have "map_res as_text (map JStr us) = Inr us" for us by (induction us) (simp_all add: as_text_def)
  ultimately show ?thesis by (simp add: sorted_texts_def as_list_def sorted_sort_id)
qed

lemma jget_update: "jget (AList.update k v d) k' = (if k' = k then v else jget d k')"
  by (simp add: jget_def update_conv')

lemma jhas_update: "jhas (AList.update k v d) k' \<longleftrightarrow> k' = k \<or> jhas d k'"
  using dom_update [of k v d] by (auto simp: jhas_def)

lemma update_get: "jhas d k \<Longrightarrow> AList.update k (jget d k) d = d"
  by (rule update_triv) (auto simp: jhas_def jget_def split: option.splits dest: weak_map_of_SomeI)

lemma get_or_has: "jhas d k \<Longrightarrow> jget_or x d k = jget d k"
  by (auto simp: jget_or_def jget_def jhas_def split: option.splits dest: weak_map_of_SomeI)

lemma normalize_server_idem:
  assumes "normalize_server s = Inr t"
  shows "normalize_server t = Inr t"
proof -
  from assms obtain d e where d: "s = JObj d" "sorted_texts (jget_or (JArr []) d ''env_names'') = Inr e"
    and u: "(if jhas (AList.update ''env_names'' e d) ''environments''
       then and_then (sorted_texts (jget (AList.update ''env_names'' e d) ''environments''))
         (\<lambda>environments. Inr (JObj (AList.update ''environments'' environments (AList.update ''env_names'' e d))))
       else Inr (JObj (AList.update ''env_names'' e d))) = Inr t"
    by (cases s) (auto simp: normalize_server_def and_then_ok_iff Let_def)
  note e = sorted_texts_idem [OF d(2)]
  from u obtain t' where t: "t = JObj t'" "jhas t' ''env_names''" "jget t' ''env_names'' = e"
      "jhas t' ''environments'' \<Longrightarrow> sorted_texts (jget t' ''environments'') = Inr (jget t' ''environments'')"
    by (auto simp: jhas_update jget_update and_then_ok_iff dest: sorted_texts_idem split: if_splits)
  have "AList.update ''env_names'' e t' = t'" using update_get [OF t(2)] t(3) by simp
  then show ?thesis
    using e t(4) update_get [of t' "''environments''"]
    by (simp add: t(1) normalize_server_def get_or_has [OF t(2)] t(3))
qed

text \<open>
  Normalizing a declaration a second time changes nothing, so that the digest of a declaration is
  the digest of its normal form, and a lock entry may be compared with it member by member.
\<close>

theorem normalize_declaration_idem:
  assumes "normalize_declaration decl = Inr model"
  shows "normalize_declaration model = Inr model"
proof -
  obtain d r where r: "(if jhas d ''server'' then and_then (normalize_server (jget d ''server'')) (\<lambda>s. Inr (AList.update ''server'' s d)) else Inr d) = Inr r"
    and m: "model = JObj (if jhas r ''install'' then r else r @ [(''install'', JObj [])])"
    using assms unfolding normalize_declaration_def
    by (cases decl) (simp_all only: json.case json.distinct sum.distinct and_then_ok_iff, blast+)
  have server: "normalize_server (jget r ''server'') = Inr (jget r ''server'')" if "jhas r ''server''"
    using r that by (auto simp: and_then_ok_iff jget_update jhas_update dest: normalize_server_idem split: if_splits)
  let ?m = "if jhas r ''install'' then r else r @ [(''install'', JObj [])]"
  have k: "jhas ?m ''install''" "jhas ?m ''server'' = jhas r ''server''" "jhas r ''server'' \<Longrightarrow> jget ?m ''server'' = jget r ''server''"
    by (auto simp: jhas_def jget_def map_add_def split: option.splits dest: weak_map_of_SomeI)
  show ?thesis
  proof (cases "jhas r ''server''")
    case True
    then have "AList.update ''server'' (jget ?m ''server'') ?m = ?m" by (intro update_get) (simp only: k)
    with True k(1) server [OF True] show ?thesis
      unfolding m normalize_declaration_def json.case k(2) k(3) [OF True] by simp
  next
    case False
    with k(1) show ?thesis unfolding m normalize_declaration_def json.case k(2) by simp
  qed
qed

section \<open>What a valid lock binds\<close>

lemma increasing_iff: "increasing xs \<longleftrightarrow> sorted_wrt (<) xs"
  by (metis increasing_def strict_sorted_iff sorted_list_of_set.idem_if_sorted_distinct distinct_sorted_list_of_set sorted_sorted_list_of_set)

lemma all_res_ok: "all_res f xs = Inr True \<longleftrightarrow> (\<forall>x \<in> set xs. f x = Inr True)"
  by (induction xs) (auto simp: all_res_def negated_ok and_then_ok_iff)

lemma digest_matches_ok: "digest_matches orc v field w = Inr True \<longleftrightarrow> (\<exists>h. digest orc w = Inr h \<and> item_is v [field] (JStr h) = Inr True)"
  by (auto simp: digest_matches_def and_then_ok_iff)

text \<open>What a valid lock entry holds: the declaration and the server, each with its digest, and how they fit.\<close>

definition entry_bound :: "mcp_env \<Rightarrow> json \<Rightarrow> bool" where
  "entry_bound orc entry \<longleftrightarrow> (\<exists>decl model resolved server canonical selector git source d h.
     item entry ''declaration'' = Inr decl \<and> normalize_declaration decl = Inr model \<and> py_eq decl model \<and>
     declaration_valid orc model = Inr True \<and> audit_clear orc model = Inr True \<and>
     digest orc model = Inr d \<and> item_is entry [''declaration_sha256''] (JStr d) = Inr True \<and>
     item entry ''resolved'' = Inr resolved \<and> item resolved ''server'' = Inr server \<and>
     server_sound server \<and> audit_clear orc server = Inr True \<and>
     normalize_server server = Inr canonical \<and> py_eq server canonical \<and>
     digest orc server = Inr h \<and> item_is resolved [''server_sha256''] (JStr h) = Inr True \<and>
     item model ''package'' = Inr (JObj selector) \<and> selection_matches (JObj selector) resolved = Inr True \<and>
     item_is resolved [''directory''] (jget selector ''directory'') = Inr True \<and>
     at_path model [''package'', ''git''] = Inr git \<and> mcp_identity git = Inr source \<and>
     item_is resolved [''source''] (JStr source) = Inr True)"

lemma lock_entry_bound:
  assumes "lock_entry_valid orc entry = Inr True"
  shows "entry_bound orc entry"
proof -
  from assms obtain decl model resolved where e: "item entry ''declaration'' = Inr decl" "normalize_declaration decl = Inr model" "item entry ''resolved'' = Inr resolved"
    unfolding lock_entry_valid_def and_then_ok_iff by blast
  from assms have q: "declaration_valid orc model = Inr True" "item_is entry [''declaration''] model = Inr True" "audit_clear orc model = Inr True"
      "digest_matches orc entry ''declaration_sha256'' model = Inr True"
      "and_then (item resolved ''server'') (audit_clear orc) = Inr True" "and_then (item resolved ''server'') (server_valid orc) = Inr True"
      "and_then (item resolved ''server'') (digest_matches orc resolved ''server_sha256'') = Inr True"
      "and_then (item resolved ''server'') (\<lambda>server. and_then (normalize_server server) (\<lambda>n. Inr (py_eq server n))) = Inr True"
      "and_then (item model ''package'') (\<lambda>selector. selection_matches selector resolved) = Inr True"
      "and_then (and_then (item model ''package'') as_dict) (\<lambda>package. item_is resolved [''directory''] (jget package ''directory'')) = Inr True"
      "and_then (at_path model [''package'', ''git'']) (\<lambda>git. and_then (mcp_identity git) (\<lambda>source. item_is resolved [''source''] (JStr source))) = Inr True"
    unfolding lock_entry_valid_def e and_then_Inr both_ok_iff by simp_all
  from q(5) obtain server where s: "item resolved ''server'' = Inr server" "audit_clear orc server = Inr True" unfolding and_then_ok_iff by blast
  from q(6-8) have sv: "server_sound server" "digest_matches orc resolved ''server_sha256'' server = Inr True"
      "\<exists>n. normalize_server server = Inr n \<and> py_eq server n"
    by (simp_all add: s(1) server_valid_sound and_then_ok_iff)
  from q(10) obtain package selector where p: "item model ''package'' = Inr package" "as_dict package = Inr selector"
      "item_is resolved [''directory''] (jget selector ''directory'') = Inr True"
    unfolding and_then_ok_iff by blast
  have package: "package = JObj selector" using p(2) by (cases package) (simp_all add: as_dict_def)
  have selects: "selection_matches (JObj selector) resolved = Inr True" using q(9) by (simp add: p(1) package)
  obtain git source where g: "at_path model [''package'', ''git''] = Inr git" "mcp_identity git = Inr source" "item_is resolved [''source''] (JStr source) = Inr True"
    using q(11) unfolding and_then_ok_iff by blast
  have "py_eq decl model" using q(2) e(1) by (simp add: item_is_def)
  then show ?thesis
    using e s q(1,3,4) sv p(1,3) selects g unfolding digest_matches_ok entry_bound_def package by blast
qed

text \<open>
  C21: a lock carrier binds what it locks.  A valid lock carries the digest of itself without that
  digest and the manifest digest of the skills lock; its entries are strictly ordered by name; and each
  entry is bound: its declaration is valid, in normal form, free of secrets and under its declared
  digest; its resolved server is a valid URL or a command whose package runner is pinned, in normal form,
  free of secrets and under its own digest; the resolved revision or version is one that the declaration
  selects; the directory is the declared one; and the source is the one that the declared address
  identifies.
\<close>

theorem mcp_lock_bound:
  assumes "carrier_valid orc ''mcp-lock-v1'' v = Inr True"
  shows "\<exists>h es ns. digest orc (without_key ''lock_sha256'' v) = Inr h \<and> item_is v [''lock_sha256''] (JStr h) = Inr True \<and>
    same_item v [''skills_lock'', ''manifest_sha256''] v [''manifest_sha256''] = Inr True \<and>
    list_at v [''entries''] = Inr es \<and> map_res (\<lambda>e. text_at e [''name'']) es = Inr ns \<and> sorted_wrt (<) ns \<and>
    (\<forall>entry \<in> set es. entry_bound orc entry)"
proof -
  from assms have c: "digest_matches orc v ''lock_sha256'' (without_key ''lock_sha256'' v) = Inr True" "lock_valid orc v = Inr True"
    by (auto simp: carrier_valid_def Let_def both_ok_iff simp del: both.simps split: if_splits)
  from c(2) have l: "and_then (list_at v [''entries'']) (\<lambda>es. and_then (map_res (\<lambda>e. text_at e [''name'']) es) (\<lambda>ns. Inr (increasing ns))) = Inr True"
      "and_then (list_at v [''entries'']) (all_res (lock_entry_valid orc)) = Inr True"
      "same_item v [''skills_lock'', ''manifest_sha256''] v [''manifest_sha256''] = Inr True"
    unfolding lock_valid_def both_ok_iff by simp_all
  from l(1) obtain es ns where es: "list_at v [''entries''] = Inr es" "map_res (\<lambda>e. text_at e [''name'']) es = Inr ns" "increasing ns"
    unfolding and_then_ok_iff by blast
  have "all_res (lock_entry_valid orc) es = Inr True" using l(2) es(1) by simp
  then have "\<forall>entry \<in> set es. lock_entry_valid orc entry = Inr True" by (simp only: all_res_ok)
  then have "\<forall>entry \<in> set es. entry_bound orc entry" using lock_entry_bound by blast
  with es c(1) l(3) show ?thesis unfolding digest_matches_ok increasing_iff by blast
qed

section \<open>A manifest that is planned, one that is not, and a lock\<close>

abbreviation zero_sha :: "string \<Rightarrow> string" where "zero_sha \<equiv> \<lambda>_. replicate 64 (CHR ''0'')"

definition sample_env :: mcp_env where
  "sample_env = \<lparr>or_schema = (\<lambda>_. JObj []), or_valid = (\<lambda>_ _. True), or_detectors = [], or_digest = zero_sha\<rparr>"

definition sample_package :: json where
  "sample_package = JObj [(''package'', JObj [(''git'', JStr ''https://code.example/tools/catalog.git''), (''tag'', JStr ''v1.2.3'')])]"

definition sample_inline :: json where
  "sample_inline = JStr ''https://docs.example/mcp''"

definition sample_skillfile :: "json \<Rightarrow> json" where
  "sample_skillfile decl = JObj [(''mcp_servers'', JObj [(''catalog'', decl)]), (''schema_version'', JInt 3)]"

definition sample_mcp_server :: json where
  "sample_mcp_server = JObj [(''transport'', JStr ''stdio''), (''command'', JStr ''npx''), (''args'', JArr [JStr ''-y'', JStr ''@tools/catalog@1.2.3'']),
     (''env_names'', JArr []), (''environments'', JArr [JStr ''claude_code'', JStr ''pi''])]"

definition sample_facts :: dict where
  "sample_facts =
     [(''mcp_allowlist'', JArr [JStr ''code.example/tools'']), (''paths'', JObj [(''claude_code'', JStr ''.mcp.json'')]),
      (''packages'', JObj [(''catalog'', JObj [(''manifest'', JObj [(''name'', JStr ''catalog''), (''server'', sample_mcp_server)])])])]"

lemma sample_skillfile_loads:
  "strict_load (Text (json_text (sample_skillfile sample_package))) = Inr (sample_skillfile sample_package)"
  "strict_load (Text (json_text (sample_skillfile sample_inline))) = Inr (sample_skillfile sample_inline)"
proof -
  have "all_ints in_safe_range (sample_skillfile sample_package)" "unique_keys (sample_skillfile sample_package)"
      "canon (sample_skillfile sample_package) = sample_skillfile sample_package"
      "all_ints in_safe_range (sample_skillfile sample_inline)" "unique_keys (sample_skillfile sample_inline)"
      "canon (sample_skillfile sample_inline) = sample_skillfile sample_inline"
    by code_simp+
  then show "strict_load (Text (json_text (sample_skillfile sample_package))) = Inr (sample_skillfile sample_package)"
    "strict_load (Text (json_text (sample_skillfile sample_inline))) = Inr (sample_skillfile sample_inline)"
    using strict_load_text by metis+
qed

definition sample_mcp_row :: mcp_row where
  "sample_mcp_row = \<lparr>row_name = ''catalog'', row_environment = ''claude_code'', row_path = JStr ''.mcp.json'', row_outcome = ''added'', row_code = None\<rparr>"

lemma sample_mcp_planned:
  "\<exists>plan. evaluate sample_env (Text (json_text (sample_skillfile sample_package))) sample_facts = Inr plan \<and> plan_code plan = None \<and>
     sample_mcp_row \<in> set (plan_rows plan)"
proof -
  have "(case check_manifest sample_env sample_facts (sample_skillfile sample_package) of
      Inl e \<Rightarrow> False
    | Inr declarations \<Rightarrow>
        (let (models, collected) = collect sample_env (sorted_items declarations) [] in
         case and_then collected (\<lambda>_. and_then (guard (list_all stage_a (map snd declarations)) (Refusal ''mcp_inline_approval_unsupported'')) (\<lambda>_.
           plan_all sample_env sample_facts models)) of
           Inl e \<Rightarrow> False | Inr plan \<Rightarrow> plan_code plan = None \<and> sample_mcp_row \<in> set (plan_rows plan)))"
    by code_simp
  then show ?thesis
    unfolding evaluate_def sample_skillfile_loads sum.case by (auto split: sum.splits prod.splits)
qed

theorem mcp_plan_admitted_witness:
  "\<exists>plan server. evaluate sample_env (Text (json_text (sample_skillfile sample_package))) sample_facts = Inr plan \<and>
     sample_mcp_row \<in> set (plan_rows plan) \<and> server_sound server"
proof -
  obtain plan where plan: "evaluate sample_env (Text (json_text (sample_skillfile sample_package))) sample_facts = Inr plan"
      "plan_code plan = None" "sample_mcp_row \<in> set (plan_rows plan)"
    using sample_mcp_planned by blast
  from mcp_plan_admitted [OF plan] plan(1,3) show ?thesis by blast
qed

lemma sample_mcp_refused:
  "\<exists>plan. evaluate sample_env (Text (json_text (sample_skillfile sample_inline))) sample_facts = Inr plan"
proof -
  have "(case check_manifest sample_env sample_facts (sample_skillfile sample_inline) of
      Inl e \<Rightarrow> False
    | Inr declarations \<Rightarrow>
        (let (models, collected) = collect sample_env (sorted_items declarations) [] in
         case and_then collected (\<lambda>_. and_then (guard (list_all stage_a (map snd declarations)) (Refusal ''mcp_inline_approval_unsupported'')) (\<lambda>_.
           plan_all sample_env sample_facts models)) of
           Inl e \<Rightarrow> (case refused_with sample_env sample_facts models (sample_skillfile sample_inline) e of Inl _ \<Rightarrow> False | Inr _ \<Rightarrow> True)
         | Inr plan \<Rightarrow> False))"
    by code_simp
  moreover have "(case x of Inl _ \<Rightarrow> False | Inr _ \<Rightarrow> True) \<longleftrightarrow> (\<exists>y. x = Inr y)" for x :: "mcp_plan res" by (cases x) auto
  ultimately show ?thesis
    unfolding evaluate_def sample_skillfile_loads sum.case by (simp split: sum.splits prod.splits)
qed

theorem mcp_refusal_inert_witness:
  "\<exists>plan code. evaluate sample_env (Text (json_text (sample_skillfile sample_inline))) sample_facts = Inr plan \<and>
     plan_code plan = Some code \<and> list_all (inert code) (plan_rows plan)"
proof -
  obtain plan where plan: "evaluate sample_env (Text (json_text (sample_skillfile sample_inline))) sample_facts = Inr plan"
    using sample_mcp_refused by blast
  have "(''catalog'', sample_inline) \<in> set (the_dict (jget (the_dict (sample_skillfile sample_inline)) ''mcp_servers''))" "\<not> stage_a sample_inline"
    by (simp_all add: sample_skillfile_def sample_inline_def stage_a_def)
  with mcp_refusal_inert [OF plan] plan sample_skillfile_loads(2) show ?thesis by (metis not_Some_eq)
qed

theorem strict_load_canonical_witness:
  "strict_load (Bytes (utf8 (json_text (sample_skillfile sample_package)))) = Inr (canon (sample_skillfile sample_package))"
proof -
  have "all_ints in_safe_range (sample_skillfile sample_package)" "unique_keys (sample_skillfile sample_package)" by code_simp+
  then show ?thesis
    using strict_load_canonical [of "sample_skillfile sample_package"] by (simp add: canonical_def scalar_tree_iff [THEN iffD2])
qed

theorem normalize_declaration_idem_witness:
  "\<exists>model. normalize_declaration sample_inline = Inr model \<and> normalize_declaration model = Inr model"
proof -
  obtain model where "normalize_declaration sample_inline = Inr model"
    by (simp add: normalize_declaration_def sample_inline_def normalize_server_def sorted_texts_def as_list_def)
  with normalize_declaration_idem [OF this] show ?thesis by blast
qed

definition sample_digest :: json where
  "sample_digest = JStr (''sha256:'' @ zero_sha [])"

lemma sample_digest_of: "all_ints in_safe_range v \<Longrightarrow> digest sample_env v = Inr (the_str sample_digest)"
proof -
  assume "all_ints in_safe_range v"
  then have "scalar_tree v = Inr ()" by (simp only: scalar_tree_iff)
  then show ?thesis by (simp add: digest_def canonical_def sample_env_def sample_digest_def)
qed

lemma sample_clear: "all_ints in_safe_range v \<Longrightarrow> audit_clear sample_env v = Inr True"
proof -
  assume "all_ints in_safe_range v"
  then have "scalar_tree v = Inr ()" by (simp only: scalar_tree_iff)
  then show ?thesis by (simp add: audit_clear_def canonical_def sample_env_def detector_findings_def file_findings_def)
qed

definition sample_model :: json where
  "sample_model = JObj (the_dict sample_package @ [(''install'', JObj [])])"

definition sample_entry :: json where
  "sample_entry = JObj
     [(''name'', JStr ''catalog''), (''declaration_sha256'', sample_digest), (''declaration'', sample_model),
      (''resolved'', JObj [(''server'', sample_mcp_server), (''server_sha256'', sample_digest), (''source'', JStr ''code.example/tools/catalog''),
         (''version'', JStr ''1.2.3''), (''directory'', JNull)])]"

lemma sample_entry_valid: "lock_entry_valid sample_env sample_entry = Inr True"
proof -
  let ?resolved = "JObj [(''server'', sample_mcp_server), (''server_sha256'', sample_digest), (''source'', JStr ''code.example/tools/catalog''),
         (''version'', JStr ''1.2.3''), (''directory'', JNull)]"
  have ints: "all_ints in_safe_range sample_model" "all_ints in_safe_range sample_mcp_server"
    by (simp_all add: sample_model_def sample_package_def sample_mcp_server_def)
  have model: "normalize_declaration sample_model = Inr sample_model" "declaration_valid sample_env sample_model = Inr True"
      "py_eq sample_model sample_model"
    by code_simp+
  have server: "server_valid sample_env sample_mcp_server = Inr True" "package_byte_bounds sample_mcp_server = Inr True"
      "normalize_server sample_mcp_server = Inr sample_mcp_server" "py_eq sample_mcp_server sample_mcp_server"
    by code_simp+
  have selected: "and_then (item sample_model ''package'') (\<lambda>selector. selection_matches selector ?resolved) = Inr True"
      "at_path sample_model [''package'', ''git''] = Inr (JStr ''https://code.example/tools/catalog.git'')"
      "mcp_identity (JStr ''https://code.example/tools/catalog.git'') = Inr ''code.example/tools/catalog''"
      "and_then (and_then (item sample_model ''package'') as_dict) (\<lambda>package. item_is ?resolved [''directory''] (jget package ''directory'')) = Inr True"
    by code_simp+
  have items: "item sample_entry ''declaration'' = Inr sample_model" "item sample_entry ''resolved'' = Inr ?resolved"
      "item ?resolved ''server'' = Inr sample_mcp_server" "item_is sample_entry [''declaration''] sample_model = Inr True"
      "item_is sample_entry [''declaration_sha256''] (JStr (the_str sample_digest)) = Inr True"
      "item_is ?resolved [''server_sha256''] (JStr (the_str sample_digest)) = Inr True"
      "item_is ?resolved [''source''] (JStr ''code.example/tools/catalog'') = Inr True"
    using model(3) by (simp_all add: sample_entry_def item_def item_is_def sample_digest_def)
  show ?thesis
    unfolding lock_entry_valid_def items(1,2) and_then_Inr model(1) both_ok_iff
    by (simp only: list.set insert_iff ball_simps empty_iff simp_thms items and_then_Inr model server selected digest_matches_def
        sample_digest_of [OF ints(1)] sample_digest_of [OF ints(2)] sample_clear [OF ints(1)] sample_clear [OF ints(2)])
qed

definition sample_lock :: json where
  "sample_lock = JObj
     [(''lock_sha256'', sample_digest), (''manifest_sha256'', sample_digest),
      (''skills_lock'', JObj [(''manifest_sha256'', sample_digest), (''lock_sha256'', sample_digest)]),
      (''entries'', JArr [sample_entry])]"

lemma sample_lock_valid: "carrier_valid sample_env ''mcp-lock-v1'' sample_lock = Inr True"
proof -
  have ints: "all_ints in_safe_range sample_lock" "all_ints in_safe_range (without_key ''lock_sha256'' sample_lock)"
     "all_ints in_safe_range (without_key ''lock_sha256'' (JObj [(''manifest_sha256'', sample_digest), (''lock_sha256'', sample_digest)]))"
    by (simp_all add: sample_lock_def sample_entry_def sample_model_def sample_package_def sample_mcp_server_def sample_digest_def without_key_def)
  have "scalar_tree sample_lock = Inr ()" using ints(1) by (simp only: scalar_tree_iff)
  moreover have "digest_matches sample_env sample_lock ''lock_sha256'' (without_key ''lock_sha256'' sample_lock) = Inr True"
    by (simp add: digest_matches_def sample_digest_of [OF ints(2)]) (simp add: sample_lock_def item_is_def item_def sample_digest_def)
  moreover have "lock_valid sample_env sample_lock = Inr True"
    unfolding lock_valid_def both_ok_iff
    using sample_entry_valid
    by (simp add: digest_matches_def sample_lock_def item_def list_at_def as_list_def same_item_def sample_digest_of [OF ints(3)] all_res_ok)
      (simp add: item_is_def item_def sample_digest_def sample_entry_def text_at_def as_text_def increasing_iff)
  ultimately show ?thesis by (simp add: carrier_valid_def schema_valid_def sample_env_def)
qed

theorem mcp_lock_bound_witness:
  "\<exists>entry. list_at sample_lock [''entries''] = Inr [entry] \<and> entry_bound sample_env entry"
proof -
  have "\<exists>entry. list_at sample_lock [''entries''] = Inr [entry]" by (simp add: sample_lock_def list_at_def item_def as_list_def)
  then obtain entry where e: "list_at sample_lock [''entries''] = Inr [entry]" by blast
  with mcp_lock_bound [OF sample_lock_valid] show ?thesis by auto
qed

end
