(* ===== verification/Assurance.thy ===== *)
theory Assurance
  imports WireSemantics Cases
begin

text \<open>
  The evidence of a verified execution (\<open>tools/assurance.py\<close> and \<open>validate_assurance_vectors\<close>
  of \<open>tools/validate.py\<close>): the capability receipt of a provider, the permit, the cache identity,
  the execution receipt and the chain of checkpoints, each bound to the ones before by digests.

  \<open>sha\<close> is the hexadecimal SHA-256 of bytes, of which nothing is assumed, and \<open>fromiso\<close> is
  \<open>datetime.fromisoformat\<close>.
\<close>

section \<open>Flows\<close>

definition VERIFIED_CAPABILITIES :: "string list" where
  "VERIFIED_CAPABILITIES =
     [''total-network-denial-v1'', ''read-only-source-and-toolchain-v1'', ''exact-executable-allowlisting-v1'',
      ''private-build-root-only-writes-v1'', ''hard-aggregate-descendant-resource-bounds-v1'', ''fail-closed-capability-preflight-v1'']"

definition established :: json where
  "established = JArr (map (\<lambda>c. JObj [(''capability_id'', JStr c), (''status'', JStr ''established'')]) VERIFIED_CAPABILITIES)"

text \<open>\<open>ccj1_sha256\<close>, over the UTF-8 of the text.\<close>

definition record_sha256 :: "(string \<Rightarrow> string) \<Rightarrow> json \<Rightarrow> json" where
  "record_sha256 sha v = JStr (ccj1_sha256 (\<lambda>t. sha (utf8 t)) v)"

definition differs :: "dict \<Rightarrow> dict \<Rightarrow> string list \<Rightarrow> bool" where
  "differs a b ks \<longleftrightarrow> list_ex (\<lambda>k. \<not> py_eq (jget a k) (jget b k)) ks"

definition provider_error :: "json \<Rightarrow> json \<Rightarrow> string option" where
  "provider_error expected actual =
     (case (expected, actual) of
        (JObj e, JObj a) \<Rightarrow>
          (if differs a e [''provider_contract''] then Some ''verified_provider_unavailable''
           else if differs a e [''provider_id'', ''provider_binary_sha256'', ''provider_version'', ''operating_system'']
           then Some ''verified_provider_identity_invalid'' else None)
      | _ \<Rightarrow> Some ''verified_provider_identity_invalid'')"

definition of_provider :: "dict \<Rightarrow> dict \<Rightarrow> string option res" where
  "of_provider f r = Inr (provider_error (jget f ''provider'') (jget r ''provider''))"

definition check_mode :: "dict \<Rightarrow> string option res" where
  "check_mode f = first_message
     [refuse_when (jget f ''fallback_mode'' \<noteq> JNull) ''assurance_evidence_mismatch'',
      refuse_when (jget f ''selected_mode'' \<noteq> JStr ''verified'' \<or> jget f ''policy_id'' \<noteq> JStr ''verified-provider-policy-v1'' \<or>
        jget f ''execution_policy'' \<noteq> JStr ''verified-provider-execution-v1'') ''assurance_evidence_mismatch'']"

definition check_provider :: "dict \<Rightarrow> string option res" where
  "check_provider f =
     (case jget f ''provider'' of
        JObj p \<Rightarrow> refuse_when (jget p ''provider_contract'' \<noteq> JStr ''host-execution-provider-v1'') ''verified_provider_unavailable''
      | _ \<Rightarrow> Inr (Some ''verified_provider_identity_invalid''))"

definition timely :: "(string \<Rightarrow> (bool \<times> int) option) \<Rightarrow> json \<Rightarrow> json \<Rightarrow> json \<Rightarrow> bool" where
  "timely fromiso start limit now =
     (case (parse_timestamp fromiso start, parse_timestamp fromiso limit, parse_timestamp fromiso now) of
        (Some a, Some b, Some t) \<Rightarrow> a < b \<and> a \<le> t \<and> t < b
      | _ \<Rightarrow> False)"

definition check_capabilities :: "(string \<Rightarrow> (bool \<times> int) option) \<Rightarrow> dict \<Rightarrow> string option res" where
  "check_capabilities fromiso f =
     (case jget f ''capability_receipt'' of
        JObj r \<Rightarrow> first_message
          [of_provider f r,
           refuse_when (\<not> py_eq (jget r ''capabilities'') established \<or> jget r ''health'' \<noteq> JStr ''healthy'') ''verified_capabilities_unsatisfied'',
           refuse_when (\<not> timely fromiso (jget r ''observed_at'') (jget r ''expires_at'') (jget f ''validation_time'')) ''verified_capabilities_unsatisfied'']
      | _ \<Rightarrow> Inr (Some ''verified_capabilities_unsatisfied''))"

definition check_permit :: "(string \<Rightarrow> string) \<Rightarrow> (string \<Rightarrow> (bool \<times> int) option) \<Rightarrow> dict \<Rightarrow> string option res" where
  "check_permit sha fromiso f =
     (let receipt = jget f ''capability_receipt''; h = record_sha256 sha receipt in
      case (jget f ''permit'', jget f ''cache'') of
        (JObj permit, JObj cache) \<Rightarrow> first_message
          [if jget permit ''capability_receipt_sha256'' \<noteq> h then Inr (Some ''verified_capabilities_unsatisfied'')
           else and_then (dict_member cache ''input'') (\<lambda>i.
             refuse_when (jget i ''capability_receipt_sha256'' \<noteq> h) ''verified_capabilities_unsatisfied''),
           refuse_when (differs (the_dict receipt) permit [''nonce'']) ''verified_permit_invalid'',
           of_provider f permit,
           refuse_when
             (case (parse_timestamp fromiso (jget permit ''expires_at''), parse_timestamp fromiso (jget f ''validation_time'')) of
                (Some b, Some t) \<Rightarrow> b \<le> t | _ \<Rightarrow> True) ''verified_permit_invalid'',
           refuse_when (differs permit f [''policy_id'', ''execution_policy'', ''operation_id'', ''build_input_sha256'']) ''verified_permit_invalid'']
      | _ \<Rightarrow> Inr (Some ''verified_permit_invalid''))"

definition check_cache :: "(string \<Rightarrow> string) \<Rightarrow> dict \<Rightarrow> string option res" where
  "check_cache sha f =
     (let cache = the_dict (jget f ''cache'') in
      case jget_or (JObj []) cache ''input'' of
        JObj i \<Rightarrow> refuse_when
          (jget cache ''expected_key'' \<noteq> record_sha256 sha (JObj i) \<or> jget i ''cache_identity'' \<noteq> JStr ''verified-cache-identity-v1'' \<or>
           differs i f [''policy_id'', ''execution_policy'', ''build_input_sha256''] \<or>
           differs i (the_dict (jget f ''provider'')) [''provider_contract'', ''provider_id'', ''provider_binary_sha256''])
          ''assurance_evidence_mismatch''
      | _ \<Rightarrow> Inr (Some ''assurance_evidence_mismatch''))"

definition check_execution :: "(string \<Rightarrow> string) \<Rightarrow> (string \<Rightarrow> (bool \<times> int) option) \<Rightarrow> dict \<Rightarrow> string option res" where
  "check_execution sha fromiso f =
     (case jget f ''execution_receipt'' of
        JObj r \<Rightarrow> first_message
          [of_provider f r,
           refuse_when
             (differs r f [''policy_id'', ''execution_policy'', ''operation_id'', ''build_input_sha256'', ''artifact_sha256''] \<or>
              jget r ''capability_receipt_sha256'' \<noteq> record_sha256 sha (jget f ''capability_receipt'') \<or>
              jget r ''permit_sha256'' \<noteq> record_sha256 sha (jget f ''permit'')) ''verified_execution_receipt_invalid'',
           refuse_when
             (case (parse_timestamp fromiso (jget r ''started_at''), parse_timestamp fromiso (jget r ''completed_at'')) of
                (Some a, Some b) \<Rightarrow> b < a | _ \<Rightarrow> True) ''verified_execution_receipt_invalid'']
      | _ \<Rightarrow> Inr (Some ''verified_execution_receipt_invalid''))"

text \<open>The chain: each checkpoint carries the digest of the one before it.\<close>

definition PHASES :: "string list" where
  "PHASES = [''permit-issued'', ''execution-started'', ''execution-succeeded'']"

definition links :: "(string \<Rightarrow> string) \<Rightarrow> dict \<Rightarrow> json \<Rightarrow> string \<Rightarrow> json \<Rightarrow> bool" where
  "links sha f previous phase c \<longleftrightarrow>
     (case c of
        JObj k \<Rightarrow>
          provider_error (jget f ''provider'') (jget k ''provider'') = None \<and>
          jget k ''checkpoint_type'' = JStr ''verified-execution-checkpoint-v1'' \<and> jget k ''phase'' = JStr phase \<and>
          jget k ''previous_checkpoint_sha256'' = previous \<and> \<not> differs k f [''operation_id''] \<and>
          jget k ''capability_receipt_sha256'' = record_sha256 sha (jget f ''capability_receipt'') \<and>
          jget k ''permit_sha256'' = record_sha256 sha (jget f ''permit'')
      | _ \<Rightarrow> False)"

fun chained :: "(string \<Rightarrow> string) \<Rightarrow> dict \<Rightarrow> json \<Rightarrow> (string \<times> json) list \<Rightarrow> bool" where
  "chained sha f previous [] \<longleftrightarrow> True"
| "chained sha f previous ((phase, c) # cs) \<longleftrightarrow> links sha f previous phase c \<and> chained sha f (record_sha256 sha c) cs"

definition check_checkpoints :: "(string \<Rightarrow> string) \<Rightarrow> dict \<Rightarrow> string option res" where
  "check_checkpoints sha f =
     (case jget f ''checkpoints'' of
        JArr cs \<Rightarrow> refuse_when (length cs \<noteq> 3 \<or> \<not> chained sha f JNull (zip PHASES cs)) ''verified_checkpoint_invalid''
      | _ \<Rightarrow> Inr (Some ''verified_checkpoint_invalid''))"

definition validate_flow :: "(string \<Rightarrow> string) \<Rightarrow> (string \<Rightarrow> (bool \<times> int) option) \<Rightarrow> json \<Rightarrow> string option res" where
  "validate_flow sha fromiso flow =
     (case flow of
        JObj f \<Rightarrow> first_message
          [check_mode f, check_provider f, check_capabilities fromiso f, check_permit sha fromiso f, check_cache sha f,
           check_execution sha fromiso f, check_checkpoints sha f]
      | _ \<Rightarrow> Inr (Some ''assurance_evidence_mismatch''))"

section \<open>Mutations of a flow\<close>

text \<open>The position a subscript stands for; \<open>True\<close> and \<open>False\<close> are numbers too.\<close>

definition position :: "nat \<Rightarrow> json \<Rightarrow> nat res" where
  "position n v =
     (case (case v of JInt i \<Rightarrow> Some i | JBool b \<Rightarrow> Some (if b then 1 else 0) | _ \<Rightarrow> None) of
        None \<Rightarrow> Inl TypeError
      | Some i \<Rightarrow> if - int n \<le> i \<and> i < int n then Inr (nat (if i < 0 then i + int n else i)) else Inl IndexError)"

definition subscript :: "json \<Rightarrow> json \<Rightarrow> json res" where
  "subscript v c =
     (case v of
        JObj d \<Rightarrow> (case c of JStr k \<Rightarrow> item v k | _ \<Rightarrow> if hashable c then Inl (KeyError []) else Inl TypeError)
      | JArr vs \<Rightarrow> and_then (position (length vs) c) (\<lambda>i. Inr (vs ! i))
      | JStr s \<Rightarrow> and_then (position (length s) c) (\<lambda>i. Inr (JStr [s ! i]))
      | _ \<Rightarrow> Inl TypeError)"

text \<open>Assignment; a key that is no text would leave the JSON values, and is refused.\<close>

definition assign :: "json \<Rightarrow> json \<Rightarrow> json \<Rightarrow> json res" where
  "assign v c w =
     (case v of
        JObj d \<Rightarrow> (case c of JStr k \<Rightarrow> Inr (JObj (AList.update k w d)) | _ \<Rightarrow> Inl TypeError)
      | JArr vs \<Rightarrow> and_then (position (length vs) c) (\<lambda>i. Inr (JArr (vs[i := w])))
      | _ \<Rightarrow> Inl TypeError)"

fun assign_path :: "json \<Rightarrow> json list \<Rightarrow> json \<Rightarrow> json res" where
  "assign_path v [] w = Inl (ValueError ''empty assurance mutation path'')"
| "assign_path v [c] w = assign v c w"
| "assign_path v (c # cs) w =
     and_then (subscript v c) (\<lambda>child. and_then (assign_path child cs w) (\<lambda>changed. assign v c changed))"

definition apply_mutation :: "json \<Rightarrow> json \<Rightarrow> json res" where
  "apply_mutation flow mutation =
     (if \<not> is_dict mutation \<or> \<not> is_list (jget (the_dict mutation) ''path'') then Inl (ValueError ''invalid assurance mutation'')
      else assign_path flow (the_list (jget (the_dict mutation) ''path'')) (jget (the_dict mutation) ''value''))"

section \<open>The gate\<close>

definition ASSURANCE_RELATIONAL_REJECTIONS :: "string list" where
  "ASSURANCE_RELATIONAL_REJECTIONS =
     [''provider-id-mismatch'', ''provider-contract-mismatch'', ''provider-binary-mismatch'', ''capability-set-mismatch'',
      ''capability-receipt-mismatch'', ''nonce-mismatch'', ''operation-mismatch'', ''permit-mismatch'', ''build-input-mismatch'',
      ''artifact-mismatch'', ''capability-receipt-stale'', ''permit-expired'', ''checkpoint-chain-mismatch'', ''portable-fallback-attempt'']"

definition check_policies :: "json \<Rightarrow> unit res" where
  "check_policies v =
     (let entries = List.map_filter (\<lambda>x. case x of JObj d \<Rightarrow> Some d | _ \<Rightarrow> None) (the_list v);
          by_mode = (\<lambda>m. (case filter (\<lambda>d. jget d ''mode'' = JStr m) (rev entries) of [] \<Rightarrow> [] | d # _ \<Rightarrow> d)) in
      and_then (guard (is_list v \<and> length (the_list v) = 2) (fail ''assurance policy set is not closed'')) (\<lambda>_.
      and_then (guard (list_all (\<lambda>d. hashable (jget d ''mode'')) entries) TypeError) (\<lambda>_.
      guard (jget (by_mode ''portable'') ''default'' = jtrue \<and> jget (by_mode ''portable'') ''provider_contract'' = JNull \<and>
          jget (by_mode ''verified'') ''default'' = jfalse \<and> jget (by_mode ''verified'') ''provider_contract'' = JStr ''host-execution-provider-v1'')
        (fail ''assurance defaults or provider binding are invalid''))))"

definition cache_key :: "(string \<Rightarrow> string) \<Rightarrow> json \<Rightarrow> string res" where
  "cache_key sha entry =
     (case entry of
        JObj e \<Rightarrow>
          and_then (digest_of sha (jget e ''input'')) (\<lambda>h.
          and_then (guard (jget e ''expected_key'' = JStr h) (fail ''assurance cache identity digest is stale'')) (\<lambda>_. Inr h))
      | _ \<Rightarrow> Inl AttributeError)"

definition check_identities :: "(string \<Rightarrow> string) \<Rightarrow> json \<Rightarrow> unit res" where
  "check_identities sha v =
     and_then (guard (is_list v \<and> length (the_list v) = 2) (fail ''assurance cache identities are incomplete'')) (\<lambda>_.
     and_then (map_res (cache_key sha) (the_list v)) (\<lambda>keys.
     guard (distinct keys) (fail ''portable and verified cache identities alias'')))"

definition check_closed_case :: "json \<Rightarrow> unit res" where
  "check_closed_case c =
     (case c of
        JObj d \<Rightarrow> guard (jget d ''execution_started'' = jfalse \<and> jget d ''fallback_mode'' = JNull) (fail ''assurance case is not fail-closed'')
      | _ \<Rightarrow> Inl AttributeError)"

definition check_rejection :: "(string \<Rightarrow> string) \<Rightarrow> (string \<Rightarrow> (bool \<times> int) option) \<Rightarrow> json \<Rightarrow> string \<Rightarrow> dict \<Rightarrow> unit res" where
  "check_rejection sha fromiso flow name c =
     (let e = the_dict (jget c ''expected'') in
      and_then (guard (is_dict (jget c ''expected'') \<and> jget e ''failure_stage'' = JStr ''pre-execution'' \<and>
          jget e ''execution_started'' = jfalse \<and> jget e ''fallback_mode'' = JNull \<and> is_str (jget e ''error''))
        (fail ''assurance relational rejection is not fail-closed'')) (\<lambda>_.
      case apply_mutation flow (jget c ''mutation'') of
        Inl _ \<Rightarrow> Inl (fail ''invalid assurance mutation'')
      | Inr candidate \<Rightarrow>
          and_then (validate_flow sha fromiso candidate) (\<lambda>actual.
          guard (jopt actual = jget e ''error'') (fail ''assurance relational rejection: got another error''))))"

definition validate_assurance_vectors :: "(string \<Rightarrow> string) \<Rightarrow> (string \<Rightarrow> (bool \<times> int) option) \<Rightarrow> dict \<Rightarrow> unit res" where
  "validate_assurance_vectors sha fromiso vector =
     and_then (require
       [(jget vector ''contract_version'' = JStr ''assurance-modes-v1'', fail ''assurance vector has the wrong contract identity''),
        (texts_are (jget vector ''platforms'') [''linux'', ''macos'', ''windows''], fail ''provider contract is not platform-neutral'')]) (\<lambda>_.
     and_then (check_policies (jget vector ''policies'')) (\<lambda>_.
     and_then (check_identities sha (jget vector ''cache_identities'')) (\<lambda>_.
     let failures = jget vector ''fail_closed_cases''; ids = jget vector ''record_identities'' in
     and_then (guard (is_list failures \<and> 8 \<le> length (the_list failures)) (fail ''assurance negative coverage is incomplete'')) (\<lambda>_.
     and_then (for_each check_closed_case (the_list failures)) (\<lambda>_.
     and_then (if is_list ids then unique_values (the_list ids) else Inr False) (\<lambda>unique.
     and_then (require
       [(unique, fail ''assurance record identities alias''),
        (jget vector ''release_claims'' = JArr [], fail ''rc.9 fabricates a verified provider claim'')]) (\<lambda>_.
     and_then (validate_flow sha fromiso (jget vector ''valid_flow'')) (\<lambda>baseline.
     and_then (guard (baseline = None) (fail ''valid assurance flow rejected'')) (\<lambda>_.
     check_cases (check_rejection sha fromiso (jget vector ''valid_flow'')) ASSURANCE_RELATIONAL_REJECTIONS
       (jget vector ''relational_rejection_cases'') ''assurance relational rejection'')))))))))"

section \<open>What an accepted flow shows\<close>

text \<open>A digest identifies a document, or two texts with one digest are at hand.\<close>

definition collides :: "(string \<Rightarrow> string) \<Rightarrow> bool" where
  "collides sha \<longleftrightarrow> (\<exists>x y. x \<noteq> y \<and> sha x = sha y)"

lemma record_identifies:
  assumes "record_sha256 sha v = record_sha256 sha w" "unique_keys v" "unique_keys w"
  shows "canon v = canon w \<or> collides sha"
proof (cases "utf8 (json_text v) = utf8 (json_text w)")
  case True
  then have "json_text v = json_text w" by (metis utf8_decode_utf8 option.inject)
  moreover have "all_ints (\<lambda>_. True) u" for u by (induction u) (auto simp: list_all_iff)
  ultimately show ?thesis using loads_text [OF default_hooks_faithful assms(2)] loads_text [OF default_hooks_faithful assms(3)] by simp
next
  case False
  then show ?thesis using assms(1) by (auto simp: record_sha256_def ccj1_sha256_def collides_def)
qed

lemma canon_member:
  assumes "canon (JObj a) = canon (JObj b)" "distinct (map fst a)" "distinct (map fst b)"
  shows "canon (jget a k) = canon (jget b k)"
proof -
  let ?c = "\<lambda>d. map (\<lambda>(k, v). (k, canon v)) d"
  have "sort_key fst (?c a) = sort_key fst (?c b)" using assms(1) by simp
  then have "set (?c a) = set (?c b)" by (metis set_sort)
  moreover have "distinct (map fst (?c a))" "distinct (map fst (?c b))" using assms(2,3) by (simp_all add: comp_def case_prod_beta)
  ultimately have "map_of (?c a) = map_of (?c b)" by (simp add: map_of_inject_set)
  moreover have "map_of (?c d) k = map_option canon (map_of d k)" for d by (induction d) auto
  ultimately have "map_option canon (map_of a k) = map_option canon (map_of b k)" by metis
  then show ?thesis by (auto simp: jget_def split: option.splits)
qed

lemma unique_member: "unique_keys (JObj d) \<Longrightarrow> unique_keys (jget d k)"
  by (auto simp: jget_def list_all_iff split: option.splits dest: map_of_SomeD)

lemma canon_str [simp]: "canon v = JStr s \<longleftrightarrow> v = JStr s"
  by (cases v) auto

text \<open>Two links under the same digests of what came before.\<close>

lemma links_same:
  assumes "links sha f p phase c" "links sha g q phase' d" "canon c = canon d" "unique_keys c" "unique_keys d"
  shows "canon p = canon q" "record_sha256 sha (jget f ''permit'') = record_sha256 sha (jget g ''permit'')"
    "record_sha256 sha (jget f ''capability_receipt'') = record_sha256 sha (jget g ''capability_receipt'')"
proof -
  from assms(1,2) obtain a b where ab: "c = JObj a" "d = JObj b" by (auto simp: links_def split: json.splits)
  have keys: "distinct (map fst a)" "distinct (map fst b)" using assms(4,5) ab by simp_all
  note same = canon_member [OF assms(3) [unfolded ab] keys]
  from assms(1,2) ab show "canon p = canon q" using same [of "''previous_checkpoint_sha256''"] by (simp add: links_def)
  from assms(1,2) ab show "record_sha256 sha (jget f ''permit'') = record_sha256 sha (jget g ''permit'')"
    using same [of "''permit_sha256''"] by (simp add: links_def record_sha256_def)
  from assms(1,2) ab show "record_sha256 sha (jget f ''capability_receipt'') = record_sha256 sha (jget g ''capability_receipt'')"
    using same [of "''capability_receipt_sha256''"] by (simp add: links_def record_sha256_def)
qed

lemma accepted_chain:
  assumes "validate_flow sha fromiso (JObj f) = Inr None" "unique_keys (JObj f)"
  obtains c0 c1 c2 where "jget f ''checkpoints'' = JArr [c0, c1, c2]" "links sha f JNull ''permit-issued'' c0"
    "links sha f (record_sha256 sha c0) ''execution-started'' c1" "links sha f (record_sha256 sha c1) ''execution-succeeded'' c2"
    "unique_keys c0" "unique_keys c1" "unique_keys c2"
proof -
  have "check_checkpoints sha f = Inr None" using assms(1) unfolding validate_flow_def json.case first_message_ok by simp
  then obtain cs where cs: "jget f ''checkpoints'' = JArr cs" "length cs = 3" "chained sha f JNull (zip PHASES cs)"
    by (auto simp: check_checkpoints_def refuse_ok_none split: json.splits)
  then obtain c0 c1 c2 where "cs = [c0, c1, c2]" by (auto simp: length_Suc_conv numeral_3_eq_3)
  with cs unique_member [OF assms(2), of "''checkpoints''"] that show thesis by (simp add: PHASES_def)
qed

text \<open>
  The evidence cannot be changed behind its last checkpoint.  If two flows are accepted and their
  last checkpoints are the same document, then their whole chains, their permits and their capability
  receipts are the same documents, or two different texts with the same SHA-256 have been found.
\<close>

theorem evidence_tamper_evident:
  assumes "validate_flow sha fromiso (JObj f) = Inr None" "validate_flow sha fromiso (JObj g) = Inr None"
    and "unique_keys (JObj f)" "unique_keys (JObj g)"
    and "canon (last (the_list (jget f ''checkpoints''))) = canon (last (the_list (jget g ''checkpoints'')))"
  shows "collides sha \<or>
    (canon (jget f ''checkpoints'') = canon (jget g ''checkpoints'') \<and> canon (jget f ''permit'') = canon (jget g ''permit'') \<and>
     canon (jget f ''capability_receipt'') = canon (jget g ''capability_receipt''))"
proof (cases "collides sha")
  case False
  from accepted_chain [OF assms(1,3)] obtain c0 c1 c2 where c: "jget f ''checkpoints'' = JArr [c0, c1, c2]"
    "links sha f JNull ''permit-issued'' c0" "links sha f (record_sha256 sha c0) ''execution-started'' c1"
    "links sha f (record_sha256 sha c1) ''execution-succeeded'' c2" "unique_keys c0" "unique_keys c1" "unique_keys c2" by metis
  from accepted_chain [OF assms(2,4)] obtain d0 d1 d2 where d: "jget g ''checkpoints'' = JArr [d0, d1, d2]"
    "links sha g JNull ''permit-issued'' d0" "links sha g (record_sha256 sha d0) ''execution-started'' d1"
    "links sha g (record_sha256 sha d1) ''execution-succeeded'' d2" "unique_keys d0" "unique_keys d1" "unique_keys d2" by metis
  have id: "record_sha256 sha v = record_sha256 sha w \<Longrightarrow> unique_keys v \<Longrightarrow> unique_keys w \<Longrightarrow> canon v = canon w" for v w
    using record_identifies False by blast
  have "canon c2 = canon d2" using assms(5) c(1) d(1) by simp
  note two = links_same [OF c(4) d(4) this c(7) d(7)]
  have "canon c1 = canon d1" using two(1) c(6) d(6) by (intro id) (simp_all add: record_sha256_def)
  note one = links_same [OF c(3) d(3) this c(6) d(6)]
  have "canon c0 = canon d0" using one(1) c(5) d(5) by (intro id) (simp_all add: record_sha256_def)
  with \<open>canon c1 = canon d1\<close> \<open>canon c2 = canon d2\<close> show ?thesis
    using c(1) d(1) id [OF two(2)] id [OF two(3)] unique_member [OF assms(3)] unique_member [OF assms(4)] by simp
qed simp

text \<open>
  In a vector the gate accepts, the valid flow is accepted, and each of its mutations is refused with
  the recorded error before anything is executed and without a fallback.
\<close>

theorem assurance_fails_closed:
  assumes "validate_assurance_vectors sha fromiso vector = Inr ()"
    and "JObj c \<in> set (the_list (jget vector ''relational_rejection_cases''))"
  shows "validate_flow sha fromiso (jget vector ''valid_flow'') = Inr None \<and>
    (\<exists>candidate code. apply_mutation (jget vector ''valid_flow'') (jget c ''mutation'') = Inr candidate \<and>
       validate_flow sha fromiso candidate = Inr (Some code) \<and> jget (the_dict (jget c ''expected'')) ''error'' = JStr code \<and>
       jget (the_dict (jget c ''expected'')) ''execution_started'' = jfalse \<and> jget (the_dict (jget c ''expected'')) ''fallback_mode'' = JNull)"
proof -
  let ?flow = "jget vector ''valid_flow''"
  from assms(1) have v: "validate_flow sha fromiso ?flow = Inr None" and
    k: "check_cases (check_rejection sha fromiso ?flow) ASSURANCE_RELATIONAL_REJECTIONS
      (jget vector ''relational_rejection_cases'') ''assurance relational rejection'' = Inr ()"
    unfolding validate_assurance_vectors_def Let_def and_then_ok_iff by auto
  from checked [OF k assms(2)] obtain name where r: "check_rejection sha fromiso ?flow name c = Inr ()" by blast
  then obtain candidate actual where "apply_mutation ?flow (jget c ''mutation'') = Inr candidate"
      "validate_flow sha fromiso candidate = Inr actual" "jopt actual = jget (the_dict (jget c ''expected'')) ''error''"
    by (auto simp: check_rejection_def Let_def and_then_ok_iff split: sum.splits)
  moreover have "is_str (jget (the_dict (jget c ''expected'')) ''error'')" "jget (the_dict (jget c ''expected'')) ''execution_started'' = jfalse"
      "jget (the_dict (jget c ''expected'')) ''fallback_mode'' = JNull"
    using r by (auto simp: check_rejection_def Let_def and_then_ok_iff)
  ultimately show ?thesis using v by (cases actual) auto
qed

section \<open>A flow that is accepted\<close>

text \<open>The minutes of a timestamp.\<close>

definition sample_minutes :: "string \<Rightarrow> (bool \<times> int) option" where
  "sample_minutes s = Some (True, int (nat_of_digits (take 2 (drop 14 s))))"

abbreviation flat_digest :: "string \<Rightarrow> string" where "flat_digest \<equiv> \<lambda>_. replicate 64 (CHR ''0'')"

definition sample_hash :: json where
  "sample_hash = JStr (''sha256:'' @ flat_digest [])"

definition sample_host :: json where
  "sample_host = JObj
     [(''provider_contract'', JStr ''host-execution-provider-v1''), (''provider_id'', JStr ''example.host-provider''),
      (''provider_binary_sha256'', sample_hash), (''provider_version'', JStr ''1.0.0''), (''operating_system'', JStr ''macos'')]"

definition sample_policy :: dict where
  "sample_policy = [(''policy_id'', JStr ''verified-provider-policy-v1''), (''execution_policy'', JStr ''verified-provider-execution-v1'')]"

definition sample_inputs :: dict where
  "sample_inputs = [(''operation_id'', JStr ''build''), (''build_input_sha256'', sample_hash)]"

definition sample_checkpoint :: "json \<Rightarrow> string \<Rightarrow> json" where
  "sample_checkpoint previous phase = JObj
     [(''provider'', sample_host), (''checkpoint_type'', JStr ''verified-execution-checkpoint-v1''), (''phase'', JStr phase),
      (''previous_checkpoint_sha256'', previous), (''operation_id'', JStr ''build''),
      (''capability_receipt_sha256'', sample_hash), (''permit_sha256'', sample_hash)]"

definition sample_receipt :: json where
  "sample_receipt = JObj
     [(''provider'', sample_host), (''capabilities'', established), (''health'', JStr ''healthy''), (''nonce'', JStr ''one''),
      (''observed_at'', JStr ''2026-07-13T00:00:00Z''), (''expires_at'', JStr ''2026-07-13T00:05:00Z'')]"

definition sample_permit :: json where
  "sample_permit = JObj (sample_policy @ sample_inputs @
     [(''provider'', sample_host), (''capability_receipt_sha256'', sample_hash), (''nonce'', JStr ''one''), (''expires_at'', JStr ''2026-07-13T00:05:00Z'')])"

definition sample_cache :: json where
  "sample_cache = JObj
     [(''expected_key'', sample_hash),
      (''input'', JObj (sample_policy @
        [(''build_input_sha256'', sample_hash), (''capability_receipt_sha256'', sample_hash), (''cache_identity'', JStr ''verified-cache-identity-v1'')] @
        the_dict sample_host))]"

definition sample_execution :: json where
  "sample_execution = JObj (sample_policy @ sample_inputs @
     [(''provider'', sample_host), (''artifact_sha256'', sample_hash), (''capability_receipt_sha256'', sample_hash), (''permit_sha256'', sample_hash),
      (''started_at'', JStr ''2026-07-13T00:02:00Z''), (''completed_at'', JStr ''2026-07-13T00:03:00Z'')])"

definition sample_chain :: json where
  "sample_chain = JArr
     [sample_checkpoint JNull ''permit-issued'', sample_checkpoint sample_hash ''execution-started'',
      sample_checkpoint sample_hash ''execution-succeeded'']"

definition sample_flow :: "string \<Rightarrow> dict" where
  "sample_flow now =
     sample_policy @ sample_inputs @
     [(''provider'', sample_host), (''selected_mode'', JStr ''verified''), (''fallback_mode'', JNull), (''validation_time'', JStr now),
      (''artifact_sha256'', sample_hash), (''capability_receipt'', sample_receipt), (''permit'', sample_permit), (''cache'', sample_cache),
      (''execution_receipt'', sample_execution), (''checkpoints'', sample_chain)]"

lemma sample_flow_fields:
  "jget (sample_flow now) ''policy_id'' = JStr ''verified-provider-policy-v1''"
  "jget (sample_flow now) ''execution_policy'' = JStr ''verified-provider-execution-v1''"
  "jget (sample_flow now) ''operation_id'' = JStr ''build''" "jget (sample_flow now) ''build_input_sha256'' = sample_hash"
  "jget (sample_flow now) ''provider'' = sample_host" "jget (sample_flow now) ''selected_mode'' = JStr ''verified''"
  "jget (sample_flow now) ''fallback_mode'' = JNull" "jget (sample_flow now) ''validation_time'' = JStr now"
  "jget (sample_flow now) ''artifact_sha256'' = sample_hash" "jget (sample_flow now) ''capability_receipt'' = sample_receipt"
  "jget (sample_flow now) ''permit'' = sample_permit" "jget (sample_flow now) ''cache'' = sample_cache"
  "jget (sample_flow now) ''execution_receipt'' = sample_execution" "jget (sample_flow now) ''checkpoints'' = sample_chain"
  by (simp_all add: sample_flow_def sample_policy_def sample_inputs_def)

lemma flat_records: "record_sha256 flat_digest v = sample_hash"
  by (simp add: record_sha256_def ccj1_sha256_def sample_hash_def)

lemma sample_times:
  "parse_timestamp sample_minutes (JStr ''2026-07-13T00:00:00Z'') = Some 0" "parse_timestamp sample_minutes (JStr ''2026-07-13T00:05:00Z'') = Some 5"
  "parse_timestamp sample_minutes (JStr ''2026-07-13T00:02:00Z'') = Some 2" "parse_timestamp sample_minutes (JStr ''2026-07-13T00:03:00Z'') = Some 3"
  by code_simp+

lemma sample_equal: "py_eq sample_hash sample_hash" "py_eq established established" "provider_error sample_host sample_host = None"
  by code_simp+

lemma sample_flow_accepted:
  assumes "parse_timestamp sample_minutes (JStr now) = Some t" "t \<in> {1, 2}"
  shows "validate_flow flat_digest sample_minutes (JObj (sample_flow now)) = Inr None"
proof -
  let ?f = "sample_flow now"
  note facts = sample_flow_fields assms(1) sample_times sample_equal flat_records differs_def of_provider_def refuse_when_def
  have "check_mode ?f = Inr None" "check_provider ?f = Inr None"
    by (simp_all add: check_mode_def check_provider_def facts) (simp add: sample_host_def refuse_when_def)
  moreover have "check_capabilities sample_minutes ?f = Inr None"
    using assms(2) by (auto simp: check_capabilities_def sample_receipt_def timely_def facts)
  moreover have "check_permit flat_digest sample_minutes ?f = Inr None"
    using assms(2) by (auto simp: check_permit_def sample_permit_def sample_cache_def sample_receipt_def sample_policy_def sample_inputs_def dict_member_def facts)
  moreover have "check_cache flat_digest ?f = Inr None"
    by (simp add: check_cache_def sample_cache_def sample_policy_def sample_host_def facts)
  moreover have "check_execution flat_digest sample_minutes ?f = Inr None"
    by (simp add: check_execution_def sample_execution_def sample_policy_def sample_inputs_def facts)
  moreover have "links flat_digest ?f p phase (sample_checkpoint p phase)" for p phase
    by (simp add: links_def sample_checkpoint_def facts)
  then have "check_checkpoints flat_digest ?f = Inr None"
    by (simp add: check_checkpoints_def PHASES_def sample_chain_def facts)
  ultimately show ?thesis unfolding validate_flow_def json.case first_message_ok by simp
qed

lemma sample_flow_keys: "unique_keys (JObj (sample_flow now))"
proof -
  have "list_all unique_keys [sample_hash, sample_host, sample_receipt, sample_permit, sample_cache, sample_execution, sample_chain]" by code_simp
  then show ?thesis by (simp add: sample_flow_def sample_policy_def sample_inputs_def)
qed

theorem evidence_tamper_evident_witness:
  "collides flat_digest \<or>
     canon (jget (sample_flow ''2026-07-13T00:01:00Z'') ''permit'') = canon (jget (sample_flow ''2026-07-13T00:02:00Z'') ''permit'')"
proof -
  have "parse_timestamp sample_minutes (JStr ''2026-07-13T00:01:00Z'') = Some 1" by code_simp
  from evidence_tamper_evident [OF sample_flow_accepted [OF this] sample_flow_accepted [OF sample_times(3)] sample_flow_keys sample_flow_keys]
  show ?thesis by (auto simp: sample_flow_fields)
qed

end
