(* ===== verification/HomeSnapshots.thy ===== *)
theory HomeSnapshots
  imports WireSemantics Cases
begin

text \<open>
  Bundles of a managed home (\<open>check_bundle\<close> of \<open>tools/managed_home_snapshots.py\<close>): a manifest of
  files, the launch metadata and the bytes, and what keeps a bundle apart on a file system that
  ignores case.  \<open>valid\<close> is the verdict of the third-party schema validator under a schema name,
  \<open>sha\<close> the hexadecimal SHA-256 of bytes, and \<open>fromiso\<close> is \<open>datetime.fromisoformat\<close>.
\<close>

section \<open>Folded paths\<close>

text \<open>
  \<open>normalize("NFC", s).casefold()\<close>.  Texts of this alphabet are in NFC already; the one letter
  that folds out of it, the micro sign, keeps a code of its own, as no other folds to it.
\<close>

definition fold_char :: "char \<Rightarrow> string" where
  "fold_char c =
     (let n = ord_of c in
      if is_upper c \<or> 192 \<le> n \<and> n \<le> 222 \<and> n \<noteq> 215 then [char_of (n + 32)] else if n = 223 then ''ss'' else [c])"

definition folded :: "string \<Rightarrow> string" where
  "folded s = concat (map fold_char s)"

definition ancestors :: "string \<Rightarrow> string list" where
  "ancestors path = (let parts = split_on (CHR ''/'') path in map (\<lambda>i. join_with ''/'' (take i parts)) [1 ..< length parts])"

definition path_prefixes :: "string \<Rightarrow> string list" where
  "path_prefixes path = ancestors path @ [path]"

text \<open>The spelling seen so far of each folded prefix.\<close>

type_synonym spellings = "(string \<times> string) list"

definition spell :: "string \<Rightarrow> spellings \<Rightarrow> spellings res" where
  "spell p known =
     and_then (guard (map_of known (folded p) \<in> {None, Some p}) (ValueError ''path-collision'')) (\<lambda>_.
     Inr ((folded p, p) # known))"

definition add_path :: "string \<Rightarrow> spellings \<times> string list \<Rightarrow> (spellings \<times> string list) res" where
  "add_path path st =
     and_then (fold_res spell (path_prefixes path) (fst st)) (\<lambda>known.
     and_then (guard (folded path \<notin> set (snd st)) (ValueError ''path-collision'')) (\<lambda>_.
     Inr (known, folded path # snd st)))"

definition check_paths :: "string list \<Rightarrow> unit res" where
  "check_paths paths =
     and_then (guard (sorted paths) (ValueError ''path-order'')) (\<lambda>_.
     and_then (fold_res add_path paths ([], [])) (\<lambda>st.
     guard (\<not> list_ex (\<lambda>path. list_ex (\<lambda>a. folded a \<in> set (snd st)) (ancestors path)) paths) (ValueError ''file-ancestor'')))"

section \<open>Bundles\<close>

definition MANIFEST_SCHEMA :: string where
  "MANIFEST_SCHEMA = ''managed-home-snapshot-v1.schema.json''"

definition LAUNCH_SCHEMA :: string where
  "LAUNCH_SCHEMA = ''snapshot-launch-v1.schema.json''"

text \<open>Only the provenance of the fragment is left out.\<close>

definition portable_projection :: "dict \<Rightarrow> dict" where
  "portable_projection manifest = filter (\<lambda>(k, _). k \<noteq> ''fragment_sha256'') manifest"

definition line_bytes :: "json \<Rightarrow> string res" where
  "line_bytes v = and_then (ccj1_bytes v) (\<lambda>bs. Inr (bs @ [newline]))"

text \<open>The files of a bundle: a path with its bytes and its mode.\<close>

type_synonym files = "(string \<times> string \<times> json) list"

definition check_file :: "(string \<Rightarrow> string) \<Rightarrow> files \<Rightarrow> json \<Rightarrow> unit res" where
  "check_file sha content entry =
     and_then (text_at entry [''path'']) (\<lambda>path.
     case map_of content path of
       None \<Rightarrow> Inl (KeyError path)
     | Some (payload, mode) \<Rightarrow>
         and_then (both [item_is entry [''size''] (JInt (int (length payload))), item_is entry [''sha256''] (JStr (sha payload)),
           item_is entry [''mode''] mode]) (\<lambda>ok.
         guard ok (ValueError ''file-identity'')))"

definition check_channel :: "dict \<Rightarrow> string list \<Rightarrow> string \<Rightarrow> unit res" where
  "check_channel launch paths k =
     (if \<not> jhas launch k then Inr ()
      else and_then (item (jget launch k) ''path'') (\<lambda>p. guard (str_in p paths) (ValueError ''channel-reference'')))"

definition check_bundle ::
    "(string \<Rightarrow> json \<Rightarrow> bool) \<Rightarrow> (string \<Rightarrow> string) \<Rightarrow> (string \<Rightarrow> (bool \<times> int) option) \<Rightarrow>
     json \<Rightarrow> json \<Rightarrow> files \<Rightarrow> string option \<Rightarrow> string option \<Rightarrow> unit res" where
  "check_bundle valid sha fromiso manifest launch content manifest_bytes launch_bytes =
     and_then (guard (valid MANIFEST_SCHEMA manifest) (ValueError ''manifest-schema'')) (\<lambda>_.
     and_then (guard (valid LAUNCH_SCHEMA launch) (ValueError ''launch-schema'')) (\<lambda>_.
     and_then (line_bytes manifest) (\<lambda>expected_manifest.
     and_then (line_bytes launch) (\<lambda>expected_launch.
     and_then (guard (manifest_bytes \<in> {None, Some expected_manifest} \<and> launch_bytes \<in> {None, Some expected_launch})
       (ValueError ''metadata-canonical'')) (\<lambda>_.
     and_then (both [same_item manifest [''adapter''] launch [''environment''], same_item manifest [''profile''] launch [''profile'']]) (\<lambda>same.
     and_then (guard same (ValueError ''adapter-profile'')) (\<lambda>_.
     and_then (item_is manifest [''launch_sha256''] (JStr (sha expected_launch))) (\<lambda>digested.
     and_then (guard digested (ValueError ''launch-digest'')) (\<lambda>_.
     and_then (list_at manifest [''files'']) (\<lambda>entries.
     and_then (map_res (\<lambda>e. text_at e [''path'']) entries) (\<lambda>paths.
     and_then (check_paths paths) (\<lambda>_.
     and_then (guard (set paths = set (map fst content)) (ValueError ''entry-set'')) (\<lambda>_.
     and_then (for_each (check_file sha content) entries) (\<lambda>_.
     and_then (for_each (check_channel (the_dict launch) paths) [''system_prompt'', ''mcp'']) (\<lambda>_.
     and_then (validate_wire_semantics sha fromiso ''launch-env-fragment-v3.schema.json'' launch) (\<lambda>message.
     and_then (guard (message = None) (ValueError ''channel-semantics'')) (\<lambda>_.
     and_then (item_is launch [''environment''] (JStr ''muse'')) (\<lambda>muse.
     guard (muse \<longrightarrow> jhas (the_dict launch) ''root_context'' = (''home/config/muse/AGENTS.md'' \<in> set paths)) (ValueError ''root-context'')))))))))))))))))))"

text \<open>A semantic case of the corpus, given its documents and files: the code it ends with.\<close>

definition check_snapshot_case ::
    "(string \<Rightarrow> json \<Rightarrow> bool) \<Rightarrow> (string \<Rightarrow> string) \<Rightarrow> (string \<Rightarrow> (bool \<times> int) option) \<Rightarrow>
     json \<Rightarrow> json \<Rightarrow> files \<Rightarrow> string \<Rightarrow> string \<Rightarrow> json \<Rightarrow> unit res" where
  "check_snapshot_case valid sha fromiso manifest launch content manifest_bytes launch_bytes expected =
     (case check_bundle valid sha fromiso manifest launch content (Some manifest_bytes) (Some launch_bytes) of
        Inr _ \<Rightarrow> guard (expected = JStr ''accept'') (ValueError ''snapshot semantic case'')
      | Inl (ValueError code) \<Rightarrow> guard (expected = JStr code) (ValueError ''snapshot semantic case'')
      | Inl e \<Rightarrow> Inl e)"

section \<open>Paths stay apart\<close>

lemma spell_known:
  assumes "fold_res spell ps known = Inr known'"
  shows "(\<forall>p \<in> set ps. map_of known' (folded p) = Some p) \<and> map_of known \<subseteq>\<^sub>m map_of known'"
  using assms
proof (induction ps arbitrary: known)
  case (Cons p ps)
  from Cons.prems obtain k where "spell p known = Inr k" "fold_res spell ps k = Inr known'" by (auto simp: and_then_ok_iff)
  then have p: "map_of known (folded p) \<in> {None, Some p}" and ps: "fold_res spell ps ((folded p, p) # known) = Inr known'"
    by (simp_all add: spell_def [of p known] and_then_ok_iff)
  have step: "map_of known \<subseteq>\<^sub>m map_of ((folded p, p) # known)" using p by (auto simp: map_le_def dom_def split: if_splits)
  from Cons.IH [OF ps] have "map_of ((folded p, p) # known) \<subseteq>\<^sub>m map_of known'" by blast
  moreover from this have "map_of known' (folded p) = Some p" by (auto simp: map_le_def dom_def)
  ultimately show ?case using Cons.IH [OF ps] map_le_trans [OF step] by auto
qed (simp add: map_le_def)

lemma paths_known:
  assumes "fold_res add_path paths st = Inr st'" "distinct (snd st)"
  shows "(\<forall>p \<in> set paths. \<forall>a \<in> set (path_prefixes p). map_of (fst st') (folded a) = Some a) \<and>
    map_of (fst st) \<subseteq>\<^sub>m map_of (fst st') \<and> snd st' = rev (map folded paths) @ snd st \<and> distinct (snd st')"
  using assms
proof (induction paths arbitrary: st)
  case (Cons p paths)
  from Cons.prems(1) obtain mid where "add_path p st = Inr mid" "fold_res add_path paths mid = Inr st'" by (auto simp: and_then_ok_iff)
  then obtain known where k: "fold_res spell (path_prefixes p) (fst st) = Inr known" "folded p \<notin> set (snd st)"
      "fold_res add_path paths (known, folded p # snd st) = Inr st'"
    by (auto simp: add_path_def [of p st] and_then_ok_iff)
  have "distinct (snd (known, folded p # snd st))" using Cons.prems(2) k(2) by simp
  note later = Cons.IH [OF k(3) this]
  have "map_of (fst st') (folded a) = Some a" if "a \<in> set (path_prefixes p)" for a
  proof -
    have "map_of known (folded a) = Some a" using spell_known [OF k(1)] that by blast
    then show ?thesis using later by (auto simp: map_le_def dom_def)
  qed
  moreover have "map_of (fst st) \<subseteq>\<^sub>m map_of (fst st')"
    using spell_known [OF k(1)] later by (auto intro: map_le_trans)
  moreover have "snd st' = rev (map folded (p # paths)) @ snd st" using later by simp
  ultimately show ?case using later by (intro conjI) (metis set_ConsD, blast+)
qed (simp add: map_le_def)

lemma paths_apart:
  assumes "check_paths paths = Inr ()"
  shows "\<And>p q a b. p \<in> set paths \<Longrightarrow> q \<in> set paths \<Longrightarrow> a \<in> set (path_prefixes p) \<Longrightarrow> b \<in> set (path_prefixes q) \<Longrightarrow> folded a = folded b \<Longrightarrow> a = b"
    "distinct (map folded paths)"
    "\<And>p q a. p \<in> set paths \<Longrightarrow> q \<in> set paths \<Longrightarrow> a \<in> set (ancestors q) \<Longrightarrow> folded a \<noteq> folded p"
proof -
  from assms obtain st where st: "fold_res add_path paths ([], []) = Inr st"
      "\<not> list_ex (\<lambda>path. list_ex (\<lambda>a. folded a \<in> set (snd st)) (ancestors path)) paths"
    by (auto simp: check_paths_def and_then_ok_iff)
  note known = paths_known [OF st(1)]
  show "distinct (map folded paths)" using known by (metis append.right_neutral distinct.simps(1) distinct_rev snd_conv)
  show "folded a \<noteq> folded p" if "p \<in> set paths" "q \<in> set paths" "a \<in> set (ancestors q)" for p q a
    using st(2) known that by (auto simp: list_ex_iff)
  show "a = b" if "p \<in> set paths" "q \<in> set paths" "a \<in> set (path_prefixes p)" "b \<in> set (path_prefixes q)" "folded a = folded b" for p q a b
    using known that by (metis distinct.simps(1) option.inject snd_conv)
qed

text \<open>
  An accepted bundle is the same on a file system that ignores case.  Its files are exactly the
  ones the manifest lists, each with its bytes, size and mode; two spellings of a file or a directory
  differ in more than case, no file is a directory of another, the files the launch refers to are in
  the bundle, and the manifest carries the digest of the very launch metadata.
\<close>

theorem bundle_portable:
  assumes "check_bundle valid sha fromiso manifest launch content manifest_bytes launch_bytes = Inr ()"
  shows "\<exists>entries paths launch_line. list_at manifest [''files''] = Inr entries \<and> map_res (\<lambda>e. text_at e [''path'']) entries = Inr paths \<and>
    set paths = set (map fst content) \<and> distinct (map folded paths) \<and>
    (\<forall>p \<in> set paths. \<forall>q \<in> set paths.
       (\<forall>a \<in> set (path_prefixes p). \<forall>b \<in> set (path_prefixes q). folded a = folded b \<longrightarrow> a = b) \<and>
       (\<forall>a \<in> set (ancestors q). folded a \<noteq> folded p)) \<and>
    (\<forall>entry \<in> set entries. \<exists>path payload mode. text_at entry [''path''] = Inr path \<and> map_of content path = Some (payload, mode) \<and>
       item_is entry [''size''] (JInt (int (length payload))) = Inr True \<and> item_is entry [''sha256''] (JStr (sha payload)) = Inr True \<and>
       item_is entry [''mode''] mode = Inr True) \<and>
    (\<forall>k \<in> {''system_prompt'', ''mcp''}. jhas (the_dict launch) k \<longrightarrow> (\<exists>p \<in> set paths. item (jget (the_dict launch) k) ''path'' = Inr (JStr p))) \<and>
    line_bytes launch = Inr launch_line \<and> item_is manifest [''launch_sha256''] (JStr (sha launch_line)) = Inr True"
proof -
  from assms obtain launch_line digested entries paths where b: "line_bytes launch = Inr launch_line"
      "item_is manifest [''launch_sha256''] (JStr (sha launch_line)) = Inr True"
      "list_at manifest [''files''] = Inr entries" "map_res (\<lambda>e. text_at e [''path'']) entries = Inr paths" "check_paths paths = Inr ()"
      "set paths = set (map fst content)" "for_each (check_file sha content) entries = Inr ()"
      "for_each (check_channel (the_dict launch) paths) [''system_prompt'', ''mcp''] = Inr ()"
    unfolding check_bundle_def and_then_ok_iff guard_ok_iff by (elim exE conjE) (rule that, simp_all)
  have bytes: "\<exists>path payload mode. text_at entry [''path''] = Inr path \<and> map_of content path = Some (payload, mode) \<and>
       item_is entry [''size''] (JInt (int (length payload))) = Inr True \<and> item_is entry [''sha256''] (JStr (sha payload)) = Inr True \<and>
       item_is entry [''mode''] mode = Inr True" if "entry \<in> set entries" for entry
  proof -
    have "check_file sha content entry = Inr ()" using b(7) that by (simp add: for_each_ok_iff)
    then show ?thesis by (auto simp: check_file_def and_then_ok_iff both_ok_iff simp del: both.simps split: option.splits)
  qed
  have channel: "\<exists>p \<in> set paths. item (jget (the_dict launch) k) ''path'' = Inr (JStr p)"
    if "k \<in> {''system_prompt'', ''mcp''}" "jhas (the_dict launch) k" for k
  proof -
    have "check_channel (the_dict launch) paths k = Inr ()" using b(8) that(1) unfolding for_each_ok_iff by auto
    then show ?thesis using that(2) by (auto simp: check_channel_def and_then_ok_iff str_in_iff)
  qed
  show ?thesis
    using b(1-4,6) paths_apart [OF b(5)] bytes channel
    by (intro exI [of _ entries] exI [of _ paths] exI [of _ launch_line]) (intro conjI ballI impI; blast)
qed

section \<open>A bundle that is accepted\<close>

definition sample_snapshot_launch :: json where
  "sample_snapshot_launch = JObj
     [(''environment'', JStr ''claude_code''), (''profile'', JStr ''work''), (''env'', JObj [])]"

definition sample_snapshot_files :: files where
  "sample_snapshot_files = [(''home/Notes.md'', ''one'', JStr ''0600''), (''home/notes/a.md'', ''two'', JStr ''0600'')]"

definition sample_snapshot_manifest :: json where
  "sample_snapshot_manifest = JObj
     [(''adapter'', JStr ''claude_code''), (''profile'', JStr ''work''), (''launch_sha256'', JStr ''00''),
      (''files'', JArr (map (\<lambda>(p, bs, m). JObj
         [(''path'', JStr p), (''size'', JInt (int (length bs))), (''sha256'', JStr ''00''), (''mode'', m)]) sample_snapshot_files))]"

lemma sample_bundle_accepted:
  "check_bundle (\<lambda>_ _. True) (\<lambda>_. ''00'') (\<lambda>_. None) sample_snapshot_manifest sample_snapshot_launch sample_snapshot_files None None = Inr ()"
  by code_simp

theorem bundle_portable_witness:
  "\<exists>paths. set paths = set (map fst sample_snapshot_files) \<and> distinct (map folded paths)"
  using bundle_portable [OF sample_bundle_accepted] by blast

end
