(* ===== verification/ProjectContext.thy ===== *)
theory ProjectContext
  imports SkillfileMcp HomeSnapshots WorkspaceTrust
begin

text \<open>
  Leaf-1 records of project contexts (\<open>tools/project_context_leaf1.py\<close>): the bounded canonical
  reader, the checks of each record past its schema, and the mode contract, which says what a launch
  gets of a project.  \<open>valid\<close> is the verdict of the third-party schema validator on a record kind,
  and \<open>sha\<close> the hexadecimal SHA-256 of bytes.  The interpreter's recursion limit is not modelled:
  a document nested thousands of levels deep is refused by the depth bound.
\<close>

section \<open>Bytes\<close>

definition RECORDS :: "string list" where
  "RECORDS =
     [''registration'', ''item'', ''approval'', ''generation'', ''composition'', ''lease'', ''project-context'', ''command-environment'',
      ''fragment-members'', ''root-binding'', ''snapshot-manifest'', ''control-receipt'', ''adapter'']"

definition MAX_BYTES :: nat where "MAX_BYTES = 1048576"

definition MAX_DEPTH :: nat where "MAX_DEPTH = 16"

definition MAX_STRING :: nat where "MAX_STRING = 256"

definition MAX_ROOT :: nat where "MAX_ROOT = 4096"

definition MAX_PATH :: nat where "MAX_PATH = 240"

definition MAX_PATH_DEPTH :: nat where "MAX_PATH_DEPTH = 32"

definition MAX_TOTAL :: int where "MAX_TOTAL = 67108864"

definition MAX_U64 :: int where "MAX_U64 = 18446744073709551615"

abbreviation gate :: "bool \<Rightarrow> string \<Rightarrow> unit res" where
  "gate b g \<equiv> guard b (ContractError g)"

text \<open>\<open>ccj1_bytes\<close> of this module keeps every member, signatures too.\<close>

definition context_bytes :: "json \<Rightarrow> string res" where
  "context_bytes v = and_then (gate (all_ints in_safe_range v) ''ccj1'') (\<lambda>_. Inr (utf8 (json_text v)))"

definition context_identity :: "(string \<Rightarrow> string) \<Rightarrow> json \<Rightarrow> string res" where
  "context_identity sha v = and_then (context_bytes v) (\<lambda>bs. Inr (sha bs))"

text \<open>A hook that raises \<open>ValueError\<close> ends in the gate of the canonical form, a malformed text in another.\<close>

definition context_hooks :: hooks where
  "context_hooks =
     \<lparr>parse_int = (\<lambda>t. case ccj_integer t of Inr v \<Rightarrow> Inr v | Inl _ \<Rightarrow> Inl (ContractError ''ccj1'')),
      parse_other = (\<lambda>_. Inl (ContractError ''ccj1'')), parse_pairs = object_pairs (ContractError ''duplicate-member'')\<rparr>"

text \<open>At most \<open>n\<close> lists and dictionaries inside one another.\<close>

fun nests_within :: "nat \<Rightarrow> json \<Rightarrow> bool" where
  "nests_within n (JArr vs) \<longleftrightarrow> 0 < n \<and> list_all (nests_within (n - 1)) vs"
| "nests_within n (JObj d) \<longleftrightarrow> 0 < n \<and> list_all (\<lambda>(k, v). nests_within (n - 1) v) d"
| "nests_within n v \<longleftrightarrow> True"

definition decode_context :: "string \<Rightarrow> json res" where
  "decode_context bytes =
     and_then (gate (length bytes \<le> MAX_BYTES) ''record-size'') (\<lambda>_.
     case utf8_decode bytes of
       None \<Rightarrow> Inl (ContractError ''encoding'')
     | Some s \<Rightarrow>
         (case json_loads context_hooks s of
            Inl (ContractError g) \<Rightarrow> Inl (ContractError g)
          | Inl _ \<Rightarrow> Inl (ContractError ''encoding'')
          | Inr v \<Rightarrow>
              and_then (gate (nests_within MAX_DEPTH v) ''record-depth'') (\<lambda>_.
              and_then (context_bytes v) (\<lambda>_. Inr v))))"

section \<open>Members\<close>

text \<open>The bound of a text at a path; the texts of a server are bounded by its own schema.\<close>

definition member_bound :: "string list \<Rightarrow> nat option" where
  "member_bound ks =
     (if ''server'' \<in> set ks \<and> (''args'' \<in> set ks \<or> last ks \<in> {''command'', ''url''}) then None
      else if ks \<noteq> [] \<and> last ks \<in> {''root'', ''project_root''} then Some MAX_ROOT
      else if ks \<noteq> [] \<and> last ks = ''path'' then Some MAX_PATH else Some MAX_STRING)"

fun strings :: "json \<Rightarrow> string list \<Rightarrow> unit res" where
  "strings (JStr s) ks = gate (case member_bound ks of None \<Rightarrow> True | Some n \<Rightarrow> length (utf8 s) \<le> n) ''string-bytes''"
| "strings (JObj d) ks = for_each (\<lambda>(k, v). strings v (ks @ [k])) d"
| "strings (JArr vs) ks = for_each (\<lambda>v. strings v (ks @ [''[]''])) vs"
| "strings v ks = Inr ()"

definition exact_root :: "string \<Rightarrow> bool" where
  "exact_root s \<longleftrightarrow> prefix ''/'' s \<and> path_text Posix (parse_path Posix s) = s \<and> ''..'' \<notin> set (parts (parse_path Posix s)) \<and>
     list_all (\<lambda>c. \<not> (ord_of c < 32 \<or> ord_of c = 127)) s"

definition number_at :: "json \<Rightarrow> string \<Rightarrow> int res" where
  "number_at v k =
     and_then (item v k) (\<lambda>x. case x of JInt i \<Rightarrow> Inr i | JBool b \<Rightarrow> Inr (if b then 1 else 0) | _ \<Rightarrow> Inl TypeError)"

definition plain_component :: "string \<Rightarrow> bool" where
  "plain_component w \<longleftrightarrow> w = [] \<or> last w \<notin> set ''. ''"

definition files_error :: "json list \<Rightarrow> unit res" where
  "files_error files =
     and_then (map_res (\<lambda>e. text_at e [''path'']) files) (\<lambda>paths.
     and_then (require
       [(sorted paths, ContractError ''file-order''),
        (list_all (\<lambda>p. length (split_on (CHR ''/'') p) \<le> MAX_PATH_DEPTH) paths, ContractError ''path-depth''),
        (list_all (\<lambda>p. list_all plain_component (split_on (CHR ''/'') p)) paths, ContractError ''path-component''),
        (distinct (map folded paths), ContractError ''file-alias''),
        (\<not> list_ex (\<lambda>p. list_ex (\<lambda>a. a \<in> set (map folded paths)) (ancestors p)) (map folded paths), ContractError ''file-ancestor'')]) (\<lambda>_.
     and_then (map_res (\<lambda>e. number_at e ''size'') files) (\<lambda>sizes.
     gate (sum_list sizes \<le> MAX_TOTAL) ''inventory-size'')))"

text \<open>\<open>int(v)\<close> of a text: white space around, a sign, and digits with single underscores between.\<close>

definition python_int :: "json \<Rightarrow> int res" where
  "python_int v =
     (case v of
        JInt i \<Rightarrow> Inr i
      | JBool b \<Rightarrow> Inr (if b then 1 else 0)
      | JStr s \<Rightarrow>
          (let t = strip s; signed = (t \<noteq> [] \<and> hd t \<in> set ''+-''); digits = split_on (CHR ''_'') (if signed then tl t else t);
               n = int (nat_of_digits (concat digits)) in
           if list_all (\<lambda>w. w \<noteq> [] \<and> list_all is_digit w) digits then Inr (if prefix ''-'' t then - n else n)
           else Inl (ValueError ''int''))
      | _ \<Rightarrow> Inl TypeError)"

definition remote_ok :: "json \<Rightarrow> bool" where
  "remote_ok v = (case v of JNull \<Rightarrow> remote_safe None | JStr s \<Rightarrow> remote_safe (Some s) | _ \<Rightarrow> False)"

definition ordered_texts :: "json \<Rightarrow> string \<Rightarrow> bool res" where
  "ordered_texts v k = and_then (list_at v [k]) (\<lambda>vs. and_then (map_res as_text vs) (\<lambda>ts. Inr (sorted ts)))"

definition normal_field :: "json \<Rightarrow> string \<Rightarrow> unit res" where
  "normal_field server k =
     and_then (as_dict server) (\<lambda>d.
     if \<not> jhas d k then Inr ()
     else and_then (list_at server [k]) (\<lambda>vs. and_then (map_res as_text vs) (\<lambda>ts. gate (increasing ts) ''server-normalization'')))"

definition check_root :: "json \<Rightarrow> string list \<Rightarrow> unit res" where
  "check_root v ks = and_then (text_at v ks) (\<lambda>p. gate (exact_root p) ''root-path'')"

definition check_binding_record :: "json \<Rightarrow> unit res" where
  "check_binding_record v =
     and_then (check_root v [''repository'', ''root'']) (\<lambda>_.
     and_then (at_path v [''repository'', ''primary_remote'']) (\<lambda>r.
     and_then (gate (remote_ok r) ''repository-remote'') (\<lambda>_.
     and_then (and_then (item v ''filesystem'') as_dict) (\<lambda>fs.
     and_then (any_res (\<lambda>(k, w). and_then (python_int w) (\<lambda>i. Inr (i > MAX_U64))) fs) (\<lambda>large.
     gate (\<not> large) ''filesystem-u64'')))))"

definition check_item_server :: "(string \<Rightarrow> string) \<Rightarrow> json \<Rightarrow> unit res" where
  "check_item_server sha payload =
     and_then (item payload ''server'') (\<lambda>server.
     and_then (item_is server [''transport''] (JStr ''http'')) (\<lambda>http.
     and_then (if http then and_then (item server ''url'') (\<lambda>u. gate (url_valid u) ''schema'') else Inr ()) (\<lambda>_.
     and_then (for_each (normal_field server) [''env_names'', ''environments'']) (\<lambda>_.
     and_then (as_list (jget_or (JArr []) (the_dict server) ''environments'')) (\<lambda>es.
     and_then (any_res (\<lambda>e. negated (in_frozenset e [''claude_code'', ''codex_cli'', ''muse'', ''opencode'', ''pi''])) es) (\<lambda>unknown.
     and_then (gate (\<not> unknown) ''server-environments'') (\<lambda>_.
     and_then (context_identity sha server) (\<lambda>h.
     and_then (item_is payload [''server_sha256''] (JStr (''sha256:'' @ h))) (\<lambda>same. gate same ''server-digest'')))))))))"

definition check_context_member :: "json \<Rightarrow> unit res" where
  "check_context_member v = and_then (strings v []) (\<lambda>_. check_root v [''project_root''])"

definition check_fragment_members :: "json \<Rightarrow> unit res" where
  "check_fragment_members v =
     and_then (item v ''project_context'') (\<lambda>context.
     and_then (check_context_member context) (\<lambda>_.
     let command = jget (the_dict v) ''command_environment'' in
     if \<not> truthy command then Inr ()
     else
       and_then (both [same_item command [''context_ref''] context [''context_ref''],
         same_item command [''context_sha256''] context [''context_sha256'']]) (\<lambda>same. gate same ''fragment-context'')))"

definition semantic :: "(string \<Rightarrow> string) \<Rightarrow> string \<Rightarrow> json \<Rightarrow> unit res" where
  "semantic sha kind v =
     and_then (strings v []) (\<lambda>_.
     if kind \<in> {''registration'', ''project-context''} then check_root v [''project_root'']
     else if kind = ''root-binding'' then check_binding_record v
     else if kind = ''generation'' then
       and_then (list_at v [''items'']) (\<lambda>items.
       and_then (map_res (\<lambda>i. item i ''item_id'') items) (\<lambda>ids.
       and_then (unique_values ids) (\<lambda>unique. gate unique ''generation-ids'')))
     else if kind \<in> {''snapshot-manifest'', ''control-receipt''} then and_then (list_at v [''files'']) files_error
     else if kind = ''adapter'' then
       and_then (ordered_texts v ''modes'') (\<lambda>modes.
       and_then (gate modes ''mode-order'') (\<lambda>_.
       and_then (ordered_texts v ''surfaces'') (\<lambda>surfaces. gate surfaces ''surface-order'')))
     else if kind = ''item'' then
       and_then (item_is v [''type''] (JStr ''mcp'')) (\<lambda>mcp.
       if mcp then and_then (item v ''payload'') (check_item_server sha) else Inr ())
     else if kind = ''fragment-members'' then check_fragment_members v
     else Inr ())"

definition validate_bytes :: "(string \<Rightarrow> json \<Rightarrow> bool) \<Rightarrow> (string \<Rightarrow> string) \<Rightarrow> string \<Rightarrow> string \<Rightarrow> json res" where
  "validate_bytes valid sha kind bytes =
     and_then (guard (kind \<in> set RECORDS) (ValueError ''unknown record schema'')) (\<lambda>_.
     and_then (decode_context bytes) (\<lambda>v.
     and_then (gate (valid kind v) ''schema'') (\<lambda>_.
     and_then (semantic sha kind v) (\<lambda>_. Inr v))))"

text \<open>The gate that refused, if one did; every refusal has the one code of the family.\<close>

definition context_verdict :: "(string \<Rightarrow> json \<Rightarrow> bool) \<Rightarrow> (string \<Rightarrow> string) \<Rightarrow> string \<Rightarrow> string \<Rightarrow> string option res" where
  "context_verdict valid sha kind bytes =
     (case validate_bytes valid sha kind bytes of
        Inr _ \<Rightarrow> Inr None | Inl (ContractError g) \<Rightarrow> Inr (Some g) | Inl e \<Rightarrow> Inl e)"

section \<open>The mode contract\<close>

definition MODE_ITEM_SURFACES :: "(string \<times> string) list" where
  "MODE_ITEM_SURFACES = [(''context'', ''context''), (''skill'', ''skills''), (''mcp'', ''mcp'')]"

record projection =
  pj_code :: "string option"
  pj_managed_root :: json
  pj_notice :: "string option"

definition refused_projection :: "string \<Rightarrow> projection res" where
  "refused_projection code = Inr \<lparr>pj_code = Some code, pj_managed_root = JNull, pj_notice = None\<rparr>"

abbreviation INVALID :: string where "INVALID \<equiv> ''project_context_invalid''"

abbreviation UNSUPPORTED :: string where "UNSUPPORTED \<equiv> ''project_context_unsupported''"

definition is_one_of :: "json \<Rightarrow> string \<Rightarrow> string list \<Rightarrow> bool res" where
  "is_one_of facts k ss = and_then (item facts k) (\<lambda>v. Inr (str_in v ss))"

definition unknown_types :: "json list \<Rightarrow> bool res" where
  "unknown_types ts = any_res (\<lambda>t. negated (in_frozenset t (map fst MODE_ITEM_SURFACES))) ts"

text \<open>Modes and types that do not fit each other, in the order of the code.\<close>

definition misfit :: "json \<Rightarrow> json list \<Rightarrow> bool res" where
  "misfit facts types =
     and_then (either [negated (is_one_of facts ''mode'' [''strict'', ''native-project'']), negated (is_one_of facts ''admission'' [''off'', ''admitted''])]) (\<lambda>bad.
     and_then (either [negated (same_item facts [''registration_mode''] facts [''mode'']),
       negated (same_item facts [''composition_mode''] facts [''mode''])]) (\<lambda>mismatch.
     if bad \<or> mismatch then Inr True else unknown_types types))"

definition surface_of :: "json \<Rightarrow> json" where
  "surface_of t = JStr (the (map_of MODE_ITEM_SURFACES (the_str t)))"

definition required_surfaces :: "bool \<Rightarrow> string list" where
  "required_surfaces strict = [''permissions'', ''memory-off''] @ (if strict then [''native-source-exclusion''] else [])"

definition unsupported :: "json \<Rightarrow> bool \<Rightarrow> json list \<Rightarrow> bool res" where
  "unsupported facts strict types =
     and_then (item facts ''mode'') (\<lambda>mode.
     and_then (list_at facts [''advertised_modes'']) (\<lambda>modes.
     if \<not> py_in mode modes then Inr True
     else
       and_then (and_then (list_at facts [''surfaces'']) as_set) (\<lambda>surfaces.
       Inr (\<not> list_all (\<lambda>s. JStr s \<in> set surfaces) (required_surfaces strict) \<or> \<not> strict \<and> JStr ''context'' \<in> set types \<or>
         \<not> list_all (\<lambda>t. surface_of t \<in> set surfaces) types))))"

text \<open>The root document: the profile's own, followed by the approved ones of the project where they are admitted.\<close>

definition managed_document :: "json \<Rightarrow> bool \<Rightarrow> json res" where
  "managed_document facts copied =
     and_then (item facts ''profile_root'') (\<lambda>own.
     if \<not> copied then Inr own
     else
       and_then (list_at facts [''project_roots'']) (\<lambda>roots.
       and_then (map_res as_text (filter truthy (own # roots))) (\<lambda>ds. Inr (JStr (join_with [newline] ds)))))"

definition mode_projection :: "json \<Rightarrow> projection res" where
  "mode_projection facts =
     and_then (list_at facts [''item_types'']) (\<lambda>types.
     and_then (misfit facts types) (\<lambda>bad.
     if bad then refused_projection INVALID
     else
       and_then (item_is facts [''admission''] (JStr ''off'')) (\<lambda>off.
       if off \<and> types \<noteq> [] then refused_projection INVALID
       else
         and_then (item_is facts [''mode''] (JStr ''strict'')) (\<lambda>strict.
         and_then (unsupported facts strict types) (\<lambda>lacking.
         if lacking then refused_projection UNSUPPORTED
         else
           and_then (managed_document facts (strict \<and> \<not> off)) (\<lambda>document.
           Inr \<lparr>pj_code = None, pj_managed_root = document,
             pj_notice = (if strict then None else Some ''project sources not isolated'')\<rparr>))))))"

definition projection_json :: "projection \<Rightarrow> json" where
  "projection_json p =
     JObj [(''code'', jopt (pj_code p)), (''managed_root'', pj_managed_root p), (''notice'', jopt (pj_notice p))]"

definition check_mode_case :: "(string \<times> json) list \<Rightarrow> json \<Rightarrow> unit res" where
  "check_mode_case by_name c =
     and_then (and_then (item c ''facts'') mode_projection) (\<lambda>actual.
     and_then (item_is c [''expected''] (projection_json actual)) (\<lambda>same.
     and_then (guard same (ValueError ''mode case'')) (\<lambda>_.
     if \<not> jhas (the_dict c) ''positive'' then Inr ()
     else if \<not> hashable (jget (the_dict c) ''positive'') then Inl TypeError
     else
       case (case jget (the_dict c) ''positive'' of JStr n \<Rightarrow> map_of by_name n | _ \<Rightarrow> None) of
         None \<Rightarrow> Inl (ValueError ''missing positive mode control'')
       | Some sibling \<Rightarrow>
           and_then (at_path sibling [''expected'', ''code'']) (\<lambda>code. guard (code = JNull) (ValueError ''missing positive mode control'')))))"

text \<open>\<open>check_mode_vectors\<close>, given its document: the number of cases.\<close>

definition check_mode_vectors :: "json \<Rightarrow> nat res" where
  "check_mode_vectors vector =
     and_then (list_at vector [''cases'']) (\<lambda>cases.
     and_then (map_res (\<lambda>c. text_at c [''name'']) cases) (\<lambda>names.
     and_then (guard (distinct names) (ValueError ''duplicate mode case name'')) (\<lambda>_.
     and_then (for_each (check_mode_case (zip names cases)) cases) (\<lambda>_. Inr (length cases)))))"

section \<open>What the records and the contract show\<close>

lemma misfit_no:
  assumes "misfit facts types = Inr False"
  obtains mode where "item facts ''mode'' = Inr (JStr mode)" "mode \<in> {''strict'', ''native-project''}"
    "is_one_of facts ''admission'' [''off'', ''admitted''] = Inr True" "\<And>t. t \<in> set types \<Longrightarrow> \<exists>k \<in> fst ` set MODE_ITEM_SURFACES. t = JStr k"
proof -
  from assms have m: "is_one_of facts ''mode'' [''strict'', ''native-project''] = Inr True" "is_one_of facts ''admission'' [''off'', ''admitted''] = Inr True"
      "unknown_types types = Inr False"
    by (auto simp: misfit_def and_then_ok_iff negated_ok split: if_splits)
  have known: "\<exists>k \<in> fst ` set MODE_ITEM_SURFACES. t = JStr k" if "t \<in> set types" for t
  proof -
    have "in_frozenset t (map fst MODE_ITEM_SURFACES) = Inr True"
      using m(3) that by (auto simp: unknown_types_def any_none negated_ok)
    then show ?thesis by (auto simp: in_frozenset_def str_in_iff split: if_splits)
  qed
  from m(1) obtain mode where "item facts ''mode'' = Inr (JStr mode)" "mode \<in> {''strict'', ''native-project''}"
    by (auto simp: is_one_of_def and_then_ok_iff str_in_iff)
  with m(2) known that show thesis by blast
qed

lemma surface_known: "(k, s) \<in> set MODE_ITEM_SURFACES \<Longrightarrow> surface_of (JStr k) = JStr s"
  by (auto simp: MODE_ITEM_SURFACES_def surface_of_def)

lemma supported:
  assumes "unsupported facts strict types = Inr False"
  obtains surfaces where "list_at facts [''surfaces''] = Inr surfaces" "\<And>s. s \<in> set (required_surfaces strict) \<Longrightarrow> JStr s \<in> set surfaces"
    "\<not> strict \<Longrightarrow> JStr ''context'' \<notin> set types" "\<And>t. t \<in> set types \<Longrightarrow> surface_of t \<in> set surfaces"
  using assms that by (auto simp: unsupported_def and_then_ok_iff as_set_def list_all_iff split: if_splits)

text \<open>
  A launch gets of a project only what was approved for its mode.  A projection with a code has
  neither a document nor a notice.  Without one, the mode is strict or native-project and every item
  of the project has an advertised surface; nothing is delivered while admission is off; a document
  other than the profile's own is only ever given in strict mode after admission, where native sources
  are excluded; and in native-project mode, which takes no context items, the notice says that project
  sources are not isolated.
\<close>

theorem mode_contract:
  assumes "mode_projection facts = Inr p"
  shows "(pj_code p \<noteq> None \<longrightarrow> pj_managed_root p = JNull \<and> pj_notice p = None) \<and>
    (pj_code p = None \<longrightarrow>
      (\<exists>own mode types surfaces. item facts ''profile_root'' = Inr own \<and> item facts ''mode'' = Inr (JStr mode) \<and>
        list_at facts [''item_types''] = Inr types \<and> list_at facts [''surfaces''] = Inr surfaces \<and> mode \<in> {''strict'', ''native-project''} \<and>
        (\<forall>t \<in> set types. \<exists>(k, s) \<in> set MODE_ITEM_SURFACES. t = JStr k \<and> JStr s \<in> set surfaces) \<and>
        (item_is facts [''admission''] (JStr ''off'') = Inr True \<longrightarrow> types = []) \<and>
        (pj_managed_root p \<noteq> own \<longrightarrow> mode = ''strict'' \<and> item_is facts [''admission''] (JStr ''admitted'') = Inr True) \<and>
        (mode = ''strict'' \<longrightarrow> JStr ''native-source-exclusion'' \<in> set surfaces \<and> pj_notice p = None) \<and>
        (mode = ''native-project'' \<longrightarrow> JStr ''context'' \<notin> set types \<and> pj_notice p = Some ''project sources not isolated'')))"
proof -
  from assms obtain types bad where t: "list_at facts [''item_types''] = Inr types" "misfit facts types = Inr bad"
    by (auto simp: mode_projection_def and_then_ok_iff)
  consider "pj_code p \<noteq> None" "pj_managed_root p = JNull" "pj_notice p = None"
    | off strict document where "\<not> bad" "item_is facts [''admission''] (JStr ''off'') = Inr off" "off \<longrightarrow> types = []"
      "item_is facts [''mode''] (JStr ''strict'') = Inr strict" "unsupported facts strict types = Inr False"
      "managed_document facts (strict \<and> \<not> off) = Inr document"
      "p = \<lparr>pj_code = None, pj_managed_root = document, pj_notice = (if strict then None else Some ''project sources not isolated'')\<rparr>"
    using assms t by (auto simp: mode_projection_def and_then_ok_iff refused_projection_def split: if_splits)
  then show ?thesis
  proof cases
    case (2 off strict document)
    from t(2) 2(1) have "misfit facts types = Inr False" by simp
    then obtain mode where mode: "item facts ''mode'' = Inr (JStr mode)" "mode \<in> {''strict'', ''native-project''}"
      "is_one_of facts ''admission'' [''off'', ''admitted''] = Inr True" "\<And>t. t \<in> set types \<Longrightarrow> \<exists>k \<in> fst ` set MODE_ITEM_SURFACES. t = JStr k"
      by (rule misfit_no) blast
    from 2(5) obtain surfaces where s: "list_at facts [''surfaces''] = Inr surfaces" "\<And>s. s \<in> set (required_surfaces strict) \<Longrightarrow> JStr s \<in> set surfaces"
      "\<not> strict \<Longrightarrow> JStr ''context'' \<notin> set types" "\<And>t. t \<in> set types \<Longrightarrow> surface_of t \<in> set surfaces"
      by (rule supported) blast
    have strict: "strict \<longleftrightarrow> mode = ''strict''" using 2(4) mode(1) by (simp add: item_is_def)
    from 2(6) obtain own where own: "item facts ''profile_root'' = Inr own" "\<not> (strict \<and> \<not> off) \<Longrightarrow> document = own"
      by (auto simp: managed_document_def and_then_ok_iff split: if_splits)
    have admitted: "item_is facts [''admission''] (JStr ''admitted'') = Inr True" if "\<not> off"
      using mode(3) 2(2) that by (auto simp: is_one_of_def item_is_def and_then_ok_iff str_in_iff)
    have typed: "\<exists>(k, s) \<in> set MODE_ITEM_SURFACES. t = JStr k \<and> JStr s \<in> set surfaces" if "t \<in> set types" for t
    proof -
      from mode(4) [OF that] obtain k s' where "(k, s') \<in> set MODE_ITEM_SURFACES" "t = JStr k" by auto
      with surface_known [OF this(1)] s(4) [OF that] show ?thesis by auto
    qed
    show ?thesis
      using t(1) mode(1,2) s(1-3) own 2(2,3,7) strict admitted typed
      by (auto simp: required_surfaces_def)
  qed auto
qed

text \<open>
  The files of an accepted manifest: in order, within the bounds, and no two of them one file, nor one
  a directory of another, where case is ignored.
\<close>

theorem context_files_apart:
  assumes "validate_bytes valid sha kind bytes = Inr v" "kind \<in> {''snapshot-manifest'', ''control-receipt''}"
  shows "length bytes \<le> MAX_BYTES \<and> nests_within MAX_DEPTH v \<and> all_ints in_safe_range v \<and>
    (\<exists>files paths sizes. list_at v [''files''] = Inr files \<and> map_res (\<lambda>e. text_at e [''path'']) files = Inr paths \<and>
      map_res (\<lambda>e. number_at e ''size'') files = Inr sizes \<and> sum_list sizes \<le> MAX_TOTAL \<and> sorted paths \<and> distinct (map folded paths) \<and>
      (\<forall>p \<in> set paths. length (split_on (CHR ''/'') p) \<le> MAX_PATH_DEPTH \<and> (\<forall>q \<in> set paths. folded q \<notin> set (ancestors (folded p)))))"
proof -
  from assms(1) have d: "decode_context bytes = Inr v" and s: "semantic sha kind v = Inr ()"
    by (auto simp: validate_bytes_def and_then_ok_iff)
  have "length bytes \<le> MAX_BYTES" "nests_within MAX_DEPTH v" "all_ints in_safe_range v"
    using d by (auto simp: decode_context_def context_bytes_def and_then_ok_iff split: option.splits sum.splits failure.splits)
  moreover from s assms(2) obtain files where "list_at v [''files''] = Inr files" "files_error files = Inr ()"
    by (auto simp: semantic_def and_then_ok_iff)
  ultimately show ?thesis by (auto simp: files_error_def and_then_ok_iff list_all_iff list_ex_iff) blast
qed

lemma nests_canon [simp]: "nests_within n (canon v) = nests_within n v"
  by (induction v arbitrary: n) (auto simp: list_all_iff)

text \<open>What fits the bounds is read back from its canonical bytes.\<close>

theorem decode_context_back:
  assumes "unique_keys v" "nests_within MAX_DEPTH v" "context_bytes v = Inr bytes" "length bytes \<le> MAX_BYTES"
  shows "decode_context bytes = Inr (canon v)"
proof -
  have ints: "all_ints in_safe_range v" and bytes: "bytes = utf8 (json_text v)"
    using assms(3) by (auto simp: context_bytes_def and_then_ok_iff)
  have "faithful in_safe_range context_hooks"
    by (simp add: faithful_def context_hooks_def ccj_integer_text object_pairs_def)
  from loads_text [OF this assms(1) ints] have "json_loads context_hooks (json_text v) = Inr (canon v)" .
  then show ?thesis using assms(2,4) ints by (simp add: decode_context_def bytes context_bytes_def)
qed

definition sample_mode_facts :: json where
  "sample_mode_facts = JObj
     [(''mode'', JStr ''strict''), (''registration_mode'', JStr ''strict''), (''composition_mode'', JStr ''strict''), (''admission'', JStr ''admitted''),
      (''advertised_modes'', JArr [JStr ''strict'']),
      (''surfaces'', JArr (map JStr [''context'', ''memory-off'', ''native-source-exclusion'', ''permissions''])),
      (''item_types'', JArr [JStr ''context'']), (''profile_root'', JStr ''profile''), (''project_roots'', JArr [JStr ''general'', JStr [], JStr ''more''])]"

lemma sample_mode_projected:
  "mode_projection sample_mode_facts =
     Inr \<lparr>pj_code = None, pj_managed_root = JStr (''profile'' @ [newline] @ ''general'' @ [newline] @ ''more''), pj_notice = None\<rparr>"
  by code_simp

theorem mode_contract_witness:
  "\<exists>surfaces. list_at sample_mode_facts [''surfaces''] = Inr surfaces \<and> JStr ''native-source-exclusion'' \<in> set surfaces \<and>
     item_is sample_mode_facts [''admission''] (JStr ''admitted'') = Inr True"
proof -
  have "item sample_mode_facts ''profile_root'' = Inr (JStr ''profile'')" by code_simp
  with mode_contract [OF sample_mode_projected] show ?thesis by auto
qed

end
