(* ===== verification/Spec2Isabelle.thy ===== *)
theory Spec2Isabelle
  imports Resolver Registry Posture WorkspaceTrust HookModel SkillPlan LockWire
    Materialize ContentHash NativeAdmission PolicyGrant EffectivePosture
    Umbrella WriteNofollow PathKind ReadFailure Dotfiles Passthrough UpdateDelta StoreBoundary
    ShellHook SkillfileMcp Assurance ProjectContext
begin

text \<open>
  A verification library for the conformance tools of curator-spec (\<open>tools/*.py\<close>), the
  executable side of the Curator protocol: reference algorithms, gates that recompute the recorded
  expectations of the conformance vectors, and state machines that serve as oracles.

  \<^bold>\<open>Program and model.\<close>  \<open>tools/validate.py\<close> holds the reference algorithms
  (versions, ranges, closure resolution), the checks the JSON schemas cannot express
  (\<open>validate_wire_semantics\<close>) and one gate per vector file.  \<open>tools/workspace_trust.py\<close>,
  \<open>tools/profile_command_roots.py\<close>, \<open>tools/profile_skill_plan.py\<close>,
  \<open>tools/native_root_admission.py\<close>, \<open>tools/workspace_policy_grant.py\<close>,
  \<open>tools/effective_posture.py\<close>, \<open>tools/skillfile_mcp.py\<close>, \<open>tools/assurance.py\<close>,
  \<open>tools/managed_home_snapshots.py\<close> and \<open>tools/project_context_leaf1.py\<close> are oracles over their own
  corpora.  A Python function becomes a HOL function of the same name where HOL allows it; a raised
  exception is an \<open>Inl\<close> of the type \<open>failure\<close>, and a verdict that is a message or
  \<open>None\<close> is an option.  Classes and the objects of the corpora are records; JSON documents whose
  shape the code tests itself are values of the type \<open>json\<close>.

  \<^bold>\<open>Theories.\<close>
  \<^item> \<open>PyPrelude\<close>: JSON values, Python equality, exceptions as values, loops with early
    return, subscripts.  \<open>PyText\<close>: string operations, decimals, the locale \<open>text_codec\<close> of a
    printer and its reader.  \<open>Ordering\<close>: comparison functions as the locales \<open>three_way\<close> and
    \<open>total_three_way\<close>, and the stable sort.  \<open>Machines\<close>: executable state machines,
    reachability, the locales \<open>invariant_machine\<close> and \<open>rising_machine\<close>.
    \<open>PurePaths\<close>: \<open>pathlib\<close> and \<open>urlsplit\<close> as far as they are used.
    \<open>Cases\<close>: named case lists.
  \<^item> \<open>JsonText\<close>: \<open>ccj1_bytes\<close>, \<open>ccj1_sha256\<close> and \<open>load_json\<close>: canonical
    JSON, its printing, UTF-8, and the strict reader of \<open>json.loads\<close> with its hooks.
  \<^item> \<open>SemVer\<close>: \<open>semver_parse\<close>, \<open>semver_compare\<close>, \<open>range_parse\<close>,
    \<open>range_satisfies\<close> (environments.md section 1.4).  \<open>Resolver\<close>: \<open>resolve_closure\<close>,
    its work list with downward re-selection, weights and the lock.
  \<^item> \<open>RegistryVectors\<close>, \<open>Registry\<close>: the page-boundary, checkpoint and bootstrap
    gates.  \<open>PosturePins\<close>, \<open>PostureVectors\<close>, \<open>Posture\<close>: the security-posture
    gate.  The vector theories hold the published vectors the witnesses run on.
  \<^item> \<open>WorkspaceTrust\<close>: the consent ledger.  \<open>CommandRoots\<close>: admission of a command root,
    forwarder chains, transactions.  \<open>HookModel\<close>: references to admitted generations.
    \<open>SkillPlan\<close>: admission of a locked skill plan and the outcome of an operation.
  \<^item> \<open>WireSources\<close>: repository addresses, network identities, ref names, effective sources.
    \<open>WireSemantics\<close>: \<open>validate_wire_semantics\<close>.  \<open>LockWire\<close>: the lock a resolution
    writes, under the wire check.
  \<^item> \<open>Emission\<close>: weights and the emitted order of a lock (Kahn's loop).  \<open>Materialize\<close>:
    the files of a case, module by module, and \<open>toml_basic_string\<close>.  \<open>ContentHash\<close>: the
    framings of a tree that the content digests are taken of.
  \<^item> \<open>NativeAdmission\<close>: routes, provider selection, candidates and policy updates of a native
    root.  \<open>PolicyGrant\<close>: the decision on a stored grant, and revocation.
    \<open>EffectivePosture\<close>: records of a wrapper's posture and the verdict on a pair of them.
  \<^item> The environment gates of \<open>validate.py\<close>, one theory each: \<open>Umbrella\<close> (providers of
    subcommands), \<open>WriteNofollow\<close>, \<open>PathKind\<close>, \<open>ReadFailure\<close>,
    \<open>Dotfiles\<close>, \<open>Passthrough\<close> (what a profile passes through of the environment),
    \<open>SourceSigners\<close> and \<open>UpdateDelta\<close> (signed sources, and what an update must have
    confirmed), \<open>StoreBoundary\<close> (the protected store),
    \<open>Detectors\<close> (secrets in a snapshot, and their waivers), \<open>ShellHook\<close> (approval of the
    files a shell hook sources).  Each holds the pinned scenarios, the
    reference disposition and the gate.  \<open>Regexes\<close>: the fragment of \<open>re\<close> that the patterns
    of the detectors use.
  \<^item> \<open>SkillfileMcp\<close>: MCP servers declared in a Skillfile (\<open>tools/skillfile_mcp.py\<close>,
    \<open>tools/mcp_url_grammar.py\<close>): admission, the plan, and lock, plan and approval carriers.
  \<^item> \<open>Assurance\<close>: the evidence of a verified execution (\<open>tools/assurance.py\<close> and its gate): provider,
    capabilities, permit, cache, receipt and the chain of checkpoints.  \<open>HomeSnapshots\<close>: bundles of a
    managed home (\<open>tools/managed_home_snapshots.py\<close>).  \<open>ProjectContext\<close>: the records of project
    contexts and the mode contract (\<open>tools/project_context_leaf1.py\<close>).

  \<^bold>\<open>How the parts interact.\<close>  The resolver calls the version algorithms and sorts by their
  comparison, so its lemmas rest on the interpretations of \<open>total_three_way\<close> and
  \<open>text_codec\<close> in \<open>SemVer\<close>.  The command-root admission reads its metadata through the JSON
  reader and digests what the printer prints, so its examples rest on the round trip of
  \<open>JsonText\<close>; the hook machine admits only roots that admission accepts; the skill-plan binding
  digests the documents of its records.  The lock of a resolution is a document of the wire check, and
  \<open>LockWire\<close> states what makes it pass, and an order to emit exists for it when the requirements
  have no cycle; materialization concatenates in that order.  Native admission uses the path model of
  the command roots, policy grants the timestamps of the ledger, and posture records are decoded by the
  JSON reader with one more hook.  The admission of MCP servers audits them with the secret
  detectors, selects versions with the ranges of \<open>SemVer\<close>, and reads and digests documents with
  \<open>JsonText\<close>.  The ledger and the hook machine interpret
  \<open>rising_machine\<close>, from which the facts about every reachable state and every run follow.

  \<^bold>\<open>What the lemmas show.\<close>
  \<^item> Round trips and grammars: versions, ranges, canonical JSON, repository addresses; each as a
    \<open>text_codec\<close>.  The strict JSON reader accepts texts of an independent grammar only (\<open>spells\<close>).  Comparison equals the lexicographic order of keys.
  \<^item> Resolution: what returns answers every constraint, is closed and justified: each is satisfied,
    except that the working tree of an overlay stands in for the tags and revisions of its name
    (\<open>answers\<close>; \<open>overlay_displaces_tag\<close> is an instance); it returns when the requirements have no
    cycle, and a concrete cyclic input on which it never does.
  \<^item> Gates: what a vector that passes must record, including the fail-closed posture and the absence
    of rollback.
  \<^item> Machines: invariants of reachable states, no resurrection of consent, held references,
    availability, replay, and runs of the upgrade scenario.
  \<^item> Admission: a command that is run follows pinned forwarders to the pinned executable; an accepted
    plan is a closed acyclic order that says what its packages say; an operation changes all of its
    state or none; published names have one owner.
  \<^item> Wire semantics: manifests build from declared sources only, receipts are bound to their input,
    and resolved locks are accepted exactly when nothing requires the root or itself.
  \<^item> Emission and digests: the emitted order sorts by weight as the policy says and puts a required context
    first among equal weights; a system prompt holds exactly the entitled modules, in that order
    (\<open>prompt_spec\<close>); TOML strings and the framing of trees can be read back.
  \<^item> Grants and postures: what an admitting decision has checked; revocation is exact and
    idempotent; policy updates are serial.
  \<^item> Environment gates: no foreign provider is dispatched, no write goes through a link, no path
    source is trusted untested, and no read failure is taken for absence, in any accepted vector;
    status rows print exactly the declared passthrough, a source is selected only when its signatures
    admit it, updates name what they add, and an untrusted store is never used.  A snapshot installs
    when every secret found in it is waived, and a hook is trusted on the manager's record only.
  \<^item> MCP servers: nothing is planned for a server that is not admitted, a refusal writes nothing, and
    an accepted lock is bound to its declarations (\<open>entry_bound\<close>).
  \<^item> Evidence, bundles and contexts: the last checkpoint of an accepted flow fixes the evidence before it,
    unless a digest collides; no two paths of an accepted bundle meet on a file system that ignores case;
    project documents are copied into the root only where the mode is strict and they are admitted.

  \<^bold>\<open>Parameters.\<close>  \<open>sha\<close> is the hexadecimal SHA-256 of a text or of bytes, of which
  nothing is assumed.  \<open>valid\<close>, \<open>valid_lock\<close> and \<open>valid_mcp\<close> are verdicts of the third-party
  JSON Schema validator, \<open>knob_default\<close> is a default its schema files declare, and
  \<open>arrow\<close> the text of U+2192, which the alphabet below lacks.  \<open>fromiso\<close> and \<open>clock\<close> are
  \<open>datetime.fromisoformat\<close>.  The bytes of a file are arguments.
  The record \<open>mcp_env\<close> holds what the MCP oracle takes from outside: schema documents and verdicts,
  the published pattern classes, and SHA-256.

  \<^bold>\<open>Bounds and fuel.\<close>  Texts are lists of the code points U+0000 to U+00FF and integers
  are unbounded, as in Python; floats are not modelled.  The resolver's loop is a \<open>while_option\<close>:
  not returning is the value \<open>None\<close>.  The JSON reader takes twice the length of its text plus one
  steps and the visit of requirements one more level than there are packages; that neither bound is
  ever met is proved (\<open>load_json_ends\<close>, \<open>outcome_ends\<close>).  A posture record is read to the
  depth and size the code itself sets (12 levels, 64 KiB).
  The reader of patterns takes three steps for each character of the pattern and three more, and more
  would change nothing (\<open>parse_steps\<close>); the search of matches needs no fuel, for it moves forward
  (\<open>runs_forward\<close>).  \<open>base64\<close> is the strict decoder of Python 3.12.

  \<^bold>\<open>Not modelled.\<close>  Reading files, running git and processes, the schema validator and the
  generators, whose work is input and output; release and history checks, which compare the files of
  two commits.  Of the gates of \<open>tools/validate.py\<close>, the Codex seed (which needs
  \<open>tomllib\<close> on whole configuration files), the table comparisons of the global lock
  publication, and the build and execution policy gates, whose rules are equality with recorded
  constants.  The smaller oracles and corpus checkers the manifest lists check documents the schema
  validator has accepted, so that their models would mostly be parameters.
\<close>

end
